(* ===== verification/Turn_Types.thy ===== *)
theory Turn_Types
  imports Prelude
begin

text \<open>
  The data a turn produces (\<open>src/types.ts\<close>): the result record a run stores when it settles,
  with the pending approvals and the attachments it carries. An optional field is an
  \<open>option\<close>; a field of the literal type \<open>true\<close> is a \<open>bool\<close>.
\<close>

datatype turn_status = TOk | TRefused | TFailed | TPendingApproval | TQueued | TSilent | TReact

datatype refusal_kind = SecurityQuarantine | SessionBusy

record approval_grant_modes =
  gm_session :: bool
  gm_always :: bool

datatype approval_kind = KApproval | KInput

record pending_approval =
  pa_requestId :: string
  pa_command :: string
  pa_reason :: string
  pa_matched :: "string option"
  pa_purpose :: "string option"
  pa_summary :: "string option"
  pa_summaryDetail :: "string option"
  pa_approvalKey :: "string option"
  pa_grantModes :: "approval_grant_modes option"
  pa_blocksInput :: "bool option"
  pa_kind :: "approval_kind option"

record blob_attachment =
  ba_name :: string
  ba_mimetype :: string
  ba_sizeBytes :: nat
  ba_blobId :: string

record outgoing_attachment = blob_attachment +
  oa_artifactId :: "string option"
  oa_artifactViewerId :: "string option"

record turn_result =
  tr_status :: turn_status
  tr_sessionId :: "string option"
  tr_reply :: "string option"
  tr_reactions :: "string list option"
  tr_reason :: "string option"
  tr_refusalKind :: "refusal_kind option"
  tr_adminUrl :: "string option"
  tr_runId :: "string option"
  tr_steered :: bool
  tr_stopped :: "bool option"
  tr_pendingApprovals :: "pending_approval list option"
  tr_attachments :: "outgoing_attachment list option"
  tr_sourceUserSeq :: "int option"
  tr_sourceAssistantEntrySeq :: "int option"

text \<open>The object literal \<open>{ status, sessionId, reason }\<close>: every other field is absent.\<close>

definition failed_result :: "string \<Rightarrow> string \<Rightarrow> turn_result" where
  "failed_result sessionId reason =
     \<lparr>tr_status = TFailed, tr_sessionId = Some sessionId, tr_reply = None, tr_reactions = None,
      tr_reason = Some reason, tr_refusalKind = None, tr_adminUrl = None, tr_runId = None,
      tr_steered = False, tr_stopped = None, tr_pendingApprovals = None, tr_attachments = None,
      tr_sourceUserSeq = None, tr_sourceAssistantEntrySeq = None\<rparr>"

end
