(* ===== verification/Run_Store.thy ===== *)
theory Run_Store
  imports Turn_Types
begin

text \<open>
  The durable run queue (\<open>src/runs/run-store.ts\<close>, \<open>src/runs/memory-run-store.ts\<close>): a run is
  enqueued once per deduplication key, leased to one worker at a time, and settles as done or
  failed. The store's closure variables are the fields of \<open>run_store\<close>; a run object of the
  source is the value under its id, so a mutation of the object is an update of that entry.
  The request a run carries is never inspected here and is a type parameter.
  \<open>rs_notified\<close> is the trace of the callbacks \<open>settle\<close> makes: \<open>None\<close> for the event emitted
  to the waiters on the run's id, \<open>Some l\<close> for the registered listener \<open>l\<close>.
\<close>

section \<open>Data\<close>

datatype run_status = RPending | RRunning | RDone | RFailed

datatype reap_outcome = Requeued | Parked

record reap_event =
  re_runId :: string
  re_sessionId :: string
  re_workerId :: "string option"
  re_attempts :: nat
  re_errorAttempts :: nat
  re_outcome :: reap_outcome

record run_delivery_state =
  ds_editRef :: "string option"

record 'q run =
  r_id :: string
  r_sessionId :: string
  r_status :: run_status
  r_request :: 'q
  r_result :: "turn_result option"
  r_deliveryState :: "run_delivery_state option"
  r_turnUserSeq :: "int option"
  r_dedupKey :: "string option"
  r_attempts :: nat
  r_errorAttempts :: nat
  r_maxAttempts :: nat
  r_leaseToken :: "string option"
  r_leaseExpiresAt :: "time option"
  r_workerId :: "string option"
  r_createdAt :: time
  r_startedAt :: "time option"
  r_finishedAt :: "time option"

record 'q enqueue_input =
  ei_sessionId :: string
  ei_request :: 'q
  ei_dedupKey :: "string option"
  ei_maxAttempts :: "nat option"

text \<open>\<open>rs_maxClaims\<close> is \<open>None\<close> for the default \<open>Number.POSITIVE_INFINITY\<close>.\<close>

record 'q run_store =
  rs_maxClaims :: "nat option"
  rs_runs :: "(string, 'q run) jsmap"
  rs_retryAfter :: "(string, time) jsmap"
  rs_byKey :: "(string, string) jsmap"
  rs_ledger :: "(string, string) jsmap"
  rs_listeners :: "string list"
  rs_notified :: "(string option \<times> 'q run) list"

definition createMemoryRunStore :: "nat option \<Rightarrow> 'q run_store" where
  "createMemoryRunStore maxClaims =
     \<lparr>rs_maxClaims = maxClaims, rs_runs = [], rs_retryAfter = [], rs_byKey = [], rs_ledger = [],
      rs_listeners = [], rs_notified = []\<rparr>"

definition FENCE_HOLD_MS :: int where
  "FENCE_HOLD_MS = 600000"

section \<open>Predicates on runs\<close>

definition isTerminal :: "run_status \<Rightarrow> bool" where
  "isTerminal st = (st \<in> {RDone, RFailed})"

definition releasesDedupKey :: "turn_result \<Rightarrow> bool" where
  "releasesDedupKey result = (tr_refusalKind result = Some SessionBusy)"

definition errorParks :: "'q run \<Rightarrow> nat option \<Rightarrow> bool" where
  "errorParks run maxClaims =
     (r_errorAttempts run + 1 \<ge> r_maxAttempts run \<or>
      (case maxClaims of None \<Rightarrow> False | Some m \<Rightarrow> r_attempts run \<ge> m))"

definition leaseLapsed :: "'q run \<Rightarrow> time \<Rightarrow> bool" where
  "leaseLapsed run asOf =
     (r_status run = RRunning \<and>
      (case r_leaseExpiresAt run of None \<Rightarrow> False | Some t \<Rightarrow> t \<le> asOf))"

definition overClaimed :: "'q run_store \<Rightarrow> 'q run \<Rightarrow> bool" where
  "overClaimed s run = (case rs_maxClaims s of None \<Rightarrow> False | Some m \<Rightarrow> r_attempts run \<ge> m)"

definition sessionUnavailable :: "'q run_store \<Rightarrow> string \<Rightarrow> time \<Rightarrow> bool" where
  "sessionUnavailable s sessionId now =
     list_ex (\<lambda>r. r_sessionId r = sessionId \<and>
                  (r_status r = RRunning \<or>
                   r_status r = RPending \<and> or_else (map_get (rs_retryAfter s) (r_id r)) 0 > now))
       (map_vals (rs_runs s))"

section \<open>Operations\<close>

text \<open>A mutation of a run object: its entry in \<open>runs\<close> gets the new value.\<close>

definition put_run :: "'q run \<Rightarrow> 'q run_store \<Rightarrow> 'q run_store" where
  "put_run run s = s\<lparr>rs_runs := map_set (r_id run) run (rs_runs s)\<rparr>"

definition settle :: "'q run \<Rightarrow> 'q run_store \<Rightarrow> 'q run_store" where
  "settle run s =
     (if \<not> isTerminal (r_status run) then s
      else s\<lparr>rs_notified := rs_notified s @ (None, run) # map (\<lambda>l. (Some l, run)) (rs_listeners s)\<rparr>)"

definition new_run :: "'q enqueue_input \<Rightarrow> uuid \<Rightarrow> time \<Rightarrow> 'q run" where
  "new_run input u now =
     \<lparr>r_id = u, r_sessionId = ei_sessionId input, r_status = RPending,
      r_request = ei_request input, r_result = None, r_deliveryState = None,
      r_turnUserSeq = None, r_dedupKey = ei_dedupKey input, r_attempts = 0, r_errorAttempts = 0,
      r_maxAttempts = or_else (ei_maxAttempts input) 3, r_leaseToken = None,
      r_leaseExpiresAt = None, r_workerId = None, r_createdAt = now, r_startedAt = None,
      r_finishedAt = None\<rparr>"

text \<open>The run a deduplication key already names, when there is one.\<close>

definition dedup_hit :: "'q run_store \<Rightarrow> string option \<Rightarrow> 'q run option" where
  "dedup_hit s dedupKey =
     (if truthy dedupKey
      then (case map_get (rs_byKey s) (the dedupKey) of
              None \<Rightarrow> None
            | Some existingId \<Rightarrow> if existingId \<noteq> [] then map_get (rs_runs s) existingId else None)
      else None)"

definition enqueue ::
  "'q run_store \<Rightarrow> 'q enqueue_input \<Rightarrow> uuid \<Rightarrow> time \<Rightarrow> 'q run_store \<times> 'q run \<times> bool" where
  "enqueue s input u now =
     (case dedup_hit s (ei_dedupKey input) of
        Some existing \<Rightarrow> (s, existing, True)
      | None \<Rightarrow>
          (let run = new_run input u now;
               s1 = put_run run s;
               s2 = (if truthy (ei_dedupKey input)
                     then s1\<lparr>rs_byKey := map_set (the (ei_dedupKey input)) u (rs_byKey s1)\<rparr>
                     else s1)
           in (s2, run, False)))"

definition lease ::
  "'q run_store \<Rightarrow> 'q run \<Rightarrow> string \<Rightarrow> int \<Rightarrow> uuid \<Rightarrow> time \<Rightarrow> 'q run_store \<times> 'q run" where
  "lease s run workerId ttlMs u now =
     (let run' = run\<lparr>r_status := RRunning, r_leaseToken := Some u,
                     r_leaseExpiresAt := Some (now + ttlMs), r_workerId := Some workerId,
                     r_attempts := r_attempts run + 1,
                     r_startedAt := Some (or_else (r_startedAt run) now)\<rparr>
      in (put_run run' (s\<lparr>rs_retryAfter := map_del (r_id run) (rs_retryAfter s)\<rparr>), run'))"

definition claimable :: "'q run_store \<Rightarrow> time \<Rightarrow> 'q run list" where
  "claimable s now =
     js_sort (\<lambda>a b. r_createdAt a - r_createdAt b)
       (filter (\<lambda>r. r_status r = RPending \<and> \<not> sessionUnavailable s (r_sessionId r) now)
          (map_vals (rs_runs s)))"

definition claim ::
  "'q run_store \<Rightarrow> string \<Rightarrow> int \<Rightarrow> uuid \<Rightarrow> time \<Rightarrow> 'q run_store \<times> 'q run option" where
  "claim s workerId ttlMs u now =
     (case head_opt (claimable s now) of
        None \<Rightarrow> (s, None)
      | Some run \<Rightarrow> (case lease s run workerId ttlMs u now of (s', run') \<Rightarrow> (s', Some run')))"

definition claimById ::
  "'q run_store \<Rightarrow> string \<Rightarrow> string \<Rightarrow> int \<Rightarrow> uuid \<Rightarrow> time \<Rightarrow> 'q run_store \<times> 'q run option" where
  "claimById s runId workerId ttlMs u now =
     (case map_get (rs_runs s) runId of
        None \<Rightarrow> (s, None)
      | Some run \<Rightarrow>
          if r_status run \<noteq> RPending \<or> sessionUnavailable s (r_sessionId run) now then (s, None)
          else (case lease s run workerId ttlMs u now of (s', run') \<Rightarrow> (s', Some run')))"

definition heartbeat ::
  "'q run_store \<Rightarrow> string \<Rightarrow> string \<Rightarrow> int \<Rightarrow> time \<Rightarrow> 'q run_store \<times> bool" where
  "heartbeat s runId leaseToken ttlMs now =
     (case map_get (rs_runs s) runId of
        None \<Rightarrow> (s, False)
      | Some run \<Rightarrow>
          if r_status run \<noteq> RRunning \<or> r_leaseToken run \<noteq> Some leaseToken then (s, False)
          else (put_run (run\<lparr>r_leaseExpiresAt := Some (now + ttlMs)\<rparr>) s, True))"

definition releaseLease :: "'q run_store \<Rightarrow> string \<Rightarrow> string \<Rightarrow> 'q run_store \<times> bool" where
  "releaseLease s runId leaseToken =
     (case map_get (rs_runs s) runId of
        None \<Rightarrow> (s, False)
      | Some run \<Rightarrow>
          if r_status run \<noteq> RRunning \<or> r_leaseToken run \<noteq> Some leaseToken then (s, False)
          else (put_run (run\<lparr>r_status := RPending, r_leaseToken := None,
                            r_leaseExpiresAt := None, r_workerId := None\<rparr>) s, True))"

definition complete ::
  "'q run_store \<Rightarrow> string \<Rightarrow> string \<Rightarrow> turn_result \<Rightarrow> time \<Rightarrow> 'q run_store \<times> bool" where
  "complete s runId leaseToken result now =
     (case map_get (rs_runs s) runId of
        None \<Rightarrow> (s, False)
      | Some run \<Rightarrow>
          if r_leaseToken run \<noteq> Some leaseToken then (s, False)
          else
            let run1 = run\<lparr>r_status := RDone, r_result := Some result, r_leaseToken := None,
                           r_leaseExpiresAt := None, r_finishedAt := Some now\<rparr>;
                release = releasesDedupKey result \<and> truthy (r_dedupKey run1);
                s1 = (if release then s\<lparr>rs_byKey := map_del (the (r_dedupKey run1)) (rs_byKey s)\<rparr> else s);
                run2 = (if release then run1\<lparr>r_dedupKey := None\<rparr> else run1)
            in (settle run2 (put_run run2 s1), True))"

text \<open>\<open>retire\<close> ends a lease: it requeues the run with a backoff or parks it as failed.\<close>

definition crash_loop_reason :: "nat \<Rightarrow> string" where
  "crash_loop_reason attempts =
     ''run parked after '' @ show_nat attempts @ '' claims without completing (suspected crash loop)''"

text \<open>The run with its lease cleared and the error counted.\<close>

definition retired_run :: "'q run \<Rightarrow> bool \<Rightarrow> 'q run" where
  "retired_run run countsAsError =
     run\<lparr>r_leaseToken := None, r_leaseExpiresAt := None, r_workerId := None,
         r_errorAttempts := r_errorAttempts run + (if countsAsError then 1 else 0)\<rparr>"

definition parked_run :: "'q run \<Rightarrow> string \<Rightarrow> time \<Rightarrow> 'q run" where
  "parked_run run reason now =
     run\<lparr>r_status := RFailed, r_result := Some (failed_result (r_sessionId run) reason),
         r_finishedAt := Some now\<rparr>"

definition retire ::
  "'q run_store \<Rightarrow> 'q run \<Rightarrow> string \<Rightarrow> bool \<Rightarrow> time option \<Rightarrow> bool \<Rightarrow> int option \<Rightarrow> time
     \<Rightarrow> 'q run_store \<times> bool \<times> bool" where
  "retire s run error retry ifExpiredAt countsAsError retryAfterMs now =
     (if r_status run \<noteq> RRunning then (s, False, False)
      else if (case ifExpiredAt of None \<Rightarrow> False
               | Some e \<Rightarrow> (case r_leaseExpiresAt run of None \<Rightarrow> True | Some t \<Rightarrow> t > e))
      then (s, False, False)
      else
        let run1 = retired_run run countsAsError;
            over = overClaimed s run1
        in if retry \<and> r_errorAttempts run1 < r_maxAttempts run1 \<and> \<not> over
           then (let s1 = put_run (run1\<lparr>r_status := RPending\<rparr>) s
                 in (s1\<lparr>rs_retryAfter :=
                        map_set (r_id run1) (now + max 0 (or_else retryAfterMs 0)) (rs_retryAfter s1)\<rparr>,
                     True, True))
           else
             let reason = (if \<not> countsAsError \<and> over \<and> retry \<and> r_errorAttempts run1 < r_maxAttempts run1
                           then crash_loop_reason (r_attempts run1) else error);
                 run2 = parked_run run1 reason now
             in (settle run2 (put_run run2 s), False, True))"

definition fail ::
  "'q run_store \<Rightarrow> string \<Rightarrow> string \<Rightarrow> string \<Rightarrow> bool option \<Rightarrow> int option \<Rightarrow> time
     \<Rightarrow> 'q run_store \<times> bool" where
  "fail s runId leaseToken error retry retryAfterMs now =
     (case map_get (rs_runs s) runId of
        None \<Rightarrow> (s, False)
      | Some run \<Rightarrow>
          if r_leaseToken run \<noteq> Some leaseToken then (s, False)
          else (case retire s run error (retry \<noteq> Some False) None True retryAfterMs now of
                  (s', requeued, _) \<Rightarrow> (s', requeued)))"

definition noteTurnUserSeq :: "'q run_store \<Rightarrow> string \<Rightarrow> int \<Rightarrow> 'q run_store \<times> bool" where
  "noteTurnUserSeq s runId seq =
     (case map_get (rs_runs s) runId of
        None \<Rightarrow> (s, False)
      | Some run \<Rightarrow>
          if r_turnUserSeq run \<noteq> None then (s, False)
          else (put_run (run\<lparr>r_turnUserSeq := Some seq\<rparr>) s, True))"

definition setDeliveryState ::
  "'q run_store \<Rightarrow> string \<Rightarrow> string option \<Rightarrow> run_delivery_state \<Rightarrow> 'q run_store \<times> bool" where
  "setDeliveryState s runId leaseToken st =
     (case map_get (rs_runs s) runId of
        None \<Rightarrow> (s, False)
      | Some run \<Rightarrow>
          if leaseToken \<noteq> None \<and> r_leaseToken run \<noteq> leaseToken then (s, False)
          else (put_run (run\<lparr>r_deliveryState := Some st\<rparr>) s, True))"

definition onTerminal :: "'q run_store \<Rightarrow> string \<Rightarrow> 'q run_store" where
  "onTerminal s listener = s\<lparr>rs_listeners := rs_listeners s @ [listener]\<rparr>"

definition withdraw :: "'q run_store \<Rightarrow> string \<Rightarrow> 'q run_store \<times> bool" where
  "withdraw s runId =
     (case map_get (rs_runs s) runId of
        None \<Rightarrow> (s, False)
      | Some run \<Rightarrow>
          if r_status run \<noteq> RPending then (s, False)
          else
            let s1 = s\<lparr>rs_runs := map_del runId (rs_runs s),
                       rs_retryAfter := map_del runId (rs_retryAfter s)\<rparr>
            in (if truthy (r_dedupKey run)
                then s1\<lparr>rs_byKey := map_del (the (r_dedupKey run)) (rs_byKey s1)\<rparr> else s1, True))"

section \<open>Queries\<close>

definition get :: "'q run_store \<Rightarrow> string \<Rightarrow> 'q run option" where
  "get s runId = map_get (rs_runs s) runId"

definition getByDedupKey :: "'q run_store \<Rightarrow> string \<Rightarrow> 'q run option" where
  "getByDedupKey s dedupKey =
     (case map_get (rs_byKey s) dedupKey of
        None \<Rightarrow> None
      | Some i \<Rightarrow> if i \<noteq> [] then map_get (rs_runs s) i else None)"

definition activeForThread :: "'q run_store \<Rightarrow> string \<Rightarrow> 'q run option" where
  "activeForThread s sessionId =
     head_opt (js_sort (\<lambda>a b. r_createdAt b - r_createdAt a)
       (filter (\<lambda>r. r_sessionId r = sessionId \<and> \<not> isTerminal (r_status r)) (map_vals (rs_runs s))))"

definition inFlightForThread :: "'q run_store \<Rightarrow> string \<Rightarrow> 'q run list" where
  "inFlightForThread s sessionId =
     js_sort (\<lambda>a b. r_createdAt a - r_createdAt b)
       (filter (\<lambda>r. r_sessionId r = sessionId \<and> \<not> isTerminal (r_status r)) (map_vals (rs_runs s)))"

definition activeSessionIds :: "'q run_store \<Rightarrow> string list" where
  "activeSessionIds s =
     js_set_of (map r_sessionId (filter (\<lambda>r. \<not> isTerminal (r_status r)) (map_vals (rs_runs s))))"

definition list_runs :: "'q run_store \<Rightarrow> nat option \<Rightarrow> 'q run list" where
  "list_runs s limit =
     take (or_else limit 200) (js_sort (\<lambda>a b. r_createdAt b - r_createdAt a) (map_vals (rs_runs s)))"

section \<open>The reaper's sweep\<close>

text \<open>
  \<open>reapExpired\<close> fences each lapsed run with a fresh token, awaits \<open>onRetired\<close> and then retires
  the run. Whatever else runs during that await is the store transformer the callback argument
  stands for; the run object is read again after it. \<open>resume i\<close> is the clock when the await of
  run \<open>i\<close> returns. A run that was withdrawn meanwhile is no longer in the map; the source's
  detached object is pending then, and \<open>retire\<close> does not apply to it.
\<close>

definition reap_too_old :: "int option \<Rightarrow> 'q run \<Rightarrow> time \<Rightarrow> bool" where
  "reap_too_old maxAgeMs run now =
     (case maxAgeMs of None \<Rightarrow> False
      | Some m \<Rightarrow> (case r_startedAt run of None \<Rightarrow> False | Some st \<Rightarrow> now - st > m))"

definition reap_fence :: "'q run_store \<Rightarrow> 'q run \<Rightarrow> uuid \<Rightarrow> time \<Rightarrow> 'q run_store" where
  "reap_fence s run u now =
     put_run (run\<lparr>r_leaseToken := Some u, r_leaseExpiresAt := Some (now + FENCE_HOLD_MS)\<rparr>) s"

definition reap_one ::
  "(string list \<Rightarrow> 'q run_store \<Rightarrow> 'q run_store) option \<Rightarrow> int option \<Rightarrow> (string \<Rightarrow> uuid) \<Rightarrow>
   (string \<Rightarrow> time) \<Rightarrow> time \<Rightarrow> string \<Rightarrow> 'q run_store \<Rightarrow> 'q run_store \<times> reap_event option" where
  "reap_one onRetired maxAgeMs us resume now runId s =
     (case map_get (rs_runs s) runId of
        None \<Rightarrow> (s, None)
      | Some run \<Rightarrow>
          let tooOld = reap_too_old maxAgeMs run now;
              reason = (if tooOld then ''run exceeded max age (reaped)'' else ''lease expired (reaped)'')
          in if \<not> leaseLapsed run now then (s, None)
             else
               let s1 = reap_fence s run (us runId) now;
                   s2 = (case onRetired of None \<Rightarrow> s1 | Some f \<Rightarrow> f [r_sessionId run] s1)
               in (case map_get (rs_runs s2) runId of
                     None \<Rightarrow> (s2, None)
                   | Some run2 \<Rightarrow>
                       (case retire s2 run2 reason (\<not> tooOld) None False None (resume runId) of
                          (s3, requeued, applied) \<Rightarrow>
                            if \<not> applied then (s3, None)
                            else (s3, Some \<lparr>re_runId = runId, re_sessionId = r_sessionId run2,
                                            re_workerId = r_workerId run,
                                            re_attempts = r_attempts run2,
                                            re_errorAttempts = r_errorAttempts run2,
                                            re_outcome = (if requeued then Requeued else Parked)\<rparr>))))"

fun reap_loop ::
  "(string list \<Rightarrow> 'q run_store \<Rightarrow> 'q run_store) option \<Rightarrow> int option \<Rightarrow> (string \<Rightarrow> uuid) \<Rightarrow>
   (string \<Rightarrow> time) \<Rightarrow> time \<Rightarrow> string list \<Rightarrow> 'q run_store \<Rightarrow> 'q run_store \<times> reap_event list" where
  "reap_loop onRetired maxAgeMs us resume now [] s = (s, [])"
| "reap_loop onRetired maxAgeMs us resume now (i # is) s =
     (case reap_one onRetired maxAgeMs us resume now i s of (s1, ev) \<Rightarrow>
        (case reap_loop onRetired maxAgeMs us resume now is s1 of (s2, evs) \<Rightarrow>
           (s2, (case ev of None \<Rightarrow> evs | Some e \<Rightarrow> e # evs))))"

definition reapExpired ::
  "'q run_store \<Rightarrow> (string list \<Rightarrow> 'q run_store \<Rightarrow> 'q run_store) option \<Rightarrow> int option \<Rightarrow>
   (string \<Rightarrow> uuid) \<Rightarrow> (string \<Rightarrow> time) \<Rightarrow> time \<Rightarrow> 'q run_store \<times> reap_event list \<times> nat \<times> nat" where
  "reapExpired s onRetired maxAgeMs us resume now =
     (let expired = filter (\<lambda>r. leaseLapsed r now) (map_vals (rs_runs s))
      in (case reap_loop onRetired maxAgeMs us resume now (map r_id expired) s of (s', evs) \<Rightarrow>
            (s', evs, length (filter (\<lambda>e. re_outcome e = Requeued) evs),
             length (filter (\<lambda>e. re_outcome e = Parked) evs))))"

section \<open>The tool ledger\<close>

definition ledger_key :: "string \<Rightarrow> nat \<Rightarrow> nat \<Rightarrow> string" where
  "ledger_key runId attempt callIndex = runId @ '':'' @ show_nat attempt @ '':'' @ show_nat callIndex"

definition ledger_begin :: "'q run_store \<Rightarrow> string \<Rightarrow> nat \<Rightarrow> nat \<Rightarrow> string option" where
  "ledger_begin s runId attempt callIndex = map_get (rs_ledger s) (ledger_key runId attempt callIndex)"

definition ledger_record ::
  "'q run_store \<Rightarrow> string \<Rightarrow> nat \<Rightarrow> nat \<Rightarrow> string \<Rightarrow> 'q run_store" where
  "ledger_record s runId attempt callIndex out =
     s\<lparr>rs_ledger := map_set (ledger_key runId attempt callIndex) out (rs_ledger s)\<rparr>"

end
