(* ===== verification/Interfaces.thy ===== *)
theory Interfaces
  imports Prelude
begin

text \<open>
  The contracts several components share, as locales: a component whose operations keep an
  invariant (\<open>invariant_system\<close>), and an operation guarded by a lease or claim token
  (\<open>token_guarded\<close>), the way the run queue, the loop items and the loop outputs fence a caller
  whose lease was taken over. Each component interprets them on its own operations.
\<close>

section \<open>Reachable states\<close>

inductive reach :: "('s \<Rightarrow> bool) \<Rightarrow> ('s \<Rightarrow> 's \<Rightarrow> bool) \<Rightarrow> 's \<Rightarrow> bool" for init step where
  reach_init: "init s \<Longrightarrow> reach init step s"
| reach_step: "reach init step s \<Longrightarrow> step s t \<Longrightarrow> reach init step t"

lemma reach_steps: "reach init step s \<Longrightarrow> step\<^sup>*\<^sup>* s t \<Longrightarrow> reach init step t"
  by (rotate_tac) (induction rule: rtranclp_induct; blast intro: reach.intros)

locale invariant_system =
  fixes init :: "'s \<Rightarrow> bool" and step :: "'s \<Rightarrow> 's \<Rightarrow> bool" and inv :: "'s \<Rightarrow> bool"
  assumes inv_init: "init s \<Longrightarrow> inv s"
    and inv_step: "inv s \<Longrightarrow> step s t \<Longrightarrow> inv t"
begin

lemma inv_steps: "step\<^sup>*\<^sup>* s t \<Longrightarrow> inv s \<Longrightarrow> inv t"
  by (induction rule: rtranclp_induct) (blast intro: inv_step)+

lemma reach_inv: "reach init step s \<Longrightarrow> inv s"
  by (induction rule: reach.induct) (blast intro: inv_init inv_step)+

end

section \<open>Operations guarded by a token\<close>

text \<open>
  \<open>holds s i t\<close>: in state \<open>s\<close> the token \<open>t\<close> is the current one of object \<open>i\<close>. A guarded
  operation called with any other token refuses (\<open>refused\<close>) and changes nothing.
\<close>

locale token_guarded =
  fixes holds :: "'s \<Rightarrow> 'i \<Rightarrow> 't \<Rightarrow> bool" and act :: "'s \<Rightarrow> 'i \<Rightarrow> 't \<Rightarrow> 's \<times> 'r" and refused :: 'r
  assumes stale_refused: "\<not> holds s i t \<Longrightarrow> act s i t = (s, refused)"
begin

lemma stale_unchanged: "\<not> holds s i t \<Longrightarrow> fst (act s i t) = s"
  by (simp add: stale_refused)

lemma accepted_holds: "snd (act s i t) \<noteq> refused \<Longrightarrow> holds s i t"
  using stale_refused by fastforce

text \<open>Any number of calls with stale tokens leaves the state as it is.\<close>

lemma stale_calls_unchanged:
  "(\<And>i t. (i, t) \<in> set cs \<Longrightarrow> \<not> holds s i t) \<Longrightarrow> fold (\<lambda>(i, t) s. fst (act s i t)) cs s = s"
  by (induction cs) (auto simp: stale_unchanged)

end

end
