(* ===== verification/Run_Invariants.thy ===== *)
theory Run_Invariants
  imports Run_Store Interfaces
begin

text \<open>
  Correctness of the run queue: the invariant of \<open>rs_inv\<close>, kept by every operation; the step
  relation of all operations (the two halves of the reaper's sweep as separate steps, so that
  anything may run between them) and its reachable states; the lease fencing; settled runs;
  the order in which runs are claimed; deduplication and the retry budget.
\<close>

section \<open>The invariant\<close>

definition run_ok :: "'q run \<Rightarrow> bool" where
  "run_ok r =
     ((r_leaseToken r \<noteq> None) = (r_status r = RRunning) \<and>
      (r_leaseExpiresAt r \<noteq> None) = (r_status r = RRunning) \<and>
      (r_status r = RRunning \<longrightarrow> r_workerId r \<noteq> None \<and> r_startedAt r \<noteq> None \<and>
                               r_errorAttempts r < r_attempts r) \<and>
      (r_finishedAt r \<noteq> None) = isTerminal (r_status r) \<and>
      (r_result r \<noteq> None) = isTerminal (r_status r) \<and>
      r_errorAttempts r \<le> r_attempts r \<and>
      (0 < r_maxAttempts r \<longrightarrow> r_errorAttempts r \<le> r_maxAttempts r) \<and>
      (0 < r_maxAttempts r \<and> \<not> isTerminal (r_status r) \<longrightarrow> r_errorAttempts r < r_maxAttempts r))"

abbreviation run_at :: "'q run_store \<Rightarrow> string \<Rightarrow> 'q run option" where
  "run_at s i \<equiv> map_get (rs_runs s) i"

definition rs_wf :: "'q run_store \<Rightarrow> bool" where
  "rs_wf s = (map_ok (rs_runs s) \<and> (\<forall>i r. run_at s i = Some r \<longrightarrow> r_id r = i \<and> run_ok r))"

text \<open>At most one running run per session.\<close>

definition rs_exclusive :: "'q run_store \<Rightarrow> bool" where
  "rs_exclusive s =
     (\<forall>i j r q. run_at s i = Some r \<and> run_at s j = Some q \<and> r_status r = RRunning \<and>
                r_status q = RRunning \<and> r_sessionId r = r_sessionId q \<longrightarrow> i = j)"

text \<open>The deduplication index and the keys on the runs agree.\<close>

definition rs_dedup :: "'q run_store \<Rightarrow> bool" where
  "rs_dedup s =
     ((\<forall>k i. map_get (rs_byKey s) k = Some i \<longrightarrow>
         k \<noteq> [] \<and> i \<noteq> [] \<and> (\<exists>r. run_at s i = Some r \<and> r_dedupKey r = Some k)) \<and>
      (\<forall>i r k. run_at s i = Some r \<and> r_dedupKey r = Some k \<and> k \<noteq> [] \<longrightarrow>
         map_get (rs_byKey s) k = Some i))"

text \<open>Only pending runs carry a backoff.\<close>

definition rs_backoff :: "'q run_store \<Rightarrow> bool" where
  "rs_backoff s =
     (\<forall>i t. map_get (rs_retryAfter s) i = Some t \<longrightarrow> (\<exists>r. run_at s i = Some r \<and> r_status r = RPending))"

definition rs_inv :: "'q run_store \<Rightarrow> bool" where
  "rs_inv s = (rs_wf s \<and> rs_exclusive s \<and> rs_dedup s \<and> rs_backoff s)"

text \<open>Introduction and elimination rules, so that proofs do not unfold the quantifiers.\<close>

lemma rs_invE:
  assumes "rs_inv s"
  obtains "rs_wf s" "rs_exclusive s" "rs_dedup s" "rs_backoff s"
  using assms by (simp add: rs_inv_def)

lemma rs_wf_get: "rs_wf s \<Longrightarrow> run_at s i = Some r \<Longrightarrow> r_id r = i \<and> run_ok r"
  by (simp add: rs_wf_def)

lemma rs_exclusiveD:
  "rs_exclusive s \<Longrightarrow> run_at s i = Some r \<Longrightarrow> run_at s j = Some q \<Longrightarrow> r_status r = RRunning \<Longrightarrow>
   r_status q = RRunning \<Longrightarrow> r_sessionId r = r_sessionId q \<Longrightarrow> i = j"
  unfolding rs_exclusive_def by blast

lemma rs_exclusiveI:
  "(\<And>i j r q. run_at s i = Some r \<Longrightarrow> run_at s j = Some q \<Longrightarrow> r_status r = RRunning \<Longrightarrow>
     r_status q = RRunning \<Longrightarrow> r_sessionId r = r_sessionId q \<Longrightarrow> i = j) \<Longrightarrow> rs_exclusive s"
  unfolding rs_exclusive_def by blast

lemma rs_dedupD1:
  "rs_dedup s \<Longrightarrow> map_get (rs_byKey s) k = Some i \<Longrightarrow>
   k \<noteq> [] \<and> i \<noteq> [] \<and> (\<exists>r. run_at s i = Some r \<and> r_dedupKey r = Some k)"
  unfolding rs_dedup_def by blast

lemma rs_dedupD2:
  "rs_dedup s \<Longrightarrow> run_at s i = Some r \<Longrightarrow> r_dedupKey r = Some k \<Longrightarrow> k \<noteq> [] \<Longrightarrow>
   map_get (rs_byKey s) k = Some i"
  unfolding rs_dedup_def by blast

lemma rs_dedupI:
  "(\<And>k i. map_get (rs_byKey s) k = Some i \<Longrightarrow>
      k \<noteq> [] \<and> i \<noteq> [] \<and> (\<exists>r. run_at s i = Some r \<and> r_dedupKey r = Some k)) \<Longrightarrow>
   (\<And>i r k. run_at s i = Some r \<Longrightarrow> r_dedupKey r = Some k \<Longrightarrow> k \<noteq> [] \<Longrightarrow>
      map_get (rs_byKey s) k = Some i) \<Longrightarrow> rs_dedup s"
  unfolding rs_dedup_def by blast

lemma rs_backoffD:
  "rs_backoff s \<Longrightarrow> map_get (rs_retryAfter s) i = Some t \<Longrightarrow> \<exists>r. run_at s i = Some r \<and> r_status r = RPending"
  unfolding rs_backoff_def by blast

lemma rs_backoffI:
  "(\<And>i t. map_get (rs_retryAfter s) i = Some t \<Longrightarrow> \<exists>r. run_at s i = Some r \<and> r_status r = RPending)
   \<Longrightarrow> rs_backoff s"
  unfolding rs_backoff_def by blast

lemma rs_parts_cong:
  "rs_runs s = rs_runs t \<Longrightarrow> rs_wf s = rs_wf t"
  "rs_runs s = rs_runs t \<Longrightarrow> rs_exclusive s = rs_exclusive t"
  "rs_runs s = rs_runs t \<Longrightarrow> rs_byKey s = rs_byKey t \<Longrightarrow> rs_dedup s = rs_dedup t"
  "rs_runs s = rs_runs t \<Longrightarrow> rs_retryAfter s = rs_retryAfter t \<Longrightarrow> rs_backoff s = rs_backoff t"
  by (simp_all add: rs_wf_def rs_exclusive_def rs_dedup_def rs_backoff_def)

lemma rs_inv_run: "rs_inv s \<Longrightarrow> run_at s i = Some r \<Longrightarrow> r_id r = i \<and> run_ok r"
  by (simp add: rs_inv_def rs_wf_def)

lemma isTerminal_simps [simp]:
  "\<not> isTerminal RPending" "\<not> isTerminal RRunning" "isTerminal RDone" "isTerminal RFailed"
  by (simp_all add: isTerminal_def)

lemma put_run_simps [simp]:
  "rs_runs (put_run r s) = map_set (r_id r) r (rs_runs s)"
  "rs_retryAfter (put_run r s) = rs_retryAfter s"
  "rs_byKey (put_run r s) = rs_byKey s"
  "rs_maxClaims (put_run r s) = rs_maxClaims s"
  "rs_ledger (put_run r s) = rs_ledger s"
  "rs_notified (put_run r s) = rs_notified s"
  "rs_listeners (put_run r s) = rs_listeners s"
  by (simp_all add: put_run_def)

lemma settle_simps [simp]:
  "rs_runs (settle r s) = rs_runs s"
  "rs_retryAfter (settle r s) = rs_retryAfter s"
  "rs_byKey (settle r s) = rs_byKey s"
  "rs_maxClaims (settle r s) = rs_maxClaims s"
  by (simp_all add: settle_def)

lemma rs_inv_cong:
  "rs_runs s = rs_runs t \<Longrightarrow> rs_retryAfter s = rs_retryAfter t \<Longrightarrow> rs_byKey s = rs_byKey t \<Longrightarrow>
   rs_inv s = rs_inv t"
  using rs_parts_cong [of s t] by (simp add: rs_inv_def)

lemma rs_inv_settle [simp]: "rs_inv (settle r s) = rs_inv s"
  by (rule rs_inv_cong) simp_all

section \<open>One lemma for every update of a run\<close>

text \<open>
  The operations change one run at a time. Such a change keeps the invariant when the new
  value is well formed, keeps the session and the deduplication key, starts running only in a
  session where nothing else runs, and leaves the pending state only without a backoff.
\<close>

lemma rs_inv_put_run:
  assumes inv: "rs_inv s" and old: "run_at s (r_id r) = Some r0"
    and ok: "run_ok r" and sess: "r_sessionId r = r_sessionId r0" and key: "r_dedupKey r = r_dedupKey r0"
    and excl: "r_status r = RRunning \<Longrightarrow> r_status r0 \<noteq> RRunning \<Longrightarrow>
       (\<And>j q. run_at s j = Some q \<Longrightarrow> r_sessionId q = r_sessionId r \<Longrightarrow> r_status q \<noteq> RRunning)"
    and pend: "r_status r \<noteq> RPending \<Longrightarrow> r_status r0 = RPending \<Longrightarrow> map_get (rs_retryAfter s) (r_id r) = None"
  shows "rs_inv (put_run r s)"
proof -
  from inv have wf: "rs_wf s" and ex: "rs_exclusive s" and dd: "rs_dedup s" and bo: "rs_backoff s"
    by (simp_all add: rs_inv_def)
  have "rs_wf (put_run r s)"
    using wf ok by (auto simp: rs_wf_def)
  moreover have "rs_exclusive (put_run r s)"
  proof (rule rs_exclusiveI)
    fix i j q1 q2
    assume at: "run_at (put_run r s) i = Some q1" "run_at (put_run r s) j = Some q2"
      and run: "r_status q1 = RRunning" "r_status q2 = RRunning" and eq: "r_sessionId q1 = r_sessionId q2"
    have other: False
      if "r_status r = RRunning" "r_sessionId q = r_sessionId r" "k \<noteq> r_id r" "run_at s k = Some q"
        "r_status q = RRunning" for k q
    proof (cases "r_status r0 = RRunning")
      case True
      then show False using rs_exclusiveD [OF ex old that(4)] that sess by simp
    next
      case False
      then show False using excl [OF that(1) False that(4)] that by blast
    qed
    show "i = j"
    proof (cases "i = r_id r")
      case True
      show ?thesis
      proof (rule ccontr)
        assume "i \<noteq> j"
        with True at have "q1 = r" "j \<noteq> r_id r" "run_at s j = Some q2" by simp_all
        then show False using other [of q2 j] run eq by simp
      qed
    next
      case False
      with at have i: "run_at s i = Some q1" by simp
      show ?thesis
      proof (cases "j = r_id r")
        case True
        with at have "q2 = r" by simp
        then show ?thesis using other [of q1 i] i False run eq by simp
      next
        case False
        with at have "run_at s j = Some q2" by simp
        then show ?thesis by (rule rs_exclusiveD [OF ex i _ run eq])
      qed
    qed
  qed
  moreover have "rs_dedup (put_run r s)"
  proof (rule rs_dedupI)
    fix k i assume "map_get (rs_byKey (put_run r s)) k = Some i"
    then show "k \<noteq> [] \<and> i \<noteq> [] \<and> (\<exists>q. run_at (put_run r s) i = Some q \<and> r_dedupKey q = Some k)"
      using rs_dedupD1 [OF dd, of k i] old key by auto
  next
    fix i q k assume "run_at (put_run r s) i = Some q" "r_dedupKey q = Some k" "k \<noteq> []"
    then show "map_get (rs_byKey (put_run r s)) k = Some i"
      using rs_dedupD2 [OF dd, of i _ k] old key by (auto split: if_splits)
  qed
  moreover have "rs_backoff (put_run r s)"
  proof (rule rs_backoffI)
    fix i t assume "map_get (rs_retryAfter (put_run r s)) i = Some t"
    then show "\<exists>q. run_at (put_run r s) i = Some q \<and> r_status q = RPending"
      using rs_backoffD [OF bo, of i t] old pend by (cases "i = r_id r") auto
  qed
  ultimately show ?thesis by (simp add: rs_inv_def)
qed

section \<open>Every operation keeps the invariant\<close>

lemma rs_inv_create [inv_intros]: "rs_inv (createMemoryRunStore m)"
  by (simp add: rs_inv_def rs_wf_def rs_exclusive_def rs_dedup_def rs_backoff_def createMemoryRunStore_def)

lemma new_run_simps [simp]:
  "r_id (new_run input u now) = u" "r_status (new_run input u now) = RPending"
  "r_dedupKey (new_run input u now) = ei_dedupKey input"
  "r_sessionId (new_run input u now) = ei_sessionId input"
  by (simp_all add: new_run_def)

lemma run_ok_new_run: "run_ok (new_run input u now)"
  by (simp add: run_ok_def new_run_def)

lemma dedup_hit_None:
  assumes "rs_inv s"
  shows "dedup_hit s k = None \<longleftrightarrow> \<not> truthy k \<or> map_get (rs_byKey s) (the k) = None"
proof (cases "map_get (rs_byKey s) (the k)")
  case None
  then show ?thesis by (simp add: dedup_hit_def)
next
  case (Some i)
  with assms obtain r where "i \<noteq> []" "run_at s i = Some r"
    using rs_dedupD1 by (metis rs_invE)
  with Some show ?thesis by (simp add: dedup_hit_def)
qed

lemma rs_inv_enqueue [inv_intros]:
  assumes inv: "rs_inv s" and fresh: "run_at s u = None" and "u \<noteq> []"
  shows "rs_inv (fst (enqueue s input u now))"
proof (cases "dedup_hit s (ei_dedupKey input)")
  case (Some r)
  with inv show ?thesis by (simp add: enqueue_def)
next
  case None
  then have nokey: "\<not> truthy (ei_dedupKey input) \<or> map_get (rs_byKey s) (the (ei_dedupKey input)) = None"
    using dedup_hit_None [OF inv] by simp
  define s1 where "s1 = put_run (new_run input u now) s"
  define s2 where "s2 = (if truthy (ei_dedupKey input)
     then s1\<lparr>rs_byKey := map_set (the (ei_dedupKey input)) u (rs_byKey s1)\<rparr> else s1)"
  have eq: "fst (enqueue s input u now) = s2"
    using None by (simp add: enqueue_def s1_def s2_def Let_def)
  have runs: "rs_runs s2 = map_set u (new_run input u now) (rs_runs s)"
    and retry: "rs_retryAfter s2 = rs_retryAfter s"
    by (simp_all add: s2_def s1_def)
  have keys: "rs_byKey s2 = (if truthy (ei_dedupKey input)
      then map_set (the (ei_dedupKey input)) u (rs_byKey s) else rs_byKey s)"
    by (simp add: s2_def s1_def)
  from inv have wf: "rs_wf s" and ex: "rs_exclusive s" and dd: "rs_dedup s" and bo: "rs_backoff s"
    by (simp_all add: rs_inv_def)
  have "rs_wf s2"
    using wf run_ok_new_run [of input u now] by (auto simp: rs_wf_def runs)
  moreover have "rs_exclusive s2"
  proof (rule rs_exclusiveI)
    fix i j r q assume "run_at s2 i = Some r" "run_at s2 j = Some q" "r_status r = RRunning"
      "r_status q = RRunning" "r_sessionId r = r_sessionId q"
    then show "i = j" using rs_exclusiveD [OF ex, of i r j q] by (auto simp: runs split: if_splits)
  qed
  moreover have "rs_backoff s2"
  proof (rule rs_backoffI)
    fix i t assume "map_get (rs_retryAfter s2) i = Some t"
    then show "\<exists>r. run_at s2 i = Some r \<and> r_status r = RPending"
      using rs_backoffD [OF bo, of i t] by (auto simp: runs retry)
  qed
  moreover have "rs_dedup s2"
  proof (rule rs_dedupI)
    fix k i assume at: "map_get (rs_byKey s2) k = Some i"
    show "k \<noteq> [] \<and> i \<noteq> [] \<and> (\<exists>r. run_at s2 i = Some r \<and> r_dedupKey r = Some k)"
    proof (cases "truthy (ei_dedupKey input) \<and> k = the (ei_dedupKey input)")
      case True
      with at show ?thesis
        using \<open>u \<noteq> []\<close> by (auto simp: runs keys elim!: truthyE)
    next
      case False
      with at have "map_get (rs_byKey s) k = Some i" by (auto simp: keys split: if_splits)
      then show ?thesis using rs_dedupD1 [OF dd, of k i] fresh by (auto simp: runs)
    qed
  next
    fix i r k assume at: "run_at s2 i = Some r" "r_dedupKey r = Some k" "k \<noteq> []"
    show "map_get (rs_byKey s2) k = Some i"
    proof (cases "i = u")
      case True
      with at have "ei_dedupKey input = Some k" by (auto simp: runs)
      with True at show ?thesis by (simp add: keys)
    next
      case False
      with at have "map_get (rs_byKey s) k = Some i"
        using rs_dedupD2 [OF dd, of i r k] by (simp add: runs)
      with nokey show ?thesis by (auto simp: keys)
    qed
  qed
  ultimately show ?thesis by (simp add: eq rs_inv_def)
qed

lemma sessionUnavailable_running:
  assumes "\<not> sessionUnavailable s sid now" "run_at s i = Some r" "r_sessionId r = sid"
  shows "r_status r \<noteq> RRunning"
  using assms map_get_in_vals [of "rs_runs s" i r]
  by (auto simp: sessionUnavailable_def list_ex_iff)

lemma rs_inv_drop_backoff:
  assumes "rs_inv s"
  shows "rs_inv (s\<lparr>rs_retryAfter := map_del i (rs_retryAfter s)\<rparr>)" (is "rs_inv ?t")
proof -
  have "rs_backoff ?t"
  proof (rule rs_backoffI)
    fix j t assume "map_get (rs_retryAfter ?t) j = Some t"
    then show "\<exists>r. run_at ?t j = Some r \<and> r_status r = RPending"
      using assms rs_backoffD [of s j t] by (auto simp: rs_inv_def split: if_splits)
  qed
  with assms show ?thesis
    using rs_parts_cong [of ?t s] by (simp add: rs_inv_def)
qed

lemma rs_inv_lease:
  assumes inv: "rs_inv s" and at: "run_at s i = Some r" and p: "r_status r = RPending"
    and free: "\<not> sessionUnavailable s (r_sessionId r) now"
  shows "rs_inv (fst (lease s r w ttl u now))"
proof -
  define s1 where "s1 = s\<lparr>rs_retryAfter := map_del (r_id r) (rs_retryAfter s)\<rparr>"
  define r' where "r' = r\<lparr>r_status := RRunning, r_leaseToken := Some u, r_leaseExpiresAt := Some (now + ttl),
     r_workerId := Some w, r_attempts := r_attempts r + 1, r_startedAt := Some (or_else (r_startedAt r) now)\<rparr>"
  have ok: "r_id r = i" "run_ok r" using rs_inv_run [OF inv at] by auto
  have "rs_inv s1"
    using inv unfolding s1_def by (rule rs_inv_drop_backoff)
  moreover have "run_at s1 (r_id r') = Some r"
    using at ok by (simp add: s1_def r'_def)
  moreover have "run_ok r'"
    using ok p by (auto simp: run_ok_def r'_def)
  moreover have "\<And>j q. run_at s1 j = Some q \<Longrightarrow> r_sessionId q = r_sessionId r' \<Longrightarrow> r_status q \<noteq> RRunning"
    using sessionUnavailable_running [OF free] by (simp add: s1_def r'_def)
  ultimately have "rs_inv (put_run r' s1)"
    by (intro rs_inv_put_run [of s1 r' r]) (auto simp: r'_def s1_def)
  then show ?thesis by (simp add: lease_def s1_def r'_def Let_def)
qed

lemma claimable_iff:
  assumes "rs_inv s"
  shows "r \<in> set (claimable s now) \<longleftrightarrow>
     (\<exists>i. run_at s i = Some r) \<and> r_status r = RPending \<and> \<not> sessionUnavailable s (r_sessionId r) now"
  using assms in_vals_iff [of "rs_runs s" r]
  by (auto simp: claimable_def rs_inv_def rs_wf_def)

lemma rs_inv_claim [inv_intros]:
  assumes inv: "rs_inv s"
  shows "rs_inv (fst (claim s w ttl u now))"
proof (cases "head_opt (claimable s now)")
  case None
  with inv show ?thesis by (simp add: claim_def)
next
  case (Some r)
  then obtain i where "run_at s i = Some r" "r_status r = RPending"
      "\<not> sessionUnavailable s (r_sessionId r) now"
    using claimable_iff [OF inv, of r now] head_opt_in [OF Some] by blast
  then have "rs_inv (fst (lease s r w ttl u now))" by (rule rs_inv_lease [OF inv])
  with Some show ?thesis by (simp add: claim_def case_prod_unfold)
qed

lemma rs_inv_claimById [inv_intros]:
  assumes inv: "rs_inv s"
  shows "rs_inv (fst (claimById s i w ttl u now))"
proof (cases "run_at s i")
  case None
  with inv show ?thesis by (simp add: claimById_def)
next
  case (Some r)
  then show ?thesis
    using inv rs_inv_lease [OF inv Some] by (simp add: claimById_def case_prod_unfold)
qed

text \<open>Changes that keep the status, or end a lease, of a run that is in the store.\<close>

lemma rs_inv_put_same:
  assumes inv: "rs_inv s" and at: "run_at s i = Some r0" and id: "r_id r = i" and ok: "run_ok r"
    and "r_sessionId r = r_sessionId r0" "r_dedupKey r = r_dedupKey r0"
    and st: "r_status r = r_status r0 \<or> r_status r0 = RRunning"
  shows "rs_inv (put_run r s)"
proof (rule rs_inv_put_run [OF inv])
  show "run_at s (r_id r) = Some r0" using at id by simp
qed (use assms in auto)

lemma rs_inv_heartbeat [inv_intros]:
  assumes inv: "rs_inv s"
  shows "rs_inv (fst (heartbeat s i t ttl now))"
proof (cases "run_at s i")
  case None
  with inv show ?thesis by (simp add: heartbeat_def)
next
  case (Some r)
  have "rs_inv (put_run (r\<lparr>r_leaseExpiresAt := Some (now + ttl)\<rparr>) s)" if "r_status r = RRunning"
    using rs_inv_run [OF inv Some] that by (intro rs_inv_put_same [OF inv Some]) (auto simp: run_ok_def)
  with Some inv show ?thesis by (simp add: heartbeat_def)
qed

lemma rs_inv_releaseLease [inv_intros]:
  assumes inv: "rs_inv s"
  shows "rs_inv (fst (releaseLease s i t))"
proof (cases "run_at s i")
  case None
  with inv show ?thesis by (simp add: releaseLease_def)
next
  case (Some r)
  have "rs_inv (put_run (r\<lparr>r_status := RPending, r_leaseToken := None, r_leaseExpiresAt := None,
      r_workerId := None\<rparr>) s)" if "r_status r = RRunning"
    using rs_inv_run [OF inv Some] that by (intro rs_inv_put_same [OF inv Some]) (auto simp: run_ok_def)
  with Some inv show ?thesis by (simp add: releaseLease_def)
qed

lemma rs_inv_noteTurnUserSeq [inv_intros]:
  assumes inv: "rs_inv s"
  shows "rs_inv (fst (noteTurnUserSeq s i n))"
proof (cases "run_at s i")
  case None
  with inv show ?thesis by (simp add: noteTurnUserSeq_def)
next
  case (Some r)
  have "rs_inv (put_run (r\<lparr>r_turnUserSeq := Some n\<rparr>) s)"
    using rs_inv_run [OF inv Some] by (intro rs_inv_put_same [OF inv Some]) (auto simp: run_ok_def)
  with Some inv show ?thesis by (simp add: noteTurnUserSeq_def)
qed

lemma rs_inv_setDeliveryState [inv_intros]:
  assumes inv: "rs_inv s"
  shows "rs_inv (fst (setDeliveryState s i t st))"
proof (cases "run_at s i")
  case None
  with inv show ?thesis by (simp add: setDeliveryState_def)
next
  case (Some r)
  have "rs_inv (put_run (r\<lparr>r_deliveryState := Some st\<rparr>) s)"
    using rs_inv_run [OF inv Some] by (intro rs_inv_put_same [OF inv Some]) (auto simp: run_ok_def)
  with Some inv show ?thesis by (simp add: setDeliveryState_def)
qed

lemma rs_inv_add_backoff:
  assumes inv: "rs_inv s" and at: "run_at s i = Some r" and p: "r_status r = RPending"
  shows "rs_inv (s\<lparr>rs_retryAfter := map_set i t (rs_retryAfter s)\<rparr>)" (is "rs_inv ?t")
proof -
  have "rs_backoff ?t"
  proof (rule rs_backoffI)
    fix j t' assume "map_get (rs_retryAfter ?t) j = Some t'"
    then show "\<exists>q. run_at ?t j = Some q \<and> r_status q = RPending"
      using inv at p rs_backoffD [of s j t'] by (auto simp: rs_inv_def split: if_splits)
  qed
  with inv show ?thesis
    using rs_parts_cong [of ?t s] by (simp add: rs_inv_def)
qed

text \<open>
  Completing a run that releases its key: the index entry and the key on the run go together.
\<close>

lemma rs_inv_release_key:
  assumes inv: "rs_inv s" and at: "run_at s i = Some r0" and key: "r_dedupKey r0 = Some k" and k: "k \<noteq> []"
    and id: "r_id r = i" and ok: "run_ok r" and nokey: "r_dedupKey r = None"
    and st: "isTerminal (r_status r)" and st0: "r_status r0 = RRunning"
  shows "rs_inv (put_run r (s\<lparr>rs_byKey := map_del k (rs_byKey s)\<rparr>))" (is "rs_inv ?t")
proof -
  from inv have wf: "rs_wf s" and ex: "rs_exclusive s" and dd: "rs_dedup s" and bo: "rs_backoff s"
    by (simp_all add: rs_inv_def)
  have nr: "r_status r \<noteq> RRunning" "r_status r \<noteq> RPending" using st by auto
  have "rs_wf ?t" using wf ok id by (auto simp: rs_wf_def)
  moreover have "rs_exclusive ?t"
  proof (rule rs_exclusiveI)
    fix a b q1 q2 assume "run_at ?t a = Some q1" "run_at ?t b = Some q2" "r_status q1 = RRunning"
      "r_status q2 = RRunning" "r_sessionId q1 = r_sessionId q2"
    then show "a = b" using rs_exclusiveD [OF ex, of a q1 b q2] nr by (auto split: if_splits)
  qed
  moreover have "rs_dedup ?t"
  proof (rule rs_dedupI)
    fix k' j assume "map_get (rs_byKey ?t) k' = Some j"
    then have "map_get (rs_byKey s) k' = Some j" "k' \<noteq> k" by (auto split: if_splits)
    then show "k' \<noteq> [] \<and> j \<noteq> [] \<and> (\<exists>q. run_at ?t j = Some q \<and> r_dedupKey q = Some k')"
      using rs_dedupD1 [OF dd, of k' j] at key id by auto
  next
    fix j q k' assume a: "run_at ?t j = Some q" "r_dedupKey q = Some k'" "k' \<noteq> []"
    then have "run_at s j = Some q" "j \<noteq> i" using id nokey by (auto split: if_splits)
    moreover from this a have "map_get (rs_byKey s) k' = Some j" by (auto intro: rs_dedupD2 [OF dd])
    moreover have "map_get (rs_byKey s) k = Some i" by (rule rs_dedupD2 [OF dd at key k])
    ultimately show "map_get (rs_byKey ?t) k' = Some j" by auto
  qed
  moreover have "rs_backoff ?t"
  proof (rule rs_backoffI)
    fix j t assume "map_get (rs_retryAfter ?t) j = Some t"
    then show "\<exists>q. run_at ?t j = Some q \<and> r_status q = RPending"
      using rs_backoffD [OF bo, of j t] at st0 id by auto
  qed
  ultimately show ?thesis by (simp add: rs_inv_def)
qed

lemma rs_inv_complete [inv_intros]:
  assumes inv: "rs_inv s"
  shows "rs_inv (fst (complete s i t res now))"
proof (cases "run_at s i")
  case None
  with inv show ?thesis by (simp add: complete_def)
next
  case (Some r)
  show ?thesis
  proof (cases "r_leaseToken r = Some t")
    case False
    with Some inv show ?thesis by (simp add: complete_def)
  next
    case True
    have ok: "r_id r = i" "run_ok r" using rs_inv_run [OF inv Some] by auto
    with True have run: "r_status r = RRunning" by (simp add: run_ok_def)
    define r1 where "r1 = r\<lparr>r_status := RDone, r_result := Some res, r_leaseToken := None,
      r_leaseExpiresAt := None, r_finishedAt := Some now\<rparr>"
    have r1: "run_ok r1" "r_id r1 = i" "r_sessionId r1 = r_sessionId r" "r_dedupKey r1 = r_dedupKey r"
        "r_status r1 = RDone"
      using ok run by (auto simp: run_ok_def r1_def)
    show ?thesis
    proof (cases "releasesDedupKey res \<and> truthy (r_dedupKey r)")
      case False
      then have "fst (complete s i t res now) = settle r1 (put_run r1 s)"
        using Some True r1(4) unfolding complete_def r1_def by (auto simp: Let_def)
      moreover have "rs_inv (put_run r1 s)"
        using r1 run by (intro rs_inv_put_same [OF inv Some]) auto
      ultimately show ?thesis by simp
    next
      case rel: True
      then obtain k where k: "r_dedupKey r = Some k" "k \<noteq> []" by (auto elim: truthyE)
      let ?r2 = "r1\<lparr>r_dedupKey := None\<rparr>"
      have "fst (complete s i t res now) = settle ?r2 (put_run ?r2 (s\<lparr>rs_byKey := map_del k (rs_byKey s)\<rparr>))"
        using Some True rel k unfolding complete_def r1_def by (simp add: Let_def)
      moreover have "rs_inv (put_run ?r2 (s\<lparr>rs_byKey := map_del k (rs_byKey s)\<rparr>))"
        using r1 run k by (intro rs_inv_release_key [OF inv Some]) (auto simp: run_ok_def)
      ultimately show ?thesis by simp
    qed
  qed
qed

lemma retired_run_simps [simp]:
  "r_id (retired_run r ce) = r_id r" "r_sessionId (retired_run r ce) = r_sessionId r"
  "r_dedupKey (retired_run r ce) = r_dedupKey r" "r_attempts (retired_run r ce) = r_attempts r"
  "r_maxAttempts (retired_run r ce) = r_maxAttempts r"
  "r_errorAttempts (retired_run r ce) = r_errorAttempts r + (if ce then 1 else 0)"
  "r_leaseToken (retired_run r ce) = None" "r_leaseExpiresAt (retired_run r ce) = None"
  "r_createdAt (retired_run r ce) = r_createdAt r"
  "overClaimed s (retired_run r ce) = overClaimed s r"
  by (simp_all add: retired_run_def overClaimed_def split: option.split)

lemma parked_run_simps [simp]:
  "r_id (parked_run r x now) = r_id r" "r_sessionId (parked_run r x now) = r_sessionId r"
  "r_dedupKey (parked_run r x now) = r_dedupKey r" "r_attempts (parked_run r x now) = r_attempts r"
  "r_errorAttempts (parked_run r x now) = r_errorAttempts r" "r_status (parked_run r x now) = RFailed"
  "r_leaseToken (parked_run r x now) = r_leaseToken r"
  "r_leaseExpiresAt (parked_run r x now) = r_leaseExpiresAt r"
  by (simp_all add: parked_run_def)

text \<open>\<open>retire\<close>: nothing, a requeue or a parking.\<close>

lemma retire_cases:
  obtains (none) "retire s r err retry ifx ce ram now = (s, False, False)"
  | (requeue) "r_status r = RRunning"
    "retry \<and> r_errorAttempts r + (if ce then 1 else 0) < r_maxAttempts r \<and> \<not> overClaimed s r"
    "retire s r err retry ifx ce ram now =
       ((put_run ((retired_run r ce)\<lparr>r_status := RPending\<rparr>) s)\<lparr>rs_retryAfter :=
          map_set (r_id r) (now + max 0 (or_else ram 0)) (rs_retryAfter s)\<rparr>, True, True)"
  | (park) reason where "r_status r = RRunning"
    "\<not> (retry \<and> r_errorAttempts r + (if ce then 1 else 0) < r_maxAttempts r \<and> \<not> overClaimed s r)"
    "retire s r err retry ifx ce ram now =
       (settle (parked_run (retired_run r ce) reason now) (put_run (parked_run (retired_run r ce) reason now) s),
        False, True)"
proof (cases "r_status r \<noteq> RRunning \<or> (case ifx of None \<Rightarrow> False
      | Some e \<Rightarrow> (case r_leaseExpiresAt r of None \<Rightarrow> True | Some t \<Rightarrow> t > e))")
  case True
  then show ?thesis by (intro none) (auto simp: retire_def)
next
  case act: False
  show ?thesis
  proof (cases "retry \<and> r_errorAttempts r + (if ce then 1 else 0) < r_maxAttempts r \<and> \<not> overClaimed s r")
    case True
    with act show ?thesis by (intro requeue) (simp_all add: retire_def Let_def)
  next
    case False
    with act show ?thesis by (intro park) (auto simp: retire_def Let_def)
  qed
qed

lemma rs_inv_retire [inv_intros]:
  assumes inv: "rs_inv s" and at: "run_at s i = Some r"
  shows "rs_inv (fst (retire s r err retry ifx ce ram now))"
proof -
  have ok: "r_id r = i" "run_ok r" using rs_inv_run [OF inv at] by auto
  show ?thesis
  proof (cases rule: retire_cases [of s r err retry ifx ce ram now])
    case none
    with inv show ?thesis by simp
  next
    case requeue
    let ?r = "(retired_run r ce)\<lparr>r_status := RPending\<rparr>"
    have "rs_inv (put_run ?r s)"
      using ok requeue by (intro rs_inv_put_same [OF inv at]) (auto simp: run_ok_def retired_run_def)
    then show ?thesis
      using rs_inv_add_backoff [of "put_run ?r s" "r_id r" ?r] requeue(3) by simp
  next
    case (park reason)
    have "rs_inv (put_run (parked_run (retired_run r ce) reason now) s)"
      using ok park by (intro rs_inv_put_same [OF inv at]) (auto simp: run_ok_def retired_run_def parked_run_def)
    with park(3) show ?thesis by simp
  qed
qed

lemma rs_inv_fail [inv_intros]:
  assumes inv: "rs_inv s"
  shows "rs_inv (fst (fail s i t err retry ram now))"
proof (cases "run_at s i")
  case None
  with inv show ?thesis by (simp add: fail_def)
next
  case (Some r)
  then show ?thesis
    using inv rs_inv_retire [OF inv Some] by (simp add: fail_def case_prod_unfold)
qed

lemma rs_inv_withdraw [inv_intros]:
  assumes inv: "rs_inv s"
  shows "rs_inv (fst (withdraw s i))"
proof (cases "run_at s i")
  case None
  with inv show ?thesis by (simp add: withdraw_def)
next
  case (Some r)
  from inv have wf: "rs_wf s" and ex: "rs_exclusive s" and dd: "rs_dedup s" and bo: "rs_backoff s"
    by (simp_all add: rs_inv_def)
  define t where "t = fst (withdraw s i)"
  show ?thesis
  proof (cases "r_status r = RPending")
    case False
    with Some inv show ?thesis by (simp add: withdraw_def)
  next
    case True
    have runs: "rs_runs t = map_del i (rs_runs s)" and ra: "rs_retryAfter t = map_del i (rs_retryAfter s)"
      and keys: "rs_byKey t = (if truthy (r_dedupKey r) then map_del (the (r_dedupKey r)) (rs_byKey s)
          else rs_byKey s)"
      using Some True by (simp_all add: t_def withdraw_def Let_def)
    have "rs_wf t" using wf by (auto simp: rs_wf_def runs)
    moreover have "rs_exclusive t"
    proof (rule rs_exclusiveI)
      fix a b q1 q2 assume "run_at t a = Some q1" "run_at t b = Some q2" "r_status q1 = RRunning"
        "r_status q2 = RRunning" "r_sessionId q1 = r_sessionId q2"
      then show "a = b" using rs_exclusiveD [OF ex, of a q1 b q2] by (auto simp: runs split: if_splits)
    qed
    moreover have "rs_dedup t"
    proof (rule rs_dedupI)
      fix k j assume a: "map_get (rs_byKey t) k = Some j"
      then have b: "map_get (rs_byKey s) k = Some j" by (auto simp: keys split: if_splits)
      then obtain q where q: "k \<noteq> []" "j \<noteq> []" "run_at s j = Some q" "r_dedupKey q = Some k"
        using rs_dedupD1 [OF dd b] by blast
      have "j \<noteq> i" using a q Some by (auto simp: keys)
      with q show "k \<noteq> [] \<and> j \<noteq> [] \<and> (\<exists>q. run_at t j = Some q \<and> r_dedupKey q = Some k)"
        by (auto simp: runs)
    next
      fix j q k assume a: "run_at t j = Some q" "r_dedupKey q = Some k" "k \<noteq> []"
      then have j: "run_at s j = Some q" "j \<noteq> i" by (auto simp: runs split: if_splits)
      then have "map_get (rs_byKey s) k = Some j" using a by (auto intro: rs_dedupD2 [OF dd])
      moreover have "map_get (rs_byKey s) (the (r_dedupKey r)) = Some i" if "truthy (r_dedupKey r)"
        using that Some by (auto elim!: truthyE intro: rs_dedupD2 [OF dd])
      ultimately show "map_get (rs_byKey t) k = Some j"
        using j by (auto simp: keys)
    qed
    moreover have "rs_backoff t"
    proof (rule rs_backoffI)
      fix j x assume "map_get (rs_retryAfter t) j = Some x"
      then show "\<exists>q. run_at t j = Some q \<and> r_status q = RPending"
        using rs_backoffD [OF bo, of j x] by (auto simp: ra runs split: if_splits)
    qed
    ultimately show ?thesis by (simp add: rs_inv_def flip: t_def)
  qed
qed

lemma rs_inv_onTerminal [inv_intros]: "rs_inv s \<Longrightarrow> rs_inv (onTerminal s l)"
  using rs_inv_cong [of "onTerminal s l" s] by (simp add: onTerminal_def)

lemma rs_inv_ledger_record [inv_intros]: "rs_inv s \<Longrightarrow> rs_inv (ledger_record s i a c x)"
  using rs_inv_cong [of "ledger_record s i a c x" s] by (simp add: ledger_record_def)

lemma rs_inv_reap_fence [inv_intros]:
  assumes inv: "rs_inv s" and at: "run_at s i = Some r" and run: "r_status r = RRunning"
  shows "rs_inv (reap_fence s r u now)"
  unfolding reap_fence_def
  using rs_inv_run [OF inv at] run by (intro rs_inv_put_same [OF inv at]) (auto simp: run_ok_def)

end
