(* ===== verification/Run_Queue.thy ===== *)
theory Run_Queue
  imports Run_Invariants
begin

text \<open>
  The run queue as a transition system and the theorems about it. \<open>rs_step fr\<close> is one operation
  of the store, with every lease token it generates satisfying \<open>fr\<close>; the reaper's sweep
  contributes its two halves, so that its await is an arbitrary interleaving.
\<close>

section \<open>Steps\<close>

inductive rs_step :: "(uuid \<Rightarrow> bool) \<Rightarrow> 'q run_store \<Rightarrow> 'q run_store \<Rightarrow> bool" for fr where
  st_enqueue: "run_at s u = None \<Longrightarrow> u \<noteq> [] \<Longrightarrow> rs_step fr s (fst (enqueue s input u now))"
| st_claim: "fr u \<Longrightarrow> rs_step fr s (fst (claim s w ttl u now))"
| st_claimById: "fr u \<Longrightarrow> rs_step fr s (fst (claimById s i w ttl u now))"
| st_heartbeat: "rs_step fr s (fst (heartbeat s i t ttl now))"
| st_release: "rs_step fr s (fst (releaseLease s i t))"
| st_complete: "rs_step fr s (fst (complete s i t res now))"
| st_fail: "rs_step fr s (fst (fail s i t err retry ram now))"
| st_note: "rs_step fr s (fst (noteTurnUserSeq s i n))"
| st_delivery: "rs_step fr s (fst (setDeliveryState s i tk ds))"
| st_listen: "rs_step fr s (onTerminal s l)"
| st_withdraw: "rs_step fr s (fst (withdraw s i))"
| st_ledger: "rs_step fr s (ledger_record s i a c x)"
| st_fence: "fr u \<Longrightarrow> run_at s i = Some r \<Longrightarrow> leaseLapsed r now \<Longrightarrow> rs_step fr s (reap_fence s r u now)"
| st_retire: "run_at s i = Some r \<Longrightarrow> rs_step fr s (fst (retire s r err retry None False None now))"

definition rs_init :: "'q run_store \<Rightarrow> bool" where
  "rs_init s = (\<exists>m. s = createMemoryRunStore m)"

lemma rs_inv_step: "rs_inv s \<Longrightarrow> rs_step fr s t \<Longrightarrow> rs_inv t"
  by (erule rs_step.cases) (auto simp: leaseLapsed_def intro: inv_intros)

interpretation rs: invariant_system rs_init "rs_step fr" rs_inv for fr
  by unfold_locales (auto simp: rs_init_def intro: inv_intros rs_inv_step)

section \<open>What each operation does to one run\<close>

text \<open>
  Every step changes the run at \<open>i\<close> in one of few ways; the facts below read them off, and the
  theorems about tokens and settled runs rest on them alone.
\<close>

lemma lease_simps:
  "rs_runs (fst (lease s r w ttl u now)) = map_set (r_id r) (snd (lease s r w ttl u now)) (rs_runs s)"
  "rs_notified (fst (lease s r w ttl u now)) = rs_notified s"
  "r_id (snd (lease s r w ttl u now)) = r_id r"
  "r_sessionId (snd (lease s r w ttl u now)) = r_sessionId r"
  "r_leaseToken (snd (lease s r w ttl u now)) = Some u"
  "r_status (snd (lease s r w ttl u now)) = RRunning"
  by (simp_all add: lease_def Let_def)

lemma claim_cases:
  assumes "rs_inv s"
  obtains "claim s w ttl u now = (s, None)" "\<And>i r. run_at s i = Some r \<Longrightarrow> r_status r = RPending \<Longrightarrow>
        sessionUnavailable s (r_sessionId r) now"
  | i r where "run_at s i = Some r" "r_id r = i" "r_status r = RPending"
      "\<not> sessionUnavailable s (r_sessionId r) now"
      "claim s w ttl u now = (fst (lease s r w ttl u now), Some (snd (lease s r w ttl u now)))"
      "head_opt (claimable s now) = Some r"
proof (cases "head_opt (claimable s now)")
  case None
  then have "claimable s now = []" by simp
  then have "\<And>i r. run_at s i = Some r \<Longrightarrow> r_status r = RPending \<Longrightarrow> sessionUnavailable s (r_sessionId r) now"
    using claimable_iff [OF assms, of _ now] by auto
  moreover from None have "claim s w ttl u now = (s, None)" by (simp add: claim_def)
  ultimately show ?thesis by (rule that(1) [rotated])
next
  case (Some r)
  then obtain i where i: "run_at s i = Some r" "r_status r = RPending"
      "\<not> sessionUnavailable s (r_sessionId r) now"
    using claimable_iff [OF assms, of r now] head_opt_in [OF Some] by blast
  moreover have "r_id r = i" using rs_inv_run [OF assms i(1)] by simp
  moreover have "claim s w ttl u now = (fst (lease s r w ttl u now), Some (snd (lease s r w ttl u now)))"
    using Some by (simp add: claim_def case_prod_unfold)
  ultimately show ?thesis using Some by (intro that(2))
qed

lemma claimById_cases:
  assumes "rs_inv s"
  obtains "claimById s i w ttl u now = (s, None)"
  | r where "run_at s i = Some r" "r_id r = i" "r_status r = RPending"
      "\<not> sessionUnavailable s (r_sessionId r) now"
      "claimById s i w ttl u now = (fst (lease s r w ttl u now), Some (snd (lease s r w ttl u now)))"
proof (cases "run_at s i")
  case None
  then show ?thesis by (intro that(1)) (simp add: claimById_def)
next
  case (Some r)
  show ?thesis
  proof (cases "r_status r \<noteq> RPending \<or> sessionUnavailable s (r_sessionId r) now")
    case True
    with Some show ?thesis by (intro that(1)) (simp add: claimById_def)
  next
    case False
    with Some rs_inv_run [OF assms Some] show ?thesis
      by (intro that(2) [of r]) (simp_all add: claimById_def case_prod_unfold)
  qed
qed

text \<open>
  The change one step makes at index \<open>i\<close>: \<open>run_change fr r r'\<close>. The run is untouched, or only
  its delivery state or its user sequence number is written, or a pending run is leased, or a
  running one is extended, fenced, released, requeued or settled.
\<close>

definition run_change :: "(uuid \<Rightarrow> bool) \<Rightarrow> 'q run \<Rightarrow> 'q run \<Rightarrow> bool" where
  "run_change fr r r' =
     (r_id r' = r_id r \<and> r_sessionId r' = r_sessionId r \<and>
      (r_leaseToken r' = None \<or> r_leaseToken r' = r_leaseToken r \<or> (\<exists>u. fr u \<and> r_leaseToken r' = Some u)) \<and>
      (isTerminal (r_status r) \<longrightarrow>
         (\<exists>ds n. r' = r\<lparr>r_deliveryState := ds, r_turnUserSeq := n\<rparr>)))"

lemma run_change_refl [simp]: "run_change fr r r"
proof -
  have "\<exists>ds n. r = r\<lparr>r_deliveryState := ds, r_turnUserSeq := n\<rparr>"
    by (rule exI [of _ "r_deliveryState r"], rule exI [of _ "r_turnUserSeq r"]) simp
  then show ?thesis by (simp add: run_change_def)
qed

lemma run_change_notes:
  "r' = r\<lparr>r_deliveryState := ds, r_turnUserSeq := n\<rparr> \<Longrightarrow> run_change fr r r'"
  by (auto simp: run_change_def)

lemma run_change_note: "run_change fr r (r\<lparr>r_turnUserSeq := n\<rparr>)"
  by (rule run_change_notes [where ds = "r_deliveryState r" and n = n]) simp

lemma run_change_delivery: "run_change fr r (r\<lparr>r_deliveryState := ds\<rparr>)"
  by (rule run_change_notes [where ds = ds and n = "r_turnUserSeq r"]) simp

lemma run_change_live:
  assumes "r_id r' = r_id r" "r_sessionId r' = r_sessionId r" "\<not> isTerminal (r_status r)"
    and "r_leaseToken r' = None \<or> r_leaseToken r' = r_leaseToken r \<or> (\<exists>u. fr u \<and> r_leaseToken r' = Some u)"
  shows "run_change fr r r'"
  using assms by (auto simp: run_change_def)

definition runs_change :: "(uuid \<Rightarrow> bool) \<Rightarrow> 'q run_store \<Rightarrow> 'q run_store \<Rightarrow> bool" where
  "runs_change fr s t =
     (\<forall>i. (case run_at s i of
             None \<Rightarrow> (\<forall>r'. run_at t i = Some r' \<longrightarrow> r_leaseToken r' = None)
           | Some r \<Rightarrow> (case run_at t i of
                          None \<Rightarrow> r_status r = RPending
                        | Some r' \<Rightarrow> run_change fr r r')))"

lemma runs_change_refl [simp]: "rs_runs t = rs_runs s \<Longrightarrow> runs_change fr s t"
  by (simp add: runs_change_def split: option.split)

lemma runs_changeD:
  "runs_change fr s t \<Longrightarrow> run_at s i = Some r \<Longrightarrow>
     (case run_at t i of None \<Rightarrow> r_status r = RPending | Some r' \<Rightarrow> run_change fr r r')"
  unfolding runs_change_def by (drule spec [of _ i]) simp

lemma runs_change_put:
  assumes "run_at s i = Some r" "run_change fr r r'" "rs_runs t = map_set i r' (rs_runs s)"
  shows "runs_change fr s t"
  using assms by (simp add: runs_change_def split: option.split)

lemma runs_change_lease:
  assumes "fr u" "run_at s i = Some r" "r_id r = i" "r_status r = RPending"
  shows "runs_change fr s (fst (lease s r w ttl u now))"
  using assms
  by (intro runs_change_put [of s i r fr "snd (lease s r w ttl u now)"] run_change_live)
     (auto simp: lease_simps)

lemma runs_change_retire:
  assumes inv: "rs_inv s" and at: "run_at s i = Some r"
  shows "runs_change fr s (fst (retire s r err retry ifx ce ram now))"
proof (cases rule: retire_cases [of s r err retry ifx ce ram now])
  case requeue
  then show ?thesis
    using rs_inv_run [OF inv at]
    by (intro runs_change_put [OF at, of fr "(retired_run r ce)\<lparr>r_status := RPending\<rparr>"] run_change_live) auto
next
  case (park reason)
  then show ?thesis
    using rs_inv_run [OF inv at]
    by (intro runs_change_put [OF at, of fr "parked_run (retired_run r ce) reason now"] run_change_live) auto
qed simp

lemma runs_change_complete:
  assumes inv: "rs_inv s"
  shows "runs_change fr s (fst (complete s i t res now))"
proof (cases "run_at s i")
  case (Some r)
  have ok: "r_id r = i" "run_ok r" using rs_inv_run [OF inv Some] by auto
  show ?thesis
  proof (cases "r_leaseToken r = Some t")
    case True
    with ok have run: "r_status r = RRunning" by (simp add: run_ok_def)
    define r1 where "r1 = r\<lparr>r_status := RDone, r_result := Some res, r_leaseToken := None,
      r_leaseExpiresAt := None, r_finishedAt := Some now\<rparr>"
    define r2 where "r2 = (if releasesDedupKey res \<and> truthy (r_dedupKey r) then r1\<lparr>r_dedupKey := None\<rparr> else r1)"
    have "rs_runs (fst (complete s i t res now)) = map_set i r2 (rs_runs s)"
      using Some True ok by (auto simp: complete_def r1_def r2_def Let_def)
    moreover have "run_change fr r r2"
      using ok run by (intro run_change_live) (auto simp: r1_def r2_def)
    ultimately show ?thesis by (intro runs_change_put [OF Some])
  qed (simp add: complete_def Some)
qed (simp add: complete_def)

lemma rs_step_runs_change:
  assumes "rs_inv s" "rs_step fr s t"
  shows "runs_change fr s t"
  using assms(2)
proof cases
  case (st_enqueue u input now)
  then show ?thesis
    by (auto simp: enqueue_def Let_def runs_change_def new_run_def split: option.split)
next
  case (st_claim u w ttl now)
  then show ?thesis
    by (cases rule: claim_cases [OF assms(1), of w ttl u now]) (auto intro: runs_change_lease)
next
  case (st_claimById u i w ttl now)
  then show ?thesis
    by (cases rule: claimById_cases [OF assms(1), of i w ttl u now]) (auto intro: runs_change_lease)
next
  case (st_heartbeat i tk ttl now)
  show ?thesis
  proof (cases "run_at s i")
    case (Some r)
    have "runs_change fr s (put_run (r\<lparr>r_leaseExpiresAt := Some (now + ttl)\<rparr>) s)" if "r_status r = RRunning"
      using rs_inv_run [OF assms(1) Some] that
      by (intro runs_change_put [OF Some, of fr "r\<lparr>r_leaseExpiresAt := Some (now + ttl)\<rparr>"] run_change_live) auto
    with Some show ?thesis by (simp add: st_heartbeat heartbeat_def)
  qed (simp add: st_heartbeat heartbeat_def)
next
  case (st_release i tk)
  show ?thesis
  proof (cases "run_at s i")
    case (Some r)
    let ?r = "r\<lparr>r_status := RPending, r_leaseToken := None, r_leaseExpiresAt := None, r_workerId := None\<rparr>"
    have "runs_change fr s (put_run ?r s)" if "r_status r = RRunning"
      using rs_inv_run [OF assms(1) Some] that
      by (intro runs_change_put [OF Some, of fr ?r] run_change_live) auto
    with Some show ?thesis by (simp add: st_release releaseLease_def)
  qed (simp add: st_release releaseLease_def)
next
  case (st_fail i tk err retry ram now)
  show ?thesis
  proof (cases "run_at s i")
    case (Some r)
    then show ?thesis unfolding st_fail
      using runs_change_retire [OF assms(1) Some] by (simp add: fail_def case_prod_unfold)
  qed (simp add: st_fail fail_def)
next
  case (st_note i n)
  show ?thesis
  proof (cases "run_at s i")
    case (Some r)
    then have "runs_change fr s (put_run (r\<lparr>r_turnUserSeq := Some n\<rparr>) s)"
      using rs_inv_run [OF assms(1) Some] by (intro runs_change_put [OF Some run_change_note]) simp
    with Some show ?thesis by (simp add: st_note noteTurnUserSeq_def)
  qed (simp add: st_note noteTurnUserSeq_def)
next
  case (st_delivery i tk ds)
  show ?thesis
  proof (cases "run_at s i")
    case (Some r)
    then have "runs_change fr s (put_run (r\<lparr>r_deliveryState := Some ds\<rparr>) s)"
      using rs_inv_run [OF assms(1) Some] by (intro runs_change_put [OF Some run_change_delivery]) simp
    with Some show ?thesis by (simp add: st_delivery setDeliveryState_def)
  qed (simp add: st_delivery setDeliveryState_def)
next
  case (st_withdraw i)
  then show ?thesis
    by (auto simp: withdraw_def runs_change_def Let_def split: option.split)
next
  case (st_fence u i r now)
  then show ?thesis
    using rs_inv_run [OF assms(1), of i r]
    by (intro runs_change_put [of s i r fr
          "r\<lparr>r_leaseToken := Some u, r_leaseExpiresAt := Some (now + FENCE_HOLD_MS)\<rparr>"] run_change_live)
       (auto simp: reap_fence_def leaseLapsed_def)
next
  case (st_retire i r err retry now)
  then show ?thesis using runs_change_retire [OF assms(1)] by simp
qed (simp_all add: runs_change_complete [OF assms(1)] onTerminal_def ledger_record_def)

section \<open>Lease tokens\<close>

definition run_holds :: "'q run_store \<Rightarrow> string \<Rightarrow> uuid \<Rightarrow> bool" where
  "run_holds s i t = (\<exists>r. run_at s i = Some r \<and> r_leaseToken r = Some t)"

interpretation hb: token_guarded run_holds "\<lambda>s i t. heartbeat s i t ttl now" False for ttl now
  by unfold_locales (auto simp: run_holds_def heartbeat_def split: option.split)

interpretation rel: token_guarded run_holds releaseLease False
  by unfold_locales (auto simp: run_holds_def releaseLease_def split: option.split)

interpretation cmp: token_guarded run_holds "\<lambda>s i t. complete s i t res now" False for res now
  by unfold_locales (auto simp: run_holds_def complete_def split: option.split)

interpretation fl: token_guarded run_holds "\<lambda>s i t. fail s i t err retry ram now" False for err retry ram now
  by unfold_locales (auto simp: run_holds_def fail_def split: option.split)

lemma token_stays_dead_step:
  assumes "rs_inv s" "rs_step (\<lambda>u. u \<noteq> old) s t" "\<not> run_holds s i old"
  shows "\<not> run_holds t i old"
proof -
  have "runs_change (\<lambda>u. u \<noteq> old) s t" by (rule rs_step_runs_change [OF assms(1,2)])
  then have *: "case run_at s i of None \<Rightarrow> (\<forall>r'. run_at t i = Some r' \<longrightarrow> r_leaseToken r' = None)
      | Some r \<Rightarrow> (case run_at t i of None \<Rightarrow> r_status r = RPending | Some r' \<Rightarrow> run_change (\<lambda>u. u \<noteq> old) r r')"
    by (simp add: runs_change_def)
  show ?thesis
    using * assms(3) by (auto simp: run_holds_def run_change_def split: option.splits)
qed

lemma token_stays_dead:
  assumes "(rs_step (\<lambda>u. u \<noteq> old))\<^sup>*\<^sup>* s t" "rs_inv s" "\<not> run_holds s i old"
  shows "\<not> run_holds t i old"
  using assms
proof (induction rule: rtranclp_induct)
  case (step y z)
  then have "rs_inv y" by (blast intro: rs.inv_steps)
  with step show ?case using token_stays_dead_step [of y old z i] by simp
qed simp

lemma settled_stays_step:
  assumes "rs_inv s" "rs_step fr s t" "run_at s i = Some r" "isTerminal (r_status r)"
  shows "\<exists>ds n. run_at t i = Some (r\<lparr>r_deliveryState := ds, r_turnUserSeq := n\<rparr>)"
proof -
  have "runs_change fr s t" by (rule rs_step_runs_change [OF assms(1,2)])
  then have "case run_at t i of None \<Rightarrow> r_status r = RPending | Some r' \<Rightarrow> run_change fr r r'"
    using assms(3) by (rule runs_changeD)
  then show ?thesis using assms(4) by (auto simp: run_change_def split: option.splits)
qed

lemma settled_stays:
  assumes "(rs_step fr)\<^sup>*\<^sup>* s t" "rs_inv s" "run_at s i = Some r" "isTerminal (r_status r)"
  shows "\<exists>ds n. run_at t i = Some (r\<lparr>r_deliveryState := ds, r_turnUserSeq := n\<rparr>)"
  using assms
proof (induction rule: rtranclp_induct)
  case base
  have "r = r\<lparr>r_deliveryState := r_deliveryState r, r_turnUserSeq := r_turnUserSeq r\<rparr>" by simp
  with base show ?case by metis
next
  case (step y z)
  then obtain ds n where at: "run_at y i = Some (r\<lparr>r_deliveryState := ds, r_turnUserSeq := n\<rparr>)" by blast
  have "rs_inv y" using step by (blast intro: rs.inv_steps)
  from settled_stays_step [OF this step(2) at] step.prems show ?case by auto
qed

section \<open>Properties of reachable queues\<close>

text \<open>
  C1. Mutual exclusion per session: in every state the store can reach, by any interleaving of
  its operations, at most one run of a session is running.
\<close>

theorem session_runs_exclusive:
  assumes "reach rs_init (rs_step fr) s" "run_at s i = Some r" "run_at s j = Some q"
    and "r_status r = RRunning" "r_status q = RRunning" "r_sessionId r = r_sessionId q"
  shows "i = j"
proof -
  have "rs_exclusive s" using rs.reach_inv [OF assms(1)] by (simp add: rs_inv_def)
  then show ?thesis using assms(2-6) by (rule rs_exclusiveD)
qed

text \<open>
  C40. The life cycle of a run: in every reachable state a run is stored under its own id, it has
  a lease (token and expiry) exactly while it is running, it has a result and a finish time
  exactly once it is done or failed, it has not failed more often than it was claimed, and while
  it is still live its error budget is not used up.
\<close>

theorem run_lifecycle:
  assumes "reach rs_init (rs_step fr) s" "run_at s i = Some r"
  shows "r_id r = i \<and>
    (r_leaseToken r \<noteq> None \<longleftrightarrow> r_status r = RRunning) \<and>
    (r_leaseExpiresAt r \<noteq> None \<longleftrightarrow> r_status r = RRunning) \<and>
    (r_result r \<noteq> None \<longleftrightarrow> isTerminal (r_status r)) \<and>
    (r_finishedAt r \<noteq> None \<longleftrightarrow> isTerminal (r_status r)) \<and>
    r_errorAttempts r \<le> r_attempts r \<and>
    (0 < r_maxAttempts r \<and> \<not> isTerminal (r_status r) \<longrightarrow> r_errorAttempts r < r_maxAttempts r)"
  using rs_inv_run [OF rs.reach_inv [OF assms(1)] assms(2)] unfolding run_ok_def by blast

text \<open>
  C2. Fencing: once the reaper has fenced a lapsed run with a fresh token, the worker that held
  the old token can no longer extend, release, complete or fail the run, in that state and after
  any further operations, as long as the generator does not repeat the old token: every such
  call returns \<open>false\<close> and changes nothing.
\<close>

theorem fenced_worker_locked_out:
  assumes "rs_inv s" "run_at s i = Some r" "leaseLapsed r now" "u \<noteq> old"
    and "(rs_step (\<lambda>u. u \<noteq> old))\<^sup>*\<^sup>* (reap_fence s r u now) t"
  shows "heartbeat t i old ttl n1 = (t, False) \<and> releaseLease t i old = (t, False) \<and>
    complete t i old res n2 = (t, False) \<and> fail t i old err retry ram n3 = (t, False)"
proof -
  have "rs_inv (reap_fence s r u now)"
    using assms(1-3) by (auto intro: rs_inv_reap_fence simp: leaseLapsed_def)
  moreover have "\<not> run_holds (reap_fence s r u now) i old"
    using assms(4) rs_inv_run [OF assms(1,2)] by (auto simp: run_holds_def reap_fence_def)
  ultimately have "\<not> run_holds t i old" by (rule token_stays_dead [OF assms(5)])
  then show ?thesis
    by (simp_all add: hb.stale_refused rel.stale_refused cmp.stale_refused fl.stale_refused)
qed

text \<open>
  A settled run stays settled: once a run is done or failed, no sequence of operations
  changes it again, except for the delivery state and the user sequence number recorded on it.
\<close>

theorem settled_run_immutable:
  assumes "reach rs_init (rs_step fr) s" "run_at s i = Some r" "isTerminal (r_status r)"
    and "(rs_step fr)\<^sup>*\<^sup>* s t"
  shows "\<exists>ds n. run_at t i = Some (r\<lparr>r_deliveryState := ds, r_turnUserSeq := n\<rparr>)"
  using settled_stays [OF assms(4) rs.reach_inv [OF assms(1)] assms(2,3)] .

section \<open>Claiming\<close>

lemma sorted_head_least:
  assumes "head_opt (sort_key f xs) = Some x" "y \<in> set xs"
  shows "(f x :: 'b::linorder) \<le> f y"
proof -
  obtain ys where ys: "sort_key f xs = x # ys" using assms(1) by (cases "sort_key f xs") auto
  have "sorted (map f (sort_key f xs))" by simp
  moreover have "y \<in> set (x # ys)" using assms(2) ys by (metis set_sort)
  ultimately show ?thesis using ys by auto
qed

lemma claimable_sort: "claimable s now = sort_key r_createdAt
    (filter (\<lambda>r. r_status r = RPending \<and> \<not> sessionUnavailable s (r_sessionId r) now) (map_vals (rs_runs s)))"
  unfolding claimable_def by (rule js_sort_key) auto

text \<open>
  \<open>claim\<close> takes the oldest run that may be taken: it answers \<open>null\<close> and changes nothing
  exactly when every pending run waits behind a running run or a backoff of its session;
  otherwise it leases a pending run of a free session that no other eligible run is older than,
  under the fresh token and expiry, with one more attempt counted, and every other run untouched.
\<close>

theorem claim_oldest_eligible:
  assumes "rs_inv s"
  shows "(claim s w ttl u now = (s, None) \<longleftrightarrow>
       (\<forall>i r. run_at s i = Some r \<and> r_status r = RPending \<longrightarrow> sessionUnavailable s (r_sessionId r) now)) \<and>
    (\<forall>s' r'. claim s w ttl u now = (s', Some r') \<longrightarrow>
       (\<exists>r. run_at s (r_id r') = Some r \<and> r_status r = RPending \<and> \<not> sessionUnavailable s (r_sessionId r) now \<and>
         (\<forall>j q. run_at s j = Some q \<and> r_status q = RPending \<and> \<not> sessionUnavailable s (r_sessionId q) now
            \<longrightarrow> r_createdAt r \<le> r_createdAt q) \<and>
         run_at s' (r_id r') = Some r' \<and> (\<forall>j. j \<noteq> r_id r' \<longrightarrow> run_at s' j = run_at s j) \<and>
         r_status r' = RRunning \<and> r_leaseToken r' = Some u \<and> r_leaseExpiresAt r' = Some (now + ttl) \<and>
         r_workerId r' = Some w \<and> r_attempts r' = r_attempts r + 1 \<and> r_sessionId r' = r_sessionId r))"
proof (cases rule: claim_cases [OF assms, of w ttl u now])
  case 1
  then show ?thesis by auto
next
  case (2 i r)
  have least: "r_createdAt r \<le> r_createdAt q"
    if "run_at s j = Some q" "r_status q = RPending" "\<not> sessionUnavailable s (r_sessionId q) now" for j q
    using sorted_head_least [of r_createdAt _ r q] 2(6) that map_get_in_vals [OF that(1)]
    by (auto simp: claimable_sort)
  have new: "r_leaseExpiresAt (snd (lease s r w ttl u now)) = Some (now + ttl)"
      "r_workerId (snd (lease s r w ttl u now)) = Some w"
      "r_attempts (snd (lease s r w ttl u now)) = r_attempts r + 1"
    by (simp_all add: lease_def Let_def)
  show ?thesis
    using 2(1-5) least new by (auto simp: lease_simps)
qed

section \<open>Deduplication\<close>

lemma enqueue_known:
  assumes inv: "rs_inv s" and k: "ei_dedupKey input = Some k" "k \<noteq> []" and run: "run_at s i = Some r" "r_dedupKey r = Some k"
  shows "enqueue s input u now = (s, r, True)" "getByDedupKey s k = Some r"
proof -
  have dd: "rs_dedup s" using inv by (simp add: rs_inv_def)
  then have key: "map_get (rs_byKey s) k = Some i" using run k(2) by (blast intro: rs_dedupD2)
  moreover have "i \<noteq> []" using rs_dedupD1 [OF dd key] by simp
  ultimately show "enqueue s input u now = (s, r, True)" "getByDedupKey s k = Some r"
    using run k by (simp_all add: enqueue_def dedup_hit_def getByDedupKey_def)
qed

lemma enqueue_unknown:
  assumes inv: "rs_inv s" and k: "ei_dedupKey input = Some k" "k \<noteq> []" and fresh: "run_at s u = None" "u \<noteq> []"
    and none: "\<And>i r. run_at s i = Some r \<Longrightarrow> r_dedupKey r \<noteq> Some k"
  shows "case enqueue s input u now of (t, r, deduped) \<Rightarrow>
      \<not> deduped \<and> r = new_run input u now \<and> rs_runs t = rs_runs s @ [(u, r)] \<and> getByDedupKey t k = Some r"
proof -
  have "rs_dedup s" using inv by (simp add: rs_inv_def)
  then have "map_get (rs_byKey s) k = None" using none by (metis option.exhaust rs_dedupD1)
  then have "dedup_hit s (Some k) = None" using k(2) by (simp add: dedup_hit_def)
  moreover have "map_set u v (rs_runs s) = rs_runs s @ [(u, v)]" for v
    using fresh(1) by (rule map_set_fresh)
  ultimately show ?thesis
    using k fresh by (simp add: enqueue_def Let_def getByDedupKey_def map_add_Some_iff)
qed

text \<open>
  Enqueueing is idempotent per deduplication key: while a stored run carries the key,
  enqueueing under it again returns that very run, flagged as deduplicated, and leaves the store
  as it is; when no stored run carries it, exactly one new pending run with no attempts is added
  and every later lookup of the key finds it.
\<close>

theorem enqueue_dedup:
  assumes inv: "rs_inv s" and k: "ei_dedupKey input = Some k" "k \<noteq> []"
    and fresh: "run_at s u = None" "u \<noteq> []"
  shows "(\<forall>i r. run_at s i = Some r \<and> r_dedupKey r = Some k \<longrightarrow>
            enqueue s input u now = (s, r, True) \<and> getByDedupKey s k = Some r) \<and>
    ((\<forall>i r. run_at s i = Some r \<longrightarrow> r_dedupKey r \<noteq> Some k) \<longrightarrow>
       (case enqueue s input u now of (t, r, deduped) \<Rightarrow>
          \<not> deduped \<and> r = new_run input u now \<and> rs_runs t = rs_runs s @ [(u, r)] \<and>
          getByDedupKey t k = Some r))"
proof (intro conjI allI impI; (elim conjE)?)
  fix i r assume "run_at s i = Some r" "r_dedupKey r = Some k"
  then show "enqueue s input u now = (s, r, True)" "getByDedupKey s k = Some r" by (rule enqueue_known [OF inv k])+
next
  assume "\<forall>i r. run_at s i = Some r \<longrightarrow> r_dedupKey r \<noteq> Some k"
  then show "case enqueue s input u now of (t, r, deduped) \<Rightarrow>
      \<not> deduped \<and> r = new_run input u now \<and> rs_runs t = rs_runs s @ [(u, r)] \<and> getByDedupKey t k = Some r"
    by (intro enqueue_unknown [OF inv k fresh]) blast
qed

section \<open>Failure, retries and backoff\<close>

lemma fail_holder:
  assumes "rs_inv s" "run_at s i = Some r" "r_leaseToken r = Some t"
  shows "fail s i t err retry ram now =
    (fst (retire s r err (retry \<noteq> Some False) None True ram now),
     fst (snd (retire s r err (retry \<noteq> Some False) None True ram now)))"
  using assms by (simp add: fail_def case_prod_unfold)

lemma holder_running:
  assumes "rs_inv s" "run_at s i = Some r" "r_leaseToken r = Some t"
  shows "r_status r = RRunning \<and> r_id r = i"
  using rs_inv_run [OF assms(1,2)] assms(3) by (simp add: run_ok_def)

lemma errorParks_iff:
  "errorParks r (rs_maxClaims s) \<longleftrightarrow> \<not> (r_errorAttempts r + 1 < r_maxAttempts r \<and> \<not> overClaimed s r)"
  by (auto simp: errorParks_def overClaimed_def split: option.split)

text \<open>
  The worker's forecast is exact: \<open>errorParks\<close>, which tells a turn that it is the final
  attempt, holds for a leased run exactly when failing it (with retries allowed) parks it as
  failed instead of putting it back in the queue.
\<close>

theorem final_attempt_forecast:
  assumes "rs_inv s" "run_at s i = Some r" "r_leaseToken r = Some t" "retry \<noteq> Some False"
  shows "(errorParks r (rs_maxClaims s) \<longleftrightarrow>
      (\<exists>r'. run_at (fst (fail s i t err retry ram now)) i = Some r' \<and> r_status r' = RFailed)) \<and>
    (errorParks r (rs_maxClaims s) \<longleftrightarrow> \<not> snd (fail s i t err retry ram now))"
proof -
  have run: "r_status r = RRunning" "r_id r = i" using holder_running [OF assms(1-3)] by simp_all
  have eq: "fail s i t err retry ram now = (fst (retire s r err True None True ram now),
      fst (snd (retire s r err True None True ram now)))"
    using fail_holder [OF assms(1-3)] assms(4) by simp
  show ?thesis
  proof (cases rule: retire_cases [of s r err True None True ram now])
    case none
    with run show ?thesis by (simp add: retire_def Let_def split: if_splits)
  next
    case requeue
    with run show ?thesis by (simp add: eq errorParks_iff)
  next
    case (park reason)
    with run show ?thesis by (simp add: eq errorParks_iff)
  qed
qed

text \<open>
  Backoff: a failed run that goes back in the queue counts one more error, is pending without
  a lease, and neither it nor any other run of its session can be claimed before the retry delay
  has passed.
\<close>

theorem requeue_backs_off:
  assumes "rs_inv s" "run_at s i = Some r" "r_leaseToken r = Some t"
    and "fail s i t err retry (Some d) now = (s', True)" "later < now + d"
  shows "(\<exists>r'. run_at s' i = Some r' \<and> r_status r' = RPending \<and> r_leaseToken r' = None \<and>
            r_errorAttempts r' = r_errorAttempts r + 1 \<and> r_errorAttempts r' < r_maxAttempts r') \<and>
    (\<forall>s'' q. claim s' w ttl u later = (s'', Some q) \<longrightarrow> r_sessionId q \<noteq> r_sessionId r)"
proof -
  have run: "r_status r = RRunning" "r_id r = i" using holder_running [OF assms(1-3)] by simp_all
  have inv': "rs_inv s'" using rs_inv_fail [OF assms(1), of i t err retry "Some d" now] assms(4) by simp
  let ?r = "(retired_run r True)\<lparr>r_status := RPending\<rparr>"
  have eq: "s' = (put_run ?r s)\<lparr>rs_retryAfter := map_set i (now + max 0 d) (rs_retryAfter s)\<rparr>"
    and budget: "r_errorAttempts r + 1 < r_maxAttempts r"
    using assms(4) fail_holder [OF assms(1-3), of err retry "Some d" now] run
    by (cases rule: retire_cases [of s r err "retry \<noteq> Some False" None True "Some d" now]; simp)+
  have at: "run_at s' i = Some ?r" using run by (simp add: eq)
  have "sessionUnavailable s' (r_sessionId r) later"
    unfolding sessionUnavailable_def list_ex_iff
    using map_get_in_vals [OF at] run assms(5) by (intro bexI [of _ ?r]) (simp_all add: eq)
  then have "\<forall>s'' q. claim s' w ttl u later = (s'', Some q) \<longrightarrow> r_sessionId q \<noteq> r_sessionId r"
    by (cases rule: claim_cases [OF inv', of w ttl u later]) (auto simp: lease_simps)
  with at budget show ?thesis by simp
qed

section \<open>Notifications\<close>

text \<open>The times the event of run \<open>i\<close> was emitted to its waiters.\<close>

definition settled_count :: "'q run_store \<Rightarrow> string \<Rightarrow> nat" where
  "settled_count s i = length (filter (\<lambda>(l, r). l = None \<and> r_id r = i) (rs_notified s))"

definition notify_ok :: "'q run_store \<Rightarrow> bool" where
  "notify_ok s = (rs_inv s \<and>
     (\<forall>i. settled_count s i =
        (case run_at s i of None \<Rightarrow> 0 | Some r \<Rightarrow> if isTerminal (r_status r) then 1 else 0)))"

lemma notify_okD:
  "notify_ok s \<Longrightarrow> settled_count s i =
     (case run_at s i of None \<Rightarrow> 0 | Some r \<Rightarrow> if isTerminal (r_status r) then 1 else 0)"
  by (simp add: notify_ok_def)

lemma settled_count_settle:
  "settled_count (settle r s) i =
     settled_count s i + (if isTerminal (r_status r) \<and> r_id r = i then 1 else 0)"
  by (simp add: settled_count_def settle_def filter_empty_conv)

lemma settled_count_cong: "rs_notified t = rs_notified s \<Longrightarrow> settled_count t i = settled_count s i"
  by (simp add: settled_count_def)

text \<open>
  Two ways a step keeps the count: it changes one run without settling it, or it settles one
  running run.
\<close>

lemma notify_ok_live:
  assumes "notify_ok s" "rs_inv t" "run_at s i = Some r" "rs_runs t = map_set i r' (rs_runs s)"
    and "isTerminal (r_status r') = isTerminal (r_status r)" "rs_notified t = rs_notified s"
  shows "notify_ok t"
proof -
  have "settled_count t j = (case run_at t j of None \<Rightarrow> 0 | Some r \<Rightarrow> if isTerminal (r_status r) then 1 else 0)" for j
    using notify_okD [OF assms(1), of j] assms(3-6) settled_count_cong [OF assms(6), of j] by simp
  with assms(2) show ?thesis by (simp add: notify_ok_def)
qed

lemma notify_ok_settle:
  assumes "notify_ok s" "rs_inv (settle r' t)" "run_at s i = Some r" "\<not> isTerminal (r_status r)"
    and "isTerminal (r_status r')" "r_id r' = i" "rs_runs t = map_set i r' (rs_runs s)"
      "rs_notified t = rs_notified s"
  shows "notify_ok (settle r' t)"
proof -
  have "settled_count (settle r' t) j =
      (case run_at (settle r' t) j of None \<Rightarrow> 0 | Some r \<Rightarrow> if isTerminal (r_status r) then 1 else 0)" for j
    using notify_okD [OF assms(1), of j] assms(3-8) settled_count_cong [OF assms(8), of j]
    by (simp add: settled_count_settle)
  with assms(2) show ?thesis by (simp add: notify_ok_def)
qed

lemma notify_ok_same:
  assumes "notify_ok s" "rs_inv t" "rs_runs t = rs_runs s" "rs_notified t = rs_notified s"
  shows "notify_ok t"
  using assms notify_okD [OF assms(1)] settled_count_cong [OF assms(4)] by (simp add: notify_ok_def)

lemma notify_ok_retire:
  assumes ok: "notify_ok s" and at: "run_at s i = Some r"
  shows "notify_ok (fst (retire s r err retry ifx ce ram now))"
proof -
  have inv: "rs_inv s" using ok by (simp add: notify_ok_def)
  note inv' = rs_inv_retire [OF inv at, of err retry ifx ce ram now]
  have id: "r_id r = i" using rs_inv_run [OF inv at] by simp
  show ?thesis
  proof (cases rule: retire_cases [of s r err retry ifx ce ram now])
    case none
    with ok show ?thesis by simp
  next
    case requeue
    then show ?thesis
      using id inv' by (intro notify_ok_live [OF ok _ at]) auto
  next
    case (park reason)
    then show ?thesis
      using id inv' notify_ok_settle [OF ok _ at,
          of "parked_run (retired_run r ce) reason now" "put_run (parked_run (retired_run r ce) reason now) s"]
      by simp
  qed
qed

lemma notify_ok_complete:
  assumes ok: "notify_ok s"
  shows "notify_ok (fst (complete s i t res now))"
proof (cases "run_holds s i t")
  case False
  with ok show ?thesis by (simp add: cmp.stale_refused)
next
  case True
  then obtain r where at: "run_at s i = Some r" and tok: "r_leaseToken r = Some t"
    by (auto simp: run_holds_def)
  have inv: "rs_inv s" using ok by (simp add: notify_ok_def)
  have run: "r_status r = RRunning" "r_id r = i" using holder_running [OF inv at tok] by simp_all
  note inv' = rs_inv_complete [OF inv, of i t res now]
  define r1 where "r1 = r\<lparr>r_status := RDone, r_result := Some res, r_leaseToken := None,
      r_leaseExpiresAt := None, r_finishedAt := Some now\<rparr>"
  define rel where "rel = (releasesDedupKey res \<and> truthy (r_dedupKey r))"
  define r2 where "r2 = (if rel then r1\<lparr>r_dedupKey := None\<rparr> else r1)"
  define s1 where "s1 = (if rel then s\<lparr>rs_byKey := map_del (the (r_dedupKey r)) (rs_byKey s)\<rparr> else s)"
  have eq: "fst (complete s i t res now) = settle r2 (put_run r2 s1)"
    using at tok by (simp add: complete_def Let_def r1_def r2_def s1_def rel_def)
  show ?thesis
    unfolding eq
    by (rule notify_ok_settle [OF ok _ at])
       (use run inv' in \<open>auto simp: eq r1_def r2_def s1_def\<close>)
qed

lemma notify_ok_lease:
  assumes "notify_ok s" "rs_inv (fst (lease s r w ttl u now))" "run_at s i = Some r" "r_id r = i"
    "r_status r = RPending"
  shows "notify_ok (fst (lease s r w ttl u now))"
  by (rule notify_ok_live [OF assms(1-3), of "snd (lease s r w ttl u now)"])
     (use assms in \<open>simp_all add: lease_simps\<close>)

lemma notify_ok_put:
  assumes "notify_ok s" "rs_inv (put_run r' s)" "run_at s i = Some r" "r_id r' = i"
    "isTerminal (r_status r') = isTerminal (r_status r)"
  shows "notify_ok (put_run r' s)"
  by (rule notify_ok_live [OF assms(1-3), of r']) (use assms in simp_all)

lemma notify_ok_step:
  assumes ok: "notify_ok s" and step: "rs_step fr s t"
  shows "notify_ok t"
proof -
  have inv: "rs_inv s" using ok by (simp add: notify_ok_def)
  note inv' = rs_inv_step [OF inv step]
  have idt: "r_id r = i" if "run_at s i = Some r" for i r using rs_inv_run [OF inv that] by simp
  from step show ?thesis
  proof cases
    case (st_enqueue u input now)
    show ?thesis
    proof (cases "dedup_hit s (ei_dedupKey input)")
      case (Some r)
      with ok show ?thesis by (simp add: st_enqueue enqueue_def)
    next
      case None
      have nt: "rs_notified t = rs_notified s" using None by (simp add: st_enqueue enqueue_def Let_def)
      have rt: "rs_runs t = map_set u (new_run input u now) (rs_runs s)"
        using None by (simp add: st_enqueue enqueue_def Let_def)
      have "settled_count t j = (case run_at t j of None \<Rightarrow> 0 | Some r \<Rightarrow> if isTerminal (r_status r) then 1 else 0)" for j
        using notify_okD [OF ok, of j] settled_count_cong [OF nt, of j] st_enqueue(2) by (simp add: rt)
      with inv' show ?thesis by (simp add: notify_ok_def)
    qed
  next
    case (st_claim u w ttl now)
    with inv' ok show ?thesis
      by (cases rule: claim_cases [OF inv, of w ttl u now]) (auto intro: notify_ok_lease)
  next
    case (st_claimById u i w ttl now)
    with inv' ok show ?thesis
      by (cases rule: claimById_cases [OF inv, of i w ttl u now]) (auto intro: notify_ok_lease)
  next
    case (st_heartbeat i tk ttl now)
    with inv' ok idt show ?thesis
      by (auto simp: heartbeat_def intro!: notify_ok_put [of s _ i] split: option.splits if_splits)
  next
    case (st_release i tk)
    with inv' ok idt show ?thesis
      by (auto simp: releaseLease_def intro!: notify_ok_put [of s _ i] split: option.splits if_splits)
  next
    case (st_complete i tk res now)
    with ok show ?thesis by (simp add: notify_ok_complete)
  next
    case (st_fail i tk err retry ram now)
    with ok show ?thesis
      using notify_ok_retire [OF ok, of i] by (auto simp: fail_def case_prod_unfold split: option.split)
  next
    case (st_note i n)
    with inv' ok idt show ?thesis
      by (auto simp: noteTurnUserSeq_def intro!: notify_ok_put [of s _ i] split: option.splits if_splits)
  next
    case (st_delivery i tk ds)
    with inv' ok idt show ?thesis
      by (auto simp: setDeliveryState_def intro!: notify_ok_put [of s _ i] split: option.splits if_splits)
  next
    case (st_withdraw i)
    have nt: "rs_notified t = rs_notified s" by (simp add: st_withdraw withdraw_def Let_def split: option.split)
    have "settled_count t j = (case run_at t j of None \<Rightarrow> 0 | Some r \<Rightarrow> if isTerminal (r_status r) then 1 else 0)" for j
      using notify_okD [OF ok, of j] settled_count_cong [OF nt, of j]
      by (auto simp: st_withdraw withdraw_def Let_def split: option.splits if_splits)
    with inv' show ?thesis by (simp add: notify_ok_def)
  next
    case (st_fence u i r now)
    with inv' ok idt show ?thesis
      by (auto simp: reap_fence_def intro!: notify_ok_put [of s _ i])
  next
    case (st_retire i r err retry now)
    with ok show ?thesis by (simp add: notify_ok_retire)
  qed (use inv' ok in \<open>auto intro!: notify_ok_same [of s] simp: onTerminal_def ledger_record_def\<close>)
qed

interpretation nt: invariant_system rs_init "rs_step fr" notify_ok for fr
proof
  show "notify_ok s" if "rs_init s" for s :: "'a run_store"
  proof -
    from that obtain m where s: "s = createMemoryRunStore m" by (auto simp: rs_init_def)
    then show ?thesis
      using rs_inv_create [of m] by (simp add: notify_ok_def settled_count_def createMemoryRunStore_def)
  qed
qed (rule notify_ok_step)

text \<open>
  C3. Exactly-once settlement: in every reachable state the waiters of a run have been notified
  once if the run is done or failed, and not at all before that.
\<close>

theorem settled_exactly_once:
  assumes "reach rs_init (rs_step fr) s" "run_at s i = Some r"
  shows "settled_count s i = (if isTerminal (r_status r) then 1 else 0)"
  using notify_okD [OF nt.reach_inv [OF assms(1)], of i] assms(2) by simp

end
