(* ===== verification/Run_Reaper.thy ===== *)
theory Run_Reaper
  imports Run_Queue
begin

text \<open>
  The reaper of the run queue, the tool ledger, and the applications of the theorems on the run queue to
  concrete histories.
\<close>

text \<open>
  The reaper's sweep (\<open>reapExpired\<close>) and the tool ledger of the run store: the sweep is a run of
  queue steps whatever happens while it awaits its callback; without interference it retires
  every lapsed lease; and the ledger returns what was recorded, under keys that do not collide.
\<close>

section \<open>The sweep is made of queue steps\<close>

definition reap_env :: "(uuid \<Rightarrow> bool) \<Rightarrow> (string list \<Rightarrow> 'q run_store \<Rightarrow> 'q run_store) option \<Rightarrow> bool" where
  "reap_env fr onRetired =
     (\<forall>f. onRetired = Some f \<longrightarrow> (\<forall>sids t. rs_inv t \<longrightarrow> (rs_step fr)\<^sup>*\<^sup>* t (f sids t)))"

lemma reap_one_steps:
  assumes inv: "rs_inv s" and env: "reap_env fr onRetired" and fr: "fr (us i)"
  shows "(rs_step fr)\<^sup>*\<^sup>* s (fst (reap_one onRetired ma us resume now i s))"
proof (cases "run_at s i")
  case None
  then show ?thesis by (simp add: reap_one_def)
next
  case (Some r)
  show ?thesis
  proof (cases "leaseLapsed r now")
    case False
    with Some show ?thesis by (simp add: reap_one_def Let_def)
  next
    case True
    define s1 where "s1 = reap_fence s r (us i) now"
    define s2 where "s2 = (case onRetired of None \<Rightarrow> s1 | Some f \<Rightarrow> f [r_sessionId r] s1)"
    have "rs_step fr s s1" unfolding s1_def using fr Some True by (rule st_fence [where u = "us i"])
    moreover have "rs_inv s1" using rs_inv_step [OF inv \<open>rs_step fr s s1\<close>] .
    then have "(rs_step fr)\<^sup>*\<^sup>* s1 s2"
      using env by (auto simp: s2_def reap_env_def split: option.split)
    moreover have "(rs_step fr)\<^sup>*\<^sup>* s2 (fst (reap_one onRetired ma us resume now i s))"
    proof (cases "run_at s2 i")
      case None
      then have "reap_one onRetired ma us resume now i s = (s2, None)"
        using Some True by (simp add: reap_one_def Let_def flip: s1_def s2_def)
      then show ?thesis by simp
    next
      case at2: (Some r2)
      have "fst (reap_one onRetired ma us resume now i s) =
          fst (retire s2 r2 (if reap_too_old ma r now then ''run exceeded max age (reaped)''
             else ''lease expired (reaped)'') (\<not> reap_too_old ma r now) None False None (resume i))"
        using Some True at2
        by (simp add: reap_one_def Let_def case_prod_unfold flip: s1_def s2_def)
      then show ?thesis using st_retire [OF at2] by (metis r_into_rtranclp)
    qed
    ultimately show ?thesis by (meson converse_rtranclp_into_rtranclp rtranclp_trans)
  qed
qed

lemma reap_loop_steps:
  assumes "rs_inv s" "reap_env fr onRetired" "\<And>i. fr (us i)"
  shows "(rs_step fr)\<^sup>*\<^sup>* s (fst (reap_loop onRetired ma us resume now is s))"
  using assms
proof (induction "is" arbitrary: s)
  case (Cons i "is")
  define s1 where "s1 = fst (reap_one onRetired ma us resume now i s)"
  have 1: "(rs_step fr)\<^sup>*\<^sup>* s s1"
    unfolding s1_def using Cons.prems by (intro reap_one_steps)
  then have "rs_inv s1" using Cons.prems(1) by (rule rs.inv_steps)
  then have "(rs_step fr)\<^sup>*\<^sup>* s1 (fst (reap_loop onRetired ma us resume now is s1))"
    using Cons by blast
  with 1 show ?case
    by (simp add: s1_def case_prod_unfold)
qed simp

text \<open>
  The sweep interleaves safely: whatever operations of the store run while \<open>reapExpired\<close>
  awaits its callback, the whole sweep is a sequence of queue steps, so a reachable store stays
  reachable and everything proved of reachable stores holds after it.
\<close>

theorem reapExpired_reachable:
  assumes "reach rs_init (rs_step fr) s" "\<And>i. fr (us i)"
    and "\<And>f sids t. onRetired = Some f \<Longrightarrow> rs_inv t \<Longrightarrow> (rs_step fr)\<^sup>*\<^sup>* t (f sids t)"
  shows "reach rs_init (rs_step fr) (fst (reapExpired s onRetired ma us resume now))"
proof -
  have "reap_env fr onRetired" using assms(3) by (simp add: reap_env_def)
  then have "(rs_step fr)\<^sup>*\<^sup>* s (fst (reapExpired s onRetired ma us resume now))"
    using reap_loop_steps [of s fr onRetired us] rs.reach_inv [OF assms(1)] assms(2)
    by (simp add: reapExpired_def case_prod_unfold Let_def)
  with assms(1) show ?thesis by (rule reach_steps)
qed

section \<open>The sweep retires every lapsed lease\<close>

text \<open>The fate of one lapsed run: back in the queue, or parked.\<close>

definition reap_requeues :: "'q run_store \<Rightarrow> int option \<Rightarrow> 'q run \<Rightarrow> time \<Rightarrow> bool" where
  "reap_requeues s ma r now =
     (\<not> reap_too_old ma r now \<and> r_errorAttempts r < r_maxAttempts r \<and> \<not> overClaimed s r)"

definition reaped :: "'q run_store \<Rightarrow> int option \<Rightarrow> time \<Rightarrow> 'q run \<Rightarrow> 'q run \<Rightarrow> bool" where
  "reaped s ma now r r' =
     (r_status r' = (if reap_requeues s ma r now then RPending else RFailed) \<and> r_leaseToken r' = None \<and>
      r_attempts r' = r_attempts r \<and> r_errorAttempts r' = r_errorAttempts r)"

lemma reaped_not_lapsed: "reaped s ma now r r' \<Longrightarrow> \<not> leaseLapsed r' now'"
  by (auto simp: reaped_def leaseLapsed_def split: if_splits)

lemma reap_one_None:
  assumes inv: "rs_inv s" and at: "run_at s i = Some r" and lap: "leaseLapsed r now"
  obtains r' e s' where "reap_one None ma us resume now i s = (s', Some e)" "rs_runs s' = map_set i r' (rs_runs s)"
    "reaped s ma now r r'" "re_outcome e = (if reap_requeues s ma r now then Requeued else Parked)" "re_runId e = i"
    "rs_maxClaims s' = rs_maxClaims s"
proof -
  have id: "r_id r = i" using rs_inv_run [OF inv at] by simp
  define f where "f = r\<lparr>r_leaseToken := Some (us i), r_leaseExpiresAt := Some (now + FENCE_HOLD_MS)\<rparr>"
  define s1 where "s1 = put_run f s"
  have fence: "reap_fence s r (us i) now = s1" by (simp add: reap_fence_def s1_def f_def)
  have at1: "run_at s1 i = Some f" using id by (simp add: s1_def f_def)
  define err where "err = (if reap_too_old ma r now then ''run exceeded max age (reaped)''
             else ''lease expired (reaped)'')"
  have one: "reap_one None ma us resume now i s =
      (case retire s1 f err (\<not> reap_too_old ma r now) None False None (resume i) of (s3, requeued, applied) \<Rightarrow>
         if \<not> applied then (s3, None)
         else (s3, Some \<lparr>re_runId = i, re_sessionId = r_sessionId f, re_workerId = r_workerId r,
            re_attempts = r_attempts f, re_errorAttempts = r_errorAttempts f,
            re_outcome = (if requeued then Requeued else Parked)\<rparr>))"
    using at lap at1 by (simp add: reap_one_def Let_def fence err_def)
  have run: "r_status f = RRunning" using lap by (simp add: f_def leaseLapsed_def)
  have rq: "(\<not> reap_too_old ma r now \<and> r_errorAttempts f < r_maxAttempts f \<and> \<not> overClaimed s1 f)
      = reap_requeues s ma r now"
    by (simp add: reap_requeues_def f_def s1_def overClaimed_def split: option.split)
  have set: "map_set i x (rs_runs s1) = map_set i x (rs_runs s)" for x
    using id by (simp add: s1_def f_def map_set_set)
  show ?thesis
  proof (cases rule: retire_cases [of s1 f err "\<not> reap_too_old ma r now" None False None "resume i"])
    case none
    with run show ?thesis by (simp add: retire_def Let_def split: if_splits)
  next
    case requeue
    then have rqs: "reap_requeues s ma r now" using rq by simp
    have "reap_one None ma us resume now i s =
        ((put_run ((retired_run f False)\<lparr>r_status := RPending\<rparr>) s1)\<lparr>rs_retryAfter :=
           map_set i (resume i) (rs_retryAfter s1)\<rparr>, Some \<lparr>re_runId = i, re_sessionId = r_sessionId f,
           re_workerId = r_workerId r, re_attempts = r_attempts f, re_errorAttempts = r_errorAttempts f,
           re_outcome = Requeued\<rparr>)"
      using requeue(3) id by (simp add: one f_def)
    from that [OF this, of "(retired_run f False)\<lparr>r_status := RPending\<rparr>"] show ?thesis
      using rqs id set by (simp add: f_def reaped_def) (simp add: s1_def)
  next
    case (park reason)
    then have rqs: "\<not> reap_requeues s ma r now" using rq by simp
    let ?p = "parked_run (retired_run f False) reason (resume i)"
    have "reap_one None ma us resume now i s =
        (settle ?p (put_run ?p s1), Some \<lparr>re_runId = i, re_sessionId = r_sessionId f,
           re_workerId = r_workerId r, re_attempts = r_attempts f, re_errorAttempts = r_errorAttempts f,
           re_outcome = Parked\<rparr>)"
      using park(3) id by (simp add: one f_def)
    from that [OF this, of ?p] show ?thesis
      using rqs id set by (simp add: f_def reaped_def) (simp add: s1_def)
  qed
qed

lemma reap_loop_None:
  assumes "rs_inv s" "distinct is" "\<And>i. i \<in> set is \<Longrightarrow> \<exists>r. run_at s i = Some r \<and> leaseLapsed r now"
  shows "length (snd (reap_loop None ma us resume now is s)) = length is \<and>
    (\<forall>i. i \<notin> set is \<longrightarrow> run_at (fst (reap_loop None ma us resume now is s)) i = run_at s i) \<and>
    (\<forall>i\<in>set is. \<exists>r r'. run_at s i = Some r \<and> run_at (fst (reap_loop None ma us resume now is s)) i = Some r' \<and>
       reaped s ma now r r')"
  using assms
proof (induction "is" arbitrary: s)
  case Nil
  then show ?case by simp
next
  case (Cons i "is")
  obtain r where at: "run_at s i = Some r" and lap: "leaseLapsed r now" using Cons.prems(3) by auto
  obtain r' e s' where one: "reap_one None ma us resume now i s = (s', Some e)"
      "rs_runs s' = map_set i r' (rs_runs s)" "rs_maxClaims s' = rs_maxClaims s"
    and r': "reaped s ma now r r'"
    using reap_one_None [OF Cons.prems(1) at lap, of ma us resume] by metis
  have env: "reap_env (\<lambda>_. True) None" by (simp add: reap_env_def)
  have inv': "rs_inv s'"
    using rs.inv_steps [OF reap_one_steps [OF Cons.prems(1) env,
      where us = us and i = i and ma = ma and resume = resume and now = now] Cons.prems(1)] one(1)
    by simp
  have i: "i \<notin> set is" using Cons.prems(2) by simp
  have same: "run_at s' j = run_at s j" if "j \<noteq> i" for j using one(2) that by simp
  have "\<exists>r. run_at s' j = Some r \<and> leaseLapsed r now" if "j \<in> set is" for j
    using Cons.prems(3) [of j] that i same [of j] by (metis list.set_intros(2))
  note IH = Cons.IH [OF inv' _ this]
  let ?t = "fst (reap_loop None ma us resume now is s')"
  have rqs: "reaped s' = reaped s"
    using one(3) by (intro ext) (simp add: reaped_def reap_requeues_def overClaimed_def)
  have eq: "fst (reap_loop None ma us resume now (i # is) s) = ?t"
    "length (snd (reap_loop None ma us resume now (i # is) s)) = Suc (length (snd (reap_loop None ma us resume now is s')))"
    by (simp_all add: one(1) case_prod_unfold)
  have fi: "run_at ?t i = Some r'" using IH i Cons.prems(2) one(2) by simp
  show ?case
    unfolding eq
    using IH Cons.prems(2) at r' fi same i rqs by (auto split del: if_split) metis
qed

lemma outcome_count:
  "length (filter (\<lambda>e. re_outcome e = Requeued) evs) + length (filter (\<lambda>e. re_outcome e = Parked) evs) = length evs"
proof (induction evs)
  case (Cons e evs)
  then show ?case by (cases "re_outcome e") auto
qed simp


section \<open>The tool ledger\<close>

lemma ledger_key_inj:
  "ledger_key i a c = ledger_key j b d \<longleftrightarrow> i = j \<and> a = b \<and> c = d"
proof
  assume eq: "ledger_key i a c = ledger_key j b d"
  have cut: "x @ '':'' @ show_nat m = y @ '':'' @ show_nat n \<Longrightarrow> x = y \<and> m = n" for x y m n
  proof -
    assume e: "x @ '':'' @ show_nat m = y @ '':'' @ show_nat n"
    have tw: "takeWhile (\<lambda>c. c \<noteq> CHR '':'') (rev (z @ '':'' @ show_nat k)) = rev (show_nat k)" for z k
    proof -
      have "c \<in> set (rev (show_nat k)) \<Longrightarrow> c \<noteq> CHR '':''" for c using colon_notin_show_nat [of k] by auto
      from takeWhile_append2 [of "rev (show_nat k)" "\<lambda>c. c \<noteq> CHR '':''" "CHR '':'' # rev z", OF this]
      show ?thesis by simp
    qed
    have "rev (show_nat m) = rev (show_nat n)" using tw [of x m] tw [of y n] unfolding e by metis
    then show ?thesis using e by simp
  qed
  have "(i @ '':'' @ show_nat a) @ '':'' @ show_nat c = (j @ '':'' @ show_nat b) @ '':'' @ show_nat d"
    using eq by (simp add: ledger_key_def)
  then have "i @ '':'' @ show_nat a = j @ '':'' @ show_nat b" "c = d" using cut by blast+
  then show "i = j \<and> a = b \<and> c = d" using cut by blast
qed simp

text \<open>
  The tool ledger replays what it recorded: after \<open>record\<close>, \<open>begin\<close> for the same run,
  attempt and call index returns that output, and every other triple is unaffected, although the
  three parts are flattened into one string key.
\<close>

theorem ledger_replay:
  "ledger_begin (ledger_record s i a c out) j b d =
     (if j = i \<and> b = a \<and> d = c then Some out else ledger_begin s j b d)"
  by (simp add: ledger_begin_def ledger_record_def ledger_key_inj)

text \<open>
  Concrete stores on which the theorems about the run queue apply: one run of a session enqueued
  under a key, claimed, and then completed, failed or left to lapse, beside a second run of the
  same session that waits.
\<close>

section \<open>The stores\<close>

definition ex_input :: "string option \<Rightarrow> unit enqueue_input" where
  "ex_input k = \<lparr>ei_sessionId = ''s1'', ei_request = (), ei_dedupKey = k, ei_maxAttempts = Some 2\<rparr>"

definition ex_empty :: "unit run_store" where
  "ex_empty = createMemoryRunStore (Some 5)"

definition ex_queued :: "unit run_store" where
  "ex_queued = fst (enqueue (fst (enqueue ex_empty (ex_input (Some ''k'')) ''r1'' 10)) (ex_input None) ''r2'' 11)"

definition ex_claimed :: "unit run_store" where
  "ex_claimed = fst (claim ex_queued ''w'' 100 ''t1'' 20)"

definition ex_run :: "unit run" where
  "ex_run = the (run_at ex_claimed ''r1'')"

definition ex_result :: turn_result where
  "ex_result = failed_result ''s1'' ''answered''"

definition ex_done :: "unit run_store" where
  "ex_done = fst (complete ex_claimed ''r1'' ''t1'' ex_result 30)"

definition ex_done_run :: "unit run" where
  "ex_done_run = the (run_at ex_done ''r1'')"

section \<open>Their basic facts\<close>

lemma ex_steps:
  "reach rs_init (rs_step (\<lambda>_. True)) ex_empty"
  "reach rs_init (rs_step (\<lambda>_. True)) ex_queued"
  "reach rs_init (rs_step (\<lambda>_. True)) ex_claimed"
  "reach rs_init (rs_step (\<lambda>_. True)) ex_done"
proof -
  show e: "reach rs_init (rs_step (\<lambda>_. True)) ex_empty"
    by (rule reach_init) (auto simp: rs_init_def ex_empty_def)
  let ?s = "fst (enqueue ex_empty (ex_input (Some ''k'')) ''r1'' 10)"
  have "run_at ex_empty ''r1'' = None" by code_simp
  then have 1: "reach rs_init (rs_step (\<lambda>_. True)) ?s"
    by (intro reach_step [OF e] st_enqueue) simp_all
  have "run_at ?s ''r2'' = None" by code_simp
  then show q: "reach rs_init (rs_step (\<lambda>_. True)) ex_queued"
    unfolding ex_queued_def by (intro reach_step [OF 1] st_enqueue) simp_all
  show c: "reach rs_init (rs_step (\<lambda>_. True)) ex_claimed"
    unfolding ex_claimed_def by (intro reach_step [OF q] st_claim) simp
  show "reach rs_init (rs_step (\<lambda>_. True)) ex_done"
    unfolding ex_done_def by (intro reach_step [OF c] st_complete)
qed

lemmas ex_inv = ex_steps [THEN rs.reach_inv]

lemma ex_at:
  "run_at ex_claimed ''r1'' = Some ex_run" "r_status ex_run = RRunning" "r_leaseToken ex_run = Some ''t1''"
  "run_at ex_done ''r1'' = Some ex_done_run" "r_status ex_done_run = RDone"
  "run_at ex_queued ''r3'' = None" "leaseLapsed ex_run 500"
  by code_simp+

section \<open>The theorems applied\<close>

theorem session_runs_exclusive_witness:
  "reach rs_init (rs_step (\<lambda>_. True)) ex_claimed \<and> r_status ex_run = RRunning \<and> ''r1'' = r_id ex_run"
proof -
  have "''r1'' = r_id ex_run"
  proof (rule session_runs_exclusive [OF ex_steps(3) ex_at(1) _ ex_at(2) ex_at(2) refl])
    show "run_at ex_claimed (r_id ex_run) = Some ex_run" by code_simp
  qed
  then show ?thesis using ex_steps(3) ex_at(2) by simp
qed

theorem run_lifecycle_witness:
  "r_id ex_done_run = ''r1'' \<and> r_leaseToken ex_done_run = None \<and> r_result ex_done_run \<noteq> None"
  using run_lifecycle [OF ex_steps(4) ex_at(4)] ex_at(5) by (simp add: isTerminal_def)

theorem fenced_worker_locked_out_witness:
  "snd (complete (reap_fence ex_claimed ex_run ''t2'' 500) ''r1'' ''t1'' ex_result 600) = False"
  using fenced_worker_locked_out [OF ex_inv(3) ex_at(1) ex_at(7), of "''t2''" "''t1''", OF _ rtranclp.rtrancl_refl,
      of _ _ ex_result 600] by simp

theorem settled_run_immutable_witness:
  "\<exists>ds n. run_at (fst (fail ex_done ''r1'' ''t1'' ''late'' None None 40)) ''r1'' =
     Some (ex_done_run\<lparr>r_deliveryState := ds, r_turnUserSeq := n\<rparr>)"
proof (rule settled_run_immutable [OF ex_steps(4) ex_at(4)])
  show "isTerminal (r_status ex_done_run)" by (simp add: ex_at isTerminal_def)
  show "(rs_step (\<lambda>_. True))\<^sup>*\<^sup>* ex_done (fst (fail ex_done ''r1'' ''t1'' ''late'' None None 40))"
    by (rule r_into_rtranclp, rule st_fail)
qed

theorem claim_oldest_eligible_witness:
  "snd (claim ex_queued ''w'' 100 ''t1'' 20) = Some ex_run \<and>
   (\<exists>r. run_at ex_queued (r_id ex_run) = Some r \<and> r_status r = RPending \<and>
      r_leaseExpiresAt ex_run = Some (20 + 100))"
proof -
  have c: "claim ex_queued ''w'' 100 ''t1'' 20 = (ex_claimed, Some ex_run)" by code_simp
  with claim_oldest_eligible [OF ex_inv(2), of "''w''" 100 "''t1''" 20] show ?thesis by auto
qed

theorem enqueue_dedup_witness:
  "enqueue ex_queued (ex_input (Some ''k'')) ''r3'' 12 = (ex_queued, the (run_at ex_queued ''r1''), True)"
proof -
  have "run_at ex_queued ''r1'' = Some (the (run_at ex_queued ''r1''))"
    "r_dedupKey (the (run_at ex_queued ''r1'')) = Some ''k''" by code_simp+
  then show ?thesis
    using enqueue_dedup [OF ex_inv(2) _ _ ex_at(6), of "ex_input (Some ''k'')" "''k''" 12]
    by (simp add: ex_input_def)
qed

theorem final_attempt_forecast_witness:
  "errorParks ex_run (rs_maxClaims ex_claimed) = False \<and>
   snd (fail ex_claimed ''r1'' ''t1'' ''boom'' None (Some 50) 30)"
proof -
  have "errorParks ex_run (rs_maxClaims ex_claimed) = False" by code_simp
  then show ?thesis
    using final_attempt_forecast [OF ex_inv(3) ex_at(1,3), of None "''boom''" "Some 50" 30] by blast
qed

theorem requeue_backs_off_witness:
  "\<exists>r'. run_at (fst (fail ex_claimed ''r1'' ''t1'' ''boom'' None (Some 50) 30)) ''r1'' = Some r' \<and>
     r_status r' = RPending \<and> r_errorAttempts r' = r_errorAttempts ex_run + 1"
proof -
  have "fail ex_claimed ''r1'' ''t1'' ''boom'' None (Some 50) 30 =
      (fst (fail ex_claimed ''r1'' ''t1'' ''boom'' None (Some 50) 30), True)" by code_simp
  note rq = requeue_backs_off [OF ex_inv(3) ex_at(1,3) this, of 79]
  have "(79::int) < 30 + 50" by simp
  from rq [OF this] show ?thesis by blast
qed

theorem settled_exactly_once_witness:
  "settled_count ex_done ''r1'' = 1 \<and> reach rs_init (rs_step (\<lambda>_. True)) ex_done"
  using settled_exactly_once [OF ex_steps(4) ex_at(4)] ex_at(5) ex_steps(4) by (simp add: isTerminal_def)

theorem reapExpired_reachable_witness:
  "reach rs_init (rs_step (\<lambda>_. True))
     (fst (reapExpired ex_claimed (Some (\<lambda>sids t. fst (heartbeat t ''r1'' ''t1'' 100 510))) None (\<lambda>i. i) (\<lambda>_. 520) 500))"
  by (rule reapExpired_reachable [OF ex_steps(3)]) (auto intro: st_heartbeat)


end
