(* ===== verification/Run_Signals.thy ===== *)
theory Run_Signals
  imports Interfaces
begin

text \<open>
  Signals to a live run and its activity feed (\<open>src/runs/run-signal-store.ts\<close>,
  \<open>src/runs/run-activity-store.ts\<close>): steering messages are handed to the worker once and in
  order, an abort stays visible until the run is drained, repeated signals are dropped by key, and
  the activity feed is bounded in age and length. The request a steer carries is a type
  parameter; \<open>externalId\<close> reads the id of its actor. The listener sets are objects that the map
  and the closures share: \<open>ss_sets\<close> holds them by address. \<open>ss_woken\<close> is the trace of the
  callbacks \<open>send\<close> makes.
\<close>

section \<open>Signals\<close>

datatype run_signal_kind = Abort | Steer

record 'q run_signal =
  sg_kind :: run_signal_kind
  sg_text :: "string option"
  sg_ts :: "string option"
  sg_request :: "'q option"
  sg_dedupeKey :: "string option"

record signal_author =
  sa_at :: time
  sa_author :: string

record 'q signal_store =
  ss_pending :: "(string, 'q run_signal list) jsmap"
  ss_authors :: "(string, signal_author list) jsmap"
  ss_listeners :: "(string, nat) jsmap"
  ss_sets :: "string list list"
  ss_dedupeKeys :: "string list"
  ss_woken :: "string list"

definition MAX_MEMORY_DEDUPE_KEYS :: nat where
  "MAX_MEMORY_DEDUPE_KEYS = 10000"

definition createMemoryRunSignalStore :: "'q signal_store" where
  "createMemoryRunSignalStore =
     \<lparr>ss_pending = [], ss_authors = [], ss_listeners = [], ss_sets = [], ss_dedupeKeys = [], ss_woken = []\<rparr>"

text \<open>Adding a key evicts the oldest one once the set is over its bound.\<close>

definition remember_key :: "string \<Rightarrow> string list \<Rightarrow> string list" where
  "remember_key k keys =
     (let keys1 = set_add k keys
      in if length keys1 > MAX_MEMORY_DEDUPE_KEYS then tl keys1 else keys1)"

definition send :: "('q \<Rightarrow> string option) \<Rightarrow> 'q signal_store \<Rightarrow> string \<Rightarrow> 'q run_signal \<Rightarrow> time \<Rightarrow> 'q signal_store \<times> bool" where
  "send externalId s runId signal now =
     (if truthy (sg_dedupeKey signal) \<and> the (sg_dedupeKey signal) \<in> set (ss_dedupeKeys s) then (s, False)
      else
        let s1 = (if truthy (sg_dedupeKey signal)
                  then s\<lparr>ss_dedupeKeys := remember_key (the (sg_dedupeKey signal)) (ss_dedupeKeys s)\<rparr> else s);
            list = or_else (map_get (ss_pending s1) runId) [];
            s2 = s1\<lparr>ss_pending := map_set runId (list @ [signal]) (ss_pending s1)\<rparr>;
            author = (if sg_kind signal = Steer then Option.bind (sg_request signal) externalId else None);
            s3 = (if truthy author
                  then s2\<lparr>ss_authors := map_set runId
                         (or_else (map_get (ss_authors s2) runId) [] @ [\<lparr>sa_at = now, sa_author = the author\<rparr>])
                         (ss_authors s2)\<rparr>
                  else s2)
        in (s3\<lparr>ss_woken := ss_woken s3 @ (case map_get (ss_listeners s3) runId of None \<Rightarrow> [] | Some a \<Rightarrow> ss_sets s3 ! a)\<rparr>, True))"

definition hasDedupeKey :: "'q signal_store \<Rightarrow> string \<Rightarrow> bool" where
  "hasDedupeKey s k = (k \<in> set (ss_dedupeKeys s))"

definition steerAuthors :: "'q signal_store \<Rightarrow> string \<Rightarrow> string list" where
  "steerAuthors s runId = js_set_of (map sa_author (or_else (map_get (ss_authors s) runId) []))"

definition takePending :: "'q signal_store \<Rightarrow> string \<Rightarrow> 'q signal_store \<times> 'q run_signal list" where
  "takePending s runId =
     (let list = or_else (map_get (ss_pending s) runId) []
      in (s\<lparr>ss_pending := map_del runId (ss_pending s)\<rparr>, list))"

definition takeLive :: "'q signal_store \<Rightarrow> string \<Rightarrow> 'q signal_store \<times> 'q run_signal list" where
  "takeLive s runId =
     (let list = or_else (map_get (ss_pending s) runId) [];
          aborts = filter (\<lambda>g. sg_kind g = Abort) list
      in (if aborts \<noteq> [] then s\<lparr>ss_pending := map_set runId aborts (ss_pending s)\<rparr>
          else s\<lparr>ss_pending := map_del runId (ss_pending s)\<rparr>, list))"

definition pendingRunIds :: "'q signal_store \<Rightarrow> string list" where
  "pendingRunIds s = map_keys (ss_pending s)"

text \<open>The loop over the entries rewrites or deletes each one it visits.\<close>

definition keep_recent :: "('e \<Rightarrow> time) \<Rightarrow> time \<Rightarrow> (string, 'e list) jsmap \<Rightarrow> (string, 'e list) jsmap" where
  "keep_recent at cutoff m =
     filter (\<lambda>(_, l). l \<noteq> []) (map (\<lambda>(k, l). (k, filter (\<lambda>e. at e \<ge> cutoff) l)) m)"

definition prune_signals :: "'q signal_store \<Rightarrow> int \<Rightarrow> time \<Rightarrow> 'q signal_store" where
  "prune_signals s olderThanMs now = s\<lparr>ss_authors := keep_recent sa_at (now - olderThanMs) (ss_authors s)\<rparr>"

definition onSignal :: "'q signal_store \<Rightarrow> string \<Rightarrow> string \<Rightarrow> 'q signal_store \<times> nat" where
  "onSignal s runId cb =
     (let (a, sets) = (case map_get (ss_listeners s) runId of
                         Some a \<Rightarrow> (a, ss_sets s)
                       | None \<Rightarrow> (length (ss_sets s), ss_sets s @ [[]]))
      in (s\<lparr>ss_sets := sets[a := set_add cb (sets ! a)], ss_listeners := map_set runId a (ss_listeners s)\<rparr>, a))"

text \<open>
  The function \<open>onSignal\<close> returns, as an operation on the set object \<open>a\<close> its closure holds: that
  set may no longer be the one the map has for the run.
\<close>

definition unsubscribe :: "'q signal_store \<Rightarrow> string \<Rightarrow> nat \<Rightarrow> string \<Rightarrow> 'q signal_store" where
  "unsubscribe s runId a cb =
     (let s1 = s\<lparr>ss_sets := (ss_sets s)[a := removeAll cb (ss_sets s ! a)]\<rparr>
      in if ss_sets s1 ! a = [] then s1\<lparr>ss_listeners := map_del runId (ss_listeners s1)\<rparr> else s1)"

section \<open>Sequences of operations\<close>

datatype 'q signal_op = OpSend string "'q run_signal" time | OpPending string | OpLive string | OpPrune int time

fun sig_exec :: "('q \<Rightarrow> string option) \<Rightarrow> 'q signal_store \<Rightarrow> 'q signal_op \<Rightarrow> 'q signal_store \<times> 'q run_signal list" where
  "sig_exec x s (OpSend i g now) = (fst (send x s i g now), [])"
| "sig_exec x s (OpPending i) = takePending s i"
| "sig_exec x s (OpLive i) = takeLive s i"
| "sig_exec x s (OpPrune d now) = (prune_signals s d now, [])"

text \<open>What the takers of run \<open>i\<close> were handed, and which signals to \<open>i\<close> were accepted.\<close>

fun handed :: "('q \<Rightarrow> string option) \<Rightarrow> string \<Rightarrow> 'q signal_op list \<Rightarrow> 'q signal_store \<Rightarrow> 'q run_signal list" where
  "handed x i [] s = []"
| "handed x i (c # cs) s =
     (if c = OpPending i \<or> c = OpLive i then snd (sig_exec x s c) else []) @ handed x i cs (fst (sig_exec x s c))"

fun accepted :: "('q \<Rightarrow> string option) \<Rightarrow> string \<Rightarrow> 'q signal_op list \<Rightarrow> 'q signal_store \<Rightarrow> 'q run_signal list" where
  "accepted x i [] s = []"
| "accepted x i (c # cs) s =
     (case c of OpSend j g now \<Rightarrow> if j = i \<and> snd (send x s j g now) then [g] else [] | _ \<Rightarrow> []) @
     accepted x i cs (fst (sig_exec x s c))"

definition sig_final :: "('q \<Rightarrow> string option) \<Rightarrow> 'q signal_op list \<Rightarrow> 'q signal_store \<Rightarrow> 'q signal_store" where
  "sig_final x cs s = fold (\<lambda>c s. fst (sig_exec x s c)) cs s"

abbreviation waiting :: "'q signal_store \<Rightarrow> string \<Rightarrow> 'q run_signal list" where
  "waiting s i \<equiv> or_else (map_get (ss_pending s) i) []"

abbreviation steers :: "'q run_signal list \<Rightarrow> 'q run_signal list" where
  "steers \<equiv> filter (\<lambda>g. sg_kind g = Steer)"

lemma waiting_send [store_simps]:
  "waiting (fst (send x s i g now)) j =
     (if j = i \<and> snd (send x s i g now) then waiting s j @ [g] else waiting s j)"
  by (simp add: send_def Let_def)

lemma waiting_takePending [store_simps]:
  "waiting (fst (takePending s i)) j = (if j = i then [] else waiting s j)"
  "snd (takePending s i) = waiting s i"
  by (simp_all add: takePending_def Let_def)

lemma waiting_takeLive [store_simps]:
  "waiting (fst (takeLive s i)) j = (if j = i then filter (\<lambda>g. sg_kind g = Abort) (waiting s i) else waiting s j)"
  "snd (takeLive s i) = waiting s i"
  by (simp_all add: takeLive_def Let_def)

lemma waiting_prune [store_simps]: "waiting (prune_signals s d now) j = waiting s j"
  by (simp add: prune_signals_def)

lemma steers_of_aborts [simp]: "steers (filter (\<lambda>g. sg_kind g = Abort) l) = []"
  by (induction l) auto

text \<open>
  A steering message is delivered exactly once and in order: for any sequence of operations
  on a new store, the steers handed to the takers of a run, followed by those still waiting, are
  exactly the accepted steers of that run in the order they were sent.
\<close>

theorem steers_delivered_once:
  "steers (handed x i cs createMemoryRunSignalStore) @
     steers (waiting (sig_final x cs createMemoryRunSignalStore) i)
   = steers (accepted x i cs createMemoryRunSignalStore)"
proof -
  have "steers (handed x i cs s) @ steers (waiting (sig_final x cs s) i) = steers (waiting s i) @ steers (accepted x i cs s)"
    for s :: "'a signal_store"
  proof (induction cs arbitrary: s)
    case (Cons c cs)
    then show ?case
      by (cases c) (auto simp: sig_final_def store_simps)
  qed (simp add: sig_final_def)
  from this [of createMemoryRunSignalStore] show ?thesis
    by (simp add: createMemoryRunSignalStore_def)
qed

text \<open>
  An abort cannot be missed: once accepted, it is in the result of every later \<open>takeLive\<close>
  of its run, whatever other operations happen, until the run's signals are drained by
  \<open>takePending\<close>.
\<close>

theorem abort_stays_visible:
  assumes "sg_kind g = Abort" "snd (send x s i g now)" "OpPending i \<notin> set cs"
  shows "g \<in> set (snd (takeLive (sig_final x cs (fst (send x s i g now))) i))"
proof -
  have "g \<in> set (waiting t i) \<Longrightarrow> OpPending i \<notin> set cs \<Longrightarrow> g \<in> set (waiting (sig_final x cs t) i)" for t
  proof (induction cs arbitrary: t)
    case (Cons c cs)
    have "g \<in> set (waiting (fst (sig_exec x t c)) i)"
      using Cons.prems assms(1) by (cases c) (auto simp: store_simps)
    with Cons show ?case by (simp add: sig_final_def)
  qed (simp add: sig_final_def)
  moreover have "g \<in> set (waiting (fst (send x s i g now)) i)" using assms(2) by (simp add: store_simps)
  ultimately show ?thesis using assms(3) by (simp add: waiting_takeLive(2))
qed

text \<open>The deduplication window.\<close>

lemma remember_key_keeps:
  assumes "keys = xs @ k # ys" "length ys < MAX_MEMORY_DEDUPE_KEYS" "j \<notin> set keys"
  shows "\<exists>xs'. remember_key j keys = xs' @ k # ys @ [j] \<or> Suc (length ys) = MAX_MEMORY_DEDUPE_KEYS \<and> xs = []"
  using assms by (cases xs) (auto simp: remember_key_def set_add_def Let_def)

definition keyed :: "('q \<Rightarrow> string option) \<Rightarrow> 'q signal_op list \<Rightarrow> 'q signal_store \<Rightarrow> nat" where
  "keyed x cs s = length (filter (\<lambda>c. case c of OpSend _ g _ \<Rightarrow> truthy (sg_dedupeKey g) | _ \<Rightarrow> False) cs)"

lemma keys_exec:
  "ss_dedupeKeys (fst (sig_exec x s c)) =
     (case c of OpSend i g now \<Rightarrow>
        if truthy (sg_dedupeKey g) \<and> the (sg_dedupeKey g) \<notin> set (ss_dedupeKeys s)
        then remember_key (the (sg_dedupeKey g)) (ss_dedupeKeys s) else ss_dedupeKeys s
      | _ \<Rightarrow> ss_dedupeKeys s)"
  by (cases c) (auto simp: send_def Let_def takePending_def takeLive_def prune_signals_def)

lemma keys_window:
  assumes "ss_dedupeKeys s = xs @ k # ys" "length ys + keyed x cs s < MAX_MEMORY_DEDUPE_KEYS"
  shows "k \<in> set (ss_dedupeKeys (sig_final x cs s))"
  using assms
proof (induction cs arbitrary: s xs ys)
  case (Cons c cs)
  let ?s = "fst (sig_exec x s c)"
  have "\<exists>xs' ys'. ss_dedupeKeys ?s = xs' @ k # ys' \<and> length ys' + keyed x cs ?s < MAX_MEMORY_DEDUPE_KEYS"
  proof (cases "\<exists>i g now. c = OpSend i g now \<and> truthy (sg_dedupeKey g) \<and> the (sg_dedupeKey g) \<notin> set (ss_dedupeKeys s)")
    case True
    then obtain i g now where c: "c = OpSend i g now" "truthy (sg_dedupeKey g)" "the (sg_dedupeKey g) \<notin> set (ss_dedupeKeys s)"
      by blast
    have len: "length ys + Suc (keyed x cs ?s) < MAX_MEMORY_DEDUPE_KEYS"
      using Cons.prems(2) c by (simp add: keyed_def)
    then obtain xs' where "ss_dedupeKeys ?s = xs' @ k # (ys @ [the (sg_dedupeKey g)])"
      using remember_key_keeps [OF Cons.prems(1) _ c(3)] c keys_exec [of x s c] by auto
    then show ?thesis using len by fastforce
  next
    case False
    then have "ss_dedupeKeys ?s = ss_dedupeKeys s"
      by (auto simp: keys_exec split: signal_op.split)
    moreover have "keyed x cs ?s \<le> keyed x (c # cs) s" by (simp add: keyed_def)
    ultimately show ?thesis using Cons.prems by fastforce
  qed
  then show ?case using Cons.IH by (auto simp: sig_final_def)
qed (simp add: sig_final_def)

text \<open>
  Deduplication window: after a signal with a key was accepted, the same key is refused
  without any change to the store as long as fewer than 10000 keyed signals were sent since, and
  the set of remembered keys never grows beyond that bound.
\<close>

theorem signal_dedupe_window:
  assumes "snd (send x s i g now)" "sg_dedupeKey g = Some k" "k \<noteq> []"
    and "length (filter (\<lambda>c. case c of OpSend _ h _ \<Rightarrow> truthy (sg_dedupeKey h) | _ \<Rightarrow> False) cs) < MAX_MEMORY_DEDUPE_KEYS"
    and "sg_dedupeKey g' = Some k" "length (ss_dedupeKeys s) \<le> MAX_MEMORY_DEDUPE_KEYS"
  shows "send x (sig_final x cs (fst (send x s i g now))) j g' now' = (sig_final x cs (fst (send x s i g now)), False) \<and>
    length (ss_dedupeKeys (sig_final x cs (fst (send x s i g now)))) \<le> MAX_MEMORY_DEDUPE_KEYS"
proof -
  let ?s = "fst (send x s i g now)"
  have new: "k \<notin> set (ss_dedupeKeys s)" using assms(1-3) by (auto simp: send_def split: if_splits)
  have pos: "0 < MAX_MEMORY_DEDUPE_KEYS" by (simp add: MAX_MEMORY_DEDUPE_KEYS_def)
  have keys: "ss_dedupeKeys ?s = remember_key k (ss_dedupeKeys s)"
    using keys_exec [of x s "OpSend i g now"] assms(2,3) new by simp
  have "\<exists>xs. remember_key k (ss_dedupeKeys s) = xs @ k # []"
  proof (cases "ss_dedupeKeys s")
    case (Cons a l)
    then have "remember_key k (ss_dedupeKeys s) \<in> {(a # l) @ [k], l @ [k]}"
      using new by (simp add: remember_key_def set_add_def Let_def)
    then show ?thesis by blast
  qed (use pos in \<open>simp add: remember_key_def set_add_def\<close>)
  then have "k \<in> set (ss_dedupeKeys (sig_final x cs ?s))"
    using keys_window [of ?s _ k "[]" x cs] assms(4) keys by (auto simp: keyed_def)
  moreover have rk: "length keys \<le> MAX_MEMORY_DEDUPE_KEYS \<Longrightarrow> length (remember_key j keys) \<le> MAX_MEMORY_DEDUPE_KEYS" for j keys
    by (auto simp: remember_key_def set_add_def Let_def)
  have bound: "length (ss_dedupeKeys t) \<le> MAX_MEMORY_DEDUPE_KEYS \<Longrightarrow>
      length (ss_dedupeKeys (sig_final x cs t)) \<le> MAX_MEMORY_DEDUPE_KEYS" for t
  proof (induction cs arbitrary: t)
    case (Cons c cs)
    have "length (ss_dedupeKeys (fst (sig_exec x t c))) \<le> MAX_MEMORY_DEDUPE_KEYS"
      using Cons.prems rk by (auto simp: keys_exec split: signal_op.split)
    with Cons.IH show ?case by (simp add: sig_final_def)
  qed (simp add: sig_final_def)
  have "length (ss_dedupeKeys (sig_final x cs ?s)) \<le> MAX_MEMORY_DEDUPE_KEYS"
    using bound [of ?s] rk [OF assms(6)] keys by simp
  ultimately show ?thesis using assms(3,5) by (simp add: send_def)
qed

section \<open>The activity feed of a run\<close>

record 'p activity_entry =
  ae_seq :: int
  ae_parentSeq :: "int option"
  ae_type :: string
  ae_payload :: 'p
  ae_createdAt :: time

text \<open>\<open>as_nextPruneAt\<close> is \<open>None\<close> for the initial \<open>Number.NEGATIVE_INFINITY\<close>.\<close>

record 'p activity_store =
  as_runs :: "(string, 'p activity_entry list) jsmap"
  as_nextPruneAt :: "time option"

definition RUN_ACTIVITY_TTL_MS :: int where
  "RUN_ACTIVITY_TTL_MS = 60 * 60000"

definition MAX_PER_RUN :: nat where
  "MAX_PER_RUN = 2000"

definition PRUNE_INTERVAL_MS :: int where
  "PRUNE_INTERVAL_MS = 60000"

definition createMemoryRunActivityStore :: "'p activity_store" where
  "createMemoryRunActivityStore = \<lparr>as_runs = [], as_nextPruneAt = None\<rparr>"

definition append_activity :: "'p activity_store \<Rightarrow> string \<Rightarrow> 'p activity_entry \<Rightarrow> time \<Rightarrow> 'p activity_store" where
  "append_activity s runId entry t =
     (let s1 = (if (case as_nextPruneAt s of None \<Rightarrow> True | Some p \<Rightarrow> t \<ge> p)
                then \<lparr>as_runs = keep_recent ae_createdAt (t - RUN_ACTIVITY_TTL_MS) (as_runs s),
                      as_nextPruneAt = Some (t + PRUNE_INTERVAL_MS)\<rparr>
                else s);
          list = or_else (map_get (as_runs s1) runId) [];
          list' = (if length list < MAX_PER_RUN then list @ [entry] else list)
      in s1\<lparr>as_runs := map_set runId list' (as_runs s1)\<rparr>)"

definition list_activity :: "'p activity_store \<Rightarrow> string \<Rightarrow> 'p activity_entry list" where
  "list_activity s runId = or_else (map_get (as_runs s) runId) []"

definition activity_ok :: "'p activity_store \<Rightarrow> bool" where
  "activity_ok s = (map_ok (as_runs s) \<and> (\<forall>i. length (list_activity s i) \<le> MAX_PER_RUN))"

lemma keep_recent_get:
  assumes "map_ok m"
  shows "or_else (map_get (keep_recent at c m) k) [] = filter (\<lambda>e. at e \<ge> c) (or_else (map_get m k) [])"
    and "map_ok (keep_recent at c m)"
  using assms unfolding keep_recent_def
  by (simp_all add: map_get_filter map_get_map_vals split: option.split)

lemma list_append_activity:
  assumes "activity_ok s"
  shows "list_activity (append_activity s i e t) j =
    (let l = (if (case as_nextPruneAt s of None \<Rightarrow> True | Some p \<Rightarrow> t \<ge> p)
              then filter (\<lambda>e. ae_createdAt e \<ge> t - RUN_ACTIVITY_TTL_MS) (list_activity s j) else list_activity s j)
     in if j = i \<and> length l < MAX_PER_RUN then l @ [e] else l)"
  using assms
  by (auto simp: append_activity_def list_activity_def activity_ok_def Let_def keep_recent_get)

text \<open>
  The activity feed is bounded and loses nothing early: from a well-formed feed, appending
  keeps every run's list within its bound of 2000; whatever it drops is older than the
  time-to-live; and the new entry is the last of its run unless the run is full.
\<close>

theorem activity_feed_bounded:
  assumes "activity_ok s"
  shows "activity_ok (append_activity s i e t) \<and>
    (\<forall>j. \<forall>d\<in>set (list_activity s j).
       d \<in> set (list_activity (append_activity s i e t) j) \<or> ae_createdAt d < t - RUN_ACTIVITY_TTL_MS) \<and>
    (length (list_activity s i) < MAX_PER_RUN \<longrightarrow>
       last_opt (list_activity (append_activity s i e t) i) = Some e)"
proof (intro conjI)
  have ok: "map_ok (as_runs (append_activity s i e t))"
    using assms by (simp add: append_activity_def Let_def activity_ok_def keep_recent_get)
  have "length (list_activity (append_activity s i e t) j) \<le> MAX_PER_RUN" for j
  proof -
    have "length (list_activity s j) \<le> MAX_PER_RUN" using assms by (simp add: activity_ok_def)
    moreover from this have "length (filter P (list_activity s j)) \<le> MAX_PER_RUN" for P
      using length_filter_le le_trans by blast
    ultimately show ?thesis by (auto simp: list_append_activity [OF assms] Let_def)
  qed
  with ok show "activity_ok (append_activity s i e t)" by (simp add: activity_ok_def)
  show "\<forall>j. \<forall>d\<in>set (list_activity s j).
      d \<in> set (list_activity (append_activity s i e t) j) \<or> ae_createdAt d < t - RUN_ACTIVITY_TTL_MS"
    by (auto simp: list_append_activity [OF assms] Let_def)
  show "length (list_activity s i) < MAX_PER_RUN \<longrightarrow>
      last_opt (list_activity (append_activity s i e t) i) = Some e"
  proof
    assume less: "length (list_activity s i) < MAX_PER_RUN"
    then have "length (filter P (list_activity s i)) < MAX_PER_RUN" for P
      using length_filter_le le_less_trans by blast
    with less show "last_opt (list_activity (append_activity s i e t) i) = Some e"
      by (simp add: list_append_activity [OF assms] Let_def last_opt_def)
  qed
qed

section \<open>The theorems applied\<close>

definition ex_signal :: "run_signal_kind \<Rightarrow> string option \<Rightarrow> unit run_signal" where
  "ex_signal k d = \<lparr>sg_kind = k, sg_text = Some ''stop'', sg_ts = None, sg_request = None, sg_dedupeKey = d\<rparr>"

theorem abort_stays_visible_witness:
  "ex_signal Abort None \<in> set (snd (takeLive (sig_final (\<lambda>_. None) [OpLive ''r'', OpSend ''r'' (ex_signal Steer None) 2]
     (fst (send (\<lambda>_. None) createMemoryRunSignalStore ''r'' (ex_signal Abort None) 1))) ''r''))"
proof (rule abort_stays_visible)
  show "sg_kind (ex_signal Abort None) = Abort" by (simp add: ex_signal_def)
  show "snd (send (\<lambda>_. None) createMemoryRunSignalStore ''r'' (ex_signal Abort None) 1)" by code_simp
qed simp

theorem signal_dedupe_window_witness:
  "snd (send (\<lambda>_. None) (sig_final (\<lambda>_. None) [OpPending ''r'']
     (fst (send (\<lambda>_. None) createMemoryRunSignalStore ''r'' (ex_signal Steer (Some ''k'')) 1))) ''r2''
       (ex_signal Abort (Some ''k'')) 5) = False"
  using signal_dedupe_window [of "\<lambda>_. None" createMemoryRunSignalStore "''r''" "ex_signal Steer (Some ''k'')" 1 "''k''"
    "[OpPending ''r'']" "ex_signal Abort (Some ''k'')" "''r2''" 5]
  by (simp add: ex_signal_def MAX_MEMORY_DEDUPE_KEYS_def send_def createMemoryRunSignalStore_def Let_def)

theorem activity_feed_bounded_witness:
  "activity_ok (append_activity createMemoryRunActivityStore ''r''
     \<lparr>ae_seq = 1, ae_parentSeq = None, ae_type = ''tool'', ae_payload = (), ae_createdAt = 5\<rparr> 6)"
proof -
  have "activity_ok createMemoryRunActivityStore"
    by (simp add: activity_ok_def createMemoryRunActivityStore_def list_activity_def)
  from activity_feed_bounded [OF this] show ?thesis by blast
qed

end
