(* ===== verification/Run_Worker.thy ===== *)
theory Run_Worker
  imports Complex_Main Run_Queue
begin

text \<open>
  The worker's side of a lease (\<open>src/runs/worker.ts\<close>, \<open>src/runs/retry-delay.ts\<close>,
  \<open>src/core/turn-error.ts\<close>). \<open>processRun\<close> runs one leased turn: the orchestrator is a dependency
  the worker is handed and is an argument here, as the transformer of the store that covers
  everything that happens until the turn returns or throws. The heartbeat timer is the counter
  machine \<open>beat\<close>. Logging is left out.
\<close>

section \<open>Failures and retry delays\<close>

datatype turn_error = NonRetryableTurnError string | OtherError string

definition GENERIC_TURN_FAILURE :: string where
  "GENERIC_TURN_FAILURE =
     ''That turn failed and couldn't be completed. The details are in the operator error log.''"

definition turnFailureMessage :: "turn_error \<Rightarrow> string" where
  "turnFailureMessage err =
     (case err of NonRetryableTurnError m \<Rightarrow> if trim m \<noteq> [] then m else GENERIC_TURN_FAILURE
      | OtherError _ \<Rightarrow> GENERIC_TURN_FAILURE)"

text \<open>\<open>rnd\<close> is the value of \<open>Math.random()\<close>; \<open>Math.round\<close> rounds halves up.\<close>

definition retryDelay :: "nat \<Rightarrow> real \<Rightarrow> int" where
  "retryDelay priorErrors rnd =
     (let base = min 60000 (15000 * 2 ^ min priorErrors 2) :: int
      in min 60000 \<lfloor>of_int base * (1 + rnd * (2 / 10)) + 1 / 2\<rfloor>)"

section \<open>Heartbeats\<close>

definition LEASE_LOST_CONSECUTIVE :: nat where
  "LEASE_LOST_CONSECUTIVE = 3"

datatype beat_reply = Alive | Gone | BeatError

record beat_state =
  bs_consecutiveLost :: nat
  bs_leaseLost :: bool

text \<open>Once the lease counts as lost the timer is cleared and the turn cancelled.\<close>

definition beat :: "beat_state \<Rightarrow> beat_reply \<Rightarrow> beat_state" where
  "beat b reply =
     (case reply of
        Alive \<Rightarrow> b\<lparr>bs_consecutiveLost := 0\<rparr>
      | BeatError \<Rightarrow> b\<lparr>bs_consecutiveLost := 0\<rparr>
      | Gone \<Rightarrow>
          let n = bs_consecutiveLost b + 1
          in if n \<ge> LEASE_LOST_CONSECUTIVE \<and> \<not> bs_leaseLost b
             then \<lparr>bs_consecutiveLost = n, bs_leaseLost = True\<rparr>
             else b\<lparr>bs_consecutiveLost := n\<rparr>)"

section \<open>One leased turn\<close>

text \<open>
  \<open>handleTurn finalAttempt s\<close> is the orchestrator's turn; \<open>swarm\<close> reads the swarm flag of a
  request; \<open>now\<close> is the clock when the turn is over.
\<close>

definition fail_turn :: "'q run_store \<Rightarrow> 'q run \<Rightarrow> string \<Rightarrow> turn_error \<Rightarrow> real \<Rightarrow> time
    \<Rightarrow> 'q run_store \<times> (turn_error + turn_result)" where
  "fail_turn s run token err rnd now =
     (fst (fail s (r_id run) token (turnFailureMessage err)
        (Some (case err of NonRetryableTurnError _ \<Rightarrow> False | OtherError _ \<Rightarrow> True))
        (Some (retryDelay (r_errorAttempts run) rnd)) now), Inl err)"

definition processRun ::
  "('q \<Rightarrow> bool) \<Rightarrow> (bool \<Rightarrow> 'q run_store \<Rightarrow> 'q run_store \<times> (turn_error + turn_result)) \<Rightarrow> 'q run_store
     \<Rightarrow> 'q run \<Rightarrow> real \<Rightarrow> time \<Rightarrow> 'q run_store \<times> (turn_error + turn_result)" where
  "processRun swarm handleTurn s run rnd now =
     (case r_leaseToken run of
        None \<Rightarrow> (s, Inl (OtherError (''processRun called with an unleased run '' @ r_id run)))
      | Some token \<Rightarrow>
          if swarm (r_request run) \<and> r_attempts run > 3
          then fail_turn s run token (NonRetryableTurnError ''swarm claim budget exhausted'') rnd now
          else
            (case handleTurn (errorParks run (rs_maxClaims s)) s of
               (s1, Inl err) \<Rightarrow> fail_turn s1 run token err rnd now
             | (s1, Inr result) \<Rightarrow>
                 (case complete s1 (r_id run) token result now of
                    (s2, True) \<Rightarrow> (s2, Inr result)
                  | (s2, False) \<Rightarrow>
                      fail_turn s2 run token
                        (OtherError (''run '' @ r_id run @ '' lost its lease before completion'')) rnd now)))"

section \<open>Properties\<close>

lemma floor_add_half: "of_int b \<le> y \<Longrightarrow> b \<le> \<lfloor>y + 1 / 2 :: real\<rfloor>"
  by (simp add: le_floor_iff)

text \<open>
  Retry delays are bounded: whatever the random jitter, the delay before a retry lies between
  the exponential base of 15, 30 or 60 seconds and one minute.
\<close>

theorem retryDelay_bounds:
  assumes "0 \<le> rnd" "rnd < 1"
  shows "15000 * 2 ^ min n 2 \<le> retryDelay n rnd \<and> retryDelay n rnd \<le> 60000"
proof -
  have n: "min n 2 = 0 \<or> min n 2 = 1 \<or> min n 2 = 2" by arith
  then have base: "min 60000 (15000 * 2 ^ min n 2) = (15000 * 2 ^ min n 2 :: int)"
    and le: "15000 * 2 ^ min n 2 \<le> (60000 :: int)" by auto
  let ?b = "15000 * 2 ^ min n 2 :: int"
  have "real_of_int ?b * 1 \<le> of_int ?b * (1 + rnd * (2 / 10))"
    using assms(1) by (intro mult_left_mono) simp_all
  then have "?b \<le> \<lfloor>of_int ?b * (1 + rnd * (2 / 10)) + 1 / 2\<rfloor>" by (intro floor_add_half) simp
  then show ?thesis
    using le by (simp add: retryDelay_def Let_def base)
qed

lemma fail_turn_holder:
  assumes inv: "rs_inv s" and at: "run_at s i = Some r" "r_leaseToken r = Some t" and id: "r_id run = i"
  shows "fst (fail_turn s run t err rnd now) =
    fst (retire s r (turnFailureMessage err) (case err of NonRetryableTurnError _ \<Rightarrow> False | OtherError _ \<Rightarrow> True)
      None True (Some (retryDelay (r_errorAttempts run) rnd)) now)"
  using fail_holder [OF inv at] id by (simp add: fail_turn_def split: turn_error.split)

text \<open>
  What a leased turn leaves behind: let the worker process a run it claimed under token \<open>t\<close>,
  outside the swarm budget, and let \<open>s1\<close> be the store when the turn ends. If the worker still
  holds the lease there, a result settles the run as done with exactly that result, a
  non-retryable error parks it as failed, and any other error parks it exactly when \<open>errorParks\<close>
  says so and otherwise leaves it pending. If the lease was taken over, the worker changes
  nothing and reports an error.
\<close>

theorem processRun_outcome:
  assumes run: "r_leaseToken run = Some t" "\<not> (swarm (r_request run) \<and> r_attempts run > 3)"
    and turn: "handleTurn (errorParks run (rs_maxClaims s)) s = (s1, out)"
    and inv: "rs_inv s1" and at: "run_at s1 (r_id run) = Some r"
  shows "case processRun swarm handleTurn s run rnd now of (s2, res) \<Rightarrow>
    (r_leaseToken r \<noteq> Some t \<longrightarrow> s2 = s1 \<and> isl res) \<and>
    (r_leaseToken r = Some t \<longrightarrow>
       (\<exists>r'. run_at s2 (r_id run) = Some r' \<and>
         (case out of
            Inr v \<Rightarrow> r_status r' = RDone \<and> r_result r' = Some v \<and> res = Inr v
          | Inl (NonRetryableTurnError m) \<Rightarrow> r_status r' = RFailed \<and> res = Inl (NonRetryableTurnError m)
          | Inl (OtherError m) \<Rightarrow> res = Inl (OtherError m) \<and>
              r_status r' = (if errorParks r (rs_maxClaims s1) then RFailed else RPending))))"
proof (cases "r_leaseToken r = Some t")
  case stale: False
  have f: "fail_turn s1 run t err rnd now = (s1, Inl err)" for err
    using stale at by (simp add: fail_turn_def fail_def)
  have c: "complete s1 (r_id run) t v now = (s1, False)" for v
    using stale at by (simp add: complete_def)
  show ?thesis
    using stale run turn f c by (auto simp: processRun_def split: sum.split)
next
  case held: True
  have ok: "r_status r = RRunning" "r_id r = r_id run" using holder_running [OF inv at held] by simp_all
  show ?thesis
  proof (cases out)
    case (Inr v)
    have "snd (complete s1 (r_id run) t v now)" using held at by (simp add: complete_def Let_def)
    then obtain s2 where s2: "complete s1 (r_id run) t v now = (s2, True)"
      by (cases "complete s1 (r_id run) t v now") auto
    then have "\<exists>r'. run_at s2 (r_id run) = Some r' \<and> r_status r' = RDone \<and> r_result r' = Some v"
      using held at ok by (auto simp: complete_def Let_def settle_def put_run_def isTerminal_def split: if_splits)
    then show ?thesis using run turn held Inr s2 by (auto simp: processRun_def)
  next
    case (Inl err)
    let ?retry = "case err of NonRetryableTurnError _ \<Rightarrow> False | OtherError _ \<Rightarrow> True"
    let ?ram = "Some (retryDelay (r_errorAttempts run) rnd)"
    let ?s2 = "fst (retire s1 r (turnFailureMessage err) ?retry None True ?ram now)"
    have "processRun swarm handleTurn s run rnd now = fail_turn s1 run t err rnd now"
      using run turn Inl by (auto simp: processRun_def)
    then have p: "processRun swarm handleTurn s run rnd now = (?s2, Inl err)"
      using fail_turn_holder [OF inv at held refl, of err rnd now]
      by (simp add: prod_eq_iff) (simp add: fail_turn_def)
    have "\<exists>r'. run_at ?s2 (r_id run) = Some r' \<and>
        r_status r' = (if ?retry \<and> \<not> errorParks r (rs_maxClaims s1) then RPending else RFailed)"
    proof (cases rule: retire_cases [of s1 r "turnFailureMessage err" ?retry None True ?ram now])
      case none
      then show ?thesis using ok by (simp add: retire_def Let_def split: if_splits)
    next
      case requeue
      then show ?thesis using ok by (simp add: errorParks_iff)
    next
      case (park reason)
      then show ?thesis using ok by (auto simp: errorParks_iff)
    qed
    then show ?thesis using p held Inl by (auto split: turn_error.splits if_splits)
  qed
qed

lemma beat_fields:
  "bs_leaseLost (beat b x) = (bs_leaseLost b \<or> x = Gone \<and> 3 \<le> Suc (bs_consecutiveLost b))"
  "bs_consecutiveLost (beat b x) = (if x = Gone then Suc (bs_consecutiveLost b) else 0)"
  by (auto simp: beat_def LEASE_LOST_CONSECUTIVE_def Let_def split: beat_reply.split)

text \<open>
  The turn is cancelled only on three heartbeats in a row that found the lease gone: after
  any sequence of replies, the lease counts as lost exactly when three consecutive replies said
  so, transient errors in between starting the count again.
\<close>

theorem beat_lost_iff:
  "bs_leaseLost (fold (\<lambda>x b. beat b x) replies \<lparr>bs_consecutiveLost = 0, bs_leaseLost = False\<rparr>) \<longleftrightarrow>
     (\<exists>xs ys. replies = xs @ [Gone, Gone, Gone] @ ys)"
proof (induction replies rule: rev_induct)
  case (snoc x xs)
  have cnt: "bs_consecutiveLost (fold (\<lambda>x b. beat b x) ws \<lparr>bs_consecutiveLost = 0, bs_leaseLost = False\<rparr>)
      = length (takeWhile (\<lambda>y. y = Gone) (rev ws))" for ws
    by (induction ws rule: rev_induct) (auto simp: beat_fields)
  have tw: "3 \<le> Suc (length (takeWhile (\<lambda>y. y = Gone) (rev xs))) \<longleftrightarrow> (\<exists>us. xs = us @ [Gone, Gone])"
    by (cases xs rule: rev_cases; simp; rename_tac zs z; case_tac zs rule: rev_cases) (auto)
  have "(\<exists>us ys. xs @ [x] = us @ [Gone, Gone, Gone] @ ys) \<longleftrightarrow>
      (\<exists>us ys. xs = us @ [Gone, Gone, Gone] @ ys) \<or> x = Gone \<and> (\<exists>us. xs = us @ [Gone, Gone])"
  proof
    assume "\<exists>us ys. xs @ [x] = us @ [Gone, Gone, Gone] @ ys"
    then obtain us ys where "xs @ [x] = us @ [Gone, Gone, Gone] @ ys" by blast
    then show "(\<exists>us ys. xs = us @ [Gone, Gone, Gone] @ ys) \<or> x = Gone \<and> (\<exists>us. xs = us @ [Gone, Gone])"
      by (cases ys rule: rev_cases) auto
  next
    assume "(\<exists>us ys. xs = us @ [Gone, Gone, Gone] @ ys) \<or> x = Gone \<and> (\<exists>us. xs = us @ [Gone, Gone])"
    then consider us ys where "xs = us @ [Gone, Gone, Gone] @ ys" | us where "x = Gone" "xs = us @ [Gone, Gone]" by blast
    then show "\<exists>us ys. xs @ [x] = us @ [Gone, Gone, Gone] @ ys"
    proof cases
      case (1 us ys)
      then have "xs @ [x] = us @ [Gone, Gone, Gone] @ (ys @ [x])" by simp
      then show ?thesis by blast
    next
      case (2 us)
      then have "xs @ [x] = us @ [Gone, Gone, Gone] @ []" by simp
      then show ?thesis by blast
    qed
  qed
  then show ?case
    using snoc tw by (simp add: beat_fields cnt)
qed simp

section \<open>The theorems applied\<close>

theorem retryDelay_bounds_witness: "15000 * 2 ^ min 1 2 \<le> retryDelay 1 (1 / 4) \<and> retryDelay 1 (1 / 4) \<le> 60000"
  by (rule retryDelay_bounds) simp_all

definition ex_worker_queue :: "unit run_store" where
  "ex_worker_queue = fst (claim (fst (enqueue (createMemoryRunStore None)
     \<lparr>ei_sessionId = ''s'', ei_request = (), ei_dedupKey = None, ei_maxAttempts = None\<rparr> ''r'' 1)) ''w'' 100 ''t'' 2)"

definition ex_worker_run :: "unit run" where
  "ex_worker_run = the (run_at ex_worker_queue ''r'')"

lemma ex_worker_inv: "rs_inv ex_worker_queue"
  unfolding ex_worker_queue_def by (intro rs_inv_claim rs_inv_enqueue inv_intros) (simp_all add: createMemoryRunStore_def)

theorem processRun_outcome_witness:
  "\<exists>r'. run_at (fst (processRun (\<lambda>_. False) (\<lambda>_ s. (s, Inr (failed_result ''s'' ''x''))) ex_worker_queue ex_worker_run 0 9))
     ''r'' = Some r' \<and> r_status r' = RDone"
proof -
  have r: "r_id ex_worker_run = ''r''" "r_leaseToken ex_worker_run = Some ''t''" "run_at ex_worker_queue ''r'' = Some ex_worker_run"
    by code_simp+
  from processRun_outcome [OF r(2), where swarm = "\<lambda>_. False" and s = ex_worker_queue and ?s1.0 = ex_worker_queue
      and handleTurn = "\<lambda>_ s. (s, Inr (failed_result ''s'' ''x''))" and out = "Inr (failed_result ''s'' ''x'')" and r = ex_worker_run
      and rnd = 0 and now = 9] ex_worker_inv r
  show ?thesis by (auto simp: case_prod_unfold)
qed

end
