(* ===== verification/Scopes.thy ===== *)
theory Scopes
  imports Prelude
begin

text \<open>
  Principals, scopes and resource references (\<open>src/types.ts\<close>, \<open>src/directory/person.ts\<close>,
  \<open>src/acl/resource-ref.ts\<close>), and what of a session an audience may see
  (\<open>src/resolution/context-filter.ts\<close>, \<open>src/resolution/sharing-posture.ts\<close>). Scope and resource
  ids are the strings the code builds; the parsers are modelled on those strings.
\<close>

section \<open>Principals and scopes\<close>

datatype principal_type = Internal | Guest

record principal =
  p_id :: string
  p_type :: principal_type
  p_teamIds :: "string list option"
  p_displayName :: "string option"

datatype scope_kind = Personal | Channel | Team | Org | Group

type_synonym scope_id = string

fun kind_name :: "scope_kind \<Rightarrow> string" where
  "kind_name Personal = ''personal''"
| "kind_name Channel = ''channel''"
| "kind_name Team = ''team''"
| "kind_name Org = ''org''"
| "kind_name Group = ''group''"

definition SCOPE_KINDS :: "scope_kind list" where
  "SCOPE_KINDS = [Personal, Channel, Team, Org, Group]"

definition scope_kind_of :: "string \<Rightarrow> scope_kind option" where
  "scope_kind_of s = List.find (\<lambda>k. kind_name k = s) SCOPE_KINDS"

definition scopeId :: "scope_kind \<Rightarrow> string \<Rightarrow> scope_id" where
  "scopeId kind ref = kind_name kind @ '':'' @ ref"

definition personalScope :: "string \<Rightarrow> scope_id" where
  "personalScope principalId = scopeId Personal principalId"

definition parseScopeId :: "scope_id \<Rightarrow> scope_kind option \<times> string" where
  "parseScopeId i =
     (case index_of (CHR '':'') i of
        None \<Rightarrow> (None, [])
      | Some sep \<Rightarrow> (scope_kind_of (take sep i), drop (sep + 1) i))"

definition isManageableCreationScope :: "scope_id option \<Rightarrow> bool" where
  "isManageableCreationScope i =
     (truthy i \<and> fst (parseScopeId (the i)) \<in> {Some Channel, Some Team})"

definition isSharedScope :: "scope_id option \<Rightarrow> bool" where
  "isSharedScope i = (truthy i \<and> fst (parseScopeId (the i)) \<in> {Some Channel, Some Group})"

lemma kind_name_no_colon [simp]: "CHR '':'' \<notin> set (kind_name k)"
  by (cases k) simp_all

lemma scope_kind_of_name [simp]: "scope_kind_of (kind_name k) = Some k"
  by (cases k) (simp_all add: scope_kind_of_def SCOPE_KINDS_def)

lemma scope_kind_of_Some: "scope_kind_of s = Some k \<longleftrightarrow> s = kind_name k"
proof
  assume "scope_kind_of s = Some k"
  then show "s = kind_name k" by (auto simp: scope_kind_of_def dest: find_Some_in)
qed simp

lemma parse_scopeId [simp]: "parseScopeId (scopeId k r) = (Some k, r)"
  unfolding parseScopeId_def scopeId_def
  using index_of_append [of "CHR '':''" "kind_name k" r] by simp

lemma index_of_Some_split: "index_of c s = Some n \<Longrightarrow> s = take n s @ c # drop (Suc n) s"
proof (induction s arbitrary: n)
  case (Cons x xs)
  then show ?case by (auto split: if_splits)
qed simp

lemma parseScopeId_Some:
  assumes "parseScopeId i = (Some k, r)"
  shows "i = scopeId k r"
proof (cases "index_of (CHR '':'') i")
  case (Some n)
  then have "kind_name k = take n i" "r = drop (Suc n) i"
    using assms by (auto simp: parseScopeId_def scope_kind_of_Some)
  with index_of_Some_split [OF Some] show ?thesis by (simp add: scopeId_def)
qed (use assms in \<open>simp add: parseScopeId_def\<close>)

lemma scopeId_inj [simp]: "scopeId k r = scopeId k' r' \<longleftrightarrow> k = k' \<and> r = r'"
proof
  assume "scopeId k r = scopeId k' r'"
  then have "parseScopeId (scopeId k r) = parseScopeId (scopeId k' r')" by simp
  then show "k = k' \<and> r = r'" by simp
qed simp

text \<open>
  Scope ids are unambiguous: parsing the id built from a kind and any reference, colons
  included, gives both back, and an id that parses to a known kind is the one built from the
  parts, so two different kinds or references never share an id.
\<close>

theorem scope_id_roundtrip:
  "parseScopeId (scopeId k r) = (Some k, r) \<and>
   (parseScopeId i = (Some k, r) \<longleftrightarrow> i = scopeId k r) \<and>
   (scopeId k r = scopeId k' r' \<longleftrightarrow> k = k' \<and> r = r')"
  by (auto dest: parseScopeId_Some)

section \<open>People\<close>

definition personKey :: "string option \<Rightarrow> string" where
  "personKey i =
     (let s = trim (or_else i []) in if CHR ''@'' \<in> set s then toLowerCase s else s)"

definition samePerson :: "string option \<Rightarrow> string option \<Rightarrow> bool" where
  "samePerson a b = (personKey a \<noteq> [] \<and> personKey a = personKey b)"

record roster_person =
  rp_principalId :: "string option"
  rp_slackId :: "string option"

definition personKeys :: "roster_person option \<Rightarrow> string \<Rightarrow> string list" where
  "personKeys member rawId =
     js_set_of (filter (\<lambda>k. k \<noteq> [])
       (map personKey [Some rawId, Option.bind member rp_principalId, Option.bind member rp_slackId]))"

text \<open>\<open>get\<close> is the directory lookup; a rejected lookup counts as an unknown person.\<close>

definition samePersonInDirectory :: "(string \<Rightarrow> roster_person option) \<Rightarrow> string \<Rightarrow> string \<Rightarrow> bool" where
  "samePersonInDirectory get a b =
     (if samePerson (Some a) (Some b) then True
      else if personKey (Some a) = [] \<or> personKey (Some b) = [] then False
      else list_ex (\<lambda>k. k \<in> set (personKeys (get b) b)) (personKeys (get a) a))"

definition samePersonMatcher :: "(string \<Rightarrow> roster_person option) \<Rightarrow> string \<Rightarrow> string \<Rightarrow> bool" where
  "samePersonMatcher get actorId i =
     (let row = get actorId; keys = personKeys row actorId
      in if personKey (Some i) \<in> set keys then True
         else if row \<noteq> None then False
         else samePersonInDirectory get i actorId)"

lemma samePerson_sym: "samePerson a b = samePerson b a"
  by (auto simp: samePerson_def)

lemma samePerson_trans: "samePerson a b \<Longrightarrow> samePerson b c \<Longrightarrow> samePerson a c"
  by (auto simp: samePerson_def)

lemma set_personKeys: "set (personKeys m i) =
    {k. k \<noteq> [] \<and> (k = personKey (Some i) \<or> k = personKey (Option.bind m rp_principalId) \<or>
       k = personKey (Option.bind m rp_slackId))}"
  by (auto simp: personKeys_def)

lemma samePersonInDirectory_iff:
  "samePersonInDirectory get a b \<longleftrightarrow> samePerson (Some a) (Some b) \<or>
     personKey (Some a) \<noteq> [] \<and> personKey (Some b) \<noteq> [] \<and>
     set (personKeys (get a) a) \<inter> set (personKeys (get b) b) \<noteq> {}"
  by (auto simp: samePersonInDirectory_def list_ex_iff)

lemma samePersonInDirectory_sym: "samePersonInDirectory get a b = samePersonInDirectory get b a"
  by (auto simp: samePersonInDirectory_iff samePerson_sym)

section \<open>Resource references\<close>

datatype resource_kind = RFile | RSkill | RDeploy | RCron | RServiceCred

definition RESOURCE_KINDS :: "resource_kind list" where
  "RESOURCE_KINDS = [RFile, RSkill, RDeploy, RCron, RServiceCred]"

record resource_ref =
  rr_kind :: resource_kind
  rr_id :: string

fun refPrefix :: "resource_kind \<Rightarrow> string" where
  "refPrefix RFile = []"
| "refPrefix RSkill = ''skill:''"
| "refPrefix RDeploy = ''deployment:''"
| "refPrefix RCron = ''cron:''"
| "refPrefix RServiceCred = ''service-cred:''"

definition encodeRef :: "resource_ref \<Rightarrow> string" where
  "encodeRef r = (if rr_kind r = RFile then rr_id r else refPrefix (rr_kind r) @ rr_id r)"

fun parse_kinds :: "resource_kind list \<Rightarrow> string \<Rightarrow> resource_ref" where
  "parse_kinds [] s = \<lparr>rr_kind = RFile, rr_id = s\<rparr>"
| "parse_kinds (k # ks) s =
     (if k = RFile then parse_kinds ks s
      else if startsWith s (refPrefix k) then \<lparr>rr_kind = k, rr_id = drop (length (refPrefix k)) s\<rparr>
      else parse_kinds ks s)"

definition parseRef :: "string \<Rightarrow> resource_ref" where
  "parseRef s = parse_kinds RESOURCE_KINDS s"

lemmas parse_unfold = parseRef_def RESOURCE_KINDS_def startsWith_def

text \<open>
  Resource references round-trip: every reference of a prefixed kind parses back to itself;
  a file reference does exactly when its path starts with none of the prefixes; and encoding a
  parsed reference always gives the original string.
\<close>

theorem resource_ref_roundtrip:
  "(parseRef (encodeRef r) = r \<longleftrightarrow>
      rr_kind r = RFile \<longrightarrow> (\<forall>k \<in> {RSkill, RDeploy, RCron, RServiceCred}. \<not> startsWith (rr_id r) (refPrefix k))) \<and>
   encodeRef (parseRef s) = s"
proof
  show "parseRef (encodeRef r) = r \<longleftrightarrow>
      (rr_kind r = RFile \<longrightarrow> (\<forall>k \<in> {RSkill, RDeploy, RCron, RServiceCred}. \<not> startsWith (rr_id r) (refPrefix k)))"
    by (cases r; cases "rr_kind r") (auto simp: parse_unfold encodeRef_def)
  show "encodeRef (parseRef s) = s"
    by (auto simp: parseRef_def RESOURCE_KINDS_def encodeRef_def startsWith_iff)
qed

section \<open>What an audience may see\<close>

definition principalEntitledToScope :: "principal \<Rightarrow> scope_id \<Rightarrow> scope_id \<Rightarrow> scope_id \<Rightarrow> bool" where
  "principalEntitledToScope p label sessionScopeId orgScopeId =
     (if label = orgScopeId then True
      else if label = sessionScopeId then True
      else (case parseScopeId label of (kind, ref) \<Rightarrow>
        if kind = Some Personal then p_id p = ref
        else if kind = Some Team then ref \<in> set (or_else (p_teamIds p) [])
        else False))"

text \<open>An entry of a session: its payload and entry type are type parameters.\<close>

record ('t, 'p) history_entry =
  se_sessionId :: string
  se_seq :: int
  se_parentSeq :: "int option"
  se_type :: 't
  se_payload :: 'p
  se_scopeLabel :: scope_id
  se_createdAt :: time

definition filterHistoryForAudience ::
  "('t, 'p) history_entry list \<Rightarrow> principal list \<Rightarrow> scope_id \<Rightarrow> scope_id \<Rightarrow> ('t, 'p) history_entry list" where
  "filterHistoryForAudience entries audience sessionScopeId orgScopeId =
     (if audience = [] then []
      else filter (\<lambda>e. list_all (\<lambda>p. principalEntitledToScope p (se_scopeLabel e) sessionScopeId orgScopeId) audience)
             entries)"

datatype sharing_posture = Isolated | Open

definition parseSharingPosture :: "string \<Rightarrow> sharing_posture option" where
  "parseSharingPosture value =
     (let normalized = toLowerCase (trim value)
      in if normalized = ''isolated'' then Some Isolated
         else if normalized = ''open'' then Some Open else None)"

definition composeSharingPosture :: "sharing_posture \<Rightarrow> sharing_posture option \<Rightarrow> sharing_posture" where
  "composeSharingPosture ceiling narrower =
     (if ceiling = Isolated \<or> narrower = Some Isolated then Isolated else Open)"

definition composeSharingPostures :: "sharing_posture \<Rightarrow> sharing_posture option list \<Rightarrow> sharing_posture" where
  "composeSharingPostures ceiling narrower = foldl composeSharingPosture ceiling narrower"

lemma composeSharingPostures_open:
  "composeSharingPostures c ns = Open \<longleftrightarrow> c = Open \<and> Some Isolated \<notin> set ns"
proof -
  have "foldl composeSharingPosture c ns = Open \<longleftrightarrow> c = Open \<and> Some Isolated \<notin> set ns"
  proof (induction ns arbitrary: c)
    case (Cons n ns)
    then show ?case by (cases c) (auto simp: composeSharingPosture_def)
  qed simp
  then show ?thesis by (simp add: composeSharingPostures_def)
qed

text \<open>
  History does not leak past the audience: an entry is replayed only to a non-empty audience
  every member of which is entitled to its label; so an entry of a personal scope, other than the
  session's own and the organisation's, is shown only when everyone present is that person, an
  entry of another channel or group to nobody, and adding people never reveals more.
\<close>

theorem history_confined:
  "(e \<in> set (filterHistoryForAudience es (a # as) ss org) \<longleftrightarrow>
      e \<in> set es \<and> (\<forall>p\<in>set (a # as). principalEntitledToScope p (se_scopeLabel e) ss org)) \<and>
   (e \<in> set (filterHistoryForAudience es as ss org) \<and> se_scopeLabel e = scopeId Personal x \<and>
      se_scopeLabel e \<notin> {ss, org} \<longrightarrow> (\<forall>p\<in>set as. p_id p = x)) \<and>
   (e \<in> set (filterHistoryForAudience es as ss org) \<and> se_scopeLabel e = scopeId k x \<and>
      k \<in> {Channel, Group, Org} \<longrightarrow> se_scopeLabel e \<in> {ss, org}) \<and>
   set (filterHistoryForAudience es (a # as @ bs) ss org) \<subseteq> set (filterHistoryForAudience es (a # as) ss org) \<and>
   filterHistoryForAudience es [] ss org = []"
proof -
  have personal: "principalEntitledToScope p (scopeId Personal x) ss org \<Longrightarrow> scopeId Personal x \<notin> {ss, org} \<Longrightarrow> p_id p = x" for p
    by (simp add: principalEntitledToScope_def split: if_splits)
  have shared: "principalEntitledToScope p (scopeId k x) ss org \<Longrightarrow> k \<in> {Channel, Group, Org} \<Longrightarrow> scopeId k x \<in> {ss, org}" for p
    by (auto simp: principalEntitledToScope_def split: if_splits)
  have mem: "e \<in> set (filterHistoryForAudience es as ss org) \<Longrightarrow>
      as \<noteq> [] \<and> (\<forall>p\<in>set as. principalEntitledToScope p (se_scopeLabel e) ss org)"
    by (auto simp: filterHistoryForAudience_def list_all_iff split: if_splits)
  show ?thesis
  proof (intro conjI)
    show "e \<in> set (filterHistoryForAudience es as ss org) \<and> se_scopeLabel e = scopeId Personal x \<and>
        se_scopeLabel e \<notin> {ss, org} \<longrightarrow> (\<forall>p\<in>set as. p_id p = x)"
      using mem personal by metis
    show "e \<in> set (filterHistoryForAudience es as ss org) \<and> se_scopeLabel e = scopeId k x \<and>
        k \<in> {Channel, Group, Org} \<longrightarrow> se_scopeLabel e \<in> {ss, org}"
      using mem shared by (metis ex_in_conv set_empty)
  qed (auto simp: filterHistoryForAudience_def list_all_iff)
qed

section \<open>The theorems applied\<close>

theorem resource_ref_roundtrip_witness:
  "parseRef (encodeRef \<lparr>rr_kind = RFile, rr_id = ''notes.md''\<rparr>) = \<lparr>rr_kind = RFile, rr_id = ''notes.md''\<rparr>"
  using resource_ref_roundtrip [of "\<lparr>rr_kind = RFile, rr_id = ''notes.md''\<rparr>"] by (simp add: startsWith_def)

definition ex_principal :: "string \<Rightarrow> principal" where
  "ex_principal i = \<lparr>p_id = i, p_type = Internal, p_teamIds = None, p_displayName = None\<rparr>"

definition ex_entry :: "(unit, unit) history_entry" where
  "ex_entry = \<lparr>se_sessionId = ''s'', se_seq = 1, se_parentSeq = None, se_type = (), se_payload = (),
     se_scopeLabel = ''personal:ann'', se_createdAt = 0\<rparr>"

theorem history_confined_witness:
  "ex_entry \<in> set (filterHistoryForAudience [ex_entry] [ex_principal ''ann''] ''channel:c'' ''org:o'') \<and>
   ex_entry \<notin> set (filterHistoryForAudience [ex_entry] [ex_principal ''ann'', ex_principal ''bob''] ''channel:c'' ''org:o'')"
proof -
  have e: "principalEntitledToScope (ex_principal i) (se_scopeLabel ex_entry) ''channel:c'' ''org:o'' = (i = ''ann'')" for i
    using parse_scopeId [of Personal "''ann''"]
    by (simp add: principalEntitledToScope_def ex_entry_def ex_principal_def scopeId_def)
  show ?thesis
    using history_confined [of ex_entry "[ex_entry]" "ex_principal ''ann''" "[]" "''channel:c''" "''org:o''"]
      history_confined [of ex_entry "[ex_entry]" "ex_principal ''ann''" "[ex_principal ''bob'']" "''channel:c''" "''org:o''"] e
    by simp
qed

end
