(* ===== verification/Membership.thy ===== *)
theory Membership
  imports Scopes
begin

text \<open>
  Who may read, write and manage a scope (\<open>src/resolution/scope-membership.ts\<close>). The directories
  and the identity service are dependencies the functions are handed: they are the fields of
  \<open>membership_deps\<close>. An optional dependency is an \<open>option\<close>; an asynchronous call that rejects
  answers \<open>None\<close>, and the source's \<open>catch\<close> handlers are written out on it.
\<close>

section \<open>Dependencies\<close>

record managed_groups =
  mg_recognizes :: "string \<Rightarrow> bool"
  mg_membership :: "string \<Rightarrow> string \<Rightarrow> bool option option"
  mg_members :: "string \<Rightarrow> string list option option"

record directory_entry =
  de_principalId :: string
  de_displayName :: "string option"

record member_directory =
  md_channelMember :: "string \<Rightarrow> string \<Rightarrow> bool option"
  md_groupMember :: "string \<Rightarrow> string \<Rightarrow> bool option"
  md_channelMembership :: "(string \<Rightarrow> string \<Rightarrow> bool option option) option"
  md_groupMembership :: "(string \<Rightarrow> string \<Rightarrow> bool option option) option"
  md_channelPrivacy :: "(string \<Rightarrow> bool option option) option"
  md_list :: "directory_entry list option option"
  md_get :: "(string \<Rightarrow> roster_person option option) option"

record classification =
  cl_type :: "string option"
  cl_teamIds :: "string list option"

record membership_deps =
  d_managedGroups :: "managed_groups option"
  d_directory :: "member_directory option"
  d_classify :: "(string \<Rightarrow> classification) option"
  d_listByParticipant :: "(string \<Rightarrow> scope_id list option) option"

section \<open>Membership\<close>

definition classified_type :: "membership_deps \<Rightarrow> string \<Rightarrow> string option" where
  "classified_type deps principalId = Option.bind (d_classify deps) (\<lambda>c. cl_type (c principalId))"

definition classified_teams :: "membership_deps \<Rightarrow> string \<Rightarrow> string list" where
  "classified_teams deps principalId =
     or_else (Option.bind (d_classify deps) (\<lambda>c. cl_teamIds (c principalId))) []"

definition activePrincipal :: "membership_deps \<Rightarrow> string \<Rightarrow> bool" where
  "activePrincipal deps principalId =
     (case classified_type deps principalId of None \<Rightarrow> True | Some t \<Rightarrow> t = ''internal'')"

definition direct_member :: "membership_deps \<Rightarrow> scope_kind \<Rightarrow> string \<Rightarrow> string \<Rightarrow> bool" where
  "direct_member deps kind ref i =
     (case d_directory deps of None \<Rightarrow> False
      | Some dir \<Rightarrow> (if kind = Channel then md_channelMember dir else md_groupMember dir) ref i = Some True)"

text \<open>\<open>deps.directory?.channelPrivacy?.(ref).catch(() => undefined)\<close>.\<close>

definition channel_privacy :: "membership_deps \<Rightarrow> string \<Rightarrow> bool option" where
  "channel_privacy deps ref =
     Option.bind (d_directory deps) (\<lambda>dir. Option.bind (md_channelPrivacy dir) (\<lambda>f. or_else (f ref) None))"

definition recognized_group :: "membership_deps \<Rightarrow> scope_kind \<Rightarrow> string \<Rightarrow> managed_groups option" where
  "recognized_group deps kind ref =
     (case d_managedGroups deps of None \<Rightarrow> None
      | Some mg \<Rightarrow> if kind = Group \<and> mg_recognizes mg ref then Some mg else None)"

definition currentSharedScopeMember :: "membership_deps \<Rightarrow> scope_kind \<Rightarrow> string \<Rightarrow> string \<Rightarrow> bool" where
  "currentSharedScopeMember deps kind ref principalId =
     (if \<not> activePrincipal deps principalId then False
      else
        let member = Option.bind (d_directory deps) (\<lambda>dir. Option.bind (md_get dir) (\<lambda>g. or_else (g principalId) None));
            ids = js_set_of (map the (filter truthy
                    [Some principalId, Option.bind member rp_principalId, Option.bind member rp_slackId]))
        in (case recognized_group deps kind ref of
              Some mg \<Rightarrow> list_ex (\<lambda>i. mg_membership mg ref i = Some (Some True)) ids
            | None \<Rightarrow> list_ex (direct_member deps kind ref) ids))"

definition sharedScopeMembership :: "membership_deps \<Rightarrow> scope_kind \<Rightarrow> string \<Rightarrow> string \<Rightarrow> bool option" where
  "sharedScopeMembership deps kind ref principalId =
     (if \<not> activePrincipal deps principalId then Some False
      else (case recognized_group deps kind ref of
        Some mg \<Rightarrow> Some (mg_membership mg ref principalId = Some (Some True))
      | None \<Rightarrow>
          (case Option.bind (d_directory deps)
                  (\<lambda>dir. if kind = Channel then md_channelMembership dir else md_groupMembership dir) of
             Some triState \<Rightarrow> or_else (triState ref principalId) None
           | None \<Rightarrow>
               if direct_member deps kind ref principalId then Some True
               else if kind = Channel \<and> channel_privacy deps ref \<noteq> None then Some False
               else None)))"

definition memberOfSharedScope :: "membership_deps \<Rightarrow> scope_kind \<Rightarrow> string \<Rightarrow> string \<Rightarrow> scope_id \<Rightarrow> bool" where
  "memberOfSharedScope deps kind ref principalId fullScope =
     (case sharedScopeMembership deps kind ref principalId of
        Some current \<Rightarrow> current
      | None \<Rightarrow> (case d_listByParticipant deps of None \<Rightarrow> False
                 | Some l \<Rightarrow> fullScope \<in> set (or_else (l principalId) [])))"

definition isCurrentSharedScopeMember :: "membership_deps \<Rightarrow> string \<Rightarrow> scope_id \<Rightarrow> bool" where
  "isCurrentSharedScopeMember deps principalId scope =
     (principalId \<noteq> [] \<and>
      (case parseScopeId scope of (kind, ref) \<Rightarrow>
         (kind = Some Channel \<or> kind = Some Group) \<and> currentSharedScopeMember deps (the kind) ref principalId))"

text \<open>
  The members of a shared scope. \<open>None\<close> is a rejected call, \<open>Some None\<close> the answer \<open>undefined\<close>:
  here the source catches nothing.
\<close>

definition member_principal :: "membership_deps \<Rightarrow> string \<Rightarrow> string option \<Rightarrow> principal option" where
  "member_principal deps i displayName =
     (let classified = map_option (\<lambda>c. c i) (d_classify deps)
      in if (case Option.bind classified cl_type of None \<Rightarrow> False | Some t \<Rightarrow> t \<noteq> ''internal'') then None
         else Some \<lparr>p_id = i, p_type = Internal, p_teamIds = Option.bind classified cl_teamIds,
                    p_displayName = (if truthy displayName then displayName else None)\<rparr>)"

definition currentScopeMembers :: "membership_deps \<Rightarrow> scope_id \<Rightarrow> principal list option option" where
  "currentScopeMembers deps scope =
     (case parseScopeId scope of (kind, ref) \<Rightarrow>
        if kind \<noteq> Some Channel \<and> kind \<noteq> Some Group then Some None
        else (case recognized_group deps (the kind) ref of
          Some mg \<Rightarrow>
            map_option (\<lambda>ids. Some (List.map_filter (\<lambda>i. member_principal deps i None) (or_else ids [])))
              (mg_members mg ref)
        | None \<Rightarrow>
            (case d_directory deps of None \<Rightarrow> Some None
             | Some dir \<Rightarrow>
                 (case md_list dir of None \<Rightarrow> Some None
                  | Some listed \<Rightarrow>
                      let privacy = (if kind = Some Channel
                                     then (case md_channelPrivacy dir of None \<Rightarrow> Some None | Some f \<Rightarrow> f ref)
                                     else Some (Some True));
                          member = (\<lambda>i. (if kind = Some Channel then md_channelMember dir else md_groupMember dir) ref i)
                      in (case privacy of None \<Rightarrow> None
                          | Some pr \<Rightarrow>
                              if pr \<noteq> Some True then Some None
                              else (case listed of None \<Rightarrow> None
                                | Some candidates \<Rightarrow>
                                    if list_ex (\<lambda>m. member (de_principalId m) = None) candidates then None
                                    else
                                      let present = List.map_filter (\<lambda>m.
                                            if member (de_principalId m) = Some True
                                            then member_principal deps (de_principalId m) (de_displayName m) else None)
                                            candidates
                                      in if kind = Some Group \<and> present = [] then Some None
                                         else Some (Some present)))))))"

section \<open>Reading, writing and managing a scope\<close>

definition canReadScope :: "membership_deps \<Rightarrow> string \<Rightarrow> scope_id \<Rightarrow> bool" where
  "canReadScope deps principalId targetScope =
     (if principalId = [] then False
      else (case parseScopeId targetScope of (kind, ref) \<Rightarrow>
        (case kind of
           None \<Rightarrow> False
         | Some Org \<Rightarrow> classified_type deps principalId = Some ''internal''
         | Some Personal \<Rightarrow> samePerson (Some ref) (Some principalId)
         | Some Team \<Rightarrow> ref \<in> set (classified_teams deps principalId)
         | Some Group \<Rightarrow> memberOfSharedScope deps Group ref principalId targetScope
         | Some Channel \<Rightarrow>
             if memberOfSharedScope deps Channel ref principalId targetScope then True
             else if channel_privacy deps ref = Some False then activePrincipal deps principalId
             else False)))"

definition canWriteScope :: "membership_deps \<Rightarrow> string \<Rightarrow> scope_id \<Rightarrow> bool" where
  "canWriteScope deps principalId targetScope =
     (if principalId = [] \<or> \<not> activePrincipal deps principalId then False
      else (case parseScopeId targetScope of (kind, ref) \<Rightarrow>
        (case kind of
           None \<Rightarrow> False
         | Some Org \<Rightarrow> True
         | Some Personal \<Rightarrow> samePerson (Some ref) (Some principalId)
         | Some Team \<Rightarrow> ref \<in> set (classified_teams deps principalId)
         | Some Channel \<Rightarrow> currentSharedScopeMember deps Channel ref principalId
         | Some Group \<Rightarrow> currentSharedScopeMember deps Group ref principalId)))"

definition membershipControlsScope :: "membership_deps \<Rightarrow> scope_id \<Rightarrow> bool" where
  "membershipControlsScope deps scope =
     (case parseScopeId scope of (kind, ref) \<Rightarrow>
        kind = Some Group \<or> kind = Some Channel \<and> channel_privacy deps ref = Some True)"

definition canManageScope :: "membership_deps \<Rightarrow> string \<Rightarrow> scope_id \<Rightarrow> bool" where
  "canManageScope deps principalId scope =
     (if principalId = [] \<or> \<not> activePrincipal deps principalId then False
      else (case parseScopeId scope of (kind, ref) \<Rightarrow>
        (case kind of
           Some Personal \<Rightarrow> samePerson (Some ref) (Some principalId)
         | Some Group \<Rightarrow> currentSharedScopeMember deps Group ref principalId
         | Some Channel \<Rightarrow>
             if channel_privacy deps ref \<noteq> Some True then False
             else currentSharedScopeMember deps Channel ref principalId
         | _ \<Rightarrow> False)))"

definition managesArtifactHome :: "membership_deps \<Rightarrow> scope_id \<Rightarrow> string \<Rightarrow> string \<Rightarrow> bool" where
  "managesArtifactHome deps homeScopeId createdBy principalId =
     (if principalId = [] \<or> \<not> activePrincipal deps principalId then False
      else if canManageScope deps principalId homeScopeId then True
      else (case parseScopeId homeScopeId of (kind, ref) \<Rightarrow>
        if \<not> samePerson (Some createdBy) (Some principalId) then False
        else if kind = Some Personal then True
        else if kind = Some Channel then channel_privacy deps ref = Some False
        else False))"

section \<open>Properties\<close>

lemma inactive_not_member:
  "\<not> activePrincipal deps p \<Longrightarrow> \<not> currentSharedScopeMember deps k r p"
  "\<not> activePrincipal deps p \<Longrightarrow> \<not> memberOfSharedScope deps k r p full"
  by (simp_all add: currentSharedScopeMember_def memberOfSharedScope_def sharedScopeMembership_def)

lemma inactive_type: "\<not> activePrincipal deps p \<Longrightarrow> classified_type deps p \<noteq> Some ''internal''"
  by (auto simp: activePrincipal_def)

text \<open>
  Guests are confined: a principal that the identity service classifies as anything but
  internal writes and manages nothing and is a current member of no shared scope, and can read
  only a personal scope that is their own or a team scope they are in, never the organisation, a
  channel or a group.
\<close>

theorem guests_confined:
  assumes "classified_type deps p = Some t" "t \<noteq> ''internal''"
  shows "\<not> canWriteScope deps p s \<and> \<not> canManageScope deps p s \<and> \<not> isCurrentSharedScopeMember deps p s \<and>
    \<not> managesArtifactHome deps s c p \<and>
    (canReadScope deps p s \<longrightarrow>
       (\<exists>r. s = scopeId Personal r \<and> samePerson (Some r) (Some p) \<or>
            s = scopeId Team r \<and> r \<in> set (classified_teams deps p)))"
proof -
  have ina: "\<not> activePrincipal deps p" using assms by (simp add: activePrincipal_def)
  obtain k r where kr: "parseScopeId s = (k, r)" by force
  have "s = scopeId Personal r \<and> samePerson (Some r) (Some p) \<or> s = scopeId Team r \<and> r \<in> set (classified_teams deps p)"
    if rd: "canReadScope deps p s"
  proof (cases k)
    case None
    with rd kr show ?thesis by (simp add: canReadScope_def split: if_splits)
  next
    case (Some kind)
    have s: "s = scopeId kind r" using kr Some by (auto dest: parseScopeId_Some)
    show ?thesis
      using rd kr Some s ina inactive_type [OF ina]
      by (cases kind) (simp_all add: canReadScope_def inactive_not_member split: if_splits)
  qed
  moreover have "\<not> isCurrentSharedScopeMember deps p s"
    using kr ina by (auto simp: isCurrentSharedScopeMember_def inactive_not_member)
  ultimately show ?thesis
    using ina by (auto simp: canWriteScope_def canManageScope_def managesArtifactHome_def)
qed

text \<open>
  Managing is the strongest right: whoever may manage a scope may also write it, a scope with
  a manager is a personal one, a group or a private channel, and a shared scope someone manages
  is one that membership controls.
\<close>

theorem manage_implies_write:
  assumes "canManageScope deps p s"
  shows "canWriteScope deps p s \<and>
    ((\<exists>r. s = scopeId Personal r \<and> samePerson (Some r) (Some p)) \<or>
     membershipControlsScope deps s \<and> isCurrentSharedScopeMember deps p s)"
proof -
  obtain k r where kr: "parseScopeId s = (k, r)" by force
  have p: "p \<noteq> []" "activePrincipal deps p" using assms by (auto simp: canManageScope_def split: if_splits)
  have cases: "k = Some Personal \<and> samePerson (Some r) (Some p) \<or> k = Some Group \<and> currentSharedScopeMember deps Group r p \<or>
      k = Some Channel \<and> channel_privacy deps r = Some True \<and> currentSharedScopeMember deps Channel r p"
    using assms kr p by (auto simp: canManageScope_def split: option.splits scope_kind.splits if_splits)
  then show ?thesis
    using kr p by (elim disjE conjE)
      (auto simp: canWriteScope_def membershipControlsScope_def isCurrentSharedScopeMember_def dest: parseScopeId_Some)
qed

section \<open>The theorems applied\<close>

definition ex_deps :: membership_deps where
  "ex_deps = \<lparr>d_managedGroups = Some \<lparr>mg_recognizes = (\<lambda>_. True),
       mg_membership = (\<lambda>_ i. Some (Some (i = ''ann''))), mg_members = (\<lambda>_. Some (Some [''ann'']))\<rparr>,
     d_directory = None,
     d_classify = Some (\<lambda>i. \<lparr>cl_type = Some (if i = ''ann'' then ''internal'' else ''guest''), cl_teamIds = Some [''red'']\<rparr>),
     d_listByParticipant = None\<rparr>"

theorem guests_confined_witness:
  "\<not> canWriteScope ex_deps ''gus'' ''org:o'' \<and> \<not> canManageScope ex_deps ''gus'' ''org:o''"
proof -
  have "classified_type ex_deps ''gus'' = Some ''guest''" by (simp add: ex_deps_def classified_type_def)
  from guests_confined [OF this] show ?thesis by blast
qed

theorem manage_implies_write_witness:
  "canManageScope ex_deps ''ann'' ''group:g'' \<and> canWriteScope ex_deps ''ann'' ''group:g''"
proof -
  have "canManageScope ex_deps ''ann'' ''group:g''" by code_simp
  then show ?thesis using manage_implies_write by blast
qed

end
