(* ===== verification/Acl.thy ===== *)
theory Acl
  imports Scopes "HOL-Library.Multiset"
begin

text \<open>
  Sharing (\<open>src/acl/acl-store.ts\<close>): grants of a resource from an owner scope to a grantee scope,
  which only a manager of the owner scope may change. The store works on a \<open>GrantPersistence\<close>
  it is handed; that interface is the record \<open>grant_persistence\<close>, its contract the locale
  \<open>grant_store\<close>, and the memory implementation of the source interprets it. A thrown error is
  \<open>Inl\<close> with its message, and leaves the state as it was.
\<close>

section \<open>Grants and their persistence\<close>

datatype permission = PRead | PWrite

fun permission_name :: "permission \<Rightarrow> string" where
  "permission_name PRead = ''read''"
| "permission_name PWrite = ''write''"

record grant =
  g_ownerScopeId :: scope_id
  g_ref :: string
  g_granteeScopeId :: scope_id
  g_permission :: permission
  g_grantedBy :: string

record granted_handle =
  h_carried :: bool
  h_handlePath :: string
  h_ownerScopeId :: scope_id
  h_ownerPath :: string
  h_permission :: permission

record 's grant_persistence =
  gp_all :: "'s \<Rightarrow> grant list"
  gp_put :: "grant \<Rightarrow> 's \<Rightarrow> 's"
  gp_remove :: "grant \<Rightarrow> 's \<Rightarrow> 's"
  gp_replace :: "scope_id \<Rightarrow> string \<Rightarrow> grant list \<Rightarrow> grant list \<Rightarrow> 's \<Rightarrow> 's \<times> bool"

definition sameGrant :: "grant \<Rightarrow> grant \<Rightarrow> bool" where
  "sameGrant a b =
     (g_ownerScopeId a = g_ownerScopeId b \<and> g_ref a = g_ref b \<and>
      g_granteeScopeId a = g_granteeScopeId b \<and> g_permission a = g_permission b)"

definition sameGrantTuple :: "grant \<Rightarrow> grant \<Rightarrow> bool" where
  "sameGrantTuple a b = (sameGrant a b \<and> g_grantedBy a = g_grantedBy b)"

definition sameGrantSet :: "grant list \<Rightarrow> grant list \<Rightarrow> bool" where
  "sameGrantSet a b =
     (length a = length b \<and> list_all (\<lambda>g. list_ex (\<lambda>c. sameGrantTuple g c) b) a)"

abbreviation of_resource :: "scope_id \<Rightarrow> string \<Rightarrow> grant \<Rightarrow> bool" where
  "of_resource own rf g \<equiv> g_ownerScopeId g = own \<and> g_ref g = rf"

section \<open>The memory persistence\<close>

definition grant_key :: "grant \<Rightarrow> string" where
  "grant_key g = g_ownerScopeId g @ ''\<newline>'' @ g_ref g @ ''\<newline>'' @ g_granteeScopeId g @ ''\<newline>'' @
     permission_name (g_permission g)"

definition mem_all :: "grant list \<Rightarrow> grant list" where
  "mem_all grants =
     js_sort (\<lambda>a b. if grant_key a < grant_key b then -1 else if grant_key a > grant_key b then 1 else 0) grants"

definition mem_put :: "grant \<Rightarrow> grant list \<Rightarrow> grant list" where
  "mem_put g grants = (if list_ex (\<lambda>x. sameGrant x g) grants then grants else grants @ [g])"

text \<open>The backwards loops splice out every match.\<close>

definition mem_remove :: "grant \<Rightarrow> grant list \<Rightarrow> grant list" where
  "mem_remove g grants = filter (\<lambda>x. \<not> sameGrant x g) grants"

definition mem_replace :: "scope_id \<Rightarrow> string \<Rightarrow> grant list \<Rightarrow> grant list \<Rightarrow> grant list \<Rightarrow> grant list \<times> bool" where
  "mem_replace ownerScopeId ref expected replacement grants =
     (let current = filter (of_resource ownerScopeId ref) grants
      in if \<not> sameGrantSet current expected then (grants, False)
         else (filter (\<lambda>g. \<not> of_resource ownerScopeId ref g) grants @ replacement, True))"

definition createMemoryGrantPersistence :: "grant list grant_persistence" where
  "createMemoryGrantPersistence =
     \<lparr>gp_all = mem_all, gp_put = mem_put, gp_remove = mem_remove, gp_replace = mem_replace\<rparr>"

section \<open>The ACL store\<close>

definition isFileGrant :: "grant \<Rightarrow> bool" where
  "isFileGrant g = (rr_kind (parseRef (g_ref g)) = RFile)"

definition basename :: "string \<Rightarrow> string" where
  "basename p = (let l = last (split_on (CHR ''/'') p) in if l \<noteq> [] then l else p)"

definition toHandle :: "grant \<Rightarrow> granted_handle" where
  "toHandle g =
     \<lparr>h_carried = False, h_handlePath = ''shared/'' @ basename (g_ref g), h_ownerScopeId = g_ownerScopeId g,
      h_ownerPath = g_ref g, h_permission = g_permission g\<rparr>"

definition ownerOf :: "scope_id \<Rightarrow> string option" where
  "ownerOf scope = (case parseScopeId scope of (kind, ref) \<Rightarrow> if kind = Some Personal then Some ref else None)"

definition isMembershipManaged :: "scope_id \<Rightarrow> bool" where
  "isMembershipManaged scope = (fst (parseScopeId scope) \<in> {Some Channel, Some Group})"

type_synonym scope_management = "(string \<Rightarrow> scope_id \<Rightarrow> string option \<Rightarrow> bool) option"
type_synonym scope_entitlement = "principal \<Rightarrow> scope_id \<Rightarrow> scope_id \<Rightarrow> scope_id \<Rightarrow> bool"

definition canManage :: "scope_management \<Rightarrow> scope_id \<Rightarrow> string \<Rightarrow> string option \<Rightarrow> bool" where
  "canManage manages scope principalId authoredBy =
     (case ownerOf scope of
        Some owner \<Rightarrow> samePerson (Some principalId) (Some owner)
      | None \<Rightarrow>
          (case manages of
             Some f \<Rightarrow> if isMembershipManaged scope then f principalId scope authoredBy else True
           | None \<Rightarrow> True))"

definition acl_grant :: "'s grant_persistence \<Rightarrow> scope_management \<Rightarrow> grant \<Rightarrow> string option \<Rightarrow> 's \<Rightarrow> string + 's" where
  "acl_grant persist manages g authoredBy s =
     (if \<not> canManage manages (g_ownerScopeId g) (g_grantedBy g) authoredBy
      then Inl ''only a manager of this scope may grant access (no transitive re-share)''
      else Inr (gp_put persist g s))"

definition acl_revoke ::
  "'s grant_persistence \<Rightarrow> scope_management \<Rightarrow> scope_id \<Rightarrow> string \<Rightarrow> scope_id \<Rightarrow> string \<Rightarrow> string option \<Rightarrow> 's \<Rightarrow> string + 's" where
  "acl_revoke persist manages ownerScopeId ref granteeScopeId revokedBy authoredBy s =
     (if \<not> canManage manages ownerScopeId revokedBy authoredBy
      then Inl ''only a manager of this scope may revoke access''
      else
        let matches = filter (\<lambda>g. of_resource ownerScopeId ref g \<and> g_granteeScopeId g = granteeScopeId) (gp_all persist s)
        in Inr (fold (gp_remove persist) matches s))"

definition replaceGrantsIfCurrent ::
  "'s grant_persistence \<Rightarrow> scope_management \<Rightarrow> scope_id \<Rightarrow> string \<Rightarrow> grant list \<Rightarrow> grant list \<Rightarrow> string \<Rightarrow> string option
     \<Rightarrow> 's \<Rightarrow> string + 's \<times> bool" where
  "replaceGrantsIfCurrent persist manages ownerScopeId ref expected replacement changedBy authoredBy s =
     (if \<not> canManage manages ownerScopeId changedBy authoredBy
      then Inl ''only a manager of this scope may replace access grants''
      else if list_ex (\<lambda>g. \<not> of_resource ownerScopeId ref g) expected \<or>
              list_ex (\<lambda>g. \<not> of_resource ownerScopeId ref g) replacement
      then Inl ''replacement grants must belong to the selected resource''
      else Inr (gp_replace persist ownerScopeId ref expected replacement s))"

definition handlesFor :: "'s grant_persistence \<Rightarrow> scope_id list \<Rightarrow> 's \<Rightarrow> granted_handle list" where
  "handlesFor persist scopeIds s =
     map toHandle (filter (\<lambda>g. isFileGrant g \<and> g_granteeScopeId g \<in> set scopeIds) (gp_all persist s))"

definition reaches :: "scope_entitlement \<Rightarrow> scope_id \<Rightarrow> scope_id \<Rightarrow> principal \<Rightarrow> grant \<Rightarrow> bool" where
  "reaches entitled sessionScopeId orgScopeId p g =
     (entitled p (g_granteeScopeId g) sessionScopeId orgScopeId \<or> entitled p (g_ownerScopeId g) sessionScopeId orgScopeId)"

definition handlesForAudience ::
  "'s grant_persistence \<Rightarrow> principal list \<Rightarrow> scope_id \<Rightarrow> scope_id \<Rightarrow> scope_entitlement \<Rightarrow> 's \<Rightarrow> granted_handle list" where
  "handlesForAudience persist audience sessionScopeId orgScopeId entitled s =
     (if audience = [] then []
      else map toHandle (filter (\<lambda>g. isFileGrant g \<and>
               list_ex (\<lambda>p. entitled p (g_granteeScopeId g) sessionScopeId orgScopeId) audience \<and>
               list_all (\<lambda>p. reaches entitled sessionScopeId orgScopeId p g) audience) (gp_all persist s)))"

definition grantsFor :: "'s grant_persistence \<Rightarrow> scope_id \<Rightarrow> string \<Rightarrow> 's \<Rightarrow> grant list" where
  "grantsFor persist ownerScopeId ref s = filter (of_resource ownerScopeId ref) (gp_all persist s)"

definition grantsOfKind ::
  "'s grant_persistence \<Rightarrow> resource_kind \<Rightarrow> principal list \<Rightarrow> scope_id \<Rightarrow> scope_id \<Rightarrow> scope_entitlement \<Rightarrow> 's \<Rightarrow> grant list" where
  "grantsOfKind persist kind audience sessionScopeId orgScopeId entitled s =
     (if audience = [] then []
      else filter (\<lambda>g. startsWith (g_ref g) (refPrefix kind) \<and> g_ownerScopeId g = orgScopeId \<and>
             list_all (\<lambda>p. entitled p (g_granteeScopeId g) sessionScopeId orgScopeId) audience) (gp_all persist s))"

definition sharedOfKindForAudience ::
  "'s grant_persistence \<Rightarrow> resource_kind \<Rightarrow> principal list \<Rightarrow> scope_id \<Rightarrow> scope_id \<Rightarrow> scope_entitlement \<Rightarrow> 's \<Rightarrow> grant list" where
  "sharedOfKindForAudience persist kind audience sessionScopeId orgScopeId entitled s =
     (if audience = [] then []
      else filter (\<lambda>g. startsWith (g_ref g) (refPrefix kind) \<and>
             list_ex (\<lambda>p. entitled p (g_granteeScopeId g) sessionScopeId orgScopeId) audience \<and>
             list_all (\<lambda>p. reaches entitled sessionScopeId orgScopeId p g) audience) (gp_all persist s))"

section \<open>The contract of a grant persistence\<close>

text \<open>
  What the ACL store relies on: \<open>all\<close> shows a collection of grants, \<open>put\<close> adds a grant unless
  an equal one is there, \<open>remove\<close> takes out every equal one, and \<open>replaceForResourceIfCurrent\<close> is
  a compare-and-swap of the grants of one resource.
\<close>

locale grant_store =
  fixes persist :: "'s grant_persistence"
  assumes put_all: "set (gp_all persist (gp_put persist g s)) =
      (if \<exists>x\<in>set (gp_all persist s). sameGrant x g then set (gp_all persist s) else insert g (set (gp_all persist s)))"
    and remove_all: "set (gp_all persist (gp_remove persist g s)) = {x \<in> set (gp_all persist s). \<not> sameGrant x g}"
    and replace_stale: "\<not> sameGrantSet (filter (of_resource ow rf) (gp_all persist s)) old \<Longrightarrow>
      gp_replace persist ow rf old new s = (s, False)"
    and replace_current: "sameGrantSet (filter (of_resource ow rf) (gp_all persist s)) old \<Longrightarrow>
      snd (gp_replace persist ow rf old new s) \<and>
      set (gp_all persist (fst (gp_replace persist ow rf old new s))) =
        {x \<in> set (gp_all persist s). \<not> of_resource ow rf x} \<union> set new"
begin

lemma removes_all:
  "set (gp_all persist (fold (gp_remove persist) gs s)) = {x \<in> set (gp_all persist s). \<forall>g\<in>set gs. \<not> sameGrant x g}"
  by (induction gs arbitrary: s) (auto simp: remove_all)

lemma grant_visible:
  assumes "acl_grant persist m g ab s = Inr s'"
  shows "\<exists>x\<in>set (grantsFor persist (g_ownerScopeId g) (g_ref g) s'). sameGrant x g"
    and "set (gp_all persist s) \<subseteq> set (gp_all persist s')"
    and "x \<in> set (gp_all persist s') \<Longrightarrow> x = g \<or> x \<in> set (gp_all persist s)"
  using assms by (auto simp: acl_grant_def grantsFor_def put_all sameGrant_def split: if_splits)

lemma revoke_removes:
  assumes "acl_revoke persist m ow rf gr by ab s = Inr s'"
  shows "set (gp_all persist s') =
    {x \<in> set (gp_all persist s). \<not> (of_resource ow rf x \<and> g_granteeScopeId x = gr)}"
proof -
  have "s' = fold (gp_remove persist)
      (filter (\<lambda>g. of_resource ow rf g \<and> g_granteeScopeId g = gr) (gp_all persist s)) s"
    using assms by (simp add: acl_revoke_def Let_def split: if_splits)
  then show ?thesis by (simp only: removes_all) (auto simp: sameGrant_def)
qed

lemma replace_swaps:
  assumes "replaceGrantsIfCurrent persist m ow rf old new by ab s = Inr (s', True)"
  shows "set (grantsFor persist ow rf s') = set new"
    and "{x \<in> set (gp_all persist s'). \<not> of_resource ow rf x} = {x \<in> set (gp_all persist s). \<not> of_resource ow rf x}"
    and "sameGrantSet (grantsFor persist ow rf s) old"
proof -
  have new: "\<forall>g\<in>set new. of_resource ow rf g" and r: "gp_replace persist ow rf old new s = (s', True)"
    using assms by (auto simp: replaceGrantsIfCurrent_def list_ex_iff split: if_splits)
  have cur: "sameGrantSet (filter (of_resource ow rf) (gp_all persist s)) old"
    using replace_stale [of ow rf s old new] r by auto
  then show "sameGrantSet (grantsFor persist ow rf s) old" by (simp add: grantsFor_def)
  have eq: "set (gp_all persist s') = {x \<in> set (gp_all persist s). \<not> of_resource ow rf x} \<union> set new"
    using replace_current [OF cur, of new] r by simp
  then show "set (grantsFor persist ow rf s') = set new" using new by (auto simp: grantsFor_def)
  show "{x \<in> set (gp_all persist s'). \<not> of_resource ow rf x} = {x \<in> set (gp_all persist s). \<not> of_resource ow rf x}"
    using new eq by auto
qed

lemma replace_refused:
  assumes "replaceGrantsIfCurrent persist m ow rf old new by ab s = Inr (s', False)"
  shows "s' = s \<and> \<not> sameGrantSet (grantsFor persist ow rf s) old"
proof -
  have r: "gp_replace persist ow rf old new s = (s', False)"
    using assms by (auto simp: replaceGrantsIfCurrent_def split: if_splits)
  with replace_current [of ow rf s old new] have "\<not> sameGrantSet (filter (of_resource ow rf) (gp_all persist s)) old"
    by auto
  with replace_stale [OF this] r show ?thesis by (simp add: grantsFor_def)
qed

end

text \<open>The memory persistence keeps the contract.\<close>

lemma set_mem_all [simp]: "set (mem_all gs) = set gs"
  by (simp add: mem_all_def)

lemma mset_js_sort: "mset (js_sort cmp xs) = mset xs"
proof -
  have ins: "mset (js_insort cmp x ys) = add_mset x (mset ys)" for x ys
    by (induction ys) auto
  show ?thesis unfolding js_sort_def by (induction xs) (simp_all add: ins)
qed

lemma sameGrantSet_perm:
  assumes "mset a = mset a'"
  shows "sameGrantSet a b = sameGrantSet a' b"
  using mset_eq_setD [OF assms] mset_eq_length [OF assms] by (simp add: sameGrantSet_def list_all_iff)

lemma sameGrantSet_mem_all:
  "sameGrantSet (filter P (mem_all gs)) b = sameGrantSet (filter P gs) b"
  by (rule sameGrantSet_perm) (simp add: mem_all_def mset_js_sort)

interpretation mem: grant_store createMemoryGrantPersistence
  by unfold_locales
    (auto simp: createMemoryGrantPersistence_def mem_put_def mem_remove_def mem_replace_def list_ex_iff
      sameGrantSet_mem_all Let_def)

section \<open>Properties\<close>

text \<open>
  Only managers change grants: granting, revoking and replacing succeed only for someone who
  can manage the owner scope, which for a personal scope is the owner themself and for a channel
  or group the one its membership rule admits, whoever authored the resource; everybody else gets
  an error and no store.
\<close>

theorem only_managers_change_grants:
  assumes "acl_grant p m g ab s = Inr s1 \<and> sc = g_ownerScopeId g \<and> u = g_grantedBy g \<or>
           acl_revoke p m sc rf gr u ab s = Inr s2 \<or>
           replaceGrantsIfCurrent p m sc rf old new u ab s = Inr s3"
  shows "canManage m sc u ab \<and> (\<forall>r. sc = scopeId Personal r \<longrightarrow> samePerson (Some u) (Some r)) \<and>
    (\<forall>f k r. m = Some f \<and> sc = scopeId k r \<and> k \<in> {Channel, Group} \<longrightarrow> f u sc ab)"
proof -
  have can: "canManage m sc u ab"
    using assms by (auto simp: acl_grant_def acl_revoke_def replaceGrantsIfCurrent_def split: if_splits)
  moreover have "samePerson (Some u) (Some r)" if "sc = scopeId Personal r" for r
    using can that by (simp add: canManage_def ownerOf_def)
  moreover have "f u sc ab" if "m = Some f" "sc = scopeId k r" "k \<in> {Channel, Group}" for f k r
    using can that by (auto simp: canManage_def ownerOf_def isMembershipManaged_def)
  ultimately show ?thesis by blast
qed

text \<open>
  Grant and revoke on the memory store: a granted resource is listed for its owner
  afterwards and nothing else is added or lost; after a revoke exactly the grants of that resource
  to that grantee are gone, under every permission.
\<close>

theorem grant_then_revoke:
  assumes "acl_grant createMemoryGrantPersistence m g ab s = Inr s1"
    and "acl_revoke createMemoryGrantPersistence m (g_ownerScopeId g) (g_ref g) (g_granteeScopeId g) u ab s1 = Inr s2"
  shows "(\<exists>x\<in>set (grantsFor createMemoryGrantPersistence (g_ownerScopeId g) (g_ref g) s1). sameGrant x g) \<and>
    set s1 \<subseteq> insert g (set s) \<and> set s \<subseteq> set s1 \<and>
    set s2 = {x \<in> set s. \<not> (of_resource (g_ownerScopeId g) (g_ref g) x \<and> g_granteeScopeId x = g_granteeScopeId g)}"
proof -
  have all: "gp_all createMemoryGrantPersistence = mem_all" by (simp add: createMemoryGrantPersistence_def)
  have s1: "set s \<subseteq> set s1" "set s1 \<subseteq> insert g (set s)"
    using mem.grant_visible(2,3) [OF assms(1)] by (auto simp: all)
  moreover have "set s2 = {x \<in> set s1. \<not> (of_resource (g_ownerScopeId g) (g_ref g) x \<and> g_granteeScopeId x = g_granteeScopeId g)}"
    using mem.revoke_removes [OF assms(2)] by (simp add: all)
  ultimately show ?thesis using mem.grant_visible(1) [OF assms(1)] by auto
qed

text \<open>
  Replacing the grants of a resource is a compare-and-swap: it takes effect only if the
  caller's expectation matches the current grants, then the resource has exactly the replacement
  grants and every other resource keeps its own; otherwise the store is unchanged.
\<close>

theorem replace_grants_cas:
  assumes "replaceGrantsIfCurrent createMemoryGrantPersistence m ow rf old new u ab s = Inr (s', ok)"
  shows "(ok \<longleftrightarrow> sameGrantSet (filter (of_resource ow rf) s) old) \<and> (\<not> ok \<longrightarrow> s' = s) \<and>
    (ok \<longrightarrow> set (filter (of_resource ow rf) s') = set new \<and>
       {x \<in> set s'. \<not> of_resource ow rf x} = {x \<in> set s. \<not> of_resource ow rf x})"
proof -
  have all: "gp_all createMemoryGrantPersistence = mem_all" by (simp add: createMemoryGrantPersistence_def)
  have gf: "sameGrantSet (grantsFor createMemoryGrantPersistence ow rf s) old = sameGrantSet (filter (of_resource ow rf) s) old"
    by (simp add: grantsFor_def all sameGrantSet_mem_all)
  show ?thesis
  proof (cases ok)
    case True
    with assms have "replaceGrantsIfCurrent createMemoryGrantPersistence m ow rf old new u ab s = Inr (s', True)" by simp
    from mem.replace_swaps [OF this] show ?thesis using True gf by (simp add: grantsFor_def all)
  next
    case False
    with assms have "replaceGrantsIfCurrent createMemoryGrantPersistence m ow rf old new u ab s = Inr (s', False)" by simp
    from mem.replace_refused [OF this] show ?thesis using False gf by simp
  qed
qed

text \<open>
  A shared file reaches an audience only when everybody present may see it: every handle
  offered comes from a file grant that someone present receives and that every person present
  reaches through the grantee or the owner scope; with the entitlement the orchestrator uses, a
  grant between two personal scopes is therefore offered only when the owner and the grantee are
  the only people present; an empty audience gets nothing.
\<close>

theorem shared_files_confined:
  assumes "h \<in> set (handlesForAudience p as ss org principalEntitledToScope s)"
  shows "as \<noteq> [] \<and> (\<exists>g\<in>set (gp_all p s). h = toHandle g \<and> isFileGrant g \<and>
      (\<exists>a\<in>set as. principalEntitledToScope a (g_granteeScopeId g) ss org) \<and>
      (\<forall>a\<in>set as. principalEntitledToScope a (g_granteeScopeId g) ss org \<or>
                  principalEntitledToScope a (g_ownerScopeId g) ss org) \<and>
      (\<forall>x y. g_ownerScopeId g = scopeId Personal x \<and> g_granteeScopeId g = scopeId Personal y \<and>
         {scopeId Personal x, scopeId Personal y} \<inter> {ss, org} = {} \<longrightarrow> p_id ` set as \<subseteq> {x, y}))"
proof -
  obtain g where g: "g \<in> set (gp_all p s)" "h = toHandle g" "isFileGrant g"
    and some: "\<exists>a\<in>set as. principalEntitledToScope a (g_granteeScopeId g) ss org"
    and every: "\<forall>a\<in>set as. principalEntitledToScope a (g_granteeScopeId g) ss org \<or> principalEntitledToScope a (g_ownerScopeId g) ss org"
    using assms by (auto simp: handlesForAudience_def reaches_def list_ex_iff list_all_iff split: if_splits)
  have own: "p_id a = x" if "principalEntitledToScope a (scopeId Personal x) ss org" "scopeId Personal x \<notin> {ss, org}" for a x
    using that by (simp add: principalEntitledToScope_def split: if_splits)
  have "p_id ` set as \<subseteq> {x, y}" if "g_ownerScopeId g = scopeId Personal x" "g_granteeScopeId g = scopeId Personal y"
    "{scopeId Personal x, scopeId Personal y} \<inter> {ss, org} = {}" for x y
  proof -
    have "p_id a \<in> {x, y}" if "a \<in> set as" for a
      using every that own [of a]
        \<open>g_ownerScopeId g = scopeId Personal x\<close> \<open>g_granteeScopeId g = scopeId Personal y\<close>
        \<open>{scopeId Personal x, scopeId Personal y} \<inter> {ss, org} = {}\<close> by auto
    then show ?thesis by blast
  qed
  then have "\<forall>x y. g_ownerScopeId g = scopeId Personal x \<and> g_granteeScopeId g = scopeId Personal y \<and>
      {scopeId Personal x, scopeId Personal y} \<inter> {ss, org} = {} \<longrightarrow> p_id ` set as \<subseteq> {x, y}"
    by (intro allI impI) (elim conjE, assumption)
  moreover have "as \<noteq> []" using some by auto
  ultimately show ?thesis
    by (intro conjI bexI [OF _ g(1)] g(2,3) some every) assumption+
qed

section \<open>The theorems applied\<close>

definition ex_grant :: grant where
  "ex_grant = \<lparr>g_ownerScopeId = ''personal:ann'', g_ref = ''docs/plan.md'', g_granteeScopeId = ''personal:bob'',
     g_permission = PRead, g_grantedBy = ''ann''\<rparr>"

lemma ex_grant_ops:
  "acl_grant createMemoryGrantPersistence None ex_grant None [] = Inr [ex_grant]"
  "acl_revoke createMemoryGrantPersistence None (g_ownerScopeId ex_grant) (g_ref ex_grant) (g_granteeScopeId ex_grant)
     ''ann'' None [ex_grant] = Inr []"
  "replaceGrantsIfCurrent createMemoryGrantPersistence None ''personal:ann'' ''docs/plan.md'' [ex_grant] [] ''ann'' None [ex_grant]
     = Inr ([], True)"
  by code_simp+

theorem only_managers_change_grants_witness:
  "acl_grant createMemoryGrantPersistence None ex_grant None [] = Inr [ex_grant] \<and> samePerson (Some ''ann'') (Some ''ann'')"
proof -
  have "samePerson (Some (g_grantedBy ex_grant)) (Some ''ann'')"
    using only_managers_change_grants [of createMemoryGrantPersistence None ex_grant None "[]" "[ex_grant]"
      "g_ownerScopeId ex_grant" "g_grantedBy ex_grant"] ex_grant_ops(1)
    by (auto simp: ex_grant_def scopeId_def)
  then show ?thesis using ex_grant_ops(1) by (simp add: ex_grant_def)
qed

theorem grant_then_revoke_witness:
  "\<exists>x\<in>set (grantsFor createMemoryGrantPersistence (g_ownerScopeId ex_grant) (g_ref ex_grant) [ex_grant]). sameGrant x ex_grant"
  using grant_then_revoke [OF ex_grant_ops(1,2)] by blast

theorem replace_grants_cas_witness:
  "set (filter (of_resource ''personal:ann'' ''docs/plan.md'') ([] :: grant list)) = {} \<and>
   sameGrantSet (filter (of_resource ''personal:ann'' ''docs/plan.md'') [ex_grant]) [ex_grant]"
  using replace_grants_cas [OF ex_grant_ops(3)] by (metis filter.simps(1) empty_set)

theorem shared_files_confined_witness:
  "toHandle ex_grant \<in> set (handlesForAudience createMemoryGrantPersistence [ex_principal ''bob''] ''dm'' ''org:o''
     principalEntitledToScope [ex_grant]) \<and> [ex_principal ''bob''] \<noteq> []"
proof -
  have h: "toHandle ex_grant \<in> set (handlesForAudience createMemoryGrantPersistence [ex_principal ''bob''] ''dm'' ''org:o''
     principalEntitledToScope [ex_grant])" by code_simp
  from shared_files_confined [OF this] h show ?thesis by blast
qed

end
