(* ===== verification/Egress.thy ===== *)
theory Egress
  imports Scopes Json
begin

text \<open>
  Which hosts a conversation may reach (\<open>src/resolution/egress-policy.ts\<close>,
  \<open>src/resolution/audience-floor.ts\<close>, \<open>egressClaimAllowingControlPlane\<close> of
  \<open>src/core/orchestrator/turn-helpers.ts\<close>) and with whom a publication is shared by default
  (\<open>src/resolution/publish-audience.ts\<close>). The platform's URL parser is the argument
  \<open>hostname\<close>: \<open>Some h\<close> when \<open>new URL(s).hostname\<close> is \<open>h\<close>, \<open>None\<close> when it throws. The scoped
  configuration is the argument \<open>getEgress\<close>.
\<close>

section \<open>Policies and host names\<close>

record egress_policy =
  ep_allowedHosts :: "string list"
  ep_denyPrivateNetworks :: bool
  ep_privateNetworkAllowedHosts :: "string list option"
  ep_deniedHosts :: "string list option"

abbreviation plain_policy :: "string list \<Rightarrow> string list option \<Rightarrow> egress_policy" where
  "plain_policy a d \<equiv> \<lparr>ep_allowedHosts = a, ep_denyPrivateNetworks = False, ep_privateNetworkAllowedHosts = None,
     ep_deniedHosts = d\<rparr>"

definition strip_wildcard :: "string \<Rightarrow> string" where
  "strip_wildcard s = (if startsWith s ''*.'' then drop 2 s else s)"

definition strip_dot :: "string \<Rightarrow> string" where
  "strip_dot s = (if endsWith s ''.'' then butlast s else s)"

text \<open>\<open>/^\[(.*)\]$/\<close>: the dot matches everything but line ends.\<close>

definition strip_brackets :: "string \<Rightarrow> string" where
  "strip_brackets s =
     (if startsWith s ''['' \<and> endsWith s '']'' \<and> length s \<ge> 2 \<and>
         CHR 10 \<notin> set (butlast (tl s)) \<and> CHR 13 \<notin> set (butlast (tl s))
      then butlast (tl s) else s)"

definition normalizeHost :: "(string \<Rightarrow> string option) \<Rightarrow> string \<Rightarrow> string" where
  "normalizeHost hostname host =
     (let s = strip_brackets (strip_dot (strip_wildcard (toLowerCase (trim host))))
      in if s = [] then []
         else
           let isIPv6 = length (filter (\<lambda>c. c = CHR '':'') s) \<ge> 2
           in (case hostname (''https://'' @ (if isIPv6 then ''['' @ s @ '']'' else s)) of
                 Some h \<Rightarrow> strip_dot (strip_brackets h)
               | None \<Rightarrow> s))"

section \<open>Parsing a policy\<close>

definition is_alnum :: "char \<Rightarrow> bool" where
  "is_alnum c =
     (let n = (of_char c :: nat)
      in 48 \<le> n \<and> n \<le> 57 \<or> 65 \<le> n \<and> n \<le> 90 \<or> 97 \<le> n \<and> n \<le> 122)"

text \<open>The dot-separated labels the host-name pattern accepts.\<close>

definition valid_label :: "string \<Rightarrow> bool" where
  "valid_label l =
     (l \<noteq> [] \<and> length l \<le> 63 \<and> is_alnum (hd l) \<and> is_alnum (last l) \<and>
      list_all (\<lambda>c. is_alnum c \<or> c = CHR ''-'') l)"

definition valid_host :: "string \<Rightarrow> bool" where
  "valid_host s = list_all valid_label (split_on (CHR ''.'') s)"

text \<open>One element of a host list: an error, nothing (a blank), or the normalised host.\<close>

definition parse_host :: "(string \<Rightarrow> string option) \<Rightarrow> string \<Rightarrow> json \<Rightarrow> string + string option" where
  "parse_host hostname name item =
     (case item of
        JStr str \<Rightarrow>
          (let candidate = trim str
           in if candidate = [] then Inr None
              else if list_ex (\<lambda>c. is_space c \<or> c \<in> set ''*/?#@'') candidate
              then Inl (candidate @ '' is not a host name; omit schemes, wildcards, ports, paths, and credentials'')
              else
                let colonCount = length (filter (\<lambda>c. c = CHR '':'') candidate)
                in if colonCount = 1 then Inl (candidate @ '' includes a port; enter a host name only'')
                   else
                     let normalized = normalizeHost hostname candidate
                     in if normalized = [] \<or> colonCount < 2 \<and> \<not> valid_host normalized
                        then Inl (candidate @ '' is not a valid host name'')
                        else Inr (Some normalized))
      | _ \<Rightarrow> Inl (name @ '' must contain only host names''))"

fun parse_hosts :: "(string \<Rightarrow> string option) \<Rightarrow> string \<Rightarrow> json list \<Rightarrow> string list \<Rightarrow> string + string list" where
  "parse_hosts hostname name [] hosts = Inr hosts"
| "parse_hosts hostname name (item # items) hosts =
     (case parse_host hostname name item of
        Inl err \<Rightarrow> Inl err
      | Inr None \<Rightarrow> parse_hosts hostname name items hosts
      | Inr (Some h) \<Rightarrow>
          if h \<in> set hosts then Inl (name @ '' contains duplicate host '' @ h)
          else parse_hosts hostname name items (hosts @ [h]))"

definition parse_list :: "(string \<Rightarrow> string option) \<Rightarrow> string \<Rightarrow> json \<Rightarrow> string + string list" where
  "parse_list hostname name raw =
     (case raw of JArr items \<Rightarrow> parse_hosts hostname name items []
      | _ \<Rightarrow> Inl (name @ '' must be an array of host names''))"

definition json_field :: "(string \<times> json) list \<Rightarrow> string \<Rightarrow> json" where
  "json_field obj name = (case map_of obj name of None \<Rightarrow> JArr [] | Some JNull \<Rightarrow> JArr [] | Some v \<Rightarrow> v)"

definition parseEgressPolicy :: "(string \<Rightarrow> string option) \<Rightarrow> json \<Rightarrow> string + egress_policy" where
  "parseEgressPolicy hostname input =
     (case input of
        JObj obj \<Rightarrow>
          (case parse_list hostname ''allowedHosts'' (json_field obj ''allowedHosts'') of
             Inl err \<Rightarrow> Inl err
           | Inr allowedHosts \<Rightarrow>
               (case parse_list hostname ''deniedHosts'' (json_field obj ''deniedHosts'') of
                  Inl err \<Rightarrow> Inl err
                | Inr deniedHosts \<Rightarrow>
                    (case List.find (\<lambda>h. h \<in> set deniedHosts) allowedHosts of
                       Some overlap \<Rightarrow> Inl (overlap @ '' cannot appear in both allowedHosts and deniedHosts'')
                     | None \<Rightarrow> Inr (plain_policy allowedHosts (Some deniedHosts)))))
      | _ \<Rightarrow> Inl ''egress requires { allowedHosts, deniedHosts }'')"

section \<open>Decisions\<close>

definition hostMatches :: "(string \<Rightarrow> string option) \<Rightarrow> string \<Rightarrow> string \<Rightarrow> bool" where
  "hostMatches hostname requestHost ruleHost =
     (let h = normalizeHost hostname requestHost; r = normalizeHost hostname ruleHost
      in if h = [] \<or> r = [] then False else h = r \<or> endsWith h (''.'' @ r))"

definition isHostDenied :: "(string \<Rightarrow> string option) \<Rightarrow> string \<Rightarrow> string list option \<Rightarrow> bool" where
  "isHostDenied hostname host deniedHosts =
     (case deniedHosts of None \<Rightarrow> False | Some ds \<Rightarrow> list_ex (\<lambda>d. d \<noteq> [] \<and> hostMatches hostname host d) ds)"

datatype egress_verdict = VOk | VDenied | VNotAllowlisted

record egress_decision =
  ed_allow :: bool
  ed_verdict :: egress_verdict

definition egressDecision :: "(string \<Rightarrow> string option) \<Rightarrow> string \<Rightarrow> egress_policy option \<Rightarrow> egress_decision" where
  "egressDecision hostname host policy =
     (case policy of
        None \<Rightarrow> \<lparr>ed_allow = True, ed_verdict = VOk\<rparr>
      | Some pol \<Rightarrow>
          if isHostDenied hostname host (ep_deniedHosts pol) then \<lparr>ed_allow = False, ed_verdict = VDenied\<rparr>
          else if ep_allowedHosts pol \<noteq> [] \<and> \<not> list_ex (\<lambda>r. hostMatches hostname host r) (ep_allowedHosts pol)
          then \<lparr>ed_allow = False, ed_verdict = VNotAllowlisted\<rparr>
          else \<lparr>ed_allow = True, ed_verdict = VOk\<rparr>)"

section \<open>The floor of an audience\<close>

definition principalScopes :: "principal \<Rightarrow> scope_id \<Rightarrow> scope_id option \<Rightarrow> scope_id list" where
  "principalScopes p orgScope contextScope =
     js_set_of (filter (\<lambda>s. s \<noteq> [])
       ([orgScope, or_else contextScope [], scopeId Personal (p_id p)] @
        map (scopeId Team) (or_else (p_teamIds p) [])))"

definition principalEgressHosts ::
  "principal \<Rightarrow> (scope_id \<Rightarrow> egress_policy option) \<Rightarrow> scope_id \<Rightarrow> scope_id option \<Rightarrow> string list" where
  "principalEgressHosts p getEgress orgScope contextScope =
     js_set_of (concat (map (\<lambda>s. case getEgress s of None \<Rightarrow> [] | Some pol \<Rightarrow> ep_allowedHosts pol)
       (principalScopes p orgScope contextScope)))"

definition principalDeniedHosts ::
  "principal \<Rightarrow> (scope_id \<Rightarrow> egress_policy option) \<Rightarrow> scope_id \<Rightarrow> scope_id option \<Rightarrow> string list" where
  "principalDeniedHosts p getEgress orgScope contextScope =
     js_set_of (concat (map (\<lambda>s. case getEgress s of None \<Rightarrow> [] | Some pol \<Rightarrow> or_else (ep_deniedHosts pol) [])
       (principalScopes p orgScope contextScope)))"

definition audienceEgressFloor ::
  "principal list \<Rightarrow> (scope_id \<Rightarrow> egress_policy option) \<Rightarrow> scope_id \<Rightarrow> scope_id option \<Rightarrow> string list" where
  "audienceEgressFloor audience getEgress orgScope contextScope =
     (case map (\<lambda>p. principalEgressHosts p getEgress orgScope contextScope) audience of
        [] \<Rightarrow> []
      | first # rest \<Rightarrow> filter (\<lambda>h. list_all (\<lambda>s. h \<in> set s) rest) first)"

definition audienceDeniedFloor ::
  "principal list \<Rightarrow> (scope_id \<Rightarrow> egress_policy option) \<Rightarrow> scope_id \<Rightarrow> scope_id option \<Rightarrow> string list" where
  "audienceDeniedFloor audience getEgress orgScope contextScope =
     js_set_of (concat (map (\<lambda>p. principalDeniedHosts p getEgress orgScope contextScope) audience))"

text \<open>The policy \<open>resolve\<close> of \<open>src/resolution/resolution-service.ts\<close> puts together.\<close>

definition resolved_egress ::
  "principal list \<Rightarrow> (scope_id \<Rightarrow> egress_policy option) \<Rightarrow> scope_id \<Rightarrow> scope_id \<Rightarrow> egress_policy" where
  "resolved_egress audience getEgress orgScope scope =
     plain_policy (audienceEgressFloor audience getEgress orgScope (Some scope))
       (Some (audienceDeniedFloor audience getEgress orgScope (Some scope)))"

definition egressClaimAllowingControlPlane ::
  "(string \<Rightarrow> string option) \<Rightarrow> egress_policy \<Rightarrow> string \<Rightarrow> bool \<Rightarrow> egress_policy option" where
  "egressClaimAllowingControlPlane hostname egress apiBaseUrl denyPrivateNetworks =
     (let allowedHosts = ep_allowedHosts egress; deniedHosts = or_else (ep_deniedHosts egress) []
      in if allowedHosts = [] \<and> deniedHosts = [] \<and> \<not> denyPrivateNetworks then None
         else
           let coreHost = (if apiBaseUrl \<noteq> [] then or_else (hostname apiBaseUrl) [] else []);
               safeDenied = (if coreHost \<noteq> [] then filter (\<lambda>d. \<not> hostMatches hostname coreHost d) deniedHosts else deniedHosts);
               allowedWithCore = (if coreHost \<noteq> [] \<and> allowedHosts \<noteq> [] \<and> coreHost \<notin> set allowedHosts
                                  then allowedHosts @ [coreHost] else allowedHosts);
               claim = \<lparr>ep_allowedHosts = allowedWithCore, ep_denyPrivateNetworks = denyPrivateNetworks,
                        ep_privateNetworkAllowedHosts = (if denyPrivateNetworks \<and> coreHost \<noteq> [] then Some [coreHost] else None),
                        ep_deniedHosts = (if safeDenied \<noteq> [] then Some safeDenied else None)\<rparr>
           in if allowedWithCore \<noteq> [] \<or> safeDenied \<noteq> [] \<or> denyPrivateNetworks then Some claim else None)"

section \<open>Default audience of a publication\<close>

datatype conversation_kind = CDm | CChannel | CGroup

datatype publish_audience_kind = AOrg | AMembers | AOwner

record publish_audience =
  pu_kind :: publish_audience_kind
  pu_grantees :: "scope_id list"
  pu_memberCount :: "nat option"
  pu_incomplete :: bool

record publish_args =
  pg_kind :: conversation_kind
  pg_isPrivate :: "bool option"
  pg_isMpim :: "bool option"
  pg_members :: "principal list option"
  pg_orgScopeId :: scope_id
  pg_ownerId :: string

fun publish_members :: "string \<Rightarrow> principal list \<Rightarrow> string list \<Rightarrow> scope_id list" where
  "publish_members ownerId [] seen = []"
| "publish_members ownerId (m # ms) seen =
     (if p_type m \<noteq> Internal then publish_members ownerId ms seen
      else if p_id m = ownerId then publish_members ownerId ms seen
      else if p_id m \<in> set seen then publish_members ownerId ms seen
      else scopeId Personal (p_id m) # publish_members ownerId ms (seen @ [p_id m]))"

text \<open>The human-readable \<open>reason\<close> is left out.\<close>

definition defaultPublishAudience :: "publish_args \<Rightarrow> publish_audience" where
  "defaultPublishAudience a =
     (if pg_kind a = CDm then \<lparr>pu_kind = AOwner, pu_grantees = [], pu_memberCount = None, pu_incomplete = False\<rparr>
      else if pg_kind a = CGroup \<or> pg_isMpim a = Some True
      then \<lparr>pu_kind = AOwner, pu_grantees = [], pu_memberCount = None, pu_incomplete = False\<rparr>
      else if pg_isPrivate a = Some False
      then \<lparr>pu_kind = AOrg, pu_grantees = [pg_orgScopeId a], pu_memberCount = None, pu_incomplete = False\<rparr>
      else if pg_isPrivate a = None
      then \<lparr>pu_kind = AOwner, pu_grantees = [], pu_memberCount = None, pu_incomplete = True\<rparr>
      else (case pg_members a of
        None \<Rightarrow> \<lparr>pu_kind = AOwner, pu_grantees = [], pu_memberCount = None, pu_incomplete = True\<rparr>
      | Some members \<Rightarrow>
          let grantees = publish_members (pg_ownerId a) members []
          in if grantees = [] then \<lparr>pu_kind = AOwner, pu_grantees = [], pu_memberCount = None, pu_incomplete = False\<rparr>
             else \<lparr>pu_kind = AMembers, pu_grantees = grantees, pu_memberCount = Some (length grantees), pu_incomplete = False\<rparr>))"

section \<open>Properties\<close>

lemma set_audienceDeniedFloor:
  "set (audienceDeniedFloor as ge org ctx) = (\<Union>p\<in>set as. set (principalDeniedHosts p ge org ctx))"
  by (simp add: audienceDeniedFloor_def)

lemma set_audienceEgressFloor:
  "as \<noteq> [] \<Longrightarrow> set (audienceEgressFloor as ge org ctx) = (\<Inter>p\<in>set as. set (principalEgressHosts p ge org ctx))"
  by (cases as) (auto simp: audienceEgressFloor_def list_all_iff)

lemma denied_decision:
  "isHostDenied hn h (ep_deniedHosts p) \<Longrightarrow> egressDecision hn h (Some p) = \<lparr>ed_allow = False, ed_verdict = VDenied\<rparr>"
  by (simp add: egressDecision_def)

lemma allowed_decision:
  "ed_allow (egressDecision hn h (Some p)) \<longleftrightarrow> \<not> isHostDenied hn h (ep_deniedHosts p) \<and>
     (ep_allowedHosts p = [] \<or> (\<exists>r\<in>set (ep_allowedHosts p). hostMatches hn h r))"
  by (simp add: egressDecision_def list_ex_iff)

text \<open>
  C35. The room's egress policy respects everybody in it: with the policy resolved for an audience,
  a host denied by any scope of any member is denied to the room; and when the members have an
  allowed host in common, a host is let through only if it matches a rule that every member has.
\<close>

theorem egress_respects_room:
  assumes "p \<in> set as"
  shows "(d \<in> set (principalDeniedHosts p ge org (Some sc)) \<and> d \<noteq> [] \<and> hostMatches hn h d \<longrightarrow>
      egressDecision hn h (Some (resolved_egress as ge org sc)) = \<lparr>ed_allow = False, ed_verdict = VDenied\<rparr>) \<and>
    (ed_allow (egressDecision hn h (Some (resolved_egress as ge org sc))) \<and>
       (\<Inter>q\<in>set as. set (principalEgressHosts q ge org (Some sc))) \<noteq> {} \<longrightarrow>
       (\<exists>r. hostMatches hn h r \<and> (\<forall>q\<in>set as. r \<in> set (principalEgressHosts q ge org (Some sc)))))"
proof -
  have ne: "as \<noteq> []" using assms by auto
  have "isHostDenied hn h (ep_deniedHosts (resolved_egress as ge org sc))"
    if "d \<in> set (principalDeniedHosts p ge org (Some sc))" "d \<noteq> []" "hostMatches hn h d"
    using assms that by (auto simp: isHostDenied_def resolved_egress_def set_audienceDeniedFloor list_ex_iff)
  moreover have "ep_allowedHosts (resolved_egress as ge org sc) = audienceEgressFloor as ge org (Some sc)"
    by (simp add: resolved_egress_def)
  ultimately show ?thesis
    using set_audienceEgressFloor [OF ne, of ge org "Some sc"]
    by (auto simp: allowed_decision denied_decision)
qed

text \<open>
  The floor fails open when the allowlists have nothing in common: if no host is allowed by
  every member, although each of them is restricted to a non-empty allowlist, or if the audience
  is empty, the resolved allowlist is empty, which the decision reads as unrestricted: every host
  that nobody denies is let through.
\<close>

theorem disjoint_allowlists_fail_open:
  assumes "as = [] \<or> (\<Inter>p\<in>set as. set (principalEgressHosts p ge org (Some sc))) = {}"
    and "\<forall>p\<in>set as. \<forall>d\<in>set (principalDeniedHosts p ge org (Some sc)). \<not> hostMatches hn h d"
  shows "egressDecision hn h (Some (resolved_egress as ge org sc)) = \<lparr>ed_allow = True, ed_verdict = VOk\<rparr>"
proof -
  have "audienceEgressFloor as ge org (Some sc) = []"
  proof (cases "as = []")
    case False
    then show ?thesis using assms(1) set_audienceEgressFloor [OF False, of ge org "Some sc"] by (metis set_empty)
  qed (simp add: audienceEgressFloor_def)
  moreover have "\<not> isHostDenied hn h (Some (audienceDeniedFloor as ge org (Some sc)))"
    using assms(2) by (auto simp: isHostDenied_def list_ex_iff set_audienceDeniedFloor)
  ultimately show ?thesis by (simp add: egressDecision_def resolved_egress_def)
qed

text \<open>
  The control plane stays reachable: the claim handed to the sandbox lets the core host
  through whatever the policy says, and every other host is decided as before, except that the
  deny rules covering the core host are gone.
\<close>

theorem control_plane_reachable:
  assumes "url \<noteq> []" "hostname url = Some core" "core \<noteq> []" "normalizeHost hostname core \<noteq> []"
  shows "ed_allow (egressDecision hostname core (egressClaimAllowingControlPlane hostname pol url priv)) \<and>
    (\<not> hostMatches hostname h core \<and>
       (\<forall>d\<in>set (or_else (ep_deniedHosts pol) []). hostMatches hostname core d \<longrightarrow> \<not> hostMatches hostname h d) \<longrightarrow>
       ed_allow (egressDecision hostname h (egressClaimAllowingControlPlane hostname pol url priv)) =
       ed_allow (egressDecision hostname h (Some pol)))"
proof -
  let ?a = "ep_allowedHosts pol" and ?d = "or_else (ep_deniedHosts pol) []"
  let ?c = "egressClaimAllowingControlPlane hostname pol url priv"
  have self: "hostMatches hostname core core" using assms(4) by (simp add: hostMatches_def)
  have den: "isHostDenied hostname x (ep_deniedHosts pol) \<longleftrightarrow> (\<exists>d\<in>set ?d. d \<noteq> [] \<and> hostMatches hostname x d)" for x
    by (cases "ep_deniedHosts pol") (auto simp: isHostDenied_def list_ex_iff)
  have claim: "ed_allow (egressDecision hostname x ?c) \<longleftrightarrow>
      (\<forall>d\<in>set ?d. d \<noteq> [] \<and> hostMatches hostname x d \<longrightarrow> hostMatches hostname core d) \<and>
      (?a = [] \<or> hostMatches hostname x core \<and> core \<notin> set ?a \<or> (\<exists>r\<in>set ?a. hostMatches hostname x r))" for x
    using assms(1-3)
    by (auto simp: egressClaimAllowingControlPlane_def Let_def egressDecision_def isHostDenied_def list_ex_iff
        filter_empty_conv)
  show ?thesis
  proof (intro conjI impI)
    show "ed_allow (egressDecision hostname core ?c)" using self by (auto simp: claim)
  next
    assume "\<not> hostMatches hostname h core \<and>
       (\<forall>d\<in>set ?d. hostMatches hostname core d \<longrightarrow> \<not> hostMatches hostname h d)"
    then show "ed_allow (egressDecision hostname h ?c) = ed_allow (egressDecision hostname h (Some pol))"
      unfolding claim allowed_decision den by blast
  qed
qed

lemma parse_hosts_ok:
  "parse_hosts hn nm items hosts = Inr out \<Longrightarrow> distinct hosts \<Longrightarrow> [] \<notin> set hosts \<Longrightarrow> distinct out \<and> [] \<notin> set out"
proof (induction hn nm items hosts rule: parse_hosts.induct)
  case (2 hn nm item items hosts)
  have "h \<noteq> []" if "parse_host hn nm item = Inr (Some h)" for h
    using that by (auto simp: parse_host_def Let_def split: json.splits if_splits)
  with 2 show ?case by (auto split: sum.splits option.splits if_splits)
qed simp

text \<open>
  A parsed policy is well formed: its allowed and denied hosts are non-empty, free of
  duplicates within each list and disjoint between them.
\<close>

theorem parsed_policy_ok:
  assumes "parseEgressPolicy hostname input = Inr pol"
  shows "\<exists>d. ep_deniedHosts pol = Some d \<and> distinct (ep_allowedHosts pol) \<and> distinct d \<and>
    set (ep_allowedHosts pol) \<inter> set d = {} \<and> [] \<notin> set (ep_allowedHosts pol) \<union> set d"
proof -
  obtain fs a d where a: "parse_list hostname ''allowedHosts'' (json_field fs ''allowedHosts'') = Inr a"
    and d: "parse_list hostname ''deniedHosts'' (json_field fs ''deniedHosts'') = Inr d"
    and ov: "List.find (\<lambda>h. h \<in> set d) a = None" and pol: "pol = plain_policy a (Some d)"
    using assms by (auto simp: parseEgressPolicy_def split: json.splits sum.splits option.splits)
  have ok: "distinct l \<and> [] \<notin> set l" if "parse_list hostname nm j = Inr l" for nm j l
    using that parse_hosts_ok by (auto simp: parse_list_def split: json.splits)
  show ?thesis using ok [OF a] ok [OF d] ov by (auto simp: pol find_None_all)
qed

lemma publish_members_spec:
  "set (publish_members ow ms seen) =
     scopeId Personal ` {p_id m | m. m \<in> set ms \<and> p_type m = Internal \<and> p_id m \<noteq> ow \<and> p_id m \<notin> set seen}"
  "distinct (publish_members ow ms seen)"
proof (induction ms arbitrary: seen)
  case (Cons m ms)
  { case 1 show ?case by (auto simp: Cons image_iff; blast?) }
  { case 2 show ?case by (auto simp: Cons) }
qed simp_all

lemma publish_grantees:
  "pu_grantees (defaultPublishAudience a) =
     (if pg_kind a \<noteq> CChannel \<or> pg_isMpim a = Some True then []
      else (case pg_isPrivate a of None \<Rightarrow> [] | Some False \<Rightarrow> [pg_orgScopeId a]
        | Some True \<Rightarrow> (case pg_members a of None \<Rightarrow> [] | Some ms \<Rightarrow> publish_members (pg_ownerId a) ms [])))"
  by (cases "pg_kind a") (auto simp: defaultPublishAudience_def Let_def split: option.split bool.split)

text \<open>
  Publishing never overshares: the default audience is the whole organisation only for a
  channel known to be public; otherwise it is at most the internal members of the channel other
  than the owner, each once, and nobody at all for direct messages, group messages, or a channel
  whose privacy or membership is unknown.
\<close>

theorem publish_not_overshared:
  "(pg_orgScopeId a = scopeId Org x \<and> pg_orgScopeId a \<in> set (pu_grantees (defaultPublishAudience a)) \<longrightarrow>
      pg_kind a = CChannel \<and> pg_isPrivate a = Some False \<and> pg_isMpim a \<noteq> Some True) \<and>
   (g \<in> set (pu_grantees (defaultPublishAudience a)) \<and> g \<noteq> pg_orgScopeId a \<longrightarrow>
      pg_kind a = CChannel \<and> pg_isPrivate a = Some True \<and>
      (\<exists>ms m. pg_members a = Some ms \<and> m \<in> set ms \<and> g = scopeId Personal (p_id m) \<and>
         p_type m = Internal \<and> p_id m \<noteq> pg_ownerId a)) \<and>
   distinct (pu_grantees (defaultPublishAudience a))"
proof (cases "pg_kind a = CChannel \<and> pg_isMpim a \<noteq> Some True")
  case True
  show ?thesis
  proof (cases "pg_isPrivate a")
    case (Some priv)
    with True show ?thesis
      by (cases priv; cases "pg_members a") (auto simp: publish_grantees publish_members_spec)
  qed (use True in \<open>simp add: publish_grantees\<close>)
next
  case False
  then have "pu_grantees (defaultPublishAudience a) = []" by (auto simp: publish_grantees)
  then show ?thesis by simp
qed

section \<open>The theorems applied\<close>

definition ex_hostname :: "string \<Rightarrow> string option" where
  "ex_hostname u = (if startsWith u ''https://'' then Some (takeWhile (\<lambda>c. c \<noteq> CHR ''/'') (drop 8 u)) else None)"

definition ex_egress :: "scope_id \<Rightarrow> egress_policy option" where
  "ex_egress s = (if s = ''personal:ann'' then Some (plain_policy [''a.test''] (Some [''bad.test'']))
     else if s = ''personal:bob'' then Some (plain_policy [''b.test''] None) else None)"

theorem egress_respects_room_witness:
  "egressDecision ex_hostname ''x.bad.test'' (Some (resolved_egress [ex_principal ''ann'', ex_principal ''bob''] ex_egress ''org:o'' ''channel:c''))
     = \<lparr>ed_allow = False, ed_verdict = VDenied\<rparr>"
proof -
  have "''bad.test'' \<in> set (principalDeniedHosts (ex_principal ''ann'') ex_egress ''org:o'' (Some ''channel:c''))"
    "hostMatches ex_hostname ''x.bad.test'' ''bad.test''"
    by code_simp+
  then show ?thesis
    using egress_respects_room [of "ex_principal ''ann''" "[ex_principal ''ann'', ex_principal ''bob'']" "''bad.test''" ex_egress
      "''org:o''" "''channel:c''" ex_hostname "''x.bad.test''"] by simp
qed

theorem disjoint_allowlists_fail_open_witness:
  "egressDecision ex_hostname ''evil.test'' (Some (resolved_egress [ex_principal ''ann'', ex_principal ''bob''] ex_egress ''org:o'' ''channel:c''))
     = \<lparr>ed_allow = True, ed_verdict = VOk\<rparr> \<and>
   principalEgressHosts (ex_principal ''ann'') ex_egress ''org:o'' (Some ''channel:c'') = [''a.test''] \<and>
   principalEgressHosts (ex_principal ''bob'') ex_egress ''org:o'' (Some ''channel:c'') = [''b.test'']"
proof -
  have h: "principalEgressHosts (ex_principal ''ann'') ex_egress ''org:o'' (Some ''channel:c'') = [''a.test'']"
    "principalEgressHosts (ex_principal ''bob'') ex_egress ''org:o'' (Some ''channel:c'') = [''b.test'']"
    "principalDeniedHosts (ex_principal ''ann'') ex_egress ''org:o'' (Some ''channel:c'') = [''bad.test'']"
    "principalDeniedHosts (ex_principal ''bob'') ex_egress ''org:o'' (Some ''channel:c'') = []"
    "\<not> hostMatches ex_hostname ''evil.test'' ''bad.test''"
    by code_simp+
  then show ?thesis
    using disjoint_allowlists_fail_open [of "[ex_principal ''ann'', ex_principal ''bob'']" ex_egress "''org:o''" "''channel:c''"
      ex_hostname "''evil.test''"] by simp
qed

theorem control_plane_reachable_witness:
  "ed_allow (egressDecision ex_hostname ''core.test'' (egressClaimAllowingControlPlane ex_hostname
     (plain_policy [''a.test''] (Some [''core.test''])) ''https://core.test/api'' False))"
proof -
  have "ex_hostname ''https://core.test/api'' = Some ''core.test''" "normalizeHost ex_hostname ''core.test'' \<noteq> []"
    by code_simp+
  then show ?thesis using control_plane_reachable [of "''https://core.test/api''" ex_hostname "''core.test''"] by simp
qed

theorem parsed_policy_ok_witness:
  "parseEgressPolicy ex_hostname (JObj [(''allowedHosts'', JArr [JStr '' A.Test. ''])]) = Inr (plain_policy [''a.test''] (Some [])) \<and>
   distinct [''a.test'']"
proof -
  have p: "parseEgressPolicy ex_hostname (JObj [(''allowedHosts'', JArr [JStr '' A.Test. ''])]) = Inr (plain_policy [''a.test''] (Some []))"
    by code_simp
  from parsed_policy_ok [OF this] p show ?thesis by simp
qed

theorem publish_not_overshared_witness:
  "distinct (pu_grantees (defaultPublishAudience \<lparr>pg_kind = CChannel, pg_isPrivate = Some True, pg_isMpim = None,
     pg_members = Some [ex_principal ''ann'', ex_principal ''bob'', ex_principal ''bob''], pg_orgScopeId = ''org:o'', pg_ownerId = ''ann''\<rparr>))"
  using publish_not_overshared by blast

end
