(* ===== verification/Durable_Map.thy ===== *)
theory Durable_Map
  imports Interfaces
begin

text \<open>
  The keyed store most components are built on (\<open>src/persistence/durable-map.ts\<close>): the memory
  map of the source, and the locale \<open>durable_map\<close> with the laws its clients rely on. Clients
  change a value by an atomic \<open>update\<close> whose callback may decline; \<open>guarded_update\<close> is that
  idiom, and the locale proves once what it does.
\<close>

section \<open>The memory map\<close>

type_synonym 'v dmap = "(string, 'v) jsmap"

definition createMemoryMap :: "'v dmap" where
  "createMemoryMap = []"

definition sortedEntries :: "'v dmap \<Rightarrow> (string \<times> 'v) list" where
  "sortedEntries m = js_sort (\<lambda>a b. if fst a < fst b then -1 else if fst a > fst b then 1 else 0) m"

definition dm_all :: "'v dmap \<Rightarrow> 'v list" where
  "dm_all m = map snd (sortedEntries m)"

definition dm_entries :: "'v dmap \<Rightarrow> (string \<times> 'v) list" where
  "dm_entries m = sortedEntries m"

definition dm_get :: "'v dmap \<Rightarrow> string \<Rightarrow> 'v option" where
  "dm_get m i = map_get m i"

definition dm_put :: "string \<Rightarrow> 'v \<Rightarrow> 'v dmap \<Rightarrow> 'v dmap" where
  "dm_put i v m = map_set i v m"

definition putIfAbsent :: "'v dmap \<Rightarrow> string \<Rightarrow> 'v \<Rightarrow> 'v dmap \<times> 'v" where
  "putIfAbsent m i v = (case map_get m i of Some existing \<Rightarrow> (m, existing) | None \<Rightarrow> (map_set i v m, v))"

definition insertIfAbsent :: "'v dmap \<Rightarrow> string \<Rightarrow> 'v \<Rightarrow> 'v dmap \<times> bool" where
  "insertIfAbsent m i v = (if map_get m i \<noteq> None then (m, False) else (map_set i v m, True))"

text \<open>\<open>applyPatch\<close> overwrites the fields of the patch: a function on the value.\<close>

definition dm_merge :: "'v dmap \<Rightarrow> string \<Rightarrow> ('v \<Rightarrow> 'v) \<Rightarrow> 'v dmap \<times> 'v option" where
  "dm_merge m i patch =
     (case map_get m i of None \<Rightarrow> (m, None) | Some v \<Rightarrow> (map_set i (patch v) m, Some (patch v)))"

definition dm_update :: "'v dmap \<Rightarrow> string \<Rightarrow> ('v \<Rightarrow> 'v) \<Rightarrow> 'v dmap \<times> 'v option" where
  "dm_update m i f =
     (case map_get m i of None \<Rightarrow> (m, None) | Some v \<Rightarrow> (map_set i (f v) m, Some (f v)))"

definition deleteIf :: "'v dmap \<Rightarrow> string \<Rightarrow> ('v \<Rightarrow> bool) \<Rightarrow> 'v dmap \<times> bool" where
  "deleteIf m i predicate =
     (case map_get m i of None \<Rightarrow> (m, False)
      | Some v \<Rightarrow> if \<not> predicate v then (m, False) else (map_del i m, True))"

definition dm_delete :: "'v dmap \<Rightarrow> string \<Rightarrow> 'v dmap" where
  "dm_delete m i = map_del i m"

definition dm_take :: "'v dmap \<Rightarrow> string \<Rightarrow> 'v dmap \<times> 'v option" where
  "dm_take m i = (map_del i m, map_get m i)"

text \<open>
  The idiom of the clients: \<open>let applied = false; const after = await update(id, v => { if (!ok)
  return v; applied = true; return change(v) }); return applied ? after : null\<close>.
\<close>

definition guarded_update :: "'v dmap \<Rightarrow> string \<Rightarrow> ('v \<Rightarrow> bool) \<Rightarrow> ('v \<Rightarrow> 'v) \<Rightarrow> 'v dmap \<times> 'v option" where
  "guarded_update m i ok change =
     (case dm_update m i (\<lambda>v. if ok v then change v else v) of (m', after) \<Rightarrow>
        (m', if (case map_get m i of None \<Rightarrow> False | Some v \<Rightarrow> ok v) then after else None))"

section \<open>The contract\<close>

locale durable_map =
  fixes get :: "'m \<Rightarrow> string \<Rightarrow> 'v option" and upd :: "'m \<Rightarrow> string \<Rightarrow> ('v \<Rightarrow> 'v) \<Rightarrow> 'm \<times> 'v option"
    and ins :: "'m \<Rightarrow> string \<Rightarrow> 'v \<Rightarrow> 'm \<times> bool" and del :: "'m \<Rightarrow> string \<Rightarrow> 'm" and vals :: "'m \<Rightarrow> 'v list"
    and ok :: "'m \<Rightarrow> bool"
  assumes get_upd: "get (fst (upd m i f)) j = (if j = i then map_option f (get m i) else get m j)"
    and upd_result: "snd (upd m i f) = map_option f (get m i)"
    and get_ins: "get (fst (ins m i v)) j = (if j = i \<and> get m i = None then Some v else get m j)"
    and ins_result: "snd (ins m i v) \<longleftrightarrow> get m i = None"
    and get_del: "get (del m i) j = (if j = i then None else get m j)"
    and vals_get: "ok m \<Longrightarrow> set (vals m) = {v. \<exists>i. get m i = Some v}"
    and ok_keep: "ok m \<Longrightarrow> ok (fst (upd m i f))" "ok m \<Longrightarrow> ok (fst (ins m i v))" "ok m \<Longrightarrow> ok (del m i)"
begin

text \<open>Deleting a list of keys, as the clients' loops do.\<close>

lemma get_dels: "get (fold (\<lambda>i m. del m i) is m) j = (if j \<in> set is then None else get m j)"
  by (induction "is" arbitrary: m) (auto simp: get_del)

text \<open>A property of all stored values survives whatever keeps it value by value.\<close>

lemma all_upd:
  "(\<And>i v. get m i = Some v \<Longrightarrow> P i v) \<Longrightarrow> (\<And>v. get m i = Some v \<Longrightarrow> P i v \<Longrightarrow> P i (f v)) \<Longrightarrow>
     get (fst (upd m i f)) j = Some w \<Longrightarrow> P j w"
  by (auto simp: get_upd split: if_splits)

lemma all_ins:
  "(\<And>i v. get m i = Some v \<Longrightarrow> P i v) \<Longrightarrow> P i v \<Longrightarrow> get (fst (ins m i v)) j = Some w \<Longrightarrow> P j w"
  by (auto simp: get_ins split: if_splits)

end

lemma map_set_same: "map_get m k = Some v \<Longrightarrow> map_set k v m = m"
  by (induction m) (auto split: if_splits)

lemma set_sortedEntries [simp]: "set (sortedEntries m) = set m"
  by (simp add: sortedEntries_def)

lemma set_dm_all: "map_ok m \<Longrightarrow> set (dm_all m) = {v. \<exists>i. map_get m i = Some v}"
  unfolding dm_all_def map_ok_def set_map set_sortedEntries by (force dest: map_of_SomeD)

interpretation dm: durable_map dm_get dm_update insertIfAbsent dm_delete dm_all map_ok
  by unfold_locales
    (auto simp: dm_get_def dm_update_def insertIfAbsent_def dm_delete_def set_dm_all split: option.split)

text \<open>The guarded update, on the memory map: declined it leaves the map as it is.\<close>

lemma guarded_update_simps [store_simps]:
  "map_get m i = None \<Longrightarrow> guarded_update m i ok f = (m, None)"
  "map_get m i = Some v \<Longrightarrow> \<not> ok v \<Longrightarrow> guarded_update m i ok f = (m, None)"
  "map_get m i = Some v \<Longrightarrow> ok v \<Longrightarrow> guarded_update m i ok f = (map_set i (f v) m, Some (f v))"
  by (simp_all add: guarded_update_def dm_update_def map_set_same)

lemma guarded_update_cases:
  obtains "guarded_update m i ok f = (m, None)" "\<And>v. map_get m i = Some v \<Longrightarrow> \<not> ok v"
  | v where "map_get m i = Some v" "ok v" "guarded_update m i ok f = (map_set i (f v) m, Some (f v))"
  by (cases "map_get m i") (auto simp: store_simps)

lemma guarded_update_get:
  "map_get (fst (guarded_update m i ok f)) j =
     (if j = i then map_option (\<lambda>v. if ok v then f v else v) (map_get m i) else map_get m j)"
  by (cases rule: guarded_update_cases [of m i ok f]) (auto simp: map_option_case split: option.split)

lemma map_ok_guarded [inv_intros]: "map_ok m \<Longrightarrow> map_ok (fst (guarded_update m i ok f))"
  by (cases rule: guarded_update_cases [of m i ok f]) auto

text \<open>A guarded update whose guard checks a token is a token-guarded operation.\<close>

lemma guarded_update_token:
  fixes tok :: "'v \<Rightarrow> 't option"
  assumes "\<And>v t. ok t v \<Longrightarrow> tok v = Some t"
  shows "token_guarded (\<lambda>m i t. \<exists>v. map_get m i = Some v \<and> tok v = Some t)
    (\<lambda>m i t. guarded_update m i (ok t) (f t)) None"
proof
  fix m :: "'v dmap" and i t assume "\<not> (\<exists>v. map_get m i = Some v \<and> tok v = Some t)"
  then show "guarded_update m i (ok t) (f t) = (m, None)"
    using assms [of t] by (cases rule: guarded_update_cases [of m i "ok t" "f t"]) auto
qed

end
