(* ===== verification/Loop_Types.thy ===== *)
theory Loop_Types
  imports Durable_Map Scopes Turn_Types
begin

text \<open>
  The data of the work loops (\<open>src/types.ts\<close>): triggers, loops, their items, outputs and ship
  grants, and the rules on a trigger's owner and recipient (\<open>src/triggers/trigger-store.ts\<close>). A
  payload is an object whose values are of the type parameter \<open>'j\<close>.
\<close>

section \<open>Triggers\<close>

datatype consent_status = ConsentPending | ConsentAccepted | ConsentDeclined

record recipient_consent =
  rc_recipientId :: string
  rc_status :: consent_status
  rc_decidedAt :: "time option"

record listed_task =
  lt_id :: string
  lt_title :: string
  lt_status :: string

record reaction =
  rx_messageTs :: string
  rx_emoji :: string

record pin_change =
  pn_messageTs :: string
  pn_remove :: "bool option"

datatype web_transcript = WebReply | WebTurnFailure time "string option"

record destination =
  dst_type :: string
  dst_target :: string
  dst_audienceScopeId :: "scope_id option"
  dst_onBehalfOf :: "string option"
  dst_threadTs :: "string option"
  dst_editRef :: "string option"
  dst_taskList :: "listed_task list option"
  dst_unfurlLinks :: "bool option"
  dst_react :: "reaction option"
  dst_delete :: "string option"
  dst_pin :: "pin_change option"
  dst_identity :: "string option"
  dst_debugFooter :: "string option"
  dst_webTranscript :: "web_transcript option"

text \<open>The object literal \<open>{ type, target }\<close>: every other field is absent.\<close>

definition bare_destination :: "string \<Rightarrow> string \<Rightarrow> destination" where
  "bare_destination type target =
     \<lparr>dst_type = type, dst_target = target, dst_audienceScopeId = None, dst_onBehalfOf = None, dst_threadTs = None,
      dst_editRef = None, dst_taskList = None, dst_unfurlLinks = None, dst_react = None, dst_delete = None,
      dst_pin = None, dst_identity = None, dst_debugFooter = None, dst_webTranscript = None\<rparr>"

record trigger_base =
  t_id :: string
  t_ownerScopeId :: scope_id
  t_owner :: string
  t_createdBy :: string
  t_ownerConsentedAt :: "time option"
  t_destination :: "destination option"
  t_enabled :: bool
  t_createdAt :: time
  t_lastFiredAt :: "time option"
  t_recipientConsent :: "recipient_consent option"

record create_trigger_input =
  ct_ownerScopeId :: scope_id
  ct_owner :: string
  ct_createdBy :: string
  ct_destination :: "destination option"
  ct_ownerConsentedAt :: "time option"
  ct_recipientConsent :: "recipient_consent option"

definition consentRequiredRecipient :: "string \<Rightarrow> bool \<Rightarrow> destination option \<Rightarrow> string option" where
  "consentRequiredRecipient owner standing dest =
     (if \<not> standing then None
      else (case dest of None \<Rightarrow> None
        | Some d \<Rightarrow> if dst_type d = ''principal'' \<and> \<not> samePerson (Some (dst_target d)) (Some owner)
                    then Some (dst_target d) else None))"

definition recipientConsentSatisfied :: "recipient_consent option \<Rightarrow> string option \<Rightarrow> bool" where
  "recipientConsentSatisfied consent requiredRecipient =
     (if \<not> truthy requiredRecipient
      then (case consent of None \<Rightarrow> True | Some c \<Rightarrow> rc_status c = ConsentAccepted)
      else (case consent of None \<Rightarrow> False
        | Some c \<Rightarrow> rc_status c = ConsentAccepted \<and> samePerson (Some (rc_recipientId c)) requiredRecipient))"

datatype consent_refusal = NoConsent | NotRecipient

definition decideRecipientConsent ::
  "recipient_consent option \<Rightarrow> string \<Rightarrow> bool \<Rightarrow> time \<Rightarrow> consent_refusal + recipient_consent" where
  "decideRecipientConsent current actorId accept now =
     (case current of
        None \<Rightarrow> Inl NoConsent
      | Some c \<Rightarrow>
          if \<not> samePerson (Some (rc_recipientId c)) (Some actorId) then Inl NotRecipient
          else Inr (c\<lparr>rc_status := (if accept then ConsentAccepted else ConsentDeclined), rc_decidedAt := Some now\<rparr>))"

text \<open>A falsy consent time is an absent or a zero one.\<close>

definition assertNoEscalation :: "string \<Rightarrow> string \<Rightarrow> time option \<Rightarrow> bool" where
  "assertNoEscalation owner createdBy ownerConsentedAt =
     (samePerson (Some owner) (Some createdBy) \<or> (ownerConsentedAt \<noteq> None \<and> ownerConsentedAt \<noteq> Some 0))"

definition buildTriggerBase :: "create_trigger_input \<Rightarrow> string \<Rightarrow> time \<Rightarrow> trigger_base" where
  "buildTriggerBase input i createdAt =
     \<lparr>t_id = i, t_ownerScopeId = ct_ownerScopeId input, t_owner = ct_owner input, t_createdBy = ct_createdBy input,
      t_ownerConsentedAt = (if ct_ownerConsentedAt input = Some 0 then None else ct_ownerConsentedAt input),
      t_destination = ct_destination input, t_enabled = True, t_createdAt = createdAt, t_lastFiredAt = None,
      t_recipientConsent = ct_recipientConsent input\<rparr>"

section \<open>Loops\<close>

datatype loop_state = LEnabled | LPaused | LQuarantined | LArchived

datatype loop_health = Healthy | Degraded | Failing | Quarantined

datatype ship_gate = Hold | Auto

record ship_action_policy =
  sap_action :: string
  sap_gate :: ship_gate

record loop_caps =
  lc_maxItemsPerFire :: "nat option"
  lc_maxOpenOutputs :: "nat option"
  lc_maxItemAttempts :: "nat option"

record playbook_revision =
  pr_version :: nat
  pr_at :: time
  pr_by :: string
  pr_note :: "string option"

datatype run_as = AsOwner | AsScopeFloor | AsScopeShared

section \<open>Items\<close>

datatype loop_item_status = LQueued | LInProgress | LReady | LShipped | LFailed | LSkipped

type_synonym 'j payload = "(string \<times> 'j) list"

datatype proposer = ByAgent | ByHuman

record 'j loop_proposal =
  lp_data :: "'j payload"
  lp_summary :: "string option"
  lp_by :: proposer
  lp_at :: time
  lp_sessionId :: "string option"

datatype thread_role = TrHuman | TrAgent | TrSystem

record loop_thread_message =
  tm_id :: string
  tm_role :: thread_role
  tm_text :: string
  tm_at :: time
  tm_actorId :: "string option"

record 'j loop_item =
  li_id :: string
  li_loopId :: string
  li_sourceKey :: string
  li_sourceSummary :: "string option"
  li_source :: "string option"
  li_sourcePayload :: "'j payload option"
  li_sourceAt :: "time option"
  li_proposal :: "'j loop_proposal option"
  li_agentDrafts :: "'j loop_proposal list option"
  li_agentMentionKeys :: "string list option"
  li_thread :: "loop_thread_message list option"
  li_status :: loop_item_status
  li_attempts :: nat
  li_runIds :: "string list"
  li_outputIds :: "string list"
  li_parkedReason :: "string option"
  li_guidance :: "string option"
  li_actedAt :: "time option"
  li_actionKind :: "string option"
  li_actionResult :: "string option"
  li_claimedAt :: "time option"
  li_claimToken :: "string option"
  li_decisionAt :: "time option"
  li_decisionToken :: "string option"
  li_createdAt :: time
  li_updatedAt :: time

section \<open>Outputs and grants\<close>

datatype loop_output_state =
  OStaged | OReady | OShipping | OUnconfirmed | OShipped | OReturned | OSuperseded | OExpired

record loop_ship_result =
  sr_status :: "turn_status option"
  sr_note :: "string option"
  sr_reply :: "string option"
  sr_sessionId :: "string option"

datatype captured_by = CbLedger | CbClassifier | CbAgent

record loop_output =
  lo_id :: string
  lo_loopId :: string
  lo_itemId :: string
  lo_attemptId :: string
  lo_shipAction :: string
  lo_label :: "string option"
  lo_externalRef :: "string option"
  lo_title :: string
  lo_summary :: "string option"
  lo_state :: loop_output_state
  lo_capturedBy :: captured_by
  lo_createdAt :: time
  lo_updatedAt :: time
  lo_decidedBy :: "string option"
  lo_decidedAt :: "time option"
  lo_decisionNote :: "string option"
  lo_claimedAt :: "time option"
  lo_claimToken :: "string option"
  lo_shipFireKey :: "string option"
  lo_shipResult :: "loop_ship_result option"
  lo_supersedesOutputIds :: "string list option"
  lo_supersededByOutputIds :: "string list option"

record grant_revocation =
  gr_revokedAt :: time
  gr_revokedBy :: string

record ship_grant =
  sg_id :: string
  sg_loopId :: string
  sg_shipAction :: string
  sg_label :: "string option"
  sg_actorId :: string
  sg_policyVersion :: nat
  sg_createdAt :: time
  sg_revokedAt :: "time option"
  sg_revokedBy :: "string option"
  sg_revocationHistory :: "grant_revocation list option"

section \<open>Consent\<close>

text \<open>
  Nobody is signed up without consent: a trigger may be created for another owner only with
  that owner's consent; a standing trigger that messages another person is satisfied only by an
  accepted consent of that person, and only that person can decide it.
\<close>

theorem trigger_consent:
  "(assertNoEscalation ow cr at \<longrightarrow> samePerson (Some ow) (Some cr) \<or> (\<exists>t. at = Some t \<and> t \<noteq> 0)) \<and>
   (consentRequiredRecipient ow True (Some d) = Some r \<and> r \<noteq> [] \<and> recipientConsentSatisfied c (Some r) \<longrightarrow>
      r = dst_target d \<and> \<not> samePerson (Some r) (Some ow) \<and>
      (\<exists>rc. c = Some rc \<and> rc_status rc = ConsentAccepted \<and> samePerson (Some (rc_recipientId rc)) (Some r))) \<and>
   (decideRecipientConsent c actor ac now = Inr rc' \<longrightarrow>
      (\<exists>rc. c = Some rc \<and> samePerson (Some (rc_recipientId rc)) (Some actor) \<and> rc_recipientId rc' = rc_recipientId rc))"
  by (auto simp: assertNoEscalation_def consentRequiredRecipient_def recipientConsentSatisfied_def
      decideRecipientConsent_def split: option.splits if_splits)

theorem trigger_consent_witness:
  "recipientConsentSatisfied (Some \<lparr>rc_recipientId = ''bob'', rc_status = ConsentAccepted, rc_decidedAt = Some 3\<rparr>) (Some ''bob'') \<and>
   \<not> samePerson (Some ''bob'') (Some ''ann'')"
proof -
  let ?c = "Some \<lparr>rc_recipientId = ''bob'', rc_status = ConsentAccepted, rc_decidedAt = Some 3\<rparr>"
  let ?d = "bare_destination ''principal'' ''bob''"
  have 1: "recipientConsentSatisfied ?c (Some ''bob'')" by code_simp
  have 2: "consentRequiredRecipient ''ann'' True (Some ?d) = Some ''bob''" by code_simp
  show ?thesis using trigger_consent [of "''ann''" "''ann''" None ?d "''bob''" ?c] 1 2 by blast
qed

end
