(* ===== verification/Loop_Items.thy ===== *)
theory Loop_Items
  imports Loop_Types
begin

text \<open>
  The ledger of a loop's work items (\<open>src/loops/item-ledger.ts\<close>, \<open>src/loops/ledger-view.ts\<close>):
  items are ingested once per source key, claimed under a token with a lease, carried to a
  decision, and pruned once resolved. The ledger is the map of items and the trace of the events
  it emits. \<open>loop_env\<close> holds the functions it is built with: the hash that makes ids, the
  canonical text of a payload, and the mention keys read off such a text.
\<close>

section \<open>Ledger states\<close>

datatype ledger_state = LsPending | LsProcessed | LsHeld | LsActioned | LsDismissed | LsFailed

fun STATE_BY_STATUS :: "loop_item_status \<Rightarrow> ledger_state" where
  "STATE_BY_STATUS LQueued = LsPending"
| "STATE_BY_STATUS LInProgress = LsProcessed"
| "STATE_BY_STATUS LReady = LsHeld"
| "STATE_BY_STATUS LShipped = LsActioned"
| "STATE_BY_STATUS LSkipped = LsDismissed"
| "STATE_BY_STATUS LFailed = LsFailed"

definition ledgerState :: "'j loop_item \<Rightarrow> ledger_state" where
  "ledgerState item = STATE_BY_STATUS (li_status item)"

definition isResolved :: "'j loop_item \<Rightarrow> bool" where
  "isResolved item = (ledgerState item = LsActioned \<or> ledgerState item = LsDismissed)"

definition sortLedgerItems :: "'j loop_item list \<Rightarrow> 'j loop_item list" where
  "sortLedgerItems items =
     js_sort (\<lambda>a b.
       let aOpen = (if isResolved a then 1 else 0 :: int); bOpen = (if isResolved b then 1 else 0)
       in if aOpen \<noteq> bOpen then aOpen - bOpen
          else or_else (li_sourceAt b) (li_createdAt b) - or_else (li_sourceAt a) (li_createdAt a)) items"

record 'j ledger_item_view =
  lv_id :: string
  lv_loopId :: string
  lv_dedupeKey :: string
  lv_state :: ledger_state
  lv_source :: "string option"
  lv_summary :: "string option"
  lv_sourcePayload :: "'j payload"
  lv_sourceAt :: "time option"
  lv_proposal :: "'j loop_proposal option"
  lv_thread :: "loop_thread_message list"
  lv_attempts :: nat
  lv_parkedReason :: "string option"
  lv_guidance :: "string option"
  lv_actedAt :: "time option"
  lv_actionKind :: "string option"
  lv_actionResult :: "string option"
  lv_outputIds :: "string list"
  lv_createdAt :: time
  lv_updatedAt :: time

definition ledgerItemView :: "'j loop_item \<Rightarrow> 'j ledger_item_view" where
  "ledgerItemView item =
     \<lparr>lv_id = li_id item, lv_loopId = li_loopId item, lv_dedupeKey = li_sourceKey item, lv_state = ledgerState item,
      lv_source = li_source item, lv_summary = li_sourceSummary item,
      lv_sourcePayload = or_else (li_sourcePayload item) [], lv_sourceAt = li_sourceAt item,
      lv_proposal = li_proposal item, lv_thread = or_else (li_thread item) [], lv_attempts = li_attempts item,
      lv_parkedReason = li_parkedReason item, lv_guidance = li_guidance item, lv_actedAt = li_actedAt item,
      lv_actionKind = li_actionKind item, lv_actionResult = li_actionResult item, lv_outputIds = li_outputIds item,
      lv_createdAt = li_createdAt item, lv_updatedAt = li_updatedAt item\<rparr>"

section \<open>The ledger\<close>

datatype ledger_event_op =
  EvIngest | EvProposal | EvAnnotate | EvThread | EvAction | EvReopen | EvReady | EvShipped | EvReturned | EvParked | EvSkipped

record ledger_event =
  le_loopId :: string
  le_itemId :: string
  le_op :: ledger_event_op
  le_at :: time

record 'j item_ledger =
  il_items :: "'j loop_item dmap"
  il_events :: "ledger_event list"

record 'j loop_env =
  env_hashId :: "string list \<Rightarrow> string"
  env_contentPart :: "string \<Rightarrow> string"
  env_canonicalJson :: "'j payload \<Rightarrow> string"
  env_wireMentionKeys :: "string \<Rightarrow> string list"

record enqueue_item_input =
  eq_loopId :: string
  eq_sourceKey :: string
  eq_sourceSummary :: "string option"

record 'j proposal_input =
  pi_data :: "'j payload"
  pi_summary :: "string option"
  pi_by :: proposer
  pi_sessionId :: "string option"

record 'j ingest_entry_input =
  ie_loopId :: string
  ie_dedupeKey :: string
  ie_source :: "string option"
  ie_summary :: "string option"
  ie_sourcePayload :: "'j payload"
  ie_sourceAt :: "time option"
  ie_proposal :: "'j proposal_input option"

record ingest_outcome =
  io_created :: nat
  io_updated :: nat
  io_skipped :: nat

record loop_queue_stats =
  lq_queued :: nat
  lq_inProgress :: nat
  lq_ready :: nat
  lq_failed :: nat
  lq_oldestQueuedAgeMs :: "int option"

definition CLAIM_LEASE_MS :: int where "CLAIM_LEASE_MS = 600000"
definition LEDGER_THREAD_MAX :: nat where "LEDGER_THREAD_MAX = 200"
definition DECISION_LEASE_MS :: int where "DECISION_LEASE_MS = 300000"
definition AGENT_DRAFT_HISTORY :: nat where "AGENT_DRAFT_HISTORY = 10"

definition loopItemId :: "'j loop_env \<Rightarrow> string \<Rightarrow> string \<Rightarrow> string" where
  "loopItemId env loopId sourceKey = env_hashId env [env_contentPart env loopId, env_contentPart env sourceKey]"

text \<open>\<open>{ ...proposal, at: now }\<close>.\<close>

definition stamp_proposal :: "'j proposal_input \<Rightarrow> time \<Rightarrow> 'j loop_proposal" where
  "stamp_proposal p now =
     \<lparr>lp_data = pi_data p, lp_summary = pi_summary p, lp_by = pi_by p, lp_at = now, lp_sessionId = pi_sessionId p\<rparr>"

definition nextIngestStatus :: "'j loop_item \<Rightarrow> 'j loop_proposal option \<Rightarrow> loop_item_status" where
  "nextIngestStatus item proposal =
     (if li_status item = LInProgress then LInProgress
      else if proposal \<noteq> None then LReady
      else if isResolved item then LQueued else li_status item)"

definition sameDraft :: "'j loop_env \<Rightarrow> 'j loop_proposal option \<Rightarrow> 'j loop_proposal \<Rightarrow> bool" where
  "sameDraft env a b =
     (case a of None \<Rightarrow> False | Some p \<Rightarrow> env_canonicalJson env (lp_data p) = env_canonicalJson env (lp_data b))"

definition agentDraftsOf :: "'j loop_env \<Rightarrow> 'j loop_item \<Rightarrow> 'j loop_proposal list" where
  "agentDraftsOf env item =
     (let kept = or_else (li_agentDrafts item) []
      in (case li_proposal item of
            None \<Rightarrow> kept
          | Some p \<Rightarrow> if lp_by p \<noteq> ByAgent \<or> sameDraft env (last_opt kept) p then kept else kept @ [p]))"

definition agentDraftOf :: "'j loop_env \<Rightarrow> 'j loop_item \<Rightarrow> 'j loop_proposal option" where
  "agentDraftOf env item = last_opt (agentDraftsOf env item)"

definition withAgentDraft :: "'j loop_env \<Rightarrow> 'j loop_item \<Rightarrow> 'j loop_proposal option \<Rightarrow> 'j loop_item \<Rightarrow> 'j loop_item" where
  "withAgentDraft env item proposal target =
     (let drafts = agentDraftsOf env item;
          next = (case proposal of
                    None \<Rightarrow> drafts
                  | Some p \<Rightarrow> if lp_by p = ByAgent \<and> \<not> sameDraft env (last_opt drafts) p then drafts @ [p] else drafts);
          keys = fold set_add
                   (concat (map (\<lambda>d. env_wireMentionKeys env (env_canonicalJson env (lp_data d))) next))
                   (js_set_of (or_else (li_agentMentionKeys item) []))
      in target\<lparr>li_agentDrafts := Some (take_last AGENT_DRAFT_HISTORY next), li_agentMentionKeys := Some keys\<rparr>)"

definition mergeIngest :: "'j loop_env \<Rightarrow> 'j loop_item \<Rightarrow> 'j ingest_entry_input \<Rightarrow> time \<Rightarrow> 'j loop_item option" where
  "mergeIngest env item entry now =
     (let newerSource = (case ie_sourceAt entry of None \<Rightarrow> False | Some t \<Rightarrow> t > or_else (li_sourceAt item) 0)
      in if isResolved item \<and> \<not> newerSource then None
         else if \<not> isResolved item \<and> \<not> newerSource \<and> ie_proposal entry = None then None
         else
           let keepHumanProposal = ((case li_proposal item of None \<Rightarrow> False | Some p \<Rightarrow> lp_by p = ByHuman) \<and> \<not> newerSource);
               incoming = (case ie_proposal entry of Some p \<Rightarrow> Some (stamp_proposal p now) | None \<Rightarrow> li_proposal item);
               proposal =
                 (if keepHumanProposal \<or>
                     (case (incoming, li_proposal item) of
                        (Some inc, Some p) \<Rightarrow> lp_by p = ByAgent \<and> sameDraft env (Some p) inc
                      | _ \<Rightarrow> False)
                  then li_proposal item else incoming);
               drafted = withAgentDraft env item proposal (item\<lparr>li_status := nextIngestStatus item proposal\<rparr>)
           in Some (drafted\<lparr>li_sourcePayload := Some (ie_sourcePayload entry),
                            li_sourceAt := or_opt (ie_sourceAt entry) (li_sourceAt item),
                            li_actedAt := None, li_actionKind := None, li_actionResult := None,
                            li_parkedReason := None, li_updatedAt := now,
                            li_source := or_opt (ie_source entry) (li_source item),
                            li_sourceSummary := or_opt (ie_summary entry) (li_sourceSummary item),
                            li_proposal := proposal\<rparr>))"

definition createLoopItemLedger :: "'j item_ledger" where
  "createLoopItemLedger = \<lparr>il_items = createMemoryMap, il_events = []\<rparr>"

definition emit :: "'j loop_item option \<Rightarrow> ledger_event_op \<Rightarrow> time \<Rightarrow> 'j item_ledger \<Rightarrow> 'j item_ledger" where
  "emit item op now s =
     (case item of None \<Rightarrow> s
      | Some it \<Rightarrow> s\<lparr>il_events := il_events s @ [\<lparr>le_loopId = li_loopId it, le_itemId = li_id it, le_op = op, le_at = now\<rparr>]\<rparr>)"

text \<open>An update guarded by a condition on the item, with the event emitted when it applied.\<close>

definition apply_item ::
  "'j item_ledger \<Rightarrow> string \<Rightarrow> ('j loop_item \<Rightarrow> bool) \<Rightarrow> ('j loop_item \<Rightarrow> 'j loop_item) \<Rightarrow> ledger_event_op option \<Rightarrow> time
     \<Rightarrow> 'j item_ledger \<times> 'j loop_item option" where
  "apply_item s i ok change op now =
     (case guarded_update (il_items s) i ok change of (m, after) \<Rightarrow>
        let s1 = s\<lparr>il_items := m\<rparr>
        in (case op of None \<Rightarrow> s1 | Some o' \<Rightarrow> emit after o' now s1, after))"

definition transition ::
  "'j item_ledger \<Rightarrow> string \<Rightarrow> loop_item_status list \<Rightarrow> ('j loop_item \<Rightarrow> 'j loop_item) \<Rightarrow> string option
     \<Rightarrow> ledger_event_op option \<Rightarrow> time \<Rightarrow> 'j item_ledger \<times> 'j loop_item option" where
  "transition s i allowed change claimToken op now =
     apply_item s i
       (\<lambda>it. li_status it \<in> set allowed \<and> \<not> (li_status it = LInProgress \<and> li_claimToken it \<noteq> claimToken))
       change op now"

definition forLoop :: "'j item_ledger \<Rightarrow> string \<Rightarrow> 'j loop_item list" where
  "forLoop s loopId = filter (\<lambda>it. li_loopId it = loopId) (dm_all (il_items s))"

text \<open>The item literals of \<open>enqueue\<close> and \<open>ingest\<close>: fields that are not written are absent.\<close>

definition blank_item :: "string \<Rightarrow> string \<Rightarrow> string \<Rightarrow> loop_item_status \<Rightarrow> time \<Rightarrow> 'j loop_item" where
  "blank_item i loopId sourceKey st now =
     \<lparr>li_id = i, li_loopId = loopId, li_sourceKey = sourceKey, li_sourceSummary = None, li_source = None,
      li_sourcePayload = None, li_sourceAt = None, li_proposal = None, li_agentDrafts = None,
      li_agentMentionKeys = None, li_thread = None, li_status = st, li_attempts = 0, li_runIds = [],
      li_outputIds = [], li_parkedReason = None, li_guidance = None, li_actedAt = None, li_actionKind = None,
      li_actionResult = None, li_claimedAt = None, li_claimToken = None, li_decisionAt = None,
      li_decisionToken = None, li_createdAt = now, li_updatedAt = now\<rparr>"

definition enqueue_item ::
  "'j loop_env \<Rightarrow> 'j item_ledger \<Rightarrow> enqueue_item_input \<Rightarrow> time \<Rightarrow> 'j item_ledger \<times> 'j loop_item \<times> bool" where
  "enqueue_item env s input now =
     (let i = loopItemId env (eq_loopId input) (eq_sourceKey input);
          candidate = (blank_item i (eq_loopId input) (eq_sourceKey input) LQueued now)
                        \<lparr>li_sourceSummary := eq_sourceSummary input\<rparr>
      in (case insertIfAbsent (il_items s) i candidate of (m, created) \<Rightarrow>
            (s\<lparr>il_items := m\<rparr>, (if created then candidate else or_else (dm_get m i) candidate), created)))"

definition ingest_candidate :: "'j loop_env \<Rightarrow> 'j ingest_entry_input \<Rightarrow> time \<Rightarrow> 'j loop_item" where
  "ingest_candidate env entry now =
     (let i = loopItemId env (ie_loopId entry) (ie_dedupeKey entry);
          proposal = map_option (\<lambda>p. stamp_proposal p now) (ie_proposal entry);
          base = blank_item i (ie_loopId entry) (ie_dedupeKey entry) (if proposal \<noteq> None then LReady else LQueued) now
      in withAgentDraft env (base\<lparr>li_agentDrafts := Some []\<rparr>) proposal
           (base\<lparr>li_sourcePayload := Some (ie_sourcePayload entry), li_source := ie_source entry,
                 li_sourceSummary := ie_summary entry, li_sourceAt := ie_sourceAt entry, li_proposal := proposal\<rparr>))"

definition ingest_one ::
  "'j loop_env \<Rightarrow> time \<Rightarrow> 'j ingest_entry_input \<Rightarrow> 'j item_ledger \<times> ingest_outcome \<Rightarrow> 'j item_ledger \<times> ingest_outcome" where
  "ingest_one env now entry st =
     (case st of (s, outcome) \<Rightarrow>
        let candidate = ingest_candidate env entry now; i = li_id candidate
        in (case insertIfAbsent (il_items s) i candidate of (m, inserted) \<Rightarrow>
              if inserted
              then (emit (Some candidate) EvIngest now (s\<lparr>il_items := m\<rparr>), outcome\<lparr>io_created := io_created outcome + 1\<rparr>)
              else (case apply_item s i (\<lambda>it. mergeIngest env it entry now \<noteq> None)
                           (\<lambda>it. the (mergeIngest env it entry now)) (Some EvIngest) now of
                      (s', None) \<Rightarrow> (s', outcome\<lparr>io_skipped := io_skipped outcome + 1\<rparr>)
                    | (s', Some _) \<Rightarrow> (s', outcome\<lparr>io_updated := io_updated outcome + 1\<rparr>))))"

text \<open>Each entry comes with the clock at its turn of the loop.\<close>

definition ingest ::
  "'j loop_env \<Rightarrow> 'j item_ledger \<Rightarrow> ('j ingest_entry_input \<times> time) list \<Rightarrow> 'j item_ledger \<times> ingest_outcome" where
  "ingest env s entries =
     fold (\<lambda>(entry, now). ingest_one env now entry) entries (s, \<lparr>io_created = 0, io_updated = 0, io_skipped = 0\<rparr>)"

definition setProposal ::
  "'j loop_env \<Rightarrow> 'j item_ledger \<Rightarrow> string \<Rightarrow> 'j proposal_input \<Rightarrow> time option \<Rightarrow> time \<Rightarrow> 'j item_ledger \<times> 'j loop_item option" where
  "setProposal env s i proposal expectedAt now =
     apply_item s i
       (\<lambda>it. li_status it \<noteq> LShipped \<and>
             (expectedAt = None \<or> map_option lp_at (li_proposal it) = expectedAt))
       (\<lambda>it. let stamped = stamp_proposal proposal now
             in (withAgentDraft env it (Some stamped) (it\<lparr>li_proposal := Some stamped\<rparr>))
                  \<lparr>li_status := (if li_status it = LQueued then LReady else li_status it), li_updatedAt := now\<rparr>)
       (Some EvProposal) now"

definition annotate :: "'j item_ledger \<Rightarrow> string \<Rightarrow> 'j payload \<Rightarrow> time \<Rightarrow> 'j item_ledger \<times> 'j loop_item option" where
  "annotate s i patch now =
     apply_item s i (\<lambda>_. True)
       (\<lambda>it. it\<lparr>li_sourcePayload := Some (fold (\<lambda>(k, v). map_set k v) patch (or_else (li_sourcePayload it) [])),
                li_updatedAt := now\<rparr>)
       (Some EvAnnotate) now"

record new_thread_message =
  nm_role :: thread_role
  nm_text :: string
  nm_actorId :: "string option"

definition appendThread ::
  "'j item_ledger \<Rightarrow> string \<Rightarrow> (new_thread_message \<times> uuid) list \<Rightarrow> time \<Rightarrow> 'j item_ledger \<times> 'j loop_item option" where
  "appendThread s i messages now =
     (if messages = [] then (s, dm_get (il_items s) i)
      else apply_item s i (\<lambda>_. True)
        (\<lambda>it. let added = map (\<lambda>(nm, u). \<lparr>tm_id = u, tm_role = nm_role nm, tm_text = nm_text nm, tm_at = now,
                                           tm_actorId = nm_actorId nm\<rparr>) messages;
                  thread = or_else (li_thread it) [] @ added
              in it\<lparr>li_thread := Some (if length thread > LEDGER_THREAD_MAX
                                       then drop (length thread - LEDGER_THREAD_MAX) thread else thread),
                    li_updatedAt := now\<rparr>)
        (Some EvThread) now)"

record record_action_input =
  ra_kind :: string
  ra_result :: "string option"
  ra_actioned :: bool

definition recordAction :: "'j item_ledger \<Rightarrow> string \<Rightarrow> record_action_input \<Rightarrow> time \<Rightarrow> 'j item_ledger \<times> 'j loop_item option" where
  "recordAction s i input now =
     apply_item s i (\<lambda>it. li_status it \<noteq> LShipped)
       (\<lambda>it. it\<lparr>li_status := (if ra_actioned input then LShipped else LSkipped), li_actionKind := Some (ra_kind input),
                li_actedAt := Some now, li_claimedAt := None, li_claimToken := None, li_parkedReason := None,
                li_updatedAt := now, li_actionResult := or_opt (ra_result input) (li_actionResult it)\<rparr>)
       (Some EvAction) now"

definition reopen :: "'j item_ledger \<Rightarrow> string \<Rightarrow> time \<Rightarrow> 'j item_ledger \<times> 'j loop_item option" where
  "reopen s i now =
     apply_item s i (\<lambda>it. li_status it = LSkipped \<or> li_status it = LFailed)
       (\<lambda>it. it\<lparr>li_status := (if li_proposal it \<noteq> None then LReady else LQueued), li_actedAt := None,
                li_actionKind := None, li_actionResult := None, li_parkedReason := None, li_updatedAt := now\<rparr>)
       (Some EvReopen) now"

definition resolved_at :: "'j loop_item \<Rightarrow> time" where
  "resolved_at it = or_else (li_actedAt it) (li_updatedAt it)"

text \<open>The ids \<open>prune\<close> deletes: expired first, then the oldest resolved ones over the limit.\<close>

definition doomed :: "'j loop_item list \<Rightarrow> nat \<Rightarrow> int \<Rightarrow> time \<Rightarrow> string list" where
  "doomed items maxItems retentionMs now =
     (let expired = filter (\<lambda>it. isResolved it \<and> now - resolved_at it \<ge> retentionMs) items;
          expiredIds = js_set_of (map li_id expired);
          surviving = filter (\<lambda>it. li_id it \<notin> set expiredIds) items;
          resolvedOldestFirst = js_sort (\<lambda>a b. resolved_at a - resolved_at b) (filter isResolved surviving)
      in if length surviving > maxItems
         then fold set_add (map li_id (take (length surviving - maxItems) resolvedOldestFirst)) expiredIds
         else expiredIds)"

definition prune :: "'j item_ledger \<Rightarrow> string \<Rightarrow> nat \<Rightarrow> int \<Rightarrow> time \<Rightarrow> 'j item_ledger \<times> nat" where
  "prune s loopId maxItems retentionMs now =
     (let ids = doomed (forLoop s loopId) maxItems retentionMs now
      in (s\<lparr>il_items := fold (\<lambda>i m. dm_delete m i) ids (il_items s)\<rparr>, length ids))"

definition get_item :: "'j item_ledger \<Rightarrow> string \<Rightarrow> 'j loop_item option" where
  "get_item s i = dm_get (il_items s) i"

definition queued :: "'j item_ledger \<Rightarrow> string \<Rightarrow> nat option \<Rightarrow> 'j loop_item list" where
  "queued s loopId limit =
     (let q = js_sort (\<lambda>a b. li_createdAt a - li_createdAt b) (filter (\<lambda>it. li_status it = LQueued) (forLoop s loopId))
      in (case limit of None \<Rightarrow> q | Some n \<Rightarrow> take n q))"

definition claim_item :: "'j item_ledger \<Rightarrow> string \<Rightarrow> time \<Rightarrow> uuid \<Rightarrow> 'j item_ledger \<times> 'j loop_item option" where
  "claim_item s i now u =
     apply_item s i
       (\<lambda>it. li_status it = LQueued \<or>
             (li_status it = LInProgress \<and> or_else (li_claimedAt it) 0 + CLAIM_LEASE_MS \<le> now))
       (\<lambda>it. it\<lparr>li_status := LInProgress, li_attempts := li_attempts it + 1, li_claimedAt := Some now,
                li_claimToken := Some u, li_parkedReason := None, li_updatedAt := now\<rparr>)
       None now"

definition acquireDecision :: "'j item_ledger \<Rightarrow> string \<Rightarrow> time \<Rightarrow> uuid \<Rightarrow> 'j item_ledger \<times> string option" where
  "acquireDecision s i decisionAt u =
     (case apply_item s i
            (\<lambda>it. \<not> (truthy (li_decisionToken it) \<and> or_else (li_decisionAt it) 0 + DECISION_LEASE_MS > decisionAt))
            (\<lambda>it. it\<lparr>li_decisionAt := Some decisionAt, li_decisionToken := Some u, li_updatedAt := decisionAt\<rparr>)
            None decisionAt of
        (s', None) \<Rightarrow> (s', None) | (s', Some _) \<Rightarrow> (s', Some u))"

definition releaseDecision :: "'j item_ledger \<Rightarrow> string \<Rightarrow> string \<Rightarrow> time \<Rightarrow> 'j item_ledger \<times> bool" where
  "releaseDecision s i token now =
     (case apply_item s i (\<lambda>it. li_decisionToken it = Some token)
            (\<lambda>it. it\<lparr>li_decisionAt := None, li_decisionToken := None, li_updatedAt := now\<rparr>) None now of
        (s', after) \<Rightarrow> (s', after \<noteq> None))"

definition recordRun :: "'j item_ledger \<Rightarrow> string \<Rightarrow> string \<Rightarrow> string \<Rightarrow> time \<Rightarrow> 'j item_ledger \<times> 'j loop_item option" where
  "recordRun s i runId claimToken now =
     transition s i [LInProgress]
       (\<lambda>it. it\<lparr>li_runIds := js_set_of (li_runIds it @ [runId]), li_updatedAt := now\<rparr>) (Some claimToken) None now"

definition markReady :: "'j item_ledger \<Rightarrow> string \<Rightarrow> string list \<Rightarrow> string \<Rightarrow> time \<Rightarrow> 'j item_ledger \<times> 'j loop_item option" where
  "markReady s i outputIds claimToken now =
     transition s i [LInProgress]
       (\<lambda>it. it\<lparr>li_status := LReady, li_outputIds := js_set_of (li_outputIds it @ outputIds),
                li_claimedAt := None, li_claimToken := None, li_updatedAt := now\<rparr>)
       (Some claimToken) (Some EvReady) now"

definition markShipped :: "'j item_ledger \<Rightarrow> string \<Rightarrow> string option \<Rightarrow> time \<Rightarrow> 'j item_ledger \<times> 'j loop_item option" where
  "markShipped s i claimToken now =
     transition s i [LReady, LInProgress]
       (\<lambda>it. it\<lparr>li_status := LShipped, li_claimedAt := None, li_claimToken := None, li_updatedAt := now\<rparr>)
       claimToken (Some EvShipped) now"

definition returnToWork :: "'j item_ledger \<Rightarrow> string \<Rightarrow> string \<Rightarrow> string option \<Rightarrow> time \<Rightarrow> 'j item_ledger \<times> 'j loop_item option" where
  "returnToWork s i guidance claimToken now =
     transition s i [LReady, LInProgress]
       (\<lambda>it. it\<lparr>li_status := LQueued, li_guidance := Some guidance, li_claimedAt := None, li_claimToken := None,
                li_updatedAt := now\<rparr>)
       claimToken (Some EvReturned) now"

definition park :: "'j item_ledger \<Rightarrow> string \<Rightarrow> string \<Rightarrow> string option \<Rightarrow> time \<Rightarrow> 'j item_ledger \<times> 'j loop_item option" where
  "park s i reason claimToken now =
     transition s i [LQueued, LInProgress, LReady]
       (\<lambda>it. it\<lparr>li_status := (if li_status it = LReady then LReady else LFailed), li_parkedReason := Some reason,
                li_claimedAt := None, li_claimToken := None, li_updatedAt := now\<rparr>)
       claimToken (Some EvParked) now"

definition skip :: "'j item_ledger \<Rightarrow> string \<Rightarrow> string \<Rightarrow> time \<Rightarrow> 'j item_ledger \<times> 'j loop_item option" where
  "skip s i reason now =
     transition s i [LQueued, LInProgress]
       (\<lambda>it. it\<lparr>li_status := LSkipped, li_parkedReason := Some reason, li_claimedAt := None, li_updatedAt := now\<rparr>)
       None (Some EvSkipped) now"

definition stats :: "'j item_ledger \<Rightarrow> string \<Rightarrow> time \<Rightarrow> loop_queue_stats" where
  "stats s loopId now =
     (let items = forLoop s loopId;
          q = filter (\<lambda>it. li_status it = LQueued) items;
          oldest = foldl (\<lambda>acc it. case acc of None \<Rightarrow> Some (li_createdAt it)
                            | Some a \<Rightarrow> if li_createdAt it < a then Some (li_createdAt it) else Some a) None q
      in \<lparr>lq_queued = length q,
          lq_inProgress = length (filter (\<lambda>it. li_status it = LInProgress) items),
          lq_ready = length (filter (\<lambda>it. li_status it = LReady) items),
          lq_failed = length (filter (\<lambda>it. li_status it = LFailed) items),
          lq_oldestQueuedAgeMs = map_option (\<lambda>o'. max 0 (now - o')) oldest\<rparr>)"

definition deleteByLoop_items :: "'j item_ledger \<Rightarrow> string \<Rightarrow> 'j item_ledger" where
  "deleteByLoop_items s loopId =
     s\<lparr>il_items := fold (\<lambda>i m. dm_delete m i) (map li_id (forLoop s loopId)) (il_items s)\<rparr>"

end
