(* ===== verification/Loop_Item_Props.thy ===== *)
theory Loop_Item_Props
  imports Loop_Items
begin

text \<open>
  Properties of the item ledger: the claim invariant over every sequence of operations, the
  exclusion a claim token gives, what ingesting does to resolved items, and what pruning keeps.
\<close>

section \<open>The claim invariant\<close>

definition item_ok :: "'j loop_item \<Rightarrow> bool" where
  "item_ok it =
     ((li_status it = LInProgress \<longleftrightarrow> li_claimToken it \<noteq> None) \<and>
      (li_status it = LInProgress \<longleftrightarrow> li_claimedAt it \<noteq> None) \<and>
      length (or_else (li_thread it) []) \<le> LEDGER_THREAD_MAX \<and>
      length (or_else (li_agentDrafts it) []) \<le> AGENT_DRAFT_HISTORY)"

abbreviation item_at :: "'j item_ledger \<Rightarrow> string \<Rightarrow> 'j loop_item option" where
  "item_at s i \<equiv> map_get (il_items s) i"

definition ledger_ok :: "'j item_ledger \<Rightarrow> bool" where
  "ledger_ok s = (map_ok (il_items s) \<and> (\<forall>i it. item_at s i = Some it \<longrightarrow> li_id it = i \<and> item_ok it))"

lemma ledger_okD: "ledger_ok s \<Longrightarrow> item_at s i = Some it \<Longrightarrow> li_id it = i \<and> item_ok it"
  by (simp add: ledger_ok_def)

lemma il_items_emit [simp]: "il_items (emit x op now s) = il_items s"
  by (simp add: emit_def split: option.split)

lemma apply_item_items [store_simps]:
  "il_items (fst (apply_item s i ok f op now)) = fst (guarded_update (il_items s) i ok f)"
  "snd (apply_item s i ok f op now) = snd (guarded_update (il_items s) i ok f)"
  by (simp_all add: apply_item_def case_prod_unfold Let_def split: option.split)

lemma apply_item_refused:
  assumes "\<And>it. item_at s i = Some it \<Longrightarrow> \<not> ok it"
  shows "apply_item s i ok f op now = (s, None)"
proof (cases rule: guarded_update_cases [of "il_items s" i ok f])
  case 1
  then show ?thesis by (simp add: apply_item_def emit_def split: option.split)
next
  case (2 v)
  with assms show ?thesis by blast
qed

text \<open>
  What an operation does to the items: it changes at most the items its guard admits, each one to
  an item with the same id that keeps the invariant.
\<close>

definition keeps_item :: "('j loop_item \<Rightarrow> bool) \<Rightarrow> ('j loop_item \<Rightarrow> 'j loop_item) \<Rightarrow> bool" where
  "keeps_item ok f = (\<forall>it. item_ok it \<and> ok it \<longrightarrow> li_id (f it) = li_id it \<and> item_ok (f it))"

lemma ledger_ok_apply [inv_intros]:
  assumes "ledger_ok s" "keeps_item ok f"
  shows "ledger_ok (fst (apply_item s i ok f op now))"
  using assms
  by (auto simp: ledger_ok_def apply_item_items guarded_update_get keeps_item_def map_ok_guarded
      split: if_splits)

lemma withAgentDraft_fields [simp]:
  "li_status (withAgentDraft env a p b) = li_status b" "li_id (withAgentDraft env a p b) = li_id b"
  "li_claimToken (withAgentDraft env a p b) = li_claimToken b" "li_claimedAt (withAgentDraft env a p b) = li_claimedAt b"
  "li_thread (withAgentDraft env a p b) = li_thread b"
  "length (or_else (li_agentDrafts (withAgentDraft env a p b)) []) \<le> AGENT_DRAFT_HISTORY"
  by (simp_all add: withAgentDraft_def Let_def)

lemma mergeIngest_fields:
  assumes "mergeIngest env it e now = Some it'"
  shows "li_id it' = li_id it" "li_claimToken it' = li_claimToken it" "li_claimedAt it' = li_claimedAt it"
    "li_thread it' = li_thread it" "length (or_else (li_agentDrafts it') []) \<le> AGENT_DRAFT_HISTORY"
    "li_status it' = LInProgress \<longleftrightarrow> li_status it = LInProgress"
  using assms
  by (auto simp: mergeIngest_def Let_def nextIngestStatus_def isResolved_def ledgerState_def split: if_splits)

lemma keeps_mergeIngest:
  "keeps_item (\<lambda>it. mergeIngest env it e now \<noteq> None) (\<lambda>it. the (mergeIngest env it e now))"
  by (auto simp: keeps_item_def item_ok_def mergeIngest_fields)

lemma blank_item_simps [simp]:
  "li_id (blank_item i l k st now) = i" "li_status (blank_item i l k st now) = st"
  "li_claimToken (blank_item i l k st now) = None" "li_claimedAt (blank_item i l k st now) = None"
  "li_thread (blank_item i l k st now) = None" "li_agentDrafts (blank_item i l k st now) = None"
  by (simp_all add: blank_item_def)

lemma ingest_candidate_ok [simp]:
  "item_ok (ingest_candidate env e now)" "li_id (ingest_candidate env e now) = loopItemId env (ie_loopId e) (ie_dedupeKey e)"
  "li_claimToken (ingest_candidate env e now) = None"
  by (auto simp: ingest_candidate_def Let_def item_ok_def)

lemma ledger_ok_insert:
  assumes "ledger_ok s" "item_ok c" "li_id c = i"
  shows "ledger_ok (s\<lparr>il_items := fst (insertIfAbsent (il_items s) i c)\<rparr>)"
  using assms by (auto simp: ledger_ok_def insertIfAbsent_def split: if_splits)

lemma ledger_ok_emit [simp]: "ledger_ok (emit x op now s) = ledger_ok s"
  by (simp add: ledger_ok_def)

lemma ingest_one_cases:
  "ingest_one env now e (s, oc) =
     (let c = ingest_candidate env e now
      in if item_at s (li_id c) = None
         then (emit (Some c) EvIngest now (s\<lparr>il_items := map_set (li_id c) c (il_items s)\<rparr>), oc\<lparr>io_created := io_created oc + 1\<rparr>)
         else (let r = apply_item s (li_id c) (\<lambda>it. mergeIngest env it e now \<noteq> None)
                         (\<lambda>it. the (mergeIngest env it e now)) (Some EvIngest) now
               in (fst r, if snd r = None then oc\<lparr>io_skipped := io_skipped oc + 1\<rparr>
                          else oc\<lparr>io_updated := io_updated oc + 1\<rparr>)))"
  by (auto simp: ingest_one_def insertIfAbsent_def Let_def split: prod.split option.split)

lemma ledger_ok_ingest_one [inv_intros]:
  assumes "ledger_ok s"
  shows "ledger_ok (fst (ingest_one env now e (s, oc)))"
  using assms ledger_ok_insert [OF assms ingest_candidate_ok(1) refl, of env e now]
  by (auto simp: ingest_one_cases Let_def ledger_ok_apply keeps_mergeIngest insertIfAbsent_def simp del: not_None_eq)

lemma ledger_ok_ingest [inv_intros]: "ledger_ok s \<Longrightarrow> ledger_ok (fst (ingest env s es))"
proof -
  have "ledger_ok s \<Longrightarrow> ledger_ok (fst (fold (\<lambda>(e, now). ingest_one env now e) es (s, oc)))" for oc
  proof (induction es arbitrary: s oc)
    case (Cons e es)
    obtain a b where ab: "ingest_one env (snd e) (fst e) (s, oc) = (a, b)" by force
    with ledger_ok_ingest_one [OF Cons.prems, of env "snd e" "fst e" oc] have "ledger_ok a" by simp
    with Cons.IH ab show ?case by (simp add: case_prod_unfold)
  qed simp
  then show "ledger_ok s \<Longrightarrow> ledger_ok (fst (ingest env s es))" by (simp add: ingest_def)
qed

lemma ledger_ok_delete:
  assumes "ledger_ok s"
  shows "ledger_ok (s\<lparr>il_items := fold (\<lambda>i m. dm_delete m i) is (il_items s)\<rparr>)"
proof -
  have "map_ok m \<Longrightarrow> map_ok (fold (\<lambda>i m. dm_delete m i) is m)" for m :: "'a loop_item dmap"
    by (induction "is" arbitrary: m) (auto simp: dm_delete_def)
  then show ?thesis
    using assms dm.get_dels [of "is" "il_items s"] by (auto simp: ledger_ok_def dm_get_def split: if_splits)
qed

text \<open>The condition under which \<open>transition\<close> applies.\<close>

abbreviation may_move :: "loop_item_status list \<Rightarrow> string option \<Rightarrow> 'j loop_item \<Rightarrow> bool" where
  "may_move allowed tok it \<equiv>
     li_status it \<in> set allowed \<and> \<not> (li_status it = LInProgress \<and> li_claimToken it \<noteq> tok)"

lemma ledger_ok_transition [inv_intros]:
  "ledger_ok s \<Longrightarrow> keeps_item (may_move allowed tok) f \<Longrightarrow> ledger_ok (fst (transition s i allowed f tok op now))"
  by (simp add: transition_def ledger_ok_apply)

section \<open>Steps\<close>

inductive il_step :: "'j loop_env \<Rightarrow> (uuid \<Rightarrow> bool) \<Rightarrow> 'j item_ledger \<Rightarrow> 'j item_ledger \<Rightarrow> bool" for env fr where
  il_enqueue: "il_step env fr s (fst (enqueue_item env s inp now))"
| il_ingest: "il_step env fr s (fst (ingest_one env now e (s, oc)))"
| il_proposal: "il_step env fr s (fst (setProposal env s i p ea now))"
| il_annotate: "il_step env fr s (fst (annotate s i patch now))"
| il_thread: "il_step env fr s (fst (appendThread s i ms now))"
| il_action: "il_step env fr s (fst (recordAction s i ra now))"
| il_reopen: "il_step env fr s (fst (reopen s i now))"
| il_prune: "il_step env fr s (fst (prune s l mx ret now))"
| il_claim: "fr u \<Longrightarrow> il_step env fr s (fst (claim_item s i now u))"
| il_acquire: "il_step env fr s (fst (acquireDecision s i now u))"
| il_release: "il_step env fr s (fst (releaseDecision s i tk now))"
| il_recordRun: "il_step env fr s (fst (recordRun s i r tk now))"
| il_ready: "il_step env fr s (fst (markReady s i os tk now))"
| il_shipped: "il_step env fr s (fst (markShipped s i tko now))"
| il_return: "il_step env fr s (fst (returnToWork s i g tko now))"
| il_park: "il_step env fr s (fst (park s i g tko now))"
| il_skip: "il_step env fr s (fst (skip s i g now))"
| il_delete: "il_step env fr s (deleteByLoop_items s l)"

definition il_init :: "'j item_ledger \<Rightarrow> bool" where
  "il_init s = (s = createLoopItemLedger)"

lemmas item_ops = setProposal_def annotate_def appendThread_def recordAction_def reopen_def claim_item_def
  recordRun_def markReady_def markShipped_def returnToWork_def park_def skip_def

lemma acquire_release_fst:
  "fst (acquireDecision s i at u) = fst (apply_item s i
     (\<lambda>it. \<not> (truthy (li_decisionToken it) \<and> or_else (li_decisionAt it) 0 + DECISION_LEASE_MS > at))
     (\<lambda>it. it\<lparr>li_decisionAt := Some at, li_decisionToken := Some u, li_updatedAt := at\<rparr>) None at)"
  "fst (releaseDecision s i tk now) = fst (apply_item s i (\<lambda>it. li_decisionToken it = Some tk)
     (\<lambda>it. it\<lparr>li_decisionAt := None, li_decisionToken := None, li_updatedAt := now\<rparr>) None now)"
  by (simp_all add: acquireDecision_def releaseDecision_def split: prod.split option.split)

lemma enqueue_item_fst:
  "\<exists>c. fst (enqueue_item env s inp now) = s\<lparr>il_items := fst (insertIfAbsent (il_items s) (li_id c) c)\<rparr> \<and>
     item_ok c \<and> li_claimToken c = None"
proof -
  let ?c = "(blank_item (loopItemId env (eq_loopId inp) (eq_sourceKey inp)) (eq_loopId inp) (eq_sourceKey inp) LQueued now)
      \<lparr>li_sourceSummary := eq_sourceSummary inp\<rparr> :: 'a loop_item"
  have "fst (enqueue_item env s inp now) = s\<lparr>il_items := fst (insertIfAbsent (il_items s) (li_id ?c) ?c)\<rparr>"
    by (simp add: enqueue_item_def Let_def case_prod_unfold)
  moreover have "item_ok ?c \<and> li_claimToken ?c = None" by (simp add: item_ok_def)
  ultimately show ?thesis by blast
qed

lemma ledger_ok_step: "ledger_ok s \<Longrightarrow> il_step env fr s t \<Longrightarrow> ledger_ok t"
proof (erule il_step.cases)
  show "ledger_ok s \<Longrightarrow> s = s' \<Longrightarrow> t = fst (enqueue_item env s' inp now) \<Longrightarrow> ledger_ok t" for s' inp now
    using enqueue_item_fst [of env s inp now] by (auto simp: ledger_ok_insert)
qed (auto simp: item_ops acquire_release_fst prune_def deleteByLoop_items_def Let_def keeps_item_def item_ok_def
    intro!: ledger_ok_apply ledger_ok_transition ledger_ok_ingest_one ledger_ok_delete)

lemma ledger_ok_init: "il_init s \<Longrightarrow> ledger_ok s"
  by (simp add: il_init_def createLoopItemLedger_def createMemoryMap_def ledger_ok_def)

interpretation il: invariant_system il_init "il_step env fr" ledger_ok for env fr
  by unfold_locales (fact ledger_ok_init, fact ledger_ok_step)

section \<open>Claim tokens\<close>

text \<open>A step gives an item a claim token only by keeping the one it had or by a fresh one.\<close>

definition tok_change :: "(uuid \<Rightarrow> bool) \<Rightarrow> 'j item_ledger \<Rightarrow> 'j item_ledger \<Rightarrow> bool" where
  "tok_change fr s t = (\<forall>i it' u. item_at t i = Some it' \<and> li_claimToken it' = Some u \<longrightarrow>
     fr u \<or> (\<exists>it. item_at s i = Some it \<and> li_claimToken it = Some u))"

lemma tok_change_apply:
  "(\<And>it u. li_claimToken (f it) = Some u \<Longrightarrow> ok it \<Longrightarrow> fr u \<or> li_claimToken it = Some u) \<Longrightarrow>
     tok_change fr s (fst (apply_item s i ok f op now))"
  by (auto simp: tok_change_def apply_item_items guarded_update_get split: if_splits)

lemma tok_change_insert:
  "li_claimToken c = None \<Longrightarrow> tok_change fr s (s\<lparr>il_items := fst (insertIfAbsent (il_items s) i c)\<rparr>)"
  by (auto simp: tok_change_def insertIfAbsent_def split: if_splits)

lemma tok_change_emit [simp]: "tok_change fr s (emit x op now t) = tok_change fr s t"
  by (simp add: tok_change_def)

lemma tok_change_ingest: "tok_change fr s (fst (ingest_one env now e (s, oc)))"
proof (cases "item_at s (loopItemId env (ie_loopId e) (ie_dedupeKey e)) = None")
  case True
  then show ?thesis
    using tok_change_insert [OF ingest_candidate_ok(3), of fr s "loopItemId env (ie_loopId e) (ie_dedupeKey e)" env e now]
    by (simp add: ingest_one_cases Let_def insertIfAbsent_def)
next
  case False
  moreover have "tok_change fr s (fst (apply_item s i (\<lambda>it. mergeIngest env it e now \<noteq> None)
      (\<lambda>it. the (mergeIngest env it e now)) (Some EvIngest) now))" for i
    by (rule tok_change_apply) (auto simp: mergeIngest_fields(2))
  ultimately show ?thesis by (simp add: ingest_one_cases Let_def del: not_None_eq)
qed

lemma tok_change_delete: "tok_change fr s (s\<lparr>il_items := fold (\<lambda>i m. dm_delete m i) is (il_items s)\<rparr>)"
  using dm.get_dels [of "is" "il_items s"] by (auto simp: tok_change_def dm_get_def split: if_splits)

lemma tok_change_refl [simp]: "tok_change fr s s"
  by (simp add: tok_change_def)

lemma tok_change_step: "il_step env fr s t \<Longrightarrow> tok_change fr s t"
proof (erule il_step.cases)
  show "s = s' \<Longrightarrow> t = fst (enqueue_item env s' inp now) \<Longrightarrow> tok_change fr s t" for s' inp now
    using enqueue_item_fst [of env s inp now] by (auto simp: tok_change_insert)
qed (auto simp: item_ops transition_def acquire_release_fst prune_def deleteByLoop_items_def Let_def
    intro!: tok_change_apply tok_change_ingest tok_change_delete)

definition item_holds :: "'j item_ledger \<Rightarrow> string \<Rightarrow> string \<Rightarrow> bool" where
  "item_holds s i t = (\<exists>it. item_at s i = Some it \<and> li_status it = LInProgress \<and> li_claimToken it = Some t)"

lemma claim_token_stays_dead:
  assumes "(il_step env (\<lambda>u. u \<noteq> old))\<^sup>*\<^sup>* s t" "\<And>it. item_at s i = Some it \<Longrightarrow> li_claimToken it \<noteq> Some old"
  shows "item_at t i = Some it \<Longrightarrow> li_claimToken it \<noteq> Some old"
  using assms
proof (induction arbitrary: it rule: rtranclp_induct)
  case (step t t')
  from tok_change_step [OF step.hyps(2)] step.IH step.prems show ?case
    unfolding tok_change_def by blast
qed blast

text \<open>The operations a worker does under its claim.\<close>

lemma transition_stale:
  assumes "set allowed \<subseteq> {LInProgress}" "\<not> item_holds s i t"
  shows "transition s i allowed f (Some t) op now = (s, None)"
  unfolding transition_def using assms by (intro apply_item_refused) (auto simp: item_holds_def)

interpretation rr: token_guarded item_holds "\<lambda>s i t. recordRun s i r t now" None for r now
  by unfold_locales (simp add: recordRun_def transition_stale)

interpretation mr: token_guarded item_holds "\<lambda>s i t. markReady s i os t now" None for os now
  by unfold_locales (simp add: markReady_def transition_stale)

text \<open>
  A claim excludes other workers: in every reachable ledger an item carries a claim token
  exactly while it is in progress; while its lease of ten minutes runs nobody else can claim it;
  and once it was taken over, the token of the worker that lost it no longer records runs or
  completes the item, after any further operations, as long as the generator does not repeat it.
\<close>

theorem item_claim_exclusive:
  assumes "reach il_init (il_step env fr) s" "item_at s i = Some it"
  shows "(li_status it = LInProgress \<longleftrightarrow> li_claimToken it \<noteq> None) \<and>
    (li_status it = LInProgress \<and> li_claimedAt it = Some c \<and> now < c + CLAIM_LEASE_MS \<longrightarrow> claim_item s i now u = (s, None)) \<and>
    (li_claimToken it = Some old \<and> snd (claim_item s i now u) \<noteq> None \<and> u \<noteq> old \<and>
       (il_step env (\<lambda>v. v \<noteq> old))\<^sup>*\<^sup>* (fst (claim_item s i now u)) t \<longrightarrow>
       recordRun t i r old n1 = (t, None) \<and> markReady t i os old n2 = (t, None))"
proof (intro conjI impI)
  have ok: "item_ok it" using ledger_okD [OF il.reach_inv [OF assms(1)] assms(2)] by simp
  then show "li_status it = LInProgress \<longleftrightarrow> li_claimToken it \<noteq> None" by (simp add: item_ok_def)
  show "claim_item s i now u = (s, None)"
    if "li_status it = LInProgress \<and> li_claimedAt it = Some c \<and> now < c + CLAIM_LEASE_MS"
    unfolding claim_item_def using that assms(2) by (intro apply_item_refused) simp
  assume h: "li_claimToken it = Some old \<and> snd (claim_item s i now u) \<noteq> None \<and> u \<noteq> old \<and>
       (il_step env (\<lambda>v. v \<noteq> old))\<^sup>*\<^sup>* (fst (claim_item s i now u)) t"
  have "li_claimToken it' \<noteq> Some old" if "item_at (fst (claim_item s i now u)) i = Some it'" for it'
    using that h assms(2)
    by (auto simp: claim_item_def apply_item_items guarded_update_get store_simps split: if_splits)
  with h have "\<not> item_holds t i old" using claim_token_stays_dead [of env old _ t i] unfolding item_holds_def by metis
  then show "recordRun t i r old n1 = (t, None)" "markReady t i os old n2 = (t, None)"
    by (simp_all add: rr.stale_refused mr.stale_refused)
qed

text \<open>
  A claimed item cannot be skipped: although \<open>skip\<close> lists the status \<open>in_progress\<close> among
  those it applies to, it passes no claim token, and in every reachable ledger it refuses an item
  that is in progress and changes nothing.
\<close>

theorem claimed_item_not_skippable:
  assumes "reach il_init (il_step env fr) s" "item_at s i = Some it" "li_status it = LInProgress"
  shows "skip s i reason now = (s, None)"
proof -
  have "li_claimToken it \<noteq> None"
    using ledger_okD [OF il.reach_inv [OF assms(1)] assms(2)] assms(3) by (simp add: item_ok_def)
  with assms(2,3) show ?thesis
    unfolding skip_def transition_def by (intro apply_item_refused) auto
qed

section \<open>Ingesting\<close>

text \<open>
  Ingesting respects what was decided: every entry is counted once as created, updated or
  skipped; an item that is already shipped or skipped is touched by an entry only when its source
  is newer than the one seen, and otherwise keeps its status, proposal and outcome; a human's
  proposal survives every entry that is not newer.
\<close>

theorem ingest_respects_decisions:
  "(let oc = snd (ingest env s es) in io_created oc + io_updated oc + io_skipped oc = length es) \<and>
   (item_at s (loopItemId env (ie_loopId e) (ie_dedupeKey e)) = Some it \<and>
      \<not> (\<exists>t. ie_sourceAt e = Some t \<and> t > or_else (li_sourceAt it) 0) \<and> isResolved it \<longrightarrow>
      fst (ingest_one env now e (s, oc0)) = s) \<and>
   (item_at s (loopItemId env (ie_loopId e) (ie_dedupeKey e)) = Some it \<and>
      \<not> (\<exists>t. ie_sourceAt e = Some t \<and> t > or_else (li_sourceAt it) 0) \<and>
      li_proposal it = Some p \<and> lp_by p = ByHuman \<longrightarrow>
      map_option li_proposal (item_at (fst (ingest_one env now e (s, oc0))) (loopItemId env (ie_loopId e) (ie_dedupeKey e))) = Some (Some p))"
proof (intro conjI impI)
  have one: "io_created (snd (ingest_one env n x st)) + io_updated (snd (ingest_one env n x st)) + io_skipped (snd (ingest_one env n x st))
      = Suc (io_created (snd st) + io_updated (snd st) + io_skipped (snd st))" for n x st
    by (cases st) (simp add: ingest_one_cases Let_def)
  have "io_created (snd r) + io_updated (snd r) + io_skipped (snd r) =
      length es + (io_created (snd st) + io_updated (snd st) + io_skipped (snd st))"
    if "r = fold (\<lambda>(x, n). ingest_one env n x) es st" for r st
    using that by (induction es arbitrary: st) (auto simp: one case_prod_unfold)
  then show "let oc = snd (ingest env s es) in io_created oc + io_updated oc + io_skipped oc = length es"
    by (simp add: ingest_def Let_def)
  let ?i = "loopItemId env (ie_loopId e) (ie_dedupeKey e)"
  {
    assume h: "item_at s ?i = Some it \<and> \<not> (\<exists>t. ie_sourceAt e = Some t \<and> t > or_else (li_sourceAt it) 0) \<and> isResolved it"
    then have "mergeIngest env it e now = None" by (auto simp: mergeIngest_def Let_def split: option.split)
    then have "apply_item s ?i (\<lambda>it. mergeIngest env it e now \<noteq> None) (\<lambda>it. the (mergeIngest env it e now)) (Some EvIngest) now = (s, None)"
      using h by (intro apply_item_refused) simp
    then show "fst (ingest_one env now e (s, oc0)) = s" using h by (simp add: ingest_one_cases Let_def del: not_None_eq)
  }
  {
    assume h: "item_at s ?i = Some it \<and> \<not> (\<exists>t. ie_sourceAt e = Some t \<and> t > or_else (li_sourceAt it) 0) \<and>
      li_proposal it = Some p \<and> lp_by p = ByHuman"
    have "li_proposal it' = Some p" if "mergeIngest env it e now = Some it'" for it'
      using that h by (auto simp: mergeIngest_def Let_def split: if_splits option.splits)
    then show "map_option li_proposal (item_at (fst (ingest_one env now e (s, oc0))) ?i) = Some (Some p)"
      using h by (auto simp: ingest_one_cases Let_def apply_item_items guarded_update_get)
  }
qed

section \<open>Pruning\<close>

lemma set_doomed:
  assumes "i \<in> set (doomed items mx ret now)"
  shows "\<exists>it\<in>set items. li_id it = i \<and> isResolved it"
proof -
  let ?exp = "filter (\<lambda>it. isResolved it \<and> now - resolved_at it \<ge> ret) items"
  let ?sur = "filter (\<lambda>it. li_id it \<notin> set (js_set_of (map li_id ?exp))) items"
  let ?old = "take (length ?sur - mx) (js_sort (\<lambda>a b. resolved_at a - resolved_at b) (filter isResolved ?sur))"
  have sub: "set (doomed items mx ret now) \<subseteq> li_id ` (set ?exp \<union> set ?old)"
    unfolding doomed_def Let_def by (auto simp: set_fold_set_add split: if_splits)
  have "set ?old \<subseteq> {it \<in> set items. isResolved it}"
    using set_take_subset [of "length ?sur - mx" "js_sort (\<lambda>a b. resolved_at a - resolved_at b) (filter isResolved ?sur)"]
    by (simp only: set_js_sort) auto
  moreover have "set ?exp \<subseteq> {it \<in> set items. isResolved it}" by auto
  ultimately show ?thesis using sub assms by blast
qed

text \<open>
  Pruning forgets only what is resolved: an item that is not shipped or skipped, or that belongs
  to another loop, is kept unchanged, and nothing is added.
\<close>

theorem prune_keeps_open_work:
  assumes "reach il_init (il_step env fr) s"
  shows "(item_at s i = Some it \<and> (\<not> isResolved it \<or> li_loopId it \<noteq> l) \<longrightarrow> item_at (fst (prune s l mx ret now)) i = Some it) \<and>
    (item_at (fst (prune s l mx ret now)) i = Some it \<longrightarrow> item_at s i = Some it)"
proof -
  let ?d = "doomed (forLoop s l) mx ret now"
  have get: "item_at (fst (prune s l mx ret now)) i = (if i \<in> set ?d then None else item_at s i)"
    using dm.get_dels [of ?d "il_items s" i] by (simp add: prune_def Let_def dm_get_def)
  have "isResolved it \<and> li_loopId it = l" if d: "i \<in> set ?d" and at: "item_at s i = Some it"
  proof -
    obtain it' where it': "it' \<in> set (forLoop s l)" "li_id it' = i" "isResolved it'" using set_doomed [OF d] by blast
    have ok: "map_ok (il_items s)" using il.reach_inv [OF assms] by (simp add: ledger_ok_def)
    then obtain j where "item_at s j = Some it'" "li_loopId it' = l"
      using it'(1) by (auto simp: forLoop_def set_dm_all)
    moreover from this have "j = i" using ledger_okD [OF il.reach_inv [OF assms], of j it'] it'(2) by simp
    ultimately show ?thesis using at it'(3) by simp
  qed
  then show ?thesis unfolding get by (auto split: if_splits)
qed

section \<open>The theorems applied\<close>

definition ex_env :: "unit loop_env" where
  "ex_env = \<lparr>env_hashId = concat, env_contentPart = (\<lambda>s. s @ ''|''), env_canonicalJson = (\<lambda>d. concat (map fst d)),
     env_wireMentionKeys = (\<lambda>s. [s])\<rparr>"

definition ex_ledger0 :: "unit item_ledger" where
  "ex_ledger0 = fst (enqueue_item ex_env createLoopItemLedger
     \<lparr>eq_loopId = ''l'', eq_sourceKey = ''k'', eq_sourceSummary = None\<rparr> 5)"

definition ex_ledger1 :: "unit item_ledger" where
  "ex_ledger1 = fst (claim_item ex_ledger0 ''l|k|'' 10 ''t1'')"

definition ex_item :: "unit loop_item" where
  "ex_item = the (item_at ex_ledger1 ''l|k|'')"

lemma ex_ledger_reach:
  "reach il_init (il_step ex_env (\<lambda>_. True)) ex_ledger0" "reach il_init (il_step ex_env (\<lambda>_. True)) ex_ledger1"
proof -
  show 0: "reach il_init (il_step ex_env (\<lambda>_. True)) ex_ledger0"
    unfolding ex_ledger0_def by (rule reach_step, rule reach_init, simp add: il_init_def, rule il_enqueue)
  show "reach il_init (il_step ex_env (\<lambda>_. True)) ex_ledger1"
    unfolding ex_ledger1_def by (rule reach_step [OF 0], rule il_claim) simp
qed

lemma ex_item_at: "item_at ex_ledger1 ''l|k|'' = Some ex_item" "li_status ex_item = LInProgress" "li_claimedAt ex_item = Some 10"
  "li_claimToken ex_item = Some ''t1''"
  by code_simp+

theorem item_claim_exclusive_witness:
  "claim_item ex_ledger1 ''l|k|'' 20 ''t2'' = (ex_ledger1, None) \<and> li_claimToken ex_item \<noteq> None"
  using item_claim_exclusive [OF ex_ledger_reach(2) ex_item_at(1), of 10 20 "''t2''"] ex_item_at(2,3)
  by (simp add: CLAIM_LEASE_MS_def)

theorem claimed_item_not_skippable_witness: "skip ex_ledger1 ''l|k|'' ''no'' 20 = (ex_ledger1, None)"
  by (rule claimed_item_not_skippable [OF ex_ledger_reach(2) ex_item_at(1,2)])

theorem ingest_respects_decisions_witness:
  "(let oc = snd (ingest ex_env ex_ledger1 [(\<lparr>ie_loopId = ''l'', ie_dedupeKey = ''k'', ie_source = None, ie_summary = None,
      ie_sourcePayload = [], ie_sourceAt = None, ie_proposal = None\<rparr>, 7)]) in io_created oc + io_updated oc + io_skipped oc = 1)"
  using ingest_respects_decisions [of ex_env ex_ledger1 "[(\<lparr>ie_loopId = ''l'', ie_dedupeKey = ''k'', ie_source = None, ie_summary = None,
      ie_sourcePayload = [], ie_sourceAt = None, ie_proposal = None\<rparr>, 7)]"] by simp

theorem prune_keeps_open_work_witness:
  "item_at (fst (prune ex_ledger1 ''l'' 0 0 100)) ''l|k|'' = Some ex_item"
  using prune_keeps_open_work [OF ex_ledger_reach(2), of "''l|k|''" ex_item "''l''" 0 0 100] ex_item_at(1,2)
  by (simp add: isResolved_def ledgerState_def)

end
