(* ===== verification/Loop_Outputs.thy ===== *)
theory Loop_Outputs
  imports Loop_Types
begin

text \<open>
  The outputs of a loop's work (\<open>src/loops/output-store.ts\<close>): captured as staged, promoted to
  ready, claimed for shipping under a token, and decided. The store is the map of outputs; ids
  are made by the hash \<open>outputId\<close> of the captured fields.
\<close>

section \<open>The store\<close>

record capture_output_input =
  co_loopId :: string
  co_itemId :: string
  co_attemptId :: string
  co_ordinal :: "nat option"
  co_shipAction :: string
  co_title :: string
  co_capturedBy :: captured_by
  co_label :: "string option"
  co_externalRef :: "string option"
  co_summary :: "string option"

record classify_output_input =
  cl_title :: "string option"
  cl_summary :: "string option"
  cl_label :: "string option"
  cl_externalRef :: "string option"

record decide_output_input =
  di_actorId :: string
  di_note :: "string option"

text \<open>\<open>loopOutputId\<close>: the hash of loop, item, attempt, action, ordinal and external reference.\<close>

type_synonym output_hash = "string \<Rightarrow> string \<Rightarrow> string \<Rightarrow> string \<Rightarrow> nat \<Rightarrow> string option \<Rightarrow> string"

definition SHIP_LEASE_MS :: int where
  "SHIP_LEASE_MS = 600000"

definition isDecided :: "loop_output \<Rightarrow> bool" where
  "isDecided output = (lo_state output \<in> {OShipped, OReturned})"

definition unresolvedOutput :: "loop_output \<Rightarrow> bool" where
  "unresolvedOutput output = (lo_state output = OReady \<or> lo_state output = OShipping \<or> lo_state output = OUnconfirmed)"

definition forLoop_outputs :: "loop_output dmap \<Rightarrow> string \<Rightarrow> loop_output list" where
  "forLoop_outputs m loopId = filter (\<lambda>out. lo_loopId out = loopId) (dm_all m)"

definition byAttempt :: "loop_output dmap \<Rightarrow> string \<Rightarrow> string \<Rightarrow> loop_output list" where
  "byAttempt m itemId attemptId = filter (\<lambda>out. lo_itemId out = itemId \<and> lo_attemptId out = attemptId) (dm_all m)"

text \<open>\<open>applyIf\<close> is the guarded update; the change gets the clock.\<close>

definition applyIf ::
  "loop_output dmap \<Rightarrow> string \<Rightarrow> (loop_output \<Rightarrow> bool) \<Rightarrow> (loop_output \<Rightarrow> time \<Rightarrow> loop_output) \<Rightarrow> time
     \<Rightarrow> loop_output dmap \<times> loop_output option" where
  "applyIf m i when change now = guarded_update m i when (\<lambda>out. change out now)"

definition capture :: "output_hash \<Rightarrow> loop_output dmap \<Rightarrow> capture_output_input \<Rightarrow> time \<Rightarrow> loop_output dmap \<times> loop_output" where
  "capture outputId m input now =
     (let i = outputId (co_loopId input) (co_itemId input) (co_attemptId input) (co_shipAction input)
                (or_else (co_ordinal input) 0) (co_externalRef input);
          prior = filter (\<lambda>out. lo_itemId out = co_itemId input \<and> lo_attemptId out \<noteq> co_attemptId input \<and>
                     lo_shipAction out = co_shipAction input \<and> lo_externalRef out = co_externalRef input)
                    (forLoop_outputs m (co_loopId input));
          candidate = \<lparr>lo_id = i, lo_loopId = co_loopId input, lo_itemId = co_itemId input,
             lo_attemptId = co_attemptId input, lo_shipAction = co_shipAction input, lo_label = co_label input,
             lo_externalRef = co_externalRef input, lo_title = co_title input, lo_summary = co_summary input,
             lo_state = OStaged, lo_capturedBy = co_capturedBy input, lo_createdAt = now, lo_updatedAt = now,
             lo_decidedBy = None, lo_decidedAt = None, lo_decisionNote = None, lo_claimedAt = None,
             lo_claimToken = None, lo_shipFireKey = None, lo_shipResult = None,
             lo_supersedesOutputIds = (if prior \<noteq> [] then Some (map lo_id prior) else None),
             lo_supersededByOutputIds = None\<rparr>
      in (case putIfAbsent m i candidate of (m1, captured) \<Rightarrow>
            (fold (\<lambda>out m2. fst (dm_update m2 (lo_id out)
                      (\<lambda>cur. cur\<lparr>lo_supersededByOutputIds :=
                                   Some (js_set_of (or_else (lo_supersededByOutputIds cur) [] @ [lo_id captured])),
                                 lo_updatedAt := now\<rparr>))) prior m1, captured)))"

definition byItem :: "loop_output dmap \<Rightarrow> string \<Rightarrow> loop_output list" where
  "byItem m itemId = filter (\<lambda>out. lo_itemId out = itemId) (dm_all m)"

definition awaitingReview :: "loop_output dmap \<Rightarrow> string \<Rightarrow> loop_output list" where
  "awaitingReview m loopId =
     js_sort (\<lambda>a b. lo_createdAt a - lo_createdAt b) (filter (\<lambda>out. lo_state out = OReady) (forLoop_outputs m loopId))"

definition classify :: "loop_output dmap \<Rightarrow> string \<Rightarrow> classify_output_input \<Rightarrow> time \<Rightarrow> loop_output dmap \<times> loop_output option" where
  "classify m i input now =
     dm_update m i (\<lambda>out. out\<lparr>lo_title := or_else (cl_title input) (lo_title out),
        lo_summary := or_opt (cl_summary input) (lo_summary out), lo_label := or_opt (cl_label input) (lo_label out),
        lo_externalRef := or_opt (cl_externalRef input) (lo_externalRef out), lo_updatedAt := now\<rparr>)"

text \<open>The loops that apply one change to a list of outputs and collect those it applied to.\<close>

fun apply_each ::
  "(loop_output \<Rightarrow> bool) \<Rightarrow> (loop_output \<Rightarrow> time \<Rightarrow> loop_output) \<Rightarrow> time \<Rightarrow> loop_output list \<Rightarrow> loop_output dmap
     \<Rightarrow> loop_output dmap \<times> loop_output list" where
  "apply_each when change now [] m = (m, [])"
| "apply_each when change now (out # outs) m =
     (case applyIf m (lo_id out) when change now of (m1, after) \<Rightarrow>
        (case apply_each when change now outs m1 of (m2, acc) \<Rightarrow>
           (m2, (case after of None \<Rightarrow> acc | Some a \<Rightarrow> a # acc))))"

definition promoteAttempt :: "loop_output dmap \<Rightarrow> string \<Rightarrow> string \<Rightarrow> time \<Rightarrow> loop_output dmap \<times> loop_output list" where
  "promoteAttempt m itemId attemptId now =
     apply_each (\<lambda>cur. lo_state cur = OStaged) (\<lambda>cur now. cur\<lparr>lo_state := OReady, lo_updatedAt := now\<rparr>) now
       (byAttempt m itemId attemptId) m"

definition supersedeAttempt :: "loop_output dmap \<Rightarrow> string \<Rightarrow> string \<Rightarrow> time \<Rightarrow> loop_output dmap \<times> loop_output list" where
  "supersedeAttempt m itemId attemptId now =
     apply_each (\<lambda>cur. lo_state cur = OStaged \<or> lo_state cur = OReady)
       (\<lambda>cur now. cur\<lparr>lo_state := OSuperseded, lo_updatedAt := now\<rparr>) now (byAttempt m itemId attemptId) m"

definition supersedeActiveSiblings :: "loop_output dmap \<Rightarrow> string \<Rightarrow> string \<Rightarrow> time \<Rightarrow> loop_output dmap \<times> loop_output list" where
  "supersedeActiveSiblings m itemId exceptOutputId now =
     apply_each (\<lambda>cur. lo_state cur = OStaged \<or> unresolvedOutput cur)
       (\<lambda>cur now. cur\<lparr>lo_state := OSuperseded, lo_updatedAt := now\<rparr>) now
       (filter (\<lambda>c. lo_itemId c = itemId \<and> lo_id c \<noteq> exceptOutputId \<and> (lo_state c = OStaged \<or> unresolvedOutput c))
          (dm_all m)) m"

definition claimShipping :: "loop_output dmap \<Rightarrow> string \<Rightarrow> time \<Rightarrow> uuid \<Rightarrow> loop_output dmap \<times> loop_output option" where
  "claimShipping m i claimedAt u =
     applyIf m i
       (\<lambda>out. lo_state out = OReady \<or> (lo_state out = OShipping \<and> or_else (lo_claimedAt out) 0 + SHIP_LEASE_MS \<le> claimedAt))
       (\<lambda>out _. out\<lparr>lo_state := OShipping, lo_claimedAt := Some claimedAt, lo_claimToken := Some u, lo_updatedAt := claimedAt\<rparr>)
       claimedAt"

text \<open>The guard of the operations a shipper does under its claim.\<close>

definition ship_held :: "string \<Rightarrow> loop_output \<Rightarrow> bool" where
  "ship_held claimToken out = (lo_state out = OShipping \<and> lo_claimToken out = Some claimToken)"

definition beginShipAttempt :: "loop_output dmap \<Rightarrow> string \<Rightarrow> string \<Rightarrow> string \<Rightarrow> time \<Rightarrow> loop_output dmap \<times> loop_output option" where
  "beginShipAttempt m i claimToken shipFireKey now =
     applyIf m i (ship_held claimToken)
       (\<lambda>out now. out\<lparr>lo_shipFireKey := Some shipFireKey, lo_updatedAt := now\<rparr>) now"

definition markUnconfirmed :: "loop_output dmap \<Rightarrow> string \<Rightarrow> string \<Rightarrow> time \<Rightarrow> loop_output dmap \<times> loop_output option" where
  "markUnconfirmed m i claimToken now =
     applyIf m i (ship_held claimToken)
       (\<lambda>out now. out\<lparr>lo_state := OUnconfirmed, lo_claimedAt := None, lo_claimToken := None, lo_updatedAt := now\<rparr>) now"

definition confirmShipped :: "loop_output dmap \<Rightarrow> string \<Rightarrow> decide_output_input \<Rightarrow> time \<Rightarrow> loop_output dmap \<times> loop_output option" where
  "confirmShipped m i input now =
     applyIf m i (\<lambda>out. lo_state out = OUnconfirmed)
       (\<lambda>out now. out\<lparr>lo_state := OShipped, lo_decidedBy := Some (di_actorId input), lo_decidedAt := Some now,
          lo_updatedAt := now, lo_decisionNote := or_opt (di_note input) (lo_decisionNote out)\<rparr>) now"

definition completeShipping ::
  "loop_output dmap \<Rightarrow> string \<Rightarrow> string \<Rightarrow> decide_output_input \<Rightarrow> loop_ship_result \<Rightarrow> time \<Rightarrow> loop_output dmap \<times> loop_output option" where
  "completeShipping m i claimToken input result now =
     applyIf m i (ship_held claimToken)
       (\<lambda>out now. out\<lparr>lo_state := OShipped, lo_decidedBy := Some (di_actorId input), lo_decidedAt := Some now,
          lo_updatedAt := now, lo_shipResult := Some result, lo_claimedAt := None, lo_claimToken := None,
          lo_decisionNote := or_opt (di_note input) (lo_decisionNote out)\<rparr>) now"

definition failShipping :: "loop_output dmap \<Rightarrow> string \<Rightarrow> string \<Rightarrow> time \<Rightarrow> loop_output dmap \<times> loop_output option" where
  "failShipping m i claimToken now =
     applyIf m i (ship_held claimToken)
       (\<lambda>out now. out\<lparr>lo_state := OReady, lo_claimedAt := None, lo_claimToken := None, lo_updatedAt := now\<rparr>) now"

definition returnToLoop :: "loop_output dmap \<Rightarrow> string \<Rightarrow> decide_output_input \<Rightarrow> time \<Rightarrow> loop_output dmap \<times> loop_output option" where
  "returnToLoop m i input now =
     applyIf m i (\<lambda>out. lo_state out = OReady \<or> lo_state out = OUnconfirmed)
       (\<lambda>out now. out\<lparr>lo_state := OReturned, lo_decidedBy := Some (di_actorId input), lo_decidedAt := Some now,
          lo_updatedAt := now, lo_decisionNote := or_opt (di_note input) (lo_decisionNote out)\<rparr>) now"

definition expireOlderThan :: "loop_output dmap \<Rightarrow> string \<Rightarrow> time \<Rightarrow> time \<Rightarrow> loop_output dmap \<times> loop_output list" where
  "expireOlderThan m loopId cutoff now =
     apply_each (\<lambda>cur. lo_state cur = OReady) (\<lambda>cur now. cur\<lparr>lo_state := OExpired, lo_updatedAt := now\<rparr>) now
       (filter (\<lambda>out. lo_state out = OReady \<and> lo_createdAt out < cutoff) (forLoop_outputs m loopId)) m"

definition deleteByLoop_outputs :: "loop_output dmap \<Rightarrow> string \<Rightarrow> loop_output dmap" where
  "deleteByLoop_outputs m loopId = fold (\<lambda>out m. dm_delete m (lo_id out)) (forLoop_outputs m loopId) m"

section \<open>Steps\<close>

text \<open>Every operation but the deletion of a loop, as a step with its fresh tokens in \<open>fr\<close>.\<close>

inductive lo_step :: "output_hash \<Rightarrow> (uuid \<Rightarrow> bool) \<Rightarrow> loop_output dmap \<Rightarrow> loop_output dmap \<Rightarrow> bool" for h fr where
  lo_capture: "lo_step h fr m (fst (capture h m inp now))"
| lo_classify: "lo_step h fr m (fst (classify m i ci now))"
| lo_promote: "lo_step h fr m (fst (promoteAttempt m it at now))"
| lo_supersede: "lo_step h fr m (fst (supersedeAttempt m it at now))"
| lo_siblings: "lo_step h fr m (fst (supersedeActiveSiblings m it ex now))"
| lo_claim: "fr u \<Longrightarrow> lo_step h fr m (fst (claimShipping m i now u))"
| lo_begin: "lo_step h fr m (fst (beginShipAttempt m i tk fk now))"
| lo_unconfirmed: "lo_step h fr m (fst (markUnconfirmed m i tk now))"
| lo_confirm: "lo_step h fr m (fst (confirmShipped m i di now))"
| lo_complete: "lo_step h fr m (fst (completeShipping m i tk di res now))"
| lo_fail: "lo_step h fr m (fst (failShipping m i tk now))"
| lo_return: "lo_step h fr m (fst (returnToLoop m i di now))"
| lo_expire: "lo_step h fr m (fst (expireOlderThan m l c now))"

definition final_state :: "loop_output_state \<Rightarrow> bool" where
  "final_state st = (st \<in> {OShipped, OReturned, OSuperseded, OExpired})"

text \<open>
  What a step may do: an output that is final keeps its decision, and no output gets a claim token
  but a fresh one or the one it had.
\<close>

definition same_decision :: "loop_output \<Rightarrow> loop_output \<Rightarrow> bool" where
  "same_decision a b =
     (lo_state b = lo_state a \<and> lo_decidedBy b = lo_decidedBy a \<and> lo_decidedAt b = lo_decidedAt a \<and>
      lo_shipResult b = lo_shipResult a \<and> lo_decisionNote b = lo_decisionNote a)"

definition outs_change :: "(uuid \<Rightarrow> bool) \<Rightarrow> loop_output dmap \<Rightarrow> loop_output dmap \<Rightarrow> bool" where
  "outs_change fr m m' =
     ((\<forall>i a. map_get m i = Some a \<longrightarrow> (\<exists>b. map_get m' i = Some b \<and> (final_state (lo_state a) \<longrightarrow> same_decision a b))) \<and>
      (\<forall>i b u. map_get m' i = Some b \<and> lo_claimToken b = Some u \<longrightarrow>
         fr u \<or> (\<exists>a. map_get m i = Some a \<and> lo_claimToken a = Some u)))"

lemma outs_change_refl [simp]: "outs_change fr m m"
  by (simp add: outs_change_def same_decision_def)

lemma outs_change_trans [trans]:
  assumes "outs_change fr a b" "outs_change fr b c"
  shows "outs_change fr a c"
proof -
  have "\<exists>z. map_get c i = Some z \<and> (final_state (lo_state x) \<longrightarrow> same_decision x z)" if x: "map_get a i = Some x" for i x
  proof -
    obtain y where y: "map_get b i = Some y" "final_state (lo_state x) \<longrightarrow> same_decision x y"
      using assms(1) x unfolding outs_change_def by blast
    obtain z where z: "map_get c i = Some z" "final_state (lo_state y) \<longrightarrow> same_decision y z"
      using assms(2) y(1) unfolding outs_change_def by blast
    show ?thesis using y z by (auto simp: same_decision_def)
  qed
  moreover have "fr u \<or> (\<exists>x. map_get a i = Some x \<and> lo_claimToken x = Some u)"
    if "map_get c i = Some z" "lo_claimToken z = Some u" for i z u
    using assms that unfolding outs_change_def by blast
  ultimately show ?thesis unfolding outs_change_def by blast
qed

text \<open>A guarded change of one output, and an unguarded one that leaves decision and token alone.\<close>

lemma outs_change_applyIf:
  assumes "\<And>out. when out \<Longrightarrow> \<not> final_state (lo_state out)"
    and "\<And>out u. when out \<Longrightarrow> lo_claimToken (change out now) = Some u \<Longrightarrow> fr u \<or> lo_claimToken out = Some u"
  shows "outs_change fr m (fst (applyIf m i when change now))"
  using assms unfolding outs_change_def applyIf_def
  by (auto simp: guarded_update_get same_decision_def split: if_splits)

lemma outs_change_update:
  assumes "\<And>out. same_decision out (f out) \<and> lo_claimToken (f out) = lo_claimToken out"
  shows "outs_change fr m (fst (dm_update m i f))"
  using assms unfolding outs_change_def dm_update_def
  by (auto simp: same_decision_def split: option.split if_splits)

lemma outs_change_each:
  assumes "\<And>out. when out \<Longrightarrow> \<not> final_state (lo_state out)"
    and "\<And>out u. when out \<Longrightarrow> lo_claimToken (change out now) = Some u \<Longrightarrow> fr u \<or> lo_claimToken out = Some u"
  shows "outs_change fr m (fst (apply_each when change now outs m))"
proof (induction outs arbitrary: m)
  case (Cons out outs)
  have "outs_change fr m (fst (applyIf m (lo_id out) when change now))" by (rule outs_change_applyIf) (use assms in auto)
  also have "outs_change fr (fst (applyIf m (lo_id out) when change now))
      (fst (apply_each when change now outs (fst (applyIf m (lo_id out) when change now))))" by (rule Cons.IH)
  finally show ?case by (simp add: case_prod_unfold)
qed simp

lemma outs_change_capture: "outs_change fr m (fst (capture h m inp now))"
proof -
  have up: "outs_change fr m1 (fold (\<lambda>out m2. fst (dm_update m2 (lo_id out)
      (\<lambda>cur. cur\<lparr>lo_supersededByOutputIds := Some (js_set_of (or_else (lo_supersededByOutputIds cur) [] @ [c])), lo_updatedAt := now\<rparr>)))
      outs m1)" for outs m1 c
  proof (induction outs arbitrary: m1)
    case (Cons out outs)
    have "outs_change fr m1 (fst (dm_update m1 (lo_id out)
      (\<lambda>cur. cur\<lparr>lo_supersededByOutputIds := Some (js_set_of (or_else (lo_supersededByOutputIds cur) [] @ [c])), lo_updatedAt := now\<rparr>)))"
      by (rule outs_change_update) (simp add: same_decision_def)
    with Cons.IH show ?case by (auto intro: outs_change_trans)
  qed simp
  have put: "lo_claimToken v = None \<Longrightarrow> outs_change fr m (fst (putIfAbsent m i v))" for i v
    by (auto simp: putIfAbsent_def outs_change_def same_decision_def split: option.split if_splits)
  show ?thesis
    unfolding capture_def Let_def case_prod_unfold fst_conv
    by (rule outs_change_trans [OF put up]) simp
qed

lemmas output_ops = classify_def promoteAttempt_def supersedeAttempt_def supersedeActiveSiblings_def claimShipping_def
  beginShipAttempt_def markUnconfirmed_def confirmShipped_def completeShipping_def failShipping_def returnToLoop_def
  expireOlderThan_def

lemma outs_change_step: "lo_step h fr m m' \<Longrightarrow> outs_change fr m m'"
  by (erule lo_step.cases)
    (auto simp: output_ops ship_held_def final_state_def unresolvedOutput_def same_decision_def
      intro!: outs_change_capture outs_change_each outs_change_applyIf outs_change_update)

lemma outs_change_steps: "(lo_step h fr)\<^sup>*\<^sup>* m m' \<Longrightarrow> outs_change fr m m'"
  by (induction rule: rtranclp_induct) (auto intro: outs_change_trans outs_change_step)

section \<open>Shipping under a claim\<close>

definition ship_holds :: "loop_output dmap \<Rightarrow> string \<Rightarrow> string \<Rightarrow> bool" where
  "ship_holds m i t = (\<exists>out. map_get m i = Some out \<and> lo_claimToken out = Some t)"

lemma ship_held_token: "token_guarded ship_holds (\<lambda>m i t. guarded_update m i (ship_held t) (f t)) None"
  unfolding ship_holds_def by (rule guarded_update_token) (simp add: ship_held_def)

interpretation bs: token_guarded ship_holds "\<lambda>m i t. beginShipAttempt m i t fk now" None for fk now
  unfolding beginShipAttempt_def applyIf_def by (rule ship_held_token)

interpretation mu: token_guarded ship_holds "\<lambda>m i t. markUnconfirmed m i t now" None for now
  unfolding markUnconfirmed_def applyIf_def by (rule ship_held_token)

interpretation cs: token_guarded ship_holds "\<lambda>m i t. completeShipping m i t di res now" None for di res now
  unfolding completeShipping_def applyIf_def by (rule ship_held_token)

interpretation fs: token_guarded ship_holds "\<lambda>m i t. failShipping m i t now" None for now
  unfolding failShipping_def applyIf_def by (rule ship_held_token)

text \<open>
  An output is decided once: when an output is shipped, returned, superseded or expired, no
  sequence of operations changes its state, who decided it, when, with which note or result; and
  from then on it can be neither claimed, completed, confirmed nor returned again.
\<close>

theorem output_decided_once:
  assumes "map_get m i = Some a" "final_state (lo_state a)" "(lo_step h fr)\<^sup>*\<^sup>* m m'"
  shows "(\<exists>b. map_get m' i = Some b \<and> lo_state b = lo_state a \<and> lo_decidedBy b = lo_decidedBy a \<and>
      lo_decidedAt b = lo_decidedAt a \<and> lo_shipResult b = lo_shipResult a \<and> lo_decisionNote b = lo_decisionNote a) \<and>
    claimShipping m' i n1 u = (m', None) \<and> completeShipping m' i t di res n2 = (m', None) \<and>
    confirmShipped m' i di n3 = (m', None) \<and> returnToLoop m' i di n4 = (m', None)"
proof -
  obtain b where b: "map_get m' i = Some b" "same_decision a b"
    using outs_change_steps [OF assms(3)] assms(1,2) unfolding outs_change_def by blast
  then have fin: "final_state (lo_state b)" using assms(2) by (simp add: same_decision_def)
  have no: "guarded_update m' i ok f = (m', None)" if "\<not> ok b" for ok f
    using b(1) that by (rule guarded_update_simps(2))
  show ?thesis
    using b fin
    by (auto simp: same_decision_def claimShipping_def completeShipping_def confirmShipped_def returnToLoop_def applyIf_def
        final_state_def ship_held_def intro!: no)
qed

text \<open>
  C27. Shipping is exclusive: while the lease of a shipping claim runs nobody else can claim the
  output; and once the claim was taken over with a fresh token, the holder of the old one can
  neither begin an attempt nor complete, fail or report the shipping, after any further
  operations that do not repeat the old token.
\<close>

theorem shipping_exclusive:
  assumes "map_get m i = Some out" "lo_state out = OShipping" "lo_claimToken out = Some old" "lo_claimedAt out = Some c"
  shows "(now < c + SHIP_LEASE_MS \<longrightarrow> claimShipping m i now u = (m, None)) \<and>
    (c + SHIP_LEASE_MS \<le> now \<and> u \<noteq> old \<and> (lo_step h (\<lambda>v. v \<noteq> old))\<^sup>*\<^sup>* (fst (claimShipping m i now u)) m' \<longrightarrow>
       snd (claimShipping m i now u) \<noteq> None \<and>
       beginShipAttempt m' i old fk n1 = (m', None) \<and> completeShipping m' i old di res n2 = (m', None) \<and>
       failShipping m' i old n3 = (m', None) \<and> markUnconfirmed m' i old n4 = (m', None))"
proof (intro conjI impI)
  show "claimShipping m i now u = (m, None)" if "now < c + SHIP_LEASE_MS"
    using that assms by (simp add: claimShipping_def applyIf_def store_simps)
  assume h: "c + SHIP_LEASE_MS \<le> now \<and> u \<noteq> old \<and> (lo_step h (\<lambda>v. v \<noteq> old))\<^sup>*\<^sup>* (fst (claimShipping m i now u)) m'"
  let ?new = "out\<lparr>lo_state := OShipping, lo_claimedAt := Some now, lo_claimToken := Some u, lo_updatedAt := now\<rparr>"
  have claim: "claimShipping m i now u = (map_set i ?new m, Some ?new)"
    using h assms by (simp add: claimShipping_def applyIf_def store_simps)
  then show "snd (claimShipping m i now u) \<noteq> None" by simp
  have "\<not> ship_holds m' i old"
    using outs_change_steps [of h "\<lambda>v. v \<noteq> old" "map_set i ?new m" m'] h claim
    unfolding outs_change_def ship_holds_def by (auto split: if_splits)
  then show "beginShipAttempt m' i old fk n1 = (m', None)" "completeShipping m' i old di res n2 = (m', None)"
    "failShipping m' i old n3 = (m', None)" "markUnconfirmed m' i old n4 = (m', None)"
    by (simp_all add: bs.stale_refused cs.stale_refused fs.stale_refused mu.stale_refused)
qed

section \<open>The theorems applied\<close>

definition ex_output :: loop_output where
  "ex_output = snd (capture (\<lambda>l i a s n e. l @ i @ a @ s) createMemoryMap
     \<lparr>co_loopId = ''l'', co_itemId = ''i'', co_attemptId = ''a'', co_ordinal = None, co_shipAction = ''mail'', co_title = ''T'',
      co_capturedBy = CbAgent, co_label = None, co_externalRef = None, co_summary = None\<rparr> 1)"

theorem output_decided_once_witness:
  "claimShipping [(''o'', ex_output\<lparr>lo_state := OShipped\<rparr>)] ''o'' 9 ''u'' = ([(''o'', ex_output\<lparr>lo_state := OShipped\<rparr>)], None)"
proof -
  have "map_get [(''o'', ex_output\<lparr>lo_state := OShipped\<rparr>)] ''o'' = Some (ex_output\<lparr>lo_state := OShipped\<rparr>)"
    "final_state (lo_state (ex_output\<lparr>lo_state := OShipped\<rparr>))" by (simp_all add: final_state_def)
  from output_decided_once [OF this rtranclp.rtrancl_refl] show ?thesis by blast
qed

theorem shipping_exclusive_witness:
  "claimShipping [(''o'', ex_output\<lparr>lo_state := OShipping, lo_claimToken := Some ''t'', lo_claimedAt := Some 5\<rparr>)] ''o'' 9 ''u'' =
     ([(''o'', ex_output\<lparr>lo_state := OShipping, lo_claimToken := Some ''t'', lo_claimedAt := Some 5\<rparr>)], None)"
  using shipping_exclusive [of "[(''o'', ex_output\<lparr>lo_state := OShipping, lo_claimToken := Some ''t'', lo_claimedAt := Some 5\<rparr>)]" "''o''"
    "ex_output\<lparr>lo_state := OShipping, lo_claimToken := Some ''t'', lo_claimedAt := Some 5\<rparr>" "''t''" 5 9 "''u''"]
  by (simp add: SHIP_LEASE_MS_def)

end
