(* ===== verification/Loop_Store.thy ===== *)
theory Loop_Store
  imports Complex_Main Loop_Outputs
begin

text \<open>
  Loops, their ship gate and the standing ship grants (\<open>src/loops/loop-store.ts\<close>,
  \<open>src/loops/ship-gate.ts\<close>, \<open>src/loops/ship-grant-store.ts\<close>). A loop extends the trigger record;
  the hash that makes its id from the input is the argument \<open>contentId\<close>. A thrown error is \<open>Inl\<close>
  with its message.
\<close>

section \<open>Loops\<close>

record loop_governor_config =
  lg_maxConsecutiveFailedFires :: "nat option"
  lg_maxQueueDepth :: "nat option"
  lg_maxQueueAgeMs :: "int option"
  lg_maxReturnRate :: "real option"
  lg_returnRateMinDecisions :: "nat option"
  lg_staleFireMs :: "int option"

record loop = trigger_base +
  l_name :: string
  l_purpose :: "string option"
  l_surface :: "string option"
  l_sources :: "string list option"
  l_playbook :: string
  l_playbookVersion :: nat
  l_playbookHistory :: "playbook_revision list"
  l_policyVersion :: "nat option"
  l_successCondition :: string
  l_successChecks :: "string list option"
  l_shipActions :: "ship_action_policy list"
  l_caps :: "loop_caps option"
  l_governor :: "loop_governor_config option"
  l_state :: loop_state
  l_health :: loop_health
  l_healthReason :: "string option"
  l_throttle :: bool
  l_cronId :: "string option"
  l_runAs :: "run_as option"
  l_consecutiveFailedFires :: "nat option"
  l_quarantineClearedBy :: "string option"
  l_quarantineClearedAt :: "time option"

record create_loop_input = create_trigger_input +
  cli_name :: string
  cli_surface :: "string option"
  cli_sources :: "string list option"
  cli_playbook :: string
  cli_successCondition :: string
  cli_purpose :: "string option"
  cli_successChecks :: "string list option"
  cli_shipActions :: "ship_action_policy list option"
  cli_caps :: "loop_caps option"
  cli_governor :: "loop_governor_config option"
  cli_cronId :: "string option"
  cli_runAs :: "run_as option"

record playbook_edit =
  pe_playbook :: string
  pe_by :: string
  pe_note :: "string option"

text \<open>A field that may be patched to \<open>null\<close> is a nested option: \<open>Some None\<close> clears it.\<close>

record loop_patch =
  pt_name :: "string option"
  pt_purpose :: "string option"
  pt_successCondition :: "string option"
  pt_successChecks :: "string list option"
  pt_destination :: "destination option option"
  pt_recipientConsent :: "recipient_consent option option"
  pt_shipActions :: "ship_action_policy list option"
  pt_caps :: "loop_caps option"
  pt_governor :: "loop_governor_config option"
  pt_cronId :: "string option"
  pt_runAs :: "run_as option"
  pt_state :: "loop_state option"
  pt_playbookEdit :: "playbook_edit option"
  pt_restore :: "loop option"
  pt_quarantineClearedBy :: "string option"
  pt_quarantineClearedAt :: "time option"

definition isRunnable :: "loop \<Rightarrow> bool" where
  "isRunnable loop = (l_state loop = LEnabled)"

definition normalizeName :: "string \<Rightarrow> string + string" where
  "normalizeName name =
     (let trimmed = collapse_spaces (trim name)
      in if trimmed = [] then Inl ''a loop needs a name''
         else Inr (if length trimmed > 80 then take 79 trimmed @ ''...'' else trimmed))"

definition normalizeShipActions :: "ship_action_policy list option \<Rightarrow> ship_action_policy list" where
  "normalizeShipActions actions =
     map_vals (fold (\<lambda>pol byAction.
         let action = trim (sap_action pol)
         in if action \<noteq> [] then map_set action \<lparr>sap_action = action, sap_gate = sap_gate pol\<rparr> byAction else byAction)
       (or_else actions []) [])"

definition with_state :: "loop_state \<Rightarrow> loop \<Rightarrow> loop" where
  "with_state st loop = loop\<lparr>l_state := st, t_enabled := (st = LEnabled)\<rparr>"

definition create_loop ::
  "(create_loop_input \<Rightarrow> string \<Rightarrow> string) \<Rightarrow> loop dmap \<Rightarrow> create_loop_input \<Rightarrow> time \<Rightarrow> string + loop dmap \<times> loop \<times> bool" where
  "create_loop contentId m input now =
     (if \<not> assertNoEscalation (ct_owner input) (ct_createdBy input) (ct_ownerConsentedAt input)
      then Inl ''assigning a different owner requires that owner's consent''
      else (case normalizeName (cli_name input) of
        Inl err \<Rightarrow> Inl err
      | Inr name \<Rightarrow>
          let i = contentId input name;
              base = buildTriggerBase (create_trigger_input.truncate input) i now;
              candidate = \<lparr>t_id = t_id base, t_ownerScopeId = t_ownerScopeId base, t_owner = t_owner base,
                 t_createdBy = t_createdBy base, t_ownerConsentedAt = t_ownerConsentedAt base,
                 t_destination = t_destination base, t_enabled = True, t_createdAt = t_createdAt base,
                 t_lastFiredAt = t_lastFiredAt base, t_recipientConsent = t_recipientConsent base,
                 l_name = name, l_purpose = cli_purpose input, l_surface = cli_surface input,
                 l_sources = cli_sources input, l_playbook = cli_playbook input, l_playbookVersion = 1,
                 l_playbookHistory = [\<lparr>pr_version = 1, pr_at = now, pr_by = ct_createdBy input, pr_note = None\<rparr>],
                 l_policyVersion = Some 1, l_successCondition = cli_successCondition input,
                 l_successChecks = cli_successChecks input, l_shipActions = normalizeShipActions (cli_shipActions input),
                 l_caps = cli_caps input, l_governor = cli_governor input, l_state = LEnabled, l_health = Healthy,
                 l_healthReason = None, l_throttle = False,
                 l_cronId = (if truthy (cli_cronId input) then cli_cronId input else None),
                 l_runAs = cli_runAs input, l_consecutiveFailedFires = None, l_quarantineClearedBy = None,
                 l_quarantineClearedAt = None\<rparr>
          in (case insertIfAbsent m i candidate of (m', created) \<Rightarrow>
                Inr (m', (if created then candidate else or_else (dm_get m' i) candidate), created))))"

definition byCron :: "loop dmap \<Rightarrow> string \<Rightarrow> loop option" where
  "byCron m cronId = List.find (\<lambda>loop. l_cronId loop = Some cronId) (dm_all m)"

text \<open>The fields of a patch that are copied over as they are.\<close>

definition patch_fields :: "loop_patch \<Rightarrow> loop \<Rightarrow> loop" where
  "patch_fields patch loop =
     loop\<lparr>l_purpose := or_opt (pt_purpose patch) (l_purpose loop),
          l_successCondition := or_else (pt_successCondition patch) (l_successCondition loop),
          l_successChecks := or_opt (pt_successChecks patch) (l_successChecks loop),
          t_destination := or_else (pt_destination patch) (t_destination loop),
          t_recipientConsent := or_else (pt_recipientConsent patch) (t_recipientConsent loop),
          l_caps := or_opt (pt_caps patch) (l_caps loop),
          l_governor := or_opt (pt_governor patch) (l_governor loop),
          l_cronId := or_opt (pt_cronId patch) (l_cronId loop),
          l_runAs := or_opt (pt_runAs patch) (l_runAs loop),
          l_quarantineClearedBy := or_opt (pt_quarantineClearedBy patch) (l_quarantineClearedBy loop),
          l_quarantineClearedAt := or_opt (pt_quarantineClearedAt patch) (l_quarantineClearedAt loop)\<rparr>"

definition patch_loop :: "loop_patch \<Rightarrow> time \<Rightarrow> loop \<Rightarrow> string + loop" where
  "patch_loop patch now loop =
     (case pt_restore patch of
        Some r \<Rightarrow> Inr r
      | None \<Rightarrow>
          (case (case pt_name patch of None \<Rightarrow> Inr (l_name loop) | Some n \<Rightarrow> normalizeName n) of
             Inl err \<Rightarrow> Inl err
           | Inr name \<Rightarrow>
               let l1 = (patch_fields patch loop)\<lparr>l_name := name\<rparr>;
                   l2 = (case pt_shipActions patch of None \<Rightarrow> l1
                         | Some acts \<Rightarrow> l1\<lparr>l_shipActions := normalizeShipActions (Some acts)\<rparr>);
                   actionsChanged = (pt_shipActions patch \<noteq> None \<and> l_shipActions l2 \<noteq> l_shipActions loop);
                   l3 = (case pt_state patch of None \<Rightarrow> l2 | Some st \<Rightarrow> with_state st l2);
                   edited = (case pt_playbookEdit patch of None \<Rightarrow> False | Some e \<Rightarrow> pe_playbook e \<noteq> l_playbook loop);
                   l4 = (if edited
                         then let e = the (pt_playbookEdit patch); version = l_playbookVersion loop + 1
                              in l3\<lparr>l_playbook := pe_playbook e, l_playbookVersion := version,
                                    l_playbookHistory := l_playbookHistory loop @
                                      [\<lparr>pr_version = version, pr_at = now, pr_by = pe_by e, pr_note = pe_note e\<rparr>]\<rparr>
                         else l3)
               in Inr (if actionsChanged \<or> edited
                       then l4\<lparr>l_policyVersion := Some (or_else (l_policyVersion loop) 1 + 1)\<rparr> else l4)))"

definition update_loop :: "loop dmap \<Rightarrow> string \<Rightarrow> loop_patch \<Rightarrow> time \<Rightarrow> string + loop dmap \<times> loop option" where
  "update_loop m i patch now =
     (case map_get m i of
        None \<Rightarrow> Inr (m, None)
      | Some loop \<Rightarrow>
          (case patch_loop patch now loop of
             Inl err \<Rightarrow> Inl err
           | Inr loop' \<Rightarrow> Inr (dm_update m i (\<lambda>_. loop'))))"

definition no_patch :: loop_patch where
  "no_patch = \<lparr>pt_name = None, pt_purpose = None, pt_successCondition = None, pt_successChecks = None,
     pt_destination = None, pt_recipientConsent = None, pt_shipActions = None, pt_caps = None, pt_governor = None,
     pt_cronId = None, pt_runAs = None, pt_state = None, pt_playbookEdit = None, pt_restore = None,
     pt_quarantineClearedBy = None, pt_quarantineClearedAt = None\<rparr>"

definition editPlaybook :: "loop dmap \<Rightarrow> string \<Rightarrow> playbook_edit \<Rightarrow> time \<Rightarrow> string + loop dmap \<times> loop option" where
  "editPlaybook m i edit now = update_loop m i (no_patch\<lparr>pt_playbookEdit := Some edit\<rparr>) now"

definition setState :: "loop dmap \<Rightarrow> string \<Rightarrow> loop_state \<Rightarrow> loop dmap \<times> loop option" where
  "setState m i st = dm_update m i (with_state st)"

definition setHealth :: "loop dmap \<Rightarrow> string \<Rightarrow> loop_health \<Rightarrow> string option \<Rightarrow> bool \<Rightarrow> loop dmap \<times> loop option" where
  "setHealth m i health reason throttle =
     dm_update m i (\<lambda>loop. loop\<lparr>l_health := health, l_healthReason := reason, l_throttle := throttle\<rparr>)"

definition recordFireOutcome :: "loop dmap \<Rightarrow> string \<Rightarrow> bool \<Rightarrow> time \<Rightarrow> loop dmap \<times> loop option" where
  "recordFireOutcome m i failed now =
     dm_update m i (\<lambda>loop. loop\<lparr>l_consecutiveFailedFires :=
         Some (if failed then or_else (l_consecutiveFailedFires loop) 0 + 1 else 0), t_lastFiredAt := Some now\<rparr>)"

definition delete_loop :: "loop dmap \<Rightarrow> string \<Rightarrow> loop dmap" where
  "delete_loop m i = dm_delete m i"

section \<open>The ship gate\<close>

datatype ship_via = ViaPolicy | ViaGrant string

datatype ship_decision = ShipAuto ship_via | ShipHold | ShipUndeclared

record ship_candidate =
  sc_shipAction :: string
  sc_label :: "string option"

definition declaredGate :: "loop \<Rightarrow> string \<Rightarrow> ship_gate option" where
  "declaredGate loop shipAction =
     map_option sap_gate (List.find (\<lambda>pol. sap_action pol = shipAction) (l_shipActions loop))"

definition grantCovers :: "ship_grant \<Rightarrow> loop \<Rightarrow> ship_candidate \<Rightarrow> bool" where
  "grantCovers grant loop candidate =
     (if sg_loopId grant \<noteq> t_id loop \<or> sg_policyVersion grant \<noteq> or_else (l_policyVersion loop) 1 \<or>
         sg_revokedAt grant \<noteq> None \<or> sg_shipAction grant \<noteq> sc_shipAction candidate
      then False
      else sg_label grant = None \<or> sg_label grant = sc_label candidate)"

definition decideShip :: "loop \<Rightarrow> ship_candidate \<Rightarrow> ship_grant list \<Rightarrow> ship_decision" where
  "decideShip loop candidate grants =
     (case declaredGate loop (sc_shipAction candidate) of
        None \<Rightarrow> ShipUndeclared
      | Some Auto \<Rightarrow> ShipAuto ViaPolicy
      | Some Hold \<Rightarrow>
          (case List.find (\<lambda>g. grantCovers g loop candidate) grants of
             Some grant \<Rightarrow> ShipAuto (ViaGrant (sg_id grant))
           | None \<Rightarrow> ShipHold))"

definition graduationAllowed :: "approval_grant_modes option \<Rightarrow> bool" where
  "graduationAllowed modes = (map_option gm_always modes \<noteq> Some False)"

record ship_grant_input =
  gi_loopId :: string
  gi_shipAction :: string
  gi_actorId :: string
  gi_policyVersion :: nat
  gi_label :: "string option"
  gi_modes :: "approval_grant_modes option"

definition buildShipGrant ::
  "(string \<Rightarrow> nat \<Rightarrow> string \<Rightarrow> string option \<Rightarrow> string) \<Rightarrow> ship_grant_input \<Rightarrow> time \<Rightarrow> string + ship_grant" where
  "buildShipGrant grantId input now =
     (if \<not> graduationAllowed (gi_modes input) then Inl ''standing ship grants are disabled for this org''
      else Inr \<lparr>sg_id = grantId (gi_loopId input) (gi_policyVersion input) (gi_shipAction input) (gi_label input),
                sg_loopId = gi_loopId input, sg_shipAction = gi_shipAction input, sg_label = gi_label input,
                sg_actorId = gi_actorId input, sg_policyVersion = gi_policyVersion input, sg_createdAt = now,
                sg_revokedAt = None, sg_revokedBy = None, sg_revocationHistory = None\<rparr>)"

definition outputCandidate :: "loop_output \<Rightarrow> ship_candidate" where
  "outputCandidate output = \<lparr>sc_shipAction = lo_shipAction output, sc_label = lo_label output\<rparr>"

definition undeclaredShipActions :: "loop \<Rightarrow> loop_output list \<Rightarrow> string list" where
  "undeclaredShipActions loop outputs =
     js_set_of (filter (\<lambda>action. action \<notin> set (map sap_action (l_shipActions loop))) (map lo_shipAction outputs))"

section \<open>Standing grants\<close>

definition reactivate :: "ship_grant \<Rightarrow> ship_grant \<Rightarrow> ship_grant" where
  "reactivate grant current =
     (case sg_revokedAt current of
        None \<Rightarrow> current
      | Some since \<Rightarrow>
          current\<lparr>sg_revokedAt := None, sg_revokedBy := None, sg_actorId := sg_actorId grant,
                  sg_createdAt := sg_createdAt grant,
                  sg_revocationHistory := Some (or_else (sg_revocationHistory current) [] @
                    [\<lparr>gr_revokedAt = since, gr_revokedBy = or_else (sg_revokedBy current) ''unknown''\<rparr>])\<rparr>)"

definition put_grant :: "ship_grant dmap \<Rightarrow> ship_grant \<Rightarrow> ship_grant dmap \<times> ship_grant" where
  "put_grant m grant =
     (case putIfAbsent m (sg_id grant) grant of (m1, existing) \<Rightarrow>
        if sg_revokedAt existing = None then (m1, existing)
        else (case dm_update m1 (sg_id grant) (reactivate grant) of (m2, after) \<Rightarrow> (m2, or_else after grant)))"

definition grants_byLoop :: "ship_grant dmap \<Rightarrow> string \<Rightarrow> ship_grant list" where
  "grants_byLoop m loopId = filter (\<lambda>g. sg_loopId g = loopId) (dm_all m)"

definition revoke_grant :: "ship_grant dmap \<Rightarrow> string \<Rightarrow> string \<Rightarrow> time \<Rightarrow> ship_grant dmap \<times> ship_grant option" where
  "revoke_grant m i actorId now =
     dm_update m i (\<lambda>g. if sg_revokedAt g = None then g\<lparr>sg_revokedAt := Some now, sg_revokedBy := Some actorId\<rparr> else g)"

definition delete_grant :: "ship_grant dmap \<Rightarrow> string \<Rightarrow> ship_grant dmap" where
  "delete_grant m i = dm_delete m i"

definition deleteByLoop_grants :: "ship_grant dmap \<Rightarrow> string \<Rightarrow> ship_grant dmap" where
  "deleteByLoop_grants m loopId = fold (\<lambda>g m. dm_delete m (sg_id g)) (grants_byLoop m loopId) m"

section \<open>Properties\<close>

lemma decideShip_auto:
  "decideShip loop c gs = ShipAuto v \<longleftrightarrow>
     (v = ViaPolicy \<and> declaredGate loop (sc_shipAction c) = Some Auto \<or>
      declaredGate loop (sc_shipAction c) = Some Hold \<and>
        (\<exists>g. List.find (\<lambda>g. grantCovers g loop c) gs = Some g \<and> v = ViaGrant (sg_id g)))"
  by (auto simp: decideShip_def split: option.split ship_gate.split)

text \<open>
  Nothing ships without authority: an output ships automatically only when its action is
  declared in the loop, and then either the declaration itself says so, or the store holds a grant
  for this loop, this action, this label or any, issued under the current policy version and not
  revoked; after a grant was revoked it no longer lets anything through.
\<close>

theorem ship_requires_authority:
  assumes "map_ok m" "decideShip loop c (grants_byLoop m (t_id loop)) = ShipAuto v"
  shows "sc_shipAction c \<in> sap_action ` set (l_shipActions loop) \<and>
    (v = ViaPolicy \<and> declaredGate loop (sc_shipAction c) = Some Auto \<or>
     (\<exists>i g. map_get m i = Some g \<and> v = ViaGrant (sg_id g) \<and> sg_loopId g = t_id loop \<and> sg_revokedAt g = None \<and>
        sg_policyVersion g = or_else (l_policyVersion loop) 1 \<and> sg_shipAction g = sc_shipAction c \<and>
        (sg_label g = None \<or> sg_label g = sc_label c))) \<and>
    (\<forall>i g by now. map_get m i = Some g \<longrightarrow>
       \<not> grantCovers (the (map_get (fst (revoke_grant m i by now)) i)) loop c)"
proof (intro conjI allI impI)
  have "declaredGate loop (sc_shipAction c) \<noteq> None" using assms(2) by (auto simp: decideShip_auto)
  then show "sc_shipAction c \<in> sap_action ` set (l_shipActions loop)"
    by (auto simp: declaredGate_def dest!: find_Some_in) (metis imageI)
  have "\<exists>i. map_get m i = Some g \<and> grantCovers g loop c"
    if "List.find (\<lambda>g. grantCovers g loop c) (grants_byLoop m (t_id loop)) = Some g" for g
    using find_Some_in [OF that] assms(1) by (auto simp: grants_byLoop_def set_dm_all)
  then show "v = ViaPolicy \<and> declaredGate loop (sc_shipAction c) = Some Auto \<or>
     (\<exists>i g. map_get m i = Some g \<and> v = ViaGrant (sg_id g) \<and> sg_loopId g = t_id loop \<and> sg_revokedAt g = None \<and>
        sg_policyVersion g = or_else (l_policyVersion loop) 1 \<and> sg_shipAction g = sc_shipAction c \<and>
        (sg_label g = None \<or> sg_label g = sc_label c))"
    using assms(2) unfolding decideShip_auto grantCovers_def by (metis (no_types, lifting))
  show "\<not> grantCovers (the (map_get (fst (revoke_grant m i by now)) i)) loop c" if "map_get m i = Some g" for i g "by" now
    using that by (auto simp: revoke_grant_def dm_update_def grantCovers_def)
qed

lemma patch_loop_version:
  assumes "patch_loop patch now loop = Inr loop'" "pt_restore patch = None"
  shows "t_id loop' = t_id loop \<and>
    l_policyVersion loop' =
      (if l_shipActions loop' \<noteq> l_shipActions loop \<or> l_playbook loop' \<noteq> l_playbook loop
       then Some (or_else (l_policyVersion loop) 1 + 1) else l_policyVersion loop)"
  using assms
  by (auto simp: patch_loop_def Let_def patch_fields_def with_state_def split: option.splits sum.splits if_splits)

text \<open>
  Changing what a loop may do withdraws every standing grant: when an update changes the
  playbook or the ship actions of a loop, the policy version goes up, and no grant issued up to
  then covers anything of the changed loop, so an output ships automatically only if the new
  declaration says so; an update that changes neither keeps the version and with it the grants.
\<close>

theorem policy_change_withdraws_grants:
  assumes "map_get m i = Some loop" "update_loop m i patch now = Inr (m', Some loop')" "pt_restore patch = None"
    and "\<forall>g\<in>set gs. sg_policyVersion g \<le> or_else (l_policyVersion loop) 1"
  shows "(l_shipActions loop' \<noteq> l_shipActions loop \<or> l_playbook loop' \<noteq> l_playbook loop \<longrightarrow>
      decideShip loop' c gs \<in> {ShipAuto ViaPolicy, ShipHold, ShipUndeclared}) \<and>
    (l_shipActions loop' = l_shipActions loop \<and> l_playbook loop' = l_playbook loop \<longrightarrow>
      decideShip loop' c gs = decideShip loop c gs) \<and> map_get m' i = Some loop'"
proof -
  have p: "patch_loop patch now loop = Inr loop'" and m': "m' = map_set i loop' m"
    using assms(1,2) by (auto simp: update_loop_def dm_update_def split: sum.splits)
  note v = patch_loop_version [OF p assms(3)]
  have "\<not> grantCovers g loop' c" if "l_shipActions loop' \<noteq> l_shipActions loop \<or> l_playbook loop' \<noteq> l_playbook loop" "g \<in> set gs" for g
    using v that assms(4) by (fastforce simp: grantCovers_def)
  then have "decideShip loop' c gs \<in> {ShipAuto ViaPolicy, ShipHold, ShipUndeclared}"
    if "l_shipActions loop' \<noteq> l_shipActions loop \<or> l_playbook loop' \<noteq> l_playbook loop"
    using that find_None_all [of "\<lambda>g. grantCovers g loop' c" gs]
    by (auto simp: decideShip_def split: option.split ship_gate.split)
  moreover have "decideShip loop' c gs = decideShip loop c gs"
    if "l_shipActions loop' = l_shipActions loop \<and> l_playbook loop' = l_playbook loop"
  proof -
    have "(\<lambda>g. grantCovers g loop' c) = (\<lambda>g. grantCovers g loop c)"
      using v that by (intro ext) (simp add: grantCovers_def)
    moreover have "declaredGate loop' a = declaredGate loop a" for a using that by (simp add: declaredGate_def)
    ultimately show ?thesis unfolding decideShip_def by (simp only:)
  qed
  ultimately show ?thesis using m' by simp
qed

lemma normalizeShipActions_ok:
  "distinct (map sap_action (normalizeShipActions acts)) \<and> (\<forall>pol\<in>set (normalizeShipActions acts). sap_action pol \<noteq> [])"
proof -
  define wf where "wf m = (map_ok m \<and> (\<forall>k pol. map_get m k = Some pol \<longrightarrow> sap_action pol = k \<and> k \<noteq> []))"
    for m :: "(string, ship_action_policy) jsmap"
  let ?f = "\<lambda>pol byAction. let action = trim (sap_action pol)
         in if action \<noteq> [] then map_set action \<lparr>sap_action = action, sap_gate = sap_gate pol\<rparr> byAction else byAction"
  have "wf m \<Longrightarrow> wf (?f pol m)" for m pol by (auto simp: wf_def Let_def)
  then have "wf m \<Longrightarrow> wf (fold ?f ps m)" for ps m by (induction ps arbitrary: m) auto
  moreover have "wf []" by (simp add: wf_def)
  ultimately have wf: "wf (fold ?f (or_else acts []) [])" by blast
  have keys: "map sap_action (map_vals m) = map_keys m" if "wf m" for m
    using that unfolding wf_def map_ok_def by auto
  have nonempty: "\<forall>pol\<in>set (map_vals m). sap_action pol \<noteq> []" if "wf m" for m
    using that in_vals_iff [of m] unfolding wf_def by blast
  show ?thesis
    unfolding normalizeShipActions_def keys [OF wf]
    using wf nonempty [OF wf] unfolding wf_def map_ok_def by blast
qed

section \<open>The theorems applied\<close>

definition ex_loop_input :: create_loop_input where
  "ex_loop_input = \<lparr>ct_ownerScopeId = ''personal:ann'', ct_owner = ''ann'', ct_createdBy = ''ann'', ct_destination = None,
     ct_ownerConsentedAt = None, ct_recipientConsent = None, cli_name = '' Inbox  triage '', cli_surface = None, cli_sources = None,
     cli_playbook = ''read'', cli_successCondition = ''done'', cli_purpose = None, cli_successChecks = None,
     cli_shipActions = Some [\<lparr>sap_action = ''mail'', sap_gate = Hold\<rparr>], cli_caps = None, cli_governor = None, cli_cronId = None,
     cli_runAs = None\<rparr>"

definition ex_loop :: loop where
  "ex_loop = (case create_loop (\<lambda>_ n. n) createMemoryMap ex_loop_input 1 of Inr (_, l, _) \<Rightarrow> l)"

definition ex_ship_grant :: ship_grant where
  "ex_ship_grant = \<lparr>sg_id = ''g'', sg_loopId = ''Inbox triage'', sg_shipAction = ''mail'', sg_label = None, sg_actorId = ''ann'',
     sg_policyVersion = 1, sg_createdAt = 2, sg_revokedAt = None, sg_revokedBy = None, sg_revocationHistory = None\<rparr>"

definition ex_candidate :: ship_candidate where
  "ex_candidate = \<lparr>sc_shipAction = ''mail'', sc_label = None\<rparr>"

theorem ship_requires_authority_witness:
  "decideShip ex_loop ex_candidate (grants_byLoop [(''g'', ex_ship_grant)] (t_id ex_loop)) = ShipAuto (ViaGrant ''g'') \<and>
   \<not> grantCovers (the (map_get (fst (revoke_grant [(''g'', ex_ship_grant)] ''g'' ''ann'' 5)) ''g'')) ex_loop ex_candidate"
proof -
  have d: "decideShip ex_loop ex_candidate (grants_byLoop [(''g'', ex_ship_grant)] (t_id ex_loop)) = ShipAuto (ViaGrant ''g'')"
    by code_simp
  have "map_ok [(''g'', ex_ship_grant)]" "map_get [(''g'', ex_ship_grant)] ''g'' = Some ex_ship_grant"
    by (simp_all add: map_ok_def)
  with ship_requires_authority [OF this(1) d] d show ?thesis by blast
qed

definition ex_new_actions :: loop_patch where
  "ex_new_actions = no_patch\<lparr>pt_shipActions := Some [\<lparr>sap_action = ''mail'', sap_gate = Hold\<rparr>, \<lparr>sap_action = ''post'', sap_gate = Hold\<rparr>]\<rparr>"

definition ex_loop2 :: loop where
  "ex_loop2 = (case patch_loop ex_new_actions 9 ex_loop of Inr l \<Rightarrow> l)"

theorem policy_change_withdraws_grants_witness:
  "decideShip ex_loop2 ex_candidate [ex_ship_grant] \<in> {ShipAuto ViaPolicy, ShipHold, ShipUndeclared}"
proof -
  have p: "patch_loop ex_new_actions 9 ex_loop = Inr ex_loop2" "l_shipActions ex_loop2 \<noteq> l_shipActions ex_loop"
    "l_policyVersion ex_loop = Some 1" by code_simp+
  have "update_loop [(''l'', ex_loop)] ''l'' ex_new_actions 9 = Inr ([(''l'', ex_loop2)], Some ex_loop2)"
    by (simp add: update_loop_def p(1) dm_update_def)
  from policy_change_withdraws_grants [OF _ this, of ex_loop "[ex_ship_grant]" ex_candidate] p
  show ?thesis by (simp add: ex_new_actions_def no_patch_def ex_ship_grant_def)
qed

end
