(* ===== verification/Governor.thy ===== *)
theory Governor
  imports Loop_Store Loop_Items
begin

text \<open>
  The governor of a loop (\<open>src/loops/governor.ts\<close>) and the evaluation of an attempt
  (\<open>src/loops/success-evaluation.ts\<close>). Health levels are ordered by severity. The texts of
  reasons and recommendations are rendered from the cause and its figures: here a reason is that
  cause. The check runner and the judge are arguments.
\<close>

section \<open>Health levels in order of severity\<close>

fun SEVERITY :: "loop_health \<Rightarrow> nat" where
  "SEVERITY Healthy = 0"
| "SEVERITY Degraded = 1"
| "SEVERITY Failing = 2"
| "SEVERITY Quarantined = 3"

lemma SEVERITY_inj: "SEVERITY a = SEVERITY b \<longleftrightarrow> a = b"
  by (cases a; cases b) simp_all

instantiation loop_health :: linorder
begin

definition less_eq_loop_health :: "loop_health \<Rightarrow> loop_health \<Rightarrow> bool" where
  "less_eq_loop_health a b = (SEVERITY a \<le> SEVERITY b)"

definition less_loop_health :: "loop_health \<Rightarrow> loop_health \<Rightarrow> bool" where
  "less_loop_health a b = (SEVERITY a < SEVERITY b)"

instance
  by standard (auto simp: less_eq_loop_health_def less_loop_health_def SEVERITY_inj)

end

definition healthWorsened :: "loop_health \<Rightarrow> loop_health \<Rightarrow> bool" where
  "healthWorsened previous next = (SEVERITY next > SEVERITY previous)"

lemma healthWorsened_less: "healthWorsened a b \<longleftrightarrow> a < b"
  by (simp add: healthWorsened_def less_loop_health_def)

section \<open>The governor\<close>

record loop_vitals =
  v_queue :: loop_queue_stats
  v_openOutputs :: nat
  v_decidedOutputs :: nat
  v_returnedOutputs :: nat
  v_undeclaredShipActions :: "string list option"

datatype governor_action_type = GaQuarantine | GaThrottle | GaPing

datatype governor_reason =
  UndeclaredAction "string list" | FailedFires nat | ReturnedShare int | QueueDepth nat | QueueAge int
| NoFire int | OpenOutputs nat

record governor_action =
  ga_type :: governor_action_type
  ga_reason :: governor_reason

record governor_verdict =
  gv_health :: loop_health
  gv_reason :: "governor_reason option"
  gv_actions :: "governor_action list"
  gv_throttle :: bool
  gv_escalate :: bool

definition returnRate :: "loop_vitals \<Rightarrow> real" where
  "returnRate vitals =
     (if v_decidedOutputs vitals = 0 then 0 else real (v_returnedOutputs vitals) / real (v_decidedOutputs vitals))"

text \<open>\<open>Math.round\<close> rounds halves up.\<close>

definition js_round :: "real \<Rightarrow> int" where
  "js_round x = \<lfloor>x + 1 / 2\<rfloor>"

text \<open>The configuration with the defaults under it.\<close>

definition max_failed_fires :: "loop \<Rightarrow> nat" where
  "max_failed_fires loop = or_else (Option.bind (l_governor loop) lg_maxConsecutiveFailedFires) 3"

definition max_return_rate :: "loop \<Rightarrow> real" where
  "max_return_rate loop = or_else (Option.bind (l_governor loop) lg_maxReturnRate) (1 / 2)"

definition min_decisions :: "loop \<Rightarrow> nat" where
  "min_decisions loop = or_else (Option.bind (l_governor loop) lg_returnRateMinDecisions) 4"

text \<open>
  The running state of an evaluation is the health, its reason and the actions; each rule raises
  the health (\<open>raise\<close>) and may add an action.
\<close>

type_synonym gov_state = "loop_health \<times> governor_reason option \<times> governor_action list"

definition raise :: "loop_health \<Rightarrow> governor_reason \<Rightarrow> gov_state \<Rightarrow> gov_state" where
  "raise next why st =
     (case st of (health, reason, actions) \<Rightarrow>
        if SEVERITY next > SEVERITY health then (next, Some why, actions) else st)"

definition push_action :: "governor_action_type \<Rightarrow> governor_reason \<Rightarrow> gov_state \<Rightarrow> gov_state" where
  "push_action ty why st =
     (case st of (health, reason, actions) \<Rightarrow> (health, reason, actions @ [\<lparr>ga_type = ty, ga_reason = why\<rparr>]))"

definition rule :: "bool \<Rightarrow> governor_action_type \<Rightarrow> loop_health \<Rightarrow> governor_reason \<Rightarrow> gov_state \<Rightarrow> gov_state" where
  "rule applies ty level why st = (if applies then raise level why (push_action ty why st) else st)"

definition undeclared_rule :: "loop_vitals \<Rightarrow> gov_state \<Rightarrow> gov_state" where
  "undeclared_rule vitals =
     (let undeclared = or_else (v_undeclaredShipActions vitals) []
      in rule (undeclared \<noteq> []) GaQuarantine Quarantined (UndeclaredAction undeclared))"

definition failed_rule :: "loop \<Rightarrow> gov_state \<Rightarrow> gov_state" where
  "failed_rule loop st =
     (let failedFires = or_else (l_consecutiveFailedFires loop) 0
      in if failedFires \<ge> max_failed_fires loop
         then rule True GaQuarantine Quarantined (FailedFires failedFires) st
         else if failedFires \<ge> 2 then raise Failing (FailedFires failedFires) st else st)"

definition rate_high :: "loop \<Rightarrow> loop_vitals \<Rightarrow> bool" where
  "rate_high loop vitals = (v_decidedOutputs vitals \<ge> min_decisions loop \<and> returnRate vitals > max_return_rate loop)"

definition queue_deep :: "loop \<Rightarrow> loop_vitals \<Rightarrow> bool" where
  "queue_deep loop vitals =
     (case Option.bind (l_governor loop) lg_maxQueueDepth of None \<Rightarrow> False | Some d \<Rightarrow> lq_queued (v_queue vitals) > d)"

definition queue_old :: "loop \<Rightarrow> loop_vitals \<Rightarrow> bool" where
  "queue_old loop vitals =
     (case Option.bind (l_governor loop) lg_maxQueueAgeMs of None \<Rightarrow> False
      | Some a \<Rightarrow> or_else (lq_oldestQueuedAgeMs (v_queue vitals)) 0 > a)"

definition fire_stale :: "loop \<Rightarrow> time \<Rightarrow> bool" where
  "fire_stale loop now =
     (case Option.bind (l_governor loop) lg_staleFireMs of None \<Rightarrow> False
      | Some ms \<Rightarrow> now - or_else (t_lastFiredAt loop) (t_createdAt loop) > ms)"

definition outputs_full :: "loop \<Rightarrow> loop_vitals \<Rightarrow> bool" where
  "outputs_full loop vitals =
     (case Option.bind (l_caps loop) lc_maxOpenOutputs of None \<Rightarrow> False | Some n \<Rightarrow> v_openOutputs vitals \<ge> n)"

definition evaluateGovernor :: "loop \<Rightarrow> loop_vitals \<Rightarrow> time \<Rightarrow> governor_verdict" where
  "evaluateGovernor loop vitals now =
     (let st0 = (Healthy, None, []);
          st1 = undeclared_rule vitals st0;
          st2 = failed_rule loop st1;
          st3 = rule (rate_high loop vitals) GaThrottle Failing (ReturnedShare (js_round (returnRate vitals * 100))) st2;
          st4 = rule (queue_deep loop vitals) GaThrottle Degraded (QueueDepth (lq_queued (v_queue vitals))) st3;
          st5 = rule (queue_old loop vitals) GaPing Degraded
                  (QueueAge (js_round (of_int (or_else (lq_oldestQueuedAgeMs (v_queue vitals)) 0) / 60000))) st4;
          st6 = rule (fire_stale loop now) GaPing Degraded
                  (NoFire (js_round (of_int (now - or_else (t_lastFiredAt loop) (t_createdAt loop)) / 60000))) st5;
          st7 = rule (outputs_full loop vitals) GaPing Degraded (OpenOutputs (v_openOutputs vitals)) st6
      in (case st7 of (health, reason, actions) \<Rightarrow>
            \<lparr>gv_health = health, gv_reason = reason, gv_actions = actions,
             gv_throttle = list_ex (\<lambda>a. ga_type a = GaThrottle) actions,
             gv_escalate = healthWorsened (l_health loop) health\<rparr>))"

definition collectVitals :: "loop \<Rightarrow> 'j item_ledger \<Rightarrow> loop_output dmap \<Rightarrow> time \<Rightarrow> loop_vitals" where
  "collectVitals loop items outputs now =
     (let outs = forLoop_outputs outputs (t_id loop);
          decided = filter isDecided outs;
          undeclared = undeclaredShipActions loop (filter (\<lambda>out. lo_state out = OStaged \<or> unresolvedOutput out) outs)
      in \<lparr>v_queue = stats items (t_id loop) now, v_openOutputs = length (filter unresolvedOutput outs),
          v_decidedOutputs = length decided,
          v_returnedOutputs = length (filter (\<lambda>out. lo_state out = OReturned) decided),
          v_undeclaredShipActions = (if undeclared \<noteq> [] then Some undeclared else None)\<rparr>)"

section \<open>Properties of the governor\<close>

lemma raise_simps [simp]:
  "fst (raise h w st) = max (fst st) h" "snd (snd (raise h w st)) = snd (snd st)"
proof -
  obtain a r as where st: "st = (a, r, as)" by (cases st) auto
  have "raise h w st = (if a < h then (h, Some w, as) else (a, r, as))"
    by (simp add: st raise_def less_loop_health_def)
  then show "fst (raise h w st) = max (fst st) h" "snd (snd (raise h w st)) = snd (snd st)"
    by (auto simp: st max_def)
qed

lemma push_simps [simp]:
  "fst (push_action ty w st) = fst st" "snd (snd (push_action ty w st)) = snd (snd st) @ [\<lparr>ga_type = ty, ga_reason = w\<rparr>]"
  by (cases st; simp add: push_action_def)+

lemma rule_simps [simp]:
  "fst (rule b ty h w st) = (if b then max (fst st) h else fst st)"
  "snd (snd (rule b ty h w st)) = snd (snd st) @ (if b then [\<lparr>ga_type = ty, ga_reason = w\<rparr>] else [])"
  by (simp_all add: rule_def)

lemma failed_rule_simps [simp]:
  "fst (failed_rule loop st) =
     (let n = or_else (l_consecutiveFailedFires loop) 0
      in if n \<ge> max_failed_fires loop then max (fst st) Quarantined else if n \<ge> 2 then max (fst st) Failing else fst st)"
  "snd (snd (failed_rule loop st)) =
     snd (snd st) @ (if or_else (l_consecutiveFailedFires loop) 0 \<ge> max_failed_fires loop
                     then [\<lparr>ga_type = GaQuarantine, ga_reason = FailedFires (or_else (l_consecutiveFailedFires loop) 0)\<rparr>] else [])"
  by (simp_all add: failed_rule_def Let_def)

lemma undeclared_rule_simps [simp]:
  "fst (undeclared_rule v st) = (if or_else (v_undeclaredShipActions v) [] \<noteq> [] then max (fst st) Quarantined else fst st)"
  "snd (snd (undeclared_rule v st)) =
     snd (snd st) @ (if or_else (v_undeclaredShipActions v) [] \<noteq> []
                     then [\<lparr>ga_type = GaQuarantine, ga_reason = UndeclaredAction (or_else (v_undeclaredShipActions v) [])\<rparr>] else [])"
  by (simp_all add: undeclared_rule_def Let_def)

lemma health_order [simp]:
  "Healthy \<le> h" "h \<le> Quarantined" "Degraded \<le> Failing" "\<not> Failing \<le> Degraded" "\<not> Quarantined \<le> Failing"
  "\<not> Quarantined \<le> Degraded" "\<not> Degraded \<le> Healthy" "\<not> Failing \<le> Healthy" "\<not> Quarantined \<le> Healthy"
  by (cases h; simp add: less_eq_loop_health_def)+

text \<open>
  The verdict is the worst thing wrong: the governor quarantines a loop exactly when it wants
  to take an undeclared ship action or its fires failed too often in a row; short of that it is
  failing exactly after two failed fires or when too many outputs are returned, and degraded
  exactly when the queue, the trigger or the reviewers fall behind; it throttles exactly on
  returned outputs or a deep queue and escalates exactly when health got worse.
\<close>

theorem governor_verdict:
  "let v = evaluateGovernor loop vitals now;
    bad = (or_else (v_undeclaredShipActions vitals) [] \<noteq> [] \<or> or_else (l_consecutiveFailedFires loop) 0 \<ge> max_failed_fires loop);
    poor = (or_else (l_consecutiveFailedFires loop) 0 \<ge> 2 \<or> rate_high loop vitals);
    slow = (queue_deep loop vitals \<or> queue_old loop vitals \<or> fire_stale loop now \<or> outputs_full loop vitals)
  in gv_health v = (if bad then Quarantined else if poor then Failing else if slow then Degraded else Healthy) \<and>
     (gv_throttle v \<longleftrightarrow> rate_high loop vitals \<or> queue_deep loop vitals) \<and>
     (gv_escalate v \<longleftrightarrow> l_health loop < gv_health v) \<and>
     (GaQuarantine \<in> ga_type ` set (gv_actions v) \<longleftrightarrow> gv_health v = Quarantined)"
proof -
  note [simp] = evaluateGovernor_def Let_def case_prod_unfold max_def healthWorsened_less
  have h: "gv_health (evaluateGovernor loop vitals now) =
    (if or_else (v_undeclaredShipActions vitals) [] \<noteq> [] \<or> or_else (l_consecutiveFailedFires loop) 0 \<ge> max_failed_fires loop then Quarantined
     else if or_else (l_consecutiveFailedFires loop) 0 \<ge> 2 \<or> rate_high loop vitals then Failing
     else if queue_deep loop vitals \<or> queue_old loop vitals \<or> fire_stale loop now \<or> outputs_full loop vitals then Degraded
     else Healthy)"
    by (simp split del: if_split) (auto split: if_splits)
  show ?thesis
    unfolding Let_def h
    by (auto simp: list_ex_iff split: if_splits)
qed

definition ex_vitals :: loop_vitals where
  "ex_vitals = \<lparr>v_queue = \<lparr>lq_queued = 0, lq_inProgress = 0, lq_ready = 0, lq_failed = 0, lq_oldestQueuedAgeMs = None\<rparr>, v_openOutputs = 0,
     v_decidedOutputs = 0, v_returnedOutputs = 0, v_undeclaredShipActions = None\<rparr>"

theorem governor_verdict_witness:
  "gv_health (evaluateGovernor (ex_loop\<lparr>l_consecutiveFailedFires := Some 3\<rparr>) ex_vitals 9) = Quarantined"
proof -
  have "max_failed_fires (ex_loop\<lparr>l_consecutiveFailedFires := Some 3\<rparr>) = 3" by code_simp
  then show ?thesis
    using governor_verdict [of "ex_loop\<lparr>l_consecutiveFailedFires := Some 3\<rparr>" ex_vitals 9] by (simp add: Let_def)
qed

section \<open>Evaluating an attempt\<close>

record success_check_result =
  cr_command :: string
  cr_passed :: bool
  cr_detail :: "string option"

record judge_verdict =
  jv_met :: bool
  jv_reason :: string

datatype success_outcome = SoMet | SoContinue | SoPark

datatype success_reason = CheckFailed string "string option" | Judged string | CapReached nat success_reason

record success_verdict =
  sv_outcome :: success_outcome
  sv_reason :: success_reason
  sv_checks :: "success_check_result list"
  sv_judged :: bool

definition bounded :: "nat \<Rightarrow> nat option \<Rightarrow> success_reason \<Rightarrow> success_outcome \<times> success_reason" where
  "bounded attempt maxAttempts reason =
     (case maxAttempts of
        Some n \<Rightarrow> if attempt \<ge> n then (SoPark, CapReached n reason) else (SoContinue, reason)
      | None \<Rightarrow> (SoContinue, reason))"

fun run_checks ::
  "(string \<Rightarrow> success_check_result) \<Rightarrow> string list \<Rightarrow> success_check_result list
     \<Rightarrow> success_check_result list \<times> (string \<times> success_check_result) option" where
  "run_checks runCheck [] acc = (acc, None)"
| "run_checks runCheck (command # commands) acc =
     (let result = runCheck command; acc' = acc @ [result]
      in if \<not> cr_passed result then (acc', Some (command, result)) else run_checks runCheck commands acc')"

definition evaluateSuccess ::
  "(string \<Rightarrow> success_check_result) \<Rightarrow> (string \<Rightarrow> success_check_result list \<Rightarrow> judge_verdict) \<Rightarrow> string \<Rightarrow> nat
     \<Rightarrow> string list option \<Rightarrow> nat option \<Rightarrow> success_verdict" where
  "evaluateSuccess runCheck judge condition attempt checks maxAttempts =
     (case run_checks runCheck (or_else checks []) [] of
        (results, Some (command, result)) \<Rightarrow>
          (case bounded attempt maxAttempts
                  (CheckFailed command (if truthy (cr_detail result) then cr_detail result else None)) of
             (outcome, reason) \<Rightarrow> \<lparr>sv_outcome = outcome, sv_reason = reason, sv_checks = results, sv_judged = False\<rparr>)
      | (results, None) \<Rightarrow>
          let verdict = judge condition results
          in if jv_met verdict
             then \<lparr>sv_outcome = SoMet, sv_reason = Judged (jv_reason verdict), sv_checks = results, sv_judged = True\<rparr>
             else (case bounded attempt maxAttempts (Judged (jv_reason verdict)) of
                     (outcome, reason) \<Rightarrow> \<lparr>sv_outcome = outcome, sv_reason = reason, sv_checks = results, sv_judged = True\<rparr>))"

lemma run_checks_None:
  "run_checks rc cmds acc = (rs, None) \<longleftrightarrow> (\<forall>c\<in>set cmds. cr_passed (rc c)) \<and> rs = acc @ map rc cmds"
  by (induction cmds arbitrary: acc) (auto simp: Let_def)

lemma run_checks_Some:
  "run_checks rc cmds acc = (rs, Some (c, r)) \<Longrightarrow> c \<in> set cmds \<and> r = rc c \<and> \<not> cr_passed r"
  by (induction cmds arbitrary: acc) (auto simp: Let_def split: if_splits)

text \<open>
  Success is not declared lightly: an attempt is met exactly when every check passes and the
  judge agrees on their results; an attempt is parked exactly when it is not met and the attempt
  cap is reached; and the judge is never consulted while a check fails.
\<close>

theorem success_verdict_sound:
  "let v = evaluateSuccess rc judge cond n checks cap; cmds = or_else checks [];
       met = ((\<forall>c\<in>set cmds. cr_passed (rc c)) \<and> jv_met (judge cond (map rc cmds)))
   in (sv_outcome v = SoMet \<longleftrightarrow> met) \<and>
      (sv_outcome v = SoPark \<longleftrightarrow> \<not> met \<and> (\<exists>k. cap = Some k \<and> n \<ge> k)) \<and>
      (sv_judged v \<longleftrightarrow> (\<forall>c\<in>set cmds. cr_passed (rc c)))"
proof (cases "run_checks rc (or_else checks []) []")
  case (Pair rs x)
  show ?thesis
  proof (cases x)
    case None
    with Pair have "(\<forall>c\<in>set (or_else checks []). cr_passed (rc c))" "rs = map rc (or_else checks [])"
      using run_checks_None [of rc "or_else checks []" "[]" rs] by auto
    with Pair None show ?thesis
      by (auto simp: evaluateSuccess_def Let_def bounded_def split: option.split)
  next
    case (Some cr)
    obtain c r where cr: "cr = (c, r)" by force
    have "\<not> (\<forall>c\<in>set (or_else checks []). cr_passed (rc c))"
      using run_checks_Some [of rc "or_else checks []" "[]" rs c r] Pair Some cr by auto
    with Pair Some cr show ?thesis
      by (auto simp: evaluateSuccess_def Let_def bounded_def split: option.split)
  qed
qed

theorem success_verdict_sound_witness:
  "sv_outcome (evaluateSuccess (\<lambda>c. \<lparr>cr_command = c, cr_passed = False, cr_detail = None\<rparr>)
     (\<lambda>_ _. \<lparr>jv_met = True, jv_reason = ''ok''\<rparr>) ''done'' 3 (Some [''make test'']) (Some 3)) = SoPark"
  using success_verdict_sound [of "\<lambda>c. \<lparr>cr_command = c, cr_passed = False, cr_detail = None\<rparr>"
    "\<lambda>_ _. \<lparr>jv_met = True, jv_reason = ''ok''\<rparr>" "''done''" 3 "Some [''make test'']" "Some 3"]
  by (simp add: Let_def)

end
