(* ===== verification/Thread_Refs.thy ===== *)
theory Thread_Refs
  imports Prelude
begin

text \<open>
  What the reference of a thread says about where its session comes from
  (\<open>src/sessions/session-store.ts\<close>): runs of crons, webhooks and monitors have references of two
  forms, everything else is a conversation.
\<close>

datatype session_type = StDm | StChannel | StGroup

datatype session_origin = OrConversation | OrCron | OrWebhook | OrMonitor

datatype session_category = CatConversation | CatBackground

text \<open>\<open>^agent:main:<origin>:([^:]+)$\<close>.\<close>

definition stable_ref :: "string \<Rightarrow> string \<Rightarrow> string option" where
  "stable_ref origin threadRef =
     (let p = ''agent:main:'' @ origin @ '':''; i = drop (length p) threadRef
      in if startsWith threadRef p \<and> i \<noteq> [] \<and> CHR '':'' \<notin> set i then Some i else None)"

text \<open>\<open>^<origin>:([^:]+)(:.+)?$\<close>: the dot matches everything but line ends.\<close>

definition legacy_ref :: "string \<Rightarrow> string \<Rightarrow> string option" where
  "legacy_ref origin threadRef =
     (let p = origin @ '':''; rest = drop (length p) threadRef;
          i = takeWhile (\<lambda>c. c \<noteq> CHR '':'') rest; tail = dropWhile (\<lambda>c. c \<noteq> CHR '':'') rest
      in if startsWith threadRef p \<and> i \<noteq> [] \<and>
            (tail = [] \<or> length tail > 1 \<and> CHR 10 \<notin> set (tl tail) \<and> CHR 13 \<notin> set (tl tail))
         then Some i else None)"

definition origins :: "(string \<times> session_origin) list" where
  "origins = [(''cron'', OrCron), (''webhook'', OrWebhook), (''monitor'', OrMonitor)]"

definition sessionOrigin :: "string \<Rightarrow> session_origin" where
  "sessionOrigin threadRef =
     (case List.find (\<lambda>(n, r). stable_ref n threadRef \<noteq> None) origins of
        Some (n, r) \<Rightarrow> r
      | None \<Rightarrow>
          (case List.find (\<lambda>(n, r). legacy_ref n threadRef \<noteq> None) origins of
             Some (n, r) \<Rightarrow> r | None \<Rightarrow> OrConversation))"

definition sessionCategory :: "session_origin \<Rightarrow> session_category" where
  "sessionCategory origin = (if origin = OrConversation then CatConversation else CatBackground)"

definition cronIdOf :: "string \<Rightarrow> string option" where
  "cronIdOf threadRef = or_opt (stable_ref ''cron'' threadRef) (legacy_ref ''cron'' threadRef)"

definition type_name :: "session_type \<Rightarrow> string" where
  "type_name t = (case t of StDm \<Rightarrow> ''dm'' | StChannel \<Rightarrow> ''channel'' | StGroup \<Rightarrow> ''group'')"

definition origin_name :: "session_origin \<Rightarrow> string" where
  "origin_name r = (case r of OrConversation \<Rightarrow> ''conversation'' | OrCron \<Rightarrow> ''cron'' | OrWebhook \<Rightarrow> ''webhook'' | OrMonitor \<Rightarrow> ''monitor'')"

definition sessionBucket :: "session_origin \<Rightarrow> session_type \<Rightarrow> string" where
  "sessionBucket origin t = (if origin = OrConversation then type_name t else origin_name origin)"

text \<open>A session has a cron's id exactly when its origin is a cron, unless it is a run of another kind.\<close>

lemma startsWith_hd: "startsWith s (c # p) \<Longrightarrow> hd s = c"
  by (cases s) (auto simp: startsWith_def)

lemma stable_hd: "stable_ref n t \<noteq> None \<Longrightarrow> hd t = CHR ''a''"
  by (auto simp: stable_ref_def Let_def dest: startsWith_hd split: if_splits)

lemma legacy_hd: "legacy_ref (c # n) t \<noteq> None \<Longrightarrow> hd t = c"
  by (auto simp: legacy_ref_def Let_def dest: startsWith_hd split: if_splits)

lemma cron_origin: "cronIdOf threadRef \<noteq> None \<longleftrightarrow> sessionOrigin threadRef = OrCron"
proof -
  have "stable_ref ''webhook'' threadRef = None" "stable_ref ''monitor'' threadRef = None"
    if "legacy_ref ''cron'' threadRef \<noteq> None"
    using legacy_hd [OF that] stable_hd [of "''webhook''" threadRef] stable_hd [of "''monitor''" threadRef] by force+
  then show ?thesis
    by (cases "stable_ref ''cron'' threadRef"; cases "legacy_ref ''cron'' threadRef")
      (auto simp: cronIdOf_def sessionOrigin_def origins_def split: option.splits)
qed

end
