(* ===== verification/Deliveries.thy ===== *)
theory Deliveries
  imports Loop_Types Thread_Refs
begin

text \<open>
  The outbox (\<open>src/delivery/delivery-store.ts\<close>): messages are enqueued once per idempotency key,
  handed to one surface at a time for a limited period, acknowledged once, and given up when they
  are overaged. A delivery object is the value under its id; \<open>ds_woken\<close> is the trace of the
  listener callbacks. Logging is left out.
\<close>

section \<open>Data\<close>

record delivery_provenance =
  dp_sourceTitle :: "string option"
  dp_trigger :: string
  dp_surface :: string
  dp_fireKey :: string
  dp_sourceScopeId :: scope_id
  dp_sourceThreadRef :: string
  dp_sourceSessionId :: "string option"
  dp_sourceUserSeq :: "int option"
  dp_sourceAssistantEntrySeq :: "int option"

record delivery =
  d_id :: string
  d_destination :: destination
  d_text :: string
  d_attachments :: "outgoing_attachment list option"
  d_provenance :: "delivery_provenance option"
  d_idempotencyKey :: string
  d_createdAt :: time
  d_deliveredAt :: "time option"
  d_expiredAt :: "time option"
  d_shadow :: bool
  d_recipientThreadRef :: "string option"
  d_deliverLatencyMs :: "int option"
  d_slackApiMs :: "int option"

record delivery_input =
  dn_destination :: destination
  dn_text :: string
  dn_attachments :: "outgoing_attachment list option"
  dn_provenance :: "delivery_provenance option"
  dn_idempotencyKey :: string
  dn_shadow :: bool

record delivery_store =
  dls_maxAgeMs :: int
  dls_deliveries :: "(string, delivery) jsmap"
  dls_byKey :: "(string, string) jsmap"
  dls_claimedUntil :: "(string, time) jsmap"
  dls_listeners :: "string list"
  dls_woken :: "string list"

definition DELIVERY_MAX_AGE_MS :: int where
  "DELIVERY_MAX_AGE_MS = 6 * 3600000"

definition createDeliveryStore :: "int option \<Rightarrow> delivery_store" where
  "createDeliveryStore maxAgeMs =
     \<lparr>dls_maxAgeMs = or_else maxAgeMs DELIVERY_MAX_AGE_MS, dls_deliveries = [], dls_byKey = [], dls_claimedUntil = [],
      dls_listeners = [], dls_woken = []\<rparr>"

section \<open>Operations\<close>

definition put_delivery :: "delivery \<Rightarrow> delivery_store \<Rightarrow> delivery_store" where
  "put_delivery d s = s\<lparr>dls_deliveries := map_set (d_id d) d (dls_deliveries s)\<rparr>"

definition wake_listeners :: "bool \<Rightarrow> delivery_store \<Rightarrow> delivery_store" where
  "wake_listeners shadow s = (if shadow then s else s\<lparr>dls_woken := dls_woken s @ dls_listeners s\<rparr>)"

definition overaged :: "delivery_store \<Rightarrow> time \<Rightarrow> delivery \<Rightarrow> bool" where
  "overaged s now d =
     (\<not> (d_deliveredAt d \<noteq> None \<or> d_shadow d \<or> d_expiredAt d \<noteq> None) \<and>
      \<not> or_else (map_get (dls_claimedUntil s) (d_id d)) 0 > now \<and> \<not> now - d_createdAt d < dls_maxAgeMs s)"

definition expireOveraged :: "delivery_store \<Rightarrow> time \<Rightarrow> delivery_store" where
  "expireOveraged s now =
     s\<lparr>dls_deliveries := map (\<lambda>(k, d). (k, if overaged s now d then d\<lparr>d_expiredAt := Some now\<rparr> else d)) (dls_deliveries s)\<rparr>"

definition nonempty_attachments :: "outgoing_attachment list option \<Rightarrow> outgoing_attachment list option" where
  "nonempty_attachments a = (if or_else a [] \<noteq> [] then a else None)"

text \<open>The key's delivery, revived when it expired undelivered.\<close>

definition revive :: "delivery_input \<Rightarrow> time \<Rightarrow> delivery \<Rightarrow> delivery" where
  "revive input now existing =
     existing\<lparr>d_destination := dn_destination input, d_text := dn_text input,
              d_attachments := nonempty_attachments (dn_attachments input), d_provenance := dn_provenance input,
              d_createdAt := now, d_expiredAt := None, d_shadow := dn_shadow input\<rparr>"

definition new_delivery :: "delivery_input \<Rightarrow> uuid \<Rightarrow> time \<Rightarrow> delivery" where
  "new_delivery input u now =
     \<lparr>d_id = u, d_destination = dn_destination input, d_text = dn_text input,
      d_attachments = nonempty_attachments (dn_attachments input), d_provenance = dn_provenance input,
      d_idempotencyKey = dn_idempotencyKey input, d_createdAt = now, d_deliveredAt = None, d_expiredAt = None,
      d_shadow = dn_shadow input, d_recipientThreadRef = None, d_deliverLatencyMs = None, d_slackApiMs = None\<rparr>"

text \<open>\<open>None\<close> stands for the error of dereferencing a key whose delivery is missing.\<close>

definition enqueue_delivery :: "delivery_store \<Rightarrow> delivery_input \<Rightarrow> uuid \<Rightarrow> time \<Rightarrow> delivery_store \<times> delivery option" where
  "enqueue_delivery s input u now =
     (if truthy (map_get (dls_byKey s) (dn_idempotencyKey input))
      then (case map_get (dls_deliveries s) (the (map_get (dls_byKey s) (dn_idempotencyKey input))) of
              None \<Rightarrow> (s, None)
            | Some existing \<Rightarrow>
                if d_deliveredAt existing = None \<and> d_expiredAt existing \<noteq> None
                then let d = revive input now existing;
                         s1 = put_delivery d s;
                         s2 = s1\<lparr>dls_claimedUntil := map_del (d_id existing) (dls_claimedUntil s1)\<rparr>
                     in (wake_listeners (d_shadow d) s2, Some d)
                else (s, Some existing))
      else
        let d = new_delivery input u now;
            s1 = put_delivery d s;
            s2 = s1\<lparr>dls_byKey := map_set (d_idempotencyKey d) (d_id d) (dls_byKey s1)\<rparr>
        in (wake_listeners (d_shadow d) s2, Some d))"

definition is_pending :: "string \<Rightarrow> delivery \<Rightarrow> bool" where
  "is_pending type d =
     (d_deliveredAt d = None \<and> d_expiredAt d = None \<and> \<not> d_shadow d \<and> dst_type (d_destination d) = type)"

definition pending :: "delivery_store \<Rightarrow> string \<Rightarrow> delivery list" where
  "pending s type = filter (is_pending type) (map_vals (dls_deliveries s))"

definition claimPending :: "delivery_store \<Rightarrow> string \<Rightarrow> int \<Rightarrow> time \<Rightarrow> delivery_store \<times> delivery list" where
  "claimPending s type ttlMs now =
     (let s1 = expireOveraged s now;
          rows = filter (\<lambda>d. is_pending type d \<and> or_else (map_get (dls_claimedUntil s1) (d_id d)) 0 \<le> now)
                   (map_vals (dls_deliveries s1))
      in (s1\<lparr>dls_claimedUntil := fold (\<lambda>d. map_set (d_id d) (now + ttlMs)) rows (dls_claimedUntil s1)\<rparr>, rows))"

definition listShadow :: "delivery_store \<Rightarrow> nat option \<Rightarrow> delivery list" where
  "listShadow s limit =
     take (max 1 (or_else limit 100))
       (js_sort (\<lambda>a b. d_createdAt b - d_createdAt a)
          (filter (\<lambda>d. d_shadow d \<and> d_deliveredAt d = None) (map_vals (dls_deliveries s))))"

definition ack :: "delivery_store \<Rightarrow> string \<Rightarrow> time \<Rightarrow> int option \<Rightarrow> delivery_store" where
  "ack s i at slackApiMs =
     (case map_get (dls_deliveries s) i of
        None \<Rightarrow> s
      | Some d \<Rightarrow>
          if d_deliveredAt d \<noteq> None then s
          else put_delivery (d\<lparr>d_deliveredAt := Some at, d_expiredAt := None,
                               d_deliverLatencyMs := Some (max 0 (at - d_createdAt d)),
                               d_slackApiMs := or_opt slackApiMs (d_slackApiMs d)\<rparr>) s)"

definition tombstone :: "string \<Rightarrow> uuid \<Rightarrow> time \<Rightarrow> delivery" where
  "tombstone key u at =
     \<lparr>d_id = u, d_destination = bare_destination ''ack-tombstone'' [], d_text = [], d_attachments = None,
      d_provenance = None, d_idempotencyKey = key, d_createdAt = at, d_deliveredAt = Some at, d_expiredAt = None,
      d_shadow = False, d_recipientThreadRef = None, d_deliverLatencyMs = None, d_slackApiMs = None\<rparr>"

definition ackByKey :: "delivery_store \<Rightarrow> string \<Rightarrow> uuid \<Rightarrow> time \<Rightarrow> delivery_store" where
  "ackByKey s key u at =
     (if truthy (map_get (dls_byKey s) key)
      then (case map_get (dls_deliveries s) (the (map_get (dls_byKey s) key)) of
              None \<Rightarrow> s
            | Some d \<Rightarrow>
                if d_deliveredAt d \<noteq> None then s
                else put_delivery (d\<lparr>d_deliveredAt := Some at, d_expiredAt := None\<rparr>) s)
      else (put_delivery (tombstone key u at) s)\<lparr>dls_byKey := map_set key u (dls_byKey s)\<rparr>)"

definition setEditRefByKey :: "delivery_store \<Rightarrow> string \<Rightarrow> string \<Rightarrow> delivery_store" where
  "setEditRefByKey s key editRef =
     (if truthy (map_get (dls_byKey s) key)
      then (case map_get (dls_deliveries s) (the (map_get (dls_byKey s) key)) of
              None \<Rightarrow> s
            | Some d \<Rightarrow>
                if d_deliveredAt d \<noteq> None then s
                else put_delivery (d\<lparr>d_destination := (d_destination d)\<lparr>dst_editRef := Some editRef\<rparr>\<rparr>) s)
      else s)"

definition get_delivery :: "delivery_store \<Rightarrow> string \<Rightarrow> delivery option" where
  "get_delivery s i = map_get (dls_deliveries s) i"

definition recordRecipientThread :: "delivery_store \<Rightarrow> string \<Rightarrow> string \<Rightarrow> time \<Rightarrow> delivery_store" where
  "recordRecipientThread s i recipientThreadRef at =
     (case map_get (dls_deliveries s) i of
        None \<Rightarrow> s
      | Some d \<Rightarrow>
          if dst_type (d_destination d) \<noteq> ''principal'' then s
          else
            let d1 = d\<lparr>d_recipientThreadRef := Some recipientThreadRef\<rparr>
            in put_delivery (if d_deliveredAt d1 = None then d1\<lparr>d_deliveredAt := Some at, d_expiredAt := None\<rparr> else d1) s)"

definition listByRecipientThread :: "delivery_store \<Rightarrow> string \<Rightarrow> nat option \<Rightarrow> delivery list" where
  "listByRecipientThread s ref limit =
     take_last (max 1 (or_else limit 20))
       (js_sort (\<lambda>a b. d_createdAt a - d_createdAt b)
          (filter (\<lambda>d. d_recipientThreadRef d = Some ref \<and> dst_type (d_destination d) = ''principal'')
             (map_vals (dls_deliveries s))))"

definition listBySourceSession :: "delivery_store \<Rightarrow> string \<Rightarrow> string \<Rightarrow> nat option \<Rightarrow> delivery list" where
  "listBySourceSession s sessionId threadRef limit =
     take_last (max 1 (or_else limit 20))
       (js_sort (\<lambda>a b. d_createdAt a - d_createdAt b)
          (filter (\<lambda>d. case d_provenance d of None \<Rightarrow> False
                     | Some p \<Rightarrow> dp_sourceSessionId p = Some sessionId \<or> dp_sourceThreadRef p = threadRef)
             (map_vals (dls_deliveries s))))"

text \<open>Counting, as folds over the deliveries. \<open>sources\<close> are pairs of session id and thread.\<close>

definition source_session :: "(string \<times> string) list \<Rightarrow> delivery_provenance \<Rightarrow> string option" where
  "source_session sources p =
     (if truthy (dp_sourceSessionId p)
      then (if the (dp_sourceSessionId p) \<in> set (map fst sources) then dp_sourceSessionId p else None)
      else if dp_sourceThreadRef p \<noteq> []
      then map_get (fold (\<lambda>(sid, t). map_set t sid) sources []) (dp_sourceThreadRef p)
      else None)"

definition sentCountsBySourceSessions :: "delivery_store \<Rightarrow> (string \<times> string) list \<Rightarrow> (string, nat) jsmap" where
  "sentCountsBySourceSessions s sources =
     fold (\<lambda>d counts.
         if d_shadow d \<or> d_expiredAt d \<noteq> None then counts
         else (case d_provenance d of None \<Rightarrow> counts
           | Some p \<Rightarrow>
               let i = source_session sources p
               in if truthy i then map_set (the i) (or_else (map_get counts (the i)) 0 + 1) counts else counts))
       (map_vals (dls_deliveries s)) []"

definition sentRunCountsByCron :: "delivery_store \<Rightarrow> string list \<Rightarrow> (string, nat) jsmap" where
  "sentRunCountsByCron s cronIds =
     map (\<lambda>(k, v). (k, length v))
       (fold (\<lambda>d runs.
           if d_shadow d \<or> d_expiredAt d \<noteq> None then runs
           else (case d_provenance d of None \<Rightarrow> runs
             | Some p \<Rightarrow>
                 if dp_sourceThreadRef p = [] then runs
                 else (case cronIdOf (dp_sourceThreadRef p) of
                   None \<Rightarrow> runs
                 | Some c \<Rightarrow>
                     if c = [] \<or> c \<notin> set cronIds then runs
                     else map_set c (set_add (or_else (dp_sourceSessionId p) (dp_sourceThreadRef p))
                            (or_else (map_get runs c) [])) runs)))
         (map_vals (dls_deliveries s)) [])"

definition onEnqueue :: "delivery_store \<Rightarrow> string \<Rightarrow> delivery_store" where
  "onEnqueue s listener = s\<lparr>dls_listeners := set_add listener (dls_listeners s)\<rparr>"

definition offEnqueue :: "delivery_store \<Rightarrow> string \<Rightarrow> delivery_store" where
  "offEnqueue s listener = s\<lparr>dls_listeners := removeAll listener (dls_listeners s)\<rparr>"

definition turnDeliveryProvenance ::
  "bool \<Rightarrow> string option \<Rightarrow> string \<Rightarrow> scope_id \<Rightarrow> string \<Rightarrow> string option \<Rightarrow> int option \<Rightarrow> int option \<Rightarrow> delivery_provenance" where
  "turnDeliveryProvenance automation surface fireKey sourceScopeId sourceThreadRef sourceSessionId sourceUserSeq sourceAssistantEntrySeq =
     \<lparr>dp_sourceTitle = None, dp_trigger = (if automation then or_else surface ''wake'' else ''conversation''),
      dp_surface = or_else surface ''unknown'', dp_fireKey = fireKey, dp_sourceScopeId = sourceScopeId,
      dp_sourceThreadRef = sourceThreadRef, dp_sourceSessionId = sourceSessionId, dp_sourceUserSeq = sourceUserSeq,
      dp_sourceAssistantEntrySeq = sourceAssistantEntrySeq\<rparr>"

section \<open>Steps and invariant\<close>

inductive dl_step :: "(time \<Rightarrow> bool) \<Rightarrow> delivery_store \<Rightarrow> delivery_store \<Rightarrow> bool" for tm where
  dl_enqueue: "map_get (dls_deliveries s) u = None \<Longrightarrow> u \<noteq> [] \<Longrightarrow> tm now \<Longrightarrow> dl_step tm s (fst (enqueue_delivery s inp u now))"
| dl_claim: "tm now \<Longrightarrow> dl_step tm s (fst (claimPending s ty ttl now))"
| dl_ack: "dl_step tm s (ack s i at ms)"
| dl_ackByKey: "map_get (dls_deliveries s) u = None \<Longrightarrow> u \<noteq> [] \<Longrightarrow> dl_step tm s (ackByKey s k u at)"
| dl_editRef: "dl_step tm s (setEditRefByKey s k e)"
| dl_thread: "dl_step tm s (recordRecipientThread s i r at)"
| dl_on: "dl_step tm s (onEnqueue s l)"
| dl_off: "dl_step tm s (offEnqueue s l)"

definition dl_init :: "delivery_store \<Rightarrow> bool" where
  "dl_init s = (\<exists>m. s = createDeliveryStore m)"

abbreviation delivery_at :: "delivery_store \<Rightarrow> string \<Rightarrow> delivery option" where
  "delivery_at s i \<equiv> map_get (dls_deliveries s) i"

definition dl_inv :: "delivery_store \<Rightarrow> bool" where
  "dl_inv s =
     (map_ok (dls_deliveries s) \<and>
      (\<forall>i d. delivery_at s i = Some d \<longrightarrow> d_id d = i \<and> i \<noteq> [] \<and> map_get (dls_byKey s) (d_idempotencyKey d) = Some i \<and>
         (d_deliveredAt d \<noteq> None \<longrightarrow> d_expiredAt d = None)) \<and>
      (\<forall>k i. map_get (dls_byKey s) k = Some i \<longrightarrow> (\<exists>d. delivery_at s i = Some d \<and> d_idempotencyKey d = k)))"

lemma dl_invD:
  assumes "dl_inv s" "delivery_at s i = Some d"
  shows "d_id d = i" "i \<noteq> []" "map_get (dls_byKey s) (d_idempotencyKey d) = Some i" "d_deliveredAt d \<noteq> None \<Longrightarrow> d_expiredAt d = None"
  using assms unfolding dl_inv_def by blast+

lemma dl_inv_key: "dl_inv s \<Longrightarrow> map_get (dls_byKey s) k = Some i \<Longrightarrow> \<exists>d. delivery_at s i = Some d \<and> d_idempotencyKey d = k"
  unfolding dl_inv_def by blast

lemma dl_inv_vals:
  assumes "dl_inv s" "d \<in> set (map_vals (dls_deliveries s))"
  shows "delivery_at s (d_id d) = Some d"
proof -
  have "map_ok (dls_deliveries s)" using assms(1) unfolding dl_inv_def by blast
  then obtain i where i: "delivery_at s i = Some d" using assms(2) in_vals_iff by fast
  with dl_invD(1) [OF assms(1) i] show ?thesis by simp
qed

lemma dl_inv_cong:
  "dls_deliveries t = dls_deliveries s \<Longrightarrow> dls_byKey t = dls_byKey s \<Longrightarrow> dl_inv t = dl_inv s"
  by (simp add: dl_inv_def)

lemma dl_invI:
  assumes "map_ok (dls_deliveries s)"
    and "\<And>i d. delivery_at s i = Some d \<Longrightarrow>
       d_id d = i \<and> i \<noteq> [] \<and> map_get (dls_byKey s) (d_idempotencyKey d) = Some i \<and> (d_deliveredAt d \<noteq> None \<longrightarrow> d_expiredAt d = None)"
    and "\<And>k i. map_get (dls_byKey s) k = Some i \<Longrightarrow> \<exists>d. delivery_at s i = Some d \<and> d_idempotencyKey d = k"
  shows "dl_inv s"
  using assms unfolding dl_inv_def by blast

lemma put_fields [simp]: "delivery_at (put_delivery d s) i = (if i = d_id d then Some d else delivery_at s i)"
  "dls_byKey (put_delivery d s) = dls_byKey s" "dls_claimedUntil (put_delivery d s) = dls_claimedUntil s"
  "map_ok (dls_deliveries s) \<Longrightarrow> map_ok (dls_deliveries (put_delivery d s))"
  by (simp_all add: put_delivery_def)

lemma dl_inv_put:
  assumes inv: "dl_inv s" and d: "delivery_at s i = Some d" and d': "d_id d' = i" "d_idempotencyKey d' = d_idempotencyKey d"
    "d_deliveredAt d' \<noteq> None \<Longrightarrow> d_expiredAt d' = None"
  shows "dl_inv (put_delivery d' s)"
proof (rule dl_invI)
  show "map_ok (dls_deliveries (put_delivery d' s))" using inv by (simp add: dl_inv_def)
next
  fix j e assume "delivery_at (put_delivery d' s) j = Some e"
  then consider "j = i" "e = d'" | "delivery_at s j = Some e" by (cases "j = i") (simp_all add: d'(1))
  then show "d_id e = j \<and> j \<noteq> [] \<and> map_get (dls_byKey (put_delivery d' s)) (d_idempotencyKey e) = Some j \<and>
      (d_deliveredAt e \<noteq> None \<longrightarrow> d_expiredAt e = None)"
    by cases (use dl_invD [OF inv d] dl_invD [OF inv, of j e] d' in simp_all)
next
  fix k j assume "map_get (dls_byKey (put_delivery d' s)) k = Some j"
  then obtain e where "delivery_at s j = Some e" "d_idempotencyKey e = k" using dl_inv_key [OF inv, of k j] by auto
  then show "\<exists>e. delivery_at (put_delivery d' s) j = Some e \<and> d_idempotencyKey e = k" using d d'(1,2) by (cases "j = i") simp_all
qed

lemma dl_inv_key_free:
  assumes "dl_inv s" "\<not> truthy (map_get (dls_byKey s) k)"
  shows "map_get (dls_byKey s) k = None"
proof (cases "map_get (dls_byKey s) k")
  case (Some i)
  then show ?thesis using assms dl_inv_key [OF assms(1) Some] dl_invD(2) [OF assms(1), of i] by auto
qed

lemma dl_inv_new:
  assumes inv: "dl_inv s" and u: "delivery_at s u = None" "u \<noteq> []" and k: "\<not> truthy (map_get (dls_byKey s) k)"
    and d: "d_id d = u" "d_idempotencyKey d = k" "d_expiredAt d = None"
  shows "dl_inv ((put_delivery d s)\<lparr>dls_byKey := map_set k u (dls_byKey s)\<rparr>)" (is "dl_inv ?t")
proof (rule dl_invI)
  have kN: "map_get (dls_byKey s) k = None" by (rule dl_inv_key_free [OF inv k])
  show "map_ok (dls_deliveries ?t)" using inv by (simp add: dl_inv_def)
  show "d_id e = j \<and> j \<noteq> [] \<and> map_get (dls_byKey ?t) (d_idempotencyKey e) = Some j \<and>
      (d_deliveredAt e \<noteq> None \<longrightarrow> d_expiredAt e = None)" if "delivery_at ?t j = Some e" for j e
  proof -
    from that consider "j = u" "e = d" | "delivery_at s j = Some e" by (cases "j = u") (simp_all add: d(1))
    then show ?thesis
    proof cases
      case 2
      then have "d_idempotencyKey e \<noteq> k" using dl_invD(3) [OF inv 2] kN by auto
      then show ?thesis using dl_invD [OF inv 2] by simp
    qed (use d u in simp)
  qed
  show "\<exists>e. delivery_at ?t j = Some e \<and> d_idempotencyKey e = l" if "map_get (dls_byKey ?t) l = Some j" for l j
  proof (cases "l = k")
    case False
    with that obtain e where "delivery_at s j = Some e" "d_idempotencyKey e = l"
      using dl_inv_key [OF inv, of l j] by auto
    then show ?thesis using u d(1) by (cases "j = u") simp_all
  qed (use that d in simp)
qed

lemma expire_at: "delivery_at (expireOveraged s now) i =
    map_option (\<lambda>d. if overaged s now d then d\<lparr>d_expiredAt := Some now\<rparr> else d) (delivery_at s i)"
  unfolding expireOveraged_def using map_get_map_vals [of "\<lambda>_ d. if overaged s now d then d\<lparr>d_expiredAt := Some now\<rparr> else d"]
  by simp

lemma expire_atE:
  assumes "delivery_at (expireOveraged s now) i = Some d'"
  obtains d where "delivery_at s i = Some d" "d' = (if overaged s now d then d\<lparr>d_expiredAt := Some now\<rparr> else d)"
  using assms by (auto simp: expire_at)

lemma expire_fields [simp]: "dls_byKey (expireOveraged s now) = dls_byKey s"
  "dls_claimedUntil (expireOveraged s now) = dls_claimedUntil s"
  by (simp_all add: expireOveraged_def)

lemma claimPending_fst [simp]:
  "dls_deliveries (fst (claimPending s ty ttl now)) = dls_deliveries (expireOveraged s now)"
  "dls_byKey (fst (claimPending s ty ttl now)) = dls_byKey s"
  by (simp_all add: claimPending_def Let_def)

lemma dl_inv_expire:
  assumes inv: "dl_inv s"
  shows "dl_inv (expireOveraged s now)"
proof (rule dl_invI)
  show "map_ok (dls_deliveries (expireOveraged s now))"
    using inv unfolding dl_inv_def expireOveraged_def by simp
next
  fix i d' assume "delivery_at (expireOveraged s now) i = Some d'"
  then obtain d where d: "delivery_at s i = Some d" "d' = (if overaged s now d then d\<lparr>d_expiredAt := Some now\<rparr> else d)"
    by (rule expire_atE)
  then show "d_id d' = i \<and> i \<noteq> [] \<and> map_get (dls_byKey (expireOveraged s now)) (d_idempotencyKey d') = Some i \<and>
      (d_deliveredAt d' \<noteq> None \<longrightarrow> d_expiredAt d' = None)"
    using dl_invD [OF inv d(1)] by (simp add: overaged_def)
next
  fix k i assume "map_get (dls_byKey (expireOveraged s now)) k = Some i"
  then show "\<exists>d. delivery_at (expireOveraged s now) i = Some d \<and> d_idempotencyKey d = k"
    using dl_inv_key [OF inv, of k i] by (fastforce simp: expire_at)
qed

lemma wake_fields [simp]: "dls_deliveries (wake_listeners b s) = dls_deliveries s" "dls_byKey (wake_listeners b s) = dls_byKey s"
  "dls_claimedUntil (wake_listeners b s) = dls_claimedUntil s"
  by (simp_all add: wake_listeners_def)

lemma dl_inv_irrelevant [simp]: "dl_inv (wake_listeners b s) = dl_inv s" "dl_inv (s\<lparr>dls_claimedUntil := c\<rparr>) = dl_inv s"
  "dl_inv (onEnqueue s l) = dl_inv s" "dl_inv (offEnqueue s l) = dl_inv s"
  by (rule dl_inv_cong; simp add: onEnqueue_def offEnqueue_def)+

text \<open>Enqueueing, by cases: a new delivery, an expired one revived, or the one the key has.\<close>

lemma enqueue_cases:
  assumes inv: "dl_inv s"
  obtains (fresh) "\<not> truthy (map_get (dls_byKey s) (dn_idempotencyKey inp))"
      "enqueue_delivery s inp u now = (wake_listeners (dn_shadow inp) ((put_delivery (new_delivery inp u now) s)
         \<lparr>dls_byKey := map_set (dn_idempotencyKey inp) u (dls_byKey s)\<rparr>), Some (new_delivery inp u now))"
  | (again) i d where "delivery_at s i = Some d" "d_id d = i" "d_idempotencyKey d = dn_idempotencyKey inp" "d_deliveredAt d = None" "d_expiredAt d \<noteq> None"
      "enqueue_delivery s inp u now = (wake_listeners (dn_shadow inp) ((put_delivery (revive inp now d) s)
         \<lparr>dls_claimedUntil := map_del i (dls_claimedUntil s)\<rparr>), Some (revive inp now d))"
  | (keep) i d where "delivery_at s i = Some d" "d_idempotencyKey d = dn_idempotencyKey inp" "d_deliveredAt d \<noteq> None \<or> d_expiredAt d = None"
      "enqueue_delivery s inp u now = (s, Some d)"
proof (cases "truthy (map_get (dls_byKey s) (dn_idempotencyKey inp))")
  case False
  show ?thesis
    by (rule fresh [OF False]) (use False in \<open>simp add: enqueue_delivery_def Let_def new_delivery_def put_delivery_def\<close>)
next
  case True
  then obtain i where i: "map_get (dls_byKey s) (dn_idempotencyKey inp) = Some i" by (auto elim: truthyE)
  then obtain d where d: "delivery_at s i = Some d" "d_idempotencyKey d = dn_idempotencyKey inp"
    using dl_inv_key [OF inv i] by blast
  have ids: "d_id d = i" by (rule dl_invD(1) [OF inv d(1)])
  show ?thesis
  proof (cases "d_deliveredAt d = None \<and> d_expiredAt d \<noteq> None")
    case e: True
    have "enqueue_delivery s inp u now = (wake_listeners (dn_shadow inp) ((put_delivery (revive inp now d) s)
         \<lparr>dls_claimedUntil := map_del i (dls_claimedUntil s)\<rparr>), Some (revive inp now d))"
      using True i d ids e by (simp add: enqueue_delivery_def Let_def revive_def put_delivery_def)
    then show ?thesis using e by (intro again [OF d(1) ids d(2)]) simp_all
  next
    case False
    then have "enqueue_delivery s inp u now = (s, Some d)" using True i d by (auto simp: enqueue_delivery_def)
    then show ?thesis using False by (intro keep [OF d]) simp_all
  qed
qed

lemma dl_inv_enqueue:
  assumes "dl_inv s" "delivery_at s u = None" "u \<noteq> []"
  shows "dl_inv (fst (enqueue_delivery s inp u now))"
  using assms(1)
proof (cases rule: enqueue_cases [where inp = inp and u = u and now = now])
  case fresh
  have "dl_inv ((put_delivery (new_delivery inp u now) s)\<lparr>dls_byKey := map_set (dn_idempotencyKey inp) u (dls_byKey s)\<rparr>)"
    by (rule dl_inv_new [OF assms fresh(1)]) (simp_all add: new_delivery_def)
  then show ?thesis unfolding fresh(2) by simp
next
  case (again i d)
  have "dl_inv (put_delivery (revive inp now d) s)"
    using again by (intro dl_inv_put [OF assms(1) again(1)]) (simp_all add: revive_def)
  then show ?thesis unfolding again(6) by simp
next
  case (keep i d)
  with assms(1) show ?thesis by simp
qed

text \<open>The other operations put back a delivery changed in place (\<open>edit_at\<close>) or a tombstone.\<close>

lemma edit_cases:
  obtains (ack_same) "ack s i at ms = s" | (ack_done) d where "delivery_at s i = Some d" "d_deliveredAt d = None"
    "ack s i at ms = put_delivery (d\<lparr>d_deliveredAt := Some at, d_expiredAt := None,
        d_deliverLatencyMs := Some (max 0 (at - d_createdAt d)), d_slackApiMs := or_opt ms (d_slackApiMs d)\<rparr>) s"
proof (cases "delivery_at s i")
  case None
  then show ?thesis by (intro ack_same) (simp add: ack_def)
next
  case (Some d)
  then show ?thesis
  proof (cases "d_deliveredAt d")
    case None
    with Some show ?thesis by (intro ack_done [OF Some]) (simp_all add: ack_def)
  next
    case t: (Some t)
    with Some show ?thesis by (intro ack_same) (simp add: ack_def)
  qed
qed

lemma dl_inv_ack: "dl_inv s \<Longrightarrow> dl_inv (ack s i at ms)"
  by (cases rule: edit_cases [of s i at ms]) (simp_all add: dl_inv_put dl_invD(1))

lemma keyed_cases:
  assumes "dl_inv s" "truthy (map_get (dls_byKey s) k)"
  obtains i d where "map_get (dls_byKey s) k = Some i" "delivery_at s i = Some d" "d_id d = i"
proof -
  from assms(2) obtain i where i: "map_get (dls_byKey s) k = Some i" by (auto elim: truthyE)
  then obtain d where "delivery_at s i = Some d" using dl_inv_key [OF assms(1) i] by blast
  then show ?thesis using that [OF i] dl_invD(1) [OF assms(1)] by blast
qed

lemma dl_inv_ackByKey:
  assumes "dl_inv s" "delivery_at s u = None" "u \<noteq> []"
  shows "dl_inv (ackByKey s k u at)"
proof (cases "truthy (map_get (dls_byKey s) k)")
  case True
  then obtain i d where "map_get (dls_byKey s) k = Some i" "delivery_at s i = Some d" "d_id d = i"
    by (rule keyed_cases [OF assms(1)])
  with True assms(1) show ?thesis by (simp add: ackByKey_def dl_inv_put)
next
  case False
  have "dl_inv ((put_delivery (tombstone k u at) s)\<lparr>dls_byKey := map_set k u (dls_byKey s)\<rparr>)"
    by (rule dl_inv_new [OF assms False]) (simp_all add: tombstone_def)
  with False show ?thesis by (simp add: ackByKey_def)
qed

lemma dl_inv_editRef:
  assumes "dl_inv s"
  shows "dl_inv (setEditRefByKey s k e)"
proof (cases "truthy (map_get (dls_byKey s) k)")
  case True
  then obtain i d where "map_get (dls_byKey s) k = Some i" "delivery_at s i = Some d" "d_id d = i"
    by (rule keyed_cases [OF assms])
  with True assms show ?thesis using dl_invD(4) [OF assms, of i d]
    by (auto simp: setEditRefByKey_def simp del: not_None_eq intro!: dl_inv_put)
qed (simp add: setEditRefByKey_def assms)

lemma dl_inv_thread:
  assumes "dl_inv s"
  shows "dl_inv (recordRecipientThread s i r at)"
proof (cases "delivery_at s i")
  case (Some d)
  then show ?thesis
    using assms dl_invD(1,4) [OF assms Some] by (simp add: recordRecipientThread_def Let_def dl_inv_put)
qed (simp add: recordRecipientThread_def assms)

lemma dl_inv_step: "dl_step tm s t \<Longrightarrow> dl_inv s \<Longrightarrow> dl_inv t"
proof (induction rule: dl_step.induct)
  case (dl_claim now s ty ttl)
  then show ?case
    using dl_inv_expire [of s now] dl_inv_cong [of "fst (claimPending s ty ttl now)" "expireOveraged s now"] by simp
qed (simp_all add: dl_inv_enqueue dl_inv_ackByKey dl_inv_ack dl_inv_editRef dl_inv_thread)

interpretation dl: invariant_system dl_init "dl_step tm" dl_inv for tm
proof
  show "dl_inv s" if "dl_init s" for s using that by (auto simp: dl_init_def createDeliveryStore_def dl_inv_def)
qed (rule dl_inv_step)

section \<open>A delivered message stays delivered\<close>

text \<open>What one step makes of a delivery: it keeps its id and key, and once delivered its content.\<close>

definition settled_as :: "delivery \<Rightarrow> delivery \<Rightarrow> bool" where
  "settled_as d d' =
     (d_id d' = d_id d \<and> d_idempotencyKey d' = d_idempotencyKey d \<and>
      (d_deliveredAt d \<noteq> None \<longrightarrow>
         d_deliveredAt d' = d_deliveredAt d \<and> d_text d' = d_text d \<and> d_destination d' = d_destination d \<and>
         d_attachments d' = d_attachments d))"

lemma settled_as_refl [simp]: "settled_as d d"
  by (simp add: settled_as_def)

lemma settled_as_trans: "settled_as d e \<Longrightarrow> settled_as e f \<Longrightarrow> settled_as d f"
  by (auto simp: settled_as_def)


lemma thread_cases:
  assumes "delivery_at s j = Some e"
  obtains e' where "settled_as e e'" "recordRecipientThread s j r at \<in> {s, put_delivery e' s}"
proof -
  define e1 where "e1 = e\<lparr>d_recipientThreadRef := Some r\<rparr>"
  define e2 where "e2 = (if d_deliveredAt e1 = None then e1\<lparr>d_deliveredAt := Some at, d_expiredAt := None\<rparr> else e1)"
  have "settled_as e e2" by (simp add: e2_def e1_def settled_as_def)
  moreover have "recordRecipientThread s j r at \<in> {s, put_delivery e2 s}"
    using assms by (simp add: recordRecipientThread_def Let_def e2_def e1_def)
  ultimately show ?thesis by (rule that)
qed

lemma settled_step:
  assumes "dl_step tm s t" "dl_inv s" "delivery_at s i = Some d"
  shows "\<exists>d'. delivery_at t i = Some d' \<and> settled_as d d'"
  using assms
proof (induction rule: dl_step.induct)
  case (dl_enqueue s u now inp)
  from dl_enqueue.prems(1) show ?case
  proof (cases rule: enqueue_cases [where inp = inp and u = u and now = now])
    case fresh
    then show ?thesis using dl_enqueue by (auto simp: new_delivery_def)
  next
    case (again j e)
    then show ?thesis using dl_enqueue by (cases "i = j") (simp_all add: revive_def settled_as_def)
  next
    case (keep j e)
    then show ?thesis using dl_enqueue by simp
  qed
next
  case (dl_claim now s ty ttl)
  then show ?case by (auto simp: expire_at settled_as_def)
next
  case (dl_ack s j at ms)
  show ?case
  proof (cases rule: edit_cases [of s j at ms])
    case ack_same
    then show ?thesis using dl_ack by simp
  next
    case (ack_done e)
    then show ?thesis using dl_ack dl_invD(1) [OF dl_ack(1) ack_done(1)] by (cases "i = j") (simp_all add: settled_as_def)
  qed
next
  case (dl_ackByKey s u k at)
  show ?case
  proof (cases "truthy (map_get (dls_byKey s) k)")
    case True
    then obtain j e where "map_get (dls_byKey s) k = Some j" "delivery_at s j = Some e" "d_id e = j"
      by (rule keyed_cases [OF dl_ackByKey.prems(1)])
    with True dl_ackByKey show ?thesis by (cases "i = j") (auto simp: ackByKey_def settled_as_def)
  next
    case False
    then show ?thesis using dl_ackByKey by (auto simp: ackByKey_def tombstone_def)
  qed
next
  case (dl_editRef s k e)
  show ?case
  proof (cases "truthy (map_get (dls_byKey s) k)")
    case True
    then obtain j e where "map_get (dls_byKey s) k = Some j" "delivery_at s j = Some e" "d_id e = j"
      by (rule keyed_cases [OF dl_editRef(1)])
    with True dl_editRef show ?thesis by (cases "i = j") (auto simp: setEditRefByKey_def settled_as_def)
  qed (simp add: setEditRefByKey_def dl_editRef)
next
  case (dl_thread s j r at)
  show ?case
  proof (cases "delivery_at s j")
    case (Some e)
    then obtain e' where e': "settled_as e e'" "recordRecipientThread s j r at \<in> {s, put_delivery e' s}"
      by (rule thread_cases)
    then have "d_id e' = j" using dl_invD(1) [OF dl_thread(1) Some] by (simp add: settled_as_def)
    then show ?thesis using e' Some dl_thread(2) by (cases "i = j") auto
  qed (simp add: recordRecipientThread_def dl_thread)
qed (simp_all add: onEnqueue_def offEnqueue_def)

lemma settled_steps:
  assumes "(dl_step tm)\<^sup>*\<^sup>* s t" "dl_inv s" "delivery_at s i = Some d"
  shows "\<exists>d'. delivery_at t i = Some d' \<and> settled_as d d'"
  using assms
proof (induction rule: rtranclp_induct)
  case (step t v)
  then obtain e where e: "delivery_at t i = Some e" "settled_as d e" by blast
  have "dl_inv t" by (rule dl.inv_steps [OF step(1) step(4)])
  from settled_step [OF step(2) this e(1)] e(2) show ?case by (blast intro: settled_as_trans)
qed simp

text \<open>What is handed out is undelivered, in the store and not claimed at that moment.\<close>

lemma handed_out:
  assumes "dl_inv s" "d \<in> set (snd (claimPending s ty ttl now))"
  obtains e where "delivery_at s (d_id d) = Some e" "d_deliveredAt e = None"
    "delivery_at (expireOveraged s now) (d_id d) = Some d" "d_expiredAt d = None" "or_else (map_get (dls_claimedUntil s) (d_id d)) 0 \<le> now"
proof -
  have d: "d \<in> set (map_vals (dls_deliveries (expireOveraged s now)))" "is_pending ty d"
    "or_else (map_get (dls_claimedUntil s) (d_id d)) 0 \<le> now"
    using assms(2) by (auto simp: claimPending_def Let_def)
  have inv: "dl_inv (expireOveraged s now)" by (rule dl_inv_expire [OF assms(1)])
  then have at_d: "delivery_at (expireOveraged s now) (d_id d) = Some d" using d(1) by (rule dl_inv_vals)
  then obtain e where e: "delivery_at s (d_id d) = Some e" "d = (if overaged s now e then e\<lparr>d_expiredAt := Some now\<rparr> else e)"
    by (rule expire_atE)
  have "d_deliveredAt (if overaged s now e then e\<lparr>d_expiredAt := Some now\<rparr> else e) = d_deliveredAt e" by simp
  then have "d_deliveredAt e = d_deliveredAt d" by (simp only: e(2) [symmetric])
  then have "d_deliveredAt e = None" using d(2) by (simp add: is_pending_def)
  from that [OF e(1) this at_d _ d(3)] d(2) show ?thesis by (simp add: is_pending_def)
qed

lemma delivered_not_pending:
  assumes "dl_inv s" "delivery_at s i = Some d" "d_deliveredAt d \<noteq> None"
  shows "i \<notin> d_id ` set (pending s ty)" "i \<notin> d_id ` set (snd (claimPending s ty ttl now))"
proof -
  show "i \<notin> d_id ` set (pending s ty)"
  proof
    assume "i \<in> d_id ` set (pending s ty)"
    then obtain e where e: "e \<in> set (map_vals (dls_deliveries s))" "is_pending ty e" "d_id e = i"
      by (auto simp: pending_def)
    have "delivery_at s i = Some e" using dl_inv_vals [OF assms(1) e(1)] e(3) by simp
    then show False using e(2) assms(2,3) by (simp add: is_pending_def)
  qed
  show "i \<notin> d_id ` set (snd (claimPending s ty ttl now))"
  proof
    assume "i \<in> d_id ` set (snd (claimPending s ty ttl now))"
    then obtain e where e: "e \<in> set (snd (claimPending s ty ttl now))" "d_id e = i" by blast
    from assms(1) e(1) show False by (rule handed_out) (use e(2) assms(2,3) in simp)
  qed
qed

text \<open>C18.
  A message is sent at most once: once a delivery is marked delivered (by an acknowledgement, by
  key, or by the recipient's thread), then whatever is enqueued, claimed, acknowledged or edited
  later, it keeps its delivery time, text, destination and attachments, it is never again pending
  nor handed to a surface, and enqueueing its idempotency key again returns it and changes
  nothing.
\<close>

theorem delivered_never_resent:
  assumes "reach dl_init (dl_step tm) s" and "delivery_at s i = Some d" and "d_deliveredAt d = Some at"
    and "(dl_step tm)\<^sup>*\<^sup>* s t"
  shows "\<exists>d'. delivery_at t i = Some d' \<and> d_deliveredAt d' = Some at \<and> d_text d' = d_text d \<and>
      d_destination d' = d_destination d \<and> d_attachments d' = d_attachments d \<and>
      i \<notin> d_id ` set (pending t ty) \<and> i \<notin> d_id ` set (snd (claimPending t ty ttl now)) \<and>
      (dn_idempotencyKey inp = d_idempotencyKey d \<longrightarrow> enqueue_delivery t inp u now = (t, Some d'))"
proof -
  have inv: "dl_inv s" "dl_inv t" using dl.reach_inv [OF assms(1)] dl.inv_steps [OF assms(4)] by blast+
  obtain d' where d': "delivery_at t i = Some d'" "settled_as d d'" using settled_steps [OF assms(4) inv(1) assms(2)] by blast
  then have del: "d_deliveredAt d' = Some at" and key: "d_idempotencyKey d' = d_idempotencyKey d"
    using assms(3) by (simp_all add: settled_as_def)
  have "enqueue_delivery t inp u now = (t, Some d')" if "dn_idempotencyKey inp = d_idempotencyKey d"
    using dl_invD(2,3) [OF inv(2) d'(1)] d'(1) key del that by (simp add: enqueue_delivery_def)
  then show ?thesis
    using d' del delivered_not_pending [OF inv(2) d'(1)] assms(3) by (simp add: settled_as_def)
qed

section \<open>One surface at a time\<close>

definition held_until :: "string \<Rightarrow> time \<Rightarrow> delivery_store \<Rightarrow> bool" where
  "held_until i until s = (\<exists>d. delivery_at s i = Some d \<and> d_expiredAt d = None \<and> map_get (dls_claimedUntil s) i = Some until)"

lemma fold_claim_get: "map_get (fold (\<lambda>d. map_set (d_id d) v) rows m) i = (if i \<in> d_id ` set rows then Some v else map_get m i)"
  by (induction rows arbitrary: m) auto

lemma held_not_handed:
  assumes "dl_inv s" "held_until i until s" "n < until"
  shows "i \<notin> d_id ` set (snd (claimPending s ty ttl n))"
proof
  assume "i \<in> d_id ` set (snd (claimPending s ty ttl n))"
  then obtain e where e: "e \<in> set (snd (claimPending s ty ttl n))" "d_id e = i" by blast
  from assms(1) e(1) show False by (rule handed_out) (use e(2) assms(2,3) in \<open>auto simp: held_until_def\<close>)
qed


lemma held_put:
  assumes "held_until i until s" "delivery_at s (d_id e) = Some e0" "d_expiredAt e0 = None \<Longrightarrow> d_expiredAt e = None"
  shows "held_until i until (put_delivery e s)"
  using assms by (auto simp: held_until_def)

lemma held_put_other: "held_until i until s \<Longrightarrow> delivery_at s (d_id e) = None \<Longrightarrow> held_until i until (put_delivery e s)"
  by (auto simp: held_until_def)

lemma held_cong [simp]: "held_until i until (s\<lparr>dls_byKey := m\<rparr>) = held_until i until s"
  "held_until i until (wake_listeners b s) = held_until i until s" "held_until i until (onEnqueue s l) = held_until i until s"
  "held_until i until (offEnqueue s l) = held_until i until s"
  by (simp_all add: held_until_def onEnqueue_def offEnqueue_def)

lemma held_claim:
  assumes inv: "dl_inv s" and held: "held_until i until s" and n: "n < until"
  shows "held_until i until (fst (claimPending s ty ttl n))"
proof -
  from held obtain d where d: "delivery_at s i = Some d" "d_expiredAt d = None" "map_get (dls_claimedUntil s) i = Some until"
    by (auto simp: held_until_def)
  have "\<not> overaged s n d" using d n dl_invD(1) [OF inv d(1)] by (simp add: overaged_def)
  then have "delivery_at (fst (claimPending s ty ttl n)) i = Some d" using d(1) by (simp add: expire_at)
  moreover have "map_get (dls_claimedUntil (fst (claimPending s ty ttl n))) i = Some until"
    using held_not_handed [OF inv held n, of ty ttl] d(3) by (simp add: claimPending_def Let_def fold_claim_get)
  ultimately show ?thesis using d(2) by (simp add: held_until_def)
qed

lemma held_enqueue:
  assumes inv: "dl_inv s" and held: "held_until i until s" and u: "delivery_at s u = None"
  shows "held_until i until (fst (enqueue_delivery s inp u n))"
  using inv
proof (cases rule: enqueue_cases [where inp = inp and u = u and now = n])
  case fresh
  then show ?thesis using held u by (simp add: held_put_other new_delivery_def)
next
  case (again j e)
  then have "i \<noteq> j" using held by (auto simp: held_until_def)
  then show ?thesis using again held by (auto simp: held_until_def revive_def)
qed (use held in simp)

lemma held_step:
  assumes "dl_step (\<lambda>n. n < until) s t" "dl_inv s" "held_until i until s"
  shows "held_until i until t"
  using assms
proof (induction rule: dl_step.induct)
  case (dl_ack s j at ms)
  show ?case
  proof (cases rule: edit_cases [of s j at ms])
    case (ack_done e)
    then show ?thesis using dl_ack dl_invD(1) [OF dl_ack(1) ack_done(1)] by (simp add: held_put)
  qed (use dl_ack in simp)
next
  case (dl_ackByKey s u k at)
  show ?case
  proof (cases "truthy (map_get (dls_byKey s) k)")
    case True
    then obtain j e where "map_get (dls_byKey s) k = Some j" "delivery_at s j = Some e" "d_id e = j"
      by (rule keyed_cases [OF dl_ackByKey.prems(1)])
    with True dl_ackByKey show ?thesis by (simp add: ackByKey_def held_put)
  next
    case False
    then show ?thesis using dl_ackByKey by (simp add: ackByKey_def held_put_other tombstone_def)
  qed
next
  case (dl_editRef s k e)
  show ?case
  proof (cases "truthy (map_get (dls_byKey s) k)")
    case True
    then obtain j e where "map_get (dls_byKey s) k = Some j" "delivery_at s j = Some e" "d_id e = j"
      by (rule keyed_cases [OF dl_editRef(1)])
    with True dl_editRef show ?thesis by (simp add: setEditRefByKey_def held_put)
  qed (simp add: setEditRefByKey_def dl_editRef)
next
  case (dl_thread s j r at)
  show ?case
  proof (cases "delivery_at s j")
    case (Some e)
    then show ?thesis
      using dl_thread dl_invD(1) [OF dl_thread(1) Some] by (simp add: recordRecipientThread_def Let_def held_put)
  qed (simp add: recordRecipientThread_def dl_thread)
qed (simp_all add: held_claim held_enqueue)

lemma held_steps: "(dl_step (\<lambda>n. n < until))\<^sup>*\<^sup>* s t \<Longrightarrow> dl_inv s \<Longrightarrow> held_until i until s \<Longrightarrow> held_until i until t"
proof (induction rule: rtranclp_induct)
  case (step t v)
  then show ?case using held_step [OF step(2) dl.inv_steps [OF step(1) step(4)]] by blast
qed

lemma claimed_held:
  assumes inv: "dl_inv s" and d: "d \<in> set (snd (claimPending s ty ttl now))"
  shows "held_until (d_id d) (now + ttl) (fst (claimPending s ty ttl now))"
  using inv d
proof (rule handed_out)
  assume "delivery_at (expireOveraged s now) (d_id d) = Some d" "d_expiredAt d = None"
  moreover have "map_get (dls_claimedUntil (fst (claimPending s ty ttl now))) (d_id d) = Some (now + ttl)"
    using d by (auto simp: claimPending_def Let_def fold_claim_get)
  ultimately show ?thesis by (simp add: held_until_def)
qed

text \<open>A delivery handed to a surface is that surface's alone until the claim runs out: whatever
  happens in the store before that time (claims by other surfaces, expiry of overaged messages,
  re-enqueueing of the same key, acknowledgements), no other claim returns it before that time,
  and it is not given up as overaged.
\<close>

theorem delivery_claim_exclusive:
  assumes "reach dl_init (dl_step tm) s" and "d \<in> set (snd (claimPending s ty ttl now))"
    and "(dl_step (\<lambda>n. n < now + ttl))\<^sup>*\<^sup>* (fst (claimPending s ty ttl now)) t" and "n < now + ttl"
  shows "d_id d \<notin> d_id ` set (snd (claimPending t ty' ttl' n)) \<and>
    (\<exists>d'. delivery_at t (d_id d) = Some d' \<and> d_expiredAt d' = None)"
proof
  have inv: "dl_inv s" by (rule dl.reach_inv [OF assms(1)])
  have inv1: "dl_inv (fst (claimPending s ty ttl now))"
    by (rule dl_inv_step [OF _ inv]) (rule dl_claim [of "\<lambda>_. True"], simp)
  have held: "held_until (d_id d) (now + ttl) t" by (rule held_steps [OF assms(3) inv1 claimed_held [OF inv assms(2)]])
  show "d_id d \<notin> d_id ` set (snd (claimPending t ty' ttl' n))"
    by (rule held_not_handed [OF dl.inv_steps [OF assms(3) inv1] held assms(4)])
  show "\<exists>d'. delivery_at t (d_id d) = Some d' \<and> d_expiredAt d' = None" using held by (auto simp: held_until_def)
qed

section \<open>The theorems applied\<close>

definition ex_dest :: destination where
  "ex_dest = bare_destination ''slack'' ''C1''"

definition ex_message :: delivery_input where
  "ex_message = \<lparr>dn_destination = ex_dest, dn_text = ''hi'', dn_attachments = None, dn_provenance = None,
     dn_idempotencyKey = ''k'', dn_shadow = False\<rparr>"

definition ex_outbox :: delivery_store where
  "ex_outbox = fst (enqueue_delivery (createDeliveryStore None) ex_message ''d1'' 10)"

definition ex_sent :: delivery_store where
  "ex_sent = ack ex_outbox ''d1'' 20 None"

lemma ex_outbox_reach: "reach dl_init (dl_step (\<lambda>_. True)) ex_outbox"
proof -
  have "reach dl_init (dl_step (\<lambda>_. True)) (createDeliveryStore None)"
    by (rule reach_init) (auto simp: dl_init_def)
  then show ?thesis
    unfolding ex_outbox_def by (rule reach_step) (rule dl_enqueue, simp_all add: createDeliveryStore_def)
qed

theorem delivered_never_resent_witness:
  "''d1'' \<notin> d_id ` set (pending ex_sent ''slack'') \<and> enqueue_delivery ex_sent ex_message ''d2'' 30 = (ex_sent, delivery_at ex_sent ''d1'')"
proof -
  have r: "reach dl_init (dl_step (\<lambda>_. True)) ex_sent"
    unfolding ex_sent_def by (rule reach_step [OF ex_outbox_reach dl_ack])
  have "d_deliveredAt (the (delivery_at ex_sent ''d1'')) = Some 20" "delivery_at ex_sent ''d1'' \<noteq> None"
    "d_idempotencyKey (the (delivery_at ex_sent ''d1'')) = ''k''" "dn_idempotencyKey ex_message = ''k''" by code_simp+
  moreover from this obtain d where "delivery_at ex_sent ''d1'' = Some d" by blast
  ultimately show ?thesis
    using delivered_never_resent [OF r _ _ rtranclp.rtrancl_refl,
        where i = "''d1''" and d = d and at = 20 and ty = "''slack''" and inp = ex_message and u = "''d2''" and now = 30] by auto
qed

theorem delivery_claim_exclusive_witness:
  "''d1'' \<in> d_id ` set (snd (claimPending ex_outbox ''slack'' 100 20)) \<and>
   ''d1'' \<notin> d_id ` set (snd (claimPending (fst (claimPending ex_outbox ''slack'' 100 20)) ''slack'' 100 119))"
proof -
  let ?d = "new_delivery ex_message ''d1'' 10"
  have d: "snd (claimPending ex_outbox ''slack'' 100 20) = [?d]" "d_id ?d = ''d1''" by code_simp+
  have "?d \<in> set (snd (claimPending ex_outbox ''slack'' 100 20))" by (simp add: d)
  from delivery_claim_exclusive [OF ex_outbox_reach this rtranclp.rtrancl_refl, of 119 "''slack''" 100] d show ?thesis by simp
qed

end
