(* ===== verification/Cron_Schedule.thy ===== *)
theory Cron_Schedule
  imports Loop_Types
begin

text \<open>
  Schedules (\<open>src/cron/schedule.ts\<close>): what a caller may ask for, how it is normalized, and when a
  cron fires next. The calendar arithmetic of the package \<open>croner\<close> and the time zone table of the
  runtime are parameters (the record \<open>calendar\<close>). A number of a request body may be no integer at
  all: \<open>Fraction n\<close> lies strictly between \<open>n\<close> and \<open>n + 1\<close>.
\<close>

section \<open>Data\<close>

datatype js_number = Whole int | Fraction int | PosInfinity | NegInfinity | NaN

definition MAX_SAFE :: int where
  "MAX_SAFE = 2 ^ 53 - 1"

fun isSafeInteger :: "js_number \<Rightarrow> bool" where
  "isSafeInteger (Whole n) = (abs n \<le> MAX_SAFE)"
| "isSafeInteger _ = False"

text \<open>Comparisons with an integer constant.\<close>

fun num_ge :: "js_number \<Rightarrow> int \<Rightarrow> bool" where
  "num_ge (Whole n) k = (n \<ge> k)"
| "num_ge (Fraction n) k = (n \<ge> k)"
| "num_ge PosInfinity k = True"
| "num_ge NegInfinity k = False"
| "num_ge NaN k = False"

fun num_less :: "js_number \<Rightarrow> int \<Rightarrow> bool" where
  "num_less (Whole n) k = (n < k)"
| "num_less (Fraction n) k = (n < k)"
| "num_less PosInfinity k = False"
| "num_less NegInfinity k = True"
| "num_less NaN k = False"

record cron_schedule =
  cs_cron :: "string option"
  cs_timezone :: "string option"
  cs_everyMs :: "js_number option"
  cs_firstFireAt :: "js_number option"

record calendar =
  cal_timezone_ok :: "string \<Rightarrow> bool"
  cal_next :: "string \<Rightarrow> string \<Rightarrow> time \<Rightarrow> unit + time option"

datatype schedule_error =
    BadTimestamp string
  | BadInterval string
  | InvalidTimezone string
  | NotFiveFields
  | CronRequired
  | CronRejected
  | EmptyCron
  | CronCombined
  | NoFutureFire
  | TimezoneWithoutCron
  | IntervalOverDay
  | IntervalTooShort
  | FirstFireInPast

definition DEFAULT_CRON_TIMEZONE :: string where
  "DEFAULT_CRON_TIMEZONE = ''America/Los_Angeles''"

definition DAY_MS :: int where
  "DAY_MS = 24 * 60 * 60 * 1000"

definition MIN_RECURRING_CRON_MS :: int where
  "MIN_RECURRING_CRON_MS = 60000"

definition PAST_FIRE_GRACE_MS :: int where
  "PAST_FIRE_GRACE_MS = 5 * 60000"

section \<open>A schedule from a request body\<close>

datatype body_value = BString string | BNumber js_number | BOther

text \<open>\<open>None\<close> is a value that is no object; the list holds the object's own properties.\<close>

definition userScheduleFromBody :: "(string, body_value) jsmap option \<Rightarrow> string \<Rightarrow> cron_schedule option" where
  "userScheduleFromBody value defaultTimezone =
     (case value of
        None \<Rightarrow> None
      | Some obj \<Rightarrow>
          let cron = map_get obj ''cron''; timezone = map_get obj ''timezone'';
              everyMs = map_get obj ''everyMs''; firstFireAt = map_get obj ''firstFireAt''
          in if cron \<noteq> None
             then (case the cron of
                BString c \<Rightarrow>
                  if everyMs \<noteq> None \<or> firstFireAt \<noteq> None then None
                  else (case (if timezone \<noteq> None then the timezone else BString defaultTimezone) of
                      BString tz \<Rightarrow> Some \<lparr>cs_cron = Some c, cs_timezone = Some tz, cs_everyMs = None, cs_firstFireAt = None\<rparr>
                    | _ \<Rightarrow> None)
              | _ \<Rightarrow> None)
             else if timezone \<noteq> None \<or> (everyMs = None \<and> firstFireAt = None) then None
             else (case (everyMs, firstFireAt) of
                (Some (BNumber e), Some (BNumber f)) \<Rightarrow>
                  Some \<lparr>cs_cron = None, cs_timezone = None, cs_everyMs = Some e, cs_firstFireAt = Some f\<rparr>
              | (Some (BNumber e), None) \<Rightarrow>
                  Some \<lparr>cs_cron = None, cs_timezone = None, cs_everyMs = Some e, cs_firstFireAt = None\<rparr>
              | (None, Some (BNumber f)) \<Rightarrow>
                  Some \<lparr>cs_cron = None, cs_timezone = None, cs_everyMs = None, cs_firstFireAt = Some f\<rparr>
              | _ \<Rightarrow> None))"

section \<open>Checks and normal forms\<close>

definition isCalendarSchedule :: "cron_schedule \<Rightarrow> bool" where
  "isCalendarSchedule sch = (cs_cron sch \<noteq> None)"

definition finiteEpochMs :: "js_number option \<Rightarrow> string \<Rightarrow> schedule_error + time option" where
  "finiteEpochMs value name =
     (case value of
        None \<Rightarrow> Inr None
      | Some v \<Rightarrow> if \<not> isSafeInteger v then Inl (BadTimestamp name)
                  else (case v of Whole n \<Rightarrow> Inr (Some n) | _ \<Rightarrow> Inl (BadTimestamp name)))"

definition finitePositiveMs :: "js_number option \<Rightarrow> string \<Rightarrow> schedule_error + int option" where
  "finitePositiveMs value name =
     (case value of
        None \<Rightarrow> Inr None
      | Some v \<Rightarrow> if \<not> isSafeInteger v \<or> num_less v 1 then Inl (BadInterval name)
                  else (case v of Whole n \<Rightarrow> Inr (Some n) | _ \<Rightarrow> Inl (BadInterval name)))"

definition normalizeTimezone :: "calendar \<Rightarrow> string option \<Rightarrow> string \<Rightarrow> schedule_error + string" where
  "normalizeTimezone cal input fallback =
     (let tz = trim (if map_option trim input \<noteq> None \<and> the (map_option trim input) \<noteq> [] then the (map_option trim input) else fallback)
      in if cal_timezone_ok cal tz then Inr tz else Inl (InvalidTimezone tz))"

definition normalizeCronExpression :: "string \<Rightarrow> schedule_error + string" where
  "normalizeCronExpression input =
     (let cron = collapse_spaces (trim input)
      in if length (split_on (CHR '' '') cron) \<noteq> 5 then Inl NotFiveFields else Inr cron)"

definition nextCalendarFireAfter :: "calendar \<Rightarrow> cron_schedule \<Rightarrow> time \<Rightarrow> schedule_error + time option" where
  "nextCalendarFireAfter cal sch after =
     (if \<not> truthy (cs_cron sch) then Inl CronRequired
      else (case normalizeTimezone cal (cs_timezone sch) DEFAULT_CRON_TIMEZONE of
          Inl e \<Rightarrow> Inl e
        | Inr tz \<Rightarrow> (case cal_next cal (the (cs_cron sch)) tz after of Inl _ \<Rightarrow> Inl CronRejected | Inr n \<Rightarrow> Inr n)))"

definition normalizeSchedule ::
  "calendar \<Rightarrow> cron_schedule \<Rightarrow> time \<Rightarrow> string \<Rightarrow> schedule_error + cron_schedule \<times> time option" where
  "normalizeSchedule cal input now defaultTimezone =
     (case cs_cron input of
        Some c \<Rightarrow>
          if trim c = [] then Inl EmptyCron
          else if cs_everyMs input \<noteq> None \<or> cs_firstFireAt input \<noteq> None then Inl CronCombined
          else (case normalizeCronExpression c of Inl e \<Rightarrow> Inl e
            | Inr cron \<Rightarrow> (case normalizeTimezone cal (cs_timezone input) defaultTimezone of Inl e \<Rightarrow> Inl e
              | Inr tz \<Rightarrow>
                  let schedule = \<lparr>cs_cron = Some cron, cs_timezone = Some tz, cs_everyMs = None, cs_firstFireAt = None\<rparr>
                  in (case nextCalendarFireAfter cal schedule now of Inl e \<Rightarrow> Inl e
                    | Inr None \<Rightarrow> Inl NoFutureFire
                    | Inr (Some n) \<Rightarrow> Inr (schedule, Some n))))
      | None \<Rightarrow>
          if cs_timezone input \<noteq> None then Inl TimezoneWithoutCron
          else if cs_everyMs input \<noteq> None \<and> num_ge (the (cs_everyMs input)) DAY_MS then Inl IntervalOverDay
          else (case finitePositiveMs (cs_everyMs input) ''schedule.everyMs'' of Inl e \<Rightarrow> Inl e
            | Inr everyMs \<Rightarrow> (case finiteEpochMs (cs_firstFireAt input) ''schedule.firstFireAt'' of Inl e \<Rightarrow> Inl e
              | Inr first \<Rightarrow>
                  let firstFireAt = or_else first (case everyMs of Some e \<Rightarrow> now + e | None \<Rightarrow> now)
                  in Inr (\<lparr>cs_cron = None, cs_timezone = None, cs_everyMs = map_option Whole everyMs,
                           cs_firstFireAt = Some (Whole firstFireAt)\<rparr>, Some firstFireAt))))"

definition validateUserSchedule :: "cron_schedule \<Rightarrow> time \<Rightarrow> schedule_error + unit" where
  "validateUserSchedule sch now =
     (if cs_everyMs sch \<noteq> None \<and> num_less (the (cs_everyMs sch)) MIN_RECURRING_CRON_MS then Inl IntervalTooShort
      else if cs_firstFireAt sch \<noteq> None \<and> num_less (the (cs_firstFireAt sch)) (now - PAST_FIRE_GRACE_MS) then Inl FirstFireInPast
      else Inr ())"

definition recoverNextFireAt ::
  "calendar \<Rightarrow> cron_schedule \<Rightarrow> time \<Rightarrow> time option \<Rightarrow> time option \<Rightarrow> schedule_error + time option" where
  "recoverNextFireAt cal sch createdAt lastFiredAt nextFireAt =
     (if nextFireAt \<noteq> None then finiteEpochMs (map_option Whole nextFireAt) ''nextFireAt''
      else if isCalendarSchedule sch then nextCalendarFireAfter cal sch (or_else lastFiredAt createdAt)
      else (case lastFiredAt of
          None \<Rightarrow> (case finiteEpochMs (cs_firstFireAt sch) ''schedule.firstFireAt'' of
                     Inl e \<Rightarrow> Inl e | Inr f \<Rightarrow> Inr (Some (or_else f createdAt)))
        | Some t \<Rightarrow> (case finitePositiveMs (cs_everyMs sch) ''schedule.everyMs'' of
                     Inl e \<Rightarrow> Inl e | Inr e \<Rightarrow> Inr (map_option (\<lambda>ms. t + ms) e))))"

definition advanceNextFireAt :: "calendar \<Rightarrow> cron_schedule \<Rightarrow> time \<Rightarrow> schedule_error + time option" where
  "advanceNextFireAt cal sch firedAt =
     (if isCalendarSchedule sch then nextCalendarFireAfter cal sch firedAt
      else (case finitePositiveMs (cs_everyMs sch) ''schedule.everyMs'' of
          Inl e \<Rightarrow> Inl e | Inr e \<Rightarrow> Inr (map_option (\<lambda>ms. firedAt + ms) e)))"

section \<open>The normal forms are fixed points\<close>

lemma normalizeCronExpression_fixed:
  assumes "normalizeCronExpression c = Inr d"
  shows "normalizeCronExpression d = Inr d" "trim d \<noteq> []"
proof -
  have d: "d = collapse_spaces (trim c)" "length (split_on (CHR '' '') d) = 5"
    using assms by (auto simp: normalizeCronExpression_def Let_def split: if_splits)
  then have ne: "trim c \<noteq> []" by auto
  then have "trim d = d"
    using trim_ends [OF ne] collapse_hd [OF ne] collapse_last [OF ne] unfolding d(1) by (intro trim_fixed) simp
  then show "normalizeCronExpression d = Inr d" "trim d \<noteq> []"
    using d ne by (auto simp: normalizeCronExpression_def Let_def)
qed

lemma normalizeTimezone_fixed:
  assumes "normalizeTimezone cal i f = Inr tz" "tz \<noteq> []"
  shows "normalizeTimezone cal (Some tz) g = Inr tz"
  using assms by (auto simp: normalizeTimezone_def Let_def split: if_splits)

section \<open>Fire times move forward\<close>

text \<open>
  What the code relies on of \<open>croner\<close>: \<open>nextRun(date)\<close> is a time after \<open>date\<close>.
\<close>

definition next_is_later :: "calendar \<Rightarrow> bool" where
  "next_is_later cal = (\<forall>c tz t n. cal_next cal c tz t = Inr (Some n) \<longrightarrow> t < n)"

lemma finitePositiveMs_Inr: "finitePositiveMs v nm = Inr (Some n) \<longleftrightarrow> v = Some (Whole n) \<and> 0 < n \<and> n \<le> MAX_SAFE"
  by (cases v) (auto simp: finitePositiveMs_def MAX_SAFE_def split: js_number.splits)

lemma finitePositiveMs_None: "finitePositiveMs v nm = Inr None \<longleftrightarrow> v = None"
  by (cases v) (auto simp: finitePositiveMs_def split: js_number.splits)

lemma finiteEpochMs_Inr: "finiteEpochMs v nm = Inr (Some n) \<longleftrightarrow> v = Some (Whole n) \<and> abs n \<le> MAX_SAFE"
  by (cases v) (auto simp: finiteEpochMs_def split: js_number.splits)

lemma finiteEpochMs_None: "finiteEpochMs v nm = Inr None \<longleftrightarrow> v = None"
  by (cases v) (auto simp: finiteEpochMs_def split: js_number.splits)

lemma nextCalendarFireAfter_later:
  "next_is_later cal \<Longrightarrow> nextCalendarFireAfter cal sch t = Inr (Some n) \<Longrightarrow> t < n"
  unfolding nextCalendarFireAfter_def next_is_later_def by (auto split: if_splits sum.splits)

lemma advance_later:
  assumes "next_is_later cal" "advanceNextFireAt cal sch t = Inr (Some n)"
  shows "t < n"
proof (cases "isCalendarSchedule sch")
  case True
  then show ?thesis using assms nextCalendarFireAfter_later by (simp add: advanceNextFireAt_def)
next
  case False
  with assms(2) obtain ms where "finitePositiveMs (cs_everyMs sch) ''schedule.everyMs'' = Inr (Some ms)" "n = t + ms"
    by (auto simp: advanceNextFireAt_def split: sum.splits)
  then show ?thesis by (simp add: finitePositiveMs_Inr)
qed

text \<open>The normal forms: a five-field calendar schedule, an interval below a day, or one shot.\<close>

definition normal_schedule :: "calendar \<Rightarrow> cron_schedule \<Rightarrow> bool" where
  "normal_schedule cal sch =
     (case cs_cron sch of
        Some c \<Rightarrow> length (split_on (CHR '' '') c) = 5 \<and> cs_everyMs sch = None \<and> cs_firstFireAt sch = None \<and>
          (\<exists>tz. cs_timezone sch = Some tz \<and> cal_timezone_ok cal tz)
      | None \<Rightarrow> cs_timezone sch = None \<and> (\<exists>f. cs_firstFireAt sch = Some (Whole f)) \<and>
          (case cs_everyMs sch of None \<Rightarrow> True | Some v \<Rightarrow> \<exists>ms. v = Whole ms \<and> 0 < ms \<and> ms < DAY_MS))"

lemma normalize_calendar:
  assumes "normalizeSchedule cal input now dtz = Inr (sch, n)" "cs_cron input = Some c"
  obtains cron tz f where "normalizeCronExpression c = Inr cron" "normalizeTimezone cal (cs_timezone input) dtz = Inr tz"
    "sch = \<lparr>cs_cron = Some cron, cs_timezone = Some tz, cs_everyMs = None, cs_firstFireAt = None\<rparr>"
    "nextCalendarFireAfter cal sch now = Inr (Some f)" "n = Some f"
  using assms by (auto simp: normalizeSchedule_def Let_def split: if_splits sum.splits option.splits)

lemma normalize_interval:
  assumes "normalizeSchedule cal input now dtz = Inr (sch, n)" "cs_cron input = None"
  obtains e f where "finitePositiveMs (cs_everyMs input) ''schedule.everyMs'' = Inr e" "n = Some f"
    "cs_everyMs input = None \<or> \<not> num_ge (the (cs_everyMs input)) DAY_MS"
    "sch = \<lparr>cs_cron = None, cs_timezone = None, cs_everyMs = map_option Whole e, cs_firstFireAt = Some (Whole f)\<rparr>"
  using assms by (auto simp: normalizeSchedule_def Let_def split: if_splits sum.splits)

lemma normalizeTimezone_ok: "normalizeTimezone cal i f = Inr tz \<Longrightarrow> cal_timezone_ok cal tz"
  by (auto simp: normalizeTimezone_def Let_def split: if_splits)

text \<open>What a normalized schedule is good for, given that the calendar package returns later times and
  that the empty string names no time zone: the schedule has one of the three normal forms and a
  first fire time; normalizing it again under any default changes nothing; and the next fire after
  a fire at \<open>t\<close> is later than \<open>t\<close> (by exactly the interval for an interval schedule), while a
  one-shot schedule has none.
\<close>

theorem normalized_schedule_advances:
  assumes "next_is_later cal" and "\<not> cal_timezone_ok cal []" and "normalizeSchedule cal input now dtz = Inr (sch, n)"
  shows "normal_schedule cal sch \<and> n \<noteq> None \<and>
    (abs (the n) \<le> MAX_SAFE \<longrightarrow> normalizeSchedule cal sch now dtz' = Inr (sch, n)) \<and>
    (\<forall>t m. advanceNextFireAt cal sch t = Inr (Some m) \<longrightarrow> t < m) \<and>
    (\<forall>t ms. cs_everyMs sch = Some (Whole ms) \<longrightarrow> advanceNextFireAt cal sch t = Inr (Some (t + ms))) \<and>
    (\<forall>t. cs_cron sch = None \<and> cs_everyMs sch = None \<longrightarrow> advanceNextFireAt cal sch t = Inr None)"
proof -
  have later: "\<forall>t m. advanceNextFireAt cal sch t = Inr (Some m) \<longrightarrow> t < m" using advance_later [OF assms(1)] by blast
  show ?thesis
  proof (cases "cs_cron input")
    case (Some c)
    with assms(3) show ?thesis
    proof (rule normalize_calendar)
      fix cron tz f
      assume h: "normalizeCronExpression c = Inr cron" "normalizeTimezone cal (cs_timezone input) dtz = Inr tz"
        "sch = \<lparr>cs_cron = Some cron, cs_timezone = Some tz, cs_everyMs = None, cs_firstFireAt = None\<rparr>"
        "nextCalendarFireAfter cal sch now = Inr (Some f)" "n = Some f"
      have ok: "cal_timezone_ok cal tz" by (rule normalizeTimezone_ok [OF h(2)])
      then have "tz \<noteq> []" using assms(2) by auto
      note fixed = normalizeCronExpression_fixed [OF h(1)] normalizeTimezone_fixed [OF h(2) this]
      have "normalizeSchedule cal sch now dtz' = Inr (sch, n)"
        using fixed h(4) by (simp add: normalizeSchedule_def h(3,5))
      moreover have "length (split_on (CHR '' '') cron) = 5"
        using fixed(1) by (auto simp: normalizeCronExpression_def Let_def split: if_splits)
      ultimately show ?thesis using later ok by (simp add: h(3,5) normal_schedule_def)
    qed
  next
    case None
    with assms(3) show ?thesis
    proof (rule normalize_interval)
      fix e f
      assume h: "finitePositiveMs (cs_everyMs input) ''schedule.everyMs'' = Inr e" "n = Some f"
        "cs_everyMs input = None \<or> \<not> num_ge (the (cs_everyMs input)) DAY_MS"
        "sch = \<lparr>cs_cron = None, cs_timezone = None, cs_everyMs = map_option Whole e, cs_firstFireAt = Some (Whole f)\<rparr>"
      have e: "e = Some ms \<Longrightarrow> 0 < ms \<and> ms \<le> MAX_SAFE \<and> ms < DAY_MS" for ms
        using h(1,3) by (auto simp: finitePositiveMs_Inr)
      have fe: "finitePositiveMs (map_option Whole e) ''schedule.everyMs'' = Inr e"
        using e by (cases e) (simp_all add: finitePositiveMs_Inr finitePositiveMs_None)
      have "abs f \<le> MAX_SAFE \<Longrightarrow> normalizeSchedule cal sch now dtz' = Inr (sch, n)"
        using e fe by (cases e) (simp_all add: normalizeSchedule_def h(2,4) finiteEpochMs_def)
      moreover have "normal_schedule cal sch" using e by (cases e) (simp_all add: h(4) normal_schedule_def)
      ultimately show ?thesis
        using later fe by (cases e) (simp_all add: h(2,4) advanceNextFireAt_def isCalendarSchedule_def)
    qed
  qed
qed

definition ex_calendar :: calendar where
  "ex_calendar = \<lparr>cal_timezone_ok = (\<lambda>tz. tz = ''UTC''), cal_next = (\<lambda>c tz t. Inr (Some (t + 7)))\<rparr>"

definition ex_schedule :: cron_schedule where
  "ex_schedule = \<lparr>cs_cron = Some ''  30   7 * * 1-5 '', cs_timezone = Some '' UTC '', cs_everyMs = None, cs_firstFireAt = None\<rparr>"

definition ex_normal_schedule :: cron_schedule where
  "ex_normal_schedule = \<lparr>cs_cron = Some ''30 7 * * 1-5'', cs_timezone = Some ''UTC'', cs_everyMs = None, cs_firstFireAt = None\<rparr>"

theorem normalized_schedule_advances_witness:
  "normalizeSchedule ex_calendar ex_schedule 100 ''UTC'' = Inr (ex_normal_schedule, Some 107) \<and>
   normalizeSchedule ex_calendar ex_normal_schedule 100 ''PST'' = Inr (ex_normal_schedule, Some 107)"
proof -
  have 1: "next_is_later ex_calendar" "\<not> cal_timezone_ok ex_calendar []"
    by (auto simp: next_is_later_def ex_calendar_def)
  have 2: "normalizeSchedule ex_calendar ex_schedule 100 ''UTC'' = Inr (ex_normal_schedule, Some 107)" by code_simp
  have "abs (the (Some 107)) \<le> MAX_SAFE" by (simp add: MAX_SAFE_def)
  with normalized_schedule_advances [OF 1 2, of "''PST''"] 2 show ?thesis by blast
qed

end
