(* ===== verification/Cron_Fires.thy ===== *)
theory Cron_Fires
  imports Cron_Schedule
begin

text \<open>
  The log of cron fires (\<open>src/cron/fire-store.ts\<close>, the memory store): per cron a map from fire key
  to entry. A manual fire begins only when no other fire of the cron is running
  (\<open>beginExclusive\<close>), a sweep closes the fires a crash left running, and old ended fires are pruned.
\<close>

section \<open>Data\<close>

datatype fire_status = FTurn turn_status | FRunning | FDeferred

record cron_fire_log_entry =
  fe_fireKey :: string
  fe_threadRef :: string
  fe_firedAt :: time
  fe_scheduledAt :: "time option"
  fe_status :: "fire_status option"
  fe_endedAt :: "time option"
  fe_note :: "string option"
  fe_reply :: "string option"
  fe_sessionId :: "string option"

type_synonym fires = "(string, cron_fire_log_entry) jsmap"
type_synonym fire_store = "(string, fires) jsmap"

datatype begin_fire_result = Begun | NotBegun "cron_fire_log_entry option"

section \<open>Operations\<close>

definition fireOrder :: "cron_fire_log_entry \<Rightarrow> cron_fire_log_entry \<Rightarrow> int" where
  "fireOrder a b =
     (if fe_firedAt a \<noteq> fe_firedAt b then fe_firedAt a - fe_firedAt b
      else if fe_fireKey a < fe_fireKey b then -1
      else if fe_fireKey a > fe_fireKey b then 1 else 0)"

definition backfillMayReplace :: "cron_fire_log_entry \<Rightarrow> cron_fire_log_entry \<Rightarrow> bool" where
  "backfillMayReplace existing incoming =
     (if fe_firedAt incoming < fe_firedAt existing then False
      else fe_endedAt existing = None \<or> fe_endedAt incoming \<noteq> None)"

definition createMemoryCronFireStore :: fire_store where
  "createMemoryCronFireStore = []"

definition firesOf :: "fire_store \<Rightarrow> string \<Rightarrow> fire_store \<times> fires" where
  "firesOf s cronId = (case map_get s cronId of None \<Rightarrow> (map_set cronId [] s, []) | Some fires \<Rightarrow> (s, fires))"

definition record_fire :: "fire_store \<Rightarrow> string \<Rightarrow> cron_fire_log_entry \<Rightarrow> fire_store" where
  "record_fire s cronId entry =
     (case firesOf s cronId of (s1, fires) \<Rightarrow> map_set cronId (map_set (fe_fireKey entry) entry fires) s1)"

definition blocks :: "cron_fire_log_entry \<Rightarrow> int \<Rightarrow> cron_fire_log_entry \<Rightarrow> bool" where
  "blocks entry staleRunningMs e =
     (fe_fireKey e \<noteq> fe_fireKey entry \<and> fe_status e = Some FRunning \<and> fe_firedAt entry - fe_firedAt e < staleRunningMs)"

definition beginExclusive :: "fire_store \<Rightarrow> string \<Rightarrow> cron_fire_log_entry \<Rightarrow> int \<Rightarrow> fire_store \<times> begin_fire_result" where
  "beginExclusive s cronId entry staleRunningMs =
     (case firesOf s cronId of (s1, fires) \<Rightarrow>
        (case List.find (blocks entry staleRunningMs) (rev (js_sort fireOrder (map_vals fires))) of
           Some running \<Rightarrow> (s1, NotBegun (Some running))
         | None \<Rightarrow> (map_set cronId (map_set (fe_fireKey entry) entry fires) s1, Begun)))"

definition stranded :: "time \<Rightarrow> int \<Rightarrow> cron_fire_log_entry \<Rightarrow> bool" where
  "stranded now staleRunningMs e = (\<not> (fe_status e \<noteq> Some FRunning \<or> now - fe_firedAt e < staleRunningMs))"

definition swept :: "time \<Rightarrow> int \<Rightarrow> string \<Rightarrow> cron_fire_log_entry \<Rightarrow> cron_fire_log_entry" where
  "swept now st note e = (if stranded now st e
     then e\<lparr>fe_status := Some (FTurn TFailed), fe_endedAt := Some now, fe_note := Some note\<rparr> else e)"

definition sweepStranded :: "fire_store \<Rightarrow> time \<Rightarrow> int \<Rightarrow> string \<Rightarrow> fire_store \<times> nat" where
  "sweepStranded s now staleRunningMs note =
     (map (\<lambda>(c, fires). (c, map (\<lambda>(k, e). (k, swept now staleRunningMs note e)) fires)) s,
      sum_list (map (\<lambda>(c, fires). length (filter (stranded now staleRunningMs) (map_vals fires))) s))"

definition prunable :: "time \<Rightarrow> int \<Rightarrow> fires \<Rightarrow> cron_fire_log_entry list" where
  "prunable endedBefore keepPerCron fires =
     filter (\<lambda>e. \<not> (fe_endedAt e = None \<or> the (fe_endedAt e) \<ge> endedBefore))
       (drop (nat (max keepPerCron 0)) (rev (js_sort fireOrder (map_vals fires))))"

definition pruneEnded :: "fire_store \<Rightarrow> time \<Rightarrow> int \<Rightarrow> fire_store \<times> nat" where
  "pruneEnded s endedBefore keepPerCron =
     (map (\<lambda>(c, fires). (c, fold (\<lambda>e m. map_del (fe_fireKey e) m) (prunable endedBefore keepPerCron fires) fires)) s,
      sum_list (map (\<lambda>(c, fires). length (prunable endedBefore keepPerCron fires)) s))"

definition backfill_one :: "cron_fire_log_entry \<Rightarrow> fires \<Rightarrow> fires" where
  "backfill_one entry fires =
     (case map_get fires (fe_fireKey entry) of
        Some existing \<Rightarrow> if \<not> backfillMayReplace existing entry then fires else map_set (fe_fireKey entry) entry fires
      | None \<Rightarrow> map_set (fe_fireKey entry) entry fires)"

definition backfill :: "fire_store \<Rightarrow> string \<Rightarrow> cron_fire_log_entry list \<Rightarrow> fire_store" where
  "backfill s cronId entries =
     (case firesOf s cronId of (s1, fires) \<Rightarrow> map_set cronId (fold backfill_one entries fires) s1)"

definition listByCron :: "fire_store \<Rightarrow> string \<Rightarrow> int option \<Rightarrow> cron_fire_log_entry list \<times> nat" where
  "listByCron s cronId limit =
     (let all = js_sort fireOrder (map_vals (or_else (map_get s cronId) []));
          runs = (case limit of None \<Rightarrow> all | Some n \<Rightarrow> if n > 0 then take_last (nat n) all else [])
      in (runs, length all))"

definition listByThreadRefs :: "fire_store \<Rightarrow> string list \<Rightarrow> (string \<times> cron_fire_log_entry) list" where
  "listByThreadRefs s threadRefs =
     js_sort (\<lambda>a b. fireOrder (snd a) (snd b))
       (concat (map (\<lambda>(c, fires). map (\<lambda>e. (c, e)) (filter (\<lambda>e. fe_threadRef e \<in> set threadRefs) (map_vals fires))) s))"

definition latestForThread :: "fire_store \<Rightarrow> string \<Rightarrow> string \<Rightarrow> cron_fire_log_entry option" where
  "latestForThread s cronId threadRef =
     last_opt (js_sort fireOrder (filter (\<lambda>e. fe_threadRef e = threadRef) (map_vals (or_else (map_get s cronId) []))))"

section \<open>Steps and invariant\<close>

text \<open>
  \<open>P c e\<close>: entries the step may write for cron \<open>c\<close>; \<open>Q now ms\<close>: sweeps that may run.
\<close>

inductive fire_step ::
  "(string \<Rightarrow> cron_fire_log_entry \<Rightarrow> bool) \<Rightarrow> (time \<Rightarrow> int \<Rightarrow> bool) \<Rightarrow> fire_store \<Rightarrow> fire_store \<Rightarrow> bool" for P Q where
  fs_record: "P c e \<Longrightarrow> fire_step P Q s (record_fire s c e)"
| fs_begin: "P c e \<Longrightarrow> fire_step P Q s (fst (beginExclusive s c e st))"
| fs_sweep: "Q now st \<Longrightarrow> fire_step P Q s (fst (sweepStranded s now st note))"
| fs_prune: "fire_step P Q s (fst (pruneEnded s before keep))"
| fs_backfill: "(\<And>e. e \<in> set es \<Longrightarrow> P c e) \<Longrightarrow> fire_step P Q s (backfill s c es)"

definition fires_ok :: "fires \<Rightarrow> bool" where
  "fires_ok f = (map_ok f \<and> (\<forall>k e. map_get f k = Some e \<longrightarrow> fe_fireKey e = k))"

definition fire_inv :: "fire_store \<Rightarrow> bool" where
  "fire_inv s = (\<forall>c f. map_get s c = Some f \<longrightarrow> fires_ok f)"

abbreviation fires_at :: "fire_store \<Rightarrow> string \<Rightarrow> fires" where
  "fires_at s c \<equiv> or_else (map_get s c) []"

lemma firesOf_at: "snd (firesOf s c) = fires_at s c" "fires_at (fst (firesOf s c)) d = fires_at s d"
  "map_get (fst (firesOf s c)) d = (if d = c then Some (fires_at s c) else map_get s d)"
  by (auto simp: firesOf_def split: option.split)

lemma record_at: "map_get (record_fire s c e) d = (if d = c then Some (map_set (fe_fireKey e) e (fires_at s c)) else map_get s d)"
  by (simp add: record_fire_def case_prod_beta firesOf_at)

lemma begin_at: "map_get (fst (beginExclusive s c e st)) d =
    (if d = c then Some (if snd (beginExclusive s c e st) = Begun then map_set (fe_fireKey e) e (fires_at s c) else fires_at s c)
     else map_get s d)"
  by (simp add: beginExclusive_def case_prod_beta firesOf_at split: option.split)

lemma backfill_at: "map_get (backfill s c es) d = (if d = c then Some (fold backfill_one es (fires_at s c)) else map_get s d)"
  by (simp add: backfill_def case_prod_beta firesOf_at)

lemma prune_at: "map_get (fst (pruneEnded s before keep)) c =
    map_option (\<lambda>f. fold (\<lambda>e m. map_del (fe_fireKey e) m) (prunable before keep f) f) (map_get s c)"
  unfolding pruneEnded_def fst_conv
  using map_get_map_vals [of "\<lambda>_ f. fold (\<lambda>e m. map_del (fe_fireKey e) m) (prunable before keep f) f" s c] by simp

lemma sweep_at: "map_get (fst (sweepStranded s now st note)) c = map_option (map (\<lambda>(k, e). (k, swept now st note e))) (map_get s c)"
  unfolding sweepStranded_def fst_conv
  using map_get_map_vals [of "\<lambda>_. map (\<lambda>(k, e). (k, swept now st note e))" s c] by simp

lemma fold_del_get: "map_get (fold (\<lambda>e m. map_del (fe_fireKey e) m) es f) k = (if k \<in> fe_fireKey ` set es then None else map_get f k)"
  by (induction es arbitrary: f) auto

lemma fold_del_ok: "map_ok f \<Longrightarrow> map_ok (fold (\<lambda>e m. map_del (fe_fireKey e) m) es f)"
  by (induction es arbitrary: f) auto

lemma fires_ok_Nil [simp]: "fires_ok []"
  by (simp add: fires_ok_def)

lemma fires_ok_at: "fire_inv s \<Longrightarrow> fires_ok (fires_at s c)"
  by (cases "map_get s c") (simp_all add: fire_inv_def)

lemma fires_ok_set: "fires_ok f \<Longrightarrow> fires_ok (map_set (fe_fireKey e) e f)"
  by (simp add: fires_ok_def)

lemma fires_ok_backfill_one: "fires_ok f \<Longrightarrow> fires_ok (backfill_one e f)"
  by (auto simp: backfill_one_def fires_ok_set split: option.split)

lemma fires_ok_backfill: "fires_ok f \<Longrightarrow> fires_ok (fold backfill_one es f)"
  by (induction es arbitrary: f) (simp_all add: fires_ok_backfill_one)

lemma fires_ok_prune: "fires_ok f \<Longrightarrow> fires_ok (fold (\<lambda>e m. map_del (fe_fireKey e) m) es f)"
  by (simp add: fires_ok_def fold_del_ok fold_del_get)

lemma swept_key [simp]: "fe_fireKey (swept now st note e) = fe_fireKey e"
  by (simp add: swept_def)

lemma swept_get: "map_get (map (\<lambda>(k, e). (k, swept now st note e)) f) k = map_option (swept now st note) (map_get f k)"
  by (rule map_get_map_vals [of "\<lambda>_. swept now st note"])

lemma fires_ok_swept: "fires_ok f \<Longrightarrow> fires_ok (map (\<lambda>(k, e). (k, swept now st note e)) f)"
  using map_ok_map_vals [of "\<lambda>_. swept now st note" f] by (auto simp: fires_ok_def swept_get)

lemma fire_inv_step: "fire_step P Q s t \<Longrightarrow> fire_inv s \<Longrightarrow> fire_inv t"
proof (induction rule: fire_step.induct)
  case (fs_sweep now st s nt)
  then show ?case unfolding fire_inv_def sweep_at by (auto intro: fires_ok_swept)
next
  case (fs_prune s before keep)
  then show ?case unfolding fire_inv_def prune_at by (auto intro: fires_ok_prune)
qed (use fires_ok_at in \<open>auto simp: fire_inv_def record_at begin_at backfill_at fires_ok_set fires_ok_backfill\<close>)

interpretation fi: invariant_system "\<lambda>s. s = createMemoryCronFireStore" "fire_step P Q" fire_inv for P Q
  by unfold_locales (simp_all add: fire_inv_step, simp add: fire_inv_def createMemoryCronFireStore_def)

section \<open>A running fire keeps others out\<close>

lemma prunable_ended: "e \<in> set (prunable before keep f) \<Longrightarrow> \<exists>t. fe_endedAt e = Some t \<and> t < before"
  unfolding prunable_def by (auto simp: not_le)

lemma prunable_in:
  assumes "fires_ok f" "e \<in> set (prunable before keep f)"
  shows "map_get f (fe_fireKey e) = Some e"
proof -
  have "e \<in> set (map_vals f)" using assms(2) set_drop_subset by (fastforce simp: prunable_def)
  then obtain k where "map_get f k = Some e" using assms(1) in_vals_iff [of f e] by (auto simp: fires_ok_def)
  with assms(1) show ?thesis unfolding fires_ok_def by blast
qed

text \<open>The running fire survives whatever does not write its entry and no sweep that finds it stale.\<close>

lemma backfill_one_other: "fe_fireKey e \<noteq> k \<Longrightarrow> map_get (backfill_one e f) k = map_get f k"
  by (auto simp: backfill_one_def split: option.split)

lemma backfill_other: "(\<And>e. e \<in> set es \<Longrightarrow> fe_fireKey e \<noteq> k) \<Longrightarrow> map_get (fold backfill_one es f) k = map_get f k"
  by (induction es arbitrary: f) (simp_all add: backfill_one_other)

lemma running_kept:
  assumes "fire_step (\<lambda>d x. d \<noteq> c \<or> fe_fireKey x \<noteq> fe_fireKey e) (\<lambda>now ms. now - fe_firedAt e < ms) s t" "fire_inv s"
    "map_get (fires_at s c) (fe_fireKey e) = Some e" "fe_status e = Some FRunning" "fe_endedAt e = None"
  shows "map_get (fires_at t c) (fe_fireKey e) = Some e"
  using assms
proof (induction rule: fire_step.induct)
  case (fs_record d x s)
  then show ?case by (auto simp: record_at)
next
  case (fs_begin d x s st)
  then show ?case by (auto simp: begin_at)
next
  case (fs_sweep now st s nt)
  then obtain f where "map_get s c = Some f" by (cases "map_get s c") auto
  moreover have "swept now st nt e = e" using fs_sweep by (simp add: swept_def stranded_def)
  ultimately show ?case using fs_sweep by (simp add: sweep_at swept_get)
next
  case (fs_prune s before keep)
  then obtain f where f: "map_get s c = Some f" "fires_ok f" by (cases "map_get s c") (auto simp: fire_inv_def)
  have "fe_fireKey x \<noteq> fe_fireKey e" if "x \<in> set (prunable before keep f)" for x
  proof
    assume "fe_fireKey x = fe_fireKey e"
    then have "x = e" using prunable_in [OF f(2) that] fs_prune(2) f(1) by simp
    then show False using prunable_ended [OF that] fs_prune(4) by simp
  qed
  then have "fe_fireKey e \<notin> fe_fireKey ` set (prunable before keep f)" by (metis imageE)
  with fs_prune(2) f(1) show ?case by (simp add: prune_at fold_del_get)
next
  case (fs_backfill es d s)
  then show ?case using backfill_other [of es "fe_fireKey e"] by (auto simp: backfill_at)
qed

lemma running_kept_steps:
  assumes "(fire_step (\<lambda>d x. d \<noteq> c \<or> fe_fireKey x \<noteq> fe_fireKey e) (\<lambda>now ms. now - fe_firedAt e < ms))\<^sup>*\<^sup>* s t" "fire_inv s"
    "map_get (fires_at s c) (fe_fireKey e) = Some e" "fe_status e = Some FRunning" "fe_endedAt e = None"
  shows "map_get (fires_at t c) (fe_fireKey e) = Some e"
  using assms(1,2,3)
proof (induction rule: rtranclp_induct)
  case (step t v)
  then show ?case using running_kept [OF step(2) fi.inv_steps [OF step(1) step(4)] _ assms(4,5)] by blast
qed

lemma begin_refused_iff:
  "(\<exists>r. snd (beginExclusive s c e st) = NotBegun r) \<longleftrightarrow> (\<exists>x\<in>set (map_vals (fires_at s c)). blocks e st x)"
proof -
  have "(\<exists>x. List.find (blocks e st) (rev (js_sort fireOrder (map_vals (fires_at s c)))) = Some x) \<longleftrightarrow>
      (\<exists>x\<in>set (map_vals (fires_at s c)). blocks e st x)"
    using find_None_all [of "blocks e st" "rev (js_sort fireOrder (map_vals (fires_at s c)))"] by (auto simp del: not_None_eq)
  then show ?thesis by (auto simp: beginExclusive_def case_prod_beta firesOf_at split: option.splits)
qed

lemma begin_refused_blocks:
  "snd (beginExclusive s c e st) = NotBegun r \<Longrightarrow> \<exists>x. r = Some x \<and> x \<in> set (map_vals (fires_at s c)) \<and> blocks e st x"
  using find_Some_in [of "blocks e st" "rev (js_sort fireOrder (map_vals (fires_at s c)))"]
  by (cases "List.find (blocks e st) (rev (js_sort fireOrder (map_vals (fires_at s c))))")
    (auto simp: beginExclusive_def case_prod_beta firesOf_at)

text \<open>A manual fire begins alone. It begins exactly when no other fire of the cron is running and
  younger than the staleness limit (else the refusal names such a fire); and once it has begun,
  then until its own entry is written again or a sweep finds it stale, whatever else is recorded,
  swept, pruned or imported, every other exclusive fire of that cron within the limit is refused
  and leaves the log of the cron as it is.
\<close>

theorem exclusive_fire:
  assumes "fire_inv s" and "fe_status e = Some FRunning" and "fe_endedAt e = None"
  shows "(snd (beginExclusive s c e st) = Begun \<longleftrightarrow> \<not> (\<exists>x\<in>set (map_vals (fires_at s c)). blocks e st x)) \<and>
    (\<forall>r. snd (beginExclusive s c e st) = NotBegun r \<longrightarrow>
       (\<exists>x. r = Some x \<and> x \<in> set (map_vals (fires_at s c)) \<and> blocks e st x)) \<and>
    (snd (beginExclusive s c e st) = Begun \<and>
     (fire_step (\<lambda>d x. d \<noteq> c \<or> fe_fireKey x \<noteq> fe_fireKey e) (\<lambda>now ms. now - fe_firedAt e < ms))\<^sup>*\<^sup>*
       (fst (beginExclusive s c e st)) t \<and>
     fe_fireKey e' \<noteq> fe_fireKey e \<and> fe_firedAt e' - fe_firedAt e < st' \<longrightarrow>
       snd (beginExclusive t c e' st') \<noteq> Begun \<and> fires_at (fst (beginExclusive t c e' st')) c = fires_at t c)"
proof (intro conjI impI allI)
  show "snd (beginExclusive s c e st) = Begun \<longleftrightarrow> \<not> (\<exists>x\<in>set (map_vals (fires_at s c)). blocks e st x)"
    using begin_refused_iff [of s c e st] by (cases "snd (beginExclusive s c e st)") auto
  show "\<exists>x. r = Some x \<and> x \<in> set (map_vals (fires_at s c)) \<and> blocks e st x"
    if "snd (beginExclusive s c e st) = NotBegun r" for r using that by (rule begin_refused_blocks)
  assume h: "snd (beginExclusive s c e st) = Begun \<and>
     (fire_step (\<lambda>d x. d \<noteq> c \<or> fe_fireKey x \<noteq> fe_fireKey e) (\<lambda>now ms. now - fe_firedAt e < ms))\<^sup>*\<^sup>*
       (fst (beginExclusive s c e st)) t \<and>
     fe_fireKey e' \<noteq> fe_fireKey e \<and> fe_firedAt e' - fe_firedAt e < st'"
  have inv: "fire_inv (fst (beginExclusive s c e st))"
    by (rule fire_inv_step [OF _ assms(1)]) (rule fs_begin [of "\<lambda>_ _. True" _ _ "\<lambda>_ _. True"], simp)
  have "map_get (fires_at t c) (fe_fireKey e) = Some e"
    by (rule running_kept_steps [OF _ inv _ assms(2,3)]) (use h in \<open>simp_all add: begin_at\<close>)
  then have "e \<in> set (map_vals (fires_at t c))" by (rule map_get_in_vals)
  moreover have "blocks e' st' e" using h assms(2) by (auto simp: blocks_def)
  ultimately have "\<exists>r. snd (beginExclusive t c e' st') = NotBegun r" using begin_refused_iff by blast
  then show "snd (beginExclusive t c e' st') \<noteq> Begun" "fires_at (fst (beginExclusive t c e' st')) c = fires_at t c"
    by (auto simp: begin_at)
qed

section \<open>Housekeeping\<close>

text \<open>The newest fires, whose keys no pruned entry has.\<close>

definition newest :: "int \<Rightarrow> fires \<Rightarrow> cron_fire_log_entry list" where
  "newest keepPerCron f = take (nat (max keepPerCron 0)) (rev (js_sort fireOrder (map_vals f)))"

lemma fires_ok_distinct:
  assumes "fires_ok f"
  shows "distinct (map_vals f)" "inj_on fe_fireKey (set (map_vals f))"
proof -
  have keys: "map fe_fireKey (map_vals f) = map fst f"
  proof (rule nth_equalityI)
    show "map fe_fireKey (map_vals f) ! n = map fst f ! n" if "n < length (map fe_fireKey (map_vals f))" for n
    proof -
      have "n < length f" using that by simp
      then have "map_get f (fst (f ! n)) = Some (snd (f ! n))" using assms by (simp add: fires_ok_def map_ok_def)
      with assms that show ?thesis by (simp add: fires_ok_def)
    qed
  qed simp
  have "distinct (map fe_fireKey (map_vals f))" unfolding keys using assms by (simp add: fires_ok_def map_ok_def)
  then show "distinct (map_vals f)" "inj_on fe_fireKey (set (map_vals f))" unfolding distinct_map [of fe_fireKey] by blast+
qed

lemma newest_not_prunable:
  assumes "fires_ok f" "e \<in> set (newest keep f)"
  shows "fe_fireKey e \<notin> fe_fireKey ` set (prunable before keep f)"
proof
  assume "fe_fireKey e \<in> fe_fireKey ` set (prunable before keep f)"
  then obtain x where x: "x \<in> set (prunable before keep f)" "fe_fireKey e = fe_fireKey x" by blast
  let ?l = "rev (js_sort fireOrder (map_vals f))"
  have d: "distinct ?l" using fires_ok_distinct(1) [OF assms(1)] by simp
  have e: "e \<in> set (take (nat (max keep 0)) ?l)" using assms(2) by (simp add: newest_def)
  have x': "x \<in> set (drop (nat (max keep 0)) ?l)" using x(1) by (simp add: prunable_def)
  have "e \<in> set (map_vals f)" "x \<in> set (map_vals f)" using in_set_takeD [OF e] in_set_dropD [OF x'] by simp_all
  then have "e = x" using x(2) fires_ok_distinct(2) [OF assms(1)] by (auto dest: inj_onD)
  then show False using e x' set_take_disj_set_drop_if_distinct [OF d order_refl] by blast
qed

text \<open>Housekeeping of the fire log. The sweep closes exactly the fires still running after the
  staleness limit, as failed at that time with the note given, touches no other entry and leaves
  none running past the limit. Pruning removes only ended fires that ended before the cutoff, and
  never one of the newest fires of a cron that are to be kept; what it keeps it keeps unchanged.
\<close>

theorem fire_housekeeping:
  assumes "fire_inv s" and "map_get (fires_at s c) k = Some e"
  shows "map_get (fires_at (fst (sweepStranded s now st nt)) c) k =
      Some (if fe_status e = Some FRunning \<and> st \<le> now - fe_firedAt e
            then e\<lparr>fe_status := Some (FTurn TFailed), fe_endedAt := Some now, fe_note := Some nt\<rparr> else e) \<and>
    map_get (fires_at (fst (pruneEnded s before keep)) c) k \<in> {None, Some e} \<and>
    (map_get (fires_at (fst (pruneEnded s before keep)) c) k = None \<longrightarrow>
       e \<notin> set (newest keep (fires_at s c)) \<and> (\<exists>t. fe_endedAt e = Some t \<and> t < before))"
proof -
  from assms obtain f where f: "map_get s c = Some f" "map_get f k = Some e" "fires_ok f"
    by (cases "map_get s c") (auto simp: fire_inv_def)
  then have k: "fe_fireKey e = k" by (auto simp: fires_ok_def)
  have sweep: "map_get (fires_at (fst (sweepStranded s now st nt)) c) k =
      Some (if fe_status e = Some FRunning \<and> st \<le> now - fe_firedAt e
            then e\<lparr>fe_status := Some (FTurn TFailed), fe_endedAt := Some now, fe_note := Some nt\<rparr> else e)"
    using f by (simp add: sweep_at swept_get) (auto simp: swept_def stranded_def)
  have prune: "map_get (fires_at (fst (pruneEnded s before keep)) c) k =
      (if k \<in> fe_fireKey ` set (prunable before keep f) then None else Some e)"
    using f by (simp add: prune_at fold_del_get)
  have "e \<notin> set (newest keep f) \<and> (\<exists>t. fe_endedAt e = Some t \<and> t < before)"
    if k': "k \<in> fe_fireKey ` set (prunable before keep f)"
  proof -
    from k' obtain x where x: "x \<in> set (prunable before keep f)" "fe_fireKey x = k" by blast
    then have "x = e" using prunable_in [OF f(3) x(1)] f(2) by simp
    then show ?thesis using newest_not_prunable [OF f(3)] prunable_ended [OF x(1)] k k' by blast
  qed
  with sweep prune f(1) show ?thesis by (simp del: split_paired_Ex)
qed

section \<open>The theorems applied\<close>

definition ex_fire :: "string \<Rightarrow> time \<Rightarrow> cron_fire_log_entry" where
  "ex_fire k t = \<lparr>fe_fireKey = k, fe_threadRef = ''th'', fe_firedAt = t, fe_scheduledAt = None, fe_status = Some FRunning,
     fe_endedAt = None, fe_note = None, fe_reply = None, fe_sessionId = None\<rparr>"

definition ex_fires :: fire_store where
  "ex_fires = record_fire createMemoryCronFireStore ''c'' (ex_fire ''a'' 0)"

lemma ex_fires_inv: "fire_inv ex_fires" "fire_inv createMemoryCronFireStore"
proof -
  show i: "fire_inv createMemoryCronFireStore" by (simp add: fire_inv_def createMemoryCronFireStore_def)
  show "fire_inv ex_fires"
    unfolding ex_fires_def by (rule fire_inv_step [OF _ i]) (rule fs_record [of "\<lambda>_ _. True" _ _ "\<lambda>_ _. True"], simp)
qed

theorem exclusive_fire_witness:
  "snd (beginExclusive createMemoryCronFireStore ''c'' (ex_fire ''a'' 5) 100) = Begun \<and>
   snd (beginExclusive (fst (beginExclusive createMemoryCronFireStore ''c'' (ex_fire ''a'' 5) 100)) ''c'' (ex_fire ''b'' 50) 100) \<noteq> Begun"
proof -
  have 1: "snd (beginExclusive createMemoryCronFireStore ''c'' (ex_fire ''a'' 5) 100) = Begun" by code_simp
  have 2: "fe_status (ex_fire ''a'' 5) = Some FRunning" "fe_endedAt (ex_fire ''a'' 5) = None"
    "fe_fireKey (ex_fire ''b'' 50) \<noteq> fe_fireKey (ex_fire ''a'' 5)" "fe_firedAt (ex_fire ''b'' 50) - fe_firedAt (ex_fire ''a'' 5) < 100"
    by (simp_all add: ex_fire_def)
  from exclusive_fire [OF ex_fires_inv(2) 2(1,2), of "''c''" 100
      "fst (beginExclusive createMemoryCronFireStore ''c'' (ex_fire ''a'' 5) 100)" "ex_fire ''b'' 50" 100] 1 2(3,4)
  show ?thesis by blast
qed

theorem fire_housekeeping_witness:
  "map_get (fires_at (fst (sweepStranded ex_fires 200 100 ''lost'')) ''c'') ''a'' =
     Some ((ex_fire ''a'' 0)\<lparr>fe_status := Some (FTurn TFailed), fe_endedAt := Some 200, fe_note := Some ''lost''\<rparr>)"
proof -
  have "map_get (fires_at ex_fires ''c'') ''a'' = Some (ex_fire ''a'' 0)" by code_simp
  from fire_housekeeping [OF ex_fires_inv(1) this, of 200 100 "''lost''" 0 0]
  show ?thesis by (simp add: ex_fire_def)
qed

end
