(* ===== verification/Cron_Store.thy ===== *)
theory Cron_Store
  imports Cron_Fires
begin

text \<open>
  Crons (\<open>src/cron/cron-store.ts\<close>): a trigger with a schedule, kept in a durable map, and the log
  of its fires. A fire slot is claimed by an atomic update that moves the cron to its next slot;
  a claim can be handed back. A call that throws leaves the store as it was. \<open>markFired\<close> and
  \<open>beginFire\<close> read the cron before they write; each is taken as one step.
\<close>

section \<open>Data\<close>

record cron_fire_note =
  fnote_text :: string
  fnote_at :: time
  fnote_by :: "string option"

record cron = trigger_base +
  c_schedule :: cron_schedule
  c_nextFireAt :: "time option"
  c_lastAttemptAt :: "time option"
  c_deferUntil :: "time option"
  c_title :: "string option"
  c_archived :: bool
  c_action :: "string option"
  c_message :: "string option"
  c_loopId :: "string option"
  c_runAs :: "run_as option"
  c_members :: "principal list option"
  c_unattendedGrants :: "string list option"
  c_fireLog :: "cron_fire_log_entry list option"
  c_lastFireNote :: "cron_fire_note option"

record create_cron_input = create_trigger_input +
  cc_schedule :: cron_schedule
  cc_title :: "string option"
  cc_action :: "string option"
  cc_message :: "string option"
  cc_runAs :: "run_as option"
  cc_members :: "principal list option"
  cc_unattendedGrants :: "string list option"
  cc_loopId :: "string option"

record cron_patch =
  cp_title :: "string option"
  cp_action :: "string option"
  cp_message :: "string option"
  cp_schedule :: "cron_schedule option"
  cp_enabled :: "bool option"
  cp_archived :: "bool option"
  cp_destination :: "destination option"
  cp_members :: "principal list option"
  cp_runAs :: "run_as option"
  cp_unattendedGrants :: "string list option"

record cron_store =
  crs_crons :: "cron dmap"
  crs_fires :: fire_store
  crs_staleRunningMs :: int

datatype cron_error = Escalation | BadSchedule schedule_error

datatype fire_note_result = NoteApplied | NoteSuperseded | NoteMissing

definition DEFAULT_FIRE_RUNNING_STALE_MS :: int where
  "DEFAULT_FIRE_RUNNING_STALE_MS = 24 * 60 * 60 * 1000"

text \<open>The dash of the note is written as a hyphen here.\<close>

definition STRANDED_FIRE_NOTE :: string where
  "STRANDED_FIRE_NOTE = ''fire never completed - stranded by a restart or crash''"

definition FIRE_RETENTION_MS :: int where
  "FIRE_RETENTION_MS = 90 * 24 * 60 * 60 * 1000"

definition FIRE_RETENTION_KEEP_PER_CRON :: int where
  "FIRE_RETENTION_KEEP_PER_CRON = 100"

section \<open>Operations\<close>

definition isDeferred :: "cron \<Rightarrow> time \<Rightarrow> bool" where
  "isDeferred cron now = (case c_deferUntil cron of None \<Rightarrow> False | Some d \<Rightarrow> now < d)"

definition normalizeTitle :: "string option \<Rightarrow> string option" where
  "normalizeTitle title =
     (let trimmed = map_option (\<lambda>t. collapse_spaces (trim t)) title
      in if \<not> truthy trimmed then None
         else Some (if length (the trimmed) > 80 then take 79 (the trimmed) @ ''...'' else the trimmed))"

definition createCronStore :: "int option \<Rightarrow> cron_store" where
  "createCronStore staleRunningMs =
     \<lparr>crs_crons = createMemoryMap, crs_fires = createMemoryCronFireStore,
      crs_staleRunningMs = or_else staleRunningMs DEFAULT_FIRE_RUNNING_STALE_MS\<rparr>"

definition build_cron :: "create_cron_input \<Rightarrow> string \<Rightarrow> time \<Rightarrow> cron_schedule \<Rightarrow> time option \<Rightarrow> cron" where
  "build_cron input i now schedule nextFireAt =
     trigger_base.extend (buildTriggerBase (create_trigger_input.truncate input) i now)
       (cron.fields schedule nextFireAt None None (normalizeTitle (cc_title input)) False (cc_action input)
          (cc_message input) (if truthy (cc_loopId input) then cc_loopId input else None) (cc_runAs input)
          (cc_members input) (cc_unattendedGrants input) None None)"

text \<open>\<open>contentId\<close> stands for the hash of the input's fields and of the normalized title.\<close>

definition create_cron ::
  "calendar \<Rightarrow> (create_cron_input \<Rightarrow> string option \<Rightarrow> string) \<Rightarrow> cron_store \<Rightarrow> create_cron_input \<Rightarrow> time \<Rightarrow>
     cron_store \<times> (cron_error + cron)" where
  "create_cron cal contentId s input now =
     (if \<not> assertNoEscalation (ct_owner input) (ct_createdBy input) (ct_ownerConsentedAt input) then (s, Inl Escalation)
      else (case normalizeSchedule cal (cc_schedule input) now DEFAULT_CRON_TIMEZONE of
          Inl e \<Rightarrow> (s, Inl (BadSchedule e))
        | Inr (schedule, nextFireAt) \<Rightarrow>
            let i = contentId input (normalizeTitle (cc_title input));
                r = putIfAbsent (crs_crons s) i (build_cron input i now schedule nextFireAt)
            in (s\<lparr>crs_crons := fst r\<rparr>, Inr (snd r))))"

definition get_cron :: "cron_store \<Rightarrow> string \<Rightarrow> cron option" where
  "get_cron s i = dm_get (crs_crons s) i"

definition list_crons :: "cron_store \<Rightarrow> cron list" where
  "list_crons s = dm_all (crs_crons s)"

text \<open>The patch object of \<open>update\<close>, as a function on the stored cron.\<close>

definition patch_cron :: "cron_patch \<Rightarrow> (cron_schedule \<times> time option) option \<Rightarrow> cron \<Rightarrow> cron" where
  "patch_cron patch normalized cron =
     (let c1 = (if cp_title patch \<noteq> None then cron\<lparr>c_title := normalizeTitle (cp_title patch)\<rparr> else cron);
          c2 = (if cp_action patch \<noteq> None then c1\<lparr>c_action := cp_action patch\<rparr> else c1);
          c3 = (if cp_message patch \<noteq> None then c2\<lparr>c_message := cp_message patch\<rparr> else c2);
          c4 = (case normalized of None \<Rightarrow> c3 | Some (sch, n) \<Rightarrow> c3\<lparr>c_schedule := sch, c_nextFireAt := n\<rparr>);
          c5 = (case cp_enabled patch of None \<Rightarrow> c4 | Some b \<Rightarrow> c4\<lparr>t_enabled := b\<rparr>);
          c6 = (case cp_archived patch of None \<Rightarrow> c5 | Some b \<Rightarrow> c5\<lparr>c_archived := b\<rparr>);
          c7 = (if cp_destination patch \<noteq> None then c6\<lparr>t_destination := cp_destination patch\<rparr> else c6);
          c8 = (if cp_archived patch = Some True then c7\<lparr>t_enabled := False\<rparr> else c7);
          c9 = (if cp_members patch \<noteq> None then c8\<lparr>c_members := cp_members patch\<rparr> else c8);
          c10 = (if cp_runAs patch \<noteq> None then c9\<lparr>c_runAs := cp_runAs patch\<rparr> else c9)
      in if cp_unattendedGrants patch \<noteq> None then c10\<lparr>c_unattendedGrants := cp_unattendedGrants patch\<rparr> else c10)"

definition merge_cron :: "cron_store \<Rightarrow> string \<Rightarrow> (cron \<Rightarrow> cron) \<Rightarrow> cron_store \<times> cron option" where
  "merge_cron s i patch = (let r = dm_merge (crs_crons s) i patch in (s\<lparr>crs_crons := fst r\<rparr>, snd r))"

definition update_cron :: "calendar \<Rightarrow> cron_store \<Rightarrow> string \<Rightarrow> cron_patch \<Rightarrow> time \<Rightarrow> cron_store \<times> (schedule_error + cron option)" where
  "update_cron cal s i patch now =
     (case cp_schedule patch of
        None \<Rightarrow> (let r = merge_cron s i (patch_cron patch None) in (fst r, Inr (snd r)))
      | Some sch \<Rightarrow>
          (case normalizeSchedule cal sch now DEFAULT_CRON_TIMEZONE of
             Inl e \<Rightarrow> (s, Inl e)
           | Inr normalized \<Rightarrow> (let r = merge_cron s i (patch_cron patch (Some normalized)) in (fst r, Inr (snd r)))))"

definition delete_cron :: "cron_store \<Rightarrow> string \<Rightarrow> cron_store" where
  "delete_cron s i = s\<lparr>crs_crons := dm_delete (crs_crons s) i\<rparr>"

definition setEnabled :: "cron_store \<Rightarrow> string \<Rightarrow> bool \<Rightarrow> cron_store" where
  "setEnabled s i enabled =
     fst (merge_cron s i (\<lambda>c. if enabled then c\<lparr>t_enabled := enabled, c_archived := False\<rparr> else c\<lparr>t_enabled := enabled\<rparr>))"

definition setDestination :: "cron_store \<Rightarrow> string \<Rightarrow> destination option \<Rightarrow> cron_store" where
  "setDestination s i destination = fst (merge_cron s i (\<lambda>c. c\<lparr>t_destination := destination\<rparr>))"

definition setRecipientConsent :: "cron_store \<Rightarrow> string \<Rightarrow> recipient_consent \<Rightarrow> cron_store" where
  "setRecipientConsent s i consent = fst (merge_cron s i (\<lambda>c. c\<lparr>t_recipientConsent := Some consent\<rparr>))"

definition beginFire :: "cron_store \<Rightarrow> string \<Rightarrow> cron_fire_log_entry \<Rightarrow> bool \<Rightarrow> cron_store \<times> begin_fire_result" where
  "beginFire s i entry exclusive =
     (if dm_get (crs_crons s) i = None then (s, NotBegun None)
      else if exclusive
      then (let r = beginExclusive (crs_fires s) i entry (crs_staleRunningMs s) in (s\<lparr>crs_fires := fst r\<rparr>, snd r))
      else (s\<lparr>crs_fires := record_fire (crs_fires s) i entry\<rparr>, Begun))"

definition sweepStrandedFires :: "cron_store \<Rightarrow> time \<Rightarrow> cron_store \<times> nat" where
  "sweepStrandedFires s now =
     (let r = sweepStranded (crs_fires s) now (crs_staleRunningMs s) STRANDED_FIRE_NOTE in (s\<lparr>crs_fires := fst r\<rparr>, snd r))"

definition pruneFires :: "cron_store \<Rightarrow> time \<Rightarrow> cron_store \<times> nat" where
  "pruneFires s now =
     (let r = pruneEnded (crs_fires s) (now - FIRE_RETENTION_MS) FIRE_RETENTION_KEEP_PER_CRON in (s\<lparr>crs_fires := fst r\<rparr>, snd r))"

definition recordFire :: "cron_store \<Rightarrow> string \<Rightarrow> cron_fire_log_entry \<Rightarrow> cron_store" where
  "recordFire s i entry = s\<lparr>crs_fires := record_fire (crs_fires s) i entry\<rparr>"

definition backfill_cron :: "string \<times> cron \<Rightarrow> cron_store \<times> nat \<Rightarrow> cron_store \<times> nat" where
  "backfill_cron ic sn =
     (case (ic, sn) of ((i, cron), (s, backfilled)) \<Rightarrow>
        (case c_fireLog cron of
           None \<Rightarrow> (s, backfilled)
         | Some log \<Rightarrow>
             let s1 = (if log \<noteq> [] then s\<lparr>crs_fires := backfill (crs_fires s) i log\<rparr> else s)
             in (s1\<lparr>crs_crons := fst (dm_update (crs_crons s1) i (\<lambda>c. c\<lparr>c_fireLog := None\<rparr>))\<rparr>, backfilled + length log)))"

definition backfillFires :: "cron_store \<Rightarrow> cron_store \<times> nat" where
  "backfillFires s = fold backfill_cron (dm_entries (crs_crons s)) (s, 0)"

definition note_applies :: "cron_fire_note \<Rightarrow> cron \<Rightarrow> bool" where
  "note_applies nt cron = (case c_lastFireNote cron of None \<Rightarrow> True | Some l \<Rightarrow> \<not> fnote_at l > fnote_at nt)"

definition setFireNote :: "cron_store \<Rightarrow> string \<Rightarrow> cron_fire_note \<Rightarrow> cron_store \<times> fire_note_result" where
  "setFireNote s i nt =
     (case dm_get (crs_crons s) i of
        None \<Rightarrow> (s, NoteMissing)
      | Some cron \<Rightarrow>
          (s\<lparr>crs_crons := fst (dm_update (crs_crons s) i (\<lambda>c. if note_applies nt c then c\<lparr>c_lastFireNote := Some nt\<rparr> else c))\<rparr>,
           if note_applies nt cron then NoteApplied else NoteSuperseded))"

text \<open>The slot a cron waits for, and the time the next one is computed from.\<close>

definition cron_slot :: "calendar \<Rightarrow> cron \<Rightarrow> schedule_error + time option" where
  "cron_slot cal c = recoverNextFireAt cal (c_schedule c) (t_createdAt c) (t_lastFiredAt c) (c_nextFireAt c)"

definition markFired :: "calendar \<Rightarrow> cron_store \<Rightarrow> string \<Rightarrow> time \<Rightarrow> time option \<Rightarrow> cron_store \<times> (schedule_error + unit)" where
  "markFired cal s i at scheduledAt =
     (case dm_get (crs_crons s) i of
        None \<Rightarrow> (s, Inr ())
      | Some cron \<Rightarrow>
          let advanceFrom = (if isCalendarSchedule (c_schedule cron) then or_else scheduledAt at else at)
          in (case advanceNextFireAt cal (c_schedule cron) advanceFrom of
                Inl e \<Rightarrow> (s, Inl e)
              | Inr next \<Rightarrow>
                  (fst (merge_cron s i (\<lambda>c. c\<lparr>t_lastFiredAt := Some at, c_nextFireAt := next, c_deferUntil := None\<rparr>)), Inr ())))"

definition claim_transform :: "calendar \<Rightarrow> time \<Rightarrow> time \<Rightarrow> cron \<Rightarrow> schedule_error + cron \<times> bool" where
  "claim_transform cal scheduledAt at cron =
     (if c_archived cron \<or> \<not> t_enabled cron then Inr (cron, False)
      else (case cron_slot cal cron of
          Inl e \<Rightarrow> Inl e
        | Inr slot \<Rightarrow>
            if slot \<noteq> Some scheduledAt then Inr (cron, False)
            else
              let advanceFrom = (if isCalendarSchedule (c_schedule cron) then scheduledAt else at)
              in (case advanceNextFireAt cal (c_schedule cron) advanceFrom of
                    Inl e \<Rightarrow> Inl e
                  | Inr next \<Rightarrow>
                      Inr (cron\<lparr>c_nextFireAt := next, c_deferUntil := None, t_lastFiredAt := Some at\<rparr>, True))))"

definition claimSlot :: "calendar \<Rightarrow> cron_store \<Rightarrow> string \<Rightarrow> time \<Rightarrow> time \<Rightarrow> cron_store \<times> (schedule_error + bool)" where
  "claimSlot cal s i scheduledAt at =
     (case dm_get (crs_crons s) i of
        None \<Rightarrow> (s, Inr False)
      | Some cron \<Rightarrow>
          (case claim_transform cal scheduledAt at cron of
             Inl e \<Rightarrow> (s, Inl e)
           | Inr (next, claimed) \<Rightarrow> (s\<lparr>crs_crons := fst (dm_update (crs_crons s) i (\<lambda>_. next))\<rparr>, Inr claimed)))"

definition unclaimSlot :: "cron_store \<Rightarrow> string \<Rightarrow> time \<Rightarrow> time \<Rightarrow> time option \<Rightarrow> cron_store" where
  "unclaimSlot s i scheduledAt at priorLastFiredAt =
     s\<lparr>crs_crons := fst (dm_update (crs_crons s) i (\<lambda>cron.
         if t_lastFiredAt cron \<noteq> Some at then cron
         else cron\<lparr>t_lastFiredAt := priorLastFiredAt, c_nextFireAt := Some scheduledAt\<rparr>))\<rparr>"

definition markAttempted :: "cron_store \<Rightarrow> string \<Rightarrow> time \<Rightarrow> cron_store" where
  "markAttempted s i at = fst (merge_cron s i (\<lambda>c. c\<lparr>c_lastAttemptAt := Some at\<rparr>))"

definition defer_cron :: "cron_store \<Rightarrow> string \<Rightarrow> time \<Rightarrow> cron_store" where
  "defer_cron s i until = fst (merge_cron s i (\<lambda>c. c\<lparr>c_deferUntil := Some until\<rparr>))"

text \<open>The loop of \<open>due\<close>: it throws when the slot of a cron it looks at cannot be computed.\<close>

fun due_loop :: "calendar \<Rightarrow> time \<Rightarrow> cron list \<Rightarrow> (cron \<times> time) list \<Rightarrow> schedule_error + (cron \<times> time) list" where
  "due_loop cal now [] acc = Inr acc"
| "due_loop cal now (c # cs) acc =
     (if c_archived c \<or> \<not> t_enabled c \<or> isDeferred c now then due_loop cal now cs acc
      else (case cron_slot cal c of
          Inl e \<Rightarrow> Inl e
        | Inr None \<Rightarrow> due_loop cal now cs acc
        | Inr (Some n) \<Rightarrow>
            if now \<ge> n then due_loop cal now cs (acc @ [(c\<lparr>c_nextFireAt := Some n\<rparr>, n)]) else due_loop cal now cs acc))"

definition due :: "calendar \<Rightarrow> cron_store \<Rightarrow> time \<Rightarrow> schedule_error + (cron \<times> time) list" where
  "due cal s now = due_loop cal now (dm_all (crs_crons s)) []"

section \<open>A slot is claimed once\<close>

abbreviation cron_at :: "cron_store \<Rightarrow> string \<Rightarrow> cron option" where
  "cron_at s i \<equiv> map_get (crs_crons s) i"

text \<open>
  What may happen after slot \<open>slot\<close> of cron \<open>i\<close> was claimed, short of a new schedule for the cron,
  handing that slot back, or creating the cron anew: everything else the store offers, at times
  not before the slot where a fire of this cron is recorded.
\<close>

inductive cron_step ::
  "calendar \<Rightarrow> (create_cron_input \<Rightarrow> string option \<Rightarrow> string) \<Rightarrow> string \<Rightarrow> time \<Rightarrow> cron_store \<Rightarrow> cron_store \<Rightarrow> bool"
  for cal hash i slot where
  cr_create: "hash inp (normalizeTitle (cc_title inp)) \<noteq> i \<or> cron_at s i \<noteq> None \<Longrightarrow>
    cron_step cal hash i slot s (fst (create_cron cal hash s inp now))"
| cr_update: "j \<noteq> i \<or> cp_schedule patch = None \<Longrightarrow> cron_step cal hash i slot s (fst (update_cron cal s j patch now))"
| cr_delete: "cron_step cal hash i slot s (delete_cron s j)"
| cr_enable: "cron_step cal hash i slot s (setEnabled s j b)"
| cr_dest: "cron_step cal hash i slot s (setDestination s j d)"
| cr_consent: "cron_step cal hash i slot s (setRecipientConsent s j rc)"
| cr_begin: "cron_step cal hash i slot s (fst (beginFire s j e x))"
| cr_sweep: "cron_step cal hash i slot s (fst (sweepStrandedFires s now))"
| cr_prune: "cron_step cal hash i slot s (fst (pruneFires s now))"
| cr_record: "cron_step cal hash i slot s (recordFire s j e)"
| cr_backfill: "cron_step cal hash i slot s (fst (backfillFires s))"
| cr_note: "cron_step cal hash i slot s (fst (setFireNote s j nt))"
| cr_fired: "j \<noteq> i \<or> slot \<le> at \<and> slot \<le> or_else sched at \<Longrightarrow> cron_step cal hash i slot s (fst (markFired cal s j at sched))"
| cr_claim: "j \<noteq> i \<or> slot \<le> at \<Longrightarrow> cron_step cal hash i slot s (fst (claimSlot cal s j sched' at))"
| cr_unclaim: "j \<noteq> i \<or> slot < sched' \<Longrightarrow> cron_step cal hash i slot s (unclaimSlot s j sched' at prior)"
| cr_attempted: "cron_step cal hash i slot s (markAttempted s j at)"
| cr_defer: "cron_step cal hash i slot s (defer_cron s j at)"

definition past_slot :: "time \<Rightarrow> cron \<Rightarrow> bool" where
  "past_slot slot c = (case c_nextFireAt c of Some n \<Rightarrow> slot < n | None \<Rightarrow> \<exists>l. t_lastFiredAt c = Some l \<and> slot \<le> l)"

lemma past_slot_cong:
  "c_nextFireAt c' = c_nextFireAt c \<Longrightarrow> t_lastFiredAt c' = t_lastFiredAt c \<Longrightarrow> past_slot slot c' = past_slot slot c"
  by (simp add: past_slot_def split: option.split)

lemma past_slot_irrelevant [simp]:
  "past_slot slot (c\<lparr>c_fireLog := a\<rparr>) = past_slot slot c" "past_slot slot (c\<lparr>t_enabled := b\<rparr>) = past_slot slot c"
  "past_slot slot (c\<lparr>t_destination := d\<rparr>) = past_slot slot c" "past_slot slot (c\<lparr>t_recipientConsent := e\<rparr>) = past_slot slot c"
  "past_slot slot (c\<lparr>c_archived := b\<rparr>) = past_slot slot c" "past_slot slot (c\<lparr>c_lastAttemptAt := f\<rparr>) = past_slot slot c"
  "past_slot slot (c\<lparr>c_deferUntil := f\<rparr>) = past_slot slot c" "past_slot slot (c\<lparr>c_lastFireNote := g\<rparr>) = past_slot slot c"
  by (rule past_slot_cong; simp)+

lemma past_slot_patch [simp]: "past_slot slot (patch_cron p None c) = past_slot slot c"
  by (rule past_slot_cong) (simp_all add: patch_cron_def Let_def split: option.split)

lemma past_slot_later:
  assumes "next_is_later cal" "past_slot slot c" "cron_slot cal c = Inr (Some n)"
  shows "slot < n"
proof (cases "c_nextFireAt c")
  case (Some m)
  then show ?thesis using assms(2,3) by (simp add: past_slot_def cron_slot_def recoverNextFireAt_def finiteEpochMs_Inr)
next
  case None
  then obtain l where l: "t_lastFiredAt c = Some l" "slot \<le> l" using assms(2) by (auto simp: past_slot_def)
  then have "l < n"
    using assms(3) None nextCalendarFireAfter_later [OF assms(1)]
    by (auto simp: cron_slot_def recoverNextFireAt_def finitePositiveMs_Inr split: if_splits sum.splits)
  with l(2) show ?thesis by simp
qed

text \<open>A fire at or after the slot, and a claim, move the cron past it.\<close>

lemma past_slot_fired:
  assumes "next_is_later cal" "advanceNextFireAt cal sch from = Inr next" "slot \<le> from" "slot \<le> at"
  shows "past_slot slot (c\<lparr>t_lastFiredAt := Some at, c_nextFireAt := next, c_deferUntil := d\<rparr>)"
  using advance_later [OF assms(1)] assms(2-4) by (cases "next") (force simp: past_slot_def)+

lemma claim_transform_past:
  assumes "next_is_later cal" "past_slot slot c" "slot \<le> at" "claim_transform cal sched' at c = Inr (c', b)"
  shows "past_slot slot c'"
proof (cases b)
  case False
  then show ?thesis using assms(2,4) by (auto simp: claim_transform_def Let_def split: if_splits sum.splits)
next
  case True
  then obtain n where n: "cron_slot cal c = Inr (Some sched')"
    "advanceNextFireAt cal (c_schedule c) (if isCalendarSchedule (c_schedule c) then sched' else at) = Inr n"
    "c' = c\<lparr>c_nextFireAt := n, c_deferUntil := None, t_lastFiredAt := Some at\<rparr>"
    using assms(4) by (auto simp: claim_transform_def Let_def split: if_splits sum.splits)
  have "slot < sched'" by (rule past_slot_later [OF assms(1,2) n(1)])
  then have "past_slot slot (c\<lparr>t_lastFiredAt := Some at, c_nextFireAt := n, c_deferUntil := None\<rparr>)"
    using assms(3) by (intro past_slot_fired [OF assms(1) n(2)]) auto
  then show ?thesis unfolding n(3) by (simp add: past_slot_def split: option.splits)
qed

lemma claim_transform_claimed:
  assumes "next_is_later cal" "claim_transform cal slot at c = Inr (c', True)" "slot \<le> at"
  shows "past_slot slot c'"
proof -
  from assms(2) obtain n where n:
    "advanceNextFireAt cal (c_schedule c) (if isCalendarSchedule (c_schedule c) then slot else at) = Inr n"
    "c' = c\<lparr>c_nextFireAt := n, c_deferUntil := None, t_lastFiredAt := Some at\<rparr>"
    by (auto simp: claim_transform_def Let_def split: if_splits sum.splits)
  have "past_slot slot (c\<lparr>t_lastFiredAt := Some at, c_nextFireAt := n, c_deferUntil := None\<rparr>)"
    using assms(3) by (intro past_slot_fired [OF assms(1) n(1)]) auto
  then show ?thesis unfolding n(2) by (simp add: past_slot_def split: option.splits)
qed

text \<open>What the operations do to the cron under an id.\<close>

lemma dm_update_at: "map_get (fst (dm_update m j f)) i = (if i = j then map_option f (map_get m i) else map_get m i)"
  by (auto simp: dm_update_def split: option.split)

lemma merge_cron_at: "cron_at (fst (merge_cron s j f)) i = (if i = j then map_option f (cron_at s i) else cron_at s i)"
  by (auto simp: merge_cron_def Let_def dm_merge_def split: option.split)

lemmas cron_at_simps = merge_cron_at dm_update_at setEnabled_def setDestination_def setRecipientConsent_def markAttempted_def
  defer_cron_def unclaimSlot_def recordFire_def

lemma backfill_cron_at:
  "cron_at (fst (backfill_cron ic sn)) i = cron_at (fst sn) i \<or>
   cron_at (fst (backfill_cron ic sn)) i = map_option (\<lambda>c. c\<lparr>c_fireLog := None\<rparr>) (cron_at (fst sn) i)"
  by (cases ic; cases sn) (simp add: backfill_cron_def Let_def dm_update_at split: option.split)

lemma backfillFires_past:
  "(\<And>c. cron_at s i = Some c \<Longrightarrow> past_slot slot c) \<Longrightarrow> cron_at (fst (backfillFires s)) i = Some c \<Longrightarrow> past_slot slot c"
proof -
  assume s: "\<And>c. cron_at s i = Some c \<Longrightarrow> past_slot slot c" and c: "cron_at (fst (backfillFires s)) i = Some c"
  have "\<forall>c. cron_at (fst (fold backfill_cron ics sn)) i = Some c \<longrightarrow> past_slot slot c"
    if "\<forall>c. cron_at (fst sn) i = Some c \<longrightarrow> past_slot slot c" for ics sn
    using that
  proof (induction ics arbitrary: sn)
    case (Cons ic ics)
    have "\<forall>c. cron_at (fst (backfill_cron ic sn)) i = Some c \<longrightarrow> past_slot slot c"
      using backfill_cron_at [of ic sn i] Cons.prems by (auto simp del: not_None_eq)
    then show ?case using Cons.IH by simp
  qed simp
  from this [of "(s, 0)"] s c show ?thesis by (simp add: backfillFires_def)
qed

definition cron_past :: "string \<Rightarrow> time \<Rightarrow> cron_store \<Rightarrow> bool" where
  "cron_past i slot s = (\<forall>c. cron_at s i = Some c \<longrightarrow> past_slot slot c)"

lemma cron_past_merge:
  "cron_past i slot s \<Longrightarrow> (\<And>c. j = i \<Longrightarrow> cron_at s i = Some c \<Longrightarrow> past_slot slot c \<Longrightarrow> past_slot slot (f c)) \<Longrightarrow>
     cron_past i slot (fst (merge_cron s j f))"
  by (auto simp: cron_past_def merge_cron_at)

lemma cron_past_update:
  "cron_past i slot s \<Longrightarrow> (\<And>c. j = i \<Longrightarrow> cron_at s i = Some c \<Longrightarrow> past_slot slot c \<Longrightarrow> past_slot slot (f c)) \<Longrightarrow>
     cron_past i slot (s\<lparr>crs_crons := fst (dm_update (crs_crons s) j f)\<rparr>)"
  by (auto simp: cron_past_def dm_update_at)

lemma cron_past_fires [simp]: "cron_past i slot (s\<lparr>crs_fires := f\<rparr>) = cron_past i slot s"
  by (simp add: cron_past_def)

lemma cron_past_create:
  assumes "cron_past i slot s" "hash inp (normalizeTitle (cc_title inp)) \<noteq> i \<or> cron_at s i \<noteq> None"
  shows "cron_past i slot (fst (create_cron cal hash s inp now))"
proof -
  have "cron_at (fst (create_cron cal hash s inp now)) i = cron_at s i"
    using assms(2) by (auto simp: create_cron_def Let_def putIfAbsent_def split: sum.split option.split)
  then show ?thesis using assms(1) by (simp add: cron_past_def)
qed

lemma cron_past_fired:
  assumes "next_is_later cal" "cron_past i slot s" "j \<noteq> i \<or> slot \<le> at \<and> slot \<le> or_else sched at"
  shows "cron_past i slot (fst (markFired cal s j at sched))"
proof (cases "cron_at s j")
  case None
  then show ?thesis using assms(2) by (simp add: markFired_def dm_get_def)
next
  case (Some c)
  let ?from = "if isCalendarSchedule (c_schedule c) then or_else sched at else at"
  show ?thesis
  proof (cases "advanceNextFireAt cal (c_schedule c) ?from")
    case (Inl e)
    then show ?thesis using assms(2) Some by (simp add: markFired_def dm_get_def Let_def)
  next
    case (Inr n)
    have "j = i \<Longrightarrow> past_slot slot (d\<lparr>t_lastFiredAt := Some at, c_nextFireAt := n, c_deferUntil := None\<rparr>)" for d
      using assms(3) by (intro past_slot_fired [OF assms(1) Inr]) auto
    then show ?thesis using assms(2) Some Inr by (simp add: markFired_def dm_get_def Let_def cron_past_merge)
  qed
qed

lemma cron_past_claim:
  assumes "next_is_later cal" "cron_past i slot s" "j \<noteq> i \<or> slot \<le> at"
  shows "cron_past i slot (fst (claimSlot cal s j sched' at))"
proof (cases "cron_at s j")
  case None
  then show ?thesis using assms(2) by (simp add: claimSlot_def dm_get_def)
next
  case (Some c)
  show ?thesis
  proof (cases "claim_transform cal sched' at c")
    case (Inl e)
    then show ?thesis using assms(2) Some by (simp add: claimSlot_def dm_get_def)
  next
    case (Inr cb)
    then obtain c' b where cb: "claim_transform cal sched' at c = Inr (c', b)" by (cases cb) simp
    have "j = i \<Longrightarrow> past_slot slot c'"
      using claim_transform_past [OF assms(1) _ _ cb] assms(2,3) Some by (auto simp: cron_past_def)
    then show ?thesis using assms(2) Some cb by (simp add: claimSlot_def dm_get_def cron_past_update)
  qed
qed

lemma cron_past_step:
  assumes "next_is_later cal" "cron_step cal hash i slot s t" "cron_past i slot s"
  shows "cron_past i slot t"
  using assms(2,3)
proof (induction rule: cron_step.induct)
  case (cr_create inp s now)
  then show ?case by (simp add: cron_past_create)
next
  case (cr_update j patch s now)
  then show ?case
    by (cases "cp_schedule patch") (auto simp: update_cron_def Let_def intro!: cron_past_merge split: sum.split)
next
  case (cr_delete s j)
  then show ?case by (simp add: cron_past_def delete_cron_def dm_delete_def)
next
  case (cr_enable s j b)
  then show ?case by (simp add: setEnabled_def cron_past_merge)
next
  case (cr_begin s j e x)
  then show ?case by (simp add: beginFire_def Let_def)
next
  case (cr_backfill s)
  then show ?case using backfillFires_past [of s i slot] by (auto simp: cron_past_def)
next
  case (cr_note s j nt)
  then show ?case by (simp add: setFireNote_def cron_past_update split: option.split)
next
  case (cr_fired j at sched s)
  then show ?case by (simp add: cron_past_fired [OF assms(1)])
next
  case (cr_claim j at s sched')
  then show ?case by (simp add: cron_past_claim [OF assms(1)])
next
  case (cr_unclaim j sched' s at prior)
  then show ?case
    unfolding unclaimSlot_def by (intro cron_past_update) (auto simp: past_slot_def)
qed (simp_all add: sweepStrandedFires_def pruneFires_def recordFire_def Let_def setDestination_def setRecipientConsent_def
    markAttempted_def defer_cron_def cron_past_merge)

lemma cron_past_steps:
  "(cron_step cal hash i slot)\<^sup>*\<^sup>* s t \<Longrightarrow> next_is_later cal \<Longrightarrow> cron_past i slot s \<Longrightarrow> cron_past i slot t"
  by (induction rule: rtranclp_induct) (blast intro: cron_past_step)+

lemma claimSlot_claimed:
  assumes "snd (claimSlot cal s i slot at) = Inr True"
  obtains c c' where "cron_at s i = Some c" "claim_transform cal slot at c = Inr (c', True)"
    "fst (claimSlot cal s i slot at) = s\<lparr>crs_crons := fst (dm_update (crs_crons s) i (\<lambda>_. c'))\<rparr>"
  using assms by (auto simp: claimSlot_def dm_get_def split: option.splits sum.splits)

text \<open>A fire slot of a cron is claimed at most once: after a successful claim (not made before the
  slot), whatever else happens to the store short of giving the cron a new schedule, handing that
  slot back or creating the cron anew, the same slot cannot be claimed again.
\<close>

theorem cron_slot_claimed_once:
  assumes "next_is_later cal" and "snd (claimSlot cal s i slot at) = Inr True" and "slot \<le> at"
    and "(cron_step cal hash i slot)\<^sup>*\<^sup>* (fst (claimSlot cal s i slot at)) t"
  shows "snd (claimSlot cal t i slot at') \<noteq> Inr True"
proof
  assume again: "snd (claimSlot cal t i slot at') = Inr True"
  have "cron_past i slot (fst (claimSlot cal s i slot at))"
  proof (rule claimSlot_claimed [OF assms(2)])
    fix c c' assume "cron_at s i = Some c" "claim_transform cal slot at c = Inr (c', True)"
      "fst (claimSlot cal s i slot at) = s\<lparr>crs_crons := fst (dm_update (crs_crons s) i (\<lambda>_. c'))\<rparr>"
    then show ?thesis using claim_transform_claimed [OF assms(1) _ assms(3)] by (simp add: cron_past_def dm_update_at)
  qed
  then have past: "cron_past i slot t" by (rule cron_past_steps [OF assms(4,1)])
  from again obtain c where "cron_at t i = Some c" "cron_slot cal c = Inr (Some slot)"
    by (rule claimSlot_claimed) (auto simp: claim_transform_def Let_def split: if_splits sum.splits)
  then show False using past past_slot_later [OF assms(1), of slot c slot] by (auto simp: cron_past_def)
qed

section \<open>What is due can be claimed\<close>

definition is_due :: "calendar \<Rightarrow> time \<Rightarrow> cron \<Rightarrow> time \<Rightarrow> bool" where
  "is_due cal now c n = (\<not> c_archived c \<and> t_enabled c \<and> \<not> isDeferred c now \<and> cron_slot cal c = Inr (Some n) \<and> n \<le> now)"

lemma due_loop_set:
  "due_loop cal now cs acc = Inr ds \<Longrightarrow>
     set ds = set acc \<union> {(c\<lparr>c_nextFireAt := Some n\<rparr>, n) | c n. c \<in> set cs \<and> is_due cal now c n}"
proof (induction cal now cs acc rule: due_loop.induct)
  case (2 cal now c cs acc)
  have split: "{(d\<lparr>c_nextFireAt := Some n\<rparr>, n) | d n. d \<in> set (c # cs) \<and> is_due cal now d n} =
      {(c\<lparr>c_nextFireAt := Some n\<rparr>, n) | n. is_due cal now c n} \<union>
      {(d\<lparr>c_nextFireAt := Some n\<rparr>, n) | d n. d \<in> set cs \<and> is_due cal now d n}" by auto
  consider "c_archived c \<or> \<not> t_enabled c \<or> isDeferred c now"
    | e where "\<not> (c_archived c \<or> \<not> t_enabled c \<or> isDeferred c now)" "cron_slot cal c = Inl e"
    | "\<not> (c_archived c \<or> \<not> t_enabled c \<or> isDeferred c now)" "cron_slot cal c = Inr None"
    | n where "\<not> (c_archived c \<or> \<not> t_enabled c \<or> isDeferred c now)" "cron_slot cal c = Inr (Some n)"
    by (metis not_None_eq sum.exhaust)
  then show ?case
  proof cases
    case 1
    then have "{(c\<lparr>c_nextFireAt := Some n\<rparr>, n) | n. is_due cal now c n} = {}" by (auto simp: is_due_def)
    then show ?thesis unfolding split using 1 "2.IH"(1) "2.prems" by simp
  next
    case (2 e)
    then show ?thesis using "2.prems" by simp
  next
    case 3
    then have "{(c\<lparr>c_nextFireAt := Some n\<rparr>, n) | n. is_due cal now c n} = {}" by (auto simp: is_due_def)
    then show ?thesis unfolding split using 3 "2.IH"(2) "2.prems" by simp
  next
    case (4 n)
    then have "{(c\<lparr>c_nextFireAt := Some n\<rparr>, n) | n. is_due cal now c n} = (if n \<le> now then {(c\<lparr>c_nextFireAt := Some n\<rparr>, n)} else {})"
      by (auto simp: is_due_def)
    then show ?thesis unfolding split using 4 "2.IH"(3,4) "2.prems" by (cases "n \<le> now") simp_all
  qed
qed simp

text \<open>The scheduler's question is answered exactly: \<open>due\<close> lists, each with its slot, exactly the crons
  that are enabled, not archived, not put off and whose slot has come. Each of them can be claimed
  at once for that slot, and for no other, if its next time can be computed, and then waits for
  that next time.
\<close>

theorem due_exact_and_claimable:
  assumes "map_ok (crs_crons s)" and "due cal s now = Inr ds"
  shows "set ds = {(c\<lparr>c_nextFireAt := Some n\<rparr>, n) | i c n. cron_at s i = Some c \<and> is_due cal now c n} \<and>
    (cron_at s i = Some c \<and> is_due cal now c n \<longrightarrow>
       (m \<noteq> n \<longrightarrow> claimSlot cal s i m now = (s, Inr False)) \<and>
       (\<forall>next. advanceNextFireAt cal (c_schedule c) (if isCalendarSchedule (c_schedule c) then n else now) = Inr next \<longrightarrow>
          snd (claimSlot cal s i n now) = Inr True \<and>
          cron_at (fst (claimSlot cal s i n now)) i =
            Some (c\<lparr>c_nextFireAt := next, c_deferUntil := None, t_lastFiredAt := Some now\<rparr>)))"
proof (intro conjI impI allI)
  have "set ds = {(c\<lparr>c_nextFireAt := Some n\<rparr>, n) | c n. c \<in> set (dm_all (crs_crons s)) \<and> is_due cal now c n}"
    using due_loop_set [of cal now "dm_all (crs_crons s)" "[]" ds] assms(2) by (simp add: due_def)
  then show "set ds = {(c\<lparr>c_nextFireAt := Some n\<rparr>, n) | i c n. cron_at s i = Some c \<and> is_due cal now c n}"
    unfolding set_dm_all [OF assms(1)] by blast
  assume h: "cron_at s i = Some c \<and> is_due cal now c n"
  then have slot: "cron_slot cal c = Inr (Some n)" and en: "\<not> c_archived c" "t_enabled c" by (simp_all add: is_due_def)
  show "claimSlot cal s i m now = (s, Inr False)" if "m \<noteq> n"
    using h slot en that by (simp add: claimSlot_def dm_get_def claim_transform_def dm_update_def map_set_same)
  show "snd (claimSlot cal s i n now) = Inr True"
    "cron_at (fst (claimSlot cal s i n now)) i = Some (c\<lparr>c_nextFireAt := next, c_deferUntil := None, t_lastFiredAt := Some now\<rparr>)"
    if "advanceNextFireAt cal (c_schedule c) (if isCalendarSchedule (c_schedule c) then n else now) = Inr next" for "next"
    using h slot en that by (simp_all add: claimSlot_def dm_get_def claim_transform_def Let_def dm_update_def)
qed

section \<open>The theorems applied\<close>

definition ex_cron_input :: create_cron_input where
  "ex_cron_input =
     \<lparr>ct_ownerScopeId = ''personal:ann'', ct_owner = ''ann'', ct_createdBy = ''ann'', ct_destination = None,
      ct_ownerConsentedAt = None, ct_recipientConsent = None,
      cc_schedule = \<lparr>cs_cron = None, cs_timezone = None, cs_everyMs = Some (Whole 60000), cs_firstFireAt = Some (Whole 10)\<rparr>,
      cc_title = Some '' daily  check '', cc_action = Some ''check'', cc_message = None, cc_runAs = None, cc_members = None,
      cc_unattendedGrants = None, cc_loopId = None\<rparr>"

definition ex_crons :: cron_store where
  "ex_crons = fst (create_cron ex_calendar (\<lambda>_ _. ''c1'') (createCronStore None) ex_cron_input 5)"

definition ex_cron :: cron where
  "ex_cron = the (cron_at ex_crons ''c1'')"

lemma ex_later: "next_is_later ex_calendar"
  by (simp add: next_is_later_def ex_calendar_def)

theorem cron_slot_claimed_once_witness:
  "snd (claimSlot ex_calendar ex_crons ''c1'' 10 20) = Inr True \<and>
   snd (claimSlot ex_calendar (fst (claimSlot ex_calendar ex_crons ''c1'' 10 20)) ''c1'' 10 30) \<noteq> Inr True"
proof -
  have 1: "snd (claimSlot ex_calendar ex_crons ''c1'' 10 20) = Inr True" by code_simp
  from cron_slot_claimed_once [OF ex_later 1 _ rtranclp.rtrancl_refl, where at' = 30] 1 show ?thesis by simp
qed

theorem due_exact_and_claimable_witness:
  "set [(ex_cron, 10)] = {(c\<lparr>c_nextFireAt := Some n\<rparr>, n) | i c n. cron_at ex_crons i = Some c \<and> is_due ex_calendar 20 c n}"
proof -
  have 1: "map_ok (crs_crons ex_crons)" by code_simp
  have 2: "due ex_calendar ex_crons 20 = Inr [(ex_cron, 10)]" by code_simp
  from due_exact_and_claimable [OF 1 2] show ?thesis by blast
qed

end
