(* ===== verification/Shell_Text.thy ===== *)
theory Shell_Text
  imports Prelude "HOL-Library.Sublist"
begin

text \<open>
  The string functions of the command policy (\<open>src/policy/command-policy.ts\<close>) that rest on
  regular expressions, each written out as the matcher it denotes: at a position the pattern
  either fails or yields what it matched and the rest of the input (\<open>replace_all\<close>, \<open>match_all\<close> run a
  matcher over the string from left to right, as the global flag does). Where a pattern can match
  in several ways the matcher tries them in the order of the regular expression.

  Strings are lists of code units below 256. An escape that denotes a code point above 255 has no
  result here (\<open>None\<close>); above 10FFFF the source itself throws.
\<close>

section \<open>Running a matcher over a string\<close>

text \<open>A matcher never matches the empty string; the length test only makes the recursion total.\<close>

function replace_all :: "(string \<Rightarrow> (string option \<times> string) option) \<Rightarrow> string \<Rightarrow> string option" where
  "replace_all f [] = Some []"
| "replace_all f (c # cs) =
     (case f (c # cs) of
        Some (r, rest) \<Rightarrow>
          if length rest \<le> length cs
          then (case (r, replace_all f rest) of (Some a, Some b) \<Rightarrow> Some (a @ b) | _ \<Rightarrow> None)
          else None
      | None \<Rightarrow> map_option (Cons c) (replace_all f cs))"
  by pat_completeness auto
termination
  by (relation "measure (\<lambda>(f, s). length s)") auto

function match_all :: "(string \<Rightarrow> ('a \<times> string) option) \<Rightarrow> string \<Rightarrow> 'a list" where
  "match_all f [] = []"
| "match_all f (c # cs) =
     (case f (c # cs) of
        Some (r, rest) \<Rightarrow> if length rest \<le> length cs then r # match_all f rest else []
      | None \<Rightarrow> match_all f cs)"
  by pat_completeness auto
termination
  by (relation "measure (\<lambda>(f, s). length s)") auto

text \<open>\<open>indexOf(c)\<close> as a split: what comes before the first \<open>c\<close> and what after it.\<close>

fun until :: "char \<Rightarrow> string \<Rightarrow> (string \<times> string) option" where
  "until q [] = None"
| "until q (c # cs) =
     (if c = q then Some ([], cs) else (case until q cs of None \<Rightarrow> None | Some (b, r) \<Rightarrow> Some (c # b, r)))"

lemma until_length: "until q s = Some (b, r) \<Longrightarrow> length b + length r < length s"
  by (induction s arbitrary: b) (fastforce split: if_splits option.splits)+

lemma until_append: "q \<notin> set b \<Longrightarrow> until q (b @ q # r) = Some (b, r)"
  by (induction b) auto

lemma until_None: "until q s = None \<longleftrightarrow> q \<notin> set s"
  by (induction s) (auto split: option.splits)

section \<open>Character classes\<close>

abbreviation NL :: char where "NL \<equiv> CHR 10"
abbreviation CR :: char where "CR \<equiv> CHR 13"
abbreviation BS :: char where "BS \<equiv> CHR 92"
abbreviation SQ :: char where "SQ \<equiv> CHR 39"
abbreviation DQ :: char where "DQ \<equiv> CHR 34"
abbreviation BQ :: char where "BQ \<equiv> CHR 96"
abbreviation SP :: char where "SP \<equiv> CHR 32"

definition in_range :: "char \<Rightarrow> char \<Rightarrow> char \<Rightarrow> bool" where
  "in_range a b c = ((of_char a :: nat) \<le> of_char c \<and> (of_char c :: nat) \<le> of_char b)"

definition is_digit :: "char \<Rightarrow> bool" where
  "is_digit c = in_range (CHR ''0'') (CHR ''9'') c"

definition is_ident :: "char \<Rightarrow> bool" where
  "is_ident c = (in_range (CHR ''a'') (CHR ''z'') c \<or> in_range (CHR ''A'') (CHR ''Z'') c \<or> c = CHR ''_'')"

definition is_word :: "char \<Rightarrow> bool" where
  "is_word c = (is_ident c \<or> is_digit c)"

text \<open>The class \<open>[\w@%+=:,./-]\<close> of bare words.\<close>

definition is_bare :: "char \<Rightarrow> bool" where
  "is_bare c = (is_word c \<or> c \<in> set ''@%+=:,./-'')"

definition unquoteBareWord :: "string \<Rightarrow> string option" where
  "unquoteBareWord inner = (if list_all is_bare inner then Some inner else None)"

definition hex_digit :: "char \<Rightarrow> nat option" where
  "hex_digit c =
     (if is_digit c then Some (of_char c - 48)
      else if in_range (CHR ''a'') (CHR ''f'') c then Some (of_char c - 87)
      else if in_range (CHR ''A'') (CHR ''F'') c then Some (of_char c - 55) else None)"

section \<open>ANSI-C escapes\<close>

text \<open>At least \<open>m\<close> and at most \<open>n\<close> digits, as many as there are.\<close>

fun digits :: "(char \<Rightarrow> nat option) \<Rightarrow> nat \<Rightarrow> string \<Rightarrow> nat list \<times> string" where
  "digits d (Suc n) (c # cs) =
     (case d c of None \<Rightarrow> ([], c # cs) | Some v \<Rightarrow> (case digits d n cs of (vs, r) \<Rightarrow> (v # vs, r)))"
| "digits d _ s = ([], s)"

definition value_of :: "nat \<Rightarrow> nat list \<Rightarrow> nat" where
  "value_of base ds = foldl (\<lambda>a d. a * base + d) 0 ds"

definition code_unit :: "nat \<Rightarrow> string option" where
  "code_unit n = (if n < 256 then Some [char_of n] else None)"

definition numeric_escape :: "string \<Rightarrow> (char \<Rightarrow> nat option) \<Rightarrow> nat \<Rightarrow> nat \<Rightarrow> nat \<Rightarrow> string \<Rightarrow> (string option \<times> string) option" where
  "numeric_escape lead d base m n s =
     (if startsWith s lead
      then (case digits d n (drop (length lead) s) of (ds, r) \<Rightarrow>
              if m \<le> length ds then Some (code_unit (value_of base ds), r) else None)
      else None)"

definition octal_digit :: "char \<Rightarrow> nat option" where
  "octal_digit c = (if in_range (CHR ''0'') (CHR ''7'') c then Some (of_char c - 48) else None)"

definition named_escape :: "string \<Rightarrow> (string option \<times> string) option" where
  "named_escape s =
     (case s of
        b # c # r \<Rightarrow>
          if b = BS
          then (case map_of [(CHR ''a'', CHR 7), (CHR ''b'', CHR 8), (CHR ''e'', CHR 27), (CHR ''f'', CHR 12), (CHR ''n'', CHR 10),
                             (CHR ''r'', CHR 13), (CHR ''t'', CHR 9), (CHR ''v'', CHR 11), (BS, BS), (SQ, SQ), (DQ, DQ)] c of
                  Some e \<Rightarrow> Some (Some [e], r) | None \<Rightarrow> None)
          else None
      | _ \<Rightarrow> None)"

definition decodeAnsiC :: "string \<Rightarrow> string option" where
  "decodeAnsiC value =
     Option.bind (replace_all (numeric_escape [BS, CHR ''x''] hex_digit 16 1 2) value) (\<lambda>v1.
     Option.bind (replace_all (numeric_escape [BS, CHR ''u''] hex_digit 16 4 4) v1) (\<lambda>v2.
     Option.bind (replace_all (numeric_escape [BS, CHR ''U''] hex_digit 16 8 8) v2) (\<lambda>v3.
     Option.bind (replace_all (numeric_escape [BS] octal_digit 8 1 3) v3) (\<lambda>v4.
       replace_all named_escape v4))))"

section \<open>Substitutions and quotes in the scanned text\<close>

text \<open>The matches of \<open>/\$\([^)]*\)|`[^`]*`/\<close>.\<close>

definition match_substitution :: "string \<Rightarrow> (string \<times> string) option" where
  "match_substitution s =
     (case s of
        c # cs \<Rightarrow>
          if c = CHR ''$'' \<and> startsWith cs ''(''
          then (case until (CHR '')'') (tl cs) of Some (b, r) \<Rightarrow> Some (''$('' @ b @ '')'', r) | None \<Rightarrow> None)
          else if c = BQ then (case until BQ cs of Some (b, r) \<Rightarrow> Some ([BQ] @ b @ [BQ], r) | None \<Rightarrow> None)
          else None
      | [] \<Rightarrow> None)"

text \<open>The body of \<open>(?:[^q\\]|\\.)*q\<close>: what precedes the closing quote \<open>q\<close> and what follows it.\<close>

fun quoted_body :: "char \<Rightarrow> string \<Rightarrow> (string \<times> string) option" where
  "quoted_body q [] = None"
| "quoted_body q [c] = (if c = q then Some ([], []) else None)"
| "quoted_body q (c # d # cs) =
     (if c = q then Some ([], d # cs)
      else if c = BS
      then (if d = NL \<or> d = CR then None
            else (case quoted_body q cs of Some (b, r) \<Rightarrow> Some (c # d # b, r) | None \<Rightarrow> None))
      else (case quoted_body q (d # cs) of Some (b, r) \<Rightarrow> Some (c # b, r) | None \<Rightarrow> None))"

definition scan_double :: "string \<Rightarrow> (string option \<times> string) option" where
  "scan_double s =
     (if startsWith s [DQ]
      then (case quoted_body DQ (tl s) of
              None \<Rightarrow> None
            | Some (inner, r) \<Rightarrow>
                let subs = match_all match_substitution ([DQ] @ inner @ [DQ])
                in Some (Some (if subs \<noteq> [] then join '' '' subs else or_else (unquoteBareWord inner) [DQ, DQ]), r))
      else None)"

definition scan_ansi :: "string \<Rightarrow> (string option \<times> string) option" where
  "scan_ansi s =
     (if startsWith s [CHR ''$'', SQ]
      then (case quoted_body SQ (drop 2 s) of
              None \<Rightarrow> None
            | Some (inner, r) \<Rightarrow>
                Some (map_option (\<lambda>v. or_else (unquoteBareWord v) [SQ, SQ]) (decodeAnsiC inner), r))
      else None)"

definition scan_single :: "string \<Rightarrow> (string option \<times> string) option" where
  "scan_single s =
     (if startsWith s [SQ]
      then (case until SQ (tl s) of
              None \<Rightarrow> None | Some (inner, r) \<Rightarrow> Some (Some (or_else (unquoteBareWord inner) [SQ, SQ]), r))
      else None)"

definition scan_escape :: "string \<Rightarrow> (string option \<times> string) option" where
  "scan_escape s =
     (case s of b # c # r \<Rightarrow> if b = BS \<and> is_bare c then Some (Some [c], r) else None | _ \<Rightarrow> None)"

text \<open>The chain of replacements that makes \<open>base\<close> of a command.\<close>

definition scan_base :: "string \<Rightarrow> string option" where
  "scan_base stripped =
     Option.bind (replace_all scan_double stripped) (\<lambda>v1.
     Option.bind (replace_all scan_ansi v1) (\<lambda>v2.
     Option.bind (replace_all scan_single v2) (\<lambda>v3. replace_all scan_escape v3)))"

end
