(* ===== verification/Shell_Scan.thy ===== *)
theory Shell_Scan
  imports Shell_Text
begin

text \<open>
  The shell tokenizer of the command policy (\<open>scanShell\<close>): it splits a command line into commands
  of words and collects the command substitutions it meets. The index into the input is the rest
  of the input here; the loops return what they read and that rest. \<open>None\<close> comes from an escape that
  cannot be decoded (see \<open>decodeAnsiC\<close>).
\<close>

section \<open>Command substitutions\<close>

abbreviation in_front :: "string \<Rightarrow> (string \<times> string) option \<Rightarrow> (string \<times> string) option" where
  "in_front p x \<equiv> map_option (\<lambda>(b, r). (p @ b, r)) x"

text \<open>One round of the loop: close, or go on by one or two characters with a new depth and quote.\<close>

datatype substitution_round = Close | Skip1 nat "char option" | Skip2 nat "char option"

definition substitution_move :: "nat \<Rightarrow> char option \<Rightarrow> char \<Rightarrow> string \<Rightarrow> substitution_round" where
  "substitution_move depth quote c cs =
     (if c = BS then Skip2 depth quote
      else if quote \<noteq> None then Skip1 depth (if quote = Some c then None else quote)
      else if c = SQ \<or> c = DQ then Skip1 depth (Some c)
      else if c = CHR ''$'' \<and> startsWith cs ''('' then Skip2 (depth + 1) quote
      else if c = CHR '')'' then (if depth = 1 then Close else Skip1 (depth - 1) quote)
      else Skip1 depth quote)"

text \<open>After \<open>$(\<close>: the body up to the parenthesis that closes it, and the rest.\<close>

fun substitution_loop :: "nat \<Rightarrow> char option \<Rightarrow> string \<Rightarrow> (string \<times> string) option" where
  "substitution_loop depth quote [] = None"
| "substitution_loop depth quote (c # cs) =
     (case substitution_move depth quote c cs of
        Close \<Rightarrow> Some ([], cs)
      | Skip1 depth' quote' \<Rightarrow> in_front [c] (substitution_loop depth' quote' cs)
      | Skip2 depth' quote' \<Rightarrow>
          (case cs of [] \<Rightarrow> None | d # ds \<Rightarrow> in_front [c, d] (substitution_loop depth' quote' ds)))"

definition commandSubstitution :: "string \<Rightarrow> (string \<times> string) option" where
  "commandSubstitution s = substitution_loop 1 None s"

lemma substitution_loop_length: "substitution_loop depth quote s = Some (b, r) \<Longrightarrow> length r < length s"
  by (induction depth quote s arbitrary: b rule: substitution_loop.induct)
    (fastforce split: substitution_round.splits list.splits)+

lemma commandSubstitution_length: "commandSubstitution s = Some (b, r) \<Longrightarrow> length r < length s"
  by (simp add: commandSubstitution_def substitution_loop_length)

section \<open>Words\<close>

text \<open>
  One round inside double quotes: the rest, the characters added to the word and the
  substitutions found.
\<close>

definition double_step :: "char \<Rightarrow> string \<Rightarrow> string \<times> string \<times> string list" where
  "double_step c cs =
     (if c = BS \<and> cs \<noteq> [] then (tl cs, [hd cs], [])
      else if c = CHR ''$'' \<and> startsWith cs ''(''
      then (case commandSubstitution (tl cs) of None \<Rightarrow> (cs, [c], []) | Some (b, r) \<Rightarrow> (r, [], [b]))
      else if c = BQ then (case until BQ cs of None \<Rightarrow> (cs, [], []) | Some (b, r) \<Rightarrow> (r, [], [b]))
      else (cs, [c], []))"

lemma double_step_length: "double_step c cs = (r, a, m) \<Longrightarrow> length r \<le> length cs"
  by (auto simp: double_step_def split: if_splits option.splits dest!: commandSubstitution_length until_length)

function double_loop :: "string \<Rightarrow> string \<Rightarrow> string list \<Rightarrow> string \<times> string \<times> string list" where
  "double_loop [] w n = ([], w, n)"
| "double_loop (c # cs) w n =
     (if c = DQ then (cs, w, n) else (case double_step c cs of (r, a, m) \<Rightarrow> double_loop r (w @ a) (n @ m)))"
  by pat_completeness auto
termination
  by (relation "measure (\<lambda>(s, w, n). length s)") (auto simp: le_imp_less_Suc dest!: double_step_length [OF sym])

lemma double_loop_length: "double_loop s w n = (r, w', n') \<Longrightarrow> length r \<le> length s"
proof (induction s w n rule: double_loop.induct)
  case (2 c cs w n)
  show ?case
  proof (cases "c = DQ")
    case False
    obtain q a m where d: "double_step c cs = (q, a, m)" by (cases "double_step c cs")
    have "length r \<le> length q" using 2 False d by simp
    with double_step_length [OF d] show ?thesis by simp
  qed (use 2 in simp)
qed simp

definition is_special :: "char \<Rightarrow> bool" where
  "is_special c = (c \<in> set '';|&(){}'')"

text \<open>The word ends at a blank or a separator; \<open>/[<>]$/\<close>: an ampersand after a redirection belongs to it.\<close>

definition ends_redirect :: "string \<Rightarrow> bool" where
  "ends_redirect w = (w \<noteq> [] \<and> last w \<in> set ''<>'')"

definition word_stops :: "char \<Rightarrow> string \<Rightarrow> bool" where
  "word_stops c w = (is_space c \<or> (is_special c \<and> \<not> (c = CHR ''&'' \<and> ends_redirect w)))"

text \<open>
  One round of the loop over a word: the rest, the characters added, whether the word has
  started, and the substitutions found.
\<close>

definition word_step :: "char \<Rightarrow> string \<Rightarrow> (string \<times> string \<times> bool \<times> string list) option" where
  "word_step c cs =
     (if c = BS
      then Some (if startsWith cs [NL] then (tl cs, [], False, [])
                 else if cs \<noteq> [] then (tl cs, [hd cs], True, [])
                 else (cs, [], False, []))
      else if c = SQ
      then (case until SQ cs of None \<Rightarrow> Some ([], cs, True, []) | Some (b, r) \<Rightarrow> Some (r, b, True, []))
      else if c = CHR ''$'' \<and> startsWith cs [SQ]
      then (case until SQ (tl cs) of
              None \<Rightarrow> Some ([], tl cs, True, [])
            | Some (b, r) \<Rightarrow> map_option (\<lambda>v. (r, v, True, [])) (decodeAnsiC b))
      else if c = DQ then (case double_loop cs [] [] of (r, a, m) \<Rightarrow> Some (r, a, True, m))
      else if c = CHR ''$'' \<and> startsWith cs ''(''
      then (case commandSubstitution (tl cs) of None \<Rightarrow> Some (cs, [c], True, []) | Some (b, r) \<Rightarrow> Some (r, [], True, [b]))
      else if c = BQ then (case until BQ cs of None \<Rightarrow> Some (cs, [], True, []) | Some (b, r) \<Rightarrow> Some (r, [], True, [b]))
      else Some (cs, [c], True, []))"

lemma word_step_length: "word_step c cs = Some (r, a, b, m) \<Longrightarrow> length r \<le> length cs"
  unfolding word_step_def
  by (auto split: if_split_asm option.split_asm prod.split_asm
      dest!: commandSubstitution_length until_length double_loop_length)

function word_loop :: "string \<Rightarrow> string \<Rightarrow> bool \<Rightarrow> string list \<Rightarrow> (string \<times> string \<times> bool \<times> string list) option" where
  "word_loop [] w started n = Some ([], w, started, n)"
| "word_loop (c # cs) w started n =
     (if word_stops c w then Some (c # cs, w, started, n)
      else (case word_step c cs of
              None \<Rightarrow> None
            | Some (r, a, b, m) \<Rightarrow> word_loop r (w @ a) (started \<or> b) (n @ m)))"
  by pat_completeness auto
termination
  by (relation "measure (\<lambda>(s, w, b, n). length s)") (auto simp: le_imp_less_Suc dest!: word_step_length)

lemma word_loop_length: "word_loop s w started n = Some (r, w', started', n') \<Longrightarrow> length r \<le> length s"
proof (induction s w started n rule: word_loop.induct)
  case (2 c cs w started n)
  show ?case
  proof (cases "word_stops c w")
    case False
    with "2.prems" obtain q a b m where d: "word_step c cs = Some (q, a, b, m)" by (auto split: option.splits)
    have "length r \<le> length q" using 2 False d by simp
    with word_step_length [OF d] show ?thesis by simp
  qed (use 2 in simp)
qed simp

text \<open>A word that begins with a plain character takes at least that character.\<close>

lemma word_loop_shrinks:
  assumes "word_loop (c # cs) [] False n = Some (r, w', started', n')" "\<not> word_stops c []"
  shows "length r \<le> length cs"
proof -
  from assms obtain q a b m where d: "word_step c cs = Some (q, a, b, m)" by (auto split: option.splits)
  then have "length r \<le> length q" using assms word_loop_length [of q a b "n @ m" r w' started' n'] by simp
  with word_step_length [OF d] show ?thesis by simp
qed

section \<open>Commands\<close>

record shell_scan =
  sh_commands :: "string list list"
  sh_nested :: "string list"

definition flush :: "string list \<Rightarrow> string list list \<Rightarrow> string list list" where
  "flush words commands = (if words \<noteq> [] then commands @ [words] else commands)"

function scan_loop :: "string \<Rightarrow> string list \<Rightarrow> string list list \<Rightarrow> string list \<Rightarrow> shell_scan option" where
  "scan_loop [] words commands n = Some \<lparr>sh_commands = flush words commands, sh_nested = n\<rparr>"
| "scan_loop (c # cs) words commands n =
     (if is_space c
      then (if c = NL then scan_loop cs [] (flush words commands) n else scan_loop cs words commands n)
      else if c = CHR ''#'' \<and> words = [] then scan_loop (dropWhile (\<lambda>d. d \<noteq> NL) cs) words commands n
      else if is_special c then scan_loop (dropWhile is_special cs) [] (flush words commands) n
      else (case word_loop (c # cs) [] False n of
              None \<Rightarrow> None
            | Some (r, w, started, n') \<Rightarrow> scan_loop r (if started then words @ [w] else words) commands n'))"
  by pat_completeness auto
termination
proof (relation "measure (\<lambda>(s, ws, cs, n). length s)")
  fix c cs and words :: "string list" and commands :: "string list list" and n x and r :: string
    and t :: "string \<times> bool \<times> string list" and w :: string and u :: "bool \<times> string list" and st n'
  assume "\<not> is_space c" "\<not> is_special c" "word_loop (c # cs) [] False n = Some x" "(r, t) = x" "(w, u) = t" "(st, n') = u"
  then have "length r \<le> length cs" using word_loop_shrinks [of c cs n r w st n'] by (auto simp: word_stops_def)
  then show "((r, if st then words @ [w] else words, commands, n'), c # cs, words, commands, n) \<in> measure (\<lambda>(s, ws, cs, n). length s)"
    by simp
qed (simp_all add: le_imp_less_Suc length_dropWhile_le)

definition scanShell :: "string \<Rightarrow> shell_scan option" where
  "scanShell input = scan_loop input [] [] []"

section \<open>What is quoted is read back\<close>

text \<open>The usual quoting of a word for a shell: single quotes, a quote inside as \<open>'\''\<close>.\<close>

definition quote_char :: "char \<Rightarrow> string" where
  "quote_char c = (if c = SQ then [SQ, BS, SQ, SQ] else [c])"

definition shq :: "string \<Rightarrow> string" where
  "shq w = SQ # concat (map quote_char w) @ [SQ]"

definition shell_line :: "string list \<Rightarrow> string" where
  "shell_line ws = join [SP] (map shq ws)"

lemma quote_plain: "SQ \<notin> set u \<Longrightarrow> concat (map quote_char u) = u"
  by (induction u) (auto simp: quote_char_def)

lemma not_stops [simp]: "\<not> word_stops SQ w" "\<not> word_stops BS w"
  by (simp_all add: word_stops_def is_space_def is_special_def)

lemma word_step_escape: "word_step BS (SQ # x) = Some (x, [SQ], True, [])"
  by (simp add: word_step_def startsWith_def)

definition word_done :: "string \<Rightarrow> bool" where
  "word_done r = (r = [] \<or> is_space (hd r))"

lemma word_loop_done: "word_done r \<Longrightarrow> word_loop r w st n = Some (r, w, st, n)"
  by (cases r) (auto simp: word_done_def word_stops_def)

lemma word_loop_quoted:
  "word_done r \<Longrightarrow> word_loop (SQ # concat (map quote_char w) @ SQ # r) acc st n = Some (r, acc @ w, True, n)"
proof (induction "length w" arbitrary: w acc st rule: less_induct)
  case less
  show ?case
  proof (cases "SQ \<in> set w")
    case False
    then have "until SQ (w @ SQ # r) = Some (w, r)" by (rule until_append)
    then show ?thesis using False less.prems by (simp add: quote_plain word_step_def word_loop_done)
  next
    case True
    then obtain u v where w: "w = u @ SQ # v" "SQ \<notin> set u" by (metis split_list_first)
    let ?rest = "SQ # concat (map quote_char v) @ SQ # r"
    have "until SQ (u @ SQ # BS # SQ # ?rest) = Some (u, BS # SQ # ?rest)" by (rule until_append [OF w(2)])
    then have "word_loop (SQ # concat (map quote_char w) @ SQ # r) acc st n = word_loop (BS # SQ # ?rest) (acc @ u) True n"
      using w by (simp add: quote_plain quote_char_def word_step_def)
    also have "\<dots> = word_loop ?rest (acc @ u @ [SQ]) True n"
      by (subst word_loop.simps) (simp add: word_step_escape del: word_loop.simps)
    also have "\<dots> = Some (r, acc @ w, True, n)" using less.hyps [of v] less.prems w(1) by simp
    finally show ?thesis .
  qed
qed

lemma scan_loop_quoted:
  assumes "word_done r"
  shows "scan_loop (shq w @ r) words commands n = scan_loop r (words @ [w]) commands n"
proof -
  have "word_loop (shq w @ r) [] False n = Some (r, w, True, n)"
    using word_loop_quoted [OF assms, of w "[]" False n] by (simp add: shq_def)
  then show ?thesis by (simp add: shq_def is_space_def is_special_def)
qed

lemma scan_loop_line:
  "scan_loop (shell_line ws) words commands n = Some \<lparr>sh_commands = flush (words @ ws) commands, sh_nested = n\<rparr>"
proof (induction ws arbitrary: words rule: induct_list012)
  case 1
  then show ?case by (simp add: shell_line_def)
next
  case (2 w)
  then show ?case using scan_loop_quoted [of "[]" w] by (simp add: shell_line_def word_done_def)
next
  case (3 w v ws)
  have "scan_loop (shell_line (w # v # ws)) words commands n = scan_loop (SP # shell_line (v # ws)) (words @ [w]) commands n"
    using scan_loop_quoted [of "SP # shell_line (v # ws)" w] by (simp add: shell_line_def word_done_def is_space_def)
  also have "\<dots> = scan_loop (shell_line (v # ws)) (words @ [w]) commands n" by (simp add: is_space_def)
  finally show ?case using 3(2) [of "words @ [w]"] by simp
qed

lemma scan_line_words:
  "scanShell (shell_line ws) = Some \<lparr>sh_commands = (if ws = [] then [] else [ws]), sh_nested = []\<rparr>"
  using scan_loop_line [of ws "[]" "[]" "[]"] by (simp add: scanShell_def flush_def)

text \<open>C39.
  The tokenizer reads what a shell would: a command line made of any words, whatever characters
  they hold, each quoted by \<open>shq\<close>, is read back as exactly one command with exactly those words and no
  command substitutions.
\<close>

theorem scan_reads_back_quoted:
  "scanShell (shell_line ws) = Some \<lparr>sh_commands = (if ws = [] then [] else [ws]), sh_nested = []\<rparr>"
  by (rule scan_line_words)

end
