(* ===== verification/Heredocs.thy ===== *)
theory Heredocs
  imports Shell_Text
begin

text \<open>
  Here-documents of the command policy: which command lines execute what is fed to them, and the
  removal of the bodies that are only data.
\<close>

section \<open>Interpreters\<close>

text \<open>The places of \<open>(?:^|[|;&]\s*)\<close>: the start of the line and after a separator and blanks.\<close>

fun after_separators :: "string \<Rightarrow> string list" where
  "after_separators [] = []"
| "after_separators (c # cs) =
     (if c \<in> set ''|;&'' then [dropWhile is_space cs] else []) @ after_separators cs"

text \<open>The ways to skip \<open>(?:\S*\/)?\<close>, the longest path first and the empty one last.\<close>

fun after_paths :: "string \<Rightarrow> string list" where
  "after_paths [] = []"
| "after_paths (c # cs) = (if is_space c then [] else after_paths cs @ (if c = CHR ''/'' then [cs] else []))"

definition skip_path :: "string \<Rightarrow> string list" where
  "skip_path s = after_paths s @ [s]"

definition word_ends :: "string \<Rightarrow> bool" where
  "word_ends r = (r = [] \<or> \<not> is_word (hd r))"

definition named_interpreter :: "string \<Rightarrow> bool" where
  "named_interpreter s =
     list_ex (\<lambda>n. startsWith s n \<and> word_ends (drop (length n) s))
       [''psql'', ''mysql'', ''mariadb'', ''sqlite'', ''sqlite3'', ''sqlcmd'', ''node'', ''perl'', ''ruby'']"

text \<open>\<open>python\d?(?:\.\d+)?\b\<close>.\<close>

definition dotted :: "string \<Rightarrow> string list" where
  "dotted r =
     (if startsWith r ''.'' \<and> takeWhile is_digit (tl r) \<noteq> [] then [dropWhile is_digit (tl r), r] else [r])"

definition python_interpreter :: "string \<Rightarrow> bool" where
  "python_interpreter s =
     (startsWith s ''python'' \<and>
      (let r = drop 6 s
       in list_ex word_ends (dotted r @ (if r \<noteq> [] \<and> is_digit (hd r) then dotted (tl r) else []))))"

text \<open>\<open>(?:ba|da|k|z)?sh((?:\s+[^|;&]*)?)\<close>: the captured arguments.\<close>

definition shell_args :: "string \<Rightarrow> (string \<times> string) option" where
  "shell_args s =
     (case List.find (startsWith s) [''bash'', ''dash'', ''ksh'', ''zsh'', ''sh''] of
        None \<Rightarrow> None
      | Some n \<Rightarrow>
          let r = drop (length n) s
          in if r \<noteq> [] \<and> is_space (hd r)
             then (let ws = takeWhile is_space r; a = takeWhile (\<lambda>c. c \<notin> set ''|;&'') (dropWhile is_space r)
                   in Some (ws @ a, drop (length ws + length a) r))
             else Some ([], r))"

definition match_shell_at :: "string \<Rightarrow> (string \<times> string) option" where
  "match_shell_at s =
     (case List.find (\<lambda>p. shell_args p \<noteq> None) (skip_path s) of None \<Rightarrow> None | Some p \<Rightarrow> shell_args p)"

definition match_shell :: "string \<Rightarrow> (string \<times> string) option" where
  "match_shell s =
     (case s of c # cs \<Rightarrow> if c \<in> set ''|;&'' then match_shell_at (dropWhile is_space cs) else None | [] \<Rightarrow> None)"

definition shell_matches :: "string \<Rightarrow> string list" where
  "shell_matches line =
     (case match_shell_at line of Some (a, r) \<Rightarrow> a # match_all match_shell r | None \<Rightarrow> match_all match_shell line)"

text \<open>\<open>/(?:^|\s)-[^-\s]*c(?:\s|$)/\<close>: an option word with \<open>c\<close> as its last letter.\<close>

definition c_option :: "string \<Rightarrow> bool" where
  "c_option w = (startsWith w ''-'' \<and> length w \<ge> 2 \<and> last w = CHR ''c'' \<and> CHR ''-'' \<notin> set (tl w))"

fun space_words :: "string \<Rightarrow> string \<Rightarrow> string list" where
  "space_words [] w = [w]"
| "space_words (c # cs) w = (if is_space c then w # space_words cs [] else space_words cs (w @ [c]))"

definition heredocRunsShell :: "string \<Rightarrow> bool" where
  "heredocRunsShell commandLine = list_ex (\<lambda>a. \<not> list_ex c_option (space_words a [])) (shell_matches commandLine)"

definition heredocRunsInterpreter :: "string \<Rightarrow> bool" where
  "heredocRunsInterpreter commandLine =
     (heredocRunsShell commandLine \<or>
      list_ex (\<lambda>s. list_ex (\<lambda>p. named_interpreter p \<or> python_interpreter p) (skip_path s))
        (commandLine # after_separators commandLine))"

section \<open>Finding a here-document\<close>

record heredoc =
  hd_full :: string
  hd_pre :: string
  hd_quoted :: bool
  hd_post :: string
  hd_body :: string

definition at_eol :: "string \<Rightarrow> bool" where
  "at_eol r = (r = [] \<or> hd r = NL \<or> hd r = CR)"

text \<open>\<open>\s*$\<close> after the delimiter: the longest run of blanks that ends at the end of a line.\<close>

definition blank_to_eol :: "string \<Rightarrow> string option" where
  "blank_to_eol r =
     List.find at_eol (map (\<lambda>n. drop n r) (rev [0..<Suc (length (takeWhile is_space r))]))"

text \<open>\<open>^\s*\3\s*$\<close> at the start of a line: the rest of the input.\<close>

definition closes :: "string \<Rightarrow> string \<Rightarrow> string option" where
  "closes delim s =
     (let r = dropWhile is_space s
      in if startsWith r delim then blank_to_eol (drop (length delim) r) else None)"

text \<open>The lazy body: the shortest one that ends where a line begins that closes the document.\<close>

fun find_body :: "string \<Rightarrow> bool \<Rightarrow> string \<Rightarrow> (string \<times> string) option" where
  "find_body delim bol s =
     (case (if bol then closes delim s else None) of
        Some r \<Rightarrow> Some ([], r)
      | None \<Rightarrow>
          (case s of
             [] \<Rightarrow> None
           | c # cs \<Rightarrow>
               (case find_body delim (c = NL \<or> c = CR) cs of Some (b, r) \<Rightarrow> Some (c # b, r) | None \<Rightarrow> None)))"

declare find_body.simps [simp del]

text \<open>What follows the delimiter: the rest of the line, a line break, and the body.\<close>

definition after_delimiter :: "string \<Rightarrow> string \<Rightarrow> (string \<times> string \<times> string) option" where
  "after_delimiter delim s =
     (let post = takeWhile (\<lambda>c. c \<noteq> NL) s; r = drop (length post) s
      in case r of
           [] \<Rightarrow> None
         | _ # b \<Rightarrow> (case find_body delim True b of Some (body, rest) \<Rightarrow> Some (post, body, rest) | None \<Rightarrow> None))"

text \<open>\<open><<-?\s*(["']?)([A-Za-z_]\w*)\2\<close> and what follows; an unquoted delimiter may be cut short.\<close>

definition heredoc_at :: "string \<Rightarrow> (bool \<times> string \<times> string \<times> string) option" where
  "heredoc_at s =
     (let r0 = drop 2 s; r1 = (if startsWith r0 ''-'' then tl r0 else r0); r = dropWhile is_space r1
      in case r of
           [] \<Rightarrow> None
         | q # t \<Rightarrow>
             if q = SQ \<or> q = DQ
             then (let d = takeWhile is_word t; u = drop (length d) t
                   in if d \<noteq> [] \<and> is_ident (hd d) \<and> startsWith u [q]
                      then (case after_delimiter d (tl u) of Some (p, b, rest) \<Rightarrow> Some (True, p, b, rest) | None \<Rightarrow> None)
                      else None)
             else if \<not> is_ident q then None
             else
               (case List.find (\<lambda>x. x \<noteq> None)
                       (map (\<lambda>n. after_delimiter (take n r) (drop n r)) (rev [1..<Suc (length (takeWhile is_word r))])) of
                  Some (Some (p, b, rest)) \<Rightarrow> Some (False, p, b, rest)
                | _ \<Rightarrow> None))"

text \<open>A here-document whose first line starts here, the last \<open><<\<close> of the line tried first.\<close>

definition match_heredoc :: "string \<Rightarrow> (heredoc \<times> string) option" where
  "match_heredoc s =
     (let line = takeWhile (\<lambda>c. c \<noteq> NL) s;
          ks = filter (\<lambda>k. startsWith (drop k s) ''<<'') (rev [0..<length line])
      in case List.find (\<lambda>k. heredoc_at (drop k s) \<noteq> None) ks of
           None \<Rightarrow> None
         | Some k \<Rightarrow>
             (case heredoc_at (drop k s) of
                None \<Rightarrow> None
              | Some (quoted, post, body, rest) \<Rightarrow>
                  Some (\<lparr>hd_full = take (length s - length rest) s, hd_pre = take k s, hd_quoted = quoted,
                         hd_post = post, hd_body = body\<rparr>, rest)))"

definition replace_heredoc :: "heredoc \<Rightarrow> string" where
  "replace_heredoc h =
     (if heredocRunsInterpreter (hd_pre h @ hd_post h) then hd_full h
      else if hd_quoted h then []
      else join '' '' (match_all match_substitution (hd_body h)))"

text \<open>The multi-line anchor holds at the start and after a line break.\<close>

function strip_from :: "bool \<Rightarrow> string \<Rightarrow> string" where
  "strip_from bol [] = []"
| "strip_from bol (c # cs) =
     (case (if bol then match_heredoc (c # cs) else None) of
        Some (h, rest) \<Rightarrow>
          if length rest \<le> length cs
          then replace_heredoc h @ strip_from (hd_full h \<noteq> [] \<and> last (hd_full h) \<in> {NL, CR}) rest
          else []
      | None \<Rightarrow> c # strip_from (c = NL \<or> c = CR) cs)"
  by pat_completeness auto
termination
  by (relation "measure (\<lambda>(b, s). length s)") auto

definition stripWrittenHeredocs :: "string \<Rightarrow> string" where
  "stripWrittenHeredocs command = strip_from True command"

end
