(* ===== verification/Shell_Segments.thy ===== *)
theory Shell_Segments
  imports Shell_Scan Heredocs
begin

text \<open>
  What a command line executes besides itself, in two parts: the payloads that one command hands to a shell
  or an SQL client, and the segments of a line with pipes and lists of commands.
\<close>

text \<open>
  What a command line executes besides itself: the payloads of \<open>bash -c\<close>, \<open>eval\<close>, \<open>env -S\<close>, pipes
  into a shell or an SQL client, here-strings and simple variables, through the wrappers \<open>sudo\<close>,
  \<open>env\<close>, \<open>nice\<close> and the like (\<open>src/policy/command-policy.ts\<close>). Positions in a list of words are
  natural numbers as in the source; where the source dispatches on the same wrappers in several
  functions, \<open>wrapper_rest\<close> holds the common part.
\<close>

section \<open>Where the command starts\<close>

text \<open>\<open>/^[A-Za-z_]\w*=/\<close>.\<close>

definition is_assignment :: "string \<Rightarrow> bool" where
  "is_assignment w = (w \<noteq> [] \<and> is_ident (hd w) \<and> startsWith (dropWhile is_word w) ''='')"

text \<open>\<open>/^\d*(?:>>?|<<?|<>|>&|<&)$/\<close> and the same followed by a target.\<close>

definition is_redirect :: "string \<Rightarrow> bool" where
  "is_redirect w = (dropWhile is_digit w \<in> {''>'', ''>>'', ''<'', ''<<'', ''<>'', ''>&'', ''<&''})"

definition is_redirect_to :: "string \<Rightarrow> bool" where
  "is_redirect_to w =
     (case dropWhile is_digit w of c # d # _ \<Rightarrow> c \<in> set ''<>'' \<and> d \<noteq> NL \<and> d \<noteq> CR | _ \<Rightarrow> False)"

fun commandStart :: "string list \<Rightarrow> nat" where
  "commandStart [] = 0"
| "commandStart (w # ws) =
     (if is_assignment w \<or> w \<in> {''if'', ''then'', ''elif'', ''else'', ''while'', ''until'', ''do'', ''!''}
      then Suc (commandStart ws)
      else if is_redirect w then (case ws of [] \<Rightarrow> 2 | _ # vs \<Rightarrow> Suc (Suc (commandStart vs)))
      else if is_redirect_to w then Suc (commandStart ws)
      else 0)"

text \<open>\<open>word.replace(/=.*/, "")\<close>: the dot stops at a line break.\<close>

definition option_name :: "string \<Rightarrow> string" where
  "option_name w =
     (case until (CHR ''='') w of None \<Rightarrow> w | Some (b, r) \<Rightarrow> b @ dropWhile (\<lambda>c. c \<noteq> NL \<and> c \<noteq> CR) r)"

fun optionCommand :: "string list \<Rightarrow> string list \<Rightarrow> nat" where
  "optionCommand [] valueOptions = 0"
| "optionCommand (w # ws) valueOptions =
     (if w = ''--'' then 1
      else if \<not> startsWith w ''-'' \<or> w = ''-'' then 0
      else if option_name w \<in> set valueOptions \<and> CHR ''='' \<notin> set w
      then (case ws of [] \<Rightarrow> 2 | _ # vs \<Rightarrow> Suc (Suc (optionCommand vs valueOptions)))
      else Suc (optionCommand ws valueOptions))"

definition executable_of :: "string \<Rightarrow> string" where
  "executable_of w = last (split_on (CHR ''/'') w)"

definition shells :: "string list" where
  "shells = [''bash'', ''sh'', ''dash'', ''zsh'', ''ksh'']"

definition shell_value_options :: "string list" where
  "shell_value_options = [''-O'', ''-o'', ''--rcfile'', ''--init-file'']"

definition sudo_options :: "string list" where
  "sudo_options = [''-u'', ''--user'', ''-g'', ''--group'', ''-h'', ''--host'', ''-p'', ''--prompt'', ''-C'', ''--chdir'',
     ''-T'', ''--command-timeout'', ''-R'', ''--chroot'', ''-t'', ''--type'']"

text \<open>The words left after a wrapper and its options, for the wrappers all the functions know.\<close>

definition wrapper_rest :: "string \<Rightarrow> string list \<Rightarrow> string list option" where
  "wrapper_rest ex args =
     (if ex = ''exec'' then Some (drop (optionCommand args [''-a'']) args)
      else if ex = ''sudo'' then Some (drop (optionCommand args sudo_options) args)
      else if ex = ''nice'' then Some (drop (optionCommand args [''-n'', ''--adjustment'']) args)
      else if ex = ''timeout'' then Some (drop (optionCommand args [''-s'', ''--signal'', ''-k'', ''--kill-after''] + 1) args)
      else if ex = ''time'' then Some (drop (optionCommand args [''-o'', ''--output'', ''-f'', ''--format'']) args)
      else if ex = ''nohup'' then Some (drop (optionCommand args []) args)
      else None)"

definition stdbuf_rest :: "string list \<Rightarrow> string list" where
  "stdbuf_rest args = drop (optionCommand args [''-i'', ''--input'', ''-o'', ''--output'', ''-e'', ''--error'']) args"

section \<open>\<open>env\<close>\<close>

definition split_option :: "string \<Rightarrow> bool" where
  "split_option a = (startsWith a ''-S'' \<or> a = ''--split-string'' \<or> startsWith a ''--split-string='')"

fun find_index :: "('a \<Rightarrow> bool) \<Rightarrow> 'a list \<Rightarrow> nat option" where
  "find_index p [] = None"
| "find_index p (x # xs) = (if p x then Some 0 else map_option Suc (find_index p xs))"

definition nth_opt :: "'a list \<Rightarrow> nat \<Rightarrow> 'a option" where
  "nth_opt xs n = (if n < length xs then Some (xs ! n) else None)"

definition splitStringPayload :: "string list \<Rightarrow> nat \<Rightarrow> string option \<times> string list" where
  "splitStringPayload args split =
     (let arg = args ! split;
          compact = (startsWith arg ''-S'' \<and> length arg > 2);
          eq = (CHR ''='' \<in> set arg);
          value = (if eq then Some (case until (CHR ''='') arg of Some (_, r) \<Rightarrow> r | None \<Rightarrow> [])
                   else if compact then Some (drop 2 arg) else nth_opt args (split + 1))
      in (value, drop (split + (if eq \<or> compact then 1 else 2)) args))"

definition first_command :: "string \<Rightarrow> string list option option" where
  "first_command s = map_option (\<lambda>sc. head_opt (sh_commands sc)) (scanShell s)"

text \<open>The outer option is the decoding error, the inner one tells whether there is a split string.\<close>

definition envSplitWords :: "string list \<Rightarrow> string list option option" where
  "envSplitWords args =
     (case find_index split_option args of
        None \<Rightarrow> Some None
      | Some i \<Rightarrow>
          (case splitStringPayload args i of
             (None, rest) \<Rightarrow> Some (Some [])
           | (Some value, rest) \<Rightarrow> map_option (\<lambda>c. Some (or_else c [])) (first_command (join '' '' (value # rest)))))"

definition env_rest :: "string list \<Rightarrow> string list \<Rightarrow> string list" where
  "env_rest options args = dropWhile is_assignment (drop (optionCommand args options) args)"

definition env_options :: "string list" where
  "env_options = [''-u'', ''--unset'', ''-C'', ''--chdir'', ''-S'', ''--split-string'']"

section \<open>Pipelines\<close>

definition finish_segment :: "string \<Rightarrow> string list \<Rightarrow> string list" where
  "finish_segment seg pipeline = (if trim seg \<noteq> [] then pipeline @ [trim seg] else pipeline)"

definition finish_pipeline :: "string \<Rightarrow> string list \<Rightarrow> string list list \<Rightarrow> string list list" where
  "finish_pipeline seg pipeline pipelines =
     (let p = finish_segment seg pipeline in if length p > 1 then pipelines @ [p] else pipelines)"

text \<open>One round: keep \<open>1 + n\<close> characters in the segment, or end a segment or a pipeline after \<open>1 + n\<close>.\<close>

datatype pipeline_round = KeepOn nat "char option" | EndSegment nat | EndPipeline nat

definition pipeline_move :: "char option \<Rightarrow> char \<Rightarrow> string \<Rightarrow> pipeline_round" where
  "pipeline_move quote c cs =
     (if c = BS then KeepOn 1 quote
      else if quote \<noteq> None then KeepOn 0 (if quote = Some c then None else quote)
      else if c = SQ \<or> c = DQ \<or> c = BQ then KeepOn 0 (Some c)
      else if (c = CHR ''|'' \<or> c = CHR ''&'') \<and> startsWith cs [c] then EndPipeline 1
      else if c = CHR ''|'' then EndSegment (if startsWith cs ''&'' then 1 else 0)
      else if c = CHR '';'' \<or> c = NL \<or> c = CHR ''&'' then EndPipeline 0
      else KeepOn 0 quote)"

function pipeline_loop :: "string \<Rightarrow> char option \<Rightarrow> string \<Rightarrow> string list \<Rightarrow> string list list \<Rightarrow> string list list" where
  "pipeline_loop [] quote seg pipeline pipelines = finish_pipeline seg pipeline pipelines"
| "pipeline_loop (c # cs) quote seg pipeline pipelines =
     (case pipeline_move quote c cs of
        KeepOn n quote' \<Rightarrow> pipeline_loop (drop n cs) quote' (seg @ c # take n cs) pipeline pipelines
      | EndSegment n \<Rightarrow> pipeline_loop (drop n cs) quote [] (finish_segment seg pipeline) pipelines
      | EndPipeline n \<Rightarrow> pipeline_loop (drop n cs) quote [] [] (finish_pipeline seg pipeline pipelines))"
  by pat_completeness auto
termination
  by (relation "measure (\<lambda>(s, q, g, p, ps). length s)") auto

definition shellPipelines :: "string \<Rightarrow> string list list" where
  "shellPipelines input = pipeline_loop input None [] [] []"

text \<open>
  The functions that look through wrappers for what a segment executes. They recurse on the words
  behind a wrapper, or on the words of a split string, which are fewer characters in all: the
  tokenizer never produces more than it reads.
\<close>

section \<open>The tokenizer produces no more than it reads\<close>

lemma replace_all_length:
  assumes f: "\<And>s a r. f s = Some (Some a, r) \<Longrightarrow> length a + length r \<le> length s"
  shows "replace_all f s = Some t \<Longrightarrow> length t \<le> length s"
proof (induction "length s" arbitrary: s t rule: less_induct)
  case less
  show ?case
  proof (cases s)
    case (Cons c cs)
    show ?thesis
    proof (cases "f s")
      case None
      then show ?thesis using less Cons by auto
    next
      case (Some ar)
      then obtain a r u where "f s = Some (Some a, r)" "replace_all f r = Some u" "t = a @ u" "length r \<le> length cs"
        using less.prems Cons by (cases ar) (auto split: if_splits option.splits)
      then show ?thesis using less.hyps [of r u] f [of s a r] Cons by simp
    qed
  qed (use less in simp)
qed

lemma digits_length: "digits d n s = (vs, r) \<Longrightarrow> length vs + length r = length s"
  by (induction d n s arbitrary: vs rule: digits.induct) (auto split: option.splits prod.splits)

lemma numeric_escape_length:
  "numeric_escape (BS # p) d base m n s = Some (Some a, r) \<Longrightarrow> length a + length r \<le> length s"
  by (auto simp: numeric_escape_def code_unit_def startsWith_iff dest!: digits_length split: if_splits prod.splits)

lemma named_escape_length: "named_escape s = Some (Some a, r) \<Longrightarrow> length a + length r \<le> length s"
  by (auto simp: named_escape_def split: list.splits if_splits option.splits)

lemma numeric_replace_length:
  "replace_all (numeric_escape (BS # p) d base m n) s = Some t \<Longrightarrow> length t \<le> length s"
  by (rule replace_all_length [OF numeric_escape_length])

lemma decodeAnsiC_length:
  assumes "decodeAnsiC s = Some t"
  shows "length t \<le> length s"
proof -
  from assms obtain v1 v2 v3 v4 where
    "replace_all (numeric_escape [BS, CHR ''x''] hex_digit 16 1 2) s = Some v1"
    "replace_all (numeric_escape [BS, CHR ''u''] hex_digit 16 4 4) v1 = Some v2"
    "replace_all (numeric_escape [BS, CHR ''U''] hex_digit 16 8 8) v2 = Some v3"
    "replace_all (numeric_escape [BS] octal_digit 8 1 3) v3 = Some v4" "replace_all named_escape v4 = Some t"
    unfolding decodeAnsiC_def bind_eq_Some_conv by blast
  from this(1-4) [THEN numeric_replace_length]
    replace_all_length [OF named_escape_length this(5)]
  show ?thesis by simp
qed

lemma double_step_size: "double_step c cs = (r, a, m) \<Longrightarrow> length a + length r \<le> Suc (length cs)"
  by (auto simp: double_step_def split: if_splits option.splits dest!: commandSubstitution_length until_length)

lemma double_loop_size: "double_loop s w n = (r, w', n') \<Longrightarrow> length w' + length r \<le> length w + length s"
proof (induction s w n rule: double_loop.induct)
  case (2 c cs w n)
  show ?case
  proof (cases "c = DQ")
    case False
    obtain q a m where d: "double_step c cs = (q, a, m)" by (cases "double_step c cs")
    have "length w' + length r \<le> length (w @ a) + length q" using 2 False d by simp
    with double_step_size [OF d] show ?thesis by simp
  qed (use 2 in simp)
qed simp

lemma word_step_size: "word_step c cs = Some (r, a, b, m) \<Longrightarrow> length a + length r \<le> Suc (length cs)"
  unfolding word_step_def
  by (auto split: if_split_asm option.split_asm prod.split_asm
      dest!: commandSubstitution_length until_length double_loop_size decodeAnsiC_length)

lemma word_loop_size:
  "word_loop s w started n = Some (r, w', started', n') \<Longrightarrow>
     length w' + length r \<le> length w + length s \<and> (r = [] \<or> is_space (hd r) \<or> is_special (hd r))"
proof (induction s w started n rule: word_loop.induct)
  case (2 c cs w started n)
  show ?case
  proof (cases "word_stops c w")
    case True
    then show ?thesis using 2 by (auto simp: word_stops_def)
  next
    case False
    with "2.prems" obtain q a b m where d: "word_step c cs = Some (q, a, b, m)" by (auto split: option.splits)
    have "length w' + length r \<le> length (w @ a) + length q \<and> (r = [] \<or> is_space (hd r) \<or> is_special (hd r))"
      using 2 False d by simp
    with word_step_size [OF d] show ?thesis by simp
  qed
qed simp

definition words_size :: "string list \<Rightarrow> nat" where
  "words_size ws = sum_list (map (\<lambda>w. Suc (length w)) ws)"

lemma words_size_simps [simp]: "words_size [] = 0" "words_size (w # ws) = Suc (length w) + words_size ws"
  "words_size (us @ vs) = words_size us + words_size vs"
  by (simp_all add: words_size_def)

text \<open>Before a word a blank or a separator was read, or nothing.\<close>

definition room :: "nat \<Rightarrow> string list \<Rightarrow> string \<Rightarrow> bool" where
  "room K words s =
     (words_size words + length s + (if s = [] \<or> is_space (hd s) \<or> is_special (hd s) then 0 else 1) \<le> K)"

lemma room_tl: "room K words (c # cs) \<Longrightarrow> length r \<le> length cs \<Longrightarrow> room K words r"
  by (auto simp: room_def split: if_splits)

lemma room_flush: "room K words s \<Longrightarrow> words_size words \<le> K"
  by (simp add: room_def)

lemma room_Nil: "room K words (c # cs) \<Longrightarrow> length r \<le> length cs \<Longrightarrow> room K [] r"
  by (auto simp: room_def split: if_splits)

lemma scan_loop_size:
  "scan_loop s words commands n = Some sc \<Longrightarrow> room K words s \<Longrightarrow> \<forall>c\<in>set commands. words_size c \<le> K \<Longrightarrow>
     \<forall>c\<in>set (sh_commands sc). words_size c \<le> K"
proof (induction s words commands n rule: scan_loop.induct)
  case (1 words commands n)
  then show ?case by (auto simp: flush_def dest: room_flush split: if_splits)
next
  case (2 c cs words commands n)
  have fl: "\<forall>c\<in>set (flush words commands). words_size c \<le> K"
    using "2.prems"(3) room_flush [OF "2.prems"(2)] by (auto simp: flush_def)
  consider "is_space c" "c = NL" | "is_space c" "c \<noteq> NL" | "\<not> is_space c" "c = CHR ''#'' \<and> words = []"
    | "\<not> is_space c" "\<not> (c = CHR ''#'' \<and> words = [])" "is_special c"
    | "\<not> is_space c" "\<not> (c = CHR ''#'' \<and> words = [])" "\<not> is_special c" by blast
  then show ?case
  proof cases
    case 1
    then show ?thesis using 2 fl room_Nil [OF "2.prems"(2), of cs] by simp
  next
    case blank: 2
    then show ?thesis using 2 room_tl [OF "2.prems"(2), of cs] by simp
  next
    case 3
    then show ?thesis using 2 room_tl [OF "2.prems"(2), of "dropWhile (\<lambda>d. d \<noteq> NL) cs"] by (simp add: length_dropWhile_le)
  next
    case 4
    then have "scan_loop (dropWhile is_special cs) [] (flush words commands) n = Some sc"
      using "2.prems"(1) by (auto split: if_splits)
    then show ?thesis
      using "2.IH"(4) [OF 4 _ room_Nil [OF "2.prems"(2)] fl] by (simp add: length_dropWhile_le)
  next
    case 5
    have eq0: "(case word_loop (c # cs) [] False n of None \<Rightarrow> None
        | Some (r, w, started, n') \<Rightarrow> scan_loop r (if started then words @ [w] else words) commands n') = Some sc"
      using "2.prems"(1) 5 by (simp only: scan_loop.simps if_False simp_thms)
    then obtain r w started n' where w: "word_loop (c # cs) [] False n = Some (r, w, started, n')"
      by (simp only: split: option.splits prod.splits) blast
    have eq: "scan_loop r (if started then words @ [w] else words) commands n' = Some sc"
      using "2.prems"(1) 5 w by (auto simp del: word_loop.simps split: if_splits)
    have "room K (if started then words @ [w] else words) r"
      using word_loop_size [OF w] "2.prems"(2) 5 by (auto simp: room_def)
    then show ?thesis using "2.IH"(5) [OF 5 w refl refl refl eq _ "2.prems"(3)] by blast
  qed
qed

lemma scanShell_size:
  assumes "scanShell s = Some sc" "c \<in> set (sh_commands sc)"
  shows "words_size c \<le> length s + 1"
proof -
  have "room (length s + 1) [] s" by (simp add: room_def)
  then show ?thesis using scan_loop_size [of s "[]" "[]" "[]" sc "length s + 1"] assms by (simp add: scanShell_def)
qed

lemma join_length: "length (join [SP] ws) + 1 = words_size ws \<or> ws = []"
  by (induction "[SP]" ws rule: join.induct) auto

lemma words_size_drop: "words_size (drop n ws) \<le> words_size ws"
  by (metis append_take_drop_id le_add2 words_size_simps(3))

lemma words_size_dropWhile: "words_size (dropWhile p ws) \<le> words_size ws"
  by (induction ws) auto

lemma words_size_nth: "n < length ws \<Longrightarrow> words_size (drop (Suc n) ws) + Suc (length (ws ! n)) \<le> words_size ws"
  by (metis Cons_nth_drop_Suc add.commute words_size_drop words_size_simps(2))

lemma find_index_Some: "find_index p xs = Some i \<Longrightarrow> i < length xs \<and> p (xs ! i)"
  by (induction xs arbitrary: i) (auto split: if_splits)

lemma splitStringPayload_size:
  assumes "i < length args" "splitStringPayload args i = (Some v, rest)"
  shows "words_size (v # rest) \<le> words_size args"
proof -
  let ?a = "args ! i"
  have sz: "words_size (drop (Suc i) args) + Suc (length ?a) \<le> words_size args" by (rule words_size_nth [OF assms(1)])
  show ?thesis
  proof (cases "CHR ''='' \<in> set ?a \<or> startsWith ?a ''-S'' \<and> length ?a > 2")
    case True
    then have "rest = drop (Suc i) args" "length v \<le> length ?a"
      using assms(2) by (auto simp: splitStringPayload_def Let_def split: if_splits option.splits dest!: until_length)
    then show ?thesis using sz by simp
  next
    case False
    then have v: "Suc i < length args" "v = args ! Suc i" "rest = drop (Suc (Suc i)) args"
      using assms(2) by (auto simp: splitStringPayload_def Let_def nth_opt_def split: if_splits)
    then have "drop (Suc i) args = v # rest" by (simp add: Cons_nth_drop_Suc)
    then show ?thesis using sz by simp
  qed
qed

lemma envSplitWords_size: "envSplitWords args = Some (Some ws) \<Longrightarrow> words_size ws \<le> words_size args"
proof -
  assume h: "envSplitWords args = Some (Some ws)"
  then obtain i where i: "find_index split_option args = Some i" by (cases "find_index split_option args") (auto simp: envSplitWords_def)
  obtain v rest where sp: "splitStringPayload args i = (v, rest)" by force
  show ?thesis
  proof (cases v)
    case None
    then show ?thesis using h i sp by (simp add: envSplitWords_def)
  next
    case (Some x)
    then obtain c where c: "first_command (join [SP] (x # rest)) = Some c" "ws = or_else c []"
      using h i sp by (auto simp: envSplitWords_def)
    show ?thesis
    proof (cases c)
      case (Some cmd)
      then obtain sc where "scanShell (join [SP] (x # rest)) = Some sc" "cmd \<in> set (sh_commands sc)"
        using c(1) by (auto simp: first_command_def dest: head_opt_in)
      then have "words_size cmd \<le> length (join [SP] (x # rest)) + 1" by (rule scanShell_size)
      then have "words_size cmd \<le> words_size (x # rest)" using join_length [of "x # rest"] by simp
      then show ?thesis
        using splitStringPayload_size [of i args x rest] find_index_Some [OF i] sp \<open>v = Some x\<close> c(2) Some by simp
    qed (use c in simp)
  qed
qed

end
