(* ===== verification/Shell_Walk.thy ===== *)
theory Shell_Walk
  imports Shell_Segments
begin

text \<open>
  The walks of \<open>src/policy/command-policy.ts\<close> through the wrappers of one command: does it execute
  its standard input, what literal text does it print, which word is its executable, and which shell
  text does it execute. Each walk is a step on the executable and its arguments that either answers
  or names the words to go on with, and a recursion that follows the steps. The result \<open>None\<close> of a
  walk is the exception of an escape that denotes no character.
\<close>

datatype 'a look = Answer 'a | Through "string list"

text \<open>The executable and the arguments of a command, if it has one.\<close>

definition segment_head :: "string list \<Rightarrow> (string \<times> string list) option" where
  "segment_head words =
     (let start = commandStart words
      in if start \<ge> length words then None
         else Some (executable_of (words ! start), drop (start + 1) words))"

lemma segment_head_size: "segment_head words = Some (ex, args) \<Longrightarrow> words_size args < words_size words"
  using words_size_nth [of "commandStart words" words]
  by (auto simp: segment_head_def Let_def split: if_splits)

lemma wrapper_rest_size: "wrapper_rest ex args = Some ws \<Longrightarrow> words_size ws \<le> words_size args"
  by (auto simp: wrapper_rest_def words_size_drop split: if_splits)

lemma env_rest_size: "words_size (env_rest options args) \<le> words_size args"
  unfolding env_rest_def using words_size_dropWhile words_size_drop le_trans by blast

text \<open>\<open>/^-[^-]*c/\<close>.\<close>

definition dash_c :: "string \<Rightarrow> bool" where
  "dash_c a = (startsWith a ''-'' \<and> CHR ''c'' \<in> set (takeWhile (\<lambda>c. c \<noteq> CHR ''-'') (tl a)))"

section \<open>Does a command execute its standard input\<close>

definition stdinScripts :: "string list" where
  "stdinScripts = [''-'', ''/dev/stdin'', ''/dev/fd/0'', ''/proc/self/fd/0'']"

fun shell_stdin :: "string list \<Rightarrow> bool" where
  "shell_stdin [] = True"
| "shell_stdin (arg # rest) =
     (if dash_c arg then False
      else if arg = ''-s'' then True
      else if arg \<in> set shell_value_options then (case rest of [] \<Rightarrow> True | _ # vs \<Rightarrow> shell_stdin vs)
      else if arg = ''--'' then (case rest of [] \<Rightarrow> True | v # _ \<Rightarrow> v \<in> set stdinScripts)
      else if \<not> startsWith arg ''-'' \<or> arg = ''-'' then arg \<in> set stdinScripts
      else shell_stdin rest)"

definition stdin_step :: "string \<Rightarrow> string list \<Rightarrow> bool look option" where
  "stdin_step executable args =
     (if executable \<in> set shells then Some (Answer (shell_stdin args))
      else if executable = ''env''
      then map_option (\<lambda>split. Through (or_else split (env_rest env_options args))) (envSplitWords args)
      else if executable = ''command'' then Some (Through (drop (optionCommand args []) args))
      else if executable = ''stdbuf'' then Some (Through (stdbuf_rest args))
      else Some (case wrapper_rest executable args of Some ws \<Rightarrow> Through ws | None \<Rightarrow> Answer False))"

lemma stdin_step_size: "stdin_step ex args = Some (Through ws) \<Longrightarrow> words_size ws \<le> words_size args"
  by (auto simp: stdin_step_def stdbuf_rest_def words_size_drop or_else_def
      intro: envSplitWords_size wrapper_rest_size env_rest_size split: if_splits option.splits)

function segmentConsumesShellStdin :: "string list \<Rightarrow> bool option" where
  "segmentConsumesShellStdin words =
     (case segment_head words of
        None \<Rightarrow> Some False
      | Some (executable, args) \<Rightarrow>
          (case stdin_step executable args of
             None \<Rightarrow> None
           | Some (Answer b) \<Rightarrow> Some b
           | Some (Through ws) \<Rightarrow> segmentConsumesShellStdin ws))"
  by pat_completeness auto
termination
  by (relation "measure words_size") (auto dest!: segment_head_size stdin_step_size)

declare segmentConsumesShellStdin.simps [simp del]

section \<open>What a command prints literally\<close>

text \<open>The words after the options of \<open>command\<close>; none if it only looks a name up.\<close>

fun command_rest :: "string list \<Rightarrow> string list option" where
  "command_rest [] = Some []"
| "command_rest (a # as) =
     (if a = ''--'' then Some as
      else if a = ''-v'' \<or> a = ''-V'' then None
      else if a \<noteq> ''-p'' then Some (a # as)
      else command_rest as)"

lemma command_rest_size: "command_rest args = Some ws \<Longrightarrow> words_size ws \<le> words_size args"
  by (induction args) (auto split: if_splits)

text \<open>\<open>/^-[neE]+$/\<close>.\<close>

definition echo_option :: "string \<Rightarrow> bool" where
  "echo_option a = (startsWith a ''-'' \<and> tl a \<noteq> [] \<and> list_all (\<lambda>c. c \<in> set ''neE'') (tl a))"

fun echo_flags :: "string \<Rightarrow> bool \<Rightarrow> bool" where
  "echo_flags [] decode = decode"
| "echo_flags (c # cs) decode =
     echo_flags cs (if c = CHR ''e'' then True else if c = CHR ''E'' then False else decode)"

fun echo_loop :: "string list \<Rightarrow> bool \<Rightarrow> bool \<times> string list" where
  "echo_loop [] decode = (decode, [])"
| "echo_loop (a # as) decode =
     (if echo_option a then echo_loop as (echo_flags (tl a) decode) else (decode, a # as))"

definition echo_payload :: "string list \<Rightarrow> string option" where
  "echo_payload args =
     (case echo_loop args False of (decode, rest) \<Rightarrow>
        if decode then decodeAnsiC (join '' '' rest) else Some (join '' '' rest))"

text \<open>The rendering of \<open>/%([%sb])/g\<close> and the values it has not used.\<close>

fun printf_render :: "string \<Rightarrow> string list \<Rightarrow> (string \<times> string list) option" where
  "printf_render [] values = Some ([], values)"
| "printf_render [c] values = Some ([c], values)"
| "printf_render (c # d # cs) values =
     (if c = CHR ''%'' \<and> d = CHR ''%'' then map_option (apfst (Cons d)) (printf_render cs values)
      else if c = CHR ''%'' \<and> (d = CHR ''s'' \<or> d = CHR ''b'')
      then (let value = or_else (head_opt values) []
            in case (if d = CHR ''b'' then decodeAnsiC value else Some value) of
                 None \<Rightarrow> None
               | Some v \<Rightarrow> map_option (apfst ((@) v)) (printf_render cs (tl values)))
      else map_option (apfst (Cons c)) (printf_render (d # cs) values))"

definition printf_payload :: "string \<Rightarrow> string list \<Rightarrow> string option" where
  "printf_payload format vals =
     Option.bind (decodeAnsiC format) (\<lambda>f.
       map_option (\<lambda>(rendered, rest). join [NL] (rendered # rest @ [join '' '' (format # vals)])) (printf_render f vals))"

definition printed :: "string \<Rightarrow> string list \<Rightarrow> string option option" where
  "printed executable args0 =
     (let args = (if head_opt args0 = Some ''--'' then tl args0 else args0)
      in if executable = ''echo'' then map_option Some (echo_payload args)
         else if executable \<noteq> ''printf'' \<or> args = [] then Some None
         else map_option Some (printf_payload (hd args) (tl args)))"

definition producer_env_options :: "string list" where
  "producer_env_options = [''-u'', ''--unset'', ''-C'', ''--chdir'']"

definition producer_step :: "string \<Rightarrow> string list \<Rightarrow> string option look option" where
  "producer_step executable args =
     (if executable = ''command''
      then Some (case command_rest args of None \<Rightarrow> Answer None | Some ws \<Rightarrow> Through ws)
      else if executable = ''builtin''
      then Some (case args of
             [] \<Rightarrow> Through []
           | a # as \<Rightarrow> if startsWith a ''-'' \<and> a \<noteq> ''--'' then Answer None
                       else Through (if a = ''--'' then as else a # as))
      else if executable = ''env''
      then map_option (\<lambda>split. Through (or_else split (env_rest producer_env_options args))) (envSplitWords args)
      else if executable = ''stdbuf'' then Some (Through (stdbuf_rest args))
      else (case wrapper_rest executable args of
              Some ws \<Rightarrow> Some (Through ws) | None \<Rightarrow> map_option Answer (printed executable args)))"

lemma producer_step_size: "producer_step ex args = Some (Through ws) \<Longrightarrow> words_size ws \<le> words_size args"
  by (auto simp: producer_step_def stdbuf_rest_def words_size_drop or_else_def
      intro: envSplitWords_size wrapper_rest_size env_rest_size command_rest_size split: if_splits option.splits list.splits)

function literalProducerPayload :: "string list \<Rightarrow> string option option" where
  "literalProducerPayload words =
     (case segment_head words of
        None \<Rightarrow> Some None
      | Some (executable, args) \<Rightarrow>
          (case producer_step executable args of
             None \<Rightarrow> None
           | Some (Answer p) \<Rightarrow> Some p
           | Some (Through ws) \<Rightarrow> literalProducerPayload ws))"
  by pat_completeness auto
termination
  by (relation "measure words_size") (auto dest!: segment_head_size producer_step_size)

declare literalProducerPayload.simps [simp del]

section \<open>Which word is the executable\<close>

definition wrapper_next :: "string \<Rightarrow> string list \<Rightarrow> nat option" where
  "wrapper_next executable args =
     (if executable = ''command'' \<or> executable = ''nohup'' then Some (optionCommand args [])
      else if executable = ''exec'' then Some (optionCommand args [''-a''])
      else if executable = ''env''
      then (let next = optionCommand args env_options
            in Some (next + length (takeWhile is_assignment (drop next args))))
      else if executable = ''sudo'' then Some (optionCommand args sudo_options)
      else if executable = ''nice'' then Some (optionCommand args [''-n'', ''--adjustment''])
      else if executable = ''timeout'' then Some (optionCommand args [''-s'', ''--signal'', ''-k'', ''--kill-after''] + 1)
      else if executable = ''time'' then Some (optionCommand args [''-o'', ''--output'', ''-f'', ''--format''])
      else if executable = ''stdbuf''
      then Some (optionCommand args [''-i'', ''--input'', ''-o'', ''--output'', ''-e'', ''--error''])
      else None)"

function executableIndex :: "string list \<Rightarrow> nat \<Rightarrow> nat option" where
  "executableIndex words offset =
     (case segment_head words of
        None \<Rightarrow> None
      | Some (executable, args) \<Rightarrow>
          (case wrapper_next executable args of
             None \<Rightarrow> Some (offset + commandStart words)
           | Some next \<Rightarrow> executableIndex (drop next args) (offset + commandStart words + 1 + next)))"
  by pat_completeness auto
termination
  by (relation "measure (\<lambda>(words, offset). words_size words)")
    (auto dest!: segment_head_size intro: le_less_trans [OF words_size_drop])

declare executableIndex.simps [simp del]

section \<open>Which shell text a command executes\<close>

fun shell_payload :: "string list \<Rightarrow> string list" where
  "shell_payload [] = []"
| "shell_payload (a # as) =
     (if a = ''--'' \<or> \<not> startsWith a ''-'' then []
      else if a \<in> set shell_value_options then (case as of [] \<Rightarrow> [] | _ # vs \<Rightarrow> shell_payload vs)
      else if dash_c a then (case as of [] \<Rightarrow> [] | v # _ \<Rightarrow> [v])
      else shell_payload as)"

definition xargs_options :: "string list" where
  "xargs_options = [''-a'', ''--arg-file'', ''-d'', ''--delimiter'', ''-E'', ''--eof'', ''-I'', ''--replace'', ''-L'', ''--max-lines'',
     ''-n'', ''--max-args'', ''-P'', ''--max-procs'', ''-s'', ''--max-chars'']"

definition env_payload :: "string list \<Rightarrow> string list look" where
  "env_payload args =
     (case find_index split_option args of
        Some i \<Rightarrow>
          (case splitStringPayload args i of
             (None, rest) \<Rightarrow> Answer []
           | (Some value, rest) \<Rightarrow> Answer [join '' '' (value # rest)])
      | None \<Rightarrow> Through (env_rest env_options args))"

definition payload_step :: "string \<Rightarrow> string list \<Rightarrow> string list look" where
  "payload_step executable args =
     (if executable \<in> set shells then Answer (shell_payload args)
      else if executable = ''eval'' then Answer (if args \<noteq> [] then [join '' '' args] else [])
      else if executable = ''env'' then env_payload args
      else if executable = ''command'' then (case command_rest args of None \<Rightarrow> Answer [] | Some ws \<Rightarrow> Through ws)
      else if executable = ''coproc'' then Through args
      else if executable = ''xargs'' then Through (drop (optionCommand args xargs_options) args)
      else (case wrapper_rest executable args of Some ws \<Rightarrow> Through ws | None \<Rightarrow> Answer []))"

lemma payload_step_size: "payload_step ex args = Through ws \<Longrightarrow> words_size ws \<le> words_size args"
  by (auto simp: payload_step_def env_payload_def words_size_drop
      intro: wrapper_rest_size env_rest_size command_rest_size split: if_splits option.splits prod.splits)

function segmentShellPayloads :: "string list \<Rightarrow> string list" where
  "segmentShellPayloads words =
     (case segment_head words of
        None \<Rightarrow> []
      | Some (executable, args) \<Rightarrow>
          (case payload_step executable args of Answer ps \<Rightarrow> ps | Through ws \<Rightarrow> segmentShellPayloads ws))"
  by pat_completeness auto
termination
  by (relation "measure words_size") (auto dest!: segment_head_size payload_step_size)

declare segmentShellPayloads.simps [simp del]

end
