(* ===== verification/Command_Scan.thy ===== *)
theory Command_Scan
  imports Shell_Walk
begin

text \<open>
  The text of a command that the rules of a command policy are run on (\<open>scannableCommand\<close> of
  \<open>src/policy/command-policy.ts\<close>): the command with its quotes reduced, and, up to eight levels deep,
  the scannable text of everything the command executes. \<open>None\<close> is an exception of the source.
\<close>

section \<open>Collecting payloads\<close>

primrec collect :: "('a \<Rightarrow> 'b list option) \<Rightarrow> 'a list \<Rightarrow> 'b list option" where
  "collect f [] = Some []"
| "collect f (x # xs) = Option.bind (f x) (\<lambda>ys. map_option ((@) ys) (collect f xs))"

lemma collect_member: "collect f xs = Some zs \<Longrightarrow> x \<in> set xs \<Longrightarrow> \<exists>ys. f x = Some ys \<and> set ys \<subseteq> set zs"
  by (induction xs arbitrary: zs) (fastforce simp: bind_eq_Some_conv)+

lemma collect_total: "(\<And>x. x \<in> set xs \<Longrightarrow> f x \<noteq> None) \<Longrightarrow> collect f xs \<noteq> None"
  by (induction xs) (auto simp: bind_eq_None_conv)

fun neighbours :: "'a list \<Rightarrow> ('a \<times> 'a) list" where
  "neighbours (x # y # r) = (x, y) # neighbours (y # r)"
| "neighbours _ = []"

text \<open>\<open>if (payload) payloads.push(payload)\<close>.\<close>

definition nonempty :: "string option \<Rightarrow> string list" where
  "nonempty p = (case p of None \<Rightarrow> [] | Some s \<Rightarrow> if s = [] then [] else [s])"

section \<open>Pipes\<close>

text \<open>The literal output of the last command of a segment.\<close>

definition produced :: "string \<Rightarrow> string list option" where
  "produced segment =
     Option.bind (scanShell segment) (\<lambda>sc.
       case last_opt (sh_commands sc) of
         None \<Rightarrow> Some []
       | Some producer \<Rightarrow> map_option nonempty (literalProducerPayload producer))"

definition piped :: "(string list \<Rightarrow> bool option) \<Rightarrow> string \<times> string \<Rightarrow> string list option" where
  "piped consumes pair =
     Option.bind (first_command (snd pair)) (\<lambda>consumer.
       case consumer of
         None \<Rightarrow> Some []
       | Some words \<Rightarrow> Option.bind (consumes words) (\<lambda>b. if b then produced (fst pair) else Some []))"

definition pipedShellPayloads :: "string \<Rightarrow> string list option" where
  "pipedShellPayloads input =
     collect (piped segmentConsumesShellStdin) (concat (map neighbours (shellPipelines input)))"

section \<open>Here-strings\<close>

text \<open>One round: how many more characters are read, what is written, and the quote after it.\<close>

definition spaced_move :: "char option \<Rightarrow> char \<Rightarrow> string \<Rightarrow> nat \<times> string \<times> char option" where
  "spaced_move quote c cs =
     (if c = BS then (1, c # take 1 cs, quote)
      else if quote \<noteq> None then (0, [c], if quote = Some c then None else quote)
      else if c = SQ \<or> c = DQ \<or> c = BQ then (0, [c], Some c)
      else if startsWith (c # cs) ''<<<'' then (2, '' <<< '', quote)
      else (0, [c], quote))"

function spaced_loop :: "string \<Rightarrow> char option \<Rightarrow> string" where
  "spaced_loop [] quote = []"
| "spaced_loop (c # cs) quote =
     (case spaced_move quote c cs of (n, out, quote') \<Rightarrow> out @ spaced_loop (drop n cs) quote')"
  by pat_completeness auto
termination
  by (relation "measure (\<lambda>(s, q). length s)") auto

definition here_string :: "string list \<Rightarrow> string list option" where
  "here_string words =
     (case find_index (\<lambda>w. w = ''<<<'') words of
        None \<Rightarrow> Some []
      | Some redirect \<Rightarrow>
          if redirect = 0 then Some []
          else map_option (\<lambda>b. if b then nonempty (nth_opt words (redirect + 1)) else [])
                 (segmentConsumesShellStdin (take redirect words)))"

definition hereStringShellPayloads :: "string \<Rightarrow> string list option" where
  "hereStringShellPayloads input =
     Option.bind (scanShell (spaced_loop input None)) (\<lambda>sc. collect here_string (sh_commands sc))"

section \<open>Simple variables\<close>

text \<open>\<open>/^([A-Za-z_]\w*)=([\w./-]+)$/\<close>.\<close>

definition simple_assignment :: "string \<Rightarrow> (string \<times> string) option" where
  "simple_assignment w =
     (if is_assignment w
      then (let name = takeWhile is_word w; v = drop (length name + 1) w
            in if v \<noteq> [] \<and> list_all (\<lambda>c. is_word c \<or> c \<in> set ''./-'') v then Some (name, v) else None)
      else None)"

definition is_name :: "string \<Rightarrow> bool" where
  "is_name s = (s \<noteq> [] \<and> is_ident (hd s) \<and> list_all is_word s)"

text \<open>\<open>/^\$(?:\{([A-Za-z_]\w*)\}|([A-Za-z_]\w*))$/\<close>.\<close>

definition variable_name :: "string \<Rightarrow> string option" where
  "variable_name w =
     (if startsWith w ''${'' \<and> endsWith w ''}'' \<and> is_name (butlast (drop 2 w)) then Some (butlast (drop 2 w))
      else if startsWith w ''$'' \<and> is_name (tl w) then Some (tl w) else None)"

definition assign_word :: "(string \<rightharpoonup> string) \<Rightarrow> string \<Rightarrow> (string \<rightharpoonup> string)" where
  "assign_word values w = (case simple_assignment w of Some (n, v) \<Rightarrow> values(n \<mapsto> v) | None \<Rightarrow> values)"

fun variable_loop :: "string list list \<Rightarrow> (string \<rightharpoonup> string) \<Rightarrow> string list" where
  "variable_loop [] values = []"
| "variable_loop (words # rest) values =
     (if commandStart words \<ge> length words then variable_loop rest (foldl assign_word values words)
      else (case executableIndex words 0 of
              None \<Rightarrow> variable_loop rest values
            | Some index \<Rightarrow>
                (case values (or_else (variable_name (words ! index)) []) of
                   None \<Rightarrow> []
                 | Some value \<Rightarrow> [join '' '' (take index words @ value # drop (index + 1) words)])
                @ variable_loop rest values))"

definition simpleVariablePayloads :: "string \<Rightarrow> string list option" where
  "simpleVariablePayloads input = map_option (\<lambda>sc. variable_loop (sh_commands sc) Map.empty) (scanShell input)"

section \<open>SQL clients\<close>

text \<open>An entry of \<open>SQL_CLIENT_SPECS\<close>; an object that is no entry has no options.\<close>

record sql_spec =
  sql_options :: "string list option"
  sqlPositionalsAfter :: "nat option"

definition SQL_CLIENT_SPECS :: "(string \<times> sql_spec) list" where
  "SQL_CLIENT_SPECS =
     [(''psql'', \<lparr>sql_options = Some [''-c'', ''--command''], sqlPositionalsAfter = None\<rparr>),
      (''pgcli'', \<lparr>sql_options = Some [''-c'', ''--command''], sqlPositionalsAfter = None\<rparr>),
      (''mysql'', \<lparr>sql_options = Some [''-e'', ''--execute''], sqlPositionalsAfter = None\<rparr>),
      (''mariadb'', \<lparr>sql_options = Some [''-e'', ''--execute''], sqlPositionalsAfter = None\<rparr>),
      (''mycli'', \<lparr>sql_options = Some [''-e'', ''--execute''], sqlPositionalsAfter = None\<rparr>),
      (''sqlite3'', \<lparr>sql_options = Some [''-cmd''], sqlPositionalsAfter = Some 1\<rparr>),
      (''duckdb'', \<lparr>sql_options = Some [''-c'', ''-s'', ''--command''], sqlPositionalsAfter = Some 1\<rparr>),
      (''clickhouse-client'', \<lparr>sql_options = Some [''-q'', ''--query''], sqlPositionalsAfter = None\<rparr>)]"

text \<open>
  The names an object literal inherits, as far as they have no capital letter: reading them gives an
  object without the members of an entry.
\<close>

definition inherited_names :: "string list" where
  "inherited_names = [''constructor'', ''__proto__'']"

definition sql_lookup :: "string \<Rightarrow> sql_spec option" where
  "sql_lookup executable =
     (case map_of SQL_CLIENT_SPECS executable of
        Some spec \<Rightarrow> Some spec
      | None \<Rightarrow> if executable \<in> set inherited_names then Some \<lparr>sql_options = None, sqlPositionalsAfter = None\<rparr> else None)"

definition sqlClientSpec :: "string list \<Rightarrow> (sql_spec \<times> string list) option" where
  "sqlClientSpec words =
     (case segment_head words of
        None \<Rightarrow> None
      | Some (executable, args) \<Rightarrow> map_option (\<lambda>spec. (spec, args)) (sql_lookup (toLowerCase executable)))"

text \<open>The first option an argument matches: the payload and how many words after it are used up.\<close>

fun sql_option :: "string list \<Rightarrow> string \<Rightarrow> string list \<Rightarrow> (string list \<times> nat) option" where
  "sql_option [] arg rest = None"
| "sql_option (opt # opts) arg rest =
     (if arg = opt then Some (case rest of [] \<Rightarrow> ([], 0) | v # _ \<Rightarrow> ([v], 1))
      else if startsWith arg (opt @ ''='') then Some ([drop (length opt + 1) arg], 0)
      else if length opt = 2 \<and> \<not> startsWith arg ''--'' \<and> startsWith arg opt \<and> length arg > 2 then Some ([drop 2 arg], 0)
      else sql_option opts arg rest)"

function sql_loop :: "string list \<Rightarrow> string list \<Rightarrow> string list \<times> string list" where
  "sql_loop options [] = ([], [])"
| "sql_loop options (arg # rest) =
     (case sql_option options arg rest of
        Some (ps, n) \<Rightarrow> apfst ((@) ps) (sql_loop options (drop n rest))
      | None \<Rightarrow> if \<not> startsWith arg ''-'' then apsnd (Cons arg) (sql_loop options rest) else sql_loop options rest)"
  by pat_completeness auto
termination
  by (relation "measure (\<lambda>(os, as). length as)") auto

definition sqlClientPayloads :: "string list \<Rightarrow> string list option" where
  "sqlClientPayloads words =
     (case sqlClientSpec words of
        None \<Rightarrow> Some []
      | Some (spec, args) \<Rightarrow>
          (case sql_options spec of
             None \<Rightarrow> if args = [] then Some [] else None
           | Some options \<Rightarrow>
               (case sql_loop options args of (payloads, positionals) \<Rightarrow>
                  Some (payloads @ (case sqlPositionalsAfter spec of None \<Rightarrow> [] | Some n \<Rightarrow> drop n positionals)))))"

definition pipedSqlPayloads :: "string \<Rightarrow> string list option" where
  "pipedSqlPayloads input =
     collect (piped (\<lambda>words. Some (sqlClientSpec words \<noteq> None))) (concat (map neighbours (shellPipelines input)))"

section \<open>The scannable text\<close>

definition executedShellPayloads :: "string \<Rightarrow> string list option" where
  "executedShellPayloads input =
     Option.bind (scanShell input) (\<lambda>scan.
     Option.bind (collect sqlClientPayloads (sh_commands scan)) (\<lambda>sql.
     Option.bind (pipedShellPayloads input) (\<lambda>piped_sh.
     Option.bind (pipedSqlPayloads input) (\<lambda>piped_sql.
     Option.bind (hereStringShellPayloads input) (\<lambda>here.
     Option.bind (simpleVariablePayloads input) (\<lambda>vars.
       Some (sh_nested scan @ concat (map segmentShellPayloads (sh_commands scan)) @ sql @ piped_sh @ piped_sql @ here @ vars)))))))"

text \<open>\<open>levels\<close> is how many more levels of payloads are read: eight less the depth of the source.\<close>

primrec scannable_levels :: "nat \<Rightarrow> string \<Rightarrow> string option" where
  "scannable_levels 0 command = scan_base (stripWrittenHeredocs command)"
| "scannable_levels (Suc levels) command =
     Option.bind (scan_base (stripWrittenHeredocs command)) (\<lambda>base.
     Option.bind (executedShellPayloads (stripWrittenHeredocs command)) (\<lambda>executed.
       if executed = [] then Some base
       else map_option (\<lambda>parts. join [NL] (base # parts)) (collect (\<lambda>p. map_option (\<lambda>t. [t]) (scannable_levels levels p)) executed)))"

definition scannableCommandAtDepth :: "string \<Rightarrow> nat \<Rightarrow> string option" where
  "scannableCommandAtDepth command depth = scannable_levels (8 - depth) command"

definition scannableCommand :: "string \<Rightarrow> string option" where
  "scannableCommand command = scannableCommandAtDepth command 0"

end
