(* ===== verification/Command_Policy.thy ===== *)
theory Command_Policy
  imports Shell_Text Command_Scan Json
begin

text \<open>
  Command policies: the screen for patterns that users store (\<open>src/util/safe-regex.ts\<close>), and the rules of
  the organisation and of a scope, their composition, parsing and evaluation on the scannable text of a
  command (\<open>src/policy/command-policy.ts\<close>).
\<close>

text \<open>
  The screen for regular expressions that users store (\<open>src/util/safe-regex.ts\<close>): no
  back-references or look-arounds, no repetition of a repetition and none of a group with an
  alternation. \<open>new RegExp(pattern, flags)\<close> is the argument \<open>regex\<close>: \<open>None\<close> when the pattern is no
  regular expression, and otherwise the function from a text to what \<open>exec\<close> matched first in it.
\<close>

type_synonym matcher = "string \<Rightarrow> string option"
type_synonym regex_engine = "string \<Rightarrow> matcher option"

definition MAX_PATTERN_CHARS :: nat where
  "MAX_PATTERN_CHARS = 256"

text \<open>\<open>/\\[1-9]|\\k<|\(\?[=!<]/\<close>.\<close>

definition unsupported_at :: "string \<Rightarrow> bool" where
  "unsupported_at s =
     (case s of
        a # b # r \<Rightarrow>
          a = BS \<and> in_range (CHR ''1'') (CHR ''9'') b \<or>
          a = BS \<and> b = CHR ''k'' \<and> startsWith r ''<'' \<or>
          a = CHR ''('' \<and> b = CHR ''?'' \<and> r \<noteq> [] \<and> hd r \<in> set ''=!<''
      | _ \<Rightarrow> False)"

fun unsupported :: "string \<Rightarrow> bool" where
  "unsupported [] = False"
| "unsupported (c # cs) = (unsupported_at (c # cs) \<or> unsupported cs)"

record regex_group =
  rg_quantified :: bool
  rg_alternation :: bool

record regex_scan =
  rs_groups :: "regex_group list"
  rs_escaped :: bool
  rs_inClass :: bool
  rs_previousQuantifier :: bool
  rs_closed :: "regex_group option"

definition fresh_group :: regex_group where
  "fresh_group = \<lparr>rg_quantified = False, rg_alternation = False\<rparr>"

definition start_scan :: regex_scan where
  "start_scan = \<lparr>rs_groups = [], rs_escaped = False, rs_inClass = False, rs_previousQuantifier = False, rs_closed = None\<rparr>"

text \<open>The group on top of the stack, which is the head here, changed if there is one.\<close>

definition on_top :: "(regex_group \<Rightarrow> regex_group) \<Rightarrow> regex_group list \<Rightarrow> regex_group list" where
  "on_top f gs = (case gs of [] \<Rightarrow> [] | g # rest \<Rightarrow> f g # rest)"

definition forget :: "regex_scan \<Rightarrow> regex_scan" where
  "forget st = st\<lparr>rs_previousQuantifier := False, rs_closed := None\<rparr>"

definition is_quantifier :: "char option \<Rightarrow> char \<Rightarrow> bool" where
  "is_quantifier prev ch =
     (ch = CHR ''*'' \<or> ch = CHR ''+'' \<or> (ch = CHR ''?'' \<and> prev \<noteq> Some (CHR ''('')) \<or> ch = CHR ''{'')"

definition repeatable :: "regex_scan \<Rightarrow> bool" where
  "repeatable st =
     (\<not> rs_previousQuantifier st \<and>
      (case rs_closed st of None \<Rightarrow> True | Some g \<Rightarrow> \<not> rg_quantified g \<and> \<not> rg_alternation g))"

definition regex_step :: "char option \<Rightarrow> char \<Rightarrow> regex_scan \<Rightarrow> regex_scan option" where
  "regex_step prev ch st =
     (if rs_escaped st then Some (forget (st\<lparr>rs_escaped := False\<rparr>))
      else if ch = BS then Some (st\<lparr>rs_escaped := True\<rparr>)
      else if ch = CHR ''['' then Some (forget (st\<lparr>rs_inClass := True\<rparr>))
      else if ch = CHR '']'' \<and> rs_inClass st then Some (st\<lparr>rs_inClass := False\<rparr>)
      else if rs_inClass st then Some st
      else if ch = CHR ''('' then Some (forget (st\<lparr>rs_groups := fresh_group # rs_groups st\<rparr>))
      else if ch = CHR ''|''
      then Some (forget (st\<lparr>rs_groups := on_top (rg_alternation_update (\<lambda>_. True)) (rs_groups st)\<rparr>))
      else if ch = CHR '')''
      then Some (st\<lparr>rs_groups := tl (rs_groups st), rs_previousQuantifier := False,
                    rs_closed := Some (or_else (head_opt (rs_groups st)) fresh_group)\<rparr>)
      else if is_quantifier prev ch
      then (if repeatable st
            then Some (st\<lparr>rs_groups := on_top (rg_quantified_update (\<lambda>_. True)) (rs_groups st),
                          rs_previousQuantifier := True, rs_closed := None\<rparr>)
            else None)
      else Some (forget st))"

fun regex_loop :: "char option \<Rightarrow> string \<Rightarrow> regex_scan \<Rightarrow> bool" where
  "regex_loop prev [] st = True"
| "regex_loop prev (ch # cs) st = (case regex_step prev ch st of None \<Rightarrow> False | Some st' \<Rightarrow> regex_loop (Some ch) cs st')"

datatype regex_error = BadLength | Unsupported | NestedRepetition | BadSyntax

definition compileSafeRegex :: "regex_engine \<Rightarrow> string \<Rightarrow> regex_error + matcher" where
  "compileSafeRegex regex pattern =
     (if pattern = [] \<or> length pattern > MAX_PATTERN_CHARS then Inl BadLength
      else if unsupported pattern then Inl Unsupported
      else if \<not> regex_loop None pattern start_scan then Inl NestedRepetition
      else (case regex pattern of None \<Rightarrow> Inl BadSyntax | Some m \<Rightarrow> Inr m))"

text \<open>
  Command policies (\<open>src/policy/command-policy.ts\<close>): the floor every organisation starts from, how
  a scope's policy is put on top of it, how a policy is parsed, and what is decided of a command.
  The gate in front of every execution (\<open>exec\<close> and \<open>backgroundStart\<close> of \<open>src/tools/primitives.ts\<close>,
  \<open>credentialExec\<close> of \<open>src/core/orchestrator.ts\<close>) is \<open>command_gate\<close>. The RegExp constructor is the
  argument \<open>regex\<close>.
\<close>

section \<open>Policies\<close>

datatype CommandDecision = DAllow | DDeny | DRequireApproval

record CommandRule =
  cr_pattern :: string
  cr_decision :: CommandDecision
  cr_reason :: "string option"

datatype CommandPolicyMode = Denylist | Allowlist

record CommandPolicy =
  cp_mode :: CommandPolicyMode
  cp_rules :: "CommandRule list"

text \<open>Patterns are written with a tilde for each backslash.\<close>

definition re :: "string \<Rightarrow> string" where
  "re s = map (\<lambda>c. if c = CHR ''~'' then BS else c) s"

definition ORG_FLOOR_RULES :: "CommandRule list" where
  "ORG_FLOOR_RULES =
     [\<lparr>cr_pattern = re ''~brm~b[^~n]*(?:-[a-zA-Z]*r|--recursive)'', cr_decision = DRequireApproval,
       cr_reason = Some ''recursive delete''\<rparr>,
      \<lparr>cr_pattern = re ''~bgit~s+push~b.*(?:--force~b|(?:^|~s)-[a-zA-Z]*f~b)'', cr_decision = DRequireApproval,
       cr_reason = Some ''force push''\<rparr>,
      \<lparr>cr_pattern = re ''~b(drop|truncate)~s+table~b'', cr_decision = DRequireApproval,
       cr_reason = Some ''destructive SQL''\<rparr>,
      \<lparr>cr_pattern = re ''~bmkfs~b|:~(~)~s*~{'', cr_decision = DDeny, cr_reason = Some ''destructive / fork bomb''\<rparr>,
      \<lparr>cr_pattern = re ''~bcurl~b.*~|~s*(sh|bash)~b'', cr_decision = DRequireApproval,
       cr_reason = Some ''pipe-to-shell''\<rparr>]"

definition defaultOrgPolicy :: CommandPolicy where
  "defaultOrgPolicy = \<lparr>cp_mode = Denylist, cp_rules = ORG_FLOOR_RULES\<rparr>"

definition composePolicy :: "CommandPolicy \<Rightarrow> CommandPolicy option \<Rightarrow> CommandPolicy" where
  "composePolicy orgFloor scope =
     (case scope of
        None \<Rightarrow> orgFloor
      | Some sc \<Rightarrow> \<lparr>cp_mode = (if cp_mode orgFloor = Allowlist then Allowlist else cp_mode sc),
                    cp_rules = cp_rules orgFloor @ cp_rules sc\<rparr>)"

section \<open>Parsing\<close>

datatype policy_error =
  NotAnObject
| BadMode
| RulesNotArray
| RuleNotObject nat
| BadPattern nat
| BadRegex nat regex_error
| BadDecision nat
| BadReason nat

definition parse_mode :: "json option \<Rightarrow> CommandPolicyMode option" where
  "parse_mode v =
     (if v = Some (JStr ''denylist'') then Some Denylist
      else if v = Some (JStr ''allowlist'') then Some Allowlist else None)"

definition parse_decision :: "json option \<Rightarrow> CommandDecision option" where
  "parse_decision v =
     (if v = Some (JStr ''allow'') then Some DAllow
      else if v = Some (JStr ''deny'') then Some DDeny
      else if v = Some (JStr ''require_approval'') then Some DRequireApproval else None)"

text \<open>An array is an object too, one without the fields of a rule.\<close>

definition fields_of :: "json \<Rightarrow> (string \<rightharpoonup> json) option" where
  "fields_of v = (case v of JObj fs \<Rightarrow> Some (map_of fs) | JArr _ \<Rightarrow> Some Map.empty | _ \<Rightarrow> None)"

definition parse_rule :: "regex_engine \<Rightarrow> nat \<Rightarrow> json \<Rightarrow> policy_error + CommandRule" where
  "parse_rule regex i raw =
     (case fields_of raw of
        None \<Rightarrow> Inl (RuleNotObject i)
      | Some r \<Rightarrow>
          (case r ''pattern'' of
             Some (JStr p) \<Rightarrow>
               if p = [] then Inl (BadPattern i)
               else
                 (case compileSafeRegex regex p of
                    Inl e \<Rightarrow> Inl (BadRegex i e)
                  | Inr _ \<Rightarrow>
                      (case parse_decision (r ''decision'') of
                         None \<Rightarrow> Inl (BadDecision i)
                       | Some d \<Rightarrow>
                           (case r ''reason'' of
                              None \<Rightarrow> Inr \<lparr>cr_pattern = p, cr_decision = d, cr_reason = None\<rparr>
                            | Some (JStr s) \<Rightarrow> Inr \<lparr>cr_pattern = p, cr_decision = d, cr_reason = Some s\<rparr>
                            | Some _ \<Rightarrow> Inl (BadReason i))))
           | _ \<Rightarrow> Inl (BadPattern i)))"

fun parse_rules :: "regex_engine \<Rightarrow> nat \<Rightarrow> json list \<Rightarrow> policy_error + CommandRule list" where
  "parse_rules regex i [] = Inr []"
| "parse_rules regex i (raw # rest) =
     (case parse_rule regex i raw of
        Inl e \<Rightarrow> Inl e
      | Inr r \<Rightarrow> (case parse_rules regex (Suc i) rest of Inl e \<Rightarrow> Inl e | Inr rs \<Rightarrow> Inr (r # rs)))"

definition parseCommandPolicy :: "regex_engine \<Rightarrow> json \<Rightarrow> policy_error + CommandPolicy" where
  "parseCommandPolicy regex input =
     (case input of
        JObj fs \<Rightarrow>
          (case parse_mode (map_of fs ''mode'') of
             None \<Rightarrow> Inl BadMode
           | Some mode \<Rightarrow>
               (case map_of fs ''rules'' of
                  Some (JArr raws) \<Rightarrow>
                    (case parse_rules regex 0 raws of
                       Inl e \<Rightarrow> Inl e | Inr rules \<Rightarrow> Inr \<lparr>cp_mode = mode, cp_rules = rules\<rparr>)
                | _ \<Rightarrow> Inl RulesNotArray))
      | _ \<Rightarrow> Inl NotAnObject)"

section \<open>Evaluation\<close>

record CommandEvaluation =
  ce_decision :: CommandDecision
  ce_reason :: "string option"
  ce_matched :: "string option"
  ce_approvalKey :: "string option"

definition verdict :: "CommandDecision \<Rightarrow> string option \<Rightarrow> CommandEvaluation" where
  "verdict d reason = \<lparr>ce_decision = d, ce_reason = reason, ce_matched = None, ce_approvalKey = None\<rparr>"

fun firstMatch :: "regex_engine \<Rightarrow> string \<Rightarrow> CommandRule list \<Rightarrow> CommandEvaluation option" where
  "firstMatch regex scannable [] = None"
| "firstMatch regex scannable (rule # rules) =
     (case compileSafeRegex regex (cr_pattern rule) of
        Inl _ \<Rightarrow> firstMatch regex scannable rules
      | Inr exec \<Rightarrow>
          (case exec scannable of
             Some hit \<Rightarrow>
               Some \<lparr>ce_decision = cr_decision rule, ce_reason = (if truthy (cr_reason rule) then cr_reason rule else None),
                     ce_matched = Some hit, ce_approvalKey = Some (cr_pattern rule)\<rparr>
           | None \<Rightarrow> firstMatch regex scannable rules))"

definition evaluate_text :: "regex_engine \<Rightarrow> CommandPolicy \<Rightarrow> string \<Rightarrow> CommandEvaluation" where
  "evaluate_text regex policy scannable =
     (case firstMatch regex scannable (cp_rules policy) of
        Some e \<Rightarrow> e
      | None \<Rightarrow> if cp_mode policy = Allowlist then verdict DDeny (Some ''not in allowlist'') else verdict DAllow None)"

definition evaluateCommand :: "regex_engine \<Rightarrow> string \<Rightarrow> CommandPolicy \<Rightarrow> CommandEvaluation option" where
  "evaluateCommand regex command policy = map_option (evaluate_text regex policy) (scannableCommand command)"

definition evaluate_text_with_layer :: "regex_engine \<Rightarrow> CommandPolicy \<Rightarrow> CommandRule list \<Rightarrow> string \<Rightarrow> CommandEvaluation" where
  "evaluate_text_with_layer regex policy layerRules scannable =
     (case firstMatch regex scannable (cp_rules policy) of
        Some e \<Rightarrow> e
      | None \<Rightarrow>
          if cp_mode policy = Allowlist then verdict DDeny (Some ''not in allowlist'')
          else (case firstMatch regex scannable layerRules of Some e \<Rightarrow> e | None \<Rightarrow> verdict DAllow None))"

definition evaluateCommandWithLayer ::
  "regex_engine \<Rightarrow> string \<Rightarrow> CommandPolicy \<Rightarrow> CommandRule list \<Rightarrow> CommandEvaluation option" where
  "evaluateCommandWithLayer regex command policy layerRules =
     map_option (evaluate_text_with_layer regex policy layerRules) (scannableCommand command)"

text \<open>The gate before a command runs; \<open>authorized\<close> is what \<open>authorizeCommand\<close> answers.\<close>

datatype gate =
  Proceed
| CommandDenied string string
| NeedsApproval string string "string option" "string option"
| GateThrows

definition command_gate ::
  "regex_engine \<Rightarrow> CommandPolicy \<Rightarrow> CommandRule list \<Rightarrow> (string \<Rightarrow> string option \<Rightarrow> bool) \<Rightarrow> string \<Rightarrow> gate" where
  "command_gate regex policy layerRules authorized command =
     (case evaluateCommandWithLayer regex command policy layerRules of
        None \<Rightarrow> GateThrows
      | Some e \<Rightarrow>
          if ce_decision e = DDeny then CommandDenied command (or_else (ce_reason e) ''denied by policy'')
          else if ce_decision e = DRequireApproval \<and> \<not> authorized command (ce_approvalKey e)
          then NeedsApproval command (or_else (ce_reason e) ''requires approval'') (ce_matched e) (ce_approvalKey e)
          else Proceed)"

end
