(* ===== verification/Command_Props.thy ===== *)
theory Command_Props
  imports Command_Policy
begin

text \<open>
  What the command policy guarantees: the floor of the organisation binds under every scope's policy,
  a parsed policy is enforced rule by rule, and wrapping a command hides nothing from the rules; and
  three places where the scan of a command does less than the shell does.
\<close>

section \<open>Rules that bind\<close>

lemma floor_screened: "list_all (\<lambda>r. cr_pattern r \<noteq> [] \<and> length (cr_pattern r) \<le> MAX_PATTERN_CHARS \<and>
  \<not> unsupported (cr_pattern r) \<and> regex_loop None (cr_pattern r) start_scan) ORG_FLOOR_RULES"
  by code_simp

lemma floor_compiles: "r \<in> set ORG_FLOOR_RULES \<Longrightarrow> regex (cr_pattern r) = Some m \<Longrightarrow>
    compileSafeRegex regex (cr_pattern r) = Inr m"
  using floor_screened unfolding list_all_iff compileSafeRegex_def by auto

lemma floor_decisions: "r \<in> set ORG_FLOOR_RULES \<Longrightarrow> cr_decision r \<noteq> DAllow"
  by (auto simp: ORG_FLOOR_RULES_def)

lemma firstMatch_append:
  "firstMatch regex t (rs @ qs) = (case firstMatch regex t rs of Some e \<Rightarrow> Some e | None \<Rightarrow> firstMatch regex t qs)"
  by (induction rs) (auto split: sum.splits option.splits)

lemma firstMatch_rule:
  "firstMatch regex t rs = Some e \<Longrightarrow>
     \<exists>r\<in>set rs. ce_decision e = cr_decision r \<and> ce_approvalKey e = Some (cr_pattern r)"
  by (induction rs) (auto split: sum.splits option.splits)

lemma firstMatch_hits:
  "r \<in> set rs \<Longrightarrow> compileSafeRegex regex (cr_pattern r) = Inr m \<Longrightarrow> m t \<noteq> None \<Longrightarrow> firstMatch regex t rs \<noteq> None"
  by (induction rs) (auto split: sum.splits option.splits)

lemma compose_rules: "\<exists>qs. cp_rules (composePolicy floor scope) = cp_rules floor @ qs"
  by (cases scope) (auto simp: composePolicy_def)

lemma compose_first:
  "firstMatch regex t (cp_rules floor) = Some e \<Longrightarrow>
     evaluate_text_with_layer regex (composePolicy floor scope) layer t = e"
  using compose_rules [of floor scope] by (auto simp: evaluate_text_with_layer_def firstMatch_append)

lemma floor_passes_only_authorized:
  assumes "scannableCommand command = Some text" and "r \<in> set ORG_FLOOR_RULES"
    and "regex (cr_pattern r) = Some exec" and "exec text \<noteq> None"
    and "command_gate regex (composePolicy defaultOrgPolicy scope) layer authorized command = Proceed"
  shows "\<exists>r'\<in>set ORG_FLOOR_RULES. cr_decision r' = DRequireApproval \<and> authorized command (Some (cr_pattern r'))"
proof -
  have c: "compileSafeRegex regex (cr_pattern r) = Inr exec" using assms(2,3) by (rule floor_compiles)
  obtain e where e: "firstMatch regex text ORG_FLOOR_RULES = Some e"
    using firstMatch_hits [OF assms(2) c assms(4)] by blast
  then have ev: "evaluateCommandWithLayer regex command (composePolicy defaultOrgPolicy scope) layer = Some e"
    using assms(1) compose_first [of regex "text" defaultOrgPolicy e]
    by (simp add: evaluateCommandWithLayer_def defaultOrgPolicy_def)
  obtain r' where "r' \<in> set ORG_FLOOR_RULES" "ce_decision e = cr_decision r'" "ce_approvalKey e = Some (cr_pattern r')"
    using firstMatch_rule [OF e] by blast
  then show ?thesis using assms(5) ev floor_decisions [of r']
    by (cases "cr_decision r'") (auto simp: command_gate_def split: if_splits)
qed

text \<open>
  When a pattern of the default floor matches the text of a command, no policy of a scope and no
  rule of the deployment lets the command run: the gate passes it only after a person approved that
  very rule or command.
\<close>

theorem floor_cannot_be_lifted:
  assumes "scannableCommand command = Some text" and "r \<in> set ORG_FLOOR_RULES"
    and "regex (cr_pattern r) = Some exec" and "exec text \<noteq> None"
    and "command_gate regex (composePolicy defaultOrgPolicy scope) layer authorized command = Proceed"
  shows "\<exists>r'\<in>set ORG_FLOOR_RULES. cr_decision r' = DRequireApproval \<and> authorized command (Some (cr_pattern r'))"
  using assms by (rule floor_passes_only_authorized)

text \<open>
  A scope cannot leave the allowlist of its organisation: what matches no rule of either is denied,
  and the rules of the deployment are not asked.
\<close>

theorem org_allowlist_is_final:
  assumes "cp_mode floor = Allowlist" and "scannableCommand command = Some text"
    and "firstMatch regex text (cp_rules (composePolicy floor scope)) = None"
  shows "command_gate regex (composePolicy floor scope) layer authorized command =
    CommandDenied command ''not in allowlist''"
  using assms by (cases scope)
    (simp_all add: command_gate_def evaluateCommandWithLayer_def evaluate_text_with_layer_def composePolicy_def verdict_def)

lemma parse_rule_compiles:
  "parse_rule regex i raw = Inr r \<Longrightarrow> \<exists>m. compileSafeRegex regex (cr_pattern r) = Inr m"
  by (auto simp: parse_rule_def split: option.splits json.splits if_splits sum.splits)

lemma parse_rules_compile:
  "parse_rules regex i raws = Inr rs \<Longrightarrow> r \<in> set rs \<Longrightarrow> \<exists>m. compileSafeRegex regex (cr_pattern r) = Inr m"
  by (induction regex i raws arbitrary: rs rule: parse_rules.induct)
    (auto dest: parse_rule_compiles split: sum.splits)

lemma parse_policy_rules:
  "parseCommandPolicy regex input = Inr pol \<Longrightarrow> \<exists>raws. parse_rules regex 0 raws = Inr (cp_rules pol)"
  by (auto simp: parseCommandPolicy_def split: json.splits option.splits sum.splits)

text \<open>
  No rule of a policy that was accepted is skipped: each compiles, and as soon as one of them matches
  the text of a command the verdict is that of a rule of the policy, never the default of the mode.
\<close>

theorem accepted_rules_are_enforced:
  assumes "parseCommandPolicy regex input = Inr pol" and "r \<in> set (cp_rules pol)"
  shows "\<exists>exec. compileSafeRegex regex (cr_pattern r) = Inr exec \<and>
    (exec text \<noteq> None \<longrightarrow>
      (\<exists>r'\<in>set (cp_rules pol). ce_decision (evaluate_text regex pol text) = cr_decision r' \<and>
        ce_approvalKey (evaluate_text regex pol text) = Some (cr_pattern r')))"
proof -
  obtain exec where m: "compileSafeRegex regex (cr_pattern r) = Inr exec"
    using parse_policy_rules [OF assms(1)] parse_rules_compile assms(2) by blast
  have "\<exists>r'\<in>set (cp_rules pol). ce_decision (evaluate_text regex pol text) = cr_decision r' \<and>
        ce_approvalKey (evaluate_text regex pol text) = Some (cr_pattern r')" if hit: "exec text \<noteq> None"
  proof -
    obtain e where e: "firstMatch regex text (cp_rules pol) = Some e"
      using firstMatch_hits [OF assms(2) m hit] by blast
    then show ?thesis using firstMatch_rule [OF e] by (simp add: evaluate_text_def)
  qed
  with m show ?thesis by blast
qed

section \<open>Wrapping hides nothing\<close>

text \<open>
  A command line behind wrappers: each with any options of its own, up to the first word that is no
  option. Of the words that \<open>timeout\<close> skips, the duration is one.
\<close>

definition plain_start :: "string list \<Rightarrow> bool" where
  "plain_start ws = (ws \<noteq> [] \<and> commandStart ws = 0 \<and> \<not> startsWith (hd ws) ''-'')"

inductive wrapped :: "string list \<Rightarrow> string list \<Rightarrow> bool" where
  bare: "plain_start ws \<Longrightarrow> wrapped ws ws"
| by_sudo: "wrapped ws us \<Longrightarrow> optionCommand (os @ us) sudo_options = length os \<Longrightarrow> wrapped ws (''sudo'' # os @ us)"
| by_nice: "wrapped ws us \<Longrightarrow> optionCommand (os @ us) [''-n'', ''--adjustment''] = length os \<Longrightarrow> wrapped ws (''nice'' # os @ us)"
| by_nohup: "wrapped ws us \<Longrightarrow> wrapped ws (''nohup'' # us)"
| by_coproc: "wrapped ws us \<Longrightarrow> wrapped ws (''coproc'' # us)"
| by_command: "wrapped ws us \<Longrightarrow> wrapped ws (''command'' # us)"
| by_exec: "wrapped ws us \<Longrightarrow> optionCommand (os @ us) [''-a''] = length os \<Longrightarrow> wrapped ws (''exec'' # os @ us)"
| by_timeout: "wrapped ws us \<Longrightarrow> \<not> startsWith d ''-'' \<Longrightarrow> wrapped ws (''timeout'' # d # us)"
| by_time: "wrapped ws us \<Longrightarrow> wrapped ws (''time'' # us)"

lemma wrapper_starts:
  "commandStart (''sudo'' # us) = 0" "commandStart (''nice'' # us) = 0" "commandStart (''nohup'' # us) = 0"
  "commandStart (''coproc'' # us) = 0" "commandStart (''command'' # us) = 0" "commandStart (''exec'' # us) = 0"
  "commandStart (''timeout'' # us) = 0" "commandStart (''time'' # us) = 0"
  by (simp_all add: is_assignment_def is_redirect_def is_redirect_to_def is_word_def is_ident_def is_digit_def
      in_range_def startsWith_def)

lemma wrapper_names:
  "executable_of ''sudo'' = ''sudo''" "executable_of ''nice'' = ''nice''" "executable_of ''nohup'' = ''nohup''"
  "executable_of ''coproc'' = ''coproc''" "executable_of ''command'' = ''command''" "executable_of ''exec'' = ''exec''"
  "executable_of ''timeout'' = ''timeout''" "executable_of ''time'' = ''time''"
  by code_simp+

lemma wrapped_plain: "wrapped ws us \<Longrightarrow> plain_start us"
  by (induction rule: wrapped.induct) (simp_all add: plain_start_def wrapper_starts startsWith_def del: commandStart.simps)

lemma plain_no_option: "plain_start us \<Longrightarrow> optionCommand us opts = 0 \<and> command_rest us = Some us"
  by (cases us) (auto simp: plain_start_def startsWith_def)

lemma wrapped_payloads: "wrapped ws us \<Longrightarrow> segmentShellPayloads us = segmentShellPayloads ws"
proof (induction rule: wrapped.induct)
  case (by_timeout ws us d)
  then have "optionCommand (d # us) [''-s'', ''--signal'', ''-k'', ''--kill-after''] = 0"
    by (auto simp: startsWith_def)
  with by_timeout show ?case
    by (simp add: segmentShellPayloads.simps [of "''timeout'' # d # us"] segment_head_def wrapper_starts wrapper_names
        payload_step_def shells_def wrapper_rest_def del: commandStart.simps)
qed (simp_all add: segmentShellPayloads.simps [of "_ # _"] segment_head_def wrapper_starts wrapper_names
    payload_step_def shells_def wrapper_rest_def plain_no_option [OF wrapped_plain] del: commandStart.simps)

lemma shells_are_plain: "list_all (\<lambda>sh. \<not> is_assignment sh \<and>
  sh \<notin> {''if'', ''then'', ''elif'', ''else'', ''while'', ''until'', ''do'', ''!''} \<and>
  \<not> is_redirect sh \<and> \<not> is_redirect_to sh \<and> executable_of sh = sh \<and> \<not> startsWith sh ''-'') shells"
  by code_simp

lemma shell_c_payload:
  assumes "sh \<in> set shells"
  shows "segmentShellPayloads [sh, ''-c'', p] = [p]" "plain_start [sh, ''-c'', p]"
proof -
  have "commandStart [sh, ''-c'', p] = 0 \<and> executable_of sh = sh \<and> \<not> startsWith sh ''-''"
    using assms shells_are_plain unfolding list_all_iff by simp
  moreover have "dash_c ''-c''" "''-c'' \<notin> set shell_value_options" by code_simp+
  ultimately show "segmentShellPayloads [sh, ''-c'', p] = [p]" "plain_start [sh, ''-c'', p]"
    using assms by (simp_all add: segmentShellPayloads.simps [of "[_, _, _]"] segment_head_def payload_step_def plain_start_def
        startsWith_def del: commandStart.simps)
qed

lemma after_delimiter_line: "NL \<notin> set s \<Longrightarrow> after_delimiter d s = None"
proof -
  assume "NL \<notin> set s"
  then have tw: "takeWhile (\<lambda>c. c \<noteq> NL) s = s" by (simp add: takeWhile_eq_all_conv) blast
  show ?thesis unfolding after_delimiter_def Let_def tw by simp
qed

lemma one_line_parts:
  "NL \<notin> set s \<Longrightarrow> NL \<notin> set (drop n s)" "NL \<notin> set s \<Longrightarrow> NL \<notin> set (tl s)" "NL \<notin> set s \<Longrightarrow> NL \<notin> set (dropWhile P s)"
  by (auto dest: in_set_dropD set_dropWhileD list.set_sel(2) intro: list.set_sel(2))

lemma heredoc_at_line: "NL \<notin> set s \<Longrightarrow> heredoc_at s = None"
proof -
  assume "NL \<notin> set s"
  define r where "r = dropWhile is_space (if startsWith (drop 2 s) ''-'' then tl (drop 2 s) else drop 2 s)"
  have r: "NL \<notin> set r" unfolding r_def using \<open>NL \<notin> set s\<close> by (simp add: one_line_parts)
  then have none: "after_delimiter d (drop n r) = None" "after_delimiter d (tl (drop n (tl r))) = None" for d n
    by (simp_all add: one_line_parts after_delimiter_line)
  show ?thesis
  proof (cases r)
    case (Cons q t)
    have nf: "List.find (\<lambda>x. x \<noteq> None) (map (\<lambda>n. after_delimiter (take n r) (drop n r)) ns) = None" for ns
      by (simp add: find_None_iff none)
    show ?thesis unfolding heredoc_at_def Let_def r_def [symmetric] nf
      using none(2) Cons by simp
  qed (simp add: heredoc_at_def r_def [symmetric])
qed

lemma match_heredoc_line: "NL \<notin> set s \<Longrightarrow> match_heredoc s = None"
proof -
  assume "NL \<notin> set s"
  then have "heredoc_at (drop k s) = None" for k by (meson heredoc_at_line in_set_dropD)
  then show ?thesis by (simp add: match_heredoc_def Let_def find_None_iff split: option.splits)
qed

lemma strip_line: "NL \<notin> set s \<Longrightarrow> stripWrittenHeredocs s = s"
proof -
  have "strip_from bol s = s" if "NL \<notin> set s" for bol s
    using that
  proof (induction s arbitrary: bol)
    case (Cons c cs)
    then have "(if bol then match_heredoc (c # cs) else None) = None"
      using match_heredoc_line [of "c # cs"] by simp
    with Cons show ?case by simp
  qed simp
  then show "NL \<notin> set s \<Longrightarrow> stripWrittenHeredocs s = s" by (simp add: stripWrittenHeredocs_def)
qed

lemma join_line:
  "x \<in> set xs \<Longrightarrow> \<exists>u v. join [NL] (b # xs) = u @ NL # x @ v \<and> (v = [] \<or> hd v = NL)"
proof (induction xs arbitrary: b)
  case (Cons y ys)
  show ?case
  proof (cases "x = y")
    case True
    show ?thesis
    proof (cases ys)
      case Nil
      with True show ?thesis by (intro exI [of _ b] exI [of _ "[]"]) simp
    next
      case (Cons z zs)
      with True show ?thesis by (intro exI [of _ b] exI [of _ "NL # join [NL] (z # zs)"]) simp
    qed
  next
    case False
    then obtain u v where "join [NL] (y # ys) = u @ NL # x @ v" "v = [] \<or> hd v = NL" using Cons.IH [of y] Cons.prems by auto
    then show ?thesis by (intro exI [of _ "b @ NL # u"] exI [of _ v]) simp
  qed
qed simp

lemma payload_is_a_line:
  assumes "scannable_levels (Suc n) s = Some t" "NL \<notin> set s" "executedShellPayloads s = Some ps" "p \<in> set ps"
  shows "\<exists>x u v. scannable_levels n p = Some x \<and> t = u @ NL # x @ v \<and> (v = [] \<or> hd v = NL)"
proof -
  obtain b parts where parts: "collect (\<lambda>p. map_option (\<lambda>t. [t]) (scannable_levels n p)) ps = Some parts"
    and t: "t = join [NL] (b # parts)"
    using assms by (auto simp: strip_line bind_eq_Some_conv split: if_splits)
  obtain x where "scannable_levels n p = Some x" "x \<in> set parts"
    using collect_member [OF parts assms(4)] by auto
  then show ?thesis using join_line [of x parts b] t by auto
qed

lemma segment_payload_executed:
  "executedShellPayloads s = Some ps \<Longrightarrow> scanShell s = Some sc \<Longrightarrow> c \<in> set (sh_commands sc) \<Longrightarrow>
     set (segmentShellPayloads c) \<subseteq> set ps"
  by (auto simp: executedShellPayloads_def bind_eq_Some_conv)

text \<open>
  Whatever wrappers stand before a shell's \<open>-c\<close>, and in whatever number, the text of the whole
  command that the rules see has the text of the payload as lines of its own.
\<close>

theorem wrapped_payload_is_scanned:
  assumes "sh \<in> set shells" and "wrapped [sh, ''-c'', p] us" and "NL \<notin> set (shell_line us)"
    and "scannableCommand (shell_line us) = Some t"
  shows "\<exists>x u v. scannableCommandAtDepth p 1 = Some x \<and> t = u @ NL # x @ v \<and> (v = [] \<or> hd v = NL)"
proof -
  have "us \<noteq> []" using wrapped_plain [OF assms(2)] by (simp add: plain_start_def)
  then have sc: "scanShell (shell_line us) = Some \<lparr>sh_commands = [us], sh_nested = []\<rparr>"
    by (simp add: scan_line_words)
  have t: "scannable_levels (Suc 7) (shell_line us) = Some t"
    using assms(4) by (simp add: scannableCommand_def scannableCommandAtDepth_def numeral_eq_Suc del: scannable_levels.simps)
  then obtain ps where ps: "executedShellPayloads (shell_line us) = Some ps"
    using assms(3) unfolding scannable_levels.simps(2) by (auto simp: strip_line bind_eq_Some_conv)
  have "p \<in> set ps"
    using segment_payload_executed [OF ps sc] wrapped_payloads [OF assms(2)] shell_c_payload(1) [OF assms(1)] by simp
  from payload_is_a_line [OF t assms(3) ps this] show ?thesis by (simp add: scannableCommandAtDepth_def)
qed

section \<open>What the scan misses\<close>

abbreviation heredoc_tail :: string where
  "heredoc_tail \<equiv> ''<<'' @ [SQ] @ ''EOF'' @ [SQ, NL] @ ''EOF''"

lemma heredoc_at_tail: "heredoc_at heredoc_tail = Some (True, [], [], [])"
  by code_simp

lemma rev_upt_add7: "rev [0..<n + 7] = [n + 6, n + 5, n + 4, n + 3, n + 2, n + 1, n] @ rev [0..<n]"
  by (simp add: numeral_eq_Suc)

lemma match_heredoc_tail:
  assumes "NL \<notin> set pre"
  shows "match_heredoc (pre @ heredoc_tail) =
    Some (\<lparr>hd_full = pre @ heredoc_tail, hd_pre = pre, hd_quoted = True, hd_post = [], hd_body = []\<rparr>, [])"
proof -
  have line: "takeWhile (\<lambda>c. c \<noteq> NL) (pre @ heredoc_tail) = pre @ ''<<'' @ [SQ] @ ''EOF'' @ [SQ]"
    using assms by (subst takeWhile_append2) auto
  have len: "length (pre @ ''<<'' @ [SQ] @ ''EOF'' @ [SQ]) = length pre + 7" by simp
  have ks: "filter (\<lambda>k. startsWith (drop k (pre @ heredoc_tail)) ''<<'') (rev [0..<length pre + 7]) =
      length pre # filter (\<lambda>k. startsWith (drop k (pre @ heredoc_tail)) ''<<'') (rev [0..<length pre])"
    unfolding rev_upt_add7 by (simp add: startsWith_def)
  have at0: "heredoc_at (drop (length pre) (pre @ heredoc_tail)) = Some (True, [], [], [])"
    using heredoc_at_tail by simp
  have found: "List.find (\<lambda>k. heredoc_at (drop k (pre @ heredoc_tail)) \<noteq> None) (length pre # ns) = Some (length pre)" for ns
    unfolding find.simps at0 by simp
  show ?thesis unfolding match_heredoc_def Let_def line len ks found option.case at0 prod.case by simp
qed

lemma strip_heredoc_tail:
  assumes "NL \<notin> set pre" "\<not> heredocRunsInterpreter pre"
  shows "stripWrittenHeredocs (pre @ heredoc_tail) = []"
proof -
  obtain c cs where s: "pre @ heredoc_tail = c # cs" by (cases pre) auto
  have m: "match_heredoc (c # cs) = Some (\<lparr>hd_full = c # cs, hd_pre = pre, hd_quoted = True, hd_post = [], hd_body = []\<rparr>, [])"
    using match_heredoc_tail [OF assms(1)] unfolding s .
  have "strip_from True (c # cs) = []" using m assms(2) by (simp add: replace_heredoc_def)
  then show ?thesis unfolding stripWrittenHeredocs_def s .
qed

lemma nothing_executed: "executedShellPayloads [] = Some []" "scan_base [] = Some []"
  by code_simp+


text \<open>
  The table of SQL clients is read with names it does not have: a command called \<open>constructor\<close> with
  an argument finds an inherited member instead of an entry, and evaluating it throws.
\<close>

theorem inherited_name_throws: "command_gate regex policy layer authorized ''constructor x'' = GateThrows"
proof -
  have "scannableCommand ''constructor x'' = None" by code_simp
  then show ?thesis by (simp add: command_gate_def evaluateCommandWithLayer_def)
qed

text \<open>
  The screen refuses a repeated group that ends in a repetition, but accepts the same pattern with
  one more pair of parentheses around the group.
\<close>

theorem nested_repetition_screened_once:
  "compileSafeRegex regex ''(a+)+'' = Inl NestedRepetition \<and>
   compileSafeRegex regex ''((a+))+'' = (case regex ''((a+))+'' of None \<Rightarrow> Inl BadSyntax | Some m \<Rightarrow> Inr m)"
proof -
  have "\<not> regex_loop None ''(a+)+'' start_scan" "\<not> unsupported ''(a+)+''"
    "regex_loop None ''((a+))+'' start_scan" "\<not> unsupported ''((a+))+''" by code_simp+
  then show ?thesis by (simp add: compileSafeRegex_def MAX_PATTERN_CHARS_def)
qed

section \<open>Instances\<close>

text \<open>An engine that knows two patterns as plain texts to be found.\<close>

definition ex_regex :: regex_engine where
  "ex_regex p =
     (if p = re ''~brm~b[^~n]*(?:-[a-zA-Z]*r|--recursive)'' then Some (\<lambda>t. if sublist ''rm -rf'' t then Some ''rm -rf'' else None)
      else if p = ''^ls'' then Some (\<lambda>t. if prefix ''ls'' t then Some ''ls'' else None)
      else None)"

definition ex_allowlist :: CommandPolicy where
  "ex_allowlist = \<lparr>cp_mode = Allowlist, cp_rules = [\<lparr>cr_pattern = ''^ls'', cr_decision = DAllow, cr_reason = None\<rparr>]\<rparr>"

definition ex_widening :: CommandPolicy where
  "ex_widening =
     \<lparr>cp_mode = Denylist, cp_rules = [\<lparr>cr_pattern = re ''~brm~b[^~n]*(?:-[a-zA-Z]*r|--recursive)'', cr_decision = DAllow, cr_reason = None\<rparr>]\<rparr>"

definition ex_floor_rule :: CommandRule where
  "ex_floor_rule = \<lparr>cr_pattern = re ''~brm~b[^~n]*(?:-[a-zA-Z]*r|--recursive)'', cr_decision = DRequireApproval, cr_reason = Some ''recursive delete''\<rparr>"

lemma ex_text: "scannableCommand ''rm -rf x'' = Some ''rm -rf x''"
  by code_simp

theorem floor_cannot_be_lifted_witness:
  "command_gate ex_regex (composePolicy defaultOrgPolicy (Some ex_widening)) [] (\<lambda>c k. False) ''rm -rf x'' \<noteq> Proceed"
proof
  assume p: "command_gate ex_regex (composePolicy defaultOrgPolicy (Some ex_widening)) [] (\<lambda>c k. False) ''rm -rf x'' = Proceed"
  have r: "ex_floor_rule \<in> set ORG_FLOOR_RULES" by (simp add: ex_floor_rule_def ORG_FLOOR_RULES_def)
  have "ex_regex (cr_pattern ex_floor_rule) = Some (\<lambda>t. if sublist ''rm -rf'' t then Some ''rm -rf'' else None)"
    by (simp add: ex_regex_def ex_floor_rule_def)
  from floor_cannot_be_lifted [OF ex_text r this _ p] show False by (simp add: sublist_Cons_right)
qed

theorem org_allowlist_is_final_witness:
  "command_gate ex_regex (composePolicy ex_allowlist (Some ex_widening)) [] (\<lambda>c k. True) ''cat secrets'' =
     CommandDenied ''cat secrets'' ''not in allowlist''"
proof -
  have "cp_mode ex_allowlist = Allowlist" by (simp add: ex_allowlist_def)
  moreover have "scannableCommand ''cat secrets'' = Some ''cat secrets''" by code_simp
  moreover have "firstMatch ex_regex ''cat secrets'' (cp_rules (composePolicy ex_allowlist (Some ex_widening))) = None"
    by code_simp
  ultimately show ?thesis by (rule org_allowlist_is_final)
qed

theorem accepted_rules_are_enforced_witness:
  "parseCommandPolicy ex_regex (JObj [(''mode'', JStr ''allowlist''),
      (''rules'', JArr [JObj [(''pattern'', JStr ''^ls''), (''decision'', JStr ''allow'')]])]) = Inr ex_allowlist \<and>
   (\<exists>exec. compileSafeRegex ex_regex ''^ls'' = Inr exec)"
proof -
  have p: "parseCommandPolicy ex_regex (JObj [(''mode'', JStr ''allowlist''),
      (''rules'', JArr [JObj [(''pattern'', JStr ''^ls''), (''decision'', JStr ''allow'')]])]) = Inr ex_allowlist"
    by (simp add: parseCommandPolicy_def parse_mode_def parse_rule_def fields_of_def parse_decision_def compileSafeRegex_def
        ex_regex_def re_def MAX_PATTERN_CHARS_def unsupported_at_def regex_step_def start_scan_def is_quantifier_def
        forget_def ex_allowlist_def in_range_def)
  have "\<lparr>cr_pattern = ''^ls'', cr_decision = DAllow, cr_reason = None\<rparr> \<in> set (cp_rules ex_allowlist)"
    by (simp add: ex_allowlist_def)
  from accepted_rules_are_enforced [OF p this] p show ?thesis by auto
qed

lemma ex_wrapped: "wrapped [''bash'', ''-c'', ''rm -rf x''] [''sudo'', ''-u'', ''ann'', ''nohup'', ''bash'', ''-c'', ''rm -rf x'']"
proof -
  have sh: "''bash'' \<in> set shells" by (simp add: shells_def)
  have "optionCommand ([''-u'', ''ann''] @ [''nohup'', ''bash'', ''-c'', ''rm -rf x'']) sudo_options = length [''-u'', ''ann'']"
    by code_simp
  from by_sudo [OF by_nohup [OF bare [OF shell_c_payload(2) [OF sh]]] this] show ?thesis by simp
qed

theorem wrapped_payload_is_scanned_witness:
  "\<exists>x u v. scannableCommandAtDepth ''rm -rf x'' 1 = Some x \<and>
     the (scannableCommand (shell_line [''sudo'', ''-u'', ''ann'', ''nohup'', ''bash'', ''-c'', ''rm -rf x''])) = u @ NL # x @ v"
proof -
  have sh: "''bash'' \<in> set shells" by (simp add: shells_def)
  have nl: "NL \<notin> set (shell_line [''sudo'', ''-u'', ''ann'', ''nohup'', ''bash'', ''-c'', ''rm -rf x''])" by code_simp
  have "scannableCommand (shell_line [''sudo'', ''-u'', ''ann'', ''nohup'', ''bash'', ''-c'', ''rm -rf x'']) =
      Some (''sudo -u ann nohup bash -c '' @ [SQ, SQ, NL] @ ''rm -rf x'')" by code_simp
  from wrapped_payload_is_scanned [OF sh ex_wrapped nl this] this show ?thesis by auto
qed


end
