(* ===== verification/Session_Types.thy ===== *)
theory Session_Types
  imports Thread_Refs Json Scopes
begin

text \<open>
  The data of sessions (\<open>src/types.ts\<close>, \<open>src/sessions/session-store.ts\<close>) and the functions on
  entries: summaries of the context, tenure, previews, search terms (\<open>src/sessions/entry-search.ts\<close>).
  A payload is a JSON value whose numbers are integers. The ellipsis is the character 133.
\<close>

section \<open>Entries\<close>

datatype entry_type =
  EUser | EAssistant | EThinking | EText | EToolCall | EToolResult | ESoul | ESystem | EDelivery
| EApprovalRequest | EApprovalResolved

record session =
  se_id :: string
  se_type :: session_type
  se_scopeId :: scope_id
  se_threadRef :: string
  se_surface :: "string option"
  se_createdAt :: time
  se_channelName :: "string option"
  se_title :: "string option"
  se_forkedFrom :: "(string \<times> string option) option"
  se_forkBoundarySeq :: "int option"

record session_entry =
  en_sessionId :: string
  en_seq :: nat
  en_parentSeq :: "nat option"
  en_type :: entry_type
  en_payload :: json
  en_scopeLabel :: scope_id
  en_createdAt :: time

record new_entry =
  ne_type :: entry_type
  ne_payload :: json
  ne_scopeLabel :: scope_id

text \<open>\<open>(payload as { f?: unknown } | null)?.f\<close>.\<close>

definition field :: "string \<Rightarrow> json \<Rightarrow> json option" where
  "field f payload = (case payload of JObj fs \<Rightarrow> map_of fs f | _ \<Rightarrow> None)"

definition string_field :: "string \<Rightarrow> json \<Rightarrow> string option" where
  "string_field f payload = (case field f payload of Some (JStr s) \<Rightarrow> Some s | _ \<Rightarrow> None)"

section \<open>The context window\<close>

record context_summary =
  cs_throughSeq :: int
  cs_text :: string

definition contextSummaryPayload :: "session_entry \<Rightarrow> context_summary option" where
  "contextSummaryPayload e =
     (if en_type e = ESystem \<and> field ''kind'' (en_payload e) = Some (JStr ''context_summary'')
      then (case (field ''throughSeq'' (en_payload e), string_field ''text'' (en_payload e)) of
              (Some (JNum n), Some t) \<Rightarrow> Some \<lparr>cs_throughSeq = n, cs_text = t\<rparr>
            | _ \<Rightarrow> None)
      else None)"

definition createContextSummaryPayload :: "int \<Rightarrow> string \<Rightarrow> json" where
  "createContextSummaryPayload n t =
     JObj [(''kind'', JStr ''context_summary''), (''throughSeq'', JNum n), (''text'', JStr t)]"

definition entrySecurityTainted :: "session_entry \<Rightarrow> bool" where
  "entrySecurityTainted e = (field ''securityTainted'' (en_payload e) = Some (JBool True))"

record context_window =
  cw_entries :: "session_entry list"
  cw_totalEntries :: nat
  cw_hasSecurityTaint :: bool

definition latest_summary :: "session_entry list \<Rightarrow> context_summary option" where
  "latest_summary es = foldl (\<lambda>l e. or_opt (contextSummaryPayload e) l) None es"

definition contextWindowFromEntries :: "session_entry list \<Rightarrow> context_window" where
  "contextWindowFromEntries es =
     \<lparr>cw_entries = (case latest_summary es of None \<Rightarrow> es | Some c \<Rightarrow> filter (\<lambda>e. int (en_seq e) > cs_throughSeq c) es),
      cw_totalEntries = length es,
      cw_hasSecurityTaint = list_ex entrySecurityTainted es\<rparr>"

section \<open>Tenure\<close>

record participant_window =
  pw_validFrom :: time
  pw_validTo :: "time option"
  pw_validFromSeq :: "nat option"
  pw_validToSeq :: "nat option"
  pw_title :: "string option"
  pw_archived :: bool
  pw_pinned :: bool
  pw_color :: "string option"

definition entryWithinTenure :: "nat \<Rightarrow> time \<Rightarrow> participant_window \<Rightarrow> bool" where
  "entryWithinTenure seq createdAt w =
     ((case pw_validFromSeq w of Some n \<Rightarrow> seq \<ge> n | None \<Rightarrow> createdAt \<ge> pw_validFrom w) \<and>
      (case pw_validToSeq w of
         Some n \<Rightarrow> seq < n
       | None \<Rightarrow> (case pw_validTo w of None \<Rightarrow> True | Some t \<Rightarrow> createdAt < t)))"

definition isOverheardEntry :: "session_entry \<Rightarrow> bool" where
  "isOverheardEntry e = (en_type e = EUser \<and> field ''overheard'' (en_payload e) = Some (JBool True))"

definition entryDeliveryKey :: "session_entry \<Rightarrow> string option" where
  "entryDeliveryKey e = string_field ''deliveryKey'' (en_payload e)"

definition transcriptEntries :: "session_entry list \<Rightarrow> session_entry list" where
  "transcriptEntries es = filter (\<lambda>e. en_type e \<noteq> ESoul) es"

section \<open>Previews\<close>

text \<open>\<open>text.split("\n\n")\<close>.\<close>

fun split_paragraphs :: "string \<Rightarrow> string list" where
  "split_paragraphs [] = [[]]"
| "split_paragraphs [c] = [[c]]"
| "split_paragraphs (c # d # cs) =
     (if c = CHR 10 \<and> d = CHR 10 then [] # split_paragraphs cs
      else (case split_paragraphs (d # cs) of [] \<Rightarrow> [[c]] | w # ws \<Rightarrow> (c # w) # ws))"

fun join_paragraphs :: "string list \<Rightarrow> string" where
  "join_paragraphs [] = []"
| "join_paragraphs [p] = p"
| "join_paragraphs (p # q # ps) = p @ [CHR 10, CHR 10] @ join_paragraphs (q # ps)"

definition bracketed :: "string \<Rightarrow> bool" where
  "bracketed p = startsWith (dropWhile is_space p) ''[''"

definition message_text :: "json \<Rightarrow> string" where
  "message_text payload = (case payload of JStr s \<Rightarrow> s | _ \<Rightarrow> or_else (string_field ''text'' payload) [])"

text \<open>
  Strings have code units below 256, so the ellipsis that marks a cut preview is the code unit 133,
  its place in the 8-bit code page; one code unit either way.
\<close>

definition userMessagePreview :: "json \<Rightarrow> nat \<Rightarrow> string" where
  "userMessagePreview payload maxLen =
     (let t = message_text payload;
          unbracketed = trim (join_paragraphs (filter (\<lambda>p. \<not> bracketed p) (split_paragraphs t)));
          kept = (if unbracketed \<noteq> [] then unbracketed else trim t);
          oneLine = trim (collapse_spaces kept)
      in if length oneLine > maxLen then take (maxLen - 1) oneLine @ [CHR 133] else oneLine)"

section \<open>Search\<close>

definition SEARCHABLE_ENTRY_TYPES :: "entry_type list" where
  "SEARCHABLE_ENTRY_TYPES = [EUser, EAssistant, EText]"

text \<open>The letters and numbers among the code units below 256.\<close>

definition letter_or_number :: "char \<Rightarrow> bool" where
  "letter_or_number c =
     (let n = (of_char c :: nat)
      in 48 \<le> n \<and> n \<le> 57 \<or> 65 \<le> n \<and> n \<le> 90 \<or> 97 \<le> n \<and> n \<le> 122 \<or> 192 \<le> n \<and> n \<noteq> 215 \<and> n \<noteq> 247 \<or>
         n \<in> {170, 178, 179, 181, 185, 186, 188, 189, 190})"

text \<open>\<open>split(/[^\p{L}\p{N}]+/u)\<close>; runs of other characters separate, also at the ends.\<close>

fun split_words :: "string \<Rightarrow> string list" where
  "split_words [] = [[]]"
| "split_words (c # cs) =
     (if letter_or_number c then (case split_words cs of [] \<Rightarrow> [[c]] | w # ws \<Rightarrow> (c # w) # ws)
      else (case cs of
              d # _ \<Rightarrow> if letter_or_number d then [] # split_words cs else split_words cs
            | [] \<Rightarrow> [[], []]))"

definition searchTerms :: "string \<Rightarrow> string list" where
  "searchTerms query = take 8 (filter (\<lambda>w. w \<noteq> []) (split_words (toLowerCase query)))"

definition matchesSearchTerms :: "string \<Rightarrow> string list \<Rightarrow> bool" where
  "matchesSearchTerms t terms =
     (terms \<noteq> [] \<and>
      (let words = split_words (toLowerCase t)
       in list_all (\<lambda>term. list_ex (\<lambda>w. if length term \<ge> 3 then startsWith w term else w = term) words) terms))"

definition entrySearchText :: "json \<Rightarrow> string option" where
  "entrySearchText payload = (case payload of JStr s \<Rightarrow> Some s | _ \<Rightarrow> string_field ''text'' payload)"

definition entrySearchAuthor :: "session_entry \<Rightarrow> string option" where
  "entrySearchAuthor e =
     (if en_type e \<noteq> EUser then None
      else (case string_field ''name'' (en_payload e) of
              Some n \<Rightarrow> if trim n \<noteq> [] then Some (trim n) else None | None \<Rightarrow> None))"

text \<open>The text an entry is found by, if any.\<close>

definition searchable_text :: "session_entry \<Rightarrow> string option" where
  "searchable_text e =
     (if en_type e \<in> set SEARCHABLE_ENTRY_TYPES
      then (case entrySearchText (en_payload e) of Some t \<Rightarrow> if trim t \<noteq> [] then Some t else None | None \<Rightarrow> None)
      else None)"

end
