(* ===== verification/Session_Store.thy ===== *)
theory Session_Store
  imports Session_Types Interfaces
begin

text \<open>
  The store of sessions (\<open>createMemorySessionStore\<close> of \<open>src/sessions/memory-session-store.ts\<close>): the maps
  of the closure are the fields of the state. A session is written only under its lease; its entries
  form a log, beside it a tape for the model, an index for searching, the tenures of the participants
  and the pins. Objects that the source changes in place are values under their key here.
\<close>

section \<open>State\<close>

datatype lease_holder = LhTurn | LhCompaction | LhFork | LhBackfill

record session_lease =
  le_sessionId :: string
  le_token :: uuid

record lease_row =
  lr_token :: uuid
  lr_expiresAt :: time
  lr_acquiredAt :: time
  lr_holder :: "lease_holder option"

record lease_attempt =
  la_lease :: "session_lease option"
  la_heldBy :: "lease_holder option"
  la_heldSince :: "time option"
  la_heldUntil :: "time option"

datatype tape_kind = TkMessage | TkContextEvent | TkAnnotation

record new_tape_record =
  nt_kind :: tape_kind
  nt_payload :: json
  nt_scopeLabel :: scope_id
  nt_harness :: "string option"
  nt_meta :: "json option"
  nt_entrySeq :: "int option"
  nt_coversEntrySeq :: "int option"

record tape_record = new_tape_record +
  tp_sessionId :: string
  tp_seq :: nat
  tp_createdAt :: time

record search_row =
  sr_seq :: nat
  sr_type :: entry_type
  sr_author :: "string option"
  sr_text :: string
  sr_createdAt :: time

record new_session_pin =
  np_text :: "string option"
  np_entrySeq :: "int option"
  np_addedBy :: string

record session_pin = new_session_pin +
  sp_id :: uuid
  sp_sessionId :: string
  sp_createdAt :: time

record llm_request =
  lq_id :: uuid
  lq_sessionId :: string
  lq_turnSeq :: "int option"
  lq_step :: int
  lq_model :: string
  lq_scopeLabel :: scope_id
  lq_createdAt :: time
  lq_promptHash :: "string option"
  lq_truncated :: bool
  lq_metrics :: json

record session_store =
  ss_leaseTtlMs :: int
  ss_sessions :: "(string, session) jsmap"
  ss_entries :: "(string, session_entry list) jsmap"
  ss_tape :: "(string, tape_record list) jsmap"
  ss_search :: "(string, search_row list) jsmap"
  ss_llm :: "(string, llm_request list) jsmap"
  ss_llmSeq :: "(string, nat) jsmap"
  ss_llmCount :: nat
  ss_envelopes :: "(string, string) jsmap"
  ss_byThread :: "(string, string) jsmap"
  ss_participants :: "(string, string list) jsmap"
  ss_pins :: "(string, session_pin list) jsmap"
  ss_windows :: "(string, (string, participant_window) jsmap) jsmap"
  ss_leases :: "(string, lease_row) jsmap"

definition createMemorySessionStore :: "int option \<Rightarrow> session_store" where
  "createMemorySessionStore ttl =
     \<lparr>ss_leaseTtlMs = or_else ttl 300000, ss_sessions = [], ss_entries = [], ss_tape = [], ss_search = [], ss_llm = [],
      ss_llmSeq = [], ss_llmCount = 0, ss_envelopes = [], ss_byThread = [], ss_participants = [], ss_pins = [],
      ss_windows = [], ss_leases = []\<rparr>"

section \<open>Sessions\<close>

definition log_of :: "session_store \<Rightarrow> string \<Rightarrow> session_entry list" where
  "log_of st i = or_else (map_get (ss_entries st) i) []"

definition refresh_session :: "session \<Rightarrow> string option \<Rightarrow> string option \<Rightarrow> session" where
  "refresh_session s channelName surface =
     (let s1 = (if truthy channelName \<and> se_channelName s \<noteq> channelName then s\<lparr>se_channelName := channelName\<rparr> else s)
      in if truthy surface \<and> \<not> truthy (se_surface s1) then s1\<lparr>se_surface := surface\<rparr> else s1)"

definition new_session ::
  "time \<Rightarrow> uuid \<Rightarrow> string \<Rightarrow> session_type \<Rightarrow> scope_id \<Rightarrow> string option \<Rightarrow> string option \<Rightarrow> session" where
  "new_session now i threadRef type scope channelName surface =
     \<lparr>se_id = i, se_type = type, se_scopeId = scope, se_threadRef = threadRef,
      se_surface = (if truthy surface then surface else None), se_createdAt = now,
      se_channelName = (if truthy channelName then channelName else None), se_title = None, se_forkedFrom = None,
      se_forkBoundarySeq = None\<rparr>"

definition existing_session :: "session_store \<Rightarrow> string \<Rightarrow> session option" where
  "existing_session st threadRef =
     (case map_get (ss_byThread st) threadRef of
        None \<Rightarrow> None | Some i \<Rightarrow> if i = [] then None else map_get (ss_sessions st) i)"

definition getOrCreateByThread ::
  "time \<Rightarrow> uuid \<Rightarrow> string \<Rightarrow> session_type \<Rightarrow> scope_id \<Rightarrow> string option \<Rightarrow> string option \<Rightarrow> session_store \<Rightarrow> session_store \<times> session" where
  "getOrCreateByThread now i threadRef type scope channelName surface st =
     (case existing_session st threadRef of
        Some s \<Rightarrow>
          (let s' = refresh_session s channelName surface;
               key = the (map_get (ss_byThread st) threadRef)
           in (st\<lparr>ss_sessions := map_set key s' (ss_sessions st)\<rparr>, s'))
      | None \<Rightarrow>
          (let s = new_session now i threadRef type scope channelName surface
           in (st\<lparr>ss_sessions := map_set i s (ss_sessions st), ss_entries := map_set i [] (ss_entries st),
                  ss_byThread := map_set threadRef i (ss_byThread st)\<rparr>, s)))"

definition getByThread :: "session_store \<Rightarrow> string \<Rightarrow> session option" where
  "getByThread st threadRef = existing_session st threadRef"

definition get_session :: "session_store \<Rightarrow> string \<Rightarrow> session option" where
  "get_session st i = map_get (ss_sessions st) i"

definition on_session :: "string \<Rightarrow> (session \<Rightarrow> session) \<Rightarrow> session_store \<Rightarrow> session_store" where
  "on_session i f st =
     (case map_get (ss_sessions st) i of
        None \<Rightarrow> st | Some s \<Rightarrow> st\<lparr>ss_sessions := map_set i (f s) (ss_sessions st)\<rparr>)"

definition updateTitle :: "string \<Rightarrow> string \<Rightarrow> session_store \<Rightarrow> session_store" where
  "updateTitle i title st = on_session i (\<lambda>s. s\<lparr>se_title := Some title\<rparr>) st"

definition updateForkProvenance :: "string \<Rightarrow> string \<times> string option \<Rightarrow> int \<Rightarrow> session_store \<Rightarrow> session_store" where
  "updateForkProvenance i source boundary st =
     on_session i (\<lambda>s. s\<lparr>se_forkedFrom := Some source, se_forkBoundarySeq := Some boundary\<rparr>) st"

section \<open>Leases\<close>

definition held :: "time \<Rightarrow> session_store \<Rightarrow> string \<Rightarrow> bool" where
  "held now st i = (case map_get (ss_leases st) i of None \<Rightarrow> False | Some l \<Rightarrow> now < lr_expiresAt l)"

text \<open>\<open>lease\<close> is the lease that is on record and it has not run out.\<close>

definition valid_lease :: "time \<Rightarrow> session_store \<Rightarrow> session_lease \<Rightarrow> bool" where
  "valid_lease now st l =
     (case map_get (ss_leases st) (le_sessionId l) of
        None \<Rightarrow> False | Some r \<Rightarrow> lr_token r = le_token l \<and> now < lr_expiresAt r)"

definition acquireLease ::
  "time \<Rightarrow> uuid \<Rightarrow> string \<Rightarrow> lease_holder option \<Rightarrow> session_store \<Rightarrow> session_store \<times> lease_attempt" where
  "acquireLease now token i holder st =
     (if map_get (ss_sessions st) i = None
      then (st, \<lparr>la_lease = None, la_heldBy = None, la_heldSince = None, la_heldUntil = None\<rparr>)
      else (case (if held now st i then map_get (ss_leases st) i else None) of
              Some r \<Rightarrow> (st, \<lparr>la_lease = None, la_heldBy = lr_holder r, la_heldSince = Some (lr_acquiredAt r),
                              la_heldUntil = Some (lr_expiresAt r)\<rparr>)
            | None \<Rightarrow>
                (st\<lparr>ss_leases := map_set i \<lparr>lr_token = token, lr_expiresAt = now + ss_leaseTtlMs st, lr_acquiredAt = now,
                                           lr_holder = holder\<rparr> (ss_leases st)\<rparr>,
                 \<lparr>la_lease = Some \<lparr>le_sessionId = i, le_token = token\<rparr>, la_heldBy = None, la_heldSince = None,
                  la_heldUntil = None\<rparr>)))"

definition peekLease :: "session_store \<Rightarrow> string \<Rightarrow> (lease_holder option \<times> time) option" where
  "peekLease st i = map_option (\<lambda>r. (lr_holder r, lr_expiresAt r)) (map_get (ss_leases st) i)"

definition extend_lease :: "time \<Rightarrow> session_lease \<Rightarrow> session_store \<Rightarrow> session_store" where
  "extend_lease now l st =
     (case map_get (ss_leases st) (le_sessionId l) of
        None \<Rightarrow> st
      | Some r \<Rightarrow> st\<lparr>ss_leases := map_set (le_sessionId l) (r\<lparr>lr_expiresAt := now + ss_leaseTtlMs st\<rparr>) (ss_leases st)\<rparr>)"

definition renewLease :: "time \<Rightarrow> session_lease \<Rightarrow> session_store \<Rightarrow> session_store \<times> bool" where
  "renewLease now l st = (if valid_lease now st l then (extend_lease now l st, True) else (st, False))"

definition releaseLease_session :: "session_lease \<Rightarrow> session_store \<Rightarrow> session_store" where
  "releaseLease_session l st =
     (if map_option lr_token (map_get (ss_leases st) (le_sessionId l)) = Some (le_token l)
      then st\<lparr>ss_leases := map_del (le_sessionId l) (ss_leases st)\<rparr> else st)"

definition forceReleaseLease :: "string \<Rightarrow> session_store \<Rightarrow> session_store" where
  "forceReleaseLease i st = st\<lparr>ss_leases := map_del i (ss_leases st)\<rparr>"

definition forget_membership :: "string \<Rightarrow> string \<Rightarrow> (string, string list) jsmap \<Rightarrow> (string, string list) jsmap" where
  "forget_membership i who ps =
     (case map_get ps who of None \<Rightarrow> ps | Some ids \<Rightarrow> map_set who (removeAll i ids) ps)"

definition deleteSession :: "string \<Rightarrow> session_store \<Rightarrow> session_store" where
  "deleteSession i st =
     st\<lparr>ss_byThread := (case map_get (ss_sessions st) i of
                          None \<Rightarrow> ss_byThread st | Some s \<Rightarrow> map_del (se_threadRef s) (ss_byThread st)),
        ss_participants := fold (forget_membership i) (map_keys (or_else (map_get (ss_windows st) i) [])) (ss_participants st),
        ss_sessions := map_del i (ss_sessions st),
        ss_entries := map_del i (ss_entries st),
        ss_tape := map_del i (ss_tape st),
        ss_search := map_del i (ss_search st),
        ss_llm := map_del i (ss_llm st),
        ss_windows := map_del i (ss_windows st),
        ss_leases := map_del i (ss_leases st),
        ss_pins := map_del i (ss_pins st)\<rparr>"

definition deleteSessionIfEmpty :: "time \<Rightarrow> string \<Rightarrow> session_store \<Rightarrow> session_store \<times> bool" where
  "deleteSessionIfEmpty now i st =
     (if map_get (ss_sessions st) i = None then (st, False)
      else if log_of st i \<noteq> [] then (st, False)
      else if held now st i then (st, False)
      else (deleteSession i st, True))"

section \<open>Entries\<close>

datatype write_error = NoValidLease | UnknownSession

definition make_entry :: "time \<Rightarrow> string \<Rightarrow> nat \<Rightarrow> new_entry \<Rightarrow> session_entry" where
  "make_entry now i seq e =
     \<lparr>en_sessionId = i, en_seq = seq, en_parentSeq = (if seq = 0 then None else Some (seq - 1)), en_type = ne_type e,
      en_payload = ne_payload e, en_scopeLabel = ne_scopeLabel e, en_createdAt = now\<rparr>"

definition index_entry :: "session_entry \<Rightarrow> (string, search_row list) jsmap \<Rightarrow> (string, search_row list) jsmap" where
  "index_entry e idx =
     (case searchable_text e of
        None \<Rightarrow> idx
      | Some t \<Rightarrow> map_set (en_sessionId e)
          (or_else (map_get idx (en_sessionId e)) [] @
             [\<lparr>sr_seq = en_seq e, sr_type = en_type e, sr_author = entrySearchAuthor e, sr_text = t,
               sr_createdAt = en_createdAt e\<rparr>]) idx)"

definition append_entry :: "time \<Rightarrow> session_lease \<Rightarrow> new_entry \<Rightarrow> session_store \<Rightarrow> session_store \<times> (write_error + session_entry)" where
  "append_entry now l e st =
     (if \<not> valid_lease now st l then (st, Inl NoValidLease)
      else
        let st1 = extend_lease now l st
        in case map_get (ss_entries st1) (le_sessionId l) of
             None \<Rightarrow> (st1, Inl UnknownSession)
           | Some log \<Rightarrow>
               (let full = make_entry now (le_sessionId l) (length log) e
                in (st1\<lparr>ss_entries := map_set (le_sessionId l) (log @ [full]) (ss_entries st1),
                        ss_search := index_entry full (ss_search st1)\<rparr>, Inr full)))"

text \<open>\<open>slice(-n)\<close> gives everything for \<open>n = 0\<close>.\<close>

definition slice_last :: "nat option \<Rightarrow> 'a list \<Rightarrow> 'a list" where
  "slice_last limit xs = (case limit of None \<Rightarrow> xs | Some n \<Rightarrow> if n = 0 then xs else take_last n xs)"

definition getEntries :: "session_store \<Rightarrow> string \<Rightarrow> nat option \<Rightarrow> nat option \<Rightarrow> session_entry list" where
  "getEntries st i sinceSeq limit = slice_last limit (filter (\<lambda>e. en_seq e \<ge> or_else sinceSeq 0) (log_of st i))"

definition getContextWindow :: "session_store \<Rightarrow> string \<Rightarrow> context_window" where
  "getContextWindow st i = contextWindowFromEntries (log_of st i)"

definition getEntry :: "session_store \<Rightarrow> string \<Rightarrow> nat \<Rightarrow> session_entry option" where
  "getEntry st i seq = List.find (\<lambda>e. en_seq e = seq) (log_of st i)"

definition latestEntrySeq :: "session_store \<Rightarrow> string \<Rightarrow> int" where
  "latestEntrySeq st i = int (length (log_of st i)) - 1"

text \<open>Spreading an array gives an object with its indices as keys.\<close>

definition untaint :: "json \<Rightarrow> json" where
  "untaint payload =
     (case payload of
        JObj fs \<Rightarrow> JObj (filter (\<lambda>(k, v). k \<noteq> ''securityTainted'') fs)
      | JArr xs \<Rightarrow> JObj (zip (map show_nat [0..<length xs]) xs)
      | _ \<Rightarrow> payload)"

definition clearSecurityTaint :: "string \<Rightarrow> session_store \<Rightarrow> session_store \<times> bool" where
  "clearSecurityTaint i st =
     (case map_get (ss_entries st) i of
        None \<Rightarrow> (st, False)
      | Some log \<Rightarrow> (st\<lparr>ss_entries := map_set i (map (\<lambda>e. e\<lparr>en_payload := untaint (en_payload e)\<rparr>) log) (ss_entries st)\<rparr>, True))"

section \<open>The tape\<close>

definition tape_of :: "session_store \<Rightarrow> string \<Rightarrow> tape_record list" where
  "tape_of st i = or_else (map_get (ss_tape st) i) []"

definition make_tape :: "time \<Rightarrow> string \<Rightarrow> nat \<Rightarrow> new_tape_record \<Rightarrow> tape_record" where
  "make_tape now i seq r =
     \<lparr>nt_kind = nt_kind r, nt_payload = nt_payload r, nt_scopeLabel = nt_scopeLabel r, nt_harness = nt_harness r,
      nt_meta = nt_meta r, nt_entrySeq = nt_entrySeq r, nt_coversEntrySeq = nt_coversEntrySeq r,
      tp_sessionId = i, tp_seq = seq, tp_createdAt = now\<rparr>"

definition appendTape :: "time \<Rightarrow> session_lease \<Rightarrow> new_tape_record \<Rightarrow> session_store \<Rightarrow> session_store \<times> (write_error + tape_record)" where
  "appendTape now l r st =
     (if \<not> valid_lease now st l then (st, Inl NoValidLease)
      else
        let st1 = extend_lease now l st; log = tape_of st1 (le_sessionId l);
            full = make_tape now (le_sessionId l) (length log) r
        in (st1\<lparr>ss_tape := map_set (le_sessionId l) (log @ [full]) (ss_tape st1)\<rparr>, Inr full))"

definition getTape :: "session_store \<Rightarrow> string \<Rightarrow> int option \<Rightarrow> nat option \<Rightarrow> tape_record list" where
  "getTape st i sinceSeq limit =
     slice_last limit (case sinceSeq of None \<Rightarrow> tape_of st i | Some n \<Rightarrow> filter (\<lambda>r. int (tp_seq r) > n) (tape_of st i))"

definition covered_seq :: "tape_record \<Rightarrow> int" where
  "covered_seq r =
     max (if nt_kind r = TkAnnotation \<and> field ''turnEnd'' (nt_payload r) = Some (JBool True) then or_else (nt_entrySeq r) (- 1) else - 1)
         (if nt_kind r = TkContextEvent \<and> field ''event'' (nt_payload r) = Some (JStr ''legacy_import'')
          then or_else (nt_coversEntrySeq r) (- 1) else - 1)"

definition tapeCoverage :: "session_store \<Rightarrow> string \<Rightarrow> int" where
  "tapeCoverage st i = foldl (\<lambda>m r. max m (covered_seq r)) (- 1) (tape_of st i)"

section \<open>Participants\<close>

definition window_of :: "session_store \<Rightarrow> string \<Rightarrow> string \<Rightarrow> participant_window option" where
  "window_of st i who = Option.bind (map_get (ss_windows st) i) (\<lambda>w. map_get w who)"

definition set_window :: "string \<Rightarrow> string \<Rightarrow> participant_window \<Rightarrow> session_store \<Rightarrow> session_store" where
  "set_window i who win st =
     st\<lparr>ss_windows := map_set i (map_set who win (or_else (map_get (ss_windows st) i) [])) (ss_windows st)\<rparr>"

definition rejoin_window ::
  "time \<Rightarrow> nat \<Rightarrow> bool \<Rightarrow> string option \<Rightarrow> participant_window option \<Rightarrow> participant_window" where
  "rejoin_window now len includeHistory title existing =
     \<lparr>pw_validFrom = (if includeHistory then 0 else now), pw_validTo = None,
      pw_validFromSeq = Some (if includeHistory then 0 else len), pw_validToSeq = None,
      pw_title = (if title \<noteq> None then title else Option.bind existing pw_title),
      pw_archived = (case existing of None \<Rightarrow> False | Some w \<Rightarrow> pw_archived w),
      pw_pinned = (case existing of None \<Rightarrow> False | Some w \<Rightarrow> pw_pinned w),
      pw_color = Option.bind existing pw_color\<rparr>"

definition stay_window :: "bool \<Rightarrow> string option \<Rightarrow> participant_window \<Rightarrow> participant_window" where
  "stay_window includeHistory title w =
     (let w1 = (if includeHistory then w\<lparr>pw_validFrom := 0, pw_validFromSeq := Some 0\<rparr> else w)
      in if title \<noteq> None then w1\<lparr>pw_title := title\<rparr> else w1)"

definition addParticipant ::
  "time \<Rightarrow> string \<Rightarrow> string \<Rightarrow> string option \<Rightarrow> bool \<Rightarrow> session_store \<Rightarrow> session_store" where
  "addParticipant now i who title includeHistory st =
     (let st1 = st\<lparr>ss_participants := map_set who (set_add i (or_else (map_get (ss_participants st) who) [])) (ss_participants st)\<rparr>
      in set_window i who
           (case window_of st i who of
              Some w \<Rightarrow> if pw_validTo w \<noteq> None then rejoin_window now (length (log_of st i)) includeHistory title (Some w)
                        else stay_window includeHistory title w
            | None \<Rightarrow> rejoin_window now (length (log_of st i)) includeHistory title None) st1)"

definition removeParticipant :: "time \<Rightarrow> string \<Rightarrow> string \<Rightarrow> session_store \<Rightarrow> session_store" where
  "removeParticipant now i who st =
     (case window_of st i who of
        None \<Rightarrow> st
      | Some w \<Rightarrow>
          if pw_validTo w = None
          then set_window i who (w\<lparr>pw_validTo := Some now, pw_validToSeq := Some (length (log_of st i))\<rparr>) st else st)"

text \<open>A patch of a view; a field that is not given stays, \<open>Some None\<close> is \<open>null\<close>.\<close>

record view_patch =
  vp_title :: "string option option"
  vp_archived :: "bool option"
  vp_pinned :: "bool option"
  vp_color :: "string option option"

definition patch_window :: "view_patch \<Rightarrow> participant_window \<Rightarrow> participant_window" where
  "patch_window p w =
     w\<lparr>pw_title := or_else (vp_title p) (pw_title w), pw_archived := or_else (vp_archived p) (pw_archived w),
       pw_pinned := or_else (vp_pinned p) (pw_pinned w), pw_color := or_else (vp_color p) (pw_color w)\<rparr>"

definition updateParticipantView :: "string \<Rightarrow> string \<Rightarrow> view_patch \<Rightarrow> session_store \<Rightarrow> session_store" where
  "updateParticipantView i who p st =
     (case window_of st i who of None \<Rightarrow> st | Some w \<Rightarrow> set_window i who (patch_window p w) st)"

record session_row = session +
  rw_archived :: bool
  rw_pinned :: bool
  rw_color :: "string option"
  rw_lastActivityAt :: time
  rw_hasEntries :: bool

definition participantSession :: "session_store \<Rightarrow> string \<Rightarrow> string \<Rightarrow> session_row option" where
  "participantSession st i who =
     map_option (\<lambda>s.
       let view = window_of st i who; all = log_of st i
       in \<lparr>se_id = se_id s, se_type = se_type s, se_scopeId = se_scopeId s, se_threadRef = se_threadRef s,
           se_surface = se_surface s, se_createdAt = se_createdAt s, se_channelName = se_channelName s,
           se_title = or_opt (Option.bind view pw_title) (se_title s), se_forkedFrom = se_forkedFrom s,
           se_forkBoundarySeq = se_forkBoundarySeq s,
           rw_archived = (case view of None \<Rightarrow> False | Some w \<Rightarrow> pw_archived w),
           rw_pinned = (case view of None \<Rightarrow> False | Some w \<Rightarrow> pw_pinned w),
           rw_color = Option.bind view pw_color,
           rw_lastActivityAt = foldl max (se_createdAt s) (map en_createdAt (filter (\<lambda>e. en_type e = EUser) all)),
           rw_hasEntries = (case view of None \<Rightarrow> False
              | Some w \<Rightarrow> list_ex (\<lambda>e. entryWithinTenure (en_seq e) (en_createdAt e) w) all)\<rparr>)
       (map_get (ss_sessions st) i)"

definition listByParticipant :: "session_store \<Rightarrow> string \<Rightarrow> nat option \<Rightarrow> session_row list" where
  "listByParticipant st who limit =
     (case map_get (ss_participants st) who of
        None \<Rightarrow> []
      | Some ids \<Rightarrow>
          (let out = List.map_filter (\<lambda>i. participantSession st i who) ids
           in case limit of
                None \<Rightarrow> out
              | Some n \<Rightarrow> take n (js_sort (\<lambda>a b. rw_lastActivityAt b - rw_lastActivityAt a) out)))"

definition getForParticipant :: "session_store \<Rightarrow> string \<Rightarrow> string \<Rightarrow> session_row option" where
  "getForParticipant st i who =
     (if i \<in> set (or_else (map_get (ss_participants st) who) []) then participantSession st i who else None)"

definition visibleEntries :: "session_store \<Rightarrow> string \<Rightarrow> string \<Rightarrow> session_entry list" where
  "visibleEntries st i who =
     (case window_of st i who of
        None \<Rightarrow> [] | Some w \<Rightarrow> filter (\<lambda>e. entryWithinTenure (en_seq e) (en_createdAt e) w) (log_of st i))"

definition participantsOf :: "session_store \<Rightarrow> string \<Rightarrow> string list" where
  "participantsOf st i = map_keys (or_else (map_get (ss_windows st) i) [])"

definition distinctParticipants :: "session_store \<Rightarrow> string list" where
  "distinctParticipants st = js_set_of (concat (map map_keys (map_vals (ss_windows st))))"

section \<open>Pins\<close>

definition pins_of :: "session_store \<Rightarrow> string \<Rightarrow> session_pin list" where
  "pins_of st i = or_else (map_get (ss_pins st) i) []"

definition addPin ::
  "time \<Rightarrow> uuid \<Rightarrow> string \<Rightarrow> new_session_pin \<Rightarrow> nat option \<Rightarrow> session_store \<Rightarrow> session_store \<times> session_pin option" where
  "addPin now pinId i pin maxPins st =
     (if map_get (ss_sessions st) i = None then (st, None)
      else if (case maxPins of None \<Rightarrow> False | Some n \<Rightarrow> length (pins_of st i) \<ge> n) then (st, None)
      else
        let rec = \<lparr>np_text = np_text pin, np_entrySeq = np_entrySeq pin, np_addedBy = np_addedBy pin,
                   sp_id = pinId, sp_sessionId = i, sp_createdAt = now\<rparr>
        in (st\<lparr>ss_pins := map_set i (pins_of st i @ [rec]) (ss_pins st)\<rparr>, Some rec))"

definition removePin :: "string \<Rightarrow> uuid \<Rightarrow> session_store \<Rightarrow> session_store \<times> bool" where
  "removePin i pinId st =
     (case map_get (ss_pins st) i of
        None \<Rightarrow> (st, False)
      | Some ps \<Rightarrow>
          (let next = filter (\<lambda>p. sp_id p \<noteq> pinId) ps
           in if length next = length ps then (st, False) else (st\<lparr>ss_pins := map_set i next (ss_pins st)\<rparr>, True)))"

section \<open>Search\<close>

record entry_search_hit =
  eh_sessionId :: string
  eh_scopeId :: scope_id
  eh_title :: "string option"
  eh_channelName :: "string option"
  eh_surface :: "string option"
  eh_archived :: bool
  eh_seq :: nat
  eh_type :: entry_type
  eh_author :: "string option"
  eh_text :: string
  eh_createdAt :: time

definition make_hit :: "session \<Rightarrow> participant_window \<Rightarrow> string \<Rightarrow> search_row \<Rightarrow> entry_search_hit" where
  "make_hit s w i r =
     \<lparr>eh_sessionId = i, eh_scopeId = se_scopeId s, eh_title = or_opt (pw_title w) (se_title s),
      eh_channelName = se_channelName s, eh_surface = se_surface s, eh_archived = pw_archived w, eh_seq = sr_seq r,
      eh_type = sr_type r, eh_author = sr_author r, eh_text = sr_text r, eh_createdAt = sr_createdAt r\<rparr>"

definition hits_in :: "session_store \<Rightarrow> string \<Rightarrow> string list \<Rightarrow> string \<Rightarrow> entry_search_hit list" where
  "hits_in st who terms i =
     (case (window_of st i who, map_get (ss_sessions st) i) of
        (Some w, Some s) \<Rightarrow>
          map (make_hit s w i)
            (filter (\<lambda>r. entryWithinTenure (sr_seq r) (sr_createdAt r) w \<and> matchesSearchTerms (sr_text r) terms)
               (or_else (map_get (ss_search st) i) []))
      | _ \<Rightarrow> [])"

definition idDesc :: "string \<Rightarrow> string \<Rightarrow> int" where
  "idDesc a b = (if a < b then 1 else if b < a then - 1 else 0)"

definition hit_order :: "entry_search_hit \<Rightarrow> entry_search_hit \<Rightarrow> int" where
  "hit_order a b =
     (if eh_createdAt b \<noteq> eh_createdAt a then eh_createdAt b - eh_createdAt a
      else if idDesc (eh_sessionId a) (eh_sessionId b) \<noteq> 0 then idDesc (eh_sessionId a) (eh_sessionId b)
      else int (eh_seq b) - int (eh_seq a))"

definition searchEntries :: "session_store \<Rightarrow> string \<Rightarrow> string \<Rightarrow> nat \<Rightarrow> entry_search_hit list" where
  "searchEntries st who query limit =
     (let terms = searchTerms query
      in if terms = [] then []
         else take (max 1 (min limit 200))
                (js_sort hit_order (concat (map (hits_in st who terms) (or_else (map_get (ss_participants st) who) [])))))"

fun new_rows :: "nat list \<Rightarrow> search_row list \<Rightarrow> search_row list" where
  "new_rows seen [] = []"
| "new_rows seen (r # rs) =
     (if sr_seq r \<in> set seen then new_rows seen rs else r # new_rows (sr_seq r # seen) rs)"

definition appendSearchEntries :: "time \<Rightarrow> session_lease \<Rightarrow> search_row list \<Rightarrow> session_store \<Rightarrow> session_store \<times> (write_error + unit)" where
  "appendSearchEntries now l rows st =
     (if \<not> valid_lease now st l then (st, Inl NoValidLease)
      else
        let st1 = extend_lease now l st; index = or_else (map_get (ss_search st1) (le_sessionId l)) []
        in (st1\<lparr>ss_search := map_set (le_sessionId l)
               (js_sort (\<lambda>a b. int (sr_seq a) - int (sr_seq b)) (index @ new_rows (map sr_seq index) rows)) (ss_search st1)\<rparr>,
            Inr ()))"

definition searchIndexCoverage :: "session_store \<Rightarrow> string \<Rightarrow> int" where
  "searchIndexCoverage st i =
     (case last_opt (or_else (map_get (ss_search st) i) []) of None \<Rightarrow> - 1 | Some r \<Rightarrow> int (sr_seq r))"

definition missingSearchEntries :: "session_store \<Rightarrow> string \<Rightarrow> nat" where
  "missingSearchEntries st i =
     (let indexed = map sr_seq (or_else (map_get (ss_search st) i) [])
      in length (filter (\<lambda>e. searchable_text e \<noteq> None \<and> en_seq e \<notin> set indexed) (log_of st i)))"

definition lastSearchableEntrySeq :: "session_store \<Rightarrow> string \<Rightarrow> int" where
  "lastSearchableEntrySeq st i =
     (case List.find (\<lambda>e. searchable_text e \<noteq> None) (rev (log_of st i)) of None \<Rightarrow> - 1 | Some e \<Rightarrow> int (en_seq e))"

section \<open>Requests to the model\<close>

record new_llm_request =
  nl_turnSeq :: "int option"
  nl_step :: int
  nl_model :: string
  nl_scopeLabel :: scope_id
  nl_envelope :: "(string \<times> string) option"
  nl_truncated :: bool
  nl_metrics :: json

text \<open>
  \<open>nl_envelope\<close> is what \<open>promptEnvelopeBody\<close> makes of the prompt: its hash and its JSON text;
  \<open>nl_metrics\<close> stands for the timings and the usage, which are only stored.
\<close>

definition recordLlmRequest :: "time \<Rightarrow> uuid \<Rightarrow> string \<Rightarrow> new_llm_request \<Rightarrow> session_store \<Rightarrow> session_store \<times> llm_request" where
  "recordLlmRequest now reqId i r st =
     (let full = \<lparr>lq_id = reqId, lq_sessionId = i, lq_turnSeq = nl_turnSeq r, lq_step = nl_step r, lq_model = nl_model r,
                  lq_scopeLabel = nl_scopeLabel r, lq_createdAt = now, lq_promptHash = map_option fst (nl_envelope r),
                  lq_truncated = nl_truncated r, lq_metrics = nl_metrics r\<rparr>
      in (st\<lparr>ss_envelopes := (case nl_envelope r of
                None \<Rightarrow> ss_envelopes st
              | Some (h, body) \<Rightarrow> if map_get (ss_envelopes st) h = None then map_set h body (ss_envelopes st) else ss_envelopes st),
             ss_llm := map_set i (or_else (map_get (ss_llm st) i) [] @ [full]) (ss_llm st),
             ss_llmCount := Suc (ss_llmCount st),
             ss_llmSeq := map_set reqId (Suc (ss_llmCount st)) (ss_llmSeq st)\<rparr>, full))"

text \<open>Each request with the body of its envelope, if it is wanted and known.\<close>

definition listLlmRequests ::
  "session_store \<Rightarrow> string \<Rightarrow> int list option \<Rightarrow> bool \<Rightarrow> bool \<Rightarrow> (llm_request \<times> string option) list" where
  "listLlmRequests st i turnSeqs orphans omitRequest =
     (let all = or_else (map_get (ss_llm st) i) [];
          wanted = (if turnSeqs \<noteq> None \<or> orphans
                    then filter (\<lambda>r. (case (turnSeqs, lq_turnSeq r) of (Some ts, Some t) \<Rightarrow> t \<in> set ts | _ \<Rightarrow> False) \<or>
                                     orphans \<and> lq_turnSeq r = None) all
                    else all)
      in map (\<lambda>r. (r, if omitRequest then None else Option.bind (lq_promptHash r) (map_get (ss_envelopes st)))) wanted)"

end
