(* ===== verification/Session_Props.thy ===== *)
theory Session_Props
  imports Session_Store
begin

text \<open>
  Runs of the session store: every sequence of its operations, with the clock never going back and
  fresh random identifiers. What holds in every reachable state, and what a lapsed lease, a left
  participant and a search can see.
\<close>

section \<open>Runs\<close>

datatype session_op =
  OpOpen uuid string session_type scope_id "string option" "string option"
| OpTitle string string
| OpFork string "string \<times> string option" int
| OpAcquire uuid string "lease_holder option"
| OpRenew session_lease
| OpRelease session_lease
| OpForce string
| OpDelete string
| OpDeleteIfEmpty string
| OpAppend session_lease new_entry
| OpUntaint string
| OpTape session_lease new_tape_record
| OpIndex session_lease "search_row list"
| OpJoin string string "string option" bool
| OpLeave string string
| OpView string string view_patch
| OpPin uuid string new_session_pin "nat option"
| OpUnpin string uuid
| OpLlm uuid string new_llm_request

fun session_exec :: "time \<Rightarrow> session_op \<Rightarrow> session_store \<Rightarrow> session_store" where
  "session_exec now (OpOpen i t ty sc ch su) st = fst (getOrCreateByThread now i t ty sc ch su st)"
| "session_exec now (OpTitle i t) st = updateTitle i t st"
| "session_exec now (OpFork i src b) st = updateForkProvenance i src b st"
| "session_exec now (OpAcquire tok i h) st = fst (acquireLease now tok i h st)"
| "session_exec now (OpRenew l) st = fst (renewLease now l st)"
| "session_exec now (OpRelease l) st = releaseLease_session l st"
| "session_exec now (OpForce i) st = forceReleaseLease i st"
| "session_exec now (OpDelete i) st = deleteSession i st"
| "session_exec now (OpDeleteIfEmpty i) st = fst (deleteSessionIfEmpty now i st)"
| "session_exec now (OpAppend l e) st = fst (append_entry now l e st)"
| "session_exec now (OpUntaint i) st = fst (clearSecurityTaint i st)"
| "session_exec now (OpTape l r) st = fst (appendTape now l r st)"
| "session_exec now (OpIndex l rows) st = fst (appendSearchEntries now l rows st)"
| "session_exec now (OpJoin i who t h) st = addParticipant now i who t h st"
| "session_exec now (OpLeave i who) st = removeParticipant now i who st"
| "session_exec now (OpView i who p) st = updateParticipantView i who p st"
| "session_exec now (OpPin pid i pin m) st = fst (addPin now pid i pin m st)"
| "session_exec now (OpUnpin i pid) st = fst (removePin i pid st)"
| "session_exec now (OpLlm rid i r) st = fst (recordLlmRequest now rid i r st)"

text \<open>The random identifiers an operation uses.\<close>

fun op_ids :: "session_op \<Rightarrow> uuid list" where
  "op_ids (OpOpen i t ty sc ch su) = [i]"
| "op_ids (OpAcquire tok i h) = [tok]"
| "op_ids (OpPin pid i pin m) = [pid]"
| "op_ids (OpLlm rid i r) = [rid]"
| "op_ids _ = []"

text \<open>Rows for the index are made from entries of the log.\<close>

definition row_of :: "session_entry list \<Rightarrow> search_row \<Rightarrow> bool" where
  "row_of log r = (sr_seq r < length log \<and> sr_createdAt r = en_createdAt (log ! sr_seq r))"

fun op_allowed :: "session_op \<Rightarrow> session_store \<Rightarrow> bool" where
  "op_allowed (OpIndex l rows) st = list_all (row_of (log_of st (le_sessionId l))) rows"
| "op_allowed _ st = True"

record session_run =
  rn_now :: time
  rn_used :: "uuid list"
  rn_store :: session_store

definition starts :: "session_run \<Rightarrow> bool" where
  "starts c = (\<exists>ttl. rn_used c = [] \<and> rn_store c = createMemorySessionStore ttl)"

inductive session_step :: "session_op \<Rightarrow> session_run \<Rightarrow> session_run \<Rightarrow> bool" where
  "now \<ge> rn_now c \<Longrightarrow> set (op_ids op) \<inter> set (rn_used c) = {} \<Longrightarrow> [] \<notin> set (op_ids op) \<Longrightarrow> op_allowed op (rn_store c) \<Longrightarrow>
   session_step op c \<lparr>rn_now = now, rn_used = op_ids op @ rn_used c, rn_store = session_exec now op (rn_store c)\<rparr>"

inductive_cases session_stepE: "session_step op c c'"

definition some_step :: "session_run \<Rightarrow> session_run \<Rightarrow> bool" where
  "some_step c c' = (\<exists>op. session_step op c c')"

section \<open>The invariant\<close>

definition log_ok :: "string \<Rightarrow> session_entry list \<Rightarrow> bool" where
  "log_ok i log = (\<forall>k<length log. en_sessionId (log ! k) = i \<and> en_seq (log ! k) = k \<and>
     en_parentSeq (log ! k) = (if k = 0 then None else Some (k - 1)))"

definition index_ok :: "session_entry list \<Rightarrow> search_row list \<Rightarrow> bool" where
  "index_ok log rows = (list_all (row_of log) rows \<and> sorted_wrt (\<lambda>a b. sr_seq a < sr_seq b) rows)"

definition sessions_ok :: "session_store \<Rightarrow> bool" where
  "sessions_ok st =
     ((\<forall>i s. map_get (ss_sessions st) i = Some s \<longrightarrow>
          se_id s = i \<and> i \<noteq> [] \<and> map_get (ss_byThread st) (se_threadRef s) = Some i) \<and>
      (\<forall>t i. map_get (ss_byThread st) t = Some i \<longrightarrow> (\<exists>s. map_get (ss_sessions st) i = Some s \<and> se_threadRef s = t)) \<and>
      (\<forall>i. map_get (ss_entries st) i = None \<longleftrightarrow> map_get (ss_sessions st) i = None) \<and>
      (\<forall>i. map_get (ss_leases st) i \<noteq> None \<longrightarrow> map_get (ss_sessions st) i \<noteq> None) \<and>
      (\<forall>i rows. map_get (ss_search st) i = Some rows \<longrightarrow> map_get (ss_sessions st) i \<noteq> None))"

definition logs_ok :: "session_store \<Rightarrow> bool" where
  "logs_ok st = (\<forall>i. log_ok i (log_of st i) \<and> index_ok (log_of st i) (or_else (map_get (ss_search st) i) []))"

definition members_ok :: "session_store \<Rightarrow> bool" where
  "members_ok st =
     (map_ok (ss_windows st) \<and> (\<forall>i w. map_get (ss_windows st) i = Some w \<longrightarrow> map_ok w) \<and>
      (\<forall>i who. i \<in> set (or_else (map_get (ss_participants st) who) []) \<longleftrightarrow> window_of st i who \<noteq> None) \<and>
      (\<forall>i who w. window_of st i who = Some w \<longrightarrow>
         pw_validFromSeq w \<noteq> None \<and> (pw_validTo w = None \<longleftrightarrow> pw_validToSeq w = None)))"

definition session_inv :: "session_run \<Rightarrow> bool" where
  "session_inv c =
     (sessions_ok (rn_store c) \<and> logs_ok (rn_store c) \<and> members_ok (rn_store c) \<and>
      (\<forall>i. map_get (ss_sessions (rn_store c)) i \<noteq> None \<longrightarrow> i \<in> set (rn_used c)) \<and>
      (\<forall>i r. map_get (ss_leases (rn_store c)) i = Some r \<longrightarrow> lr_token r \<in> set (rn_used c)))"

section \<open>What an operation leaves alone\<close>

lemmas op_defs = getOrCreateByThread_def updateTitle_def updateForkProvenance_def on_session_def acquireLease_def renewLease_def
  releaseLease_session_def forceReleaseLease_def deleteSessionIfEmpty_def append_entry_def clearSecurityTaint_def
  appendTape_def appendSearchEntries_def addParticipant_def removeParticipant_def updateParticipantView_def addPin_def
  removePin_def recordLlmRequest_def extend_lease_def set_window_def

fun changes_members :: "session_op \<Rightarrow> bool" where
  "changes_members (OpDelete i) = True"
| "changes_members (OpDeleteIfEmpty i) = True"
| "changes_members (OpJoin i who t h) = True"
| "changes_members (OpLeave i who) = True"
| "changes_members (OpView i who p) = True"
| "changes_members _ = False"

fun changes_logs :: "session_op \<Rightarrow> bool" where
  "changes_logs (OpOpen i t ty sc ch su) = True"
| "changes_logs (OpDelete i) = True"
| "changes_logs (OpDeleteIfEmpty i) = True"
| "changes_logs (OpAppend l e) = True"
| "changes_logs (OpUntaint i) = True"
| "changes_logs (OpIndex l rows) = True"
| "changes_logs _ = False"

fun changes_sessions :: "session_op \<Rightarrow> bool" where
  "changes_sessions (OpOpen i t ty sc ch su) = True"
| "changes_sessions (OpTitle i t) = True"
| "changes_sessions (OpFork i src b) = True"
| "changes_sessions (OpDelete i) = True"
| "changes_sessions (OpDeleteIfEmpty i) = True"
| "changes_sessions _ = False"

lemma members_unchanged:
  "\<not> changes_members op \<Longrightarrow>
     ss_windows (session_exec now op st) = ss_windows st \<and> ss_participants (session_exec now op st) = ss_participants st"
  by (cases op) (auto simp: op_defs Let_def split: option.splits)

lemma logs_unchanged:
  "\<not> changes_logs op \<Longrightarrow>
     ss_entries (session_exec now op st) = ss_entries st \<and> ss_search (session_exec now op st) = ss_search st"
  by (cases op) (auto simp: op_defs Let_def split: option.splits)

lemma sessions_unchanged:
  "\<not> changes_sessions op \<Longrightarrow>
     ss_sessions (session_exec now op st) = ss_sessions st \<and> ss_byThread (session_exec now op st) = ss_byThread st"
  by (cases op) (auto simp: op_defs Let_def split: option.splits)

lemma ttl_unchanged: "ss_leaseTtlMs (session_exec now op st) = ss_leaseTtlMs st"
  by (cases op) (auto simp: op_defs Let_def deleteSession_def split: option.splits)

section \<open>Leases\<close>

lemma valid_lease_iff:
  "valid_lease now st l \<longleftrightarrow>
     (\<exists>r. map_get (ss_leases st) (le_sessionId l) = Some r \<and> lr_token r = le_token l \<and> now < lr_expiresAt r)"
  by (simp add: valid_lease_def split: option.splits)

text \<open>
  How a lease can come to be on record after an operation: it was, with the same token and the same
  end; or the holder of a valid lease extended it; or it was just acquired.
\<close>

lemma lease_after:
  assumes "map_get (ss_leases (session_exec now op st)) i = Some r"
  shows "map_get (ss_leases st) i = Some r \<or>
    (\<exists>r0. map_get (ss_leases st) i = Some r0 \<and> lr_token r0 = lr_token r \<and> now < lr_expiresAt r0) \<or>
    lr_token r \<in> set (op_ids op) \<and> map_get (ss_sessions st) i \<noteq> None"
proof (cases op)
  case (OpAcquire tok j h)
  then show ?thesis using assms
    by (auto simp: op_defs held_def Let_def split: option.splits if_splits)
next
  case (OpRenew l)
  then show ?thesis using assms by (auto simp: op_defs valid_lease_iff split: if_splits option.splits)
next
  case (OpAppend l e)
  then show ?thesis using assms by (auto simp: op_defs valid_lease_iff Let_def split: if_splits option.splits)
next
  case (OpTape l r)
  then show ?thesis using assms by (auto simp: op_defs valid_lease_iff Let_def split: if_splits option.splits)
next
  case (OpIndex l rows)
  then show ?thesis using assms by (auto simp: op_defs valid_lease_iff Let_def split: if_splits option.splits)
qed (use assms in \<open>auto simp: op_defs deleteSession_def Let_def split: if_splits option.splits\<close>)

definition lapsed :: "session_lease \<Rightarrow> session_run \<Rightarrow> bool" where
  "lapsed l c = (le_token l \<in> set (rn_used c) \<and> \<not> valid_lease (rn_now c) (rn_store c) l)"

lemma lapsed_step: "session_step op c c' \<Longrightarrow> lapsed l c \<Longrightarrow> lapsed l c'"
proof (elim session_stepE)
  fix now
  assume now: "rn_now c \<le> now" and fresh: "set (op_ids op) \<inter> set (rn_used c) = {}" and l: "lapsed l c"
    and c': "c' = \<lparr>rn_now = now, rn_used = op_ids op @ rn_used c, rn_store = session_exec now op (rn_store c)\<rparr>"
  have "\<not> valid_lease now (session_exec now op (rn_store c)) l"
  proof
    assume "valid_lease now (session_exec now op (rn_store c)) l"
    then obtain r where r: "map_get (ss_leases (session_exec now op (rn_store c))) (le_sessionId l) = Some r"
      "lr_token r = le_token l" "now < lr_expiresAt r" by (auto simp: valid_lease_iff)
    from lease_after [OF r(1)] have "valid_lease (rn_now c) (rn_store c) l \<or> le_token l \<in> set (op_ids op)"
      using r(2,3) now unfolding valid_lease_iff by force
    then show False using l fresh by (auto simp: lapsed_def)
  qed
  then show ?thesis using l c' by (simp add: lapsed_def)
qed

lemma lapsed_steps: "some_step\<^sup>*\<^sup>* c c' \<Longrightarrow> lapsed l c \<Longrightarrow> lapsed l c'"
  by (induction rule: rtranclp_induct) (auto simp: some_step_def dest: lapsed_step)

section \<open>The invariant is kept\<close>

fun opens_or_deletes :: "session_op \<Rightarrow> bool" where
  "opens_or_deletes (OpOpen i t ty sc ch su) = True"
| "opens_or_deletes (OpDelete i) = True"
| "opens_or_deletes (OpDeleteIfEmpty i) = True"
| "opens_or_deletes _ = False"

lemma entries_dom:
  "\<not> opens_or_deletes op \<Longrightarrow> map_get (ss_entries (session_exec now op st)) i = None \<longleftrightarrow> map_get (ss_entries st) i = None"
  by (cases op) (auto simp: op_defs Let_def split: option.splits)

lemma search_dom:
  "\<not> opens_or_deletes op \<Longrightarrow> map_get (ss_search (session_exec now op st)) i \<noteq> None \<Longrightarrow>
     map_get (ss_search st) i \<noteq> None \<or> map_get (ss_leases st) i \<noteq> None"
  by (cases op)
    (auto simp: op_defs Let_def index_entry_def make_entry_def valid_lease_def split: option.splits if_splits)

lemma sessions_okD:
  assumes "sessions_ok st"
  shows "map_get (ss_sessions st) i = Some s \<Longrightarrow> se_id s = i \<and> i \<noteq> [] \<and> map_get (ss_byThread st) (se_threadRef s) = Some i"
    and "map_get (ss_byThread st) t = Some i \<Longrightarrow> \<exists>s. map_get (ss_sessions st) i = Some s \<and> se_threadRef s = t"
    and "map_get (ss_entries st) i = None \<longleftrightarrow> map_get (ss_sessions st) i = None"
    and "map_get (ss_leases st) i \<noteq> None \<Longrightarrow> map_get (ss_sessions st) i \<noteq> None"
    and "map_get (ss_search st) i \<noteq> None \<Longrightarrow> map_get (ss_sessions st) i \<noteq> None"
  using assms unfolding sessions_ok_def by blast+

text \<open>The session an operation leaves under an id: the same one, but for its title and the like.\<close>

lemma session_kept:
  assumes "\<not> opens_or_deletes op"
  shows "map_option se_id (map_get (ss_sessions (session_exec now op st)) i) = map_option se_id (map_get (ss_sessions st) i)"
    "map_option se_threadRef (map_get (ss_sessions (session_exec now op st)) i) = map_option se_threadRef (map_get (ss_sessions st) i)"
    "ss_byThread (session_exec now op st) = ss_byThread st"
  using assms by (cases op; auto simp: op_defs Let_def split: option.splits)+

lemma sessions_ok_step:
  assumes ok: "sessions_ok st" and op: "\<not> opens_or_deletes op"
  shows "sessions_ok (session_exec now op st)"
proof -
  let ?st = "session_exec now op st"
  note keep = session_kept [OF op, of now st]
  have none: "map_get (ss_sessions ?st) i = None \<longleftrightarrow> map_get (ss_sessions st) i = None" for i
    using keep(1) [of i] by (metis map_option_is_None)
  have same: "\<exists>s0. map_get (ss_sessions st) i = Some s0 \<and> se_id s = se_id s0 \<and> se_threadRef s = se_threadRef s0"
    if "map_get (ss_sessions ?st) i = Some s" for i s
    using keep(1,2) [of i] that by (cases "map_get (ss_sessions st) i") auto
  have 1: "se_id s = i \<and> i \<noteq> [] \<and> map_get (ss_byThread ?st) (se_threadRef s) = Some i" if "map_get (ss_sessions ?st) i = Some s" for i s
    using same [OF that] sessions_okD(1) [OF ok] keep(3) by metis
  have 2: "\<exists>s. map_get (ss_sessions ?st) i = Some s \<and> se_threadRef s = t" if b: "map_get (ss_byThread ?st) t = Some i" for i t
  proof -
    obtain s0 where "map_get (ss_sessions st) i = Some s0" "se_threadRef s0 = t"
      using sessions_okD(2) [OF ok, of t i] b unfolding keep(3) by blast
    then show ?thesis using keep(2) [of i] by auto
  qed
  have 3: "map_get (ss_entries ?st) i = None \<longleftrightarrow> map_get (ss_sessions ?st) i = None" for i
    using entries_dom [OF op] sessions_okD(3) [OF ok] none by simp
  have 4: "map_get (ss_sessions ?st) i \<noteq> None" if l: "map_get (ss_leases ?st) i \<noteq> None" for i
  proof -
    obtain r where "map_get (ss_leases ?st) i = Some r" using l by blast
    then have "map_get (ss_leases st) i \<noteq> None \<or> map_get (ss_sessions st) i \<noteq> None" using lease_after by blast
    then show ?thesis using sessions_okD(4) [OF ok, of i] none [of i] by metis
  qed
  have 5: "map_get (ss_sessions ?st) i \<noteq> None" if "map_get (ss_search ?st) i \<noteq> None" for i
    using search_dom [OF op that] sessions_okD(4,5) [OF ok, of i] none [of i] by metis
  show ?thesis unfolding sessions_ok_def using 1 2 3 4 5 by blast
qed

lemma refresh_session_sel [simp]:
  "se_id (refresh_session s ch su) = se_id s" "se_threadRef (refresh_session s ch su) = se_threadRef s"
  by (simp_all add: refresh_session_def Let_def)

lemma sessions_ok_open:
  assumes ok: "sessions_ok st" and fresh: "map_get (ss_sessions st) i = None" "i \<noteq> []"
  shows "sessions_ok (session_exec now (OpOpen i t ty sc ch su) st)"
proof (cases "existing_session st t")
  case None
  have bt: "map_get (ss_byThread st) t = None"
  proof (rule ccontr)
    assume "map_get (ss_byThread st) t \<noteq> None"
    then obtain j s where "map_get (ss_byThread st) t = Some j" "map_get (ss_sessions st) j = Some s" "j \<noteq> []"
      using sessions_okD(1,2) [OF ok] by (metis option.exhaust)
    then show False using None by (simp add: existing_session_def)
  qed
  have "map_get (ss_byThread st) t' \<noteq> Some i" for t' using sessions_okD(2) [OF ok, of t' i] fresh by auto
  then show ?thesis using ok fresh None bt unfolding sessions_ok_def
    by (auto simp: getOrCreateByThread_def Let_def new_session_def)
next
  case (Some s)
  then obtain j where j: "map_get (ss_byThread st) t = Some j" "map_get (ss_sessions st) j = Some s"
    by (auto simp: existing_session_def split: option.splits if_splits)
  have thread: "se_threadRef s = t'" if "map_get (ss_byThread st) t' = Some j" for t'
    using sessions_okD(2) [OF ok that] j(2) by auto
  show ?thesis using ok j Some unfolding sessions_ok_def
    by (auto simp: getOrCreateByThread_def Let_def dest: thread)
qed

lemma sessions_ok_delete: "sessions_ok st \<Longrightarrow> sessions_ok (deleteSession i st)"
proof -
  assume ok: "sessions_ok st"
  let ?st = "deleteSession i st"
  have sess: "map_get (ss_sessions ?st) j = (if j = i then None else map_get (ss_sessions st) j)" for j
    by (simp add: deleteSession_def)
  have bt: "map_get (ss_byThread ?st) t = (case map_get (ss_byThread st) t of None \<Rightarrow> None | Some j \<Rightarrow> if j = i then None else Some j)" for t
  proof (cases "map_get (ss_sessions st) i")
    case None
    then have "map_get (ss_byThread st) t \<noteq> Some i" using sessions_okD(2) [OF ok, of t i] by auto
    with None show ?thesis by (auto simp: deleteSession_def split: option.splits)
  next
    case (Some s)
    have "map_get (ss_byThread st) t = Some i \<longleftrightarrow> t = se_threadRef s"
      using sessions_okD(1) [OF ok Some] sessions_okD(2) [OF ok, of t i] Some by auto
    with Some show ?thesis by (auto simp: deleteSession_def split: option.splits)
  qed
  have ent: "map_get (ss_entries ?st) j = None \<longleftrightarrow> map_get (ss_sessions ?st) j = None" for j
    using sessions_okD(3) [OF ok, of j] by (simp add: deleteSession_def)
  have rest: "map_get (ss_leases ?st) j \<noteq> None \<or> map_get (ss_search ?st) j \<noteq> None \<Longrightarrow> map_get (ss_sessions ?st) j \<noteq> None" for j
    using sessions_okD(4,5) [OF ok, of j] unfolding sess by (auto simp: deleteSession_def split: if_splits)
  have 1: "se_id s = j \<and> j \<noteq> [] \<and> map_get (ss_byThread ?st) (se_threadRef s) = Some j" if "map_get (ss_sessions ?st) j = Some s" for j s
    using that sessions_okD(1) [OF ok, of j s] unfolding sess bt by (auto split: if_splits)
  have 2: "\<exists>s. map_get (ss_sessions ?st) j = Some s \<and> se_threadRef s = t" if "map_get (ss_byThread ?st) t = Some j" for j t
    using that sessions_okD(2) [OF ok, of t j] unfolding sess bt by (auto split: if_splits option.splits)
  show ?thesis unfolding sessions_ok_def using 1 2 ent rest by blast
qed

lemma log_of_simps:
  "log_of (st\<lparr>ss_entries := map_set i log es\<rparr>) j = (if j = i then log else or_else (map_get es j) [])"
  by (simp add: log_of_def)

lemma log_ok_snoc: "log_ok i log \<Longrightarrow> log_ok i (log @ [make_entry now i (length log) e])"
  by (auto simp: log_ok_def make_entry_def nth_append less_Suc_eq)

lemma make_entry_sel [simp]:
  "en_sessionId (make_entry now i n e) = i" "en_seq (make_entry now i n e) = n" "en_createdAt (make_entry now i n e) = now"
  by (simp_all add: make_entry_def)

lemma row_of_snoc: "row_of log r \<Longrightarrow> row_of (log @ [e]) r"
  by (auto simp: row_of_def nth_append)

lemma index_ok_snoc:
  assumes "index_ok log rows"
  shows "index_ok (log @ [e]) rows"
    "sr_seq r = length log \<Longrightarrow> sr_createdAt r = en_createdAt e \<Longrightarrow> index_ok (log @ [e]) (rows @ [r])"
  using assms by (auto simp: index_ok_def list_all_iff row_of_snoc sorted_wrt_append row_of_def nth_append)

lemma index_ok_untaint:
  "index_ok log rows \<Longrightarrow> index_ok (map (\<lambda>e. e\<lparr>en_payload := untaint (en_payload e)\<rparr>) log) rows"
  by (auto simp: index_ok_def list_all_iff row_of_def)

lemma new_rows_distinct:
  "distinct (map sr_seq (new_rows seen rs)) \<and> set (map sr_seq (new_rows seen rs)) \<inter> set seen = {} \<and> set (new_rows seen rs) \<subseteq> set rs"
  by (induction seen rs rule: new_rows.induct) auto

lemma sorted_strict: "sorted (map f xs) \<Longrightarrow> distinct (map f xs) \<Longrightarrow> sorted_wrt (\<lambda>a b. f a < (f b :: nat)) xs"
  by (induction xs) (auto simp: order.strict_iff_order)

lemma seq_sort: "js_sort (\<lambda>a b. int (sr_seq a) - int (sr_seq b)) xs = sort_key sr_seq xs"
  by (rule js_sort_key) auto

lemma index_ok_sort:
  assumes "index_ok log rows" "list_all (row_of log) extra"
  shows "index_ok log (js_sort (\<lambda>a b. int (sr_seq a) - int (sr_seq b)) (rows @ new_rows (map sr_seq rows) extra))"
proof -
  let ?xs = "rows @ new_rows (map sr_seq rows) extra"
  have "distinct (map sr_seq rows)"
    using assms(1) by (auto simp: index_ok_def distinct_map sorted_wrt_map [symmetric] strict_sorted_iff)
  then have "distinct (map sr_seq ?xs)" using new_rows_distinct [of "map sr_seq rows" extra] by auto
  then have "distinct (map sr_seq (sort_key sr_seq ?xs))" by (simp only: distinct_map distinct_sort set_sort)
  then have "sorted_wrt (\<lambda>a b. sr_seq a < sr_seq b) (sort_key sr_seq ?xs)" by (intro sorted_strict) simp_all
  moreover have "list_all (row_of log) (sort_key sr_seq ?xs)"
    using assms new_rows_distinct [of "map sr_seq rows" extra] by (auto simp: index_ok_def list_all_iff)
  ultimately show ?thesis by (simp add: index_ok_def seq_sort)
qed

lemma logs_okD: "logs_ok st \<Longrightarrow> log_ok i (log_of st i)" "logs_ok st \<Longrightarrow> index_ok (log_of st i) (or_else (map_get (ss_search st) i) [])"
  by (simp_all add: logs_ok_def)

lemma logs_ok_append:
  assumes ok: "logs_ok st"
  shows "logs_ok (fst (append_entry now l e st))"
proof (cases "valid_lease now st l")
  case v: True
  let ?i = "le_sessionId l"
  let ?st1 = "extend_lease now l st"
  have f: "ss_entries ?st1 = ss_entries st" "ss_search ?st1 = ss_search st"
    by (simp_all add: extend_lease_def split: option.splits)
  show ?thesis
  proof (cases "map_get (ss_entries st) ?i")
    case None
    then show ?thesis using ok v f by (simp add: append_entry_def Let_def logs_ok_def log_of_def)
  next
    case (Some log)
    let ?e = "make_entry now ?i (length log) e"
    let ?st2 = "?st1\<lparr>ss_entries := map_set ?i (log @ [?e]) (ss_entries st), ss_search := index_entry ?e (ss_search st)\<rparr>"
    have st2: "fst (append_entry now l e st) = ?st2" using v f Some by (simp add: append_entry_def Let_def)
    have log: "log_of st ?i = log" using Some by (simp add: log_of_def)
    have other: "log_of ?st2 j = log_of st j \<and> map_get (ss_search ?st2) j = map_get (ss_search st) j" if "j \<noteq> ?i" for j
      using that f by (simp add: log_of_def index_entry_def split: option.splits)
    have here: "log_of ?st2 ?i = log @ [?e]" by (simp add: log_of_def)
    have "log_ok ?i (log @ [?e])" using logs_okD(1) [OF ok, of ?i] log by (simp add: log_ok_snoc)
    moreover have "index_ok (log @ [?e]) (or_else (map_get (ss_search ?st2) ?i) [])"
    proof (cases "searchable_text ?e")
      case None
      then show ?thesis using logs_okD(2) [OF ok, of ?i] log by (simp add: index_entry_def index_ok_snoc(1))
    next
      case (Some t)
      then show ?thesis using logs_okD(2) [OF ok, of ?i] log
        by (simp add: index_entry_def index_ok_snoc(2))
    qed
    ultimately have "log_ok j (log_of ?st2 j) \<and> index_ok (log_of ?st2 j) (or_else (map_get (ss_search ?st2) j) [])" for j
      using other [of j] logs_okD [OF ok, of j] here by (cases "j = ?i") auto
    then show ?thesis unfolding st2 logs_ok_def by blast
  qed
qed (use ok in \<open>simp add: append_entry_def\<close>)

lemma logs_ok_index:
  assumes ok: "logs_ok st" and rows: "list_all (row_of (log_of st (le_sessionId l))) rows"
  shows "logs_ok (fst (appendSearchEntries now l rows st))"
proof (cases "valid_lease now st l")
  case True
  have f: "ss_entries (extend_lease now l st) = ss_entries st" "ss_search (extend_lease now l st) = ss_search st"
    by (simp_all add: extend_lease_def split: option.splits)
  have "index_ok (log_of st (le_sessionId l)) (js_sort (\<lambda>a b. int (sr_seq a) - int (sr_seq b))
      (or_else (map_get (ss_search st) (le_sessionId l)) [] @
       new_rows (map sr_seq (or_else (map_get (ss_search st) (le_sessionId l)) [])) rows))"
    by (rule index_ok_sort [OF logs_okD(2) [OF ok] rows])
  then show ?thesis using ok True f unfolding logs_ok_def appendSearchEntries_def Let_def
    by (simp add: log_of_def)
qed (use ok in \<open>simp add: appendSearchEntries_def\<close>)

lemma log_ok_untaint: "log_ok i log \<Longrightarrow> log_ok i (map (\<lambda>e. e\<lparr>en_payload := untaint (en_payload e)\<rparr>) log)"
  by (simp add: log_ok_def)

lemma logs_ok_untaint:
  assumes ok: "logs_ok st"
  shows "logs_ok (fst (clearSecurityTaint i st))"
proof (cases "map_get (ss_entries st) i")
  case (Some log)
  then have "log_of st i = log" by (simp add: log_of_def)
  then have "log_ok i (map (\<lambda>e. e\<lparr>en_payload := untaint (en_payload e)\<rparr>) log)"
    "index_ok (map (\<lambda>e. e\<lparr>en_payload := untaint (en_payload e)\<rparr>) log) (or_else (map_get (ss_search st) i) [])"
    using logs_okD [OF ok, of i] by (simp_all add: log_ok_untaint index_ok_untaint)
  then show ?thesis using ok Some unfolding logs_ok_def clearSecurityTaint_def by (simp add: log_of_def)
qed (use ok in \<open>simp add: clearSecurityTaint_def\<close>)

lemma logs_ok_delete: "logs_ok st \<Longrightarrow> logs_ok (deleteSession i st)"
  unfolding logs_ok_def deleteSession_def by (simp add: log_of_def) (simp add: log_ok_def index_ok_def)

lemma logs_ok_open:
  assumes "logs_ok st" "sessions_ok st" "map_get (ss_sessions st) i = None"
  shows "logs_ok (session_exec now (OpOpen i t ty sc ch su) st)"
proof -
  have "map_get (ss_search st) i = None" using sessions_okD(5) [OF assms(2), of i] assms(3) by metis
  then show ?thesis using assms(1) unfolding logs_ok_def
    by (auto simp: getOrCreateByThread_def Let_def log_of_def split: option.splits) (simp_all add: log_ok_def index_ok_def)
qed

lemma logs_ok_frame:
  "ss_entries st' = ss_entries st \<Longrightarrow> ss_search st' = ss_search st \<Longrightarrow> logs_ok st \<Longrightarrow> logs_ok st'"
  by (simp add: logs_ok_def log_of_def)

section \<open>Members\<close>

lemma members_frame:
  "ss_windows st' = ss_windows st \<Longrightarrow> ss_participants st' = ss_participants st \<Longrightarrow> members_ok st \<Longrightarrow> members_ok st'"
  by (simp add: members_ok_def window_of_def)

lemma window_of_set [simp]:
  "window_of (set_window i who w st) j x = (if j = i \<and> x = who then Some w else window_of st j x)"
  by (auto simp: window_of_def set_window_def or_else_def bind_eq_None_conv split: option.splits)

lemma set_window_participants [simp]: "ss_participants (set_window i who w st) = ss_participants st"
  by (simp add: set_window_def)

lemma members_okD:
  assumes "members_ok st"
  shows "map_ok (ss_windows st)" "map_get (ss_windows st) i = Some w \<Longrightarrow> map_ok w"
    "i \<in> set (or_else (map_get (ss_participants st) who) []) \<longleftrightarrow> window_of st i who \<noteq> None"
    "window_of st i who = Some win \<Longrightarrow> pw_validFromSeq win \<noteq> None \<and> (pw_validTo win = None \<longleftrightarrow> pw_validToSeq win = None)"
  using assms unfolding members_ok_def by blast+

lemma members_set_window:
  assumes ok: "members_ok st" and w: "pw_validFromSeq w \<noteq> None" "pw_validTo w = None \<longleftrightarrow> pw_validToSeq w = None"
    and ps: "\<And>j x. j \<in> set (or_else (map_get (ss_participants st') x) []) \<longleftrightarrow>
      j = i \<and> x = who \<or> j \<in> set (or_else (map_get (ss_participants st) x) [])"
    and ws: "ss_windows st' = ss_windows st"
  shows "members_ok (set_window i who w st')"
proof -
  have w1: "window_of st' j x = window_of st j x" for j x using ws by (simp add: window_of_def)
  have "map_ok (ss_windows (set_window i who w st'))" using members_okD(1) [OF ok] ws by (simp add: set_window_def)
  moreover have "map_ok v" if "map_get (ss_windows (set_window i who w st')) j = Some v" for j v
    using that members_okD(2) [OF ok] ws map_ok_set [OF map_ok_Nil, of who w]
    by (auto simp: set_window_def or_else_def split: if_splits option.splits)
  moreover have "j \<in> set (or_else (map_get (ss_participants (set_window i who w st')) x) []) \<longleftrightarrow>
      window_of (set_window i who w st') j x \<noteq> None" for j x
    using members_okD(3) [OF ok, of j x] ps [of j x] w1 [of j x] by auto
  moreover have "pw_validFromSeq v \<noteq> None \<and> (pw_validTo v = None \<longleftrightarrow> pw_validToSeq v = None)"
    if "window_of (set_window i who w st') j x = Some v" for j x v
    using that members_okD(4) [OF ok, of j x v] w w1 [of j x] by (auto split: if_splits)
  ultimately show ?thesis unfolding members_ok_def by blast
qed

lemma rejoin_window_ok:
  "pw_validFromSeq (rejoin_window now n h t ex) \<noteq> None \<and>
   (pw_validTo (rejoin_window now n h t ex) = None \<longleftrightarrow> pw_validToSeq (rejoin_window now n h t ex) = None)"
  by (simp add: rejoin_window_def)

lemma members_join:
  assumes ok: "members_ok st"
  shows "members_ok (addParticipant now i who t h st)"
proof -
  have w: "pw_validFromSeq (stay_window h t win) \<noteq> None \<and>
      (pw_validTo (stay_window h t win) = None \<longleftrightarrow> pw_validToSeq (stay_window h t win) = None)"
    if "window_of st i who = Some win" for win
    using members_okD(4) [OF ok that] by (simp add: stay_window_def Let_def)
  let ?st1 = "st\<lparr>ss_participants := map_set who (set_add i (or_else (map_get (ss_participants st) who) [])) (ss_participants st)\<rparr>"
  have ps: "j \<in> set (or_else (map_get (ss_participants ?st1) x) []) \<longleftrightarrow>
      j = i \<and> x = who \<or> j \<in> set (or_else (map_get (ss_participants st) x) [])" for j x by auto
  have ws: "ss_windows ?st1 = ss_windows st" by simp
  show ?thesis unfolding addParticipant_def Let_def
    using rejoin_window_ok w by (intro members_set_window [OF ok _ _ ps ws]) (auto split: option.splits)
qed

lemma members_leave:
  assumes ok: "members_ok st"
  shows "members_ok (removeParticipant now i who st)"
proof (cases "window_of st i who")
  case (Some w)
  then have "i \<in> set (or_else (map_get (ss_participants st) who) [])" using members_okD(3) [OF ok, of i who] by simp
  then have "members_ok (set_window i who (w\<lparr>pw_validTo := Some now, pw_validToSeq := Some n\<rparr>) st)" for n
    using members_okD(4) [OF ok Some] by (intro members_set_window [OF ok]) auto
  then show ?thesis using ok Some by (simp add: removeParticipant_def)
qed (use ok in \<open>simp add: removeParticipant_def\<close>)

lemma members_view:
  assumes ok: "members_ok st"
  shows "members_ok (updateParticipantView i who p st)"
proof (cases "window_of st i who")
  case (Some w)
  then have "i \<in> set (or_else (map_get (ss_participants st) who) [])" using members_okD(3) [OF ok, of i who] by simp
  then have "members_ok (set_window i who (patch_window p w) st)"
    using members_okD(4) [OF ok Some] by (intro members_set_window [OF ok]) (auto simp: patch_window_def)
  then show ?thesis using Some by (simp add: updateParticipantView_def)
qed (use ok in \<open>simp add: updateParticipantView_def\<close>)

lemma forget_memberships:
  "j \<in> set (or_else (map_get (fold (forget_membership i) whos ps) x) []) \<longleftrightarrow>
     j \<in> set (or_else (map_get ps x) []) \<and> \<not> (j = i \<and> x \<in> set whos)"
  by (induction whos arbitrary: ps) (auto simp: forget_membership_def split: option.splits)

lemma members_delete:
  assumes ok: "members_ok st"
  shows "members_ok (deleteSession i st)"
proof -
  have w: "window_of (deleteSession i st) j x = (if j = i then None else window_of st j x)" for j x
    by (simp add: window_of_def deleteSession_def)
  have k: "x \<in> set (map_keys (or_else (map_get (ss_windows st) i) [])) \<longleftrightarrow> window_of st i x \<noteq> None" for x
  proof (cases "map_get (ss_windows st) i")
    case (Some w)
    then show ?thesis using map_of_eq_None_iff [of w x] by (simp add: window_of_def)
  qed (simp add: window_of_def)
  have "j \<in> set (or_else (map_get (ss_participants (deleteSession i st)) x) []) \<longleftrightarrow> window_of (deleteSession i st) j x \<noteq> None" for j x
    using members_okD(3) [OF ok, of j x] k [of x] unfolding w by (auto simp: deleteSession_def forget_memberships)
  moreover have "map_ok v" if "map_get (ss_windows (deleteSession i st)) j = Some v" for j v
    using that members_okD(2) [OF ok, of j v] by (auto simp: deleteSession_def split: if_splits)
  moreover have "map_ok (ss_windows (deleteSession i st))" using members_okD(1) [OF ok] by (simp add: deleteSession_def)
  ultimately show ?thesis using members_okD(4) [OF ok] unfolding members_ok_def w by (metis option.distinct(1))
qed

section \<open>Reachable states\<close>

lemma delete_if_empty: "fst (deleteSessionIfEmpty now i st) = st \<or> fst (deleteSessionIfEmpty now i st) = deleteSession i st"
  by (simp add: deleteSessionIfEmpty_def)

lemma sessions_kept:
  assumes "sessions_ok st" "\<forall>i\<in>set (op_ids op). map_get (ss_sessions st) i = None \<and> i \<noteq> []"
  shows "sessions_ok (session_exec now op st)"
proof (cases "opens_or_deletes op")
  case True
  then show ?thesis
  proof (cases op)
    case (OpOpen i t ty sc ch su)
    then show ?thesis using assms sessions_ok_open by simp
  next
    case (OpDeleteIfEmpty i)
    then show ?thesis using assms(1) sessions_ok_delete delete_if_empty [of now i st] by auto
  qed (use assms(1) sessions_ok_delete in auto)
qed (use assms(1) sessions_ok_step in blast)

lemma logs_kept:
  assumes "logs_ok st" "sessions_ok st" "\<forall>i\<in>set (op_ids op). map_get (ss_sessions st) i = None" "op_allowed op st"
  shows "logs_ok (session_exec now op st)"
proof (cases "changes_logs op")
  case True
  then show ?thesis
  proof (cases op)
    case (OpOpen i t ty sc ch su)
    then show ?thesis using assms logs_ok_open by simp
  next
    case (OpDeleteIfEmpty i)
    then show ?thesis using assms(1) logs_ok_delete delete_if_empty [of now i st] by auto
  qed (use assms logs_ok_append logs_ok_index logs_ok_untaint logs_ok_delete in auto)
next
  case False
  then show ?thesis using logs_ok_frame logs_unchanged assms(1) by blast
qed

lemma members_kept:
  assumes "members_ok st"
  shows "members_ok (session_exec now op st)"
proof (cases "changes_members op")
  case True
  then show ?thesis
  proof (cases op)
    case (OpDeleteIfEmpty i)
    then show ?thesis using assms members_delete delete_if_empty [of now i st] by auto
  qed (use assms members_join members_leave members_view members_delete in auto)
next
  case False
  then show ?thesis using members_frame members_unchanged assms by blast
qed

lemma used_sessions:
  "map_get (ss_sessions (session_exec now op st)) i \<noteq> None \<Longrightarrow> map_get (ss_sessions st) i \<noteq> None \<or> i \<in> set (op_ids op)"
  by (cases op)
    (auto simp: op_defs deleteSession_def existing_session_def Let_def split: option.splits if_splits)

lemma session_inv_step: "session_inv c \<Longrightarrow> some_step c c' \<Longrightarrow> session_inv c'"
proof -
  assume inv: "session_inv c" and "some_step c c'"
  then obtain op now where fresh: "set (op_ids op) \<inter> set (rn_used c) = {}" "[] \<notin> set (op_ids op)" "op_allowed op (rn_store c)"
    and c': "c' = \<lparr>rn_now = now, rn_used = op_ids op @ rn_used c, rn_store = session_exec now op (rn_store c)\<rparr>"
    by (auto simp: some_step_def elim!: session_stepE)
  let ?st = "rn_store c"
  have s: "sessions_ok ?st" "logs_ok ?st" "members_ok ?st"
    and used: "\<And>i. map_get (ss_sessions ?st) i \<noteq> None \<Longrightarrow> i \<in> set (rn_used c)"
      "\<And>i r. map_get (ss_leases ?st) i = Some r \<Longrightarrow> lr_token r \<in> set (rn_used c)"
    using inv unfolding session_inv_def by blast+
  have new: "\<forall>i\<in>set (op_ids op). map_get (ss_sessions ?st) i = None \<and> i \<noteq> []" using fresh used(1) by (metis disjoint_iff)
  have "lr_token r \<in> set (op_ids op @ rn_used c)" if "map_get (ss_leases (session_exec now op ?st)) i = Some r" for i r
    using lease_after [OF that] used(2) [of i] by force
  moreover have "i \<in> set (op_ids op @ rn_used c)" if "map_get (ss_sessions (session_exec now op ?st)) i \<noteq> None" for i
    using used_sessions [OF that] used(1) [of i] by auto
  ultimately show ?thesis
    using sessions_kept [OF s(1) new] logs_kept [OF s(2,1) _ fresh(3)] new members_kept [OF s(3)]
    unfolding session_inv_def c' by simp
qed

lemma session_inv_start: "starts c \<Longrightarrow> session_inv c"
  by (auto simp: starts_def session_inv_def createMemorySessionStore_def sessions_ok_def logs_ok_def members_ok_def log_of_def
      window_of_def log_ok_def index_ok_def map_ok_def)

interpretation sess: invariant_system starts some_step session_inv
  by unfold_locales (blast intro: session_inv_start session_inv_step)+

section \<open>What a write does to the log\<close>

lemma extend_lease_entries [simp]: "ss_entries (extend_lease now l st) = ss_entries st"
  by (simp add: extend_lease_def split: option.splits)

lemma append_log:
  assumes "append_entry now l e st = (st', Inr x)"
  shows "log_of st' (le_sessionId l) = log_of st (le_sessionId l) @ [x] \<and> x = make_entry now (le_sessionId l) (length (log_of st (le_sessionId l))) e"
  using assms by (auto simp: append_entry_def log_of_def Let_def split: if_splits option.splits)

lemma append_tape_log: "appendTape now l r st = (st', x) \<Longrightarrow> log_of st' i = log_of st i"
  by (auto simp: appendTape_def log_of_def Let_def split: if_splits)

end
