(* ===== verification/Session_Theorems.thy ===== *)
theory Session_Theorems
  imports Session_Props
begin

text \<open>
  What the session store promises: one writer at a time and none after its lease lapsed, a log that is
  only appended to, tenure that searching and reading respect, and that all of it is, seen from
  outside, a set of logs with at most one writer each.
\<close>

section \<open>One writer\<close>

lemma valid_earlier: "valid_lease now st l \<Longrightarrow> t \<le> now \<Longrightarrow> valid_lease t st l"
  by (auto simp: valid_lease_iff)

text \<open>
  C6. A lease that was handed out once and is not valid any more (it ran out, was released or taken over)
  never becomes valid again, whatever happens in between: with it nothing can be appended to the log,
  the tape or the index, and it cannot be renewed.
\<close>

theorem lapsed_lease_is_dead:
  assumes "le_token l \<in> set (rn_used c)" and "\<not> valid_lease (rn_now c) (rn_store c) l" and "some_step\<^sup>*\<^sup>* c c'"
    and "now \<ge> rn_now c'"
  shows "append_entry now l e (rn_store c') = (rn_store c', Inl NoValidLease) \<and>
    appendTape now l r (rn_store c') = (rn_store c', Inl NoValidLease) \<and>
    appendSearchEntries now l rows (rn_store c') = (rn_store c', Inl NoValidLease) \<and>
    renewLease now l (rn_store c') = (rn_store c', False)"
proof -
  have "lapsed l c'" using lapsed_steps [OF assms(3), of l] assms(1,2) by (simp add: lapsed_def)
  then have "\<not> valid_lease now (rn_store c') l" using valid_earlier [OF _ assms(4)] by (auto simp: lapsed_def)
  then show ?thesis by (simp add: append_entry_def appendTape_def appendSearchEntries_def renewLease_def)
qed

text \<open>
  While a lease of a session is valid no other is, and nobody gets one: trying to acquire it leaves the
  store as it is and reports until when it is held.
\<close>

theorem single_writer:
  assumes "valid_lease now st l"
  shows "(\<forall>l'. valid_lease now st l' \<and> le_sessionId l' = le_sessionId l \<longrightarrow> l' = l) \<and>
    fst (acquireLease now token (le_sessionId l) holder st) = st \<and>
    la_lease (snd (acquireLease now token (le_sessionId l) holder st)) = None"
proof -
  obtain r where r: "map_get (ss_leases st) (le_sessionId l) = Some r" "lr_token r = le_token l" "now < lr_expiresAt r"
    using assms by (auto simp: valid_lease_iff)
  have "l' = l" if "valid_lease now st l'" "le_sessionId l' = le_sessionId l" for l'
  proof (rule session_lease.equality)
    show "le_token l' = le_token l" using that r by (auto simp: valid_lease_iff)
  qed (use that in simp_all)
  then show ?thesis using r by (auto simp: acquireLease_def held_def split: option.splits)
qed

section \<open>The log\<close>

lemma find_append_None: "List.find P xs = None \<Longrightarrow> List.find P (xs @ ys) = List.find P ys"
  by (induction xs) (auto split: if_splits)

lemma reach_ok:
  assumes "reach starts some_step c"
  shows "sessions_ok (rn_store c)" "logs_ok (rn_store c)" "members_ok (rn_store c)"
  using sess.reach_inv [OF assms] by (auto simp: session_inv_def)

text \<open>
  In every reachable state the log of a session is numbered without gaps from zero, each entry names
  the one before it, and appending under a valid lease adds exactly one entry at its end, which is found
  under its number from then on.
\<close>

theorem log_append:
  assumes "reach starts some_step c" and "append_entry now l e (rn_store c) = (st', Inr full)"
  shows "log_of st' (le_sessionId l) = log_of (rn_store c) (le_sessionId l) @ [full] \<and>
    (\<forall>j. j \<noteq> le_sessionId l \<longrightarrow> log_of st' j = log_of (rn_store c) j) \<and>
    (\<forall>k<length (log_of st' (le_sessionId l)). en_seq (log_of st' (le_sessionId l) ! k) = k \<and>
      en_parentSeq (log_of st' (le_sessionId l) ! k) = (if k = 0 then None else Some (k - 1))) \<and>
    getEntry st' (le_sessionId l) (en_seq full) = Some full \<and> latestEntrySeq st' (le_sessionId l) = int (en_seq full)"
proof -
  let ?i = "le_sessionId l" and ?log = "log_of (rn_store c) (le_sessionId l)"
  have ok: "log_ok ?i ?log" using reach_ok(2) [OF assms(1)] logs_okD(1) by blast
  have f: "ss_entries (extend_lease now l (rn_store c)) = ss_entries (rn_store c)"
    by (simp add: extend_lease_def split: option.splits)
  have full: "full = make_entry now ?i (length ?log) e" and logs: "log_of st' ?i = ?log @ [full]"
    "\<And>j. j \<noteq> ?i \<Longrightarrow> log_of st' j = log_of (rn_store c) j"
    using assms(2) f by (auto simp: append_entry_def Let_def log_of_def split: if_splits option.splits)
  have ok': "log_ok ?i (log_of st' ?i)" using ok logs(1) full by (simp add: log_ok_snoc)
  have "List.find (\<lambda>x. en_seq x = length ?log) ?log = None" using ok by (auto simp: find_None_all log_ok_def in_set_conv_nth)
  then have "getEntry st' ?i (en_seq full) = Some full" using logs(1) full
    by (simp add: getEntry_def find_append_None)
  moreover have "latestEntrySeq st' ?i = int (en_seq full)" using logs(1) full by (simp add: latestEntrySeq_def)
  ultimately show ?thesis using ok' logs by (auto simp: log_ok_def)
qed

section \<open>Tenure\<close>

lemma visible_from_log:
  assumes "logs_ok st" "window_of st i who = Some w" "k < length (log_of st i)"
    "entryWithinTenure k (en_createdAt (log_of st i ! k)) w"
  shows "\<exists>e\<in>set (visibleEntries st i who). en_seq e = k \<and> en_createdAt e = en_createdAt (log_of st i ! k)"
proof -
  have "en_seq (log_of st i ! k) = k" using logs_okD(1) [OF assms(1), of i] assms(3) by (simp add: log_ok_def)
  then show ?thesis using assms(2-4) by (intro bexI [of _ "log_of st i ! k"]) (auto simp: visibleEntries_def)
qed

lemma hit_visible:
  assumes ok: "logs_ok st" and h: "h \<in> set (searchEntries st who query limit)"
  shows "\<exists>e\<in>set (visibleEntries st (eh_sessionId h) who). en_seq e = eh_seq h \<and> en_createdAt e = eh_createdAt h"
proof -
  obtain i where "h \<in> set (hits_in st who (searchTerms query) i)"
    using h by (auto simp: searchEntries_def Let_def split: if_splits dest!: in_set_takeD)
  then obtain w s r where w: "window_of st i who = Some w" and r: "r \<in> set (or_else (map_get (ss_search st) i) [])"
    "entryWithinTenure (sr_seq r) (sr_createdAt r) w" and hit: "h = make_hit s w i r"
    by (cases "window_of st i who"; cases "map_get (ss_sessions st) i") (auto simp: hits_in_def)
  have "row_of (log_of st i) r" using logs_okD(2) [OF ok, of i] r(1) by (auto simp: index_ok_def list_all_iff)
  then show ?thesis using visible_from_log [OF ok w, of "sr_seq r"] r(2) hit by (simp add: row_of_def make_hit_def)
qed

text \<open>
  Searching shows nobody more than reading does: every hit is an entry that the person who searches
  may see in that session.
\<close>

theorem search_within_tenure:
  assumes "reach starts some_step c" and "h \<in> set (searchEntries (rn_store c) who query limit)"
  shows "\<exists>e\<in>set (visibleEntries (rn_store c) (eh_sessionId h) who). en_seq e = eh_seq h \<and> en_createdAt e = eh_createdAt h"
  using hit_visible [OF reach_ok(2) [OF assms(1)] assms(2)] .

text \<open>No tenure ends after the end of the log.\<close>

definition tenure_ok :: "session_store \<Rightarrow> bool" where
  "tenure_ok st = (\<forall>i who w n. window_of st i who = Some w \<longrightarrow> pw_validToSeq w = Some n \<longrightarrow> n \<le> length (log_of st i))"

lemma tenure_okD: "tenure_ok st \<Longrightarrow> window_of st i who = Some w \<Longrightarrow> pw_validToSeq w = Some n \<Longrightarrow> n \<le> length (log_of st i)"
  unfolding tenure_ok_def by blast

lemma log_grows:
  assumes "sessions_ok st" "\<forall>i\<in>set (op_ids op). map_get (ss_sessions st) i = None" "\<And>i. op \<noteq> OpDelete i" "\<And>i. op \<noteq> OpDeleteIfEmpty i"
  shows "length (log_of st j) \<le> length (log_of (session_exec now op st) j)"
proof (cases "changes_logs op")
  case True
  then show ?thesis
  proof (cases op)
    case (OpOpen i t ty sc ch su)
    then have "map_get (ss_entries st) i = None" using assms(2) sessions_okD(3) [OF assms(1), of i] by simp
    then show ?thesis using OpOpen by (auto simp: op_defs Let_def log_of_def split: option.splits)
  qed (use assms(3,4) in \<open>auto simp: op_defs Let_def log_of_def split: option.splits\<close>)
next
  case False
  then show ?thesis using logs_unchanged [of op now st] by (simp add: log_of_def)
qed

lemma tenure_set_window:
  assumes "tenure_ok st" "\<And>n. pw_validToSeq w = Some n \<Longrightarrow> n \<le> length (log_of st i)"
    "ss_windows st' = ss_windows st" "ss_entries st' = ss_entries st"
  shows "tenure_ok (set_window i who w st')"
proof -
  have "log_of (set_window i who w st') j = log_of st j" "window_of st' j x = window_of st j x" for j x
    using assms(3,4) by (simp_all add: log_of_def set_window_def window_of_def)
  then show ?thesis using assms(1,2) unfolding tenure_ok_def by simp
qed

lemma tenure_members:
  assumes ok: "tenure_ok st" and op: "changes_members op"
  shows "tenure_ok (session_exec now op st)"
proof -
  have del: "tenure_ok (deleteSession i st)" for i
    using ok unfolding tenure_ok_def by (auto simp: window_of_def deleteSession_def log_of_def)
  show ?thesis
  proof (cases op)
    case (OpDeleteIfEmpty i)
    then show ?thesis using del [of i] ok delete_if_empty [of now i st] by auto
  next
    case (OpJoin i who t h)
    then show ?thesis using tenure_okD [OF ok, of i who]
      by (simp add: addParticipant_def Let_def)
        (rule tenure_set_window [OF ok], auto simp: rejoin_window_def stay_window_def Let_def split: option.splits if_splits)
  next
    case (OpLeave i who)
    have "tenure_ok (set_window i who (w\<lparr>pw_validTo := Some now, pw_validToSeq := Some (length (log_of st i))\<rparr>) st)" for w
      by (rule tenure_set_window [OF ok]) simp_all
    then show ?thesis using OpLeave ok by (simp add: removeParticipant_def split: option.splits)
  next
    case (OpView i who p)
    have "tenure_ok (set_window i who (patch_window p w) st)" if "window_of st i who = Some w" for w
      using tenure_okD [OF ok that] by (intro tenure_set_window [OF ok]) (simp_all add: patch_window_def)
    then show ?thesis using OpView ok by (simp add: updateParticipantView_def split: option.splits)
  qed (use op del in auto)
qed

lemma tenure_step:
  assumes ok: "tenure_ok st" and s: "sessions_ok st" "\<forall>i\<in>set (op_ids op). map_get (ss_sessions st) i = None"
  shows "tenure_ok (session_exec now op st)"
proof (cases "changes_members op")
  case False
  then have "window_of (session_exec now op st) i who = window_of st i who" for i who
    using members_unchanged [of op now st] by (simp add: window_of_def)
  moreover have "length (log_of st i) \<le> length (log_of (session_exec now op st) i)" for i
    using False by (intro log_grows [OF s]) auto
  ultimately show ?thesis using ok unfolding tenure_ok_def by (metis le_trans)
qed (rule tenure_members [OF ok])

lemma reach_tenure: "reach starts some_step c \<Longrightarrow> tenure_ok (rn_store c)"
proof (induction rule: reach.induct)
  case (reach_step c c')
  have inv: "session_inv c" using sess.reach_inv [OF reach_step(1)] .
  obtain op now where f: "set (op_ids op) \<inter> set (rn_used c) = {}" and st: "rn_store c' = session_exec now op (rn_store c)"
    using reach_step(2) by (auto simp: some_step_def elim!: session_stepE)
  have "\<forall>i\<in>set (op_ids op). map_get (ss_sessions (rn_store c)) i = None" using inv f unfolding session_inv_def by blast
  then show ?case using tenure_step [OF reach_step.IH] inv st by (simp add: session_inv_def)
qed (auto simp: starts_def createMemorySessionStore_def tenure_ok_def window_of_def)

text \<open>Operations other than letting somebody in.\<close>

definition without_joining :: "string \<Rightarrow> string \<Rightarrow> session_run \<Rightarrow> session_run \<Rightarrow> bool" where
  "without_joining i who c c' = (\<exists>op. session_step op c c' \<and> (\<forall>t h. op \<noteq> OpJoin i who t h))"

definition closed_at :: "string \<Rightarrow> string \<Rightarrow> nat \<Rightarrow> nat \<Rightarrow> session_store \<Rightarrow> bool" where
  "closed_at i who m n st =
     (window_of st i who = None \<or>
      (\<exists>w. window_of st i who = Some w \<and> pw_validFromSeq w = Some m \<and> pw_validToSeq w = Some n \<and> pw_validTo w \<noteq> None))"

lemma closed_visible:
  "closed_at i who m n st \<Longrightarrow> k \<in> set (map en_seq (visibleEntries st i who)) \<Longrightarrow> m \<le> k \<and> k < n"
  by (auto simp: closed_at_def visibleEntries_def entryWithinTenure_def)

lemma closed_frame: "ss_windows st' = ss_windows st \<Longrightarrow> closed_at i who m n st \<Longrightarrow> closed_at i who m n st'"
  by (simp add: closed_at_def window_of_def)

lemma closed_set_window:
  "closed_at i who m n st \<Longrightarrow>
     (j = i \<and> x = who \<Longrightarrow> pw_validFromSeq w = Some m \<and> pw_validToSeq w = Some n \<and> pw_validTo w \<noteq> None) \<Longrightarrow>
     ss_windows st' = ss_windows st \<Longrightarrow> closed_at i who m n (set_window j x w st')"
  by (auto simp: closed_at_def window_of_def [of st'] window_of_def [of st, symmetric])

lemma closed_delete: "closed_at i who m n st \<Longrightarrow> closed_at i who m n (deleteSession j st)"
  by (auto simp: closed_at_def window_of_def deleteSession_def)

lemma closed_step:
  assumes st: "closed_at i who m n st" and op: "\<forall>t h. op \<noteq> OpJoin i who t h"
  shows "closed_at i who m n (session_exec now op st)"
proof (cases "changes_members op")
  case True
  then show ?thesis
  proof (cases op)
    case (OpDelete j)
    then show ?thesis using closed_delete [OF st] by simp
  next
    case (OpDeleteIfEmpty j)
    then show ?thesis using closed_delete [OF st] st delete_if_empty [of now j st] by auto
  next
    case (OpJoin j x t h)
    then have "\<not> (j = i \<and> x = who)" using op by auto
    then show ?thesis using OpJoin by (simp add: addParticipant_def Let_def) (rule closed_set_window [OF st], simp_all)
  next
    case (OpLeave j x)
    then show ?thesis using st
      by (auto simp: removeParticipant_def closed_at_def split: option.splits)
  next
    case (OpView j x p)
    then show ?thesis using st
      by (auto simp: updateParticipantView_def closed_at_def patch_window_def split: option.splits)
  qed auto
next
  case False
  then show ?thesis using closed_frame [OF _ st] members_unchanged by blast
qed

lemma closed_steps:
  "(without_joining i who)\<^sup>*\<^sup>* c c' \<Longrightarrow> closed_at i who m n (rn_store c) \<Longrightarrow> closed_at i who m n (rn_store c')"
proof (induction rule: rtranclp_induct)
  case (step c1 c2)
  then obtain op now where "rn_store c2 = session_exec now op (rn_store c1)" "\<forall>t h. op \<noteq> OpJoin i who t h"
    by (auto simp: without_joining_def elim!: session_stepE)
  then show ?case using closed_step [OF step.IH [OF step.prems]] by simp
qed

lemma without_joining_steps: "(without_joining i who)\<^sup>*\<^sup>* c c' \<Longrightarrow> some_step\<^sup>*\<^sup>* c c'"
  by (rule rtranclp_mono [THEN predicate2D]) (auto simp: without_joining_def some_step_def)

text \<open>
  C7. After a participant was removed, whatever is written later and whatever else happens short of letting
  them in again, they see and find no entry that they could not see at that moment.
\<close>

theorem removed_participant_sees_no_more:
  assumes "reach starts some_step c" and "session_step (OpLeave i who) c c1"
    and "(without_joining i who)\<^sup>*\<^sup>* c1 c2"
  shows "set (map en_seq (visibleEntries (rn_store c2) i who)) \<subseteq> set (map en_seq (visibleEntries (rn_store c1) i who)) \<and>
    (\<forall>h\<in>set (searchEntries (rn_store c2) who query limit).
      eh_sessionId h = i \<longrightarrow> eh_seq h \<in> set (map en_seq (visibleEntries (rn_store c1) i who)))"
proof -
  have r1: "reach starts some_step c1" using assms(1,2) reach.reach_step [of starts some_step c c1] unfolding some_step_def by blast
  have r2: "reach starts some_step c2" using reach_steps [OF r1 without_joining_steps [OF assms(3)]] .
  have ok1: "logs_ok (rn_store c1)" and ok2: "logs_ok (rn_store c2)" using reach_ok(2) r1 r2 by blast+
  obtain now where st1: "rn_store c1 = removeParticipant now i who (rn_store c)" using assms(2) by (auto elim!: session_stepE)
  have "set (map en_seq (visibleEntries (rn_store c2) i who)) \<subseteq> set (map en_seq (visibleEntries (rn_store c1) i who))"
  proof (cases "window_of (rn_store c1) i who")
    case None
    then have "closed_at i who 0 0 (rn_store c1)" by (simp add: closed_at_def)
    then have "closed_at i who 0 0 (rn_store c2)" by (rule closed_steps [OF assms(3)])
    then show ?thesis using closed_visible by fastforce
  next
    case (Some w)
    have "pw_validTo w \<noteq> None" using Some st1 by (auto simp: removeParticipant_def split: option.splits if_splits)
    then obtain m n where mn: "pw_validFromSeq w = Some m" "pw_validToSeq w = Some n"
      using members_okD(4) [OF reach_ok(3) [OF r1] Some] by auto
    have "closed_at i who m n (rn_store c1)" using Some mn \<open>pw_validTo w \<noteq> None\<close> by (simp add: closed_at_def)
    then have c2: "closed_at i who m n (rn_store c2)" by (rule closed_steps [OF assms(3)])
    have "k \<in> set (map en_seq (visibleEntries (rn_store c1) i who))" if k: "k \<in> set (map en_seq (visibleEntries (rn_store c2) i who))" for k
    proof -
      have "m \<le> k \<and> k < n" using closed_visible [OF c2 k] .
      moreover have "n \<le> length (log_of (rn_store c1) i)" using tenure_okD [OF reach_tenure [OF r1] Some mn(2)] .
      ultimately show ?thesis
        using visible_from_log [OF ok1 Some, of k] mn by (force simp: entryWithinTenure_def)
    qed
    then show ?thesis by blast
  qed
  moreover have "eh_seq h \<in> set (map en_seq (visibleEntries (rn_store c2) i who))"
    if "h \<in> set (searchEntries (rn_store c2) who query limit)" "eh_sessionId h = i" for h
    using hit_visible [OF ok2 that(1)] that(2) by (metis image_eqI list.set_map)
  ultimately show ?thesis by blast
qed

section \<open>Refinement\<close>

text \<open>
  The contract of the store: sessions are logs of what was written, each with at most one writer on
  record. A log changes only by its writer appending to it, by being created empty, removed, or freed of
  the taint marks.
\<close>

record log_spec =
  sp_logs :: "string \<rightharpoonup> new_entry list"
  sp_writer :: "string \<rightharpoonup> uuid"

definition written :: "session_entry \<Rightarrow> new_entry" where
  "written e = \<lparr>ne_type = en_type e, ne_payload = en_payload e, ne_scopeLabel = en_scopeLabel e\<rparr>"

definition abs_store :: "session_store \<Rightarrow> log_spec" where
  "abs_store st =
     \<lparr>sp_logs = (\<lambda>i. map_option (map written) (map_get (ss_entries st) i)),
      sp_writer = (\<lambda>i. map_option lr_token (map_get (ss_leases st) i))\<rparr>"

inductive spec_step :: "session_op \<Rightarrow> log_spec \<Rightarrow> log_spec \<Rightarrow> bool" where
  idle: "spec_step op a a"
| create: "sp_logs a i = None \<Longrightarrow> spec_step (OpOpen i t ty sc ch su) a (a\<lparr>sp_logs := (sp_logs a)(i \<mapsto> [])\<rparr>)"
| take: "sp_logs a i \<noteq> None \<Longrightarrow> spec_step (OpAcquire tok i h) a (a\<lparr>sp_writer := (sp_writer a)(i \<mapsto> tok)\<rparr>)"
| put: "sp_writer a (le_sessionId l) = Some (le_token l) \<Longrightarrow> sp_logs a (le_sessionId l) = Some log \<Longrightarrow>
    spec_step (OpAppend l e) a (a\<lparr>sp_logs := (sp_logs a)(le_sessionId l \<mapsto> log @ [e])\<rparr>)"
| give_up: "sp_writer a (le_sessionId l) = Some (le_token l) \<Longrightarrow>
    spec_step (OpRelease l) a (a\<lparr>sp_writer := (sp_writer a)(le_sessionId l := None)\<rparr>)"
| force: "spec_step (OpForce i) a (a\<lparr>sp_writer := (sp_writer a)(i := None)\<rparr>)"
| remove: "spec_step (OpDelete i) a (a\<lparr>sp_logs := (sp_logs a)(i := None), sp_writer := (sp_writer a)(i := None)\<rparr>)"
| remove_empty: "sp_logs a i = Some [] \<Longrightarrow>
    spec_step (OpDeleteIfEmpty i) a (a\<lparr>sp_logs := (sp_logs a)(i := None), sp_writer := (sp_writer a)(i := None)\<rparr>)"
| clear: "sp_logs a i = Some log \<Longrightarrow>
    spec_step (OpUntaint i) a (a\<lparr>sp_logs := (sp_logs a)(i \<mapsto> map (\<lambda>e. e\<lparr>ne_payload := untaint (ne_payload e)\<rparr>) log)\<rparr>)"

lemma abs_delete:
  "abs_store (deleteSession i st) =
     (abs_store st)\<lparr>sp_logs := (sp_logs (abs_store st))(i := None), sp_writer := (sp_writer (abs_store st))(i := None)\<rparr>"
  by (auto simp: abs_store_def deleteSession_def)

lemma abs_extend: "abs_store (extend_lease now l st) = abs_store st"
  by (auto simp: abs_store_def extend_lease_def split: option.splits)

fun silent :: "session_op \<Rightarrow> bool" where
  "silent (OpTitle i t) = True"
| "silent (OpFork i src b) = True"
| "silent (OpJoin i who t h) = True"
| "silent (OpLeave i who) = True"
| "silent (OpView i who p) = True"
| "silent (OpPin pid i pin m) = True"
| "silent (OpUnpin i pid) = True"
| "silent (OpLlm rid i r) = True"
| "silent _ = False"

lemma abs_silent: "silent op \<Longrightarrow> abs_store (session_exec now op st) = abs_store st"
  by (cases op) (auto simp: op_defs abs_store_def Let_def split: option.splits)

lemma abs_append:
  assumes "valid_lease now st l"
  shows "spec_step (OpAppend l e) (abs_store st) (abs_store (fst (append_entry now l e st)))"
proof (cases "map_get (ss_entries st) (le_sessionId l)")
  case None
  then have "fst (append_entry now l e st) = extend_lease now l st"
    using assms by (simp add: append_entry_def Let_def extend_lease_def split: option.splits)
  then show ?thesis by (simp add: abs_extend idle)
next
  case (Some log)
  let ?full = "make_entry now (le_sessionId l) (length log) e"
  have ent: "ss_entries (extend_lease now l st) = ss_entries st" by (simp add: extend_lease_def split: option.splits)
  have w: "written ?full = e" by (simp add: written_def make_entry_def)
  have "abs_store (fst (append_entry now l e st)) =
      (abs_store (extend_lease now l st))\<lparr>sp_logs := (sp_logs (abs_store st))(le_sessionId l \<mapsto> map written log @ [e])\<rparr>"
    using assms Some ent w by (auto simp: append_entry_def Let_def abs_store_def)
  moreover have "sp_writer (abs_store st) (le_sessionId l) = Some (le_token l)"
    "sp_logs (abs_store st) (le_sessionId l) = Some (map written log)"
    using assms Some by (auto simp: abs_store_def valid_lease_iff)
  ultimately show ?thesis using put [of "abs_store st" l "map written log" e] by (simp add: abs_extend)
qed

lemma abs_step:
  assumes ok: "sessions_ok st" and fresh: "\<forall>i\<in>set (op_ids op). map_get (ss_sessions st) i = None"
  shows "spec_step op (abs_store st) (abs_store (session_exec now op st))"
proof -
  have quiet: "silent op \<Longrightarrow> ?thesis" by (simp add: abs_silent idle)
  show ?thesis
  proof (cases op)
    case (OpOpen i t ty sc ch su)
    show ?thesis
    proof (cases "existing_session st t")
      case None
      have "map_get (ss_entries st) i = None" using fresh sessions_okD(3) [OF ok, of i] OpOpen by simp
      moreover have "abs_store (session_exec now op st) = (abs_store st)\<lparr>sp_logs := (sp_logs (abs_store st))(i \<mapsto> [])\<rparr>"
        using None OpOpen by (auto simp: getOrCreateByThread_def Let_def abs_store_def)
      ultimately show ?thesis using create [of "abs_store st" i] OpOpen by (simp add: abs_store_def)
    next
      case (Some s)
      then have "abs_store (session_exec now op st) = abs_store st"
        using OpOpen by (simp add: getOrCreateByThread_def Let_def abs_store_def)
      then show ?thesis by (simp add: idle)
    qed
  next
    case (OpAcquire tok i h)
    show ?thesis
    proof (cases "map_get (ss_sessions st) i = None \<or> held now st i")
      case True
      then have "session_exec now op st = st"
        using OpAcquire by (auto simp: acquireLease_def held_def split: option.splits)
      then show ?thesis by (simp add: idle)
    next
      case False
      then obtain s where "map_get (ss_sessions st) i = Some s" "\<not> held now st i" by (auto simp del: not_None_eq)
      then have "abs_store (session_exec now op st) = (abs_store st)\<lparr>sp_writer := (sp_writer (abs_store st))(i \<mapsto> tok)\<rparr>"
        using OpAcquire by (simp add: acquireLease_def abs_store_def fun_upd_def fun_eq_iff)
      moreover have "sp_logs (abs_store st) i \<noteq> None" using False sessions_okD(3) [OF ok, of i] by (simp add: abs_store_def)
      ultimately show ?thesis using take [of "abs_store st" i tok h] OpAcquire by simp
    qed
  next
    case (OpRelease l)
    show ?thesis
    proof (cases "map_option lr_token (map_get (ss_leases st) (le_sessionId l)) = Some (le_token l)")
      case True
      then have "abs_store (session_exec now op st) = (abs_store st)\<lparr>sp_writer := (sp_writer (abs_store st))(le_sessionId l := None)\<rparr>"
        using OpRelease by (auto simp: releaseLease_session_def abs_store_def)
      then show ?thesis using give_up [of "abs_store st" l] True OpRelease by (simp add: abs_store_def)
    qed (use OpRelease in \<open>auto simp: releaseLease_session_def idle\<close>)
  next
    case (OpForce i)
    have "abs_store (forceReleaseLease i st) = (abs_store st)\<lparr>sp_writer := (sp_writer (abs_store st))(i := None)\<rparr>"
      by (auto simp: forceReleaseLease_def abs_store_def)
    then show ?thesis using force [of i "abs_store st"] OpForce by simp
  next
    case (OpDelete i)
    then show ?thesis using remove [of i "abs_store st"] by (simp add: abs_delete)
  next
    case (OpDeleteIfEmpty i)
    show ?thesis
    proof (cases "map_get (ss_sessions st) i = None \<or> log_of st i \<noteq> [] \<or> held now st i")
      case False
      then have "sp_logs (abs_store st) i = Some []"
        using sessions_okD(3) [OF ok, of i] by (auto simp: abs_store_def log_of_def)
      with False show ?thesis using remove_empty [of "abs_store st" i] OpDeleteIfEmpty by (auto simp: deleteSessionIfEmpty_def abs_delete)
    qed (use OpDeleteIfEmpty in \<open>auto simp: deleteSessionIfEmpty_def idle\<close>)
  next
    case (OpAppend l e)
    then show ?thesis using abs_append [of now st l e] by (cases "valid_lease now st l") (simp_all add: append_entry_def idle)
  next
    case (OpUntaint i)
    show ?thesis
    proof (cases "map_get (ss_entries st) i")
      case (Some log)
      have "abs_store (session_exec now op st) = (abs_store st)\<lparr>sp_logs := (sp_logs (abs_store st))(i \<mapsto>
          map (\<lambda>e. e\<lparr>ne_payload := untaint (ne_payload e)\<rparr>) (map written log))\<rparr>"
        using OpUntaint Some by (auto simp: clearSecurityTaint_def abs_store_def written_def)
      then show ?thesis using clear [of "abs_store st" i "map written log"] OpUntaint Some by (simp add: abs_store_def)
    qed (use OpUntaint in \<open>simp add: clearSecurityTaint_def idle\<close>)
  next
    case (OpRenew l)
    then show ?thesis by (simp add: renewLease_def abs_extend idle)
  next
    case (OpTape l r)
    then have "abs_store (session_exec now op st) = abs_store st \<or> abs_store (session_exec now op st) = abs_store (extend_lease now l st)"
      by (auto simp: appendTape_def Let_def abs_store_def)
    then show ?thesis by (auto simp: abs_extend idle)
  next
    case (OpIndex l rows)
    then have "abs_store (session_exec now op st) = abs_store st \<or> abs_store (session_exec now op st) = abs_store (extend_lease now l st)"
      by (auto simp: appendSearchEntries_def Let_def abs_store_def)
    then show ?thesis by (auto simp: abs_extend idle)
  qed (use quiet in \<open>auto simp del: session_exec.simps\<close>)
qed


section \<open>Instances\<close>

fun run_ops :: "(time \<times> session_op) list \<Rightarrow> session_run \<Rightarrow> session_run option" where
  "run_ops [] c = Some c"
| "run_ops ((now, op) # ops) c =
     (if now \<ge> rn_now c \<and> list_all (\<lambda>i. i \<notin> set (rn_used c)) (op_ids op) \<and> [] \<notin> set (op_ids op) \<and> op_allowed op (rn_store c)
      then run_ops ops \<lparr>rn_now = now, rn_used = op_ids op @ rn_used c, rn_store = session_exec now op (rn_store c)\<rparr>
      else None)"

lemma run_ops_steps: "run_ops ops c = Some c' \<Longrightarrow> some_step\<^sup>*\<^sup>* c c'"
proof (induction ops c rule: run_ops.induct)
  case (2 now op ops c)
  let ?c = "\<lparr>rn_now = now, rn_used = op_ids op @ rn_used c, rn_store = session_exec now op (rn_store c)\<rparr>"
  have ok: "now \<ge> rn_now c" "set (op_ids op) \<inter> set (rn_used c) = {}" "[] \<notin> set (op_ids op)" "op_allowed op (rn_store c)"
    and r: "run_ops ops ?c = Some c'"
    using "2.prems" by (auto simp: list_all_iff split: if_splits)
  have "some_step c ?c" using session_step.intros [OF ok] by (auto simp: some_step_def)
  moreover have "some_step\<^sup>*\<^sup>* ?c c'" using 2 r by (auto split: if_splits)
  ultimately show ?case by (rule converse_rtranclp_into_rtranclp)
qed simp

definition ex_start :: session_run where
  "ex_start = \<lparr>rn_now = 0, rn_used = [], rn_store = createMemorySessionStore None\<rparr>"

definition ex_lease :: session_lease where
  "ex_lease = \<lparr>le_sessionId = ''s1'', le_token = ''t1''\<rparr>"

definition ex_entry :: "string \<Rightarrow> new_entry" where
  "ex_entry t = \<lparr>ne_type = EUser, ne_payload = JStr t, ne_scopeLabel = ''org:o''\<rparr>"

definition ex_ops :: "(time \<times> session_op) list" where
  "ex_ops = [(1, OpOpen ''s1'' ''thread'' StDm ''org:o'' None None), (2, OpAcquire ''t1'' ''s1'' (Some LhTurn)),
     (3, OpJoin ''s1'' ''ann'' None True), (4, OpAppend ex_lease (ex_entry ''hello world''))]"

definition ex_run :: session_run where
  "ex_run = the (run_ops ex_ops ex_start)"

lemma ex_reach: "reach starts some_step ex_run"
proof -
  have "run_ops ex_ops ex_start \<noteq> None" by code_simp
  then have "some_step\<^sup>*\<^sup>* ex_start ex_run" by (intro run_ops_steps) (auto simp: ex_run_def)
  moreover have "reach starts some_step ex_start" by (rule reach_init) (auto simp: starts_def ex_start_def)
  ultimately show ?thesis by (rule reach_steps [rotated])
qed

theorem lapsed_lease_is_dead_witness:
  "snd (append_entry 400000 ex_lease (ex_entry ''late'') (rn_store (ex_run\<lparr>rn_now := 400000\<rparr>))) = Inl NoValidLease"
proof -
  have 1: "le_token ex_lease \<in> set (rn_used (ex_run\<lparr>rn_now := 400000\<rparr>))" by code_simp
  have 2: "\<not> valid_lease (rn_now (ex_run\<lparr>rn_now := 400000\<rparr>)) (rn_store (ex_run\<lparr>rn_now := 400000\<rparr>)) ex_lease" by code_simp
  have 3: "rn_now (ex_run\<lparr>rn_now := 400000\<rparr>) \<le> (400000 :: int)" by simp
  show ?thesis using lapsed_lease_is_dead [OF 1 2 rtranclp.rtrancl_refl 3] by simp
qed

theorem single_writer_witness:
  "la_lease (snd (acquireLease 5 ''t2'' (le_sessionId ex_lease) None (rn_store ex_run))) = None"
proof -
  have "valid_lease 5 (rn_store ex_run) ex_lease" by code_simp
  from single_writer [OF this] show ?thesis by blast
qed

theorem log_append_witness:
  "\<exists>st' full. append_entry 5 ex_lease (ex_entry ''again'') (rn_store ex_run) = (st', Inr full) \<and>
     getEntry st' ''s1'' (en_seq full) = Some full"
proof -
  obtain st' full where a: "append_entry 5 ex_lease (ex_entry ''again'') (rn_store ex_run) = (st', Inr full)"
  proof -
    have "case snd (append_entry 5 ex_lease (ex_entry ''again'') (rn_store ex_run)) of Inr _ \<Rightarrow> True | Inl _ \<Rightarrow> False" by code_simp
    then show ?thesis using that by (cases "append_entry 5 ex_lease (ex_entry ''again'') (rn_store ex_run)") (auto split: sum.splits)
  qed
  from log_append [OF ex_reach a] a show ?thesis by (auto simp: ex_lease_def)
qed

theorem search_within_tenure_witness:
  "\<exists>e\<in>set (visibleEntries (rn_store ex_run) ''s1'' ''ann''). en_seq e = 0"
proof -
  have "map (\<lambda>h. (eh_sessionId h, eh_seq h)) (searchEntries (rn_store ex_run) ''ann'' ''WORLD'' 10) = [(''s1'', 0)]" by code_simp
  then obtain h where "h \<in> set (searchEntries (rn_store ex_run) ''ann'' ''WORLD'' 10)" "eh_sessionId h = ''s1''" "eh_seq h = 0"
    by (cases "searchEntries (rn_store ex_run) ''ann'' ''WORLD'' 10") auto
  with search_within_tenure [OF ex_reach this(1)] show ?thesis by force
qed

lemma ex_leave:
  "session_step (OpLeave ''s1'' ''ann'') ex_run
     \<lparr>rn_now = 5, rn_used = rn_used ex_run, rn_store = session_exec 5 (OpLeave ''s1'' ''ann'') (rn_store ex_run)\<rparr>"
proof -
  have "rn_now ex_run \<le> 5" by code_simp
  from session_step.intros [OF this, of "OpLeave ''s1'' ''ann''"] show ?thesis by simp
qed

theorem removed_participant_sees_no_more_witness:
  "set (map en_seq (visibleEntries (session_exec 6 (OpAppend ex_lease (ex_entry ''secret'')) (session_exec 5 (OpLeave ''s1'' ''ann'') (rn_store ex_run))) ''s1'' ''ann''))
     \<subseteq> {0}"
proof -
  let ?c1 = "\<lparr>rn_now = 5, rn_used = rn_used ex_run, rn_store = session_exec 5 (OpLeave ''s1'' ''ann'') (rn_store ex_run)\<rparr>"
  let ?c2 = "\<lparr>rn_now = 6, rn_used = rn_used ex_run, rn_store = session_exec 6 (OpAppend ex_lease (ex_entry ''secret'')) (rn_store ?c1)\<rparr>"
  have "session_step (OpAppend ex_lease (ex_entry ''secret'')) ?c1 ?c2"
    using session_step.intros [of ?c1 6 "OpAppend ex_lease (ex_entry ''secret'')"] by simp
  then have "(without_joining ''s1'' ''ann'')\<^sup>*\<^sup>* ?c1 ?c2" by (intro r_into_rtranclp) (auto simp: without_joining_def)
  moreover have "map en_seq (visibleEntries (rn_store ?c1) ''s1'' ''ann'') = [0]" by code_simp
  ultimately have "set (map en_seq (visibleEntries (rn_store ?c2) ''s1'' ''ann'')) \<subseteq> set [0]"
    using removed_participant_sees_no_more [OF ex_reach ex_leave, of ?c2] by metis
  then show ?thesis by simp
qed


end
