(* ===== verification/Session_Views.thy ===== *)
theory Session_Views
  imports Session_Theorems
begin

text \<open>
  The overviews of the session store for administrators (\<open>src/sessions/memory-session-store.ts\<close>): pages
  of summaries, groups by cron, rollups and counts by scope, and who wrote how much on which day.
\<close>

section \<open>Lists\<close>

definition scanAll :: "session_store \<Rightarrow> session list" where
  "scanAll st = map_vals (ss_sessions st)"

definition countSessions :: "session_store \<Rightarrow> nat" where
  "countSessions st = length (ss_sessions st)"

definition created_order :: "session \<Rightarrow> session \<Rightarrow> int" where
  "created_order a b =
     (if se_createdAt b \<noteq> se_createdAt a then se_createdAt b - se_createdAt a else idDesc (se_id a) (se_id b))"

definition listByScope :: "session_store \<Rightarrow> scope_id \<Rightarrow> session list" where
  "listByScope st scope = js_sort created_order (filter (\<lambda>s. se_scopeId s = scope) (scanAll st))"

definition scopeHasSessions :: "session_store \<Rightarrow> scope_id \<Rightarrow> bool" where
  "scopeHasSessions st scope = list_ex (\<lambda>s. se_scopeId s = scope) (scanAll st)"

record session_ref =
  sf_id :: string
  sf_threadRef :: string
  sf_scopeId :: scope_id
  sf_type :: session_type
  sf_title :: "string option"

definition sessionsByThreadRefs :: "session_store \<Rightarrow> string list \<Rightarrow> session_ref list" where
  "sessionsByThreadRefs st threadRefs =
     map (\<lambda>s. \<lparr>sf_id = se_id s, sf_threadRef = se_threadRef s, sf_scopeId = se_scopeId s, sf_type = se_type s, sf_title = se_title s\<rparr>)
       (filter (\<lambda>s. se_threadRef s \<in> set threadRefs) (scanAll st))"

definition add_scope :: "session \<Rightarrow> (string, string option) jsmap \<Rightarrow> (string, string option) jsmap" where
  "add_scope s byScope =
     (case map_get byScope (se_scopeId s) of
        None \<Rightarrow> map_set (se_scopeId s) (se_channelName s) byScope
      | Some prev \<Rightarrow> if truthy (se_channelName s) \<and> \<not> truthy prev then map_set (se_scopeId s) (se_channelName s) byScope else byScope)"

definition distinctScopes :: "session_store \<Rightarrow> (scope_id \<times> string option) list" where
  "distinctScopes st =
     map (\<lambda>(i, ch). (i, if truthy ch then ch else None)) (fold add_scope (scanAll st) [])"

section \<open>Summaries\<close>

definition user_turns :: "session_store \<Rightarrow> string \<Rightarrow> session_entry list" where
  "user_turns st i = filter (\<lambda>e. en_type e = EUser \<and> \<not> isOverheardEntry e) (log_of st i)"

definition last_activity :: "session_store \<Rightarrow> session \<Rightarrow> time" where
  "last_activity st s = (case last_opt (log_of st (se_id s)) of None \<Rightarrow> se_createdAt s | Some e \<Rightarrow> en_createdAt e)"

record session_summary =
  sy_id :: string
  sy_type :: session_type
  sy_origin :: session_origin
  sy_scopeId :: scope_id
  sy_threadRef :: string
  sy_turns :: nat
  sy_messages :: nat
  sy_lastActivity :: time
  sy_createdAt :: time
  sy_firstMessage :: string
  sy_lastMessage :: string

datatype origin_filter = OnlyOrigin session_origin | OtherBackground

record session_page =
  pg_limit :: nat
  pg_offset :: nat
  pg_before :: "(time \<times> string) option"
  pg_category :: "session_category option"
  pg_origin :: "origin_filter option"
  pg_cronId :: "string option"

definition summary_of :: "session_store \<Rightarrow> session \<Rightarrow> session_summary" where
  "summary_of st s =
     (let turns = user_turns st (se_id s)
      in \<lparr>sy_id = se_id s, sy_type = se_type s, sy_origin = sessionOrigin (se_threadRef s), sy_scopeId = se_scopeId s,
          sy_threadRef = se_threadRef s, sy_turns = length turns, sy_messages = length (log_of st (se_id s)),
          sy_lastActivity = last_activity st s, sy_createdAt = se_createdAt s,
          sy_firstMessage = (case head_opt turns of None \<Rightarrow> [] | Some e \<Rightarrow> userMessagePreview (en_payload e) 160),
          sy_lastMessage = (case last_opt turns of None \<Rightarrow> [] | Some e \<Rightarrow> userMessagePreview (en_payload e) 100)\<rparr>)"

text \<open>The filters shared by the summaries and the counts; an empty cron id filters nothing.\<close>

definition passes ::
  "session_category option \<Rightarrow> origin_filter option \<Rightarrow> string option \<Rightarrow> session \<Rightarrow> bool" where
  "passes category originFilter cronId s =
     (let origin = sessionOrigin (se_threadRef s)
      in (case category of None \<Rightarrow> True | Some c \<Rightarrow> sessionCategory origin = c) \<and>
         (case originFilter of
            None \<Rightarrow> True
          | Some OtherBackground \<Rightarrow> origin \<noteq> OrConversation \<and> origin \<noteq> OrCron
          | Some (OnlyOrigin r) \<Rightarrow> origin = r) \<and>
         (truthy cronId \<longrightarrow> cronIdOf (se_threadRef s) = cronId))"

definition summary_order :: "session_summary \<Rightarrow> session_summary \<Rightarrow> int" where
  "summary_order a b =
     (if sy_lastActivity b \<noteq> sy_lastActivity a then sy_lastActivity b - sy_lastActivity a else idDesc (sy_id a) (sy_id b))"

definition all_summaries ::
  "session_store \<Rightarrow> scope_id \<Rightarrow> bool \<Rightarrow> session_page option \<Rightarrow> string list option \<Rightarrow> session_summary list" where
  "all_summaries st scope orgWide page sessionIds =
     js_sort summary_order
       (map (summary_of st)
         (filter (\<lambda>s. (orgWide \<or> se_scopeId s = scope) \<and> (case sessionIds of None \<Rightarrow> True | Some ids \<Rightarrow> se_id s \<in> set ids) \<and>
             (case page of None \<Rightarrow> True | Some p \<Rightarrow> passes (pg_category p) (pg_origin p) (pg_cronId p) s))
           (scanAll st)))"

definition before_cursor :: "time \<times> string \<Rightarrow> session_summary \<Rightarrow> bool" where
  "before_cursor b r = (sy_lastActivity r < fst b \<or> sy_lastActivity r = fst b \<and> sy_id r < snd b)"

definition scopeSessionSummaries ::
  "session_store \<Rightarrow> scope_id \<Rightarrow> bool \<Rightarrow> session_page option \<Rightarrow> string list option \<Rightarrow> session_summary list" where
  "scopeSessionSummaries st scope orgWide page sessionIds =
     (let out = all_summaries st scope orgWide page sessionIds
      in case page of
           None \<Rightarrow> out
         | Some p \<Rightarrow>
             (case pg_before p of
                Some b \<Rightarrow> take (pg_limit p) (filter (before_cursor b) out)
              | None \<Rightarrow> take (pg_limit p) (drop (pg_offset p) out)))"

definition lastUserMessages :: "session_store \<Rightarrow> string list \<Rightarrow> (string, string) jsmap" where
  "lastUserMessages st ids =
     fold (\<lambda>i m. case last_opt (user_turns st i) of
                   None \<Rightarrow> m | Some e \<Rightarrow> map_set i (userMessagePreview (en_payload e) 100) m) ids []"

section \<open>Groups and counts\<close>

record cron_group =
  gr_cronId :: string
  gr_scopeId :: scope_id
  gr_sessions :: nat
  gr_turns :: nat
  gr_messages :: nat
  gr_lastActivity :: time
  gr_createdAt :: time

definition add_to_group :: "session_store \<Rightarrow> session \<Rightarrow> string \<Rightarrow> (string, cron_group) jsmap \<Rightarrow> (string, cron_group) jsmap" where
  "add_to_group st s cronId groups =
     (let g = or_else (map_get groups cronId)
                \<lparr>gr_cronId = cronId, gr_scopeId = se_scopeId s, gr_sessions = 0, gr_turns = 0, gr_messages = 0,
                 gr_lastActivity = 0, gr_createdAt = se_createdAt s\<rparr>
      in map_set cronId
           (g\<lparr>gr_sessions := gr_sessions g + 1, gr_turns := gr_turns g + length (user_turns st (se_id s)),
              gr_messages := gr_messages g + length (log_of st (se_id s)),
              gr_lastActivity := max (gr_lastActivity g) (last_activity st s),
              gr_createdAt := min (gr_createdAt g) (se_createdAt s)\<rparr>) groups)"

definition group_order :: "cron_group \<Rightarrow> cron_group \<Rightarrow> int" where
  "group_order a b =
     (if gr_lastActivity b \<noteq> gr_lastActivity a then gr_lastActivity b - gr_lastActivity a else idDesc (gr_cronId a) (gr_cronId b))"

definition scopeCronGroups :: "session_store \<Rightarrow> scope_id \<Rightarrow> bool \<Rightarrow> cron_group list" where
  "scopeCronGroups st scope orgWide =
     js_sort group_order (map_vals
       (fold (\<lambda>s groups.
           if \<not> orgWide \<and> se_scopeId s \<noteq> scope then groups
           else (case cronIdOf (se_threadRef s) of
                   None \<Rightarrow> groups | Some c \<Rightarrow> if c = [] then groups else add_to_group st s c groups))
         (scanAll st) []))"

record session_rollup =
  ro_scopeId :: scope_id
  ro_sessions :: nat
  ro_backgroundSessions :: nat
  ro_lastActivity :: time
  ro_lastConversationActivity :: time
  ro_previewSessionId :: "string option"

text \<open>The rollup of a scope with the session that is its preview so far and when it was active.\<close>

type_synonym rollups = "(string, session_rollup \<times> (time \<times> string) option) jsmap"

definition add_to_rollup :: "session_store \<Rightarrow> session \<Rightarrow> rollups \<Rightarrow> rollups" where
  "add_to_rollup st s rollups =
     (let at = last_activity st s;
          (r0, winner) = or_else (map_get rollups (se_scopeId s))
             (\<lparr>ro_scopeId = se_scopeId s, ro_sessions = 0, ro_backgroundSessions = 0, ro_lastActivity = 0,
               ro_lastConversationActivity = 0, ro_previewSessionId = None\<rparr>, None);
          r = r0\<lparr>ro_lastActivity := max (ro_lastActivity r0) at\<rparr>
      in map_set (se_scopeId s)
           (if sessionCategory (sessionOrigin (se_threadRef s)) = CatBackground
            then (r\<lparr>ro_backgroundSessions := ro_backgroundSessions r + 1\<rparr>, winner)
            else
              (let r1 = r\<lparr>ro_sessions := ro_sessions r + 1, ro_lastConversationActivity := max (ro_lastConversationActivity r) at\<rparr>
               in if user_turns st (se_id s) = [] then (r1, winner)
                  else if (case winner of None \<Rightarrow> True | Some (t, i) \<Rightarrow> at > t \<or> at = t \<and> idDesc (se_id s) i < 0)
                  then (r1\<lparr>ro_previewSessionId := Some (se_id s)\<rparr>, Some (at, se_id s)) else (r1, winner))) rollups)"

definition scopeSessionRollups :: "session_store \<Rightarrow> scope_id \<Rightarrow> bool \<Rightarrow> session_rollup list" where
  "scopeSessionRollups st scope orgWide =
     map fst (map_vals (fold (\<lambda>s rs. if \<not> orgWide \<and> se_scopeId s \<noteq> scope then rs else add_to_rollup st s rs) (scanAll st) []))"

record session_stats =
  sa_total :: nat
  sa_turns :: nat
  sa_byType :: "(string, nat) jsmap"
  sa_byTypeAll :: "(string, nat) jsmap"
  sa_conversation :: nat
  sa_background :: nat
  sa_all :: nat
  sa_crons :: "string list"

definition tick :: "string \<Rightarrow> (string, nat) jsmap \<Rightarrow> (string, nat) jsmap" where
  "tick k m = map_set k (or_else (map_get m k) 0 + 1) m"

definition add_to_stats ::
  "session_store \<Rightarrow> session_category option \<Rightarrow> origin_filter option \<Rightarrow> string option \<Rightarrow> session \<Rightarrow> session_stats \<Rightarrow> session_stats" where
  "add_to_stats st category originFilter cronId s a =
     (let origin = sessionOrigin (se_threadRef s);
          bucket = sessionBucket origin (se_type s);
          a1 = a\<lparr>sa_conversation := sa_conversation a + (if sessionCategory origin = CatConversation then 1 else 0),
                 sa_background := sa_background a + (if sessionCategory origin = CatBackground then 1 else 0),
                 sa_all := sa_all a + 1, sa_byTypeAll := tick bucket (sa_byTypeAll a),
                 sa_crons := (case cronIdOf (se_threadRef s) of None \<Rightarrow> sa_crons a | Some c \<Rightarrow> set_add c (sa_crons a))\<rparr>
      in if passes category originFilter cronId s
         then a1\<lparr>sa_total := sa_total a1 + 1, sa_turns := sa_turns a1 + length (user_turns st (se_id s)),
                 sa_byType := tick bucket (sa_byType a1)\<rparr>
         else a1)"

definition scopeSessionStats ::
  "session_store \<Rightarrow> scope_id \<Rightarrow> bool \<Rightarrow> session_category option \<Rightarrow> origin_filter option \<Rightarrow> string option \<Rightarrow> session_stats" where
  "scopeSessionStats st scope orgWide category originFilter cronId =
     fold (\<lambda>s a. if \<not> orgWide \<and> se_scopeId s \<noteq> scope then a else add_to_stats st category originFilter cronId s a) (scanAll st)
       \<lparr>sa_total = 0, sa_turns = 0, sa_byType = [], sa_byTypeAll = [], sa_conversation = 0, sa_background = 0, sa_all = 0, sa_crons = []\<rparr>"

record attributed_turn =
  at_principalId :: string
  at_sessionId :: string
  at_day :: int
  at_turns :: nat
  at_firstAt :: time
  at_lastAt :: time

definition add_to_day :: "time \<Rightarrow> (int, nat \<times> time \<times> time) jsmap \<Rightarrow> (int, nat \<times> time \<times> time) jsmap" where
  "add_to_day t buckets =
     (let day = t div 86400000
      in map_set day (case map_get buckets day of
                        None \<Rightarrow> (1, t, t) | Some (n, a, b) \<Rightarrow> (n + 1, min t a, max t b)) buckets)"

definition attributedTurns :: "session_store \<Rightarrow> attributed_turn list" where
  "attributedTurns st =
     concat (map (\<lambda>(i, byPrincipal).
       concat (map (\<lambda>(who, w).
           map (\<lambda>(day, n, a, b). \<lparr>at_principalId = who, at_sessionId = i, at_day = day, at_turns = n, at_firstAt = a, at_lastAt = b\<rparr>)
             (fold (\<lambda>e buckets. if entryWithinTenure (en_seq e) (en_createdAt e) w then add_to_day (en_createdAt e) buckets else buckets)
                (user_turns st i) []))
         byPrincipal)) (ss_windows st))"

definition participantWindowsOf :: "session_store \<Rightarrow> string \<Rightarrow> (string \<times> string \<times> participant_window) list" where
  "participantWindowsOf st i = map (\<lambda>(who, w). (i, who, w)) (or_else (map_get (ss_windows st) i) [])"

definition listParticipants :: "session_store \<Rightarrow> (string \<times> string \<times> participant_window) list" where
  "listParticipants st = concat (map (\<lambda>(i, ws). map (\<lambda>(who, w). (i, who, w)) ws) (ss_windows st))"


section \<open>Paging\<close>

lemma sorted_js_insort:
  assumes "\<And>a b. \<not> cmp a b \<le> 0 \<Longrightarrow> cmp b a \<le> 0" and "\<And>a b c. cmp a b \<le> 0 \<Longrightarrow> cmp b c \<le> 0 \<Longrightarrow> cmp a c \<le> 0"
    and "sorted_wrt (\<lambda>a b. cmp a b \<le> 0) xs"
  shows "sorted_wrt (\<lambda>a b. cmp a b \<le> 0) (js_insort cmp x xs)"
  using assms(3) by (induction xs) (auto dest: assms(1) intro: assms(2))

lemma sorted_js_sort:
  assumes "\<And>a b. \<not> cmp a b \<le> 0 \<Longrightarrow> cmp b a \<le> 0" and "\<And>a b c. cmp a b \<le> 0 \<Longrightarrow> cmp b c \<le> 0 \<Longrightarrow> cmp a c \<le> 0"
  shows "sorted_wrt (\<lambda>a b. cmp a b \<le> 0) (js_sort cmp xs)"
  unfolding js_sort_def by (induction xs) (auto intro: sorted_js_insort assms)

definition cursor_of :: "session_summary \<Rightarrow> time \<times> string" where
  "cursor_of r = (sy_lastActivity r, sy_id r)"

lemma summary_order_le:
  "summary_order a b \<le> 0 \<longleftrightarrow> sy_id a = sy_id b \<and> sy_lastActivity a = sy_lastActivity b \<or> before_cursor (cursor_of a) b"
  by (auto simp: summary_order_def idDesc_def before_cursor_def cursor_of_def split: if_splits)

lemma summaries_sorted: "sorted_wrt (\<lambda>a b. summary_order a b \<le> 0) (all_summaries st scope orgWide page ids)"
  unfolding all_summaries_def
  by (rule sorted_js_sort) (auto simp: summary_order_def idDesc_def split: if_splits)

lemma session_map_step: "map_ok (ss_sessions st) \<Longrightarrow> map_ok (ss_sessions (session_exec now op st))"
  by (cases op) (auto simp: op_defs deleteSession_def Let_def split: option.splits)

lemma session_map_ok: "reach starts some_step c \<Longrightarrow> map_ok (ss_sessions (rn_store c))"
proof (induction rule: reach.induct)
  case (reach_step c c')
  then show ?case using session_map_step by (auto simp: some_step_def elim!: session_stepE)
qed (auto simp: starts_def createMemorySessionStore_def)

lemma session_ids:
  assumes "reach starts some_step c"
  shows "map se_id (scanAll (rn_store c)) = map_keys (ss_sessions (rn_store c))"
proof -
  have "se_id s = i" if "(i, s) \<in> set (ss_sessions (rn_store c))" for i s
    using that session_map_ok [OF assms] sessions_okD(1) [OF reach_ok(1) [OF assms]] by (auto simp: map_ok_def)
  then show ?thesis by (auto simp: scanAll_def)
qed

lemma distinct_map_js_insort: "distinct (map f (js_insort cmp x xs)) = (f x \<notin> f ` set xs \<and> distinct (map f xs))"
  by (induction xs) auto

lemma distinct_map_js_sort: "distinct (map f (js_sort cmp xs)) = distinct (map f xs)"
proof -
  have "f ` set (foldr (js_insort cmp) xs []) = f ` set xs" for xs by (induction xs) auto
  then show ?thesis unfolding js_sort_def by (induction xs) (auto simp: distinct_map_js_insort)
qed

lemma summary_ids_distinct:
  assumes "reach starts some_step c"
  shows "distinct (map sy_id (all_summaries (rn_store c) scope orgWide page ids))"
proof -
  have "distinct (map se_id (scanAll (rn_store c)))"
    using session_ids [OF assms] session_map_ok [OF assms] by (simp add: map_ok_def)
  then have "distinct (map se_id (filter P (scanAll (rn_store c))))" for P by (rule distinct_map_filter)
  moreover have "sy_id \<circ> summary_of st = se_id" for st by (auto simp: summary_of_def Let_def)
  ultimately show ?thesis by (simp add: all_summaries_def distinct_map_js_sort)
qed

lemma strictly_sorted:
  assumes "sorted_wrt (\<lambda>a b. summary_order a b \<le> 0) xs" and "distinct (map sy_id xs)"
  shows "sorted_wrt (\<lambda>a b. before_cursor (cursor_of a) b) xs"
  using assms by (induction xs) (auto simp: summary_order_le)

lemma filter_after:
  assumes "sorted_wrt (\<lambda>a b. before_cursor (cursor_of a) b) xs" and "k < length xs"
  shows "filter (before_cursor (cursor_of (xs ! k))) xs = drop (Suc k) xs"
proof -
  have split: "xs = take (Suc k) xs @ drop (Suc k) xs" by simp
  have asym: "before_cursor (cursor_of a) b \<Longrightarrow> \<not> before_cursor (cursor_of b) a" for a b
    by (auto simp: before_cursor_def cursor_of_def)
  have "\<not> before_cursor (cursor_of (xs ! k)) y" if "y \<in> set (take (Suc k) xs)" for y
  proof -
    obtain j where j: "j < Suc k" "y = xs ! j" using \<open>y \<in> _\<close> assms(2) by (auto simp: in_set_conv_nth)
    show ?thesis
    proof (cases "j = k")
      case True
      then show ?thesis using j by (simp add: before_cursor_def cursor_of_def)
    next
      case False
      then show ?thesis using j assms sorted_wrt_nth_less [OF assms(1), of j k] asym by auto
    qed
  qed
  moreover have "before_cursor (cursor_of (xs ! k)) y" if y: "y \<in> set (drop (Suc k) xs)" for y
  proof -
    obtain j where "j < length xs - Suc k" "y = xs ! (Suc k + j)" using y by (auto simp: in_set_conv_nth)
    then show ?thesis using sorted_wrt_nth_less [OF assms(1), of k "Suc k + j"] by auto
  qed
  ultimately have "filter (before_cursor (cursor_of (xs ! k))) (take (Suc k) xs) = []"
    "filter (before_cursor (cursor_of (xs ! k))) (drop (Suc k) xs) = drop (Suc k) xs"
    by (auto simp: filter_empty_conv filter_id_conv)
  then show ?thesis by (metis append_Nil filter_append split)
qed

lemma all_summaries_cursor [simp]:
  "all_summaries st scope orgWide (Some (p\<lparr>pg_before := b\<rparr>)) ids = all_summaries st scope orgWide (Some p) ids"
  "all_summaries st scope orgWide (Some (p\<lparr>pg_offset := n\<rparr>)) ids = all_summaries st scope orgWide (Some p) ids"
  by (simp_all add: all_summaries_def)

text \<open>
  Asking for the sessions before the last row of a page gives the same rows as asking for the page at
  the next offset, and the listing has every session of the scope that passes the filters once: a
  client that follows the cursor sees each of them exactly once.
\<close>

theorem cursor_pages_are_offset_pages:
  assumes "reach starts some_step c" and "pg_before p = None"
    and "page = scopeSessionSummaries (rn_store c) scope orgWide (Some p) ids" and "length page = pg_limit p" and "page \<noteq> []"
  shows "scopeSessionSummaries (rn_store c) scope orgWide (Some (p\<lparr>pg_before := Some (cursor_of (last page))\<rparr>)) ids =
      scopeSessionSummaries (rn_store c) scope orgWide (Some (p\<lparr>pg_offset := pg_offset p + pg_limit p\<rparr>)) ids \<and>
    distinct (map sy_id page)"
proof -
  let ?all = "all_summaries (rn_store c) scope orgWide (Some p) ids"
  have srt: "sorted_wrt (\<lambda>a b. before_cursor (cursor_of a) b) ?all"
    by (rule strictly_sorted [OF summaries_sorted summary_ids_distinct [OF assms(1)]])
  have page: "page = take (pg_limit p) (drop (pg_offset p) ?all)"
    using assms(2,3) by (simp add: scopeSessionSummaries_def Let_def)
  let ?k = "pg_offset p + pg_limit p - 1"
  have n: "0 < pg_limit p" using assms(4,5) by (cases page) auto
  have k: "?k < length ?all" using assms(4) n page by auto
  have "last page = page ! (pg_limit p - 1)" using assms(4,5) by (simp add: last_conv_nth)
  then have "last page = ?all ! ?k" using n k by (simp add: page)
  moreover have "Suc ?k = pg_offset p + pg_limit p" using n by simp
  ultimately have f: "filter (before_cursor (cursor_of (last page))) ?all = drop (pg_offset p + pg_limit p) ?all"
    using filter_after [OF srt k] by simp
  have d: "distinct (map sy_id page)"
    using summary_ids_distinct [OF assms(1)] page by (auto simp: take_map [symmetric] drop_map [symmetric])
  show ?thesis using f d assms(2) by (simp add: scopeSessionSummaries_def Let_def)
qed

section \<open>Counts\<close>

definition adds_up :: "session_stats \<Rightarrow> bool" where
  "adds_up a = (sa_all a = sa_conversation a + sa_background a \<and> sa_total a \<le> sa_all a)"

lemma adds_up_step: "adds_up a \<Longrightarrow> adds_up (add_to_stats st cat og cr s a)"
  by (auto simp: adds_up_def add_to_stats_def Let_def sessionCategory_def)

lemma adds_up_stats: "adds_up (scopeSessionStats st scope orgWide cat og cr)"
  unfolding scopeSessionStats_def
  by (rule fold_invariant [where Q = "\<lambda>_. True"]) (auto simp: adds_up_step, simp add: adds_up_def)

text \<open>Every session of the scope is counted once, as a conversation or as background work.\<close>

theorem stats_add_up:
  "sa_all (scopeSessionStats st scope orgWide cat og cr) =
     sa_conversation (scopeSessionStats st scope orgWide cat og cr) + sa_background (scopeSessionStats st scope orgWide cat og cr) \<and>
   sa_total (scopeSessionStats st scope orgWide cat og cr) \<le> sa_all (scopeSessionStats st scope orgWide cat og cr)"
  using adds_up_stats [of st scope orgWide cat og cr] by (simp add: adds_up_def)

section \<open>Witness\<close>

definition two_ops :: "(time \<times> session_op) list" where
  "two_ops = [(1, OpOpen ''s1'' ''thread'' StDm ''org:o'' None None), (2, OpOpen ''s2'' ''other'' StDm ''org:o'' None None)]"

definition ex_two :: session_run where
  "ex_two = the (run_ops two_ops ex_start)"

lemma ex_two_reach: "reach starts some_step ex_two"
proof -
  have "run_ops two_ops ex_start \<noteq> None"
    by code_simp
  then have "some_step\<^sup>*\<^sup>* ex_start ex_two" by (intro run_ops_steps) (auto simp: ex_two_def)
  moreover have "reach starts some_step ex_start" by (rule reach_init) (auto simp: starts_def ex_start_def)
  ultimately show ?thesis by (rule reach_steps [rotated])
qed

definition ex_page :: session_page where
  "ex_page = \<lparr>pg_limit = 1, pg_offset = 0, pg_before = None, pg_category = None, pg_origin = None, pg_cronId = None\<rparr>"

theorem cursor_pages_are_offset_pages_witness:
  "\<exists>page. page \<noteq> [] \<and>
     scopeSessionSummaries (rn_store ex_two) ''org:o'' False (Some (ex_page\<lparr>pg_before := Some (cursor_of (last page))\<rparr>)) None =
     scopeSessionSummaries (rn_store ex_two) ''org:o'' False (Some (ex_page\<lparr>pg_offset := 1\<rparr>)) None"
proof -
  let ?page = "scopeSessionSummaries (rn_store ex_two) ''org:o'' False (Some ex_page) None"
  have "map sy_id ?page = [''s2'']" by code_simp
  then have ne: "?page \<noteq> []" and len: "length ?page = pg_limit ex_page"
    by (auto simp: ex_page_def dest: arg_cong [where f = length])
  have "pg_before ex_page = None" "pg_offset ex_page = 0" "pg_limit ex_page = 1" by (simp_all add: ex_page_def)
  then show ?thesis using cursor_pages_are_offset_pages [OF ex_two_reach _ refl len ne] ne by auto
qed

end
