(* ===== verification/Transcripts.thy ===== *)
theory Transcripts
  imports Session_Types Turn_Types
begin

text \<open>
  The transcript of a session as a client loads it (\<open>windowedTranscript\<close> of
  \<open>src/sessions/session-store.ts\<close>): a tail of the entries that fits a byte budget and starts with a
  turn, with the long strings of tool calls and results shortened.
\<close>

section \<open>Sizes\<close>

definition TRANSCRIPT_BYTE_BUDGET :: nat where
  "TRANSCRIPT_BYTE_BUDGET = 400000"

definition ENTRY_STRING_BUDGET :: nat where
  "ENTRY_STRING_BUDGET = 2000"

definition WALK_DEPTH :: nat where
  "WALK_DEPTH = 8"

text \<open>\<open>JSON.stringify\<close>, of which only the length is used.\<close>

definition quoted_char_length :: "char \<Rightarrow> nat" where
  "quoted_char_length c =
     (let n = (of_char c :: nat) in if n \<in> {8, 9, 10, 12, 13, 34, 92} then 2 else if n < 32 then 6 else 1)"

definition string_length :: "string \<Rightarrow> nat" where
  "string_length s = 2 + sum_list (map quoted_char_length s)"

definition separated :: "nat list \<Rightarrow> nat" where
  "separated ns = 2 + sum_list ns + (length ns - 1)"

fun stringify_length :: "json \<Rightarrow> nat" where
  "stringify_length JNull = 4"
| "stringify_length (JBool b) = (if b then 4 else 5)"
| "stringify_length (JNum i) = length (show_nat (nat \<bar>i\<bar>)) + (if i < 0 then 1 else 0)"
| "stringify_length (JStr s) = string_length s"
| "stringify_length (JArr vs) = separated (map stringify_length vs)"
| "stringify_length (JObj fs) = separated (map (\<lambda>(k, v). string_length k + 1 + stringify_length v) fs)"

text \<open>The walk of a value, \<open>levels\<close> more levels deep.\<close>

primrec payload_bytes :: "nat \<Rightarrow> json \<Rightarrow> nat" where
  "payload_bytes 0 v = (case v of JStr s \<Rightarrow> length s + 2 | JArr _ \<Rightarrow> stringify_length v | JObj _ \<Rightarrow> stringify_length v | _ \<Rightarrow> 8)"
| "payload_bytes (Suc levels) v =
     (case v of
        JStr s \<Rightarrow> length s + 2
      | JArr vs \<Rightarrow> 2 + sum_list (map (\<lambda>x. payload_bytes levels x + 1) vs)
      | JObj fs \<Rightarrow> 2 + sum_list (map (\<lambda>(k, x). length k + payload_bytes levels x + 4) fs)
      | _ \<Rightarrow> 8)"

definition payloadBytes :: "json \<Rightarrow> nat \<Rightarrow> nat" where
  "payloadBytes v depth = payload_bytes (WALK_DEPTH - depth) v"

primrec shorten_levels :: "nat \<Rightarrow> json \<Rightarrow> json \<times> bool" where
  "shorten_levels 0 v =
     (case v of
        JStr s \<Rightarrow> if length s > ENTRY_STRING_BUDGET then (JStr (take ENTRY_STRING_BUDGET s), True) else (v, False)
      | JArr _ \<Rightarrow> if stringify_length v > ENTRY_STRING_BUDGET then (JNull, True) else (v, False)
      | JObj _ \<Rightarrow> if stringify_length v > ENTRY_STRING_BUDGET then (JNull, True) else (v, False)
      | _ \<Rightarrow> (v, False))"
| "shorten_levels (Suc levels) v =
     (case v of
        JStr s \<Rightarrow> if length s > ENTRY_STRING_BUDGET then (JStr (take ENTRY_STRING_BUDGET s), True) else (v, False)
      | JArr vs \<Rightarrow>
          (let ws = map (shorten_levels levels) vs
           in if list_ex snd ws then (JArr (map fst ws), True) else (v, False))
      | JObj fs \<Rightarrow>
          (let ws = map (\<lambda>(k, x). (k, shorten_levels levels x)) fs
           in if list_ex (\<lambda>(k, w). snd w) ws then (JObj (map (\<lambda>(k, w). (k, fst w)) ws), True) else (v, False))
      | _ \<Rightarrow> (v, False))"

definition shortenStrings :: "json \<Rightarrow> nat \<Rightarrow> json \<times> bool" where
  "shortenStrings v depth = shorten_levels (WALK_DEPTH - depth) v"

section \<open>The window\<close>

record transcript_entry = session_entry +
  te_truncated :: bool

definition postsToTheConversation :: "session_entry \<Rightarrow> bool" where
  "postsToTheConversation e = (en_type e = EToolCall \<and> field ''action'' (en_payload e) = Some (JStr ''post''))"

definition as_transcript :: "session_entry \<Rightarrow> json \<Rightarrow> bool \<Rightarrow> transcript_entry" where
  "as_transcript e payload truncated =
     \<lparr>en_sessionId = en_sessionId e, en_seq = en_seq e, en_parentSeq = en_parentSeq e, en_type = en_type e,
      en_payload = payload, en_scopeLabel = en_scopeLabel e, en_createdAt = en_createdAt e, te_truncated = truncated\<rparr>"

definition projectEntry :: "session_entry \<Rightarrow> transcript_entry" where
  "projectEntry e =
     (if en_type e \<notin> {EToolCall, EToolResult} \<or> postsToTheConversation e then as_transcript e (en_payload e) False
      else (case shortenStrings (en_payload e) 0 of
              (v, truncated) \<Rightarrow> as_transcript e (if truncated then v else en_payload e) truncated))"

record transcript_window =
  tw_tailTurns :: "int option"
  tw_sinceSeq :: "int option"
  tw_beforeSeq :: "int option"

text \<open>\<open>findIndex\<close>, the length of the list when nothing is found.\<close>

fun index_where :: "('a \<Rightarrow> bool) \<Rightarrow> 'a list \<Rightarrow> nat" where
  "index_where p [] = 0"
| "index_where p (x # xs) = (if p x then 0 else Suc (index_where p xs))"

definition from_seq :: "int \<Rightarrow> session_entry list \<Rightarrow> nat" where
  "from_seq n es = index_where (\<lambda>e. int (en_seq e) \<ge> n) es"

text \<open>From the end, the position of the \<open>n\<close>th user entry; zero if there are fewer.\<close>

fun tail_cut :: "session_entry list \<Rightarrow> int \<Rightarrow> nat" where
  "tail_cut [] n = 0"
| "tail_cut (e # es) n =
     (if en_type e \<noteq> EUser then tail_cut es n
      else if n = 1 then length es else tail_cut es (n - 1))"

text \<open>From the end, how many entries stay under the budget; the last one always does.\<close>

fun fit :: "transcript_entry list \<Rightarrow> nat \<Rightarrow> bool \<Rightarrow> nat" where
  "fit [] spend started = 0"
| "fit (e # es) spend started =
     (let bytes = payloadBytes (en_payload e) 0
      in if spend + bytes > TRANSCRIPT_BYTE_BUDGET \<and> started then Suc (length es)
         else fit es (spend + bytes) True)"

definition turn_boundary :: "transcript_entry list \<Rightarrow> nat \<Rightarrow> nat" where
  "turn_boundary windowed from =
     (let rest = drop from windowed; i = index_where (\<lambda>e. en_type e = EUser) rest
      in if i < length rest then from + i else from)"

definition windowedTranscript ::
  "session_entry list \<Rightarrow> transcript_window option \<Rightarrow> transcript_entry list \<times> nat" where
  "windowedTranscript all window =
     (let es = (case Option.bind window tw_beforeSeq of None \<Rightarrow> all | Some n \<Rightarrow> take (from_seq n all) all);
          cut = (case Option.bind window tw_sinceSeq of
                   Some n \<Rightarrow> from_seq n es
                 | None \<Rightarrow> (case Option.bind window tw_tailTurns of
                             Some n \<Rightarrow> if n > 0 then tail_cut (rev es) n else 0
                           | None \<Rightarrow> 0));
          windowed = map projectEntry (drop cut es)
      in if window = None \<or> Option.bind window tw_sinceSeq \<noteq> None then (windowed, cut)
         else (let from0 = fit (rev windowed) 0 False;
                   from = (if from0 > 0 then turn_boundary windowed from0 else from0)
               in (drop from windowed, cut + from)))"

section \<open>What a window holds\<close>

definition bytes_of :: "transcript_entry list \<Rightarrow> nat" where
  "bytes_of es = sum_list (map (\<lambda>e. payloadBytes (en_payload e) 0) es)"

lemma index_where_le: "index_where p xs \<le> length xs"
  by (induction xs) auto

lemma tail_cut_le: "tail_cut es n \<le> length es"
  by (induction es n rule: tail_cut.induct) (auto simp: le_SucI)

lemma tail_cut_lt: "es \<noteq> [] \<Longrightarrow> tail_cut es n < length es"
  by (induction es n rule: tail_cut.induct) (auto intro: le_less_trans [OF tail_cut_le])

lemma fit_le: "fit es spend started \<le> length es"
  by (induction es spend started rule: fit.induct) (auto simp: Let_def intro: le_SucI)

lemma turn_boundary_bounds: "from \<le> length w \<Longrightarrow> from \<le> turn_boundary w from \<and> turn_boundary w from \<le> length w"
  using index_where_le [of "\<lambda>e. en_type e = EUser" "drop from w"] by (auto simp: turn_boundary_def Let_def)

lemma fit_budget:
  "bytes_of (take (length es - fit es spend True) es) + spend \<le> max spend TRANSCRIPT_BYTE_BUDGET"
proof (induction es spend True rule: fit.induct)
  case (2 e es spend)
  let ?b = "payloadBytes (en_payload e) 0"
  show ?case
  proof (cases "spend + ?b > TRANSCRIPT_BYTE_BUDGET")
    case False
    then have f: "fit (e # es) spend True = fit es (spend + ?b) True" by simp
    have "length (e # es) - fit es (spend + ?b) True = Suc (length es - fit es (spend + ?b) True)"
      using fit_le [of es "spend + ?b" True] by simp
    with 2(1) [OF refl] False show ?thesis unfolding f by (simp add: bytes_of_def)
  qed (simp add: bytes_of_def)
qed (simp add: bytes_of_def)

lemma bytes_append: "bytes_of (u @ v) = bytes_of u + bytes_of v" "bytes_of (rev u) = bytes_of u"
  by (simp_all add: bytes_of_def rev_map [symmetric])

lemma bytes_drop: "bytes_of (drop m w) \<le> bytes_of w"
  using bytes_append(1) [of "take m w" "drop m w"] by simp

lemma drop_of_rev: "n \<le> length w \<Longrightarrow> rev (take (length w - n) (rev w)) = drop n w"
  by (simp add: take_rev)

text \<open>What the budget leaves: at least the last entry, and more only within the budget.\<close>

lemma fit_window:
  assumes "w \<noteq> []" "from = fit (rev w) 0 False"
  shows "from < length w" "bytes_of (drop from w) \<le> TRANSCRIPT_BYTE_BUDGET \<or> length (drop from w) = 1"
proof -
  obtain e es where r: "rev w = e # es" using assms(1) by (cases "rev w") auto
  let ?b = "payloadBytes (en_payload e) 0"
  have len: "length w = Suc (length es)" using r by (metis length_Cons length_rev)
  have f: "from = fit es ?b True" using assms(2) r by simp
  show lt: "from < length w" unfolding f len using fit_le le_imp_less_Suc by blast
  have d: "drop from w = rev (take (length es - from) es) @ [e]"
    using drop_of_rev [of "from" w] lt r len by (simp add: Suc_diff_le)
  show "bytes_of (drop from w) \<le> TRANSCRIPT_BYTE_BUDGET \<or> length (drop from w) = 1"
  proof (cases "?b \<le> TRANSCRIPT_BYTE_BUDGET")
    case True
    have "bytes_of (take (length es - from) es) + ?b \<le> TRANSCRIPT_BYTE_BUDGET"
      using fit_budget [of es ?b] True f by simp
    then show ?thesis unfolding d by (simp add: bytes_append) (simp add: bytes_of_def)
  next
    case False
    then have "from = length es" using f by (cases es) auto
    then show ?thesis unfolding d by simp
  qed
qed

lemma turn_boundary_lt: "from < length w \<Longrightarrow> turn_boundary w from < length w"
  by (auto simp: turn_boundary_def Let_def)

text \<open>
  A client that asks for a transcript without naming the entry to start from gets the end of the
  entries it asked for: with nothing in between left out, never empty unless there are none, within
  the byte budget unless it is a single entry, and it is told how many entries come before.
\<close>

theorem transcript_tail_in_budget:
  assumes "windowedTranscript all (Some w) = (shown, earlier)" and "tw_sinceSeq w = None"
  shows "\<exists>es. es = (case tw_beforeSeq w of None \<Rightarrow> all | Some n \<Rightarrow> take (from_seq n all) all) \<and>
    shown = map projectEntry (drop earlier es) \<and> (es \<noteq> [] \<longrightarrow> shown \<noteq> []) \<and>
    (bytes_of shown \<le> TRANSCRIPT_BYTE_BUDGET \<or> length shown = 1)"
proof -
  define es where "es = (case tw_beforeSeq w of None \<Rightarrow> all | Some n \<Rightarrow> take (from_seq n all) all)"
  define cut where "cut = (case tw_tailTurns w of Some n \<Rightarrow> if n > 0 then tail_cut (rev es) n else 0 | None \<Rightarrow> 0)"
  define win where "win = map projectEntry (drop cut es)"
  define from0 where "from0 = fit (rev win) 0 False"
  define from1 where "from1 = (if from0 > 0 then turn_boundary win from0 else from0)"
  have "windowedTranscript all (Some w) = (drop from1 win, cut + from1)"
    unfolding windowedTranscript_def Let_def Option.bind.simps assms(2) option.case es_def [symmetric] cut_def [symmetric]
      win_def [symmetric] from0_def [symmetric] from1_def [symmetric] by simp
  then have r: "shown = drop from1 win" "earlier = cut + from1" using assms(1) by simp_all
  have "cut < length es" if "es \<noteq> []"
    using that tail_cut_lt [of "rev es"] by (auto simp: cut_def split: option.splits)
  then have win0: "win \<noteq> []" if "es \<noteq> []" using that by (simp add: win_def)
  have shown: "shown = map projectEntry (drop earlier es)" by (simp add: r win_def drop_map add.commute)
  show ?thesis
  proof (cases "win = []")
    case True
    then have "shown = []" using r by simp
    then show ?thesis using shown win0 True es_def by (auto simp: bytes_of_def)
  next
    case False
    note f = fit_window [OF False from0_def]
    have le: "from0 \<le> from1" "from1 < length win"
      using f(1) turn_boundary_bounds [of from0 win] turn_boundary_lt [OF f(1)] by (auto simp: from1_def)
    then have "shown \<noteq> []" by (simp add: r)
    moreover have "shown = drop (from1 - from0) (drop from0 win)" using le by (simp add: r)
    then have "bytes_of shown \<le> TRANSCRIPT_BYTE_BUDGET \<or> length shown = 1"
      using f(2) bytes_drop [of "from1 - from0" "drop from0 win"] le by auto
    ultimately show ?thesis using shown es_def by blast
  qed
qed

theorem transcript_tail_in_budget_witness:
  "fst (windowedTranscript [\<lparr>en_sessionId = ''s'', en_seq = 0, en_parentSeq = None, en_type = EUser, en_payload = JStr ''hi'',
      en_scopeLabel = ''o'', en_createdAt = 1\<rparr>] (Some \<lparr>tw_tailTurns = Some 3, tw_sinceSeq = None, tw_beforeSeq = None\<rparr>)) \<noteq> []"
  (is "fst (windowedTranscript ?es (Some ?w)) \<noteq> []")
proof -
  obtain shown earlier where r: "windowedTranscript ?es (Some ?w) = (shown, earlier)" by force
  have "tw_sinceSeq ?w = None" by simp
  from transcript_tail_in_budget [OF r this] r show ?thesis by auto
qed

end
