(* ===== verification/Lease_Wait.thy ===== *)
theory Lease_Wait
  imports Session_Store
begin

text \<open>
  Waiting for the lease of a session (\<open>acquireLeaseWithin\<close> of \<open>src/sessions/session-store.ts\<close>): try, and
  while somebody holds it look again after growing pauses until the budget is used up. What the store
  answers is up to the rest of the system: \<open>we_acquire k\<close> and \<open>we_peek k\<close> are its answers at the \<open>k\<close>th
  await, and \<open>we_lag k\<close> the milliseconds that await takes longer than the pause asked for.
\<close>

record wait_env =
  we_acquire :: "nat \<Rightarrow> lease_attempt"
  we_peek :: "nat \<Rightarrow> (lease_holder option \<times> time) option"
  we_lag :: "nat \<Rightarrow> nat"

definition LEASE_WAIT_MIN_DELAY_MS :: int where
  "LEASE_WAIT_MIN_DELAY_MS = 25"

definition LEASE_WAIT_MAX_DELAY_MS :: int where
  "LEASE_WAIT_MAX_DELAY_MS = 1000"

text \<open>Where the two loops are: about to try, or pausing after an attempt that failed.\<close>

datatype phase = Try | Pause lease_attempt

definition hopeless :: "(lease_holder option \<Rightarrow> bool) option \<Rightarrow> lease_attempt \<Rightarrow> bool" where
  "hopeless waitFor a =
     (la_heldUntil a = None \<or> (case waitFor of None \<Rightarrow> False | Some f \<Rightarrow> \<not> f (la_heldBy a)))"

partial_function (option) wait_loop ::
  "wait_env \<Rightarrow> (lease_holder option \<Rightarrow> bool) option \<Rightarrow> time \<Rightarrow> time \<Rightarrow> phase \<Rightarrow> nat \<Rightarrow> time \<Rightarrow> int \<Rightarrow> (lease_attempt \<times> int) option" where
  "wait_loop env waitFor started deadline ph k now delay =
     (case ph of
        Try \<Rightarrow>
          (let a = we_acquire env k
           in if la_lease a \<noteq> None \<or> hopeless waitFor a then Some (a, now - started)
              else wait_loop env waitFor started deadline (Pause a) (Suc k) (now + int (we_lag env k)) delay)
      | Pause a \<Rightarrow>
          if now + LEASE_WAIT_MIN_DELAY_MS > deadline then Some (a, now - started)
          else
            (let now' = now + min delay (deadline - now) + int (we_lag env k) + int (we_lag env (Suc k));
                 delay' = min (delay * 2) LEASE_WAIT_MAX_DELAY_MS
             in if (case we_peek env (Suc k) of None \<Rightarrow> True | Some (h, heldUntil) \<Rightarrow> heldUntil \<le> now')
                then wait_loop env waitFor started deadline Try (Suc (Suc k)) now' delay'
                else wait_loop env waitFor started deadline (Pause a) (Suc (Suc k)) now' delay'))"

definition acquireLeaseWithin ::
  "wait_env \<Rightarrow> time \<Rightarrow> int \<Rightarrow> (lease_holder option \<Rightarrow> bool) option \<Rightarrow> (lease_attempt \<times> int) option" where
  "acquireLeaseWithin env started budgetMs waitFor =
     wait_loop env waitFor started (started + budgetMs) Try 0 started LEASE_WAIT_MIN_DELAY_MS"

section \<open>It returns\<close>

definition left :: "time \<Rightarrow> phase \<Rightarrow> time \<Rightarrow> nat" where
  "left deadline ph now = 2 * nat (deadline - now) + (if ph = Try then 1 else 0)"

definition answered :: "wait_env \<Rightarrow> (lease_holder option \<Rightarrow> bool) option \<Rightarrow> time \<Rightarrow> time \<Rightarrow> lease_attempt \<times> int \<Rightarrow> bool" where
  "answered env waitFor started deadline res =
     ((\<exists>k. fst res = we_acquire env k) \<and>
      (la_lease (fst res) \<noteq> None \<or> hopeless waitFor (fst res) \<or> started + snd res + LEASE_WAIT_MIN_DELAY_MS > deadline))"

lemma wait_loop_returns:
  assumes "delay \<ge> LEASE_WAIT_MIN_DELAY_MS" "\<And>a. ph = Pause a \<Longrightarrow> \<exists>k. a = we_acquire env k"
  shows "\<exists>res. wait_loop env waitFor started deadline ph k now delay = Some res \<and> answered env waitFor started deadline res"
  using assms
proof (induction "left deadline ph now" arbitrary: ph k now delay rule: less_induct)
  case less
  show ?case
  proof (cases ph)
    case Try
    let ?a = "we_acquire env k"
    show ?thesis
    proof (cases "la_lease ?a \<noteq> None \<or> hopeless waitFor ?a")
      case True
      then show ?thesis using Try by (subst wait_loop.simps) (auto simp: Let_def answered_def)
    next
      case False
      have "left deadline (Pause ?a) (now + int (we_lag env k)) < left deadline ph now" using Try by (simp add: left_def)
      from less.hyps [OF this less.prems(1), of "Suc k"] show ?thesis
        using Try False by (subst wait_loop.simps) (auto simp: Let_def)
    qed
  next
    case (Pause a)
    obtain j where j: "a = we_acquire env j" using less.prems(2) Pause by blast
    show ?thesis
    proof (cases "now + LEASE_WAIT_MIN_DELAY_MS > deadline")
      case True
      then show ?thesis using Pause j by (subst wait_loop.simps) (auto simp: answered_def)
    next
      case False
      let ?now = "now + min delay (deadline - now) + int (we_lag env k) + int (we_lag env (Suc k))"
      let ?delay = "min (delay * 2) LEASE_WAIT_MAX_DELAY_MS"
      have d: "?delay \<ge> LEASE_WAIT_MIN_DELAY_MS"
        using less.prems(1) by (simp add: LEASE_WAIT_MIN_DELAY_MS_def LEASE_WAIT_MAX_DELAY_MS_def)
      have "?now \<ge> now + 25" using less.prems(1) False by (simp add: LEASE_WAIT_MIN_DELAY_MS_def)
      then have l: "left deadline ph' ?now < left deadline ph now" for ph'
        using False Pause by (auto simp: left_def LEASE_WAIT_MIN_DELAY_MS_def)
      from less.hyps [OF l [of Try] d, of "Suc (Suc k)"] less.hyps [OF l [of "Pause a"] d, of "Suc (Suc k)"]
      show ?thesis using Pause False j by (subst wait_loop.simps) (auto simp: Let_def)
    qed
  qed
qed


definition ex_env :: wait_env where
  "ex_env = \<lparr>we_acquire = (\<lambda>k. \<lparr>la_lease = None, la_heldBy = Some LhTurn, la_heldSince = Some 0, la_heldUntil = Some 1000000\<rparr>),
     we_peek = (\<lambda>k. None), we_lag = (\<lambda>k. 3)\<rparr>"


end
