(* ===== verification/Tape_Fold.thy ===== *)
theory Tape_Fold
  imports Session_Store
begin

text \<open>
  The tape of a session: the fold into a conversation, and the checkpoints that say up to where the
  tape covers the log.
\<close>

text \<open>
  The conversation a model is given, folded from the tape of a session (\<open>src/harness/tape-fold.ts\<close>):
  the messages in order, summaries in place of what was compacted, older conversations imported, calls
  of tools that were interrupted answered, and the check that the result is well formed. A message is
  a JSON value of unknown shape; \<open>messages\<close> and \<open>text\<close> of an event are read at their declared type.
  Dashes of the texts are written in ASCII.
\<close>

section \<open>Messages and events\<close>

definition INTERRUPTED_TOOL_RESULT :: string where
  "INTERRUPTED_TOOL_RESULT =
     ''[interrupted - the platform restarted while this tool call was running and its outcome was not recorded. '' @
     ''Check what actually happened before redoing anything with side effects.]''"

definition CONTEXT_SUMMARY_HEADER :: string where
  "CONTEXT_SUMMARY_HEADER =
     ''[Earlier conversation summary - an index of turns compacted out of your context. The full transcript is still stored: '' @
     ''reopen any type#seq it cites with the history tool (seq parameter; a very long entry returns as head and tail), or search it (query).]''"

definition ELIDED_IMAGE_TEXT :: string where
  "ELIDED_IMAGE_TEXT =
     ''[image removed: this conversation'' @ [CHR 0x27] @ ''s images no longer fit the model'' @ [CHR 0x27] @
     ''s request-size limit; ask for it to be re-shared if needed]''"

definition text_block :: "string \<Rightarrow> json" where
  "text_block t = JObj [(''type'', JStr ''text''), (''text'', JStr t)]"

definition has_role :: "string \<Rightarrow> json \<Rightarrow> bool" where
  "has_role r m = (field ''role'' m = Some (JStr r))"

text \<open>\<open>Array.isArray(msg.content)\<close>, with the blocks.\<close>

definition content_blocks :: "json \<Rightarrow> json list option" where
  "content_blocks m = (case field ''content'' m of Some (JArr bs) \<Rightarrow> Some bs | _ \<Rightarrow> None)"

definition set_field :: "string \<Rightarrow> json \<Rightarrow> json \<Rightarrow> json" where
  "set_field f v m = (case m of JObj fs \<Rightarrow> JObj (map_set f v fs) | _ \<Rightarrow> m)"

definition nullish :: "json option \<Rightarrow> json \<Rightarrow> json" where
  "nullish v d = (case v of None \<Rightarrow> d | Some JNull \<Rightarrow> d | Some x \<Rightarrow> x)"

definition interrupted_result :: "string \<Rightarrow> json \<Rightarrow> time \<Rightarrow> json" where
  "interrupted_result callId name at =
     JObj [(''role'', JStr ''toolResult''), (''toolCallId'', JStr callId), (''toolName'', name),
           (''content'', JArr [text_block INTERRUPTED_TOOL_RESULT]), (''isError'', JBool True), (''timestamp'', JNum at)]"

datatype tape_event =
  Compaction string
| LegacyImport "json list"
| LegacyPatch "json list"
| Interrupt

definition event_messages :: "json \<Rightarrow> json list" where
  "event_messages p = (case field ''messages'' p of Some (JArr ms) \<Rightarrow> ms | _ \<Rightarrow> [])"

definition contextEvent :: "tape_record \<Rightarrow> tape_event option" where
  "contextEvent row =
     (if nt_kind row \<noteq> TkContextEvent then None
      else
        (let p = nt_payload row; ev = field ''event'' p
         in if ev = Some (JStr ''compaction'') then Some (Compaction (or_else (string_field ''text'' p) ''undefined''))
            else if ev = Some (JStr ''legacy_import'') then Some (LegacyImport (event_messages p))
            else if ev = Some (JStr ''legacy_patch'') then Some (LegacyPatch (event_messages p))
            else if ev = Some (JStr ''interrupt'') then Some Interrupt
            else None))"

section \<open>Who may see what\<close>

definition entitled_all :: "principal list \<Rightarrow> scope_id \<Rightarrow> scope_id \<Rightarrow> scope_id \<Rightarrow> bool" where
  "entitled_all audience ss org scope = list_all (\<lambda>p. principalEntitledToScope p scope ss org) audience"

text \<open>What is left of a message that somebody present is not entitled to: the shell of a tool result.\<close>

definition redacted :: "tape_record \<Rightarrow> tape_record option" where
  "redacted r =
     (let msg = nt_payload r
      in case string_field ''toolCallId'' msg of
           Some callId \<Rightarrow>
             if has_role ''toolResult'' msg
             then Some (r\<lparr>nt_payload := interrupted_result callId (JStr (or_else (string_field ''toolName'' msg) ''tool'')) (tp_createdAt r)\<rparr>)
             else None
         | None \<Rightarrow> None)"

definition filterTapeForAudience :: "tape_record list \<Rightarrow> principal list \<Rightarrow> scope_id \<Rightarrow> scope_id \<Rightarrow> tape_record list" where
  "filterTapeForAudience rows audience ss org =
     (if audience = [] then []
      else List.map_filter
        (\<lambda>r. if nt_kind r \<noteq> TkMessage \<or> entitled_all audience ss org (nt_scopeLabel r) then Some r else redacted r) rows)"

definition is_import :: "tape_record \<Rightarrow> bool" where
  "is_import r = (case contextEvent r of Some (LegacyImport _) \<Rightarrow> True | _ \<Rightarrow> False)"

text \<open>The scopes of an event, when it has an array of them.\<close>

definition scopes_of :: "tape_record \<Rightarrow> json list option" where
  "scopes_of r = (case field ''scopes'' (nt_payload r) of Some (JArr ss) \<Rightarrow> Some ss | _ \<Rightarrow> None)"

definition lastImportLacksScopes :: "tape_record list \<Rightarrow> bool" where
  "lastImportLacksScopes rows = (case List.find is_import (rev rows) of None \<Rightarrow> False | Some r \<Rightarrow> scopes_of r = None)"

definition event_entitled :: "principal list \<Rightarrow> scope_id \<Rightarrow> scope_id \<Rightarrow> tape_record \<Rightarrow> bool" where
  "event_entitled audience ss org r =
     (case contextEvent r of
        None \<Rightarrow> True
      | Some Interrupt \<Rightarrow> True
      | Some (Compaction _) \<Rightarrow> entitled_all audience ss org (nt_scopeLabel r)
      | Some _ \<Rightarrow>
          entitled_all audience ss org (nt_scopeLabel r) \<and>
          (case scopes_of r of
             None \<Rightarrow> False
           | Some xs \<Rightarrow> list_all (\<lambda>s. case s of JStr l \<Rightarrow> entitled_all audience ss org l | _ \<Rightarrow> False) xs))"

text \<open>The rows from the last import on are looked at.\<close>

definition tapeEventsEntitled :: "tape_record list \<Rightarrow> principal list \<Rightarrow> scope_id \<Rightarrow> scope_id \<Rightarrow> bool" where
  "tapeEventsEntitled rows audience ss org =
     (if audience = [] then False
      else
        (let live = (if list_ex is_import rows then hd (dropWhile (\<lambda>r. \<not> is_import r) (rev rows)) # rev (takeWhile (\<lambda>r. \<not> is_import r) (rev rows)) else rows)
         in list_all (event_entitled audience ss org) live))"

section \<open>The fold\<close>

definition assistantDroppedAtReplay :: "json \<Rightarrow> bool" where
  "assistantDroppedAtReplay m =
     (has_role ''assistant'' m \<and> (field ''stopReason'' m = Some (JStr ''aborted'') \<or> field ''stopReason'' m = Some (JStr ''error'')))"

text \<open>The calls of tools in a message, with the name of the tool.\<close>

definition call_of :: "json \<Rightarrow> (string \<times> json) option" where
  "call_of b =
     (if field ''type'' b = Some (JStr ''toolCall'')
      then map_option (\<lambda>i. (i, nullish (field ''name'' b) (JStr ''tool''))) (string_field ''id'' b) else None)"

definition calls_of :: "json \<Rightarrow> (string \<times> json) list" where
  "calls_of m =
     (if has_role ''assistant'' m then (case content_blocks m of None \<Rightarrow> [] | Some bs \<Rightarrow> List.map_filter call_of bs) else [])"

definition answer_of :: "json \<Rightarrow> string option" where
  "answer_of m = (if has_role ''toolResult'' m then string_field ''toolCallId'' m else None)"

definition missing_calls :: "json list \<Rightarrow> (string \<times> json) list" where
  "missing_calls out =
     (let answered = List.map_filter answer_of out
      in filter (\<lambda>(i, n). i \<notin> set answered) (concat (map (\<lambda>m. if assistantDroppedAtReplay m then [] else calls_of m) out)))"

definition healDanglingCalls :: "json list \<Rightarrow> time \<Rightarrow> json list" where
  "healDanglingCalls out at = out @ map (\<lambda>(i, n). interrupted_result i n at) (missing_calls out)"

definition LEGACY_CONTINUATION_LINE :: string where
  "LEGACY_CONTINUATION_LINE = ''(continuing after the tool result above)''"

definition DELIVERY_NOTE_PREFIX :: string where
  "DELIVERY_NOTE_PREFIX = ''[files delivered to the conversation: ''"

definition deliveryNote :: "string \<Rightarrow> string" where
  "deliveryNote manifest = DELIVERY_NOTE_PREFIX @ trim (collapse_spaces manifest) @ '']''"

text \<open>\<open>/^\(delivered file\(s\) to the conversation: ([^\n]*)\)$/\<close>.\<close>

definition legacyDeliveryNoteManifest :: "string \<Rightarrow> string option" where
  "legacyDeliveryNoteManifest txt =
     (let t = trim txt; prefix = ''(delivered file(s) to the conversation: ''; rest = drop (length prefix) t
      in if startsWith t prefix \<and> rest \<noteq> [] \<and> last rest = CHR '')'' \<and> CHR 0x0A \<notin> set (butlast rest) then Some (butlast rest) else None)"

definition block_text :: "json \<Rightarrow> string option" where
  "block_text b = (if field ''type'' b = Some (JStr ''text'') then string_field ''text'' b else None)"

definition is_continuation :: "json \<Rightarrow> bool" where
  "is_continuation b = (case block_text b of None \<Rightarrow> False | Some t \<Rightarrow> trim t = LEGACY_CONTINUATION_LINE)"

definition manifest_of :: "json \<Rightarrow> string option" where
  "manifest_of b = Option.bind (block_text b) legacyDeliveryNoteManifest"

definition heal_voice :: "json \<Rightarrow> json list" where
  "heal_voice m =
     (case (if has_role ''assistant'' m then content_blocks m else None) of
        None \<Rightarrow> [m]
      | Some bs \<Rightarrow>
          (let rest = filter (\<lambda>b. \<not> is_continuation b) bs;
               manifests = List.map_filter manifest_of rest;
               kept = filter (\<lambda>b. manifest_of b = None) rest
           in if manifests = [] \<and> rest = bs then [m]
              else (if kept \<noteq> [] then [set_field ''content'' (JArr kept) m] else []) @
                   (if manifests \<noteq> []
                    then [JObj [(''role'', JStr ''user''), (''content'', JArr (map (\<lambda>x. text_block (deliveryNote x)) manifests)),
                                (''timestamp'', nullish (field ''timestamp'' m) (JNum 0))]]
                    else [])))"

definition healLegacyAssistantVoice :: "json list \<Rightarrow> json list" where
  "healLegacyAssistantVoice ms = concat (map heal_voice ms)"

record foldable =
  fo_out :: "json list"
  fo_boundaries :: "(nat \<times> int) list"

definition summary_message :: "string \<Rightarrow> time \<Rightarrow> json" where
  "summary_message t at =
     JObj [(''role'', JStr ''user''), (''content'', JArr [text_block (CONTEXT_SUMMARY_HEADER @ [CHR 0x0A] @ t)]), (''timestamp'', JNum at)]"

definition compact :: "string \<Rightarrow> time \<Rightarrow> int option \<Rightarrow> foldable \<Rightarrow> foldable" where
  "compact t at covers f =
     (let cut = Option.bind covers (\<lambda>c. List.find (\<lambda>(p, s). s \<le> c) (rev (fo_boundaries f)))
      in case cut of
           None \<Rightarrow> \<lparr>fo_out = summary_message t at # fo_out f, fo_boundaries = map (\<lambda>(p, s). (p + 1, s)) (fo_boundaries f)\<rparr>
         | Some (pos, _) \<Rightarrow>
             \<lparr>fo_out = summary_message t at # drop pos (fo_out f),
              fo_boundaries = map (\<lambda>(p, s). (p - pos + 1, s)) (filter (\<lambda>(p, s). pos \<le> p) (fo_boundaries f))\<rparr>)"

definition fold_event :: "tape_event \<Rightarrow> tape_record \<Rightarrow> foldable \<Rightarrow> foldable" where
  "fold_event ev row f =
     (case ev of
        LegacyImport ms \<Rightarrow>
          (let out = healLegacyAssistantVoice ms
           in \<lparr>fo_out = out, fo_boundaries = (case nt_coversEntrySeq row of None \<Rightarrow> [] | Some c \<Rightarrow> [(length out, c)])\<rparr>)
      | LegacyPatch ms \<Rightarrow>
          (let out = fo_out f @ healLegacyAssistantVoice ms
           in \<lparr>fo_out = out,
               fo_boundaries = fo_boundaries f @ (case nt_coversEntrySeq row of None \<Rightarrow> [] | Some c \<Rightarrow> [(length out, c)])\<rparr>)
      | Compaction t \<Rightarrow> compact t (tp_createdAt row) (nt_coversEntrySeq row) f
      | Interrupt \<Rightarrow> f\<lparr>fo_out := healDanglingCalls (fo_out f) (tp_createdAt row)\<rparr>)"

definition fold_row :: "tape_record \<Rightarrow> foldable \<Rightarrow> foldable" where
  "fold_row row f =
     (if nt_kind row = TkAnnotation then
        (if field ''turnEnd'' (nt_payload row) = Some (JBool True) \<and> nt_entrySeq row \<noteq> None
         then f\<lparr>fo_boundaries := fo_boundaries f @ [(length (fo_out f), the (nt_entrySeq row))]\<rparr> else f)
      else
        (case contextEvent row of
           Some ev \<Rightarrow> fold_event ev row f
         | None \<Rightarrow>
             if nt_kind row = TkMessage \<and> nt_payload row \<noteq> JNull then f\<lparr>fo_out := fo_out f @ [nt_payload row]\<rparr> else f))"

definition foldTape :: "tape_record list \<Rightarrow> json list" where
  "foldTape rows = fo_out (fold fold_row rows \<lparr>fo_out = [], fo_boundaries = []\<rparr>)"

section \<open>The check of a fold\<close>

text \<open>The problems, each with the number of the message; all but the last start with \<open>#\<close> in the source.\<close>

datatype lint_problem =
  FirstNotUser "json option"
| UnknownRole nat "json option"
| ImageWithoutBytes nat
| DuplicateCall nat string
| ResultWithoutCall nat "json option"
| UserWhileOpen nat nat
| DanglingCalls nat

record lint_state =
  ls_problems :: "lint_problem list"
  ls_open :: "string list"
  ls_seen :: "string list"

definition lint_images :: "nat \<Rightarrow> json \<Rightarrow> lint_problem list" where
  "lint_images i m =
     (case content_blocks m of
        None \<Rightarrow> []
      | Some bs \<Rightarrow>
          map (\<lambda>_. ImageWithoutBytes i)
            (filter (\<lambda>b. field ''type'' b = Some (JStr ''image'') \<and> string_field ''data'' b = None) bs))"

definition lint_call :: "nat \<Rightarrow> bool \<Rightarrow> string \<Rightarrow> lint_state \<Rightarrow> lint_state" where
  "lint_call i dropped callId s =
     \<lparr>ls_problems = ls_problems s @ (if callId \<in> set (ls_seen s) then [DuplicateCall i callId] else []),
      ls_open = (if dropped then ls_open s else set_add callId (ls_open s)),
      ls_seen = set_add callId (ls_seen s)\<rparr>"

definition lint_message :: "nat \<Rightarrow> json \<Rightarrow> lint_state \<Rightarrow> lint_state" where
  "lint_message i m s =
     (if \<not> has_role ''user'' m \<and> \<not> has_role ''assistant'' m \<and> \<not> has_role ''toolResult'' m
      then s\<lparr>ls_problems := ls_problems s @ [UnknownRole i (field ''role'' m)]\<rparr>
      else
        (let s1 = s\<lparr>ls_problems := ls_problems s @ lint_images i m\<rparr>
         in if has_role ''assistant'' m \<and> content_blocks m \<noteq> None
            then fold (\<lambda>(c, n). lint_call i (assistantDroppedAtReplay m) c) (calls_of m) s1
            else if has_role ''toolResult'' m then
              (case string_field ''toolCallId'' m of
                 None \<Rightarrow> s1\<lparr>ls_problems := ls_problems s1 @ [ResultWithoutCall i (field ''toolCallId'' m)]\<rparr>
               | Some c \<Rightarrow>
                   if c \<in> set (ls_open s1) then s1\<lparr>ls_open := removeAll c (ls_open s1)\<rparr>
                   else s1\<lparr>ls_problems := ls_problems s1 @ [ResultWithoutCall i (field ''toolCallId'' m)]\<rparr>)
            else if has_role ''user'' m \<and> ls_open s1 \<noteq> []
            then s1\<lparr>ls_problems := ls_problems s1 @ [UserWhileOpen i (length (ls_open s1))], ls_open := []\<rparr>
            else s1))"

definition lint_first :: "json list \<Rightarrow> lint_problem list" where
  "lint_first ms =
     (case ms of [] \<Rightarrow> [] | m # _ \<Rightarrow> if json_truthy (Some m) \<and> \<not> has_role ''user'' m then [FirstNotUser (field ''role'' m)] else [])"

definition lint_run :: "json list \<Rightarrow> lint_state" where
  "lint_run ms = fold (\<lambda>(i, m). lint_message i m) (enumerate 0 ms) \<lparr>ls_problems = lint_first ms, ls_open = [], ls_seen = []\<rparr>"

definition lintFold :: "json list \<Rightarrow> lint_problem list" where
  "lintFold ms =
     (let s = lint_run ms in ls_problems s @ (if ls_open s \<noteq> [] then [DanglingCalls (length (ls_open s))] else []))"

definition is_end_problem :: "lint_problem \<Rightarrow> bool" where
  "is_end_problem p = (case p of DanglingCalls _ \<Rightarrow> True | _ \<Rightarrow> False)"

definition tapeNeedsInterruptHeal :: "tape_record list \<Rightarrow> json list option \<Rightarrow> bool" where
  "tapeNeedsInterruptHeal rows folded =
     (let problems = lintFold (or_else folded (foldTape rows)) in problems \<noteq> [] \<and> list_all is_end_problem problems)"

definition healFoldInterrupt :: "json list \<Rightarrow> time \<Rightarrow> json list" where
  "healFoldInterrupt ms at = healDanglingCalls ms at"

record tape_plan =
  tpl_seed :: "json list option"
  tpl_foreign :: bool
  tpl_lint :: "lint_problem list option"
  tpl_fold :: "json list option"

definition planTapeSeed :: "tape_record list \<Rightarrow> string \<Rightarrow> bool \<Rightarrow> json list option \<Rightarrow> tape_plan" where
  "planTapeSeed rows harness serve folded =
     (if list_ex (\<lambda>r. nt_kind r = TkMessage \<and> nt_harness r \<noteq> None \<and> nt_harness r \<noteq> Some harness) rows
      then \<lparr>tpl_seed = None, tpl_foreign = True, tpl_lint = None, tpl_fold = None\<rparr>
      else
        (let fd = or_else folded (foldTape rows); lint = lintFold fd
         in \<lparr>tpl_seed = (if serve \<and> lint = [] \<and> fd \<noteq> [] then Some fd else None), tpl_foreign = False,
             tpl_lint = Some lint, tpl_fold = Some fd\<rparr>))"

text \<open>
  The payload of a checkpoint of the tape (\<open>tapeCheckpointPayload\<close> of \<open>src/sessions/session-store.ts\<close>) and the
  names of the types of entries.
\<close>

definition TAPE_RENDER_VERSION :: int where
  "TAPE_RENDER_VERSION = 1"

definition entry_type_name :: "entry_type \<Rightarrow> string" where
  "entry_type_name t =
     (case t of
        EUser \<Rightarrow> ''user'' | EAssistant \<Rightarrow> ''assistant'' | EThinking \<Rightarrow> ''thinking'' | EText \<Rightarrow> ''text'' | EToolCall \<Rightarrow> ''tool_call''
      | EToolResult \<Rightarrow> ''tool_result'' | ESoul \<Rightarrow> ''soul'' | ESystem \<Rightarrow> ''system'' | EDelivery \<Rightarrow> ''delivery''
      | EApprovalRequest \<Rightarrow> ''approval_request'' | EApprovalResolved \<Rightarrow> ''approval_resolved'')"

record checkpoint_entry =
  ce_type :: entry_type
  ce_payload :: json
  ce_at :: time

definition checkpoint_json :: "checkpoint_entry \<Rightarrow> json" where
  "checkpoint_json e = JObj [(''type'', JStr (entry_type_name (ce_type e))), (''payload'', ce_payload e), (''at'', JNum (ce_at e))]"

definition tapeCheckpointPayload :: "string \<Rightarrow> checkpoint_entry option \<Rightarrow> int option \<Rightarrow> json" where
  "tapeCheckpointPayload bound e spanStart =
     JObj ([(bound, JBool True), (''render'', JNum TAPE_RENDER_VERSION)] @
       (case e of None \<Rightarrow> [] | Some x \<Rightarrow> [(''entry'', checkpoint_json x)]) @
       (case spanStart of None \<Rightarrow> [] | Some n \<Rightarrow> [(''spanStart'', JNum n)]))"

end
