(* ===== verification/Session_Tape.thy ===== *)
theory Session_Tape
  imports Session_Theorems Tape_Fold
begin

text \<open>
  Appending to a session outside a turn (\<open>appendEntryOutsideTurn\<close> of \<open>src/sessions/session-store.ts\<close>): when
  the tape covered the log before, the new entry is checkpointed on the tape, so that it still does.
  The awaits of the function take their time: each call of the store has its own clock reading.
\<close>

definition tapeEntryMirrorRecord :: "session_entry \<Rightarrow> new_tape_record" where
  "tapeEntryMirrorRecord e =
     \<lparr>nt_kind = TkAnnotation,
      nt_payload = JObj [(''entry'', checkpoint_json \<lparr>ce_type = en_type e, ce_payload = en_payload e, ce_at = en_createdAt e\<rparr>)],
      nt_scopeLabel = en_scopeLabel e, nt_harness = None, nt_meta = None, nt_entrySeq = Some (int (en_seq e)), nt_coversEntrySeq = None\<rparr>"

definition model_message :: "new_entry \<Rightarrow> session_entry \<Rightarrow> string \<Rightarrow> new_tape_record" where
  "model_message e appended t =
     \<lparr>nt_kind = TkMessage,
      nt_payload = JObj [(''role'', JStr ''user''),
        (''content'', JArr [JObj [(''type'', JStr ''text''), (''text'', JStr t)]]), (''timestamp'', JNum (en_createdAt appended))],
      nt_scopeLabel = ne_scopeLabel e, nt_harness = None,
      nt_meta = Some (JObj [(''entryCreatedAt'', JNum (en_createdAt appended))]), nt_entrySeq = None, nt_coversEntrySeq = None\<rparr>"

definition turn_end :: "new_entry \<Rightarrow> session_entry \<Rightarrow> new_tape_record" where
  "turn_end e appended =
     \<lparr>nt_kind = TkAnnotation,
      nt_payload = tapeCheckpointPayload ''turnEnd'' (Some \<lparr>ce_type = ne_type e, ce_payload = ne_payload e, ce_at = en_createdAt appended\<rparr>) None,
      nt_scopeLabel = ne_scopeLabel e, nt_harness = None, nt_meta = None, nt_entrySeq = Some (int (en_seq appended)), nt_coversEntrySeq = None\<rparr>"

definition appendEntryOutsideTurn ::
  "time \<Rightarrow> time \<Rightarrow> time \<Rightarrow> session_lease \<Rightarrow> new_entry \<Rightarrow> (session_entry \<Rightarrow> string) option \<Rightarrow> session_store \<Rightarrow>
     session_store \<times> (write_error + session_entry)" where
  "appendEntryOutsideTurn t1 t2 t3 l e modelText st =
     (let tapeContiguous = (tapeCoverage st (le_sessionId l) = latestEntrySeq st (le_sessionId l))
      in case append_entry t1 l e st of
           (st1, Inl err) \<Rightarrow> (st1, Inl err)
         | (st1, Inr appended) \<Rightarrow>
             if \<not> tapeContiguous then (st1, Inr appended)
             else
               (case (case modelText of
                        None \<Rightarrow> (st1, Inr None)
                      | Some f \<Rightarrow> (case appendTape t2 l (model_message e appended (f appended)) st1 of
                                    (st2, Inl err) \<Rightarrow> (st2, Inl err) | (st2, Inr r) \<Rightarrow> (st2, Inr (Some r)))) of
                  (st2, Inl err) \<Rightarrow> (st2, Inl err)
                | (st2, Inr _) \<Rightarrow>
                    (case appendTape t3 l (turn_end e appended) st2 of
                       (st3, Inl err) \<Rightarrow> (st3, Inl err) | (st3, Inr _) \<Rightarrow> (st3, Inr appended))))"

section \<open>The tape keeps up with the log\<close>

lemma coverage_fold: "foldl (\<lambda>m r. max m (covered_seq r)) a rs = foldr (\<lambda>r m. max (covered_seq r) m) rs a"
proof (induction rs arbitrary: a)
  case (Cons r rs)
  have "foldr (\<lambda>r m. max (covered_seq r) m) rs (max a x) = max x (foldr (\<lambda>r m. max (covered_seq r) m) rs a)" for a x
    by (induction rs) (auto simp: max.left_commute max.commute)
  then show ?case using Cons by simp
qed simp

lemma appendTape_coverage:
  assumes "appendTape now l r st = (st', Inr full)"
  shows "tapeCoverage st' (le_sessionId l) = max (tapeCoverage st (le_sessionId l)) (covered_seq full)"
    and "latestEntrySeq st' i = latestEntrySeq st i" and "log_of st' i = log_of st i"
  using assms
  by (auto simp: appendTape_def tapeCoverage_def latestEntrySeq_def tape_of_def log_of_def extend_lease_def Let_def
      split: if_splits option.splits)

lemma append_coverage:
  assumes "append_entry now l e st = (st', Inr full)"
  shows "tapeCoverage st' i = tapeCoverage st i"
    and "latestEntrySeq st' (le_sessionId l) = latestEntrySeq st (le_sessionId l) + 1"
    and "int (en_seq full) = latestEntrySeq st' (le_sessionId l)"
  using assms
  by (auto simp: append_entry_def make_entry_def tapeCoverage_def latestEntrySeq_def tape_of_def log_of_def extend_lease_def Let_def
      split: if_splits option.splits)

lemma message_covers_nothing [simp]: "covered_seq (make_tape now i n (model_message e a t)) = - 1"
  by (simp add: covered_seq_def make_tape_def model_message_def)

lemma turn_end_covers [simp]: "covered_seq (make_tape now i n (turn_end e a)) = int (en_seq a)"
  by (simp add: covered_seq_def make_tape_def turn_end_def tapeCheckpointPayload_def field_def)

lemma appendTape_record: "appendTape now l r st = (st', Inr full) \<Longrightarrow> \<exists>n. full = make_tape now (le_sessionId l) n r"
  by (auto simp: appendTape_def Let_def split: if_splits)

lemma coverage_ge: "- 1 \<le> tapeCoverage st i"
proof -
  have "a \<le> foldl (\<lambda>m r. max m (covered_seq r)) a rs" for a rs
    by (induction rs arbitrary: a) (auto intro: order_trans [OF max.cobounded1])
  then show ?thesis by (simp add: tapeCoverage_def)
qed

text \<open>
  An append outside a turn that returns leaves the tape covering the whole log when it did before; when
  the tape lagged behind, it leaves the tape as it is, and the gap stays visible.
\<close>

theorem tape_keeps_up:
  assumes "appendEntryOutsideTurn t1 t2 t3 l e modelText st = (st', Inr appended)"
  shows "int (en_seq appended) = latestEntrySeq st' (le_sessionId l) \<and>
    (if tapeCoverage st (le_sessionId l) = latestEntrySeq st (le_sessionId l)
     then tapeCoverage st' (le_sessionId l) = latestEntrySeq st' (le_sessionId l)
     else tapeCoverage st' (le_sessionId l) = tapeCoverage st (le_sessionId l))"
proof -
  let ?i = "le_sessionId l"
  obtain st1 where a: "append_entry t1 l e st = (st1, Inr appended)"
    using assms by (auto simp: appendEntryOutsideTurn_def Let_def split: prod.splits sum.splits if_splits)
  note ac = append_coverage [OF a]
  show ?thesis
  proof (cases "tapeCoverage st ?i = latestEntrySeq st ?i")
    case False
    then show ?thesis using assms a ac by (auto simp: appendEntryOutsideTurn_def Let_def)
  next
    case True
    obtain st2 where m: "tapeCoverage st2 ?i = tapeCoverage st1 ?i" "latestEntrySeq st2 ?i = latestEntrySeq st1 ?i"
      and t: "\<exists>r. appendTape t3 l (turn_end e appended) st2 = (st', Inr r)"
    proof (cases modelText)
      case None
      then have "\<exists>r. appendTape t3 l (turn_end e appended) st1 = (st', Inr r)"
        using assms a True by (auto simp: appendEntryOutsideTurn_def Let_def split: prod.splits sum.splits)
      then show ?thesis using that by blast
    next
      case (Some f)
      then obtain st2 r2 where 2: "appendTape t2 l (model_message e appended (f appended)) st1 = (st2, Inr r2)"
        and 3: "\<exists>r. appendTape t3 l (turn_end e appended) st2 = (st', Inr r)"
        using assms a True by (auto simp: appendEntryOutsideTurn_def Let_def split: prod.splits sum.splits)
      have "tapeCoverage st2 ?i = tapeCoverage st1 ?i"
        using appendTape_coverage(1) [OF 2] appendTape_record [OF 2] coverage_ge [of st1 ?i] by auto
      then show ?thesis using that 3 appendTape_coverage(2) [OF 2] by blast
    qed
    then obtain r where t: "appendTape t3 l (turn_end e appended) st2 = (st', Inr r)" by blast
    have "tapeCoverage st' ?i = max (tapeCoverage st2 ?i) (int (en_seq appended))"
      using appendTape_coverage(1) [OF t] appendTape_record [OF t] by auto
    then show ?thesis using True m ac appendTape_coverage(2) [OF t, of ?i] by simp
  qed
qed

theorem tape_keeps_up_witness:
  "\<exists>st' appended. appendEntryOutsideTurn 5 6 7 ex_lease (ex_entry ''note'') None (rn_store ex_run) = (st', Inr appended) \<and>
     int (en_seq appended) = latestEntrySeq st' ''s1''"
proof -
  obtain st' appended where a: "appendEntryOutsideTurn 5 6 7 ex_lease (ex_entry ''note'') None (rn_store ex_run) = (st', Inr appended)"
  proof -
    have "case snd (appendEntryOutsideTurn 5 6 7 ex_lease (ex_entry ''note'') None (rn_store ex_run)) of Inr _ \<Rightarrow> True | Inl _ \<Rightarrow> False"
      by code_simp
    then show ?thesis using that
      by (cases "appendEntryOutsideTurn 5 6 7 ex_lease (ex_entry ''note'') None (rn_store ex_run)") (auto split: sum.splits)
  qed
  from tape_keeps_up [OF a] a show ?thesis by (auto simp: ex_lease_def)
qed

end
