(* ===== verification/Session_Share.thy ===== *)
theory Session_Share
  imports Session_Theorems
begin

text \<open>
  What a shared session shows (\<open>src/sessions/session-share.ts\<close>): the messages the people and the agent
  exchanged, without what the agent did in between. A post of the agent is shown when its tool call
  succeeded, and then the final answer of the turn is not shown a second time.
\<close>

datatype shared_role = RoleUser | RoleAssistant

record projected_message =
  pj_role :: shared_role
  pj_text :: string
  pj_attachmentIds :: "string list option"

definition attachmentIds :: "json option \<Rightarrow> string list" where
  "attachmentIds value =
     (case value of Some (JArr files) \<Rightarrow> List.map_filter (string_field ''artifactId'') files | _ \<Rightarrow> [])"

record share_state =
  sh_messages :: "projected_message list"
  sh_posts :: "(string, string) jsmap"
  sh_posted :: bool

definition emit_message :: "shared_role \<Rightarrow> string \<Rightarrow> string list \<Rightarrow> share_state \<Rightarrow> share_state" where
  "emit_message role t files s =
     (if trim t = [] \<and> files = [] then s
      else s\<lparr>sh_messages := sh_messages s @
        [\<lparr>pj_role = role, pj_text = t, pj_attachmentIds = (if files = [] then None else Some (js_set_of files))\<rparr>]\<rparr>)"

definition shown_text :: "json \<Rightarrow> string" where
  "shown_text p =
     (case string_field ''display'' p of
        Some d \<Rightarrow> if trim d \<noteq> [] then d else or_else (string_field ''text'' p) []
      | None \<Rightarrow> or_else (string_field ''text'' p) [])"

definition share_user :: "json \<Rightarrow> share_state \<Rightarrow> share_state" where
  "share_user p s =
     (let s1 = s\<lparr>sh_posted := False, sh_posts := []\<rparr>
      in if json_truthy (field ''hidden'' p) \<or> json_truthy (field ''overheard'' p) then s1
         else emit_message RoleUser (shown_text p) (attachmentIds (field ''attachments'' p)) s1)"

definition share_post :: "json \<Rightarrow> share_state \<Rightarrow> share_state" where
  "share_post p s =
     (case string_field ''callId'' p of
        Some c \<Rightarrow> s\<lparr>sh_posts := map_set c (or_else (string_field ''text'' p) []) (sh_posts s)\<rparr> | None \<Rightarrow> s)"

definition share_result :: "json \<Rightarrow> share_state \<Rightarrow> share_state" where
  "share_result p s =
     (let callId = or_else (string_field ''callId'' p) [];
          s1 = s\<lparr>sh_posts := map_del callId (sh_posts s)\<rparr>
      in if field ''isError'' p = Some (JBool True) \<or> field ''ok'' p = Some (JBool False) then s1
         else (case map_get (sh_posts s) callId of
                 None \<Rightarrow> s1
               | Some t \<Rightarrow> (emit_message RoleAssistant t (attachmentIds (field ''files'' p)) s1)\<lparr>sh_posted := True\<rparr>))"

definition share_answer :: "string list \<Rightarrow> json \<Rightarrow> share_state \<Rightarrow> share_state" where
  "share_answer delivered p s =
     (emit_message RoleAssistant (if sh_posted s then [] else or_else (string_field ''text'' p) []) delivered s)
       \<lparr>sh_posted := False, sh_posts := []\<rparr>"

definition share_delivery :: "json \<Rightarrow> share_state \<Rightarrow> share_state" where
  "share_delivery p s =
     (let ids = attachmentIds (field ''files'' p)
      in case last_opt (sh_messages s) of
           Some m \<Rightarrow>
             if ids \<noteq> [] \<and> pj_role m = RoleAssistant
             then s\<lparr>sh_messages := butlast (sh_messages s) @ [m\<lparr>pj_attachmentIds := Some (js_set_of (or_else (pj_attachmentIds m) [] @ ids))\<rparr>]\<rparr>
             else emit_message RoleAssistant [] ids s
         | None \<Rightarrow> emit_message RoleAssistant [] ids s)"

definition share_entry :: "(nat \<rightharpoonup> string list) \<Rightarrow> session_entry \<Rightarrow> share_state \<Rightarrow> share_state" where
  "share_entry delivered e s =
     (case en_payload e of
        JObj fs \<Rightarrow>
          (let p = JObj fs
           in if en_type e = EUser then share_user p s
              else if en_type e = EToolCall \<and> field ''action'' p = Some (JStr ''post'') then share_post p s
              else if en_type e = EToolResult then share_result p s
              else if en_type e = EAssistant then share_answer (or_else (delivered (en_seq e)) []) p s
              else if en_type e = EDelivery then share_delivery p s
              else s)
      | _ \<Rightarrow> s)"

definition sharedMessages :: "session_entry list \<Rightarrow> (nat \<rightharpoonup> string list) \<Rightarrow> projected_message list" where
  "sharedMessages es delivered =
     sh_messages (fold (share_entry delivered) es \<lparr>sh_messages = [], sh_posts = [], sh_posted = False\<rparr>)"

section \<open>Only what was said is shared\<close>

definition said_by_user :: "session_entry list \<Rightarrow> string \<Rightarrow> bool" where
  "said_by_user es t =
     (\<exists>e\<in>set es. en_type e = EUser \<and> t = shown_text (en_payload e) \<and>
        \<not> json_truthy (field ''hidden'' (en_payload e)) \<and> \<not> json_truthy (field ''overheard'' (en_payload e)))"

definition said_by_agent :: "session_entry list \<Rightarrow> string \<Rightarrow> bool" where
  "said_by_agent es t =
     (t = [] \<or> (\<exists>e\<in>set es. string_field ''text'' (en_payload e) = Some t \<and>
        (en_type e = EAssistant \<or> en_type e = EToolCall \<and> field ''action'' (en_payload e) = Some (JStr ''post''))))"

definition was_said :: "session_entry list \<Rightarrow> shared_role \<Rightarrow> string \<Rightarrow> bool" where
  "was_said es role t = (if role = RoleUser then said_by_user es t else said_by_agent es t)"

definition share_ok :: "session_entry list \<Rightarrow> share_state \<Rightarrow> bool" where
  "share_ok es s =
     (list_all (\<lambda>m. was_said es (pj_role m) (pj_text m)) (sh_messages s) \<and>
      list_all (\<lambda>(c, t). said_by_agent es t) (sh_posts s))"

lemma share_ok_emit:
  "share_ok es s \<Longrightarrow> was_said es role t \<Longrightarrow> share_ok es (emit_message role t files s)"
  by (auto simp: share_ok_def emit_message_def)

lemma list_all_update: "list_all P m \<Longrightarrow> P (k, v) \<Longrightarrow> list_all P (map_set k v m)"
  by (induction m) auto

lemma list_all_delete: "list_all P m \<Longrightarrow> list_all P (map_del k m)"
  by (auto simp: list_all_iff AList.delete_eq)

lemma share_ok_posts:
  "share_ok es s \<Longrightarrow> list_all (\<lambda>(c, t). said_by_agent es t) ps \<Longrightarrow> share_ok es (s\<lparr>sh_posts := ps\<rparr>)"
  "share_ok es s \<Longrightarrow> share_ok es (s\<lparr>sh_posted := b\<rparr>)"
  "share_ok es s \<Longrightarrow> share_ok es (s\<lparr>sh_posted := b, sh_posts := []\<rparr>)"
  by (auto simp: share_ok_def)

lemma share_ok_posted_text: "share_ok es s \<Longrightarrow> map_get (sh_posts s) c = Some t \<Longrightarrow> said_by_agent es t"
  by (auto simp: share_ok_def list_all_iff dest!: map_of_SomeD)

lemma share_ok_entry:
  assumes ok: "share_ok es s" and e: "e \<in> set es"
  shows "share_ok es (share_entry delivered e s)"
proof (cases "en_payload e")
  case (JObj fs)
  have said: "said_by_agent es (or_else (string_field ''text'' (en_payload e)) [])"
    if "en_type e = EAssistant \<or> en_type e = EToolCall \<and> field ''action'' (en_payload e) = Some (JStr ''post'')"
    using that e by (cases "string_field ''text'' (en_payload e)") (auto simp: said_by_agent_def)
  have user: "share_ok es (share_user (en_payload e) s)" if "en_type e = EUser"
    using that e ok by (auto simp: share_user_def Let_def was_said_def said_by_user_def intro!: share_ok_emit share_ok_posts)
  have post: "share_ok es (share_post (en_payload e) s)" if "en_type e = EToolCall" "field ''action'' (en_payload e) = Some (JStr ''post'')"
    using that said ok
    by (auto simp: share_post_def share_ok_def intro!: list_all_update split: option.splits)
  have result: "share_ok es (share_result (en_payload e) s)"
  proof -
    have "share_ok es (s\<lparr>sh_posts := map_del k (sh_posts s)\<rparr>)" for k
      using ok by (intro share_ok_posts) (auto simp: share_ok_def intro: list_all_delete)
    then show ?thesis using share_ok_posted_text [OF ok]
      by (auto simp: share_result_def Let_def was_said_def intro!: share_ok_posts(2) share_ok_emit split: option.splits)
  qed
  have answer: "share_ok es (share_answer d (en_payload e) s)" if "en_type e = EAssistant" for d
    using that said ok by (auto simp: share_answer_def was_said_def said_by_agent_def intro!: share_ok_emit share_ok_posts)
  have none: "was_said es RoleAssistant []" by (simp add: was_said_def said_by_agent_def)
  have delivery: "share_ok es (share_delivery (en_payload e) s)"
  proof (cases "sh_messages s" rule: rev_cases)
    case Nil
    then show ?thesis using ok none by (auto simp: share_delivery_def Let_def last_opt_def intro!: share_ok_emit)
  next
    case (snoc ms m)
    then show ?thesis using ok none
      by (auto simp: share_delivery_def Let_def last_opt_def share_ok_def emit_message_def)
  qed
  show ?thesis using user post result answer delivery ok
    unfolding share_entry_def JObj by (auto simp: Let_def JObj)
qed (use ok in \<open>simp_all add: share_entry_def\<close>)


definition ex_log :: "session_entry list" where
  "ex_log =
     [make_entry 1 ''s'' 0 \<lparr>ne_type = EUser, ne_payload = JObj [(''text'', JStr ''hi'')], ne_scopeLabel = ''org:o''\<rparr>,
      make_entry 2 ''s'' 1 \<lparr>ne_type = EUser, ne_payload = JObj [(''text'', JStr ''psst''), (''overheard'', JBool True)], ne_scopeLabel = ''org:o''\<rparr>,
      make_entry 3 ''s'' 2 \<lparr>ne_type = EAssistant, ne_payload = JObj [(''text'', JStr ''hello'')], ne_scopeLabel = ''org:o''\<rparr>]"


end
