(* ===== verification/Uri.thy ===== *)
theory Uri
  imports Prelude
begin

text \<open>
  \<open>encodeURIComponent\<close> and \<open>decodeURIComponent\<close> on strings with code units below 256, and the length
  of a string in bytes (\<open>Buffer.byteLength\<close>): such a code unit is one or two bytes of UTF-8.
\<close>

section \<open>Bytes\<close>

definition utf8 :: "char \<Rightarrow> nat list" where
  "utf8 c = (let n = (of_char c :: nat) in if n < 128 then [n] else [192 + n div 64, 128 + n mod 64])"

definition byteLength :: "string \<Rightarrow> nat" where
  "byteLength s = sum_list (map (length \<circ> utf8) s)"

section \<open>Percent encoding\<close>

definition unreserved :: "char \<Rightarrow> bool" where
  "unreserved c =
     (let n = (of_char c :: nat)
      in 48 \<le> n \<and> n \<le> 57 \<or> 65 \<le> n \<and> n \<le> 90 \<or> 97 \<le> n \<and> n \<le> 122 \<or> c \<in> set ''-_.!~*()'' \<or> n = 39)"

definition hex_digit :: "nat \<Rightarrow> char" where
  "hex_digit n = char_of (if n < 10 then 48 + n else 55 + n)"

definition percent :: "nat \<Rightarrow> string" where
  "percent n = [CHR ''%'', hex_digit (n div 16), hex_digit (n mod 16)]"

definition encode_char :: "char \<Rightarrow> string" where
  "encode_char c = (if unreserved c then [c] else concat (map percent (utf8 c)))"

definition encodeURIComponent :: "string \<Rightarrow> string" where
  "encodeURIComponent s = concat (map encode_char s)"

definition hex_value :: "char \<Rightarrow> nat option" where
  "hex_value c =
     (let n = (of_char c :: nat)
      in if 48 \<le> n \<and> n \<le> 57 then Some (n - 48) else if 65 \<le> n \<and> n \<le> 70 then Some (n - 55)
         else if 97 \<le> n \<and> n \<le> 102 then Some (n - 87) else None)"

definition hex_byte :: "char \<Rightarrow> char \<Rightarrow> nat option" where
  "hex_byte a b = (case (hex_value a, hex_value b) of (Some x, Some y) \<Rightarrow> Some (16 * x + y) | _ \<Rightarrow> None)"

text \<open>
  \<open>None\<close> is the \<open>URIError\<close> that a malformed sequence throws; sequences of three and four bytes stand
  for code points that strings here do not have and are refused as well.
\<close>

fun decodeURIComponent :: "string \<Rightarrow> string option" where
  "decodeURIComponent [] = Some []"
| "decodeURIComponent (c # cs) =
     (if c \<noteq> CHR ''%'' then map_option ((#) c) (decodeURIComponent cs)
      else
        (case cs of
           a # b # rest \<Rightarrow>
             (case hex_byte a b of
                None \<Rightarrow> None
              | Some n \<Rightarrow>
                  if n < 128 then map_option ((#) (char_of n)) (decodeURIComponent rest)
                  else if 194 \<le> n \<and> n \<le> 195 then
                    (case rest of
                       p # d # e # rest' \<Rightarrow>
                         (case hex_byte d e of
                            Some m \<Rightarrow>
                              if p = CHR ''%'' \<and> 128 \<le> m \<and> m \<le> 191
                              then map_option ((#) (char_of (64 * (n - 192) + (m - 128)))) (decodeURIComponent rest')
                              else None
                          | None \<Rightarrow> None)
                     | _ \<Rightarrow> None)
                  else None)
         | _ \<Rightarrow> None))"

section \<open>Decoding what was encoded\<close>

lemma hex_value_digit: "n < 16 \<Longrightarrow> hex_value (hex_digit n) = Some n"
  by (auto simp: hex_value_def hex_digit_def Let_def of_char_of)

lemma hex_byte_digits: "n < 256 \<Longrightarrow> hex_byte (hex_digit (n div 16)) (hex_digit (n mod 16)) = Some n"
  by (simp add: hex_byte_def hex_value_digit)

lemma decode_encode_char: "decodeURIComponent (encode_char c @ s) = map_option ((#) c) (decodeURIComponent s)"
proof (cases "unreserved c")
  case True
  then have "c \<noteq> CHR ''%''" by (auto simp: unreserved_def Let_def)
  then show ?thesis using True by (simp add: encode_char_def)
next
  case False
  let ?n = "of_char c :: nat"
  have n: "?n < 256" by simp
  show ?thesis
  proof (cases "?n < 128")
    case True
    then show ?thesis using False hex_byte_digits [OF n] by (simp add: encode_char_def utf8_def percent_def)
  next
    case high: False
    have lo: "192 + ?n div 64 < 256" "128 + ?n mod 64 < 256" using n by linarith+
    have "194 \<le> 192 + ?n div 64" "192 + ?n div 64 \<le> 195" using n high by linarith+
    moreover have "char_of (64 * (?n div 64) + ?n mod 64) = c" "?n mod 64 \<le> 63" by simp_all
    ultimately show ?thesis
      using False high hex_byte_digits [OF lo(1)] hex_byte_digits [OF lo(2)]
      by (simp add: encode_char_def utf8_def percent_def Let_def)
  qed
qed

lemma decode_encode [simp]: "decodeURIComponent (encodeURIComponent s) = Some s"
  by (induction s) (simp_all add: encodeURIComponent_def decode_encode_char)

lemma hex_digit_not_colon: "n < 16 \<Longrightarrow> hex_digit n \<noteq> CHR '':''"
  using hex_value_digit [of n] by (auto simp: hex_value_def Let_def)

lemma encode_no_colon [simp]: "CHR '':'' \<notin> set (encodeURIComponent s)"
proof -
  have "CHR '':'' \<notin> set (percent n)" if "n < 256" for n
  proof -
    have "n div 16 < 16" using that by linarith
    then show ?thesis using hex_digit_not_colon [of "n div 16"] hex_digit_not_colon [of "n mod 16"] by (auto simp: percent_def)
  qed
  moreover have "k < 256" if k: "k \<in> set (utf8 c)" for c k
  proof -
    have "(of_char c :: nat) < 256" by simp
    then have "(of_char c :: nat) div 64 < 4" by linarith
    then show ?thesis using k by (auto simp: utf8_def Let_def split: if_splits)
  qed
  ultimately have "CHR '':'' \<notin> set (encode_char c)" for c
    by (auto simp: encode_char_def unreserved_def Let_def)
  then show ?thesis by (auto simp: encodeURIComponent_def)
qed

lemma encode_eq_Nil [simp]: "encodeURIComponent s = [] \<longleftrightarrow> s = []"
  by (cases s) (auto simp: encodeURIComponent_def encode_char_def utf8_def percent_def Let_def)

lemma byteLength_ge: "length s \<le> byteLength s"
  by (induction s) (auto simp: byteLength_def utf8_def Let_def)

end
