(* ===== verification/Swarm_Store.thy ===== *)
theory Swarm_Store
  imports Json Uri Run_Store Session_Types Durable_Map Session_Store
begin

text \<open>
  The data of swarms and their store, in three parts: the settings, the records of a swarm with its members
  and messages, and the store (\<open>src/swarms/swarm-settings.ts\<close>, \<open>swarm-service.ts\<close>, \<open>swarm-store.ts\<close>).
\<close>

text \<open>
  The budgets of a swarm of agents (\<open>src/swarms/swarm-settings.ts\<close>): ten numbers, each with a default
  and a maximum. A request may set some of them.
\<close>

record swarm_settings =
  ws_agents :: int
  ws_depth :: int
  ws_messages :: int
  ws_notifications :: int
  ws_spawnRequests :: int
  ws_contextBytes :: int
  ws_textBytes :: int
  ws_waitMs :: int
  ws_turnMs :: int
  ws_lifetimeMs :: int

definition SWARM_DEFAULTS :: swarm_settings where
  "SWARM_DEFAULTS =
     \<lparr>ws_agents = 32, ws_depth = 4, ws_messages = 128, ws_notifications = 256, ws_spawnRequests = 32, ws_contextBytes = 8192,
      ws_textBytes = 8192, ws_waitMs = 10000, ws_turnMs = 600000, ws_lifetimeMs = 3600000\<rparr>"

definition SWARM_MAXIMUMS :: swarm_settings where
  "SWARM_MAXIMUMS =
     \<lparr>ws_agents = 64, ws_depth = 8, ws_messages = 256, ws_notifications = 1024, ws_spawnRequests = 64, ws_contextBytes = 16384,
      ws_textBytes = 16384, ws_waitMs = 30000, ws_turnMs = 3600000, ws_lifetimeMs = 86400000\<rparr>"

text \<open>The object with the settings as its properties, in their order.\<close>

definition settings_object :: "swarm_settings \<Rightarrow> (string, json) jsmap" where
  "settings_object s =
     [(''agents'', JNum (ws_agents s)), (''depth'', JNum (ws_depth s)), (''messages'', JNum (ws_messages s)),
      (''notifications'', JNum (ws_notifications s)), (''spawnRequests'', JNum (ws_spawnRequests s)),
      (''contextBytes'', JNum (ws_contextBytes s)), (''textBytes'', JNum (ws_textBytes s)), (''waitMs'', JNum (ws_waitMs s)),
      (''turnMs'', JNum (ws_turnMs s)), (''lifetimeMs'', JNum (ws_lifetimeMs s))]"

definition SETTING_KEYS :: "string list" where
  "SETTING_KEYS = map fst (settings_object SWARM_DEFAULTS)"

definition num_at :: "(string, json) jsmap \<Rightarrow> string \<Rightarrow> int" where
  "num_at m k = (case map_get m k of Some (JNum n) \<Rightarrow> n | _ \<Rightarrow> 0)"

definition settings_from :: "(string, json) jsmap \<Rightarrow> swarm_settings" where
  "settings_from m =
     \<lparr>ws_agents = num_at m ''agents'', ws_depth = num_at m ''depth'', ws_messages = num_at m ''messages'',
      ws_notifications = num_at m ''notifications'', ws_spawnRequests = num_at m ''spawnRequests'',
      ws_contextBytes = num_at m ''contextBytes'', ws_textBytes = num_at m ''textBytes'', ws_waitMs = num_at m ''waitMs'',
      ws_turnMs = num_at m ''turnMs'', ws_lifetimeMs = num_at m ''lifetimeMs''\<rparr>"

datatype settings_error = InvalidSettings | UnknownSetting string | InvalidSetting string | TooFewAgents

text \<open>
  \<open>Number.isSafeInteger(value)\<close>, at least one and at most the maximum of the key; the maxima are all
  safe integers, so the first condition follows from the others for a number without a fraction.
\<close>

definition setting_ok :: "(string, json) jsmap \<Rightarrow> string \<Rightarrow> bool" where
  "setting_ok m k =
     (case map_get m k of Some (JNum n) \<Rightarrow> 1 \<le> n \<and> n \<le> num_at (settings_object SWARM_MAXIMUMS) k | _ \<Rightarrow> False)"

definition resolveSwarmSettings :: "json option \<Rightarrow> swarm_settings option \<Rightarrow> settings_error + swarm_settings" where
  "resolveSwarmSettings input defaults =
     (case or_else input (JObj []) of
        JObj fs \<Rightarrow>
          (case List.find (\<lambda>k. k \<notin> set SETTING_KEYS) (map fst fs) of
             Some k \<Rightarrow> Inl (UnknownSetting k)
           | None \<Rightarrow>
               (let m = fold (\<lambda>(k, v) m. map_set k v m) fs (settings_object (or_else defaults SWARM_DEFAULTS))
                in case List.find (\<lambda>k. \<not> setting_ok m k) SETTING_KEYS of
                     Some k \<Rightarrow> Inl (InvalidSetting k)
                   | None \<Rightarrow> if num_at m ''agents'' < 2 then Inl TooFewAgents else Inr (settings_from m)))
      | _ \<Rightarrow> Inl InvalidSettings)"

section \<open>Accepted settings are within bounds\<close>

definition within :: "swarm_settings \<Rightarrow> swarm_settings \<Rightarrow> bool" where
  "within s mx =
     (1 \<le> ws_agents s \<and> ws_agents s \<le> ws_agents mx \<and> 1 \<le> ws_depth s \<and> ws_depth s \<le> ws_depth mx \<and>
      1 \<le> ws_messages s \<and> ws_messages s \<le> ws_messages mx \<and> 1 \<le> ws_notifications s \<and> ws_notifications s \<le> ws_notifications mx \<and>
      1 \<le> ws_spawnRequests s \<and> ws_spawnRequests s \<le> ws_spawnRequests mx \<and>
      1 \<le> ws_contextBytes s \<and> ws_contextBytes s \<le> ws_contextBytes mx \<and> 1 \<le> ws_textBytes s \<and> ws_textBytes s \<le> ws_textBytes mx \<and>
      1 \<le> ws_waitMs s \<and> ws_waitMs s \<le> ws_waitMs mx \<and> 1 \<le> ws_turnMs s \<and> ws_turnMs s \<le> ws_turnMs mx \<and>
      1 \<le> ws_lifetimeMs s \<and> ws_lifetimeMs s \<le> ws_lifetimeMs mx)"

lemma num_at_settings [simp]:
  "num_at (settings_object s) ''agents'' = ws_agents s" "num_at (settings_object s) ''depth'' = ws_depth s"
  "num_at (settings_object s) ''messages'' = ws_messages s" "num_at (settings_object s) ''notifications'' = ws_notifications s"
  "num_at (settings_object s) ''spawnRequests'' = ws_spawnRequests s"
  "num_at (settings_object s) ''contextBytes'' = ws_contextBytes s" "num_at (settings_object s) ''textBytes'' = ws_textBytes s"
  "num_at (settings_object s) ''waitMs'' = ws_waitMs s" "num_at (settings_object s) ''turnMs'' = ws_turnMs s"
  "num_at (settings_object s) ''lifetimeMs'' = ws_lifetimeMs s"
  by (simp_all add: num_at_def settings_object_def)

lemma setting_okD: "setting_ok m k \<Longrightarrow> 1 \<le> num_at m k \<and> num_at m k \<le> num_at (settings_object SWARM_MAXIMUMS) k"
  by (auto simp: setting_ok_def num_at_def split: option.splits json.splits)

lemma setting_keys:
  "SETTING_KEYS = [''agents'', ''depth'', ''messages'', ''notifications'', ''spawnRequests'', ''contextBytes'', ''textBytes'',
     ''waitMs'', ''turnMs'', ''lifetimeMs'']"
  by (simp add: SETTING_KEYS_def settings_object_def)

lemma setting_ok_settings:
  "k \<in> set SETTING_KEYS \<Longrightarrow>
     setting_ok (settings_object s) k \<longleftrightarrow>
       1 \<le> num_at (settings_object s) k \<and> num_at (settings_object s) k \<le> num_at (settings_object SWARM_MAXIMUMS) k"
  by (auto simp: setting_keys setting_ok_def settings_object_def num_at_def)

lemma find_None: "List.find P xs = None \<longleftrightarrow> (\<forall>x\<in>set xs. \<not> P x)"
  by (auto simp: find_None_iff)

text \<open>
  Settings that are accepted are within the maxima and leave room for the root and a worker; a request
  that sets nothing is accepted and gives the defaults.
\<close>

theorem swarm_settings_bounded:
  assumes "resolveSwarmSettings input defaults = Inr s"
  shows "within s SWARM_MAXIMUMS \<and> 2 \<le> ws_agents s \<and> resolveSwarmSettings (Some (JObj [])) (Some s) = Inr s"
proof -
  obtain m where m: "s = settings_from m" "\<forall>k\<in>set SETTING_KEYS. setting_ok m k" "\<not> num_at m ''agents'' < 2"
    using assms unfolding resolveSwarmSettings_def Let_def
    by (auto simp: find_None split: json.splits option.splits if_splits)
  have "list_all (\<lambda>k. 1 \<le> num_at m k \<and> num_at m k \<le> num_at (settings_object SWARM_MAXIMUMS) k) SETTING_KEYS"
    using m(2) setting_okD by (auto simp: list_all_iff)
  then have w: "within s SWARM_MAXIMUMS"
    unfolding m(1) setting_keys list.pred_inject num_at_settings within_def settings_from_def swarm_settings.simps by blast
  have ok: "setting_ok (settings_object s) k" if "k \<in> set SETTING_KEYS" for k
    using that w setting_ok_settings [OF that, of s] by (auto simp: setting_keys within_def)
  have "settings_from (settings_object s) = s" by (simp add: settings_from_def)
  moreover have "2 \<le> ws_agents s" using m by (simp add: settings_from_def)
  moreover have "List.find (\<lambda>k. \<not> setting_ok (settings_object s) k) SETTING_KEYS = None" using ok by (auto simp: find_None)
  ultimately show ?thesis using w by (simp add: resolveSwarmSettings_def)
qed

theorem swarm_settings_bounded_witness:
  "\<exists>s. resolveSwarmSettings (Some (JObj [(''agents'', JNum 3)])) None = Inr s \<and> within s SWARM_MAXIMUMS"
proof -
  have "resolveSwarmSettings (Some (JObj [(''agents'', JNum 3)])) None = Inr (SWARM_DEFAULTS\<lparr>ws_agents := 3\<rparr>)" by code_simp
  with swarm_settings_bounded [OF this] show ?thesis by blast
qed

text \<open>
  The data of a swarm (\<open>src/swarms/swarm-store.ts\<close>) and of the turns it dispatches
  (\<open>OrchestratorInput\<close> of \<open>src/core/orchestrator/types.ts\<close>): a root session and the workers it spawned,
  the messages between them with the state of each notification, and the requests already served.
\<close>

section \<open>The input of a turn\<close>

record conversation =
  cv_kind :: session_type
  cv_threadRef :: string
  cv_channelRef :: "string option"
  cv_channelName :: "string option"
  cv_audience :: "principal list"
  cv_isPrivate :: "bool option"
  cv_isMpim :: "bool option"
  cv_publishMembers :: "principal list option"

datatype turn_origin =
  OgHuman "string option" "string option"
| OgAmbient "string option" "bool option"
| OgAutomation (screenData: "string option") (ogDestination: "json option") (useOwnerKeychain: "bool option")
| OgDirect

record swarm_turn =
  wt_swarmId :: string
  wt_messageId :: string
  wt_recipientId :: string

text \<open>
  The fields of the contract of a dispatch, the run it executes, and \<open>oi_other\<close>: every further own
  property that is not one of the execution fields.
\<close>

record orch_input =
  oi_actor :: principal
  oi_conversation :: conversation
  oi_origin :: turn_origin
  oi_surface :: "string option"
  oi_text :: string
  oi_scopeVersion :: "string option"
  oi_unattendedGrants :: "string list option"
  oi_readOnly :: "bool option"
  oi_skipMemory :: "bool option"
  oi_harness :: "string option"
  oi_model :: "string option"
  oi_thinkingLevel :: "string option"
  oi_fastMode :: "bool option"
  oi_turnWallClockMs :: "int option"
  oi_swarm :: "swarm_turn option"
  oi_sessionParticipantIds :: "string list option"
  oi_runId :: "string option"
  oi_other :: "(string \<times> json) list"

definition conversationScope :: "conversation \<Rightarrow> string \<Rightarrow> scope_id" where
  "conversationScope c actorId =
     (case cv_kind c of
        StDm \<Rightarrow> scopeId Personal actorId
      | StGroup \<Rightarrow> scopeId Group (or_else (cv_channelRef c) (cv_threadRef c))
      | StChannel \<Rightarrow> scopeId Channel (or_else (cv_channelRef c) (cv_threadRef c)))"

section \<open>Swarms\<close>

datatype member_state = MReserved | MReady | MFailed

record swarm_member =
  mb_id :: string
  mb_sessionId :: "string option"
  mb_threadRef :: string
  mb_parentId :: "string option"
  mb_depth :: nat
  mb_context :: json
  mb_sandboxId :: "string option"
  mb_forumSandboxId :: "string option"
  mb_state :: member_state
  mb_attempts :: nat
  mb_cleanupPending :: bool
  mb_error :: "string option"

datatype author = ByAgent | ByHuman

datatype notification = NPending | NQueued string | NFailed

record swarm_message =
  ms_id :: string
  ms_seq :: nat
  ms_senderId :: string
  ms_senderSessionId :: string
  ms_author :: author
  ms_actorId :: string
  ms_text :: string
  ms_audience :: "string list"
  ms_replyTo :: "string option"
  ms_createdAt :: time
  ms_notifications :: "(string, notification) jsmap"

record swarm =
  sw_id :: string
  sw_scopeId :: scope_id
  sw_ownerId :: string
  sw_participants :: "string list"
  sw_createdAt :: time
  sw_expiresAt :: time
  sw_template :: orch_input
  sw_settings :: swarm_settings
  sw_backend :: string
  sw_members :: "swarm_member list"
  sw_messages :: "swarm_message list"
  sw_spawnRequests :: "(string, string list \<times> string) jsmap"
  sw_messageRequests :: "(string, string \<times> string) jsmap"
  sw_notificationCount :: nat
  sw_pending :: bool

definition member_at :: "swarm \<Rightarrow> string \<Rightarrow> swarm_member option" where
  "member_at w i = List.find (\<lambda>m. mb_id m = i) (sw_members w)"

definition message_at :: "swarm \<Rightarrow> string \<Rightarrow> swarm_message option" where
  "message_at w i = List.find (\<lambda>m. ms_id m = i) (sw_messages w)"

section \<open>Errors\<close>

datatype swarm_error =
  SettingsError settings_error
| WindowExpired | ActiveRunRequired | CapabilitySessionMismatch | SwarmNotFound | SpawnFirst
| InvalidText string | InvalidAudience | InvalidContext
| SessionNotFound | SessionAccessDenied | SessionBoundRequired | CapabilityRunMismatch | InvalidSwarmSession
| ScopeAccessDenied | SwarmAccessDenied | RosterChanged | SessionRosterChanged | NotAMember
| RunOfSessionRequired | RunScopeMismatch | BackendUnsupported
| RequestIdReused | SettingsOnlyInitially | InvalidPoolSize | ContextsMustMatch | ForumScopeMismatch | ForumUnavailable string
| ConflictingSettings | DepthExhausted | AgentsExhausted | SpawnsExhausted | WorkExhausted
| MessagesExhausted | NotificationsExhausted | ReplyTargetUnknown | InvalidReadBounds
| MissingSandbox | ProvisioningFailed | DeadlineExceeded
| UnknownSwarmSession | UnknownSwarm | InvalidMembership | SwarmSessionDenied | ForgedProvenance | AuthorizationChanged

definition settings_result :: "settings_error + swarm_settings \<Rightarrow> swarm_error + swarm_settings" where
  "settings_result r = (case r of Inl e \<Rightarrow> Inl (SettingsError e) | Inr s \<Rightarrow> Inr s)"

text \<open>
  The store of swarms (\<open>src/swarms/swarm-store.ts\<close>, \<open>src/swarms/swarm-fence.ts\<close>): created once, changed
  by atomic updates that recompute whether work is pending, and, when an agent asks, only while the
  run it acts for holds its lease. Contexts and texts are JSON values, which \<open>encode\<close> and \<open>decode\<close> write
  out and read back; they are kept as values here. An update whose callback throws changes nothing.
\<close>

section \<open>The fence\<close>

record swarm_fence =
  fn_runId :: string
  fn_attempt :: "nat option"
  fn_leaseToken :: string
  fn_sessionId :: string
  fn_threadRef :: string
  fn_actorId :: string
  fn_scopeId :: scope_id

definition assertSwarmRun :: "time \<Rightarrow> swarm_fence \<Rightarrow> orch_input run option \<Rightarrow> bool" where
  "assertSwarmRun now f run =
     (case run of
        None \<Rightarrow> False
      | Some r \<Rightarrow>
          r_status r = RRunning \<and> Some (r_attempts r) = fn_attempt f \<and> fn_leaseToken f \<noteq> [] \<and>
          r_leaseToken r = Some (fn_leaseToken f) \<and>
          (case r_leaseExpiresAt r of None \<Rightarrow> False | Some t \<Rightarrow> t > now) \<and>
          r_sessionId r = fn_threadRef f \<and> p_id (oi_actor (r_request r)) = fn_actorId f)"

definition assertSwarmOpen :: "time \<Rightarrow> swarm \<Rightarrow> bool" where
  "assertSwarmOpen now w = (now < sw_expiresAt w)"

section \<open>Operations\<close>

record swarm_world =
  wd_swarms :: "swarm dmap"
  wd_runs :: "orch_input run_store"
  wd_sessions :: session_store

definition has_work :: "swarm \<Rightarrow> bool" where
  "has_work w =
     (list_ex (\<lambda>m. mb_state m = MReserved \<or> mb_cleanupPending m) (sw_members w) \<or>
      list_ex (\<lambda>m. list_ex (\<lambda>n. n = NPending) (map_vals (ms_notifications m))) (sw_messages w))"

definition get_swarm :: "swarm_world \<Rightarrow> string \<Rightarrow> swarm option" where
  "get_swarm st i = map_get (wd_swarms st) i"

text \<open>
  What a fenced write checks of the memory stores: the session of the capability and the run under
  its lease.
\<close>

definition fence_ok :: "time \<Rightarrow> swarm_world \<Rightarrow> swarm_fence \<Rightarrow> swarm_error option" where
  "fence_ok now st f =
     (case map_get (ss_sessions (wd_sessions st)) (fn_sessionId f) of
        None \<Rightarrow> Some CapabilitySessionMismatch
      | Some s \<Rightarrow>
          if se_scopeId s \<noteq> fn_scopeId f \<or> se_threadRef s \<noteq> fn_threadRef f then Some CapabilitySessionMismatch
          else if \<not> assertSwarmRun now f (map_get (rs_runs (wd_runs st)) (fn_runId f)) then Some ActiveRunRequired
          else None)"

definition fenced :: "time \<Rightarrow> swarm_world \<Rightarrow> swarm_fence option \<Rightarrow> swarm_error option" where
  "fenced now st f = (case f of None \<Rightarrow> None | Some f \<Rightarrow> fence_ok now st f)"

definition put_swarm :: "string \<Rightarrow> swarm \<Rightarrow> swarm_world \<Rightarrow> swarm_world" where
  "put_swarm i w st = st\<lparr>wd_swarms := map_set i w (wd_swarms st)\<rparr>"

definition create_swarm :: "time \<Rightarrow> swarm \<Rightarrow> swarm_fence option \<Rightarrow> swarm_world \<Rightarrow> swarm_world \<times> (swarm_error + swarm)" where
  "create_swarm now w f st =
     (case fenced now st f of
        Some e \<Rightarrow> (st, Inl e)
      | None \<Rightarrow>
          (case get_swarm st (sw_id w) of
             Some current \<Rightarrow> if f = None \<and> \<not> assertSwarmOpen now w then (st, Inl WindowExpired) else (st, Inr current)
           | None \<Rightarrow> if \<not> assertSwarmOpen now w then (st, Inl WindowExpired) else (put_swarm (sw_id w) w st, Inr w)))"

definition update_swarm ::
  "time \<Rightarrow> string \<Rightarrow> (swarm \<Rightarrow> swarm_error + swarm) \<Rightarrow> swarm_fence option \<Rightarrow> swarm_world \<Rightarrow>
     swarm_world \<times> (swarm_error + swarm)" where
  "update_swarm now i mutate f st =
     (case fenced now st f of
        Some e \<Rightarrow> (st, Inl e)
      | None \<Rightarrow>
          (case get_swarm st i of
             None \<Rightarrow> (st, Inl SwarmNotFound)
           | Some w \<Rightarrow>
               (case mutate w of
                  Inl e \<Rightarrow> (st, Inl e)
                | Inr w1 \<Rightarrow> (let w2 = w1\<lparr>sw_pending := has_work w1\<rparr> in (put_swarm i w2 st, Inr w2)))))"

definition SWEEP_BATCH :: nat where
  "SWEEP_BATCH = 16"

text \<open>The next batch of swarms with pending work, in the order of their ids.\<close>

definition pending_swarms :: "swarm_world \<Rightarrow> string option \<Rightarrow> swarm list" where
  "pending_swarms st afterId =
     take SWEEP_BATCH (filter sw_pending (map snd
       (filter (\<lambda>(i, w). case afterId of None \<Rightarrow> True | Some a \<Rightarrow> a < i) (sortedEntries (wd_swarms st)))))"

end
