(* ===== verification/Swarm_Service.thy ===== *)
theory Swarm_Service
  imports Swarm_Store Transcripts
begin

text \<open>
  What agents and people ask of a swarm (\<open>createSwarmService\<close> of \<open>src/swarms/swarm-service.ts\<close>): who may
  act for which member, spawning workers, messages and reading them. The authorization of a scope, the
  sandboxes and the hashes of requests are other parts of the system and are fields of \<open>swarm_env\<close>.
  Each call takes the time of its checks; a mutation happens at the time of its update.
\<close>

section \<open>Requests\<close>

record swarm_claims =
  cl_actorId :: string
  cl_scopeId :: scope_id
  cl_members :: "principal list option"
  cl_runId :: "string option"
  cl_sessionId :: "string option"
  cl_runAttempt :: "nat option"
  cl_runLeaseToken :: "string option"
  cl_threadRef :: "string option"

datatype swarm_caller = AgentCaller swarm_claims | HumanCaller string string "string option"

fun caller_kind :: "swarm_caller \<Rightarrow> author" where
  "caller_kind (AgentCaller c) = ByAgent"
| "caller_kind (HumanCaller a s r) = ByHuman"

fun caller_actor :: "swarm_caller \<Rightarrow> string" where
  "caller_actor (AgentCaller c) = cl_actorId c"
| "caller_actor (HumanCaller a s r) = a"

record spawn_input =
  si_requestId :: string
  si_count :: "int option"
  si_context :: "json option"
  si_contexts :: "json list option"
  si_text :: string
  si_forumSandboxId :: "string option"
  si_settings :: "json option"
  si_backend :: "string option"

datatype audience = All | Only "string list"

record message_input =
  mi_requestId :: string
  mi_audience :: audience
  mi_text :: string
  mi_replyTo :: "string option"
  mi_notify :: "bool option"

record sandbox_inventory =
  iv_sandboxes :: "(string \<times> string) list"
  iv_default :: "string option"
  iv_providers :: "(string \<times> string list) list"

record swarm_env =
  ev_authorize :: "string \<Rightarrow> scope_id \<Rightarrow> string option \<Rightarrow> principal list option \<Rightarrow> bool"
  ev_keySig :: "string \<Rightarrow> string \<Rightarrow> author \<Rightarrow> string \<Rightarrow> string"
  ev_spawnSig :: "spawn_input \<Rightarrow> string"
  ev_sendSig :: "message_input \<Rightarrow> string"
  ev_defaults :: swarm_settings
  ev_inventory :: "string \<Rightarrow> scope_id \<Rightarrow> sandbox_inventory"
  ev_defaultBackend :: string
  ev_access :: "string \<Rightarrow> string \<Rightarrow> string + scope_id"

record swarm_authority =
  au_fence :: "swarm_fence option"
  au_sessionId :: string
  au_actorId :: string
  au_rootId :: string
  au_memberId :: string

section \<open>Checks\<close>

definition boundedText :: "string \<Rightarrow> int \<Rightarrow> bool" where
  "boundedText value mx = (trim value \<noteq> [] \<and> int (byteLength value) \<le> mx)"

definition canonicalAudience :: "audience \<Rightarrow> int \<Rightarrow> swarm_error + audience" where
  "canonicalAudience input mx =
     (case input of
        All \<Rightarrow> Inr All
      | Only ids \<Rightarrow>
          if int (length ids) > mx \<or> list_ex (\<lambda>i. trim i = [] \<or> length i > 128) ids then Inl InvalidAudience
          else Inr (Only (sort (js_set_of ids))))"

definition resolveAudience :: "audience \<Rightarrow> swarm_member list \<Rightarrow> swarm_error + string list" where
  "resolveAudience input eligible =
     (let ids = js_set_of (map mb_id eligible)
      in case input of
           All \<Rightarrow> Inr (sort ids)
         | Only xs \<Rightarrow> if list_ex (\<lambda>i. i \<notin> set ids) xs then Inl InvalidAudience else Inr xs)"

text \<open>The length of the JSON text of a value in bytes.\<close>

definition quoted_bytes :: "string \<Rightarrow> nat" where
  "quoted_bytes s = 2 + sum_list (map (\<lambda>c. if length (utf8 c) = 2 then 2 else quoted_char_length c) s)"

fun json_bytes :: "json \<Rightarrow> nat" where
  "json_bytes (JStr s) = quoted_bytes s"
| "json_bytes (JArr vs) = separated (map json_bytes vs)"
| "json_bytes (JObj fs) = separated (map (\<lambda>(k, v). quoted_bytes k + 1 + json_bytes v) fs)"
| "json_bytes v = stringify_length v"

definition jsonContext :: "json \<Rightarrow> int \<Rightarrow> swarm_error + json" where
  "jsonContext v mx = (if int (json_bytes v) > mx then Inl InvalidContext else Inr v)"

definition rosterMatches :: "string list \<Rightarrow> string list \<Rightarrow> bool" where
  "rosterMatches current expected =
     (let actual = js_set_of current; frozen = js_set_of expected
      in length actual = length frozen \<and> list_all (\<lambda>i. i \<in> set frozen) actual)"

definition threadIdentity :: "string \<Rightarrow> string \<Rightarrow> swarm_error + string \<times> string" where
  "threadIdentity threadRef sessionId =
     (if \<not> startsWith threadRef ''swarm:'' then Inr (sessionId, sessionId)
      else
        (case split_on CHR '':'' threadRef of
           [p, root, member] \<Rightarrow>
             if root = [] \<or> member = [] then Inl InvalidSwarmSession
             else (case decodeURIComponent root of Some r \<Rightarrow> Inr (r, member) | None \<Rightarrow> Inl InvalidSwarmSession)
         | _ \<Rightarrow> Inl InvalidSwarmSession))"

definition worker_ref :: "string \<Rightarrow> string \<Rightarrow> string" where
  "worker_ref swarmId i = ''swarm:'' @ encodeURIComponent swarmId @ '':'' @ i"

section \<open>Who may act\<close>

definition caller_session :: "swarm_world \<Rightarrow> swarm_caller \<Rightarrow> session option" where
  "caller_session st c =
     (case c of
        AgentCaller cl \<Rightarrow> getByThread (wd_sessions st) (or_else (cl_threadRef cl) [])
      | HumanCaller a s r \<Rightarrow> get_session (wd_sessions st) s)"

definition agent_fence :: "time \<Rightarrow> swarm_world \<Rightarrow> swarm_claims \<Rightarrow> session \<Rightarrow> swarm_error + swarm_fence" where
  "agent_fence now st cl s =
     (if cl_scopeId cl \<noteq> se_scopeId s \<or> \<not> truthy (cl_runId cl) then Inl SessionBoundRequired
      else
        (case map_get (rs_runs (wd_runs st)) (the (cl_runId cl)) of
           None \<Rightarrow> Inl CapabilityRunMismatch
         | Some r \<Rightarrow>
             if cl_sessionId cl \<noteq> Some (se_id s) \<or> r_sessionId r \<noteq> se_threadRef s \<or>
                cv_threadRef (oi_conversation (r_request r)) \<noteq> se_threadRef s \<or>
                p_id (oi_actor (r_request r)) \<noteq> cl_actorId cl \<or>
                conversationScope (oi_conversation (r_request r)) (cl_actorId cl) \<noteq> se_scopeId s
             then Inl CapabilityRunMismatch
             else
               (let f = \<lparr>fn_runId = the (cl_runId cl), fn_attempt = cl_runAttempt cl, fn_leaseToken = or_else (cl_runLeaseToken cl) [],
                         fn_sessionId = se_id s, fn_threadRef = se_threadRef s, fn_actorId = cl_actorId cl, fn_scopeId = se_scopeId s\<rparr>
                in if \<not> assertSwarmRun now f (Some r) then Inl ActiveRunRequired else Inr f)))"

definition caller_fence :: "time \<Rightarrow> swarm_world \<Rightarrow> swarm_caller \<Rightarrow> session \<Rightarrow> swarm_error + swarm_fence option" where
  "caller_fence now st c s =
     (case c of
        AgentCaller cl \<Rightarrow> (case agent_fence now st cl s of Inl e \<Rightarrow> Inl e | Inr f \<Rightarrow> Inr (Some f))
      | HumanCaller _ _ _ \<Rightarrow> Inr None)"

definition caller_members :: "swarm_caller \<Rightarrow> principal list option" where
  "caller_members c = (case c of AgentCaller cl \<Rightarrow> cl_members cl | HumanCaller _ _ _ \<Rightarrow> None)"

definition member_access ::
  "swarm_world \<Rightarrow> session \<Rightarrow> string \<Rightarrow> string \<Rightarrow> swarm \<Rightarrow> swarm_error option" where
  "member_access st s actorId memberId w =
     (if sw_scopeId w \<noteq> se_scopeId s \<or> actorId \<notin> set (sw_participants w) then Some SwarmAccessDenied
      else if \<not> rosterMatches (participantsOf (wd_sessions st) (sw_id w)) (sw_participants w) then Some RosterChanged
      else if \<not> rosterMatches (participantsOf (wd_sessions st) (se_id s)) (sw_participants w) then Some SessionRosterChanged
      else if \<not> list_ex (\<lambda>m. mb_id m = memberId \<and> mb_sessionId m = Some (se_id s)) (sw_members w) then Some NotAMember
      else None)"

definition authority ::
  "swarm_env \<Rightarrow> time \<Rightarrow> swarm_world \<Rightarrow> swarm_caller \<Rightarrow> swarm_error + swarm_authority \<times> swarm option" where
  "authority env now st c =
     (let actorId = caller_actor c
      in case caller_session st c of
           None \<Rightarrow> Inl SessionNotFound
         | Some s \<Rightarrow>
             if actorId \<notin> set (participantsOf (wd_sessions st) (se_id s)) then Inl SessionAccessDenied
             else
               (case caller_fence now st c s of
                  Inl e \<Rightarrow> Inl e
                | Inr f \<Rightarrow>
                    (case threadIdentity (se_threadRef s) (se_id s) of
                       Inl e \<Rightarrow> Inl e
                     | Inr (rootId, memberId) \<Rightarrow>
                         (let w = get_swarm st rootId;
                              auth = \<lparr>au_fence = f, au_sessionId = se_id s, au_actorId = actorId, au_rootId = rootId,
                                      au_memberId = memberId\<rparr>
                          in if \<not> ev_authorize env actorId (se_scopeId s)
                                   (case w of None \<Rightarrow> None | Some w \<Rightarrow> if truthy (oi_scopeVersion (sw_template w)) then oi_scopeVersion (sw_template w) else None)
                                   (caller_members c)
                             then Inl ScopeAccessDenied
                             else
                               (case w of
                                  Some w' \<Rightarrow> (case member_access st s actorId memberId w' of Some e \<Rightarrow> Inl e | None \<Rightarrow> Inr (auth, w))
                                | None \<Rightarrow> if rootId \<noteq> se_id s then Inl SwarmNotFound else Inr (auth, None))))))"

definition load ::
  "swarm_env \<Rightarrow> time \<Rightarrow> swarm_world \<Rightarrow> swarm_caller \<Rightarrow> swarm_error + swarm_authority \<times> swarm \<times> swarm_member" where
  "load env now st c =
     (case authority env now st c of
        Inl e \<Rightarrow> Inl e
      | Inr (auth, w) \<Rightarrow>
          (case w of
             None \<Rightarrow> Inl SpawnFirst
           | Some w \<Rightarrow> (case member_at w (au_memberId auth) of None \<Rightarrow> Inl SpawnFirst | Some self \<Rightarrow> Inr (auth, w, self))))"

section \<open>The first swarm of a session\<close>

definition caller_run :: "swarm_caller \<Rightarrow> string option" where
  "caller_run c = (case c of AgentCaller cl \<Rightarrow> cl_runId cl | HumanCaller _ _ r \<Rightarrow> r)"

definition keep_true :: "bool option \<Rightarrow> bool option" where
  "keep_true b = (if b = Some True then Some True else None)"

definition keep_truthy :: "string option \<Rightarrow> string option" where
  "keep_truthy s = (if truthy s then s else None)"

definition swarm_template :: "orch_input \<Rightarrow> swarm_settings \<Rightarrow> orch_input" where
  "swarm_template source settings =
     \<lparr>oi_actor = oi_actor source,
      oi_conversation = (oi_conversation source)\<lparr>cv_channelRef :=
        (case cv_channelRef (oi_conversation source) of
           Some r \<Rightarrow> Some r
         | None \<Rightarrow> if cv_kind (oi_conversation source) = StDm then None else Some (cv_threadRef (oi_conversation source)))\<rparr>,
      oi_origin = OgAutomation None None None, oi_surface = Some ''swarm'', oi_text = [],
      oi_scopeVersion = keep_truthy (oi_scopeVersion source), oi_unattendedGrants = oi_unattendedGrants source,
      oi_readOnly = keep_true (oi_readOnly source), oi_skipMemory = keep_true (oi_skipMemory source),
      oi_harness = keep_truthy (oi_harness source), oi_model = keep_truthy (oi_model source),
      oi_thinkingLevel = oi_thinkingLevel source, oi_fastMode = oi_fastMode source,
      oi_turnWallClockMs = Some (ws_turnMs settings), oi_swarm = None, oi_sessionParticipantIds = None, oi_runId = None,
      oi_other = []\<rparr>"

definition root_member :: "session \<Rightarrow> swarm_member" where
  "root_member s =
     \<lparr>mb_id = se_id s, mb_sessionId = Some (se_id s), mb_threadRef = se_threadRef s, mb_parentId = None, mb_depth = 0,
      mb_context = JObj [], mb_sandboxId = None, mb_forumSandboxId = None, mb_state = MReady, mb_attempts = 0,
      mb_cleanupPending = False, mb_error = None\<rparr>"

definition chosen_provider :: "swarm_env \<Rightarrow> string \<Rightarrow> scope_id \<Rightarrow> string option \<Rightarrow> (string \<times> string list) option" where
  "chosen_provider env actorId scope backend =
     (let inventory = ev_inventory env actorId scope;
          selected = List.find (\<lambda>(i, b). Some i = iv_default inventory) (iv_sandboxes inventory);
          requested = (case backend of Some b \<Rightarrow> b | None \<Rightarrow> (case selected of Some (i, b) \<Rightarrow> b | None \<Rightarrow> ev_defaultBackend env))
      in List.find (\<lambda>(n, actions). n = requested) (iv_providers inventory))"

definition prepareInitialSwarm ::
  "swarm_env \<Rightarrow> time \<Rightarrow> swarm_world \<Rightarrow> swarm_caller \<Rightarrow> swarm_authority \<Rightarrow> swarm_settings \<Rightarrow> string option \<Rightarrow> swarm_error + swarm" where
  "prepareInitialSwarm env now st c auth settings backend =
     (case (if truthy (caller_run c) then map_get (rs_runs (wd_runs st)) (the (caller_run c)) else None,
            get_session (wd_sessions st) (au_sessionId auth)) of
        (Some r, Some s) \<Rightarrow>
          if cv_threadRef (oi_conversation (r_request r)) \<noteq> se_threadRef s \<or> p_id (oi_actor (r_request r)) \<noteq> au_actorId auth
          then Inl RunOfSessionRequired
          else if conversationScope (oi_conversation (r_request r)) (au_actorId auth) \<noteq> se_scopeId s then Inl RunScopeMismatch
          else
            (case chosen_provider env (au_actorId auth) (se_scopeId s) backend of
               None \<Rightarrow> Inl BackendUnsupported
             | Some (name, actions) \<Rightarrow>
                 if ''create'' \<notin> set actions \<or> ''retire'' \<notin> set actions then Inl BackendUnsupported
                 else Inr
                   \<lparr>sw_id = se_id s, sw_scopeId = se_scopeId s, sw_ownerId = au_actorId auth,
                    sw_participants = participantsOf (wd_sessions st) (se_id s), sw_createdAt = now,
                    sw_expiresAt = now + ws_lifetimeMs settings, sw_template = swarm_template (r_request r) settings,
                    sw_settings = settings, sw_backend = name, sw_members = [root_member s], sw_messages = [],
                    sw_spawnRequests = [], sw_messageRequests = [], sw_notificationCount = 0, sw_pending = True\<rparr>)
      | _ \<Rightarrow> Inl RunOfSessionRequired)"

section \<open>Spawning\<close>

text \<open>What a reservation asks for, with the ids it uses: one for each worker and one for the message.\<close>

record reservation =
  rv_key :: string
  rv_fingerprint :: string
  rv_settings :: swarm_settings
  rv_backend :: "string option"
  rv_contexts :: "json list"
  rv_forum :: "string option"
  rv_text :: string
  rv_kind :: author
  rv_ids :: "uuid list"
  rv_messageId :: uuid

definition worker :: "string \<Rightarrow> swarm_member \<Rightarrow> string option \<Rightarrow> uuid \<Rightarrow> json \<Rightarrow> swarm_member" where
  "worker swarmId parent forum i ctx =
     \<lparr>mb_id = i, mb_sessionId = None, mb_threadRef = worker_ref swarmId i, mb_parentId = Some (mb_id parent),
      mb_depth = mb_depth parent + 1, mb_context = ctx, mb_sandboxId = Some i, mb_forumSandboxId = keep_truthy forum,
      mb_state = MReserved, mb_attempts = 0, mb_cleanupPending = False, mb_error = None\<rparr>"

definition workers :: "reservation \<Rightarrow> string \<Rightarrow> swarm_member \<Rightarrow> swarm_member list" where
  "workers rv swarmId parent = map (\<lambda>(i, ctx). worker swarmId parent (rv_forum rv) i ctx) (zip (rv_ids rv) (rv_contexts rv))"

definition reserve :: "time \<Rightarrow> swarm_authority \<Rightarrow> reservation \<Rightarrow> swarm \<Rightarrow> swarm_error + swarm" where
  "reserve now auth rv w =
     (case map_get (sw_spawnRequests w) (rv_key rv) of
        Some (ids, sig) \<Rightarrow> if sig \<noteq> rv_fingerprint rv then Inl RequestIdReused else Inr w
      | None \<Rightarrow>
          if rv_settings rv \<noteq> sw_settings w \<or> (rv_backend rv \<noteq> None \<and> rv_backend rv \<noteq> Some (sw_backend w)) then Inl ConflictingSettings
          else if \<not> assertSwarmOpen now w then Inl WindowExpired
          else
            (case member_at w (au_memberId auth) of
               None \<Rightarrow> Inl NotAMember
             | Some parent \<Rightarrow>
                 (let n = length (rv_contexts rv)
                  in if int (mb_depth parent) \<ge> ws_depth (sw_settings w) then Inl DepthExhausted
                     else if int (length (sw_members w) + n) > ws_agents (sw_settings w) then Inl AgentsExhausted
                     else if int (length (sw_spawnRequests w)) \<ge> ws_spawnRequests (sw_settings w) then Inl SpawnsExhausted
                     else if int (length (sw_messages w)) \<ge> ws_messages (sw_settings w) \<or>
                             int (sw_notificationCount w + n) > ws_notifications (sw_settings w) then Inl WorkExhausted
                     else
                       (let ms = workers rv (sw_id w) parent
                        in Inr (w\<lparr>sw_members := sw_members w @ ms,
                                  sw_spawnRequests := map_set (rv_key rv) (map mb_id ms, rv_fingerprint rv) (sw_spawnRequests w),
                                  sw_messages := sw_messages w @
                                    [\<lparr>ms_id = rv_messageId rv, ms_seq = length (sw_messages w) + 1, ms_senderId = mb_id parent,
                                      ms_senderSessionId = au_sessionId auth, ms_author = rv_kind rv, ms_actorId = au_actorId auth,
                                      ms_text = rv_text rv, ms_audience = map mb_id ms, ms_replyTo = None, ms_createdAt = now,
                                      ms_notifications = map (\<lambda>m. (mb_id m, NPending)) ms\<rparr>],
                                  sw_notificationCount := sw_notificationCount w + n\<rparr>)))))"

fun json_contexts :: "json list \<Rightarrow> int \<Rightarrow> swarm_error + json list" where
  "json_contexts [] mx = Inr []"
| "json_contexts (v # vs) mx =
     (case jsonContext v mx of
        Inl e \<Rightarrow> Inl e
      | Inr x \<Rightarrow> (case json_contexts vs mx of Inl e \<Rightarrow> Inl e | Inr xs \<Rightarrow> Inr (x # xs)))"

text \<open>The number of workers asked for and their contexts.\<close>

definition pool_contexts :: "spawn_input \<Rightarrow> swarm_settings \<Rightarrow> swarm_error + json list" where
  "pool_contexts input settings =
     (let count = (case si_count input of Some n \<Rightarrow> n | None \<Rightarrow> (case si_contexts input of Some cs \<Rightarrow> int (length cs) | None \<Rightarrow> 1))
      in if count < 1 \<or> count \<ge> ws_agents settings then Inl InvalidPoolSize
         else
           (case si_contexts input of
              Some cs \<Rightarrow> if int (length cs) \<noteq> count then Inl ContextsMustMatch else json_contexts cs (ws_contextBytes settings)
            | None \<Rightarrow> json_contexts (replicate (nat count) (or_else (si_context input) (JObj []))) (ws_contextBytes settings)))"

definition forum_error :: "swarm_env \<Rightarrow> swarm_world \<Rightarrow> swarm_authority \<Rightarrow> spawn_input \<Rightarrow> swarm_error option" where
  "forum_error env st auth input =
     (if \<not> truthy (si_forumSandboxId input) then None
      else
        (case ev_access env (au_actorId auth) (the (si_forumSandboxId input)) of
           Inl err \<Rightarrow> Some (ForumUnavailable err)
         | Inr scope \<Rightarrow>
             if Some scope \<noteq> map_option se_scopeId (get_session (wd_sessions st) (au_sessionId auth)) then Some ForumScopeMismatch
             else None))"

definition spawn_settings :: "swarm_env \<Rightarrow> swarm option \<Rightarrow> spawn_input \<Rightarrow> swarm_error + swarm_settings" where
  "spawn_settings env existing input =
     (case existing of
        Some w \<Rightarrow> if si_settings input \<noteq> None \<or> si_backend input \<noteq> None then Inl SettingsOnlyInitially else Inr (sw_settings w)
      | None \<Rightarrow> settings_result (resolveSwarmSettings (si_settings input) (Some (ev_defaults env))))"

definition spawn_reservation ::
  "swarm_env \<Rightarrow> swarm_world \<Rightarrow> swarm_caller \<Rightarrow> swarm_authority \<Rightarrow> swarm option \<Rightarrow> spawn_input \<Rightarrow> uuid list \<Rightarrow> uuid \<Rightarrow> swarm_error + reservation" where
  "spawn_reservation env st c auth existing input ids msgId =
     (case spawn_settings env existing input of
        Inl e \<Rightarrow> Inl e
      | Inr settings \<Rightarrow>
          if \<not> boundedText (si_text input) (ws_textBytes settings) then Inl (InvalidText ''text'')
          else
            (case pool_contexts input settings of
               Inl e \<Rightarrow> Inl e
             | Inr contexts \<Rightarrow>
                 if existing = None \<and> int (length contexts) > ws_notifications settings then Inl NotificationsExhausted
                 else
                   (case forum_error env st auth input of
                      Some e \<Rightarrow> Inl e
                    | None \<Rightarrow> Inr
                        \<lparr>rv_key = ev_keySig env (au_memberId auth) (au_actorId auth) (caller_kind c) (si_requestId input),
                         rv_fingerprint = ev_spawnSig env input, rv_settings = settings, rv_backend = si_backend input,
                         rv_contexts = contexts, rv_forum = si_forumSandboxId input, rv_text = si_text input,
                         rv_kind = caller_kind c, rv_ids = ids, rv_messageId = msgId\<rparr>)))"

record member_view = swarm_member +
  mv_sessionUrl :: "string option"

definition view :: "swarm_member \<Rightarrow> member_view" where
  "view m =
     \<lparr>mb_id = mb_id m, mb_sessionId = mb_sessionId m, mb_threadRef = mb_threadRef m, mb_parentId = mb_parentId m,
      mb_depth = mb_depth m, mb_context = mb_context m, mb_sandboxId = mb_sandboxId m, mb_forumSandboxId = mb_forumSandboxId m,
      mb_state = mb_state m, mb_attempts = mb_attempts m, mb_cleanupPending = mb_cleanupPending m, mb_error = mb_error m,
      mv_sessionUrl = (if truthy (mb_sessionId m) then Some (''/web-ui/s/'' @ encodeURIComponent (the (mb_sessionId m))) else None)\<rparr>"

definition served :: "swarm \<Rightarrow> string \<Rightarrow> string \<Rightarrow> swarm_error + member_view list" where
  "served w key fingerprint =
     (case map_get (sw_spawnRequests w) key of
        None \<Rightarrow> Inl SwarmNotFound
      | Some (ids, sig) \<Rightarrow>
          if sig \<noteq> fingerprint then Inl RequestIdReused else Inr (map view (filter (\<lambda>m. mb_id m \<in> set ids) (sw_members w))))"

text \<open>The first spawn of a session: the prepared swarm with the reservation, unless another one won.\<close>

definition spawn_initial ::
  "swarm_env \<Rightarrow> time \<Rightarrow> swarm_world \<Rightarrow> swarm_caller \<Rightarrow> swarm_authority \<Rightarrow> reservation \<Rightarrow> swarm_world \<times> (swarm_error + swarm)" where
  "spawn_initial env now st c auth rv =
     (case prepareInitialSwarm env now st c auth (rv_settings rv) (rv_backend rv) of
        Inl e \<Rightarrow> (st, Inl e)
      | Inr initial \<Rightarrow>
          (case reserve now auth rv initial of
             Inl e \<Rightarrow> (st, Inl e)
           | Inr w \<Rightarrow>
               (case create_swarm now w (au_fence auth) st of
                  (st1, Inl e) \<Rightarrow> (st1, Inl e)
                | (st1, Inr updated) \<Rightarrow>
                    if map_get (sw_spawnRequests updated) (rv_key rv) \<noteq> None then (st1, Inr updated)
                    else update_swarm now (au_rootId auth) (reserve now auth rv) (au_fence auth) st1)))"

definition spawn ::
  "swarm_env \<Rightarrow> time \<Rightarrow> swarm_caller \<Rightarrow> spawn_input \<Rightarrow> uuid list \<Rightarrow> uuid \<Rightarrow> swarm_world \<Rightarrow>
     swarm_world \<times> (swarm_error + member_view list)" where
  "spawn env now c input ids msgId st =
     (if \<not> boundedText (si_requestId input) 128 then (st, Inl (InvalidText ''requestId''))
      else
        (case authority env now st c of
           Inl e \<Rightarrow> (st, Inl e)
         | Inr (auth, existing) \<Rightarrow>
             (let key = ev_keySig env (au_memberId auth) (au_actorId auth) (caller_kind c) (si_requestId input);
                  fingerprint = ev_spawnSig env input
              in if (case existing of None \<Rightarrow> False | Some w \<Rightarrow> map_get (sw_spawnRequests w) key \<noteq> None)
                 then (st, served (the existing) key fingerprint)
                 else
                   (case spawn_reservation env st c auth existing input ids msgId of
                      Inl e \<Rightarrow> (st, Inl e)
                    | Inr rv \<Rightarrow>
                        (case (if existing = None then spawn_initial env now st c auth rv
                               else update_swarm now (au_rootId auth) (reserve now auth rv) (au_fence auth) st) of
                           (st', Inl e) \<Rightarrow> (st', Inl e)
                         | (st', Inr updated) \<Rightarrow> (st', served updated key fingerprint))))))"

section \<open>Messages\<close>

text \<open>Members a message may be addressed to: ready, in the scope of the swarm and with its roster.\<close>

definition eligible :: "swarm_world \<Rightarrow> swarm \<Rightarrow> swarm_member list" where
  "eligible st w =
     filter (\<lambda>m. mb_state m = MReady \<and> truthy (mb_sessionId m) \<and>
         map_option se_scopeId (get_session (wd_sessions st) (the (mb_sessionId m))) = Some (sw_scopeId w) \<and>
         rosterMatches (participantsOf (wd_sessions st) (the (mb_sessionId m))) (sw_participants w))
       (sw_members w)"

record posting =
  po_key :: string
  po_fingerprint :: string
  po_id :: uuid
  po_audience :: "string list"
  po_text :: string
  po_replyTo :: "string option"
  po_notify :: bool
  po_kind :: author

definition recipients :: "swarm_authority \<Rightarrow> posting \<Rightarrow> string list" where
  "recipients auth po = (if po_notify po then filter (\<lambda>p. p \<noteq> au_memberId auth) (po_audience po) else [])"

text \<open>\<open>Object.fromEntries\<close>: a repeated key keeps its place.\<close>

definition post :: "time \<Rightarrow> swarm_authority \<Rightarrow> posting \<Rightarrow> swarm \<Rightarrow> swarm_error + swarm" where
  "post now auth po w =
     (case map_get (sw_messageRequests w) (po_key po) of
        Some (i, sig) \<Rightarrow> if sig \<noteq> po_fingerprint po then Inl RequestIdReused else Inr w
      | None \<Rightarrow>
          if \<not> assertSwarmOpen now w then Inl WindowExpired
          else if int (length (sw_messages w)) \<ge> ws_messages (sw_settings w) then Inl MessagesExhausted
          else if truthy (po_replyTo po) \<and> \<not> list_ex (\<lambda>m. Some (ms_id m) = po_replyTo po) (sw_messages w) then Inl ReplyTargetUnknown
          else
            (let rs = recipients auth po
             in if int (sw_notificationCount w + length rs) > ws_notifications (sw_settings w) then Inl NotificationsExhausted
                else Inr (w\<lparr>sw_notificationCount := sw_notificationCount w + length rs,
                            sw_messages := sw_messages w @
                              [\<lparr>ms_id = po_id po, ms_seq = length (sw_messages w) + 1, ms_senderId = au_memberId auth,
                                ms_senderSessionId = au_sessionId auth, ms_author = po_kind po, ms_actorId = au_actorId auth,
                                ms_text = po_text po, ms_audience = po_audience po, ms_replyTo = keep_truthy (po_replyTo po),
                                ms_createdAt = now, ms_notifications = fold (\<lambda>p m. map_set p NPending m) rs []\<rparr>],
                            sw_messageRequests := map_set (po_key po) (po_id po, po_fingerprint po) (sw_messageRequests w)\<rparr>)))"

definition sent :: "swarm \<Rightarrow> string \<Rightarrow> swarm_message option" where
  "sent w key = (case map_get (sw_messageRequests w) key of None \<Rightarrow> None | Some (i, sig) \<Rightarrow> message_at w i)"

definition send_message ::
  "swarm_env \<Rightarrow> time \<Rightarrow> swarm_caller \<Rightarrow> message_input \<Rightarrow> uuid \<Rightarrow> swarm_world \<Rightarrow> swarm_world \<times> (swarm_error + swarm_message option)" where
  "send_message env now c input0 i st =
     (if \<not> boundedText (mi_requestId input0) 128 then (st, Inl (InvalidText ''requestId''))
      else
        (case load env now st c of
           Inl e \<Rightarrow> (st, Inl e)
         | Inr (auth, w, self) \<Rightarrow>
             if \<not> boundedText (mi_text input0) (ws_textBytes (sw_settings w)) then (st, Inl (InvalidText ''text''))
             else
               (case canonicalAudience (mi_audience input0) (ws_agents (sw_settings w)) of
                  Inl e \<Rightarrow> (st, Inl e)
                | Inr aud \<Rightarrow>
                    (let input = input0\<lparr>mi_audience := aud\<rparr>;
                         key = ev_keySig env (au_memberId auth) (au_actorId auth) (caller_kind c) (mi_requestId input);
                         fingerprint = ev_sendSig env input
                     in case map_get (sw_messageRequests w) key of
                          Some (i, sig) \<Rightarrow> if sig \<noteq> fingerprint then (st, Inl RequestIdReused) else (st, Inr (message_at w i))
                        | None \<Rightarrow>
                            (case resolveAudience aud (eligible st w) of
                               Inl e \<Rightarrow> (st, Inl e)
                             | Inr to \<Rightarrow>
                                 (case update_swarm now (au_rootId auth)
                                         (post now auth \<lparr>po_key = key, po_fingerprint = fingerprint, po_id = i, po_audience = to,
                                            po_text = mi_text input, po_replyTo = mi_replyTo input,
                                            po_notify = (mi_notify input \<noteq> Some False), po_kind = caller_kind c\<rparr>)
                                         (au_fence auth) st of
                                    (st', Inl e) \<Rightarrow> (st', Inl e)
                                  | (st', Inr updated) \<Rightarrow> (st', Inr (sent updated key))))))))"

section \<open>Looking and describing oneself\<close>

definition inspect ::
  "swarm_env \<Rightarrow> time \<Rightarrow> swarm_caller \<Rightarrow> swarm_world \<Rightarrow> swarm_error + swarm \<times> member_view \<times> member_view list" where
  "inspect env now c st =
     (case load env now st c of Inl e \<Rightarrow> Inl e | Inr (auth, w, self) \<Rightarrow> Inr (w, view self, map view (sw_members w)))"

definition on_member :: "string \<Rightarrow> (swarm_member \<Rightarrow> swarm_member) \<Rightarrow> swarm \<Rightarrow> swarm" where
  "on_member i f w = w\<lparr>sw_members := map (\<lambda>m. if mb_id m = i then f m else m) (sw_members w)\<rparr>"

definition set_context :: "time \<Rightarrow> string \<Rightarrow> json \<Rightarrow> swarm \<Rightarrow> swarm_error + swarm" where
  "set_context now i v w =
     (if \<not> assertSwarmOpen now w then Inl WindowExpired else Inr (on_member i (\<lambda>m. m\<lparr>mb_context := v\<rparr>) w))"

definition context_swarm ::
  "swarm_env \<Rightarrow> time \<Rightarrow> swarm_caller \<Rightarrow> json \<Rightarrow> swarm_world \<Rightarrow> swarm_world \<times> (swarm_error + member_view option)" where
  "context_swarm env now c v st =
     (case load env now st c of
        Inl e \<Rightarrow> (st, Inl e)
      | Inr (auth, w, self) \<Rightarrow>
          (case jsonContext v (ws_contextBytes (sw_settings w)) of
             Inl e \<Rightarrow> (st, Inl e)
           | Inr x \<Rightarrow>
               (case update_swarm now (au_rootId auth) (set_context now (au_memberId auth) x) (au_fence auth) st of
                  (st', Inl e) \<Rightarrow> (st', Inl e)
                | (st', Inr updated) \<Rightarrow> (st', Inr (map_option view (member_at updated (au_memberId auth)))))))"

text \<open>One look of \<open>read\<close>, which repeats it until there is something or the time is up.\<close>

definition read_once ::
  "swarm_env \<Rightarrow> time \<Rightarrow> swarm_caller \<Rightarrow> int option \<Rightarrow> int option \<Rightarrow> string option \<Rightarrow> swarm_world \<Rightarrow> swarm_error + swarm_message list" where
  "read_once env now c after0 waitMs replyTo st =
     (case load env now st c of
        Inl e \<Rightarrow> Inl e
      | Inr (auth, w, self) \<Rightarrow>
          (let wait = or_else waitMs 0; after = or_else after0 0
           in if wait < 0 \<or> wait > ws_waitMs (sw_settings w) \<or> after < 0 then Inl InvalidReadBounds
              else Inr (take 32 (filter (\<lambda>m. int (ms_seq m) > after \<and> (truthy replyTo \<longrightarrow> ms_replyTo m = replyTo)) (sw_messages w)))))"

end
