(* ===== verification/Swarm_Outbox.thy ===== *)
theory Swarm_Outbox
  imports Swarm_Service
begin

text \<open>
  The outbox of the swarms (\<open>deliver\<close>, \<open>reconcile\<close> and \<open>binding\<close> of \<open>src/swarms/swarm-service.ts\<close>): pending
  notifications become runs, reserved members get a sandbox and a session or fail, failed ones are
  cleaned up, and a turn that claims to come from a swarm is checked against what the swarm would have
  dispatched. The lock that keeps two reconciliations of a swarm apart and the pool of the sweep are
  not modelled; every step below may be interleaved with anything else.
\<close>

section \<open>Dispatch\<close>

definition author_name :: "author \<Rightarrow> string" where
  "author_name a = (case a of ByAgent \<Rightarrow> ''agent'' | ByHuman \<Rightarrow> ''human'')"

definition dispatch_text :: "swarm_message \<Rightarrow> string" where
  "dispatch_text m =
     ''Swarm '' @ author_name (ms_author m) @ '' message '' @ ms_id m @ '' from agent '' @ ms_senderId m @ '' (session '' @
     ms_senderSessionId m @ '')'' @ (if truthy (ms_replyTo m) then '' (reply to '' @ the (ms_replyTo m) @ '')'' else []) @
     ''. This is not a live human instruction.'' @ [CHR 10] @ ms_text m"

definition dispatchRequest :: "swarm \<Rightarrow> swarm_message \<Rightarrow> swarm_member \<Rightarrow> orch_input" where
  "dispatchRequest w m to =
     (sw_template w)
       \<lparr>oi_conversation := (oi_conversation (sw_template w))\<lparr>cv_threadRef := mb_threadRef to\<rparr>,
        oi_origin := OgAutomation (Some (ms_text m)) None None,
        oi_text := dispatch_text m,
        oi_swarm := Some \<lparr>wt_swarmId = sw_id w, wt_messageId = ms_id m, wt_recipientId = mb_id to\<rparr>,
        oi_sessionParticipantIds := Some (sw_participants w)\<rparr>"

definition dispatch_key :: "string \<Rightarrow> string \<Rightarrow> string" where
  "dispatch_key messageId recipientId = ''swarm:'' @ messageId @ '':'' @ recipientId"

text \<open>
  The contract of a dispatch: the fields of \<open>dispatchContract\<close>, everything but the run and the other
  properties. Equality of their canonical JSON is equality of the fields.
\<close>

definition dispatchContract :: "orch_input \<Rightarrow> orch_input" where
  "dispatchContract input = input\<lparr>oi_runId := None, oi_other := []\<rparr>"

definition matchesDispatch :: "orch_input \<Rightarrow> orch_input \<Rightarrow> bool" where
  "matchesDispatch input expected = (oi_other input = [] \<and> dispatchContract input = dispatchContract expected)"

section \<open>Delivery\<close>

definition set_notification :: "string \<Rightarrow> string \<Rightarrow> notification \<Rightarrow> swarm \<Rightarrow> swarm" where
  "set_notification messageId recipientId n w =
     w\<lparr>sw_messages := map (\<lambda>m. if ms_id m = messageId then m\<lparr>ms_notifications := map_set recipientId n (ms_notifications m)\<rparr> else m)
        (sw_messages w)\<rparr>"

text \<open>
  One pending notification of the snapshot \<open>w\<close>. The clock is read before each step; a step after the
  deadline is not started and ends the pass, also between the enqueueing and its record.
\<close>

record delivery_tick =
  tk_run :: uuid
  tk_check :: time
  tk_enqueue :: time
  tk_record :: time

definition record_notification ::
  "time \<Rightarrow> time \<Rightarrow> swarm \<Rightarrow> string \<Rightarrow> string \<Rightarrow> notification \<Rightarrow> swarm_world \<Rightarrow> swarm_world \<times> swarm_error option" where
  "record_notification deadline now w messageId recipientId n st =
     (if deadline - now \<le> 0 then (st, Some DeadlineExceeded)
      else
        (case update_swarm now (sw_id w) (\<lambda>c. Inr (set_notification messageId recipientId n c)) None st of
           (st', Inl e) \<Rightarrow> (st', Some e) | (st', Inr _) \<Rightarrow> (st', None)))"

definition dispatch_input :: "swarm \<Rightarrow> swarm_message \<Rightarrow> swarm_member \<Rightarrow> orch_input enqueue_input" where
  "dispatch_input w m to =
     \<lparr>ei_sessionId = mb_threadRef to, ei_request = dispatchRequest w m to, ei_dedupKey = Some (dispatch_key (ms_id m) (mb_id to)),
      ei_maxAttempts = Some 2\<rparr>"

definition deliver_one ::
  "time \<Rightarrow> delivery_tick \<Rightarrow> swarm \<Rightarrow> swarm_message \<Rightarrow> string \<Rightarrow> swarm_world \<Rightarrow> swarm_world \<times> swarm_error option" where
  "deliver_one deadline tk w m recipientId st =
     (case member_at w recipientId of
        None \<Rightarrow> (st, None)
      | Some to \<Rightarrow>
          if mb_state to = MReserved then (st, None)
          else if mb_state to = MFailed \<or> tk_check tk \<ge> sw_expiresAt w
          then record_notification deadline (tk_record tk) w (ms_id m) recipientId NFailed st
          else if deadline - tk_enqueue tk \<le> 0 then (st, Some DeadlineExceeded)
          else
            (case enqueue (wd_runs st) (dispatch_input w m to) (tk_run tk) (tk_enqueue tk) of
               (runs, run, deduped) \<Rightarrow>
                 record_notification deadline (tk_record tk) w (ms_id m) recipientId (NQueued (r_id run)) (st\<lparr>wd_runs := runs\<rparr>)))"

definition pending_of :: "swarm \<Rightarrow> (swarm_message \<times> string) list" where
  "pending_of w =
     concat (map (\<lambda>m. map (\<lambda>(r, n). (m, r)) (filter (\<lambda>(r, n). n = NPending) (ms_notifications m))) (sw_messages w))"

fun deliver_loop ::
  "time \<Rightarrow> (nat \<Rightarrow> delivery_tick) \<Rightarrow> nat \<Rightarrow> swarm \<Rightarrow> (swarm_message \<times> string) list \<Rightarrow> swarm_world \<Rightarrow> swarm_world \<times> swarm_error option" where
  "deliver_loop deadline tk k w [] st = (st, None)"
| "deliver_loop deadline tk k w ((m, r) # ps) st =
     (case deliver_one deadline (tk k) w m r st of
        (st', Some e) \<Rightarrow> (st', Some e)
      | (st', None) \<Rightarrow> deliver_loop deadline tk (Suc k) w ps st')"

definition deliver :: "time \<Rightarrow> (nat \<Rightarrow> delivery_tick) \<Rightarrow> swarm \<Rightarrow> swarm_world \<Rightarrow> swarm_world \<times> swarm_error option" where
  "deliver deadline tk w st = deliver_loop deadline tk 0 w (pending_of w) st"

section \<open>Resources\<close>

text \<open>
  The changes the reconciliation makes to a member: another attempt, ready with its session, a failed
  attempt (final when the provisioning timed out, the deadline or the window is over, or it was the
  third) and cleaned up.
\<close>

definition begin_attempt :: "string \<Rightarrow> swarm \<Rightarrow> swarm" where
  "begin_attempt i w = on_member i (\<lambda>m. m\<lparr>mb_attempts := mb_attempts m + 1\<rparr>) w"

definition make_ready :: "time \<Rightarrow> time \<Rightarrow> string \<Rightarrow> string \<Rightarrow> swarm \<Rightarrow> swarm_error + swarm" where
  "make_ready deadline now i sessionId w =
     (if now \<ge> deadline then Inl DeadlineExceeded
      else if \<not> assertSwarmOpen now w then Inl WindowExpired
      else Inr (on_member i (\<lambda>m. m\<lparr>mb_state := MReady, mb_sessionId := Some sessionId\<rparr>) w))"

definition fail_member :: "swarm \<Rightarrow> bool \<Rightarrow> time \<Rightarrow> time \<Rightarrow> string \<Rightarrow> swarm_member \<Rightarrow> swarm_member" where
  "fail_member w timedOut deadline now err m =
     (if mb_state m \<noteq> MReserved then m
      else
        (let m1 = m\<lparr>mb_error := Some (take 500 err)\<rparr>
         in if timedOut \<or> now \<ge> deadline \<or> mb_attempts m1 \<ge> 3 \<or> now \<ge> sw_expiresAt w
            then m1\<lparr>mb_state := MFailed, mb_cleanupPending := True\<rparr> else m1))"

definition attempt_failed :: "bool \<Rightarrow> time \<Rightarrow> time \<Rightarrow> string \<Rightarrow> string \<Rightarrow> swarm \<Rightarrow> swarm" where
  "attempt_failed timedOut deadline now err i w = on_member i (fail_member w timedOut deadline now err) w"

definition cleaned :: "string \<Rightarrow> swarm \<Rightarrow> swarm" where
  "cleaned i w = on_member i (\<lambda>m. m\<lparr>mb_cleanupPending := False\<rparr>) w"

text \<open>The session of a worker, with the participants of the swarm.\<close>

definition worker_session :: "time \<Rightarrow> uuid \<Rightarrow> swarm \<Rightarrow> swarm_member \<Rightarrow> session_store \<Rightarrow> session_store \<times> session" where
  "worker_session now u w m ss =
     (case getOrCreateByThread now u (mb_threadRef m) (cv_kind (oi_conversation (sw_template w))) (sw_scopeId w) None (Some ''swarm'') ss of
        (ss1, s) \<Rightarrow>
          (updateTitle (se_id s) (''Swarm worker '' @ take 8 (mb_id m))
             (fold (\<lambda>p ss. addParticipant now (se_id s) p None False ss) (sw_participants w) ss1), s))"

text \<open>
  Provisioning one reserved member of the snapshot \<open>w\<close>. Creating the sandbox is an effect outside the
  model; how it failed, if it did, is an argument: past its deadline, with the operation still under
  way, and the message of the error. Such a failure is what the catch block records, and the pass ends
  when an operation is under way or the deadline is over.
\<close>

record step_failure =
  sf_timedOut :: bool
  sf_outstanding :: bool
  sf_error :: string

record provisioning =
  pv_now :: time
  pv_deadline :: time
  pv_session :: uuid
  pv_create :: "step_failure option"

definition error_text :: "swarm_error \<Rightarrow> string" where
  "error_text e =
     (case e of
        WindowExpired \<Rightarrow> ''swarm work window expired'' | MissingSandbox \<Rightarrow> ''missing sandbox reservation''
      | ForumScopeMismatch \<Rightarrow> ''forum scope mismatch'' | SwarmNotFound \<Rightarrow> ''swarm not found''
      | DeadlineExceeded \<Rightarrow> ''swarm reconciliation deadline exceeded'' | ForumUnavailable err \<Rightarrow> err | _ \<Rightarrow> [])"

definition failure :: "swarm_error \<Rightarrow> step_failure option" where
  "failure e = Some \<lparr>sf_timedOut = False, sf_outstanding = False, sf_error = error_text e\<rparr>"

definition member_forum_error :: "swarm_env \<Rightarrow> swarm \<Rightarrow> swarm_member \<Rightarrow> swarm_error option" where
  "member_forum_error env w m =
     (if \<not> truthy (mb_forumSandboxId m) then None
      else
        (case ev_access env (sw_ownerId w) (the (mb_forumSandboxId m)) of
           Inl err \<Rightarrow> Some (ForumUnavailable err)
         | Inr scope \<Rightarrow> if scope \<noteq> sw_scopeId w then Some ForumScopeMismatch else None))"

definition try_provision ::
  "swarm_env \<Rightarrow> provisioning \<Rightarrow> swarm \<Rightarrow> swarm_member \<Rightarrow> swarm_world \<Rightarrow> swarm_world \<times> step_failure option" where
  "try_provision env pv w m st =
     (let now = pv_now pv
      in if \<not> assertSwarmOpen now w then (st, failure WindowExpired)
         else if pv_deadline pv - now \<le> 0 then (st, failure DeadlineExceeded)
         else
           (case update_swarm now (sw_id w) (\<lambda>c. Inr (begin_attempt (mb_id m) c)) None st of
              (st1, Inl e) \<Rightarrow> (st1, failure e)
            | (st1, Inr _) \<Rightarrow>
                if \<not> truthy (mb_sandboxId m) then (st1, failure MissingSandbox)
                else
                  (case member_forum_error env w m of
                     Some e \<Rightarrow> (st1, failure e)
                   | None \<Rightarrow>
                       (case pv_create pv of
                          Some f \<Rightarrow> (st1, Some f)
                        | None \<Rightarrow>
                            (case worker_session now (pv_session pv) w m (wd_sessions st1) of
                               (ss, s) \<Rightarrow>
                                 (case update_swarm now (sw_id w) (make_ready (pv_deadline pv) now (mb_id m) (se_id s)) None (st1\<lparr>wd_sessions := ss\<rparr>) of
                                    (st2, Inl e) \<Rightarrow> (st2, failure e)
                                  | (st2, Inr _) \<Rightarrow> (st2, None)))))))"

definition provision :: "swarm_env \<Rightarrow> provisioning \<Rightarrow> swarm \<Rightarrow> swarm_member \<Rightarrow> swarm_world \<Rightarrow> swarm_world \<times> bool" where
  "provision env pv w m st =
     (case try_provision env pv w m st of
        (st1, None) \<Rightarrow> (st1, False)
      | (st1, Some f) \<Rightarrow>
          (fst (update_swarm (pv_now pv) (sw_id w)
             (\<lambda>c. Inr (attempt_failed (sf_timedOut f) (pv_deadline pv) (pv_now pv) (sf_error f) (mb_id m) c)) None st1),
           sf_outstanding f \<or> pv_now pv \<ge> pv_deadline pv))"

fun provision_all :: "swarm_env \<Rightarrow> (string \<Rightarrow> provisioning) \<Rightarrow> swarm \<Rightarrow> swarm_member list \<Rightarrow> swarm_world \<Rightarrow> swarm_world \<times> bool" where
  "provision_all env pv w [] st = (st, False)"
| "provision_all env pv w (m # ms) st =
     (case provision env (pv (mb_id m)) w m st of
        (st1, stop) \<Rightarrow> if stop then (st1, True) else provision_all env pv w ms st1)"

text \<open>
  Cleaning up after a failed member: its session goes when it is empty, otherwise everything waits; its
  own sandbox is retired (an effect outside the model), and the member is done.
\<close>

definition cleanup :: "time \<Rightarrow> swarm \<Rightarrow> swarm_member \<Rightarrow> swarm_world \<Rightarrow> swarm_world" where
  "cleanup now w m st =
     (let done = (\<lambda>st. fst (update_swarm now (sw_id w) (\<lambda>c. Inr (cleaned (mb_id m) c)) None st))
      in case getByThread (wd_sessions st) (mb_threadRef m) of
           None \<Rightarrow> done st
         | Some s \<Rightarrow>
             (case deleteSessionIfEmpty now (se_id s) (wd_sessions st) of
                (ss, deleted) \<Rightarrow> (let st1 = st\<lparr>wd_sessions := ss\<rparr> in if deleted then done st1 else st1)))"

definition reconcile_resources :: "swarm_env \<Rightarrow> (string \<Rightarrow> provisioning) \<Rightarrow> time \<Rightarrow> string \<Rightarrow> swarm_world \<Rightarrow> swarm_world" where
  "reconcile_resources env pv now i st =
     (case get_swarm st i of
        None \<Rightarrow> st
      | Some w \<Rightarrow>
          (case provision_all env pv w (filter (\<lambda>m. mb_state m = MReserved) (sw_members w)) st of
             (st1, stop) \<Rightarrow>
               if stop then st1
               else (case get_swarm st1 i of
                       None \<Rightarrow> st1
                     | Some w1 \<Rightarrow> fold (\<lambda>m st. cleanup now w1 m st) (filter mb_cleanupPending (sw_members w1)) st1)))"

section \<open>Turns that come from a swarm\<close>

record swarm_binding =
  bd_sandboxId :: "string option"
  bd_rootSessionId :: string
  bd_member :: swarm_member

definition other_truthy :: "orch_input \<Rightarrow> string \<Rightarrow> bool" where
  "other_truthy input k =
     (case map_of (oi_other input) k of
        None \<Rightarrow> False | Some JNull \<Rightarrow> False | Some (JBool b) \<Rightarrow> b | Some (JStr s) \<Rightarrow> s \<noteq> [] | Some (JNum n) \<Rightarrow> n \<noteq> 0 | Some _ \<Rightarrow> True)"

definition is_automation :: "turn_origin \<Rightarrow> bool" where
  "is_automation g = (case g of OgAutomation _ _ _ \<Rightarrow> True | _ \<Rightarrow> False)"

definition forged :: "swarm_world \<Rightarrow> swarm \<Rightarrow> swarm_member \<Rightarrow> swarm_turn \<Rightarrow> orch_input \<Rightarrow> bool" where
  "forged st w member t input =
     (case message_at w (wt_messageId t) of
        None \<Rightarrow> True
      | Some m \<Rightarrow>
          (case getByDedupKey (wd_runs st) (dispatch_key (ms_id m) (mb_id member)) of
             None \<Rightarrow> True
           | Some run \<Rightarrow>
               wt_swarmId t \<noteq> sw_id w \<or> wt_recipientId t \<noteq> mb_id member \<or> mb_id member \<notin> set (ms_audience m) \<or>
               Some (r_id run) \<noteq> oi_runId input \<or> \<not> is_automation (oi_origin input) \<or> p_id (oi_actor input) \<noteq> sw_ownerId w \<or>
               oi_surface input \<noteq> Some ''swarm'' \<or> other_truthy input ''deliveryTarget'' \<or> other_truthy input ''surfaceTools'' \<or>
               (is_automation (oi_origin input) \<and> useOwnerKeychain (oi_origin input) = Some True) \<or>
               \<not> matchesDispatch input (dispatchRequest w m member)))"

definition binding :: "swarm_env \<Rightarrow> time \<Rightarrow> swarm_world \<Rightarrow> orch_input \<Rightarrow> swarm_error + swarm_binding option" where
  "binding env now st input =
     (case getByThread (wd_sessions st) (cv_threadRef (oi_conversation input)) of
        None \<Rightarrow>
          if oi_swarm input \<noteq> None \<or> startsWith (cv_threadRef (oi_conversation input)) ''swarm:'' then Inl UnknownSwarmSession else Inr None
      | Some s \<Rightarrow>
          (case threadIdentity (se_threadRef s) (se_id s) of
             Inl e \<Rightarrow> Inl e
           | Inr (rootId, memberId) \<Rightarrow>
               if oi_swarm input = None \<and> rootId = se_id s then Inr None
               else
                 (case get_swarm st rootId of
                    None \<Rightarrow> if oi_swarm input \<noteq> None \<or> startsWith (se_threadRef s) ''swarm:'' then Inl UnknownSwarm else Inr None
                  | Some w \<Rightarrow>
                      (case member_at w memberId of
                         None \<Rightarrow> Inl InvalidMembership
                       | Some member \<Rightarrow>
                           (let bound = \<lparr>bd_sandboxId = mb_sandboxId member, bd_rootSessionId = sw_id w, bd_member = member\<rparr>;
                                actorId = p_id (oi_actor input);
                                scope = conversationScope (oi_conversation input) actorId
                            in if mb_state member \<noteq> MReady \<or> mb_sessionId member \<noteq> Some (se_id s) \<or> se_scopeId s \<noteq> sw_scopeId w
                               then Inl InvalidMembership
                               else
                                 (case oi_swarm input of
                                    None \<Rightarrow>
                                      if actorId \<notin> set (participantsOf (wd_sessions st) (se_id s)) \<or> scope \<noteq> se_scopeId s \<or>
                                         \<not> ev_authorize env actorId (se_scopeId s) (oi_scopeVersion input) (Some (cv_audience (oi_conversation input)))
                                      then Inl SwarmSessionDenied else Inr (Some bound)
                                  | Some t \<Rightarrow>
                                      if \<not> assertSwarmOpen now w then Inl WindowExpired
                                      else if forged st w member t input then Inl ForgedProvenance
                                      else if \<not> rosterMatches (participantsOf (wd_sessions st) (sw_id w)) (sw_participants w) \<or>
                                              \<not> rosterMatches (participantsOf (wd_sessions st) (se_id s)) (sw_participants w) \<or>
                                              actorId \<notin> set (sw_participants w) \<or> scope \<noteq> sw_scopeId w \<or>
                                              \<not> ev_authorize env actorId (sw_scopeId w) (oi_scopeVersion (sw_template w)) (Some (cv_audience (oi_conversation input)))
                                      then Inl AuthorizationChanged else Inr (Some bound)))))))"

end
