(* ===== verification/Swarm_Props.thy ===== *)
theory Swarm_Props
  imports Swarm_Outbox Interfaces
begin

text \<open>
  What holds of every swarm, however the requests of its members, the deliveries and the
  reconciliations are interleaved: each of them changes the stored swarm by one of the mutations
  below, at any time.
\<close>

section \<open>Steps\<close>

datatype swarm_mutation =
  MuReserve time swarm_authority reservation
| MuPost time swarm_authority posting
| MuContext time string json
| MuNotify string string notification
| MuAttempt string
| MuReady time time string string
| MuFail bool time time string string
| MuClean string

fun mutate :: "swarm_mutation \<Rightarrow> swarm \<Rightarrow> swarm_error + swarm" where
  "mutate (MuReserve now auth rv) w = reserve now auth rv w"
| "mutate (MuPost now auth po) w = post now auth po w"
| "mutate (MuContext now i v) w = set_context now i v w"
| "mutate (MuNotify m r n) w = Inr (set_notification m r n w)"
| "mutate (MuAttempt i) w = Inr (begin_attempt i w)"
| "mutate (MuReady deadline now i s) w = make_ready deadline now i s w"
| "mutate (MuFail timedOut deadline now err i) w = Inr (attempt_failed timedOut deadline now err i w)"
| "mutate (MuClean i) w = Inr (cleaned i w)"

text \<open>
  What the callers guarantee: random ids are fresh and one for each worker, an audience has no id
  twice, and only notifications that a message has are recorded, as queued or failed.
\<close>

fun mutation_ok :: "swarm_mutation \<Rightarrow> swarm \<Rightarrow> bool" where
  "mutation_ok (MuReserve now auth rv) w =
     (length (rv_ids rv) = length (rv_contexts rv) \<and> distinct (rv_ids rv) \<and>
      set (rv_ids rv) \<inter> mb_id ` set (sw_members w) = {} \<and> rv_messageId rv \<notin> ms_id ` set (sw_messages w))"
| "mutation_ok (MuPost now auth po) w = (distinct (po_audience po) \<and> po_id po \<notin> ms_id ` set (sw_messages w))"
| "mutation_ok (MuNotify m r n) w = (n \<noteq> NPending \<and> (\<forall>x\<in>set (sw_messages w). ms_id x = m \<longrightarrow> r \<in> fst ` set (ms_notifications x)))"
| "mutation_ok _ w = True"

inductive swarm_step :: "swarm \<Rightarrow> swarm \<Rightarrow> bool" where
  "mutation_ok mu w \<Longrightarrow> mutate mu w = Inr w1 \<Longrightarrow> swarm_step w (w1\<lparr>sw_pending := has_work w1\<rparr>)"

inductive_cases swarm_stepE: "swarm_step w w'"

text \<open>A swarm as it is prepared for the first reservation.\<close>

definition prepared :: "swarm \<Rightarrow> bool" where
  "prepared w =
     ((\<exists>s. sw_members w = [root_member s]) \<and> sw_messages w = [] \<and> sw_spawnRequests w = [] \<and> sw_messageRequests w = [] \<and>
      sw_notificationCount w = 0 \<and> sw_pending w \<and> within (sw_settings w) SWARM_MAXIMUMS)"

section \<open>The invariant\<close>

definition notified :: "swarm \<Rightarrow> nat" where
  "notified w = sum_list (map (\<lambda>m. length (ms_notifications m)) (sw_messages w))"

definition budgets_ok :: "swarm \<Rightarrow> bool" where
  "budgets_ok w =
     (int (length (sw_members w)) \<le> ws_agents (sw_settings w) \<and> int (length (sw_messages w)) \<le> ws_messages (sw_settings w) \<and>
      sw_notificationCount w = notified w \<and> int (notified w) \<le> ws_notifications (sw_settings w) \<and>
      int (length (sw_spawnRequests w)) \<le> ws_spawnRequests (sw_settings w) \<and>
      (\<forall>m\<in>set (sw_members w). int (mb_depth m) \<le> ws_depth (sw_settings w)))"

definition shape_ok :: "swarm \<Rightarrow> bool" where
  "shape_ok w =
     (distinct (map mb_id (sw_members w)) \<and> distinct (map ms_id (sw_messages w)) \<and>
      map ms_seq (sw_messages w) = map Suc [0..<length (sw_messages w)] \<and>
      (\<forall>m\<in>set (sw_members w). mb_state m = MReady \<longrightarrow> mb_sessionId m \<noteq> None) \<and>
      (\<forall>x\<in>set (sw_messages w). map_ok (ms_notifications x)))"

definition swarm_inv :: "swarm \<Rightarrow> bool" where
  "swarm_inv w = (budgets_ok w \<and> shape_ok w \<and> (has_work w \<longrightarrow> sw_pending w))"

lemma member_at_in: "member_at w i = Some m \<Longrightarrow> m \<in> set (sw_members w) \<and> mb_id m = i"
  by (auto simp: member_at_def find_Some_iff)

lemma workers_ids: "length (rv_ids rv) = length (rv_contexts rv) \<Longrightarrow> map mb_id (workers rv i p) = rv_ids rv"
  by (simp add: workers_def comp_def case_prod_beta worker_def)

lemma length_workers: "length (rv_ids rv) = length (rv_contexts rv) \<Longrightarrow> length (workers rv i p) = length (rv_contexts rv)"
  by (simp add: workers_def)

lemma workers_members:
  "m \<in> set (workers rv i p) \<Longrightarrow> mb_depth m = mb_depth p + 1 \<and> mb_state m = MReserved"
  by (auto simp: workers_def worker_def)

text \<open>What a reservation or a message that is accepted adds.\<close>

lemma reserve_cases:
  assumes "reserve now auth rv w = Inr w'"
  obtains (old) ids where "map_get (sw_spawnRequests w) (rv_key rv) = Some (ids, rv_fingerprint rv)" "w' = w"
  | (new) p m where "map_get (sw_spawnRequests w) (rv_key rv) = None" "p \<in> set (sw_members w)"
      "int (mb_depth p) < ws_depth (sw_settings w)"
      "int (length (sw_members w) + length (rv_contexts rv)) \<le> ws_agents (sw_settings w)"
      "int (length (sw_spawnRequests w)) < ws_spawnRequests (sw_settings w)"
      "int (length (sw_messages w)) < ws_messages (sw_settings w)"
      "int (sw_notificationCount w + length (rv_contexts rv)) \<le> ws_notifications (sw_settings w)"
      "ms_id m = rv_messageId rv" "ms_seq m = length (sw_messages w) + 1"
      "ms_notifications m = map (\<lambda>x. (mb_id x, NPending)) (workers rv (sw_id w) p)"
      "w' = w\<lparr>sw_members := sw_members w @ workers rv (sw_id w) p,
              sw_spawnRequests := map_set (rv_key rv) (map mb_id (workers rv (sw_id w) p), rv_fingerprint rv) (sw_spawnRequests w),
              sw_messages := sw_messages w @ [m], sw_notificationCount := sw_notificationCount w + length (rv_contexts rv)\<rparr>"
proof (cases "map_get (sw_spawnRequests w) (rv_key rv)")
  case (Some x)
  then show ?thesis using assms old by (cases x) (auto simp: reserve_def split: if_splits)
next
  case None
  show ?thesis
  proof (cases "member_at w (au_memberId auth)")
    case no: None
    then show ?thesis using assms None by (auto simp: reserve_def split: if_splits)
  next
    case (Some p)
    note p = member_at_in [OF Some]
    show ?thesis
      by (rule new [OF None, of p]) (use assms None Some p in \<open>auto simp: reserve_def Let_def split: if_splits\<close>)
  qed
qed

lemma post_cases:
  assumes "post now auth po w = Inr w'"
  obtains (old) i where "map_get (sw_messageRequests w) (po_key po) = Some (i, po_fingerprint po)" "w' = w"
  | (new) m where "map_get (sw_messageRequests w) (po_key po) = None"
      "int (length (sw_messages w)) < ws_messages (sw_settings w)"
      "int (sw_notificationCount w + length (recipients auth po)) \<le> ws_notifications (sw_settings w)"
      "ms_id m = po_id po" "ms_seq m = length (sw_messages w) + 1" "ms_audience m = po_audience po"
      "ms_notifications m = fold (\<lambda>p m. map_set p NPending m) (recipients auth po) []"
      "w' = w\<lparr>sw_notificationCount := sw_notificationCount w + length (recipients auth po), sw_messages := sw_messages w @ [m],
              sw_messageRequests := map_set (po_key po) (po_id po, po_fingerprint po) (sw_messageRequests w)\<rparr>"
proof (cases "map_get (sw_messageRequests w) (po_key po)")
  case (Some x)
  then show ?thesis using assms old by (cases x) (auto simp: post_def split: if_splits)
next
  case None
  show ?thesis
    by (rule new [OF None]) (use assms None in \<open>auto simp: post_def Let_def split: if_splits\<close>)
qed

lemma length_map_set: "length (map_set k v m) = (if map_get m k = None then Suc (length m) else length m)"
proof (cases "map_get m k")
  case None
  then show ?thesis by (simp add: map_set_fresh)
next
  case (Some x)
  then show ?thesis by (induction m) auto
qed

lemma fold_pending:
  "distinct rs \<Longrightarrow> set rs \<inter> fst ` set m = {} \<Longrightarrow> map_ok m \<Longrightarrow>
     map_ok (fold (\<lambda>p m. map_set p NPending m) rs m) \<and> length (fold (\<lambda>p m. map_set p NPending m) rs m) = length m + length rs"
proof (induction rs arbitrary: m)
  case (Cons r rs)
  have n: "map_get m r = None" using Cons.prems(2) by (auto simp: map_of_eq_None_iff)
  then have "set rs \<inter> fst ` set (map_set r NPending m) = {}"
    using Cons.prems by (auto simp: map_set_fresh)
  then show ?case using Cons.IH [of "map_set r NPending m"] Cons.prems n by (simp add: length_map_set)
qed simp

lemma length_recorded: "r \<in> fst ` set m \<Longrightarrow> length (map_set r n m) = length m"
  by (auto simp: length_map_set map_of_eq_None_iff)

section \<open>It is kept\<close>

lemma map_same_image:
  "(\<And>m. f (g m) = f m) \<Longrightarrow> map f (map g xs) = map f xs"
  by simp

text \<open>A change of one member that keeps its id, its depth and the session of a ready one.\<close>

lemma on_member_ok:
  assumes inv: "swarm_inv w" and id: "\<And>m. mb_id (f m) = mb_id m" and depth: "\<And>m. mb_depth (f m) = mb_depth m"
    and ready: "\<And>m. mb_state (f m) = MReady \<Longrightarrow> mb_state m = MReady \<longrightarrow> mb_sessionId m \<noteq> None \<Longrightarrow> mb_sessionId (f m) \<noteq> None"
  shows "swarm_inv ((on_member i f w)\<lparr>sw_pending := has_work (on_member i f w)\<rparr>)"
proof -
  let ?g = "\<lambda>m. if mb_id m = i then f m else m"
  have ids: "map mb_id (map ?g (sw_members w)) = map mb_id (sw_members w)" using id by simp
  have "budgets_ok (on_member i f w)"
    using inv depth by (auto simp: swarm_inv_def budgets_ok_def on_member_def notified_def)
  moreover have "shape_ok (on_member i f w)"
    using inv ids ready by (auto simp: swarm_inv_def shape_ok_def on_member_def simp del: map_map)
  ultimately show ?thesis by (simp add: swarm_inv_def budgets_ok_def shape_ok_def notified_def has_work_def)
qed

lemma notify_ok:
  assumes inv: "swarm_inv w" and ok: "mutation_ok (MuNotify m r n) w"
  shows "swarm_inv ((set_notification m r n w)\<lparr>sw_pending := has_work (set_notification m r n w)\<rparr>)"
proof -
  let ?g = "\<lambda>x. if ms_id x = m then x\<lparr>ms_notifications := map_set r n (ms_notifications x)\<rparr> else x"
  have len: "length (ms_notifications (?g x)) = length (ms_notifications x)" if "x \<in> set (sw_messages w)" for x
    using ok that by (simp add: length_recorded)
  then have "notified (set_notification m r n w) = notified w"
    by (auto simp: notified_def set_notification_def comp_def intro!: arg_cong [where f = sum_list] map_cong)
  then have "budgets_ok (set_notification m r n w)"
    using inv by (auto simp: swarm_inv_def budgets_ok_def) (simp_all add: set_notification_def)
  moreover have "shape_ok (set_notification m r n w)"
  proof -
    have "map ms_id (map ?g (sw_messages w)) = map ms_id (sw_messages w)" "map ms_seq (map ?g (sw_messages w)) = map ms_seq (sw_messages w)"
      by simp_all
    then show ?thesis using inv
      by (auto simp: swarm_inv_def shape_ok_def set_notification_def simp del: map_map)
  qed
  ultimately show ?thesis by (simp add: swarm_inv_def budgets_ok_def shape_ok_def notified_def has_work_def)
qed

lemma inv_pending: "swarm_inv w \<Longrightarrow> swarm_inv (w\<lparr>sw_pending := has_work w\<rparr>)"
  by (simp add: swarm_inv_def budgets_ok_def shape_ok_def notified_def has_work_def)

lemma reserve_ok:
  assumes inv: "swarm_inv w" and ok: "mutation_ok (MuReserve now auth rv) w" and r: "reserve now auth rv w = Inr w'"
  shows "swarm_inv (w'\<lparr>sw_pending := has_work w'\<rparr>)"
  using r
proof (cases rule: reserve_cases)
  case (old ids)
  then show ?thesis using inv by (simp add: inv_pending)
next
  case (new p m)
  let ?ms = "workers rv (sw_id w) p"
  have len: "length (rv_ids rv) = length (rv_contexts rv)" using ok by simp
  note ids = workers_ids [OF len, of "sw_id w" p]
  have n: "length (ms_notifications m) = length (rv_contexts rv)" using new(10) length_workers [OF len] by simp
  have "budgets_ok w'"
    using inv new(3-7,2) n length_workers [OF len, of "sw_id w" p] workers_members [of _ rv "sw_id w" p]
    unfolding new(11) swarm_inv_def budgets_ok_def notified_def
    by (auto simp: length_map_set)
  moreover have "shape_ok w'"
  proof -
    have "distinct (map mb_id (sw_members w) @ rv_ids rv)" using inv ok by (auto simp: swarm_inv_def shape_ok_def)
    moreover have "map_ok (ms_notifications m)" using ids ok new(10) by (simp add: map_ok_def comp_def)
    ultimately show ?thesis
      using inv ok ids new(8,9) workers_members [of _ rv "sw_id w" p] unfolding new(11) swarm_inv_def shape_ok_def by auto
  qed
  ultimately show ?thesis by (simp add: swarm_inv_def budgets_ok_def shape_ok_def notified_def has_work_def)
qed

lemma post_ok:
  assumes inv: "swarm_inv w" and ok: "mutation_ok (MuPost now auth po) w" and r: "post now auth po w = Inr w'"
  shows "swarm_inv (w'\<lparr>sw_pending := has_work w'\<rparr>)"
  using r
proof (cases rule: post_cases)
  case (old i)
  then show ?thesis using inv by (simp add: inv_pending)
next
  case (new m)
  have "distinct (recipients auth po)" using ok by (simp add: recipients_def)
  then have n: "map_ok (ms_notifications m)" "length (ms_notifications m) = length (recipients auth po)"
    using fold_pending [of "recipients auth po" "[]"] new(7) by simp_all
  have "budgets_ok w'"
    using inv new(2,3) n unfolding new(8) swarm_inv_def budgets_ok_def notified_def by auto
  moreover have "shape_ok w'"
    using inv ok new(4,5) n unfolding new(8) swarm_inv_def shape_ok_def by auto
  ultimately show ?thesis by (simp add: swarm_inv_def budgets_ok_def shape_ok_def notified_def has_work_def)
qed

lemma swarm_inv_step:
  assumes "swarm_inv w" and "swarm_step w w'"
  shows "swarm_inv w'"
proof -
  obtain mu w1 where 1: "mutation_ok mu w" "mutate mu w = Inr w1" "w' = w1\<lparr>sw_pending := has_work w1\<rparr>"
    using assms(2) by (auto elim: swarm_stepE)
  then show ?thesis
  proof (cases mu)
    case (MuReserve now auth rv)
    then show ?thesis using 1 reserve_ok [OF assms(1)] by simp
  next
    case (MuPost now auth po)
    then show ?thesis using 1 post_ok [OF assms(1)] by simp
  next
    case (MuContext now i v)
    then show ?thesis using 1 assms(1) by (auto simp: set_context_def intro!: on_member_ok split: if_splits)
  next
    case (MuNotify m r n)
    then show ?thesis using 1 notify_ok [OF assms(1), of m r n] by auto
  next
    case (MuAttempt i)
    then show ?thesis using 1 assms(1) by (auto simp: begin_attempt_def intro!: on_member_ok)
  next
    case (MuReady dl now i s)
    then show ?thesis using 1 assms(1) by (auto simp: make_ready_def intro!: on_member_ok split: if_splits)
  next
    case (MuFail t dl now err i)
    then show ?thesis using 1 assms(1)
      by (auto simp: attempt_failed_def fail_member_def Let_def intro!: on_member_ok split: if_splits)
  next
    case (MuClean i)
    then show ?thesis using 1 assms(1) by (auto simp: cleaned_def intro!: on_member_ok)
  qed
qed

lemma swarm_inv_prepared: "prepared w \<Longrightarrow> swarm_inv w"
  by (auto simp: prepared_def swarm_inv_def budgets_ok_def shape_ok_def notified_def within_def root_member_def)

interpretation swm: invariant_system prepared swarm_step swarm_inv
  by unfold_locales (auto intro: swarm_inv_prepared swarm_inv_step)

end
