(* ===== verification/Swarm_Theorems.thy ===== *)
theory Swarm_Theorems
  imports Swarm_Props Run_Queue
begin

text \<open>
  The properties of swarms: their budgets, what a retried request does, when a notification becomes a
  run, which turns are taken for a swarm's and what their thread references mean.
\<close>

section \<open>Budgets\<close>

lemma settings_kept: "swarm_step w w' \<Longrightarrow> sw_settings w' = sw_settings w"
proof (elim swarm_stepE)
  fix mu w1 assume "mutate mu w = Inr w1" "w' = w1\<lparr>sw_pending := has_work w1\<rparr>"
  then show ?thesis
    by (cases mu)
      (auto simp: set_context_def on_member_def set_notification_def begin_attempt_def make_ready_def attempt_failed_def cleaned_def
        elim!: reserve_cases post_cases split: if_splits)
qed

lemma settings_reach: "reach prepared swarm_step w \<Longrightarrow> within (sw_settings w) SWARM_MAXIMUMS"
  by (induction rule: reach.induct) (auto simp: prepared_def settings_kept)


section \<open>Retries\<close>

lemma on_member_ids: "(\<And>m. mb_id (f m) = mb_id m) \<Longrightarrow> map mb_id (sw_members (on_member i f w)) = map mb_id (sw_members w)"
  by (simp add: on_member_def)

lemma on_member_sel [simp]:
  "sw_spawnRequests (on_member i f w) = sw_spawnRequests w" "sw_messageRequests (on_member i f w) = sw_messageRequests w"
  "sw_messages (on_member i f w) = sw_messages w" "sw_settings (on_member i f w) = sw_settings w"
  by (simp_all add: on_member_def)

lemma set_notification_sel [simp]:
  "sw_spawnRequests (set_notification m r n w) = sw_spawnRequests w" "sw_members (set_notification m r n w) = sw_members w"
  "sw_messageRequests (set_notification m r n w) = sw_messageRequests w" "sw_settings (set_notification m r n w) = sw_settings w"
  by (simp_all add: set_notification_def)

lemma members_grow: "mutate mu w = Inr w1 \<Longrightarrow> \<exists>ms. map mb_id (sw_members w1) = map mb_id (sw_members w) @ ms"
proof (cases mu)
  case (MuReserve now auth rv)
  moreover assume "mutate mu w = Inr w1"
  ultimately show ?thesis by (auto elim!: reserve_cases)
next
  case (MuPost now auth po)
  moreover assume "mutate mu w = Inr w1"
  ultimately show ?thesis by (auto elim!: post_cases)
qed (auto simp: set_context_def begin_attempt_def make_ready_def attempt_failed_def cleaned_def fail_member_def Let_def on_member_ids
    split: if_splits)

lemma requests_grow:
  assumes "mutate mu w = Inr w1"
  shows "map_get (sw_spawnRequests w) k = Some x \<Longrightarrow> map_get (sw_spawnRequests w1) k = Some x"
    and "map_get (sw_messageRequests w) k = Some y \<Longrightarrow> map_get (sw_messageRequests w1) k = Some y"
  using assms
  by (cases mu; auto simp: set_context_def begin_attempt_def make_ready_def attempt_failed_def cleaned_def
      elim!: reserve_cases post_cases split: if_splits)+

lemma requests_kept:
  assumes "swarm_step w w'"
  shows "map_get (sw_spawnRequests w) k = Some x \<Longrightarrow> map_get (sw_spawnRequests w') k = Some x"
    and "map_get (sw_messageRequests w) k = Some y \<Longrightarrow> map_get (sw_messageRequests w') k = Some y"
    and "\<exists>ms. map mb_id (sw_members w') = map mb_id (sw_members w) @ ms"
proof -
  obtain mu w1 where 1: "mutate mu w = Inr w1" "w' = w1\<lparr>sw_pending := has_work w1\<rparr>"
    using assms by (auto elim: swarm_stepE)
  show "map_get (sw_spawnRequests w) k = Some x \<Longrightarrow> map_get (sw_spawnRequests w') k = Some x"
    and "map_get (sw_messageRequests w) k = Some y \<Longrightarrow> map_get (sw_messageRequests w') k = Some y"
    and "\<exists>ms. map mb_id (sw_members w') = map mb_id (sw_members w) @ ms"
    using requests_grow [OF 1(1)] members_grow [OF 1(1)] 1(2) by simp_all
qed

lemma requests_steps:
  assumes "swarm_step\<^sup>*\<^sup>* w w'"
  shows "map_get (sw_spawnRequests w) k = Some x \<Longrightarrow> map_get (sw_spawnRequests w') k = Some x"
    and "map_get (sw_messageRequests w) k = Some y \<Longrightarrow> map_get (sw_messageRequests w') k = Some y"
    and "\<exists>ms. map mb_id (sw_members w') = map mb_id (sw_members w) @ ms"
proof -
  show "map_get (sw_spawnRequests w) k = Some x \<Longrightarrow> map_get (sw_spawnRequests w') k = Some x"
    using assms by (induction rule: rtranclp_induct) (auto dest: requests_kept(1))
  show "map_get (sw_messageRequests w) k = Some y \<Longrightarrow> map_get (sw_messageRequests w') k = Some y"
    using assms by (induction rule: rtranclp_induct) (auto dest: requests_kept(2))
  show "\<exists>ms. map mb_id (sw_members w') = map mb_id (sw_members w) @ ms"
    using assms
  proof (induction rule: rtranclp_induct)
    case (step y z)
    then show ?case using requests_kept(3) [of y z] by (metis append.assoc)
  qed (simp add: exI [of _ "[]"])
qed

text \<open>
  A spawn or send request is served once: whatever happens to the swarm afterwards, asking again under
  the same key and with the same content reserves and posts nothing, and names the same workers;
  different content under the key is refused.
\<close>

theorem swarm_requests_served_once:
  assumes "reserve now auth rv w = Inr w1" and "swarm_step\<^sup>*\<^sup>* w1 w2" and "rv_key rv' = rv_key rv"
  shows "\<exists>ids. map_get (sw_spawnRequests w2) (rv_key rv) = Some (ids, rv_fingerprint rv) \<and>
    (rv_fingerprint rv' = rv_fingerprint rv \<longrightarrow> reserve now' auth' rv' w2 = Inr w2) \<and>
    (rv_fingerprint rv' \<noteq> rv_fingerprint rv \<longrightarrow> reserve now' auth' rv' w2 = Inl RequestIdReused) \<and>
    (map_get (sw_spawnRequests w) (rv_key rv) = None \<and> length (rv_ids rv) = length (rv_contexts rv) \<longrightarrow>
       ids = rv_ids rv \<and> set ids \<subseteq> mb_id ` set (sw_members w2))"
proof -
  obtain ids where ids: "map_get (sw_spawnRequests w1) (rv_key rv) = Some (ids, rv_fingerprint rv)"
    and new: "map_get (sw_spawnRequests w) (rv_key rv) = None \<and> length (rv_ids rv) = length (rv_contexts rv) \<longrightarrow>
      ids = rv_ids rv \<and> set ids \<subseteq> mb_id ` set (sw_members w1)"
    using assms(1)
  proof (cases rule: reserve_cases)
    case (new p m)
    have "map_get (sw_spawnRequests w1) (rv_key rv) = Some (map mb_id (workers rv (sw_id w) p), rv_fingerprint rv)"
      by (simp add: new(11))
    moreover have "set (map mb_id (workers rv (sw_id w) p)) \<subseteq> mb_id ` set (sw_members w1)" by (auto simp: new(11))
    ultimately show ?thesis using workers_ids [of rv "sw_id w" p]
      by (intro that [of "map mb_id (workers rv (sw_id w) p)"]) (assumption, metis)
  next
    case (old ids)
    then show ?thesis by (intro that [of ids]) auto
  qed
  have k: "map_get (sw_spawnRequests w2) (rv_key rv) = Some (ids, rv_fingerprint rv)"
    by (rule requests_steps(1) [OF assms(2) ids])
  obtain ms where "map mb_id (sw_members w2) = map mb_id (sw_members w1) @ ms" using requests_steps(3) [OF assms(2)] ..
  then have "mb_id ` set (sw_members w1) \<subseteq> mb_id ` set (sw_members w2)"
    by (metis list.set_map set_append Un_upper1)
  then show ?thesis using k new assms(3) by (intro exI [of _ ids]) (auto simp: reserve_def)
qed

section \<open>Dispatch\<close>

lemma dispatch_key_not_Nil [simp]: "dispatch_key m r \<noteq> []"
  by (simp add: dispatch_key_def)

text \<open>Two notifications have different keys, as ids have no colon.\<close>

lemma dispatch_key_inj:
  "CHR '':'' \<notin> set m \<Longrightarrow> CHR '':'' \<notin> set m' \<Longrightarrow> dispatch_key m r = dispatch_key m' r' \<Longrightarrow> m = m' \<and> r = r'"
proof -
  assume c: "CHR '':'' \<notin> set m" "CHR '':'' \<notin> set m'" and "dispatch_key m r = dispatch_key m' r'"
  then have e: "m @ CHR '':'' # r = m' @ CHR '':'' # r'" by (simp add: dispatch_key_def)
  have "takeWhile (\<lambda>x. x \<noteq> CHR '':'') (m @ CHR '':'' # r) = m" "takeWhile (\<lambda>x. x \<noteq> CHR '':'') (m' @ CHR '':'' # r') = m'"
    using c by (auto simp: takeWhile_append)
  then show ?thesis using e by auto
qed

lemma record_runs [simp]:
  "wd_runs (fst (record_notification dl now w m r n st)) = wd_runs st"
  by (auto simp: record_notification_def update_swarm_def put_swarm_def Let_def split: option.splits sum.splits prod.splits)

lemma deliver_one_runs:
  assumes "member_at w r = Some to" and "mb_state to = MReady" and "tk_check tk < sw_expiresAt w" and "tk_enqueue tk < dl"
  shows "wd_runs (fst (deliver_one dl tk w m r st)) = fst (enqueue (wd_runs st) (dispatch_input w m to) (tk_run tk) (tk_enqueue tk))"
  using assms by (simp add: deliver_one_def split: prod.splits)

text \<open>
  A notification becomes one run: delivering it to a ready member leaves in the queue a run under the
  key of the message and the recipient, and while such a run is there, delivering it again (after a
  crash before the notification was recorded, or by another worker) adds no run and records that one.
\<close>

theorem notification_dispatched_once:
  assumes inv: "rs_inv (wd_runs st)" and to: "member_at w r = Some to" "mb_state to = MReady"
    and open': "tk_check tk < sw_expiresAt w" "tk_enqueue tk < dl"
    and fresh: "run_at (wd_runs st) (tk_run tk) = None" "tk_run tk \<noteq> []"
  shows "(\<exists>run. getByDedupKey (wd_runs (fst (deliver_one dl tk w m r st))) (dispatch_key (ms_id m) r) = Some run) \<and>
    (\<forall>i run. run_at (wd_runs st) i = Some run \<and> r_dedupKey run = Some (dispatch_key (ms_id m) r) \<longrightarrow>
       wd_runs (fst (deliver_one dl tk w m r st)) = wd_runs st \<and>
       deliver_one dl tk w m r st = record_notification dl (tk_record tk) w (ms_id m) r (NQueued (r_id run)) st)"
proof -
  let ?k = "dispatch_key (ms_id m) r"
  let ?input = "dispatch_input w m to"
  have rid: "mb_id to = r" using member_at_in [OF to(1)] by simp
  have key: "ei_dedupKey ?input = Some ?k" "?k \<noteq> []" by (simp_all add: dispatch_input_def rid)
  note runs = deliver_one_runs [OF to open', of m st]
  have again: "deliver_one dl tk w m r st = record_notification dl (tk_record tk) w (ms_id m) r (NQueued (r_id run)) st"
    if "run_at (wd_runs st) i = Some run" "r_dedupKey run = Some ?k" for i run
    using enqueue_known(1) [OF inv key that] to open' by (simp add: deliver_one_def)
  have "\<exists>run. getByDedupKey (fst (enqueue (wd_runs st) ?input (tk_run tk) (tk_enqueue tk))) ?k = Some run"
  proof (cases "\<exists>i run. run_at (wd_runs st) i = Some run \<and> r_dedupKey run = Some ?k")
    case True
    then show ?thesis using enqueue_known [OF inv key] by fastforce
  next
    case False
    then show ?thesis using enqueue_unknown [OF inv key fresh, of "tk_enqueue tk"] by (auto split: prod.splits)
  qed
  then show ?thesis using runs again by auto
qed

section \<open>Genuine turns\<close>

text \<open>
  C38. A turn that names a swarm is bound to a member only when it is exactly what the swarm dispatched: to a
  ready member in the audience of a message that the swarm has, as the run enqueued for that
  notification, by the owner, with the conversation, the text and every other field of the contract,
  before the window closed and with the roster of the sessions unchanged.
\<close>

theorem swarm_turn_is_genuine:
  assumes "binding env now st input = Inr (Some b)" and "oi_swarm input = Some t"
  shows "\<exists>s root w m run.
    getByThread (wd_sessions st) (cv_threadRef (oi_conversation input)) = Some s \<and> mb_sessionId (bd_member b) = Some (se_id s) \<and>
    get_swarm st root = Some w \<and> bd_member b \<in> set (sw_members w) \<and> mb_state (bd_member b) = MReady \<and>
    message_at w (wt_messageId t) = Some m \<and> mb_id (bd_member b) \<in> set (ms_audience m) \<and>
    getByDedupKey (wd_runs st) (dispatch_key (ms_id m) (mb_id (bd_member b))) = Some run \<and> oi_runId input = Some (r_id run) \<and>
    input = (dispatchRequest w m (bd_member b))\<lparr>oi_runId := Some (r_id run), oi_other := []\<rparr> \<and>
    p_id (oi_actor input) = sw_ownerId w \<and> now < sw_expiresAt w \<and>
    rosterMatches (participantsOf (wd_sessions st) (sw_id w)) (sw_participants w)"
proof -
  obtain s root memberId w member where
    s: "getByThread (wd_sessions st) (cv_threadRef (oi_conversation input)) = Some s"
    and "threadIdentity (se_threadRef s) (se_id s) = Inr (root, memberId)"
    and w: "get_swarm st root = Some w" and m: "member_at w memberId = Some member"
    and ok: "mb_state member = MReady" "mb_sessionId member = Some (se_id s)" "assertSwarmOpen now w"
      "\<not> forged st w member t input" "rosterMatches (participantsOf (wd_sessions st) (sw_id w)) (sw_participants w)"
      "bd_member b = member"
    using assms unfolding binding_def Let_def
    by (auto split: option.splits sum.splits prod.splits if_splits)
  obtain msg run where f: "message_at w (wt_messageId t) = Some msg"
    "getByDedupKey (wd_runs st) (dispatch_key (ms_id msg) (mb_id member)) = Some run"
    "mb_id member \<in> set (ms_audience msg)" "Some (r_id run) = oi_runId input" "p_id (oi_actor input) = sw_ownerId w"
    "matchesDispatch input (dispatchRequest w msg member)"
    using ok(4) unfolding forged_def by (auto split: option.splits)
  have "input = (dispatchContract input)\<lparr>oi_runId := oi_runId input, oi_other := oi_other input\<rparr>"
    by (simp add: dispatchContract_def)
  also have "\<dots> = (dispatchRequest w msg member)\<lparr>oi_runId := Some (r_id run), oi_other := []\<rparr>"
    using f(4,6) by (simp add: matchesDispatch_def dispatchContract_def)
  finally show ?thesis using s w m ok f member_at_in [OF m]
    by (intro exI [of _ s] exI [of _ root] exI [of _ w] exI [of _ msg] exI [of _ run]) (auto simp: assertSwarmOpen_def)
qed

section \<open>Thread references\<close>

text \<open>The thread reference of a worker names its swarm and the worker, whatever the id of the swarm.\<close>

theorem worker_thread_roundtrip:
  assumes "i \<noteq> []" and "CHR '':'' \<notin> set i" and "swarmId \<noteq> []"
  shows "threadIdentity (worker_ref swarmId i) sessionId = Inr (swarmId, i)"
proof -
  have "worker_ref swarmId i = ''swarm'' @ CHR '':'' # (encodeURIComponent swarmId @ CHR '':'' # i)"
    by (simp add: worker_ref_def)
  then have "split_on CHR '':'' (worker_ref swarmId i) = [''swarm'', encodeURIComponent swarmId, i]"
    using assms(2) split_on_append [of "CHR '':''" "''swarm''"] split_on_append [of "CHR '':''" "encodeURIComponent swarmId" i]
      split_on_single [of "CHR '':''" i] by simp
  moreover have "startsWith (worker_ref swarmId i) ''swarm:''" by (simp add: worker_ref_def startsWith_def)
  ultimately show ?thesis using assms by (simp add: threadIdentity_def)
qed

section \<open>Rosters\<close>

lemma participantsOf_remove: "participantsOf (removeParticipant now i who ss) j = participantsOf ss j"
proof (cases "window_of ss i who")
  case (Some w)
  have keep: "map_keys (map_set who v m) = map_keys m" if "map_get m who = Some w" for v m
    using that by (induction m) auto
  show ?thesis using Some keep
    by (auto simp: removeParticipant_def participantsOf_def set_window_def window_of_def bind_eq_Some_conv)
qed (simp add: removeParticipant_def)

lemma sessions_remove [simp]:
  "ss_sessions (removeParticipant t i who ss) = ss_sessions ss" "ss_byThread (removeParticipant t i who ss) = ss_byThread ss"
  by (auto simp: removeParticipant_def set_window_def split: option.splits)

text \<open>
  Removing a participant of a session leaves its roster as it is: who was ever a participant stays in
  the list, so that the frozen roster of a swarm still matches, and somebody who was removed keeps the
  authority over the swarm.
\<close>

theorem removed_participant_keeps_swarm:
  "authority env now (st\<lparr>wd_sessions := removeParticipant t i who (wd_sessions st)\<rparr>) c = authority env now st c"
proof -
  have 1: "caller_session (st\<lparr>wd_sessions := removeParticipant t i who (wd_sessions st)\<rparr>) c = caller_session st c"
    by (simp add: caller_session_def getByThread_def existing_session_def get_session_def cong: option.case_cong if_cong split: swarm_caller.split)
  have 2: "caller_fence now (st\<lparr>wd_sessions := removeParticipant t i who (wd_sessions st)\<rparr>) c s = caller_fence now st c s" for s
    by (simp add: caller_fence_def agent_fence_def split: swarm_caller.split)
  have 3: "member_access (st\<lparr>wd_sessions := removeParticipant t i who (wd_sessions st)\<rparr>) s a m w = member_access st s a m w" for s a m w
    by (simp add: member_access_def participantsOf_remove)
  have 4: "wd_swarms (st\<lparr>wd_sessions := ss\<rparr>) = wd_swarms st" "wd_sessions (st\<lparr>wd_sessions := ss\<rparr>) = ss" for ss by simp_all
  show ?thesis
    unfolding authority_def get_swarm_def 1 2 3 4 participantsOf_remove by (rule refl)
qed

section \<open>Witnesses\<close>

definition ex_input :: orch_input where
  "ex_input =
     \<lparr>oi_actor = \<lparr>p_id = ''ann'', p_type = Internal, p_teamIds = None, p_displayName = None\<rparr>,
      oi_conversation = \<lparr>cv_kind = StDm, cv_threadRef = ''thread'', cv_channelRef = None, cv_channelName = None, cv_audience = [],
        cv_isPrivate = None, cv_isMpim = None, cv_publishMembers = None\<rparr>,
      oi_origin = OgDirect, oi_surface = None, oi_text = ''go'', oi_scopeVersion = None, oi_unattendedGrants = None, oi_readOnly = None,
      oi_skipMemory = None, oi_harness = None, oi_model = None, oi_thinkingLevel = None, oi_fastMode = None,
      oi_turnWallClockMs = None, oi_swarm = None, oi_sessionParticipantIds = None, oi_runId = None, oi_other = []\<rparr>"

definition ex_session :: session where
  "ex_session = new_session 1 ''s1'' ''thread'' StDm ''personal:ann'' None None"

definition ex_swarm :: swarm where
  "ex_swarm =
     \<lparr>sw_id = ''s1'', sw_scopeId = ''personal:ann'', sw_ownerId = ''ann'', sw_participants = [''ann''], sw_createdAt = 1,
      sw_expiresAt = 3600001, sw_template = swarm_template ex_input SWARM_DEFAULTS, sw_settings = SWARM_DEFAULTS,
      sw_backend = ''local'', sw_members = [root_member ex_session], sw_messages = [], sw_spawnRequests = [],
      sw_messageRequests = [], sw_notificationCount = 0, sw_pending = True\<rparr>"

definition ex_auth :: swarm_authority where
  "ex_auth = \<lparr>au_fence = None, au_sessionId = ''s1'', au_actorId = ''ann'', au_rootId = ''s1'', au_memberId = ''s1''\<rparr>"

definition ex_reservation :: reservation where
  "ex_reservation =
     \<lparr>rv_key = ''k'', rv_fingerprint = ''f'', rv_settings = SWARM_DEFAULTS, rv_backend = None, rv_contexts = [JObj []], rv_forum = None,
      rv_text = ''work'', rv_kind = ByHuman, rv_ids = [''w1''], rv_messageId = ''m1''\<rparr>"

definition ex_reserved :: swarm where
  "ex_reserved = (case reserve 2 ex_auth ex_reservation ex_swarm of Inr w \<Rightarrow> w | Inl e \<Rightarrow> ex_swarm)"

lemma ex_prepared: "prepared ex_swarm"
  by (auto simp: prepared_def ex_swarm_def within_def SWARM_DEFAULTS_def SWARM_MAXIMUMS_def)

lemma ex_reserve: "reserve 2 ex_auth ex_reservation ex_swarm = Inr ex_reserved"
proof -
  have "case reserve 2 ex_auth ex_reservation ex_swarm of Inr w \<Rightarrow> True | Inl e \<Rightarrow> False" by code_simp
  then show ?thesis by (auto simp: ex_reserved_def split: sum.splits)
qed

lemma ex_step: "swarm_step ex_swarm (ex_reserved\<lparr>sw_pending := has_work ex_reserved\<rparr>)"
  by (rule swarm_step.intros [of "MuReserve 2 ex_auth ex_reservation"])
    (use ex_reserve in \<open>auto simp: ex_reservation_def ex_swarm_def root_member_def ex_session_def new_session_def\<close>)


theorem swarm_requests_served_once_witness:
  "reserve 5 ex_auth ex_reservation ex_reserved = Inr ex_reserved \<and>
   reserve 5 ex_auth (ex_reservation\<lparr>rv_fingerprint := ''other''\<rparr>) ex_reserved = Inl RequestIdReused"
  using swarm_requests_served_once [OF ex_reserve rtranclp.rtrancl_refl, of ex_reservation 5 ex_auth]
    swarm_requests_served_once [OF ex_reserve rtranclp.rtrancl_refl, of "ex_reservation\<lparr>rv_fingerprint := ''other''\<rparr>" 5 ex_auth]
  by (auto simp: ex_reservation_def)

definition ex_ready :: swarm where
  "ex_ready = on_member ''w1'' (\<lambda>m. m\<lparr>mb_state := MReady, mb_sessionId := Some ''s2''\<rparr>) ex_reserved"

definition ex_tick :: delivery_tick where
  "ex_tick = \<lparr>tk_run = ''r9'', tk_check = 3, tk_enqueue = 3, tk_record = 4\<rparr>"

definition ex_sessions :: session_store where
  "ex_sessions =
     addParticipant 2 ''s2'' ''ann'' None False (addParticipant 2 ''s1'' ''ann'' None False
       (fst (getOrCreateByThread 2 ''s2'' (worker_ref ''s1'' ''w1'') StDm ''personal:ann'' None None
         (fst (getOrCreateByThread 1 ''s1'' ''thread'' StDm ''personal:ann'' None None (createMemorySessionStore None))))))"

definition ex_world :: swarm_world where
  "ex_world = \<lparr>wd_swarms = [(''s1'', ex_ready)], wd_runs = createMemoryRunStore None, wd_sessions = ex_sessions\<rparr>"

definition ex_message :: swarm_message where
  "ex_message = hd (sw_messages ex_ready)"

definition ex_delivered :: swarm_world where
  "ex_delivered = fst (deliver_one 1000 ex_tick ex_ready ex_message ''w1'' ex_world)"

theorem notification_dispatched_once_witness:
  "\<exists>run. getByDedupKey (wd_runs ex_delivered) ''swarm:m1:w1'' = Some run"
proof -
  have to: "member_at ex_ready ''w1'' = Some (sw_members ex_ready ! 1)" "mb_state (sw_members ex_ready ! 1) = MReady" by code_simp+
  have m: "dispatch_key (ms_id ex_message) ''w1'' = ''swarm:m1:w1''" by code_simp
  have t: "tk_check ex_tick < sw_expiresAt ex_ready" "tk_enqueue ex_tick < 1000" by code_simp+
  have "rs_inv (wd_runs ex_world)" by (simp add: ex_world_def rs_inv_create)
  moreover have "run_at (wd_runs ex_world) (tk_run ex_tick) = None" "tk_run ex_tick \<noteq> []" by code_simp+
  ultimately show ?thesis
    using notification_dispatched_once [OF _ to t, of ex_world ex_message] unfolding m ex_delivered_def by blast
qed

definition ex_env :: swarm_env where
  "ex_env = \<lparr>ev_authorize = (\<lambda>_ _ _ _. True), ev_keySig = (\<lambda>a b c d. a @ d), ev_spawnSig = si_text, ev_sendSig = mi_text,
     ev_defaults = SWARM_DEFAULTS, ev_inventory = (\<lambda>_ _. \<lparr>iv_sandboxes = [], iv_default = None, iv_providers = []\<rparr>),
     ev_defaultBackend = ''local'', ev_access = (\<lambda>_ _. Inl ''none'')\<rparr>"

definition ex_turn :: orch_input where
  "ex_turn = (dispatchRequest ex_ready ex_message (sw_members ex_ready ! 1))\<lparr>oi_runId := Some ''r9''\<rparr>"

theorem swarm_turn_is_genuine_witness:
  "\<exists>b (run :: orch_input run). binding ex_env 5 ex_delivered ex_turn = Inr (Some b) \<and> oi_runId ex_turn = Some (r_id run)"
proof -
  have "case binding ex_env 5 ex_delivered ex_turn of Inr (Some b) \<Rightarrow> True | _ \<Rightarrow> False" by code_simp
  then obtain b where b: "binding ex_env 5 ex_delivered ex_turn = Inr (Some b)" by (auto split: sum.splits option.splits)
  have "oi_swarm ex_turn = Some \<lparr>wt_swarmId = ''s1'', wt_messageId = ''m1'', wt_recipientId = ''w1''\<rparr>" by code_simp
  from swarm_turn_is_genuine [OF b this] b show ?thesis by blast
qed

theorem worker_thread_roundtrip_witness:
  "threadIdentity (worker_ref ''a:b'' ''w1'') ''s'' = Inr (''a:b'', ''w1'')"
  by (rule worker_thread_roundtrip) auto

end
