(* ===== verification/Tasks.thy ===== *)
theory Tasks
  imports Interfaces
begin

text \<open>
  The tasks of a session (\<open>src/tasks/task-store.ts\<close>, \<open>src/tasks/memory-task-store.ts\<close>): a task changes its
  status by compare and set, and every change leaves an event. \<open>localeCompare\<close>, which orders tasks of
  the same time, is an argument.
\<close>

section \<open>The store\<close>

datatype task_status = TsPending | TsInProgress | TsCompleted | TsSkipped | TsFailed

datatype task_event_type = TeCreated | TeStatusChanged

record task =
  ta_id :: string
  ta_sessionId :: string
  ta_originRunId :: string
  ta_title :: string
  ta_status :: task_status
  ta_createdAt :: time
  ta_updatedAt :: time

record task_event =
  tv_id :: string
  tv_taskId :: string
  tv_runId :: string
  tv_type :: task_event_type
  tv_fromStatus :: "task_status option"
  tv_toStatus :: task_status
  tv_createdAt :: time

record create_task_input =
  ct_id :: "string option"
  ct_sessionId :: string
  ct_originRunId :: string
  ct_title :: string
  ct_status :: "task_status option"

record task_filter =
  tf_sessionId :: "string option"
  tf_originRunId :: "string option"
  tf_statuses :: "task_status list option"

definition isOpenTask :: "task_status \<Rightarrow> bool" where
  "isOpenTask s = (s \<in> {TsPending, TsInProgress})"

record task_store =
  tt_tasks :: "(string, task) jsmap"
  tt_events :: "(string, task_event list) jsmap"
  tt_nextEventId :: nat

definition createMemoryTaskStore :: task_store where
  "createMemoryTaskStore = \<lparr>tt_tasks = [], tt_events = [], tt_nextEventId = 1\<rparr>"

definition events_of :: "task_store \<Rightarrow> string \<Rightarrow> task_event list" where
  "events_of s i = or_else (map_get (tt_events s) i) []"

definition appendEvent ::
  "string \<Rightarrow> string \<Rightarrow> task_status option \<Rightarrow> task_status \<Rightarrow> time \<Rightarrow> task_store \<Rightarrow> task_store" where
  "appendEvent taskId runId from to t s =
     s\<lparr>tt_nextEventId := tt_nextEventId s + 1,
       tt_events := map_set taskId (events_of s taskId @
         [\<lparr>tv_id = show_nat (tt_nextEventId s), tv_taskId = taskId, tv_runId = runId,
           tv_type = (if from = None then TeCreated else TeStatusChanged), tv_fromStatus = from, tv_toStatus = to,
           tv_createdAt = t\<rparr>]) (tt_events s)\<rparr>"

definition create_task :: "time \<Rightarrow> uuid \<Rightarrow> create_task_input \<Rightarrow> task_store \<Rightarrow> task_store \<times> task option" where
  "create_task now u input s =
     (let i = or_else (ct_id input) u
      in if map_get (tt_tasks s) i \<noteq> None then (s, None)
         else
           (let t = \<lparr>ta_id = i, ta_sessionId = ct_sessionId input, ta_originRunId = ct_originRunId input, ta_title = ct_title input,
                     ta_status = or_else (ct_status input) TsPending, ta_createdAt = now, ta_updatedAt = now\<rparr>
            in (appendEvent i (ct_originRunId input) None (ta_status t) now (s\<lparr>tt_tasks := map_set i t (tt_tasks s)\<rparr>), Some t)))"

definition get_task :: "task_store \<Rightarrow> string \<Rightarrow> task option" where
  "get_task s i = map_get (tt_tasks s) i"

definition matches_filter :: "task \<Rightarrow> task_filter \<Rightarrow> bool" where
  "matches_filter t f =
     ((case tf_sessionId f of None \<Rightarrow> True | Some x \<Rightarrow> ta_sessionId t = x) \<and>
      (case tf_originRunId f of None \<Rightarrow> True | Some x \<Rightarrow> ta_originRunId t = x))"

definition ordered :: "(string \<Rightarrow> string \<Rightarrow> int) \<Rightarrow> task list \<Rightarrow> task list" where
  "ordered localeCompare ts =
     js_sort (\<lambda>a b. if ta_createdAt a \<noteq> ta_createdAt b then ta_createdAt a - ta_createdAt b else localeCompare (ta_id a) (ta_id b)) ts"

definition list_tasks :: "(string \<Rightarrow> string \<Rightarrow> int) \<Rightarrow> task_filter \<Rightarrow> task_store \<Rightarrow> task list" where
  "list_tasks lc f s =
     ordered lc (filter (\<lambda>t. matches_filter t f \<and> (case tf_statuses f of None \<Rightarrow> True | Some ss \<Rightarrow> ta_status t \<in> set ss)) (map_vals (tt_tasks s)))"

definition listOpen :: "(string \<Rightarrow> string \<Rightarrow> int) \<Rightarrow> task_filter \<Rightarrow> task_store \<Rightarrow> task list" where
  "listOpen lc f s = ordered lc (filter (\<lambda>t. matches_filter t f \<and> isOpenTask (ta_status t)) (map_vals (tt_tasks s)))"

definition transitionStatus ::
  "time \<Rightarrow> string \<Rightarrow> task_status \<Rightarrow> task_status \<Rightarrow> string \<Rightarrow> task_store \<Rightarrow> task_store \<times> task option" where
  "transitionStatus now i expected next runId s =
     (case map_get (tt_tasks s) i of
        None \<Rightarrow> (s, None)
      | Some t \<Rightarrow>
          if ta_status t \<noteq> expected then (s, None)
          else
            (let t' = t\<lparr>ta_status := next, ta_updatedAt := now\<rparr>
             in (appendEvent i runId (Some expected) next now (s\<lparr>tt_tasks := map_set i t' (tt_tasks s)\<rparr>), Some t')))"

definition listEvents :: "task_store \<Rightarrow> string \<Rightarrow> task_event list" where
  "listEvents s i = events_of s i"

section \<open>The events tell the status\<close>

inductive task_step :: "task_store \<Rightarrow> task_store \<Rightarrow> bool" where
  create: "task_step s (fst (create_task now u input s))"
| move: "task_step s (fst (transitionStatus now i expected next runId s))"

text \<open>
  A history: it starts with the creation, every later event continues from the status the one before
  led to, and the ids of the events grow.
\<close>

fun chain :: "task_status option \<Rightarrow> task_event list \<Rightarrow> task_status option" where
  "chain old [] = old"
| "chain old (e # es) = (if tv_fromStatus e = old then chain (Some (tv_toStatus e)) es else None)"

definition history_ok :: "task_store \<Rightarrow> bool" where
  "history_ok s =
     (\<forall>i. case map_get (tt_tasks s) i of
            None \<Rightarrow> events_of s i = []
          | Some t \<Rightarrow> events_of s i \<noteq> [] \<and> chain None (events_of s i) = Some (ta_status t) \<and> ta_id t = i)"

lemma chain_snoc: "chain old es = Some x \<Longrightarrow> es \<noteq> [] \<Longrightarrow> tv_fromStatus e = Some x \<Longrightarrow> chain old (es @ [e]) = Some (tv_toStatus e)"
proof (induction old es rule: chain.induct)
  case (2 old d es)
  then show ?case by (cases es) (auto split: if_splits)
qed simp

lemma events_append:
  "events_of (appendEvent i r from to t s) j =
     (if j = i then events_of s i @ [\<lparr>tv_id = show_nat (tt_nextEventId s), tv_taskId = i, tv_runId = r,
         tv_type = (if from = None then TeCreated else TeStatusChanged), tv_fromStatus = from, tv_toStatus = to, tv_createdAt = t\<rparr>]
      else events_of s j)"
  by (auto simp: appendEvent_def events_of_def)

lemma tasks_append [simp]: "tt_tasks (appendEvent i r from to t s) = tt_tasks s"
  by (simp add: appendEvent_def)

lemma events_tasks [simp]: "events_of (s\<lparr>tt_tasks := m\<rparr>) j = events_of s j" "tt_nextEventId (s\<lparr>tt_tasks := m\<rparr>) = tt_nextEventId s"
  by (simp_all add: events_of_def)

lemma history_okD:
  "history_ok s \<Longrightarrow> map_get (tt_tasks s) i = None \<Longrightarrow> events_of s i = []"
  "history_ok s \<Longrightarrow> map_get (tt_tasks s) i = Some t \<Longrightarrow>
     events_of s i \<noteq> [] \<and> chain None (events_of s i) = Some (ta_status t) \<and> ta_id t = i"
  unfolding history_ok_def by (erule allE [of _ i], simp)+

lemma history_ok_create: "history_ok s \<Longrightarrow> history_ok (fst (create_task now u input s))"
proof (cases "map_get (tt_tasks s) (or_else (ct_id input) u)")
  case None
  assume ok: "history_ok s"
  show ?thesis unfolding history_ok_def
  proof
    fix j
    show "case map_get (tt_tasks (fst (create_task now u input s))) j of
        None \<Rightarrow> events_of (fst (create_task now u input s)) j = []
      | Some t \<Rightarrow> events_of (fst (create_task now u input s)) j \<noteq> [] \<and>
          chain None (events_of (fst (create_task now u input s)) j) = Some (ta_status t) \<and> ta_id t = j"
      using None history_okD [OF ok, of j] history_okD(1) [OF ok None]
      by (auto simp: create_task_def Let_def events_append split: option.splits)
  qed
qed (simp add: create_task_def)

lemma history_ok_move: "history_ok s \<Longrightarrow> history_ok (fst (transitionStatus now i expected nxt runId s))"
proof (cases "map_get (tt_tasks s) i")
  case (Some t)
  assume ok: "history_ok s"
  let ?s' = "fst (transitionStatus now i expected nxt runId s)"
  show ?thesis unfolding history_ok_def
  proof
    fix j
    show "case map_get (tt_tasks ?s') j of
        None \<Rightarrow> events_of ?s' j = []
      | Some t \<Rightarrow> events_of ?s' j \<noteq> [] \<and> chain None (events_of ?s' j) = Some (ta_status t) \<and> ta_id t = j"
      using Some history_okD [OF ok, of j] history_okD(2) [OF ok Some]
      by (auto simp: transitionStatus_def Let_def events_append chain_snoc split: option.splits)
  qed
qed (simp add: transitionStatus_def)

lemmas history_ok_ops [inv_intros] = history_ok_create history_ok_move

lemma history_ok_init: "history_ok createMemoryTaskStore"
  by (simp add: history_ok_def createMemoryTaskStore_def events_of_def)

interpretation tsk: invariant_system "\<lambda>s. s = createMemoryTaskStore" task_step history_ok
  by unfold_locales (auto simp: history_ok_init elim!: task_step.cases intro: history_ok_ops)

text \<open>
  The status of a task is what its events tell: the creation and one event for each change, each from
  the status before. A transition succeeds exactly when the task is in the expected status, so of two
  that expect the same status and change it only the first succeeds.
\<close>

theorem task_events_tell_status:
  assumes "reach (\<lambda>s. s = createMemoryTaskStore) task_step s" and "map_get (tt_tasks s) i = Some t"
  shows "chain None (listEvents s i) = Some (ta_status t) \<and>
    (snd (transitionStatus now i expected next runId s) \<noteq> None \<longleftrightarrow> ta_status t = expected) \<and>
    (next \<noteq> expected \<longrightarrow>
      snd (transitionStatus now' i expected next' runId' (fst (transitionStatus now i expected next runId s))) = None)"
proof -
  have "history_ok s" by (rule tsk.reach_inv [OF assms(1)])
  then have "chain None (listEvents s i) = Some (ta_status t)" using history_okD(2) assms(2) by (simp add: listEvents_def)
  then show ?thesis using assms(2) by (auto simp: transitionStatus_def Let_def)
qed

definition ex_task_input :: create_task_input where
  "ex_task_input = \<lparr>ct_id = Some ''t1'', ct_sessionId = ''s'', ct_originRunId = ''r'', ct_title = ''T'', ct_status = None\<rparr>"

definition ex_tasks :: task_store where
  "ex_tasks = fst (create_task 1 ''u'' ex_task_input createMemoryTaskStore)"

theorem task_events_tell_status_witness:
  "chain None (listEvents ex_tasks ''t1'') = Some TsPending"
proof -
  have r: "reach (\<lambda>s. s = createMemoryTaskStore) task_step ex_tasks"
    unfolding ex_tasks_def by (rule reach.reach_step, rule reach.reach_init, rule refl, rule task_step.create)
  have "map_get (tt_tasks ex_tasks) ''t1'' = Some \<lparr>ta_id = ''t1'', ta_sessionId = ''s'', ta_originRunId = ''r'', ta_title = ''T'',
     ta_status = TsPending, ta_createdAt = 1, ta_updatedAt = 1\<rparr>" by code_simp
  from task_events_tell_status [OF r this] show ?thesis by simp
qed

end
