(* ===== verification/Rate_Limits.thy ===== *)
theory Rate_Limits
  imports Interfaces
begin

text \<open>
  The limit on how often a principal may do something, in memory and on Postgres
  (\<open>src/ratelimit/rate-limiter.ts\<close>, \<open>src/ratelimit/postgres-rate-limiter.ts\<close>). The upsert of the
  Postgres limiter is one atomic statement on the row of the principal and is written out as such.
  Shown: the two decide alike, no stretch of a window's length lets more than twice the maximum
  through, and a refusal names the time to wait exactly.
\<close>

section \<open>Rate limiter\<close>

record rate_decision =
  rd_allowed :: bool
  rd_retryAfterMs :: "int option"

record rate_limiter_options =
  ro_maxPerWindow :: int
  ro_windowMs :: int

record rate_window =
  rw_windowStart :: time
  rw_count :: int

type_synonym rate_state = "(string, rate_window) jsmap"

definition rate_check :: "rate_limiter_options \<Rightarrow> time \<Rightarrow> string \<Rightarrow> rate_state \<Rightarrow> rate_state \<times> rate_decision" where
  "rate_check opts t p m =
     (case map_get m p of
        None \<Rightarrow> (map_set p \<lparr>rw_windowStart = t, rw_count = 1\<rparr> m, \<lparr>rd_allowed = True, rd_retryAfterMs = None\<rparr>)
      | Some s \<Rightarrow>
          if ro_windowMs opts \<le> t - rw_windowStart s
          then (map_set p \<lparr>rw_windowStart = t, rw_count = 1\<rparr> m, \<lparr>rd_allowed = True, rd_retryAfterMs = None\<rparr>)
          else if ro_maxPerWindow opts \<le> rw_count s
          then (m, \<lparr>rd_allowed = False, rd_retryAfterMs = Some (ro_windowMs opts - (t - rw_windowStart s))\<rparr>)
          else (map_set p (s\<lparr>rw_count := rw_count s + 1\<rparr>) m, \<lparr>rd_allowed = True, rd_retryAfterMs = None\<rparr>))"

text \<open>
  The Postgres limiter: the upsert gives the row after it, and the decision is read off that row.
\<close>

definition pg_rate_upsert :: "rate_limiter_options \<Rightarrow> time \<Rightarrow> rate_window option \<Rightarrow> rate_window" where
  "pg_rate_upsert opts t row =
     (case row of
        None \<Rightarrow> \<lparr>rw_windowStart = t, rw_count = 1\<rparr>
      | Some r \<Rightarrow>
          \<lparr>rw_windowStart = (if ro_windowMs opts \<le> t - rw_windowStart r then t else rw_windowStart r),
           rw_count = (if ro_windowMs opts \<le> t - rw_windowStart r then 1 else rw_count r + 1)\<rparr>)"

definition pg_rate_check :: "rate_limiter_options \<Rightarrow> time \<Rightarrow> string \<Rightarrow> rate_state \<Rightarrow> rate_state \<times> rate_decision" where
  "pg_rate_check opts t p rows =
     (let row = pg_rate_upsert opts t (map_get rows p)
      in (map_set p row rows,
          if rw_count row \<le> ro_maxPerWindow opts then \<lparr>rd_allowed = True, rd_retryAfterMs = None\<rparr>
          else \<lparr>rd_allowed = False, rd_retryAfterMs = Some (max 0 (ro_windowMs opts - (t - rw_windowStart row)))\<rparr>))"

text \<open>The decisions of a sequence of checks, of either limiter.\<close>

fun decisions :: "(time \<Rightarrow> string \<Rightarrow> 's \<Rightarrow> 's \<times> 'd) \<Rightarrow> (time \<times> string) list \<Rightarrow> 's \<Rightarrow> 'd list" where
  "decisions chk [] m = []"
| "decisions chk ((t, p) # cs) m = (let (m', d) = chk t p m in d # decisions chk cs m')"

subsection \<open>The two limiters agree\<close>

text \<open>
  The Postgres limiter goes on counting what it refuses, the memory one stops at the maximum.
\<close>

definition rate_sim :: "rate_limiter_options \<Rightarrow> rate_state \<Rightarrow> rate_state \<Rightarrow> bool" where
  "rate_sim opts m rows =
     (\<forall>p. rel_option (\<lambda>a b. rw_windowStart a = rw_windowStart b \<and> rw_count a = min (rw_count b) (ro_maxPerWindow opts))
            (map_get m p) (map_get rows p))"

lemma rate_sim_step:
  assumes sim: "rate_sim opts m rows" and m: "1 \<le> ro_maxPerWindow opts"
  shows "rate_sim opts (fst (rate_check opts t p m)) (fst (pg_rate_check opts t p rows)) \<and>
    snd (rate_check opts t p m) = snd (pg_rate_check opts t p rows)"
proof -
  have at: "rel_option (\<lambda>a b. rw_windowStart a = rw_windowStart b \<and> rw_count a = min (rw_count b) (ro_maxPerWindow opts))
      (map_get m q) (map_get rows q)" for q
    using sim by (simp add: rate_sim_def)
  show ?thesis
  proof (cases "map_get rows p")
    case None
    then have "map_get m p = None" using at [of p] by simp
    with None show ?thesis using at m
      by (auto simp: rate_check_def pg_rate_check_def pg_rate_upsert_def rate_sim_def Let_def)
  next
    case (Some b)
    with at [of p] obtain a where a: "map_get m p = Some a" "rw_windowStart a = rw_windowStart b"
        "rw_count a = min (rw_count b) (ro_maxPerWindow opts)"
      by (auto simp: option_rel_Some2)
    with Some show ?thesis using at m
      by (auto simp: rate_check_def pg_rate_check_def pg_rate_upsert_def rate_sim_def Let_def)
  qed
qed

lemma rate_sim_decisions:
  "rate_sim opts m rows \<Longrightarrow> 1 \<le> ro_maxPerWindow opts \<Longrightarrow>
   decisions (rate_check opts) cs m = decisions (pg_rate_check opts) cs rows"
proof (induction cs arbitrary: m rows)
  case (Cons c cs)
  obtain t p where c: "c = (t, p)" by fastforce
  from rate_sim_step [OF Cons.prems, of t p] Cons.IH Cons.prems(2) show ?case
    by (auto simp: c Let_def split_beta)
qed simp

text \<open>
  The memory limiter and the Postgres limiter give the same decisions to every sequence of checks
  exactly when the maximum is at least one: with a maximum of zero the memory limiter still lets the
  first check of every window through.
\<close>

theorem limiters_agree:
  "(\<forall>cs. decisions (rate_check opts) cs [] = decisions (pg_rate_check opts) cs []) \<longleftrightarrow> 1 \<le> ro_maxPerWindow opts"
proof
  assume "\<forall>cs. decisions (rate_check opts) cs [] = decisions (pg_rate_check opts) cs []"
  then have "decisions (rate_check opts) [(0, [])] [] = decisions (pg_rate_check opts) [(0, [])] []" by blast
  then show "1 \<le> ro_maxPerWindow opts"
    by (simp add: rate_check_def pg_rate_check_def pg_rate_upsert_def Let_def split: if_splits)
next
  assume "1 \<le> ro_maxPerWindow opts"
  then show "\<forall>cs. decisions (rate_check opts) cs [] = decisions (pg_rate_check opts) cs []"
    by (intro allI rate_sim_decisions) (simp_all add: rate_sim_def)
qed

subsection \<open>How much gets through\<close>

text \<open>
  The checks of a principal that are let through, each with the start of the window it was counted in.
\<close>

fun let_through :: "rate_limiter_options \<Rightarrow> string \<Rightarrow> (time \<times> string) list \<Rightarrow> rate_state \<Rightarrow> (time \<times> time) list" where
  "let_through opts p [] m = []"
| "let_through opts p ((t, q) # cs) m =
     (let (m', d) = rate_check opts t q m
      in (if q = p \<and> rd_allowed d then [(case map_get m' p of Some s \<Rightarrow> rw_windowStart s | None \<Rightarrow> t, t)] else [])
         @ let_through opts p cs m')"

definition allowed_times :: "rate_limiter_options \<Rightarrow> string \<Rightarrow> (time \<times> string) list \<Rightarrow> rate_state \<Rightarrow> time list" where
  "allowed_times opts p cs m = map snd (let_through opts p cs m)"

lemma rate_check_other: "q \<noteq> p \<Longrightarrow> map_get (fst (rate_check opts t q m)) p = map_get m p"
  by (auto simp: rate_check_def split: option.splits)

text \<open>
  What may still get through after a state: nothing before the current window and nothing closer to
  its start than a window but in it; at most what the window has left in it and the maximum in any other.
\<close>

definition windows_ok :: "rate_limiter_options \<Rightarrow> rate_window option \<Rightarrow> (time \<times> time) list \<Rightarrow> bool" where
  "windows_ok opts cur xs =
     ((\<forall>(w, t) \<in> set xs. w \<le> t \<and> t < w + ro_windowMs opts) \<and>
      (\<forall>(w, t) \<in> set xs. case cur of None \<Rightarrow> True | Some s \<Rightarrow> w = rw_windowStart s \<or> rw_windowStart s + ro_windowMs opts \<le> w) \<and>
      (\<forall>(w, t) \<in> set xs. \<forall>(w', t') \<in> set xs. w = w' \<or> w + ro_windowMs opts \<le> w' \<or> w' + ro_windowMs opts \<le> w) \<and>
      (\<forall>w. int (length (filter (\<lambda>x. fst x = w) xs)) \<le>
         (case cur of Some s \<Rightarrow> if w = rw_windowStart s then ro_maxPerWindow opts - rw_count s else ro_maxPerWindow opts
          | None \<Rightarrow> ro_maxPerWindow opts)))"

lemma windows_okD:
  "windows_ok opts cur xs \<Longrightarrow> (w, t) \<in> set xs \<Longrightarrow> w \<le> t \<and> t < w + ro_windowMs opts"
  "windows_ok opts cur xs \<Longrightarrow> (w, t) \<in> set xs \<Longrightarrow> (w', t') \<in> set xs \<Longrightarrow> w = w' \<or> w + ro_windowMs opts \<le> w' \<or> w' + ro_windowMs opts \<le> w"
  "windows_ok opts (Some s) xs \<Longrightarrow> (w, t) \<in> set xs \<Longrightarrow> w = rw_windowStart s \<or> rw_windowStart s + ro_windowMs opts \<le> w"
  "windows_ok opts (Some s) xs \<Longrightarrow>
     int (length (filter (\<lambda>x. fst x = w) xs)) \<le> (if w = rw_windowStart s then ro_maxPerWindow opts - rw_count s else ro_maxPerWindow opts)"
  unfolding windows_ok_def by fastforce+

lemma windows_okI:
  assumes "\<And>v u. (v, u) \<in> set xs \<Longrightarrow> v \<le> u \<and> u < v + ro_windowMs opts"
    and "\<And>v u s. (v, u) \<in> set xs \<Longrightarrow> cur = Some s \<Longrightarrow> v = rw_windowStart s \<or> rw_windowStart s + ro_windowMs opts \<le> v"
    and "\<And>v u v' u'. (v, u) \<in> set xs \<Longrightarrow> (v', u') \<in> set xs \<Longrightarrow> v = v' \<or> v + ro_windowMs opts \<le> v' \<or> v' + ro_windowMs opts \<le> v"
    and "\<And>v. int (length (filter (\<lambda>x. fst x = v) xs)) \<le>
         (case cur of Some s \<Rightarrow> if v = rw_windowStart s then ro_maxPerWindow opts - rw_count s else ro_maxPerWindow opts
          | None \<Rightarrow> ro_maxPerWindow opts)"
  shows "windows_ok opts cur xs"
  unfolding windows_ok_def
proof (intro conjI ballI allI, goal_cases)
  case (1 x) then show ?case using assms(1) by (cases x) auto
next
  case (2 x) then show ?case using assms(2) [of "fst x" "snd x"] by (cases cur) (auto simp: split_beta)
next
  case (3 x)
  have "fst x = fst y \<or> fst x + ro_windowMs opts \<le> fst y \<or> fst y + ro_windowMs opts \<le> fst x" if "y \<in> set xs" for y
    using assms(3) [of "fst x" "snd x" "fst y" "snd y"] 3 that by simp
  then show ?case by (simp add: split_beta)
next
  case (4 w) then show ?case by (rule assms(4))
qed

lemma windows_ok_new:
  assumes ok: "windows_ok opts (Some \<lparr>rw_windowStart = t, rw_count = 1\<rparr>) xs"
    and cur: "\<And>s. cur = Some s \<Longrightarrow> rw_windowStart s + ro_windowMs opts \<le> t \<and> rw_count s \<le> ro_maxPerWindow opts"
    and w: "0 < ro_windowMs opts"
  shows "windows_ok opts cur ((t, t) # xs)"
proof -
  note d = windows_okD [OF ok, simplified]
  have 1: "v \<le> u \<and> u < v + ro_windowMs opts" if "(v, u) \<in> set ((t, t) # xs)" for v u
    using that d(1) w by auto
  have 2: "v = rw_windowStart s \<or> rw_windowStart s + ro_windowMs opts \<le> v"
    if "(v, u) \<in> set ((t, t) # xs)" "cur = Some s" for v u s
    using that d(3) [of v u] cur [of s] w by auto
  have 3: "v = v' \<or> v + ro_windowMs opts \<le> v' \<or> v' + ro_windowMs opts \<le> v"
    if "(v, u) \<in> set ((t, t) # xs)" "(v', u') \<in> set ((t, t) # xs)" for v u v' u'
    using that d(2) [of v u v' u'] d(3) [of v u] d(3) [of v' u'] by auto
  have 4: "int (length (filter (\<lambda>x. fst x = v) ((t, t) # xs))) \<le>
      (case cur of Some s \<Rightarrow> if v = rw_windowStart s then ro_maxPerWindow opts - rw_count s else ro_maxPerWindow opts
       | None \<Rightarrow> ro_maxPerWindow opts)" for v
  proof (cases "cur")
    case None
    then show ?thesis using d(4) [of v] by auto
  next
    case (Some s)
    have "filter (\<lambda>x. fst x = rw_windowStart s) xs = []"
      using d(3) cur [OF Some] w by (fastforce simp: filter_empty_conv)
    then show ?thesis using d(4) [of v] cur [OF Some] w Some by (auto split: if_splits)
  qed
  show ?thesis using 1 2 3 4 by (rule windows_okI)
qed

lemma windows_ok_same:
  assumes ok: "windows_ok opts (Some (s\<lparr>rw_count := rw_count s + 1\<rparr>)) xs"
    and t: "rw_windowStart s \<le> t" "t < rw_windowStart s + ro_windowMs opts"
  shows "windows_ok opts (Some s) ((rw_windowStart s, t) # xs)"
proof -
  let ?t = "(rw_windowStart s, t)"
  note d = windows_okD [OF ok, simplified]
  have 1: "v \<le> u \<and> u < v + ro_windowMs opts" if "(v, u) \<in> set (?t # xs)" for v u
    using that d(1) t by auto
  have 2: "v = rw_windowStart s \<or> rw_windowStart s + ro_windowMs opts \<le> v" if "(v, u) \<in> set (?t # xs)" for v u
    using that d(3) [of v u] by auto
  have 3: "v = v' \<or> v + ro_windowMs opts \<le> v' \<or> v' + ro_windowMs opts \<le> v"
    if "(v, u) \<in> set (?t # xs)" "(v', u') \<in> set (?t # xs)" for v u v' u'
    using that d(2) [of v u v' u'] d(3) [of v u] d(3) [of v' u'] by auto
  have 4: "int (length (filter (\<lambda>x. fst x = v) (?t # xs))) \<le>
      (if v = rw_windowStart s then ro_maxPerWindow opts - rw_count s else ro_maxPerWindow opts)" for v
    using d(4) [of v] by (auto split: if_splits)
  show ?thesis
  proof (rule windows_okI)
    fix v u r assume "(v, u) \<in> set (?t # xs)" "Some s = Some r"
    then show "v = rw_windowStart r \<or> rw_windowStart r + ro_windowMs opts \<le> v" using 2 [of v u] by simp
  qed (use 1 3 4 in \<open>assumption | simp only: option.case\<close>)+
qed

definition counts_ok :: "rate_limiter_options \<Rightarrow> rate_state \<Rightarrow> bool" where
  "counts_ok opts m = (\<forall>p s. map_get m p = Some s \<longrightarrow> rw_count s \<le> ro_maxPerWindow opts)"

lemma counts_ok_check [inv_intros]:
  "counts_ok opts m \<Longrightarrow> 1 \<le> ro_maxPerWindow opts \<Longrightarrow> counts_ok opts (fst (rate_check opts t p m))"
  by (auto simp: counts_ok_def rate_check_def split: option.splits)

lemma windows_ok_let_through:
  assumes "counts_ok opts m" "1 \<le> ro_maxPerWindow opts" "0 < ro_windowMs opts" "sorted (map fst cs)"
    "\<And>s c. map_get m p = Some s \<Longrightarrow> c \<in> set cs \<Longrightarrow> rw_windowStart s \<le> fst c"
  shows "windows_ok opts (map_get m p) (let_through opts p cs m)"
  using assms
proof (induction cs arbitrary: m)
  case Nil
  then show ?case by (auto simp: windows_ok_def counts_ok_def split: option.splits)
next
  case (Cons c cs)
  obtain t q where c: "c = (t, q)" by fastforce
  define m' where "m' = fst (rate_check opts t q m)"
  have le: "\<And>c. c \<in> set cs \<Longrightarrow> t \<le> fst c" using Cons.prems(4) by (simp add: c)
  have start: "rw_windowStart s \<le> fst c'" if "map_get m' p = Some s" "c' \<in> set cs" for s c'
    using that Cons.prems(5) [of _ c'] le [of c']
    by (auto simp: m'_def rate_check_def split: option.splits if_splits)
  have ok: "windows_ok opts (map_get m' p) (let_through opts p cs m')"
    using Cons.prems(1-4) start by (intro Cons.IH) (auto simp: m'_def c intro: counts_ok_check)
  have m: "counts_ok opts m" by (rule Cons.prems(1))
  show ?case
  proof (cases "q = p")
    case False
    then show ?thesis using ok rate_check_other [OF False] by (simp add: c m'_def split_beta Let_def)
  next
    case True
    show ?thesis
    proof (cases "map_get m p")
      case None
      then show ?thesis using ok True Cons.prems(3)
        by (auto simp: c m'_def rate_check_def intro: windows_ok_new)
    next
      case (Some s)
      have s: "rw_count s \<le> ro_maxPerWindow opts" "rw_windowStart s \<le> t"
        using m Some Cons.prems(5) [OF Some, of c] by (auto simp: counts_ok_def c)
      show ?thesis using ok True Some s Cons.prems(3)
        by (auto simp: c m'_def rate_check_def intro!: windows_ok_new windows_ok_same)
    qed
  qed
qed

lemma length_filter_two:
  "length (filter P xs) \<le> length (filter Q xs) + length (filter R xs)" if "\<And>x. x \<in> set xs \<Longrightarrow> P x \<Longrightarrow> Q x \<or> R x"
  using that by (induction xs) (fastforce simp: le_Suc_eq)+


text \<open>
  Of the checks of one principal, made at non-decreasing times, no more than twice the maximum get
  through in any stretch of time as long as a window.
\<close>

theorem rate_limit_bound:
  assumes "1 \<le> ro_maxPerWindow opts" "0 < ro_windowMs opts" "sorted (map fst cs)"
  shows "int (length (filter (\<lambda>t. a \<le> t \<and> t < a + ro_windowMs opts) (allowed_times opts p cs []))) \<le> 2 * ro_maxPerWindow opts"
proof -
  let ?w = "ro_windowMs opts" and ?xs = "let_through opts p cs []"
  have ok: "windows_ok opts None ?xs"
    using windows_ok_let_through [of opts "[]" cs p] assms by (simp add: counts_ok_def)
  have n: "int (length (filter (\<lambda>x. fst x = v) ?xs)) \<le> ro_maxPerWindow opts" for v
    using ok by (simp add: windows_ok_def)
  have in_one: "int (length (filter (\<lambda>x. l \<le> fst x \<and> fst x < l + ?w) ?xs)) \<le> ro_maxPerWindow opts" for l
  proof (cases "filter (\<lambda>x. l \<le> fst x \<and> fst x < l + ?w) ?xs")
    case Nil
    then show ?thesis using assms(1) by simp
  next
    case (Cons y ys)
    then have "y \<in> set (filter (\<lambda>x. l \<le> fst x \<and> fst x < l + ?w) ?xs)" by simp
    then have y: "y \<in> set ?xs" "l \<le> fst y" "fst y < l + ?w" by auto
    have "filter (\<lambda>x. l \<le> fst x \<and> fst x < l + ?w) ?xs = filter (\<lambda>x. fst x = fst y) ?xs"
    proof (rule filter_cong [OF refl])
      fix x assume "x \<in> set ?xs"
      then show "(l \<le> fst x \<and> fst x < l + ?w) = (fst x = fst y)"
        using windows_okD(2) [OF ok, of "fst x" "snd x" "fst y" "snd y"] y by auto
    qed
    then show ?thesis using n by simp
  qed
  have "length (filter (\<lambda>t. a \<le> t \<and> t < a + ?w) (allowed_times opts p cs []))
      = length (filter (\<lambda>x. a \<le> snd x \<and> snd x < a + ?w) ?xs)"
    by (simp add: allowed_times_def filter_map comp_def)
  also have "\<dots> \<le> length (filter (\<lambda>x. a - ?w < fst x \<and> fst x \<le> a) ?xs) + length (filter (\<lambda>x. a < fst x \<and> fst x < a + ?w) ?xs)"
    by (rule length_filter_two) (use windows_okD(1) [OF ok] in fastforce)
  also have "\<dots> = length (filter (\<lambda>x. a - ?w + 1 \<le> fst x \<and> fst x < a - ?w + 1 + ?w) ?xs) + length (filter (\<lambda>x. a < fst x \<and> fst x < a + ?w) ?xs)"
    by (intro arg_cong2 [where f = "(+)"] arg_cong [where f = length] filter_cong) auto
  also have "\<dots> \<le> length (filter (\<lambda>x. a - ?w + 1 \<le> fst x \<and> fst x < a - ?w + 1 + ?w) ?xs) + length (filter (\<lambda>x. a \<le> fst x \<and> fst x < a + ?w) ?xs)"
    using length_filter_two [of ?xs "\<lambda>x. a < fst x \<and> fst x < a + ?w" "\<lambda>x. a \<le> fst x \<and> fst x < a + ?w" "\<lambda>_. False"] by simp
  finally show ?thesis using in_one [of "a - ?w + 1"] in_one [of a] by linarith
qed

definition ex_limit :: rate_limiter_options where
  "ex_limit = \<lparr>ro_maxPerWindow = 1, ro_windowMs = 10\<rparr>"

theorem rate_limit_bound_witness:
  "int (length (filter (\<lambda>t. 9 \<le> t \<and> t < 9 + ro_windowMs ex_limit)
     (allowed_times ex_limit ''p'' [(0, ''p''), (9, ''p''), (10, ''p''), (12, ''q''), (20, ''p'')] []))) \<le> 2 * ro_maxPerWindow ex_limit"
  by (rule rate_limit_bound) (simp_all add: ex_limit_def)

text \<open>
  A refusal names the time to wait exactly: the principal is refused until then, whatever else is
  checked, and let through from then on.
\<close>

theorem retry_after_exact:
  assumes "snd (rate_check opts t p m) = \<lparr>rd_allowed = False, rd_retryAfterMs = Some r\<rparr>" "t \<le> t'"
    and other: "\<And>c. c \<in> set cs \<Longrightarrow> fst c < t + r"
  shows "0 < r \<and> (rd_allowed (snd (rate_check opts t' p (fold (\<lambda>(u, q) m. fst (rate_check opts u q m)) cs m))) \<longleftrightarrow> t + r \<le> t')"
proof -
  from assms(1) obtain s where s: "map_get m p = Some s" "t - rw_windowStart s < ro_windowMs opts"
      "ro_maxPerWindow opts \<le> rw_count s" "r = ro_windowMs opts - (t - rw_windowStart s)"
    by (auto simp: rate_check_def split: option.splits if_splits)
  have "map_get (fold (\<lambda>(u, q) m. fst (rate_check opts u q m)) cs m) p = Some s"
    using other s(1)
  proof (induction cs arbitrary: m)
    case (Cons c cs)
    obtain u q where c: "c = (u, q)" by fastforce
    have "map_get (fst (rate_check opts u q m)) p = Some s"
      using Cons.prems(1) [of c] Cons.prems(2) s(2-4) rate_check_other [of q p opts u m]
      by (cases "q = p") (auto simp: c rate_check_def)
    with Cons show ?case by (simp add: c)
  qed simp
  then show ?thesis using s by (auto simp: rate_check_def)
qed

theorem retry_after_exact_witness:
  "0 < (7::int) \<and> (rd_allowed (snd (rate_check ex_limit 10 ''p''
     (fold (\<lambda>(u, q) m. fst (rate_check ex_limit u q m)) [(5, ''p'')] [(''p'', \<lparr>rw_windowStart = 0, rw_count = 1\<rparr>)]))) \<longleftrightarrow> 3 + 7 \<le> (10::int))"
  by (rule retry_after_exact [of ex_limit 3]) (simp_all add: ex_limit_def rate_check_def)

end
