(* ===== verification/Budget.thy ===== *)
theory Budget
  imports Interfaces
begin

text \<open>
  The budget of money of a principal and of the organisation (\<open>src/ratelimit/budget.ts\<close>) and the
  guard against replayed events (\<open>src/auth/replay-dedupe.ts\<close>, the memory one). Amounts of money are
  of any ordered type with an addition: nothing is assumed of the addition, so it covers that of
  floating point numbers. An absent limit is the source's \<open>Infinity\<close>.
\<close>

section \<open>Budget\<close>

record 'u spend_entry =
  se_at :: time
  se_usd :: 'u

record 'u budget_check_result =
  bc_allowed :: bool
  bc_spentUsd :: 'u
  bc_limitUsd :: "'u option"

record 'u budget_options =
  bo_limitUsd :: "'u option"
  bo_orgLimitUsd :: "'u option"
  bo_windowMs :: "int option"

type_synonym 'u spending = "(string, 'u spend_entry list) jsmap"

definition DEFAULT_BUDGET_WINDOW_MS :: int where
  "DEFAULT_BUDGET_WINDOW_MS = 86400000"

definition orgKey :: string where
  "orgKey = ''@org''"

definition budget_window :: "'u budget_options \<Rightarrow> int" where
  "budget_window opts = or_else (bo_windowMs opts) DEFAULT_BUDGET_WINDOW_MS"

text \<open>\<open>a >= limit\<close> and \<open>a < limit\<close> for a limit that may be infinite.\<close>

definition reaches_limit :: "'u::linorder \<Rightarrow> 'u option \<Rightarrow> bool" where
  "reaches_limit a limit = (case limit of None \<Rightarrow> False | Some l \<Rightarrow> l \<le> a)"

definition kept_entries :: "int \<Rightarrow> time \<Rightarrow> 'u spend_entry list \<Rightarrow> 'u spend_entry list" where
  "kept_entries windowMs now es = filter (\<lambda>e. now - windowMs \<le> se_at e) es"

definition sum_usd :: "'u::{zero,plus} spend_entry list \<Rightarrow> 'u" where
  "sum_usd es = foldl (\<lambda>s e. s + se_usd e) 0 es"

definition spentIn :: "int \<Rightarrow> string \<Rightarrow> time \<Rightarrow> 'u::{zero,plus} spending \<Rightarrow> 'u spending \<times> 'u" where
  "spentIn windowMs p now m =
     (let kept = kept_entries windowMs now (or_else (map_get m p) [])
      in (map_set p kept m, sum_usd kept))"

definition budget_check :: "'u::{zero,plus,linorder} budget_options \<Rightarrow> string \<Rightarrow> time \<Rightarrow> 'u spending \<Rightarrow> 'u spending \<times> 'u budget_check_result" where
  "budget_check opts p now m =
     (let (m1, spentUsd) = spentIn (budget_window opts) p now m
      in if reaches_limit spentUsd (bo_limitUsd opts)
         then (m1, \<lparr>bc_allowed = False, bc_spentUsd = spentUsd, bc_limitUsd = bo_limitUsd opts\<rparr>)
         else
           (let (m2, orgSpent) = spentIn (budget_window opts) orgKey now m1
            in (m2, \<lparr>bc_allowed = (\<not> reaches_limit orgSpent (bo_orgLimitUsd opts)), bc_spentUsd = orgSpent, bc_limitUsd = bo_orgLimitUsd opts\<rparr>)))"

definition push_spend :: "string \<Rightarrow> 'u spend_entry \<Rightarrow> 'u spending \<Rightarrow> 'u spending" where
  "push_spend key e m = map_set key (or_else (map_get m key) [] @ [e]) m"

definition budget_record :: "string \<Rightarrow> 'u \<Rightarrow> time \<Rightarrow> 'u spending \<Rightarrow> 'u spending" where
  "budget_record p costUsd now m =
     fold (\<lambda>key m. push_spend key \<lparr>se_at = now, se_usd = costUsd\<rparr> m) [p, orgKey] m"

subsection \<open>Pruning does not show\<close>

text \<open>
  The reference: a ledger that keeps every entry and is asked what the window holds.
\<close>

datatype 'u budget_call = BCheck string time | BRecord string 'u time

fun call_time :: "'u budget_call \<Rightarrow> time" where
  "call_time (BCheck p t) = t"
| "call_time (BRecord p u t) = t"

definition ledger_spent :: "int \<Rightarrow> string \<Rightarrow> time \<Rightarrow> 'u::{zero,plus} spending \<Rightarrow> 'u" where
  "ledger_spent windowMs p now m = sum_usd (kept_entries windowMs now (or_else (map_get m p) []))"

definition ledger_check :: "'u::{zero,plus,linorder} budget_options \<Rightarrow> string \<Rightarrow> time \<Rightarrow> 'u spending \<Rightarrow> 'u budget_check_result" where
  "ledger_check opts p now m =
     (let mine = ledger_spent (budget_window opts) p now m; all = ledger_spent (budget_window opts) orgKey now m
      in if reaches_limit mine (bo_limitUsd opts)
         then \<lparr>bc_allowed = False, bc_spentUsd = mine, bc_limitUsd = bo_limitUsd opts\<rparr>
         else \<lparr>bc_allowed = (\<not> reaches_limit all (bo_orgLimitUsd opts)), bc_spentUsd = all, bc_limitUsd = bo_orgLimitUsd opts\<rparr>)"

fun tracker_answers :: "'u::{zero,plus,linorder} budget_options \<Rightarrow> 'u budget_call list \<Rightarrow> 'u spending \<Rightarrow> 'u budget_check_result list" where
  "tracker_answers opts [] m = []"
| "tracker_answers opts (BCheck p t # cs) m = (let (m', d) = budget_check opts p t m in d # tracker_answers opts cs m')"
| "tracker_answers opts (BRecord p u t # cs) m = tracker_answers opts cs (budget_record p u t m)"

fun ledger_answers :: "'u::{zero,plus,linorder} budget_options \<Rightarrow> 'u budget_call list \<Rightarrow> 'u spending \<Rightarrow> 'u budget_check_result list" where
  "ledger_answers opts [] m = []"
| "ledger_answers opts (BCheck p t # cs) m = ledger_check opts p t m # ledger_answers opts cs m"
| "ledger_answers opts (BRecord p u t # cs) m = ledger_answers opts cs (budget_record p u t m)"

text \<open>Two ledgers that answer alike from a time on.\<close>

definition same_from :: "int \<Rightarrow> time \<Rightarrow> 'u spending \<Rightarrow> 'u spending \<Rightarrow> bool" where
  "same_from w t m l =
     (\<forall>p u. t \<le> u \<longrightarrow> kept_entries w u (or_else (map_get m p) []) = kept_entries w u (or_else (map_get l p) []))"

lemma kept_kept: "t \<le> u \<Longrightarrow> kept_entries w u (kept_entries w t es) = kept_entries w u es"
  by (auto simp: kept_entries_def intro: filter_cong)

lemma kept_append: "kept_entries w u (xs @ ys) = kept_entries w u xs @ kept_entries w u ys"
  by (simp add: kept_entries_def)

lemma same_from_later: "same_from w t m l \<Longrightarrow> t \<le> t' \<Longrightarrow> same_from w t' m l"
  by (simp add: same_from_def)

lemma same_from_spentIn: "same_from w t m l \<Longrightarrow> same_from w t (fst (spentIn w p t m)) l"
  by (auto simp: same_from_def spentIn_def Let_def kept_kept)

lemma same_from_push: "same_from w t m l \<Longrightarrow> same_from w t (push_spend k e m) (push_spend k e l)"
  by (auto simp: same_from_def push_spend_def kept_append)

lemma same_from_record: "same_from w t m l \<Longrightarrow> same_from w t (budget_record p c u m) (budget_record p c u l)"
  by (simp add: budget_record_def same_from_push)

lemma spent_same: "same_from w t m l \<Longrightarrow> snd (spentIn w p t m) = ledger_spent w p t l"
  by (simp add: same_from_def spentIn_def ledger_spent_def Let_def)

lemma same_from_check:
  assumes "same_from (budget_window opts) t m l"
  shows "same_from (budget_window opts) t (fst (budget_check opts p t m)) l \<and> snd (budget_check opts p t m) = ledger_check opts p t l"
  using spent_same [OF assms, of p] same_from_spentIn [OF assms, of p]
    spent_same [OF same_from_spentIn [OF assms, of p], of orgKey] same_from_spentIn [OF same_from_spentIn [OF assms, of p], of orgKey]
  by (simp add: budget_check_def ledger_check_def split_beta Let_def)

lemma answers_same:
  "same_from (budget_window opts) t m l \<Longrightarrow> sorted (t # map call_time cs) \<Longrightarrow> tracker_answers opts cs m = ledger_answers opts cs l"
proof (induction opts cs m arbitrary: l t rule: tracker_answers.induct)
  case (2 opts p u cs m)
  have s: "same_from (budget_window opts) u m l" using 2(2,3) by (auto intro: same_from_later)
  obtain m' d where c: "budget_check opts p u m = (m', d)" by fastforce
  have "tracker_answers opts cs m' = ledger_answers opts cs l"
    by (rule 2(1) [OF c [symmetric] refl, of u]) (use same_from_check [OF s, of p] c 2(3) in auto)
  then show ?case using same_from_check [OF s, of p] c by simp
next
  case (3 opts p c u cs m)
  then show ?case by (auto intro: same_from_record)
qed simp

text \<open>
  Although every check throws entries away, the tracker answers every sequence of checks and records
  at non-decreasing times as the ledger does that keeps them all: with the exact spending of the
  last window, of the principal first and then of the organisation.
\<close>

theorem budget_is_window_sum:
  assumes "sorted (map call_time cs)"
  shows "tracker_answers opts cs [] = ledger_answers opts cs []"
proof (cases cs)
  case (Cons c ds)
  have "sorted (call_time c # map call_time cs)" using assms by (simp add: Cons)
  then show ?thesis by (rule answers_same [rotated]) (simp add: same_from_def)
qed simp

theorem budget_is_window_sum_witness:
  "tracker_answers \<lparr>bo_limitUsd = Some (5::int), bo_orgLimitUsd = None, bo_windowMs = Some 10\<rparr>
     [BRecord ''a'' 5 0, BCheck ''a'' 10, BCheck ''a'' 11] []
   = ledger_answers \<lparr>bo_limitUsd = Some (5::int), bo_orgLimitUsd = None, bo_windowMs = Some 10\<rparr>
     [BRecord ''a'' 5 0, BCheck ''a'' 10, BCheck ''a'' 11] []"
  by (rule budget_is_window_sum) simp

section \<open>Replayed events\<close>

definition REPLAY_PRUNE_INTERVAL_MS :: int where
  "REPLAY_PRUNE_INTERVAL_MS = 60000"

record replay_dedupe =
  rp_seen :: "(string, time) jsmap"
  rp_nextPruneAt :: "time option"

definition createMemoryReplayDedupe :: replay_dedupe where
  "createMemoryReplayDedupe = \<lparr>rp_seen = [], rp_nextPruneAt = None\<rparr>"

definition replay_prune :: "time \<Rightarrow> replay_dedupe \<Rightarrow> replay_dedupe" where
  "replay_prune t s =
     (if (case rp_nextPruneAt s of None \<Rightarrow> True | Some n \<Rightarrow> n \<le> t)
      then s\<lparr>rp_nextPruneAt := Some (t + REPLAY_PRUNE_INTERVAL_MS), rp_seen := filter (\<lambda>(i, ex). \<not> ex < t) (rp_seen s)\<rparr>
      else s)"

definition replay_claim :: "time \<Rightarrow> string \<Rightarrow> time \<Rightarrow> replay_dedupe \<Rightarrow> replay_dedupe \<times> bool" where
  "replay_claim t eventId expiresAtMs s0 =
     (let s = replay_prune t s0
      in case map_get (rp_seen s) eventId of
           Some existing \<Rightarrow> if t \<le> existing then (s, False) else (s\<lparr>rp_seen := map_set eventId expiresAtMs (rp_seen s)\<rparr>, True)
         | None \<Rightarrow> (s\<lparr>rp_seen := map_set eventId expiresAtMs (rp_seen s)\<rparr>, True))"

fun replay_claims :: "(time \<times> string \<times> time) list \<Rightarrow> replay_dedupe \<Rightarrow> replay_dedupe" where
  "replay_claims [] s = s"
| "replay_claims ((t, i, ex) # cs) s = replay_claims cs (fst (replay_claim t i ex s))"

lemma seen_prune:
  "map_ok (rp_seen s) \<Longrightarrow> map_get (rp_seen s) i = Some ex \<Longrightarrow> t \<le> ex \<Longrightarrow> map_get (rp_seen (replay_prune t s)) i = Some ex"
  by (simp add: replay_prune_def map_get_filter)

lemma map_ok_replay [inv_intros]:
  "map_ok (rp_seen s) \<Longrightarrow> map_ok (rp_seen (replay_prune t s))"
  "map_ok (rp_seen s) \<Longrightarrow> map_ok (rp_seen (fst (replay_claim t i ex s)))"
  by (simp_all add: replay_prune_def replay_claim_def Let_def split: option.split)

lemma seen_claim:
  assumes "map_ok (rp_seen s)" "map_get (rp_seen s) i = Some ex" "t \<le> ex"
  shows "map_get (rp_seen (fst (replay_claim t j ex' s))) i = Some ex \<and> (j = i \<longrightarrow> \<not> snd (replay_claim t j ex' s))"
  using seen_prune [OF assms] assms(3) by (auto simp: replay_claim_def Let_def split: option.split)

lemma seen_claims:
  "map_ok (rp_seen s) \<Longrightarrow> map_get (rp_seen s) i = Some ex \<Longrightarrow> (\<And>c. c \<in> set cs \<Longrightarrow> fst c \<le> ex) \<Longrightarrow>
   map_ok (rp_seen (replay_claims cs s)) \<and> map_get (rp_seen (replay_claims cs s)) i = Some ex"
proof (induction cs s rule: replay_claims.induct)
  case (2 t j x cs s)
  have "t \<le> ex" using 2(4) [of "(t, j, x)"] by simp
  then have "map_get (rp_seen (fst (replay_claim t j x s))) i = Some ex" using seen_claim [OF 2(2,3)] by blast
  from 2(1) [OF map_ok_replay(2) [OF 2(2)] this] 2(4) show ?case by simp
qed simp

lemma map_ok_claims: "map_ok (rp_seen s) \<Longrightarrow> map_ok (rp_seen (replay_claims cs s))"
  by (induction cs s rule: replay_claims.induct) (auto intro: map_ok_replay)

text \<open>
  An event that was accepted with an expiry is refused up to that time, whatever is claimed and
  pruned in between.
\<close>

theorem replay_refused:
  assumes "snd (replay_claim t i ex (replay_claims before createMemoryReplayDedupe))"
    and "\<And>c. c \<in> set between \<Longrightarrow> fst c \<le> ex" and "t' \<le> ex"
  shows "\<not> snd (replay_claim t' i ex' (replay_claims between (fst (replay_claim t i ex (replay_claims before createMemoryReplayDedupe)))))"
proof -
  let ?s = "replay_claims before createMemoryReplayDedupe"
  have ok: "map_ok (rp_seen ?s)" by (rule map_ok_claims) (simp add: createMemoryReplayDedupe_def)
  have "map_get (rp_seen (fst (replay_claim t i ex ?s))) i = Some ex"
    using assms(1) by (auto simp: replay_claim_def Let_def split: option.splits if_splits)
  from seen_claims [OF map_ok_replay(2) [OF ok] this, of between] assms(2)
  have "map_ok (rp_seen (replay_claims between (fst (replay_claim t i ex ?s))))"
    "map_get (rp_seen (replay_claims between (fst (replay_claim t i ex ?s)))) i = Some ex" by auto
  from seen_claim [OF this assms(3), of i ex'] show ?thesis by simp
qed

theorem replay_refused_witness:
  "\<not> snd (replay_claim 100 ''e'' 200 (replay_claims [(99, ''f'', 0)] (fst (replay_claim 0 ''e'' 100 (replay_claims [] createMemoryReplayDedupe)))))"
proof (rule replay_refused)
  show "snd (replay_claim 0 ''e'' 100 (replay_claims [] createMemoryReplayDedupe))" by code_simp
qed auto

end
