(* ===== verification/Directory.thy ===== *)
theory Directory
  imports Interfaces Scopes
begin

text \<open>
  The directory of people, channels and group conversations that the surfaces sync
  (\<open>src/directory/directory-store.ts\<close>, the memory store) and who may see what of it
  (\<open>src/directory/visibility.ts\<close>). A \<open>Set\<close> of ids is a list without duplicates.
\<close>

section \<open>Data\<close>

record directory_member =
  dm_principalId :: string
  dm_displayName :: string
  dm_type :: principal_type
  dm_slackId :: "string option"

record directory_channel =
  dc_channelId :: string
  dc_name :: string
  dc_isPrivate :: "bool option"
  dc_isExternal :: "bool option"

type_synonym membership_pair = "string \<times> string"

datatype group_resolution = GOne string | GNone

datatype 'a resolution = ROne 'a | RAmbiguous "'a list" | RNone

definition groupParticipantsKey :: "string list \<Rightarrow> string" where
  "groupParticipantsKey participants = join '','' (sort (js_set_of (filled participants)))"

definition MAX_CANDIDATES :: nat where
  "MAX_CANDIDATES = 10"

definition strip_sigil :: "string \<Rightarrow> string" where
  "strip_sigil s = (case s of c # cs \<Rightarrow> if c \<in> {CHR ''@'', CHR ''#''} then cs else s | [] \<Rightarrow> [])"

definition normDirectoryQuery :: "string \<Rightarrow> string" where
  "normDirectoryQuery s = strip_sigil (toLowerCase (trim s))"

definition pickMatch :: "'t list \<Rightarrow> string \<Rightarrow> ('t \<Rightarrow> string) \<Rightarrow> ('t \<Rightarrow> string) \<Rightarrow> 't resolution" where
  "pickMatch items query ident label =
     (let q = normDirectoryQuery query
      in if q = [] then RNone
         else
           (case List.find (\<lambda>t. toLowerCase (ident t) = q) items of
              Some t \<Rightarrow> ROne t
            | None \<Rightarrow>
                (let exact = filter (\<lambda>t. normDirectoryQuery (label t) = q) items
                 in case exact of
                      [t] \<Rightarrow> ROne t
                    | _ # _ # _ \<Rightarrow> RAmbiguous (take MAX_CANDIDATES exact)
                    | [] \<Rightarrow>
                        (let prefix = filter (\<lambda>t. startsWith (normDirectoryQuery (label t)) q) items;
                             pool = (if prefix \<noteq> [] then prefix else filter (\<lambda>t. str_includes (normDirectoryQuery (label t)) q) items)
                         in case pool of
                              [] \<Rightarrow> RNone
                            | [t] \<Rightarrow> ROne t
                            | _ \<Rightarrow> RAmbiguous (take MAX_CANDIDATES pool)))))"

section \<open>The store\<close>

record directory_store =
  di_members :: "directory_member list"
  di_channels :: "directory_channel list"
  di_channelMembers :: "(string, string list) jsmap option"
  di_knownChannelRosters :: "string list option"
  di_groupMembers :: "(string, string list) jsmap option"
  di_listedGroupIds :: "string list option"
  di_knownGroupRosters :: "string list option"
  di_groupsSynced :: bool
  di_workspaceUrl :: "string option"
  di_syncedAts :: "(string, time) jsmap"

definition createDirectoryStore :: directory_store where
  "createDirectoryStore =
     \<lparr>di_members = [], di_channels = [], di_channelMembers = None, di_knownChannelRosters = None, di_groupMembers = None,
      di_listedGroupIds = None, di_knownGroupRosters = None, di_groupsSynced = False, di_workspaceUrl = None, di_syncedAts = []\<rparr>"

definition acceptSync :: "string \<Rightarrow> time option \<Rightarrow> directory_store \<Rightarrow> directory_store \<times> bool" where
  "acceptSync sec syncedAt s =
     (case syncedAt of
        None \<Rightarrow> (s, True)
      | Some t \<Rightarrow>
          (case map_get (di_syncedAts s) sec of
             Some stored \<Rightarrow> if t < stored then (s, False) else (s\<lparr>di_syncedAts := map_set sec t (di_syncedAts s)\<rparr>, True)
           | None \<Rightarrow> (s\<lparr>di_syncedAts := map_set sec t (di_syncedAts s)\<rparr>, True)))"

definition setWorkspaceUrl :: "string \<Rightarrow> directory_store \<Rightarrow> directory_store" where
  "setWorkspaceUrl url s = s\<lparr>di_workspaceUrl := Some url\<rparr>"

definition replace_members :: "directory_member list \<Rightarrow> time option \<Rightarrow> directory_store \<Rightarrow> directory_store \<times> bool" where
  "replace_members nxt syncedAt s =
     (case acceptSync ''members'' syncedAt s of
        (s1, False) \<Rightarrow> (s1, False)
      | (s1, True) \<Rightarrow> (s1\<lparr>di_members := filter (\<lambda>m. dm_principalId m \<noteq> [] \<and> dm_type m = Internal) nxt\<rparr>, True))"

definition add_to_roster :: "membership_pair \<Rightarrow> (string, string list) jsmap \<Rightarrow> (string, string list) jsmap" where
  "add_to_roster m by = map_set (fst m) (set_add (snd m) (or_else (map_get by (fst m)) [])) by"

text \<open>
  The rosters after a sync: those of conversations still listed whose roster the sync does not bring,
  and the rosters it brings, from empty.
\<close>

definition next_rosters ::
  "string list \<Rightarrow> string list \<Rightarrow> membership_pair list \<Rightarrow> (string, string list) jsmap option \<Rightarrow> (string, string list) jsmap" where
  "next_rosters listed rosterIds nxt old =
     (let kept = filter (\<lambda>(i, ms). i \<in> set listed \<and> i \<notin> set rosterIds) (or_else old []);
          emptied = fold (\<lambda>i by. if i \<in> set listed then map_set i [] by else by) rosterIds kept
      in fold (\<lambda>m by. if fst m = [] \<or> snd m = [] \<or> fst m \<notin> set rosterIds \<or> fst m \<notin> set listed then by else add_to_roster m by)
           nxt emptied)"

definition revoke_member :: "string list \<Rightarrow> membership_pair \<Rightarrow> (string, string list) jsmap option \<Rightarrow> (string, string list) jsmap option" where
  "revoke_member listed m by =
     (if fst m \<in> set listed \<and> snd m \<noteq> []
      then map_option (\<lambda>b. case map_get b (fst m) of None \<Rightarrow> b | Some ms \<Rightarrow> map_set (fst m) (removeAll (snd m) ms) b) by
      else by)"

definition replaceChannels ::
  "directory_channel list \<Rightarrow> membership_pair list option \<Rightarrow> time option \<Rightarrow> string list option \<Rightarrow> membership_pair list \<Rightarrow>
   directory_store \<Rightarrow> directory_store \<times> bool" where
  "replaceChannels nextChannels nextMembers syncedAt nextRosterIds revocations s =
     (case acceptSync ''channels'' syncedAt s of
        (s1, False) \<Rightarrow> (s1, False)
      | (s1, True) \<Rightarrow>
          (let chs = filter (\<lambda>c. dc_channelId c \<noteq> [] \<and> dc_name c \<noteq> []) nextChannels;
               listed = js_set_of (map dc_channelId chs);
               known = map_option (filter (\<lambda>i. i \<in> set listed)) (di_knownChannelRosters s1);
               s2 = s1\<lparr>di_channels := chs, di_knownChannelRosters := known\<rparr>;
               s3 = (case nextMembers of
                       None \<Rightarrow> s2
                     | Some ms \<Rightarrow>
                         (let rosterIds = js_set_of (or_else nextRosterIds (map dc_channelId chs))
                          in s2\<lparr>di_channelMembers := Some (next_rosters listed rosterIds ms (di_channelMembers s2)),
                                di_knownChannelRosters :=
                                  Some (fold set_add (filter (\<lambda>i. i \<in> set listed) rosterIds) (or_else known []))\<rparr>))
           in (s3\<lparr>di_channelMembers := fold (revoke_member listed) revocations (di_channelMembers s3)\<rparr>, True)))"

definition in_roster :: "(string, string list) jsmap option \<Rightarrow> string \<Rightarrow> string \<Rightarrow> bool" where
  "in_roster by i p = (case by of None \<Rightarrow> False | Some b \<Rightarrow> p \<in> set (or_else (map_get b i) []))"

definition channelMember :: "directory_store \<Rightarrow> string \<Rightarrow> string \<Rightarrow> bool" where
  "channelMember s channelId principalId =
     (if \<exists>c \<in> set (di_channels s). dc_channelId c = channelId \<and> dc_isPrivate c = Some True \<and> dc_isExternal c = Some True then False
      else in_roster (di_channelMembers s) channelId principalId)"

definition known_in :: "string list option \<Rightarrow> string \<Rightarrow> bool" where
  "known_in known i = (case known of None \<Rightarrow> False | Some ks \<Rightarrow> i \<in> set ks)"

definition channelMemberIds :: "directory_store \<Rightarrow> string \<Rightarrow> string list option" where
  "channelMemberIds s channelId =
     (if \<not> known_in (di_knownChannelRosters s) channelId then None
      else Some (case di_channelMembers s of None \<Rightarrow> [] | Some b \<Rightarrow> or_else (map_get b channelId) []))"

definition find_channel :: "directory_store \<Rightarrow> string \<Rightarrow> directory_channel option" where
  "find_channel s channelId = List.find (\<lambda>c. dc_channelId c = channelId) (di_channels s)"

definition channelMembership :: "directory_store \<Rightarrow> string \<Rightarrow> string \<Rightarrow> bool option" where
  "channelMembership s channelId principalId =
     (case find_channel s channelId of
        None \<Rightarrow> None
      | Some c \<Rightarrow>
          if \<not> known_in (di_knownChannelRosters s) channelId then None
          else
            (let m = in_roster (di_channelMembers s) channelId principalId
             in if m \<or> dc_isPrivate c = Some True then Some m else None))"

definition channelPrivacy :: "directory_store \<Rightarrow> string \<Rightarrow> bool option" where
  "channelPrivacy s channelId = map_option (\<lambda>c. dc_isPrivate c = Some True) (find_channel s channelId)"

definition replaceGroups ::
  "membership_pair list \<Rightarrow> time option \<Rightarrow> string list option \<Rightarrow> string list option \<Rightarrow> directory_store \<Rightarrow> directory_store \<times> bool" where
  "replaceGroups nextMembers syncedAt nextGroupIds nextRosterIds s =
     (case acceptSync ''groups'' syncedAt s of
        (s1, False) \<Rightarrow> (s1, False)
      | (s1, True) \<Rightarrow>
          (let legacy = (nextGroupIds = None \<or> nextRosterIds = None);
               listed = js_set_of (filled (or_else nextGroupIds (map fst nextMembers)));
               rosterIds = js_set_of (filter (\<lambda>i. i \<in> set listed) (or_else nextRosterIds listed));
               known = (if legacy then rosterIds else filter (\<lambda>i. i \<in> set listed) (or_else (di_knownGroupRosters s1) []))
           in (s1\<lparr>di_groupMembers := Some (next_rosters listed rosterIds nextMembers (di_groupMembers s1)),
                  di_listedGroupIds := Some listed,
                  di_knownGroupRosters := Some (fold set_add rosterIds known),
                  di_groupsSynced := True\<rparr>, True)))"

definition upsertGroup :: "time \<Rightarrow> string \<Rightarrow> string list \<Rightarrow> directory_store \<Rightarrow> directory_store" where
  "upsertGroup now groupId principalIds s =
     (let ids = filled principalIds
      in if groupId = [] \<or> ids = [] then s
         else s\<lparr>di_groupMembers := Some (map_set groupId (js_set_of ids) (or_else (di_groupMembers s) [])),
                di_listedGroupIds := Some (set_add groupId (or_else (di_listedGroupIds s) [])),
                di_knownGroupRosters := Some (set_add groupId (or_else (di_knownGroupRosters s) [])),
                di_syncedAts := map_set ''groups'' (max (or_else (map_get (di_syncedAts s) ''groups'') 0) now) (di_syncedAts s)\<rparr>)"

definition resolveGroupByParticipants :: "directory_store \<Rightarrow> string list \<Rightarrow> group_resolution" where
  "resolveGroupByParticipants s participants =
     (let key = groupParticipantsKey participants
      in if key = [] then GNone
         else (case List.find (\<lambda>(g, ms). groupParticipantsKey ms = key) (or_else (di_groupMembers s) []) of
                 Some (g, ms) \<Rightarrow> GOne g
               | None \<Rightarrow> GNone))"

definition groupMember :: "directory_store \<Rightarrow> string \<Rightarrow> string \<Rightarrow> bool" where
  "groupMember s groupId principalId = in_roster (di_groupMembers s) groupId principalId"

definition groupMembership :: "directory_store \<Rightarrow> string \<Rightarrow> string \<Rightarrow> bool option" where
  "groupMembership s groupId principalId =
     (if \<not> di_groupsSynced s then None
      else if \<not> known_in (di_listedGroupIds s) groupId then Some False
      else if \<not> known_in (di_knownGroupRosters s) groupId then None
      else Some (in_roster (di_groupMembers s) groupId principalId))"

definition listGroupsFor :: "directory_store \<Rightarrow> string \<Rightarrow> string list" where
  "listGroupsFor s principalId =
     (case di_groupMembers s of None \<Rightarrow> [] | Some b \<Rightarrow> map fst (filter (\<lambda>(g, ms). principalId \<in> set ms) b))"

definition get_member :: "directory_store \<Rightarrow> string \<Rightarrow> directory_member option" where
  "get_member s principalId = List.find (\<lambda>m. samePerson (Some (dm_principalId m)) (Some principalId)) (di_members s)"

definition conversationMembers :: "directory_store \<Rightarrow> bool \<Rightarrow> string \<Rightarrow> directory_member list option" where
  "conversationMembers s isChannel i =
     (let ids =
        (if isChannel
         then (case find_channel s i of
                 None \<Rightarrow> None
               | Some c \<Rightarrow>
                   if dc_isExternal c = Some True \<or> \<not> known_in (di_knownChannelRosters s) i then None
                   else Some (or_else (map_get (or_else (di_channelMembers s) []) i) []))
         else if \<not> known_in (di_knownGroupRosters s) i then None
         else Some (or_else (map_get (or_else (di_groupMembers s) []) i) []))
      in case ids of
           None \<Rightarrow> None
         | Some is \<Rightarrow>
             if is = [] then None
             else
               (let roster = List.map_filter (get_member s) is
                in if length roster = length is then Some roster else None))"

definition listChannelsFor :: "directory_store \<Rightarrow> string \<Rightarrow> directory_channel list" where
  "listChannelsFor s principalId =
     filter (\<lambda>c. dc_isPrivate c \<noteq> Some True \<or>
        (dc_isExternal c \<noteq> Some True \<and> in_roster (di_channelMembers s) (dc_channelId c) principalId)) (di_channels s)"

definition resolve_member :: "directory_store \<Rightarrow> string \<Rightarrow> directory_member resolution" where
  "resolve_member s query =
     (case List.find (\<lambda>x. truthy (dm_slackId x) \<and> dm_slackId x = Some (trim query)) (di_members s) of
        Some m \<Rightarrow> ROne m
      | None \<Rightarrow> pickMatch (di_members s) query dm_principalId dm_displayName)"

definition resolveChannel :: "directory_store \<Rightarrow> string \<Rightarrow> directory_channel resolution" where
  "resolveChannel s query = pickMatch (di_channels s) query dc_channelId dc_name"

section \<open>Visibility\<close>

datatype visibility_target = VDm string | VGroup string | VChannel string "bool option"

record visibility_directory =
  vd_channelMember :: "string \<Rightarrow> string \<Rightarrow> bool"
  vd_groupMember :: "string \<Rightarrow> string \<Rightarrow> bool"
  vd_listChannelsFor :: "(string \<Rightarrow> directory_channel list) option"

fun isVisible :: "'e visibility_directory_scheme \<Rightarrow> string \<Rightarrow> visibility_target \<Rightarrow> bool" where
  "isVisible dir actorId (VDm ownerId) = samePerson (Some actorId) (Some ownerId)"
| "isVisible dir actorId (VGroup groupId) = vd_groupMember dir groupId actorId"
| "isVisible dir actorId (VChannel channelId isPrivate) =
     (case isPrivate of
        Some True \<Rightarrow> vd_channelMember dir channelId actorId
      | Some False \<Rightarrow> True
      | None \<Rightarrow>
          (case vd_listChannelsFor dir of
             None \<Rightarrow> False
           | Some lst \<Rightarrow> \<exists>c \<in> set (lst actorId). dc_channelId c = channelId))"

text \<open>The directory store as the directory visibility is asked of.\<close>

definition store_visibility :: "directory_store \<Rightarrow> visibility_directory" where
  "store_visibility s =
     \<lparr>vd_channelMember = channelMember s, vd_groupMember = groupMember s, vd_listChannelsFor = Some (listChannelsFor s)\<rparr>"

section \<open>Who sees a channel\<close>

text \<open>
  A channel seen without knowing whether it is private is seen exactly as the directory's own privacy
  says: everyone sees a public channel, only its members a private one, and nobody a private channel
  shared with another organisation.
\<close>

theorem channel_visibility:
  assumes "distinct (map dc_channelId (di_channels s))" "find_channel s i = Some c"
  shows "isVisible (store_visibility s) p (VChannel i None) = isVisible (store_visibility s) p (VChannel i (channelPrivacy s i)) \<and>
    (isVisible (store_visibility s) p (VChannel i None) \<longleftrightarrow>
       dc_isPrivate c \<noteq> Some True \<or> (dc_isExternal c \<noteq> Some True \<and> in_roster (di_channelMembers s) i p))"
proof -
  have c: "c \<in> set (di_channels s)" "dc_channelId c = i"
    using assms(2) by (auto simp: find_channel_def find_Some_iff)
  have u: "c' = c" if "c' \<in> set (di_channels s)" "dc_channelId c' = i" for c'
    using that c assms(1) by (auto simp: distinct_map inj_on_def)
  have priv: "channelMember s i p \<longleftrightarrow> \<not> (dc_isPrivate c = Some True \<and> dc_isExternal c = Some True) \<and> in_roster (di_channelMembers s) i p"
    unfolding channelMember_def using c u by metis
  have listed: "(\<exists>x \<in> set (listChannelsFor s p). dc_channelId x = i) \<longleftrightarrow>
      dc_isPrivate c \<noteq> Some True \<or> (dc_isExternal c \<noteq> Some True \<and> in_roster (di_channelMembers s) i p)"
  proof -
    have "(\<exists>x \<in> set (listChannelsFor s p). dc_channelId x = i) \<longleftrightarrow> c \<in> set (listChannelsFor s p)"
      unfolding listChannelsFor_def set_filter using c u by blast
    then show ?thesis using c by (auto simp: listChannelsFor_def)
  qed
  show ?thesis
    by (cases "dc_isPrivate c = Some True") (simp_all add: store_visibility_def channelPrivacy_def assms(2) priv listed)
qed

definition ex_directory :: directory_store where
  "ex_directory = fst (replaceChannels
     [\<lparr>dc_channelId = ''C1'', dc_name = ''ops'', dc_isPrivate = Some True, dc_isExternal = None\<rparr>]
     (Some [(''C1'', ''ann''), (''C1'', ''bob'')]) (Some 5) None [(''C1'', ''bob'')] createDirectoryStore)"

theorem channel_visibility_witness:
  "isVisible (store_visibility ex_directory) ''ann'' (VChannel ''C1'' None) \<and>
   isVisible (store_visibility ex_directory) ''ann'' (VChannel ''C1'' (channelPrivacy ex_directory ''C1''))"
proof -
  let ?c = "\<lparr>dc_channelId = ''C1'', dc_name = ''ops'', dc_isPrivate = Some True, dc_isExternal = None\<rparr>"
  have "distinct (map dc_channelId (di_channels ex_directory))" "find_channel ex_directory ''C1'' = Some ?c" by code_simp+
  note v = channel_visibility [OF this, of "''ann''"]
  have "in_roster (di_channelMembers ex_directory) ''C1'' ''ann''" by code_simp
  with v show ?thesis by simp
qed

section \<open>A late snapshot does not undo a newer one\<close>

text \<open>Everything that changes the directory, but a sync of the channels stamped no older than \<open>t\<close> or not at all.\<close>

inductive stale_step :: "time \<Rightarrow> directory_store \<Rightarrow> directory_store \<Rightarrow> bool" for t where
  url: "stale_step t s (setWorkspaceUrl u s)"
| members: "stale_step t s (fst (replace_members ms a s))"
| stale: "a < t \<Longrightarrow> stale_step t s (fst (replaceChannels chs ms (Some a) ids revs s))"
| groups: "stale_step t s (fst (replaceGroups ms a gs ids s))"
| upsert: "stale_step t s (upsertGroup now g ps s)"

text \<open>The part of the directory that says who is in which channel.\<close>

definition channel_part :: "directory_store \<Rightarrow> directory_channel list \<times> (string, string list) jsmap option \<times> time option" where
  "channel_part s = (di_channels s, di_channelMembers s, map_get (di_syncedAts s) ''channels'')"

lemma acceptSync_other:
  "sec \<noteq> ''channels'' \<Longrightarrow> channel_part (fst (acceptSync sec a s)) = channel_part s"
  by (auto simp: acceptSync_def channel_part_def split: option.splits)

lemma stale_step_channels:
  assumes "stale_step t s s'" "map_get (di_syncedAts s) ''channels'' = Some t"
  shows "channel_part s' = channel_part s"
  using assms
proof cases
  case (members ms a)
  then show ?thesis using acceptSync_other [of "''members''" a s]
    by (auto simp: replace_members_def channel_part_def split: prod.splits bool.splits)
next
  case (groups ms a gs ids)
  then show ?thesis using acceptSync_other [of "''groups''" a s]
    by (auto simp: replaceGroups_def channel_part_def Let_def split: prod.splits bool.splits)
next
  case (stale a chs ms ids revs)
  then show ?thesis using assms(2) by (simp add: replaceChannels_def acceptSync_def)
qed (auto simp: setWorkspaceUrl_def upsertGroup_def channel_part_def Let_def)

lemma stale_steps_channels:
  assumes "(stale_step t)\<^sup>*\<^sup>* s s'" "map_get (di_syncedAts s) ''channels'' = Some t"
  shows "channel_part s' = channel_part s"
  using assms
proof (induction rule: rtranclp_induct)
  case (step s' s'')
  then show ?case using stale_step_channels [of t s' s''] by (simp add: channel_part_def)
qed simp

lemma revoke_keeps_out: "\<not> in_roster b i p \<Longrightarrow> \<not> in_roster (revoke_member listed m b) i p"
  by (cases b) (auto simp: revoke_member_def in_roster_def split: option.split)

lemma revokes_keep_out: "\<not> in_roster b i p \<Longrightarrow> \<not> in_roster (fold (revoke_member listed) ms b) i p"
  by (induction ms arbitrary: b) (simp_all add: revoke_keeps_out)

lemma revoked_is_out:
  "(i, p) \<in> set ms \<Longrightarrow> i \<in> set listed \<Longrightarrow> p \<noteq> [] \<Longrightarrow> \<not> in_roster (fold (revoke_member listed) ms b) i p"
proof (induction ms arbitrary: b)
  case (Cons m ms)
  have "\<not> in_roster (revoke_member listed (i, p) b) i p" if "i \<in> set listed" "p \<noteq> []" for b
    using that by (auto simp: revoke_member_def in_roster_def split: option.splits)
  with Cons show ?case by (cases "m = (i, p)") (simp_all add: revokes_keep_out)
qed simp

text \<open>
  Whoever a sync of the channels revokes stays out of the channel whatever older snapshots arrive
  late and whatever else is synced: not a member, and not shown the channel if it is private.
\<close>

theorem revocation_sticks:
  assumes "replaceChannels chs ms (Some t) ids revs s = (s1, True)" "(i, p) \<in> set revs" "p \<noteq> []" "i \<noteq> []"
    "c \<in> set chs" "dc_channelId c = i" "dc_name c \<noteq> []" "(stale_step t)\<^sup>*\<^sup>* s1 s2"
  shows "\<not> channelMember s2 i p \<and> (find_channel s2 i = find_channel s1 i) \<and>
    (\<forall>x \<in> set (listChannelsFor s2 p). dc_channelId x = i \<longrightarrow> dc_isPrivate x \<noteq> Some True)"
proof -
  have acc: "acceptSync ''channels'' (Some t) s = (s\<lparr>di_syncedAts := map_set ''channels'' t (di_syncedAts s)\<rparr>, True)"
    using assms(1) by (auto simp: replaceChannels_def acceptSync_def split: option.splits if_splits)
  have t: "map_get (di_syncedAts s1) ''channels'' = Some t"
    using assms(1) by (auto simp: replaceChannels_def acc Let_def split: option.splits)
  obtain b where b: "di_channelMembers s1 =
      fold (revoke_member (js_set_of (map dc_channelId (filter (\<lambda>c. dc_channelId c \<noteq> [] \<and> dc_name c \<noteq> []) chs)))) revs b"
    using assms(1) by (fastforce simp: replaceChannels_def acc Let_def)
  have out: "\<not> in_roster (di_channelMembers s1) i p"
    unfolding b by (rule revoked_is_out [OF assms(2) _ assms(3)]) (use assms(4-7) in auto)
  have "channel_part s2 = channel_part s1" by (rule stale_steps_channels [OF assms(8) t])
  then have "di_channels s2 = di_channels s1" "di_channelMembers s2 = di_channelMembers s1" by (simp_all add: channel_part_def)
  with out show ?thesis by (auto simp: channelMember_def listChannelsFor_def find_channel_def)
qed

theorem revocation_sticks_witness:
  "\<not> channelMember (fst (replaceChannels [] (Some [(''C1'', ''bob'')]) (Some 4) None [] ex_directory)) ''C1'' ''bob''"
proof -
  let ?c = "\<lparr>dc_channelId = ''C1'', dc_name = ''ops'', dc_isPrivate = Some True, dc_isExternal = None\<rparr>"
  have 1: "replaceChannels [?c] (Some [(''C1'', ''ann''), (''C1'', ''bob'')]) (Some 5) None [(''C1'', ''bob'')] createDirectoryStore
      = (ex_directory, True)" by code_simp
  have 2: "(stale_step 5)\<^sup>*\<^sup>* ex_directory (fst (replaceChannels [] (Some [(''C1'', ''bob'')]) (Some 4) None [] ex_directory))"
    by (rule r_into_rtranclp, rule stale_step.stale) simp
  show ?thesis using revocation_sticks [OF 1 _ _ _ _ _ _ 2, of "''C1''" "''bob''" ?c] by simp
qed

section \<open>Groups by their participants\<close>

definition comma_free :: "string list \<Rightarrow> bool" where
  "comma_free xs = list_all (\<lambda>x. CHR '','' \<notin> set x) xs"

lemma groupParticipantsKey_eq:
  assumes "comma_free xs" "comma_free ys"
  shows "groupParticipantsKey xs = groupParticipantsKey ys \<longleftrightarrow> set (filled xs) = set (filled ys)"
proof -
  let ?s = "\<lambda>xs. sort (js_set_of (filled xs))"
  have free: "split_on CHR '','' (groupParticipantsKey zs) = (if ?s zs = [] then [[]] else ?s zs)" if "comma_free zs" for zs
    using that by (auto simp: groupParticipantsKey_def comma_free_def list_all_iff intro!: split_on_join)
  have ne: "?s zs \<noteq> [[]]" for zs
  proof
    assume "?s zs = [[]]"
    then have "[] \<in> set (?s zs)" by simp
    then show False by simp
  qed
  show ?thesis
  proof
    assume "groupParticipantsKey xs = groupParticipantsKey ys"
    then have "?s xs = ?s ys" using free [OF assms(1)] free [OF assms(2)] ne by (metis (no_types))
    then have "set (?s xs) = set (?s ys)" by simp
    then show "set (filled xs) = set (filled ys)" by simp
  next
    assume e: "set (filled xs) = set (filled ys)"
    have "?s zs = sorted_list_of_set (set (filled zs))" for zs
      by (metis distinct_js_set_of set_js_set_of sorted_list_of_set_sort_remdups distinct_remdups_id)
    with e show "groupParticipantsKey xs = groupParticipantsKey ys" by (simp add: groupParticipantsKey_def)
  qed
qed

text \<open>
  With ids that have no comma, a list of participants finds a group exactly when one has just those
  members, and the group found has just those.
\<close>

theorem group_found_by_participants:
  assumes "comma_free ps" "\<And>g ms. (g, ms) \<in> set (or_else (di_groupMembers s) []) \<Longrightarrow> comma_free ms" "set (filled ps) \<noteq> {}"
  shows "(\<forall>g. resolveGroupByParticipants s ps = GOne g \<longrightarrow>
      (\<exists>ms. (g, ms) \<in> set (or_else (di_groupMembers s) []) \<and> set (filled ms) = set (filled ps))) \<and>
    (resolveGroupByParticipants s ps = GNone \<longleftrightarrow>
      \<not> (\<exists>g ms. (g, ms) \<in> set (or_else (di_groupMembers s) []) \<and> set (filled ms) = set (filled ps)))"
proof -
  let ?gs = "or_else (di_groupMembers s) []" and ?P = "\<lambda>(g, ms). groupParticipantsKey ms = groupParticipantsKey ps"
  have key: "groupParticipantsKey ps \<noteq> []"
    unfolding groupParticipantsKey_def using assms(3) by (subst join_Nil_iff) (auto simp: set_empty [symmetric] simp del: set_empty)
  have match: "?P (g, ms) \<longleftrightarrow> set (filled ms) = set (filled ps)" if "(g, ms) \<in> set ?gs" for g ms
    using groupParticipantsKey_eq [OF assms(2) [OF that] assms(1)] by simp
  have r: "resolveGroupByParticipants s ps = (case List.find ?P ?gs of Some (g, ms) \<Rightarrow> GOne g | None \<Rightarrow> GNone)"
    using key by (simp add: resolveGroupByParticipants_def Let_def)
  show ?thesis
  proof (cases "List.find ?P ?gs")
    case None
    then have "\<not> ?P x" if "x \<in> set ?gs" for x using that by (auto simp: find_None_iff)
    then show ?thesis using match r None by fastforce
  next
    case (Some x)
    obtain g ms where x: "x = (g, ms)" by fastforce
    have "x \<in> set ?gs" "?P x" using find_Some_in [OF Some] by auto
    then show ?thesis using match [of g ms] r Some x by auto
  qed
qed

theorem group_found_by_participants_witness:
  "resolveGroupByParticipants (upsertGroup 1 ''G'' [''bob'', ''ann''] createDirectoryStore) [''ann'', ''bob''] \<noteq> GNone"
proof -
  let ?s = "upsertGroup 1 ''G'' [''bob'', ''ann''] createDirectoryStore"
  have g: "or_else (di_groupMembers ?s) [] = [(''G'', [''bob'', ''ann''])]" by code_simp
  have "\<exists>g ms. (g, ms) \<in> set (or_else (di_groupMembers ?s) []) \<and> set (filled ms) = set (filled [''ann'', ''bob''])"
    unfolding g by auto
  with group_found_by_participants [of "[''ann'', ''bob'']" ?s] show ?thesis
    by (simp add: g comma_free_def)
qed

section \<open>Reachable directories\<close>

inductive directory_step :: "directory_store \<Rightarrow> directory_store \<Rightarrow> bool" where
  dir_url: "directory_step s (setWorkspaceUrl u s)"
| dir_members: "directory_step s (fst (replace_members ms a s))"
| dir_channels: "directory_step s (fst (replaceChannels chs ms a ids revs s))"
| dir_groups: "directory_step s (fst (replaceGroups ms a gs ids s))"
| dir_upsert: "directory_step s (upsertGroup now g ps s)"

definition members_internal :: "directory_store \<Rightarrow> bool" where
  "members_internal s = (\<forall>m \<in> set (di_members s). dm_type m = Internal \<and> dm_principalId m \<noteq> [])"

lemma acceptSync_members: "acceptSync sec a s = (s', b) \<Longrightarrow> di_members s' = di_members s"
  by (auto simp: acceptSync_def split: option.splits if_splits)

lemma members_internal_step:
  assumes "members_internal s" "directory_step s s'"
  shows "members_internal s'"
  using assms(2)
proof cases
  case (dir_members ms a)
  then show ?thesis using assms(1)
    by (auto simp: members_internal_def replace_members_def dest!: acceptSync_members split: prod.splits bool.splits)
next
  case (dir_channels chs ms a ids revs)
  then show ?thesis using assms(1)
    by (auto simp: members_internal_def replaceChannels_def Let_def dest!: acceptSync_members split: prod.splits bool.splits option.splits)
next
  case (dir_groups ms a gs ids)
  then show ?thesis using assms(1)
    by (auto simp: members_internal_def replaceGroups_def Let_def dest!: acceptSync_members split: prod.splits bool.splits)
qed (use assms(1) in \<open>auto simp: members_internal_def setWorkspaceUrl_def upsertGroup_def Let_def\<close>)

interpretation dirs: invariant_system "\<lambda>s. s = createDirectoryStore" directory_step members_internal
  by unfold_locales (simp add: members_internal_def createDirectoryStore_def, rule members_internal_step)

lemma filter_single_in: "filter P xs = [t] \<Longrightarrow> t \<in> set xs"
  using filter_is_subset [of P xs] by simp

lemma pickMatch_in: "pickMatch items q i l = ROne t \<Longrightarrow> t \<in> set items"
  by (auto simp: pickMatch_def Let_def dest: find_Some_in filter_single_in split: if_splits option.splits list.splits)

lemma resolve_member_in: "resolve_member s q = ROne m \<Longrightarrow> m \<in> set (di_members s)"
  by (auto simp: resolve_member_def dest: find_Some_in pickMatch_in split: option.splits)

end
