(* ===== verification/Reach.thy ===== *)
theory Reach
  imports Directory Deliveries
begin

text \<open>
  Reaching somebody outside the current conversation (\<open>src/reach/reach.ts\<close>): resolving a target a
  person names to a destination under that person's authority, the options of a destination, and
  handing the message to the outbox. Opening a group conversation is a call to the surface and an
  argument; registering an opened group is returned as an effect. A refusal keeps its status, code
  and candidates; its message is user-facing text and is left out.
\<close>

section \<open>Resolving a target\<close>

record reach_directory = visibility_directory +
  rdr_resolveRecipient :: "string \<Rightarrow> directory_member resolution"
  rdr_resolveChannel :: "string \<Rightarrow> directory_channel resolution"
  rdr_resolveGroup :: "string list \<Rightarrow> group_resolution"
  rdr_directoryMember :: "string \<Rightarrow> directory_member option"
  rdr_openGroup :: "(string list \<Rightarrow> (string + string) option) option"

record reach_target =
  rt_recipient :: "string option"
  rt_channel :: "string option"
  rt_participants :: "string list option"

record reach_refusal =
  rf_status :: nat
  rf_error :: string
  rf_candidates :: "(string \<times> string) list option"

record reach_ok =
  rk_destination :: destination
  rk_recipient :: "(string \<times> string) option"
  rk_channel :: "(string \<times> string) option"
  rk_group :: "string option"

type_synonym reach_resolution = "reach_refusal + reach_ok"

definition MAX_GROUP_DM_PARTICIPANTS :: nat where
  "MAX_GROUP_DM_PARTICIPANTS = 8"

definition refusal :: "nat \<Rightarrow> string \<Rightarrow> reach_refusal" where
  "refusal status err = \<lparr>rf_status = status, rf_error = err, rf_candidates = None\<rparr>"

definition principalDestination :: "string \<Rightarrow> string \<Rightarrow> destination" where
  "principalDestination target onBehalfOf =
     (bare_destination ''principal'' target)\<lparr>dst_audienceScopeId := Some (scopeId Personal target), dst_onBehalfOf := Some onBehalfOf\<rparr>"

definition groupTooLarge :: reach_refusal where
  "groupTooLarge = refusal 400 ''group_too_large''"

definition membershipDenial :: "reach_directory \<Rightarrow> string \<Rightarrow> reach_refusal" where
  "membershipDenial dir authorityId =
     (if rdr_directoryMember dir authorityId = None then refusal 403 ''identity_unverified'' else refusal 403 ''not_a_member'')"

text \<open>\<open>openGroupViaSurface\<close>: what the surface answered, its group and its note.\<close>

definition openGroupViaSurface :: "(string list \<Rightarrow> (string option \<times> string option) option) \<Rightarrow> string list \<Rightarrow> (string + string) option" where
  "openGroupViaSurface pull participants =
     (case pull participants of
        Some (groupId, note_) \<Rightarrow>
          if truthy groupId then Some (Inr (the groupId)) else if truthy note_ then Some (Inl (the note_)) else None
      | None \<Rightarrow> None)"

definition resolve_recipient_target :: "reach_directory \<Rightarrow> string \<Rightarrow> string \<Rightarrow> reach_resolution" where
  "resolve_recipient_target dir query authorityId =
     (case rdr_resolveRecipient dir query of
        RNone \<Rightarrow> Inl (refusal 404 ''recipient_not_found'')
      | RAmbiguous cs \<Rightarrow> Inl ((refusal 409 ''ambiguous_recipient'')\<lparr>rf_candidates := Some (map (\<lambda>c. (dm_principalId c, dm_displayName c)) cs)\<rparr>)
      | ROne m \<Rightarrow>
          Inr \<lparr>rk_destination = principalDestination (dm_principalId m) authorityId,
               rk_recipient = Some (dm_principalId m, dm_displayName m), rk_channel = None, rk_group = None\<rparr>)"

definition resolve_channel_target :: "reach_directory \<Rightarrow> string \<Rightarrow> string \<Rightarrow> reach_resolution" where
  "resolve_channel_target dir query authorityId =
     (case rdr_resolveChannel dir query of
        RNone \<Rightarrow> Inl (refusal 404 ''channel_not_found'')
      | RAmbiguous cs \<Rightarrow> Inl ((refusal 409 ''ambiguous_channel'')\<lparr>rf_candidates := Some (map (\<lambda>c. (dc_channelId c, dc_name c)) cs)\<rparr>)
      | ROne c \<Rightarrow>
          if \<not> isVisible dir authorityId (VChannel (dc_channelId c) (Some (dc_isPrivate c = Some True)))
          then Inl (membershipDenial dir authorityId)
          else Inr \<lparr>rk_destination = (bare_destination ''slack'' (dc_channelId c))\<lparr>dst_audienceScopeId := Some (scopeId Channel (dc_channelId c))\<rparr>,
                    rk_recipient = None, rk_channel = Some (dc_channelId c, dc_name c), rk_group = None\<rparr>)"

fun resolve_named :: "reach_directory \<Rightarrow> string list \<Rightarrow> reach_refusal + string list" where
  "resolve_named dir [] = Inr []"
| "resolve_named dir (q # qs) =
     (case rdr_resolveRecipient dir q of
        RNone \<Rightarrow> Inl (refusal 404 ''recipient_not_found'')
      | RAmbiguous cs \<Rightarrow> Inl ((refusal 409 ''ambiguous_recipient'')\<lparr>rf_candidates := Some (map (\<lambda>c. (dm_principalId c, dm_displayName c)) cs)\<rparr>)
      | ROne m \<Rightarrow> (case resolve_named dir qs of Inl e \<Rightarrow> Inl e | Inr ns \<Rightarrow> Inr (dm_principalId m # ns)))"

definition groupDestination :: "string \<Rightarrow> reach_ok" where
  "groupDestination gid =
     \<lparr>rk_destination = (bare_destination ''group'' gid)\<lparr>dst_audienceScopeId := Some (scopeId Group gid)\<rparr>,
      rk_recipient = None, rk_channel = None, rk_group = Some gid\<rparr>"

text \<open>The second component: the group to register with its participants, when one was opened.\<close>

definition resolve_group_target ::
  "reach_directory \<Rightarrow> string list \<Rightarrow> string \<Rightarrow> bool \<Rightarrow> reach_resolution \<times> (string \<times> string list) option" where
  "resolve_group_target dir wanted authorityId mayOpenGroup =
     (if wanted = [] then (Inl (refusal 400 ''bad_request''), None)
      else
        (let asked = js_set_of wanted
         in if MAX_GROUP_DM_PARTICIPANTS < length asked then (Inl groupTooLarge, None)
            else
              (case resolve_named dir asked of
                 Inl e \<Rightarrow> (Inl e, None)
               | Inr named \<Rightarrow>
                   (let participants = js_set_of (named @ [authorityId])
                    in if length participants < 2 then (Inl (refusal 400 ''bad_request''), None)
                       else if MAX_GROUP_DM_PARTICIPANTS < length participants then (Inl groupTooLarge, None)
                       else
                         (case rdr_resolveGroup dir participants of
                            GOne g \<Rightarrow>
                              if \<not> isVisible dir authorityId (VGroup g) then (Inl (membershipDenial dir authorityId), None)
                              else (Inr (groupDestination g), None)
                          | GNone \<Rightarrow>
                              (case rdr_openGroup dir of
                                 None \<Rightarrow> (Inl (refusal 404 ''group_not_found''), None)
                               | Some openGroup \<Rightarrow>
                                   if \<not> mayOpenGroup then (Inl (refusal 404 ''group_not_found''), None)
                                   else if rdr_directoryMember dir authorityId = None then (Inl (membershipDenial dir authorityId), None)
                                   else
                                     (case openGroup participants of
                                        Some (Inr g) \<Rightarrow> (Inr (groupDestination g), Some (g, participants))
                                      | _ \<Rightarrow> (Inl (refusal 502 ''group_open_failed''), None))))))))"

definition resolveReachTarget ::
  "reach_directory \<Rightarrow> reach_target \<Rightarrow> string \<Rightarrow> bool \<Rightarrow> reach_resolution \<times> (string \<times> string list) option" where
  "resolveReachTarget dir target authorityId mayOpenGroup =
     (if 1 < length (filter (\<lambda>b. b) [rt_recipient target \<noteq> None, rt_channel target \<noteq> None, rt_participants target \<noteq> None])
      then (Inl (refusal 400 ''bad_request''), None)
      else
        (case rt_recipient target of
           Some q \<Rightarrow> (resolve_recipient_target dir q authorityId, None)
         | None \<Rightarrow>
             (case rt_channel target of
                Some q \<Rightarrow> (resolve_channel_target dir q authorityId, None)
              | None \<Rightarrow>
                  (case rt_participants target of
                     Some ps \<Rightarrow> resolve_group_target dir ps authorityId mayOpenGroup
                   | None \<Rightarrow> (Inl (refusal 400 ''bad_request''), None)))))"

text \<open>
  The application's directory for it (\<open>src/api/app-helpers.ts\<close>): the directory store and the surface.
\<close>

definition reachDir :: "directory_store \<Rightarrow> (string list \<Rightarrow> (string option \<times> string option) option) \<Rightarrow> reach_directory" where
  "reachDir s pull =
     \<lparr>vd_channelMember = channelMember s, vd_groupMember = groupMember s, vd_listChannelsFor = None,
      rdr_resolveRecipient = resolve_member s, rdr_resolveChannel = resolveChannel s,
      rdr_resolveGroup = resolveGroupByParticipants s, rdr_directoryMember = get_member s,
      rdr_openGroup = Some (openGroupViaSurface pull)\<rparr>"

definition resolveReachTargetFor ::
  "time \<Rightarrow> (string list \<Rightarrow> (string option \<times> string option) option) \<Rightarrow> reach_target \<Rightarrow> string \<Rightarrow> bool \<Rightarrow> directory_store \<Rightarrow>
   directory_store \<times> reach_resolution" where
  "resolveReachTargetFor now pull target authorityId mayOpenGroup s =
     (case resolveReachTarget (reachDir s pull) target authorityId mayOpenGroup of
        (r, None) \<Rightarrow> (s, r)
      | (r, Some (g, ps)) \<Rightarrow> (upsertGroup now g ps s, r))"

section \<open>Destinations and the outbox\<close>

definition attributeRelay :: "string \<Rightarrow> string option \<Rightarrow> string" where
  "attributeRelay msg sender =
     (let who = trim (or_else sender []) in if who \<noteq> [] then who @ '' asked me to pass on:'' @ [CHR 10] @ msg else msg)"

definition withSlackUnfurlOption :: "destination \<Rightarrow> bool option \<Rightarrow> destination" where
  "withSlackUnfurlOption d unfurl = (if unfurl = None then d else d\<lparr>dst_unfurlLinks := unfurl\<rparr>)"

definition withReact :: "destination \<Rightarrow> reaction option \<Rightarrow> destination" where
  "withReact d react = (if react = None then d else d\<lparr>dst_react := react\<rparr>)"

definition withDelete :: "destination \<Rightarrow> string option \<Rightarrow> destination" where
  "withDelete d del = (if del = None then d else d\<lparr>dst_delete := del\<rparr>)"

definition withThread :: "destination \<Rightarrow> string option \<Rightarrow> destination" where
  "withThread d threadTs =
     (if \<not> truthy threadTs then d
      else if dst_type d = ''principal'' then d\<lparr>dst_threadTs := threadTs\<rparr>
      else d\<lparr>dst_target := dst_target d @ '':'' @ the threadTs\<rparr>)"

definition withEdit :: "destination \<Rightarrow> string option \<Rightarrow> destination" where
  "withEdit d editRef = (if truthy editRef then d\<lparr>dst_editRef := editRef\<rparr> else d)"

definition withWebTranscriptText :: "destination \<Rightarrow> destination" where
  "withWebTranscriptText d = (if dst_type d = ''web'' then d\<lparr>dst_webTranscript := Some WebReply\<rparr> else d)"

definition isThirdPartyRelay :: "destination \<Rightarrow> string option \<Rightarrow> bool" where
  "isThirdPartyRelay d attributeAs =
     (if attributeAs = None then False
      else if dst_type d = ''group'' then True
      else if dst_type d \<noteq> ''principal'' then False
      else dst_onBehalfOf d \<noteq> Some (dst_target d))"

record reach_enqueue_input =
  re_destination :: destination
  re_text :: string
  re_attachments :: "outgoing_attachment list option"
  re_idempotencyKey :: string
  re_provenance :: "delivery_provenance option"
  re_attributeAs :: "string option"
  re_shadow :: bool

text \<open>What \<open>reachEnqueue\<close> hands to the outbox.\<close>

definition reach_input :: "reach_enqueue_input \<Rightarrow> delivery_input" where
  "reach_input i =
     (if dst_react (re_destination i) \<noteq> None \<or> dst_delete (re_destination i) \<noteq> None
      then \<lparr>dn_destination = re_destination i, dn_text = [], dn_attachments = None, dn_provenance = re_provenance i,
            dn_idempotencyKey = re_idempotencyKey i, dn_shadow = re_shadow i\<rparr>
      else \<lparr>dn_destination = re_destination i,
            dn_text = (if isThirdPartyRelay (re_destination i) (re_attributeAs i) then attributeRelay (re_text i) (re_attributeAs i) else re_text i),
            dn_attachments = nonempty_attachments (re_attachments i), dn_provenance = re_provenance i,
            dn_idempotencyKey = re_idempotencyKey i, dn_shadow = re_shadow i\<rparr>)"

definition reachEnqueue :: "reach_enqueue_input \<Rightarrow> uuid \<Rightarrow> time \<Rightarrow> delivery_store \<Rightarrow> delivery_store \<times> delivery option" where
  "reachEnqueue i u now ds = enqueue_delivery ds (reach_input i) u now"

section \<open>Under the authority of the one who asks\<close>

lemma resolve_named_in:
  "resolve_named (reachDir s pull) qs = Inr ns \<Longrightarrow> n \<in> set ns \<Longrightarrow> \<exists>m \<in> set (di_members s). dm_principalId m = n"
proof (induction qs arbitrary: ns)
  case (Cons q qs)
  have r: "rdr_resolveRecipient (reachDir s pull) q = resolve_member s q" by (simp add: reachDir_def)
  from Cons.prems obtain m ms where "resolve_member s q = ROne m" "resolve_named (reachDir s pull) qs = Inr ms" "ns = dm_principalId m # ms"
    by (auto simp: r split: resolution.splits sum.splits)
  then show ?case using Cons.IH Cons.prems(2) resolve_member_in by auto
qed simp

lemma resolve_group_known:
  assumes "resolve_group_target (reachDir s pull) ps auth mayOpen = (Inr r, reg)"
  shows "\<exists>g. r = groupDestination g \<and>
    ((reg = None \<and> groupMember s g auth) \<or>
     (\<exists>parts. reg = Some (g, parts) \<and> mayOpen \<and> get_member s auth \<noteq> None \<and> auth \<in> set parts \<and> distinct parts \<and>
        2 \<le> length parts \<and> length parts \<le> MAX_GROUP_DM_PARTICIPANTS \<and> openGroupViaSurface pull parts = Some (Inr g) \<and>
        (\<forall>n \<in> set parts. n = auth \<or> (\<exists>m \<in> set (di_members s). dm_principalId m = n))))"
proof -
  let ?d = "reachDir s pull"
  from assms obtain named where n: "resolve_named ?d (js_set_of ps) = Inr named"
    by (auto simp: resolve_group_target_def Let_def split: if_splits sum.splits)
  let ?p = "js_set_of (named @ [auth])"
  have len: "2 \<le> length ?p" "length ?p \<le> MAX_GROUP_DM_PARTICIPANTS"
    using assms n by (auto simp: resolve_group_target_def Let_def split: if_splits)
  show ?thesis
  proof (cases "resolveGroupByParticipants s ?p")
    case (GOne g)
    then show ?thesis using assms n len
      by (auto simp: resolve_group_target_def Let_def reachDir_def split: if_splits)
  next
    case GNone
    then have "mayOpen" "get_member s auth \<noteq> None" "\<exists>g. openGroupViaSurface pull ?p = Some (Inr g) \<and> r = groupDestination g \<and> reg = Some (g, ?p)"
      using assms n len by (auto simp: resolve_group_target_def Let_def reachDir_def split: if_splits option.splits sum.splits)
    then show ?thesis using resolve_named_in [OF n] len by fastforce
  qed
qed

text \<open>
  Whatever a person asks to reach, in a reachable directory: a direct message goes to an internal
  person of the directory, on behalf of the one who asks; a channel is public or has the asker as a
  member; a group has the asker as a member, or was just opened for the asker, who is in the
  directory, with at most seven others, all of them in the directory.
\<close>

theorem reach_within_authority:
  assumes "reach (\<lambda>s. s = createDirectoryStore) directory_step s"
    and "resolveReachTarget (reachDir s pull) target auth mayOpen = (Inr r, reg)"
  shows "(\<exists>m \<in> set (di_members s). dm_type m = Internal \<and> rk_destination r = principalDestination (dm_principalId m) auth \<and> reg = None) \<or>
    (\<exists>c \<in> set (di_channels s). dst_type (rk_destination r) = ''slack'' \<and> dst_target (rk_destination r) = dc_channelId c \<and> reg = None \<and>
       (dc_isPrivate c = Some True \<longrightarrow> channelMember s (dc_channelId c) auth)) \<or>
    (\<exists>g. r = groupDestination g \<and>
       ((reg = None \<and> groupMember s g auth) \<or>
        (\<exists>parts. reg = Some (g, parts) \<and> get_member s auth \<noteq> None \<and> auth \<in> set parts \<and> length parts \<le> 8 \<and>
           (\<forall>n \<in> set parts. n = auth \<or> (\<exists>m \<in> set (di_members s). dm_principalId m = n)))))"
proof -
  have int: "members_internal s" by (rule dirs.reach_inv [OF assms(1)])
  consider (recipient) q where "rt_recipient target = Some q" "resolve_recipient_target (reachDir s pull) q auth = Inr r" "reg = None"
    | (channel) q where "resolve_channel_target (reachDir s pull) q auth = Inr r" "reg = None"
    | (grp) ps where "resolve_group_target (reachDir s pull) ps auth mayOpen = (Inr r, reg)"
    using assms(2) by (auto simp: resolveReachTarget_def split: if_splits option.splits)
  then show ?thesis
  proof cases
    case (recipient q)
    then show ?thesis using int
      by (auto simp: resolve_recipient_target_def reachDir_def members_internal_def dest!: resolve_member_in split: resolution.splits)
  next
    case (channel q)
    then show ?thesis
      by (auto simp: resolve_channel_target_def reachDir_def resolveChannel_def bare_destination_def dest!: pickMatch_in split: resolution.splits if_splits)
  next
    case (grp ps)
    from resolve_group_known [OF this] show ?thesis by (auto simp: MAX_GROUP_DM_PARTICIPANTS_def)
  qed
qed

theorem reach_within_authority_witness:
  "\<exists>r. resolveReachTarget (reachDir ex_directory (\<lambda>_. None)) \<lparr>rt_recipient = None, rt_channel = Some ''#ops'', rt_participants = None\<rparr> ''ann'' False
      = (Inr r, None) \<and> channelMember ex_directory (dst_target (rk_destination r)) ''ann''"
proof -
  let ?c = "\<lparr>dc_channelId = ''C1'', dc_name = ''ops'', dc_isPrivate = Some True, dc_isExternal = None\<rparr>"
  let ?t = "\<lparr>rt_recipient = None, rt_channel = Some ''#ops'', rt_participants = None\<rparr>"
  let ?r = "\<lparr>rk_destination = (bare_destination ''slack'' ''C1'')\<lparr>dst_audienceScopeId := Some (scopeId Channel ''C1'')\<rparr>,
     rk_recipient = None, rk_channel = Some (''C1'', ''ops''), rk_group = None\<rparr>"
  have 1: "reach (\<lambda>s. s = createDirectoryStore) directory_step ex_directory"
    unfolding ex_directory_def by (rule reach.reach_step, rule reach.reach_init, rule refl, rule directory_step.dir_channels)
  have 2: "resolveReachTarget (reachDir ex_directory (\<lambda>_. None)) ?t ''ann'' False = (Inr ?r, None)" by code_simp
  have c: "di_channels ex_directory = [?c]" "di_members ex_directory = []" by code_simp+
  from reach_within_authority [OF 1 2] have "channelMember ex_directory ''C1'' ''ann''"
    by (auto simp: c groupDestination_def bare_destination_def)
  with 2 show ?thesis by (intro exI [of _ ?r]) (simp add: bare_destination_def)
qed

end
