(* ===== verification/Idempotency.thy ===== *)
theory Idempotency
  imports Interfaces
begin

text \<open>
  Running something once per key (\<open>src/idempotency/idempotency-store.ts\<close>). \<open>once\<close> awaits the backing
  store, the work and the backing store again, and other calls run in between: a call is a value with
  a program counter, and each definition below is the code between two awaits. The work itself, the
  passing of time, and other processes that share the backing store are actions of the environment.
\<close>

section \<open>The store and the segments of its operations\<close>

record idempotency_record =
  ir_key :: string
  ir_at :: time

record idempotency_options =
  io_retentionMs :: "int option"
  io_pruneIntervalMs :: "int option"

definition DEFAULT_RETENTION_MS :: int where
  "DEFAULT_RETENTION_MS = 14 * 24 * 60 * 60000"

definition DEFAULT_PRUNE_INTERVAL_MS :: int where
  "DEFAULT_PRUNE_INTERVAL_MS = 60 * 60000"

definition retentionMs :: "idempotency_options \<Rightarrow> int" where
  "retentionMs opts = or_else (io_retentionMs opts) DEFAULT_RETENTION_MS"

definition pruneIntervalMs :: "idempotency_options \<Rightarrow> int" where
  "pruneIntervalMs opts = or_else (io_pruneIntervalMs opts) DEFAULT_PRUNE_INTERVAL_MS"

text \<open>
  Where a call of \<open>once\<close> stands, with the cutoff its check used: waiting for the record of the backing
  store, holding it, told whether the key is committed, running the work, writing the record, done writing.
\<close>

datatype once_pc =
  WaitingGet time
| GotRecord time "idempotency_record option"
| Told time bool
| RunningWork time
| Putting time time
| Stored time time

record once_call =
  oc_key :: string
  oc_pc :: once_pc

text \<open>
  \<open>is_prunes\<close> holds the prunes of the backing store under way: the cutoff of one that waits for the
  records, or the keys one has still to delete. \<open>is_now\<close> is the clock, \<open>is_log\<close> the runs that were
  committed, in order.
\<close>

datatype prune_task = WaitingAll time | Deleting "string list"

record idempotency_store =
  is_now :: time
  is_done :: "(string, time) jsmap"
  is_inflight :: "string list"
  is_lastPruneAt :: time
  is_backing :: "(string, idempotency_record) jsmap option"
  is_calls :: "(nat, once_call) jsmap"
  is_prunes :: "prune_task list"
  is_log :: "(string \<times> time) list"

definition createIdempotencyStore :: "time \<Rightarrow> (string, idempotency_record) jsmap option \<Rightarrow> idempotency_store" where
  "createIdempotencyStore t backing =
     \<lparr>is_now = t, is_done = [], is_inflight = [], is_lastPruneAt = t, is_backing = backing, is_calls = [], is_prunes = [], is_log = []\<rparr>"

definition pruneIfDue :: "idempotency_options \<Rightarrow> time \<Rightarrow> idempotency_store \<Rightarrow> idempotency_store" where
  "pruneIfDue opts t s =
     (if t - is_lastPruneAt s < pruneIntervalMs opts then s
      else
        (let cutoff = t - retentionMs opts;
             s1 = s\<lparr>is_lastPruneAt := t, is_done := filter (\<lambda>(k, a). \<not> a < cutoff) (is_done s)\<rparr>
         in if is_backing s = None then s1 else s1\<lparr>is_prunes := is_prunes s1 @ [WaitingAll cutoff]\<rparr>))"

definition end_call :: "nat \<Rightarrow> string \<Rightarrow> idempotency_store \<Rightarrow> idempotency_store" where
  "end_call c key s = s\<lparr>is_inflight := removeAll key (is_inflight s), is_calls := map_del c (is_calls s)\<rparr>"

definition set_pc :: "nat \<Rightarrow> string \<Rightarrow> once_pc \<Rightarrow> idempotency_store \<Rightarrow> idempotency_store" where
  "set_pc c key pc s = s\<lparr>is_calls := map_set c \<lparr>oc_key = key, oc_pc = pc\<rparr> (is_calls s)\<rparr>"

text \<open>\<open>isCommitted\<close> up to its await: the cached answer, or what to wait for.\<close>

definition isCommitted_start :: "idempotency_options \<Rightarrow> string \<Rightarrow> idempotency_store \<Rightarrow> once_pc" where
  "isCommitted_start opts key s =
     (let cutoff = is_now s - retentionMs opts
      in case map_get (is_done s) key of
           Some cached \<Rightarrow> if cutoff \<le> cached then Told cutoff True
             else if is_backing s = None then Told cutoff False else WaitingGet cutoff
         | None \<Rightarrow> if is_backing s = None then Told cutoff False else WaitingGet cutoff)"

definition isCommitted_end :: "time \<Rightarrow> idempotency_record option \<Rightarrow> idempotency_store \<Rightarrow> idempotency_store \<times> bool" where
  "isCommitted_end cutoff record s =
     (case record of
        Some r \<Rightarrow> if cutoff \<le> ir_at r then (s\<lparr>is_done := map_set (ir_key r) (ir_at r) (is_done s)\<rparr>, True) else (s, False)
      | None \<Rightarrow> (s, False))"

definition once_enter :: "idempotency_options \<Rightarrow> nat \<Rightarrow> string \<Rightarrow> idempotency_store \<Rightarrow> idempotency_store" where
  "once_enter opts c key s =
     (if key \<in> set (is_inflight s) then s
      else set_pc c key (isCommitted_start opts key s) (s\<lparr>is_inflight := set_add key (is_inflight s)\<rparr>))"

text \<open>The next segment of a call; \<open>ok\<close> says whether what it awaits, the work or the write, succeeds.\<close>

definition once_segment :: "idempotency_options \<Rightarrow> nat \<Rightarrow> bool \<Rightarrow> idempotency_store \<Rightarrow> idempotency_store" where
  "once_segment opts c ok s =
     (case map_get (is_calls s) c of
        None \<Rightarrow> s
      | Some call \<Rightarrow>
          (let key = oc_key call
           in case oc_pc call of
                WaitingGet cutoff \<Rightarrow>
                  if ok then set_pc c key (GotRecord cutoff (map_get (or_else (is_backing s) []) key)) s else end_call c key s
              | GotRecord cutoff record \<Rightarrow>
                  (let (s1, committed) = isCommitted_end cutoff record s in set_pc c key (Told cutoff committed) s1)
              | Told cutoff committed \<Rightarrow> if committed then end_call c key s else set_pc c key (RunningWork cutoff) s
              | RunningWork cutoff \<Rightarrow> if ok then set_pc c key (Putting cutoff (is_now s)) s else end_call c key s
              | Putting cutoff t \<Rightarrow>
                  if \<not> ok then end_call c key s
                  else set_pc c key (Stored cutoff t)
                    (s\<lparr>is_backing := map_option (map_set key \<lparr>ir_key = key, ir_at = t\<rparr>) (is_backing s)\<rparr>)
              | Stored cutoff t \<Rightarrow>
                  end_call c key (pruneIfDue opts t (s\<lparr>is_done := map_set key t (is_done s), is_log := is_log s @ [(key, t)]\<rparr>))))"

definition prune_segment :: "bool \<Rightarrow> idempotency_store \<Rightarrow> idempotency_store" where
  "prune_segment ok s =
     (case is_prunes s of
        [] \<Rightarrow> s
      | WaitingAll cutoff # ps \<Rightarrow>
          if ok then s\<lparr>is_prunes := ps @ [Deleting (map ir_key (filter (\<lambda>r. ir_at r < cutoff) (map_vals (or_else (is_backing s) []))))]\<rparr>
          else s\<lparr>is_prunes := ps\<rparr>
      | Deleting [] # ps \<Rightarrow> s\<lparr>is_prunes := ps\<rparr>
      | Deleting (k # ks) # ps \<Rightarrow>
          if ok then s\<lparr>is_backing := map_option (map_del k) (is_backing s), is_prunes := ps @ [Deleting ks]\<rparr>
          else s\<lparr>is_prunes := ps\<rparr>)"

text \<open>
  A call is given an id that no call in progress has. Time passes, and other processes write and
  delete records of the backing store.
\<close>

inductive once_step :: "idempotency_options \<Rightarrow> idempotency_store \<Rightarrow> idempotency_store \<Rightarrow> bool" for opts where
  enter: "map_get (is_calls s) c = None \<Longrightarrow> once_step opts s (once_enter opts c key s)"
| segment: "once_step opts s (once_segment opts c ok s)"
| prune: "once_step opts s (prune_segment ok s)"
| tick: "is_now s \<le> t \<Longrightarrow> once_step opts s (s\<lparr>is_now := t\<rparr>)"
| env_put: "once_step opts s (s\<lparr>is_backing := map_option (map_set k \<lparr>ir_key = k, ir_at = a\<rparr>) (is_backing s)\<rparr>)"
| env_delete: "once_step opts s (s\<lparr>is_backing := map_option (map_del k) (is_backing s)\<rparr>)"

section \<open>The invariant\<close>

fun pc_cutoff :: "once_pc \<Rightarrow> time" where
  "pc_cutoff (WaitingGet t) = t"
| "pc_cutoff (GotRecord t r) = t"
| "pc_cutoff (Told t b) = t"
| "pc_cutoff (RunningWork t) = t"
| "pc_cutoff (Putting t u) = t"
| "pc_cutoff (Stored t u) = t"

text \<open>What holds of a call: its record is its key's; the time of its run is not before its check.\<close>

fun pc_ok :: "idempotency_options \<Rightarrow> time \<Rightarrow> string \<Rightarrow> once_pc \<Rightarrow> bool" where
  "pc_ok opts now key (GotRecord t r) = (t + retentionMs opts \<le> now \<and> (\<forall>x. r = Some x \<longrightarrow> ir_key x = key))"
| "pc_ok opts now key (Putting t u) = (t + retentionMs opts \<le> u \<and> u \<le> now)"
| "pc_ok opts now key (Stored t u) = (t + retentionMs opts \<le> u \<and> u \<le> now)"
| "pc_ok opts now key pc = (pc_cutoff pc + retentionMs opts \<le> now)"

text \<open>A call that may still run the work, or has run it: nothing newer than its cutoff is on record.\<close>

fun pc_free :: "once_pc \<Rightarrow> bool" where
  "pc_free (Told t b) = (\<not> b)"
| "pc_free pc = True"

definition calls_ok :: "idempotency_options \<Rightarrow> idempotency_store \<Rightarrow> bool" where
  "calls_ok opts s =
     (\<forall>c call. map_get (is_calls s) c = Some call \<longrightarrow>
        oc_key call \<in> set (is_inflight s) \<and> pc_ok opts (is_now s) (oc_key call) (oc_pc call) \<and>
        (\<forall>c' call'. map_get (is_calls s) c' = Some call' \<longrightarrow> oc_key call' = oc_key call \<longrightarrow> c' = c))"

definition fresh_calls :: "idempotency_store \<Rightarrow> bool" where
  "fresh_calls s =
     (\<forall>c call. map_get (is_calls s) c = Some call \<longrightarrow> pc_free (oc_pc call) \<longrightarrow>
        (\<forall>a. map_get (is_done s) (oc_key call) = Some a \<longrightarrow> a < pc_cutoff (oc_pc call)) \<and>
        (\<forall>a. (oc_key call, a) \<in> set (is_log s) \<longrightarrow> a < pc_cutoff (oc_pc call)))"

definition log_cached :: "idempotency_options \<Rightarrow> idempotency_store \<Rightarrow> bool" where
  "log_cached opts s =
     (\<forall>k a. (k, a) \<in> set (is_log s) \<longrightarrow> (\<exists>b. map_get (is_done s) k = Some b \<and> a \<le> b) \<or> a < is_now s - retentionMs opts)"

definition log_spaced :: "idempotency_options \<Rightarrow> idempotency_store \<Rightarrow> bool" where
  "log_spaced opts s = sorted_wrt (\<lambda>x y. fst x = fst y \<longrightarrow> snd x + retentionMs opts < snd y) (is_log s)"

definition keys_ok :: "idempotency_store \<Rightarrow> bool" where
  "keys_ok s = (map_ok (is_done s) \<and> (\<forall>k r. map_get (or_else (is_backing s) []) k = Some r \<longrightarrow> ir_key r = k))"

definition once_inv :: "idempotency_options \<Rightarrow> idempotency_store \<Rightarrow> bool" where
  "once_inv opts s = (keys_ok s \<and> calls_ok opts s \<and> fresh_calls s \<and> log_cached opts s \<and> log_spaced opts s)"

lemma once_invI:
  "keys_ok s \<Longrightarrow> calls_ok opts s \<Longrightarrow> fresh_calls s \<Longrightarrow> log_cached opts s \<Longrightarrow> log_spaced opts s \<Longrightarrow> once_inv opts s"
  by (simp add: once_inv_def)

lemma once_invD:
  assumes "once_inv opts s"
  shows "keys_ok s" "calls_ok opts s" "fresh_calls s" "log_cached opts s" "log_spaced opts s"
  using assms by (simp_all add: once_inv_def)

lemma once_inv_init: "keys_ok (createIdempotencyStore t b) \<Longrightarrow> once_inv opts (createIdempotencyStore t b)"
  by (simp add: once_inv_def createIdempotencyStore_def calls_ok_def fresh_calls_def log_cached_def log_spaced_def)

text \<open>What a call of the store satisfies.\<close>

lemma callD:
  assumes "once_inv opts s" "map_get (is_calls s) c = Some call"
  shows "oc_key call \<in> set (is_inflight s)" "pc_ok opts (is_now s) (oc_key call) (oc_pc call)"
    "map_get (is_calls s) c' = Some call' \<Longrightarrow> oc_key call' = oc_key call \<Longrightarrow> c' = c"
    "pc_free (oc_pc call) \<Longrightarrow> map_get (is_done s) (oc_key call) = Some a \<Longrightarrow> a < pc_cutoff (oc_pc call)"
    "pc_free (oc_pc call) \<Longrightarrow> (oc_key call, a) \<in> set (is_log s) \<Longrightarrow> a < pc_cutoff (oc_pc call)"
  using once_invD(2,3) [OF assms(1)] assms(2) unfolding calls_ok_def fresh_calls_def by blast+

lemma set_pc_inv:
  assumes inv: "once_inv opts s" and c: "map_get (is_calls s) c = Some call"
    and pc: "pc_ok opts (is_now s) (oc_key call) pc" "pc_cutoff pc = pc_cutoff (oc_pc call)" "pc_free pc \<longrightarrow> pc_free (oc_pc call)"
  shows "once_inv opts (set_pc c (oc_key call) pc s)"
proof (rule once_invI)
  let ?s = "set_pc c (oc_key call) pc s"
  show "calls_ok opts ?s"
    using callD(1-3) [OF inv] c pc(1) unfolding calls_ok_def set_pc_def by (auto split: if_splits)
  show "fresh_calls ?s"
    using callD(4,5) [OF inv] c pc(2,3) unfolding fresh_calls_def set_pc_def by (auto split: if_splits)
qed (use once_invD [OF inv] in \<open>simp_all add: keys_ok_def log_cached_def log_spaced_def set_pc_def\<close>)

lemma end_call_inv:
  assumes inv: "once_inv opts s" and c: "map_get (is_calls s) c = Some call"
  shows "once_inv opts (end_call c (oc_key call) s)"
proof (rule once_invI)
  show "calls_ok opts (end_call c (oc_key call) s)"
    using callD(1-3) [OF inv] c unfolding calls_ok_def end_call_def by (auto split: if_splits)
  show "fresh_calls (end_call c (oc_key call) s)"
    using callD(4,5) [OF inv] unfolding fresh_calls_def end_call_def by (auto split: if_splits)
qed (use once_invD [OF inv] in \<open>simp_all add: keys_ok_def log_cached_def log_spaced_def end_call_def\<close>)

lemma ended_not_calling:
  assumes "once_inv opts s" "map_get (is_calls s) c = Some call" "map_get (is_calls (end_call c (oc_key call) s)) c' = Some call'"
  shows "oc_key call' \<noteq> oc_key call"
  using callD(3) [OF assms(1,2), of c' call'] assms(3) by (auto simp: end_call_def split: if_splits)

lemma backing_inv:
  assumes "once_inv opts s" "\<And>k r. map_get (or_else b []) k = Some r \<Longrightarrow> ir_key r = k"
  shows "once_inv opts (s\<lparr>is_backing := b\<rparr>)"
  using once_invD [OF assms(1)] assms(2)
  by (intro once_invI) (simp_all add: keys_ok_def calls_ok_def fresh_calls_def log_cached_def log_spaced_def)

lemma prunes_inv: "once_inv opts s \<Longrightarrow> once_inv opts (s\<lparr>is_prunes := p\<rparr>)"
  by (simp add: once_inv_def keys_ok_def calls_ok_def fresh_calls_def log_cached_def log_spaced_def)

lemma pc_ok_later: "pc_ok opts t k pc \<Longrightarrow> t \<le> u \<Longrightarrow> pc_ok opts u k pc"
  by (cases pc) auto

lemma tick_inv:
  assumes "once_inv opts s" "is_now s \<le> t"
  shows "once_inv opts (s\<lparr>is_now := t\<rparr>)"
proof (rule once_invI)
  show "calls_ok opts (s\<lparr>is_now := t\<rparr>)"
    using once_invD(2) [OF assms(1)] pc_ok_later assms(2) unfolding calls_ok_def by simp blast
  show "log_cached opts (s\<lparr>is_now := t\<rparr>)"
    using once_invD(4) [OF assms(1)] assms(2) unfolding log_cached_def by fastforce
qed (use once_invD [OF assms(1)] in \<open>simp_all add: keys_ok_def fresh_calls_def log_spaced_def\<close>)

lemma pruneIfDue_inv:
  assumes inv: "once_inv opts s" and t: "t \<le> is_now s"
  shows "once_inv opts (pruneIfDue opts t s)"
proof -
  let ?f = "filter (\<lambda>(k, a). \<not> a < t - retentionMs opts) (is_done s)"
  have ok: "map_ok (is_done s)" using once_invD(1) [OF inv] by (simp add: keys_ok_def)
  have get: "map_get ?f k = Some a \<longleftrightarrow> map_get (is_done s) k = Some a \<and> \<not> a < t - retentionMs opts" for k a
    by (auto simp: map_get_filter [OF ok] split: option.splits)
  have "once_inv opts (s\<lparr>is_lastPruneAt := t, is_done := ?f\<rparr>)"
  proof (rule once_invI)
    show "fresh_calls (s\<lparr>is_lastPruneAt := t, is_done := ?f\<rparr>)"
      using once_invD(3) [OF inv] by (simp add: fresh_calls_def get)
    show "log_cached opts (s\<lparr>is_lastPruneAt := t, is_done := ?f\<rparr>)"
      using once_invD(4) [OF inv] t unfolding log_cached_def by (simp add: get) force
  qed (use once_invD [OF inv] in \<open>simp_all add: keys_ok_def calls_ok_def log_spaced_def\<close>)
  then show ?thesis using inv prunes_inv by (auto simp: pruneIfDue_def Let_def)
qed

lemma commit_inv:
  assumes inv: "once_inv opts s" and none: "\<And>c call. map_get (is_calls s) c = Some call \<Longrightarrow> oc_key call \<noteq> k"
    and old: "\<And>a. (k, a) \<in> set (is_log s) \<Longrightarrow> a + retentionMs opts < t" and ret: "0 \<le> retentionMs opts"
  shows "once_inv opts (s\<lparr>is_done := map_set k t (is_done s), is_log := is_log s @ [(k, t)]\<rparr>)"
    (is "once_inv opts ?s")
proof (rule once_invI)
  show "fresh_calls ?s"
    using once_invD(3) [OF inv] none unfolding fresh_calls_def by simp
  show "log_cached opts ?s"
    using once_invD(4) [OF inv] old ret unfolding log_cached_def by fastforce
  show "log_spaced opts ?s"
    using once_invD(5) [OF inv] old unfolding log_spaced_def by (auto simp: sorted_wrt_append)
qed (use once_invD [OF inv] in \<open>simp_all add: keys_ok_def calls_ok_def\<close>)

lemma pruneIfDue_calls [simp]: "is_calls (pruneIfDue opts t s) = is_calls s" "is_inflight (pruneIfDue opts t s) = is_inflight s"
  by (simp_all add: pruneIfDue_def Let_def)

lemma end_call_commute:
  "end_call c k (pruneIfDue opts t (s\<lparr>is_done := d, is_log := l\<rparr>)) = pruneIfDue opts t ((end_call c k s)\<lparr>is_done := d, is_log := l\<rparr>)"
  by (simp add: pruneIfDue_def end_call_def Let_def)

lemma stored_inv:
  assumes inv: "once_inv opts s" and c: "map_get (is_calls s) c = Some call" and pc: "oc_pc call = Stored cutoff t"
    and ret: "0 \<le> retentionMs opts"
  shows "once_inv opts (end_call c (oc_key call)
    (pruneIfDue opts t (s\<lparr>is_done := map_set (oc_key call) t (is_done s), is_log := is_log s @ [(oc_key call, t)]\<rparr>)))"
proof -
  let ?e = "end_call c (oc_key call) s"
  have t: "cutoff + retentionMs opts \<le> t" "t \<le> is_now s" using callD(2) [OF inv c] pc by simp_all
  have old: "a + retentionMs opts < t" if "(oc_key call, a) \<in> set (is_log ?e)" for a
    using callD(5) [OF inv c, of a] that pc t(1) by (simp add: end_call_def)
  have "once_inv opts (?e\<lparr>is_done := map_set (oc_key call) t (is_done ?e), is_log := is_log ?e @ [(oc_key call, t)]\<rparr>)"
    by (rule commit_inv [OF end_call_inv [OF inv c] ended_not_calling [OF inv c] old ret])
  then have "once_inv opts (pruneIfDue opts t (?e\<lparr>is_done := map_set (oc_key call) t (is_done ?e), is_log := is_log ?e @ [(oc_key call, t)]\<rparr>))"
    by (rule pruneIfDue_inv) (simp add: end_call_def t(2))
  then show ?thesis unfolding end_call_commute by (simp add: end_call_def)
qed

lemma got_record_inv:
  assumes inv: "once_inv opts s" and c: "map_get (is_calls s) c = Some call" and pc: "oc_pc call = GotRecord cutoff r"
  shows "once_inv opts (case isCommitted_end cutoff r s of (s1, committed) \<Rightarrow> set_pc c (oc_key call) (Told cutoff committed) s1)"
proof (cases "\<exists>x. r = Some x \<and> cutoff \<le> ir_at x")
  case False
  then have "isCommitted_end cutoff r s = (s, False)" by (cases r) (auto simp: isCommitted_end_def)
  then show ?thesis using set_pc_inv [OF inv c, of "Told cutoff False"] callD(2) [OF inv c] pc by simp
next
  case True
  then obtain x where x: "r = Some x" "cutoff \<le> ir_at x" "ir_key x = oc_key call" using callD(2) [OF inv c] pc by auto
  let ?s = "set_pc c (oc_key call) (Told cutoff True) s"
  have i: "once_inv opts ?s" using set_pc_inv [OF inv c, of "Told cutoff True"] callD(2) [OF inv c] pc by simp
  have old: "a < cutoff" if "(oc_key call, a) \<in> set (is_log s)" for a using callD(5) [OF inv c, of a] that pc by simp
  have "once_inv opts (?s\<lparr>is_done := map_set (oc_key call) (ir_at x) (is_done ?s)\<rparr>)"
  proof (rule once_invI)
    show "fresh_calls (?s\<lparr>is_done := map_set (oc_key call) (ir_at x) (is_done ?s)\<rparr>)"
      using callD(4,5) [OF inv] callD(3) [OF inv c] unfolding fresh_calls_def set_pc_def by (auto split: if_splits)
    show "log_cached opts (?s\<lparr>is_done := map_set (oc_key call) (ir_at x) (is_done ?s)\<rparr>)"
      using once_invD(4) [OF inv] old x(2) unfolding log_cached_def set_pc_def by fastforce
  qed (use once_invD [OF i] in \<open>simp_all add: keys_ok_def calls_ok_def log_spaced_def\<close>)
  moreover have "set_pc c k pc (s\<lparr>is_done := d\<rparr>) = (set_pc c k pc s)\<lparr>is_done := d\<rparr>" for k pc d
    by (cases s) (simp add: set_pc_def)
  moreover have "is_done ?s = is_done s" by (simp add: set_pc_def)
  ultimately show ?thesis by (simp add: x isCommitted_end_def)
qed

lemma once_segment_inv:
  assumes inv: "once_inv opts s" and ret: "0 \<le> retentionMs opts"
  shows "once_inv opts (once_segment opts c ok s)"
proof (cases "map_get (is_calls s) c")
  case None
  then show ?thesis using inv by (simp add: once_segment_def)
next
  case (Some call)
  note pc = set_pc_inv [OF inv Some] and ended = end_call_inv [OF inv Some] and now = callD(2) [OF inv Some]
  have k: "map_get (or_else (is_backing s) []) i = Some r \<Longrightarrow> ir_key r = i" for i r
    using once_invD(1) [OF inv] by (simp add: keys_ok_def)
  show ?thesis
  proof (cases "oc_pc call")
    case (Putting cutoff t)
    have "once_inv opts (s\<lparr>is_backing := map_option (map_set (oc_key call) \<lparr>ir_key = oc_key call, ir_at = t\<rparr>) (is_backing s)\<rparr>)"
      by (rule backing_inv [OF inv]) (use k in \<open>auto split: if_splits simp: or_else_def split: option.splits\<close>)
    from set_pc_inv [OF this, of c call "Stored cutoff t"] Some Putting now ended
    show ?thesis by (simp add: once_segment_def Let_def)
  next
    case (Stored cutoff t)
    then show ?thesis using stored_inv [OF inv Some Stored ret] Some by (simp add: once_segment_def Let_def)
  next
    case (GotRecord cutoff r)
    then show ?thesis using got_record_inv [OF inv Some GotRecord] Some by (simp add: once_segment_def Let_def)
  qed (use pc ended now k Some in \<open>simp_all add: once_segment_def Let_def\<close>)
qed

lemma once_enter_inv:
  assumes inv: "once_inv opts s" and c: "map_get (is_calls s) c = None"
  shows "once_inv opts (once_enter opts c key s)"
proof (cases "key \<in> set (is_inflight s)")
  case False
  let ?pc = "isCommitted_start opts key s" and ?e = "once_enter opts c key s"
  have pc: "pc_cutoff ?pc = is_now s - retentionMs opts" "pc_ok opts (is_now s) key ?pc"
    "pc_free ?pc \<Longrightarrow> map_get (is_done s) key = Some a \<Longrightarrow> a < pc_cutoff ?pc" for a
    by (auto simp: isCommitted_start_def Let_def split: option.splits)
  have log: "a < pc_cutoff ?pc" if "pc_free ?pc" "(key, a) \<in> set (is_log s)" for a
    using that once_invD(4) [OF inv] pc(3) unfolding log_cached_def pc(1) by fastforce
  have other: "oc_key call \<noteq> key" if "map_get (is_calls s) d = Some call" for d call
    using callD(1) [OF inv that] False by auto
  have e: "?e = set_pc c key ?pc (s\<lparr>is_inflight := set_add key (is_inflight s)\<rparr>)" using False by (simp add: once_enter_def)
  show ?thesis
  proof (rule once_invI)
    show "calls_ok opts ?e"
      using callD(1-3) [OF inv] pc(2) unfolding calls_ok_def e set_pc_def by (auto split: if_splits dest: other)
    show "fresh_calls ?e"
      using callD(4,5) [OF inv] pc(3) log unfolding fresh_calls_def e set_pc_def by (auto split: if_splits)
  qed (use once_invD [OF inv] in \<open>simp_all add: e keys_ok_def log_cached_def log_spaced_def set_pc_def\<close>)
qed (simp add: once_enter_def inv)

lemma prune_segment_inv:
  assumes inv: "once_inv opts s"
  shows "once_inv opts (prune_segment ok s)"
proof -
  have k: "map_get (or_else (is_backing s) []) i = Some r \<Longrightarrow> ir_key r = i" for i r
    using once_invD(1) [OF inv] by (simp add: keys_ok_def)
  have "once_inv opts (s\<lparr>is_backing := map_option (map_del x) (is_backing s)\<rparr>)" for x
    by (rule backing_inv [OF inv]) (use k in \<open>auto split: if_splits simp: or_else_def split: option.splits\<close>)
  then show ?thesis using inv prunes_inv
    by (auto simp: prune_segment_def split: list.splits prune_task.splits)
qed

lemma once_step_inv:
  assumes "once_step opts s s'" "0 \<le> retentionMs opts" "once_inv opts s"
  shows "once_inv opts s'"
proof -
  have k: "map_get (or_else (is_backing s) []) i = Some r \<Longrightarrow> ir_key r = i" for i r
    using once_invD(1) [OF assms(3)] by (simp add: keys_ok_def)
  from assms show ?thesis
  proof (induction rule: once_step.induct)
    case (env_put s x a)
    then show ?case using once_invD(1) [of opts s] by (intro backing_inv) (auto simp: keys_ok_def or_else_def split: if_splits option.splits)
  next
    case (env_delete s x)
    then show ?case using once_invD(1) [of opts s] by (intro backing_inv) (auto simp: keys_ok_def or_else_def split: if_splits option.splits)
  qed (simp_all add: once_enter_inv once_segment_inv prune_segment_inv tick_inv)
qed

abbreviation fresh_store :: "idempotency_store \<Rightarrow> bool" where
  "fresh_store s \<equiv> \<exists>t b. s = createIdempotencyStore t b \<and> keys_ok s"

interpretation idm: invariant_system fresh_store "once_step opts" "\<lambda>s. 0 \<le> retentionMs opts \<longrightarrow> once_inv opts s" for opts
  by unfold_locales (auto intro: once_inv_init once_step_inv)

section \<open>Once per retention\<close>


definition ex_once :: idempotency_options where
  "ex_once = \<lparr>io_retentionMs = Some 5, io_pruneIntervalMs = Some 1\<rparr>"

definition ex_once1 :: idempotency_store where
  "ex_once1 = fold (once_segment ex_once 0) (replicate 6 True) (once_enter ex_once 0 ''k'' (createIdempotencyStore 0 (Some [])))"

definition ex_once2 :: idempotency_store where
  "ex_once2 = fold (once_segment ex_once 1) (replicate 6 True) (once_enter ex_once 1 ''k'' (ex_once1\<lparr>is_now := 9\<rparr>))"

lemma reach_segments: "reach i (once_step opts) s \<Longrightarrow> reach i (once_step opts) (fold (once_segment opts c) oks s)"
  by (induction oks arbitrary: s) (auto intro: reach.reach_step once_step.segment)


section \<open>A call on its own\<close>

text \<open>
  A call that nothing else interleaves with, as its clients compose it: \<open>work\<close> takes the state of the
  world and may throw. The result is \<open>None\<close> when the work was not run.
\<close>

definition isCommitted :: "idempotency_options \<Rightarrow> string \<Rightarrow> idempotency_store \<Rightarrow> idempotency_store \<times> bool" where
  "isCommitted opts key s =
     (case isCommitted_start opts key s of
        WaitingGet cutoff \<Rightarrow> isCommitted_end cutoff (map_get (or_else (is_backing s) []) key) s
      | Told _ b \<Rightarrow> (s, b)
      | _ \<Rightarrow> (s, False))"

definition commit_key :: "idempotency_options \<Rightarrow> string \<Rightarrow> idempotency_store \<Rightarrow> idempotency_store" where
  "commit_key opts key s =
     pruneIfDue opts (is_now s)
       (s\<lparr>is_backing := map_option (map_set key \<lparr>ir_key = key, ir_at = is_now s\<rparr>) (is_backing s),
          is_done := map_set key (is_now s) (is_done s), is_log := is_log s @ [(key, is_now s)]\<rparr>)"

definition once_now ::
  "idempotency_options \<Rightarrow> string \<Rightarrow> ('w \<Rightarrow> 'w \<times> ('e + 'a)) \<Rightarrow> idempotency_store \<Rightarrow> 'w \<Rightarrow> idempotency_store \<times> 'w \<times> ('e + 'a option)" where
  "once_now opts key work s w =
     (if key \<in> set (is_inflight s) then (s, w, Inr None)
      else
        (case isCommitted opts key s of
           (s1, True) \<Rightarrow> (s1, w, Inr None)
         | (s1, False) \<Rightarrow>
             (case work w of
                (w', Inl e) \<Rightarrow> (s1, w', Inl e)
              | (w', Inr x) \<Rightarrow> (commit_key opts key s1, w', Inr (Some x)))))"

text \<open>It is the segments of a call run one after the other.\<close>

lemma call_gone: "map_get (is_calls s) c = None \<Longrightarrow> once_segment opts c ok s = s"
  by (simp add: once_segment_def)

lemma map_del_set_fresh: "map_get m c = None \<Longrightarrow> map_del c (map_set c v m) = m"
  by (induction m) (auto simp: delete_notin_dom split: if_splits)

lemma removeAll_added: "x \<notin> set xs \<Longrightarrow> removeAll x (set_add x xs) = xs"
  by (simp add: set_add_def removeAll_id)

text \<open>The store while a call that is alone for its key stands at a program counter.\<close>

definition busy :: "nat \<Rightarrow> string \<Rightarrow> once_pc \<Rightarrow> idempotency_store \<Rightarrow> idempotency_store" where
  "busy c key pc s = s\<lparr>is_inflight := set_add key (is_inflight s), is_calls := map_set c \<lparr>oc_key = key, oc_pc = pc\<rparr> (is_calls s)\<rparr>"

definition idle :: "nat \<Rightarrow> string \<Rightarrow> idempotency_store \<Rightarrow> bool" where
  "idle c key s = (map_get (is_calls s) c = None \<and> key \<notin> set (is_inflight s))"

lemma end_busy: "idle c key s \<Longrightarrow> end_call c key (busy c key pc s) = s"
  by (cases s) (simp add: idle_def busy_def end_call_def map_del_set_fresh removeAll_added)

lemma enter_busy: "idle c key s \<Longrightarrow> once_enter opts c key s = busy c key (isCommitted_start opts key s) s"
  by (simp add: idle_def once_enter_def busy_def set_pc_def)

lemma set_pc_busy: "set_pc c key pc (busy c key pc' s) = busy c key pc s"
  by (simp add: set_pc_def busy_def map_set_set)

lemma busy_sel [simp]:
  "map_get (is_calls (busy c key pc s)) c = Some \<lparr>oc_key = key, oc_pc = pc\<rparr>" "is_now (busy c key pc s) = is_now s"
  "is_backing (busy c key pc s) = is_backing s" "is_done (busy c key pc s) = is_done s" "is_log (busy c key pc s) = is_log s"
  by (simp_all add: busy_def)

lemma busy_upd:
  "(busy c key pc s)\<lparr>is_backing := b\<rparr> = busy c key pc (s\<lparr>is_backing := b\<rparr>)"
  "(busy c key pc s)\<lparr>is_done := d\<rparr> = busy c key pc (s\<lparr>is_done := d\<rparr>)"
  "(busy c key pc s)\<lparr>is_log := l\<rparr> = busy c key pc (s\<lparr>is_log := l\<rparr>)"
  "pruneIfDue opts t (busy c key pc s) = busy c key pc (pruneIfDue opts t s)"
  by (cases s; simp add: busy_def pruneIfDue_def Let_def)+

lemma busy_committed: "isCommitted_end t r (busy c key pc s) = (busy c key pc (fst (isCommitted_end t r s)), snd (isCommitted_end t r s))"
  by (simp add: isCommitted_end_def busy_upd split: option.split)

lemma idle_upd [simp]:
  "idle c key (s\<lparr>is_backing := b\<rparr>) = idle c key s" "idle c key (s\<lparr>is_done := d\<rparr>) = idle c key s"
  "idle c key (s\<lparr>is_log := l\<rparr>) = idle c key s"
  "idle c key (pruneIfDue opts t s) = idle c key s" "idle c key (fst (isCommitted_end t r s)) = idle c key s"
  by (simp_all add: idle_def isCommitted_end_def split: option.split)

lemma segment_busy:
  assumes "idle c key s"
  shows "once_segment opts c True (busy c key (WaitingGet t) s) = busy c key (GotRecord t (map_get (or_else (is_backing s) []) key)) s"
    "once_segment opts c True (busy c key (GotRecord t r) s) = busy c key (Told t (snd (isCommitted_end t r s))) (fst (isCommitted_end t r s))"
    "once_segment opts c True (busy c key (Told t True) s) = s"
    "once_segment opts c True (busy c key (Told t False) s) = busy c key (RunningWork t) s"
    "once_segment opts c True (busy c key (RunningWork t) s) = busy c key (Putting t (is_now s)) s"
    "once_segment opts c True (busy c key (Putting t u) s) =
       busy c key (Stored t u) (s\<lparr>is_backing := map_option (map_set key \<lparr>ir_key = key, ir_at = u\<rparr>) (is_backing s)\<rparr>)"
    "once_segment opts c True (busy c key (Stored t u) s) =
       pruneIfDue opts u (s\<lparr>is_done := map_set key u (is_done s), is_log := is_log s @ [(key, u)]\<rparr>)"
  using assms by (simp_all add: once_segment_def Let_def set_pc_busy busy_upd end_busy busy_committed)

lemma segment_idle: "idle c key s \<Longrightarrow> once_segment opts c ok s = s"
  by (simp add: idle_def call_gone)

text \<open>A call whose work succeeds is the entry and its segments, at most six, run one after the other.\<close>

lemma once_now_is_segments:
  assumes "idle c key s" "work w = (w', Inr x)"
  shows "fst (once_now opts key work s w) = fold (once_segment opts c) (replicate 6 True) (once_enter opts c key s)"
proof -
  have k: "key \<notin> set (is_inflight s)" using assms(1) by (simp add: idle_def)
  have commit: "pruneIfDue opts (is_now r) (r\<lparr>is_backing := map_option (map_set key \<lparr>ir_key = key, ir_at = is_now r\<rparr>) (is_backing r),
      is_done := map_set key (is_now r) (is_done r), is_log := is_log r @ [(key, is_now r)]\<rparr>) = commit_key opts key r" for r
    by (simp add: commit_key_def)
  have idle': "idle c key (commit_key opts key r) = idle c key r" for r
    by (simp add: commit_key_def idle_def)
  let ?t = "is_now s - retentionMs opts"
  have "(\<exists>b. isCommitted_start opts key s = Told ?t b) \<or> isCommitted_start opts key s = WaitingGet ?t"
    by (auto simp: isCommitted_start_def Let_def split: option.split)
  then show ?thesis
  proof
    assume "\<exists>b. isCommitted_start opts key s = Told ?t b"
    then obtain b where "isCommitted_start opts key s = Told ?t b" ..
    then show ?thesis using assms k commit [of s]
      by (cases b) (simp_all add: once_now_def isCommitted_def enter_busy segment_busy segment_idle [where key = key] numeral_eq_Suc idle' )
  next
    assume start: "isCommitted_start opts key s = WaitingGet ?t"
    let ?e = "isCommitted_end ?t (map_get (or_else (is_backing s) []) key) s"
    obtain s1 b where e: "?e = (s1, b)" by fastforce
    have i: "idle c key s1" using assms(1) idle_upd(5) [of c key ?t "map_get (or_else (is_backing s) []) key" s] e by simp
    show ?thesis using assms k i start commit [of s1] e
      by (cases b) (simp_all add: once_now_def isCommitted_def enter_busy segment_busy segment_idle [where key = key] numeral_eq_Suc idle')
  qed
qed

text \<open>A key on record with a time no older than \<open>a\<close>.\<close>

definition kept :: "string \<Rightarrow> time \<Rightarrow> idempotency_store \<Rightarrow> bool" where
  "kept key a s = (\<exists>b. map_get (is_done s) key = Some b \<and> a \<le> b)"

lemma kept_once:
  "kept key a s \<Longrightarrow> is_now s - retentionMs opts \<le> a \<Longrightarrow> once_now opts key work s w = (s, w, Inr None)"
  by (auto simp: kept_def once_now_def isCommitted_def isCommitted_start_def Let_def)

lemma isCommitted_store:
  "isCommitted opts key s = (s', b) \<Longrightarrow> is_now s' = is_now s \<and> is_inflight s' = is_inflight s \<and> (\<forall>k a. k \<noteq> key \<longrightarrow> kept k a s' = kept k a s)"
  if "keys_ok s"
  using that by (auto simp: isCommitted_def isCommitted_start_def isCommitted_end_def Let_def kept_def keys_ok_def
      split: option.splits if_splits)

lemma pruneIfDue_now [simp]: "is_now (pruneIfDue opts t s) = is_now s" "is_backing (pruneIfDue opts t s) = is_backing s"
  by (simp_all add: pruneIfDue_def Let_def)

lemma map_get_filter_keep:
  "map_get m k = Some v \<Longrightarrow> P (k, v) \<Longrightarrow> map_get (filter P m) k = Some v"
  by (induction m) (auto split: if_splits)

lemma kept_prune: "kept k a s \<Longrightarrow> t - retentionMs opts \<le> a \<Longrightarrow> kept k a (pruneIfDue opts t s)"
  by (auto simp: kept_def pruneIfDue_def Let_def intro!: exI map_get_filter_keep)

lemma keys_ok_prune: "keys_ok s \<Longrightarrow> keys_ok (pruneIfDue opts t s)"
  by (simp add: keys_ok_def pruneIfDue_def Let_def)

lemma commit_now [simp]: "is_now (commit_key opts key s) = is_now s"
  by (simp add: commit_key_def)

lemma kept_commit: "0 \<le> retentionMs opts \<Longrightarrow> kept key (is_now s) (commit_key opts key s)"
  unfolding commit_key_def by (rule kept_prune) (simp_all add: kept_def)

lemma kept_commit_other: "kept k a s \<Longrightarrow> k \<noteq> key \<Longrightarrow> is_now s - retentionMs opts \<le> a \<Longrightarrow> kept k a (commit_key opts key s)"
  unfolding commit_key_def by (rule kept_prune) (simp_all add: kept_def)

lemma keys_ok_commit: "keys_ok s \<Longrightarrow> keys_ok (commit_key opts key s)"
  unfolding commit_key_def
  by (rule keys_ok_prune) (auto simp: keys_ok_def or_else_def split: option.splits if_splits)

lemma keys_ok_committed: "isCommitted opts key s = (s', b) \<Longrightarrow> keys_ok s \<Longrightarrow> keys_ok s'"
  by (auto simp: isCommitted_def isCommitted_start_def isCommitted_end_def Let_def keys_ok_def split: option.splits if_splits)

lemma once_now_kept:
  assumes once: "once_now opts key work s w = (s', w', r)" and ret: "0 \<le> retentionMs opts" and keys: "keys_ok s"
  shows "is_now s' = is_now s" "keys_ok s'" "kept k a s \<Longrightarrow> is_now s - retentionMs opts \<le> a \<Longrightarrow> kept k a s'"
    "r = Inr (Some x) \<Longrightarrow> kept key (is_now s) s'"
proof -
  obtain s1 b where c: "isCommitted opts key s = (s1, b)" by fastforce
  note i = isCommitted_store [OF keys c]
  show "is_now s' = is_now s" using once i
    by (auto simp: once_now_def c split: if_splits prod.splits sum.splits bool.splits)
  show "keys_ok s'" using once keys keys_ok_committed [OF c keys] keys_ok_commit
    by (auto simp: once_now_def c split: if_splits prod.splits sum.splits bool.splits)
  show "kept key (is_now s) s'" if "r = Inr (Some x)"
    using once that i kept_commit [OF ret, of key s1]
    by (auto simp: once_now_def c split: if_splits prod.splits sum.splits bool.splits)
  show "kept k a s'" if "kept k a s" "is_now s - retentionMs opts \<le> a"
  proof (cases "k = key")
    case True
    then show ?thesis using kept_once [of key a s opts work w] that once by simp
  next
    case False
    then show ?thesis using once that i kept_commit_other [of k a s1 key opts]
      by (auto simp: once_now_def c split: if_splits prod.splits sum.splits bool.splits)
  qed
qed

end
