(* ===== verification/Trigger_Run.thy ===== *)
theory Trigger_Run
  imports Reach Idempotency
begin

text \<open>
  An unattended run (\<open>src/triggers/run-trigger.ts\<close>): who a trigger acts for, whether that person may
  still act in the trigger's home, whether the recipient consented and the destination is visible,
  and the fire itself, once per fire key. The turn (\<open>deps.run\<close>), the identity service, the current
  members, the directory and the sessions of a person are arguments; a read of theirs that the code
  lets fail into a default is that default. The user-facing texts with characters beyond the model's
  strings are the argument \<open>tdp_copy\<close>. The calls of \<open>deps.run\<close> are the trace \<open>tw_runs\<close>.
\<close>

section \<open>Data\<close>

datatype trigger_copy =
  MEMBERSHIP_SKIP_NOTE | UNKNOWN_HOME_SKIP_NOTE | NotVisibleNote | ConsentDeclinedNote | ConsentAwaitedNote | PendingApprovalNote
| SecurityQuarantineText | SessionBusyClause | GenericFailureClause

record trigger_directory = visibility_directory +
  td_displayName :: "string \<Rightarrow> string option"
  td_channelPrivacy :: "(string \<Rightarrow> bool option) option"
  td_groupMembership :: "(string \<Rightarrow> string \<Rightarrow> bool option) option"

datatype trigger_conversation =
  ConvDm string
| ConvRoom scope_kind string string "(string \<times> string list option) list option"

record trigger_request =
  tq_surface :: string
  tq_actor :: string
  tq_conversation :: trigger_conversation
  tq_text :: string
  tq_securityScreenData :: "string option"
  tq_triggered :: bool
  tq_unattendedGrants :: "string list option"
  tq_thinkingLevel :: "string option"
  tq_fastMode :: "bool option"
  tq_readOnly :: bool
  tq_turnWallClockMs :: "int option"
  tq_triggerDestination :: "destination option"
  tq_surfaceTools :: bool
  tq_addressed :: bool
  tq_ownerKeychainUnion :: bool
  tq_idempotencyKey :: string

record trigger_deps =
  tdp_classify :: "string \<Rightarrow> principal_type"
  tdp_run :: "trigger_request \<Rightarrow> string + turn_result"
  tdp_currentScopeMembers :: "(scope_id \<Rightarrow> principal list option) option"
  tdp_directory :: "trigger_directory option"
  tdp_listByParticipant :: "(string \<Rightarrow> scope_id list) option"
  tdp_copy :: "trigger_copy \<Rightarrow> string"
  tdp_idempotency :: idempotency_options

record trigger_spec =
  ts_title :: "string option"
  ts_owner :: string
  ts_ownerScopeId :: scope_id
  ts_input :: string
  ts_securityScreenData :: "string option"
  ts_fireKey :: string
  ts_surface :: string
  ts_destination :: "destination option"
  ts_message :: "string option"
  ts_threadRef :: "string option"
  ts_runAs :: "run_as option"
  ts_unattendedGrants :: "string list option"
  ts_members :: "principal list option"
  ts_recipientConsent :: "recipient_consent option"
  ts_recipientConsentRequired :: bool
  ts_shadow :: bool
  ts_thinkingLevel :: "string option"
  ts_readOnly :: bool
  ts_turnWallClockMs :: "int option"
  ts_errorNotice :: "(string \<Rightarrow> string) option"
  ts_onClaimed :: "bool option"
  ts_deferWhenBusy :: bool

record trigger_outcome =
  to_authzFailed :: bool
  to_ran :: bool
  to_deferred :: bool
  to_status :: "turn_status option"
  to_note :: "string option"
  to_userNote :: "string option"
  to_reply :: "string option"
  to_sessionId :: "string option"

record trigger_world =
  tw_deliveries :: delivery_store
  tw_runs :: "trigger_request list"

datatype fire_error = FireDeferred | FireFailed string

definition isTriggerFailure :: "trigger_outcome \<Rightarrow> bool" where
  "isTriggerFailure o' = (to_ran o' \<and> to_status o' \<noteq> None \<and> to_status o' \<noteq> Some TOk \<and> to_status o' \<noteq> Some TSilent)"

fun status_name :: "turn_status \<Rightarrow> string" where
  "status_name TOk = ''ok''"
| "status_name TRefused = ''refused''"
| "status_name TFailed = ''failed''"
| "status_name TPendingApproval = ''pending_approval''"
| "status_name TQueued = ''queued''"
| "status_name TSilent = ''silent''"
| "status_name TReact = ''react''"

section \<open>Silent replies\<close>

definition NO_UPDATE_SENTINEL :: string where
  "NO_UPDATE_SENTINEL = ''[no-update]''"

definition SILENT_POLL_MARKERS :: "string list" where
  "SILENT_POLL_MARKERS = [NO_UPDATE_SENTINEL, ''no_reply'', ''[silent]'']"

definition isPollSurface :: "string \<Rightarrow> bool" where
  "isPollSurface surface = (surface \<in> set [''cron'', ''webhook'', ''monitor''])"

definition trimEnd :: "string \<Rightarrow> string" where
  "trimEnd s = rev (dropWhile is_space (rev s))"

text \<open>\<open>split(/\r?\n/)\<close>: a carriage return before the line feed belongs to the separator.\<close>

definition split_lines :: "string \<Rightarrow> string list" where
  "split_lines s =
     (let ls = split_on (CHR 10) s; cut = (\<lambda>l. if l \<noteq> [] \<and> last l = CHR 13 then butlast l else l)
      in map cut (butlast ls) @ [last ls])"

definition isSilentPollReply :: "string \<Rightarrow> bool" where
  "isSilentPollReply reply =
     (case List.find (\<lambda>l. trim l \<noteq> []) (rev (split_lines (trimEnd reply))) of
        None \<Rightarrow> True
      | Some line \<Rightarrow> toLowerCase (trim line) \<in> set SILENT_POLL_MARKERS)"

section \<open>Whom the trigger acts for and where\<close>

definition participatesInScope :: "trigger_deps \<Rightarrow> string \<Rightarrow> scope_id \<Rightarrow> bool" where
  "participatesInScope deps actorId scope =
     (case tdp_listByParticipant deps of None \<Rightarrow> False | Some f \<Rightarrow> scope \<in> set (f actorId))"

text \<open>\<open>None\<close> is access, \<open>Some note\<close> the note of the refusal.\<close>

definition actorMayReadScope ::
  "trigger_deps \<Rightarrow> string \<Rightarrow> scope_kind option \<Rightarrow> string \<Rightarrow> scope_id \<Rightarrow> bool \<Rightarrow> trigger_copy option" where
  "actorMayReadScope deps actorId kind ref scope snapshotGap =
     (if ref = [] then Some MEMBERSHIP_SKIP_NOTE
      else if kind = Some Personal then (if samePerson (Some actorId) (Some ref) then None else Some MEMBERSHIP_SKIP_NOTE)
      else
        (case tdp_directory deps of
           None \<Rightarrow> if kind \<noteq> Some Group \<and> kind \<noteq> Some Channel then None else Some MEMBERSHIP_SKIP_NOTE
         | Some dir \<Rightarrow>
             if kind = Some Group then
               (if isVisible dir actorId (VGroup ref) then None
                else if snapshotGap then (if participatesInScope deps actorId scope then None else Some UNKNOWN_HOME_SKIP_NOTE)
                else
                  (let known = Option.bind (td_groupMembership dir) (\<lambda>f. f ref actorId)
                   in if known = None \<and> participatesInScope deps actorId scope then None else Some MEMBERSHIP_SKIP_NOTE))
             else if kind \<noteq> Some Channel then None
             else
               (case Option.bind (td_channelPrivacy dir) (\<lambda>f. f ref) of
                  None \<Rightarrow> if participatesInScope deps actorId scope then None else Some UNKNOWN_HOME_SKIP_NOTE
                | Some p \<Rightarrow> if isVisible dir actorId (VChannel ref (Some p)) then None else Some MEMBERSHIP_SKIP_NOTE)))"

definition destinationVisible :: "trigger_deps \<Rightarrow> string \<Rightarrow> destination \<Rightarrow> bool" where
  "destinationVisible deps actorId d =
     (case tdp_directory deps of
        None \<Rightarrow> True
      | Some dir \<Rightarrow>
          (let i = hd (split_on CHR '':'' (dst_target d))
           in if dst_type d = ''slack'' then
                (case (if truthy (dst_audienceScopeId d) then Some (parseScopeId (the (dst_audienceScopeId d))) else None) of
                   Some (Some Personal, ref) \<Rightarrow> isVisible dir actorId (VDm ref)
                 | Some (Some Group, _) \<Rightarrow> isVisible dir actorId (VGroup i)
                 | _ \<Rightarrow> isVisible dir actorId (VChannel i None))
              else if dst_type d = ''group'' then isVisible dir actorId (VGroup i)
              else True))"

text \<open>The person the run acts for, or the note of the authorization failure.\<close>

definition current_members :: "trigger_deps \<Rightarrow> trigger_spec \<Rightarrow> principal list option" where
  "current_members deps spec = Option.bind (tdp_currentScopeMembers deps) (\<lambda>f. f (ts_ownerScopeId spec))"

definition trigger_members :: "trigger_deps \<Rightarrow> trigger_spec \<Rightarrow> principal list" where
  "trigger_members deps spec = or_else (current_members deps spec) (or_else (ts_members spec) [])"

definition internal_members :: "trigger_deps \<Rightarrow> trigger_spec \<Rightarrow> principal list" where
  "internal_members deps spec =
     filter (\<lambda>m. p_type m = Internal \<and> tdp_classify deps (p_id m) = Internal) (trigger_members deps spec)"

definition trigger_actor :: "trigger_deps \<Rightarrow> trigger_spec \<Rightarrow> string + string" where
  "trigger_actor deps spec =
     (if ts_runAs spec = Some AsScopeFloor then
        (case internal_members deps spec of
           [] \<Rightarrow> Inl ''scopeFloor cron has no internal members left''
         | m # ms \<Rightarrow>
             if \<exists>x \<in> set (m # ms). samePerson (Some (p_id x)) (Some (ts_owner spec)) then Inr (ts_owner spec) else Inr (p_id m))
      else if tdp_classify deps (ts_owner spec) \<noteq> Internal then Inl ''owner is no longer an internal principal''
      else if ts_runAs spec = Some AsScopeShared \<and>
        (case current_members deps spec of
           None \<Rightarrow> False
         | Some ms \<Rightarrow> \<not> (\<exists>x \<in> set ms. samePerson (Some (p_id x)) (Some (ts_owner spec))))
      then Inl ''scopeShared owner is no longer a current scope member''
      else Inr (ts_owner spec))"

definition homeAccess :: "trigger_deps \<Rightarrow> trigger_spec \<Rightarrow> string \<Rightarrow> trigger_copy option" where
  "homeAccess deps spec actorId =
     (case current_members deps spec of
        Some ms \<Rightarrow> if \<exists>m \<in> set ms. samePerson (Some (p_id m)) (Some actorId) then None else Some MEMBERSHIP_SKIP_NOTE
      | None \<Rightarrow>
          if tdp_directory deps = None then None
          else
            (let (kind, ref) = parseScopeId (ts_ownerScopeId spec)
             in actorMayReadScope deps actorId kind ref (ts_ownerScopeId spec) (tdp_currentScopeMembers deps \<noteq> None)))"

definition deliverable :: "trigger_deps \<Rightarrow> trigger_spec \<Rightarrow> string \<Rightarrow> bool" where
  "deliverable deps spec actorId =
     (case ts_destination spec of
        None \<Rightarrow> True
      | Some d \<Rightarrow>
          (dst_audienceScopeId d = Some (ts_ownerScopeId spec) \<and> homeAccess deps spec actorId = None) \<or> destinationVisible deps actorId d)"

definition consented :: "trigger_spec \<Rightarrow> bool" where
  "consented spec =
     recipientConsentSatisfied (ts_recipientConsent spec)
       (consentRequiredRecipient (ts_owner spec) (ts_recipientConsentRequired spec) (ts_destination spec))"

definition consent_note :: "trigger_deps \<Rightarrow> trigger_spec \<Rightarrow> string" where
  "consent_note deps spec =
     tdp_copy deps (if (case ts_recipientConsent spec of None \<Rightarrow> False | Some c \<Rightarrow> rc_status c = ConsentDeclined)
                    then ConsentDeclinedNote else ConsentAwaitedNote)"

definition live_delivery :: "trigger_deps \<Rightarrow> trigger_spec \<Rightarrow> string \<Rightarrow> bool" where
  "live_delivery deps spec actorId =
     (ts_surface spec = ''monitor'' \<and> ts_destination spec \<noteq> None \<and> consented spec \<and> deliverable deps spec actorId)"

section \<open>The fire\<close>

definition trigger_threadRef :: "trigger_spec \<Rightarrow> string" where
  "trigger_threadRef spec = or_else (ts_threadRef spec) (ts_fireKey spec)"

definition deliveryProvenance :: "trigger_spec \<Rightarrow> turn_result option \<Rightarrow> delivery_provenance" where
  "deliveryProvenance spec res =
     \<lparr>dp_sourceTitle = (if truthy (ts_title spec) then ts_title spec else None), dp_trigger = ts_surface spec, dp_surface = ts_surface spec,
      dp_fireKey = ts_fireKey spec, dp_sourceScopeId = ts_ownerScopeId spec, dp_sourceThreadRef = trigger_threadRef spec,
      dp_sourceSessionId = Option.bind res (\<lambda>r. if truthy (tr_sessionId r) then tr_sessionId r else None),
      dp_sourceUserSeq = Option.bind res tr_sourceUserSeq,
      dp_sourceAssistantEntrySeq = Option.bind res tr_sourceAssistantEntrySeq\<rparr>"

definition relayAttribution :: "trigger_deps \<Rightarrow> trigger_spec \<Rightarrow> string option" where
  "relayAttribution deps spec =
     (if ts_message spec = None then None else Option.bind (tdp_directory deps) (\<lambda>dir. td_displayName dir (ts_owner spec)))"

text \<open>\<open>turnModelOptions\<close> of \<open>src/core/turn-options.ts\<close>.\<close>

definition turnModelOptions :: "bool \<Rightarrow> string option \<Rightarrow> bool option \<Rightarrow> string option \<times> bool option" where
  "turnModelOptions triggered thinkingLevel fastMode =
     (let level = (if \<not> truthy thinkingLevel \<and> triggered then Some ''xhigh'' else thinkingLevel);
          fast = (if fastMode = None \<and> triggered then Some False else fastMode)
      in (if truthy level then level else None, fast))"

text \<open>\<open>userFacingFailureClause\<close> of \<open>src/core/failure-copy.ts\<close>.\<close>

definition userFacingFailureClause :: "(trigger_copy \<Rightarrow> string) \<Rightarrow> turn_result \<Rightarrow> string" where
  "userFacingFailureClause copy r =
     (if tr_refusalKind r = Some SecurityQuarantine then copy SecurityQuarantineText
      else if tr_refusalKind r = Some SessionBusy then copy SessionBusyClause
      else if tr_status r = TFailed \<or> \<not> truthy (tr_reason r) then copy GenericFailureClause
      else the (tr_reason r))"

definition trigger_audience :: "trigger_deps \<Rightarrow> trigger_spec \<Rightarrow> (string \<times> string list option) list option" where
  "trigger_audience deps spec =
     (if ts_runAs spec \<in> {Some AsScopeFloor, Some AsScopeShared} \<and> trigger_members deps spec \<noteq> []
      then Some (map (\<lambda>m. (p_id m, p_teamIds m)) (trigger_members deps spec)) else None)"

definition conversation :: "trigger_deps \<Rightarrow> trigger_spec \<Rightarrow> trigger_conversation" where
  "conversation deps spec =
     (case parseScopeId (ts_ownerScopeId spec) of
        (Some Channel, ref) \<Rightarrow> ConvRoom Channel ref (trigger_threadRef spec) (trigger_audience deps spec)
      | (Some Group, ref) \<Rightarrow> ConvRoom Group ref (trigger_threadRef spec) (trigger_audience deps spec)
      | _ \<Rightarrow> ConvDm (trigger_threadRef spec))"

definition trigger_turn :: "trigger_deps \<Rightarrow> trigger_spec \<Rightarrow> string \<Rightarrow> trigger_request" where
  "trigger_turn deps spec actorId =
     (let (level, fast) = turnModelOptions True (if truthy (ts_thinkingLevel spec) then ts_thinkingLevel spec else None) None
      in \<lparr>tq_surface = ts_surface spec, tq_actor = actorId, tq_conversation = conversation deps spec, tq_text = ts_input spec,
          tq_securityScreenData = ts_securityScreenData spec,
          tq_triggered = True,
          tq_unattendedGrants = (if ts_runAs spec \<notin> {Some AsScopeFloor, Some AsScopeShared} then ts_unattendedGrants spec else None),
          tq_thinkingLevel = level, tq_fastMode = fast, tq_readOnly = ts_readOnly spec, tq_turnWallClockMs = ts_turnWallClockMs spec,
          tq_triggerDestination = ts_destination spec, tq_surfaceTools = live_delivery deps spec actorId, tq_addressed = live_delivery deps spec actorId,
          tq_ownerKeychainUnion = (ts_runAs spec = Some AsScopeShared), tq_idempotencyKey = ts_fireKey spec\<rparr>)"

text \<open>What a fire leaves in the variables of \<open>runTrigger\<close>.\<close>

record fired =
  fi_status :: "turn_status option"
  fi_note :: "string option"
  fi_userNote :: "string option"
  fi_reply :: "string option"
  fi_sessionId :: "string option"

definition nothing_fired :: fired where
  "nothing_fired = \<lparr>fi_status = None, fi_note = None, fi_userNote = None, fi_reply = None, fi_sessionId = None\<rparr>"

definition send_delivery :: "delivery_input \<Rightarrow> uuid \<Rightarrow> time \<Rightarrow> 'a \<Rightarrow> trigger_world \<Rightarrow> trigger_world \<times> (fire_error + 'a)" where
  "send_delivery input u now x w =
     (case enqueue_delivery (tw_deliveries w) input u now of
        (ds, None) \<Rightarrow> (w\<lparr>tw_deliveries := ds\<rparr>, Inl (FireFailed ''enqueue''))
      | (ds, Some _) \<Rightarrow> (w\<lparr>tw_deliveries := ds\<rparr>, Inr x))"

definition ownerSkipNotice :: "trigger_deps \<Rightarrow> trigger_spec \<Rightarrow> delivery_input" where
  "ownerSkipNotice deps spec =
     \<lparr>dn_destination = principalDestination (ts_owner spec) (ts_owner spec),
      dn_text = ''Scheduled delivery skipped: '' @ consent_note deps spec, dn_attachments = None,
      dn_provenance = Some (deliveryProvenance spec None), dn_idempotencyKey = ts_fireKey spec @ '':err'', dn_shadow = ts_shadow spec\<rparr>"

text \<open>
  Handing a text to the destination: refused without consent, which tells the owner, and when the
  destination is not visible.
\<close>

definition deliver_text ::
  "trigger_deps \<Rightarrow> trigger_spec \<Rightarrow> string \<Rightarrow> destination \<Rightarrow> reach_enqueue_input \<Rightarrow> uuid \<Rightarrow> time \<Rightarrow> fired \<Rightarrow> trigger_world \<Rightarrow>
   trigger_world \<times> (fire_error + fired)" where
  "deliver_text deps spec actorId d input u now f w =
     (if \<not> consented spec
      then send_delivery (ownerSkipNotice deps spec) u now (f\<lparr>fi_status := Some TRefused, fi_note := Some (consent_note deps spec)\<rparr>) w
      else if \<not> deliverable deps spec actorId
      then (w, Inr (f\<lparr>fi_status := Some TRefused, fi_note := Some (tdp_copy deps NotVisibleNote)\<rparr>))
      else send_delivery (reach_input input) u now f w)"

definition trigger_reach_input ::
  "trigger_spec \<Rightarrow> destination \<Rightarrow> string \<Rightarrow> outgoing_attachment list option \<Rightarrow> turn_result option \<Rightarrow> string option \<Rightarrow> reach_enqueue_input" where
  "trigger_reach_input spec d msg atts res attributeAs =
     \<lparr>re_destination = d, re_text = msg, re_attachments = atts, re_idempotencyKey = ts_fireKey spec,
      re_provenance = Some (deliveryProvenance spec res),
      re_attributeAs = (if truthy attributeAs then attributeAs else None), re_shadow = ts_shadow spec\<rparr>"

definition fire_result :: "trigger_deps \<Rightarrow> trigger_spec \<Rightarrow> string \<Rightarrow> uuid \<Rightarrow> time \<Rightarrow> turn_result \<Rightarrow> trigger_world \<Rightarrow> trigger_world \<times> (fire_error + fired)" where
  "fire_result deps spec actorId u now res w =
     (if ts_deferWhenBusy spec \<and> tr_refusalKind res = Some SessionBusy then (w, Inl FireDeferred)
      else
        (let f = nothing_fired\<lparr>fi_status := Some (tr_status res), fi_reply := tr_reply res, fi_sessionId := tr_sessionId res\<rparr>
         in if tr_status res = TSilent then (w, Inr f)
            else if tr_status res = TPendingApproval then (w, Inr (f\<lparr>fi_note := Some (tdp_copy deps PendingApprovalNote)\<rparr>))
            else if tr_status res = TOk \<and> (truthy (tr_reply res) \<or> or_else (tr_attachments res) [] \<noteq> []) then
              (case ts_destination spec of
                 None \<Rightarrow> (w, Inr f)
               | Some d \<Rightarrow>
                   if live_delivery deps spec actorId then (w, Inr f)
                   else deliver_text deps spec actorId d
                          (trigger_reach_input spec d (or_else (tr_reply res) []) (nonempty_attachments (tr_attachments res)) (Some res) None) u now f w)
            else if tr_status res = TOk then (w, Inr (f\<lparr>fi_note := Some ''produced no reply''\<rparr>))
            else
              (w, Inr (f\<lparr>fi_note := Some (if truthy (tr_reason res) then status_name (tr_status res) @ '': '' @ the (tr_reason res)
                                          else status_name (tr_status res)),
                         fi_userNote := Some (userFacingFailureClause (tdp_copy deps) res)\<rparr>))))"

definition trigger_fire :: "trigger_deps \<Rightarrow> trigger_spec \<Rightarrow> string \<Rightarrow> uuid \<Rightarrow> time \<Rightarrow> trigger_world \<Rightarrow> trigger_world \<times> (fire_error + fired)" where
  "trigger_fire deps spec actorId u now w =
     (if ts_onClaimed spec = Some False then (w, Inl (FireFailed ''onClaimed''))
      else
        (case ts_message spec of
           Some msg \<Rightarrow>
             (let f = nothing_fired\<lparr>fi_status := Some TOk\<rparr>
              in case ts_destination spec of
                   None \<Rightarrow> (w, Inr f)
                 | Some d \<Rightarrow>
                     deliver_text deps spec actorId d (trigger_reach_input spec d msg None None (relayAttribution deps spec)) u now f w)
         | None \<Rightarrow>
             (case homeAccess deps spec actorId of
                Some n \<Rightarrow> (w, Inr (nothing_fired\<lparr>fi_note := Some (tdp_copy deps n)\<rparr>))
              | None \<Rightarrow>
                  (let req = trigger_turn deps spec actorId; w1 = w\<lparr>tw_runs := tw_runs w @ [req]\<rparr>
                   in case tdp_run deps req of
                        Inl e \<Rightarrow> (w1, Inl (FireFailed e))
                      | Inr res \<Rightarrow> fire_result deps spec actorId u now res w1))))"

definition outcome_of :: "bool \<Rightarrow> bool \<Rightarrow> fired \<Rightarrow> trigger_outcome" where
  "outcome_of did deferred f =
     \<lparr>to_authzFailed = False, to_ran = did, to_deferred = deferred, to_status = fi_status f,
      to_note = (if truthy (fi_note f) then fi_note f else None), to_userNote = (if truthy (fi_userNote f) then fi_userNote f else None),
      to_reply = fi_reply f, to_sessionId = (if truthy (fi_sessionId f) then fi_sessionId f else None)\<rparr>"

definition error_notice :: "trigger_deps \<Rightarrow> trigger_spec \<Rightarrow> string \<Rightarrow> fired \<Rightarrow> trigger_outcome \<Rightarrow> delivery_input option" where
  "error_notice deps spec actorId f outcome =
     (case (ts_errorNotice spec, ts_destination spec) of
        (Some mk, Some d) \<Rightarrow>
          if consented spec \<and> deliverable deps spec actorId \<and> isTriggerFailure outcome
          then Some \<lparr>dn_destination = d, dn_text = mk (or_else (fi_userNote f) (or_else (fi_note f) (status_name (the (fi_status f))))),
                     dn_attachments = None, dn_provenance = Some (deliveryProvenance spec None),
                     dn_idempotencyKey = ts_fireKey spec @ '':err'', dn_shadow = ts_shadow spec\<rparr>
          else None
      | _ \<Rightarrow> None)"

definition authz_failure :: "string \<Rightarrow> trigger_outcome" where
  "authz_failure n = \<lparr>to_authzFailed = True, to_ran = False, to_deferred = False, to_status = None, to_note = Some n, to_userNote = None,
     to_reply = None, to_sessionId = None\<rparr>"

text \<open>The result is the outcome or the error that \<open>runTrigger\<close> throws.\<close>

definition runTrigger ::
  "trigger_deps \<Rightarrow> trigger_spec \<Rightarrow> uuid \<Rightarrow> uuid \<Rightarrow> idempotency_store \<Rightarrow> trigger_world \<Rightarrow>
   idempotency_store \<times> trigger_world \<times> (fire_error + trigger_outcome)" where
  "runTrigger deps spec u u' s w =
     (case trigger_actor deps spec of
        Inl n \<Rightarrow> (s, w, Inr (authz_failure n))
      | Inr actorId \<Rightarrow>
          (case once_now (tdp_idempotency deps) (ts_fireKey spec) (trigger_fire deps spec actorId u (is_now s)) s w of
             (s1, w1, Inl (FireFailed e)) \<Rightarrow> (s1, w1, Inl (FireFailed e))
           | (s1, w1, Inl FireDeferred) \<Rightarrow> (s1, w1, Inr (outcome_of False True nothing_fired))
           | (s1, w1, Inr None) \<Rightarrow> (s1, w1, Inr (outcome_of False False nothing_fired))
           | (s1, w1, Inr (Some f)) \<Rightarrow>
               (let outcome = outcome_of True False f
                in case error_notice deps spec actorId f outcome of
                     None \<Rightarrow> (s1, w1, Inr outcome)
                   | Some input \<Rightarrow> (case send_delivery input u' (is_now s) outcome w1 of (w2, r) \<Rightarrow> (s1, w2, r)))))"

end
