(* ===== verification/Trigger_Theorems.thy ===== *)
theory Trigger_Theorems
  imports Trigger_Run
begin

text \<open>
  What an unattended run may do: it runs a turn only for an internal person who may act in the
  trigger's home, hands a message to the destination only with consent and while the destination is
  visible, and fires once per fire key.
\<close>

section \<open>What a fire does to the world\<close>

lemma send_runs [simp]: "tw_runs (fst (send_delivery i u now x w)) = tw_runs w"
  by (simp add: send_delivery_def split: prod.split option.split)

lemma deliver_runs [simp]: "tw_runs (fst (deliver_text deps spec a d i u now f w)) = tw_runs w"
  by (simp add: deliver_text_def)

lemma fire_result_runs [simp]: "tw_runs (fst (fire_result deps spec a u now res w)) = tw_runs w"
  by (simp add: fire_result_def Let_def split: option.split)

lemma trigger_fire_runs:
  "tw_runs (fst (trigger_fire deps spec a u now w)) = tw_runs w \<or>
   (ts_message spec = None \<and> homeAccess deps spec a = None \<and>
    tw_runs (fst (trigger_fire deps spec a u now w)) = tw_runs w @ [trigger_turn deps spec a])"
  by (auto simp: trigger_fire_def Let_def split: option.split sum.split)

text \<open>The deliveries a step may leave: those there were and those to the given destinations.\<close>

definition only_to :: "destination set \<Rightarrow> delivery_store \<Rightarrow> delivery_store \<Rightarrow> bool" where
  "only_to D ds ds' = (\<forall>d \<in> set (map_vals (dls_deliveries ds')). d \<in> set (map_vals (dls_deliveries ds)) \<or> d_destination d \<in> D)"

lemma only_to_refl [simp]: "only_to D ds ds"
  by (simp add: only_to_def)

lemma only_to_trans: "only_to D a b \<Longrightarrow> only_to D b c \<Longrightarrow> only_to D a c"
  unfolding only_to_def by blast

lemma vals_map_set: "v \<in> set (map_vals (map_set k x m)) \<Longrightarrow> v = x \<or> v \<in> set (map_vals m)"
  by (induction m) (auto split: if_splits)

lemma only_to_put: "d_destination d \<in> D \<Longrightarrow> dls_deliveries ds' = map_set k d (dls_deliveries ds) \<Longrightarrow> only_to D ds ds'"
  unfolding only_to_def using vals_map_set by metis

lemma enqueue_only_to: "dn_destination i \<in> D \<Longrightarrow> only_to D ds (fst (enqueue_delivery ds i u now))"
  by (auto simp: enqueue_delivery_def Let_def split: option.splits intro!: only_to_put)
    (auto simp: revive_def new_delivery_def put_delivery_def wake_listeners_def)

lemma send_only_to: "dn_destination i \<in> D \<Longrightarrow> only_to D (tw_deliveries w) (tw_deliveries (fst (send_delivery i u now x w)))"
  using enqueue_only_to [of i D "tw_deliveries w" u now]
  by (auto simp: send_delivery_def split: prod.split option.split)

lemma skip_notice_dest [simp]: "dn_destination (ownerSkipNotice deps spec) = principalDestination (ts_owner spec) (ts_owner spec)"
  by (simp add: ownerSkipNotice_def)

lemma reach_input_dest [simp]: "dn_destination (reach_input i) = re_destination i"
  by (simp add: reach_input_def)

lemma trigger_reach_dest [simp]: "re_destination (trigger_reach_input spec d msg atts res att) = d"
  by (simp add: trigger_reach_input_def)

text \<open>The destinations a trigger may hand something to.\<close>

definition allowed_destinations :: "trigger_deps \<Rightarrow> trigger_spec \<Rightarrow> string \<Rightarrow> destination set" where
  "allowed_destinations deps spec a =
     insert (principalDestination (ts_owner spec) (ts_owner spec))
       (if consented spec \<and> deliverable deps spec a then set_option (ts_destination spec) else {})"

lemma deliver_only_to:
  "ts_destination spec = Some d \<Longrightarrow> re_destination i = d \<Longrightarrow>
   only_to (allowed_destinations deps spec a) (tw_deliveries w) (tw_deliveries (fst (deliver_text deps spec a d i u now f w)))"
  by (simp add: deliver_text_def allowed_destinations_def send_only_to)

lemma fire_result_only_to:
  "only_to (allowed_destinations deps spec a) (tw_deliveries w) (tw_deliveries (fst (fire_result deps spec a u now res w)))"
  by (simp add: fire_result_def Let_def deliver_only_to split: option.split)

lemma trigger_fire_only_to:
  "only_to (allowed_destinations deps spec a) (tw_deliveries w) (tw_deliveries (fst (trigger_fire deps spec a u now w)))"
  using fire_result_only_to [of deps spec a "w\<lparr>tw_runs := tw_runs w @ [trigger_turn deps spec a]\<rparr>" u now]
  by (simp add: trigger_fire_def Let_def deliver_only_to split: option.split sum.split)

lemma once_world:
  "once_now opts key work s w = (s', w', r) \<Longrightarrow> w' = w \<or> w' = fst (work w)"
  by (auto simp: once_now_def split: if_splits prod.splits sum.splits bool.splits)

lemma runTrigger_world:
  assumes "trigger_actor deps spec = Inr a"
  obtains w1 where "w1 = w \<or> w1 = fst (trigger_fire deps spec a u (is_now s) w)"
    "fst (snd (runTrigger deps spec u u' s w)) = w1 \<or>
     (\<exists>i (x :: trigger_outcome). dn_destination i \<in> allowed_destinations deps spec a \<and> fst (snd (runTrigger deps spec u u' s w)) = fst (send_delivery i u' (is_now s) x w1))"
proof -
  obtain s1 w1 r where o: "once_now (tdp_idempotency deps) (ts_fireKey spec) (trigger_fire deps spec a u (is_now s)) s w = (s1, w1, r)"
    by (cases "once_now (tdp_idempotency deps) (ts_fireKey spec) (trigger_fire deps spec a u (is_now s)) s w") auto
  have notice: "dn_destination i \<in> allowed_destinations deps spec a" if "error_notice deps spec a f oc = Some i" for f oc i
    using that by (auto simp: error_notice_def allowed_destinations_def split: option.splits if_splits)
  have "fst (snd (runTrigger deps spec u u' s w)) = w1 \<or>
     (\<exists>i (x :: trigger_outcome). dn_destination i \<in> allowed_destinations deps spec a \<and> fst (snd (runTrigger deps spec u u' s w)) = fst (send_delivery i u' (is_now s) x w1))"
  proof (cases "\<exists>f i. r = Inr (Some f) \<and> error_notice deps spec a f (outcome_of True False f) = Some i")
    case True
    then obtain f i where "r = Inr (Some f)" "error_notice deps spec a f (outcome_of True False f) = Some i" by blast
    then have "fst (snd (runTrigger deps spec u u' s w)) = fst (send_delivery i u' (is_now s) (outcome_of True False f) w1)"
      by (simp add: runTrigger_def assms o Let_def split: prod.split)
    then show ?thesis using notice [OF \<open>error_notice deps spec a f (outcome_of True False f) = Some i\<close>] by blast
  next
    case False
    then show ?thesis
      by (auto simp: runTrigger_def assms o Let_def split: sum.split option.split fire_error.split)
  qed
  with once_world [OF o] show ?thesis using that by blast
qed

section \<open>The properties of a trigger\<close>

lemma trigger_actorD:
  assumes "trigger_actor deps spec = Inr a"
  shows "ts_runAs spec \<noteq> Some AsScopeFloor \<Longrightarrow> a = ts_owner spec \<and> tdp_classify deps a = Internal"
    "ts_runAs spec = Some AsScopeFloor \<Longrightarrow>
       \<exists>m \<in> set (trigger_members deps spec). p_type m = Internal \<and> tdp_classify deps (p_id m) = Internal \<and> (p_id m = a \<or> samePerson (Some (p_id m)) (Some a))"
proof -
  show "ts_runAs spec \<noteq> Some AsScopeFloor \<Longrightarrow> a = ts_owner spec \<and> tdp_classify deps a = Internal"
    using assms by (auto simp: trigger_actor_def split: if_splits)
  assume floor: "ts_runAs spec = Some AsScopeFloor"
  then obtain m ms where ms: "internal_members deps spec = m # ms"
    using assms by (cases "internal_members deps spec") (auto simp: trigger_actor_def)
  have "\<exists>x \<in> set (m # ms). p_id x = a \<or> samePerson (Some (p_id x)) (Some a)"
  proof (cases "\<exists>x \<in> set (m # ms). samePerson (Some (p_id x)) (Some (ts_owner spec))")
    case True
    then have "a = ts_owner spec" using assms floor ms by (simp add: trigger_actor_def)
    with True show ?thesis by blast
  next
    case False
    then have "a = p_id m" using assms floor ms by (auto simp: trigger_actor_def)
    then show ?thesis by simp
  qed
  then obtain x where "x \<in> set (internal_members deps spec)" "p_id x = a \<or> samePerson (Some (p_id x)) (Some a)" using ms by metis
  then show "\<exists>m \<in> set (trigger_members deps spec). p_type m = Internal \<and> tdp_classify deps (p_id m) = Internal \<and> (p_id m = a \<or> samePerson (Some (p_id m)) (Some a))"
    by (auto simp: internal_members_def)
qed

text \<open>
  C21. A trigger runs at most one turn, and only for a person with the authority: unless it runs as the
  floor of its scope that is its owner, still internal; as the floor it is an internal member. When
  the current members of the home are known the person is one of them, and standing grants go along
  only when the trigger runs as its owner alone.
\<close>

theorem trigger_turn_authorized:
  assumes "runTrigger deps spec u u' s w = (s', w', r)" and "tw_runs w' \<noteq> tw_runs w"
  shows "\<exists>a. tw_runs w' = tw_runs w @ [trigger_turn deps spec a] \<and> homeAccess deps spec a = None \<and>
    (ts_runAs spec \<noteq> Some AsScopeFloor \<longrightarrow> a = ts_owner spec \<and> tdp_classify deps a = Internal) \<and>
    (ts_runAs spec = Some AsScopeFloor \<longrightarrow>
       (\<exists>m \<in> set (trigger_members deps spec). p_type m = Internal \<and> tdp_classify deps (p_id m) = Internal \<and> (p_id m = a \<or> samePerson (Some (p_id m)) (Some a)))) \<and>
    (\<forall>ms. current_members deps spec = Some ms \<longrightarrow> (\<exists>m \<in> set ms. samePerson (Some (p_id m)) (Some a))) \<and>
    (tq_unattendedGrants (trigger_turn deps spec a) \<noteq> None \<longrightarrow> ts_runAs spec \<notin> {Some AsScopeFloor, Some AsScopeShared})"
proof -
  obtain a where a: "trigger_actor deps spec = Inr a"
    using assms by (cases "trigger_actor deps spec") (auto simp: runTrigger_def)
  obtain w1 where w1: "w1 = w \<or> w1 = fst (trigger_fire deps spec a u (is_now s) w)" "tw_runs w' = tw_runs w1"
    by (rule runTrigger_world [OF a, of w u s u']) (use assms(1) in \<open>fastforce\<close>)
  then have "tw_runs w' = tw_runs w @ [trigger_turn deps spec a]" "homeAccess deps spec a = None"
    using trigger_fire_runs [of deps spec a u "is_now s" w] assms(2) by auto
  moreover have "\<exists>m \<in> set ms. samePerson (Some (p_id m)) (Some a)" if "current_members deps spec = Some ms" for ms
    using calculation(2) that by (auto simp: homeAccess_def split: if_splits)
  moreover have "tq_unattendedGrants (trigger_turn deps spec a) \<noteq> None \<longrightarrow> ts_runAs spec \<notin> {Some AsScopeFloor, Some AsScopeShared}"
    by (simp add: trigger_turn_def Let_def split: prod.split)
  ultimately show ?thesis using trigger_actorD [OF a] by blast
qed

text \<open>
  C22. Nothing goes to the destination of a trigger without the recipient's consent or when the person it
  acts for does not see the destination: what it leaves in the outbox then is at most a notice to its
  owner.
\<close>

theorem trigger_delivery_consented:
  assumes "runTrigger deps spec u u' s w = (s', w', r)"
    and "d \<in> set (map_vals (dls_deliveries (tw_deliveries w')))" "d \<notin> set (map_vals (dls_deliveries (tw_deliveries w)))"
  shows "d_destination d = principalDestination (ts_owner spec) (ts_owner spec) \<or>
    (ts_destination spec = Some (d_destination d) \<and> consented spec \<and> (\<exists>a. trigger_actor deps spec = Inr a \<and> deliverable deps spec a))"
proof -
  obtain a where a: "trigger_actor deps spec = Inr a"
    using assms by (cases "trigger_actor deps spec") (auto simp: runTrigger_def)
  have "only_to (allowed_destinations deps spec a) (tw_deliveries w) (tw_deliveries w')"
    by (rule runTrigger_world [OF a, of w u s u'])
      (use assms(1) in \<open>auto intro: only_to_trans [OF trigger_fire_only_to send_only_to] trigger_fire_only_to send_only_to\<close>)
  then have "d_destination d \<in> allowed_destinations deps spec a" using assms(2,3) by (auto simp: only_to_def)
  then show ?thesis using a by (auto simp: allowed_destinations_def split: if_splits)
qed

text \<open>The triggers of a process one after the other, each at its time.\<close>

fun run_triggers :: "trigger_deps \<Rightarrow> (trigger_spec \<times> uuid \<times> uuid \<times> time) list \<Rightarrow> idempotency_store \<times> trigger_world \<Rightarrow> idempotency_store \<times> trigger_world" where
  "run_triggers deps [] sw = sw"
| "run_triggers deps ((spec, u, u', t) # ts) (s, w) =
     (case runTrigger deps spec u u' (s\<lparr>is_now := t\<rparr>) w of (s', w', r) \<Rightarrow> run_triggers deps ts (s', w'))"

lemma runTrigger_kept:
  assumes "runTrigger deps spec u u' s w = (s', w', r)" "0 \<le> retentionMs (tdp_idempotency deps)" "keys_ok s"
  shows "keys_ok s'" "kept k a s \<Longrightarrow> is_now s - retentionMs (tdp_idempotency deps) \<le> a \<Longrightarrow> kept k a s'"
    "r = Inr oc \<Longrightarrow> to_ran oc \<Longrightarrow> kept (ts_fireKey spec) (is_now s) s'"
proof -
  have "keys_ok s' \<and> (kept k a s \<longrightarrow> is_now s - retentionMs (tdp_idempotency deps) \<le> a \<longrightarrow> kept k a s') \<and>
    (\<forall>oc. r = Inr oc \<longrightarrow> to_ran oc \<longrightarrow> kept (ts_fireKey spec) (is_now s) s')"
  proof (cases "trigger_actor deps spec")
    case (Inl n)
    then show ?thesis using assms by (auto simp: runTrigger_def authz_failure_def)
  next
    case (Inr x)
    obtain s1 w1 q where o: "once_now (tdp_idempotency deps) (ts_fireKey spec) (trigger_fire deps spec x u (is_now s)) s w = (s1, w1, q)"
      by (cases "once_now (tdp_idempotency deps) (ts_fireKey spec) (trigger_fire deps spec x u (is_now s)) s w") auto
    have s': "s' = s1" using assms(1)
      by (auto simp: runTrigger_def Inr o Let_def split: sum.splits option.splits fire_error.splits prod.splits)
    have ran: "\<exists>f. q = Inr (Some f)" if "r = Inr oc" "to_ran oc" for oc
      using assms(1) that by (auto simp: runTrigger_def Inr o Let_def outcome_of_def split: sum.splits option.splits fire_error.splits prod.splits)
    show ?thesis using once_now_kept [OF o assms(2,3)] ran unfolding s' by blast
  qed
  then show "keys_ok s'" "kept k a s \<Longrightarrow> is_now s - retentionMs (tdp_idempotency deps) \<le> a \<Longrightarrow> kept k a s'"
    "r = Inr oc \<Longrightarrow> to_ran oc \<Longrightarrow> kept (ts_fireKey spec) (is_now s) s'" by blast+
qed

lemma run_triggers_kept:
  "0 \<le> retentionMs (tdp_idempotency deps) \<Longrightarrow> keys_ok (fst sw) \<Longrightarrow> kept k a (fst sw) \<Longrightarrow>
   (\<And>x. x \<in> set ts \<Longrightarrow> snd (snd (snd x)) - retentionMs (tdp_idempotency deps) \<le> a) \<Longrightarrow> kept k a (fst (run_triggers deps ts sw))"
proof (induction deps ts sw rule: run_triggers.induct)
  case (2 deps spec u u' t ts s w)
  obtain s' w' r where q: "runTrigger deps spec u u' (s\<lparr>is_now := t\<rparr>) w = (s', w', r)" by (cases "runTrigger deps spec u u' (s\<lparr>is_now := t\<rparr>) w") auto
  have k: "keys_ok (s\<lparr>is_now := t\<rparr>)" "kept k a (s\<lparr>is_now := t\<rparr>)" using 2(3,4) by (simp_all add: keys_ok_def kept_def)
  have "keys_ok s'" "kept k a s'"
    using runTrigger_kept [OF q 2(2) k(1)] k(2) 2(5) [of "(spec, u, u', t)"] by auto
  with 2(1) [OF q [symmetric] refl 2(2)] 2(5) show ?case by (simp add: q)
qed simp

text \<open>
  After a fire ran, the same fire key does nothing again for the time of the retention, whatever
  triggers run in between: no turn, no delivery, and the outcome says it did not run.
\<close>

theorem trigger_fires_once:
  assumes "runTrigger deps spec u u' s w = (s1, w1, Inr oc)" "to_ran oc" "keys_ok s" "0 \<le> retentionMs (tdp_idempotency deps)"
    and "\<And>x. x \<in> set ts \<Longrightarrow> snd (snd (snd x)) \<le> is_now s + retentionMs (tdp_idempotency deps)"
    and "ts_fireKey spec' = ts_fireKey spec" "t \<le> is_now s + retentionMs (tdp_idempotency deps)"
    and "run_triggers deps ts (s1, w1) = (s2, w2)"
  shows "fst (snd (runTrigger deps spec' v v' (s2\<lparr>is_now := t\<rparr>) w2)) = w2 \<and>
    (\<exists>o'. snd (snd (runTrigger deps spec' v v' (s2\<lparr>is_now := t\<rparr>) w2)) = Inr o' \<and> \<not> to_ran o')"
proof -
  have k: "keys_ok s1" "kept (ts_fireKey spec) (is_now s) s1"
    using runTrigger_kept [OF assms(1,4,3)] assms(2) by blast+
  have "kept (ts_fireKey spec) (is_now s) (fst (run_triggers deps ts (s1, w1)))"
    by (rule run_triggers_kept [OF assms(4)]) (use k assms(5) in \<open>auto simp: algebra_simps\<close>)
  then have "kept (ts_fireKey spec') (is_now s) (s2\<lparr>is_now := t\<rparr>)" using assms(6,8) by (simp add: kept_def)
  then have "once_now (tdp_idempotency deps) (ts_fireKey spec') work (s2\<lparr>is_now := t\<rparr>) w2 = (s2\<lparr>is_now := t\<rparr>, w2, Inr None)" for work :: "trigger_world \<Rightarrow> trigger_world \<times> (fire_error + fired)"
    using kept_once [of "ts_fireKey spec'" "is_now s" "s2\<lparr>is_now := t\<rparr>" "tdp_idempotency deps" work w2] assms(7) by simp
  then show ?thesis
    by (cases "trigger_actor deps spec'") (simp_all add: runTrigger_def authz_failure_def outcome_of_def)
qed

section \<open>The theorems applied\<close>

definition ex_copy :: "trigger_copy \<Rightarrow> string" where
  "ex_copy c = ''note''"

definition ex_result :: turn_result where
  "ex_result = (failed_result ''s1'' [])\<lparr>tr_status := TOk, tr_reply := Some ''done''\<rparr>"

definition ex_trigger_deps :: trigger_deps where
  "ex_trigger_deps =
     \<lparr>tdp_classify = (\<lambda>_. Internal), tdp_run = (\<lambda>_. Inr ex_result), tdp_currentScopeMembers = None, tdp_directory = None,
      tdp_listByParticipant = None, tdp_copy = ex_copy, tdp_idempotency = \<lparr>io_retentionMs = Some 100, io_pruneIntervalMs = None\<rparr>\<rparr>"

definition ex_trigger :: trigger_spec where
  "ex_trigger =
     \<lparr>ts_title = None, ts_owner = ''ann'', ts_ownerScopeId = ''channel:C1'', ts_input = ''check'', ts_securityScreenData = None, ts_fireKey = ''f1'',
      ts_surface = ''cron'', ts_destination = Some (bare_destination ''slack'' ''C1''), ts_message = None, ts_threadRef = None, ts_runAs = None,
      ts_unattendedGrants = None, ts_members = None, ts_recipientConsent = None, ts_recipientConsentRequired = False, ts_shadow = False,
      ts_thinkingLevel = None, ts_readOnly = False, ts_turnWallClockMs = None, ts_errorNotice = None, ts_onClaimed = None, ts_deferWhenBusy = False\<rparr>"

definition ex_world :: trigger_world where
  "ex_world = \<lparr>tw_deliveries = createDeliveryStore None, tw_runs = []\<rparr>"

definition ex_idem :: idempotency_store where
  "ex_idem = createIdempotencyStore 0 None"

lemma ex_trigger_run:
  "tw_runs (fst (snd (runTrigger ex_trigger_deps ex_trigger ''d1'' ''d2'' ex_idem ex_world))) = [trigger_turn ex_trigger_deps ex_trigger ''ann'']"
  "map d_destination (map_vals (dls_deliveries (tw_deliveries (fst (snd (runTrigger ex_trigger_deps ex_trigger ''d1'' ''d2'' ex_idem ex_world))))))
     = [bare_destination ''slack'' ''C1'']"
  "case snd (snd (runTrigger ex_trigger_deps ex_trigger ''d1'' ''d2'' ex_idem ex_world)) of Inr oc \<Rightarrow> to_ran oc | Inl _ \<Rightarrow> False"
  by code_simp+

lemma ex_trigger_ran:
  obtains s1 w1 oc where "runTrigger ex_trigger_deps ex_trigger ''d1'' ''d2'' ex_idem ex_world = (s1, w1, Inr oc)" "to_ran oc"
    "tw_runs w1 = [trigger_turn ex_trigger_deps ex_trigger ''ann'']"
    "map d_destination (map_vals (dls_deliveries (tw_deliveries w1))) = [bare_destination ''slack'' ''C1'']"
  using ex_trigger_run by (cases "runTrigger ex_trigger_deps ex_trigger ''d1'' ''d2'' ex_idem ex_world") (auto split: sum.splits)

theorem trigger_turn_authorized_witness:
  "\<exists>s' w' r. runTrigger ex_trigger_deps ex_trigger ''d1'' ''d2'' ex_idem ex_world = (s', w', r) \<and>
     tw_runs w' = [trigger_turn ex_trigger_deps ex_trigger ''ann''] \<and> homeAccess ex_trigger_deps ex_trigger ''ann'' = None"
proof -
  obtain s1 w1 oc where r: "runTrigger ex_trigger_deps ex_trigger ''d1'' ''d2'' ex_idem ex_world = (s1, w1, Inr oc)"
      "tw_runs w1 = [trigger_turn ex_trigger_deps ex_trigger ''ann'']" by (rule ex_trigger_ran)
  have "tw_runs w1 \<noteq> tw_runs ex_world" using r(2) by (simp add: ex_world_def)
  from trigger_turn_authorized [OF r(1) this] obtain a where a: "a = ts_owner ex_trigger" "homeAccess ex_trigger_deps ex_trigger a = None"
    by (auto simp: ex_trigger_def)
  have "ts_owner ex_trigger = ''ann''" by code_simp
  with r a show ?thesis by auto
qed

theorem trigger_delivery_consented_witness:
  "\<exists>s' w' r d. runTrigger ex_trigger_deps ex_trigger ''d1'' ''d2'' ex_idem ex_world = (s', w', r) \<and>
     d \<in> set (map_vals (dls_deliveries (tw_deliveries w'))) \<and> d_destination d = bare_destination ''slack'' ''C1'' \<and> consented ex_trigger"
proof -
  obtain s1 w1 oc where r: "runTrigger ex_trigger_deps ex_trigger ''d1'' ''d2'' ex_idem ex_world = (s1, w1, Inr oc)"
      "map d_destination (map_vals (dls_deliveries (tw_deliveries w1))) = [bare_destination ''slack'' ''C1'']" by (rule ex_trigger_ran)
  obtain d where d: "d \<in> set (map_vals (dls_deliveries (tw_deliveries w1)))" "d_destination d = bare_destination ''slack'' ''C1''"
    using r(2) by (cases "map_vals (dls_deliveries (tw_deliveries w1))") auto
  have "d \<notin> set (map_vals (dls_deliveries (tw_deliveries ex_world)))" by (simp add: ex_world_def createDeliveryStore_def)
  from trigger_delivery_consented [OF r(1) d(1) this] have "consented ex_trigger"
    by (auto simp: d(2) principalDestination_def bare_destination_def)
  with r(1) d show ?thesis by blast
qed

theorem trigger_fires_once_witness:
  "\<exists>s1 w1. (case runTrigger ex_trigger_deps ex_trigger ''d1'' ''d2'' ex_idem ex_world of (s, w, r) \<Rightarrow> s = s1 \<and> w = w1) \<and>
     fst (snd (runTrigger ex_trigger_deps ex_trigger ''d3'' ''d4'' (s1\<lparr>is_now := 50\<rparr>) w1)) = w1"
proof -
  obtain s1 w1 oc where r: "runTrigger ex_trigger_deps ex_trigger ''d1'' ''d2'' ex_idem ex_world = (s1, w1, Inr oc)" "to_ran oc"
    by (rule ex_trigger_ran)
  have k: "keys_ok ex_idem" "is_now ex_idem = 0" "retentionMs (tdp_idempotency ex_trigger_deps) = 100"
    by (simp_all add: keys_ok_def ex_idem_def createIdempotencyStore_def retentionMs_def ex_trigger_deps_def)
  from trigger_fires_once [OF r k(1), of "[]" ex_trigger 50 s1 w1] r show ?thesis by (auto simp: k)
qed

end
