(* ===== verification/Scheduler.thy ===== *)
theory Scheduler
  imports Trigger_Theorems Cron_Store
begin

text \<open>
  The scheduler of crons (\<open>src/cron/scheduler.ts\<close>): the fire of a cron on top of \<open>runTrigger\<close> and the
  log of fires, the tick that fires what is due, the jobs of a queue that fire one slot each, and the
  fire on demand. Timers, the leader lease and the job queue itself are not modelled; the jobs handed
  to the queue are the trace \<open>sw_jobs\<close>. The hash in a thread reference, the rendering of a time, the
  note of a deferral, the loop service and the calendar are arguments. The clock is that of the
  idempotency store.
\<close>

section \<open>Data\<close>

record cron_fire_job =
  cj_cronId :: string
  cj_scheduledAt :: time
  cj_notBefore :: "time option"

datatype run_now_result =
  RunStarted string
| RunUnavailable
| RunAlreadyRunning cron_fire_log_entry

record scheduler_deps =
  sd_trigger :: trigger_deps
  sd_calendar :: calendar
  sd_maxFiresPerTick :: "nat option"
  sd_directory :: "directory_member list option"
  sd_fireLoop :: "(string \<Rightarrow> string \<Rightarrow> string + (turn_status option \<times> string option)) option"
  sd_hashId :: "string \<Rightarrow> string"
  sd_utcMinute :: "time \<Rightarrow> string"
  sd_deferNote :: "string \<Rightarrow> string"

record scheduler_world =
  sw_crons :: cron_store
  sw_idem :: idempotency_store
  sw_world :: trigger_world
  sw_jobs :: "cron_fire_job list"
  sw_loopFires :: "(string \<times> string) list"
  sw_lastStrandedSweep :: time
  sw_lastFireGc :: time

datatype scheduler_error = SchedFire fire_error | SchedSlot schedule_error

record fire_outcome =
  fo_authzFailed :: bool
  fo_deferred :: bool

definition CRON_FIRE_REPLY_MAX_CHARS :: nat where "CRON_FIRE_REPLY_MAX_CHARS = 2000"
definition STRANDED_SWEEP_INTERVAL_MS :: int where "STRANDED_SWEEP_INTERVAL_MS = 600000"
definition FIRE_GC_INTERVAL_MS :: int where "FIRE_GC_INTERVAL_MS = 21600000"
definition BUSY_DEFER_MS :: int where "BUSY_DEFER_MS = 30000"
definition BUSY_DEFER_MAX_LATE_MS :: int where "BUSY_DEFER_MAX_LATE_MS = 600000"
definition CRON_MENTION_ROSTER_MAX :: nat where "CRON_MENTION_ROSTER_MAX = 40"

section \<open>Texts\<close>

definition truncate_to :: "string \<Rightarrow> nat \<Rightarrow> string" where
  "truncate_to s maxChars = (if length s \<le> maxChars then s else take (maxChars - 3) s @ ''...'')"

definition CRON_CONTEXT_MARKERS :: "string list" where
  "CRON_CONTEXT_MARKERS = [''[Cron runtime context]'', ''[End cron runtime context]'']"

definition echoesCronContextMarkers :: "string \<Rightarrow> bool" where
  "echoesCronContextMarkers s = list_ex (str_includes s) CRON_CONTEXT_MARKERS"

definition cronFireLogReply :: "string \<Rightarrow> string" where
  "cronFireLogReply s =
     (if echoesCronContextMarkers s then ''[reply echoed cron runtime context; omitted]'' else truncate_to s CRON_FIRE_REPLY_MAX_CHARS)"

definition isOneShotSchedule :: "cron_schedule \<Rightarrow> bool" where
  "isOneShotSchedule sched = (cs_everyMs sched = None \<and> cs_cron sched = None)"

text \<open>\<open>/^!(run|scratch)\s/\<close> after leading white space.\<close>

definition is_command_task :: "string \<Rightarrow> bool" where
  "is_command_task task =
     (let s = dropWhile is_space task
      in list_ex (\<lambda>p. startsWith s p \<and> (case drop (length p) s of c # _ \<Rightarrow> is_space c | [] \<Rightarrow> False)) [''!run'', ''!scratch''])"

definition cronFireReadsNotes :: "cron \<Rightarrow> bool" where
  "cronFireReadsNotes cron =
     (let task = or_else (c_action cron) []
      in if truthy (c_loopId cron) \<or> trim task = [] \<or> is_command_task task then False else \<not> isOneShotSchedule (c_schedule cron))"

definition flattenFireNote :: "string \<Rightarrow> string" where
  "flattenFireNote msg = trim (collapse_spaces msg)"

definition fireNoteLine :: "(time \<Rightarrow> string) \<Rightarrow> cron_fire_note option \<Rightarrow> string list" where
  "fireNoteLine utcMinute nt =
     (case nt of
        None \<Rightarrow> []
      | Some n \<Rightarrow>
          (let msg = flattenFireNote (fnote_text n)
           in if msg = [] \<or> echoesCronContextMarkers msg then []
              else [if truthy (fnote_by n)
                    then ''Note left for this fire by '' @ the (fnote_by n) @ '' ('' @ utcMinute (fnote_at n) @ ''): '' @ msg
                    else ''Notes from last fire agent ('' @ utcMinute (fnote_at n) @ ''): '' @ msg]))"

definition cronFireThreadRef :: "scheduler_deps \<Rightarrow> string \<Rightarrow> string \<Rightarrow> string" where
  "cronFireThreadRef deps cronId fireKey = ''cron:'' @ cronId @ '':fire:'' @ sd_hashId deps fireKey"

definition is_id_char :: "char \<Rightarrow> bool" where
  "is_id_char c = (let n = of_char c :: nat in 48 \<le> n \<and> n \<le> 57 \<or> 65 \<le> n \<and> n \<le> 90 \<or> 97 \<le> n \<and> n \<le> 122)"

definition mentionable :: "directory_member \<Rightarrow> string" where
  "mentionable m =
     (let mentionId = (case dm_slackId m of Some i \<Rightarrow> Some i
                       | None \<Rightarrow> if dm_principalId m \<noteq> [] \<and> list_all is_id_char (dm_principalId m) then Some (dm_principalId m) else None)
      in ''@'' @ dm_displayName m @ (if truthy mentionId then '' (<@'' @ the mentionId @ ''>)'' else []))"

definition cronMentionRoster :: "scheduler_deps \<Rightarrow> cron \<Rightarrow> string option" where
  "cronMentionRoster deps cron =
     (case sd_directory deps of
        None \<Rightarrow> None
      | Some everyone \<Rightarrow>
          (case Option.bind (t_destination cron) dst_audienceScopeId of
             None \<Rightarrow> None
           | Some scope \<Rightarrow>
               if scope = [] \<or> fst (parseScopeId scope) \<notin> {Some Channel, Some Group} then None
               else
                 (let members = or_else (c_members cron) []
                  in if members = [] \<or> CRON_MENTION_ROSTER_MAX < length members then None
                     else
                       (let byId = fold (\<lambda>m. map_set (dm_principalId m) m) everyone [];
                            roster = map mentionable (filter (\<lambda>m. dm_type m = Internal) (List.map_filter (\<lambda>m. map_get byId (p_id m)) members))
                        in if roster \<noteq> [] then Some (join '', '' roster) else None))))"

text \<open>Dashes and the ellipsis of the prompt are written in ASCII here.\<close>

definition in_quotes :: "string \<Rightarrow> string" where
  "in_quotes s = CHR 0x22 # s @ [CHR 0x22]"

definition cron_tool :: "string \<Rightarrow> string \<Rightarrow> string" where
  "cron_tool act cronId = ''(cron tool, action='' @ in_quotes act @ '', id='' @ in_quotes cronId @ '')''"

definition renderCronFireInput :: "scheduler_deps \<Rightarrow> cron \<Rightarrow> string option \<Rightarrow> string" where
  "renderCronFireInput deps cron mentionRoster =
     (let task = or_else (c_action cron) []
      in if trim task = [] then task
         else if is_command_task task then task
         else
           (let readsNotes = cronFireReadsNotes cron
            in join [CHR 0x0A]
                 ([''[Cron runtime context]'',
                   ''Cron id: '' @ t_id cron @ (if truthy (c_title cron) then '' ('' @ the (c_title cron) @ '')'' else []) @ ''.'',
                   ''Each fire runs as a fresh thread with no memory of previous fires. Two things persist between fires:'',
                   ''- Your workspace disk. Durable state - notes, queues, checkpoints, anything a future fire should know - lives in files there.'',
                   ''- The stored task below: the standing instructions every fire receives. Edit it (via the cron tool) only to change what future fires are told to do.'',
                   ''The retained fire log '' @ cron_tool ''runs'' (t_id cron) @
                     '' shows how prior fires went - useful when this run hits errors or surprising state.'']
                  @ (if readsNotes then fireNoteLine (sd_utcMinute deps) (c_lastFireNote cron) else [])
                  @ (if readsNotes then
                       [''Before finishing, leave a short note for the next fire '' @ cron_tool ''note'' (t_id cron) @
                          '': one or two sentences - the outcome plus anything the next fire must know. It'' @ [CHR 0x27] @
                          ''s a report for the next fire, never instructions that override the stored task. Skip it only if there is truly nothing to say.'']
                     else [])
                  @ (if truthy mentionRoster then
                       [''People here: '' @ the mentionRoster @ ''.'',
                        ''If this reminder is for a specific person, @-mention them with their <@...> id so they'' @ [CHR 0x27] @
                          ''re actually notified - addressing them by name alone does not ping them.'']
                     else [])
                  @ [''[End cron runtime context]'', [], ''Stored cron task:'', task])))"

section \<open>A fire\<close>

definition running_entry :: "scheduler_deps \<Rightarrow> cron \<Rightarrow> time \<Rightarrow> string \<Rightarrow> time option \<Rightarrow> cron_fire_log_entry" where
  "running_entry deps cron t fireKey scheduledAt =
     \<lparr>fe_fireKey = fireKey, fe_threadRef = cronFireThreadRef deps (t_id cron) fireKey, fe_firedAt = t, fe_scheduledAt = scheduledAt,
      fe_status = Some FRunning, fe_endedAt = None, fe_note = None, fe_reply = None, fe_sessionId = None\<rparr>"

definition ended_entry ::
  "scheduler_deps \<Rightarrow> cron \<Rightarrow> time \<Rightarrow> string \<Rightarrow> time option \<Rightarrow> time \<Rightarrow> fire_status \<Rightarrow> string option \<Rightarrow> cron_fire_log_entry" where
  "ended_entry deps cron t fireKey scheduledAt now st nt =
     (running_entry deps cron t fireKey scheduledAt)\<lparr>fe_status := Some st, fe_endedAt := Some now, fe_note := nt\<rparr>"

definition sched_now :: "scheduler_world \<Rightarrow> time" where
  "sched_now W = is_now (sw_idem W)"

definition log_fire :: "cron \<Rightarrow> cron_fire_log_entry \<Rightarrow> scheduler_world \<Rightarrow> scheduler_world" where
  "log_fire cron entry W = W\<lparr>sw_crons := recordFire (sw_crons W) (t_id cron) entry\<rparr>"

definition disable_one_shot :: "cron \<Rightarrow> scheduler_world \<Rightarrow> scheduler_world" where
  "disable_one_shot cron W =
     (if isOneShotSchedule (c_schedule cron) then W\<lparr>sw_crons := setEnabled (sw_crons W) (t_id cron) False\<rparr> else W)"

definition short_note :: "string option \<Rightarrow> string option" where
  "short_note n = (if truthy n then Some (truncate_to (the n) CRON_FIRE_REPLY_MAX_CHARS) else None)"

definition fire_loop_cron ::
  "scheduler_deps \<Rightarrow> cron \<Rightarrow> string \<Rightarrow> time \<Rightarrow> string \<Rightarrow> time option \<Rightarrow> scheduler_world \<Rightarrow> scheduler_world" where
  "fire_loop_cron deps cron loopId t fireKey scheduledAt W =
     (let W1 = W\<lparr>sw_crons := fst (beginFire (sw_crons W) (t_id cron) (running_entry deps cron t fireKey scheduledAt) False)\<rparr>;
          (W2, st, nt) =
            (case sd_fireLoop deps of
               None \<Rightarrow> (W1, TFailed, Some ''loop service unavailable'')
             | Some f \<Rightarrow>
                 (let W2 = W1\<lparr>sw_loopFires := sw_loopFires W1 @ [(loopId, fireKey)]\<rparr>
                  in case f loopId fireKey of
                       Inl e \<Rightarrow> (W2, TFailed, Some e)
                     | Inr (st, nt) \<Rightarrow> (W2, or_else st TOk, nt)))
      in disable_one_shot cron (log_fire cron (ended_entry deps cron t fireKey scheduledAt (sched_now W) (FTurn st) (short_note nt)) W2))"

definition cron_spec :: "scheduler_deps \<Rightarrow> cron \<Rightarrow> time \<Rightarrow> string \<Rightarrow> time option \<Rightarrow> trigger_spec" where
  "cron_spec deps cron t fireKey scheduledAt =
     \<lparr>ts_title = (if truthy (c_title cron) then c_title cron else None), ts_owner = t_owner cron, ts_ownerScopeId = t_ownerScopeId cron,
      ts_input = renderCronFireInput deps cron (cronMentionRoster deps cron), ts_securityScreenData = None, ts_fireKey = fireKey,
      ts_surface = ''cron'', ts_destination = t_destination cron, ts_message = c_message cron,
      ts_threadRef = Some (cronFireThreadRef deps (t_id cron) fireKey), ts_runAs = c_runAs cron, ts_unattendedGrants = c_unattendedGrants cron,
      ts_members = c_members cron, ts_recipientConsent = t_recipientConsent cron,
      ts_recipientConsentRequired = (\<not> isOneShotSchedule (c_schedule cron)), ts_shadow = False, ts_thinkingLevel = None, ts_readOnly = False,
      ts_turnWallClockMs = None, ts_errorNotice = None, ts_onClaimed = Some True,
      ts_deferWhenBusy = (case scheduledAt of None \<Rightarrow> False | Some a \<Rightarrow> t - a \<le> BUSY_DEFER_MAX_LATE_MS)\<rparr>"

text \<open>Whether the fire key is claimed, so that \<open>onClaimed\<close> begins the fire in the log.\<close>

definition fire_claimed :: "trigger_deps \<Rightarrow> trigger_spec \<Rightarrow> idempotency_store \<Rightarrow> bool" where
  "fire_claimed deps spec s =
     (case trigger_actor deps spec of
        Inl _ \<Rightarrow> False
      | Inr _ \<Rightarrow> ts_fireKey spec \<notin> set (is_inflight s) \<and> \<not> snd (isCommitted (tdp_idempotency deps) (ts_fireKey spec) s))"

definition note_trigger :: "scheduler_deps \<Rightarrow> cron \<Rightarrow> time \<Rightarrow> string \<Rightarrow> time option \<Rightarrow> trigger_outcome \<Rightarrow> scheduler_world \<Rightarrow> scheduler_world \<times> fire_outcome" where
  "note_trigger deps cron t fireKey scheduledAt oc W =
     (let now = sched_now W
      in if to_deferred oc then
           (let deferUntil = now + BUSY_DEFER_MS;
                W1 = log_fire cron (ended_entry deps cron t fireKey scheduledAt now FDeferred (Some (sd_deferNote deps (sd_utcMinute deps deferUntil)))) W
            in (W1\<lparr>sw_crons := defer_cron (sw_crons W1) (t_id cron) deferUntil\<rparr>, \<lparr>fo_authzFailed = False, fo_deferred = True\<rparr>))
         else
           (let entry = (ended_entry deps cron t fireKey scheduledAt now
                  (FTurn (or_else (to_status oc) (if to_authzFailed oc then TRefused else TOk))) (short_note (to_note oc)))
                  \<lparr>fe_reply := map_option cronFireLogReply (to_reply oc), fe_sessionId := (if truthy (to_sessionId oc) then to_sessionId oc else None)\<rparr>;
                W1 = (if to_ran oc \<or> to_authzFailed oc then log_fire cron entry W else W)
            in if to_authzFailed oc
               then (W1\<lparr>sw_crons := setEnabled (sw_crons W1) (t_id cron) False\<rparr>, \<lparr>fo_authzFailed = True, fo_deferred = False\<rparr>)
               else (disable_one_shot cron W1, \<lparr>fo_authzFailed = False, fo_deferred = False\<rparr>)))"

definition fire ::
  "scheduler_deps \<Rightarrow> uuid \<Rightarrow> uuid \<Rightarrow> cron \<Rightarrow> time \<Rightarrow> string \<Rightarrow> time option \<Rightarrow> scheduler_world \<Rightarrow> scheduler_world \<times> (scheduler_error + fire_outcome)" where
  "fire deps u u' cron t fireKey scheduledAt W =
     (if truthy (c_loopId cron)
      then (fire_loop_cron deps cron (the (c_loopId cron)) t fireKey scheduledAt W, Inr \<lparr>fo_authzFailed = False, fo_deferred = False\<rparr>)
      else
        (let spec = cron_spec deps cron t fireKey scheduledAt;
             W0 = (if fire_claimed (sd_trigger deps) spec (sw_idem W)
                   then W\<lparr>sw_crons := fst (beginFire (sw_crons W) (t_id cron) (running_entry deps cron t fireKey scheduledAt) False)\<rparr> else W)
         in case runTrigger (sd_trigger deps) spec u u' (sw_idem W) (sw_world W) of
              (s1, w1, Inl e) \<Rightarrow>
                (log_fire cron (ended_entry deps cron t fireKey scheduledAt (sched_now W) (FTurn TFailed)
                    (Some (truncate_to (case e of FireFailed m \<Rightarrow> m | FireDeferred \<Rightarrow> []) CRON_FIRE_REPLY_MAX_CHARS)))
                   (W0\<lparr>sw_idem := s1, sw_world := w1\<rparr>), Inl (SchedFire e))
            | (s1, w1, Inr oc) \<Rightarrow>
                (case note_trigger deps cron t fireKey scheduledAt oc (W0\<lparr>sw_idem := s1, sw_world := w1\<rparr>) of (W2, r) \<Rightarrow> (W2, Inr r))))"

section \<open>Ticks\<close>

definition sweepStranded_tick :: "time \<Rightarrow> scheduler_world \<Rightarrow> scheduler_world" where
  "sweepStranded_tick t W =
     (if t - sw_lastStrandedSweep W < STRANDED_SWEEP_INTERVAL_MS then W
      else W\<lparr>sw_lastStrandedSweep := t, sw_crons := fst (sweepStrandedFires (sw_crons W) t)\<rparr>)"

definition gcFires :: "time \<Rightarrow> scheduler_world \<Rightarrow> scheduler_world" where
  "gcFires t W =
     (if t - sw_lastFireGc W < FIRE_GC_INTERVAL_MS then W
      else W\<lparr>sw_lastFireGc := t, sw_crons := fst (pruneFires (sw_crons W) t)\<rparr>)"

definition slot_key :: "string \<Rightarrow> time \<Rightarrow> string" where
  "slot_key cronId slot = ''cron:'' @ cronId @ '':'' @ show_int slot"

definition due_batch :: "scheduler_deps \<Rightarrow> time \<Rightarrow> (cron \<times> time) list \<Rightarrow> scheduler_world \<Rightarrow> (cron \<times> time) list \<times> scheduler_world" where
  "due_batch deps t ds W =
     (let cap = or_else (sd_maxFiresPerTick deps) 100
      in if length ds \<le> cap then (ds, W)
         else
           (let batch = take cap (js_sort (\<lambda>a b. or_else (c_lastAttemptAt (fst a)) 0 - or_else (c_lastAttemptAt (fst b)) 0) ds)
            in (batch, W\<lparr>sw_crons := fold (\<lambda>c s. markAttempted s (t_id (fst c)) t) batch (sw_crons W)\<rparr>)))"

text \<open>One cron of the batch; \<open>us\<close> gives the delivery ids. An error of a fire is logged and passed over.\<close>

definition fire_one :: "scheduler_deps \<Rightarrow> (string \<Rightarrow> uuid \<times> uuid) \<Rightarrow> time \<Rightarrow> cron \<times> time \<Rightarrow> scheduler_world \<Rightarrow> scheduler_world" where
  "fire_one deps us t ct W =
     (let key = slot_key (t_id (fst ct)) (snd ct)
      in case fire deps (fst (us key)) (snd (us key)) (fst ct) t key (Some (snd ct)) W of
           (W1, Inl e) \<Rightarrow> W1
         | (W1, Inr r) \<Rightarrow>
             if \<not> fo_authzFailed r \<and> \<not> fo_deferred r
             then W1\<lparr>sw_crons := fst (markFired (sd_calendar deps) (sw_crons W1) (t_id (fst ct)) t (Some (snd ct)))\<rparr>
             else W1)"

definition fireDue :: "scheduler_deps \<Rightarrow> (string \<Rightarrow> uuid \<times> uuid) \<Rightarrow> time \<Rightarrow> scheduler_world \<Rightarrow> scheduler_world \<times> scheduler_error option" where
  "fireDue deps us t W =
     (case due (sd_calendar deps) (sw_crons W) t of
        Inl e \<Rightarrow> (W, Some (SchedSlot e))
      | Inr ds \<Rightarrow> (case due_batch deps t ds W of (batch, W1) \<Rightarrow> (fold (fire_one deps us t) batch W1, None)))"

definition tick :: "scheduler_deps \<Rightarrow> (string \<Rightarrow> uuid \<times> uuid) \<Rightarrow> time \<Rightarrow> scheduler_world \<Rightarrow> scheduler_world \<times> scheduler_error option" where
  "tick deps us t W =
     (case fireDue deps us t W of
        (W1, Some e) \<Rightarrow> (W1, Some e)
      | (W1, None) \<Rightarrow> (gcFires t (sweepStranded_tick t W1), None))"

section \<open>Jobs of the queue and fires on demand\<close>

definition available :: "scheduler_world \<Rightarrow> string \<Rightarrow> cron option" where
  "available W cronId =
     (case get_cron (sw_crons W) cronId of
        None \<Rightarrow> None
      | Some cron \<Rightarrow> if c_archived cron \<or> \<not> t_enabled cron then None else Some cron)"

definition nextJob :: "scheduler_deps \<Rightarrow> cron \<Rightarrow> schedule_error + cron_fire_job option" where
  "nextJob deps cron =
     (case cron_slot (sd_calendar deps) cron of
        Inl e \<Rightarrow> Inl e
      | Inr None \<Rightarrow> Inr None
      | Inr (Some slot) \<Rightarrow> Inr (Some \<lparr>cj_cronId = t_id cron, cj_scheduledAt = slot, cj_notBefore = c_deferUntil cron\<rparr>))"

definition enqueueFire :: "cron_fire_job \<Rightarrow> scheduler_world \<Rightarrow> scheduler_world" where
  "enqueueFire job W = W\<lparr>sw_jobs := sw_jobs W @ [job]\<rparr>"

definition enqueueNext :: "scheduler_deps \<Rightarrow> string \<Rightarrow> scheduler_world \<Rightarrow> scheduler_world \<times> scheduler_error option" where
  "enqueueNext deps cronId W =
     (case available W cronId of
        None \<Rightarrow> (W, None)
      | Some cron \<Rightarrow>
          (case nextJob deps cron of
             Inl e \<Rightarrow> (W, Some (SchedSlot e))
           | Inr None \<Rightarrow> (W, None)
           | Inr (Some job) \<Rightarrow> (enqueueFire job W, None)))"

definition give_back :: "cron_fire_job \<Rightarrow> time \<Rightarrow> cron \<Rightarrow> scheduler_world \<Rightarrow> scheduler_world" where
  "give_back job t cron W = W\<lparr>sw_crons := unclaimSlot (sw_crons W) (cj_cronId job) (cj_scheduledAt job) t (t_lastFiredAt cron)\<rparr>"

definition fireJob :: "scheduler_deps \<Rightarrow> (string \<Rightarrow> uuid \<times> uuid) \<Rightarrow> cron_fire_job \<Rightarrow> scheduler_world \<Rightarrow> scheduler_world \<times> scheduler_error option" where
  "fireJob deps us job W =
     (case available W (cj_cronId job) of
        None \<Rightarrow> (W, None)
      | Some cron \<Rightarrow>
          (case cron_slot (sd_calendar deps) cron of
             Inl e \<Rightarrow> (W, Some (SchedSlot e))
           | Inr slot \<Rightarrow>
               if slot \<noteq> Some (cj_scheduledAt job) then (W, None)
               else
                 (let t = sched_now W; slot = cj_scheduledAt job
                  in if t < slot then (enqueueFire job W, None)
                     else if isDeferred cron t then (enqueueFire (job\<lparr>cj_notBefore := c_deferUntil cron\<rparr>) W, None)
                     else
                       (case claimSlot (sd_calendar deps) (sw_crons W) (cj_cronId job) slot t of
                          (s1, Inl e) \<Rightarrow> (W\<lparr>sw_crons := s1\<rparr>, Some (SchedSlot e))
                        | (s1, Inr False) \<Rightarrow> (W\<lparr>sw_crons := s1\<rparr>, None)
                        | (s1, Inr True) \<Rightarrow>
                            (let key = slot_key (t_id cron) slot
                             in case fire deps (fst (us key)) (snd (us key)) cron t key (Some slot) (W\<lparr>sw_crons := s1\<rparr>) of
                                  (W1, Inl e) \<Rightarrow> (give_back job t cron W1, None)
                                | (W1, Inr r) \<Rightarrow>
                                    if fo_deferred r then enqueueNext deps (cj_cronId job) (give_back job t cron W1)
                                    else if fo_authzFailed r then (give_back job t cron W1, None)
                                    else enqueueNext deps (cj_cronId job) W1)))))"

fun reconcile_jobs :: "scheduler_deps \<Rightarrow> cron list \<Rightarrow> scheduler_world \<Rightarrow> scheduler_world" where
  "reconcile_jobs deps [] W = W"
| "reconcile_jobs deps (c # cs) W =
     (if c_archived c \<or> \<not> t_enabled c then reconcile_jobs deps cs W
      else (case nextJob deps c of
              Inl e \<Rightarrow> W
            | Inr None \<Rightarrow> reconcile_jobs deps cs W
            | Inr (Some job) \<Rightarrow> reconcile_jobs deps cs (enqueueFire job W)))"

definition reconcile :: "scheduler_deps \<Rightarrow> scheduler_world \<Rightarrow> scheduler_world" where
  "reconcile deps W =
     (let W1 = reconcile_jobs deps (list_crons (sw_crons W)) W in gcFires (sched_now W) (sweepStranded_tick (sched_now W) W1))"

definition runNow :: "scheduler_deps \<Rightarrow> uuid \<Rightarrow> uuid \<Rightarrow> uuid \<Rightarrow> string \<Rightarrow> scheduler_world \<Rightarrow> scheduler_world \<times> run_now_result" where
  "runNow deps u u' u'' cronId W =
     (case available W cronId of
        None \<Rightarrow> (W, RunUnavailable)
      | Some cron \<Rightarrow>
          (let t = sched_now W; fireKey = ''cron:'' @ t_id cron @ '':manual:'' @ u''
           in case beginFire (sw_crons W) cronId (running_entry deps cron t fireKey None) True of
                (s1, NotBegun (Some r)) \<Rightarrow> (W\<lparr>sw_crons := s1\<rparr>, RunAlreadyRunning r)
              | (s1, NotBegun None) \<Rightarrow> (W\<lparr>sw_crons := s1\<rparr>, RunUnavailable)
              | (s1, Begun) \<Rightarrow> (fst (fire deps u u' cron t fireKey None (W\<lparr>sw_crons := s1\<rparr>)), RunStarted fireKey)))"

end
