(* ===== verification/Scheduler_Theorems.thy ===== *)
theory Scheduler_Theorems
  imports Scheduler
begin

text \<open>
  What the scheduler promises: a slot that a job of the queue has fired and settled is never fired
  again, a tick starts at most as many turns and loop fires as the cap allows, and a cron whose
  owner may no longer act is disabled without a turn.
\<close>

section \<open>A fire and the stored crons\<close>

lemma past_log [simp]: "cron_past i slot (sw_crons (log_fire c e W)) = cron_past i slot (sw_crons W)"
  by (simp add: log_fire_def recordFire_def)

lemma past_begin [simp]: "cron_past i slot (fst (beginFire s j e x)) = cron_past i slot s"
  by (simp add: beginFire_def Let_def)

lemma past_enable: "cron_past i slot s \<Longrightarrow> cron_past i slot (setEnabled s j b)"
  by (simp add: setEnabled_def cron_past_merge)

lemma past_defer: "cron_past i slot s \<Longrightarrow> cron_past i slot (defer_cron s j a)"
  by (simp add: defer_cron_def cron_past_merge)

lemma past_one_shot: "cron_past i slot (sw_crons W) \<Longrightarrow> cron_past i slot (sw_crons (disable_one_shot c W))"
  by (simp add: disable_one_shot_def past_enable)

lemma past_loop: "cron_past i slot (sw_crons W) \<Longrightarrow> cron_past i slot (sw_crons (fire_loop_cron deps c l t k a W))"
  by (simp add: fire_loop_cron_def Let_def past_one_shot split: option.split sum.split prod.split)

lemma past_note: "cron_past i slot (sw_crons W) \<Longrightarrow> cron_past i slot (sw_crons (fst (note_trigger deps c t k a oc W)))"
  by (simp add: note_trigger_def Let_def past_one_shot past_enable past_defer)

lemma past_note_eq:
  "note_trigger deps c t k a oc W = (W1, r) \<Longrightarrow> cron_past i slot (sw_crons W) \<Longrightarrow> cron_past i slot (sw_crons W1)"
  using past_note [of i slot W deps c t k a oc] by simp

lemma past_fire: "cron_past i slot (sw_crons W) \<Longrightarrow> cron_past i slot (sw_crons (fst (fire deps u u' c t k a W)))"
  by (auto simp: fire_def Let_def past_loop dest: past_note_eq split: sum.split prod.split)

lemma enqueueNext_keeps [simp]:
  "sw_crons (fst (enqueueNext deps i W)) = sw_crons W" "sw_world (fst (enqueueNext deps i W)) = sw_world W"
  "sw_loopFires (fst (enqueueNext deps i W)) = sw_loopFires W" "sw_idem (fst (enqueueNext deps i W)) = sw_idem W"
  by (simp_all add: enqueueNext_def enqueueFire_def split: option.split sum.split)

lemma past_unclaim:
  "cron_past i slot s \<Longrightarrow> j \<noteq> i \<or> slot < a \<Longrightarrow> cron_past i slot (unclaimSlot s j a t p)"
  unfolding unclaimSlot_def by (intro cron_past_update) (auto simp: past_slot_def)

lemma claimSlot_past:
  assumes "next_is_later cal" "snd (claimSlot cal s i slot at) = Inr True" "slot \<le> at"
  shows "cron_past i slot (fst (claimSlot cal s i slot at))"
proof (rule claimSlot_claimed [OF assms(2)])
  fix c c' assume "cron_at s i = Some c" "claim_transform cal slot at c = Inr (c', True)"
    "fst (claimSlot cal s i slot at) = s\<lparr>crs_crons := fst (dm_update (crs_crons s) i (\<lambda>_. c'))\<rparr>"
  then show ?thesis using claim_transform_claimed [OF assms(1) _ assms(3)] by (simp add: cron_past_def dm_update_at)
qed

lemma claimSlot_refused:
  assumes "snd (claimSlot cal s i a t) \<noteq> Inr True"
  shows "fst (claimSlot cal s i a t) = s"
proof (cases "map_get (crs_crons s) i")
  case None
  then show ?thesis by (simp add: claimSlot_def dm_get_def)
next
  case (Some c)
  have same: "s\<lparr>crs_crons := fst (dm_update (crs_crons s) i (\<lambda>_. c))\<rparr> = s" using Some by (simp add: dm_update_def map_set_same)
  consider (err) e where "claim_transform cal a t c = Inl e" | (ok) c' b where "claim_transform cal a t c = Inr (c', b)" by (cases "claim_transform cal a t c") auto
  then show ?thesis
  proof cases
    case err
    then show ?thesis using Some by (simp add: claimSlot_def dm_get_def)
  next
    case ok
    then have "\<not> b" using assms Some by (simp add: claimSlot_def dm_get_def)
    then have "c' = c" using ok by (auto simp: claim_transform_def Let_def split: if_splits sum.splits)
    then show ?thesis using ok Some same by (simp add: claimSlot_def dm_get_def)
  qed
qed

section \<open>A settled slot stays behind\<close>

text \<open>The moment a job passes all the guards, with the cron it fires.\<close>

definition job_ready :: "scheduler_deps \<Rightarrow> cron_fire_job \<Rightarrow> scheduler_world \<Rightarrow> cron \<Rightarrow> bool" where
  "job_ready deps job W c =
     (available W (cj_cronId job) = Some c \<and> cron_slot (sd_calendar deps) c = Inr (Some (cj_scheduledAt job)) \<and>
      cj_scheduledAt job \<le> sched_now W \<and> \<not> isDeferred c (sched_now W) \<and>
      snd (claimSlot (sd_calendar deps) (sw_crons W) (cj_cronId job) (cj_scheduledAt job) (sched_now W)) = Inr True)"

definition job_fire ::
  "scheduler_deps \<Rightarrow> (string \<Rightarrow> uuid \<times> uuid) \<Rightarrow> cron_fire_job \<Rightarrow> scheduler_world \<Rightarrow> cron \<Rightarrow> scheduler_world \<times> (scheduler_error + fire_outcome)" where
  "job_fire deps us job W c =
     (let key = slot_key (t_id c) (cj_scheduledAt job)
      in fire deps (fst (us key)) (snd (us key)) c (sched_now W) key (Some (cj_scheduledAt job))
           (W\<lparr>sw_crons := fst (claimSlot (sd_calendar deps) (sw_crons W) (cj_cronId job) (cj_scheduledAt job) (sched_now W))\<rparr>))"

text \<open>A job either fires nothing and changes no cron, or is ready and does its fire.\<close>

lemma fireJob_cases:
  obtains (idle) "sw_crons (fst (fireJob deps us job W)) = sw_crons W" "sw_world (fst (fireJob deps us job W)) = sw_world W"
      "sw_loopFires (fst (fireJob deps us job W)) = sw_loopFires W" "\<And>c. \<not> job_ready deps job W c"
  | (fires) c W1 r where "job_ready deps job W c" "job_fire deps us job W c = (W1, r)"
      "fireJob deps us job W =
        (case r of Inl e \<Rightarrow> (give_back job (sched_now W) c W1, None)
         | Inr q \<Rightarrow> if fo_deferred q then enqueueNext deps (cj_cronId job) (give_back job (sched_now W) c W1)
                   else if fo_authzFailed q then (give_back job (sched_now W) c W1, None)
                   else enqueueNext deps (cj_cronId job) W1)"
proof (cases "\<exists>c. job_ready deps job W c")
  case True
  then obtain c where c: "job_ready deps job W c" by blast
  obtain W1 r where f: "job_fire deps us job W c = (W1, r)" by fastforce
  obtain s1 where cl: "claimSlot (sd_calendar deps) (sw_crons W) (cj_cronId job) (cj_scheduledAt job) (sched_now W) = (s1, Inr True)"
    using c by (cases "claimSlot (sd_calendar deps) (sw_crons W) (cj_cronId job) (cj_scheduledAt job) (sched_now W)") (simp add: job_ready_def)
  show ?thesis
    by (rule fires [OF c f], use c f [unfolded job_fire_def Let_def cl fst_conv] in \<open>simp add: job_ready_def fireJob_def Let_def cl\<close>)
next
  case False
  show ?thesis
  proof (cases "available W (cj_cronId job)")
    case None
    then show ?thesis using idle False by (simp add: fireJob_def)
  next
    case (Some c)
    obtain s1 q where cl: "claimSlot (sd_calendar deps) (sw_crons W) (cj_cronId job) (cj_scheduledAt job) (sched_now W) = (s1, q)" by fastforce
    show ?thesis
    proof (cases "cron_slot (sd_calendar deps) c = Inr (Some (cj_scheduledAt job)) \<and> cj_scheduledAt job \<le> sched_now W \<and> \<not> isDeferred c (sched_now W)")
      case no: False
      then show ?thesis using idle False Some by (auto simp: fireJob_def Let_def enqueueFire_def split: sum.split)
    next
      case yes: True
      then have 2: "q \<noteq> Inr True" using False Some cl by (auto simp: job_ready_def)
      have "s1 = sw_crons W" using claimSlot_refused [of "sd_calendar deps" "sw_crons W" "cj_cronId job" "cj_scheduledAt job" "sched_now W"] cl 2 by simp
      then show ?thesis using idle False Some cl 2 yes
        by (auto simp: fireJob_def Let_def split: sum.split bool.split)
    qed
  qed
qed

section \<open>The queue at work\<close>

text \<open>
  The steps of a process whose jobs come from the queue: a job, the enqueueing of the next one, a
  reconciliation, a fire on demand, the clock, and the changes other parts make to the stored crons
  (as \<open>cron_step\<close> has them, so the cron in view is not given a new schedule).
\<close>

inductive queue_step ::
  "scheduler_deps \<Rightarrow> (create_cron_input \<Rightarrow> string option \<Rightarrow> string) \<Rightarrow> string \<Rightarrow> time \<Rightarrow> scheduler_world \<Rightarrow> scheduler_world \<Rightarrow> bool"
  for deps hash i slot where
  qs_job: "queue_step deps hash i slot W (fst (fireJob deps us job W))"
| qs_next: "queue_step deps hash i slot W (fst (enqueueNext deps j W))"
| qs_reconcile: "queue_step deps hash i slot W (reconcile deps W)"
| qs_run: "queue_step deps hash i slot W (fst (runNow deps u u' u'' j W))"
| qs_clock: "queue_step deps hash i slot W (W\<lparr>sw_idem := (sw_idem W)\<lparr>is_now := t\<rparr>\<rparr>)"
| qs_cron: "cron_step (sd_calendar deps) hash i slot (sw_crons W) s \<Longrightarrow> queue_step deps hash i slot W (W\<lparr>sw_crons := s\<rparr>)"

lemma reconcile_jobs_crons [simp]: "sw_crons (reconcile_jobs deps cs W) = sw_crons W"
  by (induction cs arbitrary: W) (auto simp: enqueueFire_def split: sum.split option.split)

lemma past_reconcile [simp]: "cron_past i slot (sw_crons (reconcile deps W)) = cron_past i slot (sw_crons W)"
  by (simp add: reconcile_def gcFires_def sweepStranded_tick_def sweepStrandedFires_def pruneFires_def Let_def)

lemma past_runNow:
  assumes "cron_past i slot (sw_crons W)"
  shows "cron_past i slot (sw_crons (fst (runNow deps u u' u'' j W)))"
proof -
  have "cron_past i slot s1" if "beginFire (sw_crons W) j e x = (s1, r)" for e x s1 r
    using past_begin [of i slot "sw_crons W" j e x] that assms by simp
  then have "cron_past i slot (sw_crons (fst (fire deps u u' c t k None (W\<lparr>sw_crons := s1\<rparr>))))" "cron_past i slot s1"
    if "beginFire (sw_crons W) j e x = (s1, r)" for c t k e x s1 r
    using that past_fire [of i slot "W\<lparr>sw_crons := s1\<rparr>"] by simp_all
  with assms show ?thesis
    unfolding runNow_def Let_def by (simp split: option.split prod.split begin_fire_result.split)
qed

lemma give_back_past:
  "cron_past i slot (sw_crons W) \<Longrightarrow> cj_cronId job \<noteq> i \<or> slot < cj_scheduledAt job \<Longrightarrow> cron_past i slot (sw_crons (give_back job t c W))"
  by (simp add: give_back_def past_unclaim)

lemma available_at: "available W i = Some c \<Longrightarrow> cron_at (sw_crons W) i = Some c \<and> \<not> c_archived c \<and> t_enabled c"
  by (auto simp: available_def get_cron_def dm_get_def split: option.splits if_splits)

lemma ready_later:
  assumes "next_is_later (sd_calendar deps)" "cron_past i slot (sw_crons W)" "job_ready deps job W c"
  shows "cj_cronId job \<noteq> i \<or> slot < cj_scheduledAt job"
  using assms past_slot_later [OF assms(1), of slot c "cj_scheduledAt job"] available_at [of W "cj_cronId job" c]
  by (auto simp: job_ready_def cron_past_def)

lemma past_job:
  assumes "next_is_later (sd_calendar deps)" "cron_past i slot (sw_crons W)"
  shows "cron_past i slot (sw_crons (fst (fireJob deps us job W)))"
proof (rule fireJob_cases [of deps us job W])
  fix c W1 r assume h: "job_ready deps job W c" "job_fire deps us job W c = (W1, r)"
    and f: "fireJob deps us job W =
        (case r of Inl e \<Rightarrow> (give_back job (sched_now W) c W1, None)
         | Inr q \<Rightarrow> if fo_deferred q then enqueueNext deps (cj_cronId job) (give_back job (sched_now W) c W1)
                   else if fo_authzFailed q then (give_back job (sched_now W) c W1, None)
                   else enqueueNext deps (cj_cronId job) W1)"
  note later = ready_later [OF assms h(1)]
  then have "cron_past i slot (fst (claimSlot (sd_calendar deps) (sw_crons W) (cj_cronId job) (cj_scheduledAt job) (sched_now W)))"
    using cron_past_claim [OF assms] h(1) by (auto simp: job_ready_def)
  then have "cron_past i slot (sw_crons (fst (job_fire deps us job W c)))"
    unfolding job_fire_def Let_def by (intro past_fire) simp
  then have "cron_past i slot (sw_crons W1)" using h(2) by simp
  then show ?thesis using give_back_past [OF _ later] unfolding f by (simp split: sum.split)
qed (use assms in simp)

lemma past_queue_step:
  assumes "next_is_later (sd_calendar deps)" "queue_step deps hash i slot W W'" "cron_past i slot (sw_crons W)"
  shows "cron_past i slot (sw_crons W')"
  using assms(2,3)
  by (induction rule: queue_step.induct) (auto simp: past_job [OF assms(1)] past_runNow intro: cron_past_step [OF assms(1)])

lemma past_queue_steps:
  "(queue_step deps hash i slot)\<^sup>*\<^sup>* W W' \<Longrightarrow> next_is_later (sd_calendar deps) \<Longrightarrow> cron_past i slot (sw_crons W) \<Longrightarrow> cron_past i slot (sw_crons W')"
  by (induction rule: rtranclp_induct) (blast intro: past_queue_step)+


section \<open>The work of a tick\<close>

text \<open>The turns run and the loops fired so far.\<close>

definition work_done :: "scheduler_world \<Rightarrow> nat" where
  "work_done W = length (tw_runs (sw_world W)) + length (sw_loopFires W)"

lemma runTrigger_runs: "length (tw_runs (fst (snd (runTrigger deps spec u u' s w)))) \<le> Suc (length (tw_runs w))"
proof (cases "trigger_actor deps spec")
  case (Inl n)
  then show ?thesis by (simp add: runTrigger_def)
next
  case (Inr a)
  have fire: "length (tw_runs (fst (trigger_fire deps spec a u (is_now s) w))) \<le> Suc (length (tw_runs w))"
    using trigger_fire_runs [of deps spec a u "is_now s" w] by auto
  show ?thesis
    by (rule runTrigger_world [OF Inr, of w u s u']) (use fire in auto)
qed

lemma log_fire_work [simp]: "work_done (log_fire c e W) = work_done W"
  by (simp add: log_fire_def work_done_def)

lemma one_shot_work [simp]: "work_done (disable_one_shot c W) = work_done W"
  by (simp add: disable_one_shot_def work_done_def)

lemma crons_work [simp]: "work_done (W\<lparr>sw_crons := s\<rparr>) = work_done W"
  by (simp add: work_done_def)

lemma note_trigger_work: "note_trigger deps c t k a oc W = (W1, r) \<Longrightarrow> work_done W1 = work_done W"
  by (auto simp: note_trigger_def Let_def split: if_splits)

lemma loop_cron_work: "work_done (fire_loop_cron deps c l t k a W) \<le> Suc (work_done W)"
  by (simp add: fire_loop_cron_def Let_def split: option.split sum.split prod.split) (simp add: work_done_def)

lemma fire_work: "work_done (fst (fire deps u u' c t k a W)) \<le> Suc (work_done W)"
proof (cases "truthy (c_loopId c)")
  case True
  then show ?thesis by (simp add: fire_def loop_cron_work)
next
  case False
  obtain s1 w1 r where t: "runTrigger (sd_trigger deps) (cron_spec deps c t k a) u u' (sw_idem W) (sw_world W) = (s1, w1, r)" by (metis prod.exhaust)
  then have "length (tw_runs w1) \<le> Suc (length (tw_runs (sw_world W)))"
    using runTrigger_runs [of "sd_trigger deps" "cron_spec deps c t k a" u u' "sw_idem W" "sw_world W"] by simp
  then have "work_done (W0\<lparr>sw_idem := s1, sw_world := w1\<rparr>) \<le> Suc (work_done W)" if "sw_loopFires W0 = sw_loopFires W" for W0
    using that by (simp add: work_done_def)
  then show ?thesis using False t note_trigger_work
    by (cases r) (auto simp: fire_def Let_def split: prod.split)
qed

lemma fire_one_work: "work_done (fire_one deps us t ct W) \<le> Suc (work_done W)"
  using fire_work [of deps "fst (us (slot_key (t_id (fst ct)) (snd ct)))" "snd (us (slot_key (t_id (fst ct)) (snd ct)))"
      "fst ct" t "slot_key (t_id (fst ct)) (snd ct)" "Some (snd ct)" W]
  by (auto simp: fire_one_def Let_def split: prod.splits sum.split)

lemma fire_batch_work: "work_done (fold (fire_one deps us t) cs W) \<le> work_done W + length cs"
proof (induction cs arbitrary: W)
  case (Cons c cs)
  show ?case using Cons.IH [of "fire_one deps us t c W"] fire_one_work [of deps us t c W] by simp
qed simp

lemma due_batch_bounded:
  "due_batch deps t ds W = (batch, W1) \<Longrightarrow> length batch \<le> or_else (sd_maxFiresPerTick deps) 100 \<and> work_done W1 = work_done W"
  by (auto simp: due_batch_def Let_def split: if_splits)

text \<open>
  However many crons are due, a tick runs at most as many turns and loops together as the cap on
  fires per tick (100 when none is set).
\<close>

theorem tick_fires_bounded:
  "work_done (fst (tick deps us t W)) \<le> work_done W + or_else (sd_maxFiresPerTick deps) 100"
proof (cases "due (sd_calendar deps) (sw_crons W) t")
  case (Inl e)
  then show ?thesis by (simp add: tick_def fireDue_def)
next
  case (Inr ds)
  obtain batch W1 where b: "due_batch deps t ds W = (batch, W1)" by fastforce
  have sweep: "work_done (gcFires t (sweepStranded_tick t V)) = work_done V" for V
    by (simp add: gcFires_def sweepStranded_tick_def work_done_def)
  show ?thesis
    using fire_batch_work [of deps us t batch W1] due_batch_bounded [OF b]
    by (simp add: tick_def fireDue_def Inr b sweep)
qed

section \<open>A cron that may not run any more\<close>

lemma claim_transform_fired: "claim_transform cal a t c = Inr (c', True) \<Longrightarrow> t_lastFiredAt c' = Some t"
  by (auto simp: claim_transform_def Let_def split: if_splits sum.splits)

lemma refused_fire:
  assumes "\<not> truthy (c_loopId c)" "c_runAs c \<noteq> Some AsScopeFloor" "tdp_classify (sd_trigger deps) (t_owner c) \<noteq> Internal"
  shows "\<exists>e. fire deps u u' c t k a W =
    ((log_fire c e W)\<lparr>sw_crons := setEnabled (sw_crons (log_fire c e W)) (t_id c) False\<rparr>, Inr \<lparr>fo_authzFailed = True, fo_deferred = False\<rparr>)"
proof -
  obtain n where "trigger_actor (sd_trigger deps) (cron_spec deps c t k a) = Inl n"
    using assms by (auto simp: trigger_actor_def cron_spec_def)
  then show ?thesis
    using assms(1) by (simp add: fire_def Let_def runTrigger_def fire_claimed_def note_trigger_def authz_failure_def log_fire_def) blast
qed

text \<open>
  When the owner of a cron is no longer internal, a job that comes due runs no turn and sends
  nothing: it disables the cron and hands the slot back, so that the slot fires once the cron is
  enabled again.
\<close>

theorem refused_cron_disabled:
  assumes "job_ready deps job W c" and "t_id c = cj_cronId job" and "\<not> truthy (c_loopId c)"
    and "c_runAs c \<noteq> Some AsScopeFloor" and "tdp_classify (sd_trigger deps) (t_owner c) \<noteq> Internal"
  shows "sw_world (fst (fireJob deps us job W)) = sw_world W \<and> sw_loopFires (fst (fireJob deps us job W)) = sw_loopFires W \<and>
    sw_jobs (fst (fireJob deps us job W)) = sw_jobs W \<and>
    (\<exists>c'. get_cron (sw_crons (fst (fireJob deps us job W))) (cj_cronId job) = Some c' \<and> \<not> t_enabled c' \<and>
       c_nextFireAt c' = Some (cj_scheduledAt job) \<and> t_lastFiredAt c' = t_lastFiredAt c)"
proof (cases rule: fireJob_cases [of deps us job W])
  case idle
  then show ?thesis using assms(1) by blast
next
  case (fires d W1 r)
  have d: "d = c" using fires(1) assms(1) by (simp add: job_ready_def)
  let ?s = "fst (claimSlot (sd_calendar deps) (sw_crons W) (cj_cronId job) (cj_scheduledAt job) (sched_now W))"
  obtain e where e: "W1 = (log_fire c e (W\<lparr>sw_crons := ?s\<rparr>))\<lparr>sw_crons := setEnabled (sw_crons (log_fire c e (W\<lparr>sw_crons := ?s\<rparr>))) (t_id c) False\<rparr>"
      "r = Inr \<lparr>fo_authzFailed = True, fo_deferred = False\<rparr>"
    using fires(2) refused_fire [OF assms(3-5)] unfolding d job_fire_def Let_def by (metis prod.inject)
  have claimed: "snd (claimSlot (sd_calendar deps) (sw_crons W) (cj_cronId job) (cj_scheduledAt job) (sched_now W)) = Inr True"
    using assms(1) by (simp add: job_ready_def)
  obtain c1 c' where c1: "cron_at (sw_crons W) (cj_cronId job) = Some c1" "t_lastFiredAt c' = Some (sched_now W)"
      "?s = (sw_crons W)\<lparr>crs_crons := fst (dm_update (crs_crons (sw_crons W)) (cj_cronId job) (\<lambda>_. c'))\<rparr>"
    by (rule claimSlot_claimed [OF claimed]) (use claim_transform_fired in blast)
  have "sw_world W1 = sw_world W" "sw_loopFires W1 = sw_loopFires W" "sw_jobs W1 = sw_jobs W"
    unfolding e(1) by (simp_all add: log_fire_def)
  moreover have "cron_at (sw_crons W1) (cj_cronId job) = Some (c'\<lparr>t_enabled := False\<rparr>)"
    unfolding e(1) using c1 assms(2) by (simp add: log_fire_def recordFire_def setEnabled_def merge_cron_at dm_update_at)
  ultimately show ?thesis
    unfolding fires(3) e(2) d
    using c1(2) by (simp add: give_back_def unclaimSlot_def get_cron_def dm_get_def dm_update_at)
qed

section \<open>The theorems applied\<close>

definition ex_sched :: "(string \<Rightarrow> principal_type) \<Rightarrow> scheduler_deps" where
  "ex_sched classify =
     \<lparr>sd_trigger = ex_trigger_deps\<lparr>tdp_classify := classify\<rparr>, sd_calendar = ex_calendar, sd_maxFiresPerTick = None, sd_directory = None,
      sd_fireLoop = None, sd_hashId = (\<lambda>k. ''h''), sd_utcMinute = (\<lambda>t. ''t''),
      sd_deferNote = (\<lambda>m. ''busy'')\<rparr>"

definition ex_sched_crons :: cron_store where
  "ex_sched_crons = fst (create_cron ex_calendar (\<lambda>_ _. ''c1'') (createCronStore None) (ex_cron_input\<lparr>cc_action := Some ''!run x''\<rparr>) 5)"

definition ex_sched_cron :: cron where
  "ex_sched_cron = the (cron_at ex_sched_crons ''c1'')"

definition ex_sched_world :: scheduler_world where
  "ex_sched_world =
     \<lparr>sw_crons = ex_sched_crons, sw_idem = createIdempotencyStore 20 None, sw_world = ex_world, sw_jobs = [], sw_loopFires = [],
      sw_lastStrandedSweep = 0, sw_lastFireGc = 0\<rparr>"

definition ex_job :: cron_fire_job where
  "ex_job = \<lparr>cj_cronId = ''c1'', cj_scheduledAt = 10, cj_notBefore = None\<rparr>"

lemma ex_job_runs:
  "job_ready (ex_sched (\<lambda>_. Internal)) ex_job ex_sched_world ex_sched_cron"
  "snd (job_fire (ex_sched (\<lambda>_. Internal)) (\<lambda>k. (''d1'', ''d2'')) ex_job ex_sched_world ex_sched_cron) = Inr \<lparr>fo_authzFailed = False, fo_deferred = False\<rparr>"
  "length (tw_runs (sw_world (fst (fireJob (ex_sched (\<lambda>_. Internal)) (\<lambda>k. (''d1'', ''d2'')) ex_job ex_sched_world)))) = 1"
  by code_simp+


theorem refused_cron_disabled_witness:
  "\<exists>c'. get_cron (sw_crons (fst (fireJob (ex_sched (\<lambda>_. Guest)) (\<lambda>k. (''d1'', ''d2'')) ex_job ex_sched_world))) ''c1'' = Some c' \<and>
     \<not> t_enabled c' \<and> c_nextFireAt c' = Some 10"
proof -
  have h: "job_ready (ex_sched (\<lambda>_. Guest)) ex_job ex_sched_world ex_sched_cron" "t_id ex_sched_cron = cj_cronId ex_job" "\<not> truthy (c_loopId ex_sched_cron)"
      "c_runAs ex_sched_cron \<noteq> Some AsScopeFloor" "tdp_classify (sd_trigger (ex_sched (\<lambda>_. Guest))) (t_owner ex_sched_cron) \<noteq> Internal"
      "cj_cronId ex_job = ''c1''" "cj_scheduledAt ex_job = 10"
    by code_simp+
  from refused_cron_disabled [OF h(1-5), of "\<lambda>k. (''d1'', ''d2'')"] h(6,7) show ?thesis by auto
qed

end
