(* ===== verification/Loop_Runner.thy ===== *)
theory Loop_Runner
  imports Loop_Item_Props Loop_Outputs Loop_Store Governor
begin

text \<open>
  One fire of a loop (\<open>src/loops/runner.ts\<close>): the intake, the claim of each queued item, the work,
  the capture of its outputs, the evaluation, and the automatic shipping, over the item ledger, the
  output store and the loop store. The effects (the agent's turns, the enumeration, the shipping) are
  arguments: each takes the stores and returns them changed in any way, which also stands for whatever
  other workers do to the stores meanwhile, and may throw. The calls of \<open>ship\<close> are the trace
  \<open>rw_ships\<close>; the reason of a partial shipping, with characters beyond the model's strings, is an
  argument.
\<close>

section \<open>Data\<close>

record 'j loop_stores =
  lst_now :: time
  lst_loops :: "loop dmap"
  lst_items :: "'j item_ledger"
  lst_outputs :: "loop_output dmap"

datatype effect_error = DuplicateLoopFire string | EffectError string

type_synonym ('j, 'a) effect = "'j loop_stores \<Rightarrow> 'j loop_stores \<times> (effect_error + 'a)"

record intake_candidate =
  ic_sourceKey :: string
  ic_sourceSummary :: "string option"

record captured_artifact =
  ca_shipAction :: string
  ca_title :: string
  ca_capturedBy :: captured_by
  ca_label :: "string option"
  ca_externalRef :: "string option"
  ca_summary :: "string option"

record 'j loop_effects =
  ef_enumerate :: "loop \<Rightarrow> ('j, intake_candidate list) effect"
  ef_work :: "loop \<Rightarrow> 'j loop_item \<Rightarrow> string option \<Rightarrow> ('j, string) effect"
  ef_captureOutputs :: "loop \<Rightarrow> 'j loop_item \<Rightarrow> string \<Rightarrow> ('j, captured_artifact list) effect"
  ef_evaluate :: "loop \<Rightarrow> 'j loop_item \<Rightarrow> nat \<Rightarrow> string \<Rightarrow> ('j, success_outcome \<times> string) effect"
  ef_ship :: "loop \<Rightarrow> loop_output \<Rightarrow> ('j, loop_output option) effect"
  ef_authorizeAutoShip :: "(loop_output \<Rightarrow> ('j, loop option) effect) option"

record 'j loop_runner =
  lr_env :: "'j loop_env"
  lr_outputId :: output_hash
  lr_uuid :: "nat \<Rightarrow> uuid"
  lr_partialReason :: "nat \<Rightarrow> nat \<Rightarrow> string"
  lr_effects :: "'j loop_effects"

record 'j runner_world =
  rw_stores :: "'j loop_stores"
  rw_ships :: "(loop \<times> loop_output) list"

record fire_summary =
  fs_loopId :: string
  fs_ran :: bool
  fs_enqueued :: nat
  fs_worked :: nat
  fs_ready :: "string list"
  fs_shipped :: "string list"
  fs_parked :: "string list"
  fs_continued :: "string list"
  fs_undeclaredShipActions :: "string list"
  fs_failures :: "string list"
  fs_throttled :: "string option"

definition DEFAULT_MAX_ATTEMPTS :: nat where
  "DEFAULT_MAX_ATTEMPTS = 3"

definition emptySummary :: "loop \<Rightarrow> bool \<Rightarrow> fire_summary" where
  "emptySummary loop did =
     \<lparr>fs_loopId = t_id loop, fs_ran = did, fs_enqueued = 0, fs_worked = 0, fs_ready = [], fs_shipped = [], fs_parked = [], fs_continued = [],
      fs_undeclaredShipActions = [], fs_failures = [], fs_throttled = None\<rparr>"

definition fireNeedsAttention :: "fire_summary \<Rightarrow> bool" where
  "fireNeedsAttention s = (fs_ready s \<noteq> [] \<or> fs_parked s \<noteq> [] \<or> fs_failures s \<noteq> [] \<or> fs_undeclaredShipActions s \<noteq> [])"

definition error_text :: "effect_error \<Rightarrow> string" where
  "error_text e = (case e of EffectError m \<Rightarrow> m | DuplicateLoopFire m \<Rightarrow> m)"

text \<open>An effect on the runner's world: it does not touch the trace of the shippings.\<close>

definition perform :: "('j, 'a) effect \<Rightarrow> 'j runner_world \<Rightarrow> 'j runner_world \<times> (effect_error + 'a)" where
  "perform e w = (case e (rw_stores w) of (st, r) \<Rightarrow> (w\<lparr>rw_stores := st\<rparr>, r))"

definition on_items :: "('j item_ledger \<Rightarrow> time \<Rightarrow> 'j item_ledger \<times> 'a) \<Rightarrow> 'j runner_world \<Rightarrow> 'j runner_world \<times> 'a" where
  "on_items f w =
     (case f (lst_items (rw_stores w)) (lst_now (rw_stores w)) of (l, x) \<Rightarrow> (w\<lparr>rw_stores := (rw_stores w)\<lparr>lst_items := l\<rparr>\<rparr>, x))"

definition on_outputs :: "(loop_output dmap \<Rightarrow> time \<Rightarrow> loop_output dmap \<times> 'a) \<Rightarrow> 'j runner_world \<Rightarrow> 'j runner_world \<times> 'a" where
  "on_outputs f w =
     (case f (lst_outputs (rw_stores w)) (lst_now (rw_stores w)) of (m, x) \<Rightarrow> (w\<lparr>rw_stores := (rw_stores w)\<lparr>lst_outputs := m\<rparr>\<rparr>, x))"

section \<open>The work on one item\<close>

datatype item_end =
  ClaimLost
| UndeclaredActions "string list"
| ParkedItem
| ContinuedItem
| ShippedItem
| ReadyItem

fun capture_all ::
  "'j loop_runner \<Rightarrow> loop \<Rightarrow> string \<Rightarrow> string \<Rightarrow> nat \<Rightarrow> captured_artifact list \<Rightarrow> 'j runner_world \<Rightarrow> 'j runner_world \<times> loop_output list" where
  "capture_all R loop itemId runId n [] w = (w, [])"
| "capture_all R loop itemId runId n (a # as) w =
     (case on_outputs (\<lambda>m now. capture (lr_outputId R) m
             \<lparr>co_loopId = t_id loop, co_itemId = itemId, co_attemptId = runId, co_ordinal = Some n, co_shipAction = ca_shipAction a,
              co_title = ca_title a, co_capturedBy = ca_capturedBy a, co_label = ca_label a, co_externalRef = ca_externalRef a,
              co_summary = ca_summary a\<rparr> now) w of
        (w1, out) \<Rightarrow> (case capture_all R loop itemId runId (n + 1) as w1 of (w2, outs) \<Rightarrow> (w2, out # outs)))"

definition ships_auto :: "loop \<Rightarrow> ship_grant list \<Rightarrow> loop_output \<Rightarrow> bool" where
  "ships_auto loop grants output = (case decideShip loop (outputCandidate output) grants of ShipAuto _ \<Rightarrow> True | _ \<Rightarrow> False)"

definition authorize_ship :: "'j loop_runner \<Rightarrow> loop \<Rightarrow> loop_output \<Rightarrow> 'j runner_world \<Rightarrow> 'j runner_world \<times> (effect_error + loop option)" where
  "authorize_ship R loop output w =
     (case ef_authorizeAutoShip (lr_effects R) of
        None \<Rightarrow> (w, Inr (Some loop))
      | Some auth \<Rightarrow> perform (auth output) w)"

text \<open>The shipping loop; the number of outputs it shipped comes with an error too.\<close>

fun ship_ready ::
  "'j loop_runner \<Rightarrow> loop \<Rightarrow> ship_grant list \<Rightarrow> loop_output list \<Rightarrow> nat \<Rightarrow> 'j runner_world \<Rightarrow> 'j runner_world \<times> nat \<times> effect_error option" where
  "ship_ready R loop grants [] n w = (w, n, None)"
| "ship_ready R loop grants (output # outs) n w =
     (if \<not> ships_auto loop grants output then ship_ready R loop grants outs n w
      else
        (case authorize_ship R loop output w of
           (w1, Inl e) \<Rightarrow> (w1, n, Some e)
         | (w1, Inr None) \<Rightarrow> ship_ready R loop grants outs n w1
         | (w1, Inr (Some currentLoop)) \<Rightarrow>
             (case perform (ef_ship (lr_effects R) currentLoop output) (w1\<lparr>rw_ships := rw_ships w1 @ [(currentLoop, output)]\<rparr>) of
                (w2, Inl e) \<Rightarrow> (w2, n, Some e)
              | (w2, Inr shipped) \<Rightarrow>
                  ship_ready R loop grants outs (if map_option lo_state shipped = Some OShipped then n + 1 else n) w2)))"

definition give_up_attempt :: "string \<Rightarrow> string \<Rightarrow> 'j runner_world \<Rightarrow> 'j runner_world" where
  "give_up_attempt itemId runId w = fst (on_outputs (\<lambda>m now. supersedeAttempt m itemId runId now) w)"

text \<open>After a met verdict: the item's outputs become ready and the automatic ones ship.\<close>

definition finish_item ::
  "'j loop_runner \<Rightarrow> loop \<Rightarrow> ship_grant list \<Rightarrow> 'j loop_item \<Rightarrow> string \<Rightarrow> string \<Rightarrow> loop_output list \<Rightarrow> 'j runner_world \<Rightarrow>
   'j runner_world \<times> (nat \<times> nat) \<times> (effect_error + item_end)" where
  "finish_item R loop grants item claimToken runId captured w =
     (if captured = [] then (fst (on_items (\<lambda>l now. markShipped l (li_id item) (Some claimToken) now) w), (0, 0), Inr ShippedItem)
      else
        (case on_items (\<lambda>l now. markReady l (li_id item) (map lo_id captured) claimToken now) w of
           (w1, None) \<Rightarrow> (give_up_attempt (li_id item) runId w1, (0, 0), Inr ClaimLost)
         | (w1, Some _) \<Rightarrow>
             (case on_outputs (\<lambda>m now. promoteAttempt m (li_id item) runId now) w1 of
                (w2, ready) \<Rightarrow>
                  (let autoOutputCount = length (filter (ships_auto loop grants) ready)
                   in case ship_ready R loop grants ready 0 w2 of
                        (w3, n, Some e) \<Rightarrow> (w3, (n, autoOutputCount), Inl e)
                      | (w3, n, None) \<Rightarrow>
                          if n = length ready
                          then (fst (on_items (\<lambda>l now. markShipped l (li_id item) None now) w3), (n, autoOutputCount), Inr ShippedItem)
                          else (w3, (n, autoOutputCount), Inr ReadyItem)))))"

definition judge_item ::
  "'j loop_runner \<Rightarrow> loop \<Rightarrow> ship_grant list \<Rightarrow> 'j loop_item \<Rightarrow> string \<Rightarrow> string \<Rightarrow> loop_output list \<Rightarrow> 'j runner_world \<Rightarrow>
   'j runner_world \<times> (nat \<times> nat) \<times> (effect_error + item_end)" where
  "judge_item R loop grants item claimToken runId captured w =
     (case perform (ef_evaluate (lr_effects R) loop item (li_attempts item) runId) w of
        (w1, Inl e) \<Rightarrow> (w1, (0, 0), Inl e)
      | (w1, Inr (SoPark, reason)) \<Rightarrow>
          (fst (on_items (\<lambda>l now. park l (li_id item) reason (Some claimToken) now) (give_up_attempt (li_id item) runId w1)), (0, 0), Inr ParkedItem)
      | (w1, Inr (SoContinue, reason)) \<Rightarrow>
          (fst (on_items (\<lambda>l now. returnToWork l (li_id item) reason (Some claimToken) now) (give_up_attempt (li_id item) runId w1)), (0, 0),
           Inr ContinuedItem)
      | (w1, Inr (SoMet, _)) \<Rightarrow> finish_item R loop grants item claimToken runId captured w1)"

definition still_held :: "'j loop_item \<Rightarrow> string \<Rightarrow> 'j runner_world \<Rightarrow> bool" where
  "still_held item claimToken w =
     (case get_item (lst_items (rw_stores w)) (li_id item) of
        None \<Rightarrow> False
      | Some held \<Rightarrow> li_status held = LInProgress \<and> li_claimToken held = Some claimToken)"

definition work_item ::
  "'j loop_runner \<Rightarrow> loop \<Rightarrow> ship_grant list \<Rightarrow> 'j loop_item \<Rightarrow> string \<Rightarrow> 'j runner_world \<Rightarrow>
   'j runner_world \<times> (nat \<times> nat) \<times> (effect_error + item_end)" where
  "work_item R loop grants item claimToken w =
     (case perform (ef_work (lr_effects R) loop item (li_guidance item)) w of
        (w1, Inl e) \<Rightarrow> (w1, (0, 0), Inl e)
      | (w1, Inr runId) \<Rightarrow>
          (case on_items (\<lambda>l now. recordRun l (li_id item) runId claimToken now) w1 of
             (w2, None) \<Rightarrow> (w2, (0, 0), Inr ClaimLost)
           | (w2, Some _) \<Rightarrow>
               (case perform (ef_captureOutputs (lr_effects R) loop item runId) w2 of
                  (w3, Inl e) \<Rightarrow> (w3, (0, 0), Inl e)
                | (w3, Inr artifacts) \<Rightarrow>
                    (case capture_all R loop (li_id item) runId 0 artifacts w3 of
                       (w4, captured) \<Rightarrow>
                         if \<not> still_held item claimToken w4 then (give_up_attempt (li_id item) runId w4, (0, 0), Inr ClaimLost)
                         else
                           (let undeclared = undeclaredShipActions loop captured
                            in if undeclared \<noteq> []
                               then (fst (on_items (\<lambda>l now. park l (li_id item) (''undeclared ship action: '' @ join '', '' undeclared) (Some claimToken) now)
                                       (give_up_attempt (li_id item) runId w4)), (0, 0), Inr (UndeclaredActions undeclared))
                               else judge_item R loop grants item claimToken runId captured w4)))))"

text \<open>The \<open>catch\<close>: parked when something already shipped or the attempts are used up, else back to work.\<close>

definition recover_item ::
  "'j loop_runner \<Rightarrow> loop \<Rightarrow> 'j loop_item \<Rightarrow> string \<Rightarrow> nat \<times> nat \<Rightarrow> effect_error \<Rightarrow> 'j runner_world \<Rightarrow> 'j runner_world \<times> item_end" where
  "recover_item R loop item claimToken counts e w =
     (if 0 < fst counts
      then (fst (on_items (\<lambda>l now. park l (li_id item) (lr_partialReason R (fst counts) (snd counts)) None now) w), ParkedItem)
      else
        (let w1 = (case Option.bind (get_item (lst_items (rw_stores w)) (li_id item)) (\<lambda>it. last_opt (li_runIds it)) of
                     None \<Rightarrow> w
                   | Some runId \<Rightarrow> if runId = [] then w else give_up_attempt (li_id item) runId w);
             maxAttempts = or_else (Option.bind (l_caps loop) lc_maxItemAttempts) DEFAULT_MAX_ATTEMPTS
         in if maxAttempts \<le> li_attempts item
            then (fst (on_items (\<lambda>l now. park l (li_id item) (error_text e) (Some claimToken) now) w1), ParkedItem)
            else (fst (on_items (\<lambda>l now. returnToWork l (li_id item) (error_text e) (Some claimToken) now) w1), ContinuedItem)))"

definition note_end :: "string \<Rightarrow> item_end \<Rightarrow> fire_summary \<Rightarrow> fire_summary" where
  "note_end i end s =
     (case end of
        ClaimLost \<Rightarrow> s
      | UndeclaredActions as \<Rightarrow> s\<lparr>fs_undeclaredShipActions := fs_undeclaredShipActions s @ as, fs_parked := fs_parked s @ [i]\<rparr>
      | ParkedItem \<Rightarrow> s\<lparr>fs_parked := fs_parked s @ [i]\<rparr>
      | ContinuedItem \<Rightarrow> s\<lparr>fs_continued := fs_continued s @ [i]\<rparr>
      | ShippedItem \<Rightarrow> s\<lparr>fs_shipped := fs_shipped s @ [i]\<rparr>
      | ReadyItem \<Rightarrow> s\<lparr>fs_ready := fs_ready s @ [i]\<rparr>)"

definition run_item ::
  "'j loop_runner \<Rightarrow> loop \<Rightarrow> ship_grant list \<Rightarrow> 'j loop_item \<Rightarrow> 'j runner_world \<Rightarrow> fire_summary \<Rightarrow> 'j runner_world \<times> fire_summary" where
  "run_item R loop grants queued_item w s =
     (case on_items (\<lambda>l now. claim_item l (li_id queued_item) now (lr_uuid R (fs_worked s))) w of
        (w1, None) \<Rightarrow> (w1, s)
      | (w1, Some item) \<Rightarrow>
          (let s1 = s\<lparr>fs_worked := fs_worked s + 1\<rparr>; claimToken = or_else (li_claimToken item) []
           in case work_item R loop grants item claimToken w1 of
                (w2, counts, Inr end) \<Rightarrow> (w2, note_end (li_id item) end s1)
              | (w2, counts, Inl e) \<Rightarrow>
                  (let s2 = s1\<lparr>fs_failures := fs_failures s1 @ [li_sourceKey item @ '': '' @ error_text e]\<rparr>
                   in case recover_item R loop item claimToken counts e w2 of
                        (w3, end) \<Rightarrow> (w3, note_end (li_id item) end s2))))"

fun run_items ::
  "'j loop_runner \<Rightarrow> loop \<Rightarrow> ship_grant list \<Rightarrow> 'j loop_item list \<Rightarrow> 'j runner_world \<Rightarrow> fire_summary \<Rightarrow> 'j runner_world \<times> fire_summary" where
  "run_items R loop grants [] w s = (w, s)"
| "run_items R loop grants (q # qs) w s = (case run_item R loop grants q w s of (w1, s1) \<Rightarrow> run_items R loop grants qs w1 s1)"

section \<open>The fire\<close>

fun intake :: "'j loop_runner \<Rightarrow> loop \<Rightarrow> intake_candidate list \<Rightarrow> 'j runner_world \<Rightarrow> nat \<Rightarrow> 'j runner_world \<times> nat" where
  "intake R loop [] w n = (w, n)"
| "intake R loop (c # cs) w n =
     (case on_items (\<lambda>l now. enqueue_item (lr_env R) l \<lparr>eq_loopId = t_id loop, eq_sourceKey = ic_sourceKey c, eq_sourceSummary = ic_sourceSummary c\<rparr> now) w of
        (w1, (it, created)) \<Rightarrow> intake R loop cs w1 (if created then n + 1 else n))"

definition batch_of :: "loop \<Rightarrow> 'a list \<Rightarrow> 'a list" where
  "batch_of loop q = (if l_throttle loop then take (max 1 (length q div 2)) q else q)"

definition note_outcome :: "loop \<Rightarrow> bool \<Rightarrow> 'j runner_world \<Rightarrow> 'j runner_world" where
  "note_outcome loop failed w =
     w\<lparr>rw_stores := (rw_stores w)\<lparr>lst_loops := fst (recordFireOutcome (lst_loops (rw_stores w)) (t_id loop) failed (lst_now (rw_stores w)))\<rparr>\<rparr>"

text \<open>The error is the one that is thrown on: a fire already under way.\<close>

definition runLoopFire ::
  "'j loop_runner \<Rightarrow> loop \<Rightarrow> ship_grant list \<Rightarrow> 'j runner_world \<Rightarrow> 'j runner_world \<times> (effect_error + fire_summary)" where
  "runLoopFire R loop grants w =
     (if \<not> isRunnable loop then (w, Inr (emptySummary loop False))
      else
        (let s = emptySummary loop True;
             openOutputs = length (filter unresolvedOutput (forLoop_outputs (lst_outputs (rw_stores w)) (t_id loop)))
         in if (case Option.bind (l_caps loop) lc_maxOpenOutputs of None \<Rightarrow> False | Some n \<Rightarrow> n \<le> openOutputs)
            then (note_outcome loop False w, Inr (s\<lparr>fs_throttled := Some (show_nat openOutputs @ '' outputs waiting for review'')\<rparr>))
            else
              (case perform (ef_enumerate (lr_effects R) loop) w of
                 (w1, Inl (DuplicateLoopFire m)) \<Rightarrow> (w1, Inl (DuplicateLoopFire m))
               | (w1, r) \<Rightarrow>
                   (let (w2, s2) =
                      (case r of
                         Inl e \<Rightarrow> (w1, s\<lparr>fs_failures := [''intake: '' @ error_text e]\<rparr>)
                       | Inr cs \<Rightarrow> (case intake R loop cs w1 0 of (w2, n) \<Rightarrow> (w2, s\<lparr>fs_enqueued := n\<rparr>)));
                        q = queued (lst_items (rw_stores w2)) (t_id loop) (Option.bind (l_caps loop) lc_maxItemsPerFire)
                    in case run_items R loop grants (batch_of loop q) w2 s2 of
                         (w3, s3) \<Rightarrow> (note_outcome loop (fs_failures s3 \<noteq> []) w3, Inr s3)))))"

section \<open>What a fire ships\<close>

text \<open>The shippings a step adds, each with the authority for it.\<close>

definition ship_authorized :: "'j loop_runner \<Rightarrow> loop \<Rightarrow> ship_grant list \<Rightarrow> loop \<times> loop_output \<Rightarrow> bool" where
  "ship_authorized R loop grants x =
     (ships_auto loop grants (snd x) \<and>
      (case ef_authorizeAutoShip (lr_effects R) of
         None \<Rightarrow> fst x = loop
       | Some auth \<Rightarrow> \<exists>st. snd (auth (snd x) st) = Inr (Some (fst x))))"

definition adds_ships :: "(loop \<times> loop_output \<Rightarrow> bool) \<Rightarrow> 'j runner_world \<Rightarrow> 'j runner_world \<Rightarrow> bool" where
  "adds_ships P w w' = (\<exists>new. rw_ships w' = rw_ships w @ new \<and> list_all P new)"

lemma adds_ships_refl [simp]: "rw_ships w' = rw_ships w \<Longrightarrow> adds_ships P w w'"
  by (simp add: adds_ships_def)

lemma adds_ships_trans: "adds_ships P w w1 \<Longrightarrow> adds_ships P w1 w2 \<Longrightarrow> adds_ships P w w2"
  unfolding adds_ships_def by (metis append.assoc list_all_append)

lemma adds_ships_eq: "rw_ships w1 = rw_ships w \<Longrightarrow> adds_ships P w w2 = adds_ships P w1 w2"
  by (simp add: adds_ships_def)

lemma perform_ships [simp]: "perform e w = (w', r) \<Longrightarrow> rw_ships w' = rw_ships w"
  by (auto simp: perform_def split: prod.splits)

lemma on_stores_ships [simp]:
  "on_items f w = (w', x) \<Longrightarrow> rw_ships w' = rw_ships w" "on_outputs g w = (w', y) \<Longrightarrow> rw_ships w' = rw_ships w"
  "rw_ships (fst (on_items f w)) = rw_ships w" "rw_ships (give_up_attempt i r w) = rw_ships w"
  by (auto simp: on_items_def on_outputs_def give_up_attempt_def split: prod.splits)

lemma capture_all_ships: "capture_all R loop i r n as w = (w', outs) \<Longrightarrow> rw_ships w' = rw_ships w"
  by (induction R loop i r n as w arbitrary: w' outs rule: capture_all.induct) (fastforce split: prod.splits)+

lemma authorize_ship_ok:
  "authorize_ship R loop out w = (w1, Inr (Some l)) \<Longrightarrow> ships_auto loop grants out \<Longrightarrow> ship_authorized R loop grants (l, out)"
  by (auto simp: authorize_ship_def ship_authorized_def perform_def split: option.splits prod.splits) (metis snd_conv)

lemma authorize_ship_ships [simp]: "authorize_ship R loop out w = (w1, r) \<Longrightarrow> rw_ships w1 = rw_ships w"
  by (auto simp: authorize_ship_def split: option.splits)

lemma ship_ready_ships:
  "ship_ready R loop grants outs n w = (w', m, e) \<Longrightarrow> adds_ships (ship_authorized R loop grants) w w'"
proof (induction R loop grants outs n w arbitrary: w' m e rule: ship_ready.induct)
  case (2 R loop grants out outs n w)
  show ?case
  proof (cases "ships_auto loop grants out")
    case False
    then show ?thesis using 2(1) 2(4) by simp
  next
    case True
    obtain w1 r where a: "authorize_ship R loop out w = (w1, r)" by fastforce
    show ?thesis
    proof (cases r)
      case (Inl x)
      then show ?thesis using 2(4) True a by simp
    next
      case (Inr lo)
      show ?thesis
      proof (cases lo)
        case None
        then show ?thesis using 2(2) [OF _ a [symmetric] Inr None] 2(4) True a Inr
          by (simp add: adds_ships_eq [OF authorize_ship_ships [OF a], symmetric])
      next
        case (Some l)
        let ?w = "w1\<lparr>rw_ships := rw_ships w1 @ [(l, out)]\<rparr>"
        have step: "adds_ships (ship_authorized R loop grants) w ?w"
          using authorize_ship_ok [of R loop out w w1 l grants] a Inr Some True authorize_ship_ships [OF a]
          by (auto simp: adds_ships_def)
        obtain w2 q where p: "perform (ef_ship (lr_effects R) l out) ?w = (w2, q)" by fastforce
        have s2: "adds_ships (ship_authorized R loop grants) w w2"
          using step perform_ships [OF p] by (simp add: adds_ships_def)
        show ?thesis
        proof (cases q)
          case (Inl x)
          then show ?thesis using 2(4) True a Inr Some p s2 by simp
        next
          case (Inr y)
          then show ?thesis
            using 2(3) [OF _ a [symmetric] \<open>r = Inr lo\<close> Some p [symmetric] Inr] 2(4) True a \<open>r = Inr lo\<close> Some p s2
            by (auto intro: adds_ships_trans)
        qed
      qed
    qed
  qed
qed simp

lemma finish_item_ships:
  "finish_item R loop grants item t r captured w = (w', c, e) \<Longrightarrow> adds_ships (ship_authorized R loop grants) w w'"
proof (cases "captured = []")
  case False
  assume f: "finish_item R loop grants item t r captured w = (w', c, e)"
  obtain w1 m where i: "on_items (\<lambda>l now. markReady l (li_id item) (map lo_id captured) t now) w = (w1, m)" by fastforce
  show ?thesis
  proof (cases m)
    case None
    then show ?thesis using f i False by (auto simp: finish_item_def)
  next
    case (Some x)
    obtain w2 ready where p: "on_outputs (\<lambda>m now. promoteAttempt m (li_id item) r now) w1 = (w2, ready)" by fastforce
    obtain w3 n q where sr: "ship_ready R loop grants ready 0 w2 = (w3, n, q)" by (cases "ship_ready R loop grants ready 0 w2") auto
    have "rw_ships w2 = rw_ships w" using i p by simp
    moreover have "adds_ships (ship_authorized R loop grants) w2 w3" by (rule ship_ready_ships [OF sr])
    moreover have "rw_ships w' = rw_ships w3"
      using f i False Some p sr by (auto simp: finish_item_def Let_def split: option.splits if_splits)
    ultimately show ?thesis by (simp add: adds_ships_def)
  qed
qed (auto simp: finish_item_def)

lemma judge_item_ships:
  "judge_item R loop grants item t r captured w = (w', c, e) \<Longrightarrow> adds_ships (ship_authorized R loop grants) w w'"
proof -
  assume j: "judge_item R loop grants item t r captured w = (w', c, e)"
  obtain w1 q where p: "perform (ef_evaluate (lr_effects R) loop item (li_attempts item) r) w = (w1, q)" by fastforce
  show ?thesis
  proof (cases "\<exists>x. q = Inr (SoMet, x)")
    case True
    then have "finish_item R loop grants item t r captured w1 = (w', c, e)" using j p by (auto simp: judge_item_def)
    then show ?thesis using finish_item_ships adds_ships_eq [OF perform_ships [OF p]] by blast
  next
    case False
    then have "rw_ships w' = rw_ships w1" using j p
      by (auto simp: judge_item_def split: sum.splits prod.splits success_outcome.splits)
    then show ?thesis using p by simp
  qed
qed

lemma work_item_ships:
  "work_item R loop grants item t w = (w', c, e) \<Longrightarrow> adds_ships (ship_authorized R loop grants) w w'"
proof -
  assume k: "work_item R loop grants item t w = (w', c, e)"
  obtain w1 q where p: "perform (ef_work (lr_effects R) loop item (li_guidance item)) w = (w1, q)" by fastforce
  show ?thesis
  proof (cases q)
    case (Inl x)
    then show ?thesis using k p by (simp add: work_item_def)
  next
    case (Inr runId)
    obtain w2 m where rr: "on_items (\<lambda>l now. recordRun l (li_id item) runId t now) w1 = (w2, m)" by fastforce
    obtain w3 a where ca: "perform (ef_captureOutputs (lr_effects R) loop item runId) w2 = (w3, a)" by fastforce
    have s3: "rw_ships w3 = rw_ships w" using p rr ca by simp
    show ?thesis
    proof (cases "m = None \<or> (\<exists>x. a = Inl x)")
      case True
      then show ?thesis using k p Inr rr ca s3 by (auto simp: work_item_def split: option.splits)
    next
      case False
      then obtain as where as: "a = Inr as" by (cases a) auto
      obtain w4 captured where c4: "capture_all R loop (li_id item) runId 0 as w3 = (w4, captured)" by fastforce
      have s4: "rw_ships w4 = rw_ships w" using capture_all_ships [OF c4] s3 by simp
      show ?thesis
      proof (cases "still_held item t w4 \<and> undeclaredShipActions loop captured = []")
        case True
        then have "judge_item R loop grants item t runId captured w4 = (w', c, e)"
          using k p Inr rr ca as c4 False by (auto simp: work_item_def Let_def split: option.splits)
        then show ?thesis using judge_item_ships adds_ships_eq [OF s4] by blast
      next
        case F: False
        then have "rw_ships w' = rw_ships w4"
          using k p Inr rr ca as c4 False by (auto simp: work_item_def Let_def split: option.splits if_splits)
        then show ?thesis using s4 by simp
      qed
    qed
  qed
qed

lemma recover_item_ships: "recover_item R loop item t c e w = (w', x) \<Longrightarrow> rw_ships w' = rw_ships w"
  by (auto simp: recover_item_def Let_def split: if_splits option.splits)

lemma run_item_ships:
  "run_item R loop grants q w s = (w', s') \<Longrightarrow> adds_ships (ship_authorized R loop grants) w w'"
proof -
  assume r: "run_item R loop grants q w s = (w', s')"
  obtain w1 it where c: "on_items (\<lambda>l now. claim_item l (li_id q) now (lr_uuid R (fs_worked s))) w = (w1, it)" by fastforce
  show ?thesis
  proof (cases it)
    case None
    then show ?thesis using r c by (auto simp: run_item_def)
  next
    case (Some item)
    obtain w2 cs e where k: "work_item R loop grants item (or_else (li_claimToken item) []) w1 = (w2, cs, e)"
      by (cases "work_item R loop grants item (or_else (li_claimToken item) []) w1") auto
    have "rw_ships w' = rw_ships w2"
      using r c Some k by (auto simp: run_item_def Let_def split: sum.splits prod.splits dest: recover_item_ships)
    moreover have "adds_ships (ship_authorized R loop grants) w1 w2" by (rule work_item_ships [OF k])
    ultimately show ?thesis using c by (simp add: adds_ships_def)
  qed
qed

lemma run_items_ships:
  "run_items R loop grants qs w s = (w', s') \<Longrightarrow> adds_ships (ship_authorized R loop grants) w w'"
proof (induction qs arbitrary: w s)
  case (Cons q qs)
  obtain w1 s1 where q: "run_item R loop grants q w s = (w1, s1)" by fastforce
  with Cons run_item_ships [OF q] show ?case by (auto intro: adds_ships_trans)
qed simp

lemma intake_ships: "intake R loop cs w n = (w', m) \<Longrightarrow> rw_ships w' = rw_ships w"
proof (induction cs arbitrary: w n)
  case (Cons c cs)
  then show ?case by (auto split: prod.splits)
qed simp

text \<open>A fire either works a batch, from a summary with nothing worked, or works nothing.\<close>

definition tally :: "fire_summary \<Rightarrow> nat" where
  "tally s = length (fs_ready s) + length (fs_shipped s) + length (fs_parked s) + length (fs_continued s)"

lemma runLoopFire_cases:
  assumes "runLoopFire R loop grants w = (w', r)"
  obtains (idle) "rw_ships w' = rw_ships w" "\<And>s. r = Inr s \<Longrightarrow> fs_worked s = 0 \<and> tally s = 0"
  | (worked) w2 s2 w3 s3 where "isRunnable loop" "rw_ships w2 = rw_ships w" "fs_worked s2 = 0" "tally s2 = 0" "r = Inr s3"
      "run_items R loop grants (batch_of loop (queued (lst_items (rw_stores w2)) (t_id loop) (Option.bind (l_caps loop) lc_maxItemsPerFire))) w2 s2 = (w3, s3)"
      "rw_ships w' = rw_ships w3"
proof (cases "isRunnable loop")
  case False
  then show ?thesis using assms idle by (auto simp: runLoopFire_def emptySummary_def tally_def)
next
  case run: True
  let ?open = "length (filter unresolvedOutput (forLoop_outputs (lst_outputs (rw_stores w)) (t_id loop)))"
  obtain w1 q where p: "perform (ef_enumerate (lr_effects R) loop) w = (w1, q)" by fastforce
  have s1: "rw_ships w1 = rw_ships w" by (rule perform_ships [OF p])
  consider (throttled) "case Option.bind (l_caps loop) lc_maxOpenOutputs of None \<Rightarrow> False | Some n \<Rightarrow> n \<le> ?open"
    | (duplicate) m where "\<not> (case Option.bind (l_caps loop) lc_maxOpenOutputs of None \<Rightarrow> False | Some n \<Rightarrow> n \<le> ?open)" "q = Inl (DuplicateLoopFire m)"
    | (go) "\<not> (case Option.bind (l_caps loop) lc_maxOpenOutputs of None \<Rightarrow> False | Some n \<Rightarrow> n \<le> ?open)" "\<And>m. q \<noteq> Inl (DuplicateLoopFire m)"
    by blast
  then show ?thesis
  proof cases
    case throttled
    then show ?thesis using assms run idle
      by (auto simp: runLoopFire_def Let_def note_outcome_def emptySummary_def tally_def)
  next
    case (duplicate m)
    then show ?thesis using assms run p s1 idle by (auto simp: runLoopFire_def Let_def)
  next
    case go
    define ws where "ws = (case q of
        Inl e \<Rightarrow> (w1, (emptySummary loop True)\<lparr>fs_failures := [''intake: '' @ error_text e]\<rparr>)
      | Inr cs \<Rightarrow> (case intake R loop cs w1 0 of (w2, n) \<Rightarrow> (w2, (emptySummary loop True)\<lparr>fs_enqueued := n\<rparr>)))"
    obtain w2 s2 where ws2: "ws = (w2, s2)" by fastforce
    have w2: "rw_ships w2 = rw_ships w" "fs_worked s2 = 0" "tally s2 = 0"
      using ws2 s1 by (auto simp: ws_def emptySummary_def tally_def split: sum.splits prod.splits dest: intake_ships)
    let ?q = "queued (lst_items (rw_stores w2)) (t_id loop) (Option.bind (l_caps loop) lc_maxItemsPerFire)"
    obtain w3 s3 where r3: "run_items R loop grants (batch_of loop ?q) w2 s2 = (w3, s3)" by fastforce
    have "runLoopFire R loop grants w = (note_outcome loop (fs_failures s3 \<noteq> []) w3, Inr s3)"
      using go run p ws2 r3
      by (cases q) (auto simp: runLoopFire_def Let_def ws_def split: effect_error.splits prod.splits)
    then show ?thesis using assms run w2 r3 by (intro worked) (auto simp: note_outcome_def)
  qed
qed


section \<open>How much a fire does\<close>

lemma note_end_tally: "tally (note_end i end s) \<le> tally s + 1" "fs_worked (note_end i end s) = fs_worked s"
  by (cases "end"; simp add: note_end_def tally_def)+

lemma run_item_tally:
  "run_item R loop grants q w s = (w', s') \<Longrightarrow> tally s \<le> fs_worked s \<Longrightarrow> tally s' \<le> fs_worked s' \<and> fs_worked s' \<le> fs_worked s + 1"
proof -
  assume r: "run_item R loop grants q w s = (w', s')" and t: "tally s \<le> fs_worked s"
  have "s' = s \<or> (\<exists>i end u. s' = note_end i end u \<and> fs_worked u = fs_worked s + 1 \<and> tally u = tally s)"
  proof -
    obtain w1 it where c: "on_items (\<lambda>l now. claim_item l (li_id q) now (lr_uuid R (fs_worked s))) w = (w1, it)" by fastforce
    show ?thesis
    proof (cases it)
      case None
      then show ?thesis using r c by (simp add: run_item_def)
    next
      case (Some item)
      obtain w2 cs e where k: "work_item R loop grants item (or_else (li_claimToken item) []) w1 = (w2, cs, e)"
        by (cases "work_item R loop grants item (or_else (li_claimToken item) []) w1") auto
      let ?u = "s\<lparr>fs_worked := fs_worked s + 1\<rparr>"
      have "(\<exists>end. s' = note_end (li_id item) end ?u) \<or> (\<exists>end f. s' = note_end (li_id item) end (?u\<lparr>fs_failures := f\<rparr>))"
        using r c Some k by (cases e) (auto simp: run_item_def Let_def split: prod.splits)
      then show ?thesis
      proof (elim disjE exE)
        fix en assume "s' = note_end (li_id item) en ?u"
        then show ?thesis by (intro disjI2 exI [of _ "li_id item"] exI [of _ en] exI [of _ ?u]) (simp add: tally_def)
      next
        fix en f assume "s' = note_end (li_id item) en (?u\<lparr>fs_failures := f\<rparr>)"
        then show ?thesis by (intro disjI2 exI [of _ "li_id item"] exI [of _ en] exI [of _ "?u\<lparr>fs_failures := f\<rparr>"]) (simp add: tally_def)
      qed
    qed
  qed
  then show ?thesis
  proof (elim disjE exE conjE)
    fix i e u
    assume u: "s' = note_end i e u" "fs_worked u = fs_worked s + 1" "tally u = tally s"
    then show ?thesis using note_end_tally [of i e u] t by simp
  qed (simp add: t)
qed

lemma run_items_tally:
  "run_items R loop grants qs w s = (w', s') \<Longrightarrow> tally s \<le> fs_worked s \<Longrightarrow> tally s' \<le> fs_worked s' \<and> fs_worked s' \<le> fs_worked s + length qs"
proof (induction qs arbitrary: w s)
  case (Cons q qs)
  obtain w1 s1 where q: "run_item R loop grants q w s = (w1, s1)" by fastforce
  from run_item_tally [OF q Cons.prems(2)] Cons.IH [of w1 s1] Cons.prems(1) q show ?case by force
qed simp

text \<open>
  A fire ends every item it works in at most one way, works no more than the cap, and no more than
  half of what is queued while the loop is throttled, but one.
\<close>

theorem fire_is_bounded:
  assumes "runLoopFire R loop grants w = (w', Inr s)"
  shows "length (fs_ready s) + length (fs_shipped s) + length (fs_parked s) + length (fs_continued s) \<le> fs_worked s \<and>
    (\<forall>n caps. l_caps loop = Some caps \<and> lc_maxItemsPerFire caps = Some n \<longrightarrow>
       fs_worked s \<le> n \<and> (l_throttle loop \<longrightarrow> fs_worked s \<le> max 1 (n div 2)))"
  using assms
proof (cases rule: runLoopFire_cases)
  case idle
  then show ?thesis by (simp add: tally_def)
next
  case (worked w2 s2 w3 s3)
  let ?q = "queued (lst_items (rw_stores w2)) (t_id loop) (Option.bind (l_caps loop) lc_maxItemsPerFire)"
  have t: "tally s \<le> fs_worked s" "fs_worked s \<le> length (batch_of loop ?q)"
    using run_items_tally [OF worked(6)] worked(3-5) by auto
  have "fs_worked s \<le> n \<and> (l_throttle loop \<longrightarrow> fs_worked s \<le> max 1 (n div 2))"
    if "l_caps loop = Some caps" "lc_maxItemsPerFire caps = Some n" for n caps
  proof -
    have q: "length ?q \<le> n" using that by (simp add: queued_def Let_def)
    have h: "length ?q div 2 \<le> n div 2" by (rule div_le_mono [OF q])
    show ?thesis using t(2) q h by (auto simp: batch_of_def split: if_splits)
  qed
  with t(1) show ?thesis by (auto simp: tally_def)
qed

section \<open>The theorems applied\<close>

definition ex_artifact :: captured_artifact where
  "ex_artifact = \<lparr>ca_shipAction = ''mail'', ca_title = ''Reply'', ca_capturedBy = CbAgent, ca_label = None, ca_externalRef = None, ca_summary = None\<rparr>"

definition ex_effects :: "unit loop_effects" where
  "ex_effects =
     \<lparr>ef_enumerate = (\<lambda>_ st. (st, Inr [\<lparr>ic_sourceKey = ''k'', ic_sourceSummary = None\<rparr>])), ef_work = (\<lambda>_ _ _ st. (st, Inr ''r1'')),
      ef_captureOutputs = (\<lambda>_ _ _ st. (st, Inr [ex_artifact])), ef_evaluate = (\<lambda>_ _ _ _ st. (st, Inr (SoMet, []))),
      ef_ship = (\<lambda>_ out st. (st, Inr (Some (out\<lparr>lo_state := OShipped\<rparr>)))), ef_authorizeAutoShip = None\<rparr>"

definition ex_runner :: "unit loop_runner" where
  "ex_runner = \<lparr>lr_env = ex_env, lr_outputId = (\<lambda>l i a s n e. l @ i @ a @ s), lr_uuid = (\<lambda>_. ''u''), lr_partialReason = (\<lambda>_ _. ''partial''),
     lr_effects = ex_effects\<rparr>"

definition ex_runner_world :: "unit runner_world" where
  "ex_runner_world = \<lparr>rw_stores = \<lparr>lst_now = 10, lst_loops = [], lst_items = createLoopItemLedger, lst_outputs = createMemoryMap\<rparr>, rw_ships = []\<rparr>"

lemma ex_fire:
  "map (\<lambda>(l, out). lo_shipAction out) (rw_ships (fst (runLoopFire ex_runner ex_loop [ex_ship_grant] ex_runner_world))) = [''mail'']"
  "case snd (runLoopFire ex_runner ex_loop [ex_ship_grant] ex_runner_world) of Inr s \<Rightarrow> fs_worked s = 1 \<and> length (fs_shipped s) = 1 | Inl _ \<Rightarrow> False"
  by code_simp+


theorem fire_is_bounded_witness:
  "\<exists>w' s. runLoopFire ex_runner ex_loop [ex_ship_grant] ex_runner_world = (w', Inr s) \<and> length (fs_shipped s) \<le> fs_worked s \<and> fs_worked s = 1"
proof -
  obtain w' s where f: "runLoopFire ex_runner ex_loop [ex_ship_grant] ex_runner_world = (w', Inr s)" "fs_worked s = 1"
    using ex_fire(2) by (cases "runLoopFire ex_runner ex_loop [ex_ship_grant] ex_runner_world") (auto split: sum.splits)
  from fire_is_bounded [OF f(1)] f show ?thesis by auto
qed

end
