(* ===== verification/Webhook_Theorems.thy ===== *)
theory Webhook_Theorems
  imports Webhooks
begin

text \<open>
  What the receiver of webhooks promises: nothing happens without a signature made with the secret of
  the webhook, and an event that was handled is not handled again.
\<close>

section \<open>Signatures\<close>

lemma split_on_part: "x \<in> set (split_on c s) \<Longrightarrow> \<exists>a b. s = a @ x @ b"
proof (induction c s arbitrary: x rule: split_on.induct)
  case (2 c d s)
  show ?case
  proof (cases "d = c")
    case True
    then consider "x = []" | "x \<in> set (split_on c s)" using "2.prems" by auto
    then show ?thesis
    proof cases
      case 1
      then show ?thesis by auto
    next
      case 2
      then obtain a b where "s = a @ x @ b" using "2.IH" by blast
      then have "d # s = (d # a) @ x @ b" by simp
      then show ?thesis by blast
    qed
  next
    case False
    obtain y ys where y: "split_on c s = y # ys" using split_on_not_Nil by (metis neq_Nil_conv)
    then consider "x = d # y" | "x \<in> set (split_on c s)" using "2.prems" False by auto
    then show ?thesis
    proof cases
      case 1
      have "\<exists>b. s = y @ b" using y by (induction s arbitrary: y ys) (auto split: if_splits list.splits)
      then show ?thesis using 1 by (metis append_Cons append_Nil)
    next
      case 2
      then obtain a b where "s = a @ x @ b" using "2.IH" by blast
      then have "d # s = (d # a) @ x @ b" by simp
      then show ?thesis by blast
    qed
  qed
qed auto

text \<open>A verified request carries, in a header, the keyed hash of a text that ends with its body.\<close>

definition carries_mac :: "webhook_env \<Rightarrow> string \<Rightarrow> headers \<Rightarrow> string \<Rightarrow> bool" where
  "carries_mac E secret hs rawBody =
     (\<exists>name v pre a b. header hs name = Some v \<and> v = a @ we_hmacHex E secret (pre @ rawBody) @ b)"

lemma carries_macI: "header hs name = Some v \<Longrightarrow> v = a @ we_hmacHex E secret (pre @ rawBody) @ b \<Longrightarrow> carries_mac E secret hs rawBody"
  unfolding carries_mac_def by blast

lemma verify_stripe_mac:
  assumes "verify_stripe E secret input"
  shows "carries_mac E secret (vi_headers input) (vi_rawBody input)"
proof -
  from assms obtain sig t p where sig: "header (vi_headers input) ''stripe-signature'' = Some sig"
      and p: "p \<in> set (split_on CHR '','' sig)" "sig_part p = (''v1'', Some (we_hmacHex E secret (t @ ''.'' @ vi_rawBody input)))"
    unfolding verify_stripe_def Let_def by (auto simp: list_ex_iff elim!: truthyE) metis
  have "we_hmacHex E secret (t @ ''.'' @ vi_rawBody input) \<in> set (split_on CHR ''='' p)"
    using p(2) by (auto simp: sig_part_def split: list.splits)
  then obtain a b where "p = a @ we_hmacHex E secret (t @ ''.'' @ vi_rawBody input) @ b" using split_on_part by blast
  moreover obtain c d where "sig = c @ p @ d" using split_on_part [OF p(1)] by blast
  ultimately have "sig = (c @ a) @ we_hmacHex E secret ((t @ ''.'') @ vi_rawBody input) @ (b @ d)" by simp
  then show ?thesis using sig by (rule carries_macI [rotated])
qed

lemma verified_mac:
  assumes "verify_webhook E now scheme input"
  shows "\<exists>secret. vi_secret input = Some secret \<and> secret \<noteq> [] \<and> carries_mac E secret (vi_headers input) (vi_rawBody input)"
proof -
  from assms obtain secret where sec: "vi_secret input = Some secret" "secret \<noteq> []"
    by (auto simp: verify_webhook_def split: if_splits elim!: truthyE)
  have "carries_mac E secret (vi_headers input) (vi_rawBody input)"
  proof (cases scheme)
    case Github
    then have "\<exists>sig. header (vi_headers input) ''x-hub-signature-256'' = Some sig \<and> sig = ''sha256='' @ we_hmacHex E secret ([] @ vi_rawBody input) @ []"
      using assms sec by (auto simp: verify_webhook_def verify_github_def Let_def elim!: truthyE)
    then show ?thesis using carries_macI by blast
  next
    case SlackSigned
    then have "\<exists>sig ts. header (vi_headers input) ''x-slack-signature'' = Some sig \<and> sig = ''v0='' @ we_hmacHex E secret ((''v0:'' @ ts @ '':'') @ vi_rawBody input) @ []"
      using assms sec by (auto simp: verify_webhook_def verify_slack_def Let_def split: option.splits elim!: truthyE)
    then show ?thesis using carries_macI by blast
  next
    case Stripe
    then show ?thesis using assms sec verify_stripe_mac by (simp add: verify_webhook_def)
  next
    case HmacSha256
    then have v: "verify_hmac E secret input" using assms sec by (simp add: verify_webhook_def)
    then obtain raw where h: "header (vi_headers input) ''x-signature'' = Some raw"
      by (auto simp: verify_hmac_def Let_def elim!: truthyE)
    then have raw: "header (vi_headers input) ''x-signature'' = Some raw"
        "(if startsWith raw ''sha256='' then drop 7 raw else raw) = we_hmacHex E secret (vi_rawBody input)"
      using v by (auto simp: verify_hmac_def Let_def split: if_splits)
    then have "raw = (if startsWith raw ''sha256='' then ''sha256='' else []) @ we_hmacHex E secret ([] @ vi_rawBody input) @ []"
      by (auto simp: startsWith_iff split: if_splits)
    then show ?thesis using raw(1) carries_macI by blast
  next
    case Linear
    then have "\<exists>sig. header (vi_headers input) ''linear-signature'' = Some sig \<and> sig = [] @ we_hmacHex E secret ([] @ vi_rawBody input) @ []"
      using assms sec by (auto simp: verify_webhook_def verify_linear_def Let_def elim!: truthyE)
    then show ?thesis using carries_macI by blast
  qed
  with sec show ?thesis by blast
qed

text \<open>
  C23. A delivery that changes anything - starts a turn, leaves a message, writes to a webhook - or is
  answered at all, was addressed to an enabled webhook and carries in a header the keyed hash, under
  the secret of that webhook, of a text that ends with its body.
\<close>

theorem webhook_needs_signature:
  assumes "deliver_webhook E deps u u' i hs rawBody W = (W', r)" and "W' \<noteq> W \<or> r \<notin> {Unauthorized, NotFound}"
  shows "\<exists>wh secret. dm_get (ww_webhooks W) i = Some wh \<and> t_enabled wh \<and> wv_secret (wh_verification wh) = Some secret \<and> secret \<noteq> [] \<and>
    (\<exists>name v pre a b. header hs name = Some v \<and> v = a @ we_hmacHex E secret (pre @ rawBody) @ b)"
proof -
  obtain wh where wh: "dm_get (ww_webhooks W) i = Some wh" "t_enabled wh"
    using assms by (auto simp: deliver_webhook_def split: option.splits if_splits)
  let ?input = "\<lparr>vi_secret = (if truthy (wv_secret (wh_verification wh)) then wv_secret (wh_verification wh) else None), vi_headers = hs, vi_rawBody = rawBody\<rparr>"
  have "verify_webhook E (is_now (ww_idem W)) (wv_scheme (wh_verification wh)) ?input"
    using assms wh by (auto simp: deliver_webhook_def Let_def split: if_splits)
  from verified_mac [OF this] obtain secret where
    "vi_secret ?input = Some secret" "secret \<noteq> []" "carries_mac E secret hs rawBody" by auto
  moreover from this have "wv_secret (wh_verification wh) = Some secret" by (simp split: if_splits)
  ultimately show ?thesis using wh unfolding carries_mac_def by blast
qed

section \<open>Once\<close>

lemma kept_committed:
  "kept key a s \<Longrightarrow> is_now s - retentionMs opts \<le> a \<Longrightarrow> isCommitted opts key s = (s, True)"
  by (auto simp: kept_def isCommitted_def isCommitted_start_def Let_def)

lemma isCommitted_kept:
  assumes "isCommitted opts key s = (s', b)" "keys_ok s" "kept k a s" "is_now s - retentionMs opts \<le> a"
  shows "kept k a s' \<and> keys_ok s' \<and> is_now s' = is_now s"
  using assms isCommitted_store [OF assms(2,1)] keys_ok_committed [OF assms(1,2)] kept_committed [of key a s opts]
  by (cases "k = key") auto

lemma run_webhook_kept:
  assumes "keys_ok (ww_idem W)" "kept k a (ww_idem W)" "0 \<le> retentionMs (tdp_idempotency deps)" "is_now (ww_idem W) - retentionMs (tdp_idempotency deps) \<le> a"
  shows "keys_ok (ww_idem (run_webhook E deps u u' wh parsed rawBody W)) \<and> kept k a (ww_idem (run_webhook E deps u u' wh parsed rawBody W))"
proof -
  obtain s1 w1 r where t: "runTrigger (receiver_deps deps) (webhook_spec E (is_now (ww_idem W)) wh parsed rawBody) u u' (ww_idem W) (ww_world W) = (s1, w1, r)"
    by (metis prod.exhaust)
  have "tdp_idempotency (receiver_deps deps) = tdp_idempotency deps" by (simp add: receiver_deps_def)
  then show ?thesis
    using runTrigger_kept(1) [OF t _ assms(1)] runTrigger_kept(2) [OF t _ assms(1)] assms(2-4) t by (simp add: run_webhook_def Let_def)
qed

lemma deliver_kept:
  assumes "keys_ok (ww_idem W)" "kept k a (ww_idem W)" "0 \<le> retentionMs (tdp_idempotency deps)" "is_now (ww_idem W) - retentionMs (tdp_idempotency deps) \<le> a"
  shows "keys_ok (ww_idem (fst (deliver_webhook E deps u u' i hs rawBody W))) \<and> kept k a (ww_idem (fst (deliver_webhook E deps u u' i hs rawBody W)))"
proof -
  have "keys_ok s1 \<and> kept k a s1 \<and> is_now s1 = is_now (ww_idem W)" if "isCommitted (tdp_idempotency deps) key (ww_idem W) = (s1, b)" for key s1 b
    using isCommitted_kept [OF that assms(1,2,4)] by simp
  then show ?thesis
    using assms run_webhook_kept [of "W\<lparr>ww_idem := _\<rparr>" k a deps]
    by (auto simp: deliver_webhook_def Let_def split: option.split prod.split bool.split)
qed

text \<open>Deliveries one after the other, each at its time; the stored webhooks may change in between.\<close>

record webhook_delivery =
  wd_at :: time
  wd_webhooks :: "webhook dmap"
  wd_uuids :: "uuid \<times> uuid"
  wd_id :: string
  wd_headers :: headers
  wd_body :: string

definition deliver_at :: "webhook_env \<Rightarrow> trigger_deps \<Rightarrow> webhook_delivery \<Rightarrow> webhook_world \<Rightarrow> webhook_world \<times> deliver_result" where
  "deliver_at E deps d W =
     deliver_webhook E deps (fst (wd_uuids d)) (snd (wd_uuids d)) (wd_id d) (wd_headers d) (wd_body d)
       (W\<lparr>ww_idem := (ww_idem W)\<lparr>is_now := wd_at d\<rparr>, ww_webhooks := wd_webhooks d\<rparr>)"

lemma deliveries_kept:
  assumes "0 \<le> retentionMs (tdp_idempotency deps)" "\<And>d. d \<in> set ds \<Longrightarrow> wd_at d - retentionMs (tdp_idempotency deps) \<le> a"
    "keys_ok (ww_idem W)" "kept k a (ww_idem W)"
  shows "kept k a (ww_idem (fold (\<lambda>d W. fst (deliver_at E deps d W)) ds W))"
  using assms(2-4)
proof (induction ds arbitrary: W)
  case (Cons d ds)
  let ?W = "W\<lparr>ww_idem := (ww_idem W)\<lparr>is_now := wd_at d\<rparr>, ww_webhooks := wd_webhooks d\<rparr>"
  have "keys_ok (ww_idem ?W)" "kept k a (ww_idem ?W)" using Cons.prems(2,3) by (simp_all add: keys_ok_def kept_def)
  then have "keys_ok (ww_idem (fst (deliver_at E deps d W))) \<and> kept k a (ww_idem (fst (deliver_at E deps d W)))"
    using deliver_kept [OF _ _ assms(1), of ?W k a] Cons.prems(1) [of d] by (simp add: deliver_at_def)
  then show ?case using Cons by simp
qed simp

text \<open>
  C24. An event is handled once: after its key was committed, and whatever deliveries come in between and
  however webhooks are edited, a delivery under the same key - the same webhook and the same id of the
  event - within the retention starts no turn and leaves no message, and is not accepted.
\<close>

theorem webhook_event_handled_once:
  assumes "keys_ok (ww_idem W)" and "map_get (is_done (ww_idem W)) key = Some committedAt"
    and "0 \<le> retentionMs (tdp_idempotency deps)"
    and "\<And>x. x \<in> set (d # ds) \<Longrightarrow> wd_at x \<le> committedAt + retentionMs (tdp_idempotency deps)"
    and "\<And>wh. dm_get (wd_webhooks d) (wd_id d) = Some wh \<Longrightarrow> webhook_key wh (deliveryId E (wv_scheme (wh_verification wh)) (wd_body d)) = key"
    and "W1 = fold (\<lambda>d W. fst (deliver_at E deps d W)) ds W"
  shows "ww_world (fst (deliver_at E deps d W1)) = ww_world W1 \<and> snd (deliver_at E deps d W1) \<noteq> Accepted"
proof -
  have "kept key committedAt (ww_idem W)" using assms(2) by (simp add: kept_def)
  then have "kept key committedAt (ww_idem W1)"
    unfolding assms(6) by (intro deliveries_kept [OF assms(3) _ assms(1)]) (use assms(4) in \<open>auto simp: algebra_simps\<close>)
  then have "kept key committedAt ((ww_idem W1)\<lparr>is_now := wd_at d\<rparr>)" by (simp add: kept_def)
  then have "isCommitted (tdp_idempotency deps) key ((ww_idem W1)\<lparr>is_now := wd_at d\<rparr>) = ((ww_idem W1)\<lparr>is_now := wd_at d\<rparr>, True)"
    using assms(4) [of d] by (intro kept_committed) (auto simp: algebra_simps)
  then show ?thesis
    using assms(5) by (auto simp: deliver_at_def deliver_webhook_def Let_def split: option.splits)
qed

section \<open>The theorems applied\<close>

definition ex_webhook_env :: webhook_env where
  "ex_webhook_env =
     \<lparr>we_hmacHex = (\<lambda>k m. k @ ''/'' @ m), we_bodyHash = (\<lambda>b. b), we_parseJson = (\<lambda>b. Some (JObj [])), we_parseForm = (\<lambda>b. []),
      we_pretty = (\<lambda>j. ''{}''), we_iso = (\<lambda>t. ''now'')\<rparr>"

definition ex_webhook :: webhook where
  "ex_webhook =
     build_webhook
       \<lparr>ct_ownerScopeId = ''channel:C1'', ct_owner = ''ann'', ct_createdBy = ''ann'', ct_destination = None, ct_ownerConsentedAt = None,
        ct_recipientConsent = None, cw_action = ''look'', cw_verification = \<lparr>wv_scheme = Github, wv_secret = Some ''k''\<rparr>, cw_filters = None\<rparr> ''h1'' 0"

definition ex_webhook_world :: webhook_world where
  "ex_webhook_world = \<lparr>ww_webhooks = [(''h1'', ex_webhook)], ww_idem = ex_idem, ww_world = ex_world\<rparr>"

definition ex_headers :: headers where
  "ex_headers = [(''x-hub-signature-256'', [''sha256=k/{}''])]"

definition ex_delivery :: webhook_delivery where
  "ex_delivery =
     \<lparr>wd_at = 50, wd_webhooks = [(''h1'', ex_webhook)], wd_uuids = (''d3'', ''d4''), wd_id = ''h1'', wd_headers = ex_headers, wd_body = ''{}''\<rparr>"

definition ex_handled_ok :: "webhook_world \<times> deliver_result \<Rightarrow> bool" where
  "ex_handled_ok Wr =
     (snd Wr = Accepted \<and> length (tw_runs (ww_world (fst Wr))) = 1 \<and> map_ok (is_done (ww_idem (fst Wr))) \<and>
      is_backing (ww_idem (fst Wr)) = None \<and> map_get (is_done (ww_idem (fst Wr))) ''webhook:h1:{}'' = Some 0)"

lemma ex_handled_ok: "ex_handled_ok (deliver_webhook ex_webhook_env ex_trigger_deps ''d1'' ''d2'' ''h1'' ex_headers ''{}'' ex_webhook_world)"
  by code_simp

theorem webhook_needs_signature_witness:
  "snd (deliver_webhook ex_webhook_env ex_trigger_deps ''d1'' ''d2'' ''h1'' ex_headers ''{}'' ex_webhook_world) = Accepted \<and>
   (\<exists>name v pre a b. header ex_headers name = Some v \<and> v = a @ we_hmacHex ex_webhook_env ''k'' (pre @ ''{}'') @ b)"
proof -
  obtain W' r where d: "deliver_webhook ex_webhook_env ex_trigger_deps ''d1'' ''d2'' ''h1'' ex_headers ''{}'' ex_webhook_world = (W', r)" by fastforce
  then have r: "r = Accepted" using ex_handled_ok by (simp add: ex_handled_ok_def)
  have k: "dm_get (ww_webhooks ex_webhook_world) ''h1'' = Some ex_webhook" "wv_secret (wh_verification ex_webhook) = Some ''k''" by code_simp+
  from webhook_needs_signature [OF d] r k show ?thesis by (auto simp: d)
qed

theorem webhook_event_handled_once_witness:
  "\<exists>W. length (tw_runs (ww_world W)) = 1 \<and> ww_world (fst (deliver_at ex_webhook_env ex_trigger_deps ex_delivery W)) = ww_world W"
proof -
  obtain W where W: "fst (deliver_webhook ex_webhook_env ex_trigger_deps ''d1'' ''d2'' ''h1'' ex_headers ''{}'' ex_webhook_world) = W" by blast
  have ok: "keys_ok (ww_idem W)" "length (tw_runs (ww_world W)) = 1" "map_get (is_done (ww_idem W)) ''webhook:h1:{}'' = Some 0"
    using ex_handled_ok by (simp_all add: ex_handled_ok_def W keys_ok_def)
  have ret: "0 \<le> retentionMs (tdp_idempotency ex_trigger_deps)" "wd_at ex_delivery \<le> 0 + retentionMs (tdp_idempotency ex_trigger_deps)" by code_simp+
  have key: "dm_get (wd_webhooks ex_delivery) (wd_id ex_delivery) = Some ex_webhook"
    "webhook_key ex_webhook (deliveryId ex_webhook_env (wv_scheme (wh_verification ex_webhook)) (wd_body ex_delivery)) = ''webhook:h1:{}''" by code_simp+
  from webhook_event_handled_once [OF ok(1,3) ret(1), of ex_delivery "[]" ex_webhook_env W] ret(2) key ok(2)
  show ?thesis by auto
qed

end
