(* ===== verification/Processes.thy ===== *)
theory Processes
  imports Interfaces
begin

text \<open>
  Background processes of a sandbox (\<open>src/processes/process-registry.ts\<close>, the memory registry,
  \<open>process-reaper.ts\<close> and \<open>reconcile.ts\<close>): what runs where and until when, the sweep that kills what has
  outlived its time, and the comparison with what the sandbox still runs. The sandbox is an argument.
\<close>

section \<open>The registry\<close>

datatype process_kind = PBuild | PDevServer | PBackground
datatype process_status = PRunning | PExited | PReaped

record process_record =
  pr_processId :: string
  pr_scopeId :: string
  pr_sandboxId :: "string option"
  pr_kind :: process_kind
  pr_command :: string
  pr_startedAt :: time
  pr_expiresAt :: time
  pr_status :: process_status
  pr_sessionRef :: "string option"
  pr_runId :: "string option"

record new_process_record =
  np_processId :: string
  np_scopeId :: string
  np_sandboxId :: "string option"
  np_kind :: process_kind
  np_command :: string
  np_ttlMs :: int
  np_sessionRef :: "string option"
  np_runId :: "string option"

type_synonym process_registry = "(string, process_record) jsmap"

definition keep_filled :: "string option \<Rightarrow> string option" where
  "keep_filled v = (if truthy v then v else None)"

definition newRecord :: "new_process_record \<Rightarrow> time \<Rightarrow> process_record" where
  "newRecord r now =
     \<lparr>pr_processId = np_processId r, pr_scopeId = np_scopeId r, pr_sandboxId = keep_filled (np_sandboxId r), pr_kind = np_kind r,
      pr_command = np_command r, pr_startedAt = now, pr_expiresAt = now + np_ttlMs r, pr_status = PRunning,
      pr_sessionRef = keep_filled (np_sessionRef r), pr_runId = keep_filled (np_runId r)\<rparr>"

definition register_process :: "new_process_record \<Rightarrow> time \<Rightarrow> process_registry \<Rightarrow> process_registry \<times> process_record" where
  "register_process r now rows = (let row = newRecord r now in (map_set (pr_processId row) row rows, row))"

definition get_process :: "process_registry \<Rightarrow> string \<Rightarrow> process_record option" where
  "get_process rows i = map_get rows i"

definition processes_of_scope :: "process_registry \<Rightarrow> string \<Rightarrow> process_record list" where
  "processes_of_scope rows scope = filter (\<lambda>r. pr_scopeId r = scope) (map_vals rows)"

definition is_live :: "time \<Rightarrow> process_record \<Rightarrow> bool" where
  "is_live now r = (pr_status r = PRunning \<and> now < pr_expiresAt r)"

definition liveByScope :: "process_registry \<Rightarrow> string \<Rightarrow> time \<Rightarrow> process_record list" where
  "liveByScope rows scope now = filter (\<lambda>r. pr_scopeId r = scope \<and> is_live now r) (map_vals rows)"

definition listLive :: "process_registry \<Rightarrow> time \<Rightarrow> process_record list" where
  "listLive rows now = filter (is_live now) (map_vals rows)"

definition markStatus :: "string \<Rightarrow> process_status \<Rightarrow> process_registry \<Rightarrow> process_registry \<times> bool" where
  "markStatus i st rows =
     (case map_get rows i of None \<Rightarrow> (rows, False) | Some r \<Rightarrow> (map_set i (r\<lparr>pr_status := st\<rparr>) rows, True))"

definition is_expired :: "time \<Rightarrow> process_record \<Rightarrow> bool" where
  "is_expired now r = (pr_status r = PRunning \<and> pr_expiresAt r \<le> now)"

definition listExpired :: "process_registry \<Rightarrow> time \<Rightarrow> process_record list" where
  "listExpired rows now = filter (is_expired now) (map_vals rows)"

definition delete_process :: "string \<Rightarrow> process_registry \<Rightarrow> process_registry" where
  "delete_process i rows = map_del i rows"

section \<open>The reaper\<close>

datatype process_signal = SigTerm | SigKill
datatype process_state = StRunning | StExited int

definition processIsGone :: "string \<Rightarrow> bool" where
  "processIsGone e = startsWith (toLowerCase e) ''no such process''"

text \<open>The sandbox as the kill hook meets it; an error is its message.\<close>

record kill_sandbox =
  ks_provision :: "process_record \<Rightarrow> string option"
  ks_signal :: "process_record \<Rightarrow> process_signal \<Rightarrow> string option"
  ks_await :: "process_record \<Rightarrow> process_signal \<Rightarrow> string + process_state"
  ks_teardown :: "process_record \<Rightarrow> string option"

text \<open>One signal and the wait for the end of the process.\<close>

definition signal_and_wait :: "kill_sandbox \<Rightarrow> process_record \<Rightarrow> process_signal \<Rightarrow> string + process_state" where
  "signal_and_wait sb r sig = (case ks_signal sb r sig of Some e \<Rightarrow> Inl e | None \<Rightarrow> ks_await sb r sig)"

definition kill_body :: "kill_sandbox \<Rightarrow> process_record \<Rightarrow> string option" where
  "kill_body sb r =
     (case signal_and_wait sb r SigTerm of
        Inl e \<Rightarrow> Some e
      | Inr (StExited _) \<Rightarrow> None
      | Inr StRunning \<Rightarrow>
          (case signal_and_wait sb r SigKill of
             Inl e \<Rightarrow> Some e
           | Inr (StExited _) \<Rightarrow> None
           | Inr StRunning \<Rightarrow> Some (''process survived TERM+KILL: '' @ pr_processId r)))"

text \<open>The error of the hook, if any; that of the teardown in \<open>finally\<close> comes before the other.\<close>

definition reaperKillHook :: "kill_sandbox \<Rightarrow> process_record \<Rightarrow> string option" where
  "reaperKillHook sb r =
     (case ks_provision sb r of
        Some e \<Rightarrow> Some e
      | None \<Rightarrow>
          (let err = (case kill_body sb r of Some e \<Rightarrow> if processIsGone e then None else Some e | None \<Rightarrow> None)
           in case ks_teardown sb r of Some e \<Rightarrow> Some e | None \<Rightarrow> err))"

record reaper_state =
  rp_rows :: process_registry
  rp_reaped :: nat
  rp_told :: "process_record list"

definition reap_process :: "(process_record \<Rightarrow> string option) option \<Rightarrow> process_record \<Rightarrow> reaper_state \<Rightarrow> reaper_state" where
  "reap_process kill r s =
     (if (case kill of None \<Rightarrow> False | Some k \<Rightarrow> k r \<noteq> None) then s
      else
        (case markStatus (pr_processId r) PReaped (rp_rows s) of
           (rows, False) \<Rightarrow> s\<lparr>rp_rows := rows\<rparr>
         | (rows, True) \<Rightarrow> \<lparr>rp_rows = rows, rp_reaped = rp_reaped s + 1, rp_told = rp_told s @ [r]\<rparr>))"

definition sweep_processes :: "(process_record \<Rightarrow> string option) option \<Rightarrow> time \<Rightarrow> process_registry \<Rightarrow> reaper_state" where
  "sweep_processes kill now rows =
     fold (reap_process kill) (listExpired rows now) \<lparr>rp_rows = rows, rp_reaped = 0, rp_told = []\<rparr>"

section \<open>Comparison with the sandbox\<close>

definition exited_in :: "(string \<times> process_state) list \<Rightarrow> string \<Rightarrow> bool" where
  "exited_in live i = (case map_get (fold (\<lambda>(k, v). map_set k v) live []) i of None \<Rightarrow> True | Some (StExited _) \<Rightarrow> True | Some StRunning \<Rightarrow> False)"

definition reconcileProcesses :: "string \<Rightarrow> (string \<times> process_state) list \<Rightarrow> string \<Rightarrow> process_registry \<Rightarrow> process_registry" where
  "reconcileProcesses resourceId live scope rows =
     (let running = filter (\<lambda>r. pr_status r = PRunning \<and> (\<not> truthy (pr_sandboxId r) \<or> pr_sandboxId r = Some resourceId)) (processes_of_scope rows scope)
      in fold (\<lambda>r rs. if exited_in live (pr_processId r) then fst (markStatus (pr_processId r) PExited rs) else rs) running rows)"

section \<open>What the sweep does\<close>

definition registry_ok :: "process_registry \<Rightarrow> bool" where
  "registry_ok rows = (map_ok rows \<and> (\<forall>i r. map_get rows i = Some r \<longrightarrow> pr_processId r = i))"

lemma registry_ok_mark: "registry_ok rows \<Longrightarrow> registry_ok (fst (markStatus i st rows))"
  by (auto simp: registry_ok_def markStatus_def split: option.splits if_splits)

lemma registry_ok_register: "registry_ok rows \<Longrightarrow> registry_ok (fst (register_process r now rows))"
  by (auto simp: registry_ok_def register_process_def Let_def newRecord_def split: if_splits)

text \<open>Marking a list of processes, each of which has a row.\<close>

lemma fold_reap:
  assumes "\<And>r. r \<in> set rs \<Longrightarrow> map_get (rp_rows s) (pr_processId r) \<noteq> None"
  shows "map_get (rp_rows (fold (reap_process kill) rs s)) i =
      map_option (\<lambda>x. if \<exists>r \<in> set rs. pr_processId r = i \<and> (case kill of None \<Rightarrow> True | Some k \<Rightarrow> k r = None) then x\<lparr>pr_status := PReaped\<rparr> else x)
        (map_get (rp_rows s) i) \<and>
    rp_told (fold (reap_process kill) rs s) = rp_told s @ filter (\<lambda>r. case kill of None \<Rightarrow> True | Some k \<Rightarrow> k r = None) rs \<and>
    rp_reaped (fold (reap_process kill) rs s) = rp_reaped s + length (filter (\<lambda>r. case kill of None \<Rightarrow> True | Some k \<Rightarrow> k r = None) rs)"
  using assms
proof (induction rs arbitrary: s)
  case (Cons r rs)
  let ?ok = "case kill of None \<Rightarrow> True | Some k \<Rightarrow> k r = None"
  let ?s = "reap_process kill r s"
  have row: "map_get (rp_rows s) (pr_processId r) \<noteq> None" using Cons.prems by simp
  have rows: "map_get (rp_rows ?s) i = map_option (\<lambda>x. if ?ok \<and> pr_processId r = i then x\<lparr>pr_status := PReaped\<rparr> else x) (map_get (rp_rows s) i)" for i
    using row by (auto simp: reap_process_def markStatus_def option.map_ident split: option.splits)
  have told: "rp_told ?s = rp_told s @ (if ?ok then [r] else [])" "rp_reaped ?s = rp_reaped s + (if ?ok then 1 else 0)"
    using row by (auto simp: reap_process_def markStatus_def split: option.splits)
  have "map_get (rp_rows ?s) (pr_processId q) \<noteq> None" if "q \<in> set rs" for q
    using Cons.prems [of q] that by (simp add: rows)
  from Cons.IH [OF this] show ?case
    by (auto simp: rows told option.map_comp o_def intro!: option.map_cong)
qed (simp add: option.map_ident)

text \<open>The kill hook reports success only when the sandbox said the process is gone.\<close>

lemma signal_error: "signal_and_wait sb r sig = Inl e \<Longrightarrow> ks_signal sb r sig = Some e \<or> ks_await sb r sig = Inl e"
  by (auto simp: signal_and_wait_def split: option.splits)

lemma signal_state: "signal_and_wait sb r sig = Inr st \<Longrightarrow> ks_await sb r sig = Inr st"
  by (auto simp: signal_and_wait_def split: option.splits)

lemma survivor_not_gone: "\<not> processIsGone (''process survived TERM+KILL: '' @ p)"
  by (simp add: processIsGone_def startsWith_def toLowerCase_def lower_char_def)

lemma kill_body_cases:
  "kill_body sb r = None \<Longrightarrow> \<exists>sig c. ks_await sb r sig = Inr (StExited c)"
  "kill_body sb r = Some e \<Longrightarrow> processIsGone e \<Longrightarrow> \<exists>sig. ks_signal sb r sig = Some e \<or> ks_await sb r sig = Inl e"
  unfolding kill_body_def using signal_error [of sb r] signal_state [of sb r] survivor_not_gone
  by (auto split: sum.splits process_state.splits) blast+

lemma hook_means_gone:
  assumes "reaperKillHook sb r = None"
  shows "(\<exists>sig c. ks_await sb r sig = Inr (StExited c)) \<or> (\<exists>sig e. processIsGone e \<and> (ks_signal sb r sig = Some e \<or> ks_await sb r sig = Inl e))"
proof (cases "kill_body sb r")
  case None
  then show ?thesis using kill_body_cases(1) by blast
next
  case (Some e)
  then have "processIsGone e" using assms by (auto simp: reaperKillHook_def Let_def split: option.splits if_splits)
  then show ?thesis using kill_body_cases(2) [OF Some] by blast
qed

text \<open>
  A sweep marks as reaped exactly the running processes whose time is over and whose killing - when
  the reaper kills - succeeded, changes nothing else of the registry, counts them and tells about each
  of them once. A process that survives both signals stays for the next sweep.
\<close>

theorem process_sweep_exact:
  assumes "registry_ok rows"
  shows "map_get (rp_rows (sweep_processes kill now rows)) i =
      map_option (\<lambda>r. if is_expired now r \<and> (case kill of None \<Rightarrow> True | Some k \<Rightarrow> k r = None) then r\<lparr>pr_status := PReaped\<rparr> else r) (map_get rows i) \<and>
    rp_told (sweep_processes kill now rows) = filter (\<lambda>r. case kill of None \<Rightarrow> True | Some k \<Rightarrow> k r = None) (listExpired rows now) \<and>
    rp_reaped (sweep_processes kill now rows) = length (rp_told (sweep_processes kill now rows)) \<and>
    (\<forall>sb r. reaperKillHook sb r = None \<longrightarrow>
       (\<exists>sig c. ks_await sb r sig = Inr (StExited c)) \<or> (\<exists>sig e. processIsGone e \<and> (ks_signal sb r sig = Some e \<or> ks_await sb r sig = Inl e)))"
proof -
  have rows: "r \<in> set (listExpired rows now) \<longleftrightarrow> map_get rows (pr_processId r) = Some r \<and> is_expired now r" for r
    using assms in_vals_iff [of rows r] by (auto simp: listExpired_def registry_ok_def)
  let ?s = "\<lparr>rp_rows = rows, rp_reaped = 0, rp_told = []\<rparr>"
  have "map_get (rp_rows ?s) (pr_processId r) \<noteq> None" if "r \<in> set (listExpired rows now)" for r using that rows by simp
  note f = fold_reap [of "listExpired rows now" ?s kill i, OF this, folded sweep_processes_def]
  have who: "(\<exists>r \<in> set (listExpired rows now). pr_processId r = i \<and> (case kill of None \<Rightarrow> True | Some k \<Rightarrow> k r = None)) \<longleftrightarrow>
      is_expired now x \<and> (case kill of None \<Rightarrow> True | Some k \<Rightarrow> k x = None)" if "map_get rows i = Some x" for x
    using that rows assms unfolding registry_ok_def by (metis option.inject)
  have "map_get (rp_rows (sweep_processes kill now rows)) i =
      map_option (\<lambda>r. if is_expired now r \<and> (case kill of None \<Rightarrow> True | Some k \<Rightarrow> k r = None) then r\<lparr>pr_status := PReaped\<rparr> else r) (map_get rows i)"
    using f who by (cases "map_get rows i") auto
  then show ?thesis using f hook_means_gone by auto
qed

definition ex_process :: process_record where
  "ex_process =
     newRecord \<lparr>np_processId = ''p1'', np_scopeId = ''personal:ann'', np_sandboxId = None, np_kind = PBackground, np_command = ''make'', np_ttlMs = 10,
       np_sessionRef = None, np_runId = None\<rparr> 0"

theorem process_sweep_exact_witness:
  "map_get (rp_rows (sweep_processes (Some (\<lambda>r. None)) 20 [(''p1'', ex_process)])) ''p1'' = Some (ex_process\<lparr>pr_status := PReaped\<rparr>)"
proof -
  have ok: "registry_ok [(''p1'', ex_process)]" by (auto simp: registry_ok_def map_ok_def ex_process_def newRecord_def split: if_splits)
  have x: "is_expired 20 ex_process" by code_simp
  from process_sweep_exact [OF ok, of "Some (\<lambda>r. None)" 20 "''p1''"] x show ?thesis by simp
qed

end
