(* ===== verification/Monitor_Theorems.thy ===== *)
theory Monitor_Theorems
  imports Monitors
begin

text \<open>
  What watching a job promises: a pattern sees each complete line of the output exactly once, wherever
  the reads cut it, and a watch whose job ended is over.
\<close>

section \<open>Lines\<close>

lemma split_on_concat:
  "split_on c (x @ y) = butlast (split_on c x) @ (last (split_on c x) @ hd (split_on c y)) # tl (split_on c y)"
proof (induction x)
  case (Cons a x)
  show ?case by (cases "split_on c x") (use Cons in auto)
qed simp

lemma split_on_snoc: "c \<notin> set a \<Longrightarrow> split_on c (u @ c # a) = split_on c u @ [a]"
  using split_on_concat [of c u "c # a"] by (simp add: split_on_single)

lemma split_on_prefix: "c \<notin> set a \<Longrightarrow> split_on c (a @ y) = (a @ hd (split_on c y)) # tl (split_on c y)"
  using split_on_concat [of c a y] by (simp add: split_on_single)

lemma split_on_words: "w \<in> set (split_on c s) \<Longrightarrow> c \<notin> set w"
  by (induction s arbitrary: w) (auto split: if_splits list.splits)

lemma upto_after_last: "upto_last c s @ after_last c s = s"
  unfolding upto_last_def after_last_def by (metis rev_append rev_rev_ident takeWhile_dropWhile_id)

lemma after_last_clean: "c \<notin> set (after_last c s)"
  by (auto simp: after_last_def dest: set_takeWhileD)

lemma upto_last_snoc: "c \<in> set s \<Longrightarrow> \<exists>u. upto_last c s = u @ [c]"
proof -
  assume "c \<in> set s"
  then have "dropWhile (\<lambda>x. x \<noteq> c) (rev s) \<noteq> []" by (auto simp: dropWhile_eq_Nil_conv)
  then obtain ys where "dropWhile (\<lambda>x. x \<noteq> c) (rev s) = c # ys"
    by (metis (mono_tags, lifting) hd_dropWhile list.exhaust_sel)
  then show ?thesis by (simp add: upto_last_def)
qed

lemma last_line: "after_last c s = last (split_on c s)"
proof (cases "c \<in> set s")
  case True
  from upto_last_snoc [OF this] obtain u where "upto_last c s = u @ [c]" by blast
  then show ?thesis using split_on_snoc [OF after_last_clean, of c u s] upto_after_last [of c s] by (simp add: split_on_single)
next
  case False
  then have "takeWhile (\<lambda>x. x \<noteq> c) (rev s) = rev s" by (subst takeWhile_eq_all_conv) auto
  then have "after_last c s = s" by (simp only: after_last_def rev_rev_ident)
  then show ?thesis using False by (simp add: split_on_single)
qed

lemma complete_lines:
  "filter (\<lambda>l. l \<noteq> [] \<and> f l) (if c \<in> set s then split_on c (upto_last c s) else []) =
   filter (\<lambda>l. l \<noteq> [] \<and> f l) (butlast (split_on c s))"
proof (cases "c \<in> set s")
  case True
  from upto_last_snoc [OF this] obtain u where u: "upto_last c s = u @ [c]" by blast
  then have "split_on c s = split_on c u @ [after_last c s]"
    using split_on_snoc [OF after_last_clean, of c u s] upto_after_last [of c s] by simp
  moreover have "split_on c (u @ [c]) = split_on c u @ [[]]" using split_on_snoc [of c "[]" u] by simp
  ultimately show ?thesis using True u by simp
qed (simp add: split_on_single)

section \<open>Reads\<close>

text \<open>The lines an event text is made of, and what a watch reports over a job's reads.\<close>

definition event_lines :: "string \<Rightarrow> string list" where
  "event_lines ev = filter (\<lambda>l. l \<noteq> []) (split_on newline ev)"

fun watch_reads :: "string \<Rightarrow> string option \<Rightarrow> string list \<Rightarrow> string list \<times> string option" where
  "watch_reads p tail [] = ([], tail)"
| "watch_reads p tail (c # cs) =
     (case read_events (Some p) False (or_else tail [] @ c) of (ev, tail1) \<Rightarrow>
        (case watch_reads p tail1 cs of (ls, tail2) \<Rightarrow> (event_lines ev @ ls, tail2)))"

definition watch_job :: "string \<Rightarrow> string list \<Rightarrow> string \<Rightarrow> string list" where
  "watch_job p cs final =
     (case watch_reads p None cs of (ls, tail) \<Rightarrow> ls @ event_lines (fst (read_events (Some p) True (or_else tail [] @ final))))"

definition matching_lines :: "(string \<Rightarrow> bool) \<Rightarrow> string \<Rightarrow> string list" where
  "matching_lines matches out = filter (\<lambda>l. l \<noteq> [] \<and> matches l) (split_on newline out)"

lemma event_lines_join:
  assumes "\<And>x. x \<in> set xs \<Longrightarrow> x \<noteq> [] \<and> newline \<notin> set x"
  shows "event_lines (join [newline] xs) = xs"
proof (cases "xs = []")
  case False
  have "split_on newline (join [newline] xs) = xs" using False assms by (intro split_on_join) auto
  moreover have "filter (\<lambda>l. l \<noteq> []) xs = xs" using assms by (simp add: filter_id_conv)
  ultimately show ?thesis by (simp add: event_lines_def)
qed (simp add: event_lines_def)

lemma filterLines_lines:
  assumes "compileMonitorPattern p = Inr f"
  shows "event_lines (filterLines s p) = matching_lines f s"
  unfolding matching_lines_def filterLines_def
  by (simp add: assms) (rule event_lines_join, auto dest: split_on_words)

lemma pattern_truthy: "compileMonitorPattern p = Inr f \<Longrightarrow> p \<noteq> []"
  by (auto simp: compileMonitorPattern_def)

lemma read_running:
  assumes "compileMonitorPattern p = Inr f" and "length (last (split_on newline raw)) \<le> MAX_TAIL_CHARS"
  obtains ev tail where "read_events (Some p) False raw = (ev, tail)"
    and "event_lines ev = filter (\<lambda>l. l \<noteq> [] \<and> f l) (butlast (split_on newline raw))"
    and "or_else tail [] = last (split_on newline raw)"
proof -
  have rest: "take_last MAX_TAIL_CHARS (after_last newline raw) = last (split_on newline raw)"
    using assms(2) by (simp add: take_last_def last_line)
  let ?ev = "if newline \<in> set raw then filterLines (upto_last newline raw) p else []"
  have ev: "event_lines ?ev = filter (\<lambda>l. l \<noteq> [] \<and> f l) (butlast (split_on newline raw))"
    using filterLines_lines [OF assms(1), of "upto_last newline raw"] complete_lines [of f newline raw]
    by (simp add: matching_lines_def event_lines_def split: if_splits)
  let ?tail = "if last (split_on newline raw) = [] then None else Some (last (split_on newline raw))"
  have "read_events (Some p) False raw = (?ev, ?tail)"
    using pattern_truthy [OF assms(1)] rest by (simp add: read_events_def Let_def)
  with ev show thesis by (intro that [of ?ev ?tail]) auto
qed

lemma watch_reads_lines:
  assumes "compileMonitorPattern p = Inr f" and "newline \<notin> set (or_else tail [])"
    and "\<And>l. l \<in> set (split_on newline (or_else tail [] @ concat cs)) \<Longrightarrow> length l \<le> MAX_TAIL_CHARS"
  shows "fst (watch_reads p tail cs) = filter (\<lambda>l. l \<noteq> [] \<and> f l) (butlast (split_on newline (or_else tail [] @ concat cs))) \<and>
         or_else (snd (watch_reads p tail cs)) [] = last (split_on newline (or_else tail [] @ concat cs))"
  using assms(2,3)
proof (induction cs arbitrary: tail)
  case Nil
  then show ?case by (simp add: split_on_single)
next
  case (Cons c cs)
  let ?raw = "or_else tail [] @ c" and ?a = "last (split_on newline (or_else tail [] @ c))"
  have a: "newline \<notin> set ?a" by (metis last_in_set split_on_not_Nil split_on_words)
  have whole: "split_on newline (?raw @ concat cs) = butlast (split_on newline ?raw) @ split_on newline (?a @ concat cs)"
    by (simp only: split_on_concat [of newline ?raw] split_on_prefix [OF a])
  have "length ?a \<le> length (hd (split_on newline (?a @ concat cs)))" by (simp add: split_on_prefix [OF a])
  also have "\<dots> \<le> MAX_TAIL_CHARS"
    using Cons.prems(2) [of "hd (split_on newline (?a @ concat cs))"] whole by simp
  finally obtain ev t1 where r: "read_events (Some p) False ?raw = (ev, t1)"
    "event_lines ev = filter (\<lambda>l. l \<noteq> [] \<and> f l) (butlast (split_on newline ?raw))" "or_else t1 [] = ?a"
    using read_running [OF assms(1)] by blast
  have "fst (watch_reads p t1 cs) = filter (\<lambda>l. l \<noteq> [] \<and> f l) (butlast (split_on newline (?a @ concat cs))) \<and>
        or_else (snd (watch_reads p t1 cs)) [] = last (split_on newline (?a @ concat cs))"
    using Cons.IH [of t1] Cons.prems(2) a whole r(3) by simp
  then show ?case using whole r by (cases "watch_reads p t1 cs") (simp add: butlast_append)
qed

section \<open>Watches that are over\<close>

lemma merge_monitor_get: "dm_get (merge_monitor i f ms) j = (if j = i then map_option f (dm_get ms i) else dm_get ms j)"
  by (auto simp: merge_monitor_def dm_merge_def dm_get_def split: option.splits)

lemma disabled_not_live [simp]: "\<not> stillLive m (on_monitors (set_monitor_enabled (t_id m) False) W)"
  by (auto simp: stillLive_def on_monitors_def set_monitor_enabled_def merge_monitor_get split: option.splits)

lemma live_processes [simp]: "stillLive m (W\<lparr>pw_processes := ps\<rparr>) = stillLive m W"
  by (simp add: stillLive_def)

lemma missing_not_live: "dm_get (pw_monitors W) (t_id m) = None \<Longrightarrow> \<not> stillLive m W"
  by (simp add: stillLive_def)

lemma lost_not_live: "reportLost P m W = (W', None) \<Longrightarrow> \<not> stillLive m W'"
  by (auto simp: reportLost_def split: prod.splits sum.splits)

lemma settled_event:
  assumes "poll_event P m t rd expired events tail W = (W', Inr b)" and "rd_status rd \<noteq> StRunning \<or> expired"
  shows "b \<and> \<not> stillLive m W'"
  using assms by (auto simp: poll_event_def Let_def missing_not_live split: prod.splits sum.splits if_splits)

section \<open>Properties\<close>


text \<open>
  A watch ends with its job: a poll that finds the job gone, exited or past the watch's expiry, and that
  settles, has fired and leaves the watch dropped or disabled, so that no later poll fires for it again.
\<close>

theorem terminal_event_ends_watch:
  assumes "poll P m t W = (W', Inr b)" and "stillLive m W"
    and "case pd_read P (mo_processId m) (mo_cursor m) of
           Inl e \<Rightarrow> processIsGone e | Inr rd \<Rightarrow> rd_status rd \<noteq> StRunning \<or> mo_expiresAt m \<le> t"
  shows "b \<and> \<not> stillLive m W' \<and> poll P m later W' = (W', Inr False)"
proof -
  have "b \<and> \<not> stillLive m W'"
  proof (cases "pd_read P (mo_processId m) (mo_cursor m)")
    case (Inl e)
    then show ?thesis using assms by (auto simp: poll_def lost_not_live split: prod.splits option.splits)
  next
    case (Inr rd)
    then show ?thesis using assms by (auto simp: poll_def Let_def split: prod.splits if_splits dest!: settled_event)
  qed
  then show ?thesis by (simp add: poll_def)
qed

section \<open>The theorems applied\<close>

abbreviation ex_final_line :: string where "ex_final_line \<equiv> ''ERR z'' @ [newline]"


definition ex_monitor :: monitor where
  "ex_monitor =
     trigger_base.extend
       (buildTriggerBase \<lparr>ct_ownerScopeId = ''channel:C1'', ct_owner = ''ann'', ct_createdBy = ''ann'', ct_destination = None,
          ct_ownerConsentedAt = None, ct_recipientConsent = None\<rparr> ''m1'' 0)
       (monitor.fields ''p1'' ''make'' ''C1:1'' None None 0 None 100 None)"

definition ex_poller :: poller_deps where
  "ex_poller =
     \<lparr>pd_trigger = ex_trigger_deps, pd_supportsProcesses = True, pd_provision = (\<lambda>r. None),
      pd_read = (\<lambda>p c. Inr \<lparr>rd_chunks = ''done'', rd_cursor = 4, rd_status = StExited 0\<rparr>), pd_maxFiresPerTick = None, pd_heartbeatMs = None,
      pd_minFireIntervalMs = None, pd_iso = (\<lambda>t. ''now''), pd_uuids = (\<lambda>k. (''d1'', ''d2''))\<rparr>"

definition ex_poller_world :: poller_world where
  "ex_poller_world = \<lparr>pw_monitors = [(''m1'', ex_monitor)], pw_processes = [(''p1'', ex_process)], pw_idem = ex_idem, pw_world = ex_world\<rparr>"

definition settled :: "poller_world \<times> (fire_error + bool) \<Rightarrow> bool" where
  "settled r = (case snd r of Inl _ \<Rightarrow> False | Inr _ \<Rightarrow> length (tw_runs (pw_world (fst r))) = 1)"

lemma ex_poll_settles: "settled (poll ex_poller ex_monitor 10 ex_poller_world)"
  by code_simp

theorem terminal_event_ends_watch_witness:
  "\<exists>W'. length (tw_runs (pw_world W')) = 1 \<and> poll ex_poller ex_monitor 10 ex_poller_world = (W', Inr True) \<and> \<not> stillLive ex_monitor W'"
proof -
  obtain W' b where r: "poll ex_poller ex_monitor 10 ex_poller_world = (W', Inr b)" "length (tw_runs (pw_world W')) = 1"
    using ex_poll_settles by (auto simp: settled_def split: sum.splits) (metis prod.collapse)
  have "stillLive ex_monitor ex_poller_world" by code_simp
  moreover have "case pd_read ex_poller (mo_processId ex_monitor) (mo_cursor ex_monitor) of
      Inl e \<Rightarrow> processIsGone e | Inr rd \<Rightarrow> rd_status rd \<noteq> StRunning \<or> mo_expiresAt ex_monitor \<le> 10" by (simp add: ex_poller_def)
  ultimately show ?thesis using terminal_event_ends_watch [OF r(1)] r by auto
qed

end
