(* ===== verification/Tape_Theorems.thy ===== *)
theory Tape_Theorems
  imports Tape_Fold
begin

text \<open>
  What the fold of a tape promises: an audience is shown nothing that depends on messages it is not
  entitled to, and a fold whose only fault is interrupted calls is well formed once they are answered.
\<close>

section \<open>Confinement\<close>

text \<open>
  Two rows look the same to an audience: they are the same, or both are messages somebody present is
  not entitled to and both leave the same shell.
\<close>

definition looks_same :: "principal list \<Rightarrow> scope_id \<Rightarrow> scope_id \<Rightarrow> tape_record \<Rightarrow> tape_record \<Rightarrow> bool" where
  "looks_same audience ss org r r' =
     (r = r' \<or>
      nt_kind r = TkMessage \<and> nt_kind r' = TkMessage \<and> \<not> entitled_all audience ss org (nt_scopeLabel r) \<and>
      \<not> entitled_all audience ss org (nt_scopeLabel r') \<and> redacted r = redacted r')"

lemma filter_same:
  "list_all2 (looks_same audience ss org) rows rows' \<Longrightarrow>
     filterTapeForAudience rows audience ss org = filterTapeForAudience rows' audience ss org"
  by (induction rule: list_all2_induct)
    (auto simp: filterTapeForAudience_def looks_same_def List.map_filter_simps split: option.split)

lemma redacted_shell:
  "redacted r = Some r' \<Longrightarrow> \<exists>i n. nt_payload r' = interrupted_result i n (tp_createdAt r) \<and> string_field ''toolCallId'' (nt_payload r) = Some i \<and> nt_kind r' = nt_kind r"
  by (auto simp: redacted_def Let_def split: option.splits if_splits)


section \<open>Interrupted calls\<close>

lemma roles_exclusive: "has_role a m \<Longrightarrow> has_role b m \<Longrightarrow> a = b"
  by (simp add: has_role_def)

text \<open>The state of the check after a list of calls, when none of them was a duplicate.\<close>

definition open_calls :: "json list \<Rightarrow> string list" where
  "open_calls ms = concat (map (\<lambda>m. if assistantDroppedAtReplay m then [] else map fst (calls_of m)) ms)"

definition all_calls :: "json list \<Rightarrow> string list" where
  "all_calls ms = concat (map (\<lambda>m. map fst (calls_of m)) ms)"

definition answers :: "json list \<Rightarrow> string list" where
  "answers ms = List.map_filter answer_of ms"

lemma missing_calls_eq:
  "map fst (missing_calls ms) = filter (\<lambda>c. c \<notin> set (answers ms)) (open_calls ms)"
proof -
  have "map fst (filter (\<lambda>(c, n). P c) xs) = filter P (map fst xs)" for P and xs :: "(string \<times> json) list"
    by (induction xs) auto
  then show ?thesis
    by (simp add: missing_calls_def Let_def answers_def open_calls_def map_concat o_def if_distrib cong: if_cong)
qed

text \<open>What a check without problems so far knows.\<close>

definition lint_inv :: "json list \<Rightarrow> lint_state \<Rightarrow> bool" where
  "lint_inv ms s =
     (distinct (all_calls ms) \<and> set (ls_seen s) = set (all_calls ms) \<and>
      set (ls_open s) = set (open_calls ms) - set (answers ms) \<and> set (answers ms) \<subseteq> set (open_calls ms))"

lemma open_sub_all: "set (open_calls ms) \<subseteq> set (all_calls ms)"
  by (auto simp: open_calls_def all_calls_def split: if_splits)

lemma lint_calls:
  assumes "ls_problems (fold (\<lambda>(c, n). lint_call i d c) cs s) = []"
  shows "ls_problems s = [] \<and> distinct (map fst cs) \<and> set (map fst cs) \<inter> set (ls_seen s) = {} \<and>
    set (ls_seen (fold (\<lambda>(c, n). lint_call i d c) cs s)) = set (ls_seen s) \<union> set (map fst cs) \<and>
    set (ls_open (fold (\<lambda>(c, n). lint_call i d c) cs s)) = set (ls_open s) \<union> (if d then {} else set (map fst cs))"
  using assms
proof (induction cs arbitrary: s)
  case (Cons x cs)
  obtain c n where x: "x = (c, n)" by fastforce
  from Cons.IH [of "lint_call i d c s"] Cons.prems have h:
    "ls_problems (lint_call i d c s) = []" "distinct (map fst cs)" "set (map fst cs) \<inter> set (ls_seen (lint_call i d c s)) = {}"
    "set (ls_seen (fold (\<lambda>(c, n). lint_call i d c) cs (lint_call i d c s))) = set (ls_seen (lint_call i d c s)) \<union> set (map fst cs)"
    "set (ls_open (fold (\<lambda>(c, n). lint_call i d c) cs (lint_call i d c s))) = set (ls_open (lint_call i d c s)) \<union> (if d then {} else set (map fst cs))"
    by (simp_all add: x)
  from h(1) have "ls_problems s = []" "c \<notin> set (ls_seen s)" by (auto simp: lint_call_def split: if_splits)
  moreover have "set (ls_seen (lint_call i d c s)) = insert c (set (ls_seen s))"
    "set (ls_open (lint_call i d c s)) = (if d then set (ls_open s) else insert c (set (ls_open s)))"
    by (simp_all add: lint_call_def)
  moreover have "fold (\<lambda>(c, n). lint_call i d c) (x # cs) s = fold (\<lambda>(c, n). lint_call i d c) cs (lint_call i d c s)" by (simp add: x)
  ultimately show ?case using h(2-5) unfolding x by (cases d) auto
qed simp

lemma snoc_simps [simp]:
  "all_calls (ms @ [m]) = all_calls ms @ map fst (calls_of m)"
  "open_calls (ms @ [m]) = open_calls ms @ (if assistantDroppedAtReplay m then [] else map fst (calls_of m))"
  "answers (ms @ [m]) = answers ms @ (case answer_of m of None \<Rightarrow> [] | Some c \<Rightarrow> [c])"
  by (auto simp: all_calls_def open_calls_def answers_def List.map_filter_def split: option.split)

lemma lint_message_inv:
  assumes "ls_problems (lint_message i m s) = []" "lint_inv ms s"
  shows "ls_problems s = [] \<and> lint_inv (ms @ [m]) (lint_message i m s)"
proof -
  have roles: "has_role ''user'' m \<or> has_role ''assistant'' m \<or> has_role ''toolResult'' m"
    using assms(1) by (auto simp: lint_message_def split: if_splits)
  let ?s1 = "s\<lparr>ls_problems := ls_problems s @ lint_images i m\<rparr>"
  show ?thesis
  proof (cases "has_role ''assistant'' m \<and> content_blocks m \<noteq> None")
    case True
    then have other: "answer_of m = None" using roles_exclusive [of "''assistant''" m "''toolResult''"] by (auto simp: answer_of_def)
    have run: "lint_message i m s = fold (\<lambda>(c, n). lint_call i (assistantDroppedAtReplay m) c) (calls_of m) ?s1"
      using True roles by (simp add: lint_message_def Let_def)
    note calls = lint_calls [of i "assistantDroppedAtReplay m" "calls_of m" ?s1, folded run, OF assms(1)]
    have new: "set (map fst (calls_of m)) \<inter> set (all_calls ms) = {}" using calls assms(2) unfolding lint_inv_def by simp
    moreover have "set (answers ms) \<subseteq> set (all_calls ms)" using assms(2) open_sub_all [of ms] unfolding lint_inv_def by blast
    ultimately have "set (map fst (calls_of m)) \<inter> set (answers ms) = {}" by blast
    then show ?thesis using new calls assms(2) other unfolding lint_inv_def
      by (cases "assistantDroppedAtReplay m") (simp_all, blast+)
  next
    case no: False
    then have calls: "calls_of m = []" by (auto simp: calls_of_def split: option.split)
    show ?thesis
    proof (cases "has_role ''toolResult'' m")
      case True
      then have "answer_of m = string_field ''toolCallId'' m" by (simp add: answer_of_def)
      then show ?thesis using assms True no calls roles
        by (auto simp: lint_message_def Let_def lint_inv_def split: option.splits if_splits)
    next
      case False
      then have "answer_of m = None" by (simp add: answer_of_def)
      then show ?thesis using assms False no calls roles
        by (auto simp: lint_message_def Let_def lint_inv_def split: if_splits)
    qed
  qed
qed

definition lint_from :: "lint_problem list \<Rightarrow> json list \<Rightarrow> lint_state" where
  "lint_from p ms = fold (\<lambda>(i, m). lint_message i m) (enumerate 0 ms) \<lparr>ls_problems = p, ls_open = [], ls_seen = []\<rparr>"

lemma lint_from_snoc: "lint_from p (ms @ [m]) = lint_message (length ms) m (lint_from p ms)"
  by (simp add: lint_from_def enumerate_append_eq)

lemma lint_from_inv: "ls_problems (lint_from p ms) = [] \<Longrightarrow> p = [] \<and> lint_inv ms (lint_from p ms)"
proof (induction ms rule: rev_induct)
  case Nil
  then show ?case by (simp add: lint_from_def lint_inv_def all_calls_def open_calls_def answers_def List.map_filter_simps)
next
  case (snoc m ms)
  have mono: "ls_problems (lint_from p ms) = []"
  proof -
    have "ls_problems (lint_message i m s) = [] \<Longrightarrow> ls_problems s = []" for i s
      using lint_calls [of i "assistantDroppedAtReplay m" "calls_of m" "s\<lparr>ls_problems := ls_problems s @ lint_images i m\<rparr>"]
      by (auto simp: lint_message_def Let_def split: if_splits option.splits)
    then show ?thesis using snoc.prems by (simp add: lint_from_snoc)
  qed
  then have "p = []" "lint_inv ms (lint_from p ms)" using snoc.IH by blast+
  then show ?case using lint_message_inv [of "length ms" m "lint_from p ms" ms] snoc.prems unfolding lint_from_snoc by blast
qed

definition no_end :: "lint_problem list \<Rightarrow> bool" where
  "no_end ps = list_all (\<lambda>p. \<not> is_end_problem p) ps"

lemma no_end_simps [simp]:
  "no_end (a @ b) = (no_end a \<and> no_end b)" "no_end []" "no_end [DuplicateCall i c]" "no_end [UnknownRole i r]"
  "no_end [ResultWithoutCall i r]" "no_end [UserWhileOpen i n]" "no_end [FirstNotUser r]" "no_end (lint_images i m)" "no_end (lint_first ms)"
  by (auto simp: no_end_def is_end_problem_def lint_images_def lint_first_def list_all_iff split: option.split list.split)

lemma no_end_calls: "no_end (ls_problems s) \<Longrightarrow> no_end (ls_problems (fold (\<lambda>(c, n). lint_call i d c) cs s))"
  by (induction cs arbitrary: s) (auto simp: lint_call_def)

lemma no_end_message: "no_end (ls_problems s) \<Longrightarrow> no_end (ls_problems (lint_message i m s))"
  by (simp add: lint_message_def Let_def no_end_calls split: option.split)

lemma no_end_from: "no_end p \<Longrightarrow> no_end (ls_problems (lint_from p ms))"
  by (induction ms rule: rev_induct) (simp_all add: lint_from_snoc no_end_message, simp add: lint_from_def)

lemma lint_run_from: "lint_run ms = lint_from (lint_first ms) ms"
  by (simp add: lint_run_def lint_from_def)

text \<open>A fold whose problems are all of the end has none before it.\<close>

lemma only_end:
  assumes "list_all is_end_problem (lintFold ms)"
  shows "ls_problems (lint_run ms) = []"
proof (rule ccontr)
  assume "ls_problems (lint_run ms) \<noteq> []"
  then obtain p where p: "p \<in> set (ls_problems (lint_run ms))" by fastforce
  have "no_end (ls_problems (lint_run ms))" by (simp add: lint_run_from no_end_from)
  with p assms show False by (auto simp: no_end_def lintFold_def Let_def list_all_iff)
qed

lemma distinct_open: "distinct (all_calls ms) \<Longrightarrow> distinct (open_calls ms)"
proof (induction ms rule: rev_induct)
  case (snoc m ms)
  then show ?case using open_sub_all [of ms] by (auto split: if_splits)
qed (simp add: open_calls_def)

lemma result_is_answer [simp]:
  "has_role ''toolResult'' (interrupted_result c n at)" "\<not> has_role ''user'' (interrupted_result c n at)"
  "\<not> has_role ''assistant'' (interrupted_result c n at)" "string_field ''toolCallId'' (interrupted_result c n at) = Some c"
  "lint_images i (interrupted_result c n at) = []"
  by (simp_all add: interrupted_result_def has_role_def field_def string_field_def lint_images_def content_blocks_def text_block_def)

text \<open>Answering open calls closes them.\<close>

lemma lint_results:
  "distinct (map fst cs) \<Longrightarrow> set (map fst cs) \<subseteq> set (ls_open s) \<Longrightarrow>
     ls_problems (fold (\<lambda>(i, m). lint_message i m) (enumerate k (map (\<lambda>(c, n). interrupted_result c n at) cs)) s) = ls_problems s \<and>
     set (ls_open (fold (\<lambda>(i, m). lint_message i m) (enumerate k (map (\<lambda>(c, n). interrupted_result c n at) cs)) s)) = set (ls_open s) - set (map fst cs)"
proof (induction cs arbitrary: s k)
  case (Cons x cs)
  obtain c n where x: "x = (c, n)" by fastforce
  have "lint_message k (interrupted_result c n at) s = s\<lparr>ls_open := removeAll c (ls_open s)\<rparr>"
    using Cons.prems by (simp add: lint_message_def Let_def x)
  moreover have "set (map fst cs) \<subseteq> set (ls_open (s\<lparr>ls_open := removeAll c (ls_open s)\<rparr>))" using Cons.prems by (auto simp: x)
  ultimately show ?case using Cons.IH [of "s\<lparr>ls_open := removeAll c (ls_open s)\<rparr>" "Suc k"] Cons.prems by (auto simp: x)
qed simp

text \<open>
  C10. A fold whose only fault is that calls of tools were left without a result - the process restarted in
  the middle of a turn - is well formed once they are answered as interrupted. A fold without
  faults is left as it is.
\<close>

theorem interrupt_heal_repairs:
  assumes "list_all is_end_problem (lintFold ms)"
  shows "lintFold (healFoldInterrupt ms at) = [] \<and> (lintFold ms = [] \<longrightarrow> healFoldInterrupt ms at = ms) \<and>
    take (length ms) (healFoldInterrupt ms at) = ms"
proof -
  have none: "ls_problems (lint_run ms) = []" by (rule only_end [OF assms])
  then have first: "lint_first ms = []" and inv: "lint_inv ms (lint_run ms)"
    using lint_from_inv [of "lint_first ms" ms] unfolding lint_run_from by blast+
  have ids: "set (map fst (missing_calls ms)) = set (ls_open (lint_run ms))" "distinct (map fst (missing_calls ms))"
    using inv distinct_open [of ms] by (auto simp: missing_calls_eq lint_inv_def)
  let ?rs = "map (\<lambda>(c, n). interrupted_result c n at) (missing_calls ms)"
  have "lint_first (ms @ ?rs) = []"
    using first ids(1) by (cases ms) (auto simp: lint_first_def missing_calls_def List.map_filter_simps)
  then have "lint_run (ms @ ?rs) = fold (\<lambda>(i, m). lint_message i m) (enumerate (length ms) ?rs) (lint_run ms)"
    using first by (simp add: lint_run_def enumerate_append_eq)
  then have "ls_problems (lint_run (ms @ ?rs)) = [] \<and> ls_open (lint_run (ms @ ?rs)) = []"
    using lint_results [OF ids(2), of "lint_run ms" "length ms" at] ids(1) none by auto
  then have "lintFold (healFoldInterrupt ms at) = []"
    by (simp add: lintFold_def Let_def healFoldInterrupt_def healDanglingCalls_def)
  moreover have "healFoldInterrupt ms at = ms" if "lintFold ms = []"
    using that ids(1) by (auto simp: lintFold_def Let_def healFoldInterrupt_def healDanglingCalls_def split: if_splits)
  ultimately show ?thesis by (simp add: healFoldInterrupt_def healDanglingCalls_def)
qed

section \<open>Compaction\<close>

text \<open>The messages of a stretch of tape without events, and the turns that end in it.\<close>

definition messages_of :: "tape_record list \<Rightarrow> json list" where
  "messages_of rows = map nt_payload (filter (\<lambda>r. nt_kind r = TkMessage \<and> nt_payload r \<noteq> JNull) rows)"

definition turn_end_seq :: "tape_record \<Rightarrow> int option" where
  "turn_end_seq r =
     (if nt_kind r = TkAnnotation \<and> field ''turnEnd'' (nt_payload r) = Some (JBool True) then nt_entrySeq r else None)"

lemma fold_plain:
  assumes "\<And>r. r \<in> set rows \<Longrightarrow> contextEvent r = None"
  shows "\<exists>bs. fold fold_row rows f = f\<lparr>fo_out := fo_out f @ messages_of rows, fo_boundaries := fo_boundaries f @ bs\<rparr> \<and>
    (\<forall>b \<in> set bs. \<exists>r \<in> set rows. turn_end_seq r = Some (snd b))"
  using assms
proof (induction rows arbitrary: f)
  case (Cons r rows)
  let ?m = "if nt_kind r = TkMessage \<and> nt_payload r \<noteq> JNull then [nt_payload r] else []"
  let ?b = "case turn_end_seq r of None \<Rightarrow> [] | Some n \<Rightarrow> [(length (fo_out f), n)]"
  have step: "fold_row r f = f\<lparr>fo_out := fo_out f @ ?m, fo_boundaries := fo_boundaries f @ ?b\<rparr>"
    using Cons.prems [of r] by (auto simp: fold_row_def turn_end_seq_def contextEvent_def split: if_splits option.splits)
  obtain bs where bs: "fold fold_row rows (fold_row r f) =
      (fold_row r f)\<lparr>fo_out := fo_out (fold_row r f) @ messages_of rows, fo_boundaries := fo_boundaries (fold_row r f) @ bs\<rparr>"
    "\<forall>b \<in> set bs. \<exists>r \<in> set rows. turn_end_seq r = Some (snd b)"
    using Cons.IH [of "fold_row r f"] Cons.prems by (meson list.set_intros(2))
  have "fold fold_row (r # rows) f = f\<lparr>fo_out := fo_out f @ messages_of (r # rows), fo_boundaries := fo_boundaries f @ ?b @ bs\<rparr>"
    by (simp add: bs(1)) (simp add: step messages_of_def)
  moreover have "\<forall>b \<in> set (?b @ bs). \<exists>q \<in> set (r # rows). turn_end_seq q = Some (snd b)"
    using bs(2) by (auto split: option.splits)
  ultimately show ?case by blast
qed (auto simp: messages_of_def intro!: exI [of _ "[]"])

text \<open>
  A compaction puts its summary in place of exactly the conversation up to the last turn it covers:
  whatever came before - earlier turns, imports, compactions - is gone, and every message after that
  turn stays, in order.
\<close>

theorem compaction_keeps_later_turns:
  assumes "turn_end_seq boundary = Some n" and "n \<le> c"
    and "\<And>r. r \<in> set later \<Longrightarrow> contextEvent r = None \<and> (\<forall>k. turn_end_seq r = Some k \<longrightarrow> c < k)"
    and "contextEvent event = Some (Compaction t)" and "nt_coversEntrySeq event = Some c"
  shows "foldTape (earlier @ boundary # later @ [event]) = summary_message t (tp_createdAt event) # messages_of later"
proof -
  obtain f where f: "fold fold_row earlier \<lparr>fo_out = [], fo_boundaries = []\<rparr> = f" by simp
  have b: "fold_row boundary f = f\<lparr>fo_boundaries := fo_boundaries f @ [(length (fo_out f), n)]\<rparr>"
    using assms(1) by (auto simp: fold_row_def turn_end_seq_def split: if_splits)
  obtain bs where bs: "fold fold_row later (fold_row boundary f) =
      (fold_row boundary f)\<lparr>fo_out := fo_out (fold_row boundary f) @ messages_of later, fo_boundaries := fo_boundaries (fold_row boundary f) @ bs\<rparr>"
    "\<forall>x \<in> set bs. \<exists>r \<in> set later. turn_end_seq r = Some (snd x)"
    using fold_plain [of later "fold_row boundary f"] assms(3) by blast
  have late: "List.find (\<lambda>(p, s). s \<le> c) (rev bs @ xs) = List.find (\<lambda>(p, s). s \<le> c) xs" for xs
  proof -
    have "\<forall>x \<in> set bs. c < snd x" using bs(2) assms(3) by blast
    then show ?thesis by (induction bs arbitrary: xs) (auto simp: case_prod_beta)
  qed
  have "nt_kind event \<noteq> TkAnnotation" using assms(4) by (auto simp: contextEvent_def split: if_splits)
  then have "fold_row event g = compact t (tp_createdAt event) (Some c) g" for g
    using assms(4,5) by (simp add: fold_row_def fold_event_def)
  then have "foldTape (earlier @ boundary # later @ [event]) =
      fo_out (compact t (tp_createdAt event) (Some c) (fold fold_row later (fold_row boundary f)))"
    by (simp add: foldTape_def f)
  also have "fold fold_row later (fold_row boundary f) =
      f\<lparr>fo_out := fo_out f @ messages_of later, fo_boundaries := fo_boundaries f @ (length (fo_out f), n) # bs\<rparr>"
    using bs(1) by (simp add: b)
  finally show ?thesis using assms(2) by (simp add: compact_def late)
qed

section \<open>The theorems applied\<close>

definition ex_row :: "tape_kind \<Rightarrow> json \<Rightarrow> scope_id \<Rightarrow> int option \<Rightarrow> int option \<Rightarrow> tape_record" where
  "ex_row k p l e c =
     \<lparr>nt_kind = k, nt_payload = p, nt_scopeLabel = l, nt_harness = None, nt_meta = None, nt_entrySeq = e, nt_coversEntrySeq = c,
      tp_sessionId = ''s1'', tp_seq = 0, tp_createdAt = 5\<rparr>"

definition ex_user :: json where
  "ex_user = JObj [(''role'', JStr ''user''), (''content'', JArr [text_block ''hi''])]"

definition ex_call :: json where
  "ex_call = JObj [(''role'', JStr ''assistant''), (''content'', JArr [JObj [(''type'', JStr ''toolCall''), (''id'', JStr ''c1'')]])]"

definition ex_secret :: "string \<Rightarrow> json" where
  "ex_secret t = JObj [(''role'', JStr ''toolResult''), (''toolCallId'', JStr ''c1''), (''toolName'', JStr ''read''), (''content'', JStr t)]"

definition ex_tape :: "string \<Rightarrow> tape_record list" where
  "ex_tape t =
     [ex_row TkMessage ex_user ''channel:C1'' None None, ex_row TkMessage ex_call ''channel:C1'' None None,
      ex_row TkMessage (ex_secret t) ''personal:ann'' None None]"

definition ex_audience :: "principal list" where
  "ex_audience = [\<lparr>p_id = ''bob'', p_type = Internal, p_teamIds = None, p_displayName = None\<rparr>]"


theorem interrupt_heal_repairs_witness:
  "lintFold [ex_user, ex_call] = [DanglingCalls 1] \<and> lintFold (healFoldInterrupt [ex_user, ex_call] 7) = [] \<and>
   length (healFoldInterrupt [ex_user, ex_call] 7) = 3"
proof -
  have 1: "lintFold [ex_user, ex_call] = [DanglingCalls 1]" "length (healFoldInterrupt [ex_user, ex_call] 7) = 3" by code_simp+
  have "list_all is_end_problem (lintFold [ex_user, ex_call])" by code_simp
  from interrupt_heal_repairs [OF this, of 7] 1 show ?thesis by simp
qed

definition ex_boundary :: tape_record where
  "ex_boundary = ex_row TkAnnotation (JObj [(''turnEnd'', JBool True)]) ''channel:C1'' (Some 3) None"

definition ex_compaction :: tape_record where
  "ex_compaction = ex_row TkContextEvent (JObj [(''event'', JStr ''compaction''), (''text'', JStr ''so far'')]) ''channel:C1'' None (Some 4)"

theorem compaction_keeps_later_turns_witness:
  "foldTape (ex_tape ''one'' @ ex_boundary # [ex_row TkMessage ex_user ''channel:C1'' None None] @ [ex_compaction]) = [summary_message ''so far'' 5, ex_user]"
proof -
  have h: "turn_end_seq ex_boundary = Some 3" "contextEvent ex_compaction = Some (Compaction ''so far'')"
    "nt_coversEntrySeq ex_compaction = Some 4" "tp_createdAt ex_compaction = 5"
    "messages_of [ex_row TkMessage ex_user ''channel:C1'' None None] = [ex_user]"
    "contextEvent (ex_row TkMessage ex_user ''channel:C1'' None None) = None"
    "turn_end_seq (ex_row TkMessage ex_user ''channel:C1'' None None) = None"
    by code_simp+
  have "foldTape (ex_tape ''one'' @ ex_boundary # [ex_row TkMessage ex_user ''channel:C1'' None None] @ [ex_compaction]) =
      summary_message ''so far'' (tp_createdAt ex_compaction) # messages_of [ex_row TkMessage ex_user ''channel:C1'' None None]"
    by (rule compaction_keeps_later_turns [OF h(1) _ _ h(2,3)]) (use h(6,7) in auto)
  then show ?thesis by (simp only: h(4,5))
qed

end
