(* ===== verification/Tape_Images.thy ===== *)
theory Tape_Images
  imports Tape_Fold
begin

text \<open>
  The images of a folded conversation (\<open>rehydrateFoldImages\<close> of \<open>src/harness/tape-fold.ts\<close>): the tape keeps
  references, and the bytes are loaded again, the newest first, until the budget of a request is spent.
  The loader is an argument. A position is a pair of the message and the block.
\<close>

section \<open>Definitions\<close>

record rehydrated_image =
  ri_data :: string
  ri_mimeType :: string
  ri_sizeBytes :: int

datatype loaded = LoadedImage rehydrated_image | OverBudget

datatype swap = Restored rehydrated_image | Elided

record rehydration =
  rh_cached :: "(string \<times> loaded option) list"
  rh_remaining :: int
  rh_swaps :: "((nat \<times> nat) \<times> swap) list"

definition is_image :: "json \<Rightarrow> bool" where
  "is_image b = (field ''type'' b = Some (JStr ''image'') \<and> string_field ''data'' b = None)"

definition isStripped :: "json \<Rightarrow> bool" where
  "isStripped b = (is_image b \<and> string_field ''artifactRef'' b \<noteq> None)"

definition isOmitted :: "json \<Rightarrow> bool" where
  "isOmitted b = (is_image b \<and> string_field ''artifactRef'' b = None \<and> field ''omitted'' b = Some (JBool True))"

text \<open>The blocks of a conversation with their positions, in order.\<close>

definition message_blocks :: "nat \<times> json \<Rightarrow> ((nat \<times> nat) \<times> json) list" where
  "message_blocks im = map (\<lambda>(j, b). ((fst im, j), b)) (enumerate 0 (or_else (content_blocks (snd im)) []))"

definition all_blocks :: "json list \<Rightarrow> ((nat \<times> nat) \<times> json) list" where
  "all_blocks messages = concat (map message_blocks (enumerate 0 messages))"

definition candidates :: "json list \<Rightarrow> ((nat \<times> nat) \<times> json) list" where
  "candidates messages = filter (\<lambda>pb. isStripped (snd pb)) (all_blocks messages)"

definition omitted_swaps :: "json list \<Rightarrow> ((nat \<times> nat) \<times> swap) list" where
  "omitted_swaps messages = map (\<lambda>pb. (fst pb, Elided)) (filter (\<lambda>pb. isOmitted (snd pb)) (all_blocks messages))"

text \<open>The cache is asked before the loader, and only while budget is left.\<close>

definition load_cached :: "(string \<Rightarrow> int \<Rightarrow> loaded option) \<Rightarrow> string \<Rightarrow> rehydration \<Rightarrow> rehydration \<times> loaded option" where
  "load_cached load ref s =
     (if rh_remaining s \<le> 0 then (s, None)
      else
        (case map_get (rh_cached s) ref of
           Some l \<Rightarrow> (s, l)
         | None \<Rightarrow> (let l = load ref (rh_remaining s) in (s\<lparr>rh_cached := map_set ref l (rh_cached s)\<rparr>, l))))"

definition fits :: "json \<Rightarrow> int \<Rightarrow> rehydrated_image \<Rightarrow> bool" where
  "fits b remaining img =
     (0 < ri_sizeBytes img \<and> ri_sizeBytes img \<le> remaining \<and> string_field ''mimeType'' b = Some (ri_mimeType img))"

definition set_swap :: "nat \<times> nat \<Rightarrow> swap \<Rightarrow> rehydration \<Rightarrow> rehydration" where
  "set_swap p w s = s\<lparr>rh_swaps := map_set p w (rh_swaps s)\<rparr>"

definition rehydrate_step ::
  "(string \<Rightarrow> int \<Rightarrow> loaded option) \<Rightarrow> (nat \<times> nat) \<times> json \<Rightarrow> rehydration \<Rightarrow> rehydration" where
  "rehydrate_step load pb s =
     (case load_cached load (or_else (string_field ''artifactRef'' (snd pb)) []) s of (s1, l) \<Rightarrow>
        (let budgetSpent = (rh_remaining s \<le> 0)
         in case l of
              Some (LoadedImage img) \<Rightarrow>
                if fits (snd pb) (rh_remaining s1) img
                then set_swap (fst pb) (Restored img) (s1\<lparr>rh_remaining := rh_remaining s1 - ri_sizeBytes img\<rparr>)
                else if budgetSpent \<or> rh_remaining s1 < ri_sizeBytes img then set_swap (fst pb) Elided s1 else s1
            | Some OverBudget \<Rightarrow> set_swap (fst pb) Elided s1
            | None \<Rightarrow> if budgetSpent then set_swap (fst pb) Elided s1 else s1))"

definition rehydrate_run :: "(string \<Rightarrow> int \<Rightarrow> loaded option) \<Rightarrow> int \<Rightarrow> json list \<Rightarrow> rehydration" where
  "rehydrate_run load maxBytes messages =
     fold (rehydrate_step load) (rev (candidates messages))
       \<lparr>rh_cached = [], rh_remaining = maxBytes, rh_swaps = omitted_swaps messages\<rparr>"

definition drop_fields :: "string list \<Rightarrow> json \<Rightarrow> json" where
  "drop_fields names b = (case b of JObj fs \<Rightarrow> JObj (filter (\<lambda>kv. fst kv \<notin> set names) fs) | _ \<Rightarrow> b)"

definition swap_block :: "json \<Rightarrow> swap option \<Rightarrow> json" where
  "swap_block b w =
     (case w of
        None \<Rightarrow> b
      | Some Elided \<Rightarrow> text_block ELIDED_IMAGE_TEXT
      | Some (Restored img) \<Rightarrow>
          set_field ''mimeType'' (JStr (ri_mimeType img))
            (set_field ''data'' (JStr (ri_data img)) (drop_fields [''artifactRef'', ''omitted''] b)))"

definition swap_message :: "((nat \<times> nat) \<times> swap) list \<Rightarrow> nat \<Rightarrow> json \<Rightarrow> json" where
  "swap_message swaps i m =
     (case content_blocks m of
        None \<Rightarrow> m
      | Some bs \<Rightarrow>
          if list_ex (\<lambda>j. map_get swaps (i, j) \<noteq> None) [0..<length bs]
          then set_field ''content'' (JArr (map (\<lambda>(j, b). swap_block b (map_get swaps (i, j))) (enumerate 0 bs))) m
          else m)"

definition rehydrateFoldImages :: "json list \<Rightarrow> (string \<Rightarrow> int \<Rightarrow> loaded option) \<Rightarrow> int \<Rightarrow> json list" where
  "rehydrateFoldImages messages load maxBytes =
     (if candidates messages = [] \<and> omitted_swaps messages = [] then messages
      else map (\<lambda>(i, m). swap_message (rh_swaps (rehydrate_run load maxBytes messages)) i m) (enumerate 0 messages))"

section \<open>The budget\<close>

definition swap_size :: "swap \<Rightarrow> int" where
  "swap_size w = (case w of Elided \<Rightarrow> 0 | Restored img \<Rightarrow> ri_sizeBytes img)"

definition restored_bytes :: "((nat \<times> nat) \<times> swap) list \<Rightarrow> int" where
  "restored_bytes swaps = sum_list (map (\<lambda>pw. swap_size (snd pw)) swaps)"

definition block_at :: "json list \<Rightarrow> nat \<times> nat \<Rightarrow> json option" where
  "block_at messages p =
     (if fst p < length messages
      then (case content_blocks (messages ! fst p) of None \<Rightarrow> None | Some bs \<Rightarrow> if snd p < length bs then Some (bs ! snd p) else None)
      else None)"

lemma message_blocks_at:
  "((i, j), b) \<in> set (message_blocks (k, m)) \<longleftrightarrow> i = k \<and> (\<exists>bs. content_blocks m = Some bs \<and> j < length bs \<and> b = bs ! j)"
  by (cases "content_blocks m") (auto simp: message_blocks_def in_set_enumerate_eq image_iff Bex_def)

lemma all_blocks_at: "(p, b) \<in> set (all_blocks messages) \<longleftrightarrow> block_at messages p = Some b"
proof (cases p)
  case (Pair i j)
  have "(p, b) \<in> set (all_blocks messages) \<longleftrightarrow> (\<exists>k m. (k, m) \<in> set (enumerate 0 messages) \<and> ((i, j), b) \<in> set (message_blocks (k, m)))"
    by (auto simp: all_blocks_def Pair)
  also have "\<dots> \<longleftrightarrow> i < length messages \<and> ((i, j), b) \<in> set (message_blocks (i, messages ! i))"
    by (auto simp: message_blocks_at in_set_enumerate_eq)
  also have "\<dots> \<longleftrightarrow> block_at messages p = Some b"
    by (auto simp: message_blocks_at block_at_def Pair split: option.splits)
  finally show ?thesis .
qed

lemma restored_bytes_fresh: "map_get swaps p = None \<Longrightarrow> restored_bytes (map_set p w swaps) = restored_bytes swaps + swap_size w"
  by (induction swaps) (auto simp: restored_bytes_def split: if_splits)

text \<open>What is known of a run over some of the candidates: the accounts, the cache, and the swaps made.\<close>

definition swap_ok :: "(string \<Rightarrow> int \<Rightarrow> loaded option) \<Rightarrow> json list \<Rightarrow> ((nat \<times> nat) \<times> json) list \<Rightarrow> nat \<times> nat \<Rightarrow> swap \<Rightarrow> bool" where
  "swap_ok load messages cs p w \<longleftrightarrow>
     (\<exists>b. block_at messages p = Some b \<and>
        (isOmitted b \<and> w = Elided \<or>
         isStripped b \<and> (p, b) \<in> set cs \<and>
         (\<forall>img. w = Restored img \<longrightarrow> string_field ''mimeType'' b = Some (ri_mimeType img) \<and>
            (\<exists>n. load (the (string_field ''artifactRef'' b)) n = Some (LoadedImage img)))))"

definition rh_ok :: "(string \<Rightarrow> int \<Rightarrow> loaded option) \<Rightarrow> int \<Rightarrow> json list \<Rightarrow> ((nat \<times> nat) \<times> json) list \<Rightarrow> rehydration \<Rightarrow> bool" where
  "rh_ok load maxBytes messages cs s \<longleftrightarrow>
     0 \<le> rh_remaining s \<and> restored_bytes (rh_swaps s) + rh_remaining s = maxBytes \<and>
     (\<forall>r l. map_get (rh_cached s) r = Some l \<longrightarrow> (\<exists>n. load r n = l)) \<and>
     (\<forall>p b. block_at messages p = Some b \<longrightarrow> isOmitted b \<longrightarrow> map_get (rh_swaps s) p = Some Elided) \<and>
     (\<forall>p w. map_get (rh_swaps s) p = Some w \<longrightarrow> swap_ok load messages cs p w)"

lemma swap_ok_more: "swap_ok load messages cs p w \<Longrightarrow> swap_ok load messages (c # cs) p w"
  unfolding swap_ok_def by (metis list.set_intros(2))

lemma load_cached_props:
  assumes "\<And>r l. map_get (rh_cached s) r = Some l \<Longrightarrow> \<exists>n. load r n = l" and "load_cached load r s = (s1, l)"
  shows "rh_remaining s1 = rh_remaining s \<and> rh_swaps s1 = rh_swaps s \<and>
    (\<forall>r l. map_get (rh_cached s1) r = Some l \<longrightarrow> (\<exists>n. load r n = l)) \<and> (0 < rh_remaining s \<longrightarrow> (\<exists>n. load r n = l)) \<and> (rh_remaining s \<le> 0 \<longrightarrow> l = None)"
  using assms by (auto simp: load_cached_def Let_def split: if_splits option.splits)

lemma stripped_not_omitted: "isStripped b \<Longrightarrow> \<not> isOmitted b"
  by (auto simp: isStripped_def isOmitted_def)

lemma rh_ok_swap:
  assumes "rh_ok load mb messages cs s" and b: "block_at messages p = Some b" "isStripped b" "p \<notin> fst ` set cs"
    and s1: "rh_swaps s1 = map_set p w (rh_swaps s)" "rh_remaining s1 = rh_remaining s - swap_size w" "0 \<le> rh_remaining s1"
    and "\<forall>r l. map_get (rh_cached s1) r = Some l \<longrightarrow> (\<exists>n. load r n = l)"
    and w: "\<And>img. w = Restored img \<Longrightarrow> string_field ''mimeType'' b = Some (ri_mimeType img) \<and>
           (\<exists>n. load (the (string_field ''artifactRef'' b)) n = Some (LoadedImage img))"
  shows "rh_ok load mb messages ((p, b) # cs) s1"
proof -
  have fresh: "map_get (rh_swaps s) p = None"
  proof (rule ccontr)
    assume "map_get (rh_swaps s) p \<noteq> None"
    then obtain v where "swap_ok load messages cs p v" using assms(1) unfolding rh_ok_def by blast
    then have "isOmitted b \<or> (p, b) \<in> set cs" using b(1) unfolding swap_ok_def by auto
    then show False using b(2,3) stripped_not_omitted by force
  qed
  have acc: "restored_bytes (rh_swaps s1) + rh_remaining s1 = mb"
    using assms(1) s1 restored_bytes_fresh [OF fresh] unfolding rh_ok_def by simp
  have om: "map_get (rh_swaps s1) q = Some Elided" if "block_at messages q = Some c" "isOmitted c" for q c
  proof -
    have "q \<noteq> p" using that b stripped_not_omitted by auto
    moreover have "map_get (rh_swaps s) q = Some Elided" using that assms(1) unfolding rh_ok_def by blast
    ultimately show ?thesis using s1(1) by simp
  qed
  have new: "swap_ok load messages ((p, b) # cs) p w" unfolding swap_ok_def using b w by auto
  have sw: "swap_ok load messages ((p, b) # cs) q v" if "map_get (rh_swaps s1) q = Some v" for q v
  proof (cases "q = p")
    case True
    then show ?thesis using that new s1(1) by simp
  next
    case False
    then have "map_get (rh_swaps s) q = Some v" using that s1(1) by simp
    then show ?thesis using assms(1) swap_ok_more unfolding rh_ok_def by blast
  qed
  show ?thesis unfolding rh_ok_def using acc om sw s1(3) assms(8) by blast
qed

lemma rh_ok_skip: "rh_ok load mb messages cs s \<Longrightarrow> rh_swaps s1 = rh_swaps s \<Longrightarrow> rh_remaining s1 = rh_remaining s \<Longrightarrow>
    \<forall>r l. map_get (rh_cached s1) r = Some l \<longrightarrow> (\<exists>n. load r n = l) \<Longrightarrow> rh_ok load mb messages (c # cs) s1"
  unfolding rh_ok_def using swap_ok_more by simp

lemma rehydrate_step_ok:
  assumes "rh_ok load mb messages cs s" and "block_at messages p = Some b" "isStripped b" "p \<notin> fst ` set cs"
  shows "rh_ok load mb messages ((p, b) # cs) (rehydrate_step load (p, b) s)"
proof -
  let ?ref = "or_else (string_field ''artifactRef'' b) []"
  have ref: "?ref = the (string_field ''artifactRef'' b)" using assms(3) by (auto simp: isStripped_def)
  obtain s1 l where l: "load_cached load ?ref s = (s1, l)" by fastforce
  have "\<exists>n. load r n = k" if "map_get (rh_cached s) r = Some k" for r k using assms(1) that unfolding rh_ok_def by blast
  from load_cached_props [OF this l] have c: "rh_remaining s1 = rh_remaining s" "rh_swaps s1 = rh_swaps s"
    "\<forall>r l. map_get (rh_cached s1) r = Some l \<longrightarrow> (\<exists>n. load r n = l)" "0 < rh_remaining s \<Longrightarrow> \<exists>n. load ?ref n = l" "rh_remaining s \<le> 0 \<Longrightarrow> l = None"
    by auto
  have pos: "0 \<le> rh_remaining s" using assms(1) unfolding rh_ok_def by blast
  note swap = rh_ok_swap [OF assms] and skip = rh_ok_skip [OF assms(1)]
  have elide: "rh_ok load mb messages ((p, b) # cs) (set_swap p Elided s1)"
    using c pos by (intro swap [where w = Elided]) (auto simp: set_swap_def swap_size_def)
  have restore: "rh_ok load mb messages ((p, b) # cs) (set_swap p (Restored img) (s1\<lparr>rh_remaining := rh_remaining s1 - ri_sizeBytes img\<rparr>))"
    if "l = Some (LoadedImage img)" "fits b (rh_remaining s1) img" for img
    using c that ref by (intro swap [where w = "Restored img"]) (auto simp: set_swap_def swap_size_def fits_def)
  have keep: "rh_ok load mb messages ((p, b) # cs) s1" using c by (intro skip) auto
  show ?thesis
    using elide restore keep by (auto simp: rehydrate_step_def l Let_def split: option.splits loaded.splits)
qed

lemma distinct_blocks: "distinct (map fst (all_blocks messages))"
proof -
  have "distinct (map fst (concat (map message_blocks (enumerate n messages))))" for n
  proof (induction messages arbitrary: n)
    case (Cons m messages)
    have "distinct (map fst (message_blocks (n, m)))"
      by (auto simp: message_blocks_def distinct_map inj_on_def in_set_enumerate_eq o_def case_prod_beta intro!: distinct_enumerate)
    moreover have "fst ` set (message_blocks (n, m)) \<inter> fst ` set (concat (map message_blocks (enumerate (Suc n) messages))) = {}"
      by (force simp: message_blocks_def in_set_enumerate_eq)
    ultimately show ?case using Cons by (simp add: distinct_append)
  qed simp
  then show ?thesis by (simp add: all_blocks_def)
qed

lemma fold_rehydrate_ok:
  assumes "rh_ok load mb messages cs s" and "distinct (map fst ds)" "fst ` set ds \<inter> fst ` set cs = {}"
    and "\<And>p b. (p, b) \<in> set ds \<Longrightarrow> block_at messages p = Some b \<and> isStripped b"
  shows "rh_ok load mb messages (rev ds @ cs) (fold (rehydrate_step load) ds s)"
  using assms
proof (induction ds arbitrary: cs s)
  case (Cons d ds)
  obtain p b where d: "d = (p, b)" by fastforce
  have pb: "block_at messages p = Some b" "isStripped b" using Cons.prems(4) [of p b] d by simp_all
  have "rh_ok load mb messages ((p, b) # cs) (rehydrate_step load (p, b) s)"
    using Cons.prems(1,2,3) pb unfolding d by (intro rehydrate_step_ok) auto
  then have "rh_ok load mb messages (rev ds @ (p, b) # cs) (fold (rehydrate_step load) ds (rehydrate_step load (p, b) s))"
    using Cons.prems unfolding d by (intro Cons.IH) auto
  then show ?case by (simp add: d)
qed simp

lemma omitted_swaps_get:
  "map_get (omitted_swaps messages) p = Some w \<longleftrightarrow> w = Elided \<and> (\<exists>b. block_at messages p = Some b \<and> isOmitted b)"
proof
  assume "map_get (omitted_swaps messages) p = Some w"
  then have "(p, w) \<in> set (omitted_swaps messages)" by (rule map_of_SomeD)
  then show "w = Elided \<and> (\<exists>b. block_at messages p = Some b \<and> isOmitted b)"
    by (auto simp: omitted_swaps_def simp flip: all_blocks_at)
next
  assume w: "w = Elided \<and> (\<exists>b. block_at messages p = Some b \<and> isOmitted b)"
  then have "p \<in> fst ` set (omitted_swaps messages)"
    unfolding all_blocks_at [symmetric] by (force simp: omitted_swaps_def)
  then obtain v where v: "map_get (omitted_swaps messages) p = Some v" by (metis map_of_eq_None_iff not_None_eq)
  then have "(p, v) \<in> set (omitted_swaps messages)" by (rule map_of_SomeD)
  then show "map_get (omitted_swaps messages) p = Some w" using v w by (auto simp: omitted_swaps_def)
qed

lemma rehydrate_run_ok:
  assumes "0 \<le> maxBytes"
  shows "rh_ok load maxBytes messages (candidates messages) (rehydrate_run load maxBytes messages)"
proof -
  let ?s = "\<lparr>rh_cached = [], rh_remaining = maxBytes, rh_swaps = omitted_swaps messages\<rparr>"
  have "restored_bytes (omitted_swaps messages) = 0"
    by (simp add: restored_bytes_def omitted_swaps_def swap_size_def o_def sum_list_0)
  then have "rh_ok load maxBytes messages [] ?s"
    using assms by (auto simp: rh_ok_def omitted_swaps_get swap_ok_def)
  moreover have "distinct (map fst (rev (candidates messages)))"
    using distinct_blocks by (simp add: candidates_def rev_map distinct_map_filter flip: rev_map)
  ultimately have "rh_ok load maxBytes messages (rev (rev (candidates messages)) @ []) (fold (rehydrate_step load) (rev (candidates messages)) ?s)"
    by (intro fold_rehydrate_ok) (auto simp: candidates_def all_blocks_at)
  then show ?thesis by (simp add: rehydrate_run_def)
qed

section \<open>The result\<close>

lemma content_set_field: "content_blocks m \<noteq> None \<Longrightarrow> content_blocks (set_field ''content'' (JArr bs) m) = Some bs"
  by (cases m) (auto simp: content_blocks_def field_def set_field_def split: option.splits)

lemma swap_message_blocks:
  "content_blocks (swap_message swaps i m) =
   map_option (\<lambda>bs. map (\<lambda>(j, b). swap_block b (map_get swaps (i, j))) (enumerate 0 bs)) (content_blocks m)"
proof (cases "content_blocks m")
  case (Some bs)
  let ?new = "map (\<lambda>(j, b). swap_block b (map_get swaps (i, j))) (enumerate 0 bs)"
  have "?new = bs" if "\<not> list_ex (\<lambda>j. map_get swaps (i, j) \<noteq> None) [0..<length bs]"
    using that by (intro nth_equalityI) (auto simp: nth_enumerate_eq list_ex_iff swap_block_def)
  then show ?thesis using Some content_set_field [of m ?new] by (auto simp: swap_message_def)
qed (simp add: swap_message_def)

lemma rehydrated_block_at:
  "block_at (rehydrateFoldImages messages load maxBytes) p =
   map_option (\<lambda>b. swap_block b (map_get (rh_swaps (rehydrate_run load maxBytes messages)) p)) (block_at messages p)"
proof (cases "candidates messages = [] \<and> omitted_swaps messages = []")
  case True
  then show ?thesis by (simp add: rehydrateFoldImages_def rehydrate_run_def swap_block_def option.map_ident)
next
  case False
  then show ?thesis
    by (cases p) (auto simp: rehydrateFoldImages_def block_at_def nth_enumerate_eq swap_message_blocks split: option.splits)
qed

text \<open>
  C11. The images given to the model fit the request: the bytes restored never exceed the budget. Each
  restored block was a stripped image, holds what the loader gave for its reference and is of the type
  the tape recorded; every image that was left out of the tape is named as removed; all other blocks,
  and the number of messages, are as before.
\<close>

theorem images_within_budget:
  assumes "0 \<le> maxBytes" and "swaps = rh_swaps (rehydrate_run load maxBytes messages)"
  shows "restored_bytes swaps \<le> maxBytes \<and>
    length (rehydrateFoldImages messages load maxBytes) = length messages \<and>
    (\<forall>p. block_at (rehydrateFoldImages messages load maxBytes) p = map_option (\<lambda>b. swap_block b (map_get swaps p)) (block_at messages p)) \<and>
    (\<forall>p b. block_at messages p = Some b \<longrightarrow>
       (isOmitted b \<longrightarrow> map_get swaps p = Some Elided) \<and>
       (\<not> isStripped b \<and> \<not> isOmitted b \<longrightarrow> map_get swaps p = None) \<and>
       (\<forall>img. map_get swaps p = Some (Restored img) \<longrightarrow> isStripped b \<and> string_field ''mimeType'' b = Some (ri_mimeType img) \<and>
          (\<exists>n. load (the (string_field ''artifactRef'' b)) n = Some (LoadedImage img))))"
proof -
  from rehydrate_run_ok [OF assms(1), of load messages, folded assms(2)]
  have r: "restored_bytes swaps \<le> maxBytes" "\<And>p b. block_at messages p = Some b \<Longrightarrow> isOmitted b \<Longrightarrow> map_get swaps p = Some Elided"
    "\<And>p w. map_get swaps p = Some w \<Longrightarrow> swap_ok load messages (candidates messages) p w" unfolding rh_ok_def assms(2) by auto
  have "map_get swaps p = None" if "block_at messages p = Some b" "\<not> isStripped b \<and> \<not> isOmitted b" for p b
    using r(3) [of p] that unfolding swap_ok_def by (cases "map_get swaps p") auto
  moreover have "isStripped b \<and> string_field ''mimeType'' b = Some (ri_mimeType img) \<and>
      (\<exists>n. load (the (string_field ''artifactRef'' b)) n = Some (LoadedImage img))"
    if "block_at messages p = Some b" "map_get swaps p = Some (Restored img)" for p b img
    using r(3) [OF that(2)] that(1) unfolding swap_ok_def by auto
  moreover have "length (rehydrateFoldImages messages load maxBytes) = length messages" by (simp add: rehydrateFoldImages_def)
  ultimately show ?thesis using r(1,2) rehydrated_block_at [of messages load maxBytes, folded assms(2)] by blast
qed

definition ex_image_block :: "string \<Rightarrow> json" where
  "ex_image_block ref = JObj [(''type'', JStr ''image''), (''artifactRef'', JStr ref), (''mimeType'', JStr ''image/png'')]"

definition ex_images :: "json list" where
  "ex_images = [JObj [(''role'', JStr ''user''), (''content'', JArr [ex_image_block ''old'', ex_image_block ''new''])]]"

definition ex_load :: "string \<Rightarrow> int \<Rightarrow> loaded option" where
  "ex_load ref n = Some (LoadedImage \<lparr>ri_data = ref, ri_mimeType = ''image/png'', ri_sizeBytes = 60\<rparr>)"

theorem images_within_budget_witness:
  "restored_bytes (rh_swaps (rehydrate_run ex_load 100 ex_images)) \<le> 100 \<and>
   map_get (rh_swaps (rehydrate_run ex_load 100 ex_images)) (0, 0) = Some Elided \<and>
   map_get (rh_swaps (rehydrate_run ex_load 100 ex_images)) (0, 1) =
     Some (Restored \<lparr>ri_data = ''new'', ri_mimeType = ''image/png'', ri_sizeBytes = 60\<rparr>)"
proof -
  have "map_get (rh_swaps (rehydrate_run ex_load 100 ex_images)) (0, 0) = Some Elided"
    "map_get (rh_swaps (rehydrate_run ex_load 100 ex_images)) (0, 1) =
       Some (Restored \<lparr>ri_data = ''new'', ri_mimeType = ''image/png'', ri_sizeBytes = 60\<rparr>)" by code_simp+
  then show ?thesis using images_within_budget [of 100, OF _ refl, of ex_load ex_images] by simp
qed

end
