(* ===== verification/Compaction.thy ===== *)
theory Compaction
  imports Tape_Fold Session_Props
begin

text \<open>
  Compaction of a conversation: what is given to the model and how a summary is planned, and the properties
  of the plan and of the summary's label.
\<close>

text \<open>
  What of a session's history is given to the model and what is summarized
  (\<open>src/harness/context-compaction.ts\<close>). The tokenizer, the rendering of JSON and that of dates are arguments.
  A fraction is a pair of numerator and denominator. Dashes of the texts are written in ASCII; the
  ellipsis is the character 133; strings have no surrogates.
\<close>

section \<open>Texts\<close>

record compaction_env =
  cv_countTokens :: "string \<Rightarrow> nat"
  cv_stringify :: "json \<Rightarrow> string"
  cv_iso :: "time \<Rightarrow> string"

definition MAX_COMPACT_ENTRY_CHARS :: nat where "MAX_COMPACT_ENTRY_CHARS = 16000"
definition COMPACT_ENTRY_TAIL_CHARS :: nat where "COMPACT_ENTRY_TAIL_CHARS = 2000"
definition CHAINED_SUMMARY_PREFIX_HEADROOM :: nat where "CHAINED_SUMMARY_PREFIX_HEADROOM = 1000"
definition FALLBACK_SUMMARY_BODY_CHARS :: nat where "FALLBACK_SUMMARY_BODY_CHARS = 8000"
definition FALLBACK_SUMMARY_TAIL_CHARS :: nat where "FALLBACK_SUMMARY_TAIL_CHARS = 6000"

definition headSlice :: "string \<Rightarrow> int \<Rightarrow> string" where
  "headSlice s n = (if n \<le> 0 then [] else take (nat n) s)"

definition tailSlice :: "string \<Rightarrow> int \<Rightarrow> string" where
  "tailSlice s n = (if n \<le> 0 then [] else take_last (nat n) s)"

definition truncated_notice :: "string \<Rightarrow> string" where
  "truncated_notice s = [CHR 133] @ ''[truncated - '' @ show_nat (length s) @ '' chars]'' @ [CHR 133]"

definition headTailSlice :: "string \<Rightarrow> nat \<Rightarrow> nat \<Rightarrow> string" where
  "headTailSlice s maxChars tailChars =
     (if length s \<le> maxChars then s
      else headSlice s (int maxChars - int tailChars - int (length (truncated_notice s))) @ truncated_notice s @ tailSlice s (int tailChars))"

section \<open>The label of a summary\<close>

definition distinct_labels :: "session_entry list \<Rightarrow> scope_id list" where
  "distinct_labels es = rev (remdups (rev (map en_scopeLabel es)))"

definition only_label :: "scope_id list \<Rightarrow> scope_id option" where
  "only_label xs = (case xs of [x] \<Rightarrow> Some x | _ \<Rightarrow> None)"

definition compactedScopeLabel :: "session_entry list \<Rightarrow> scope_id \<Rightarrow> scope_id \<Rightarrow> scope_id option" where
  "compactedScopeLabel entries sessionScopeId orgScopeId =
     (let labels = distinct_labels entries;
          personal = filter (\<lambda>l. fst (parseScopeId l) = Some Personal) labels;
          team = filter (\<lambda>l. fst (parseScopeId l) = Some Team) labels;
          nonFloor = filter (\<lambda>l. l \<noteq> orgScopeId \<and> l \<noteq> sessionScopeId) labels
      in if personal \<noteq> [] then only_label personal
         else if team \<noteq> [] then only_label team
         else if nonFloor \<noteq> [] then only_label nonFloor
         else Some (if sessionScopeId \<in> set labels then sessionScopeId else orgScopeId))"

section \<open>What the model is given\<close>

definition is_summary :: "session_entry \<Rightarrow> bool" where
  "is_summary e = (contextSummaryPayload e \<noteq> None)"

definition modelReplayable :: "session_entry list \<Rightarrow> session_entry list" where
  "modelReplayable entries =
     filter (\<lambda>e. en_type e \<noteq> EThinking \<and> en_type e \<noteq> EText \<and> en_type e \<noteq> ESoul \<and>
        field ''kind'' (en_payload e) \<noteq> Some (JStr ''turn_failure'')) entries"

definition find_last :: "('a \<Rightarrow> bool) \<Rightarrow> 'a list \<Rightarrow> 'a option" where
  "find_last P xs = List.find P (rev xs)"

definition throughSeq_of :: "session_entry \<Rightarrow> int" where
  "throughSeq_of e = (case contextSummaryPayload e of None \<Rightarrow> -1 | Some c \<Rightarrow> cs_throughSeq c)"

definition forModelContext :: "session_entry list \<Rightarrow> bool \<Rightarrow> session_entry list" where
  "forModelContext entries includeSecurityTainted =
     (let replayable = modelReplayable entries;
          visible = filter (\<lambda>e. includeSecurityTainted \<or> \<not> entrySecurityTainted e) replayable
      in case find_last is_summary replayable of
           None \<Rightarrow> visible
         | Some latest \<Rightarrow>
             (if latest \<in> set visible then [latest] else []) @
             filter (\<lambda>e. \<not> is_summary e \<and> int (en_seq e) > throughSeq_of latest) visible)"

definition forSearchView :: "session_entry list \<Rightarrow> session_entry list" where
  "forSearchView entries =
     (let replayable = modelReplayable entries; latest = find_last is_summary replayable
      in filter (\<lambda>e. \<not> entrySecurityTainted e \<and> (\<not> is_summary e \<or> Some e = latest)) replayable)"

section \<open>Estimates\<close>

type_synonym token_cache = "(string, nat) jsmap"

definition ENTRY_TOKEN_CACHE_MAX :: nat where "ENTRY_TOKEN_CACHE_MAX = 50000"

definition entry_text :: "compaction_env \<Rightarrow> session_entry \<Rightarrow> string" where
  "entry_text E e =
     (case string_field ''text'' (en_payload e) of
        Some t \<Rightarrow> join [CHR 0x0A, CHR 0x0A] (filter (\<lambda>s. s \<noteq> []) [t, or_else (string_field ''environment'' (en_payload e)) []])
      | None \<Rightarrow> cv_stringify E (if en_payload e = JNull then JObj [] else en_payload e))"

definition cache_key :: "compaction_env \<Rightarrow> session_entry \<Rightarrow> string" where
  "cache_key E e = en_sessionId e @ '':'' @ show_nat (en_seq e) @ '':'' @ show_nat (length (entry_text E e))"

definition estimateEntryTokens :: "compaction_env \<Rightarrow> session_entry \<Rightarrow> token_cache \<Rightarrow> token_cache \<times> nat" where
  "estimateEntryTokens E e cache =
     (case map_get cache (cache_key E e) of
        Some hit \<Rightarrow> (cache, hit)
      | None \<Rightarrow>
          (let n = cv_countTokens E (entry_text E e);
               c1 = (if ENTRY_TOKEN_CACHE_MAX \<le> length cache then tl cache else cache)
           in (map_set (cache_key E e) n c1, n)))"

text \<open>The estimate without the cache, which the rest uses: see \<open>cache_transparent\<close> below.\<close>

definition entry_tokens :: "compaction_env \<Rightarrow> session_entry \<Rightarrow> nat" where
  "entry_tokens E e = cv_countTokens E (entry_text E e)"

definition estimateHistoryTokens :: "compaction_env \<Rightarrow> session_entry list \<Rightarrow> nat" where
  "estimateHistoryTokens E history = sum_list (map (entry_tokens E) history)"

fun recent_count :: "compaction_env \<Rightarrow> int \<Rightarrow> nat \<Rightarrow> nat \<Rightarrow> session_entry list \<Rightarrow> nat" where
  "recent_count E maxTokens cnt tokens [] = cnt"
| "recent_count E maxTokens cnt tokens (e # es) =
     (let after = tokens + entry_tokens E e
      in if 1 \<le> cnt \<and> maxTokens < int after then cnt else recent_count E maxTokens (cnt + 1) after es)"

definition recentEntryCountWithinBudget :: "compaction_env \<Rightarrow> session_entry list \<Rightarrow> int \<Rightarrow> nat" where
  "recentEntryCountWithinBudget E history maxTokens = recent_count E maxTokens 0 0 (rev history)"

section \<open>The transcript to summarize\<close>

definition entryStamp :: "compaction_env \<Rightarrow> time \<Rightarrow> string" where
  "entryStamp E createdAt = (if 0 < createdAt then '' '' @ take 16 (cv_iso E createdAt) @ ''Z'' else [])"

definition call_id :: "session_entry \<Rightarrow> string option" where
  "call_id e = (case string_field ''callId'' (en_payload e) of Some c \<Rightarrow> if c \<noteq> [] then Some c else None | None \<Rightarrow> None)"

definition compact_push :: "string \<Rightarrow> string" where
  "compact_push line = headTailSlice line MAX_COMPACT_ENTRY_CHARS COMPACT_ENTRY_TAIL_CHARS"

definition payload_text :: "session_entry \<Rightarrow> string" where
  "payload_text e = trim (case field ''text'' (en_payload e) of None \<Rightarrow> [] | Some JNull \<Rightarrow> [] | Some v \<Rightarrow> js_string v)"

definition overheard_files :: "session_entry \<Rightarrow> string list" where
  "overheard_files e =
     (case field ''files'' (en_payload e) of
        Some (JArr xs) \<Rightarrow> if isOverheardEntry e then filter (\<lambda>s. s \<noteq> []) (map js_string xs) else []
      | _ \<Rightarrow> [])"

definition entry_author :: "session_entry \<Rightarrow> string option" where
  "entry_author e =
     (if en_type e = EUser \<and> truthy (string_field ''name'' (en_payload e)) then string_field ''name'' (en_payload e) else None)"

definition entry_label :: "compaction_env \<Rightarrow> session_entry \<Rightarrow> string" where
  "entry_label E e =
     (let stamp = entryStamp E (en_createdAt e)
      in if isOverheardEntry e
         then ''overheard#'' @ show_nat (en_seq e) @ stamp @ '' ('' @ or_else (entry_author e) ''someone'' @ '')''
         else entry_type_name (en_type e) @ ''#'' @ show_nat (en_seq e) @ stamp @
              (case entry_author e of None \<Rightarrow> [] | Some a \<Rightarrow> '' ('' @ a @ '')''))"

definition body_lines :: "compaction_env \<Rightarrow> session_entry \<Rightarrow> string list" where
  "body_lines E e =
     (let t = payload_text e; fs = overheard_files e; files = ''(files: '' @ join '', '' fs @ '')''
      in if t \<noteq> [] then [compact_push (entry_label E e @ '': '' @ t @ (if fs \<noteq> [] then '' '' @ files else []))]
         else if isOverheardEntry e then (if fs \<noteq> [] then [compact_push (entry_label E e @ '': (shared file) '' @ files)] else [])
         else [compact_push (entry_label E e @ '':'' @ (if field ''isError'' (en_payload e) = Some (JBool True) then '' [isError]'' else []) @ '' '' @
                cv_stringify E (if en_payload e = JNull then JObj [] else en_payload e))])"

definition entry_lines :: "compaction_env \<Rightarrow> string list \<Rightarrow> session_entry \<Rightarrow> string list" where
  "entry_lines E resultIds e =
     (let stamp = entryStamp E (en_createdAt e)
      in case contextSummaryPayload e of
           Some c \<Rightarrow>
             [compact_push (''Prior summary through seq '' @ show_int (cs_throughSeq c) @ (if stamp \<noteq> [] then '' (written'' @ stamp @ '')'' else []) @ '': '' @ cs_text c)]
         | None \<Rightarrow>
             body_lines E e @
             (case (if en_type e = EToolCall then call_id e else None) of
                None \<Rightarrow> []
              | Some c \<Rightarrow>
                  if c \<in> set resultIds then []
                  else [''tool_result for tool_call#'' @ show_nat (en_seq e) @ '' (none recorded): '' @ INTERRUPTED_TOOL_RESULT]))"

definition compactTranscript :: "compaction_env \<Rightarrow> session_entry list \<Rightarrow> string" where
  "compactTranscript E history =
     (let resultIds = List.map_filter (\<lambda>e. if en_type e = EToolResult then call_id e else None) history
      in join [CHR 0x0A] (concat (map (entry_lines E resultIds) history)))"

section \<open>The plan\<close>

definition COMPACT_SOFT_FRACTION :: "nat \<times> nat" where "COMPACT_SOFT_FRACTION = (7, 10)"
definition COMPACT_HARD_FRACTION :: "nat \<times> nat" where "COMPACT_HARD_FRACTION = (9, 10)"

definition overBudgetFraction :: "compaction_env \<Rightarrow> session_entry list \<Rightarrow> nat \<Rightarrow> nat \<times> nat \<Rightarrow> bool" where
  "overBudgetFraction E history maxTokens fraction = (maxTokens * fst fraction < estimateHistoryTokens E history * snd fraction)"

record compaction_plan =
  cp_toSummarize :: "session_entry list"
  cp_kept :: "session_entry list"
  cp_reuse :: "session_entry option"

text \<open>A call of a tool whose result is not summarized with it is not summarized either.\<close>

fun hold_back :: "session_entry list \<Rightarrow> nat \<Rightarrow> nat" where
  "hold_back es 0 = 0"
| "hold_back es (Suc n) =
     (if en_type (es ! n) \<noteq> EToolCall then Suc n
      else
        (case call_id (es ! n) of
           None \<Rightarrow> Suc n
         | Some c \<Rightarrow>
             if list_ex (\<lambda>e. en_type e = EToolResult \<and> string_field ''callId'' (en_payload e) = Some c) (take (Suc n) es) then Suc n
             else hold_back es n))"

definition after_summary :: "session_entry list \<Rightarrow> session_entry list" where
  "after_summary history =
     filter (\<lambda>e. \<not> is_summary e \<and> (case find_last is_summary history of None \<Rightarrow> True | Some l \<Rightarrow> int (en_seq e) > throughSeq_of l)) history"

definition planCompaction :: "compaction_env \<Rightarrow> session_entry list \<Rightarrow> nat \<Rightarrow> nat \<times> nat \<Rightarrow> nat \<Rightarrow> compaction_plan option" where
  "planCompaction E history maxTokens keepRecentTokenFraction reuseBudgetTokens =
     (let latestSummary = find_last is_summary history; lead = (case latestSummary of None \<Rightarrow> [] | Some l \<Rightarrow> [l]);
          afterSummary = after_summary history;
          keepRecentTokens = (maxTokens * fst keepRecentTokenFraction) div snd keepRecentTokenFraction
      in if latestSummary \<noteq> None \<and> estimateHistoryTokens E (lead @ afterSummary) \<le> reuseBudgetTokens
         then Some \<lparr>cp_toSummarize = [], cp_kept = lead @ afterSummary, cp_reuse = latestSummary\<rparr>
         else
           (let keptCount = recentEntryCountWithinBudget E afterSummary (int keepRecentTokens);
                overflowCount = hold_back afterSummary (length afterSummary - keptCount);
                overflow = take overflowCount afterSummary
            in if overflow = [] then None
               else Some \<lparr>cp_toSummarize = lead @ overflow, cp_kept = drop overflowCount afterSummary, cp_reuse = None\<rparr>))"

definition compactionThroughSeq :: "session_entry list \<Rightarrow> int" where
  "compactionThroughSeq entries = foldl (\<lambda>m e. max m (if is_summary e then throughSeq_of e else int (en_seq e))) (-1) entries"

definition MAX_COMPACT_SUMMARY_CHARS :: nat where
  "MAX_COMPACT_SUMMARY_CHARS = MAX_COMPACT_ENTRY_CHARS - CHAINED_SUMMARY_PREFIX_HEADROOM"

definition deterministicCompactSummary :: "compaction_env \<Rightarrow> session_entry list \<Rightarrow> string" where
  "deterministicCompactSummary E history =
     ''Compacted '' @ show_nat (length history) @ '' prior entr'' @ (if length history = 1 then ''y'' else ''ies'') @ '' through seq '' @
     show_int (compactionThroughSeq history) @ ''.'' @ [CHR 0x0A] @
     headTailSlice (compactTranscript E history) FALLBACK_SUMMARY_BODY_CHARS FALLBACK_SUMMARY_TAIL_CHARS"

definition boundCompactSummary :: "compaction_env \<Rightarrow> string option \<Rightarrow> session_entry list \<Rightarrow> string" where
  "boundCompactSummary E candidate history =
     (let t = trim (or_else candidate [])
      in if t = [] \<or> MAX_COMPACT_SUMMARY_CHARS < length t then deterministicCompactSummary E history else t)"

text \<open>What compaction promises: who may see a summary, and that nothing but what it sums up is lost.\<close>

section \<open>The label\<close>

lemma set_distinct_labels [simp]: "set (distinct_labels es) = en_scopeLabel ` set es"
  by (simp add: distinct_labels_def)

lemma only_label_filter: "only_label (filter P xs) = Some l \<Longrightarrow> l \<in> set xs \<and> P l \<and> (\<forall>x \<in> set xs. P x \<longrightarrow> x = l)"
proof -
  assume "only_label (filter P xs) = Some l"
  then have "filter P xs = [l]" by (auto simp: only_label_def split: list.splits)
  then have "{x \<in> set xs. P x} = {l}" by (metis set_filter list.set(1,2))
  then show ?thesis by blast
qed

lemma label_cases:
  assumes "compactedScopeLabel es ss org = Some l"
  obtains (kind) k where "k \<in> {Personal, Team}" "fst (parseScopeId l) = Some k"
      "\<And>x. x \<in> en_scopeLabel ` set es \<Longrightarrow> fst (parseScopeId x) = Some k \<Longrightarrow> x = l"
      "\<And>x. x \<in> en_scopeLabel ` set es \<Longrightarrow> k = Team \<Longrightarrow> fst (parseScopeId x) \<noteq> Some Personal"
  | (floor) "en_scopeLabel ` set es \<subseteq> {l, ss, org}"
proof -
  let ?L = "distinct_labels es"
  let ?of = "\<lambda>k. filter (\<lambda>l. fst (parseScopeId l) = Some k) ?L"
  consider (p) "only_label (?of Personal) = Some l" | (t) "?of Personal = []" "only_label (?of Team) = Some l"
    | (n) "only_label (filter (\<lambda>l. l \<noteq> org \<and> l \<noteq> ss) ?L) = Some l" | (z) "filter (\<lambda>l. l \<noteq> org \<and> l \<noteq> ss) ?L = []"
    using assms unfolding compactedScopeLabel_def Let_def by (auto split: if_splits)
  then show thesis
  proof cases
    case p
    from only_label_filter [OF p] show thesis by (intro kind [of Personal]) auto
  next
    case t
    from only_label_filter [OF t(2)] t(1) show thesis by (intro kind [of Team]) (auto simp: filter_empty_conv)
  next
    case n
    from only_label_filter [OF n] show thesis by (intro floor) auto
  next
    case z
    then show thesis by (intro floor) (auto simp: filter_empty_conv)
  qed
qed

definition somebody :: "string \<Rightarrow> string list \<Rightarrow> principal" where
  "somebody i ts = \<lparr>p_id = i, p_type = Internal, p_teamIds = Some ts, p_displayName = None\<rparr>"

text \<open>A label other than the floor's that is of another kind, or has another reference, excludes somebody the first admits.\<close>

lemma label_excludes:
  assumes "x \<notin> {l, ss, org}" and "l \<in> {ss, org} \<or> fst (parseScopeId l) = Some k \<and> k \<in> {Personal, Team} \<and> fst (parseScopeId x) \<noteq> Some k \<and>
      (k = Team \<longrightarrow> fst (parseScopeId x) \<noteq> Some Personal)"
  shows "\<exists>p. principalEntitledToScope p l ss org \<and> \<not> principalEntitledToScope p x ss org"
proof -
  obtain kx rx where x: "parseScopeId x = (kx, rx)" by fastforce
  obtain kl rl where l: "parseScopeId l = (kl, rl)" by fastforce
  consider (floor) "l \<in> {ss, org}" | (personal) "l \<notin> {ss, org}" "kl = Some Personal" "kx \<noteq> Some Personal"
    | (team) "l \<notin> {ss, org}" "kl = Some Team" "kx \<noteq> Some Team" "kx \<noteq> Some Personal"
    using assms(2) x l by auto
  then show ?thesis
  proof cases
    case floor
    then show ?thesis using assms(1) x
      by (intro exI [of _ "somebody (CHR ''x'' # rx) []"]) (auto simp: principalEntitledToScope_def somebody_def)
  next
    case personal
    then show ?thesis using assms(1) x l by (intro exI [of _ "somebody rl []"]) (auto simp: principalEntitledToScope_def somebody_def)
  next
    case team
    then show ?thesis using assms(1) x l by (intro exI [of _ "somebody [] [rl]"]) (auto simp: principalEntitledToScope_def somebody_def)
  qed
qed


definition ex_labelled :: "scope_id \<Rightarrow> session_entry" where
  "ex_labelled label =
     \<lparr>en_sessionId = ''s1'', en_seq = 0, en_parentSeq = None, en_type = EUser, en_payload = JNull, en_scopeLabel = label, en_createdAt = 0\<rparr>"


section \<open>The plan\<close>

definition summed_seq :: "session_entry \<Rightarrow> int" where
  "summed_seq e = (if is_summary e then throughSeq_of e else int (en_seq e))"

lemma through_fold: "foldl (\<lambda>m e. max m (summed_seq e)) a es = Max (insert a (summed_seq ` set es))"
proof (induction es arbitrary: a)
  case (Cons e es)
  have "Max (insert (max a (summed_seq e)) (summed_seq ` set es)) = Max (insert a (summed_seq ` set (e # es)))"
    by (cases "set es = {}") (auto simp: max.assoc max.left_commute)
  then show ?case using Cons by simp
qed simp

lemma compactionThroughSeq_Max: "compactionThroughSeq es = Max (insert (-1) (summed_seq ` set es))"
  unfolding through_fold [symmetric] compactionThroughSeq_def summed_seq_def ..

lemma find_last_SomeD: "find_last P xs = Some x \<Longrightarrow> x \<in> set xs \<and> P x"
proof -
  assume "find_last P xs = Some x"
  then obtain i where "i < length (rev xs)" "P (rev xs ! i)" "x = rev xs ! i" by (auto simp: find_last_def find_Some_iff)
  then have "x \<in> set (rev xs)" "P x" using nth_mem [of i "rev xs"] by simp_all
  then show ?thesis by simp
qed

definition by_seq :: "session_entry list \<Rightarrow> bool" where
  "by_seq es = sorted_wrt (\<lambda>a b. en_seq a < en_seq b) es"

lemma by_seq_filter: "by_seq es \<Longrightarrow> by_seq (filter P es)"
  by (simp add: by_seq_def sorted_wrt_filter)

lemma by_seq_append: "by_seq (a @ b) \<longleftrightarrow> by_seq a \<and> by_seq b \<and> (\<forall>x \<in> set a. \<forall>y \<in> set b. en_seq x < en_seq y)"
  by (simp add: by_seq_def sorted_wrt_append)

lemma filter_later:
  assumes "\<And>x. x \<in> set a \<Longrightarrow> \<not> P x" and "\<And>x. x \<in> set b \<Longrightarrow> P x"
  shows "filter P (a @ b) = b"
  using assms by (simp add: filter_id_conv)

lemma recent_count_mono: "cnt \<le> recent_count E m cnt t es"
  by (induction E m cnt t es rule: recent_count.induct) (auto simp: Let_def)

lemma recent_count_pos: "es \<noteq> [] \<Longrightarrow> 1 \<le> recentEntryCountWithinBudget E es m"
proof -
  assume "es \<noteq> []"
  then obtain x xs where "rev es = x # xs" by (cases "rev es") auto
  then show ?thesis using recent_count_mono [of 1 E m "entry_tokens E x" xs] by (simp add: recentEntryCountWithinBudget_def Let_def)
qed

lemma hold_back_le: "hold_back es n \<le> n"
  by (induction es n rule: hold_back.induct) (auto split: option.splits simp: le_Suc_eq)

lemma hold_back_pairs:
  assumes "hold_back es n = Suc k" and "en_type (es ! k) = EToolCall" "call_id (es ! k) = Some c"
  shows "\<exists>e \<in> set (take (Suc k) es). en_type e = EToolResult \<and> string_field ''callId'' (en_payload e) = Some c"
  using assms by (induction es n rule: hold_back.induct) (auto simp: list_ex_iff split: if_splits option.splits)

text \<open>What a plan that summarizes something is made of.\<close>

lemma planD:
  assumes "planCompaction E h m f r = Some plan" and "cp_toSummarize plan \<noteq> []"
  obtains n where "0 < n" "n < length (after_summary h)" "cp_kept plan = drop n (after_summary h)"
    "cp_toSummarize plan = (case find_last is_summary h of None \<Rightarrow> [] | Some l \<Rightarrow> [l]) @ take n (after_summary h)"
    "\<And>c. en_type (after_summary h ! (n - 1)) = EToolCall \<Longrightarrow> call_id (after_summary h ! (n - 1)) = Some c \<Longrightarrow>
       \<exists>e \<in> set (take n (after_summary h)). en_type e = EToolResult \<and> string_field ''callId'' (en_payload e) = Some c"
proof -
  let ?as = "after_summary h"
  let ?k = "recentEntryCountWithinBudget E ?as (int ((m * fst f) div snd f))"
  let ?n = "hold_back ?as (length ?as - ?k)"
  from assms have p: "take ?n ?as \<noteq> []" "cp_kept plan = drop ?n ?as"
    "cp_toSummarize plan = (case find_last is_summary h of None \<Rightarrow> [] | Some l \<Rightarrow> [l]) @ take ?n ?as"
    by (auto simp: planCompaction_def Let_def split: if_splits)
  then have "?as \<noteq> []" "0 < ?n" by auto
  have "?k \<noteq> 0" using recent_count_pos [OF \<open>?as \<noteq> []\<close>, of E "int ((m * fst f) div snd f)"] by simp
  then have "length ?as - ?k < length ?as" using \<open>?as \<noteq> []\<close> by simp
  then have "?n < length ?as" using hold_back_le [of ?as "length ?as - ?k"] by linarith
  moreover have "\<exists>e \<in> set (take ?n ?as). en_type e = EToolResult \<and> string_field ''callId'' (en_payload e) = Some c"
    if "en_type (?as ! (?n - 1)) = EToolCall" "call_id (?as ! (?n - 1)) = Some c" for c
    using hold_back_pairs [of ?as "length ?as - ?k" "?n - 1" c] that \<open>0 < ?n\<close> by simp
  ultimately show thesis using \<open>0 < ?n\<close> p by (intro that) auto
qed

lemma after_summaryD: "e \<in> set (after_summary h) \<Longrightarrow> e \<in> set h \<and> \<not> is_summary e"
  by (simp add: after_summary_def)

lemma after_summary_latest: "e \<in> set (after_summary h) \<Longrightarrow> find_last is_summary h = Some l \<Longrightarrow> throughSeq_of l < int (en_seq e)"
  by (simp add: after_summary_def)

lemma plan_through:
  assumes "planCompaction E h m f r = Some plan" and "cp_toSummarize plan \<noteq> []" and "by_seq (filter (\<lambda>e. \<not> is_summary e) h)"
  shows "(\<exists>e \<in> set (after_summary h). compactionThroughSeq (cp_toSummarize plan) = int (en_seq e)) \<and>
    cp_kept plan = filter (\<lambda>e. \<not> is_summary e \<and> int (en_seq e) > compactionThroughSeq (cp_toSummarize plan)) h"
proof -
  let ?as = "after_summary h"
  let ?T = "compactionThroughSeq (cp_toSummarize plan)"
  obtain n where n: "0 < n" "n < length ?as" "cp_kept plan = drop n ?as"
    "cp_toSummarize plan = (case find_last is_summary h of None \<Rightarrow> [] | Some l \<Rightarrow> [l]) @ take n ?as"
    using planD [OF assms(1,2)] by metis
  have sorted: "by_seq ?as"
    using by_seq_filter [OF assms(3), of "\<lambda>e. case find_last is_summary h of None \<Rightarrow> True | Some l \<Rightarrow> int (en_seq e) > throughSeq_of l"]
    unfolding after_summary_def filter_filter by (simp only: conj_commute)
  define t where "t = ?as ! (n - 1)"
  have t: "t \<in> set (take n ?as)" using n(1,2) unfolding t_def by (auto simp: in_set_conv_nth intro!: exI [of _ "n - 1"])
  have tas: "t \<in> set ?as" using t by (rule in_set_takeD)
  have upto: "en_seq e \<le> en_seq t" if e: "e \<in> set (take n ?as)" for e
  proof -
    obtain j where "j < length (take n ?as)" "take n ?as ! j = e" using e unfolding in_set_conv_nth by blast
    then have j: "j < n" "e = ?as ! j" by auto
    show ?thesis
    proof (cases "j = n - 1")
      case False
      then have "j < n - 1" "n - 1 < length ?as" using j(1) n(1,2) by auto
      then show ?thesis using sorted j(2) sorted_wrt_nth_less [of "\<lambda>a b. en_seq a < en_seq b" ?as j "n - 1"]
        unfolding by_seq_def t_def by simp
    qed (simp add: j(2) t_def)
  qed
  have summed: "summed_seq e \<le> int (en_seq t)" if e: "e \<in> set (cp_toSummarize plan)" for e
  proof -
    consider "e \<in> set (take n ?as)" | "find_last is_summary h = Some e" using e n(4) by (auto split: option.splits)
    then show ?thesis
    proof cases
      case 1
      then have "\<not> is_summary e" using after_summaryD in_set_takeD by fast
      then show ?thesis using upto [OF 1] by (simp add: summed_seq_def)
    next
      case 2
      then show ?thesis using find_last_SomeD [OF 2] after_summary_latest [OF tas 2] by (simp add: summed_seq_def)
    qed
  qed
  have "summed_seq t = int (en_seq t)" using after_summaryD [OF tas] by (simp add: summed_seq_def)
  moreover have "t \<in> set (cp_toSummarize plan)" using t n(4) by simp
  ultimately have mem: "int (en_seq t) \<in> insert (-1) (summed_seq ` set (cp_toSummarize plan))" by (metis image_eqI insertI2)
  have T: "?T = int (en_seq t)"
    unfolding compactionThroughSeq_Max using mem summed by (intro Max_eqI) auto
  have later: "en_seq t < en_seq e" if "e \<in> set (drop n ?as)" for e
    using sorted that t by_seq_append [of "take n ?as" "drop n ?as"] by simp
  have "filter (\<lambda>e. int (en_seq e) > ?T) (take n ?as @ drop n ?as) = drop n ?as"
    using upto later by (intro filter_later) (auto simp: T not_less)
  moreover have "filter (\<lambda>e. int (en_seq e) > ?T) ?as = filter (\<lambda>e. \<not> is_summary e \<and> int (en_seq e) > ?T) h"
    unfolding after_summary_def filter_filter
    by (intro filter_cong refl) (auto simp: T split: option.splits dest!: after_summary_latest [OF tas])
  ultimately show ?thesis using T tas n(3) by auto
qed

section \<open>The cache of estimates\<close>

text \<open>Entries do not change, so entries with the same key have the same text; then the cache does not show.\<close>

definition cache_ok :: "compaction_env \<Rightarrow> session_entry set \<Rightarrow> token_cache \<Rightarrow> bool" where
  "cache_ok E H cache \<longleftrightarrow> map_ok cache \<and> (\<forall>e \<in> H. \<forall>n. map_get cache (cache_key E e) = Some n \<longrightarrow> n = entry_tokens E e)"

lemma map_get_tl: "map_ok m \<Longrightarrow> map_get (tl m) k = Some v \<Longrightarrow> map_get m k = Some v"
  by (cases m) (force simp: map_ok_def dest: map_of_SomeD)+

lemma map_ok_tl: "map_ok m \<Longrightarrow> map_ok (tl m)"
  by (cases m) (auto simp: map_ok_def)

lemma cache_transparent:
  assumes "cache_ok E H cache" and "e \<in> H" and "\<And>e'. e' \<in> H \<Longrightarrow> cache_key E e' = cache_key E e \<Longrightarrow> entry_text E e' = entry_text E e"
    and "estimateEntryTokens E e cache = (cache', n)"
  shows "n = entry_tokens E e \<and> cache_ok E H cache'"
proof (cases "map_get cache (cache_key E e)")
  case (Some hit)
  then show ?thesis using assms by (auto simp: estimateEntryTokens_def cache_ok_def)
next
  case None
  let ?c = "if ENTRY_TOKEN_CACHE_MAX \<le> length cache then tl cache else cache"
  have c: "cache' = map_set (cache_key E e) (entry_tokens E e) ?c" "n = entry_tokens E e"
    using assms(4) None by (auto simp: estimateEntryTokens_def entry_tokens_def Let_def)
  have "map_get cache k = Some v" if "map_get ?c k = Some v" for k v
    using that assms(1) map_get_tl by (auto simp: cache_ok_def split: if_splits)
  moreover have "map_ok ?c" using assms(1) map_ok_tl by (auto simp: cache_ok_def)
  moreover have "entry_tokens E e' = entry_tokens E e" if "e' \<in> H" "cache_key E e' = cache_key E e" for e'
    using assms(3) [OF that] by (simp add: entry_tokens_def)
  moreover have "m = entry_tokens E e'" if "e' \<in> H" "map_get cache' (cache_key E e') = Some m" for e' m
    using that calculation assms(1) unfolding c(1) cache_ok_def map_get_set by (metis option.inject)
  ultimately show ?thesis using c unfolding cache_ok_def by (metis map_ok_set)
qed

end
