(* ===== verification/Compaction_Run.thy ===== *)
theory Compaction_Run
  imports Compaction
begin

text \<open>
  Compacting a session (\<open>src/core/orchestrator/compaction.ts\<close>): what is summarized, how the summary is
  written to the log and to the tape, in a turn that holds the lease and in the background. The model
  that writes summaries is an argument; calls recorded for accounting and the errors reported are not
  modelled, nor is the queue that runs one background compaction of a session at a time. Each call of the
  store has its own clock reading.
\<close>

section \<open>Definitions\<close>

definition MAX_CONTEXT_TOKENS :: nat where "MAX_CONTEXT_TOKENS = 120000"
definition KEEP_RECENT_TOKEN_FRACTION :: "nat \<times> nat" where "KEEP_RECENT_TOKEN_FRACTION = (6, 10)"

record summarized =
  sm_text :: string
  sm_summaryLabel :: scope_id
  sm_throughSeq :: int
  sm_securityTainted :: bool

record compaction_deps =
  cd_env :: compaction_env
  cd_maxContextTokens :: "nat option"
  cd_contextTokenBudget :: "scope_id \<Rightarrow> string option \<Rightarrow> nat option"
  cd_recognizes :: "string \<Rightarrow> bool"
  cd_compactHistory :: "(session_entry list \<Rightarrow> string) option"

record compaction_input =
  ci_sessionId :: string
  ci_scopeId :: scope_id
  ci_orgScopeId :: scope_id
  ci_model :: "string option"

definition tokenBudgetFor :: "compaction_deps \<Rightarrow> scope_id \<Rightarrow> string option \<Rightarrow> nat" where
  "tokenBudgetFor D scope model =
     or_else (or_opt (cd_maxContextTokens D) (cd_contextTokenBudget D scope model)) MAX_CONTEXT_TOKENS"

definition boundRecent :: "compaction_env \<Rightarrow> session_entry list \<Rightarrow> nat \<Rightarrow> session_entry list" where
  "boundRecent E entries maxContextTokens =
     (case List.find is_summary entries of
        Some s \<Rightarrow>
          (let rest = filter (\<lambda>e. e \<noteq> s) entries
           in s # drop (length rest - recentEntryCountWithinBudget E rest (int maxContextTokens - int (entry_tokens E s))) rest)
      | None \<Rightarrow> drop (length entries - recentEntryCountWithinBudget E entries (int maxContextTokens)) entries)"

definition isManagedGroupScope :: "compaction_deps \<Rightarrow> scope_id \<Rightarrow> bool" where
  "isManagedGroupScope D scope = (fst (parseScopeId scope) = Some Group \<and> cd_recognizes D (snd (parseScopeId scope)))"

definition compaction_plan_of :: "compaction_deps \<Rightarrow> compaction_input \<Rightarrow> session_entry list \<Rightarrow> compaction_plan option" where
  "compaction_plan_of D inp history =
     (let maxTokens = tokenBudgetFor D (ci_scopeId inp) (ci_model inp)
      in planCompaction (cd_env D) history maxTokens KEEP_RECENT_TOKEN_FRACTION
           ((maxTokens * fst KEEP_RECENT_TOKEN_FRACTION) div snd KEEP_RECENT_TOKEN_FRACTION))"

definition summarizeForCompaction :: "compaction_deps \<Rightarrow> compaction_input \<Rightarrow> session_entry list \<Rightarrow> summarized option" where
  "summarizeForCompaction D inp visibleHistory =
     (if isManagedGroupScope D (ci_scopeId inp) then None
      else
        (case cd_compactHistory D of
           None \<Rightarrow> None
         | Some compactHistory \<Rightarrow>
             (case compaction_plan_of D inp visibleHistory of
                None \<Rightarrow> None
              | Some plan \<Rightarrow>
                  if cp_toSummarize plan = [] then None
                  else
                    (case compactedScopeLabel (cp_toSummarize plan) (ci_scopeId inp) (ci_orgScopeId inp) of
                       None \<Rightarrow> None
                     | Some label \<Rightarrow>
                         if label = [] then None
                         else Some \<lparr>sm_text = boundCompactSummary (cd_env D) (Some (compactHistory (cp_toSummarize plan))) (cp_toSummarize plan),
                                    sm_summaryLabel = label, sm_throughSeq = compactionThroughSeq (cp_toSummarize plan),
                                    sm_securityTainted = list_ex entrySecurityTainted (cp_toSummarize plan)\<rparr>))))"

definition summary_entry :: "summarized \<Rightarrow> new_entry" where
  "summary_entry s =
     \<lparr>ne_type = ESystem,
      ne_payload = (case createContextSummaryPayload (sm_throughSeq s) (sm_text s) of
         JObj fs \<Rightarrow> JObj (fs @ (if sm_securityTainted s then [(''securityTainted'', JBool True)] else [])) | j \<Rightarrow> j),
      ne_scopeLabel = sm_summaryLabel s\<rparr>"

definition compaction_event :: "summarized \<Rightarrow> session_entry \<Rightarrow> new_tape_record" where
  "compaction_event s summary =
     \<lparr>nt_kind = TkContextEvent, nt_payload = JObj [(''event'', JStr ''compaction''), (''text'', JStr (sm_text s))],
      nt_scopeLabel = sm_summaryLabel s, nt_harness = None,
      nt_meta = Some (JObj ((''entryCreatedAt'', JNum (en_createdAt summary)) # (if sm_securityTainted s then [(''securityTainted'', JBool True)] else []))),
      nt_entrySeq = Some (int (en_seq summary)), nt_coversEntrySeq = Some (sm_throughSeq s)\<rparr>"

definition summary_turn_end :: "summarized \<Rightarrow> session_entry \<Rightarrow> new_tape_record" where
  "summary_turn_end s summary =
     \<lparr>nt_kind = TkAnnotation, nt_payload = tapeCheckpointPayload ''turnEnd'' None None, nt_scopeLabel = sm_summaryLabel s, nt_harness = None,
      nt_meta = None, nt_entrySeq = Some (int (en_seq summary)), nt_coversEntrySeq = None\<rparr>"

definition writeCompaction ::
  "time \<Rightarrow> time \<Rightarrow> time \<Rightarrow> session_lease \<Rightarrow> summarized \<Rightarrow> session_store \<Rightarrow> session_store \<times> (write_error + session_entry)" where
  "writeCompaction t1 t2 t3 l s st =
     (case append_entry t1 l (summary_entry s) st of
        (st1, Inl e) \<Rightarrow> (st1, Inl e)
      | (st1, Inr summary) \<Rightarrow>
          (case appendTape t2 l (compaction_event s summary) st1 of
             (st2, Inl e) \<Rightarrow> (st2, Inl e)
           | (st2, Inr _) \<Rightarrow>
               if tapeCoverage st2 (le_sessionId l) = int (en_seq summary) - 1
               then (case appendTape t3 l (summary_turn_end s summary) st2 of (st3, Inl e) \<Rightarrow> (st3, Inl e) | (st3, Inr _) \<Rightarrow> (st3, Inr summary))
               else (st2, Inr summary)))"

text \<open>In a turn: the history the turn goes on with. \<open>None\<close> when nothing could be summarized.\<close>

definition applyCompaction ::
  "compaction_deps \<Rightarrow> time \<Rightarrow> time \<Rightarrow> time \<Rightarrow> session_lease \<Rightarrow> compaction_input \<Rightarrow> session_entry list \<Rightarrow> session_store \<Rightarrow>
     session_store \<times> (write_error + session_entry list option)" where
  "applyCompaction D t1 t2 t3 l inp visibleHistory st =
     (case summarizeForCompaction D inp visibleHistory of
        None \<Rightarrow> (st, Inr None)
      | Some s \<Rightarrow>
          (case writeCompaction t1 t2 t3 l s st of
             (st1, Inl e) \<Rightarrow> (st1, Inl e)
           | (st1, Inr summary) \<Rightarrow>
               (let recent = filter (\<lambda>e. int (en_seq e) > sm_throughSeq s \<and> \<not> is_summary e) visibleHistory
                in (st1, Inr (Some (boundRecent (cd_env D) (summary # recent) (tokenBudgetFor D (ci_scopeId inp) (ci_model inp))))))))"

definition compactContextIfNeeded ::
  "compaction_deps \<Rightarrow> time \<Rightarrow> time \<Rightarrow> time \<Rightarrow> session_lease \<Rightarrow> compaction_input \<Rightarrow> session_entry list \<Rightarrow> session_store \<Rightarrow>
     session_store \<times> (write_error + session_entry list)" where
  "compactContextIfNeeded D t1 t2 t3 l inp visibleHistory st =
     (let maxTokens = tokenBudgetFor D (ci_scopeId inp) (ci_model inp)
      in if \<not> overBudgetFraction (cd_env D) visibleHistory maxTokens COMPACT_HARD_FRACTION then (st, Inr visibleHistory)
         else
           (case applyCompaction D t1 t2 t3 l inp visibleHistory st of
              (st1, Inl e) \<Rightarrow> (st1, Inl e)
            | (st1, Inr None) \<Rightarrow> (st1, Inr (boundRecent (cd_env D) visibleHistory maxTokens))
            | (st1, Inr (Some rebuilt)) \<Rightarrow> (st1, Inr rebuilt)))"

text \<open>
  In the background: first the summary, from the log at that time; then, when the lease was had in time,
  the writing, to the log as it is by then. The lease is given back in any case.
\<close>

definition background_summary :: "compaction_deps \<Rightarrow> compaction_input \<Rightarrow> bool \<Rightarrow> session_store \<Rightarrow> (summarized \<times> int) option" where
  "background_summary D inp includeSecurityTainted st =
     (if map_get (ss_sessions st) (ci_sessionId inp) = None then None
      else
        (let entries = cw_entries (getContextWindow st (ci_sessionId inp));
             history = forModelContext entries includeSecurityTainted;
             snapshotSeq = (if entries = [] then -1 else int (en_seq (last entries)))
         in if \<not> overBudgetFraction (cd_env D) history (tokenBudgetFor D (ci_scopeId inp) (ci_model inp)) COMPACT_SOFT_FRACTION then None
            else map_option (\<lambda>s. (s, snapshotSeq)) (summarizeForCompaction D inp history)))"

definition background_write ::
  "time \<Rightarrow> time \<Rightarrow> time \<Rightarrow> session_lease option \<Rightarrow> compaction_input \<Rightarrow> summarized \<times> int \<Rightarrow> session_store \<Rightarrow> session_store" where
  "background_write t1 t2 t3 lease inp job st =
     (case lease of
        None \<Rightarrow> st
      | Some l \<Rightarrow>
          releaseLease_session l
            (if list_ex is_summary (getEntries st (ci_sessionId inp) (Some (nat (snd job + 1))) None) then st
             else fst (writeCompaction t1 t2 t3 l (fst job) st)))"

section \<open>What is kept\<close>

lemma log_by_seq: "log_ok i log \<Longrightarrow> by_seq log"
  by (auto simp: log_ok_def by_seq_def sorted_wrt_iff_nth_less)

lemma log_seq_less: "log_ok i log \<Longrightarrow> e \<in> set log \<Longrightarrow> en_seq e < length log"
  by (auto simp: log_ok_def in_set_conv_nth)

definition shown :: "bool \<Rightarrow> session_entry \<Rightarrow> bool" where
  "shown incl e =
     ((en_type e \<noteq> EThinking \<and> en_type e \<noteq> EText \<and> en_type e \<noteq> ESoul \<and> field ''kind'' (en_payload e) \<noteq> Some (JStr ''turn_failure'')) \<and>
      (incl \<or> \<not> entrySecurityTainted e))"

lemma forModelContext_alt:
  "forModelContext es incl =
     (case find_last is_summary (modelReplayable es) of
        None \<Rightarrow> filter (shown incl) es
      | Some latest \<Rightarrow>
          (if latest \<in> set (filter (shown incl) es) then [latest] else []) @
          filter (\<lambda>e. \<not> is_summary e \<and> int (en_seq e) > throughSeq_of latest) (filter (shown incl) es))"
proof -
  have "filter (\<lambda>e. incl \<or> \<not> entrySecurityTainted e) (modelReplayable es) = filter (shown incl) es"
    unfolding modelReplayable_def filter_filter shown_def ..
  then show ?thesis unfolding forModelContext_def Let_def by (simp only:)
qed

lemma context_by_seq: "by_seq es \<Longrightarrow> by_seq (filter (\<lambda>e. \<not> is_summary e) (forModelContext es incl))"
  by (auto simp: forModelContext_alt by_seq_def sorted_wrt_filter dest: find_last_SomeD split: option.splits)

lemma context_shown: "e \<in> set (forModelContext es incl) \<Longrightarrow> e \<in> set es \<and> shown incl e"
  by (auto simp: forModelContext_alt split: option.splits if_splits)

text \<open>Entries after something the model was given are given to it as well.\<close>

lemma context_later:
  assumes "e \<in> set (forModelContext es incl)" "\<not> is_summary e" "int (en_seq e) \<le> T"
  shows "filter (\<lambda>e. \<not> is_summary e \<and> int (en_seq e) > T) (forModelContext es incl) =
    filter (\<lambda>e. \<not> is_summary e \<and> int (en_seq e) > T) (filter (shown incl) es)"
proof (cases "find_last is_summary (modelReplayable es)")
  case None
  then show ?thesis by (simp add: forModelContext_alt)
next
  case (Some l)
  have l: "is_summary l" using find_last_SomeD [OF Some] by simp
  then have "throughSeq_of l < int (en_seq e)" using assms(1,2) Some by (auto simp: forModelContext_alt split: if_splits)
  then have "throughSeq_of l < T" using assms(3) by simp
  then show ?thesis using Some l by (auto simp: forModelContext_alt filter_filter intro!: filter_cong)
qed

lemma window_later:
  assumes "e \<in> set (cw_entries (contextWindowFromEntries log))" "int (en_seq e) \<le> T"
  shows "filter (\<lambda>e. Q e \<and> int (en_seq e) > T) (cw_entries (contextWindowFromEntries log)) = filter (\<lambda>e. Q e \<and> int (en_seq e) > T) log"
  using assms by (auto simp: contextWindowFromEntries_def filter_filter split: option.splits intro!: filter_cong)

lemma summary_payload:
  assumes "en_payload e = ne_payload (summary_entry s)" "en_type e = ESystem"
  shows "contextSummaryPayload e = Some \<lparr>cs_throughSeq = sm_throughSeq s, cs_text = sm_text s\<rparr>"
    and "entrySecurityTainted e = sm_securityTainted s"
  using assms by (auto simp: summary_entry_def createContextSummaryPayload_def contextSummaryPayload_def field_def string_field_def entrySecurityTainted_def)

lemma write_log:
  assumes "writeCompaction t1 t2 t3 l s st = (st', Inr summary)"
  shows "log_of st' (le_sessionId l) = log_of st (le_sessionId l) @ [summary] \<and>
    summary = make_entry t1 (le_sessionId l) (length (log_of st (le_sessionId l))) (summary_entry s)"
proof -
  obtain st1 where a: "append_entry t1 l (summary_entry s) st = (st1, Inr summary)"
    using assms by (auto simp: writeCompaction_def split: prod.splits sum.splits if_splits)
  obtain st2 r2 where b: "appendTape t2 l (compaction_event s summary) st1 = (st2, r2)" by fastforce
  obtain st3 r3 where c: "appendTape t3 l (summary_turn_end s summary) st2 = (st3, r3)" by fastforce
  have "st' = st2 \<or> st' = st3" using assms by (auto simp: writeCompaction_def a b c split: sum.splits if_splits)
  then show ?thesis using append_log [OF a] append_tape_log [OF b] append_tape_log [OF c] by auto
qed

text \<open>The parts of a plan: both are of the history, together they are what followed the last summary.\<close>

lemma plan_parts:
  assumes "compaction_plan_of D inp history = Some plan" and "cp_toSummarize plan \<noteq> []"
  shows "cp_kept plan \<noteq> []" and "filter (\<lambda>e. \<not> is_summary e) (cp_toSummarize plan) @ cp_kept plan = after_summary history"
    and "en_type (last (cp_toSummarize plan)) = EToolCall \<Longrightarrow> call_id (last (cp_toSummarize plan)) = Some c \<Longrightarrow>
      \<exists>e \<in> set (cp_toSummarize plan). en_type e = EToolResult \<and> string_field ''callId'' (en_payload e) = Some c"
    and "set (cp_toSummarize plan) \<subseteq> set history"
proof -
  obtain n where n: "0 < n" "n < length (after_summary history)" "cp_kept plan = drop n (after_summary history)"
    "cp_toSummarize plan = (case find_last is_summary history of None \<Rightarrow> [] | Some l \<Rightarrow> [l]) @ take n (after_summary history)"
    "\<And>c. en_type (after_summary history ! (n - 1)) = EToolCall \<Longrightarrow> call_id (after_summary history ! (n - 1)) = Some c \<Longrightarrow>
       \<exists>e \<in> set (take n (after_summary history)). en_type e = EToolResult \<and> string_field ''callId'' (en_payload e) = Some c"
    using planD [OF assms(1) [unfolded compaction_plan_of_def Let_def] assms(2)] by metis
  show "cp_kept plan \<noteq> []" using n(2,3) by simp
  have plain: "filter (\<lambda>e. \<not> is_summary e) (take n (after_summary history)) = take n (after_summary history)"
    by (auto simp: filter_id_conv dest!: in_set_takeD after_summaryD)
  then show "filter (\<lambda>e. \<not> is_summary e) (cp_toSummarize plan) @ cp_kept plan = after_summary history"
    using n(3,4) find_last_SomeD [of is_summary history] by (auto split: option.splits)
  have "take n (after_summary history) \<noteq> []" using n(1,2) by auto
  then have "last (cp_toSummarize plan) = after_summary history ! (n - 1)"
    using n(1,2) last_conv_nth [of "take n (after_summary history)"] unfolding n(4) by simp
  then show "en_type (last (cp_toSummarize plan)) = EToolCall \<Longrightarrow> call_id (last (cp_toSummarize plan)) = Some c \<Longrightarrow>
      \<exists>e \<in> set (cp_toSummarize plan). en_type e = EToolResult \<and> string_field ''callId'' (en_payload e) = Some c"
    using n(4,5) by auto
  have "set (case find_last is_summary history of None \<Rightarrow> [] | Some l \<Rightarrow> [l]) \<subseteq> set history"
    using find_last_SomeD [of is_summary history] by (auto split: option.split)
  moreover have "set (take n (after_summary history)) \<subseteq> set history" using in_set_takeD after_summaryD by fast
  ultimately show "set (cp_toSummarize plan) \<subseteq> set history" unfolding n(4) by simp
qed

text \<open>What a plan keeps, read off the log: the shown entries after the last one that is summarized.\<close>

lemma plan_kept_log:
  assumes "log_ok i log" and "history = forModelContext (cw_entries (contextWindowFromEntries log)) incl"
    and "compaction_plan_of D inp history = Some plan" and "cp_toSummarize plan \<noteq> []"
  shows "compactionThroughSeq (cp_toSummarize plan) < int (length log)"
    and "cp_kept plan = filter (\<lambda>e. \<not> is_summary e \<and> int (en_seq e) > compactionThroughSeq (cp_toSummarize plan)) (filter (shown incl) log)"
proof -
  let ?win = "cw_entries (contextWindowFromEntries log)" and ?T = "compactionThroughSeq (cp_toSummarize plan)"
  have "by_seq ?win" using log_by_seq [OF assms(1)] by (auto simp: contextWindowFromEntries_def by_seq_filter split: option.splits)
  then have hs: "by_seq (filter (\<lambda>e. \<not> is_summary e) history)" using context_by_seq assms(2) by simp
  obtain t where t: "t \<in> set history" "\<not> is_summary t" "?T = int (en_seq t)"
    and kept: "cp_kept plan = filter (\<lambda>e. \<not> is_summary e \<and> int (en_seq e) > ?T) history"
    using plan_through [OF assms(3) [unfolded compaction_plan_of_def Let_def] assms(4) hs] after_summaryD by blast
  have tw: "t \<in> set ?win" using t(1) context_shown assms(2) by blast
  then have "t \<in> set log" by (auto simp: contextWindowFromEntries_def split: option.splits)
  then show "?T < int (length log)" using t(3) log_seq_less [OF assms(1)] by simp
  have "cp_kept plan = filter (\<lambda>e. \<not> is_summary e \<and> int (en_seq e) > ?T) (filter (shown incl) ?win)"
    unfolding kept assms(2) using t assms(2) by (intro context_later) auto
  also have "\<dots> = filter (\<lambda>e. (shown incl e \<and> \<not> is_summary e) \<and> int (en_seq e) > ?T) ?win" by (simp add: filter_filter conj_assoc)
  also have "\<dots> = filter (\<lambda>e. (shown incl e \<and> \<not> is_summary e) \<and> int (en_seq e) > ?T) log" using tw t(3) by (intro window_later) auto
  finally show "cp_kept plan = filter (\<lambda>e. \<not> is_summary e \<and> int (en_seq e) > ?T) (filter (shown incl) log)"
    by (simp add: filter_filter conj_assoc)
qed

text \<open>What the model is given once a summary that it is shown ends the log.\<close>

lemma context_after_summary:
  assumes "log_of st' i = log @ [summary]" and "contextSummaryPayload summary = Some \<lparr>cs_throughSeq = T, cs_text = t\<rparr>"
    and "T < int (length log)" and "en_seq summary = length log" and "shown incl summary"
  shows "forModelContext (cw_entries (getContextWindow st' i)) incl =
    summary # filter (\<lambda>e. \<not> is_summary e \<and> int (en_seq e) > T) (filter (shown incl) log)"
proof -
  have is_sum: "is_summary summary" "throughSeq_of summary = T" using assms(2) by (simp_all add: is_summary_def throughSeq_of_def)
  have win: "cw_entries (getContextWindow st' i) = filter (\<lambda>e. int (en_seq e) > T) log @ [summary]"
    using assms by (simp add: getContextWindow_def contextWindowFromEntries_def latest_summary_def or_opt_def)
  have "find_last is_summary (modelReplayable (filter (\<lambda>e. int (en_seq e) > T) log @ [summary])) = Some summary"
    using assms(5) is_sum by (simp add: find_last_def modelReplayable_def shown_def)
  then have "forModelContext (cw_entries (getContextWindow st' i)) incl =
      summary # filter (\<lambda>e. \<not> is_summary e \<and> int (en_seq e) > T) (filter (shown incl) (filter (\<lambda>e. int (en_seq e) > T) log))"
    unfolding win forModelContext_alt using assms(5) is_sum by simp
  then show ?thesis by (auto simp: filter_filter intro!: filter_cong)
qed

text \<open>
  C13. Compaction loses nothing but what it sums up: the plan splits what the model was given since the last
  summary into a part that is summarized and a part, never empty, that is kept, and the next time the model
  is given exactly the new summary and the kept part. A call of a tool is not summarized last without its
  result.
\<close>

theorem compaction_conserves:
  assumes "log_ok i (log_of st i)" and "history = forModelContext (cw_entries (getContextWindow st i)) incl"
    and "summarizeForCompaction D inp history = Some s" and "le_sessionId l = i"
    and "writeCompaction t1 t2 t3 l s st = (st', Inr summary)"
  shows "\<exists>plan. compaction_plan_of D inp history = Some plan \<and> cp_kept plan \<noteq> [] \<and>
    filter (\<lambda>e. \<not> is_summary e) (cp_toSummarize plan) @ cp_kept plan = after_summary history \<and>
    (\<forall>c. en_type (last (cp_toSummarize plan)) = EToolCall \<and> call_id (last (cp_toSummarize plan)) = Some c \<longrightarrow>
       (\<exists>e \<in> set (cp_toSummarize plan). en_type e = EToolResult \<and> string_field ''callId'' (en_payload e) = Some c)) \<and>
    forModelContext (cw_entries (getContextWindow st' i)) incl = summary # cp_kept plan"
proof -
  let ?log = "log_of st i"
  have h: "history = forModelContext (cw_entries (contextWindowFromEntries ?log)) incl" using assms(2) by (simp add: getContextWindow_def)
  obtain plan where p: "compaction_plan_of D inp history = Some plan" "cp_toSummarize plan \<noteq> []"
    "sm_throughSeq s = compactionThroughSeq (cp_toSummarize plan)" "sm_securityTainted s = list_ex entrySecurityTainted (cp_toSummarize plan)"
    using assms(3) by (auto simp: summarizeForCompaction_def split: if_splits option.splits)
  note parts = plan_parts [OF p(1,2)] and kept = plan_kept_log [OF assms(1) h p(1,2)]
  note w = write_log [OF assms(5), unfolded assms(4)]
  have sum: "contextSummaryPayload summary = Some \<lparr>cs_throughSeq = compactionThroughSeq (cp_toSummarize plan), cs_text = sm_text s\<rparr>"
    "entrySecurityTainted summary = sm_securityTainted s"
    using summary_payload [of summary s] w p(3) by (auto simp: make_entry_def summary_entry_def)
  have "shown incl e" if "e \<in> set (cp_toSummarize plan)" for e using that parts(4) context_shown h by blast
  then have "incl \<or> \<not> sm_securityTainted s" using p(4) by (auto simp: list_ex_iff shown_def)
  then have "shown incl summary"
    using sum w by (auto simp: shown_def make_entry_def summary_entry_def createContextSummaryPayload_def field_def)
  moreover have "en_seq summary = length ?log" using w by (simp add: make_entry_def)
  ultimately have "forModelContext (cw_entries (getContextWindow st' i)) incl = summary # cp_kept plan"
    using context_after_summary [OF conjunct1 [OF w] sum(1) kept(1)] kept(2) by simp
  then show ?thesis using p(1) parts(1-3) by blast
qed

section \<open>In the background\<close>

lemma write_log_any:
  "log_of (fst (writeCompaction t1 t2 t3 l s st)) (le_sessionId l) \<in>
     {log_of st (le_sessionId l), log_of st (le_sessionId l) @ [make_entry t1 (le_sessionId l) (length (log_of st (le_sessionId l))) (summary_entry s)]}"
proof -
  obtain st1 r1 where a: "append_entry t1 l (summary_entry s) st = (st1, r1)" by fastforce
  show ?thesis
  proof (cases r1)
    case (Inl e)
    then have "log_of st1 (le_sessionId l) = log_of st (le_sessionId l)"
      using a by (auto simp: append_entry_def log_of_def Let_def split: if_splits option.splits)
    then show ?thesis by (simp add: writeCompaction_def a Inl)
  next
    case (Inr x)
    obtain st2 r2 where b: "appendTape t2 l (compaction_event s x) st1 = (st2, r2)" by fastforce
    obtain st3 r3 where c: "appendTape t3 l (summary_turn_end s x) st2 = (st3, r3)" by fastforce
    have "fst (writeCompaction t1 t2 t3 l s st) \<in> {st2, st3}" by (auto simp: writeCompaction_def a Inr b c split: sum.splits)
    then show ?thesis using append_log [OF a [unfolded Inr]] append_tape_log [OF b] append_tape_log [OF c] by auto
  qed
qed

lemma release_log [simp]: "log_of (releaseLease_session l st) i = log_of st i"
  by (simp add: releaseLease_session_def log_of_def)

lemma latest_summary_append: "\<not> list_ex is_summary new \<Longrightarrow> latest_summary (log @ new) = latest_summary log"
proof -
  have "foldl (\<lambda>l e. or_opt (contextSummaryPayload e) l) a new = a" if "\<not> list_ex is_summary new" for a
    using that by (induction new arbitrary: a) (auto simp: is_summary_def or_opt_def)
  then show "\<not> list_ex is_summary new \<Longrightarrow> ?thesis" by (simp add: latest_summary_def)
qed

lemma background_summaryD:
  assumes "background_summary D inp incl st = Some (s, snap)" and "log_ok i (log_of st i)" and "ci_sessionId inp = i"
  shows "(\<forall>c. latest_summary (log_of st i) = Some c \<longrightarrow> cs_throughSeq c < sm_throughSeq s) \<and>
    sm_throughSeq s < int (length (log_of st i)) \<and> nat (snap + 1) \<le> length (log_of st i)"
proof -
  let ?log = "log_of st i"
  let ?win = "cw_entries (contextWindowFromEntries ?log)"
  let ?h = "forModelContext ?win incl"
  from assms have b: "summarizeForCompaction D inp ?h = Some s" "snap = (if ?win = [] then -1 else int (en_seq (last ?win)))"
    by (auto simp: background_summary_def getContextWindow_def Let_def split: if_splits)
  obtain plan where p: "compaction_plan_of D inp ?h = Some plan" "cp_toSummarize plan \<noteq> []"
    "sm_throughSeq s = compactionThroughSeq (cp_toSummarize plan)"
    using b(1) by (auto simp: summarizeForCompaction_def split: if_splits option.splits)
  have win: "by_seq ?win" using log_by_seq [OF assms(2)] by (auto simp: contextWindowFromEntries_def by_seq_filter split: option.splits)
  obtain t where t: "t \<in> set (after_summary ?h)" "sm_throughSeq s = int (en_seq t)"
    using plan_through [OF p(1) [unfolded compaction_plan_of_def Let_def] p(2) context_by_seq [OF win]] p(3) by auto
  have tw: "t \<in> set ?win" using t(1) after_summaryD context_shown by blast
  have sub: "set ?win \<subseteq> set ?log" by (auto simp: contextWindowFromEntries_def split: option.splits)
  have "cs_throughSeq c < int (en_seq t)" if "latest_summary ?log = Some c" for c
    using tw that by (simp add: contextWindowFromEntries_def)
  moreover have "int (en_seq t) < int (length ?log)" using log_seq_less [OF assms(2)] tw sub by auto
  moreover have "last ?win \<in> set ?log" using tw sub last_in_set [of ?win] by fastforce
  then have "en_seq (last ?win) < length ?log" by (rule log_seq_less [OF assms(2)])
  then have "nat (snap + 1) \<le> length ?log" using b(2) by (auto simp: nat_le_iff)
  ultimately show ?thesis using t(2) by simp
qed

text \<open>
  A compaction in the background never takes the conversation back: whatever was appended between its
  summary and its lease, it either leaves the log alone or appends one summary that reaches further than
  the latest one; and it does so only when nobody else has summarized in the meantime.
\<close>

theorem background_compaction_advances:
  assumes "background_summary D inp incl st = Some (s, snap)" and "log_ok i (log_of st i)" and "ci_sessionId inp = i" "le_sessionId l = i"
    and "log_of st2 i = log_of st i @ new" "log_ok i (log_of st2 i)"
    and "st' = background_write t1 t2 t3 (Some l) inp (s, snap) st2"
  shows "log_of st' i = log_of st2 i \<or>
    (\<exists>x. log_of st' i = log_of st2 i @ [x] \<and> contextSummaryPayload x = Some \<lparr>cs_throughSeq = sm_throughSeq s, cs_text = sm_text s\<rparr> \<and>
       \<not> list_ex is_summary new \<and> (\<forall>c. latest_summary (log_of st2 i) = Some c \<longrightarrow> cs_throughSeq c < sm_throughSeq s) \<and>
       sm_throughSeq s < int (length (log_of st i)))"
proof (cases "list_ex is_summary (getEntries st2 i (Some (nat (snap + 1))) None)")
  case True
  then show ?thesis using assms(3,7) by (simp add: background_write_def)
next
  case False
  note b = background_summaryD [OF assms(1-3)]
  have "\<not> list_ex is_summary new"
  proof
    assume "list_ex is_summary new"
    then obtain y where y: "y \<in> set new" "is_summary y" by (auto simp: list_ex_iff)
    then obtain k where k: "k < length new" "y = new ! k" by (auto simp: in_set_conv_nth)
    then have "y = log_of st2 i ! (length (log_of st i) + k)" "length (log_of st i) + k < length (log_of st2 i)" using assms(5) by simp_all
    then have "en_seq y = length (log_of st i) + k" using assms(6) unfolding log_ok_def by blast
    then have "y \<in> set (getEntries st2 i (Some (nat (snap + 1))) None)" using y(1) b assms(5) by (simp add: getEntries_def slice_last_def)
    then show False using False y(2) by (auto simp: list_ex_iff)
  qed
  moreover have "latest_summary (log_of st2 i) = latest_summary (log_of st i)" using calculation assms(5) by (simp add: latest_summary_append)
  moreover have "contextSummaryPayload (make_entry t1 i n (summary_entry s)) = Some \<lparr>cs_throughSeq = sm_throughSeq s, cs_text = sm_text s\<rparr>" for n
    by (rule summary_payload) (simp_all add: make_entry_def summary_entry_def)
  moreover have "log_of st' i \<in> {log_of st2 i, log_of st2 i @ [make_entry t1 i (length (log_of st2 i)) (summary_entry s)]}"
    using write_log_any [of t1 t2 t3 l s st2] False assms(3,4,7) by (simp add: background_write_def)
  ultimately show ?thesis using b by auto
qed

section \<open>The theorems applied\<close>

definition ex_said :: "nat \<Rightarrow> session_entry" where
  "ex_said n = make_entry 0 ''s1'' n \<lparr>ne_type = EUser, ne_payload = JObj [(''text'', JStr ''hello'')], ne_scopeLabel = ''channel:C1''\<rparr>"

definition ex_session :: session where
  "ex_session =
     \<lparr>se_id = ''s1'', se_type = StChannel, se_scopeId = ''channel:C1'', se_threadRef = ''t1'', se_surface = None, se_createdAt = 0, se_channelName = None,
      se_title = None, se_forkedFrom = None, se_forkBoundarySeq = None\<rparr>"

definition ex_full_store :: session_store where
  "ex_full_store =
     (createMemorySessionStore None)
       \<lparr>ss_sessions := [(''s1'', ex_session)], ss_entries := [(''s1'', map ex_said [0, 1, 2])],
        ss_leases := [(''s1'', \<lparr>lr_token = ''k'', lr_expiresAt = 100, lr_acquiredAt = 0, lr_holder = Some LhTurn\<rparr>)]\<rparr>"

definition ex_compaction :: compaction_deps where
  "ex_compaction =
     \<lparr>cd_env = \<lparr>cv_countTokens = (\<lambda>s. 10), cv_stringify = (\<lambda>j. []), cv_iso = (\<lambda>t. [])\<rparr>, cd_maxContextTokens = Some 20,
      cd_contextTokenBudget = (\<lambda>s m. None), cd_recognizes = (\<lambda>g. False), cd_compactHistory = Some (\<lambda>es. ''in short'')\<rparr>"

definition ex_compaction_input :: compaction_input where
  "ex_compaction_input = \<lparr>ci_sessionId = ''s1'', ci_scopeId = ''channel:C1'', ci_orgScopeId = ''org:O'', ci_model = None\<rparr>"

definition ex_summary :: summarized where
  "ex_summary = \<lparr>sm_text = ''in short'', sm_summaryLabel = ''channel:C1'', sm_throughSeq = 1, sm_securityTainted = False\<rparr>"

definition ex_turn_lease :: session_lease where
  "ex_turn_lease = \<lparr>le_sessionId = ''s1'', le_token = ''k''\<rparr>"

lemma ex_full_log: "log_ok ''s1'' (log_of ex_full_store ''s1'')"
proof -
  have log: "log_of ex_full_store ''s1'' = map ex_said [0, 1, 2]" by code_simp
  show ?thesis by (auto simp: log log_ok_def ex_said_def make_entry_def less_Suc_eq numeral_3_eq_3)
qed

lemma ex_budget: "tokenBudgetFor ex_compaction scope model = 20"
  by (simp add: tokenBudgetFor_def ex_compaction_def)

definition ex_plan_ok :: "compaction_plan option \<Rightarrow> bool" where
  "ex_plan_ok p = (p = Some \<lparr>cp_toSummarize = map ex_said [0, 1], cp_kept = [ex_said 2], cp_reuse = None\<rparr>)"

lemma ex_plan:
  "compaction_plan_of ex_compaction ex_compaction_input (forModelContext (cw_entries (getContextWindow ex_full_store ''s1'')) False) =
     Some \<lparr>cp_toSummarize = map ex_said [0, 1], cp_kept = [ex_said 2], cp_reuse = None\<rparr>"
proof -
  have "ex_plan_ok (planCompaction (cd_env ex_compaction) (forModelContext (cw_entries (getContextWindow ex_full_store ''s1'')) False) 20
      KEEP_RECENT_TOKEN_FRACTION ((20 * fst KEEP_RECENT_TOKEN_FRACTION) div snd KEEP_RECENT_TOKEN_FRACTION))" by code_simp
  then show ?thesis by (simp add: compaction_plan_of_def ex_budget ex_plan_ok_def)
qed

lemma ex_summarized:
  "summarizeForCompaction ex_compaction ex_compaction_input (forModelContext (cw_entries (getContextWindow ex_full_store ''s1'')) False) = Some ex_summary"
  "background_summary ex_compaction ex_compaction_input False ex_full_store = Some (ex_summary, 2)"
proof -
  have "trim ''in short'' = ''in short''" by code_simp
  then have t: "boundCompactSummary E (Some ''in short'') es = ''in short''" for E es
    by (simp add: boundCompactSummary_def MAX_COMPACT_SUMMARY_CHARS_def MAX_COMPACT_ENTRY_CHARS_def CHAINED_SUMMARY_PREFIX_HEADROOM_def)
  have l: "compactedScopeLabel (map ex_said [0, 1]) ''channel:C1'' ''org:O'' = Some ''channel:C1''"
    "compactionThroughSeq (map ex_said [0, 1]) = 1" "list_ex entrySecurityTainted (map ex_said [0, 1]) = False"
    "isManagedGroupScope ex_compaction ''channel:C1'' = False" by code_simp+
  have h: "cd_compactHistory ex_compaction = Some (\<lambda>es. ''in short'')" by (simp add: ex_compaction_def)
  show s: "summarizeForCompaction ex_compaction ex_compaction_input (forModelContext (cw_entries (getContextWindow ex_full_store ''s1'')) False) = Some ex_summary"
    unfolding summarizeForCompaction_def ex_plan using t l h by (simp add: ex_summary_def ex_compaction_input_def)
  have w: "cw_entries (getContextWindow ex_full_store ''s1'') = map ex_said [0, 1, 2]" "map_get (ss_sessions ex_full_store) ''s1'' \<noteq> None" by code_simp+
  have "overBudgetFraction (cd_env ex_compaction) (forModelContext (cw_entries (getContextWindow ex_full_store ''s1'')) False) 20 COMPACT_SOFT_FRACTION"
    by code_simp
  then show "background_summary ex_compaction ex_compaction_input False ex_full_store = Some (ex_summary, 2)"
    using s w by (simp add: background_summary_def ex_budget ex_compaction_input_def ex_said_def make_entry_def)
qed

definition written_ok :: "session_store \<times> (write_error + session_entry) \<Rightarrow> bool" where
  "written_ok r = (case snd r of Inl e \<Rightarrow> False | Inr x \<Rightarrow> en_seq x = 3)"

theorem compaction_conserves_witness:
  "\<exists>st' summary (plan :: compaction_plan). writeCompaction 1 2 3 ex_turn_lease ex_summary ex_full_store = (st', Inr summary) \<and> cp_kept plan \<noteq> [] \<and>
     forModelContext (cw_entries (getContextWindow st' ''s1'')) False = summary # cp_kept plan"
proof -
  have "written_ok (writeCompaction 1 2 3 ex_turn_lease ex_summary ex_full_store)" by code_simp
  then obtain st' summary where w: "writeCompaction 1 2 3 ex_turn_lease ex_summary ex_full_store = (st', Inr summary)"
    by (auto simp: written_ok_def split: sum.splits) (metis prod.collapse)
  have "le_sessionId ex_turn_lease = ''s1''" by (simp add: ex_turn_lease_def)
  from compaction_conserves [OF ex_full_log refl ex_summarized(1) this w] obtain plan :: compaction_plan where
    "cp_kept plan \<noteq> []" "forModelContext (cw_entries (getContextWindow st' ''s1'')) False = summary # cp_kept plan" by blast
  with w show ?thesis by (intro exI conjI)
qed

theorem background_compaction_advances_witness:
  "length (log_of (background_write 1 2 3 (Some ex_turn_lease) ex_compaction_input (ex_summary, 2) ex_full_store) ''s1'') = 4 \<and>
   (\<exists>x. log_of (background_write 1 2 3 (Some ex_turn_lease) ex_compaction_input (ex_summary, 2) ex_full_store) ''s1'' = log_of ex_full_store ''s1'' @ [x])"
proof -
  have len: "length (log_of (background_write 1 2 3 (Some ex_turn_lease) ex_compaction_input (ex_summary, 2) ex_full_store) ''s1'') = 4"
    "length (log_of ex_full_store ''s1'') = 3" by code_simp+
  have "ci_sessionId ex_compaction_input = ''s1''" "le_sessionId ex_turn_lease = ''s1''" by (simp_all add: ex_compaction_input_def ex_turn_lease_def)
  note background_compaction_advances [OF ex_summarized(2) ex_full_log this, of ex_full_store "[]", OF _ _ refl, of 1 2 3]
  then show ?thesis using len ex_full_log by auto
qed

end
