(* ===== verification/Goals.thy ===== *)
theory Goals
  imports Prelude
begin

text \<open>
  Goals of a session: the work floor (\<open>src/harness/grind.ts\<close>), the record, the loop that answers an
  attempt to stop and the limit on a turn's time (\<open>src/harness/goal.ts\<close>), and the tools that register and
  close a goal (\<open>create_goal\<close>, \<open>update_goal\<close> of \<open>src/harness/agent-tools.ts\<close>). Amounts are integers; money is
  counted in units of a ten-millionth of a dollar, in which the prices of the table are whole numbers.
  Which prompt is sent is modelled, its wording is not.
\<close>

section \<open>The work floor\<close>

record grind_budget =
  gb_minTurns :: "int option"
  gb_minMs :: "int option"
  gb_minTokens :: "int option"
  gb_minUsd :: "int option"

record grind_meter =
  gm_turns :: int
  gm_tokens :: int
  gm_usd :: int
  gm_startedAt :: time

record call_usage =
  cu_input :: int
  cu_output :: int

text \<open>Prices of a token in units of money; a model's name is matched without regard to case.\<close>

definition MODEL_PRICES :: "(string list \<times> int) list" where
  "MODEL_PRICES =
     [([''opus''], 150), ([''sonnet''], 30), ([''haiku''], 8), ([''gpt-5''], 50), ([''o3''], 100), ([''o4-mini''], 20),
      ([''gemini'', ''pro''], 35), ([''gemini'', ''flash''], 5)]"

definition DEFAULT_PRICE :: int where "DEFAULT_PRICE = 50"

text \<open>\<open>/a.*b/i\<close>: the parts occur one after the other on one line.\<close>

fun parts_occur :: "string list \<Rightarrow> string \<Rightarrow> bool" where
  "parts_occur [] s = True"
| "parts_occur (p # ps) s = list_ex (\<lambda>k. startsWith (drop k s) p \<and> parts_occur ps (drop (k + length p) s)) [0..<length s + 1]"

definition model_matches :: "string list \<Rightarrow> string \<Rightarrow> bool" where
  "model_matches ps model = list_ex (parts_occur ps) (split_on CHR 0x0A (toLowerCase model))"

definition price_of :: "string \<Rightarrow> int" where
  "price_of model = (case List.find (\<lambda>(ps, n). model_matches ps model) MODEL_PRICES of None \<Rightarrow> DEFAULT_PRICE | Some (ps, n) \<Rightarrow> n)"

definition createGrindMeter :: "time \<Rightarrow> grind_meter" where
  "createGrindMeter startedAt = \<lparr>gm_turns = 0, gm_tokens = 0, gm_usd = 0, gm_startedAt = startedAt\<rparr>"

definition usage_tokens :: "call_usage option \<Rightarrow> int" where
  "usage_tokens u = (case u of None \<Rightarrow> 0 | Some x \<Rightarrow> max 0 (cu_input x + cu_output x))"

definition meterGrindCall :: "grind_meter \<Rightarrow> call_usage option \<Rightarrow> string \<Rightarrow> grind_meter" where
  "meterGrindCall m u model =
     m\<lparr>gm_turns := gm_turns m + 1, gm_tokens := gm_tokens m + usage_tokens u, gm_usd := gm_usd m + usage_tokens u * price_of model\<rparr>"

text \<open>\<open>Math.round\<close> of an amount of money to millionths of a dollar.\<close>

definition round_usd :: "int \<Rightarrow> int" where
  "round_usd x = (x + 5) div 10"

definition at_least :: "int option \<Rightarrow> int \<Rightarrow> bool" where
  "at_least lower x = (case lower of None \<Rightarrow> True | Some n \<Rightarrow> n \<le> x)"

definition grind_met :: "grind_budget \<Rightarrow> grind_meter \<Rightarrow> time \<Rightarrow> bool" where
  "grind_met g m now =
     (at_least (gb_minTurns g) (gm_turns m) \<and> at_least (gb_minMs g) (max 0 (now - gm_startedAt m)) \<and>
      at_least (gb_minTokens g) (gm_tokens m) \<and> at_least (map_option round_usd (gb_minUsd g)) (round_usd (gm_usd m)))"

section \<open>The record\<close>

datatype goal_status = GActive | GPaused | GComplete | GBlocked

record goal_record =
  go_objective :: string
  go_status :: goal_status
  go_floor :: "grind_budget option"
  go_capTokens :: "int option"
  go_tokensUsed :: int
  go_createdAt :: time
  go_updatedAt :: time
  go_blockedStreak :: nat
  go_blockedReason :: "string option"
  go_completionNote :: "string option"

datatype goal_error = EmptyObjective | ObjectiveTooLong | BadTokenCap

definition GOAL_BLOCKED_MIN_ROUNDS :: nat where "GOAL_BLOCKED_MIN_ROUNDS = 3"
definition GOAL_FLOOR_MAX_MS :: int where "GOAL_FLOOR_MAX_MS = 4 * 3600000"
definition GOAL_FLOOR_RECHECK_MS :: int where "GOAL_FLOOR_RECHECK_MS = 60000"
definition GOAL_FLOOR_STALL_LIMIT :: nat where "GOAL_FLOOR_STALL_LIMIT = 5"
definition GOAL_MAX_OBJECTIVE_CHARS :: nat where "GOAL_MAX_OBJECTIVE_CHARS = 4000"

definition finitePositive :: "int option \<Rightarrow> int option" where
  "finitePositive v = (case v of None \<Rightarrow> None | Some n \<Rightarrow> if 0 < n then Some n else None)"

definition sanitizeFloor :: "grind_budget option \<Rightarrow> grind_budget option" where
  "sanitizeFloor f =
     (case f of
        None \<Rightarrow> None
      | Some g \<Rightarrow>
          (let clean = \<lparr>gb_minTurns = finitePositive (gb_minTurns g), gb_minMs = map_option (\<lambda>n. min n GOAL_FLOOR_MAX_MS) (finitePositive (gb_minMs g)),
                 gb_minTokens = finitePositive (gb_minTokens g), gb_minUsd = finitePositive (gb_minUsd g)\<rparr>
           in if gb_minTurns clean = None \<and> gb_minMs clean = None \<and> gb_minTokens clean = None \<and> gb_minUsd clean = None then None else Some clean))"

definition createGoalRecord :: "string \<Rightarrow> grind_budget option \<Rightarrow> int option \<Rightarrow> time \<Rightarrow> goal_error + goal_record" where
  "createGoalRecord objective0 flr cap now =
     (let objective = trim objective0
      in if objective = [] then Inl EmptyObjective
         else if GOAL_MAX_OBJECTIVE_CHARS < length objective then Inl ObjectiveTooLong
         else if cap \<noteq> None \<and> finitePositive cap = None then Inl BadTokenCap
         else Inr \<lparr>go_objective = objective, go_status = GActive, go_floor = sanitizeFloor flr, go_capTokens = finitePositive cap, go_tokensUsed = 0,
                   go_createdAt = now, go_updatedAt = now, go_blockedStreak = 0, go_blockedReason = None, go_completionNote = None\<rparr>)"

definition meterGoalCall :: "goal_record \<Rightarrow> call_usage option \<Rightarrow> goal_record" where
  "meterGoalCall g u = g\<lparr>go_tokensUsed := go_tokensUsed g + usage_tokens u\<rparr>"

definition reviveGoalRecord :: "goal_record \<Rightarrow> goal_record" where
  "reviveGoalRecord g =
     g\<lparr>go_tokensUsed := max 0 (go_tokensUsed g), go_blockedStreak := 0, go_capTokens := finitePositive (go_capTokens g), go_floor := sanitizeFloor (go_floor g)\<rparr>"

text \<open>An entry of the history: whether it is of the system, the kind of its payload, the goal in it.\<close>

record goal_snapshot =
  sn_system :: bool
  sn_kind :: "string option"
  sn_goal :: "goal_record option"

fun rehydrate_from :: "goal_snapshot list \<Rightarrow> goal_record option" where
  "rehydrate_from [] = None"
| "rehydrate_from (h # hs) =
     (if \<not> sn_system h \<or> sn_kind h \<noteq> Some ''goal'' then rehydrate_from hs
      else
        (case sn_goal h of
           None \<Rightarrow> rehydrate_from hs
         | Some g \<Rightarrow> if go_status g = GActive \<or> go_status g = GPaused then Some (reviveGoalRecord g) else None))"

definition rehydrateOpenGoal :: "goal_snapshot list \<Rightarrow> goal_record option" where
  "rehydrateOpenGoal history = rehydrate_from (rev history)"

definition goalFloorApplies :: "goal_record \<Rightarrow> bool" where
  "goalFloorApplies g = (go_floor g \<noteq> None \<and> (go_status g = GActive \<or> go_status g = GComplete))"

definition goalFloorMeter :: "goal_record \<Rightarrow> grind_meter \<Rightarrow> grind_meter" where
  "goalFloorMeter g m = \<lparr>gm_turns = gm_turns m, gm_tokens = go_tokensUsed g, gm_usd = gm_usd m, gm_startedAt = go_createdAt g\<rparr>"

definition goalFloorUnmet :: "goal_record \<Rightarrow> grind_meter \<Rightarrow> time \<Rightarrow> bool" where
  "goalFloorUnmet g m now =
     (case go_floor g of None \<Rightarrow> False | Some f \<Rightarrow> goalFloorApplies g \<and> \<not> grind_met f (goalFloorMeter g m) now)"

section \<open>The time of a turn\<close>

record cap_policy =
  fc_satisfiedAt :: "time option"
  fc_stalled :: bool
  fc_strikes :: nat
  fc_progressMark :: int

definition createFloorCapPolicy :: cap_policy where
  "createFloorCapPolicy = \<lparr>fc_satisfiedAt = None, fc_stalled = False, fc_strikes = 0, fc_progressMark = -1\<rparr>"

definition floor_met_at :: "goal_record \<Rightarrow> time \<Rightarrow> time" where
  "floor_met_at g t =
     (case go_floor g of
        None \<Rightarrow> t
      | Some f \<Rightarrow>
          (case gb_minMs f of
             Some n \<Rightarrow> if gb_minTurns f = None \<and> gb_minTokens f = None \<and> gb_minUsd f = None then go_createdAt g + n else t
           | None \<Rightarrow> t))"

definition remainingCapMs :: "time \<Rightarrow> int \<Rightarrow> goal_record option \<Rightarrow> grind_meter \<Rightarrow> time \<Rightarrow> cap_policy \<Rightarrow> cap_policy \<times> int" where
  "remainingCapMs promptStart wallClock goal meter t p =
     (let rest = (\<lambda>p. (p, or_else (fc_satisfiedAt p) promptStart + wallClock - t))
      in case goal of
           None \<Rightarrow> rest p
         | Some g \<Rightarrow>
             if \<not> goalFloorApplies g then rest p
             else if goalFloorUnmet g meter t
             then (if \<not> fc_stalled p \<and> t - promptStart < GOAL_FLOOR_MAX_MS + wallClock then (p\<lparr>fc_satisfiedAt := None\<rparr>, GOAL_FLOOR_RECHECK_MS) else rest p)
             else rest (case fc_satisfiedAt p of
                          Some _ \<Rightarrow> p
                        | None \<Rightarrow> p\<lparr>fc_satisfiedAt := Some (min (max (floor_met_at g t) promptStart) t)\<rparr>))"

definition noteFloorProgress :: "goal_record option \<Rightarrow> grind_meter \<Rightarrow> time \<Rightarrow> cap_policy \<Rightarrow> cap_policy" where
  "noteFloorProgress goal meter t p =
     (case goal of
        None \<Rightarrow> p
      | Some g \<Rightarrow>
          if \<not> goalFloorUnmet g meter t then p
          else if (case Option.bind (go_floor g) gb_minMs of None \<Rightarrow> False | Some n \<Rightarrow> t - go_createdAt g < n) then p
          else
            (let progress = go_tokensUsed g + gm_tokens meter + gm_turns meter;
                 strikes = (if progress = fc_progressMark p then fc_strikes p + 1 else 0)
             in p\<lparr>fc_strikes := strikes, fc_progressMark := progress, fc_stalled := GOAL_FLOOR_STALL_LIMIT \<le> strikes\<rparr>))"

definition raceCapMs :: "time \<Rightarrow> int \<Rightarrow> goal_record option \<Rightarrow> grind_meter \<Rightarrow> time \<Rightarrow> cap_policy \<Rightarrow> cap_policy \<times> int" where
  "raceCapMs promptStart wallClock goal meter t p =
     (if 0 < wallClock then (case remainingCapMs promptStart wallClock goal meter t p of (p1, n) \<Rightarrow> (p1, max n 1)) else (p, wallClock))"

definition extendMs :: "time \<Rightarrow> int \<Rightarrow> goal_record option \<Rightarrow> grind_meter \<Rightarrow> time \<Rightarrow> cap_policy \<Rightarrow> cap_policy \<times> int" where
  "extendMs promptStart wallClock goal meter t p =
     (case remainingCapMs promptStart wallClock goal meter t (noteFloorProgress goal meter t p) of (p1, n) \<Rightarrow> (p1, max n 0))"

section \<open>Enforcement\<close>

text \<open>
  What a prompt may change: the goal and the meter, the calls made so far, whether something blocks
  the loop, the time. The model's answer to the \<open>n\<close>-th prompt is an argument.
\<close>

record goal_world =
  gw_goal :: goal_record
  gw_meter :: grind_meter
  gw_toolCalls :: nat
  gw_blocked :: bool
  gw_now :: time

datatype goal_prompt = CapPrompt | ContinuationPrompt | FloorPrompt

datatype waiver = NoWaiver | GoalWaived | FloorWaived

record enforcement =
  ef_ok :: bool
  ef_waiver :: waiver
  ef_world :: goal_world
  ef_prompts :: "goal_prompt list"

definition goal_pending :: "goal_world \<Rightarrow> bool" where
  "goal_pending w = (go_status (gw_goal w) = GActive \<or> goalFloorUnmet (gw_goal w) (gw_meter w) (gw_now w))"

definition cap_spent :: "goal_record \<Rightarrow> bool" where
  "cap_spent g = (case go_capTokens g of None \<Rightarrow> False | Some c \<Rightarrow> c \<le> go_tokensUsed g)"

definition prompt_for :: "goal_world \<Rightarrow> goal_prompt" where
  "prompt_for w =
     (if cap_spent (gw_goal w) then CapPrompt else if go_status (gw_goal w) = GActive then ContinuationPrompt else FloorPrompt)"

text \<open>The loop, with fuel: \<open>None\<close> when it runs longer.\<close>

fun enforce_loop ::
  "(nat \<Rightarrow> goal_prompt \<Rightarrow> goal_world \<Rightarrow> goal_world \<times> bool) \<Rightarrow> nat \<Rightarrow> goal_world \<Rightarrow> bool \<Rightarrow> nat \<Rightarrow> nat \<Rightarrow> bool \<Rightarrow> goal_prompt list \<Rightarrow> enforcement option" where
  "enforce_loop answer 0 w ok stalled lastCalls capSent prompts = None"
| "enforce_loop answer (Suc fuel) w ok stalled lastCalls capSent prompts =
     (let stop = (\<lambda>v. Some \<lparr>ef_ok = ok, ef_waiver = v, ef_world = w, ef_prompts = prompts\<rparr>)
      in if \<not> ok \<or> gw_blocked w \<or> \<not> goal_pending w then stop NoWaiver
         else if cap_spent (gw_goal w) \<and> capSent then stop NoWaiver
         else
           (let stalled1 = (if lastCalls < gw_toolCalls w then 0 else stalled + 1)
            in if 5 \<le> stalled1 then stop (if go_status (gw_goal w) = GActive then GoalWaived else FloorWaived)
               else
                 (case answer (length prompts) (prompt_for w) w of
                    (w1, ok1) \<Rightarrow>
                      enforce_loop answer fuel w1 ok1 stalled1 (gw_toolCalls w) (capSent \<or> cap_spent (gw_goal w)) (prompts @ [prompt_for w]))))"

definition enforceGoal :: "(nat \<Rightarrow> goal_prompt \<Rightarrow> goal_world \<Rightarrow> goal_world \<times> bool) \<Rightarrow> nat \<Rightarrow> goal_world \<Rightarrow> bool \<Rightarrow> enforcement option" where
  "enforceGoal answer fuel w ok = enforce_loop answer fuel w ok 0 (gw_toolCalls w) False []"

section \<open>The tools\<close>

record goal_ref =
  gr_goal :: "goal_record option"
  gr_round :: nat
  gr_lastBlockedRound :: "nat option"

datatype goal_result =
  GoalExists | GoalInvalid goal_error | GoalRegistered | NoOpenGoal | NotPaused | GoalResumed | GoalSetAside | StillPaused
| NeedsReason | BlockedAudit nat | GoalMarkedBlocked | GoalMarkedComplete

definition create_goal :: "string \<Rightarrow> grind_budget option \<Rightarrow> int option \<Rightarrow> time \<Rightarrow> goal_ref \<Rightarrow> goal_ref \<times> goal_result" where
  "create_goal objective flr cap now r =
     (if (case gr_goal r of None \<Rightarrow> False | Some g \<Rightarrow> go_status g = GActive \<or> go_status g = GPaused) then (r, GoalExists)
      else
        (case createGoalRecord objective flr cap now of
           Inl e \<Rightarrow> (r, GoalInvalid e)
         | Inr g \<Rightarrow> (r\<lparr>gr_goal := Some g\<rparr>, GoalRegistered)))"

definition set_goal :: "goal_record \<Rightarrow> goal_ref \<Rightarrow> goal_ref" where
  "set_goal g r = r\<lparr>gr_goal := Some g\<rparr>"

definition claim_blocked :: "string \<Rightarrow> time \<Rightarrow> goal_record \<Rightarrow> goal_ref \<Rightarrow> goal_ref \<times> goal_result" where
  "claim_blocked reason now g r =
     (let counted = (gr_lastBlockedRound r \<noteq> Some (gr_round r));
          g1 = (if counted then g\<lparr>go_blockedStreak := go_blockedStreak g + 1, go_blockedReason := Some reason, go_updatedAt := now\<rparr> else g);
          r1 = (if counted then r\<lparr>gr_lastBlockedRound := Some (gr_round r)\<rparr> else r)
      in if go_blockedStreak g1 < GOAL_BLOCKED_MIN_ROUNDS then (set_goal g1 r1, BlockedAudit (go_blockedStreak g1))
         else (set_goal (g1\<lparr>go_status := GBlocked, go_updatedAt := now\<rparr>) r1, GoalMarkedBlocked))"

definition update_goal :: "goal_status \<Rightarrow> string option \<Rightarrow> time \<Rightarrow> goal_ref \<Rightarrow> goal_ref \<times> goal_result" where
  "update_goal status note now r =
     (case gr_goal r of
        None \<Rightarrow> (r, NoOpenGoal)
      | Some g \<Rightarrow>
          if go_status g \<noteq> GActive \<and> go_status g \<noteq> GPaused then (r, NoOpenGoal)
          else
            (case status of
               GActive \<Rightarrow> if go_status g \<noteq> GPaused then (r, NotPaused) else (set_goal (g\<lparr>go_status := GActive, go_updatedAt := now\<rparr>) r, GoalResumed)
             | GPaused \<Rightarrow> (set_goal (g\<lparr>go_status := GPaused, go_updatedAt := now\<rparr>) r, GoalSetAside)
             | GBlocked \<Rightarrow>
                 if go_status g = GPaused then (r, StillPaused)
                 else if trim (or_else note []) = [] then (r, NeedsReason)
                 else claim_blocked (trim (or_else note [])) now g r
             | GComplete \<Rightarrow>
                 if go_status g = GPaused then (r, StillPaused)
                 else (set_goal (g\<lparr>go_status := GComplete, go_updatedAt := now,
                         go_completionNote := (if truthy note then note else go_completionNote g)\<rparr>) r, GoalMarkedComplete)))"

end
