(* ===== verification/Goal_Theorems.thy ===== *)
theory Goal_Theorems
  imports Goals
begin

text \<open>What goals promise: enforcement ends, a turn's time is bounded, and giving up takes three rounds.\<close>

section \<open>Enforcement ends\<close>

text \<open>The answers make calls of tools, no more than \<open>B\<close> in all.\<close>

definition answers_bounded :: "(nat \<Rightarrow> goal_prompt \<Rightarrow> goal_world \<Rightarrow> goal_world \<times> bool) \<Rightarrow> nat \<Rightarrow> bool" where
  "answers_bounded answer B \<longleftrightarrow>
     (\<forall>n p w. gw_toolCalls w \<le> gw_toolCalls (fst (answer n p w)) \<and> (gw_toolCalls w \<le> B \<longrightarrow> gw_toolCalls (fst (answer n p w)) \<le> B))"

definition rounds_left :: "nat \<Rightarrow> nat \<Rightarrow> nat \<Rightarrow> nat" where
  "rounds_left B lastCalls stalled = 6 * (B - lastCalls) + (5 - stalled)"

text \<open>Why the loop may stop.\<close>

definition ended_well :: "enforcement \<Rightarrow> bool" where
  "ended_well r \<longleftrightarrow>
     (if ef_waiver r = NoWaiver
      then \<not> ef_ok r \<or> gw_blocked (ef_world r) \<or> \<not> goal_pending (ef_world r) \<or>
           cap_spent (gw_goal (ef_world r)) \<and> CapPrompt \<in> set (ef_prompts r)
      else ef_ok r \<and> goal_pending (ef_world r) \<and> (ef_waiver r = GoalWaived \<longleftrightarrow> go_status (gw_goal (ef_world r)) = GActive))"

lemma enforce_loop_ends:
  assumes "answers_bounded answer B" and "lastCalls \<le> gw_toolCalls w" "gw_toolCalls w \<le> B" "stalled < 5"
    and "rounds_left B lastCalls stalled < fuel" and "capSent \<longrightarrow> CapPrompt \<in> set prompts"
  shows "\<exists>r. enforce_loop answer fuel w ok stalled lastCalls capSent prompts = Some r \<and> ended_well r \<and>
    length (ef_prompts r) \<le> length prompts + rounds_left B lastCalls stalled"
  using assms(2-)
proof (induction fuel arbitrary: w ok stalled lastCalls capSent prompts)
  case (Suc fuel)
  let ?st = "if lastCalls < gw_toolCalls w then 0 else stalled + 1"
  show ?case
  proof (cases "\<not> ok \<or> gw_blocked w \<or> \<not> goal_pending w \<or> cap_spent (gw_goal w) \<and> capSent \<or> 5 \<le> ?st")
    case True
    then show ?thesis using Suc.prems by (auto simp: Let_def ended_well_def)
  next
    case False
    obtain w1 ok1 where a: "answer (length prompts) (prompt_for w) w = (w1, ok1)" by fastforce
    have b: "gw_toolCalls w \<le> gw_toolCalls w1" "gw_toolCalls w1 \<le> B"
      using assms(1) Suc.prems(2) a unfolding answers_bounded_def by (metis fst_conv)+
    have less: "rounds_left B (gw_toolCalls w) ?st < rounds_left B lastCalls stalled"
      using Suc.prems(1-3) False by (auto simp: rounds_left_def)
    then obtain r where r: "enforce_loop answer fuel w1 ok1 ?st (gw_toolCalls w) (capSent \<or> cap_spent (gw_goal w)) (prompts @ [prompt_for w]) = Some r"
      "ended_well r" "length (ef_prompts r) \<le> length (prompts @ [prompt_for w]) + rounds_left B (gw_toolCalls w) ?st"
      using Suc.IH [of "gw_toolCalls w" w1 ?st "capSent \<or> cap_spent (gw_goal w)" "prompts @ [prompt_for w]" ok1] b False Suc.prems(4,5)
      by (fastforce simp: prompt_for_def)
    have "enforce_loop answer (Suc fuel) w ok stalled lastCalls capSent prompts = Some r" using r(1) False a by (auto simp: Let_def)
    then show ?thesis using r(2,3) less by auto
  qed
qed simp

text \<open>
  C15. Holding the agent to its goal ends: if the model makes at most so many calls of tools, the loop returns
  after at most six prompts for each and five more; and it ends only because the turn was cut off or
  blocked, because nothing of the goal is left to enforce, because the token cap is spent and the agent was told, or
  with the waiver that says so.
\<close>

theorem enforcement_ends:
  assumes "answers_bounded answer B" and "gw_toolCalls w \<le> B" and "6 * (B - gw_toolCalls w) + 5 < fuel"
  shows "\<exists>r. enforceGoal answer fuel w ok = Some r \<and> ended_well r \<and> length (ef_prompts r) \<le> 6 * (B - gw_toolCalls w) + 5"
  using enforce_loop_ends [OF assms(1), of "gw_toolCalls w" w 0 fuel False "[]" ok] assms(2,3)
  by (auto simp: enforceGoal_def rounds_left_def)

section \<open>The time of a turn\<close>

text \<open>
  The turn asks the policy whenever its time is up, and may ask before; an answer moves the deadline.
\<close>

record consultation =
  co_at :: time
  co_goal :: "goal_record option"
  co_meter :: grind_meter
  co_extend :: bool

definition consult :: "time \<Rightarrow> int \<Rightarrow> consultation \<Rightarrow> cap_policy \<Rightarrow> cap_policy \<times> time" where
  "consult promptStart wallClock c p =
     (case (if co_extend c then extendMs promptStart wallClock (co_goal c) (co_meter c) (co_at c) p
            else raceCapMs promptStart wallClock (co_goal c) (co_meter c) (co_at c) p) of
        (p1, n) \<Rightarrow> (p1, co_at c + n))"

fun run_turn :: "time \<Rightarrow> int \<Rightarrow> consultation list \<Rightarrow> cap_policy \<times> time \<Rightarrow> (cap_policy \<times> time) option" where
  "run_turn promptStart wallClock [] s = Some s"
| "run_turn promptStart wallClock (c # cs) s =
     (if co_at c < promptStart \<or> snd s < co_at c \<or> \<not> co_extend c \<and> snd (remainingCapMs promptStart wallClock (co_goal c) (co_meter c) (co_at c) (fst s)) < 1
      then None else run_turn promptStart wallClock cs (consult promptStart wallClock c (fst s)))"

definition floor_limit :: "time \<Rightarrow> int \<Rightarrow> time" where
  "floor_limit promptStart wallClock = promptStart + GOAL_FLOOR_MAX_MS + wallClock + GOAL_FLOOR_RECHECK_MS"

definition policy_ok :: "time \<Rightarrow> int \<Rightarrow> cap_policy \<times> time \<Rightarrow> bool" where
  "policy_ok promptStart wallClock s =
     (case fc_satisfiedAt (fst s) of
        None \<Rightarrow> snd s \<le> floor_limit promptStart wallClock
      | Some a \<Rightarrow> a \<le> floor_limit promptStart wallClock \<and> snd s \<le> floor_limit promptStart wallClock + wallClock)"

lemma note_satisfied [simp]: "fc_satisfiedAt (noteFloorProgress g m t p) = fc_satisfiedAt p"
  by (simp add: noteFloorProgress_def Let_def split: option.splits)

lemma remaining_ok:
  assumes "policy_ok ps wc (p, d)" and "0 < wc" "ps \<le> t" "t \<le> d" and "remainingCapMs ps wc g m t p = (p1, n)"
  shows "policy_ok ps wc (p1, t + max n 0)"
  using assms
  by (auto simp: policy_ok_def remainingCapMs_def floor_limit_def GOAL_FLOOR_MAX_MS_def GOAL_FLOOR_RECHECK_MS_def Let_def max_def
      split: option.splits if_splits)

lemma consult_ok:
  assumes "policy_ok ps wc (p, d)" and "0 < wc" "ps \<le> co_at c" "co_at c \<le> d"
    and "co_extend c \<or> 1 \<le> snd (remainingCapMs ps wc (co_goal c) (co_meter c) (co_at c) p)"
  shows "policy_ok ps wc (consult ps wc c p)"
proof (cases "co_extend c")
  case True
  let ?q = "noteFloorProgress (co_goal c) (co_meter c) (co_at c) p"
  obtain p1 n where r: "remainingCapMs ps wc (co_goal c) (co_meter c) (co_at c) ?q = (p1, n)" by fastforce
  have "policy_ok ps wc (?q, d)" using assms(1) by (simp add: policy_ok_def split: option.splits)
  from remaining_ok [OF this assms(2-4) r] True r show ?thesis by (simp add: consult_def extendMs_def)
next
  case False
  obtain p1 n where r: "remainingCapMs ps wc (co_goal c) (co_meter c) (co_at c) p = (p1, n)" by fastforce
  from remaining_ok [OF assms(1-4) r] False r assms(2,5) show ?thesis by (simp add: consult_def raceCapMs_def max_def)
qed

text \<open>
  However floors and goals change while it runs, a turn's deadline never passes four hours and two of its own
  wall clocks after its start, and one recheck.
\<close>

theorem turn_extension_bounded:
  assumes "0 < wallClock"
    and "run_turn promptStart wallClock cs (createFloorCapPolicy, promptStart + wallClock) = Some (p, deadline)"
  shows "deadline \<le> promptStart + GOAL_FLOOR_MAX_MS + 2 * wallClock + GOAL_FLOOR_RECHECK_MS"
proof -
  have step: "policy_ok promptStart wallClock s \<Longrightarrow> run_turn promptStart wallClock cs s = Some s' \<Longrightarrow> policy_ok promptStart wallClock s'" for s s'
  proof (induction cs arbitrary: s)
    case (Cons c cs)
    have c: "promptStart \<le> co_at c" "co_at c \<le> snd s"
      "co_extend c \<or> 1 \<le> snd (remainingCapMs promptStart wallClock (co_goal c) (co_meter c) (co_at c) (fst s))"
      "run_turn promptStart wallClock cs (consult promptStart wallClock c (fst s)) = Some s'"
      using Cons.prems(2) by (auto simp del: One_nat_def split: if_splits)
    have "policy_ok promptStart wallClock (fst s, snd s)" using Cons.prems(1) by simp
    from consult_ok [OF this assms(1) c(1-3)] c(4) show ?case by (rule Cons.IH)
  qed simp
  have "policy_ok promptStart wallClock (createFloorCapPolicy, promptStart + wallClock)"
    by (simp add: policy_ok_def createFloorCapPolicy_def floor_limit_def GOAL_FLOOR_MAX_MS_def GOAL_FLOOR_RECHECK_MS_def)
  from step [OF this assms(2)] show ?thesis using assms(1)
    by (auto simp: policy_ok_def floor_limit_def split: option.splits)
qed

section \<open>Giving up\<close>

text \<open>
  The calls of the tools over a session, with the rounds and turns they fall into. A round starts when the
  agent is prompted to go on; a turn starts with round 0, drops a goal that was closed, and takes up
  one from the history when there is none. The claims are the rounds in which the agent claimed, with a
  reason, to be blocked, since the goal was registered or taken up.
\<close>

datatype goal_op =
  OpCreate string "grind_budget option" "int option" time
| OpUpdate goal_status "string option" time
| OpMeter "call_usage option"
| OpRound
| OpTurn "goal_snapshot list"

record goal_run =
  gu_ref :: goal_ref
  gu_turn :: nat
  gu_claims :: "(nat \<times> nat) list"

definition is_claim :: "goal_op \<Rightarrow> goal_ref \<Rightarrow> bool" where
  "is_claim a r =
     (case a of OpUpdate GBlocked note now \<Rightarrow> trim (or_else note []) \<noteq> [] \<and> map_option go_status (gr_goal r) = Some GActive | _ \<Rightarrow> False)"

definition next_turn :: "goal_snapshot list \<Rightarrow> goal_ref \<Rightarrow> goal_ref" where
  "next_turn history r =
     (let kept = (case gr_goal r of None \<Rightarrow> None | Some g \<Rightarrow> if go_status g = GComplete \<or> go_status g = GBlocked then None else Some g)
      in r\<lparr>gr_goal := or_opt kept (rehydrateOpenGoal history), gr_round := 0\<rparr>)"

definition goal_step :: "goal_op \<Rightarrow> goal_run \<Rightarrow> goal_run" where
  "goal_step a u =
     (let r = gu_ref u; claims = (if is_claim a r then (gu_turn u, gr_round r) # gu_claims u else gu_claims u)
      in case a of
           OpCreate ob flr cap now \<Rightarrow>
             (case create_goal ob flr cap now r of (r1, res) \<Rightarrow> u\<lparr>gu_ref := r1, gu_claims := (if res = GoalRegistered then [] else gu_claims u)\<rparr>)
         | OpUpdate st note now \<Rightarrow> u\<lparr>gu_ref := fst (update_goal st note now r), gu_claims := claims\<rparr>
         | OpMeter x \<Rightarrow> u\<lparr>gu_ref := r\<lparr>gr_goal := map_option (\<lambda>g. meterGoalCall g x) (gr_goal r)\<rparr>\<rparr>
         | OpRound \<Rightarrow> u\<lparr>gu_ref := r\<lparr>gr_round := gr_round r + 1\<rparr>\<rparr>
         | OpTurn history \<Rightarrow>
             u\<lparr>gu_ref := next_turn history r, gu_turn := gu_turn u + 1,
               gu_claims := (if gr_goal (next_turn history r) = gr_goal r then gu_claims u else [])\<rparr>)"

definition goal_start :: goal_run where
  "goal_start = \<lparr>gu_ref = \<lparr>gr_goal = None, gr_round = 0, gr_lastBlockedRound = None\<rparr>, gu_turn = 0, gu_claims = []\<rparr>"

definition goal_inv :: "goal_run \<Rightarrow> bool" where
  "goal_inv u \<longleftrightarrow>
     (\<forall>g. gr_goal (gu_ref u) = Some g \<longrightarrow> go_blockedStreak g \<le> card (set (gu_claims u)) \<and> (go_status g = GBlocked \<longrightarrow> GOAL_BLOCKED_MIN_ROUNDS \<le> go_blockedStreak g)) \<and>
     (\<forall>(t, k) \<in> set (gu_claims u). t < gu_turn u \<or> t = gu_turn u \<and> (k < gr_round (gu_ref u) \<or> k = gr_round (gu_ref u) \<and> gr_lastBlockedRound (gu_ref u) = Some k))"

lemma rehydrated_fresh: "rehydrateOpenGoal h = Some g \<Longrightarrow> go_blockedStreak g = 0 \<and> go_status g \<noteq> GBlocked"
proof -
  have "rehydrate_from hs = Some g \<Longrightarrow> go_blockedStreak g = 0 \<and> go_status g \<noteq> GBlocked" for hs
    by (induction hs) (auto simp: reviveGoalRecord_def split: if_splits option.splits)
  then show "rehydrateOpenGoal h = Some g \<Longrightarrow> ?thesis" by (simp add: rehydrateOpenGoal_def)
qed

lemma update_round [simp]: "gr_round (fst (update_goal st note now r)) = gr_round r"
  by (auto simp: update_goal_def claim_blocked_def set_goal_def Let_def split: option.splits goal_status.splits)

lemma update_no_claim:
  assumes "\<not> is_claim (OpUpdate st note now) r"
  shows "gr_lastBlockedRound (fst (update_goal st note now r)) = gr_lastBlockedRound r \<and>
    (\<forall>g'. gr_goal (fst (update_goal st note now r)) = Some g' \<longrightarrow>
       (\<exists>g. gr_goal r = Some g \<and> go_blockedStreak g' = go_blockedStreak g \<and> (go_status g' = GBlocked \<longrightarrow> go_status g = GBlocked)))"
proof (cases "gr_goal r")
  case (Some g)
  then show ?thesis using assms
    by (cases st; cases "go_status g") (auto simp: update_goal_def is_claim_def set_goal_def)
qed (simp add: update_goal_def)

lemma update_claim:
  assumes "is_claim (OpUpdate st note now) r"
  obtains g where "gr_goal r = Some g" "fst (update_goal st note now r) = fst (claim_blocked (trim (or_else note [])) now g r)"
  using assms by (cases st; cases "gr_goal r") (auto simp: is_claim_def update_goal_def)

lemma claim_props:
  assumes "gr_goal r = Some g" and "gr_goal (fst (claim_blocked reason now g r)) = Some g'"
  shows "go_blockedStreak g' = go_blockedStreak g + (if gr_lastBlockedRound r = Some (gr_round r) then 0 else 1) \<and>
    (go_status g' = GBlocked \<longrightarrow> GOAL_BLOCKED_MIN_ROUNDS \<le> go_blockedStreak g' \<or> go_status g = GBlocked)"
  using assms by (auto simp: claim_blocked_def set_goal_def Let_def split: if_splits)

lemma claim_last: "gr_lastBlockedRound (fst (claim_blocked reason now g r)) = Some (gr_round r)"
  by (auto simp: claim_blocked_def set_goal_def Let_def)

lemma goal_inv_step: "goal_inv u \<Longrightarrow> goal_inv (goal_step a u)"
proof (cases a)
  case (OpUpdate st why now)
  assume inv: "goal_inv u"
  let ?r = "gu_ref u" and ?C = "set (gu_claims u)"
  show ?thesis
  proof (cases "is_claim a ?r")
    case False
    note n = update_no_claim [OF False [unfolded OpUpdate]]
    have u': "goal_step a u = u\<lparr>gu_ref := fst (update_goal st why now ?r), gu_claims := gu_claims u\<rparr>"
      using False OpUpdate by (simp add: goal_step_def Let_def)
    show ?thesis using inv n unfolding u' goal_inv_def by (fastforce simp: split_beta)
  next
    case True
    then obtain g where g: "gr_goal ?r = Some g" "fst (update_goal st why now ?r) = fst (claim_blocked (trim (or_else why [])) now g ?r)"
      using update_claim OpUpdate by blast
    let ?r1 = "fst (claim_blocked (trim (or_else why [])) now g ?r)"
    have u': "goal_step a u = u\<lparr>gu_ref := ?r1, gu_claims := (gu_turn u, gr_round ?r) # gu_claims u\<rparr>"
      using True OpUpdate g(2) by (simp add: goal_step_def Let_def)
    have round: "gr_round ?r1 = gr_round ?r" using update_round [of st why now ?r] g(2) by simp
    have old: "(t, k) \<in> ?C \<Longrightarrow> t < gu_turn u \<or> t = gu_turn u \<and> k \<le> gr_round ?r" for t k using inv unfolding goal_inv_def by force
    have fresh: "(gu_turn u, gr_round ?r) \<notin> ?C" if "gr_lastBlockedRound ?r \<noteq> Some (gr_round ?r)" using inv that unfolding goal_inv_def by fastforce
    have streak: "go_blockedStreak g \<le> card ?C" "go_status g = GBlocked \<longrightarrow> GOAL_BLOCKED_MIN_ROUNDS \<le> go_blockedStreak g"
      using inv g(1) unfolding goal_inv_def by blast+
    have "go_blockedStreak g' \<le> card (insert (gu_turn u, gr_round ?r) ?C) \<and> (go_status g' = GBlocked \<longrightarrow> GOAL_BLOCKED_MIN_ROUNDS \<le> go_blockedStreak g')"
      if "gr_goal ?r1 = Some g'" for g'
    proof (cases "gr_lastBlockedRound ?r = Some (gr_round ?r)")
      case True
      then show ?thesis using claim_props [OF g(1) that] streak card_insert_le [of ?C "(gu_turn u, gr_round ?r)"] by auto
    next
      case False
      then show ?thesis using claim_props [OF g(1) that] streak fresh [OF False] by auto
    qed
    moreover have "t < gu_turn u \<or> t = gu_turn u \<and> (k < gr_round ?r \<or> k = gr_round ?r \<and> gr_lastBlockedRound ?r1 = Some k)"
      if "(t, k) \<in> set ((gu_turn u, gr_round ?r) # gu_claims u)" for t k
      using that old [of t k] claim_last [of "trim (or_else why [])" now g ?r] by auto
    ultimately show ?thesis unfolding u' goal_inv_def using round by auto
  qed
next
  case (OpCreate ob flr cap now)
  assume "goal_inv u"
  then show ?thesis
    by (auto simp: goal_inv_def goal_step_def OpCreate create_goal_def createGoalRecord_def Let_def split: option.splits sum.splits if_splits)
next
  case (OpTurn history)
  assume inv: "goal_inv u"
  have "go_blockedStreak g \<le> card (set (if gr_goal (next_turn history (gu_ref u)) = gr_goal (gu_ref u) then gu_claims u else [])) \<and>
      (go_status g = GBlocked \<longrightarrow> GOAL_BLOCKED_MIN_ROUNDS \<le> go_blockedStreak g)"
    if "gr_goal (next_turn history (gu_ref u)) = Some g" for g
    using that inv rehydrated_fresh [of history g]
    by (auto simp: next_turn_def goal_inv_def Let_def split: option.splits if_splits)
  moreover have "t < gu_turn u + 1" if "(t, k) \<in> set (gu_claims u)" for t k using inv that unfolding goal_inv_def by fastforce
  moreover have "goal_step a u = u\<lparr>gu_ref := next_turn history (gu_ref u), gu_turn := gu_turn u + 1,
      gu_claims := (if gr_goal (next_turn history (gu_ref u)) = gr_goal (gu_ref u) then gu_claims u else [])\<rparr>"
    by (simp add: goal_step_def OpTurn Let_def)
  ultimately show ?thesis unfolding goal_inv_def by (auto split: if_splits)
qed (fastforce simp: goal_inv_def goal_step_def meterGoalCall_def Let_def)+

text \<open>
  C16. Over any calls of the tools, rounds and turns: a goal is marked blocked only after the agent has claimed so, with
  a reason, in three different rounds since the goal was registered or taken up. Nothing compares
  the reasons: the application below gives three that differ.
\<close>

theorem blocked_takes_three_rounds:
  assumes "gr_goal (gu_ref (fold goal_step as goal_start)) = Some g" and "go_status g = GBlocked"
  shows "3 \<le> card (set (gu_claims (fold goal_step as goal_start)))"
proof -
  have "goal_inv u \<Longrightarrow> goal_inv (fold goal_step as u)" for u
    by (induction as arbitrary: u) (auto simp: goal_inv_step)
  moreover have "goal_inv goal_start" by (simp add: goal_inv_def goal_start_def)
  ultimately have "goal_inv (fold goal_step as goal_start)" by blast
  then show ?thesis using assms unfolding goal_inv_def GOAL_BLOCKED_MIN_ROUNDS_def by force
qed

section \<open>The theorems applied\<close>

definition ex_goal :: goal_record where
  "ex_goal =
     \<lparr>go_objective = ''all green'', go_status = GActive, go_floor = None, go_capTokens = None, go_tokensUsed = 0, go_createdAt = 0, go_updatedAt = 0,
      go_blockedStreak = 0, go_blockedReason = None, go_completionNote = None\<rparr>"

definition ex_goal_world :: goal_world where
  "ex_goal_world = \<lparr>gw_goal = ex_goal, gw_meter = createGrindMeter 0, gw_toolCalls = 2, gw_blocked = False, gw_now = 10\<rparr>"

text \<open>A model that does nothing is released after four prompts.\<close>

theorem enforcement_ends_witness:
  "\<exists>r. enforceGoal (\<lambda>n p w. (w, True)) 6 ex_goal_world True = Some r \<and> ended_well r \<and>
     ef_waiver r = GoalWaived \<and> ef_prompts r = replicate 4 ContinuationPrompt"
proof -
  have "answers_bounded (\<lambda>n p w. (w, True)) 2" "gw_toolCalls ex_goal_world \<le> 2" "6 * (2 - gw_toolCalls ex_goal_world) + 5 < 6"
    by (simp_all add: answers_bounded_def ex_goal_world_def)
  from enforcement_ends [OF this, of True] obtain r where r: "enforceGoal (\<lambda>n p w. (w, True)) 6 ex_goal_world True = Some r" "ended_well r" by blast
  moreover have "map_option (\<lambda>r. (ef_waiver r, ef_prompts r)) (enforceGoal (\<lambda>n p w. (w, True)) 6 ex_goal_world True) =
      Some (GoalWaived, replicate 4 ContinuationPrompt)" by code_simp
  ultimately show ?thesis by simp
qed

definition ex_floor_goal :: goal_record where
  "ex_floor_goal = ex_goal\<lparr>go_floor := Some \<lparr>gb_minTurns = Some 9, gb_minMs = None, gb_minTokens = None, gb_minUsd = None\<rparr>\<rparr>"

definition ex_consultations :: "consultation list" where
  "ex_consultations = [\<lparr>co_at = 1000, co_goal = Some ex_floor_goal, co_meter = createGrindMeter 0, co_extend = True\<rparr>]"

theorem turn_extension_bounded_witness:
  "\<exists>p. run_turn 0 1000 ex_consultations (createFloorCapPolicy, 0 + 1000) = Some (p, 61000) \<and>
     61000 \<le> 0 + GOAL_FLOOR_MAX_MS + 2 * 1000 + GOAL_FLOOR_RECHECK_MS"
proof -
  have "map_option snd (run_turn 0 1000 ex_consultations (createFloorCapPolicy, 0 + 1000)) = Some 61000" by code_simp
  then obtain p where p: "run_turn 0 1000 ex_consultations (createFloorCapPolicy, 0 + 1000) = Some (p, 61000)" by auto
  with turn_extension_bounded [OF _ p] show ?thesis by auto
qed

definition ex_goal_ops :: "goal_op list" where
  "ex_goal_ops =
     [OpCreate ''all green'' None None 0, OpUpdate GBlocked (Some ''no network'') 1, OpRound, OpUpdate GBlocked (Some ''no disk'') 2, OpRound,
      OpUpdate GBlocked (Some ''no patience'') 3]"

theorem blocked_takes_three_rounds_witness:
  "map_option go_status (gr_goal (gu_ref (fold goal_step ex_goal_ops goal_start))) = Some GBlocked \<and>
   3 \<le> card (set (gu_claims (fold goal_step ex_goal_ops goal_start)))"
proof -
  have s: "map_option go_status (gr_goal (gu_ref (fold goal_step ex_goal_ops goal_start))) = Some GBlocked" by code_simp
  then obtain g where "gr_goal (gu_ref (fold goal_step ex_goal_ops goal_start)) = Some g" "go_status g = GBlocked" by auto
  from blocked_takes_three_rounds [OF this] s show ?thesis by simp
qed

end
