(* ===== verification/Projects.thy ===== *)
theory Projects
  imports Durable_Map Scopes
begin

text \<open>
  Projects (\<open>src/projects/project-store.ts\<close>): a group of people with an owner, the members they
  add, and the members of a channel that may be linked to it. Others rely on the version of a project to
  notice that its roster has changed. The times, the new identifiers, the organisation and who is active are
  arguments; a lock serializes the mutations of a project, so each is one step. The effect a caller passes
  runs after a mutation that answers \<open>PMOk\<close>, with that answer.
\<close>

section \<open>Projects\<close>

record project_channel =
  pc_channelId :: string
  pc_channelName :: string
  pc_linkedBy :: string
  pc_linkedAt :: time

record project =
  pj_id :: string
  pj_orgId :: string
  pj_name :: string
  pj_ownerId :: string
  pj_memberIds :: "string list"
  pj_channelMemberIds :: "string list option"
  pj_slackChannel :: "project_channel option"
  pj_createdAt :: time
  pj_updatedAt :: time

datatype project_mutation =
  PMOk project bool | PMNotFound | PMForbidden | PMInvalidMember | PMInvalidName

definition PROJECT_GROUP_PREFIX :: string where "PROJECT_GROUP_PREFIX = ''web-project-''"

definition projectGroupRef :: "string \<Rightarrow> string" where
  "projectGroupRef i = PROJECT_GROUP_PREFIX @ i"

definition projectScopeId :: "string \<Rightarrow> scope_id" where
  "projectScopeId i = scopeId Group (projectGroupRef i)"

definition isProjectGroupRef :: "string \<Rightarrow> bool" where
  "isProjectGroupRef ref = startsWith ref PROJECT_GROUP_PREFIX"

definition projectIdFromGroupRef :: "string \<Rightarrow> string option" where
  "projectIdFromGroupRef ref =
     (if \<not> isProjectGroupRef ref then None
      else let i = drop (length PROJECT_GROUP_PREFIX) ref in if i \<noteq> [] \<and> CHR '':'' \<notin> set i then Some i else None)"

definition clean_project_name :: "string \<Rightarrow> string" where
  "clean_project_name n = take 200 (collapse_spaces (trim n))"

definition effectiveMemberIds :: "project \<Rightarrow> string list" where
  "effectiveMemberIds p = js_set_of (pj_memberIds p @ or_else (pj_channelMemberIds p) [])"

definition projectForGroup :: "string \<Rightarrow> project dmap \<Rightarrow> string \<Rightarrow> project option" where
  "projectForGroup org m ref =
     (case projectIdFromGroupRef ref of
        None \<Rightarrow> None
      | Some i \<Rightarrow> (case dm_get m i of None \<Rightarrow> None | Some p \<Rightarrow> if pj_orgId p = org then Some p else None))"

section \<open>Changes\<close>

text \<open>The callback of \<open>backing.update\<close> decides and changes; every answer but \<open>PMOk\<close> leaves the project.\<close>

definition update_project :: "(project \<Rightarrow> project_mutation) \<Rightarrow> string \<Rightarrow> project dmap \<Rightarrow> project dmap \<times> project_mutation" where
  "update_project f i m =
     (case dm_update m i (\<lambda>p. case f p of PMOk q c \<Rightarrow> q | _ \<Rightarrow> p) of
        (m', None) \<Rightarrow> (m', PMNotFound)
      | (m', Some q) \<Rightarrow> (m', case dm_get m i of None \<Rightarrow> PMNotFound | Some p \<Rightarrow> f p))"

definition change_roster :: "(string \<Rightarrow> bool) \<Rightarrow> time \<Rightarrow> string \<Rightarrow> string \<Rightarrow> bool \<Rightarrow> project \<Rightarrow> project_mutation" where
  "change_roster active now actorId memberId add p =
     (let canChangeRoster =
            (if add then list_ex (\<lambda>x. samePerson (Some x) (Some actorId)) (pj_memberIds p)
             else samePerson (Some (pj_ownerId p)) (Some actorId))
      in if \<not> canChangeRoster \<or> \<not> active (pj_ownerId p) \<or> \<not> active actorId then PMForbidden
         else if samePerson (Some memberId) (Some (pj_ownerId p)) then PMInvalidMember
         else
           (let memberIds =
                  (if add then js_set_of (pj_memberIds p @ [memberId]) else filter (\<lambda>x. x \<noteq> memberId) (pj_memberIds p))
            in if memberIds = pj_memberIds p then PMOk p False
               else PMOk (p\<lparr>pj_memberIds := memberIds, pj_updatedAt := max now (pj_updatedAt p + 1)\<rparr>) True))"

definition mutate_roster ::
  "(string \<Rightarrow> bool) \<Rightarrow> time \<Rightarrow> string \<Rightarrow> string \<Rightarrow> string \<Rightarrow> bool \<Rightarrow> project dmap \<Rightarrow> project dmap \<times> project_mutation" where
  "mutate_roster active now i actorId memberId add m =
     (if memberId = [] then (m, PMInvalidMember) else update_project (change_roster active now actorId memberId add) i m)"

definition addMember ::
  "(string \<Rightarrow> bool) \<Rightarrow> time \<Rightarrow> string \<Rightarrow> string \<Rightarrow> string \<Rightarrow> project dmap \<Rightarrow> project dmap \<times> project_mutation" where
  "addMember active now i actorId memberId m = mutate_roster active now i actorId memberId True m"

definition removeMember ::
  "(string \<Rightarrow> bool) \<Rightarrow> time \<Rightarrow> string \<Rightarrow> string \<Rightarrow> string \<Rightarrow> project dmap \<Rightarrow> project dmap \<times> project_mutation" where
  "removeMember active now i actorId memberId m = mutate_roster active now i actorId memberId False m"

datatype project_error = ProjectIncomplete | ProjectCollision

definition createProject ::
  "string \<Rightarrow> time \<Rightarrow> string \<Rightarrow> string \<Rightarrow> string \<Rightarrow> project dmap \<Rightarrow> project dmap \<times> (project_error + project)" where
  "createProject org now i rawName ownerId m =
     (let name = clean_project_name rawName
      in if name = [] \<or> ownerId = [] then (m, Inl ProjectIncomplete)
         else
           (case putIfAbsent m i
                   \<lparr>pj_id = i, pj_orgId = org, pj_name = name, pj_ownerId = ownerId, pj_memberIds = [ownerId],
                    pj_channelMemberIds = None, pj_slackChannel = None, pj_createdAt = now, pj_updatedAt = now\<rparr> of
              (m', stored) \<Rightarrow>
                if pj_createdAt stored \<noteq> now \<or> pj_ownerId stored \<noteq> ownerId then (m', Inl ProjectCollision) else (m', Inr stored)))"

definition rename_step :: "(string \<Rightarrow> bool) \<Rightarrow> string \<Rightarrow> string \<Rightarrow> project \<Rightarrow> project_mutation" where
  "rename_step active ownerId name p =
     (if pj_ownerId p \<noteq> ownerId \<or> \<not> active ownerId then PMForbidden
      else if pj_name p = name then PMOk p False else PMOk (p\<lparr>pj_name := name\<rparr>) True)"

definition renameProject ::
  "(string \<Rightarrow> bool) \<Rightarrow> string \<Rightarrow> string \<Rightarrow> string \<Rightarrow> project dmap \<Rightarrow> project dmap \<times> project_mutation" where
  "renameProject active i ownerId name m =
     (let clean = clean_project_name name
      in if clean = [] then (m, PMInvalidName) else update_project (rename_step active ownerId clean) i m)"

definition link_step :: "(string \<Rightarrow> bool) \<Rightarrow> time \<Rightarrow> string \<Rightarrow> (string \<times> string) option \<Rightarrow> project \<Rightarrow> project_mutation" where
  "link_step active now actorId lnk p =
     (if \<not> list_ex (\<lambda>x. samePerson (Some x) (Some actorId)) (pj_memberIds p) \<or> \<not> active (pj_ownerId p) \<or> \<not> active actorId
      then PMForbidden
      else
        (case lnk of
           None \<Rightarrow>
             if pj_slackChannel p = None then PMOk p False
             else PMOk (p\<lparr>pj_slackChannel := None, pj_channelMemberIds := None\<rparr>) True
         | Some (channelId, channelName) \<Rightarrow>
             if (case pj_slackChannel p of
                   None \<Rightarrow> False
                 | Some c \<Rightarrow> pc_channelId c = channelId \<and> pc_channelName c = channelName)
             then PMOk p False
             else PMOk (p\<lparr>pj_slackChannel :=
                     Some \<lparr>pc_channelId = channelId, pc_channelName = channelName, pc_linkedBy = actorId, pc_linkedAt = now\<rparr>\<rparr>) True))"

definition setSlackChannel ::
  "(string \<Rightarrow> bool) \<Rightarrow> time \<Rightarrow> string \<Rightarrow> string \<Rightarrow> (string \<times> string) option \<Rightarrow> project dmap \<Rightarrow> project dmap \<times> project_mutation" where
  "setSlackChannel active now i actorId lnk m = update_project (link_step active now actorId lnk) i m"

definition sort_ids :: "string list \<Rightarrow> string list" where
  "sort_ids = js_sort (\<lambda>a b. if a < b then -1 else if a > b then 1 else 0)"

definition sync_step :: "(string \<Rightarrow> bool) \<Rightarrow> time \<Rightarrow> string list \<Rightarrow> string option \<Rightarrow> project \<Rightarrow> project_mutation" where
  "sync_step active now after channelName p =
     (case pj_slackChannel p of
        None \<Rightarrow> PMForbidden
      | Some c \<Rightarrow>
          if \<not> active (pj_ownerId p) then PMForbidden
          else
            (let sameMembers = (sort_ids (or_else (pj_channelMemberIds p) []) = after);
                 nextName = or_else channelName (pc_channelName c)
             in if sameMembers \<and> nextName = pc_channelName c then PMOk p False
                else PMOk (p\<lparr>pj_channelMemberIds := Some after, pj_slackChannel := Some (c\<lparr>pc_channelName := nextName\<rparr>),
                         pj_updatedAt := (if sameMembers then pj_updatedAt p else max now (pj_updatedAt p + 1))\<rparr>) True))"

definition syncChannelMembers ::
  "(string \<Rightarrow> bool) \<Rightarrow> time \<Rightarrow> string \<Rightarrow> string list \<Rightarrow> string option \<Rightarrow> project dmap \<Rightarrow> project dmap \<times> project_mutation" where
  "syncChannelMembers active now i memberIds channelName m =
     update_project (sync_step active now (sort_ids (js_set_of memberIds)) channelName) i m"

section \<open>Questions\<close>

definition listForMember :: "string \<Rightarrow> (string \<Rightarrow> bool) \<Rightarrow> string \<Rightarrow> project dmap \<Rightarrow> project list" where
  "listForMember org active principalId m =
     js_sort (\<lambda>a b. pj_updatedAt b - pj_updatedAt a)
       (filter (\<lambda>p. pj_orgId p = org \<and> active (pj_ownerId p) \<and> active principalId \<and> principalId \<in> set (effectiveMemberIds p)) (dm_all m))"

definition listLinked :: "string \<Rightarrow> (string \<Rightarrow> bool) \<Rightarrow> project dmap \<Rightarrow> project list" where
  "listLinked org active m = filter (\<lambda>p. pj_orgId p = org \<and> pj_slackChannel p \<noteq> None \<and> active (pj_ownerId p)) (dm_all m)"

definition project_channel_of :: "string \<Rightarrow> (string \<Rightarrow> bool) \<Rightarrow> project dmap \<Rightarrow> string \<Rightarrow> project_channel option" where
  "project_channel_of org active m ref =
     (case projectForGroup org m ref of None \<Rightarrow> None | Some p \<Rightarrow> if active (pj_ownerId p) then pj_slackChannel p else None)"

definition project_membership :: "string \<Rightarrow> (string \<Rightarrow> bool) \<Rightarrow> project dmap \<Rightarrow> string \<Rightarrow> string \<Rightarrow> bool option" where
  "project_membership org active m ref principalId =
     map_option (\<lambda>p. active (pj_ownerId p) \<and> active principalId \<and> principalId \<in> set (effectiveMemberIds p)) (projectForGroup org m ref)"

definition project_members :: "string \<Rightarrow> (string \<Rightarrow> bool) \<Rightarrow> project dmap \<Rightarrow> string \<Rightarrow> string list option" where
  "project_members org active m ref =
     map_option (\<lambda>p. if active (pj_ownerId p) then filter active (effectiveMemberIds p) else []) (projectForGroup org m ref)"

definition project_version :: "string \<Rightarrow> project dmap \<Rightarrow> string \<Rightarrow> string option" where
  "project_version org m ref = map_option (\<lambda>p. show_int (pj_updatedAt p)) (projectForGroup org m ref)"

text \<open>\<open>withVersion\<close> and \<open>withRosterLock\<close> run a function of the caller while nothing else changes the project.\<close>

definition withVersion :: "string \<Rightarrow> string \<Rightarrow> string option \<Rightarrow> (project dmap \<Rightarrow> 'a) \<Rightarrow> project dmap \<Rightarrow> 'a option" where
  "withVersion org ref version fn m =
     (case projectIdFromGroupRef ref of
        None \<Rightarrow> None
      | Some i \<Rightarrow>
          (case dm_get m i of
             None \<Rightarrow> None
           | Some p \<Rightarrow> if pj_orgId p \<noteq> org \<or> Some (show_int (pj_updatedAt p)) \<noteq> version then None else Some (fn m)))"

definition project_name_of :: "string \<Rightarrow> (string \<Rightarrow> bool) \<Rightarrow> project dmap \<Rightarrow> string \<Rightarrow> string option" where
  "project_name_of org active m ref =
     (case projectForGroup org m ref of None \<Rightarrow> None | Some p \<Rightarrow> if active (pj_ownerId p) then Some (pj_name p) else None)"

definition withRosterLock :: "string \<Rightarrow> (project \<Rightarrow> 'a) \<Rightarrow> project dmap \<Rightarrow> 'a option" where
  "withRosterLock i fn m = map_option fn (dm_get m i)"

section \<open>Histories\<close>

text \<open>One mutation of the store, with who is active and what time it is then.\<close>

datatype project_op =
  POCreate string string string | POAdd string string string | PORemove string string string | PORename string string string
| POLink string string "(string \<times> string) option" | POSync string "string list" "string option"

type_synonym project_event = "(string \<Rightarrow> bool) \<times> time \<times> project_op"

fun project_step :: "string \<Rightarrow> project_event \<Rightarrow> project dmap \<Rightarrow> project dmap" where
  "project_step org (active, now, POCreate i name owner) m = fst (createProject org now i name owner m)"
| "project_step org (active, now, POAdd i actor member) m = fst (addMember active now i actor member m)"
| "project_step org (active, now, PORemove i actor member) m = fst (removeMember active now i actor member m)"
| "project_step org (active, now, PORename i owner name) m = fst (renameProject active i owner name m)"
| "project_step org (active, now, POLink i actor lnk) m = fst (setSlackChannel active now i actor lnk m)"
| "project_step org (active, now, POSync i members name) m = fst (syncChannelMembers active now i members name m)"

fun unlinks :: "string \<Rightarrow> project_event \<Rightarrow> bool" where
  "unlinks i (active, now, POLink j actor None) = (j = i)"
| "unlinks i _ = False"

lemma map_get_update_project:
  "map_get (fst (update_project f i m)) j =
     (if j = i then map_option (\<lambda>p. case f p of PMOk q c \<Rightarrow> q | _ \<Rightarrow> p) (map_get m i) else map_get m j)"
  by (simp add: update_project_def dm_update_def split: option.split prod.split)

lemma set_sort_ids [simp]: "set (sort_ids xs) = set xs"
  by (simp add: sort_ids_def)

lemma set_effective [simp]: "set (effectiveMemberIds p) = set (pj_memberIds p) \<union> set (or_else (pj_channelMemberIds p) [])"
  by (simp add: effectiveMemberIds_def)

lemma map_get_createProject:
  "map_get m i = Some p \<Longrightarrow> map_get (fst (createProject org now j nm owner m)) i = Some p"
  by (auto simp: createProject_def putIfAbsent_def Let_def split: option.split)

section \<open>The roster and its version\<close>

text \<open>What one mutation does to a stored project.\<close>

lemma change_roster_cases:
  assumes "change_roster active now actor member add p = PMOk q c"
  obtains "q = p"
  | "pj_updatedAt p < pj_updatedAt q" "pj_channelMemberIds q = pj_channelMemberIds p" "pj_ownerId q = pj_ownerId p"
    "\<not> samePerson (Some member) (Some (pj_ownerId p))" "active actor"
    "if add then list_ex (\<lambda>x. samePerson (Some x) (Some actor)) (pj_memberIds p) \<and> set (pj_memberIds q) = insert member (set (pj_memberIds p))
     else samePerson (Some (pj_ownerId p)) (Some actor) \<and> set (pj_memberIds q) = set (pj_memberIds p) - {member}"
proof (cases "q = p")
  case False
  have minus: "set (filter (\<lambda>x. x \<noteq> member) xs) = set xs - {member}" for xs by auto
  from False assms show ?thesis
    by (intro that(2)) (auto simp: change_roster_def Let_def minus simp del: set_filter split: if_splits)
qed

lemma sort_ids_same: "sort_ids xs = ys \<Longrightarrow> set xs = set ys"
  using set_sort_ids by metis

lemma sync_step_cases:
  assumes "sync_step active now after nm p = PMOk q c"
  shows "pj_memberIds q = pj_memberIds p \<and> pj_ownerId q = pj_ownerId p \<and>
    (pj_updatedAt p < pj_updatedAt q \<or>
     pj_updatedAt q = pj_updatedAt p \<and> set (or_else (pj_channelMemberIds q) []) = set (or_else (pj_channelMemberIds p) []))"
  using assms by (auto simp: sync_step_def Let_def or_else_def dest!: sort_ids_same split: if_splits option.splits)

lemma rename_step_cases:
  "rename_step active owner nm p = PMOk q c \<Longrightarrow>
     pj_memberIds q = pj_memberIds p \<and> pj_ownerId q = pj_ownerId p \<and> pj_updatedAt q = pj_updatedAt p \<and> pj_channelMemberIds q = pj_channelMemberIds p"
  by (auto simp: rename_step_def split: if_splits)

lemma link_step_cases:
  "link_step active now actor lnk p = PMOk q c \<Longrightarrow>
     pj_memberIds q = pj_memberIds p \<and> pj_ownerId q = pj_ownerId p \<and> pj_updatedAt q = pj_updatedAt p \<and>
     (pj_channelMemberIds q = pj_channelMemberIds p \<or> lnk = None \<and> pj_channelMemberIds q = None)"
  by (auto simp: link_step_def split: if_splits option.splits prod.splits)

text \<open>The roster a project has at two times is the same when its version is, unless the channel was unlinked.\<close>

definition roster_kept :: "project \<Rightarrow> project \<Rightarrow> bool" where
  "roster_kept p q \<longleftrightarrow> pj_updatedAt p < pj_updatedAt q \<or>
     pj_updatedAt q = pj_updatedAt p \<and> set (effectiveMemberIds q) = set (effectiveMemberIds p)"

lemma roster_kept_refl [simp]: "roster_kept p p"
  by (simp add: roster_kept_def)

lemma roster_kept_trans: "roster_kept p q \<Longrightarrow> roster_kept q r \<Longrightarrow> roster_kept p r"
  unfolding roster_kept_def by (elim disjE conjE) (simp_all del: set_effective)

lemma update_project_kept:
  assumes "map_get m i = Some p" and "\<And>q c. j = i \<Longrightarrow> f p = PMOk q c \<Longrightarrow> R p q" and "R p p"
  shows "\<exists>q. map_get (fst (update_project f j m)) i = Some q \<and> R p q"
  using assms by (cases "f p") (auto simp: map_get_update_project)

lemma project_step_kept:
  assumes "map_get m i = Some p"
    and "\<And>active now actor member add q c. change_roster active now actor member add p = PMOk q c \<Longrightarrow> R p q"
    and "\<And>active owner nm q c. rename_step active owner nm p = PMOk q c \<Longrightarrow> R p q"
    and "\<And>active now actor lnk q c. e = (active, now, POLink i actor lnk) \<Longrightarrow> link_step active now actor lnk p = PMOk q c \<Longrightarrow> R p q"
    and "\<And>active now after nm q c. sync_step active now after nm p = PMOk q c \<Longrightarrow> R p q"
    and "R p p"
  shows "\<exists>q. map_get (project_step org e m) i = Some q \<and> R p q"
proof (cases "(org, e, m)" rule: project_step.cases)
  case (1 org' active now j nm owner m')
  then show ?thesis using assms(1,6) by (auto dest: map_get_createProject)
next
  case (2 org' active now j actor member m')
  then show ?thesis
    using assms(1,6) update_project_kept [where R = R, OF assms(1) assms(2) assms(6)] by (auto simp: addMember_def mutate_roster_def)
next
  case (3 org' active now j actor member m')
  then show ?thesis
    using assms(1,6) update_project_kept [where R = R, OF assms(1) assms(2) assms(6)] by (auto simp: removeMember_def mutate_roster_def)
next
  case (4 org' active now j owner nm m')
  then show ?thesis
    using assms(1,6) update_project_kept [where R = R, OF assms(1) assms(3) assms(6)] by (auto simp: renameProject_def Let_def)
next
  case (5 org' active now j actor lnk m')
  then show ?thesis
    using update_project_kept [where R = R and j = j and f = "link_step active now actor lnk", OF assms(1) _ assms(6)] assms(4)
    by (auto simp: setSlackChannel_def)
next
  case (6 org' active now j members nm m')
  then show ?thesis
    using update_project_kept [where R = R, OF assms(1) assms(5) assms(6)] by (auto simp: syncChannelMembers_def)
qed

lemma step_keeps_roster:
  assumes "map_get m i = Some p" and "\<not> unlinks i e"
  shows "\<exists>q. map_get (project_step org e m) i = Some q \<and> roster_kept p q"
proof (rule project_step_kept [where R = roster_kept, OF assms(1)])
  show "roster_kept p q" if "change_roster active now actor member add p = PMOk q c" for active now actor member add q c
    using that by (cases rule: change_roster_cases) (auto simp: roster_kept_def)
  show "roster_kept p q" if "rename_step active owner nm p = PMOk q c" for active owner nm q c
    using rename_step_cases [OF that] by (simp add: roster_kept_def)
  show "roster_kept p q" if "sync_step active now after nm p = PMOk q c" for active now after nm q c
    using sync_step_cases [OF that] by (auto simp: roster_kept_def)
  show "roster_kept p q" if "e = (active, now, POLink i actor lnk)" "link_step active now actor lnk p = PMOk q c" for active now actor lnk q c
    using link_step_cases [OF that(2)] that(1) assms(2) by (cases lnk) (auto simp: roster_kept_def)
qed simp

lemma steps_keep_roster:
  "map_get m i = Some p \<Longrightarrow> list_all (\<lambda>e. \<not> unlinks i e) es \<Longrightarrow> \<exists>q. map_get (fold (project_step org) es m) i = Some q \<and> roster_kept p q"
proof (induction es arbitrary: m p)
  case (Cons e es)
  from step_keeps_roster [OF Cons.prems(1), of e org] Cons.prems(2) obtain q where
    q: "map_get (project_step org e m) i = Some q" "roster_kept p q" by auto
  from Cons.IH [OF q(1)] Cons.prems(2) q(2) show ?case by (auto intro: roster_kept_trans)
qed simp

text \<open>
  C29. The version of a project tells whether its roster has changed, over any mutations but one: unlinking the
  channel takes the channel's members off the roster and leaves the version as it was.
\<close>

theorem project_version_pins_roster:
  assumes "map_get m i = Some p"
  shows "(list_all (\<lambda>e. \<not> unlinks i e) es \<longrightarrow>
       (\<exists>q. map_get (fold (project_step org) es m) i = Some q \<and> pj_updatedAt p \<le> pj_updatedAt q \<and>
          (pj_updatedAt q = pj_updatedAt p \<longrightarrow> set (effectiveMemberIds q) = set (effectiveMemberIds p)))) \<and>
    (list_ex (\<lambda>x. samePerson (Some x) (Some actor)) (pj_memberIds p) \<and> active (pj_ownerId p) \<and> active actor \<and> pj_slackChannel p \<noteq> None \<longrightarrow>
       (\<exists>q. map_get (project_step org (active, now, POLink i actor None) m) i = Some q \<and> pj_updatedAt q = pj_updatedAt p \<and>
          set (effectiveMemberIds q) = set (pj_memberIds p)))"
proof (intro conjI impI)
  assume "list_all (\<lambda>e. \<not> unlinks i e) es"
  from steps_keep_roster [OF assms this, of org] show "\<exists>q. map_get (fold (project_step org) es m) i = Some q \<and> pj_updatedAt p \<le> pj_updatedAt q \<and>
          (pj_updatedAt q = pj_updatedAt p \<longrightarrow> set (effectiveMemberIds q) = set (effectiveMemberIds p))"
    by (auto simp: roster_kept_def)
next
  assume "list_ex (\<lambda>x. samePerson (Some x) (Some actor)) (pj_memberIds p) \<and> active (pj_ownerId p) \<and> active actor \<and> pj_slackChannel p \<noteq> None"
  then have "link_step active now actor None p = PMOk (p\<lparr>pj_slackChannel := None, pj_channelMemberIds := None\<rparr>) True"
    by (auto simp: link_step_def)
  then show "\<exists>q. map_get (project_step org (active, now, POLink i actor None) m) i = Some q \<and> pj_updatedAt q = pj_updatedAt p \<and>
          set (effectiveMemberIds q) = set (pj_memberIds p)"
    using assms by (simp add: setSlackChannel_def map_get_update_project or_else_def)
qed

definition owned :: "project \<Rightarrow> project \<Rightarrow> bool" where
  "owned p q \<longleftrightarrow> pj_ownerId q = pj_ownerId p \<and> (pj_ownerId p \<in> set (pj_memberIds p) \<longrightarrow> pj_ownerId q \<in> set (pj_memberIds q))"

lemma samePerson_refl: "personKey a \<noteq> [] \<Longrightarrow> samePerson a a"
  by (simp add: samePerson_def)

lemma step_keeps_owner:
  assumes "map_get m i = Some p" and "personKey (Some (pj_ownerId p)) \<noteq> []"
  shows "\<exists>q. map_get (project_step org e m) i = Some q \<and> owned p q"
proof (rule project_step_kept [where R = owned, OF assms(1)])
  show "owned p q" if "change_roster active now actor member add p = PMOk q c" for active now actor member add q c
    using that samePerson_refl [OF assms(2)] by (cases rule: change_roster_cases) (auto simp: owned_def split: if_splits)
  show "owned p q" if "rename_step active owner nm p = PMOk q c" for active owner nm q c
    using rename_step_cases [OF that] by (simp add: owned_def)
  show "owned p q" if "sync_step active now after nm p = PMOk q c" for active now after nm q c
    using sync_step_cases [OF that] by (auto simp: owned_def)
  show "owned p q" if "link_step active now actor lnk p = PMOk q c" for active now actor lnk q c
    using link_step_cases [OF that] by (auto simp: owned_def)
qed (simp add: owned_def)

lemma steps_keep_owner:
  "map_get m i = Some p \<Longrightarrow> personKey (Some (pj_ownerId p)) \<noteq> [] \<Longrightarrow>
     \<exists>q. map_get (fold (project_step org) es m) i = Some q \<and> owned p q"
proof (induction es arbitrary: m p)
  case (Cons e es)
  from step_keeps_owner [OF Cons.prems, of org e] obtain q where
    q: "map_get (project_step org e m) i = Some q" "owned p q" by blast
  with Cons.IH [OF q(1)] Cons.prems(2) obtain r where "map_get (fold (project_step org) es (project_step org e m)) i = Some r" "owned q r"
    by (auto simp: owned_def)
  with q(2) show ?case by (auto simp: owned_def)
qed (simp add: owned_def)

definition in_by_member :: "string \<Rightarrow> project_event \<Rightarrow> project \<Rightarrow> string \<Rightarrow> bool" where
  "in_by_member i e p x \<longleftrightarrow> (\<exists>active now actor. e = (active, now, POAdd i actor x) \<and> active actor \<and>
     list_ex (\<lambda>y. samePerson (Some y) (Some actor)) (pj_memberIds p))"

definition out_by_owner :: "string \<Rightarrow> project_event \<Rightarrow> project \<Rightarrow> string \<Rightarrow> bool" where
  "out_by_owner i e p x \<longleftrightarrow> (\<exists>active now actor. e = (active, now, PORemove i actor x) \<and> active actor \<and>
     samePerson (Some (pj_ownerId p)) (Some actor))"

definition authorized_change :: "string \<Rightarrow> project_event \<Rightarrow> project \<Rightarrow> project \<Rightarrow> bool" where
  "authorized_change i e p q \<longleftrightarrow>
     (\<forall>x \<in> set (pj_memberIds q) - set (pj_memberIds p). in_by_member i e p x) \<and>
     (\<forall>x \<in> set (pj_memberIds p) - set (pj_memberIds q). out_by_owner i e p x)"

lemma authorized_same [simp]: "pj_memberIds q = pj_memberIds p \<Longrightarrow> authorized_change i e p q"
  by (simp add: authorized_change_def)

lemma change_roster_authorized:
  assumes "change_roster active now actor member add p = PMOk q c"
  shows "authorized_change i (active, now, if add then POAdd i actor member else PORemove i actor member) p q"
  using assms by (cases rule: change_roster_cases) (auto simp: authorized_change_def in_by_member_def out_by_owner_def split: if_splits)

lemma update_project_authorized:
  assumes "map_get m i = Some p" and "map_get (fst (update_project f j m)) i = Some q"
    and "\<And>q c. j = i \<Longrightarrow> f p = PMOk q c \<Longrightarrow> authorized_change i e p q"
  shows "authorized_change i e p q"
  using update_project_kept [where R = "authorized_change i e" and f = f and j = j, OF assms(1)] assms(2,3) by auto

lemma step_authorized:
  assumes "map_get m i = Some p" and "map_get (project_step org e m) i = Some q"
  shows "authorized_change i e p q"
proof (cases "(org, e, m)" rule: project_step.cases)
  case (1 org' active now j nm owner m')
  then have "q = p" using assms map_get_createProject [OF assms(1), of org' now j nm owner] by simp
  then show ?thesis by simp
next
  case (2 org' active now j actor member m')
  then show ?thesis
    using assms update_project_authorized [OF assms(1), of "change_roster active now actor member True" j q e]
      change_roster_authorized [of active now actor member True p _ _ i]
    by (auto simp: addMember_def mutate_roster_def split: if_splits)
next
  case (3 org' active now j actor member m')
  then show ?thesis
    using assms update_project_authorized [OF assms(1), of "change_roster active now actor member False" j q e]
      change_roster_authorized [of active now actor member False p _ _ i]
    by (auto simp: removeMember_def mutate_roster_def split: if_splits)
next
  case (4 org' active now j owner nm m')
  have "authorized_change i e p r" if "rename_step active owner (clean_project_name nm) p = PMOk r c" for r c
    using rename_step_cases [OF that] by simp
  with 4 show ?thesis
    using assms update_project_authorized [OF assms(1), of "rename_step active owner (clean_project_name nm)" j q e]
    by (auto simp: renameProject_def Let_def split: if_splits)
next
  case (5 org' active now j actor lnk m')
  have "authorized_change i e p r" if "link_step active now actor lnk p = PMOk r c" for r c
    using link_step_cases [OF that] by simp
  with 5 show ?thesis
    using assms update_project_authorized [OF assms(1), of "link_step active now actor lnk" j q e]
    by (auto simp: setSlackChannel_def)
next
  case (6 org' active now j members nm m')
  have "authorized_change i e p r" if "sync_step active now (sort_ids (js_set_of members)) nm p = PMOk r c" for r c
    using sync_step_cases [OF that] by simp
  with 6 show ?thesis
    using assms update_project_authorized [OF assms(1), of "sync_step active now (sort_ids (js_set_of members)) nm" j q e]
    by (auto simp: syncChannelMembers_def)
qed

text \<open>
  Who changes a roster: over any history the owner stays the owner and a member; and one mutation brings
  somebody in only as the addition by an active member, and takes somebody out only as the removal by the
  owner, who is active.
\<close>

theorem roster_changed_by_authority:
  assumes "map_get m i = Some p" and "personKey (Some (pj_ownerId p)) \<noteq> []" and "pj_ownerId p \<in> set (pj_memberIds p)"
  shows "\<exists>q. map_get (fold (project_step org) es m) i = Some q \<and> pj_ownerId q = pj_ownerId p \<and> pj_ownerId p \<in> set (pj_memberIds q) \<and>
    (\<exists>r. map_get (project_step org e (fold (project_step org) es m)) i = Some r \<and>
       (\<forall>x \<in> set (pj_memberIds r) - set (pj_memberIds q).
          \<exists>active now actor. e = (active, now, POAdd i actor x) \<and> active actor \<and> list_ex (\<lambda>y. samePerson (Some y) (Some actor)) (pj_memberIds q)) \<and>
       (\<forall>x \<in> set (pj_memberIds q) - set (pj_memberIds r).
          \<exists>active now actor. e = (active, now, PORemove i actor x) \<and> active actor \<and> samePerson (Some (pj_ownerId p)) (Some actor)))"
proof -
  from steps_keep_owner [OF assms(1,2), of org es] assms(3) obtain q where
    q: "map_get (fold (project_step org) es m) i = Some q" "pj_ownerId q = pj_ownerId p" "pj_ownerId p \<in> set (pj_memberIds q)"
    by (auto simp: owned_def)
  from steps_keep_owner [OF assms(1,2), of org "es @ [e]"] obtain r where
    r: "map_get (project_step org e (fold (project_step org) es m)) i = Some r" by auto
  from step_authorized [OF q(1) r] q r show ?thesis
    unfolding authorized_change_def in_by_member_def out_by_owner_def by auto
qed

section \<open>The theorems applied\<close>

definition ex_channel_link :: project_channel where
  "ex_channel_link = \<lparr>pc_channelId = ''C1'', pc_channelName = ''general'', pc_linkedBy = ''ann'', pc_linkedAt = 0\<rparr>"

definition ex_project :: project where
  "ex_project =
     \<lparr>pj_id = ''p1'', pj_orgId = ''O'', pj_name = ''Plan'', pj_ownerId = ''ann'', pj_memberIds = [''ann'', ''bob''],
      pj_channelMemberIds = Some [''cat''], pj_slackChannel = Some ex_channel_link, pj_createdAt = 0, pj_updatedAt = 5\<rparr>"

theorem project_version_pins_roster_witness:
  "(\<exists>q. map_get (fold (project_step ''O'') [(\<lambda>x. True, 7, POAdd ''p1'' ''bob'' ''dan'')] [(''p1'', ex_project)]) ''p1'' = Some q \<and> 5 \<le> pj_updatedAt q) \<and>
   (\<exists>q. map_get (project_step ''O'' (\<lambda>x. True, 7, POLink ''p1'' ''bob'' None) [(''p1'', ex_project)]) ''p1'' = Some q \<and> pj_updatedAt q = 5 \<and>
      ''cat'' \<in> set (effectiveMemberIds ex_project) \<and> ''cat'' \<notin> set (effectiveMemberIds q))"
proof -
  have p: "map_get [(''p1'', ex_project)] ''p1'' = Some ex_project" by simp
  have u: "list_all (\<lambda>e. \<not> unlinks ''p1'' e) [(\<lambda>x. True, 7, POAdd ''p1'' ''bob'' ''dan'')]" by simp
  have ex: "list_ex (\<lambda>x. samePerson (Some x) (Some ''bob'')) (pj_memberIds ex_project)" by code_simp
  have v: "pj_updatedAt ex_project = 5" "set (pj_memberIds ex_project) = {''ann'', ''bob''}" "''cat'' \<in> set (effectiveMemberIds ex_project)"
    "pj_slackChannel ex_project \<noteq> None"
    by (simp_all add: ex_project_def or_else_def)
  note t = project_version_pins_roster [OF p, of "[(\<lambda>x. True, 7, POAdd ''p1'' ''bob'' ''dan'')]" "''O''" "''bob''" "\<lambda>x. True" 7]
  from mp [OF conjunct1 [OF t] u] v(1) have grown:
    "\<exists>q. map_get (fold (project_step ''O'') [(\<lambda>x. True, 7, POAdd ''p1'' ''bob'' ''dan'')] [(''p1'', ex_project)]) ''p1'' = Some q \<and> 5 \<le> pj_updatedAt q"
    by metis
  from mp [OF conjunct2 [OF t]] ex v(4) obtain q where
    q: "map_get (project_step ''O'' (\<lambda>x. True, 7, POLink ''p1'' ''bob'' None) [(''p1'', ex_project)]) ''p1'' = Some q"
    "pj_updatedAt q = 5" "set (effectiveMemberIds q) = {''ann'', ''bob''}" unfolding v(1,2) by blast
  have "''cat'' \<notin> set (effectiveMemberIds q)" unfolding q(3) by simp
  with grown q(1,2) v(3) show ?thesis by blast
qed

theorem roster_changed_by_authority_witness:
  "\<exists>q. map_get (fold (project_step ''O'') [(\<lambda>x. True, 7, PORemove ''p1'' ''ann'' ''ann'')] [(''p1'', ex_project)]) ''p1'' = Some q \<and>
     ''ann'' \<in> set (pj_memberIds q) \<and>
     (\<exists>r. map_get (project_step ''O'' (\<lambda>x. True, 8, POAdd ''p1'' ''cat'' ''cat'')
              (fold (project_step ''O'') [(\<lambda>x. True, 7, PORemove ''p1'' ''ann'' ''ann'')] [(''p1'', ex_project)])) ''p1'' = Some r)"
proof -
  let ?es = "[(\<lambda>x. True, 7, PORemove ''p1'' ''ann'' ''ann'')]"
  let ?e = "(\<lambda>x. True, 8, POAdd ''p1'' ''cat'' ''cat'')"
  have p: "map_get [(''p1'', ex_project)] ''p1'' = Some ex_project" "personKey (Some (pj_ownerId ex_project)) \<noteq> []"
    "pj_ownerId ex_project \<in> set (pj_memberIds ex_project)" by code_simp+
  from roster_changed_by_authority [OF p, of "''O''" ?es ?e] obtain q r where
    "map_get (fold (project_step ''O'') ?es [(''p1'', ex_project)]) ''p1'' = Some q" "pj_ownerId ex_project \<in> set (pj_memberIds q)"
    "map_get (project_step ''O'' ?e (fold (project_step ''O'') ?es [(''p1'', ex_project)])) ''p1'' = Some r" by blast
  moreover have "pj_ownerId ex_project = ''ann''" by (simp add: ex_project_def)
  ultimately show ?thesis by metis
qed

end
