(* ===== verification/Admin.thy ===== *)
theory Admin
  imports Durable_Map Scopes
begin

text \<open>
  Administrators of the organisation (\<open>src/admin/admin-grant-store.ts\<close>, \<open>src/admin/admin-service.ts\<close>): grants
  under the JSON text of their parts, a store that seeds itself on first use, and the service that grants and
  revokes. The organisation, the times and the actors are arguments; the backing is the memory map.
\<close>

section \<open>Keys\<close>

text \<open>\<open>JSON.stringify\<close> of a string and of a list of strings.\<close>

definition hex_lower :: "nat \<Rightarrow> char" where
  "hex_lower n = char_of (if n < 10 then 48 + n else 87 + n)"

definition json_char :: "char \<Rightarrow> string" where
  "json_char c =
     (let n = of_char c :: nat
      in if c = CHR 0x22 then [CHR 0x5C, CHR 0x22]
         else if c = CHR 0x5C then [CHR 0x5C, CHR 0x5C]
         else if n = 8 then [CHR 0x5C, CHR ''b'']
         else if n = 9 then [CHR 0x5C, CHR ''t'']
         else if n = 10 then [CHR 0x5C, CHR ''n'']
         else if n = 12 then [CHR 0x5C, CHR ''f'']
         else if n = 13 then [CHR 0x5C, CHR ''r'']
         else if n < 32 then [CHR 0x5C, CHR ''u'', CHR ''0'', CHR ''0'', hex_lower (n div 16), hex_lower (n mod 16)]
         else [c])"

definition json_quoted :: "string \<Rightarrow> string" where
  "json_quoted s = CHR 0x22 # concat (map json_char s) @ [CHR 0x22]"

definition grantKey :: "string \<Rightarrow> scope_id \<Rightarrow> string \<Rightarrow> string" where
  "grantKey principalId scope role = ''['' @ join '','' (map json_quoted [principalId, scope, role]) @ '']''"

section \<open>The store\<close>

record admin_grant =
  ag_principalId :: string
  ag_scopeId :: scope_id
  ag_role :: string
  ag_grantedBy :: "string option"
  ag_createdAt :: "time option"

record admin_store =
  ad_persist :: "admin_grant dmap"
  ad_seeds :: "admin_grant list"
  ad_seeded :: bool

definition createAdminGrantStore :: "admin_grant dmap \<Rightarrow> admin_grant list \<Rightarrow> admin_store" where
  "createAdminGrantStore persist seed = \<lparr>ad_persist = persist, ad_seeds = seed, ad_seeded = False\<rparr>"

definition put_admin_grant :: "admin_grant \<Rightarrow> admin_grant dmap \<Rightarrow> admin_grant dmap" where
  "put_admin_grant g m = dm_put (grantKey (ag_principalId g) (ag_scopeId g) (ag_role g)) g m"

definition remove_grant :: "string \<Rightarrow> scope_id \<Rightarrow> string \<Rightarrow> admin_grant dmap \<Rightarrow> admin_grant dmap" where
  "remove_grant principalId scope role m = dm_delete m (grantKey principalId scope role)"

definition seed_grant :: "admin_grant \<Rightarrow> admin_grant" where
  "seed_grant g = g\<lparr>ag_grantedBy := Some (or_else (ag_grantedBy g) ''system''), ag_createdAt := Some (or_else (ag_createdAt g) 0)\<rparr>"

definition ensureSeeded :: "admin_store \<Rightarrow> admin_store" where
  "ensureSeeded s =
     (if ad_seeded s then s
      else if ad_seeds s = [] \<or> dm_all (ad_persist s) \<noteq> [] then s\<lparr>ad_seeded := True\<rparr>
      else s\<lparr>ad_seeded := True, ad_persist := fold (\<lambda>g. put_admin_grant (seed_grant g)) (ad_seeds s) (ad_persist s)\<rparr>)"

definition list_grants :: "admin_store \<Rightarrow> admin_store \<times> admin_grant list" where
  "list_grants s = (let s1 = ensureSeeded s in (s1, dm_all (ad_persist s1)))"

definition add_grant :: "admin_grant \<Rightarrow> admin_store \<Rightarrow> admin_store" where
  "add_grant g s = (let s1 = ensureSeeded s in s1\<lparr>ad_persist := put_admin_grant g (ad_persist s1)\<rparr>)"

definition revoke_stored :: "string \<Rightarrow> scope_id \<Rightarrow> string \<Rightarrow> admin_store \<Rightarrow> admin_store" where
  "revoke_stored principalId scope role s = (let s1 = ensureSeeded s in s1\<lparr>ad_persist := remove_grant principalId scope role (ad_persist s1)\<rparr>)"

section \<open>The service\<close>

definition ORG_ADMIN :: string where "ORG_ADMIN = ''org_admin''"

record admin_status =
  sta_isAdmin :: bool
  sta_role :: "string option"
  sta_scopeId :: "scope_id option"

definition adminStatusFromGrants :: "admin_grant list \<Rightarrow> string \<Rightarrow> admin_status" where
  "adminStatusFromGrants grants principalId =
     (case List.find (\<lambda>g. samePerson (Some (ag_principalId g)) (Some principalId) \<and> ag_role g = ORG_ADMIN) grants of
        Some g \<Rightarrow> \<lparr>sta_isAdmin = True, sta_role = Some ORG_ADMIN, sta_scopeId = Some (ag_scopeId g)\<rparr>
      | None \<Rightarrow> \<lparr>sta_isAdmin = False, sta_role = None, sta_scopeId = None\<rparr>)"

text \<open>\<open>lastIndexOf\<close>; without a separator the source's index is -1, so the slices are all but the last character, and all.\<close>

fun last_index_of :: "char \<Rightarrow> string \<Rightarrow> nat option" where
  "last_index_of c [] = None"
| "last_index_of c (x # xs) = (case last_index_of c xs of Some n \<Rightarrow> Some (Suc n) | None \<Rightarrow> if x = c then Some 0 else None)"

definition parse_grant_entry :: "string \<Rightarrow> string \<times> string" where
  "parse_grant_entry entry =
     (case last_index_of (CHR '':'') entry of
        None \<Rightarrow> (trim (butlast entry), trim entry)
      | Some n \<Rightarrow> (trim (take n entry), trim (drop (Suc n) entry)))"

definition org_grant :: "string \<Rightarrow> string \<Rightarrow> admin_grant" where
  "org_grant org principalId = \<lparr>ag_principalId = principalId, ag_scopeId = scopeId Org org, ag_role = ORG_ADMIN, ag_grantedBy = None, ag_createdAt = None\<rparr>"

definition parseAdminGrants :: "string option \<Rightarrow> string \<Rightarrow> admin_grant list option" where
  "parseAdminGrants raw org =
     map_option (\<lambda>r. map (\<lambda>e. org_grant org (fst e))
       (filter (\<lambda>e. fst e \<noteq> [] \<and> snd e = ORG_ADMIN) (map parse_grant_entry (filter (\<lambda>e. e \<noteq> []) (map trim (split_on (CHR '','') r)))))) raw"

definition defaultAdminGrants :: "string \<Rightarrow> admin_grant list" where
  "defaultAdminGrants org = [org_grant org ''admin-alice'', org_grant org ''admin-bob'']"

definition bootAdminGrantSeed :: "string option \<Rightarrow> string \<Rightarrow> bool \<Rightarrow> admin_grant list" where
  "bootAdminGrantSeed raw org durable = or_else (parseAdminGrants raw org) (if durable then [] else defaultAdminGrants org)"

definition resolve_admin_actor :: "string \<Rightarrow> string option \<Rightarrow> string option" where
  "resolve_admin_actor org hdr =
     (case hdr of
        None \<Rightarrow> None
      | Some h \<Rightarrow>
          (case last_index_of (CHR ''@'') h of
             None \<Rightarrow> None
           | Some at \<Rightarrow>
               if at = 0 \<or> at = length h - 1 then None
               else if drop (Suc at) h \<noteq> org then None else Some (take at h)))"

datatype admin_error = AdminForbidden | PrincipalRequired | RoleInvalid | ScopeInvalid | LastOrgAdmin

definition is_org_admin :: "admin_grant list \<Rightarrow> string \<Rightarrow> bool" where
  "is_org_admin grants actorId = (sta_role (adminStatusFromGrants grants actorId) = Some ORG_ADMIN)"

definition canAdminister :: "string \<Rightarrow> scope_id \<Rightarrow> admin_store \<Rightarrow> admin_store \<times> bool" where
  "canAdminister principalId target s = (case list_grants s of (s1, grants) \<Rightarrow> (s1, is_org_admin grants principalId))"

definition adminStatusOf :: "string \<Rightarrow> admin_store \<Rightarrow> admin_store \<times> admin_status" where
  "adminStatusOf principalId s = (case list_grants s of (s1, grants) \<Rightarrow> (s1, adminStatusFromGrants grants principalId))"

definition createAdminGrant ::
  "string \<Rightarrow> time \<Rightarrow> string \<Rightarrow> string \<Rightarrow> string \<Rightarrow> scope_id \<Rightarrow> admin_store \<Rightarrow> admin_store \<times> (admin_error + admin_grant)" where
  "createAdminGrant org now actorId rawId role scope s =
     (case list_grants s of (s1, grants) \<Rightarrow>
        if \<not> is_org_admin grants actorId then (s1, Inl AdminForbidden)
        else
          (let principalId = trim rawId
           in if principalId = [] then (s1, Inl PrincipalRequired)
              else if role \<noteq> ORG_ADMIN then (s1, Inl RoleInvalid)
              else if parseScopeId scope \<noteq> (Some Org, org) then (s1, Inl ScopeInvalid)
              else
                (let grant = \<lparr>ag_principalId = principalId, ag_scopeId = scope, ag_role = role, ag_grantedBy = Some actorId, ag_createdAt = Some now\<rparr>
                 in (add_grant grant s1, Inr grant))))"

text \<open>\<open>revokeGrant\<close> decides on a list it has read, and then revokes one grant after the other.\<close>

definition revoke_decision :: "string \<Rightarrow> string \<Rightarrow> scope_id \<Rightarrow> string \<Rightarrow> admin_grant list \<Rightarrow> admin_error + admin_grant list" where
  "revoke_decision actorId principalId scope role grants =
     (if \<not> is_org_admin grants actorId then Inl AdminForbidden
      else
        (let matched = filter (\<lambda>g. samePerson (Some (ag_principalId g)) (Some principalId) \<and> ag_scopeId g = scope \<and> ag_role g = role) grants;
             distinctOrgAdmins = js_set_of (map (\<lambda>g. personKey (Some (ag_principalId g))) (filter (\<lambda>g. ag_role g = ORG_ADMIN) grants))
         in if role = ORG_ADMIN \<and> matched \<noteq> [] \<and> length distinctOrgAdmins \<le> 1 then Inl LastOrgAdmin else Inr matched))"

definition revoke_matched :: "scope_id \<Rightarrow> string \<Rightarrow> admin_grant list \<Rightarrow> admin_store \<Rightarrow> admin_store" where
  "revoke_matched scope role matched s = fold (\<lambda>g. revoke_stored (ag_principalId g) scope role) matched s"

definition revokeAdminGrant :: "string \<Rightarrow> string \<Rightarrow> scope_id \<Rightarrow> string \<Rightarrow> admin_store \<Rightarrow> admin_store \<times> admin_error option" where
  "revokeAdminGrant actorId principalId scope role s =
     (case list_grants s of (s1, grants) \<Rightarrow>
        (case revoke_decision actorId principalId scope role grants of
           Inl e \<Rightarrow> (s1, Some e)
         | Inr matched \<Rightarrow> (revoke_matched scope role matched s1, None)))"

section \<open>Keys do not collide\<close>

definition hex_lower_value :: "char \<Rightarrow> nat" where
  "hex_lower_value c = (let n = of_char c :: nat in if n < 58 then n - 48 else n - 87)"

lemma hex_lower_value: "n < 16 \<Longrightarrow> hex_lower_value (hex_lower n) = n"
  by (auto simp: hex_lower_value_def hex_lower_def Let_def of_char_of)

text \<open>Reads back what \<open>json_char\<close> wrote for one character.\<close>

fun json_uncons :: "string \<Rightarrow> (char \<times> string) option" where
  "json_uncons [] = None"
| "json_uncons (c # cs) =
     (if c = CHR 0x22 then None
      else if c \<noteq> CHR 0x5C then Some (c, cs)
      else
        (case cs of
           [] \<Rightarrow> None
         | d # ds \<Rightarrow>
             if d = CHR ''u'' then Some (char_of (16 * hex_lower_value (ds ! 2) + hex_lower_value (ds ! 3)), drop 4 ds)
             else if d = CHR ''b'' then Some (char_of (8 :: nat), ds)
             else if d = CHR ''t'' then Some (char_of (9 :: nat), ds)
             else if d = CHR ''n'' then Some (char_of (10 :: nat), ds)
             else if d = CHR ''f'' then Some (char_of (12 :: nat), ds)
             else if d = CHR ''r'' then Some (char_of (13 :: nat), ds)
             else Some (d, ds)))"

lemma of_char_eq: "(of_char c :: nat) = n \<Longrightarrow> char_of n = c"
  by auto

lemma json_uncons_char: "json_uncons (json_char c @ cs) = Some (c, cs)"
proof -
  have "16 * ((of_char c :: nat) div 16) + of_char c mod 16 = of_char c" by simp
  moreover have "(of_char c :: nat) < 32 \<Longrightarrow> (of_char c :: nat) div 16 < 16" by simp
  ultimately show ?thesis
    by (auto simp: json_char_def Let_def hex_lower_value of_char_eq)
qed

lemma json_uncons_end: "json_uncons (CHR 0x22 # cs) = None"
  by simp

lemma json_chars_inj:
  "concat (map json_char s) @ CHR 0x22 # r = concat (map json_char s') @ CHR 0x22 # r' \<Longrightarrow> s = s' \<and> r = r'"
proof (induction s arbitrary: s')
  case Nil
  then show ?case
    using json_uncons_char by (cases s') (auto, metis json_uncons_end option.distinct(1) append_assoc)
next
  case (Cons c s)
  show ?case
  proof (cases s')
    case Nil
    with Cons.prems have "json_uncons (json_char c @ concat (map json_char s) @ CHR 0x22 # r) = None" by simp
    then show ?thesis by (simp add: json_uncons_char)
  next
    case (Cons c' t)
    with Cons.prems have "json_uncons (json_char c @ concat (map json_char s) @ CHR 0x22 # r) = json_uncons (json_char c' @ concat (map json_char t) @ CHR 0x22 # r')"
      by simp
    then show ?thesis using Cons.IH [of t] Cons by (simp add: json_uncons_char)
  qed
qed

lemma grantKey_inj: "grantKey p s r = grantKey p' s' r' \<longleftrightarrow> p = p' \<and> s = s' \<and> r = r'"
proof
  assume "grantKey p s r = grantKey p' s' r'"
  then have "concat (map json_char p) @ CHR 0x22 # ('','' @ json_quoted s @ '','' @ json_quoted r @ '']'') =
      concat (map json_char p') @ CHR 0x22 # ('','' @ json_quoted s' @ '','' @ json_quoted r' @ '']'')"
    by (simp add: grantKey_def json_quoted_def)
  from json_chars_inj [OF this] have p: "p = p'" and
    "concat (map json_char s) @ CHR 0x22 # ('','' @ json_quoted r @ '']'') = concat (map json_char s') @ CHR 0x22 # ('','' @ json_quoted r' @ '']'')"
    by (simp_all add: json_quoted_def)
  from json_chars_inj [OF this(2)] have s: "s = s'" and
    "concat (map json_char r) @ CHR 0x22 # '']'' = concat (map json_char r') @ CHR 0x22 # '']''" by (simp_all add: json_quoted_def)
  from json_chars_inj [OF this(2)] p s show "p = p' \<and> s = s' \<and> r = r'" by simp
qed simp

section \<open>Somebody administers\<close>

text \<open>A grant is stored under its own key and names somebody.\<close>

definition named :: "admin_grant \<Rightarrow> bool" where
  "named g \<longleftrightarrow> personKey (Some (ag_principalId g)) \<noteq> []"

definition grants_ok :: "admin_grant dmap \<Rightarrow> bool" where
  "grants_ok m \<longleftrightarrow> map_ok m \<and> (\<forall>k g. map_get m k = Some g \<longrightarrow> k = grantKey (ag_principalId g) (ag_scopeId g) (ag_role g) \<and> named g)"

definition administered :: "admin_grant dmap \<Rightarrow> bool" where
  "administered m \<longleftrightarrow> grants_ok m \<and> (\<exists>k g. map_get m k = Some g \<and> ag_role g = ORG_ADMIN)"

lemma put_grant_ok:
  assumes "grants_ok m" and "named g"
  shows "grants_ok (put_admin_grant g m)" and "ag_role g = ORG_ADMIN \<or> administered m \<Longrightarrow> administered (put_admin_grant g m)"
proof -
  show ok: "grants_ok (put_admin_grant g m)" using assms by (auto simp: grants_ok_def put_admin_grant_def dm_put_def split: if_splits)
  assume "ag_role g = ORG_ADMIN \<or> administered m"
  then show "administered (put_admin_grant g m)"
  proof
    assume "ag_role g = ORG_ADMIN"
    then show ?thesis using ok by (auto simp: administered_def put_admin_grant_def dm_put_def)
  next
    assume "administered m"
    then obtain k h where h: "map_get m k = Some h" "ag_role h = ORG_ADMIN" by (auto simp: administered_def)
    show ?thesis
    proof (cases "k = grantKey (ag_principalId g) (ag_scopeId g) (ag_role g)")
      case True
      with h assms(1) have "ag_role g = ORG_ADMIN" by (metis grants_ok_def grantKey_inj)
      then show ?thesis using ok by (auto simp: administered_def put_admin_grant_def dm_put_def)
    next
      case False
      then have "map_get (put_admin_grant g m) k = Some h" using h(1) by (simp add: put_admin_grant_def dm_put_def)
      then show ?thesis using ok h(2) by (auto simp: administered_def)
    qed
  qed
qed

lemma seeded_administered:
  assumes "grants_ok m" and "list_all named gs" and "list_all (\<lambda>g. ag_role g = ORG_ADMIN) gs" and "gs \<noteq> [] \<or> administered m"
  shows "administered (fold (\<lambda>g. put_admin_grant (seed_grant g)) gs m)"
  using assms
proof (induction gs arbitrary: m)
  case (Cons g gs)
  have g: "named (seed_grant g)" "ag_role (seed_grant g) = ORG_ADMIN" using Cons.prems by (simp_all add: named_def seed_grant_def)
  note put_grant_ok(1) [OF Cons.prems(1) g(1)] put_grant_ok(2) [OF Cons.prems(1) g(1)]
  then show ?case using Cons.IH Cons.prems g(2) by simp
qed simp

definition seeds_ok :: "admin_store \<Rightarrow> bool" where
  "seeds_ok s \<longleftrightarrow> list_all named (ad_seeds s) \<and> list_all (\<lambda>g. ag_role g = ORG_ADMIN) (ad_seeds s)"

definition staffed :: "admin_store \<Rightarrow> bool" where
  "staffed s \<longleftrightarrow> ad_seeded s \<and> administered (ad_persist s)"

lemma ensureSeeded_staffed [simp]: "staffed s \<Longrightarrow> ensureSeeded s = s"
  by (simp add: staffed_def ensureSeeded_def)

lemma first_use_staffs:
  assumes "list_all named seed" and "list_all (\<lambda>g. ag_role g = ORG_ADMIN) seed" and "seed \<noteq> []"
  shows "staffed (ensureSeeded (createAdminGrantStore [] seed))"
proof -
  have "grants_ok []" by (simp add: grants_ok_def)
  from seeded_administered [OF this assms(1,2)] assms(3) show ?thesis
    by (simp add: staffed_def ensureSeeded_def createAdminGrantStore_def dm_all_def sortedEntries_def js_sort_def)
qed

lemma revoke_matched_persist:
  "ad_seeded s \<Longrightarrow> ad_seeded (revoke_matched scope role gs s) \<and>
     map_get (ad_persist (revoke_matched scope role gs s)) k =
       (if \<exists>g \<in> set gs. k = grantKey (ag_principalId g) scope role then None else map_get (ad_persist s) k) \<and>
     (map_ok (ad_persist s) \<longrightarrow> map_ok (ad_persist (revoke_matched scope role gs s)))"
proof (induction gs arbitrary: s)
  case (Cons g gs)
  let ?s = "revoke_stored (ag_principalId g) scope role s"
  have "ad_seeded ?s" "ad_persist ?s = map_del (grantKey (ag_principalId g) scope role) (ad_persist s)"
    using Cons.prems by (simp_all add: revoke_stored_def ensureSeeded_def remove_grant_def dm_delete_def)
  with Cons.IH [of ?s] show ?case by (auto simp: revoke_matched_def)
qed (simp add: revoke_matched_def)

lemma two_distinct: "1 < length (js_set_of xs) \<Longrightarrow> \<exists>x \<in> set xs. x \<noteq> y"
proof (rule ccontr)
  assume a: "1 < length (js_set_of xs)" "\<not> (\<exists>x \<in> set xs. x \<noteq> y)"
  then have "set (js_set_of xs) \<subseteq> {y}" by auto
  then have "card (set (js_set_of xs)) \<le> 1" using card_mono [of "{y}"] by simp
  then show False using a(1) distinct_card [of "js_set_of xs"] by simp
qed

lemma decision_leaves_admin:
  assumes ok: "grants_ok m" and adm: "administered m" and d: "revoke_decision actor principalId scope role (dm_all m) = Inr matched"
  shows "\<exists>k g. map_get m k = Some g \<and> ag_role g = ORG_ADMIN \<and> (\<forall>h \<in> set matched. k \<noteq> grantKey (ag_principalId h) scope role)"
proof (cases "role = ORG_ADMIN \<and> matched \<noteq> []")
  case False
  from adm ok obtain k g where "map_get m k = Some g" "ag_role g = ORG_ADMIN" "k = grantKey (ag_principalId g) (ag_scopeId g) (ag_role g)"
    unfolding administered_def grants_ok_def by blast
  with False show ?thesis by (metis grantKey_inj list.set(1) empty_iff)
next
  case True
  let ?key = "\<lambda>g. personKey (Some (ag_principalId g))"
  from d True have "1 < length (js_set_of (map ?key (filter (\<lambda>g. ag_role g = ORG_ADMIN) (dm_all m))))"
    and same: "\<forall>h \<in> set matched. samePerson (Some (ag_principalId h)) (Some principalId)"
    by (auto simp: revoke_decision_def Let_def split: if_splits)
  from two_distinct [OF this(1), of "personKey (Some principalId)"] obtain g where
    g: "g \<in> set (dm_all m)" "ag_role g = ORG_ADMIN" "?key g \<noteq> personKey (Some principalId)" by auto
  from g(1) ok obtain k where k: "map_get m k = Some g" "k = grantKey (ag_principalId g) (ag_scopeId g) (ag_role g)"
    unfolding grants_ok_def set_dm_all [OF conjunct1 [OF ok [unfolded grants_ok_def]]] by blast
  have "k \<noteq> grantKey (ag_principalId h) scope role" if "h \<in> set matched" for h
    using same that g(3) unfolding k(2) grantKey_inj samePerson_def by metis
  with k(1) g(2) show ?thesis by blast
qed

datatype admin_op =
  AOCreate string time string string string scope_id | AORevoke string string scope_id string | AOAsk string scope_id

fun admin_step :: "admin_op \<Rightarrow> admin_store \<Rightarrow> admin_store" where
  "admin_step (AOCreate org now actor principalId role scope) s = fst (createAdminGrant org now actor principalId role scope s)"
| "admin_step (AORevoke actor principalId scope role) s = fst (revokeAdminGrant actor principalId scope role s)"
| "admin_step (AOAsk principalId target) s = fst (canAdminister principalId target s)"

lemma createAdminGrant_staffed:
  assumes "staffed s"
  shows "staffed (fst (createAdminGrant org now actor principalId role scope s))"
proof -
  have seeded: "ad_seeded s" and adm: "administered (ad_persist s)" and ok: "grants_ok (ad_persist s)"
    using assms by (auto simp: staffed_def administered_def)
  have "named \<lparr>ag_principalId = trim principalId, ag_scopeId = x, ag_role = r, ag_grantedBy = b, ag_createdAt = t\<rparr>"
    if "trim principalId \<noteq> []" for x r b t
    using that by (simp add: named_def personKey_def or_else_def Let_def)
  with put_grant_ok(2) [OF ok] adm seeded show ?thesis
    using assms by (auto simp: createAdminGrant_def list_grants_def add_grant_def Let_def staffed_def)
qed

lemma revokeAdminGrant_staffed:
  assumes "staffed s"
  shows "staffed (fst (revokeAdminGrant actor principalId scope role s))"
proof (cases "revoke_decision actor principalId scope role (dm_all (ad_persist s))")
  case (Inl e)
  then show ?thesis using assms by (simp add: revokeAdminGrant_def list_grants_def Let_def)
next
  case (Inr matched)
  let ?s = "revoke_matched scope role matched s"
  have seeded: "ad_seeded s" and adm: "administered (ad_persist s)" and ok: "grants_ok (ad_persist s)"
    using assms by (auto simp: staffed_def administered_def)
  note after = revoke_matched_persist [OF seeded, of scope role matched]
  have "grants_ok (ad_persist ?s)" using ok after unfolding grants_ok_def by (metis option.distinct(1))
  moreover from decision_leaves_admin [OF ok adm Inr] after have "\<exists>k g. map_get (ad_persist ?s) k = Some g \<and> ag_role g = ORG_ADMIN" by metis
  ultimately have "staffed ?s" using after by (simp add: staffed_def administered_def)
  with Inr assms show ?thesis by (simp add: revokeAdminGrant_def list_grants_def Let_def)
qed

lemma admin_step_staffed: "staffed s \<Longrightarrow> staffed (admin_step a s)"
  by (cases a) (simp_all add: createAdminGrant_staffed revokeAdminGrant_staffed canAdminister_def list_grants_def Let_def)

lemma staffed_somebody:
  assumes "staffed s"
  shows "\<exists>p. snd (canAdminister p target s)"
proof -
  from assms obtain k g where g: "map_get (ad_persist s) k = Some g" "ag_role g = ORG_ADMIN" and ok: "grants_ok (ad_persist s)"
    by (auto simp: staffed_def administered_def)
  then have "g \<in> set (dm_all (ad_persist s))" "named g" by (auto simp: grants_ok_def set_dm_all)
  then have "List.find (\<lambda>h. samePerson (Some (ag_principalId h)) (Some (ag_principalId g)) \<and> ag_role h = ORG_ADMIN) (dm_all (ad_persist s)) \<noteq> None"
    using g(2) by (auto simp: find_None_iff samePerson_def named_def)
  then have "snd (canAdminister (ag_principalId g) target s)"
    using assms by (auto simp: canAdminister_def list_grants_def Let_def is_org_admin_def adminStatusFromGrants_def)
  then show ?thesis ..
qed

lemma boot_seeds: "list_all named (bootAdminGrantSeed raw org durable)" "list_all (\<lambda>g. ag_role g = ORG_ADMIN) (bootAdminGrantSeed raw org durable)"
proof -
  have "personKey (Some (fst (parse_grant_entry e))) \<noteq> []" if "fst (parse_grant_entry e) \<noteq> []" for e
    using that by (auto simp: parse_grant_entry_def personKey_def or_else_def Let_def split: option.splits)
  moreover have "named (org_grant org ''admin-alice'')" "named (org_grant org ''admin-bob'')"
    unfolding named_def org_grant_def by code_simp+
  ultimately show "list_all named (bootAdminGrantSeed raw org durable)"
    by (cases raw) (auto simp: bootAdminGrantSeed_def parseAdminGrants_def defaultAdminGrants_def or_else_def named_def org_grant_def list.pred_map
        list_all_iff set_filter simp del: split_paired_All split_paired_Ex)
  show "list_all (\<lambda>g. ag_role g = ORG_ADMIN) (bootAdminGrantSeed raw org durable)"
    by (auto simp: bootAdminGrantSeed_def parseAdminGrants_def defaultAdminGrants_def or_else_def list_all_iff org_grant_def split: option.split)
qed


section \<open>The theorems applied\<close>

definition ex_admins :: admin_store where
  "ex_admins = ensureSeeded (createAdminGrantStore [] (bootAdminGrantSeed None ''O'' False))"


text \<open>
  The check of a revocation and the revocation are not one step: of two administrators who revoke each
  other's grants at the same time, both are let through, and nobody is left.
\<close>

lemma mutual_revocation_locks_out:
  "let grants = dm_all (ad_persist ex_admins)
   in case (revoke_decision ''admin-alice'' ''admin-bob'' ''org:O'' ORG_ADMIN grants, revoke_decision ''admin-bob'' ''admin-alice'' ''org:O'' ORG_ADMIN grants) of
        (Inr a, Inr b) \<Rightarrow> ad_persist (revoke_matched ''org:O'' ORG_ADMIN b (revoke_matched ''org:O'' ORG_ADMIN a ex_admins)) = []
      | _ \<Rightarrow> False"
  by code_simp

text \<open>A list of administrators that is just the name of the role makes an administrator of the name without its last letter.\<close>

lemma bare_role_grants: "map_option (map ag_principalId) (parseAdminGrants (Some ''org_admin'') ''O'') = Some [''org_admi'']"
  by code_simp

end
