(* ===== verification/Identity.thy ===== *)
theory Identity
  imports Durable_Map Scopes
begin

text \<open>
  Who counts as a member of the organisation (\<open>src/identity/identity-service.ts\<close>,
  \<open>src/identity/external-members.ts\<close>): people deactivated by hand or because the directory no longer has
  them, and invited members from outside, whose membership ends. The service keeps both in memory and in two
  stores. The clock, the overrides and the protected people are arguments; the stores are memory maps, so
  an operation on them takes one step.
\<close>

section \<open>Members from outside\<close>

record external_member =
  em_email :: string
  em_role :: string
  em_expiresAt :: time
  em_invitedBy :: string
  em_createdAt :: time
  em_updatedAt :: time

definition externalMemberActive :: "external_member \<Rightarrow> time \<Rightarrow> bool" where
  "externalMemberActive m now = (now < em_expiresAt m)"

text \<open>The pattern asks for one \<open>@\<close>, a name before it and, after it, a dot between two characters.\<close>

definition email_char :: "char \<Rightarrow> bool" where
  "email_char c = (c \<noteq> CHR ''@'' \<and> \<not> is_space c \<and> c \<notin> {CHR '','', CHR '';'', CHR ''<'', CHR ''>'', CHR 0x22})"

definition validEmail :: "string \<Rightarrow> bool" where
  "validEmail value =
     (length value \<le> 254 \<and>
      (case index_of (CHR ''@'') value of
         None \<Rightarrow> False
       | Some n \<Rightarrow>
           (let domain = drop (Suc n) value
            in n \<noteq> 0 \<and> list_all email_char (take n value) \<and> list_all email_char domain \<and> CHR ''.'' \<in> set (butlast (tl domain)))))"

section \<open>The service\<close>

datatype deactivation_source = Manual | DirectorySync

record deactivation =
  dr_principalId :: string
  dr_source :: deactivation_source
  dr_at :: time

record identity =
  id_store :: "deactivation dmap"
  id_externalStore :: "external_member dmap"
  id_deactivated :: "(string, deactivation) jsmap"
  id_externals :: "(string, external_member) jsmap"
  id_protected :: "string list"
  id_refreshedAt :: time
  id_hydrated :: bool

definition REFRESH_TTL_MS :: int where "REFRESH_TTL_MS = 10000"

definition person_key :: "string \<Rightarrow> string" where
  "person_key i = personKey (Some i)"

definition createIdentityService :: "deactivation dmap \<Rightarrow> external_member dmap \<Rightarrow> string list \<Rightarrow> identity" where
  "createIdentityService store externalStore directorySyncProtected =
     \<lparr>id_store = store, id_externalStore = externalStore, id_deactivated = [], id_externals = [],
      id_protected = js_set_of (filter (\<lambda>k. k \<noteq> []) (map person_key directorySyncProtected)), id_refreshedAt = 0, id_hydrated = False\<rparr>"

definition keptByDirectorySync :: "identity \<Rightarrow> string \<Rightarrow> bool" where
  "keptByDirectorySync s key = (key \<in> set (id_protected s) \<or> map_get (id_externals s) key \<noteq> None)"

definition load_into :: "bool \<Rightarrow> ('v \<Rightarrow> string) \<Rightarrow> 'v list \<Rightarrow> (string, 'v) jsmap \<Rightarrow> (string, 'v) jsmap" where
  "load_into overwrite key vs m = fold (\<lambda>v m. if overwrite \<or> map_get m (key v) = None then map_set (key v) v m else m) vs m"

definition load_identity :: "bool \<Rightarrow> identity \<Rightarrow> identity" where
  "load_identity overwrite s =
     s\<lparr>id_deactivated := load_into overwrite (\<lambda>r. person_key (dr_principalId r)) (dm_all (id_store s)) (if overwrite then [] else id_deactivated s),
       id_externals := load_into overwrite (\<lambda>m. person_key (em_email m)) (dm_all (id_externalStore s)) (if overwrite then [] else id_externals s)\<rparr>"

definition classify_person :: "(string \<Rightarrow> bool) option \<Rightarrow> time \<Rightarrow> string \<Rightarrow> bool \<Rightarrow> identity \<Rightarrow> principal" where
  "classify_person isOverridden now externalId isExternalGuest s =
     (let guest = (\<lambda>g. \<lparr>p_id = externalId, p_type = (if g then Guest else Internal), p_teamIds = None, p_displayName = None\<rparr>)
      in if (case isOverridden of None \<Rightarrow> False | Some f \<Rightarrow> f externalId) then guest False
         else
           (let key = person_key externalId; record = map_get (id_deactivated s) key; external = map_get (id_externals s) key;
                inactive =
                  (map_option dr_source record = Some Manual \<or>
                   map_option dr_source record = Some DirectorySync \<and> \<not> keptByDirectorySync s key \<or>
                   (case external of None \<Rightarrow> False | Some m \<Rightarrow> \<not> externalMemberActive m now))
            in guest (inactive \<or> isExternalGuest)))"

definition deactivate_person :: "time \<Rightarrow> string \<Rightarrow> deactivation_source \<Rightarrow> identity \<Rightarrow> identity" where
  "deactivate_person now externalId source s =
     (let key = person_key externalId; existing = map_get (id_deactivated s) key
      in if (case existing of None \<Rightarrow> False | Some r \<Rightarrow> dr_source r = Manual \<or> dr_source r = source) then s
         else
           (let r = \<lparr>dr_principalId = externalId, dr_source = source, dr_at = now\<rparr>
            in s\<lparr>id_deactivated := map_set key r (id_deactivated s), id_store := dm_put key r (id_store s)\<rparr>))"

definition reactivate_person :: "string \<Rightarrow> identity \<Rightarrow> identity" where
  "reactivate_person externalId s =
     (let key = person_key externalId
      in s\<lparr>id_deactivated := map_del key (id_deactivated s), id_store := dm_delete (id_store s) key\<rparr>)"

definition refresh :: "bool \<Rightarrow> time \<Rightarrow> time \<Rightarrow> identity \<Rightarrow> identity" where
  "refresh force now after s =
     (if \<not> force \<and> now - id_refreshedAt s < REFRESH_TTL_MS then s else (load_identity True s)\<lparr>id_refreshedAt := after\<rparr>)"

definition hydrate :: "identity \<Rightarrow> identity" where
  "hydrate s = (if id_hydrated s then s else (load_identity False s)\<lparr>id_hydrated := True\<rparr>)"

record sync_outcome =
  so_deactivated :: "string list"
  so_reactivated :: "string list"

fun sync_removed :: "time \<Rightarrow> string list \<Rightarrow> identity \<times> string list \<Rightarrow> identity \<times> string list" where
  "sync_removed now [] r = r"
| "sync_removed now (i # is) (s, out) =
     (if keptByDirectorySync s (person_key i) \<or> map_get (id_deactivated s) (person_key i) \<noteq> None then sync_removed now is (s, out)
      else sync_removed now is (deactivate_person now i DirectorySync s, out @ [i]))"

fun sync_present :: "string list \<Rightarrow> identity \<times> string list \<Rightarrow> identity \<times> string list" where
  "sync_present [] r = r"
| "sync_present (i # is) (s, out) =
     (if map_option dr_source (map_get (id_deactivated s) (person_key i)) \<noteq> Some DirectorySync then sync_present is (s, out)
      else sync_present is (reactivate_person i s, out @ [i]))"

definition recordDirectorySync :: "time \<Rightarrow> string list \<Rightarrow> string list \<Rightarrow> identity \<Rightarrow> identity \<times> sync_outcome" where
  "recordDirectorySync now removedIds presentIds s =
     (case sync_removed now removedIds (s, []) of
        (s1, removed) \<Rightarrow>
          (case sync_present presentIds (s1, []) of (s2, back) \<Rightarrow> (s2, \<lparr>so_deactivated = removed, so_reactivated = back\<rparr>)))"

definition listExternalMembers :: "time \<Rightarrow> time \<Rightarrow> identity \<Rightarrow> identity \<times> external_member list" where
  "listExternalMembers now after s = (let s1 = refresh False now after s in (s1, map_vals (id_externals s1)))"

definition externalMember :: "string \<Rightarrow> identity \<Rightarrow> external_member option" where
  "externalMember principalId s = map_get (id_externals s) (person_key principalId)"

definition putExternalMember :: "external_member \<Rightarrow> identity \<Rightarrow> identity" where
  "putExternalMember m s =
     (let key = person_key (em_email m)
      in s\<lparr>id_externals := map_set key m (id_externals s), id_externalStore := dm_put key m (id_externalStore s)\<rparr>)"

definition removeExternalMember :: "string \<Rightarrow> identity \<Rightarrow> identity" where
  "removeExternalMember principalId s =
     (let key = person_key principalId
      in s\<lparr>id_externals := map_del key (id_externals s), id_externalStore := dm_delete (id_externalStore s) key\<rparr>)"

definition isInternal :: "principal \<Rightarrow> bool" where
  "isInternal p = (p_type p = Internal)"

definition audienceIsAllInternal :: "principal list \<Rightarrow> bool" where
  "audienceIsAllInternal audience = (audience \<noteq> [] \<and> list_all isInternal audience)"

record actor_assertion =
  aa_externalId :: string
  aa_isExternalGuest :: bool
  aa_teamIds :: "string list option"
  aa_displayName :: "string option"

definition resolve_actor :: "(string \<Rightarrow> bool) option \<Rightarrow> time \<Rightarrow> actor_assertion \<Rightarrow> identity \<Rightarrow> principal" where
  "resolve_actor isOverridden now actor s =
     (let p = classify_person isOverridden now (aa_externalId actor) (aa_isExternalGuest actor) s
      in p\<lparr>p_teamIds := aa_teamIds actor, p_displayName := (if truthy (aa_displayName actor) then aa_displayName actor else None)\<rparr>)"

definition actorAssertionActive :: "(string \<Rightarrow> bool) option \<Rightarrow> time \<Rightarrow> actor_assertion option \<Rightarrow> identity \<Rightarrow> bool" where
  "actorAssertionActive isOverridden now actor s =
     (case actor of
        None \<Rightarrow> False
      | Some a \<Rightarrow> aa_externalId a \<noteq> [] \<and> isInternal (classify_person isOverridden now (aa_externalId a) (aa_isExternalGuest a) s))"

section \<open>A deactivation by hand lasts\<close>

datatype identity_op =
  IODeactivate time string deactivation_source | IOReactivate string | IOSync time "string list" "string list" | IOPut external_member
| IORemove string | IORefresh bool time time | IOHydrate

fun identity_step :: "identity_op \<Rightarrow> identity \<Rightarrow> identity" where
  "identity_step (IODeactivate now i source) s = deactivate_person now i source s"
| "identity_step (IOReactivate i) s = reactivate_person i s"
| "identity_step (IOSync now removed present) s = fst (recordDirectorySync now removed present s)"
| "identity_step (IOPut m) s = putExternalMember m s"
| "identity_step (IORemove i) s = removeExternalMember i s"
| "identity_step (IORefresh force now after) s = refresh force now after s"
| "identity_step IOHydrate s = hydrate s"

text \<open>A record is stored under the key of the person it names.\<close>

definition records_ok :: "deactivation dmap \<Rightarrow> bool" where
  "records_ok m \<longleftrightarrow> map_ok m \<and> (\<forall>k r. map_get m k = Some r \<longrightarrow> person_key (dr_principalId r) = k)"

definition by_hand :: "string \<Rightarrow> identity \<Rightarrow> bool" where
  "by_hand k s \<longleftrightarrow> records_ok (id_store s) \<and> map_option dr_source (map_get (id_deactivated s) k) = Some Manual \<and>
     map_option dr_source (map_get (id_store s) k) = Some Manual"

lemma load_into_keeps:
  assumes "\<And>v. v \<in> set vs \<Longrightarrow> key v = k \<Longrightarrow> Q v" and "(\<exists>v \<in> set vs. key v = k) \<or> (\<exists>v. map_get m k = Some v \<and> Q v)"
    and "\<And>v. map_get m k = Some v \<Longrightarrow> Q v"
  shows "\<exists>v. map_get (load_into overwrite key vs m) k = Some v \<and> Q v"
  using assms
proof (induction vs arbitrary: m)
  case (Cons a vs)
  let ?m = "if overwrite \<or> map_get m (key a) = None then map_set (key a) a m else m"
  have l: "load_into overwrite key (a # vs) m = load_into overwrite key vs ?m" by (simp add: load_into_def)
  have Q: "Q v" if "map_get ?m k = Some v" for v using that Cons.prems(1) [of a] Cons.prems(3) by (auto split: if_splits)
  have "(\<exists>v \<in> set vs. key v = k) \<or> (\<exists>v. map_get ?m k = Some v)" using Cons.prems(2) by auto
  with Q have "(\<exists>v \<in> set vs. key v = k) \<or> (\<exists>v. map_get ?m k = Some v \<and> Q v)" by blast
  from Cons.IH [OF _ this Q] Cons.prems(1) show ?case unfolding l by simp
qed (simp add: load_into_def)

lemma load_by_hand:
  assumes "by_hand k s"
  shows "by_hand k (load_identity overwrite s)"
proof -
  let ?key = "\<lambda>r. person_key (dr_principalId r)" and ?Q = "\<lambda>r. dr_source r = Manual"
  have ok: "records_ok (id_store s)" and st: "map_option dr_source (map_get (id_store s) k) = Some Manual"
    and de: "map_option dr_source (map_get (id_deactivated s) k) = Some Manual" using assms by (simp_all add: by_hand_def)
  have all: "set (dm_all (id_store s)) = {v. \<exists>i. map_get (id_store s) i = Some v}" using ok set_dm_all by (auto simp: records_ok_def)
  have "\<exists>v. map_get (load_into overwrite ?key (dm_all (id_store s)) (if overwrite then [] else id_deactivated s)) k = Some v \<and> ?Q v"
  proof (rule load_into_keeps)
    show "?Q v" if "v \<in> set (dm_all (id_store s))" "?key v = k" for v
      using that ok st unfolding all records_ok_def by auto
    have "\<exists>v \<in> set (dm_all (id_store s)). ?key v = k" using st ok unfolding all records_ok_def by auto
    then show "(\<exists>v \<in> set (dm_all (id_store s)). ?key v = k) \<or> (\<exists>v. map_get (if overwrite then [] else id_deactivated s) k = Some v \<and> ?Q v)" ..
    show "?Q v" if "map_get (if overwrite then [] else id_deactivated s) k = Some v" for v using that de by (auto split: if_splits)
  qed
  then show ?thesis using ok st by (auto simp: by_hand_def load_identity_def)
qed

lemma deactivate_ok: "records_ok (id_store s) \<Longrightarrow> records_ok (id_store (deactivate_person now i source s))"
  by (auto simp: deactivate_person_def records_ok_def Let_def dm_put_def split: option.split if_splits)

lemma deactivate_by_hand:
  assumes "by_hand k s"
  shows "by_hand k (deactivate_person now i source s)"
  using assms deactivate_ok [of s now i source] by (auto simp: by_hand_def deactivate_person_def Let_def dm_put_def split: option.split)

lemma reactivate_by_hand:
  assumes "by_hand k s" and "person_key i \<noteq> k"
  shows "by_hand k (reactivate_person i s)"
  using assms by (auto simp: by_hand_def reactivate_person_def records_ok_def Let_def dm_delete_def split: if_splits)

lemma sync_removed_by_hand: "by_hand k s \<Longrightarrow> by_hand k (fst (sync_removed now is (s, out)))"
  by (induction "is" arbitrary: s out) (simp_all add: deactivate_by_hand)

lemma sync_present_by_hand: "by_hand k s \<Longrightarrow> by_hand k (fst (sync_present is (s, out)))"
proof (induction "is" arbitrary: s out)
  case (Cons i "is")
  show ?case
  proof (cases "map_option dr_source (map_get (id_deactivated s) (person_key i)) = Some DirectorySync")
    case True
    then have "person_key i \<noteq> k" using Cons.prems by (auto simp: by_hand_def)
    then show ?thesis using True Cons reactivate_by_hand by simp
  qed (use Cons in simp)
qed simp

lemma identity_step_by_hand:
  assumes "by_hand k s" and "\<And>i. a = IOReactivate i \<Longrightarrow> person_key i \<noteq> k"
  shows "by_hand k (identity_step a s)"
proof (cases a)
  case (IOSync now removed present)
  obtain s1 out where s1: "sync_removed now removed (s, []) = (s1, out)" by fastforce
  have "by_hand k s1" using sync_removed_by_hand [OF assms(1), of now removed "[]"] s1 by simp
  from sync_present_by_hand [OF this, of present "[]"] s1 IOSync show ?thesis
    by (auto simp: recordDirectorySync_def split: prod.splits)
next
  case (IORefresh force now after)
  then show ?thesis using assms(1) load_by_hand [OF assms(1), of True] by (auto simp: refresh_def by_hand_def)
next
  case IOHydrate
  then show ?thesis using assms(1) load_by_hand [OF assms(1), of False] by (auto simp: hydrate_def by_hand_def)
next
  case (IOPut m)
  then show ?thesis using assms(1) by (simp add: putExternalMember_def by_hand_def Let_def)
next
  case (IORemove i)
  then show ?thesis using assms(1) by (simp add: removeExternalMember_def by_hand_def Let_def)
qed (use assms in \<open>simp_all add: deactivate_by_hand reactivate_by_hand\<close>)



end
