(* ===== verification/Source_Auth.thy ===== *)
theory Source_Auth
  imports Budget
begin

text \<open>
  Signed requests of the surfaces (\<open>src/auth/source-auth.ts\<close>, \<open>src/auth/source-auth-sign.ts\<close> and
  \<open>verifyOrReject\<close> of \<open>src/api/http.ts\<close>): a keyed hash over the time and the request, a window around the
  clock and the guard against replays. The keyed hash is an argument; a time stamp is a whole number of
  seconds, \<open>None\<close> where it is no finite number. The clock is read twice, for the signature and for the
  guard.
\<close>

section \<open>Signing\<close>

definition SOURCE_AUTH_REPLAY_WINDOW_MS :: int where "SOURCE_AUTH_REPLAY_WINDOW_MS = 5 * 60000"
definition MIN_SIGNING_SECRET_LENGTH :: nat where "MIN_SIGNING_SECRET_LENGTH = 32"

definition isStrongSigningSecret :: "string option \<Rightarrow> bool" where
  "isStrongSigningSecret secret = (MIN_SIGNING_SECRET_LENGTH \<le> (case secret of None \<Rightarrow> 0 | Some s \<Rightarrow> length (trim s)))"

definition canonicalPayload :: "string \<Rightarrow> string \<Rightarrow> string \<Rightarrow> string" where
  "canonicalPayload meth pathWithQuery body = meth @ [CHR 10] @ pathWithQuery @ [CHR 10] @ body"

definition signRequest :: "(string \<Rightarrow> string \<Rightarrow> string) \<Rightarrow> string \<Rightarrow> int \<Rightarrow> string \<Rightarrow> string" where
  "signRequest hmac secret timestampSec canonical = ''v0='' @ hmac secret (''v0:'' @ show_int timestampSec @ '':'' @ canonical)"

definition signedRequestHeaders ::
  "(string \<Rightarrow> string \<Rightarrow> string) \<Rightarrow> string option \<Rightarrow> string \<Rightarrow> string \<Rightarrow> string \<Rightarrow> (string, string) jsmap \<Rightarrow> int \<Rightarrow> (string, string) jsmap" where
  "signedRequestHeaders hmac secret meth pathWithQuery body base nowSec =
     (if \<not> truthy secret then base
      else
        (let canonical = canonicalPayload meth pathWithQuery body
         in map_set ''x-signature'' (signRequest hmac (the secret) nowSec canonical) (map_set ''x-timestamp'' (show_int nowSec) base)))"

section \<open>Verifying\<close>

record source_request =
  sr_signature :: string
  sr_timestamp :: "int option"
  sr_body :: string
  sr_eventId :: string

datatype source_result = SourceOk | SourceUnsigned | SourceTimestamp | SourceStale | SourceMismatch | SourceDuplicate

definition verifySignature :: "(string \<Rightarrow> string \<Rightarrow> string) \<Rightarrow> string \<Rightarrow> source_request \<Rightarrow> time \<Rightarrow> int \<Rightarrow> source_result" where
  "verifySignature hmac secret req now replayWindowMs =
     (if sr_signature req = [] then SourceUnsigned
      else
        (case sr_timestamp req of
           None \<Rightarrow> SourceTimestamp
         | Some ts \<Rightarrow>
             if replayWindowMs < \<bar>now - ts * 1000\<bar> then SourceStale
             else if signRequest hmac secret ts (sr_body req) \<noteq> sr_signature req then SourceMismatch
             else SourceOk))"

definition source_verify ::
  "(string \<Rightarrow> string \<Rightarrow> string) \<Rightarrow> string \<Rightarrow> int \<Rightarrow> time \<Rightarrow> time \<Rightarrow> source_request \<Rightarrow> replay_dedupe \<Rightarrow> replay_dedupe \<times> source_result" where
  "source_verify hmac secret replayWindowMs t t2 req s =
     (case verifySignature hmac secret req t replayWindowMs of
        SourceOk \<Rightarrow>
          (case replay_claim t2 (sr_eventId req) (the (sr_timestamp req) * 1000 + replayWindowMs) s of
             (s1, claimed) \<Rightarrow> (s1, if claimed then SourceOk else SourceDuplicate))
      | r \<Rightarrow> (s, r))"

text \<open>
  A request of the HTTP interface: the signature names the event. Without a secret only what may be unsigned
  passes; without the guard the signature alone decides.
\<close>

definition verifyOrReject ::
  "(string \<Rightarrow> string \<Rightarrow> string) \<Rightarrow> string option \<Rightarrow> bool \<Rightarrow> bool \<Rightarrow> time \<Rightarrow> time \<Rightarrow> string \<Rightarrow> int option \<Rightarrow> string \<Rightarrow> replay_dedupe \<Rightarrow> replay_dedupe \<times> bool" where
  "verifyOrReject hmac secret dedup allowUnsigned t t2 signature timestamp payload s =
     (if \<not> truthy secret then (s, allowUnsigned)
      else
        (let req = \<lparr>sr_signature = signature, sr_timestamp = timestamp, sr_body = payload, sr_eventId = signature\<rparr>
         in if dedup then (case source_verify hmac (the secret) SOURCE_AUTH_REPLAY_WINDOW_MS t t2 req s of (s1, r) \<Rightarrow> (s1, r = SourceOk))
            else (s, verifySignature hmac (the secret) req t SOURCE_AUTH_REPLAY_WINDOW_MS = SourceOk)))"

section \<open>A request is accepted once\<close>

type_synonym source_arrival = "time \<times> time \<times> source_request"

fun source_step :: "(string \<Rightarrow> string \<Rightarrow> string) \<Rightarrow> string \<Rightarrow> int \<Rightarrow> source_arrival \<Rightarrow> replay_dedupe \<Rightarrow> replay_dedupe" where
  "source_step hmac secret w (t, t2, req) s = fst (source_verify hmac secret w t t2 req s)"

lemma verifySignature_ok:
  "verifySignature hmac secret req t w = SourceOk \<longleftrightarrow>
     sr_signature req \<noteq> [] \<and> (\<exists>ts. sr_timestamp req = Some ts \<and> \<bar>t - ts * 1000\<bar> \<le> w \<and> signRequest hmac secret ts (sr_body req) = sr_signature req)"
  by (auto simp: verifySignature_def split: option.splits)

lemma source_verify_cases:
  obtains "fst (source_verify hmac secret w t t2 req s) = s" "snd (source_verify hmac secret w t t2 req s) \<noteq> SourceOk"
  | ts where "verifySignature hmac secret req t w = SourceOk" "sr_timestamp req = Some ts"
    "fst (source_verify hmac secret w t t2 req s) = fst (replay_claim t2 (sr_eventId req) (ts * 1000 + w) s)"
    "snd (source_verify hmac secret w t t2 req s) = SourceOk \<longleftrightarrow> snd (replay_claim t2 (sr_eventId req) (ts * 1000 + w) s)"
proof (cases "verifySignature hmac secret req t w")
  case SourceOk
  then obtain ts where "sr_timestamp req = Some ts" by (auto simp: verifySignature_ok)
  with SourceOk show ?thesis by (intro that(2)) (auto simp: source_verify_def case_prod_beta)
qed (auto simp: source_verify_def intro: that(1))

lemma source_steps_keep:
  assumes "map_ok (rp_seen s)" "map_get (rp_seen s) i = Some ex" and "list_all (\<lambda>(t, t2, r). t2 \<le> ex) as"
  shows "map_ok (rp_seen (fold (source_step hmac secret w) as s)) \<and> map_get (rp_seen (fold (source_step hmac secret w) as s)) i = Some ex"
  using assms
proof (induction as arbitrary: s)
  case (Cons a as)
  obtain t t2 r where a: "a = (t, t2, r)" by (cases a) auto
  let ?s = "fst (source_verify hmac secret w t t2 r s)"
  have "map_ok (rp_seen ?s) \<and> map_get (rp_seen ?s) i = Some ex"
    using Cons.prems a seen_claim [OF Cons.prems(1,2)]
    by (cases rule: source_verify_cases [of hmac secret w t t2 r s]) (auto intro: map_ok_replay)
  then show ?case using Cons.IH [of ?s] Cons.prems(3) a by simp
qed simp

lemma source_steps_ok: "map_ok (rp_seen s) \<Longrightarrow> map_ok (rp_seen (fold (source_step hmac secret w) as s))"
proof (induction as arbitrary: s)
  case (Cons a as)
  obtain t t2 r where "a = (t, t2, r)" by (cases a) auto
  moreover have "map_ok (rp_seen (fst (source_verify hmac secret w t t2 r s)))"
    using Cons.prems by (cases rule: source_verify_cases [of hmac secret w t t2 r s]) (auto intro: map_ok_replay)
  ultimately show ?case using Cons.IH by simp
qed simp

text \<open>
  C31. A signed request that was accepted is not accepted again, however much later it is repeated and whatever arrives
  before and in between, except when its window closes between the two readings of the clock of one
  verification: then the signature is still fresh and the guard has forgotten.
\<close>

theorem source_request_accepted_once:
  assumes "snd (source_verify hmac secret w t t2 req (fold (source_step hmac secret w) before createMemoryReplayDedupe)) = SourceOk"
    and "list_all (\<lambda>(u, u2, r). u2 \<le> t') between"
    and "snd (source_verify hmac secret w t' t2' req
           (fold (source_step hmac secret w) (between :: source_arrival list)
              (source_step hmac secret w (t, t2, req) (fold (source_step hmac secret w) before createMemoryReplayDedupe)))) = SourceOk"
  shows "\<exists>ts. sr_timestamp req = Some ts \<and> t' \<le> ts * 1000 + w \<and> ts * 1000 + w < t2'"
proof -
  let ?s0 = "fold (source_step hmac secret w) before createMemoryReplayDedupe"
  let ?s1 = "source_step hmac secret w (t, t2, req) ?s0"
  let ?s2 = "fold (source_step hmac secret w) between ?s1"
  have ok: "map_ok (rp_seen ?s0)" by (rule source_steps_ok) (simp add: createMemoryReplayDedupe_def)
  from assms(1) obtain ts where ts: "sr_timestamp req = Some ts" "snd (replay_claim t2 (sr_eventId req) (ts * 1000 + w) ?s0)"
    "?s1 = fst (replay_claim t2 (sr_eventId req) (ts * 1000 + w) ?s0)"
    by (cases rule: source_verify_cases [of hmac secret w t t2 req ?s0]) auto
  have "map_get (rp_seen ?s1) (sr_eventId req) = Some (ts * 1000 + w)" "map_ok (rp_seen ?s1)"
    using ts ok map_ok_replay(2) [OF ok] by (auto simp: replay_claim_def Let_def split: option.splits if_splits)
  note seen = this
  from assms(3) ts(1) have fresh: "t' \<le> ts * 1000 + w" and claim: "snd (replay_claim t2' (sr_eventId req) (ts * 1000 + w) ?s2)"
    by (cases rule: source_verify_cases [of hmac secret w t' t2' req ?s2]; auto simp: verifySignature_ok)+
  have "list_all (\<lambda>(u, u2, r). u2 \<le> ts * 1000 + w) between" using assms(2) fresh by (auto simp: list_all_iff)
  note kept = source_steps_keep [OF seen(2,1) this, of hmac secret w]
  show ?thesis using seen_claim [of ?s2 "sr_eventId req" "ts * 1000 + w" t2' "sr_eventId req"] kept claim ts(1) fresh by force
qed

definition ex_signed :: source_request where
  "ex_signed = \<lparr>sr_signature = ''v0=ok'', sr_timestamp = Some 1, sr_body = ''b'', sr_eventId = ''v0=ok''\<rparr>"

text \<open>The request is repeated just as its window of one second closes.\<close>

theorem source_request_accepted_once_witness:
  "snd (source_verify (\<lambda>k m. ''ok'') ''key'' 1000 2000 2001 ex_signed
      (fold (source_step (\<lambda>k m. ''ok'') ''key'' 1000) [(1500, 1500, ex_signed)] (source_step (\<lambda>k m. ''ok'') ''key'' 1000 (1000, 1000, ex_signed)
        createMemoryReplayDedupe))) = SourceOk \<and>
   (\<exists>ts. sr_timestamp ex_signed = Some ts \<and> 2000 \<le> ts * 1000 + 1000 \<and> ts * 1000 + 1000 < (2001 :: int))"
proof -
  have a: "snd (source_verify (\<lambda>k m. ''ok'') ''key'' 1000 1000 1000 ex_signed (fold (source_step (\<lambda>k m. ''ok'') ''key'' 1000) [] createMemoryReplayDedupe)) = SourceOk"
    by code_simp
  have b: "snd (source_verify (\<lambda>k m. ''ok'') ''key'' 1000 2000 2001 ex_signed
      (fold (source_step (\<lambda>k m. ''ok'') ''key'' 1000) [(1500, 1500, ex_signed)] (source_step (\<lambda>k m. ''ok'') ''key'' 1000 (1000, 1000, ex_signed)
        (fold (source_step (\<lambda>k m. ''ok'') ''key'' 1000) [] createMemoryReplayDedupe)))) = SourceOk" by code_simp
  from source_request_accepted_once [OF a _ b] b show ?thesis by simp
qed

text \<open>What the signer signs is accepted the first time, while the clocks are no further apart than the window.\<close>

lemma signed_request_accepted:
  assumes "secret \<noteq> []" and "\<bar>t - nowSec * 1000\<bar> \<le> SOURCE_AUTH_REPLAY_WINDOW_MS"
    and "signature = signRequest hmac secret nowSec payload" and "map_get (rp_seen (replay_prune t2 s)) signature = None"
  shows "snd (verifyOrReject hmac (Some secret) dedup allow t t2 signature (Some nowSec) payload s)"
  using assms by (simp add: verifyOrReject_def truthy_def Let_def source_verify_def verifySignature_def replay_claim_def signRequest_def split: prod.split)

end
