(* ===== verification/Revisions.thy ===== *)
theory Revisions
  imports Session_Tape Session_Views Wake
begin

text \<open>
  Messages that people edit or delete after the agent has seen them (\<open>src/core/message-revisions.ts\<close>, and the
  thread references of \<open>src/slack/message-gating.ts\<close>): what is recorded in the log of each session of
  the thread, when its lease is free, and at the start of a turn for what was revised since. Time stamps are
  the texts of the surface; their reading as a time and the cache of the surface are arguments. A stored
  revision whose text is no text counts as one without.
\<close>

section \<open>Threads\<close>

definition dmThreadRef :: "string \<Rightarrow> string option \<Rightarrow> string" where
  "dmThreadRef channel threadTs = ''dm:'' @ channel @ (if truthy threadTs then '':'' @ the threadTs else [])"

definition channelThreadRef :: "bool \<Rightarrow> string \<Rightarrow> string \<Rightarrow> string" where
  "channelThreadRef grp channel root = (if grp then ''grp'' else ''ch'') @ '':'' @ channel @ '':'' @ root"

definition slackThreadRefCandidates :: "string \<Rightarrow> string \<Rightarrow> string option \<Rightarrow> string list" where
  "slackThreadRefCandidates channel ts threadTs =
     (let root = (if truthy threadTs then the threadTs else ts)
      in js_set_of [dmThreadRef channel None, dmThreadRef channel (Some root), channelThreadRef False channel root, channelThreadRef True channel root])"

text \<open>\<open>/^(?:dm|ch|grp):([^:]+)(?::(.+))?$/\<close>: the root is on one line.\<close>

definition parseSlackThreadRef :: "string \<Rightarrow> (string \<times> string option) option" where
  "parseSlackThreadRef ref =
     (case index_of (CHR '':'') ref of
        None \<Rightarrow> None
      | Some n \<Rightarrow>
          if take n ref \<notin> {''dm'', ''ch'', ''grp''} then None
          else
            (let rest = drop (Suc n) ref; container = takeWhile (\<lambda>c. c \<noteq> CHR '':'') rest; root = drop (Suc (length container)) rest
             in if container = [] then None
                else if length container = length rest then Some (container, None)
                else if root = [] \<or> CHR 10 \<in> set root \<or> CHR 13 \<in> set root then None
                else Some (container, Some root)))"

section \<open>Revisions\<close>

record message_revision =
  mr_deleted :: bool
  mr_ts :: string
  mr_text :: "string option"
  mr_name :: "string option"

record revision_source =
  rs_ts :: string
  rs_deleted :: bool
  rs_text :: "string option"

definition messageRevision :: "session_entry \<Rightarrow> message_revision option" where
  "messageRevision e =
     (let p = en_payload e; action = field ''action'' p
      in if en_type e \<noteq> ESystem \<or> field ''kind'' p \<noteq> Some (JStr ''message_revision'') then None
         else if action \<noteq> Some (JStr ''edited'') \<and> action \<noteq> Some (JStr ''deleted'') then None
         else
           (case string_field ''ts'' p of
              None \<Rightarrow> None
            | Some ts \<Rightarrow>
                if ts = [] then None
                else Some \<lparr>mr_deleted = (action = Some (JStr ''deleted'')), mr_ts = ts, mr_text = string_field ''text'' p, mr_name = string_field ''name'' p\<rparr>))"

definition renderMessageRevision :: "(string \<Rightarrow> string) \<Rightarrow> message_revision \<Rightarrow> string" where
  "renderMessageRevision isoFromTs p =
     (let q = [CHR 0x22];
          attrs = join '' ''
            ([''id='' @ q @ xmlAttrEscape (mr_ts p) @ q] @
             (if trim (or_else (mr_name p) []) \<noteq> [] then [''author='' @ q @ xmlAttrEscape (trim (or_else (mr_name p) [])) @ q] else []) @
             (if isoFromTs (mr_ts p) \<noteq> [] then [''sent-at='' @ q @ isoFromTs (mr_ts p) @ q] else []))
      in if mr_deleted p then ''<message-deleted '' @ attrs @ ''>the author deleted this message</message-deleted>''
         else ''<message-edited '' @ attrs @ ''>'' @ xmlEscape (or_else (mr_text p) []) @ ''</message-edited>'')"

definition revision_json :: "message_revision \<Rightarrow> json" where
  "revision_json p =
     JObj ([(''kind'', JStr ''message_revision''), (''action'', JStr (if mr_deleted p then ''deleted'' else ''edited'')), (''ts'', JStr (mr_ts p))] @
       (case mr_text p of None \<Rightarrow> [] | Some t \<Rightarrow> [(''text'', JStr t)]) @ (case mr_name p of None \<Rightarrow> [] | Some n \<Rightarrow> [(''name'', JStr n)]))"

record ingest_event =
  ie_container :: string
  ie_ts :: string
  ie_sub :: "string option"
  ie_text :: "string option"
  ie_self :: bool
  ie_editedAt :: "time option"
  ie_deleted :: bool

definition isRevisionEvent :: "ingest_event \<Rightarrow> bool" where
  "isRevisionEvent e = (\<not> ie_self e \<and> ie_ts e \<noteq> [] \<and> (ie_deleted e \<or> ie_editedAt e \<noteq> None))"

definition hasRevisionEvents :: "ingest_event list \<Rightarrow> bool" where
  "hasRevisionEvents events = list_ex isRevisionEvent events"

definition event_source :: "ingest_event \<Rightarrow> revision_source" where
  "event_source e = \<lparr>rs_ts = ie_ts e, rs_deleted = ie_deleted e, rs_text = ie_text e\<rparr>"

text \<open>The original, its text and its author; nothing when a message with that time stamp was withheld from the agent.\<close>

definition original_of :: "json \<Rightarrow> string \<times> string option" where
  "original_of p =
     (or_else (string_field ''text'' p) [],
      (case string_field ''name'' p of None \<Rightarrow> None | Some n \<Rightarrow> if trim n \<noteq> [] then Some (trim n) else None))"

fun find_original :: "string \<Rightarrow> (string \<times> string option) option \<Rightarrow> session_entry list \<Rightarrow> (string \<times> string option) option" where
  "find_original ts found [] = found"
| "find_original ts found (e # es) =
     (let p = en_payload e
      in if en_type e \<noteq> EUser \<or> field ''ts'' p \<noteq> Some (JStr ts) then find_original ts found es
         else if field ''hidden'' p = Some (JBool True) \<or> field ''securityTainted'' p = Some (JBool True) then None
         else find_original ts (Some (original_of p)) es)"

definition findOriginal :: "session_entry list \<Rightarrow> string \<Rightarrow> (string \<times> string option) option" where
  "findOriginal entries ts = find_original ts None entries"

definition last_revision :: "session_entry list \<Rightarrow> string \<Rightarrow> message_revision option" where
  "last_revision entries ts = foldl (\<lambda>l e. case messageRevision e of Some r \<Rightarrow> if mr_ts r = ts then Some r else l | None \<Rightarrow> l) None entries"

text \<open>What the message reads now: \<open>None\<close> when it was deleted.\<close>

definition effective_text :: "session_entry list \<Rightarrow> string \<Rightarrow> string \<Rightarrow> string option" where
  "effective_text entries ts original =
     (case last_revision entries ts of None \<Rightarrow> Some original | Some r \<Rightarrow> if mr_deleted r then None else Some (or_else (mr_text r) original))"

definition revisionToRecord :: "session_entry list \<Rightarrow> revision_source \<Rightarrow> message_revision option" where
  "revisionToRecord entries source =
     (case findOriginal entries (rs_ts source) of
        None \<Rightarrow> None
      | Some (original, name) \<Rightarrow>
          if rs_deleted source
          then (if (case last_revision entries (rs_ts source) of None \<Rightarrow> False | Some r \<Rightarrow> mr_deleted r) then None
                else Some \<lparr>mr_deleted = True, mr_ts = rs_ts source, mr_text = None, mr_name = name\<rparr>)
          else
            (let t = or_else (rs_text source) []
             in if trim t = [] \<or> Some t = effective_text entries (rs_ts source) original then None
                else Some \<lparr>mr_deleted = False, mr_ts = rs_ts source, mr_text = Some t, mr_name = name\<rparr>))"

section \<open>Recording\<close>

definition recordRevision ::
  "(string \<Rightarrow> string) \<Rightarrow> time \<Rightarrow> time \<Rightarrow> time \<Rightarrow> session_lease \<Rightarrow> scope_id \<Rightarrow> session_entry list \<Rightarrow> revision_source \<Rightarrow> session_store \<Rightarrow>
     session_store \<times> (write_error + bool)" where
  "recordRevision isoFromTs t1 t2 t3 l scope entries source st =
     (case revisionToRecord entries source of
        None \<Rightarrow> (st, Inr False)
      | Some p \<Rightarrow>
          (case appendEntryOutsideTurn t1 t2 t3 l \<lparr>ne_type = ESystem, ne_payload = revision_json p, ne_scopeLabel = scope\<rparr>
                  (Some (\<lambda>e. renderMessageRevision isoFromTs p)) st of
             (st1, Inl err) \<Rightarrow> (st1, Inl err)
           | (st1, Inr _) \<Rightarrow> (st1, Inr True)))"

text \<open>
  An attempt to record: what others do to the store while the source sleeps before it, the time and token of
  the lease, and the times of the writes. The lease is given back also when a write fails.
\<close>

record idle_attempt =
  ia_between :: "session_store \<Rightarrow> session_store"
  ia_at :: time
  ia_token :: uuid
  ia_writes :: "time \<times> time \<times> time"

fun record_attempts ::
  "(string \<Rightarrow> string) \<Rightarrow> string \<Rightarrow> scope_id \<Rightarrow> revision_source \<Rightarrow> idle_attempt list \<Rightarrow> session_store \<Rightarrow> session_store \<times> write_error option" where
  "record_attempts isoFromTs i scope source [] st = (st, None)"
| "record_attempts isoFromTs i scope source (a # as) st =
     (case acquireLease (ia_at a) (ia_token a) i (Some LhBackfill) (ia_between a st) of
        (st1, r) \<Rightarrow>
          (case la_lease r of
             None \<Rightarrow> record_attempts isoFromTs i scope source as st1
           | Some l \<Rightarrow>
               (case ia_writes a of (t1, t2, t3) \<Rightarrow>
                  (case recordRevision isoFromTs t1 t2 t3 l scope (getEntries st1 i None None) source st1 of
                     (st2, Inl e) \<Rightarrow> (releaseLease_session l st2, Some e)
                   | (st2, Inr _) \<Rightarrow> (releaseLease_session l st2, None)))))"

definition DEFAULT_IDLE_ATTEMPTS :: nat where "DEFAULT_IDLE_ATTEMPTS = 4"

definition recordWhenIdle ::
  "(string \<Rightarrow> string) \<Rightarrow> string \<Rightarrow> scope_id \<Rightarrow> revision_source \<Rightarrow> idle_attempt list \<Rightarrow> session_store \<Rightarrow> session_store \<times> write_error option" where
  "recordWhenIdle isoFromTs i scope source attempts st =
     (if revisionToRecord (getEntries st i None None) source = None then (st, None)
      else record_attempts isoFromTs i scope source attempts st)"

text \<open>The sessions of the thread one after the other; an error ends the whole call.\<close>

fun record_in_sessions ::
  "(string \<Rightarrow> string) \<Rightarrow> revision_source \<Rightarrow> (string \<Rightarrow> idle_attempt list) \<Rightarrow> session_ref list \<Rightarrow> session_store \<Rightarrow> session_store \<times> write_error option" where
  "record_in_sessions isoFromTs source attempts [] st = (st, None)"
| "record_in_sessions isoFromTs source attempts (r # rs) st =
     (case recordWhenIdle isoFromTs (sf_id r) (sf_scopeId r) source (attempts (sf_id r)) st of
        (st1, Some e) \<Rightarrow> (st1, Some e)
      | (st1, None) \<Rightarrow> record_in_sessions isoFromTs source attempts rs st1)"

fun record_events ::
  "(string \<Rightarrow> string) \<Rightarrow> (ingest_event \<Rightarrow> string \<Rightarrow> idle_attempt list) \<Rightarrow> ingest_event list \<Rightarrow> session_store \<Rightarrow> session_store \<times> write_error option" where
  "record_events isoFromTs attempts [] st = (st, None)"
| "record_events isoFromTs attempts (ev # evs) st =
     (case record_in_sessions isoFromTs (event_source ev) (attempts ev)
             (sessionsByThreadRefs st (slackThreadRefCandidates (ie_container ev) (ie_ts ev) (ie_sub ev))) st of
        (st1, Some e) \<Rightarrow> (st1, Some e)
      | (st1, None) \<Rightarrow> record_events isoFromTs attempts evs st1)"

definition recordMessageRevisions ::
  "(string \<Rightarrow> string) \<Rightarrow> (ingest_event \<Rightarrow> string \<Rightarrow> idle_attempt list) \<Rightarrow> ingest_event list \<Rightarrow> session_store \<Rightarrow> session_store \<times> write_error option" where
  "recordMessageRevisions isoFromTs attempts events st = record_events isoFromTs attempts (filter isRevisionEvent events) st"

definition ANCHOR_WALK_BACK :: nat where "ANCHOR_WALK_BACK = 8"

fun walk_back :: "session_store \<Rightarrow> string \<Rightarrow> nat \<Rightarrow> int \<Rightarrow> time option" where
  "walk_back st i 0 seq = None"
| "walk_back st i (Suc n) seq =
     (if seq < 0 then None
      else
        (case getEntry st i (nat seq) of
           None \<Rightarrow> None
         | Some e \<Rightarrow> if en_type e = EUser \<or> en_type e = EAssistant then Some (en_createdAt e) else walk_back st i n (seq - 1)))"

definition revisionAnchorAt :: "session_store \<Rightarrow> string \<Rightarrow> time option" where
  "revisionAnchorAt st i = walk_back st i ANCHOR_WALK_BACK (latestEntrySeq st i)"

text \<open>
  At the start of a turn, under its lease: \<open>revisedSince\<close> is the cache, \<open>triggerMs\<close> the time of the
  message that started the turn. All rows are compared with the entries read before the first is recorded.
\<close>

fun reconcile_rows ::
  "(string \<Rightarrow> string) \<Rightarrow> session_lease \<Rightarrow> scope_id \<Rightarrow> session_entry list \<Rightarrow> (revision_source \<times> time \<times> time \<times> time) list \<Rightarrow> nat \<Rightarrow> session_store \<Rightarrow>
     session_store \<times> (write_error + nat)" where
  "reconcile_rows isoFromTs l scope entries [] n st = (st, Inr n)"
| "reconcile_rows isoFromTs l scope entries ((row, t1, t2, t3) # rows) n st =
     (case recordRevision isoFromTs t1 t2 t3 l scope entries row st of
        (st1, Inl e) \<Rightarrow> (st1, Inl e)
      | (st1, Inr recorded) \<Rightarrow> reconcile_rows isoFromTs l scope entries rows (if recorded then Suc n else n) st1)"

definition reconcileMessageRevisions ::
  "(string \<Rightarrow> string) \<Rightarrow> (string \<Rightarrow> time \<Rightarrow> string option \<Rightarrow> (revision_source \<times> time \<times> time \<times> time) list) \<Rightarrow> session_lease \<Rightarrow> string \<Rightarrow> scope_id \<Rightarrow>
     string \<Rightarrow> time option \<Rightarrow> time \<Rightarrow> time option \<Rightarrow> session_store \<Rightarrow> session_store \<times> (write_error + nat)" where
  "reconcileMessageRevisions isoFromTs revisedSince l i scope threadRef anchorAt fallbackSince triggerMs st =
     (case parseSlackThreadRef threadRef of
        None \<Rightarrow> (st, Inr 0)
      | Some (container, root) \<Rightarrow>
          (let start = or_else anchorAt fallbackSince;
               since = max 1 (case triggerMs of None \<Rightarrow> start | Some t \<Rightarrow> min start t);
               revised = revisedSince container since root
           in if revised = [] then (st, Inr 0)
              else reconcile_rows isoFromTs l scope (getEntries st i None None) revised 0 st))"

section \<open>What a message reads\<close>

lemma revision_entry_read:
  assumes "en_type e = ESystem" and "en_payload e = revision_json p" and "mr_ts p \<noteq> []"
  shows "messageRevision e = Some p"
  using assms by (cases p) (auto simp: messageRevision_def revision_json_def field_def string_field_def split: option.splits)

lemma find_original_system: "en_type e \<noteq> EUser \<Longrightarrow> find_original ts f (es @ [e]) = find_original ts f es"
  by (induction es arbitrary: f) (simp_all add: Let_def)

lemma last_revision_append:
  "last_revision (es @ [e]) ts = (case messageRevision e of Some r \<Rightarrow> if mr_ts r = ts then Some r else last_revision es ts | None \<Rightarrow> last_revision es ts)"
  by (simp add: last_revision_def split: option.split)

text \<open>The state of a message: not there (or withheld), deleted, or its text.\<close>

datatype message_state = Absent | Deleted | Reads string

definition message_state :: "session_entry list \<Rightarrow> string \<Rightarrow> message_state" where
  "message_state entries ts =
     (case findOriginal entries ts of
        None \<Rightarrow> Absent
      | Some (original, name) \<Rightarrow> (case effective_text entries ts original of None \<Rightarrow> Deleted | Some t \<Rightarrow> Reads t))"

text \<open>What the source says of the message; a blank edit says nothing.\<close>

definition revised_state :: "message_state \<Rightarrow> revision_source \<Rightarrow> message_state" where
  "revised_state s source =
     (if s = Absent then Absent
      else if rs_deleted source then Deleted
      else if trim (or_else (rs_text source) []) = [] then s else Reads (or_else (rs_text source) []))"

lemma outside_turn_log:
  assumes "appendEntryOutsideTurn t1 t2 t3 l e f st = (st', Inr x)"
  shows "log_of st' (le_sessionId l) = log_of st (le_sessionId l) @ [x] \<and> en_type x = ne_type e \<and> en_payload x = ne_payload e"
proof -
  from assms obtain st1 where a: "append_entry t1 l e st = (st1, Inr x)"
    by (auto simp: appendEntryOutsideTurn_def Let_def split: prod.splits sum.splits if_splits)
  have "log_of st' (le_sessionId l) = log_of st1 (le_sessionId l)"
    using assms a by (auto simp: appendEntryOutsideTurn_def Let_def dest!: append_tape_log [where i = "le_sessionId l"]
        split: prod.splits sum.splits if_splits option.splits)
  then show ?thesis using append_log [OF a] by (simp add: make_entry_def)
qed

lemma revision_appended:
  assumes "revisionToRecord es source = Some p" and "rs_ts source \<noteq> []" and "en_type e = ESystem" and "en_payload e = revision_json p"
  shows "message_state (es @ [e]) ts = (if ts = rs_ts source then revised_state (message_state es ts) source else message_state es ts)"
    and "revisionToRecord (es @ [e]) source = None"
proof -
  have p: "mr_ts p = rs_ts source" using assms(1) by (auto simp: revisionToRecord_def Let_def split: option.splits if_splits)
  then have r: "messageRevision e = Some p" using revision_entry_read assms(2-4) by simp
  have o: "findOriginal (es @ [e]) ts = findOriginal es ts" for ts using find_original_system [of e] assms(3) by (simp add: findOriginal_def)
  show "message_state (es @ [e]) ts = (if ts = rs_ts source then revised_state (message_state es ts) source else message_state es ts)"
    using assms(1) p by (auto simp: message_state_def revised_state_def o effective_text_def last_revision_append r revisionToRecord_def Let_def or_else_def
        split: option.splits if_splits prod.splits)
  show "revisionToRecord (es @ [e]) source = None"
    using assms(1) p by (auto simp: o effective_text_def last_revision_append r revisionToRecord_def Let_def or_else_def split: option.splits if_splits prod.splits)
qed

lemma not_recorded_state:
  assumes "revisionToRecord es source = None"
  shows "revised_state (message_state es (rs_ts source)) source = message_state es (rs_ts source)"
  using assms by (auto simp: message_state_def revised_state_def effective_text_def revisionToRecord_def Let_def or_else_def split: option.splits if_splits prod.splits)

text \<open>
  C12. After a revision was recorded, or found to be recorded, in a session: the message reads as the source says,
  deleted or with its new text; every other message reads as before; at most one entry was added; and
  recording the same revision again adds none.
\<close>

theorem revision_recorded:
  assumes "recordRevision isoFromTs t1 t2 t3 l scope (log_of st i) source st = (st', Inr recorded)" and "le_sessionId l = i" and "rs_ts source \<noteq> []"
  shows "message_state (log_of st' i) (rs_ts source) = revised_state (message_state (log_of st i) (rs_ts source)) source \<and>
    (\<forall>ts. ts \<noteq> rs_ts source \<longrightarrow> message_state (log_of st' i) ts = message_state (log_of st i) ts) \<and>
    length (log_of st' i) = length (log_of st i) + (if recorded then 1 else 0) \<and>
    revisionToRecord (log_of st' i) source = None"
proof (cases "revisionToRecord (log_of st i) source")
  case None
  then show ?thesis using assms(1) not_recorded_state by (simp add: recordRevision_def)
next
  case (Some p)
  with assms(1,2) obtain x where x: "log_of st' i = log_of st i @ [x]" "en_type x = ESystem" "en_payload x = revision_json p" and "recorded"
    by (auto simp: recordRevision_def dest!: outside_turn_log split: prod.splits sum.splits)
  with revision_appended [OF Some assms(3) x(2,3)] show ?thesis by simp
qed

section \<open>The theorem applied\<close>

definition ex_thread :: session_store where
  "ex_thread =
     fst (append_entry 1 \<lparr>le_sessionId = ''s1'', le_token = ''t''\<rparr>
       \<lparr>ne_type = EUser, ne_payload = JObj [(''ts'', JStr ''17.5''), (''text'', JStr ''at noon''), (''name'', JStr ''Ann'')], ne_scopeLabel = ''channel:C''\<rparr>
       (fst (acquireLease 0 ''t'' ''s1'' (Some LhTurn)
         (fst (getOrCreateByThread 0 ''s1'' ''ch:C:17.5'' StChannel ''channel:C'' None None (createMemorySessionStore None))))))"

definition ex_edit :: revision_source where
  "ex_edit = \<lparr>rs_ts = ''17.5'', rs_deleted = False, rs_text = Some ''at one''\<rparr>"

definition recorded_ok :: "session_store \<times> (write_error + bool) \<Rightarrow> bool" where
  "recorded_ok r = (snd r = Inr True)"

theorem revision_recorded_witness:
  "\<exists>st'. recordRevision (\<lambda>s. []) 2 3 4 \<lparr>le_sessionId = ''s1'', le_token = ''t''\<rparr> ''channel:C'' (log_of ex_thread ''s1'') ex_edit ex_thread = (st', Inr True) \<and>
     message_state (log_of ex_thread ''s1'') ''17.5'' = Reads ''at noon'' \<and> message_state (log_of st' ''s1'') ''17.5'' = Reads ''at one'' \<and>
     revisionToRecord (log_of st' ''s1'') ex_edit = None"
proof -
  let ?r = "recordRevision (\<lambda>s. []) 2 3 4 \<lparr>le_sessionId = ''s1'', le_token = ''t''\<rparr> ''channel:C'' (log_of ex_thread ''s1'') ex_edit ex_thread"
  have "recorded_ok ?r" by code_simp
  then obtain st' where st': "?r = (st', Inr True)" by (cases ?r) (simp add: recorded_ok_def)
  have m: "message_state (log_of ex_thread ''s1'') ''17.5'' = Reads ''at noon''" by code_simp
  have e: "rs_ts ex_edit = ''17.5''" "revised_state (Reads ''at noon'') ex_edit = Reads ''at one''" by code_simp+
  from revision_recorded [OF st'] e m st' show ?thesis by simp
qed

end
