(* ===== verification/Spec2Isabelle.thy ===== *)
theory Spec2Isabelle
  imports Run_Reaper Run_Signals Run_Worker Membership Acl Egress Loop_Item_Props Governor Deliveries Cron_Store Command_Approvals
    Session_Views Transcripts Lease_Wait Session_Tape Session_Share Swarm_Theorems Tasks Rate_Limits Budget Scheduler_Theorems Loop_Runner
    Webhook_Theorems Monitor_Theorems Tape_Theorems Tape_Images Compaction_Run Goal_Theorems
    Projects Admin Identity Source_Auth Revisions
begin

text \<open>
  \<^bold>\<open>A verification development for the core of the agent platform under \<open>src/\<close>.\<close>

  The platform runs agents for the people of an organisation. A surface (a chat, the web, a webhook, a cron, a
  watch on a job) asks for a turn; the turn is a run in a durable queue; a worker leases the run and
  hands it to the orchestrator, which takes the lease of the session, gives the model the part of the history its
  audience may see, lets it call tools under the policies of the scope, and appends to the log of the session;
  answers go to an outbox, from which the surfaces fetch them. Loops, crons, webhooks and swarms start such
  turns unattended. The development models the stores and decisions of this machine: state, guards, orders
  of steps, and the answers, errors included. All of it is TypeScript under \<open>src/src/\<close>; the paths below
  are relative to that directory.

  \<^bold>\<open>How the code becomes definitions.\<close> A closure or object with state is a record; its methods are definitions
  that take the state and return it changed, with their answer. A \<open>Map\<close> is an association list in insertion
  order, a \<open>DurableMap\<close> the type \<open>dmap\<close> with its memory implementation; an object that the code changes in
  place is the value under its key. A thrown error is \<open>Inl\<close> or a constructor of its own. Strings are lists of
  characters below 256, numbers are integers or naturals, JSON values the datatype \<open>json\<close>. The clock, random
  identifiers, hashes and everything that is not in the repository (the model, tokenizers, URL and RegExp engines,
  calendars, the sandbox) are arguments. Where other code runs while a function awaits, either the
  function is split at the await, or every await has its own clock reading and an arbitrary change of the store.

  \<^bold>\<open>Shared.\<close> \<open>Prelude\<close>: the JavaScript library the code uses (maps, sets, stable sort, strings, numbers as
  text) and lemmas on it. \<open>Json\<close>, \<open>Uri\<close>, \<open>Turn_Types\<close>, \<open>Thread_Refs\<close>, \<open>Scopes\<close> (\<open>types.ts\<close>,
  \<open>directory/person.ts\<close>, \<open>acl/resource-ref.ts\<close>): data and references. \<open>Interfaces\<close>: the locales
  \<open>invariant_system\<close> (a component whose operations keep an invariant) and \<open>token_guarded\<close> (an operation
  that only the holder of a token performs), interpreted for the run queue, the item ledger, the outputs, the outbox,
  the directory, the fires of crons, the tasks, the sessions, the swarms and the idempotency store.
  \<open>Durable_Map\<close> (\<open>persistence/durable-map.ts\<close>): the locale \<open>durable_map\<close> and the memory map that interprets it.

  \<^bold>\<open>Runs.\<close> \<open>Run_Store\<close> (\<open>runs/run-store.ts\<close>, \<open>runs/memory-run-store.ts\<close>): enqueueing once per key, leases with
  fencing tokens, retries, settlement, the reaper. \<open>Run_Invariants\<close>, \<open>Run_Queue\<close>, \<open>Run_Reaper\<close>: the step
  relation of all operations with the await of the reaper as an interleaving, its invariant, one running run per
  session, fencing, settlement once, recovery by one sweep, and the tool ledger. \<open>Run_Signals\<close>, \<open>Run_Worker\<close>: aborts
  and steers, the activity feed, and \<open>processRun\<close> with its heartbeat.

  \<^bold>\<open>Sessions.\<close> \<open>Session_Types\<close>, \<open>Session_Store\<close> (\<open>sessions/memory-session-store.ts\<close>): leases, the log, the tape, the
  search index, tenure, pins, deletion. \<open>Session_Props\<close>, \<open>Session_Theorems\<close>: every history of operations refines
  a set of append-only logs with one writer each; a lapsed lease writes nothing; a participant who left sees
  nothing new. \<open>Session_Views\<close>, \<open>Transcripts\<close>, \<open>Session_Share\<close>, \<open>Lease_Wait\<close>, \<open>Session_Tape\<close> (\<open>sessions/session-store.ts\<close>,
  \<open>sessions/session-share.ts\<close>): overviews, bounded transcripts, what a shared session shows, waiting within a
  budget, appending outside a turn. \<open>Revisions\<close> (\<open>core/message-revisions.ts\<close>): edited and deleted messages.

  \<^bold>\<open>What the model is given.\<close> \<open>Tape_Fold\<close>, \<open>Tape_Theorems\<close>, \<open>Tape_Images\<close> (\<open>harness/tape-fold.ts\<close>): the fold of the
  tape, its redaction for an audience, the repair of interrupted calls, images within a budget. \<open>Compaction\<close>,
  \<open>Compaction_Run\<close> (\<open>harness/context-compaction.ts\<close>, \<open>core/orchestrator/compaction.ts\<close>): plans, labels and writing
  of summaries, in a turn and in the background. \<open>Goals\<close>, \<open>Goal_Theorems\<close> (\<open>harness/goal.ts\<close>, \<open>harness/grind.ts\<close> and two
  tools of \<open>harness/agent-tools.ts\<close>): holding the agent to a goal. \<open>Wake\<close> (\<open>core/wake-envelope.ts\<close>): the
  envelope of an unattended turn, with its escaping.

  \<^bold>\<open>Who may.\<close> \<open>Membership\<close>, \<open>Acl\<close> (with the locale \<open>grant_store\<close>), \<open>Egress\<close>, \<open>Directory\<close>, \<open>Reach\<close>: scopes, grants,
  hosts, visibility, reaching people. \<open>Projects\<close> (\<open>projects/project-store.ts\<close>): rosters and their version.
  \<open>Admin\<close> (\<open>admin/\<close>), \<open>Identity\<close> (\<open>identity/\<close>): administrators and who is internal. \<open>Source_Auth\<close>
  (\<open>auth/source-auth.ts\<close>): signed requests. \<open>Rate_Limits\<close>, \<open>Budget\<close>: limits of rate and money and the guard against
  replays. \<open>Shell_Text\<close>, \<open>Shell_Scan\<close>, \<open>Heredocs\<close>, \<open>Shell_Segments\<close>, \<open>Shell_Walk\<close>, \<open>Command_Scan\<close>, \<open>Command_Policy\<close>,
  \<open>Command_Props\<close> (\<open>policy/command-policy.ts\<close>): the tokenizer, what a command executes, the rules and the floor.
  \<open>Command_Approvals\<close>: approvals of commands in a turn.

  \<^bold>\<open>Unattended work.\<close> \<open>Loop_Types\<close>, \<open>Loop_Items\<close>, \<open>Loop_Item_Props\<close>, \<open>Loop_Outputs\<close>, \<open>Loop_Store\<close>, \<open>Governor\<close>, \<open>Loop_Runner\<close>
  (\<open>loops/\<close>): work items under claims, outputs under shipping claims, the ship gate, one fire of a loop.
  \<open>Cron_Schedule\<close>, \<open>Cron_Fires\<close>, \<open>Cron_Store\<close>, \<open>Scheduler\<close>, \<open>Scheduler_Theorems\<close> (\<open>cron/\<close>): slots and fires.
  \<open>Trigger_Run\<close>, \<open>Trigger_Theorems\<close> (\<open>triggers/run-trigger.ts\<close>), \<open>Webhooks\<close>, \<open>Webhook_Theorems\<close> (\<open>webhooks/\<close>), \<open>Processes\<close>,
  \<open>Monitors\<close>, \<open>Monitor_Theorems\<close> (\<open>processes/\<close>, \<open>monitors/\<close>): what starts a turn and what its result may be sent to.
  \<open>Idempotency\<close>, \<open>Deliveries\<close>, \<open>Tasks\<close>: running once per key, the outbox, tasks. \<open>Swarm_Store\<close>, \<open>Swarm_Service\<close>,
  \<open>Swarm_Outbox\<close>, \<open>Swarm_Props\<close>, \<open>Swarm_Theorems\<close> (\<open>swarms/\<close>): agents that spawn agents within budgets.

  \<^bold>\<open>What is shown.\<close> Exclusion and fencing (C1, C2, C6, C27, C36); settlement, recovery and ends of loops (C3, C4, C15, C16,
  C17); refinement of the sessions to logs (C5); confinement of what an audience or a reader is shown (C7, C8, C9, C14,
  C19); what is kept, repaired, recorded and bounded of a conversation (C10 to C13); deliveries, events and slots handled
  once (C18, C20, C24, C25, C31); authority for what happens unattended (C21 to C23, C26, C37, C38); people and
  their rights (C28 to C30, C32, C33, C35); the shell (C34, C39); the life of a run (C40). Some theorems delimit
  where the code falls short of its aim: C14, C29, C31 and C34 state exactly when.

  \<^bold>\<open>Fuel and bounds.\<close> \<open>enforceGoal\<close> takes fuel for the rounds with the model, and C15 shows that six rounds for each call of
  a tool and five more are enough; \<open>acquireLeaseWithin\<close> is a partial function whose value may be \<open>None\<close>, and C17 shows that it
  never is. The scan of a command goes eight levels deep, as the source does. All other recursions have
  termination proofs.

  \<^bold>\<open>Not modelled.\<close> The Postgres stores (SQL; the rate limiter's single statement excepted), the orchestrator and the
  harness around the model (\<open>core/orchestrator.ts\<close>, \<open>harness/pi-harness.ts\<close>, most of \<open>harness/agent-tools.ts\<close>, \<open>wiring.ts\<close>:
  calls into the modelled parts, a model and its tools), the sandboxes (processes and providers), credentials
  (encryption and provider protocols), the HTTP interface and the surfaces (\<open>api/\<close>, \<open>slack/\<close>, \<open>plugins/\<close>: routing and user
  interfaces) and the command line with its deployment back ends (\<open>cli/\<close>: calls of cloud tools). Of the partly
  modelled files, timers, logging, metrics and the rendering of some texts are left out.
\<close>

end
